(* ===== verification/Repl_Prelude.thy ===== *)
theory Repl_Prelude
  imports Main "HOL-Library.Word"
begin

text \<open>
  Shared library of the development: the result types that stand for Go's
  \<open>(value, error)\<close> returns, the scan combinators that stand for the linear
  loops over the fact log, and the generic lemmas the component theories use.

  A Go string is a byte sequence, and so is a HOL \<open>string\<close> (a list of 8-bit
  characters); \<open>[]byte\<close> payloads (\<open>jswire.Value\<close>, \<open>json.RawMessage\<close>) are lists of
  8-bit words. The code tests payloads only with \<open>len\<close>, so the nil slice and
  the empty slice are both \<open>[]\<close>.
\<close>

named_theorems scan_simps \<open>rewriting of log scans over an extended log\<close>

type_synonym byte = "8 word"
type_synonym bytes = "byte list"

subsection \<open>Results\<close>

text \<open>
  \<open>'e + 'a\<close> is a Go function that returns a value or an error (\<open>Inl\<close> the
  error). \<open>('e, 'a) comp\<close> is such a function whose loop may also run forever:
  \<open>None\<close> means that it does not return.
\<close>

type_synonym ('e, 'a) comp = "('e + 'a) option"

fun rbind :: "'e + 'a \<Rightarrow> ('a \<Rightarrow> 'e + 'b) \<Rightarrow> 'e + 'b" where
  "rbind (Inl e) f = Inl e"
| "rbind (Inr x) f = f x"

fun cbind :: "('e, 'a) comp \<Rightarrow> ('a \<Rightarrow> ('e, 'b) comp) \<Rightarrow> ('e, 'b) comp" where
  "cbind None f = None"
| "cbind (Some (Inl e)) f = Some (Inl e)"
| "cbind (Some (Inr x)) f = f x"

text \<open>A loop that calls a fallible function on each element and stops at the first error.\<close>

fun rmap :: "('a \<Rightarrow> 'e + 'b) \<Rightarrow> 'a list \<Rightarrow> 'e + 'b list" where
  "rmap f [] = Inr []"
| "rmap f (x # xs) = rbind (f x) (\<lambda>y. rbind (rmap f xs) (\<lambda>ys. Inr (y # ys)))"

subsection \<open>Printing\<close>

text \<open>Error texts; \<open>%q\<close> of identifiers and names, which need no escapes, and \<open>%d\<close>.\<close>

definition quote :: "string \<Rightarrow> string" where
  "quote s = CHR 0x22 # s @ [CHR 0x22]"

fun showNat :: "nat \<Rightarrow> string" where
  "showNat n = (if n < 10 then [char_of (48 + n)] else showNat (n div 10) @ [char_of (48 + n mod 10)])"

declare showNat.simps [simp del]

subsection \<open>Log scans\<close>

text \<open>
  \<open>find_map f xs\<close> is the loop that returns at the first element \<open>f\<close> accepts;
  \<open>scan_last f a xs\<close> is the loop that overwrites its result at every element
  \<open>f\<close> accepts; \<open>collect f xs\<close> is the loop that appends what \<open>f\<close> accepts.
\<close>

fun find_map :: "('a \<Rightarrow> 'b option) \<Rightarrow> 'a list \<Rightarrow> 'b option" where
  "find_map f [] = None"
| "find_map f (x # xs) = (case f x of None \<Rightarrow> find_map f xs | Some y \<Rightarrow> Some y)"

fun scan_last :: "('a \<Rightarrow> 'b option) \<Rightarrow> 'b option \<Rightarrow> 'a list \<Rightarrow> 'b option" where
  "scan_last f acc [] = acc"
| "scan_last f acc (x # xs) = scan_last f (case f x of None \<Rightarrow> acc | Some y \<Rightarrow> Some y) xs"

fun collect :: "('a \<Rightarrow> 'b option) \<Rightarrow> 'a list \<Rightarrow> 'b list" where
  "collect f [] = []"
| "collect f (x # xs) = (case f x of None \<Rightarrow> collect f xs | Some y \<Rightarrow> y # collect f xs)"

text \<open>\<open>take_upto c xs\<close> is the loop that appends until it has appended \<open>c\<close> itself.\<close>

fun take_upto :: "'a \<Rightarrow> 'a list \<Rightarrow> 'a list" where
  "take_upto c [] = []"
| "take_upto c (x # xs) = (if x = c then [x] else x # take_upto c xs)"

subsection \<open>Lemmas on results\<close>

lemma rbind_Inr_iff [simp]:
  "rbind m f = Inr y \<longleftrightarrow> (\<exists>x. m = Inr x \<and> f x = Inr y)"
  by (cases m) auto

lemma rbind_Inl_iff:
  "rbind m f = Inl e \<longleftrightarrow> m = Inl e \<or> (\<exists>x. m = Inr x \<and> f x = Inl e)"
  by (cases m) auto

lemma rbind_cong [fundef_cong]:
  "m = m' \<Longrightarrow> (\<And>x. m' = Inr x \<Longrightarrow> f x = g x) \<Longrightarrow> rbind m f = rbind m' g"
  by (cases m') auto

lemma cbind_None_iff: "cbind m f = None \<longleftrightarrow> m = None \<or> (\<exists>x. m = Some (Inr x) \<and> f x = None)"
  by (cases "(m, f)" rule: cbind.cases) auto

lemma cbind_Inr_iff [simp]:
  "cbind m f = Some (Inr y) \<longleftrightarrow> (\<exists>x. m = Some (Inr x) \<and> f x = Some (Inr y))"
  by (cases "(m, f)" rule: cbind.cases) auto

lemma cbind_cong [fundef_cong]:
  "m = m' \<Longrightarrow> (\<And>x. m' = Some (Inr x) \<Longrightarrow> f x = g x) \<Longrightarrow> cbind m f = cbind m' g"
  by (cases "(m', f)" rule: cbind.cases) auto

lemma cbind_total:
  "m \<noteq> None \<Longrightarrow> (\<And>x. m = Some (Inr x) \<Longrightarrow> f x \<noteq> None) \<Longrightarrow> cbind m f \<noteq> None"
  by (cases "(m, f)" rule: cbind.cases) auto

lemma rmap_cong [fundef_cong]:
  "xs = ys \<Longrightarrow> (\<And>x. x \<in> set ys \<Longrightarrow> f x = g x) \<Longrightarrow> rmap f xs = rmap g ys"
  by (induction ys arbitrary: xs) auto

lemma rmap_Inr_length: "rmap f xs = Inr ys \<Longrightarrow> length ys = length xs"
  by (induction xs arbitrary: ys) auto

lemma rmap_Inr_iff: "rmap f xs = Inr ys \<longleftrightarrow> list_all2 (\<lambda>x y. f x = Inr y) xs ys"
  by (induction xs arbitrary: ys) (auto simp: list_all2_Cons1)

lemma rmap_total_Inr: "(\<And>x. x \<in> set xs \<Longrightarrow> f x = Inr (g x)) \<Longrightarrow> rmap f xs = Inr (map g xs)"
  by (induction xs) auto

subsection \<open>Lemmas on scans\<close>

lemma find_map_append [scan_simps]:
  "find_map f (xs @ ys) = (case find_map f xs of None \<Rightarrow> find_map f ys | Some y \<Rightarrow> Some y)"
  by (induction xs) (auto split: option.splits)

lemma scan_last_append [scan_simps]:
  "scan_last f acc (xs @ ys) = scan_last f (scan_last f acc xs) ys"
  by (induction xs arbitrary: acc) auto

lemma collect_append [scan_simps]: "collect f (xs @ ys) = collect f xs @ collect f ys"
  by (induction xs) (auto split: option.splits)

lemma find_map_None_iff: "find_map f xs = None \<longleftrightarrow> (\<forall>x \<in> set xs. f x = None)"
  by (induction xs) (auto split: option.splits)

lemma find_map_SomeD: "find_map f xs = Some y \<Longrightarrow> \<exists>x \<in> set xs. f x = Some y"
  by (induction xs) (auto split: option.splits)

lemma find_map_split:
  "find_map f xs = Some y \<Longrightarrow>
     \<exists>us x vs. xs = us @ x # vs \<and> f x = Some y \<and> (\<forall>u \<in> set us. f u = None)"
proof (induction xs)
  case (Cons a xs)
  show ?case
  proof (cases "f a")
    case None
    with Cons obtain us x vs where "xs = us @ x # vs" "f x = Some y" "\<forall>u \<in> set us. f u = None"
      by auto
    with None show ?thesis by (intro exI [of _ "a # us"]) auto
  next
    case (Some b)
    with Cons.prems show ?thesis by (intro exI [of _ "[]"]) auto
  qed
qed simp

lemma scan_last_eq_find_map:
  "scan_last f acc xs = (case find_map f (rev xs) of None \<Rightarrow> acc | Some y \<Rightarrow> Some y)"
  by (induction xs arbitrary: acc) (auto simp: find_map_append split: option.splits)

lemma scan_last_idem: "\<forall>x \<in> set xs. f x = None \<Longrightarrow> scan_last f acc xs = acc"
  by (induction xs) auto

lemma set_collect: "set (collect f xs) = {y. \<exists>x \<in> set xs. f x = Some y}"
  by (induction xs) (auto split: option.splits)

lemma collect_empty_iff: "collect f xs = [] \<longleftrightarrow> (\<forall>x \<in> set xs. f x = None)"
  by (induction xs) (auto split: option.splits)

lemma find_map_eq_hd_collect:
  "find_map f xs = (case collect f xs of [] \<Rightarrow> None | y # _ \<Rightarrow> Some y)"
  by (induction xs) (auto split: option.splits list.splits)

lemma find_map_cong [fundef_cong]:
  "xs = ys \<Longrightarrow> (\<And>x. x \<in> set ys \<Longrightarrow> f x = g x) \<Longrightarrow> find_map f xs = find_map g ys"
  by (induction ys arbitrary: xs) (auto split: option.splits)

lemma collect_cong [fundef_cong]:
  "xs = ys \<Longrightarrow> (\<And>x. x \<in> set ys \<Longrightarrow> f x = g x) \<Longrightarrow> collect f xs = collect g ys"
  by (induction ys arbitrary: xs) (auto split: option.splits)

lemma collect_map: "collect f (map g xs) = collect (\<lambda>x. f (g x)) xs"
  by (induction xs) (auto split: option.splits)

lemma find_map_map: "find_map f (map g xs) = find_map (\<lambda>x. f (g x)) xs"
  by (induction xs) (auto split: option.splits)

lemma scan_last_map: "scan_last f acc (map g xs) = scan_last (\<lambda>x. f (g x)) acc xs"
  by (induction xs arbitrary: acc) (auto split: option.splits)

lemma take_upto_append:
  "take_upto c (xs @ ys) = (if c \<in> set xs then take_upto c xs else xs @ take_upto c ys)"
  by (induction xs) auto

lemma set_take_upto_subset: "set (take_upto c xs) \<subseteq> set xs"
  by (induction xs) auto

lemma take_upto_notin: "c \<notin> set xs \<Longrightarrow> take_upto c xs = xs"
  by (induction xs) auto

lemma last_take_upto: "c \<in> set xs \<Longrightarrow> take_upto c xs \<noteq> [] \<and> last (take_upto c xs) = c"
  by (induction xs) auto

lemma distinct_take_upto: "distinct xs \<Longrightarrow> distinct (take_upto c xs)"
  by (induction xs) (use set_take_upto_subset in fastforce)+

end
