(* ===== verification/Repl_Model.thy ===== *)
theory Repl_Model
  imports Repl_Prelude
begin

text \<open>
  The domain model of \<open>src/model\<close> and the query result types of
  \<open>src/store/store.go\<close>: identifiers, enums, manifest, the sixteen append-only
  fact structs, the \<open>Fact\<close> interface they implement, and the records the store
  returns. A Go struct is a record whose fields carry a short prefix (several
  structs share the field names \<open>Session\<close>, \<open>Branch\<close>, \<open>Cell\<close>); the \<open>Fact\<close>
  interface is a datatype with one constructor per implementing struct.
  \<open>time.Time\<close> is an integer instant.
\<close>

subsection \<open>Identifiers and enums\<close>

type_synonym SessionID = string
type_synonym BranchID = string
type_synonym CellID = string
type_synonym EffectID = string
type_synonym PromiseID = string
type_synonym ValueID = string
type_synonym CheckpointID = string
type_synonym FailureID = string
type_synonym Time = int

text \<open>Go string enums: any string is a value of the type, the named constants are the known ones.\<close>

type_synonym ReplayPolicy = string
type_synonym PromiseState = string
type_synonym CellLanguage = string

definition ReplayReadonly :: ReplayPolicy where "ReplayReadonly = ''readonly''"
definition ReplayIdempotent :: ReplayPolicy where "ReplayIdempotent = ''idempotent''"
definition ReplayNonReplayable :: ReplayPolicy where "ReplayNonReplayable = ''non_replayable''"

definition CellLanguageJavaScript :: CellLanguage where "CellLanguageJavaScript = ''js''"
definition CellLanguageTypeScript :: CellLanguage where "CellLanguageTypeScript = ''ts''"

subsection \<open>Manifest and value handles\<close>

record HostFunctionSpec =
  hf_Name :: string
  hf_ParamsSchema :: bytes
  hf_ResultSchema :: bytes
  hf_Replay :: ReplayPolicy

record Manifest =
  mf_ID :: string
  mf_Functions :: "HostFunctionSpec list"

record ValueRef =
  vr_ID :: ValueID
  vr_Preview :: string
  vr_TypeHint :: string

record Diagnostic =
  dg_Message :: string
  dg_Severity :: string
  dg_Line :: int
  dg_Column :: int

subsection \<open>Facts\<close>

record SessionStarted =
  ss_Session :: SessionID
  ss_RootBranch :: BranchID
  ss_At :: Time

record ManifestAttached =
  ma_Session :: SessionID
  ma_ManifestID :: string
  ma_Manifest :: Manifest
  ma_At :: Time

record RuntimeAttached =
  ra_Session :: SessionID
  ra_RuntimeHash :: string
  ra_At :: Time

record RuntimeTransitioned =
  rt_Session :: SessionID
  rt_Branch :: BranchID
  rt_AfterCell :: CellID
  rt_RuntimeHash :: string
  rt_At :: Time

record CellChecked =
  ck_Session :: SessionID
  ck_Branch :: BranchID
  ck_Cell :: CellID
  ck_Parent :: CellID
  ck_Language :: CellLanguage
  ck_Source :: string
  ck_Diagnostics :: "Diagnostic list"
  ck_EmittedJS :: string
  ck_TypeScriptEnvHash :: string
  ck_TypeScriptEpochTS :: string
  ck_HasErrors :: bool
  ck_At :: Time

record CellEvaluated =
  ce_Session :: SessionID
  ce_Branch :: BranchID
  ce_Cell :: CellID
  ce_CreatedBindings :: "string list"
  ce_LinkedEffects :: "EffectID list"
  ce_CompletionValue :: "ValueRef option"
  ce_ErrorMessage :: string
  ce_At :: Time

record CellCommitted =
  cc_Session :: SessionID
  cc_Branch :: BranchID
  cc_Cell :: CellID
  cc_At :: Time

record CellFailed =
  cf_Session :: SessionID
  cf_Branch :: BranchID
  cf_Failure :: FailureID
  cf_Parent :: CellID
  cf_Source :: string
  cf_RuntimeHash :: string
  cf_Phase :: string
  cf_ErrorMessage :: string
  cf_LinkedEffects :: "EffectID list"
  cf_At :: Time

record EffectStarted =
  es_Session :: SessionID
  es_Effect :: EffectID
  es_Cell :: CellID
  es_FunctionName :: string
  es_Params :: bytes
  es_IdempotencyKey :: string
  es_ReplayPolicy :: ReplayPolicy
  es_At :: Time

record EffectCompleted =
  ec_Session :: SessionID
  ec_Effect :: EffectID
  ec_Result :: bytes
  ec_At :: Time

record EffectFailed =
  ef_Session :: SessionID
  ef_Effect :: EffectID
  ef_ErrorMessage :: string
  ef_At :: Time

record PromiseSettled =
  ps_Session :: SessionID
  ps_Promise :: PromiseID
  ps_Effect :: EffectID
  ps_State :: PromiseState
  ps_Value :: bytes
  ps_Error :: string
  ps_At :: Time

record HeadMoved =
  hm_Session :: SessionID
  hm_Branch :: BranchID
  hm_Previous :: CellID
  hm_Next :: CellID
  hm_At :: Time

record BranchCreated =
  bc_Session :: SessionID
  bc_Branch :: BranchID
  bc_ParentCell :: CellID
  bc_At :: Time

record RestoreCompleted =
  rc_Session :: SessionID
  rc_TargetCell :: CellID
  rc_NewBranch :: BranchID
  rc_At :: Time

record CheckpointSaved =
  cs_Session :: SessionID
  cs_Checkpoint :: CheckpointID
  cs_AtCell :: CellID
  cs_At :: Time

datatype Fact =
    SessionStarted SessionStarted
  | ManifestAttached ManifestAttached
  | RuntimeAttached RuntimeAttached
  | RuntimeTransitioned RuntimeTransitioned
  | CellChecked CellChecked
  | CellEvaluated CellEvaluated
  | CellCommitted CellCommitted
  | CellFailed CellFailed
  | EffectStarted EffectStarted
  | EffectCompleted EffectCompleted
  | EffectFailed EffectFailed
  | PromiseSettled PromiseSettled
  | HeadMoved HeadMoved
  | BranchCreated BranchCreated
  | RestoreCompleted RestoreCompleted
  | CheckpointSaved CheckpointSaved

primrec FactType :: "Fact \<Rightarrow> string" where
  "FactType (SessionStarted f) = ''SessionStarted''"
| "FactType (ManifestAttached f) = ''ManifestAttached''"
| "FactType (RuntimeAttached f) = ''RuntimeAttached''"
| "FactType (RuntimeTransitioned f) = ''RuntimeTransitioned''"
| "FactType (CellChecked f) = ''CellChecked''"
| "FactType (CellEvaluated f) = ''CellEvaluated''"
| "FactType (CellCommitted f) = ''CellCommitted''"
| "FactType (CellFailed f) = ''CellFailed''"
| "FactType (EffectStarted f) = ''EffectStarted''"
| "FactType (EffectCompleted f) = ''EffectCompleted''"
| "FactType (EffectFailed f) = ''EffectFailed''"
| "FactType (PromiseSettled f) = ''PromiseSettled''"
| "FactType (HeadMoved f) = ''HeadMoved''"
| "FactType (BranchCreated f) = ''BranchCreated''"
| "FactType (RestoreCompleted f) = ''RestoreCompleted''"
| "FactType (CheckpointSaved f) = ''CheckpointSaved''"

subsection \<open>Query results\<close>

record ReplayStep =
  st_Cell :: CellID
  st_Language :: CellLanguage
  st_Source :: string
  st_EmittedJS :: string
  st_Effects :: "EffectID list"

record ReplayDecision =
  rd_Effect :: EffectID
  rd_Policy :: ReplayPolicy
  rd_RecordedResult :: bytes
  rd_CompletionOrder :: nat
  rd_Rerun :: bool

record RuntimeTransition =
  tr_AfterCell :: CellID
  tr_RuntimeHash :: string
  tr_RuntimeConfig :: bytes

record ReplayPlan =
  pl_Session :: SessionID
  pl_Branch :: BranchID
  pl_TargetCell :: CellID
  pl_RuntimeHash :: string
  pl_RuntimeConfig :: bytes
  pl_RuntimeTransitions :: "RuntimeTransition list"
  pl_Steps :: "ReplayStep list"
  pl_Decisions :: "EffectID \<rightharpoonup> ReplayDecision"

record HeadRecord =
  hr_Session :: SessionID
  hr_Branch :: BranchID
  hr_Head :: CellID

record SessionState =
  sst_Session :: SessionID
  sst_Branch :: BranchID
  sst_Head :: CellID
  sst_RuntimeHash :: string
  sst_RuntimeConfig :: bytes

record StaticEnvSnapshot =
  se_Session :: SessionID
  se_Branch :: BranchID
  se_Head :: CellID
  se_Manifest :: Manifest
  se_TypeScriptEnvHash :: string
  se_TypeScriptEpochTS :: string
  se_CommittedSources :: "string list"

type_synonym EffectRecordStatus = string

definition EffectRecordPending :: EffectRecordStatus where "EffectRecordPending = ''pending''"
definition EffectRecordCompleted :: EffectRecordStatus where "EffectRecordCompleted = ''completed''"
definition EffectRecordFailed :: EffectRecordStatus where "EffectRecordFailed = ''failed''"

record EffectRecord =
  er_Effect :: EffectID
  er_Cell :: CellID
  er_FunctionName :: string
  er_Params :: bytes
  er_ReplayPolicy :: ReplayPolicy
  er_Status :: EffectRecordStatus
  er_Result :: bytes
  er_ErrorMessage :: string
  er_StartedAt :: Time
  er_UpdatedAt :: Time

text \<open>
  Errors a store query returns; the messages of \<open>fmt.Errorf\<close> are constructors with the
  values the message names. \<open>DriverError\<close> is an error of the storage driver itself.
\<close>

datatype StoreError =
    HashCollision string
  | RuntimeHashNotFound string
  | BranchNotFound SessionID BranchID
  | NoManifest SessionID
  | NoSession SessionID
  | NotCommitted CellID SessionID
  | NoCellChecked CellID
  | EffectStartedNotFound EffectID
  | Wrapped string StoreError
  | DriverError string

subsection \<open>Fact types identify the struct\<close>

text \<open>
  The store compares \<open>FactType\<close> strings before it asserts the dynamic type; the
  sixteen strings are distinct, so the comparison decides the constructor.
\<close>

lemma FactType_eq_iff [simp]:
  "FactType f = ''SessionStarted'' \<longleftrightarrow> (\<exists>x. f = SessionStarted x)"
  "FactType f = ''ManifestAttached'' \<longleftrightarrow> (\<exists>x. f = ManifestAttached x)"
  "FactType f = ''RuntimeAttached'' \<longleftrightarrow> (\<exists>x. f = RuntimeAttached x)"
  "FactType f = ''RuntimeTransitioned'' \<longleftrightarrow> (\<exists>x. f = RuntimeTransitioned x)"
  "FactType f = ''CellChecked'' \<longleftrightarrow> (\<exists>x. f = CellChecked x)"
  "FactType f = ''CellEvaluated'' \<longleftrightarrow> (\<exists>x. f = CellEvaluated x)"
  "FactType f = ''CellCommitted'' \<longleftrightarrow> (\<exists>x. f = CellCommitted x)"
  "FactType f = ''CellFailed'' \<longleftrightarrow> (\<exists>x. f = CellFailed x)"
  "FactType f = ''EffectStarted'' \<longleftrightarrow> (\<exists>x. f = EffectStarted x)"
  "FactType f = ''EffectCompleted'' \<longleftrightarrow> (\<exists>x. f = EffectCompleted x)"
  "FactType f = ''EffectFailed'' \<longleftrightarrow> (\<exists>x. f = EffectFailed x)"
  "FactType f = ''HeadMoved'' \<longleftrightarrow> (\<exists>x. f = HeadMoved x)"
  "FactType f = ''BranchCreated'' \<longleftrightarrow> (\<exists>x. f = BranchCreated x)"
  "FactType f = ''RestoreCompleted'' \<longleftrightarrow> (\<exists>x. f = RestoreCompleted x)"
  by (cases f; simp)+

end
