(* ===== verification/Mem_Store.thy ===== *)
theory Mem_Store
  imports Repl_Model
begin

text \<open>
  The in-memory fact store of \<open>src/store/mem/mem.go\<close>: the append-only log of indexed
  entries, the runtime descriptor table, and every query of the \<open>store.Store\<close>
  interface, in the order of the source. A loop over the log is one of the
  scan combinators of the prelude. The two loops that walk the branch ancestry
  (\<open>collectAncestorChain\<close>, \<open>buildRuntimeVisibility\<close>) end only on a log whose
  branches do not form a cycle, so they are partial functions: \<open>None\<close> is a call
  that never returns.
\<close>

subsection \<open>The log\<close>

record entry =
  en_session :: SessionID
  en_branch :: BranchID
  en_cell :: CellID
  en_factType :: string
  en_fact :: Fact

record Store =
  facts :: "entry list"
  runtimeConfigs :: "string \<rightharpoonup> bytes"

definition New :: Store where
  "New = \<lparr>facts = [], runtimeConfigs = Map.empty\<rparr>"

primrec extractIndexColumns :: "Fact \<Rightarrow> SessionID \<times> BranchID \<times> CellID" where
  "extractIndexColumns (SessionStarted f) = (ss_Session f, ss_RootBranch f, [])"
| "extractIndexColumns (ManifestAttached f) = (ma_Session f, [], [])"
| "extractIndexColumns (RuntimeAttached f) = (ra_Session f, [], [])"
| "extractIndexColumns (RuntimeTransitioned f) = (rt_Session f, rt_Branch f, rt_AfterCell f)"
| "extractIndexColumns (CellChecked f) = (ck_Session f, ck_Branch f, ck_Cell f)"
| "extractIndexColumns (CellEvaluated f) = (ce_Session f, ce_Branch f, ce_Cell f)"
| "extractIndexColumns (CellCommitted f) = (cc_Session f, cc_Branch f, cc_Cell f)"
| "extractIndexColumns (CellFailed f) = (cf_Session f, cf_Branch f, [])"
| "extractIndexColumns (EffectStarted f) = (es_Session f, [], es_Cell f)"
| "extractIndexColumns (EffectCompleted f) = (ec_Session f, [], [])"
| "extractIndexColumns (EffectFailed f) = (ef_Session f, [], [])"
| "extractIndexColumns (PromiseSettled f) = (ps_Session f, [], [])"
| "extractIndexColumns (HeadMoved f) = (hm_Session f, hm_Branch f, hm_Next f)"
| "extractIndexColumns (BranchCreated f) = (bc_Session f, bc_Branch f, bc_ParentCell f)"
| "extractIndexColumns (RestoreCompleted f) = (rc_Session f, [], rc_TargetCell f)"
| "extractIndexColumns (CheckpointSaved f) = (cs_Session f, [], cs_AtCell f)"

definition mkEntry :: "Fact \<Rightarrow> entry" where
  "mkEntry fct = (case extractIndexColumns fct of (session, branch, cell) \<Rightarrow>
     \<lparr>en_session = session, en_branch = branch, en_cell = cell,
      en_factType = FactType fct, en_fact = fct\<rparr>)"

definition AppendFact :: "Store \<Rightarrow> Fact \<Rightarrow> StoreError + Store" where
  "AppendFact s fct = Inr (s\<lparr>facts := facts s @ [mkEntry fct]\<rparr>)"

subsection \<open>Runtime descriptors\<close>

definition PutRuntimeConfig :: "Store \<Rightarrow> string \<Rightarrow> bytes \<Rightarrow> StoreError + Store" where
  "PutRuntimeConfig s hash config =
     (case runtimeConfigs s hash of
        Some existing \<Rightarrow> if existing = config then Inr s else Inl (HashCollision hash)
      | None \<Rightarrow> Inr (s\<lparr>runtimeConfigs := (runtimeConfigs s)(hash \<mapsto> config)\<rparr>))"

definition LoadRuntimeConfig :: "Store \<Rightarrow> string \<Rightarrow> StoreError + bytes" where
  "LoadRuntimeConfig s hash =
     (if hash = [] then Inr []
      else case runtimeConfigs s hash of
             None \<Rightarrow> Inl (RuntimeHashNotFound hash)
           | Some config \<Rightarrow> Inr config)"

definition loadRuntimeConfigLocked :: "Store \<Rightarrow> string \<Rightarrow> StoreError + bytes" where
  "loadRuntimeConfigLocked s hash =
     (if hash = [] then Inr []
      else case runtimeConfigs s hash of
             None \<Rightarrow> Inl (RuntimeHashNotFound hash)
           | Some config \<Rightarrow> Inr config)"

subsection \<open>Branch heads and single-fact lookups\<close>

definition branchExists :: "Store \<Rightarrow> SessionID \<Rightarrow> BranchID \<Rightarrow> bool" where
  "branchExists s session branch \<longleftrightarrow>
     list_ex (\<lambda>e. en_session e = session \<and> en_branch e = branch) (facts s)"

definition LoadHead :: "Store \<Rightarrow> SessionID \<Rightarrow> BranchID \<Rightarrow> StoreError + HeadRecord" where
  "LoadHead s session branch =
     (if \<not> branchExists s session branch then Inl (BranchNotFound session branch)
      else case find_map
             (\<lambda>e. if en_session e \<noteq> session \<or> en_branch e \<noteq> branch \<or> en_factType e \<noteq> ''HeadMoved''
                  then None
                  else case en_fact e of
                         HeadMoved f \<Rightarrow> Some \<lparr>hr_Session = hm_Session f, hr_Branch = hm_Branch f,
                                              hr_Head = hm_Next f\<rparr>
                       | _ \<Rightarrow> None)
             (rev (facts s)) of
             Some r \<Rightarrow> Inr r
           | None \<Rightarrow> Inr \<lparr>hr_Session = session, hr_Branch = branch, hr_Head = []\<rparr>)"

definition LoadFailures :: "Store \<Rightarrow> SessionID \<Rightarrow> StoreError + CellFailed list" where
  "LoadFailures s session =
     Inr (collect
       (\<lambda>e. if en_session e \<noteq> session \<or> en_factType e \<noteq> ''CellFailed'' then None
            else case en_fact e of CellFailed f \<Rightarrow> Some f | _ \<Rightarrow> None)
       (facts s))"

definition loadManifestAttached :: "Store \<Rightarrow> SessionID \<Rightarrow> StoreError + ManifestAttached" where
  "loadManifestAttached s session =
     (case find_map
        (\<lambda>e. if en_session e \<noteq> session \<or> en_factType e \<noteq> ''ManifestAttached'' then None
             else case en_fact e of ManifestAttached f \<Rightarrow> Some f | _ \<Rightarrow> None)
        (facts s) of
        Some f \<Rightarrow> Inr f
      | None \<Rightarrow> Inl (NoManifest session))"

definition loadSessionStarted :: "Store \<Rightarrow> SessionID \<Rightarrow> StoreError + SessionStarted" where
  "loadSessionStarted s session =
     (case find_map
        (\<lambda>e. if en_session e \<noteq> session \<or> en_factType e \<noteq> ''SessionStarted'' then None
             else case en_fact e of SessionStarted f \<Rightarrow> Some f | _ \<Rightarrow> None)
        (facts s) of
        Some f \<Rightarrow> Inr f
      | None \<Rightarrow> Inl (NoSession session))"

text \<open>With no \<open>RuntimeAttached\<close> fact the zero value is returned, not an error.\<close>

definition loadRuntimeAttached :: "Store \<Rightarrow> SessionID \<Rightarrow> StoreError + RuntimeAttached" where
  "loadRuntimeAttached s session =
     (case find_map
        (\<lambda>e. if en_session e \<noteq> session \<or> en_factType e \<noteq> ''RuntimeAttached'' then None
             else case en_fact e of RuntimeAttached f \<Rightarrow> Some f | _ \<Rightarrow> None)
        (facts s) of
        Some f \<Rightarrow> Inr f
      | None \<Rightarrow> Inr \<lparr>ra_Session = [], ra_RuntimeHash = [], ra_At = 0\<rparr>)"

definition loadManifest :: "Store \<Rightarrow> SessionID \<Rightarrow> StoreError + Manifest" where
  "loadManifest s session = rbind (loadManifestAttached s session) (\<lambda>a. Inr (ma_Manifest a))"

definition branchForCell :: "Store \<Rightarrow> SessionID \<Rightarrow> CellID \<Rightarrow> StoreError + BranchID" where
  "branchForCell s session cell =
     (case find_map
        (\<lambda>e. if en_session e \<noteq> session \<or> en_cell e \<noteq> cell \<or> en_factType e \<noteq> ''CellCommitted''
             then None
             else case en_fact e of CellCommitted f \<Rightarrow> Some (cc_Branch f) | _ \<Rightarrow> None)
        (facts s) of
        Some b \<Rightarrow> Inr b
      | None \<Rightarrow> Inl (NotCommitted cell session))"

text \<open>
  \<open>branchParentRecord\<close>: the first \<open>BranchCreated\<close> of the branch, with the branch
  that owns the parent cell and the 1-based log position of the fact;
  \<open>Inr None\<close> is \<open>found = false\<close>.
\<close>

definition branchParentRecord ::
  "Store \<Rightarrow> SessionID \<Rightarrow> BranchID \<Rightarrow> StoreError + (BranchID \<times> CellID \<times> nat) option" where
  "branchParentRecord s session branch =
     (case find_map
        (\<lambda>(i, e). if en_session e \<noteq> session \<or> en_branch e \<noteq> branch \<or> en_factType e \<noteq> ''BranchCreated''
                  then None
                  else case en_fact e of BranchCreated f \<Rightarrow> Some (i, f) | _ \<Rightarrow> None)
        (enumerate 0 (facts s)) of
        None \<Rightarrow> Inr None
      | Some (i, f) \<Rightarrow> rbind (branchForCell s session (bc_ParentCell f))
          (\<lambda>parentBranch. Inr (Some (parentBranch, bc_ParentCell f, i + 1))))"

definition branchParent ::
  "Store \<Rightarrow> SessionID \<Rightarrow> BranchID \<Rightarrow> StoreError + (BranchID \<times> CellID) option" where
  "branchParent s session branch =
     rbind (branchParentRecord s session branch)
       (\<lambda>r. Inr (map_option (\<lambda>(parent, forkCell, _). (parent, forkCell)) r))"

definition committedCellsUpTo :: "Store \<Rightarrow> SessionID \<Rightarrow> BranchID \<Rightarrow> CellID \<Rightarrow> CellID list" where
  "committedCellsUpTo s session branch stopCell =
     take_upto stopCell (collect
       (\<lambda>e. if en_session e \<noteq> session \<or> en_branch e \<noteq> branch \<or> en_factType e \<noteq> ''CellCommitted''
            then None
            else case en_fact e of CellCommitted f \<Rightarrow> Some (cc_Cell f) | _ \<Rightarrow> None)
       (facts s))"

subsection \<open>The ancestor chain\<close>

record segment =
  sg_branch :: BranchID
  sg_stopAt :: CellID
  sg_forkCell :: CellID

partial_function (option) ancestorStack ::
  "Store \<Rightarrow> SessionID \<Rightarrow> BranchID \<Rightarrow> CellID \<Rightarrow> segment list \<Rightarrow> (StoreError, segment list) comp" where
  "ancestorStack s session cur curStop stack =
     (case branchParent s session cur of
        Inl lerr \<Rightarrow> Some (Inl lerr)
      | Inr None \<Rightarrow>
          Some (Inr (stack @ [\<lparr>sg_branch = cur, sg_stopAt = curStop, sg_forkCell = []\<rparr>]))
      | Inr (Some (parent, forkCell)) \<Rightarrow>
          ancestorStack s session parent forkCell
            (stack @ [\<lparr>sg_branch = cur, sg_stopAt = curStop, sg_forkCell = forkCell\<rparr>]))"

text \<open>
  The chain is returned as one list of (cell, owning branch) pairs, the two
  parallel slices \<open>cells\<close> and \<open>branches\<close> of the source zipped.
\<close>

definition collectAncestorChain ::
  "Store \<Rightarrow> SessionID \<Rightarrow> BranchID \<Rightarrow> CellID \<Rightarrow> (StoreError, (CellID \<times> BranchID) list) comp" where
  "collectAncestorChain s session branch stopCell =
     cbind (ancestorStack s session branch stopCell []) (\<lambda>stack.
       Some (Inr (concat (map
         (\<lambda>seg. map (\<lambda>c. (c, sg_branch seg))
                  (committedCellsUpTo s session (sg_branch seg) (sg_stopAt seg)))
         (rev stack)))))"

subsection \<open>Cell sources and the static environment\<close>

definition loadCellSource ::
  "Store \<Rightarrow> SessionID \<Rightarrow> BranchID \<Rightarrow> CellID \<Rightarrow> StoreError + string" where
  "loadCellSource s session branch cell =
     (case scan_last
        (\<lambda>e. if en_session e \<noteq> session \<or> en_branch e \<noteq> branch \<or> en_cell e \<noteq> cell \<or>
                en_factType e \<noteq> ''CellChecked''
             then None
             else case en_fact e of CellChecked f \<Rightarrow> Some (ck_Source f) | _ \<Rightarrow> None)
        None (facts s) of
        Some src \<Rightarrow> Inr src
      | None \<Rightarrow> Inl (NoCellChecked cell))"

definition loadCellStaticDetails ::
  "Store \<Rightarrow> SessionID \<Rightarrow> BranchID \<Rightarrow> CellID \<Rightarrow> StoreError + string \<times> string \<times> string" where
  "loadCellStaticDetails s session branch cell =
     (case scan_last
        (\<lambda>e. if en_session e \<noteq> session \<or> en_branch e \<noteq> branch \<or> en_cell e \<noteq> cell \<or>
                en_factType e \<noteq> ''CellChecked''
             then None
             else case en_fact e of
                    CellChecked f \<Rightarrow>
                      Some (ck_Source f, ck_TypeScriptEnvHash f, ck_TypeScriptEpochTS f)
                  | _ \<Rightarrow> None)
        None (facts s) of
        Some d \<Rightarrow> Inr d
      | None \<Rightarrow> Inl (NoCellChecked cell))"

definition loadCommittedSources ::
  "Store \<Rightarrow> SessionID \<Rightarrow> BranchID \<Rightarrow> CellID \<Rightarrow> (StoreError, string list) comp" where
  "loadCommittedSources s session branch stopCell =
     (if stopCell = [] then Some (Inr [])
      else cbind (collectAncestorChain s session branch stopCell) (\<lambda>chain.
        Some (rmap (\<lambda>(cellID, b). loadCellSource s session b cellID) chain)))"

text \<open>
  The loop of \<open>loadStaticEnvState\<close>: \<open>i\<close> is the index of the cell, \<open>start\<close> the
  index at which the current TypeScript epoch began.
\<close>

fun staticEnvLoop ::
  "Store \<Rightarrow> SessionID \<Rightarrow> nat \<Rightarrow> string \<Rightarrow> string \<Rightarrow> nat \<Rightarrow> string list \<Rightarrow> (CellID \<times> BranchID) list \<Rightarrow>
   StoreError + string \<times> string \<times> nat \<times> string list" where
  "staticEnvLoop s session i envHash epochTS start sources [] =
     Inr (envHash, epochTS, start, sources)"
| "staticEnvLoop s session i envHash epochTS start sources ((cellID, b) # chain) =
     rbind (loadCellStaticDetails s session b cellID) (\<lambda>(src, cellEnvHash, cellEpochTS).
       if cellEnvHash = []
       then staticEnvLoop s session (i + 1) envHash epochTS start (sources @ [src]) chain
       else if envHash = []
       then staticEnvLoop s session (i + 1) cellEnvHash cellEpochTS start (sources @ [src]) chain
       else if cellEnvHash \<noteq> envHash
       then staticEnvLoop s session (i + 1) cellEnvHash cellEpochTS i (sources @ [src]) chain
       else staticEnvLoop s session (i + 1) envHash epochTS start (sources @ [src]) chain)"

definition loadStaticEnvState ::
  "Store \<Rightarrow> SessionID \<Rightarrow> BranchID \<Rightarrow> CellID \<Rightarrow>
   (StoreError, string \<times> string \<times> string list) comp" where
  "loadStaticEnvState s session branch stopCell =
     (if stopCell = [] then Some (Inr ([], [], []))
      else cbind (collectAncestorChain s session branch stopCell) (\<lambda>chain.
        Some (rbind (staticEnvLoop s session 0 [] [] 0 [] chain)
          (\<lambda>(envHash, epochTS, segmentStart, sources).
             Inr (envHash, epochTS,
                  if segmentStart > 0 then drop segmentStart sources else sources)))))"

definition LoadStaticEnv ::
  "Store \<Rightarrow> SessionID \<Rightarrow> BranchID \<Rightarrow> CellID \<Rightarrow> (StoreError, StaticEnvSnapshot) comp" where
  "LoadStaticEnv s session branch head =
     cbind (Some (loadManifestAttached s session)) (\<lambda>attached.
       cbind (loadStaticEnvState s session branch head) (\<lambda>(envHash, epochTS, sources).
         Some (Inr \<lparr>se_Session = session, se_Branch = branch, se_Head = head,
                    se_Manifest = ma_Manifest attached, se_TypeScriptEnvHash = envHash,
                    se_TypeScriptEpochTS = epochTS, se_CommittedSources = sources\<rparr>)))"

subsection \<open>Runtime visibility\<close>

text \<open>\<open>math.MaxInt\<close> on a 64-bit platform; log positions are Go ints.\<close>

definition MaxInt :: nat where "MaxInt = 9223372036854775807"

record runtimeTransitionRecord =
  tt_order :: nat
  tt_fact :: RuntimeTransitioned

text \<open>
  The zero value of the scope struct has no cells and \<open>maxOrder\<close> 0, which the
  code takes as "not set"; a cell map is created and filled in one step, so
  the nil map is the empty set.
\<close>

record runtimeBranchScope =
  sc_cells :: "CellID set"
  sc_maxOrder :: nat
  sc_allowEmptyBoundary :: bool

type_synonym runtimeVisibility = "BranchID \<rightharpoonup> runtimeBranchScope"

definition getScope :: "runtimeVisibility \<Rightarrow> BranchID \<Rightarrow> runtimeBranchScope" where
  "getScope scopes b = (case scopes b of Some sc \<Rightarrow> sc
     | None \<Rightarrow> \<lparr>sc_cells = {}, sc_maxOrder = 0, sc_allowEmptyBoundary = False\<rparr>)"

definition visible :: "runtimeVisibility \<Rightarrow> runtimeTransitionRecord \<Rightarrow> bool" where
  "visible scopes record =
     (case scopes (rt_Branch (tt_fact record)) of
        None \<Rightarrow> False
      | Some scope \<Rightarrow>
          if tt_order record > sc_maxOrder scope then False
          else if rt_AfterCell (tt_fact record) = [] then sc_allowEmptyBoundary scope
          else rt_AfterCell (tt_fact record) \<in> sc_cells scope)"

fun chainScopes :: "runtimeVisibility \<Rightarrow> (CellID \<times> BranchID) list \<Rightarrow> runtimeVisibility" where
  "chainScopes scopes [] = scopes"
| "chainScopes scopes ((cellID, branchID) # chain) =
     (let scope = getScope scopes branchID;
          scope = (if sc_cells scope = {} then scope\<lparr>sc_maxOrder := MaxInt\<rparr> else scope)
      in chainScopes (scopes(branchID \<mapsto> scope\<lparr>sc_cells := insert cellID (sc_cells scope)\<rparr>)) chain)"

partial_function (option) cutoffWalk ::
  "Store \<Rightarrow> SessionID \<Rightarrow> BranchID \<Rightarrow> nat \<Rightarrow> runtimeVisibility \<Rightarrow> (StoreError, runtimeVisibility) comp" where
  "cutoffWalk s session currentBranch currentCutoff scopes =
     (case branchParentRecord s session currentBranch of
        Inl err \<Rightarrow> Some (Inl err)
      | Inr None \<Rightarrow>
          Some (Inr (scopes(currentBranch \<mapsto>
            (let scope = getScope scopes currentBranch in
             if sc_maxOrder scope = 0 \<or> sc_maxOrder scope > currentCutoff
             then scope\<lparr>sc_maxOrder := currentCutoff\<rparr> else scope))))
      | Inr (Some (parent, forkCell, branchCreatedOrder)) \<Rightarrow>
          cutoffWalk s session parent branchCreatedOrder (scopes(currentBranch \<mapsto>
            (let scope = getScope scopes currentBranch in
             if sc_maxOrder scope = 0 \<or> sc_maxOrder scope > currentCutoff
             then scope\<lparr>sc_maxOrder := currentCutoff\<rparr> else scope))))"

definition buildRuntimeVisibility ::
  "Store \<Rightarrow> SessionID \<Rightarrow> BranchID \<Rightarrow> CellID \<Rightarrow> (StoreError, runtimeVisibility) comp" where
  "buildRuntimeVisibility s session branch stopCell =
     cbind (collectAncestorChain s session branch stopCell) (\<lambda>chain.
       cbind (Some (case chain of
                (_, b) # _ \<Rightarrow> Inr b
              | [] \<Rightarrow> rbind (loadSessionStarted s session) (\<lambda>st. Inr (ss_RootBranch st)))) (\<lambda>rootBranch.
         let scopes = chainScopes Map.empty chain;
             rootScope = getScope scopes rootBranch;
             rootScope = (if sc_maxOrder rootScope = 0
                          then rootScope\<lparr>sc_maxOrder := MaxInt\<rparr> else rootScope)
         in cutoffWalk s session branch MaxInt
              (scopes(rootBranch \<mapsto> rootScope\<lparr>sc_allowEmptyBoundary := True\<rparr>))))"

text \<open>The \<open>RuntimeTransitioned\<close> facts of the session with their 1-based log positions.\<close>

definition transitionRecords :: "Store \<Rightarrow> SessionID \<Rightarrow> runtimeTransitionRecord list" where
  "transitionRecords s session = collect
     (\<lambda>(i, e). if en_session e \<noteq> session \<or> en_factType e \<noteq> ''RuntimeTransitioned'' then None
               else case en_fact e of
                      RuntimeTransitioned f \<Rightarrow> Some \<lparr>tt_order = i + 1, tt_fact = f\<rparr>
                    | _ \<Rightarrow> None)
     (enumerate 0 (facts s))"

definition loadActiveRuntime ::
  "Store \<Rightarrow> SessionID \<Rightarrow> BranchID \<Rightarrow> CellID \<Rightarrow> (StoreError, string \<times> bytes) comp" where
  "loadActiveRuntime s session branch head =
     cbind (Some (loadRuntimeAttached s session)) (\<lambda>runtime.
       cbind
         (if head = []
          then Some (Inr (the (scan_last
                 (\<lambda>t. if rt_Branch (tt_fact t) = branch \<and> rt_AfterCell (tt_fact t) = []
                      then Some (rt_RuntimeHash (tt_fact t)) else None)
                 (Some (ra_RuntimeHash runtime)) (transitionRecords s session))))
          else cbind (buildRuntimeVisibility s session branch head) (\<lambda>visibility.
                 Some (Inr (the (scan_last
                   (\<lambda>t. if visible visibility t then Some (rt_RuntimeHash (tt_fact t)) else None)
                   (Some (ra_RuntimeHash runtime)) (transitionRecords s session))))))
         (\<lambda>currentHash.
           Some (rbind (loadRuntimeConfigLocked s currentHash) (\<lambda>config.
             Inr (currentHash, config)))))"

definition buildRuntimeTransitions ::
  "Store \<Rightarrow> SessionID \<Rightarrow> BranchID \<Rightarrow> CellID \<Rightarrow> (StoreError, RuntimeTransition list) comp" where
  "buildRuntimeTransitions s session branch stopCell =
     cbind (buildRuntimeVisibility s session branch stopCell) (\<lambda>visibility.
       Some (rmap
         (\<lambda>t. rbind (loadRuntimeConfigLocked s (rt_RuntimeHash (tt_fact t))) (\<lambda>config.
                Inr \<lparr>tr_AfterCell = rt_AfterCell (tt_fact t),
                     tr_RuntimeHash = rt_RuntimeHash (tt_fact t),
                     tr_RuntimeConfig = config\<rparr>))
         (filter (visible visibility) (transitionRecords s session))))"

subsection \<open>Replay plans\<close>

definition loadCellDetails ::
  "Store \<Rightarrow> SessionID \<Rightarrow> BranchID \<Rightarrow> CellID \<Rightarrow> CellLanguage \<times> string \<times> string \<times> EffectID list" where
  "loadCellDetails s session branch cell =
     (let checked = scan_last
            (\<lambda>e. if en_session e \<noteq> session \<or> en_branch e \<noteq> branch \<or> en_cell e \<noteq> cell \<or>
                    en_factType e \<noteq> ''CellChecked''
                 then None
                 else case en_fact e of
                        CellChecked f \<Rightarrow> Some (ck_Language f, ck_Source f, ck_EmittedJS f)
                      | _ \<Rightarrow> None)
            None (facts s);
          evaluated = scan_last
            (\<lambda>e. if en_session e \<noteq> session \<or> en_branch e \<noteq> branch \<or> en_cell e \<noteq> cell \<or>
                    en_factType e \<noteq> ''CellEvaluated''
                 then None
                 else case en_fact e of CellEvaluated f \<Rightarrow> Some (ce_LinkedEffects f) | _ \<Rightarrow> None)
            None (facts s);
          effects = (case evaluated of None \<Rightarrow> [] | Some es \<Rightarrow> es)
      in case checked of
           None \<Rightarrow> ([], [], [], effects)
         | Some (language, src, emittedJS) \<Rightarrow> (language, src, emittedJS, effects))"

definition buildReplaySteps ::
  "Store \<Rightarrow> SessionID \<Rightarrow> BranchID \<Rightarrow> CellID \<Rightarrow> (StoreError, ReplayStep list) comp" where
  "buildReplaySteps s session branch stopCell =
     (case collectAncestorChain s session branch stopCell of
        None \<Rightarrow> None
      | Some (Inl err) \<Rightarrow> Some (Inl (Wrapped ''mem: buildReplaySteps'' err))
      | Some (Inr chain) \<Rightarrow>
          Some (Inr (map (\<lambda>(cell, b).
            case loadCellDetails s session b cell of (language, src, emitted, effects) \<Rightarrow>
              \<lparr>st_Cell = cell, st_Language = language, st_Source = src,
               st_EmittedJS = emitted, st_Effects = effects\<rparr>) chain)))"

definition loadReplayDecision :: "Store \<Rightarrow> SessionID \<Rightarrow> EffectID \<Rightarrow> StoreError + ReplayDecision" where
  "loadReplayDecision s session effectID =
     (case find_map
        (\<lambda>e. if en_session e \<noteq> session \<or> en_factType e \<noteq> ''EffectStarted'' then None
             else case en_fact e of
                    EffectStarted f \<Rightarrow> if es_Effect f = effectID then Some (es_ReplayPolicy f) else None
                  | _ \<Rightarrow> None)
        (facts s) of
        None \<Rightarrow> Inl (EffectStartedNotFound effectID)
      | Some policy \<Rightarrow>
          (case find_map
             (\<lambda>(i, e). if en_session e \<noteq> session \<or> en_factType e \<noteq> ''EffectCompleted'' then None
                       else case en_fact e of
                              EffectCompleted f \<Rightarrow>
                                if ec_Effect f = effectID then Some (ec_Result f, i + 1) else None
                            | _ \<Rightarrow> None)
             (enumerate 0 (facts s)) of
             None \<Rightarrow> Inr \<lparr>rd_Effect = effectID, rd_Policy = policy, rd_RecordedResult = [],
                          rd_CompletionOrder = 0, rd_Rerun = False\<rparr>
           | Some (recordedResult, completionOrder) \<Rightarrow>
               Inr \<lparr>rd_Effect = effectID, rd_Policy = policy, rd_RecordedResult = recordedResult,
                    rd_CompletionOrder = completionOrder, rd_Rerun = False\<rparr>))"

fun decisionsForEffects ::
  "Store \<Rightarrow> SessionID \<Rightarrow> (EffectID \<rightharpoonup> ReplayDecision) \<Rightarrow> EffectID list \<Rightarrow>
   StoreError + (EffectID \<rightharpoonup> ReplayDecision)" where
  "decisionsForEffects s session decisions [] = Inr decisions"
| "decisionsForEffects s session decisions (effectID # rest) =
     (if decisions effectID \<noteq> None then decisionsForEffects s session decisions rest
      else rbind (loadReplayDecision s session effectID) (\<lambda>dec.
             decisionsForEffects s session (decisions(effectID \<mapsto> dec)) rest))"

fun decisionsForSteps ::
  "Store \<Rightarrow> SessionID \<Rightarrow> (EffectID \<rightharpoonup> ReplayDecision) \<Rightarrow> ReplayStep list \<Rightarrow>
   StoreError + (EffectID \<rightharpoonup> ReplayDecision)" where
  "decisionsForSteps s session decisions [] = Inr decisions"
| "decisionsForSteps s session decisions (step # steps) =
     rbind (decisionsForEffects s session decisions (st_Effects step)) (\<lambda>decisions.
       decisionsForSteps s session decisions steps)"

definition buildReplayDecisions ::
  "Store \<Rightarrow> SessionID \<Rightarrow> ReplayStep list \<Rightarrow> StoreError + (EffectID \<rightharpoonup> ReplayDecision)" where
  "buildReplayDecisions s session steps = decisionsForSteps s session Map.empty steps"

definition LoadReplayPlan :: "Store \<Rightarrow> SessionID \<Rightarrow> CellID \<Rightarrow> (StoreError, ReplayPlan) comp" where
  "LoadReplayPlan s session targetCell =
     cbind (Some (branchForCell s session targetCell)) (\<lambda>branch.
     cbind (buildReplaySteps s session branch targetCell) (\<lambda>steps.
     cbind (Some (buildReplayDecisions s session steps)) (\<lambda>decisions.
     cbind (Some (loadRuntimeAttached s session)) (\<lambda>runtime.
     cbind (Some (LoadRuntimeConfig s (ra_RuntimeHash runtime))) (\<lambda>config.
     cbind (buildRuntimeTransitions s session branch targetCell) (\<lambda>transitions.
       Some (Inr \<lparr>pl_Session = session, pl_Branch = branch, pl_TargetCell = targetCell,
                  pl_RuntimeHash = ra_RuntimeHash runtime, pl_RuntimeConfig = config,
                  pl_RuntimeTransitions = transitions, pl_Steps = steps,
                  pl_Decisions = decisions\<rparr>)))))))"

subsection \<open>The session cursor\<close>

fun sessionStateLoop ::
  "Store \<Rightarrow> SessionID \<Rightarrow> BranchID \<times> CellID \<Rightarrow> entry list \<Rightarrow> StoreError + BranchID \<times> CellID" where
  "sessionStateLoop s session cursor [] = Inr cursor"
| "sessionStateLoop s session cursor (e # es) =
     (if en_session e \<noteq> session then sessionStateLoop s session cursor es
      else case en_fact e of
             HeadMoved f \<Rightarrow> sessionStateLoop s session (hm_Branch f, hm_Next f) es
           | RestoreCompleted f \<Rightarrow>
               if rc_TargetCell f = [] then sessionStateLoop s session cursor es
               else if rc_NewBranch f \<noteq> []
               then sessionStateLoop s session (rc_NewBranch f, rc_TargetCell f) es
               else rbind (branchForCell s session (rc_TargetCell f)) (\<lambda>branch.
                      sessionStateLoop s session (branch, rc_TargetCell f) es)
           | _ \<Rightarrow> sessionStateLoop s session cursor es)"

definition LoadSessionState :: "Store \<Rightarrow> SessionID \<Rightarrow> (StoreError, SessionState) comp" where
  "LoadSessionState s session =
     cbind (Some (loadSessionStarted s session)) (\<lambda>started.
     cbind (Some (sessionStateLoop s session (ss_RootBranch started, []) (facts s))) (\<lambda>(branch, head).
     cbind (loadActiveRuntime s session branch head) (\<lambda>(runtimeHash, config).
       Some (Inr \<lparr>sst_Session = session, sst_Branch = branch, sst_Head = head,
                  sst_RuntimeHash = runtimeHash, sst_RuntimeConfig = config\<rparr>))))"

subsection \<open>Effects of a cell\<close>

fun cellEffectsLoop ::
  "SessionID \<Rightarrow> CellID \<Rightarrow> EffectRecord list \<Rightarrow> (EffectID \<rightharpoonup> nat) \<Rightarrow> entry list \<Rightarrow> EffectRecord list" where
  "cellEffectsLoop session cell out idx [] = out"
| "cellEffectsLoop session cell out idx (e # es) =
     (if en_session e \<noteq> session then cellEffectsLoop session cell out idx es
      else case en_fact e of
             EffectStarted f \<Rightarrow>
               if es_Cell f \<noteq> cell then cellEffectsLoop session cell out idx es
               else cellEffectsLoop session cell
                      (out @ [\<lparr>er_Effect = es_Effect f, er_Cell = es_Cell f,
                               er_FunctionName = es_FunctionName f, er_Params = es_Params f,
                               er_ReplayPolicy = es_ReplayPolicy f, er_Status = EffectRecordPending,
                               er_Result = [], er_ErrorMessage = [],
                               er_StartedAt = es_At f, er_UpdatedAt = es_At f\<rparr>])
                      (idx(es_Effect f \<mapsto> length out)) es
           | EffectCompleted f \<Rightarrow>
               (case idx (ec_Effect f) of
                  None \<Rightarrow> cellEffectsLoop session cell out idx es
                | Some i \<Rightarrow> cellEffectsLoop session cell
                    (out[i := (out ! i)\<lparr>er_Status := EffectRecordCompleted, er_Result := ec_Result f,
                                        er_ErrorMessage := [], er_UpdatedAt := ec_At f\<rparr>]) idx es)
           | EffectFailed f \<Rightarrow>
               (case idx (ef_Effect f) of
                  None \<Rightarrow> cellEffectsLoop session cell out idx es
                | Some i \<Rightarrow> cellEffectsLoop session cell
                    (out[i := (out ! i)\<lparr>er_Status := EffectRecordFailed, er_Result := [],
                                        er_ErrorMessage := ef_ErrorMessage f,
                                        er_UpdatedAt := ef_At f\<rparr>]) idx es)
           | _ \<Rightarrow> cellEffectsLoop session cell out idx es)"

definition LoadCellEffects :: "Store \<Rightarrow> SessionID \<Rightarrow> CellID \<Rightarrow> StoreError + EffectRecord list" where
  "LoadCellEffects s session cell = Inr (cellEffectsLoop session cell [] Map.empty (facts s))"

end
