(* ===== verification/Log_Spec.thy ===== *)
theory Log_Spec
  imports Repl_Model
begin

text \<open>
  The abstract specification of a session's durable history. A fact log is
  folded into its \<open>lineage\<close>: its length, the root branch, the committed cells
  with their owning branches in commit order, and for every branch the cells it
  inherited at the point where it was forked and its ancestors, each with the
  1-based log position of the fork that left it. The history of a cell is what its branch
  inherited, followed by the branch's own cells up to the cell. The stores
  never build this structure: they walk the log at every query. The theories
  that model them prove that the walks compute it.

  \<open>ok_step\<close> is the discipline under which the session engine appends facts
  (fresh cell and branch identifiers, forks from committed cells only, checks
  and evaluations before the commit), and \<open>log_wf\<close> a log all of whose facts of
  the session were appended under it.
\<close>

record lineage =
  li_root :: "BranchID option"
  li_commits :: "(CellID \<times> BranchID) list"
  li_inh :: "BranchID \<rightharpoonup> (CellID \<times> BranchID) list"
  li_cut :: "BranchID \<Rightarrow> (BranchID \<times> nat) list"
  li_len :: nat

definition empty_lineage :: lineage where
  "empty_lineage = \<lparr>li_root = None, li_commits = [], li_inh = Map.empty, li_cut = (\<lambda>_. []), li_len = 0\<rparr>"

lemma empty_lineage_sel [simp]:
  "li_root empty_lineage = None" "li_commits empty_lineage = []" "li_inh empty_lineage = Map.empty"
  "li_len empty_lineage = 0"
  by (simp_all add: empty_lineage_def)

definition own :: "lineage \<Rightarrow> BranchID \<Rightarrow> CellID list" where
  "own L b = map fst (filter (\<lambda>(c, b'). b' = b) (li_commits L))"

definition owner :: "lineage \<Rightarrow> CellID \<Rightarrow> BranchID option" where
  "owner L c = map_of (li_commits L) c"

definition known :: "lineage \<Rightarrow> BranchID \<Rightarrow> bool" where
  "known L b \<longleftrightarrow> li_inh L b \<noteq> None"

definition inherited :: "lineage \<Rightarrow> BranchID \<Rightarrow> (CellID \<times> BranchID) list" where
  "inherited L b = (case li_inh L b of None \<Rightarrow> [] | Some xs \<Rightarrow> xs)"

definition branch_history :: "lineage \<Rightarrow> BranchID \<Rightarrow> CellID \<Rightarrow> (CellID \<times> BranchID) list" where
  "branch_history L b stop = inherited L b @ map (\<lambda>c. (c, b)) (take_upto stop (own L b))"

definition history :: "lineage \<Rightarrow> CellID \<Rightarrow> (CellID \<times> BranchID) list" where
  "history L c = (case owner L c of None \<Rightarrow> [] | Some b \<Rightarrow> branch_history L b c)"

text \<open>
  The runtime transitions a replay to \<open>stop\<close> on branch \<open>b\<close> may see: those on the
  branch itself, and those on an ancestor at a log position not after the fork
  that left it; of these, the ones recorded after a cell of the history on the
  same branch, or at the empty boundary of the branch where the history starts.
\<close>

definition transition_visible ::
  "lineage \<Rightarrow> BranchID \<Rightarrow> CellID \<Rightarrow> nat \<Rightarrow> RuntimeTransitioned \<Rightarrow> bool" where
  "transition_visible L b stop n f \<longleftrightarrow>
     (rt_Branch f = b \<or> (case map_of (li_cut L b) (rt_Branch f) of None \<Rightarrow> False | Some m \<Rightarrow> n \<le> m)) \<and>
     (if rt_AfterCell f = [] then rt_Branch f = snd (hd (branch_history L b stop))
      else (rt_AfterCell f, rt_Branch f) \<in> set (branch_history L b stop))"

definition lineage_fact :: "SessionID \<Rightarrow> lineage \<Rightarrow> Fact \<Rightarrow> lineage" where
  "lineage_fact sn L f = (case f of
     SessionStarted x \<Rightarrow>
       if ss_Session x = sn
       then L\<lparr>li_root := Some (ss_RootBranch x), li_inh := (li_inh L)(ss_RootBranch x \<mapsto> []),
              li_cut := (li_cut L)(ss_RootBranch x := [])\<rparr>
       else L
   | CellCommitted x \<Rightarrow>
       if cc_Session x = sn then L\<lparr>li_commits := li_commits L @ [(cc_Cell x, cc_Branch x)]\<rparr> else L
   | BranchCreated x \<Rightarrow>
       if bc_Session x = sn
       then L\<lparr>li_inh := (li_inh L)(bc_Branch x \<mapsto> history L (bc_ParentCell x)),
              li_cut := (li_cut L)(bc_Branch x :=
                (case owner L (bc_ParentCell x) of None \<Rightarrow> []
                 | Some p \<Rightarrow> (p, li_len L + 1) # li_cut L p))\<rparr>
       else L
   | _ \<Rightarrow> L)"

definition lineage_step :: "SessionID \<Rightarrow> lineage \<Rightarrow> Fact \<Rightarrow> lineage" where
  "lineage_step sn L f = (lineage_fact sn L f)\<lparr>li_len := li_len L + 1\<rparr>"

definition lineage_of :: "SessionID \<Rightarrow> Fact list \<Rightarrow> lineage" where
  "lineage_of sn log = foldl (lineage_step sn) empty_lineage log"

definition ok_step :: "SessionID \<Rightarrow> lineage \<Rightarrow> Fact \<Rightarrow> bool" where
  "ok_step sn L f = (case f of
     SessionStarted x \<Rightarrow> ss_Session x = sn \<longrightarrow> li_root L = None \<and> ss_RootBranch x \<noteq> []
   | CellChecked x \<Rightarrow> ck_Session x = sn \<longrightarrow> owner L (ck_Cell x) = None
   | CellEvaluated x \<Rightarrow> ce_Session x = sn \<longrightarrow> owner L (ce_Cell x) = None
   | CellCommitted x \<Rightarrow>
       cc_Session x = sn \<longrightarrow> cc_Cell x \<noteq> [] \<and> owner L (cc_Cell x) = None \<and> known L (cc_Branch x)
   | HeadMoved x \<Rightarrow> hm_Session x = sn \<longrightarrow> owner L (hm_Next x) = Some (hm_Branch x)
   | BranchCreated x \<Rightarrow>
       bc_Session x = sn \<longrightarrow>
         bc_Branch x \<noteq> [] \<and> \<not> known L (bc_Branch x) \<and> owner L (bc_ParentCell x) \<noteq> None
   | RestoreCompleted x \<Rightarrow>
       rc_Session x = sn \<longrightarrow>
         owner L (rc_TargetCell x) \<noteq> None \<and>
         (rc_NewBranch x \<noteq> [] \<longrightarrow>
            known L (rc_NewBranch x) \<and> inherited L (rc_NewBranch x) = history L (rc_TargetCell x))
   | RuntimeTransitioned x \<Rightarrow>
       rt_Session x = sn \<longrightarrow>
         known L (rt_Branch x) \<and> (rt_AfterCell x \<noteq> [] \<longrightarrow> owner L (rt_AfterCell x) \<noteq> None)
   | _ \<Rightarrow> True)"

fun log_wf_from :: "SessionID \<Rightarrow> lineage \<Rightarrow> Fact list \<Rightarrow> bool" where
  "log_wf_from sn L [] = True"
| "log_wf_from sn L (f # fs) = (ok_step sn L f \<and> log_wf_from sn (lineage_step sn L f) fs)"

definition log_wf :: "SessionID \<Rightarrow> Fact list \<Rightarrow> bool" where
  "log_wf sn log = log_wf_from sn empty_lineage log"

subsection \<open>Snoc rules\<close>

lemma lineage_of_Nil [simp]:
  "lineage_of sn [] = empty_lineage"
  by (simp add: lineage_of_def)

lemma lineage_of_snoc [simp]: "lineage_of sn (log @ [f]) = lineage_step sn (lineage_of sn log) f"
  by (simp add: lineage_of_def)

lemma log_wf_from_append:
  "log_wf_from sn L (xs @ ys) \<longleftrightarrow>
     log_wf_from sn L xs \<and> log_wf_from sn (foldl (lineage_step sn) L xs) ys"
  by (induction xs arbitrary: L) auto

lemma log_wf_Nil [simp]: "log_wf sn []"
  by (simp add: log_wf_def)

lemma log_wf_snoc [simp]:
  "log_wf sn (log @ [f]) \<longleftrightarrow> log_wf sn log \<and> ok_step sn (lineage_of sn log) f"
  by (simp add: log_wf_def log_wf_from_append lineage_of_def)

lemma log_wf_appendD: "log_wf sn (xs @ ys) \<Longrightarrow> log_wf sn xs"
  by (simp add: log_wf_def log_wf_from_append)

lemma log_wf_induct [consumes 1, case_names Nil snoc]:
  assumes "log_wf sn log" and "P []"
    and "\<And>log f. log_wf sn log \<Longrightarrow> ok_step sn (lineage_of sn log) f \<Longrightarrow> P log \<Longrightarrow> P (log @ [f])"
  shows "P log"
  using assms(1) by (induction log rule: rev_induct) (use assms in auto)

subsection \<open>Steps of the lineage\<close>

lemmas lineage_step_defs = lineage_step_def lineage_fact_def

lemma lineage_views_len [simp]:
  "own (L\<lparr>li_len := n\<rparr>) b = own L b" "owner (L\<lparr>li_len := n\<rparr>) c = owner L c"
  "known (L\<lparr>li_len := n\<rparr>) b = known L b" "inherited (L\<lparr>li_len := n\<rparr>) b = inherited L b"
  by (simp_all add: own_def owner_def known_def inherited_def)

lemma li_len_lineage_of: "li_len (lineage_of sn log) = length log"
  by (induction log rule: rev_induct) (simp_all add: lineage_step_def empty_lineage_def)

lemma owner_append:
  "owner (L\<lparr>li_commits := li_commits L @ [(c, b)]\<rparr>) c' =
     (case owner L c' of Some x \<Rightarrow> Some x | None \<Rightarrow> if c' = c then Some b else None)"
  by (simp add: owner_def map_add_def split: option.splits)

lemma owner_mono: "owner L c = Some b \<Longrightarrow> owner (lineage_step sn L f) c = Some b"
  by (auto simp: lineage_step_defs owner_def map_add_def split: Fact.splits)

lemma known_mono: "known L b \<Longrightarrow> known (lineage_step sn L f) b"
  by (auto simp: lineage_step_defs known_def split: Fact.splits)

lemma inherited_step:
  "ok_step sn L f \<Longrightarrow> (li_root L = None \<Longrightarrow> \<not> known L b) \<Longrightarrow> known L b \<Longrightarrow>
     inherited (lineage_step sn L f) b = inherited L b"
  by (auto simp: lineage_step_defs known_def inherited_def ok_step_def split: Fact.splits)

lemma cut_step:
  "ok_step sn L f \<Longrightarrow> (li_root L = None \<Longrightarrow> \<not> known L b) \<Longrightarrow> known L b \<Longrightarrow>
     li_cut (lineage_step sn L f) b = li_cut L b"
  by (auto simp: lineage_step_defs known_def ok_step_def split: Fact.splits)

lemma own_step:
  "own (lineage_step sn L f) b =
     own L b @ (case f of CellCommitted x \<Rightarrow>
                  if cc_Session x = sn \<and> cc_Branch x = b then [cc_Cell x] else [] | _ \<Rightarrow> [])"
  by (auto simp: lineage_step_defs own_def split: Fact.splits)

lemma mem_own_iff: "c \<in> set (own L b) \<longleftrightarrow> (c, b) \<in> set (li_commits L)"
  by (force simp: own_def)

subsection \<open>The lineage of a well-formed log\<close>

text \<open>What every well-formed log keeps of its lineage.\<close>

definition lineage_inv :: "lineage \<Rightarrow> bool" where
  "lineage_inv L \<longleftrightarrow>
     distinct (map fst (li_commits L)) \<and>
     [] \<notin> fst ` set (li_commits L) \<and>
     (\<forall>(c, b) \<in> set (li_commits L). known L b) \<and>
     (li_root L = None \<longrightarrow> li_inh L = Map.empty) \<and>
     li_inh L [] = None \<and>
     (\<forall>b xs. li_inh L b = Some xs \<longrightarrow>
        set xs \<subseteq> set (li_commits L) \<and> distinct (map fst xs) \<and> b \<notin> snd ` set xs)"

text \<open>What it keeps of the ancestors: distinct known branches, left before the log ends.\<close>

definition cuts_inv :: "lineage \<Rightarrow> bool" where
  "cuts_inv L \<longleftrightarrow>
     (\<forall>b. known L b \<longrightarrow>
        distinct (b # map fst (li_cut L b)) \<and>
        (\<forall>(a, n) \<in> set (li_cut L b). known L a \<and> 0 < n \<and> n \<le> li_len L) \<and>
        snd ` set (inherited L b) \<subseteq> fst ` set (li_cut L b))"

lemma lineage_inv_len [simp]: "lineage_inv (L\<lparr>li_len := n\<rparr>) = lineage_inv L"
  by (simp add: lineage_inv_def)

lemma owner_iff_commits:
  "lineage_inv L \<Longrightarrow> owner L c = Some b \<longleftrightarrow> (c, b) \<in> set (li_commits L)"
  by (auto simp: lineage_inv_def owner_def)

lemma owner_None_iff: "owner L c = None \<longleftrightarrow> c \<notin> fst ` set (li_commits L)"
  by (simp add: owner_def map_of_eq_None_iff)

lemma known_owner: "lineage_inv L \<Longrightarrow> owner L c = Some b \<Longrightarrow> known L b"
  by (auto simp: owner_iff_commits lineage_inv_def)

lemma own_owner: "lineage_inv L \<Longrightarrow> owner L c = Some b \<longleftrightarrow> c \<in> set (own L b)"
  by (simp add: owner_iff_commits mem_own_iff)

lemma distinct_own: "lineage_inv L \<Longrightarrow> distinct (own L b)"
  by (auto simp: lineage_inv_def own_def distinct_map intro: inj_on_subset)

lemma inherited_inv:
  assumes "lineage_inv L"
  shows "set (inherited L b) \<subseteq> set (li_commits L)" and "distinct (map fst (inherited L b))"
    and "b \<notin> snd ` set (inherited L b)"
  using assms by (cases "li_inh L b"; simp add: lineage_inv_def inherited_def)+

lemma branch_history_subset:
  assumes "lineage_inv L"
  shows "set (branch_history L b stop) \<subseteq> set (li_commits L)"
  using set_take_upto_subset [of stop "own L b"] inherited_inv(1) [OF assms, of b]
  by (auto simp: branch_history_def mem_own_iff [symmetric])

lemma branch_history_distinct:
  assumes inv: "lineage_inv L"
  shows "distinct (map fst (branch_history L b stop))"
proof -
  note inh = inherited_inv [OF inv, of b]
  have "c \<notin> fst ` set (inherited L b)" if "c \<in> set (own L b)" for c
  proof
    assume "c \<in> fst ` set (inherited L b)"
    then obtain b' where "(c, b') \<in> set (inherited L b)" by auto
    then have "owner L c = Some b'" and "b' \<noteq> b"
      using inh inv by (force simp: owner_iff_commits)+
    moreover have "owner L c = Some b" using that inv by (simp add: own_owner)
    ultimately show False by simp
  qed
  moreover have "map fst (map (\<lambda>c. (c, b)) (take_upto stop (own L b))) = take_upto stop (own L b)"
    by (simp add: comp_def)
  ultimately show ?thesis
    using inh(2) distinct_take_upto [OF distinct_own [OF inv]] set_take_upto_subset [of stop "own L b"]
    by (auto simp: branch_history_def comp_def)
qed

lemma ok_step_inv:
  assumes inv: "lineage_inv L" and ok: "ok_step sn L f"
  shows "lineage_inv (lineage_step sn L f)"
proof (cases f)
  case (SessionStarted x)
  with inv ok show ?thesis
    by (auto simp: lineage_inv_def lineage_step_defs ok_step_def known_def)
next
  case (CellCommitted x)
  show ?thesis
  proof (cases "cc_Session x = sn")
    case True
    with CellCommitted inv ok show ?thesis
      by (simp add: lineage_inv_def lineage_step_defs ok_step_def known_def owner_None_iff)
        (metis subset_insertI2)
  next
    case False
    with CellCommitted inv show ?thesis by (simp add: lineage_step_defs)
  qed
next
  case (BranchCreated x)
  show ?thesis
  proof (cases "bc_Session x = sn")
    case True
    with BranchCreated ok obtain b0 where nb: "bc_Branch x \<noteq> []" "\<not> known L (bc_Branch x)"
      and b0: "owner L (bc_ParentCell x) = Some b0"
      by (auto simp: ok_step_def)
    let ?h = "branch_history L b0 (bc_ParentCell x)"
    have "bc_Branch x \<notin> snd ` set ?h"
      using branch_history_subset [OF inv, of b0 "bc_ParentCell x"] nb inv
      by (fastforce simp: lineage_inv_def)
    with True BranchCreated b0 nb inv branch_history_subset [OF inv, of b0 "bc_ParentCell x"]
      branch_history_distinct [OF inv, of b0 "bc_ParentCell x"]
    show ?thesis
      by (auto simp: lineage_inv_def lineage_step_defs known_def history_def
            dest: known_owner [OF inv])
  next
    case False
    with BranchCreated inv show ?thesis by (simp add: lineage_step_defs)
  qed
qed (use inv in \<open>simp_all add: lineage_step_defs\<close>)

lemma log_wf_inv: "log_wf sn log \<Longrightarrow> lineage_inv (lineage_of sn log)"
  by (induction rule: log_wf_induct)
    (simp_all add: ok_step_inv, simp add: lineage_inv_def empty_lineage_def)

lemma cuts_invD:
  assumes "cuts_inv L" and "known L b"
  shows "distinct (b # map fst (li_cut L b))"
    and "(a, n) \<in> set (li_cut L b) \<Longrightarrow> known L a \<and> 0 < n \<and> n \<le> li_len L"
    and "snd ` set (inherited L b) \<subseteq> fst ` set (li_cut L b)"
  using assms(1) [unfolded cuts_inv_def, rule_format, OF assms(2)] by auto

lemma cuts_inv_new_branch:
  assumes cuts: "cuts_inv L" and nb: "\<not> known L b" and dist: "distinct (b # map fst as)"
    and anc: "\<And>a n. (a, n) \<in> set as \<Longrightarrow> known L a \<and> 0 < n \<and> n \<le> m"
    and sub: "snd ` set xs \<subseteq> fst ` set as" and m: "li_len L \<le> m"
  shows "cuts_inv (L\<lparr>li_root := r, li_inh := (li_inh L)(b \<mapsto> xs), li_cut := (li_cut L)(b := as), li_len := m\<rparr>)"
    (is "cuts_inv ?L'")
  unfolding cuts_inv_def
proof (intro allI impI)
  fix b' assume kn: "known ?L' b'"
  have mono: "known ?L' a" if "known L a" for a using that by (simp add: known_def)
  show "distinct (b' # map fst (li_cut ?L' b')) \<and>
    (\<forall>(a, n) \<in> set (li_cut ?L' b'). known ?L' a \<and> 0 < n \<and> n \<le> li_len ?L') \<and>
    snd ` set (inherited ?L' b') \<subseteq> fst ` set (li_cut ?L' b')"
  proof (cases "b' = b")
    case True
    with dist anc sub mono show ?thesis by (auto simp: inherited_def)
  next
    case False
    then have "known L b'" using kn by (simp add: known_def)
    note old = cuts_invD [OF cuts this]
    have "known ?L' a \<and> 0 < n \<and> n \<le> m" if "(a, n) \<in> set (li_cut L b')" for a n
      using old(2) [OF that] m mono by auto
    with old(1,3) False show ?thesis by (auto simp: inherited_def)
  qed
qed

lemma cuts_inv_len_mono: "cuts_inv L \<Longrightarrow> li_len L \<le> m \<Longrightarrow> cuts_inv (L\<lparr>li_commits := cs, li_len := m\<rparr>)"
  by (auto 0 4 simp: cuts_inv_def known_def inherited_def)

lemma ok_step_cuts:
  assumes inv: "lineage_inv L" and cuts: "cuts_inv L" and ok: "ok_step sn L f"
  shows "cuts_inv (lineage_step sn L f)"
proof -
  have keep: "cuts_inv (L\<lparr>li_len := Suc (li_len L)\<rparr>)"
    using cuts_inv_len_mono [OF cuts, of "Suc (li_len L)" "li_commits L"] by simp
  show ?thesis
  proof (cases f)
    case (SessionStarted x)
    show ?thesis
    proof (cases "ss_Session x = sn")
      case True
      with SessionStarted ok inv have "li_inh L = Map.empty"
        by (simp add: ok_step_def lineage_inv_def)
      with SessionStarted True show ?thesis
        using cuts_inv_new_branch [OF cuts, of "ss_RootBranch x" "[]" "Suc (li_len L)" "[]"]
        by (simp add: lineage_step_defs known_def)
    qed (use SessionStarted keep in \<open>simp add: lineage_step_defs\<close>)
  next
    case (CellCommitted x)
    then show ?thesis
      using keep cuts_inv_len_mono [OF cuts] by (simp add: lineage_step_defs)
  next
    case (BranchCreated x)
    show ?thesis
    proof (cases "bc_Session x = sn")
      case True
      with BranchCreated ok obtain p where nb: "\<not> known L (bc_Branch x)"
        and p: "owner L (bc_ParentCell x) = Some p"
        by (auto simp: ok_step_def)
      have kp: "known L p" using inv p by (rule known_owner)
      note cp = cuts_invD [OF cuts kp]
      let ?as = "(p, Suc (li_len L)) # li_cut L p"
      have "distinct (bc_Branch x # map fst ?as)" using cp(1,2) kp nb by auto
      moreover have "\<And>a n. (a, n) \<in> set ?as \<Longrightarrow> known L a \<and> 0 < n \<and> n \<le> Suc (li_len L)"
        using cp(2) kp by (auto intro: le_SucI)
      moreover have "snd ` set (branch_history L p (bc_ParentCell x)) \<subseteq> fst ` set ?as"
        using cp(3) by (auto simp: branch_history_def)
      ultimately show ?thesis
        using cuts_inv_new_branch [OF cuts nb, of ?as "Suc (li_len L)"
            "branch_history L p (bc_ParentCell x)" "li_root L"] BranchCreated True p
        by (simp add: lineage_step_defs history_def)
    qed (use BranchCreated keep in \<open>simp add: lineage_step_defs\<close>)
  qed (use keep in \<open>simp_all add: lineage_step_defs\<close>)
qed

lemma log_wf_cuts: "log_wf sn log \<Longrightarrow> cuts_inv (lineage_of sn log)"
  by (induction rule: log_wf_induct)
    (simp_all add: ok_step_cuts log_wf_inv, simp add: cuts_inv_def known_def empty_lineage_def)

lemma history_last:
  "lineage_inv L \<Longrightarrow> owner L c = Some b \<Longrightarrow>
     history L c \<noteq> [] \<and> last (history L c) = (c, b)"
  using own_owner [of L c b] last_take_upto [of c "own L b"]
  by (simp add: history_def branch_history_def last_map)

end
