(* ===== verification/Mem_Refine.thy ===== *)
theory Mem_Refine
  imports Mem_Store Log_Spec
begin

text \<open>
  The in-memory store implements the abstract history of \<open>Log_Spec\<close>: every
  query of \<open>Mem_Store\<close> is an expression over the lineage of the log, and the
  two loops that climb the branch ancestry return on every well-formed log.
\<close>

definition logOf :: "Store \<Rightarrow> Fact list" where
  "logOf s = map en_fact (facts s)"

text \<open>The type invariant of the log: the index columns of an entry are those of its fact.\<close>

definition store_ok :: "Store \<Rightarrow> bool" where
  "store_ok s \<longleftrightarrow> facts s = map mkEntry (logOf s)"

abbreviation lineageOf :: "SessionID \<Rightarrow> Store \<Rightarrow> lineage" where
  "lineageOf sn s \<equiv> lineage_of sn (logOf s)"

definition store_wf :: "SessionID \<Rightarrow> Store \<Rightarrow> bool" where
  "store_wf sn s \<longleftrightarrow> store_ok s \<and> log_wf sn (logOf s)"

fun commitOf :: "SessionID \<Rightarrow> Fact \<Rightarrow> (CellID \<times> BranchID) option" where
  "commitOf sn (CellCommitted x) = (if cc_Session x = sn then Some (cc_Cell x, cc_Branch x) else None)"
| "commitOf sn _ = None"

fun forkOf :: "SessionID \<Rightarrow> BranchID \<Rightarrow> Fact \<Rightarrow> BranchCreated option" where
  "forkOf sn b (BranchCreated x) = (if bc_Session x = sn \<and> bc_Branch x = b then Some x else None)"
| "forkOf sn b _ = None"

text \<open>The first \<open>BranchCreated\<close> of a branch with its 0-based log position.\<close>

definition forkPos :: "SessionID \<Rightarrow> Fact list \<Rightarrow> BranchID \<Rightarrow> (nat \<times> BranchCreated) option" where
  "forkPos sn log b =
     find_map (\<lambda>(i, f). map_option (\<lambda>x. (i, x)) (forkOf sn b f)) (enumerate 0 log)"

text \<open>
  What a branch inherits and the ancestors it has, read off the \<open>BranchCreated\<close>
  facts by climbing to the root.
\<close>

inductive inh_rel ::
  "SessionID \<Rightarrow> Fact list \<Rightarrow> BranchID \<Rightarrow> (CellID \<times> BranchID) list \<Rightarrow> (BranchID \<times> nat) list \<Rightarrow> bool"
  for sn log where
  inh_root: "forkPos sn log b = None \<Longrightarrow> inh_rel sn log b [] []"
| inh_fork: "forkPos sn log b = Some (i, x) \<Longrightarrow> owner (lineage_of sn log) (bc_ParentCell x) = Some p \<Longrightarrow>
     inh_rel sn log p ih as \<Longrightarrow>
     inh_rel sn log b
       (ih @ map (\<lambda>c. (c, p)) (take_upto (bc_ParentCell x) (own (lineage_of sn log) p)))
       ((p, i + 1) # as)"

subsection \<open>The log and its entries\<close>

lemma mkEntry_sel [simp]:
  "en_fact (mkEntry f) = f" "en_factType (mkEntry f) = FactType f"
  "en_session (mkEntry f) = fst (extractIndexColumns f)"
  "en_branch (mkEntry f) = fst (snd (extractIndexColumns f))"
  "en_cell (mkEntry f) = snd (snd (extractIndexColumns f))"
  by (simp_all add: mkEntry_def split: prod.splits)

lemma store_ok_New [simp]: "store_ok New"
  by (simp add: store_ok_def logOf_def New_def)

lemma logOf_New [simp]: "logOf New = []"
  by (simp add: logOf_def New_def)

lemma AppendFact_logOf: "AppendFact s f = Inr s' \<Longrightarrow> logOf s' = logOf s @ [f]"
  by (auto simp: AppendFact_def logOf_def)

lemma AppendFact_store_ok: "AppendFact s f = Inr s' \<Longrightarrow> store_ok s \<Longrightarrow> store_ok s'"
  by (auto simp: AppendFact_def store_ok_def logOf_def)

lemma AppendFact_store_wf:
  "AppendFact s f = Inr s' \<Longrightarrow> store_wf sn s \<Longrightarrow> ok_step sn (lineageOf sn s) f \<Longrightarrow> store_wf sn s'"
  by (simp add: store_wf_def AppendFact_store_ok AppendFact_logOf)

lemma AppendFact_configs: "AppendFact s f = Inr s' \<Longrightarrow> runtimeConfigs s' = runtimeConfigs s"
  by (auto simp: AppendFact_def)

lemma PutRuntimeConfig_frame:
  "PutRuntimeConfig s h c = Inr s' \<Longrightarrow> facts s' = facts s \<and> logOf s' = logOf s \<and> store_ok s' = store_ok s"
  by (auto simp: PutRuntimeConfig_def logOf_def store_ok_def split: option.splits if_splits)

lemma store_wf_inv: "store_wf sn s \<Longrightarrow> lineage_inv (lineageOf sn s)"
  by (simp add: store_wf_def log_wf_inv)

subsection \<open>Queries as expressions over the lineage\<close>

lemma commits_eq: "li_commits (lineage_of sn log) = collect (commitOf sn) log"
proof (induction log rule: rev_induct)
  case (snoc f log)
  then show ?case by (cases f) (auto simp: lineage_step_defs collect_append)
qed simp

lemma enumerate_map: "enumerate n (map g xs) = map (\<lambda>(i, x). (i, g x)) (enumerate n xs)"
  by (induction xs arbitrary: n) auto

lemma map_of_collect:
  "map_of (collect f xs) c =
     find_map (\<lambda>x. case f x of Some (c', b) \<Rightarrow> if c' = c then Some b else None | None \<Rightarrow> None) xs"
  by (induction xs) (auto split: option.splits)

lemma branchForCell_owner:
  assumes "store_ok s"
  shows "branchForCell s sn c =
    (case owner (lineageOf sn s) c of Some b \<Rightarrow> Inr b | None \<Rightarrow> Inl (NotCommitted c sn))"
proof -
  have "find_map (\<lambda>e. if en_session e \<noteq> sn \<or> en_cell e \<noteq> c \<or> en_factType e \<noteq> ''CellCommitted'' then None
          else case en_fact e of CellCommitted f \<Rightarrow> Some (cc_Branch f) | _ \<Rightarrow> None) (map mkEntry log) =
        map_of (collect (commitOf sn) log) c" for log
    unfolding find_map_map map_of_collect
    by (rule find_map_cong [OF refl]) (auto split: Fact.splits)
  then show ?thesis
    using assms by (simp add: branchForCell_def owner_def commits_eq store_ok_def)
qed

lemma committedCellsUpTo_own:
  assumes "store_ok s"
  shows "committedCellsUpTo s sn b stop = take_upto stop (own (lineageOf sn s) b)"
proof -
  have "collect (\<lambda>e. if en_session e \<noteq> sn \<or> en_branch e \<noteq> b \<or> en_factType e \<noteq> ''CellCommitted'' then None
          else case en_fact e of CellCommitted f \<Rightarrow> Some (cc_Cell f) | _ \<Rightarrow> None) (map mkEntry log) =
        map fst (filter (\<lambda>(c, b'). b' = b) (collect (commitOf sn) log))" for log
    by (induction log) (auto split: Fact.splits)
  then show ?thesis
    using assms by (simp add: committedCellsUpTo_def own_def commits_eq store_ok_def)
qed

lemma branchParentRecord_forkPos:
  assumes "store_ok s"
  shows "branchParentRecord s sn b =
    (case forkPos sn (logOf s) b of
       None \<Rightarrow> Inr None
     | Some (i, x) \<Rightarrow>
         (case owner (lineageOf sn s) (bc_ParentCell x) of
            None \<Rightarrow> Inl (NotCommitted (bc_ParentCell x) sn)
          | Some p \<Rightarrow> Inr (Some (p, bc_ParentCell x, i + 1))))"
proof -
  have "find_map (\<lambda>(i, e). if en_session e \<noteq> sn \<or> en_branch e \<noteq> b \<or> en_factType e \<noteq> ''BranchCreated''
          then None else case en_fact e of BranchCreated f \<Rightarrow> Some (i, f) | _ \<Rightarrow> None)
          (enumerate 0 (map mkEntry log)) = forkPos sn log b" for log
    unfolding forkPos_def enumerate_map find_map_map
    by (rule find_map_cong [OF refl]) (auto split: Fact.splits)
  then show ?thesis
    using assms
    by (auto simp: branchParentRecord_def branchForCell_owner store_ok_def split: option.splits)
qed

lemma forkPos_snoc:
  "forkPos sn (log @ [f]) b =
     (case forkPos sn log b of Some r \<Rightarrow> Some r | None \<Rightarrow> map_option (\<lambda>x. (length log, x)) (forkOf sn b f))"
  by (auto simp: forkPos_def enumerate_append_eq find_map_append split: option.splits)

lemma forkPos_known:
  "log_wf sn log \<Longrightarrow> forkPos sn log b = Some (i, x) \<Longrightarrow> known (lineage_of sn log) b"
proof (induction rule: log_wf_induct)
  case Nil
  then show ?case by (simp add: forkPos_def)
next
  case (snoc log f)
  show ?case
  proof (cases "forkPos sn log b")
    case None
    with snoc.prems obtain y where "f = BranchCreated y" "bc_Session y = sn" "bc_Branch y = b"
      by (cases f) (auto simp: forkPos_snoc split: if_splits)
    then show ?thesis by (simp add: lineage_step_defs known_def)
  next
    case (Some r)
    with snoc show ?thesis by (auto simp: forkPos_snoc intro: known_mono)
  qed
qed

lemma forkPos_stable:
  assumes "log_wf sn log" "ok_step sn (lineage_of sn log) f" "known (lineage_of sn log) b"
  shows "forkPos sn (log @ [f]) b = forkPos sn log b"
  using assms(2,3) by (cases f) (auto simp: forkPos_snoc ok_step_def split: option.splits)

subsection \<open>The ancestry walk returns the abstract history\<close>

lemma inh_rel_stable:
  assumes wf: "log_wf sn log" and ok: "ok_step sn (lineage_of sn log) f"
  shows "inh_rel sn log b ih as \<Longrightarrow> known (lineage_of sn log) b \<Longrightarrow> inh_rel sn (log @ [f]) b ih as"
proof (induction rule: inh_rel.induct)
  case (inh_root b)
  then show ?case using forkPos_stable [OF wf ok] by (auto intro: inh_rel.inh_root)
next
  case (inh_fork b i x p ih as)
  let ?L = "lineage_of sn log"
  have inv: "lineage_inv ?L" using wf by (rule log_wf_inv)
  have "known ?L p" and mem: "bc_ParentCell x \<in> set (own ?L p)"
    using inv inh_fork.hyps(2) by (simp_all add: known_owner own_owner)
  then have "inh_rel sn (log @ [f]) p ih as" using inh_fork.IH by blast
  moreover have "take_upto (bc_ParentCell x) (own (lineage_of sn (log @ [f])) p) =
      take_upto (bc_ParentCell x) (own ?L p)"
    using mem by (simp add: own_step take_upto_append)
  moreover have "owner (lineage_of sn (log @ [f])) (bc_ParentCell x) = Some p"
    using inh_fork.hyps(2) by (simp add: owner_mono)
  moreover have "forkPos sn (log @ [f]) b = Some (i, x)"
    using forkPos_stable [OF wf ok inh_fork.prems] inh_fork.hyps(1) by simp
  ultimately show ?case using inh_rel.inh_fork [of sn "log @ [f]" b i x p ih as] by simp
qed

lemma inh_rel_inherited:
  "log_wf sn log \<Longrightarrow> known (lineage_of sn log) b \<Longrightarrow> inh_rel sn log b (inherited (lineage_of sn log) b) (li_cut (lineage_of sn log) b)"
proof (induction arbitrary: b rule: log_wf_induct)
  case Nil
  then show ?case by (simp add: known_def)
next
  case (snoc log f)
  let ?L = "lineage_of sn log"
  have inv: "lineage_inv ?L" using snoc.hyps(1) by (rule log_wf_inv)
  show ?case
  proof (cases "known ?L b")
    case True
    then have "inherited (lineage_of sn (log @ [f])) b = inherited ?L b"
      and "li_cut (lineage_of sn (log @ [f])) b = li_cut ?L b"
      using snoc.hyps(2) inv by (auto simp: lineage_inv_def known_def intro!: inherited_step cut_step)
    with snoc True show ?thesis by (simp add: inh_rel_stable)
  next
    case False
    then have nofork: "forkPos sn log b = None"
      using forkPos_known [OF snoc.hyps(1), of b] by (cases "forkPos sn log b") auto
    from False snoc.prems consider
        (root) x where "f = SessionStarted x" "ss_Session x = sn" "ss_RootBranch x = b"
      | (fork) x where "f = BranchCreated x" "bc_Session x = sn" "bc_Branch x = b"
      by (cases f) (auto simp: lineage_step_defs known_def split: if_splits)
    then show ?thesis
    proof cases
      case root
      then show ?thesis
        using nofork by (auto simp: lineage_step_defs inherited_def forkPos_snoc intro: inh_root)
    next
      case fork
      then obtain p where p: "owner ?L (bc_ParentCell x) = Some p" and "known ?L p"
        using snoc.hyps(2) inv by (auto simp: ok_step_def known_owner)
      then have "inh_rel sn (log @ [f]) p (inherited ?L p) (li_cut ?L p)"
        using snoc by (simp add: inh_rel_stable)
      moreover have "forkPos sn (log @ [f]) b = Some (length log, x)"
        using nofork fork by (simp add: forkPos_snoc)
      ultimately show ?thesis
        using inh_rel.inh_fork [of sn "log @ [f]" b "length log" x p "inherited ?L p" "li_cut ?L p"] p fork
        by (simp add: owner_mono own_step)
          (simp add: lineage_step_defs inherited_def history_def branch_history_def li_len_lineage_of)
    qed
  qed
qed

definition segCells :: "Store \<Rightarrow> SessionID \<Rightarrow> segment \<Rightarrow> (CellID \<times> BranchID) list" where
  "segCells s sn seg =
     map (\<lambda>c. (c, sg_branch seg)) (committedCellsUpTo s sn (sg_branch seg) (sg_stopAt seg))"

lemma collectAncestorChain_segCells:
  "collectAncestorChain s sn b stop = cbind (ancestorStack s sn b stop []) (\<lambda>stack.
     Some (Inr (concat (map (segCells s sn) (rev stack)))))"
  by (simp add: collectAncestorChain_def segCells_def [abs_def])

lemma segCells_own:
  "store_ok s \<Longrightarrow> segCells s sn \<lparr>sg_branch = b, sg_stopAt = t, sg_forkCell = fc\<rparr> =
     map (\<lambda>c. (c, b)) (take_upto t (own (lineageOf sn s) b))"
  by (simp add: segCells_def committedCellsUpTo_own)

lemma ancestorStack_inh:
  assumes ok: "store_ok s"
  shows "inh_rel sn (logOf s) b ih as \<Longrightarrow>
    \<exists>fc segs. ancestorStack s sn b stop stack =
        Some (Inr (stack @ \<lparr>sg_branch = b, sg_stopAt = stop, sg_forkCell = fc\<rparr> # segs)) \<and>
      concat (map (segCells s sn) (rev segs)) = ih"
proof (induction arbitrary: stop stack rule: inh_rel.induct)
  case (inh_root b)
  then show ?case
    by (auto simp: ancestorStack.simps [of s sn b] branchParent_def branchParentRecord_forkPos [OF ok])
next
  case (inh_fork b i x p ih as)
  let ?seg = "\<lparr>sg_branch = b, sg_stopAt = stop, sg_forkCell = bc_ParentCell x\<rparr>"
  obtain fc segs where IH:
    "ancestorStack s sn p (bc_ParentCell x) (stack @ [?seg]) =
       Some (Inr ((stack @ [?seg]) @ \<lparr>sg_branch = p, sg_stopAt = bc_ParentCell x, sg_forkCell = fc\<rparr> # segs))"
    "concat (map (segCells s sn) (rev segs)) = ih"
    using inh_fork.IH by blast
  have "ancestorStack s sn b stop stack = ancestorStack s sn p (bc_ParentCell x) (stack @ [?seg])"
    using inh_fork.hyps
    by (simp add: ancestorStack.simps [of s sn b] branchParent_def branchParentRecord_forkPos [OF ok])
  with IH show ?case by (auto simp: segCells_own [OF ok])
qed

lemma chain_branch_history:
  assumes wf: "store_wf sn s" and kn: "known (lineageOf sn s) b"
  shows "collectAncestorChain s sn b stop = Some (Inr (branch_history (lineageOf sn s) b stop))"
proof -
  have ok: "store_ok s" using wf by (simp add: store_wf_def)
  have "inh_rel sn (logOf s) b (inherited (lineageOf sn s) b) (li_cut (lineageOf sn s) b)"
    using wf kn by (simp add: store_wf_def inh_rel_inherited)
  from ancestorStack_inh [OF ok this, of stop "[]"] show ?thesis
    by (auto simp: collectAncestorChain_segCells branch_history_def segCells_own [OF ok])
qed

lemma chain_history:
  assumes wf: "store_wf sn s" and own: "owner (lineageOf sn s) c = Some b"
  shows "collectAncestorChain s sn b c = Some (Inr (history (lineageOf sn s) c))"
  using chain_branch_history [OF wf] known_owner [OF store_wf_inv [OF wf] own] own
  by (simp add: history_def)

subsection \<open>Runtime visibility\<close>

fun applyCut :: "runtimeVisibility \<Rightarrow> BranchID \<times> nat \<Rightarrow> runtimeVisibility" where
  "applyCut scopes (b, n) = scopes(b \<mapsto>
     (let scope = getScope scopes b in
      if sc_maxOrder scope = 0 \<or> sc_maxOrder scope > n
      then scope\<lparr>sc_maxOrder := n\<rparr> else scope))"

lemma cutoffWalk_applyCut:
  assumes ok: "store_ok s"
  shows "inh_rel sn (logOf s) b ih as \<Longrightarrow>
    cutoffWalk s sn b n scopes = Some (Inr (foldl applyCut scopes ((b, n) # as)))"
proof (induction arbitrary: n scopes rule: inh_rel.induct)
  case (inh_root b)
  then show ?case
    by (simp add: cutoffWalk.simps [of s sn b] branchParentRecord_forkPos [OF ok] Let_def fun_upd_def)
next
  case (inh_fork b i x p ih as)
  then show ?case
    by (simp add: cutoffWalk.simps [of s sn b] branchParentRecord_forkPos [OF ok] Let_def fun_upd_def)
qed

lemma foldl_applyCut:
  "distinct (map fst as) \<Longrightarrow>
   foldl applyCut scopes as b =
     (case map_of as b of None \<Rightarrow> scopes b
      | Some n \<Rightarrow> Some (let scope = getScope scopes b in
          if sc_maxOrder scope = 0 \<or> sc_maxOrder scope > n then scope\<lparr>sc_maxOrder := n\<rparr> else scope))"
proof (induction as arbitrary: scopes)
  case (Cons a as)
  obtain x n where a: "a = (x, n)" by (cases a)
  show ?case
  proof (cases "b = x")
    case True
    then have "map_of as b = None" using Cons.prems by (simp add: a map_of_eq_None_iff)
    with True Cons show ?thesis by (simp add: a)
  next
    case False
    then show ?thesis using Cons by (cases "map_of as b") (simp_all add: a getScope_def)
  qed
qed simp

lemma chainScopes_append:
  "chainScopes scopes (xs @ ys) = chainScopes (chainScopes scopes xs) ys"
proof (induction xs arbitrary: scopes)
  case (Cons a xs)
  then show ?case by (cases a) (simp add: Let_def fun_upd_def)
qed simp

lemma chainScopes_lookup:
  "chainScopes Map.empty chain b =
     (if b \<in> snd ` set chain
      then Some \<lparr>sc_cells = {c. (c, b) \<in> set chain}, sc_maxOrder = MaxInt,
                 sc_allowEmptyBoundary = False\<rparr>
      else None)"
proof (induction chain arbitrary: b rule: rev_induct)
  case (snoc a chain)
  obtain c b' where a: "a = (c, b')" by (cases a)
  have in_iff: "x \<in> snd ` set chain \<longleftrightarrow> (\<exists>c. (c, x) \<in> set chain)" for x by force
  show ?case
    using snoc [of b] snoc [of b']
    by (cases "b' \<in> snd ` set chain"; cases "b = b'")
      (auto simp: a chainScopes_append getScope_def Let_def in_iff)
qed simp

text \<open>
  The scopes the store builds decide visibility as the lineage does. Log
  positions are Go ints, so the log is shorter than \<open>math.MaxInt\<close>.
\<close>

lemma visibility_spec:
  assumes wf: "store_wf sn s" and kn: "known (lineageOf sn s) b"
    and ne: "branch_history (lineageOf sn s) b stop \<noteq> []" and len: "length (logOf s) \<le> MaxInt"
  obtains V where "buildRuntimeVisibility s sn b stop = Some (Inr V)"
    and "\<And>t. tt_order t \<le> MaxInt \<Longrightarrow>
      visible V t \<longleftrightarrow> transition_visible (lineageOf sn s) b stop (tt_order t) (tt_fact t)"
proof -
  let ?L = "lineageOf sn s" and ?h = "branch_history (lineageOf sn s) b stop"
  let ?root = "snd (hd ?h)" and ?as = "(b, MaxInt) # li_cut (lineageOf sn s) b"
  have ok: "store_ok s" using wf by (simp add: store_wf_def)
  note cuts = cuts_invD [OF log_wf_cuts kn] and li_len_lineage_of [simp]
  have cuts: "distinct (map fst ?as)" "\<And>a n. map_of (li_cut ?L b) a = Some n \<Longrightarrow> 0 < n \<and> n \<le> MaxInt"
    using cuts_invD [OF log_wf_cuts kn] wf len
    by (auto simp: store_wf_def dest!: map_of_SomeD intro: order_trans)
  have sub: "snd ` set ?h \<subseteq> fst ` set ?as"
    using cuts_invD(3) [OF log_wf_cuts kn] wf by (auto simp: store_wf_def branch_history_def)
  define S where "S = (chainScopes Map.empty ?h)(?root \<mapsto>
      (getScope (chainScopes Map.empty ?h) ?root)\<lparr>sc_allowEmptyBoundary := True\<rparr>)"
  have root: "?root \<in> snd ` set ?h" using ne by simp
  have S: "S a = (if a \<in> snd ` set ?h
      then Some \<lparr>sc_cells = {c. (c, a) \<in> set ?h}, sc_maxOrder = MaxInt,
                 sc_allowEmptyBoundary = (a = ?root)\<rparr> else None)" for a
    using root by (auto simp: S_def chainScopes_lookup getScope_def)
  have max: "(0::nat) < MaxInt" by (simp add: MaxInt_def)
  obtain c0 b0 h where h: "?h = (c0, b0) # h" using ne by (cases ?h) auto
  have inh: "inh_rel sn (logOf s) b (inherited ?L b) (li_cut ?L b)"
    using wf kn by (simp add: store_wf_def inh_rel_inherited)
  have build: "buildRuntimeVisibility s sn b stop = Some (Inr (foldl applyCut S ?as))"
    using chain_branch_history [OF wf kn, of stop] root max
    by (auto simp: buildRuntimeVisibility_def h S_def Let_def cutoffWalk_applyCut [OF ok inh]
          chainScopes_lookup getScope_def simp del: foldl.simps)
  have V: "foldl applyCut S ?as a =
      (case map_of ?as a of None \<Rightarrow> None | Some n \<Rightarrow> Some (if a \<in> snd ` set ?h
        then \<lparr>sc_cells = {c. (c, a) \<in> set ?h}, sc_maxOrder = n, sc_allowEmptyBoundary = (a = ?root)\<rparr>
        else \<lparr>sc_cells = {}, sc_maxOrder = n, sc_allowEmptyBoundary = False\<rparr>))" for a
  proof (cases "map_of ?as a")
    case None
    then have "a \<notin> fst ` set ?as" by (metis map_of_eq_None_iff)
    then have "a \<notin> snd ` set ?h" using sub by blast
    then show ?thesis unfolding foldl_applyCut [OF cuts(1)] None by (simp add: S)
  next
    case (Some n)
    then have "0 < n \<and> n \<le> MaxInt" using cuts(2) [of a n] max by (simp split: if_splits)
    then show ?thesis unfolding foldl_applyCut [OF cuts(1)] Some by (auto simp: S getScope_def Let_def)
  qed
  have "visible (foldl applyCut S ?as) t \<longleftrightarrow> transition_visible ?L b stop (tt_order t) (tt_fact t)"
    if "tt_order t \<le> MaxInt" for t
  proof -
    let ?a = "rt_Branch (tt_fact t)" and ?c = "rt_AfterCell (tt_fact t)"
    have mem: "(?c, ?a) \<in> set ?h \<Longrightarrow> ?a \<in> snd ` set ?h" by force
    have "visible (foldl applyCut S ?as) t \<longleftrightarrow>
        (\<exists>n. map_of ?as ?a = Some n \<and> tt_order t \<le> n) \<and>
        (if ?c = [] then ?a = ?root else (?c, ?a) \<in> set ?h)"
    proof (cases "?a \<in> snd ` set ?h")
      case True
      then show ?thesis
        unfolding visible_def V by (cases "map_of ?as ?a") (simp_all del: map_of.simps add: not_less)
    next
      case False
      then have "?a \<noteq> ?root" and "(?c, ?a) \<notin> set ?h" using root mem by metis+
      with False show ?thesis
        unfolding visible_def V by (cases "map_of ?as ?a") (simp_all del: map_of.simps)
    qed
    also have "(\<exists>n. map_of ?as ?a = Some n \<and> tt_order t \<le> n) \<longleftrightarrow>
        ?a = b \<or> (case map_of (li_cut ?L b) ?a of None \<Rightarrow> False | Some m \<Rightarrow> tt_order t \<le> m)"
      using that by (cases "map_of (li_cut ?L b) ?a") auto
    finally show ?thesis by (simp add: transition_visible_def)
  qed
  with build show thesis by (rule that)
qed

end
