(* ===== verification/Log_Query.thy ===== *)
theory Log_Query
  imports Log_Spec
begin

text \<open>
  The queries of the store interface as functions of the fact log and the
  descriptor table: session cursor, active runtime, replay plan. A store walks
  its own representation; the theories that model the stores prove that the
  walks compute these functions.
\<close>

subsection \<open>The session cursor\<close>

text \<open>The branch and head a log leaves a session at, fact by fact.\<close>

definition cursor_fact :: "SessionID \<Rightarrow> lineage \<Rightarrow> BranchID \<times> CellID \<Rightarrow> Fact \<Rightarrow> BranchID \<times> CellID" where
  "cursor_fact sn L cur f = (case f of
     SessionStarted x \<Rightarrow> if ss_Session x = sn then (ss_RootBranch x, []) else cur
   | HeadMoved x \<Rightarrow> if hm_Session x = sn then (hm_Branch x, hm_Next x) else cur
   | RestoreCompleted x \<Rightarrow>
       if rc_Session x \<noteq> sn then cur
       else if rc_NewBranch x \<noteq> [] then (rc_NewBranch x, rc_TargetCell x)
       else (case owner L (rc_TargetCell x) of None \<Rightarrow> cur | Some b \<Rightarrow> (b, rc_TargetCell x))
   | _ \<Rightarrow> cur)"

definition cursor_of :: "SessionID \<Rightarrow> Fact list \<Rightarrow> BranchID \<times> CellID" where
  "cursor_of sn log = snd (foldl
     (\<lambda>(L, cur) f. (lineage_step sn L f, cursor_fact sn L cur f)) (empty_lineage, ([], [])) log)"

lemma cursor_fold_fst:
  "fst (foldl (\<lambda>(L, cur) f. (lineage_step sn L f, cursor_fact sn L cur f)) (empty_lineage, cur) log)
     = lineage_of sn log"
  by (induction log rule: rev_induct) (simp_all add: case_prod_unfold)

lemma cursor_of_Nil [simp]: "cursor_of sn [] = ([], [])"
  by (simp add: cursor_of_def)

lemma cursor_of_snoc [simp]:
  "cursor_of sn (log @ [f]) = cursor_fact sn (lineage_of sn log) (cursor_of sn log) f"
  by (simp add: cursor_of_def case_prod_unfold cursor_fold_fst [unfolded case_prod_unfold])

lemma owner_prefix:
  "owner (lineage_of sn log) c = Some b \<Longrightarrow> owner (lineage_of sn (log @ log')) c = Some b"
proof (induction log' rule: rev_induct)
  case (snoc f log')
  then show ?case by (simp add: owner_mono lineage_of_snoc [of sn "log @ log'" f, simplified] flip: append_assoc)
qed simp

lemma no_root_no_owner:
  "log_wf sn log \<Longrightarrow> li_root (lineage_of sn log) = None \<Longrightarrow> owner (lineage_of sn log) c = None"
proof (rule ccontr)
  assume wf: "log_wf sn log" and "li_root (lineage_of sn log) = None"
  then have "\<not> known (lineage_of sn log) b" for b
    using log_wf_inv [OF wf] by (simp add: lineage_inv_def known_def)
  moreover assume "owner (lineage_of sn log) c \<noteq> None"
  ultimately show False using known_owner [OF log_wf_inv [OF wf]] by blast
qed

subsection \<open>The active runtime\<close>

text \<open>
  The descriptor hash that is current at a cursor: the last transition visible
  there, or the hash the session was started with. Before the first cell only
  the transitions at the empty boundary of the branch count.
\<close>

fun attachOf :: "SessionID \<Rightarrow> Fact \<Rightarrow> string option" where
  "attachOf sn (RuntimeAttached x) = (if ra_Session x = sn then Some (ra_RuntimeHash x) else None)"
| "attachOf sn _ = None"

definition attached_hash :: "SessionID \<Rightarrow> Fact list \<Rightarrow> string" where
  "attached_hash sn log = (case find_map (attachOf sn) log of None \<Rightarrow> [] | Some h \<Rightarrow> h)"

definition transitions_of :: "SessionID \<Rightarrow> Fact list \<Rightarrow> (nat \<times> RuntimeTransitioned) list" where
  "transitions_of sn log = collect
     (\<lambda>(i, f). case f of RuntimeTransitioned x \<Rightarrow> if rt_Session x = sn then Some (i + 1, x) else None | _ \<Rightarrow> None)
     (enumerate 0 log)"

definition transition_active ::
  "lineage \<Rightarrow> BranchID \<Rightarrow> CellID \<Rightarrow> nat \<times> RuntimeTransitioned \<Rightarrow> bool" where
  "transition_active L b head t \<longleftrightarrow>
     (if head = [] then rt_Branch (snd t) = b \<and> rt_AfterCell (snd t) = []
      else transition_visible L b head (fst t) (snd t))"

definition active_hash :: "SessionID \<Rightarrow> Fact list \<Rightarrow> BranchID \<Rightarrow> CellID \<Rightarrow> string" where
  "active_hash sn log b head =
     last (attached_hash sn log #
       map (\<lambda>t. rt_RuntimeHash (snd t))
         (filter (transition_active (lineage_of sn log) b head) (transitions_of sn log)))"

lemma transitions_of_bound: "(n, x) \<in> set (transitions_of sn log) \<Longrightarrow> n \<le> length log"
  by (auto simp: transitions_of_def set_collect in_set_enumerate_eq split: Fact.splits if_splits)

lemma scan_last_filter:
  "the (scan_last (\<lambda>t. if P t then Some (g t) else None) (Some a) xs) = last (a # map g (filter P xs))"
  by (induction xs arbitrary: a) auto

subsection \<open>Replay plans\<close>

fun checkedOf :: "SessionID \<Rightarrow> BranchID \<Rightarrow> CellID \<Rightarrow> Fact \<Rightarrow> CellChecked option" where
  "checkedOf sn b c (CellChecked x) =
     (if ck_Session x = sn \<and> ck_Branch x = b \<and> ck_Cell x = c then Some x else None)"
| "checkedOf sn b c _ = None"

fun evaluatedOf :: "SessionID \<Rightarrow> BranchID \<Rightarrow> CellID \<Rightarrow> Fact \<Rightarrow> CellEvaluated option" where
  "evaluatedOf sn b c (CellEvaluated x) =
     (if ce_Session x = sn \<and> ce_Branch x = b \<and> ce_Cell x = c then Some x else None)"
| "evaluatedOf sn b c _ = None"

fun startedOf :: "SessionID \<Rightarrow> EffectID \<Rightarrow> Fact \<Rightarrow> ReplayPolicy option" where
  "startedOf sn e (EffectStarted x) =
     (if es_Session x = sn \<and> es_Effect x = e then Some (es_ReplayPolicy x) else None)"
| "startedOf sn e _ = None"

fun completedOf :: "SessionID \<Rightarrow> EffectID \<Rightarrow> nat \<times> Fact \<Rightarrow> (bytes \<times> nat) option" where
  "completedOf sn e (i, EffectCompleted x) =
     (if ec_Session x = sn \<and> ec_Effect x = e then Some (ec_Result x, i + 1) else None)"
| "completedOf sn e _ = None"

text \<open>The replay step of a cell: the last check and the last evaluation recorded for it.\<close>

definition step_of :: "SessionID \<Rightarrow> Fact list \<Rightarrow> CellID \<times> BranchID \<Rightarrow> ReplayStep" where
  "step_of sn log cb = (case cb of (c, b) \<Rightarrow>
     let checked = scan_last (checkedOf sn b c) None log;
         evaluated = scan_last (evaluatedOf sn b c) None log in
     \<lparr>st_Cell = c,
      st_Language = (case checked of None \<Rightarrow> [] | Some x \<Rightarrow> ck_Language x),
      st_Source = (case checked of None \<Rightarrow> [] | Some x \<Rightarrow> ck_Source x),
      st_EmittedJS = (case checked of None \<Rightarrow> [] | Some x \<Rightarrow> ck_EmittedJS x),
      st_Effects = (case evaluated of None \<Rightarrow> [] | Some x \<Rightarrow> ce_LinkedEffects x)\<rparr>)"

definition steps_of :: "SessionID \<Rightarrow> Fact list \<Rightarrow> CellID \<Rightarrow> ReplayStep list" where
  "steps_of sn log c = map (step_of sn log) (history (lineage_of sn log) c)"

definition decision_of :: "SessionID \<Rightarrow> Fact list \<Rightarrow> EffectID \<Rightarrow> ReplayDecision option" where
  "decision_of sn log e = map_option
     (\<lambda>policy. case find_map (completedOf sn e) (enumerate 0 log) of
        None \<Rightarrow> \<lparr>rd_Effect = e, rd_Policy = policy, rd_RecordedResult = [], rd_CompletionOrder = 0, rd_Rerun = False\<rparr>
      | Some (r, n) \<Rightarrow>
          \<lparr>rd_Effect = e, rd_Policy = policy, rd_RecordedResult = r, rd_CompletionOrder = n, rd_Rerun = False\<rparr>)
     (find_map (startedOf sn e) log)"

definition linked_effects :: "ReplayStep list \<Rightarrow> EffectID set" where
  "linked_effects steps = (\<Union>st \<in> set steps. set (st_Effects st))"

definition config_stored :: "(string \<rightharpoonup> bytes) \<Rightarrow> string \<Rightarrow> bool" where
  "config_stored cfg h \<longleftrightarrow> h = [] \<or> cfg h \<noteq> None"

definition config_of :: "(string \<rightharpoonup> bytes) \<Rightarrow> string \<Rightarrow> bytes" where
  "config_of cfg h = (if h = [] then [] else case cfg h of None \<Rightarrow> [] | Some c \<Rightarrow> c)"

definition plan_of :: "SessionID \<Rightarrow> Fact list \<Rightarrow> (string \<rightharpoonup> bytes) \<Rightarrow> CellID \<Rightarrow> BranchID \<Rightarrow> ReplayPlan" where
  "plan_of sn log cfg c b = (let steps = steps_of sn log c; h = attached_hash sn log in
     \<lparr>pl_Session = sn, pl_Branch = b, pl_TargetCell = c, pl_RuntimeHash = h, pl_RuntimeConfig = config_of cfg h,
      pl_RuntimeTransitions = map
        (\<lambda>t. \<lparr>tr_AfterCell = rt_AfterCell (snd t), tr_RuntimeHash = rt_RuntimeHash (snd t),
              tr_RuntimeConfig = config_of cfg (rt_RuntimeHash (snd t))\<rparr>)
        (filter (\<lambda>t. transition_visible (lineage_of sn log) b c (fst t) (snd t)) (transitions_of sn log)),
      pl_Steps = steps,
      pl_Decisions = (\<lambda>e. if e \<in> linked_effects steps then decision_of sn log e else None)\<rparr>)"

text \<open>
  What a plan needs besides its lineage: every linked effect was journalled
  when it started, and every descriptor hash in the log has its descriptor stored.
\<close>

definition plan_ready :: "SessionID \<Rightarrow> Fact list \<Rightarrow> (string \<rightharpoonup> bytes) \<Rightarrow> bool" where
  "plan_ready sn log cfg \<longleftrightarrow> list_all (\<lambda>f. case f of
     CellEvaluated x \<Rightarrow> ce_Session x = sn \<longrightarrow>
       list_all (\<lambda>e. find_map (startedOf sn e) log \<noteq> None) (ce_LinkedEffects x)
   | RuntimeAttached x \<Rightarrow> ra_Session x = sn \<longrightarrow> config_stored cfg (ra_RuntimeHash x)
   | RuntimeTransitioned x \<Rightarrow> rt_Session x = sn \<longrightarrow> config_stored cfg (rt_RuntimeHash x)
   | _ \<Rightarrow> True) log"

lemma scan_last_cong:
  "(\<And>x. x \<in> set xs \<Longrightarrow> f x = g x) \<Longrightarrow> scan_last f acc xs = scan_last g acc xs"
  by (induction xs arbitrary: acc) auto

lemma scan_last_map_option:
  "scan_last (\<lambda>x. map_option g (f x)) (map_option g acc) xs = map_option g (scan_last f acc xs)"
proof (induction xs arbitrary: acc)
  case (Cons x xs)
  from Cons [of "case f x of None \<Rightarrow> acc | Some y \<Rightarrow> Some y"] show ?case by (cases "f x") simp_all
qed simp

lemma evaluatedOf_SomeD: "evaluatedOf sn b c f = Some x \<Longrightarrow> f = CellEvaluated x \<and> ce_Session x = sn"
  by (cases f) (auto split: if_splits)

lemma attachOf_SomeD:
  "attachOf sn f = Some h \<Longrightarrow> \<exists>x. f = RuntimeAttached x \<and> ra_Session x = sn \<and> h = ra_RuntimeHash x"
  by (cases f) (auto split: if_splits)

lemma step_effects_evaluated:
  assumes "e \<in> set (st_Effects (step_of sn log (c, b)))"
  shows "\<exists>x. CellEvaluated x \<in> set log \<and> ce_Session x = sn \<and> e \<in> set (ce_LinkedEffects x)"
proof -
  obtain x where x: "scan_last (evaluatedOf sn b c) None log = Some x" "e \<in> set (ce_LinkedEffects x)"
    using assms by (cases "scan_last (evaluatedOf sn b c) None log") (auto simp: step_of_def Let_def)
  then obtain f where f: "f \<in> set log" "evaluatedOf sn b c f = Some x"
    by (auto simp: scan_last_eq_find_map dest!: find_map_SomeD split: option.splits)
  then show ?thesis using x(2) evaluatedOf_SomeD by blast
qed

lemma plan_readyD:
  assumes "plan_ready sn log cfg"
  shows "RuntimeAttached a \<in> set log \<Longrightarrow> ra_Session a = sn \<Longrightarrow> config_stored cfg (ra_RuntimeHash a)"
    and "RuntimeTransitioned t \<in> set log \<Longrightarrow> rt_Session t = sn \<Longrightarrow> config_stored cfg (rt_RuntimeHash t)"
    and "CellEvaluated x \<in> set log \<Longrightarrow> ce_Session x = sn \<Longrightarrow> e \<in> set (ce_LinkedEffects x) \<Longrightarrow>
      find_map (startedOf sn e) log \<noteq> None"
proof -
  note all = assms [unfolded plan_ready_def list_all_iff, THEN bspec]
  show "RuntimeAttached a \<in> set log \<Longrightarrow> ra_Session a = sn \<Longrightarrow> config_stored cfg (ra_RuntimeHash a)"
    by (drule all) simp
  show "RuntimeTransitioned t \<in> set log \<Longrightarrow> rt_Session t = sn \<Longrightarrow> config_stored cfg (rt_RuntimeHash t)"
    by (drule all) simp
  show "CellEvaluated x \<in> set log \<Longrightarrow> ce_Session x = sn \<Longrightarrow> e \<in> set (ce_LinkedEffects x) \<Longrightarrow>
      find_map (startedOf sn e) log \<noteq> None"
    by (drule all) simp
qed

lemma plan_ready_effects:
  assumes "plan_ready sn log cfg" and "e \<in> linked_effects (steps_of sn log c)"
  shows "decision_of sn log e \<noteq> None"
proof -
  obtain x where "CellEvaluated x \<in> set log" "ce_Session x = sn" "e \<in> set (ce_LinkedEffects x)"
    using assms(2) step_effects_evaluated by (fastforce simp: linked_effects_def steps_of_def)
  with plan_readyD(3) [OF assms(1)] show ?thesis by (simp add: decision_of_def)
qed

lemma plan_ready_hashes:
  assumes "plan_ready sn log cfg"
  shows "config_stored cfg (attached_hash sn log)"
    and "(n, x) \<in> set (transitions_of sn log) \<Longrightarrow> config_stored cfg (rt_RuntimeHash x)"
proof -
  have "find_map (attachOf sn) log = Some h \<Longrightarrow> config_stored cfg h" for h
  proof -
    assume "find_map (attachOf sn) log = Some h"
    then obtain f where f: "f \<in> set log" "attachOf sn f = Some h" by (auto dest: find_map_SomeD)
    then show ?thesis using plan_readyD(1) [OF assms] attachOf_SomeD by blast
  qed
  then show "config_stored cfg (attached_hash sn log)"
    by (auto simp: attached_hash_def config_stored_def split: option.splits)
  assume "(n, x) \<in> set (transitions_of sn log)"
  then have "RuntimeTransitioned x \<in> set log" "rt_Session x = sn"
    by (auto simp: transitions_of_def set_collect in_set_enumerate_eq split: Fact.splits if_splits)
      (metis nth_mem)
  then show "config_stored cfg (rt_RuntimeHash x)"
    by (rule plan_readyD(2) [OF assms])
qed

lemma active_hash_stored:
  assumes "plan_ready sn log cfg"
  shows "config_stored cfg (active_hash sn log b c)"
proof -
  let ?ts = "filter (transition_active (lineage_of sn log) b c) (transitions_of sn log)"
  have "active_hash sn log b c \<in>
      set (attached_hash sn log # map (\<lambda>t. rt_RuntimeHash (snd t)) ?ts)"
    unfolding active_hash_def by (rule last_in_set) simp
  then show ?thesis using plan_ready_hashes [OF assms] by auto
qed

subsection \<open>Cursors stay on recorded history\<close>

lemma own_mono: "c \<in> set (own L b) \<Longrightarrow> c \<in> set (own (lineage_step sn L f) b)"
  by (simp add: own_step)

lemma history_stable:
  assumes wf: "log_wf sn log" and ok: "ok_step sn (lineage_of sn log) f"
    and own: "owner (lineage_of sn log) c = Some b"
  shows "history (lineage_of sn (log @ [f])) c = history (lineage_of sn log) c"
proof -
  let ?L = "lineage_of sn log"
  have inv: "lineage_inv ?L" using wf by (rule log_wf_inv)
  have "inherited (lineage_step sn ?L f) b = inherited ?L b"
    using inherited_step [OF ok] known_owner [OF inv own] inv by (auto simp: lineage_inv_def known_def)
  moreover have "c \<in> set (own ?L b)" using own inv by (simp add: own_owner)
  ultimately show ?thesis
    using own owner_mono [OF own] by (simp add: history_def branch_history_def own_step take_upto_append)
qed

definition cursor_ok :: "lineage \<Rightarrow> BranchID \<times> CellID \<Rightarrow> bool" where
  "cursor_ok L cur \<longleftrightarrow> known L (fst cur) \<and>
     (snd cur \<noteq> [] \<longrightarrow> owner L (snd cur) \<noteq> None \<and>
        (owner L (snd cur) = Some (fst cur) \<or> inherited L (fst cur) = history L (snd cur)))"

lemma cursor_ok_step:
  assumes wf: "log_wf sn log" and ok: "ok_step sn (lineage_of sn log) f"
    and cur: "cursor_ok (lineage_of sn log) cur"
  shows "cursor_ok (lineage_of sn (log @ [f])) cur"
proof -
  let ?L = "lineage_of sn log"
  have inv: "lineage_inv ?L" using wf by (rule log_wf_inv)
  have kn: "known ?L (fst cur)" using cur by (simp add: cursor_ok_def)
  then have "inherited (lineage_step sn ?L f) (fst cur) = inherited ?L (fst cur)"
    using inherited_step [OF ok] inv by (auto simp: lineage_inv_def known_def)
  moreover have "known (lineage_step sn ?L f) (fst cur)" using kn by (rule known_mono)
  moreover have "owner (lineage_step sn ?L f) (snd cur) = Some b \<and>
      history (lineage_step sn ?L f) (snd cur) = history ?L (snd cur)" if "owner ?L (snd cur) = Some b" for b
    using history_stable [OF wf ok that] owner_mono [OF that] by simp
  ultimately show ?thesis using cur by (cases "owner ?L (snd cur)") (auto simp: cursor_ok_def)
qed

lemma cursor_of_ok:
  "log_wf sn log \<Longrightarrow> li_root (lineage_of sn log) \<noteq> None \<Longrightarrow> cursor_ok (lineage_of sn log) (cursor_of sn log)"
proof (induction rule: log_wf_induct)
  case (snoc log f)
  let ?L = "lineage_of sn log" and ?L' = "lineage_of sn (log @ [f])"
  have inv: "lineage_inv ?L" using snoc.hyps(1) by (rule log_wf_inv)
  have old: "li_root ?L \<noteq> None \<Longrightarrow> cursor_ok ?L' (cursor_of sn log)"
    using snoc.IH cursor_ok_step [OF snoc.hyps] by blast
  have moved: "cursor_ok ?L' (b, c)" if "owner ?L c = Some b" for b c
    using that known_owner [OF inv that] by (auto simp: cursor_ok_def owner_mono known_mono)
  have root: "owner ?L c = Some b \<Longrightarrow> li_root ?L \<noteq> None" for b c
    using no_root_no_owner [OF snoc.hyps(1), of c] by auto
  show ?case
  proof (cases f)
    case (SessionStarted x)
    then show ?thesis
      using snoc.hyps(2) snoc.prems old
      by (cases "ss_Session x = sn")
        (auto simp: cursor_fact_def cursor_ok_def lineage_step_defs known_def)
  next
    case (HeadMoved x)
    then show ?thesis
      using snoc.hyps(2) snoc.prems old moved root
      by (cases "hm_Session x = sn") (auto simp: cursor_fact_def ok_step_def lineage_step_defs)
  next
    case (RestoreCompleted x)
    show ?thesis
    proof (cases "rc_Session x = sn")
      case True
      with RestoreCompleted snoc.hyps(2) obtain b where b: "owner ?L (rc_TargetCell x) = Some b"
        by (auto simp: ok_step_def)
      have "cursor_ok ?L (rc_NewBranch x, rc_TargetCell x)" if "rc_NewBranch x \<noteq> []"
        using that True RestoreCompleted snoc.hyps(2) by (auto simp: ok_step_def cursor_ok_def)
      then show ?thesis
        using moved [OF b] b True RestoreCompleted cursor_ok_step [OF snoc.hyps]
        by (auto simp: cursor_fact_def)
    next
      case False
      then show ?thesis
        using RestoreCompleted snoc.prems old by (auto simp: cursor_fact_def lineage_step_defs)
    qed
  qed (use snoc.prems old in \<open>auto simp: cursor_fact_def lineage_step_defs split: if_splits\<close>)
qed simp

lemma cursor_ok_history:
  assumes inv: "lineage_inv L" and cur: "cursor_ok L (b, c)" and "c \<noteq> []"
  shows "branch_history L b c \<noteq> []"
proof -
  obtain b' where b': "owner L c = Some b'" using cur \<open>c \<noteq> []\<close> by (auto simp: cursor_ok_def)
  have "history L c \<noteq> []" using history_last [OF inv b'] by simp
  then show ?thesis
    using cur \<open>c \<noteq> []\<close> b' by (auto simp: cursor_ok_def history_def branch_history_def)
qed


subsection \<open>Histories never change\<close>

lemma history_owner:
  assumes "log_wf sn log" and "(c', b') \<in> set (history (lineage_of sn log) c)"
  shows "owner (lineage_of sn log) c' = Some b'"
proof -
  have inv: "lineage_inv (lineage_of sn log)" using assms(1) by (rule log_wf_inv)
  then have "(c', b') \<in> set (li_commits (lineage_of sn log))"
    using assms(2) branch_history_subset [OF inv] by (auto simp: history_def split: option.splits)
  then show ?thesis by (simp add: owner_iff_commits [OF inv])
qed

lemma step_of_stable:
  assumes "ok_step sn (lineage_of sn log) f" and "owner (lineage_of sn log) c = Some b'"
  shows "step_of sn (log @ [f]) (c, b) = step_of sn log (c, b)"
proof -
  have "checkedOf sn b c f = None" "evaluatedOf sn b c f = None"
    using assms by (cases f; auto simp: ok_step_def)+
  then show ?thesis by (simp add: step_of_def scan_last_append)
qed

lemma steps_of_stable:
  assumes wf: "log_wf sn log" and ok: "ok_step sn (lineage_of sn log) f"
    and own: "owner (lineage_of sn log) c = Some b"
  shows "steps_of sn (log @ [f]) c = steps_of sn log c"
  using step_of_stable [OF ok history_owner [OF wf]] history_stable [OF wf ok own]
  by (auto simp: steps_of_def)

lemma steps_of_extend:
  "log_wf sn (log @ fs) \<Longrightarrow> owner (lineage_of sn log) c = Some b \<Longrightarrow>
     steps_of sn (log @ fs) c = steps_of sn log c"
proof (induction fs rule: rev_induct)
  case (snoc f fs)
  then have wf: "log_wf sn (log @ fs)" "ok_step sn (lineage_of sn (log @ fs)) f"
    using log_wf_snoc [of sn "log @ fs" f] by simp_all
  show ?case
    using steps_of_stable [OF wf owner_prefix [OF snoc.prems(2)]] snoc wf by simp
qed simp

lemma history_extend:
  "log_wf sn (log @ fs) \<Longrightarrow> owner (lineage_of sn log) c = Some b \<Longrightarrow>
     history (lineage_of sn (log @ fs)) c = history (lineage_of sn log) c"
proof (induction fs rule: rev_induct)
  case (snoc f fs)
  then have wf: "log_wf sn (log @ fs)" "ok_step sn (lineage_of sn (log @ fs)) f"
    using log_wf_snoc [of sn "log @ fs" f] by simp_all
  show ?case using history_stable [OF wf owner_prefix [OF snoc.prems(2)]] snoc wf by simp
qed simp

lemma known_extend: "known (lineage_of sn log) b \<Longrightarrow> known (lineage_of sn (log @ fs)) b"
proof (induction fs rule: rev_induct)
  case (snoc f fs)
  then show ?case using known_mono [of "lineage_of sn (log @ fs)" b sn f] by (simp flip: append_assoc)
qed simp

lemma inherited_extend:
  "log_wf sn (log @ fs) \<Longrightarrow> known (lineage_of sn log) b \<Longrightarrow>
     inherited (lineage_of sn (log @ fs)) b = inherited (lineage_of sn log) b \<and>
     li_cut (lineage_of sn (log @ fs)) b = li_cut (lineage_of sn log) b"
proof (induction fs rule: rev_induct)
  case (snoc f fs)
  then have wf: "log_wf sn (log @ fs)" "ok_step sn (lineage_of sn (log @ fs)) f"
    using log_wf_snoc [of sn "log @ fs" f] by simp_all
  have inv: "li_root (lineage_of sn (log @ fs)) = None \<Longrightarrow> \<not> known (lineage_of sn (log @ fs)) b"
    using log_wf_inv [OF wf(1)] by (simp add: lineage_inv_def known_def)
  show ?case
    using inherited_step [OF wf(2) inv known_extend [OF snoc.prems(2)]]
      cut_step [OF wf(2) inv known_extend [OF snoc.prems(2)]] snoc wf
    by (simp flip: append_assoc)
qed simp

subsection \<open>Branch heads\<close>

fun headOf :: "SessionID \<Rightarrow> BranchID \<Rightarrow> Fact \<Rightarrow> CellID option" where
  "headOf sn b (HeadMoved x) = (if hm_Session x = sn \<and> hm_Branch x = b then Some (hm_Next x) else None)"
| "headOf sn b _ = None"

definition head_of :: "SessionID \<Rightarrow> Fact list \<Rightarrow> BranchID \<Rightarrow> CellID" where
  "head_of sn log b = (case scan_last (headOf sn b) None log of None \<Rightarrow> [] | Some c \<Rightarrow> c)"

lemma head_of_Nil [simp]: "head_of sn [] b = []"
  by (simp add: head_of_def)

lemma head_of_snoc [simp]:
  "head_of sn (log @ [f]) b = (case headOf sn b f of None \<Rightarrow> head_of sn log b | Some c \<Rightarrow> c)"
  by (simp add: head_of_def scan_last_append split: option.splits)

subsection \<open>Effects of a cell\<close>

fun effectStartOf :: "SessionID \<Rightarrow> CellID \<Rightarrow> Fact \<Rightarrow> EffectRecord option" where
  "effectStartOf sn c (EffectStarted x) =
     (if es_Session x = sn \<and> es_Cell x = c
      then Some \<lparr>er_Effect = es_Effect x, er_Cell = es_Cell x, er_FunctionName = es_FunctionName x,
                 er_Params = es_Params x, er_ReplayPolicy = es_ReplayPolicy x, er_Status = EffectRecordPending,
                 er_Result = [], er_ErrorMessage = [], er_StartedAt = es_At x, er_UpdatedAt = es_At x\<rparr>
      else None)"
| "effectStartOf sn c _ = None"

fun settle_effect :: "SessionID \<Rightarrow> Fact \<Rightarrow> EffectRecord \<Rightarrow> EffectRecord" where
  "settle_effect sn (EffectCompleted x) r =
     (if ec_Session x = sn \<and> ec_Effect x = er_Effect r
      then r\<lparr>er_Status := EffectRecordCompleted, er_Result := ec_Result x, er_ErrorMessage := [],
             er_UpdatedAt := ec_At x\<rparr> else r)"
| "settle_effect sn (EffectFailed x) r =
     (if ef_Session x = sn \<and> ef_Effect x = er_Effect r
      then r\<lparr>er_Status := EffectRecordFailed, er_Result := [], er_ErrorMessage := ef_ErrorMessage x,
             er_UpdatedAt := ef_At x\<rparr> else r)"
| "settle_effect sn _ r = r"

text \<open>Every started effect of the cell, in start order, as the later facts settled it.\<close>

definition cell_effects :: "SessionID \<Rightarrow> Fact list \<Rightarrow> CellID \<Rightarrow> EffectRecord list" where
  "cell_effects sn log c = foldl (\<lambda>out f.
     map (settle_effect sn f) out @ (case effectStartOf sn c f of None \<Rightarrow> [] | Some r \<Rightarrow> [r])) [] log"

subsection \<open>The TypeScript epoch\<close>

text \<open>
  The static context a session tracks while it commits cells: every cell adds
  its source, and a cell checked under a different environment starts afresh.
\<close>

fun epoch_step :: "string \<times> string \<times> string list \<Rightarrow> string \<times> string \<times> string \<Rightarrow> string \<times> string \<times> string list" where
  "epoch_step (h, ts, srcs) (src, ch, cts) =
     (if ch = [] then (h, ts, srcs @ [src])
      else if h = [] then (ch, cts, srcs @ [src])
      else if ch \<noteq> h then (ch, cts, [src])
      else (h, ts, srcs @ [src]))"

definition static_details :: "SessionID \<Rightarrow> Fact list \<Rightarrow> CellID \<times> BranchID \<Rightarrow> (string \<times> string \<times> string) option" where
  "static_details sn log cb =
     map_option (\<lambda>x. (ck_Source x, ck_TypeScriptEnvHash x, ck_TypeScriptEpochTS x))
       (scan_last (checkedOf sn (snd cb) (fst cb)) None log)"

definition epoch_of ::
  "SessionID \<Rightarrow> Fact list \<Rightarrow> (CellID \<times> BranchID) list \<Rightarrow> string \<times> string \<times> string list" where
  "epoch_of sn log chain =
     foldl epoch_step ([], [], []) (map (\<lambda>cb. the (static_details sn log cb)) chain)"

subsection \<open>Appending a transition\<close>

lemma transition_active_len [simp]:
  "transition_active (L\<lparr>li_len := n\<rparr>) = transition_active L"
  by (simp add: fun_eq_iff transition_active_def transition_visible_def branch_history_def inherited_def own_def)

lemma transitions_of_snoc:
  "transitions_of sn (log @ [f]) = transitions_of sn log @
     (case f of RuntimeTransitioned x \<Rightarrow> if rt_Session x = sn then [(length log + 1, x)] else [] | _ \<Rightarrow> [])"
  by (simp add: transitions_of_def enumerate_append_eq collect_append split: Fact.splits)

lemma active_hash_transition:
  "active_hash sn (log @ [RuntimeTransitioned x]) b head =
     (if rt_Session x = sn \<and> transition_active (lineage_of sn log) b head (length log + 1, x)
      then rt_RuntimeHash x else active_hash sn log b head)"
proof -
  have "attached_hash sn (log @ [RuntimeTransitioned x]) = attached_hash sn log"
    by (simp add: attached_hash_def find_map_append split: option.splits)
  then show ?thesis
    by (simp add: active_hash_def transitions_of_snoc lineage_step_defs)
qed

end
