(* ===== verification/Mem_Props.thy ===== *)
theory Mem_Props
  imports Mem_Refine Log_Query
begin

text \<open>
  What the in-memory store promises its clients: every query of the interface
  computes the abstract query of \<open>Log_Query\<close> on every well-formed log.
\<close>

subsection \<open>The session cursor\<close>

lemma sessionStateLoop_append:
  "sessionStateLoop s sn cur (xs @ ys) =
     rbind (sessionStateLoop s sn cur xs) (\<lambda>cur. sessionStateLoop s sn cur ys)"
proof (induction xs arbitrary: cur)
  case (Cons e xs)
  show ?case
  proof (cases "en_fact e")
    case (RestoreCompleted f)
    with Cons show ?thesis by (cases "branchForCell s sn (rc_TargetCell f)") simp_all
  qed (use Cons in simp_all)
qed simp

lemma root_found:
  assumes "store_ok s" and "log_wf sn (logOf s)"
  shows "case li_root (lineageOf sn s) of
    None \<Rightarrow> loadSessionStarted s sn = Inl (NoSession sn)
  | Some r \<Rightarrow> \<exists>st. loadSessionStarted s sn = Inr st \<and> ss_RootBranch st = r"
proof -
  let ?find = "find_map (\<lambda>f. case f of SessionStarted x \<Rightarrow> if ss_Session x = sn then Some x else None | _ \<Rightarrow> None)"
  have eq: "loadSessionStarted s sn = (case ?find (logOf s) of None \<Rightarrow> Inl (NoSession sn) | Some x \<Rightarrow> Inr x)"
    unfolding loadSessionStarted_def
    by (subst assms(1) [unfolded store_ok_def])
      (auto simp: find_map_map intro!: arg_cong [of _ _ "case_option _ _"] find_map_cong split: Fact.splits)
  have "?find (logOf s) = None \<longleftrightarrow> li_root (lineageOf sn s) = None"
    "?find (logOf s) = Some x \<Longrightarrow> li_root (lineageOf sn s) = Some (ss_RootBranch x)" for x
    using assms(2)
    by (induction rule: log_wf_induct)
      (auto simp: find_map_append lineage_step_defs ok_step_def split: Fact.splits option.splits if_splits)
  then show ?thesis unfolding eq
    by (cases "?find (logOf s)"; cases "li_root (lineageOf sn s)") auto
qed

lemma sessionStateLoop_prefix:
  assumes ok: "store_ok s" and split: "logOf s = log @ log'" and wf: "log_wf sn log"
    and root: "li_root (lineage_of sn log) \<noteq> None \<Longrightarrow> li_root (lineage_of sn log) = Some r"
  shows "sessionStateLoop s sn (r, []) (map mkEntry log) =
    Inr (if li_root (lineage_of sn log) = None then (r, []) else cursor_of sn log)"
  using wf split root
proof (induction arbitrary: log' rule: log_wf_induct)
  case Nil
  then show ?case by simp
next
  case (snoc log f)
  let ?L = "lineage_of sn log"
  have own: "branchForCell s sn c = Inr b" if "owner ?L c = Some b" for c b
    using owner_prefix [OF that, of "f # log'"] snoc.prems ok by (simp add: branchForCell_owner)
  have none: "li_root ?L = None \<Longrightarrow> owner ?L c = None" for c
    using no_root_no_owner [OF snoc.hyps(1)] by simp
  have keep: "li_root ?L \<noteq> None \<Longrightarrow> li_root (lineage_of sn (log @ [f])) = li_root ?L"
    using snoc.hyps(2) by (auto simp: lineage_step_defs ok_step_def split: Fact.splits)
  then have IH: "sessionStateLoop s sn (r, []) (map mkEntry log) =
      Inr (if li_root ?L = None then (r, []) else cursor_of sn log)"
    using snoc.IH [of "f # log'"] snoc.prems by simp
  show ?case
  proof (cases f)
    case (SessionStarted x)
    then show ?thesis
      using IH snoc.hyps(2) snoc.prems(2)
      by (auto simp: sessionStateLoop_append cursor_fact_def lineage_step_defs ok_step_def)
  next
    case (HeadMoved x)
    then show ?thesis
      using IH snoc.hyps(2) none
      by (auto simp: sessionStateLoop_append cursor_fact_def lineage_step_defs ok_step_def)
  next
    case (RestoreCompleted x)
    show ?thesis
    proof (cases "rc_Session x = sn")
      case True
      with RestoreCompleted snoc.hyps(2) obtain b where b: "owner ?L (rc_TargetCell x) = Some b"
        by (auto simp: ok_step_def)
      moreover have "li_root ?L \<noteq> None" using none [of "rc_TargetCell x"] b by auto
      moreover have "rc_TargetCell x \<noteq> []"
        using b log_wf_inv [OF snoc.hyps(1)] by (force simp: lineage_inv_def owner_iff_commits)
      ultimately show ?thesis
        using IH True RestoreCompleted own none
        by (auto simp: sessionStateLoop_append cursor_fact_def lineage_step_defs)
    next
      case False
      then show ?thesis
        using IH RestoreCompleted
        by (auto simp: sessionStateLoop_append cursor_fact_def lineage_step_defs)
    qed
  qed (use IH in \<open>auto simp: sessionStateLoop_append cursor_fact_def lineage_step_defs\<close>)
qed

lemma sessionStateLoop_cursor:
  assumes wf: "store_wf sn s" and root: "li_root (lineageOf sn s) = Some r"
  shows "sessionStateLoop s sn (r, []) (facts s) = Inr (cursor_of sn (logOf s))"
proof -
  have ok: "store_ok s" "log_wf sn (logOf s)" using wf by (simp_all add: store_wf_def)
  show ?thesis
    using sessionStateLoop_prefix [OF ok(1), of "logOf s" "[]" sn r] ok root
    by (simp add: store_ok_def)
qed

subsection \<open>The active runtime\<close>

definition pairOf :: "runtimeTransitionRecord \<Rightarrow> nat \<times> RuntimeTransitioned" where
  "pairOf t = (tt_order t, tt_fact t)"

lemma transitionRecords_eq:
  assumes "store_ok s"
  shows "map pairOf (transitionRecords s sn) = transitions_of sn (logOf s)"
proof -
  have "map pairOf (collect
     (\<lambda>(i, e). if en_session e \<noteq> sn \<or> en_factType e \<noteq> ''RuntimeTransitioned'' then None
               else case en_fact e of RuntimeTransitioned f \<Rightarrow> Some \<lparr>tt_order = i + 1, tt_fact = f\<rparr> | _ \<Rightarrow> None)
     (enumerate n (map mkEntry log))) = collect
     (\<lambda>(i, f). case f of RuntimeTransitioned x \<Rightarrow> if rt_Session x = sn then Some (i + 1, x) else None | _ \<Rightarrow> None)
     (enumerate n log)" for n log
    by (induction log arbitrary: n) (auto simp: pairOf_def split: Fact.splits)
  then show ?thesis
    using assms by (simp add: transitionRecords_def transitions_of_def store_ok_def)
qed

lemma loadRuntimeAttached_hash:
  assumes "store_ok s"
  shows "\<exists>a. loadRuntimeAttached s sn = Inr a \<and> ra_RuntimeHash a = attached_hash sn (logOf s)"
proof -
  let ?f = "\<lambda>f. case f of RuntimeAttached x \<Rightarrow> if ra_Session x = sn then Some x else None | _ \<Rightarrow> None"
  have "loadRuntimeAttached s sn = (case find_map ?f (logOf s) of
      None \<Rightarrow> Inr \<lparr>ra_Session = [], ra_RuntimeHash = [], ra_At = 0\<rparr> | Some x \<Rightarrow> Inr x)"
    unfolding loadRuntimeAttached_def
    by (subst assms(1) [unfolded store_ok_def])
      (auto simp: find_map_map intro!: arg_cong [of _ _ "case_option _ _"] find_map_cong split: Fact.splits)
  moreover have "find_map (attachOf sn) log = map_option ra_RuntimeHash (find_map ?f log)" for log
  proof (induction log)
    case (Cons f log)
    then show ?case by (cases f) auto
  qed simp
  ultimately show ?thesis by (auto simp: attached_hash_def split: option.splits)
qed

lemma filter_pairOf:
  assumes "\<And>t. t \<in> set xs \<Longrightarrow> P t = Q (pairOf t)"
  shows "map (\<lambda>t. h (tt_fact t)) (filter P xs) = map (\<lambda>t. h (snd t)) (filter Q (map pairOf xs))"
  using assms by (induction xs) (auto simp: pairOf_def)

lemma transitionRecords_bound:
  "store_ok s \<Longrightarrow> t \<in> set (transitionRecords s sn) \<Longrightarrow> tt_order t \<le> length (logOf s)"
  using transitions_of_bound [of "tt_order t" "tt_fact t" sn "logOf s"]
  by (force simp: transitionRecords_eq [symmetric] pairOf_def)

lemma loadActiveRuntime_active:
  assumes wf: "store_wf sn s" and len: "length (logOf s) \<le> MaxInt"
    and cur: "head \<noteq> [] \<Longrightarrow> known (lineageOf sn s) b \<and> branch_history (lineageOf sn s) b head \<noteq> []"
  shows "loadActiveRuntime s sn b head =
    Some (rbind (loadRuntimeConfigLocked s (active_hash sn (logOf s) b head))
      (\<lambda>config. Inr (active_hash sn (logOf s) b head, config)))"
proof -
  let ?L = "lineageOf sn s"
  have ok: "store_ok s" using wf by (simp add: store_wf_def)
  obtain a where a: "loadRuntimeAttached s sn = Inr a" "ra_RuntimeHash a = attached_hash sn (logOf s)"
    using loadRuntimeAttached_hash [OF ok] by blast
  note bound = order_trans [OF transitionRecords_bound [OF ok] len]
  have active: "the (scan_last (\<lambda>t. if P t then Some (rt_RuntimeHash (tt_fact t)) else None)
        (Some (ra_RuntimeHash a)) (transitionRecords s sn)) = active_hash sn (logOf s) b head"
    if P: "\<And>t. t \<in> set (transitionRecords s sn) \<Longrightarrow> P t = transition_active ?L b head (pairOf t)" for P
    using filter_pairOf [where P = P and Q = "transition_active ?L b head" and h = rt_RuntimeHash, OF P]
    by (simp add: scan_last_filter active_hash_def transitionRecords_eq [OF ok] a(2))
  show ?thesis
  proof (cases "head = []")
    case True
    then show ?thesis
      using active [of "\<lambda>t. rt_Branch (tt_fact t) = b \<and> rt_AfterCell (tt_fact t) = []"]
      by (simp add: loadActiveRuntime_def a transition_active_def pairOf_def)
  next
    case False
    with cur obtain V where V: "buildRuntimeVisibility s sn b head = Some (Inr V)"
      and vis: "\<And>t. tt_order t \<le> MaxInt \<Longrightarrow>
        visible V t \<longleftrightarrow> transition_visible ?L b head (tt_order t) (tt_fact t)"
      using visibility_spec [OF wf _ _ len, of b head] by blast
    from False show ?thesis
      using active [of "visible V"] vis bound
      by (simp add: loadActiveRuntime_def a V transition_active_def pairOf_def)
  qed
qed

subsection \<open>Replay plans\<close>

lemma loadCellDetails_step:
  assumes "store_ok s"
  shows "(case loadCellDetails s sn b c of (language, src, emitted, effects) \<Rightarrow>
      \<lparr>st_Cell = c, st_Language = language, st_Source = src, st_EmittedJS = emitted, st_Effects = effects\<rparr>)
    = step_of sn (logOf s) (c, b)"
proof -
  let ?ck = "\<lambda>x. (ck_Language x, ck_Source x, ck_EmittedJS x)"
  have "scan_last (\<lambda>e. if en_session e \<noteq> sn \<or> en_branch e \<noteq> b \<or> en_cell e \<noteq> c \<or> en_factType e \<noteq> ''CellChecked''
          then None else case en_fact e of CellChecked f \<Rightarrow> Some (ck_Language f, ck_Source f, ck_EmittedJS f) | _ \<Rightarrow> None)
          None (facts s) = map_option ?ck (scan_last (checkedOf sn b c) None (logOf s))"
    by (subst assms [unfolded store_ok_def])
      (auto simp: scan_last_map scan_last_map_option [of ?ck _ None, simplified, symmetric]
        intro!: scan_last_cong split: Fact.splits)
  moreover have "scan_last (\<lambda>e. if en_session e \<noteq> sn \<or> en_branch e \<noteq> b \<or> en_cell e \<noteq> c \<or> en_factType e \<noteq> ''CellEvaluated''
          then None else case en_fact e of CellEvaluated f \<Rightarrow> Some (ce_LinkedEffects f) | _ \<Rightarrow> None)
          None (facts s) = map_option ce_LinkedEffects (scan_last (evaluatedOf sn b c) None (logOf s))"
    by (subst assms [unfolded store_ok_def])
      (auto simp: scan_last_map scan_last_map_option [of ce_LinkedEffects _ None, simplified, symmetric]
        intro!: scan_last_cong split: Fact.splits)
  ultimately show ?thesis
    unfolding loadCellDetails_def step_of_def by (auto simp: Let_def split: option.splits)
qed

lemma buildReplaySteps_steps:
  assumes wf: "store_wf sn s" and own: "owner (lineageOf sn s) c = Some b"
  shows "buildReplaySteps s sn b c = Some (Inr (steps_of sn (logOf s) c))"
proof -
  have ok: "store_ok s" using wf by (simp add: store_wf_def)
  show ?thesis
    using chain_history [OF wf own] loadCellDetails_step [OF ok]
    by (auto simp: buildReplaySteps_def steps_of_def)
qed

lemma loadReplayDecision_decision:
  assumes "store_ok s"
  shows "loadReplayDecision s sn e =
    (case decision_of sn (logOf s) e of None \<Rightarrow> Inl (EffectStartedNotFound e) | Some d \<Rightarrow> Inr d)"
proof -
  have st: "find_map (\<lambda>en. if en_session en \<noteq> sn \<or> en_factType en \<noteq> ''EffectStarted'' then None
        else case en_fact en of EffectStarted f \<Rightarrow> if es_Effect f = e then Some (es_ReplayPolicy f) else None | _ \<Rightarrow> None)
      (facts s) = find_map (startedOf sn e) (logOf s)"
    by (subst assms [unfolded store_ok_def])
      (auto simp: find_map_map intro!: find_map_cong split: Fact.splits)
  have co: "find_map (\<lambda>(i, en). if en_session en \<noteq> sn \<or> en_factType en \<noteq> ''EffectCompleted'' then None
        else case en_fact en of EffectCompleted f \<Rightarrow>
               if ec_Effect f = e then Some (ec_Result f, i + 1) else None | _ \<Rightarrow> None)
      (enumerate 0 (facts s)) = find_map (completedOf sn e) (enumerate 0 (logOf s))"
    by (subst assms [unfolded store_ok_def])
      (auto simp: enumerate_map find_map_map intro!: find_map_cong split: Fact.splits)
  show ?thesis
    unfolding loadReplayDecision_def st co decision_of_def by (auto split: option.splits)
qed

lemma decisionsForEffects_ready:
  assumes ok: "store_ok s" and ready: "\<And>e. e \<in> set es \<Longrightarrow> decision_of sn (logOf s) e \<noteq> None"
    and D: "D \<subseteq>\<^sub>m decision_of sn (logOf s)"
  shows "decisionsForEffects s sn D es =
    Inr (\<lambda>e. if e \<in> set es \<union> dom D then decision_of sn (logOf s) e else None)"
  using ready D
proof (induction es arbitrary: D)
  case Nil
  then show ?case by (auto simp: map_le_def fun_eq_iff)
next
  case (Cons e es)
  show ?case
  proof (cases "D e")
    case None
    from Cons.prems obtain d where d: "decision_of sn (logOf s) e = Some d" by fastforce
    have "D(e \<mapsto> d) \<subseteq>\<^sub>m decision_of sn (logOf s)" using Cons.prems d by (auto simp: map_le_def)
    from Cons.IH [OF _ this] have "decisionsForEffects s sn (D(e \<mapsto> d)) es =
        Inr (\<lambda>e'. if e' \<in> set es \<union> dom (D(e \<mapsto> d)) then decision_of sn (logOf s) e' else None)"
      using Cons.prems(1) by (meson list.set_intros(2))
    moreover have "decisionsForEffects s sn D (e # es) = decisionsForEffects s sn (D(e \<mapsto> d)) es"
      using None d by (simp add: loadReplayDecision_decision [OF ok])
    moreover have "set es \<union> dom (D(e \<mapsto> d)) = set (e # es) \<union> dom D" by auto
    ultimately show ?thesis by (simp only:)
  next
    case (Some d)
    with Cons show ?thesis by (auto simp: fun_eq_iff)
  qed
qed

lemma decisionsForSteps_ready:
  assumes ok: "store_ok s" and ready: "\<And>e. e \<in> linked_effects sts \<Longrightarrow> decision_of sn (logOf s) e \<noteq> None"
    and D: "D \<subseteq>\<^sub>m decision_of sn (logOf s)"
  shows "decisionsForSteps s sn D sts =
    Inr (\<lambda>e. if e \<in> linked_effects sts \<union> dom D then decision_of sn (logOf s) e else None)"
  using ready D
proof (induction sts arbitrary: D)
  case Nil
  then show ?case by (auto simp: map_le_def fun_eq_iff linked_effects_def)
next
  case (Cons st sts)
  let ?D = "\<lambda>e. if e \<in> set (st_Effects st) \<union> dom D then decision_of sn (logOf s) e else None"
  have "decisionsForEffects s sn D (st_Effects st) = Inr ?D"
    using Cons.prems by (intro decisionsForEffects_ready [OF ok]) (simp_all add: linked_effects_def)
  moreover have "?D \<subseteq>\<^sub>m decision_of sn (logOf s)" by (auto simp: map_le_def split: if_splits)
  moreover have "dom ?D = set (st_Effects st) \<union> dom D"
  proof -
    have "decision_of sn (logOf s) e \<noteq> None" if "e \<in> set (st_Effects st) \<union> dom D" for e
      using that Cons.prems by (force simp: map_le_def linked_effects_def dom_def)
    then show ?thesis by (auto split: if_splits)
  qed
  ultimately show ?case
    using Cons.IH [of ?D] Cons.prems by (auto simp: linked_effects_def fun_eq_iff)
qed

lemma stored_load:
  "config_stored (runtimeConfigs s) h \<Longrightarrow> LoadRuntimeConfig s h = Inr (config_of (runtimeConfigs s) h)"
  "config_stored (runtimeConfigs s) h \<Longrightarrow> loadRuntimeConfigLocked s h = Inr (config_of (runtimeConfigs s) h)"
  by (auto simp: config_stored_def LoadRuntimeConfig_def loadRuntimeConfigLocked_def config_of_def)

lemma history_visibility:
  assumes wf: "store_wf sn s" and own: "owner (lineageOf sn s) c = Some b"
  shows "known (lineageOf sn s) b" and "branch_history (lineageOf sn s) b c \<noteq> []" and "c \<noteq> []"
proof -
  have inv: "lineage_inv (lineageOf sn s)" using wf by (rule store_wf_inv)
  show "known (lineageOf sn s) b" using inv own by (rule known_owner)
  show "branch_history (lineageOf sn s) b c \<noteq> []"
    using history_last [OF inv own] own by (simp add: history_def)
  show "c \<noteq> []" using inv own by (force simp: lineage_inv_def owner_iff_commits)
qed

lemma buildRuntimeTransitions_ready:
  assumes wf: "store_wf sn s" and len: "length (logOf s) \<le> MaxInt" and ready: "plan_ready sn (logOf s) (runtimeConfigs s)"
    and own: "owner (lineageOf sn s) c = Some b"
  shows "buildRuntimeTransitions s sn b c = Some (Inr (pl_RuntimeTransitions (plan_of sn (logOf s) (runtimeConfigs s) c b)))"
proof -
  have ok: "store_ok s" using wf by (simp add: store_wf_def)
  let ?vis = "\<lambda>t. transition_visible (lineageOf sn s) b c (fst t) (snd t)"
  let ?tr = "\<lambda>x. \<lparr>tr_AfterCell = rt_AfterCell x, tr_RuntimeHash = rt_RuntimeHash x,
              tr_RuntimeConfig = config_of (runtimeConfigs s) (rt_RuntimeHash x)\<rparr>"
  obtain V where V: "buildRuntimeVisibility s sn b c = Some (Inr V)"
    and vis: "\<And>t. tt_order t \<le> MaxInt \<Longrightarrow> visible V t \<longleftrightarrow> ?vis (pairOf t)"
    using visibility_spec [OF wf history_visibility(1,2) [OF wf own] len] by (auto simp: pairOf_def)
  have mem: "(tt_order t, tt_fact t) \<in> set (transitions_of sn (logOf s))"
    if "t \<in> set (transitionRecords s sn)" for t
    using that by (force simp: transitionRecords_eq [OF ok, symmetric] pairOf_def)
  have "rmap (\<lambda>t. rbind (loadRuntimeConfigLocked s (rt_RuntimeHash (tt_fact t))) (\<lambda>config.
            Inr \<lparr>tr_AfterCell = rt_AfterCell (tt_fact t), tr_RuntimeHash = rt_RuntimeHash (tt_fact t),
                 tr_RuntimeConfig = config\<rparr>)) (filter (visible V) (transitionRecords s sn))
      = Inr (map (\<lambda>t. ?tr (tt_fact t)) (filter (visible V) (transitionRecords s sn)))"
    using plan_ready_hashes(2) [OF ready mem]
    by (intro rmap_total_Inr) (simp add: stored_load)
  also have "map (\<lambda>t. ?tr (tt_fact t)) (filter (visible V) (transitionRecords s sn))
      = map (\<lambda>t. ?tr (snd t)) (filter ?vis (map pairOf (transitionRecords s sn)))"
    using vis order_trans [OF transitionRecords_bound [OF ok] len]
    by (intro filter_pairOf [where h = ?tr]) simp
  finally show ?thesis
    by (simp add: buildRuntimeTransitions_def V plan_of_def Let_def transitionRecords_eq [OF ok])
qed

lemma LoadReplayPlan_plan_of:
  assumes wf: "store_wf sn s" and len: "length (logOf s) \<le> MaxInt" and ready: "plan_ready sn (logOf s) (runtimeConfigs s)"
    and own: "owner (lineageOf sn s) c = Some b"
  shows "LoadReplayPlan s sn c = Some (Inr (plan_of sn (logOf s) (runtimeConfigs s) c b))"
proof -
  have ok: "store_ok s" using wf by (simp add: store_wf_def)
  obtain a where a: "loadRuntimeAttached s sn = Inr a" "ra_RuntimeHash a = attached_hash sn (logOf s)"
    using loadRuntimeAttached_hash [OF ok] by blast
  have "buildReplayDecisions s sn (steps_of sn (logOf s) c) = Inr (pl_Decisions (plan_of sn (logOf s) (runtimeConfigs s) c b))"
    using decisionsForSteps_ready [OF ok, of "steps_of sn (logOf s) c" sn Map.empty]
      plan_ready_effects [OF ready]
    by (simp add: buildReplayDecisions_def plan_of_def Let_def)
  then show ?thesis
    using a own
    by (simp add: LoadReplayPlan_def branchForCell_owner [OF ok] buildReplaySteps_steps [OF wf own]
        stored_load(1) [OF plan_ready_hashes(1) [OF ready]]
        buildRuntimeTransitions_ready [OF wf len ready own])
      (simp add: plan_of_def Let_def)
qed

lemma LoadReplayPlan_unknown:
  "store_ok s \<Longrightarrow> owner (lineageOf sn s) c = None \<Longrightarrow>
     LoadReplayPlan s sn c = Some (Inl (NotCommitted c sn))"
  by (simp add: LoadReplayPlan_def branchForCell_owner)

subsection \<open>Opening a session\<close>

lemma LoadSessionState_cursor:
  assumes wf: "store_wf sn s" and len: "length (logOf s) \<le> MaxInt"
    and root: "li_root (lineageOf sn s) = Some r" and cur: "cursor_of sn (logOf s) = (b, c)"
    and st: "config_stored (runtimeConfigs s) (active_hash sn (logOf s) b c)"
  shows "LoadSessionState s sn = Some (Inr
    \<lparr>sst_Session = sn, sst_Branch = b, sst_Head = c,
     sst_RuntimeHash = active_hash sn (logOf s) b c,
     sst_RuntimeConfig = config_of (runtimeConfigs s) (active_hash sn (logOf s) b c)\<rparr>)"
proof -
  have ok: "store_ok s" "log_wf sn (logOf s)" using wf by (simp_all add: store_wf_def)
  obtain x where x: "loadSessionStarted s sn = Inr x" "ss_RootBranch x = r"
    using root_found [OF ok] root by auto
  have "cursor_ok (lineageOf sn s) (b, c)" using cursor_of_ok [OF ok(2)] root cur by simp
  then have "loadActiveRuntime s sn b c = Some (Inr (active_hash sn (logOf s) b c,
      config_of (runtimeConfigs s) (active_hash sn (logOf s) b c)))"
    using loadActiveRuntime_active [OF wf len, of c b] cursor_ok_history [OF store_wf_inv [OF wf]] st
    by (auto simp: stored_load cursor_ok_def)
  then show ?thesis
    using x sessionStateLoop_cursor [OF wf root] cur by (simp add: LoadSessionState_def)
qed

subsection \<open>Heads, effects and epochs\<close>

lemma branchExists_log:
  assumes "store_ok s"
  shows "branchExists s sn b \<longleftrightarrow>
    (\<exists>f \<in> set (logOf s). fst (extractIndexColumns f) = sn \<and> fst (snd (extractIndexColumns f)) = b)"
proof -
  have "list_ex (\<lambda>e. en_session e = sn \<and> en_branch e = b) (map mkEntry log) \<longleftrightarrow>
    (\<exists>f \<in> set log. fst (extractIndexColumns f) = sn \<and> fst (snd (extractIndexColumns f)) = b)" for log
    by (simp add: list_ex_iff)
  then show ?thesis using assms by (simp add: branchExists_def store_ok_def)
qed

lemma LoadHead_head_of:
  assumes "store_ok s" and "branchExists s sn b"
  shows "LoadHead s sn b = Inr \<lparr>hr_Session = sn, hr_Branch = b, hr_Head = head_of sn (logOf s) b\<rparr>"
proof -
  let ?hr = "\<lambda>c. \<lparr>hr_Session = sn, hr_Branch = b, hr_Head = c\<rparr>"
  have "find_map (\<lambda>e. if en_session e \<noteq> sn \<or> en_branch e \<noteq> b \<or> en_factType e \<noteq> ''HeadMoved'' then None
          else case en_fact e of HeadMoved f \<Rightarrow>
                 Some \<lparr>hr_Session = hm_Session f, hr_Branch = hm_Branch f, hr_Head = hm_Next f\<rparr> | _ \<Rightarrow> None)
        (map mkEntry log) = map_option ?hr (find_map (headOf sn b) log)" for log
  proof (induction log)
    case (Cons f log)
    then show ?case by (cases f) auto
  qed simp
  then show ?thesis
    using assms
    by (simp add: LoadHead_def store_ok_def rev_map head_of_def scan_last_eq_find_map split: option.splits)
qed

lemma known_fact:
  "log_wf sn log \<Longrightarrow> known (lineage_of sn log) b \<Longrightarrow>
    \<exists>f \<in> set log. fst (extractIndexColumns f) = sn \<and> fst (snd (extractIndexColumns f)) = b"
proof (induction rule: log_wf_induct)
  case Nil
  then show ?case by (simp add: known_def)
next
  case (snoc log f)
  show ?case
  proof (cases "known (lineage_of sn log) b")
    case False
    with snoc.prems have "fst (extractIndexColumns f) = sn \<and> fst (snd (extractIndexColumns f)) = b"
      by (cases f) (auto simp: lineage_step_defs known_def split: if_splits)
    then show ?thesis by auto
  qed (use snoc in auto)
qed

lemma LoadHead_known:
  assumes "store_wf sn s" and "known (lineageOf sn s) b"
  shows "LoadHead s sn b = Inr \<lparr>hr_Session = sn, hr_Branch = b, hr_Head = head_of sn (logOf s) b\<rparr>"
  using assms known_fact by (intro LoadHead_head_of) (auto simp: store_wf_def branchExists_log)

lemma loadCellStaticDetails_details:
  assumes "store_ok s"
  shows "loadCellStaticDetails s sn b c =
    (case static_details sn (logOf s) (c, b) of None \<Rightarrow> Inl (NoCellChecked c) | Some d \<Rightarrow> Inr d)"
proof -
  let ?ck = "\<lambda>x. (ck_Source x, ck_TypeScriptEnvHash x, ck_TypeScriptEpochTS x)"
  have "scan_last (\<lambda>e. if en_session e \<noteq> sn \<or> en_branch e \<noteq> b \<or> en_cell e \<noteq> c \<or> en_factType e \<noteq> ''CellChecked''
          then None else case en_fact e of CellChecked f \<Rightarrow> Some (?ck f) | _ \<Rightarrow> None)
          None (facts s) = static_details sn (logOf s) (c, b)"
    unfolding static_details_def
    by (subst assms [unfolded store_ok_def])
      (auto simp: scan_last_map scan_last_map_option [of ?ck _ None, simplified, symmetric]
        intro!: scan_last_cong split: Fact.splits)
  then show ?thesis by (simp add: loadCellStaticDetails_def)
qed

lemma staticEnvLoop_epoch:
  assumes ok: "store_ok s" and ready: "\<And>cb. cb \<in> set chain \<Longrightarrow> static_details sn (logOf s) cb \<noteq> None"
    and inv: "start \<le> length sources" "i = length sources"
  shows "\<exists>h ts st srcs. staticEnvLoop s sn i envHash epochTS start sources chain = Inr (h, ts, st, srcs) \<and>
    (h, ts, drop st srcs) = foldl epoch_step (envHash, epochTS, drop start sources)
      (map (\<lambda>cb. the (static_details sn (logOf s) cb)) chain)"
  using ready inv
proof (induction chain arbitrary: i envHash epochTS start sources)
  case (Cons cb chain)
  obtain c b where cb: "cb = (c, b)" by (cases cb)
  obtain src ch cts where d: "static_details sn (logOf s) (c, b) = Some (src, ch, cts)"
    using Cons.prems(1) [of cb] cb by auto
  let ?fresh = "ch \<noteq> [] \<and> envHash \<noteq> [] \<and> ch \<noteq> envHash"
  let ?start = "if ?fresh then i else start"
  let ?h = "if ch = [] then envHash else ch"
  let ?ts = "if ch = [] \<or> ch = envHash \<and> envHash \<noteq> [] then epochTS else cts"
  have "staticEnvLoop s sn i envHash epochTS start sources (cb # chain) =
      staticEnvLoop s sn (i + 1) ?h ?ts ?start (sources @ [src]) chain"
    by (auto simp: cb loadCellStaticDetails_details [OF ok] d)
  moreover have "epoch_step (envHash, epochTS, drop start sources) (src, ch, cts) =
      (?h, ?ts, drop ?start (sources @ [src]))"
    using Cons.prems by auto
  ultimately show ?case
    using Cons.IH [of ?start "sources @ [src]" "i + 1" ?h ?ts] Cons.prems d cb
    by (auto split: if_splits)
qed simp

lemma loadStaticEnvState_epoch:
  assumes wf: "store_wf sn s" and kn: "known (lineageOf sn s) b" and "c \<noteq> []"
    and ready: "\<And>cb. cb \<in> set (branch_history (lineageOf sn s) b c) \<Longrightarrow> static_details sn (logOf s) cb \<noteq> None"
  shows "loadStaticEnvState s sn b c =
    Some (Inr (epoch_of sn (logOf s) (branch_history (lineageOf sn s) b c)))"
proof -
  have ok: "store_ok s" using wf by (simp add: store_wf_def)
  obtain h ts st srcs where
    "staticEnvLoop s sn 0 [] [] 0 [] (branch_history (lineageOf sn s) b c) = Inr (h, ts, st, srcs)"
    "(h, ts, drop st srcs) = epoch_of sn (logOf s) (branch_history (lineageOf sn s) b c)"
    using staticEnvLoop_epoch [OF ok ready, of "branch_history (lineageOf sn s) b c" 0 "[]" 0 "[]" "[]"]
    unfolding epoch_of_def by auto
  moreover have "(if 0 < st then drop st srcs else srcs) = drop st srcs" by simp
  ultimately show ?thesis
    using chain_branch_history [OF wf kn, of c] \<open>c \<noteq> []\<close> by (simp add: loadStaticEnvState_def)
qed

definition settle_at :: "EffectID \<Rightarrow> (EffectRecord \<Rightarrow> EffectRecord) \<Rightarrow> EffectRecord list \<Rightarrow> EffectRecord list" where
  "settle_at e g out = map (\<lambda>r. if e = er_Effect r then g r else r) out"

lemma settle_at_effects:
  "(\<And>r. er_Effect (g r) = er_Effect r) \<Longrightarrow> map er_Effect (settle_at e g out) = map er_Effect out"
  by (simp add: settle_at_def)

lemma settle_at_notin: "e \<notin> er_Effect ` set out \<Longrightarrow> settle_at e g out = out"
  unfolding settle_at_def by (induction out) auto

lemma settle_at_update:
  assumes "distinct (map er_Effect out)" and "i < length out" and "er_Effect (out ! i) = e"
  shows "settle_at e g out = out[i := g (out ! i)]"
proof (rule nth_equalityI)
  fix j assume "j < length (settle_at e g out)"
  then show "settle_at e g out ! j = out[i := g (out ! i)] ! j"
    using assms nth_eq_iff_index_eq [OF assms(1), of i j] by (auto simp: settle_at_def nth_list_update)
qed (simp add: settle_at_def)

text \<open>The index map of the loop: every recorded effect at its position.\<close>

definition index_ok :: "(EffectID \<rightharpoonup> nat) \<Rightarrow> EffectID list \<Rightarrow> bool" where
  "index_ok idx es \<longleftrightarrow> distinct es \<and> (\<forall>e i. idx e = Some i \<longleftrightarrow> i < length es \<and> es ! i = e)"

lemma index_settle:
  assumes "index_ok idx (map er_Effect out)"
  shows "(case idx e of None \<Rightarrow> out | Some i \<Rightarrow> out[i := g (out ! i)]) = settle_at e g out"
proof (cases "idx e")
  case None
  then have "e \<notin> set (map er_Effect out)"
    using assms unfolding index_ok_def in_set_conv_nth by (metis option.distinct(1))
  then show ?thesis using None by (simp add: settle_at_notin)
next
  case (Some i)
  then have "i < length (map er_Effect out) \<and> map er_Effect out ! i = e" "distinct (map er_Effect out)"
    using assms unfolding index_ok_def by blast+
  then show ?thesis using Some settle_at_update [of out i e g] by auto
qed

lemma index_start:
  assumes "index_ok idx es" and "e \<notin> set es"
  shows "index_ok (idx(e \<mapsto> length es)) (es @ [e])"
  unfolding index_ok_def
proof (intro conjI allI)
  show "distinct (es @ [e])" using assms by (simp add: index_ok_def)
  fix e' i
  show "((idx(e \<mapsto> length es)) e' = Some i) = (i < length (es @ [e]) \<and> (es @ [e]) ! i = e')"
  proof (cases "e' = e")
    case True
    then show ?thesis using assms(2) by (auto simp: nth_append less_Suc_eq)
  next
    case False
    then have "((idx(e \<mapsto> length es)) e' = Some i) = (i < length es \<and> es ! i = e')"
      using assms(1) unfolding index_ok_def by simp
    then show ?thesis using False by (auto simp: nth_append less_Suc_eq)
  qed
qed

abbreviation effects_step :: "SessionID \<Rightarrow> CellID \<Rightarrow> EffectRecord list \<Rightarrow> Fact \<Rightarrow> EffectRecord list" where
  "effects_step sn c out f \<equiv>
     map (settle_effect sn f) out @ (case effectStartOf sn c f of None \<Rightarrow> [] | Some r \<Rightarrow> [r])"

text \<open>One turn of the loop is one step of the fold.\<close>

lemma cellEffectsLoop_step:
  assumes idx: "index_ok idx (map er_Effect out)"
    and fresh: "\<And>r. effectStartOf sn c f = Some r \<Longrightarrow> er_Effect r \<notin> er_Effect ` set out"
  shows "\<exists>idx'. index_ok idx' (map er_Effect (effects_step sn c out f)) \<and>
    cellEffectsLoop sn c out idx (mkEntry f # es) = cellEffectsLoop sn c (effects_step sn c out f) idx' es"
proof -
  have settle: ?thesis
    if f: "effectStartOf sn c f = None" "map (settle_effect sn f) out = settle_at e g out"
      "\<And>r. er_Effect (g r) = er_Effect r"
      "cellEffectsLoop sn c out idx (mkEntry f # es) = cellEffectsLoop sn c
         (case idx e of None \<Rightarrow> out | Some i \<Rightarrow> out[i := g (out ! i)]) idx es" for e g
    using idx f by (intro exI [of _ idx]) (simp add: index_settle [OF idx] settle_at_effects)
  have skip: ?thesis
    if "effectStartOf sn c f = None" "map (settle_effect sn f) out = out"
      "cellEffectsLoop sn c out idx (mkEntry f # es) = cellEffectsLoop sn c out idx es"
    using idx that by (intro exI [of _ idx]) simp
  show ?thesis
  proof (cases f)
    case (EffectStarted x)
    then have id: "map (settle_effect sn f) out = out" by (simp add: map_idI)
    show ?thesis
    proof (cases "es_Session x = sn \<and> es_Cell x = c")
      case True
      then show ?thesis
        using EffectStarted fresh index_start [OF idx, of "es_Effect x"] id
        by (intro exI [of _ "idx(es_Effect x \<mapsto> length out)"]) simp
    qed (use EffectStarted id skip in auto)
  next
    case (EffectCompleted x)
    show ?thesis
    proof (cases "ec_Session x = sn")
      case True
      then show ?thesis
        using EffectCompleted
        by (intro settle [of "ec_Effect x" "\<lambda>r. r\<lparr>er_Status := EffectRecordCompleted,
            er_Result := ec_Result x, er_ErrorMessage := [], er_UpdatedAt := ec_At x\<rparr>"])
          (simp_all add: settle_at_def split: option.splits)
    qed (use EffectCompleted skip in \<open>simp add: map_idI\<close>)
  next
    case (EffectFailed x)
    show ?thesis
    proof (cases "ef_Session x = sn")
      case True
      then show ?thesis
        using EffectFailed
        by (intro settle [of "ef_Effect x" "\<lambda>r. r\<lparr>er_Status := EffectRecordFailed, er_Result := [],
            er_ErrorMessage := ef_ErrorMessage x, er_UpdatedAt := ef_At x\<rparr>"])
          (simp_all add: settle_at_def split: option.splits)
    qed (use EffectFailed skip in \<open>simp add: map_idI\<close>)
  qed (use skip in \<open>simp_all add: map_idI\<close>)
qed

lemma settle_effect_id [simp]: "er_Effect (settle_effect sn f r) = er_Effect r"
  by (cases f) simp_all

lemma cellEffectsLoop_effects:
  assumes "index_ok idx (map er_Effect out)"
    and "distinct (map er_Effect out @ map er_Effect (collect (effectStartOf sn c) log))"
  shows "cellEffectsLoop sn c out idx (map mkEntry log) = foldl (effects_step sn c) out log"
  using assms
proof (induction log arbitrary: idx out)
  case (Cons f log)
  have "er_Effect r \<notin> er_Effect ` set out" if "effectStartOf sn c f = Some r" for r
    using Cons.prems(2) that by auto
  then obtain idx' where idx': "index_ok idx' (map er_Effect (effects_step sn c out f))"
    "cellEffectsLoop sn c out idx (mkEntry f # map mkEntry log) =
       cellEffectsLoop sn c (effects_step sn c out f) idx' (map mkEntry log)"
    using cellEffectsLoop_step [OF Cons.prems(1)] by blast
  have "distinct (map er_Effect (effects_step sn c out f) @ map er_Effect (collect (effectStartOf sn c) log))"
    using Cons.prems(2) by (cases "effectStartOf sn c f") (auto simp: comp_def)
  then show ?case using Cons.IH [OF idx'(1)] idx'(2) by simp
qed simp

lemma LoadCellEffects_effects:
  assumes "store_ok s"
    and "distinct (map er_Effect (collect (effectStartOf sn c) (logOf s)))"
  shows "LoadCellEffects s sn c = Inr (cell_effects sn (logOf s) c)"
proof -
  have "index_ok Map.empty []" by (simp add: index_ok_def)
  then have "cellEffectsLoop sn c [] Map.empty (map mkEntry (logOf s)) = cell_effects sn (logOf s) c"
    unfolding cell_effects_def using assms(2) by (intro cellEffectsLoop_effects) simp_all
  then show ?thesis using assms(1) by (simp add: LoadCellEffects_def store_ok_def)
qed

end
