(* ===== verification/Mem_Claims.thy ===== *)
theory Mem_Claims
  imports Mem_Props
begin

text \<open>
  The correctness properties of the in-memory store, each for every well-formed
  log, with a concrete session as witness: root branch \<open>b\<close>, cell \<open>c1\<close> with one
  host effect, cell \<open>c2\<close>, and a fork \<open>n\<close> at \<open>c1\<close>.
\<close>

subsection \<open>A concrete session\<close>

definition demo_cell :: "BranchID \<Rightarrow> CellID \<Rightarrow> CellID \<Rightarrow> EffectID list \<Rightarrow> Fact list" where
  "demo_cell b c p es =
     [CellChecked \<lparr>ck_Session = ''s'', ck_Branch = b, ck_Cell = c, ck_Parent = p,
        ck_Language = ''js'', ck_Source = c, ck_Diagnostics = [], ck_EmittedJS = [],
        ck_TypeScriptEnvHash = [], ck_TypeScriptEpochTS = [], ck_HasErrors = False, ck_At = 1\<rparr>,
      CellEvaluated \<lparr>ce_Session = ''s'', ce_Branch = b, ce_Cell = c, ce_CreatedBindings = [],
        ce_LinkedEffects = es, ce_CompletionValue = None, ce_ErrorMessage = [], ce_At = 1\<rparr>,
      CellCommitted \<lparr>cc_Session = ''s'', cc_Branch = b, cc_Cell = c, cc_At = 1\<rparr>,
      HeadMoved \<lparr>hm_Session = ''s'', hm_Branch = b, hm_Previous = p, hm_Next = c, hm_At = 1\<rparr>]"

definition demo_log :: "Fact list" where
  "demo_log =
     [SessionStarted \<lparr>ss_Session = ''s'', ss_RootBranch = ''b'', ss_At = 0\<rparr>,
      ManifestAttached \<lparr>ma_Session = ''s'', ma_ManifestID = ''m'',
        ma_Manifest = \<lparr>mf_ID = ''m'', mf_Functions = []\<rparr>, ma_At = 0\<rparr>,
      RuntimeAttached \<lparr>ra_Session = ''s'', ra_RuntimeHash = ''h0'', ra_At = 0\<rparr>,
      EffectStarted \<lparr>es_Session = ''s'', es_Effect = ''e1'', es_Cell = ''c1'', es_FunctionName = ''f'',
        es_Params = [1], es_IdempotencyKey = [], es_ReplayPolicy = ''readonly'', es_At = 1\<rparr>,
      EffectCompleted \<lparr>ec_Session = ''s'', ec_Effect = ''e1'', ec_Result = [7], ec_At = 1\<rparr>]
     @ demo_cell ''b'' ''c1'' [] [''e1''] @ demo_cell ''b'' ''c2'' ''c1'' []"

definition demo_fork :: BranchCreated where
  "demo_fork = \<lparr>bc_Session = ''s'', bc_Branch = ''n'', bc_ParentCell = ''c1'', bc_At = 2\<rparr>"

definition demo_transition :: "BranchID \<Rightarrow> CellID \<Rightarrow> RuntimeTransitioned" where
  "demo_transition b c = \<lparr>rt_Session = ''s'', rt_Branch = b, rt_AfterCell = c, rt_RuntimeHash = ''h1'', rt_At = 3\<rparr>"

definition demo_store :: "Fact list \<Rightarrow> Store" where
  "demo_store log = \<lparr>facts = map mkEntry log, runtimeConfigs = [''h0'' \<mapsto> [42], ''h1'' \<mapsto> [43]]\<rparr>"

lemma demo_logOf [simp]: "logOf (demo_store log) = log"
  by (simp add: demo_store_def logOf_def comp_def)

lemma demo_configs [simp]: "runtimeConfigs (demo_store log) = [''h0'' \<mapsto> [42], ''h1'' \<mapsto> [43]]"
  by (simp add: demo_store_def)

lemma demo_append [simp]: "AppendFact (demo_store log) f = Inr (demo_store (log @ [f]))"
  by (simp add: AppendFact_def demo_store_def)

lemma demo_store_wf: "store_wf sn (demo_store log) \<longleftrightarrow> log_wf sn log"
  by (simp add: store_wf_def store_ok_def) (simp add: demo_store_def)

lemma demo_wf: "log_wf ''s'' demo_log"
  by code_simp

lemma demo_owner: "owner (lineage_of ''s'' demo_log) ''c1'' = Some ''b''"
  "owner (lineage_of ''s'' demo_log) ''c2'' = Some ''b''"
  by code_simp+

lemma demo_ready: "plan_ready ''s'' demo_log [''h0'' \<mapsto> [42], ''h1'' \<mapsto> [43]]"
  by code_simp

lemma demo_length: "length demo_log \<le> MaxInt"
  by (simp add: demo_log_def demo_cell_def MaxInt_def)

lemma demo_history:
  "history (lineage_of ''s'' demo_log) ''c2'' = [(''c1'', ''b''), (''c2'', ''b'')]"
  by code_simp

subsection \<open>Replay plans\<close>

text \<open>
  C4. The replay plan of a committed cell exists and replays exactly the cell's
  history: its steps are the cells the branch inherited, then the branch's own
  cells up to the target, in commit order, without repetition and ending with
  the target, and every effect linked to a step has a decision.
\<close>

theorem replay_plan_is_history:
  assumes "store_wf sn s" and "length (logOf s) \<le> MaxInt"
    and "plan_ready sn (logOf s) (runtimeConfigs s)" and "owner (lineageOf sn s) c = Some b"
  shows "\<exists>p. LoadReplayPlan s sn c = Some (Inr p) \<and> pl_Branch p = b \<and> pl_TargetCell p = c \<and>
    map st_Cell (pl_Steps p) = map fst (history (lineageOf sn s) c) \<and>
    distinct (map st_Cell (pl_Steps p)) \<and> last (map st_Cell (pl_Steps p)) = c \<and>
    (\<forall>st \<in> set (pl_Steps p). \<forall>e \<in> set (st_Effects st). pl_Decisions p e \<noteq> None)"
proof -
  let ?p = "plan_of sn (logOf s) (runtimeConfigs s) c b" and ?h = "history (lineageOf sn s) c"
  have inv: "lineage_inv (lineageOf sn s)" using assms(1) by (rule store_wf_inv)
  have steps: "pl_Steps ?p = steps_of sn (logOf s) c" by (simp add: plan_of_def Let_def)
  have cells: "map st_Cell (pl_Steps ?p) = map fst ?h"
    unfolding steps by (auto simp: steps_of_def step_of_def Let_def)
  moreover have "distinct (map fst ?h)"
    using branch_history_distinct [OF inv] assms(4) by (simp add: history_def)
  moreover have "last (map fst ?h) = c"
    using history_last [OF inv assms(4)] by (simp add: last_map)
  moreover have "\<forall>st \<in> set (pl_Steps ?p). \<forall>e \<in> set (st_Effects st). pl_Decisions ?p e \<noteq> None"
    using plan_ready_effects [OF assms(3), of _ c] unfolding steps
    by (auto simp: plan_of_def Let_def linked_effects_def)
  ultimately show ?thesis
    using LoadReplayPlan_plan_of [OF assms] by (intro exI [of _ ?p]) (simp add: plan_of_def Let_def)
qed

theorem replay_plan_is_history_witness:
  "\<exists>p. LoadReplayPlan (demo_store demo_log) ''s'' ''c2'' = Some (Inr p) \<and>
     map st_Cell (pl_Steps p) = [''c1'', ''c2'']"
  using replay_plan_is_history [of "''s''" "demo_store demo_log" "''c2''" "''b''"]
  by (auto simp: demo_store_wf demo_wf demo_length demo_ready demo_owner demo_history)

text \<open>
  C10. Committed history never changes: whatever facts are appended later under
  the engine's discipline (further cells, forks, restores, transitions), the
  replay steps of a committed cell, sources and linked effects included, stay
  exactly what they were.
\<close>

theorem replay_history_immutable:
  assumes "store_wf sn s" and "store_wf sn s'" and "logOf s' = logOf s @ fs"
    and "owner (lineageOf sn s) c = Some b"
  shows "buildReplaySteps s' sn b c = Some (Inr (steps_of sn (logOf s) c)) \<and>
    buildReplaySteps s sn b c = Some (Inr (steps_of sn (logOf s) c))"
proof -
  have "owner (lineageOf sn s') c = Some b" using owner_prefix [OF assms(4)] assms(3) by simp
  moreover have "steps_of sn (logOf s') c = steps_of sn (logOf s) c"
    using steps_of_extend [OF _ assms(4)] assms(2,3) by (simp add: store_wf_def)
  ultimately show ?thesis using buildReplaySteps_steps assms by simp
qed

theorem replay_history_immutable_witness:
  "buildReplaySteps (demo_store (demo_log @ [BranchCreated demo_fork] @ demo_cell ''n'' ''c3'' ''c1'' []))
     ''s'' ''b'' ''c1'' = Some (Inr (steps_of ''s'' demo_log ''c1''))"
proof -
  let ?fs = "[BranchCreated demo_fork] @ demo_cell ''n'' ''c3'' ''c1'' []"
  have "log_wf ''s'' (demo_log @ ?fs)" by code_simp
  then show ?thesis
    using replay_history_immutable [of "''s''" "demo_store demo_log" "demo_store (demo_log @ ?fs)" ?fs "''c1''" "''b''"]
    by (simp add: demo_store_wf demo_wf demo_owner)
qed

text \<open>
  C11. A fork sees its parent's history up to the fork cell and nothing else:
  after a branch is created at a committed cell, its ancestor chain is that
  cell's history followed by the branch's own cells, in every later state of
  the log. Cells the parent or a sibling commits after the fork never enter it.
\<close>

theorem fork_sees_parent_prefix:
  assumes "store_wf sn s" and "bc_Session x = sn" and "ok_step sn (lineageOf sn s) (BranchCreated x)"
    and "AppendFact s (BranchCreated x) = Inr s1"
    and "store_wf sn s2" and "logOf s2 = logOf s1 @ fs"
  shows "collectAncestorChain s2 sn (bc_Branch x) stop = Some (Inr (
    history (lineageOf sn s) (bc_ParentCell x) @
    map (\<lambda>c. (c, bc_Branch x)) (take_upto stop (own (lineageOf sn s2) (bc_Branch x)))))"
proof -
  have log1: "logOf s1 = logOf s @ [BranchCreated x]" using AppendFact_logOf [OF assms(4)] .
  have kn: "known (lineageOf sn s1) (bc_Branch x)"
    and inh: "inherited (lineageOf sn s1) (bc_Branch x) = history (lineageOf sn s) (bc_ParentCell x)"
    using assms(2) by (simp_all add: log1 lineage_step_defs known_def inherited_def)
  have "inherited (lineageOf sn s2) (bc_Branch x) = history (lineageOf sn s) (bc_ParentCell x)"
    using inherited_extend [of sn "logOf s1" fs, OF _ kn] inh assms(5,6) by (simp add: store_wf_def)
  then show ?thesis
    using chain_branch_history [OF assms(5), of "bc_Branch x" stop] known_extend [OF kn, of fs] assms(6)
    by (simp add: branch_history_def)
qed

theorem fork_sees_parent_prefix_witness:
  "collectAncestorChain
     (demo_store ((demo_log @ [BranchCreated demo_fork]) @ demo_cell ''b'' ''c9'' ''c2'' [] @ demo_cell ''n'' ''c3'' ''c1'' []))
     ''s'' ''n'' ''c3'' = Some (Inr [(''c1'', ''b''), (''c3'', ''n'')])"
proof -
  let ?l = "demo_log @ [BranchCreated demo_fork]"
  let ?fs = "demo_cell ''b'' ''c9'' ''c2'' [] @ demo_cell ''n'' ''c3'' ''c1'' []"
  have "ok_step ''s'' (lineage_of ''s'' demo_log) (BranchCreated demo_fork)" "log_wf ''s'' (?l @ ?fs)"
    by code_simp+
  moreover have "history (lineage_of ''s'' demo_log) ''c1'' = [(''c1'', ''b'')]"
    "own (lineage_of ''s'' (?l @ ?fs)) ''n'' = [''c3'']"
    by code_simp+
  ultimately show ?thesis
    using fork_sees_parent_prefix [of "''s''" "demo_store demo_log" demo_fork "demo_store ?l"
        "demo_store (?l @ ?fs)" ?fs "''c3''"]
    by (simp add: demo_store_wf demo_wf) (simp add: demo_fork_def)
qed

subsection \<open>Opening a session\<close>



text \<open>
  No query of a well-formed log runs forever: the loops that climb the
  branch ancestry reach the root, so plans, session state and static
  environments always come back, with a result or an error.
\<close>

theorem store_queries_return:
  assumes "store_wf sn s" and "length (logOf s) \<le> MaxInt"
  shows "LoadReplayPlan s sn c \<noteq> None \<and> LoadSessionState s sn \<noteq> None \<and>
    (known (lineageOf sn s) b \<longrightarrow> LoadStaticEnv s sn b c \<noteq> None)"
proof (intro conjI impI)
  have ok: "store_ok s" "log_wf sn (logOf s)" using assms(1) by (simp_all add: store_wf_def)
  show "LoadReplayPlan s sn c \<noteq> None"
  proof (cases "owner (lineageOf sn s) c")
    case None
    then show ?thesis using LoadReplayPlan_unknown [OF ok(1)] by simp
  next
    case (Some b')
    obtain V where "buildRuntimeVisibility s sn b' c = Some (Inr V)"
      using visibility_spec [OF assms(1) history_visibility(1,2) [OF assms(1) Some] assms(2)] by blast
    then show ?thesis
      unfolding LoadReplayPlan_def
      by (intro cbind_total) (auto simp: buildReplaySteps_steps [OF assms(1)] branchForCell_owner [OF ok(1)]
            Some buildRuntimeTransitions_def)
  qed
  show "LoadSessionState s sn \<noteq> None"
  proof (cases "li_root (lineageOf sn s)")
    case None
    then show ?thesis using root_found [OF ok] by (simp add: LoadSessionState_def)
  next
    case (Some r)
    obtain b' c' where cur: "cursor_of sn (logOf s) = (b', c')" by (cases "cursor_of sn (logOf s)")
    have cok: "cursor_ok (lineageOf sn s) (b', c')" using cursor_of_ok [OF ok(2)] Some cur by simp
    obtain y where "loadActiveRuntime s sn b' c' = Some y"
      using loadActiveRuntime_active [OF assms, of c' b'] cok cursor_ok_history [OF store_wf_inv [OF assms(1)] cok]
      by (auto simp: cursor_ok_def)
    then show ?thesis
      using root_found [OF ok] Some sessionStateLoop_cursor [OF assms(1) Some] cur
      by (cases y) (auto simp: LoadSessionState_def)
  qed
  assume "known (lineageOf sn s) b"
  then show "LoadStaticEnv s sn b c \<noteq> None"
    using chain_branch_history [OF assms(1)] unfolding LoadStaticEnv_def loadStaticEnvState_def
    by (intro cbind_total) auto
qed

theorem store_queries_return_witness:
  "LoadSessionState (demo_store demo_log) ''s'' \<noteq> None \<and> LoadStaticEnv (demo_store demo_log) ''s'' ''b'' ''c2'' \<noteq> None"
proof -
  have "known (lineage_of ''s'' demo_log) ''b''" by code_simp
  then show ?thesis
    using store_queries_return [of "''s''" "demo_store demo_log" "''c2''" "''b''"]
    by (simp add: demo_store_wf demo_wf demo_length)
qed

subsection \<open>Runtime transitions and branches\<close>

text \<open>
  Branches do not share later runtime transitions: a transition recorded on
  another branch, the parent included, leaves the active runtime of a branch at
  each of its cells unchanged once the branch exists.
\<close>

theorem transition_on_other_branch_invisible:
  assumes "store_wf sn s" and "Suc (length (logOf s)) \<le> MaxInt"
    and "ok_step sn (lineageOf sn s) (RuntimeTransitioned x)" and "rt_Branch x \<noteq> b"
    and "AppendFact s (RuntimeTransitioned x) = Inr s'"
    and "known (lineageOf sn s) b" and "branch_history (lineageOf sn s) b c \<noteq> []"
  shows "loadActiveRuntime s' sn b c = loadActiveRuntime s sn b c"
proof -
  have log': "logOf s' = logOf s @ [RuntimeTransitioned x]" using AppendFact_logOf [OF assms(5)] .
  have wf': "store_wf sn s'" using AppendFact_store_wf [OF assms(5,1,3)] .
  have "n \<le> length (logOf s)" if "map_of (li_cut (lineageOf sn s) b) (rt_Branch x) = Some n" for n
    using cuts_invD(2) [OF log_wf_cuts assms(6) map_of_SomeD [OF that]] assms(1)
    by (simp add: store_wf_def li_len_lineage_of)
  then have "\<not> transition_active (lineageOf sn s) b c (length (logOf s) + 1, x)"
    using assms(4)
    by (cases "map_of (li_cut (lineageOf sn s) b) (rt_Branch x)")
      (auto simp: transition_active_def transition_visible_def)
  then have "active_hash sn (logOf s') b c = active_hash sn (logOf s) b c"
    by (simp add: log' active_hash_transition)
  moreover have "loadRuntimeConfigLocked s' h = loadRuntimeConfigLocked s h" for h
    by (simp add: loadRuntimeConfigLocked_def AppendFact_configs [OF assms(5)])
  moreover have "known (lineageOf sn s') b \<and> branch_history (lineageOf sn s') b c \<noteq> []"
    using assms(6,7) by (simp add: log' lineage_step_defs branch_history_def)
  ultimately show ?thesis
    using loadActiveRuntime_active [OF assms(1), of c b] loadActiveRuntime_active [OF wf', of c b] assms(2,6,7)
    by (simp add: log')
qed

theorem transition_on_other_branch_invisible_witness:
  "loadActiveRuntime (demo_store ((demo_log @ [BranchCreated demo_fork]) @ [RuntimeTransitioned (demo_transition ''b'' ''c1'')]))
     ''s'' ''n'' ''c1'' = loadActiveRuntime (demo_store (demo_log @ [BranchCreated demo_fork])) ''s'' ''n'' ''c1''"
proof -
  let ?l = "demo_log @ [BranchCreated demo_fork]"
  have "log_wf ''s'' ?l" "ok_step ''s'' (lineage_of ''s'' ?l) (RuntimeTransitioned (demo_transition ''b'' ''c1''))"
    "known (lineage_of ''s'' ?l) ''n''" "branch_history (lineage_of ''s'' ?l) ''n'' ''c1'' \<noteq> []"
    "rt_Branch (demo_transition ''b'' ''c1'') \<noteq> ''n''"
    by code_simp+
  moreover have "Suc (length ?l) \<le> MaxInt" by (simp add: demo_log_def demo_cell_def MaxInt_def)
  ultimately show ?thesis
    using transition_on_other_branch_invisible [of "''s''" "demo_store ?l" "demo_transition ''b'' ''c1''" "''n''"
      "demo_store (?l @ [RuntimeTransitioned (demo_transition ''b'' ''c1'')])" "''c1''"]
    by (simp add: demo_store_wf del: lineage_of_snoc)
qed

text \<open>
  A transition recorded after a cell that its branch does not own is never
  seen again: the visibility scope of a branch holds the branch's own cells
  only, so the active runtime of every cursor is what it was before. This is
  the state of a branch that was just forked, whose head is a cell of the parent.
\<close>

theorem transition_after_inherited_cell_lost:
  assumes "store_wf sn s" and "Suc (length (logOf s)) \<le> MaxInt"
    and "ok_step sn (lineageOf sn s) (RuntimeTransitioned x)"
    and "rt_AfterCell x \<noteq> []" and "owner (lineageOf sn s) (rt_AfterCell x) \<noteq> Some (rt_Branch x)"
    and "AppendFact s (RuntimeTransitioned x) = Inr s'"
    and "known (lineageOf sn s) b" and "branch_history (lineageOf sn s) b c \<noteq> []"
  shows "loadActiveRuntime s' sn b c = loadActiveRuntime s sn b c"
proof -
  have log': "logOf s' = logOf s @ [RuntimeTransitioned x]" using AppendFact_logOf [OF assms(6)] .
  have wf': "store_wf sn s'" using AppendFact_store_wf [OF assms(6,1,3)] .
  have inv: "lineage_inv (lineageOf sn s)" using assms(1) by (rule store_wf_inv)
  have "(rt_AfterCell x, rt_Branch x) \<notin> set (branch_history (lineageOf sn s) b c)"
    using branch_history_subset [OF inv] assms(5) by (auto simp: owner_iff_commits [OF inv])
  then have "active_hash sn (logOf s') b c = active_hash sn (logOf s) b c"
    using assms(4) by (auto simp: log' active_hash_transition transition_active_def transition_visible_def)
  moreover have "loadRuntimeConfigLocked s' h = loadRuntimeConfigLocked s h" for h
    by (simp add: loadRuntimeConfigLocked_def AppendFact_configs [OF assms(6)])
  moreover have "known (lineageOf sn s') b \<and> branch_history (lineageOf sn s') b c \<noteq> []"
    using assms(7,8) by (simp add: log' lineage_step_defs branch_history_def)
  ultimately show ?thesis
    using loadActiveRuntime_active [OF assms(1), of c b] loadActiveRuntime_active [OF wf', of c b] assms(2,7,8)
    by (simp add: log')
qed

theorem transition_after_inherited_cell_lost_witness:
  "loadActiveRuntime (demo_store ((demo_log @ [BranchCreated demo_fork]) @ [RuntimeTransitioned (demo_transition ''n'' ''c1'')]))
     ''s'' ''n'' ''c1'' = loadActiveRuntime (demo_store (demo_log @ [BranchCreated demo_fork])) ''s'' ''n'' ''c1''"
proof -
  let ?l = "demo_log @ [BranchCreated demo_fork]"
  have "log_wf ''s'' ?l" "ok_step ''s'' (lineage_of ''s'' ?l) (RuntimeTransitioned (demo_transition ''n'' ''c1''))"
    "known (lineage_of ''s'' ?l) ''n''" "branch_history (lineage_of ''s'' ?l) ''n'' ''c1'' \<noteq> []"
    "rt_AfterCell (demo_transition ''n'' ''c1'') \<noteq> []"
    "owner (lineage_of ''s'' ?l) (rt_AfterCell (demo_transition ''n'' ''c1'')) \<noteq> Some (rt_Branch (demo_transition ''n'' ''c1''))"
    by code_simp+
  moreover have "Suc (length ?l) \<le> MaxInt" by (simp add: demo_log_def demo_cell_def MaxInt_def)
  ultimately show ?thesis
    using transition_after_inherited_cell_lost [of "''s''" "demo_store ?l" "demo_transition ''n'' ''c1''"
      "demo_store (?l @ [RuntimeTransitioned (demo_transition ''n'' ''c1'')])" "''n''" "''c1''"]
    by (simp add: demo_store_wf del: lineage_of_snoc)
qed

subsection \<open>Single queries\<close>

text \<open>
  Branch heads: after any append, the head of a branch is the target of a
  head move on it, and unchanged otherwise; a branch that first appears with
  the fact has the empty head.
\<close>

theorem load_head_after_append:
  assumes "store_ok s" and "AppendFact s f = Inr s'"
  shows "LoadHead s' sn b =
    (case headOf sn b f of
       Some c \<Rightarrow> Inr \<lparr>hr_Session = sn, hr_Branch = b, hr_Head = c\<rparr>
     | None \<Rightarrow>
         if \<not> branchExists s sn b \<and> fst (extractIndexColumns f) = sn \<and> fst (snd (extractIndexColumns f)) = b
         then Inr \<lparr>hr_Session = sn, hr_Branch = b, hr_Head = []\<rparr>
         else LoadHead s sn b)"
proof -
  have ok': "store_ok s'" and log': "logOf s' = logOf s @ [f]"
    using AppendFact_store_ok [OF assms(2,1)] AppendFact_logOf [OF assms(2)] by simp_all
  have ex': "branchExists s' sn b \<longleftrightarrow> branchExists s sn b \<or>
      fst (extractIndexColumns f) = sn \<and> fst (snd (extractIndexColumns f)) = b"
    by (auto simp: branchExists_log [OF ok'] branchExists_log [OF assms(1)] log')
  have col: "headOf sn b f = Some c \<Longrightarrow> fst (extractIndexColumns f) = sn \<and> fst (snd (extractIndexColumns f)) = b" for c
    by (cases f) (auto split: if_splits)
  have none: "\<not> branchExists s sn b \<Longrightarrow> head_of sn (logOf s) b = []"
  proof -
    assume "\<not> branchExists s sn b"
    then have "headOf sn b g = None" if "g \<in> set (logOf s)" for g
      using that by (cases g) (auto simp: branchExists_log [OF assms(1)])
    then show ?thesis by (simp add: head_of_def scan_last_idem)
  qed
  show ?thesis
  proof (cases "branchExists s' sn b")
    case True
    then show ?thesis
      using LoadHead_head_of [OF ok' True] LoadHead_head_of [OF assms(1), of sn b] ex' none
      by (auto simp: log' split: option.splits)
  next
    case False
    then show ?thesis using ex' col by (auto simp: LoadHead_def split: option.splits)
  qed
qed

theorem load_head_after_append_witness:
  "LoadHead (demo_store (demo_log @ [BranchCreated demo_fork])) ''s'' ''n'' =
     Inr \<lparr>hr_Session = ''s'', hr_Branch = ''n'', hr_Head = []\<rparr>"
proof -
  have "store_ok (demo_store demo_log)" using demo_store_wf demo_wf by (auto simp: store_wf_def)
  moreover have "\<not> branchExists (demo_store demo_log) ''s'' ''n''" by code_simp
  ultimately show ?thesis
    using load_head_after_append [of "demo_store demo_log" "BranchCreated demo_fork" _ "''s''" "''n''"]
    by (simp add: demo_fork_def)
qed

text \<open>
  Failures are kept in append order and only by failure facts: appending a
  fact adds at most that failure, at the end, to the list of its session.
\<close>

theorem load_failures_append_order:
  assumes "AppendFact s f = Inr s'" and "LoadFailures s sn = Inr fs"
  shows "LoadFailures s' sn =
    Inr (fs @ (case f of CellFailed x \<Rightarrow> if cf_Session x = sn then [x] else [] | _ \<Rightarrow> []))"
proof -
  have "facts s' = facts s @ [mkEntry f]" using assms(1) by (auto simp: AppendFact_def)
  then show ?thesis using assms(2) by (auto simp: LoadFailures_def collect_append split: Fact.splits)
qed

theorem load_failures_append_order_witness:
  "LoadFailures (demo_store (demo_log @ [BranchCreated demo_fork])) ''s'' = Inr []"
proof -
  have "LoadFailures (demo_store demo_log) ''s'' = Inr []"
    by (simp add: LoadFailures_def demo_store_def demo_log_def demo_cell_def mkEntry_def)
  then show ?thesis
    using load_failures_append_order [of "demo_store demo_log" "BranchCreated demo_fork" _ "''s''" "[]"] by simp
qed

text \<open>
  Runtime descriptors are content addressed: what was put under a hash is
  what is loaded from it, storing it again is accepted, a different descriptor
  under the same hash is refused, and no stored descriptor or fact is lost.
\<close>

theorem runtime_config_content_addressed:
  assumes "PutRuntimeConfig s h config = Inr s'" and "h \<noteq> []"
  shows "LoadRuntimeConfig s' h = Inr config \<and>
    PutRuntimeConfig s' h other = (if other = config then Inr s' else Inl (HashCollision h)) \<and>
    (LoadRuntimeConfig s g = Inr old \<longrightarrow> LoadRuntimeConfig s' g = Inr old) \<and> logOf s' = logOf s"
  using assms PutRuntimeConfig_frame [OF assms(1)]
  by (auto simp: PutRuntimeConfig_def LoadRuntimeConfig_def split: option.splits if_splits)

theorem runtime_config_content_addressed_witness:
  "PutRuntimeConfig (demo_store demo_log) ''h0'' [42] = Inr (demo_store demo_log) \<and>
   LoadRuntimeConfig (demo_store demo_log) ''h0'' = Inr [42] \<and>
   PutRuntimeConfig (demo_store demo_log) ''h0'' [1] = Inl (HashCollision ''h0'')"
proof -
  have "PutRuntimeConfig (demo_store demo_log) ''h0'' [42] = Inr (demo_store demo_log)"
    by (simp add: PutRuntimeConfig_def)
  then show ?thesis
    using runtime_config_content_addressed [of "demo_store demo_log" "''h0''" "[42]" "demo_store demo_log" "[1]"] by simp
qed

text \<open>
  The effect records of a cell are the effects it started, in start order,
  each with the status, result or error of the last fact that settled it;
  an effect with no such fact is pending.
\<close>

theorem cell_effects_in_start_order:
  assumes "store_ok s" and "distinct (map er_Effect (collect (effectStartOf sn c) (logOf s)))"
  shows "LoadCellEffects s sn c = Inr (cell_effects sn (logOf s) c)"
  using assms by (rule LoadCellEffects_effects)

theorem cell_effects_in_start_order_witness:
  "LoadCellEffects (demo_store demo_log) ''s'' ''c1'' = Inr
     [\<lparr>er_Effect = ''e1'', er_Cell = ''c1'', er_FunctionName = ''f'', er_Params = [1],
       er_ReplayPolicy = ''readonly'', er_Status = ''completed'', er_Result = [7], er_ErrorMessage = [],
       er_StartedAt = 1, er_UpdatedAt = 1\<rparr>]"
proof -
  have "store_ok (demo_store demo_log)" using demo_store_wf demo_wf by (auto simp: store_wf_def)
  moreover have "distinct (map er_Effect (collect (effectStartOf ''s'' ''c1'') demo_log))" by code_simp
  moreover have "cell_effects ''s'' demo_log ''c1'' =
     [\<lparr>er_Effect = ''e1'', er_Cell = ''c1'', er_FunctionName = ''f'', er_Params = [1],
       er_ReplayPolicy = ''readonly'', er_Status = ''completed'', er_Result = [7], er_ErrorMessage = [],
       er_StartedAt = 1, er_UpdatedAt = 1\<rparr>]"
    by (simp add: cell_effects_def demo_log_def demo_cell_def EffectRecordPending_def EffectRecordCompleted_def)
  ultimately show ?thesis
    using cell_effects_in_start_order [of "demo_store demo_log" "''s''" "''c1''"] by simp
qed

text \<open>
  The static environment of a cell is the one a live session has tracked on
  the way to it: environment hash and epoch of the last checked environment,
  and the sources committed since that environment last changed.
\<close>

theorem static_env_is_epoch:
  assumes "store_wf sn s" and "known (lineageOf sn s) b" and "c \<noteq> []"
    and "list_all (\<lambda>cb. static_details sn (logOf s) cb \<noteq> None) (branch_history (lineageOf sn s) b c)"
    and "loadManifestAttached s sn = Inr m"
  shows "LoadStaticEnv s sn b c = Some (Inr
    (case epoch_of sn (logOf s) (branch_history (lineageOf sn s) b c) of (h, ts, srcs) \<Rightarrow>
       \<lparr>se_Session = sn, se_Branch = b, se_Head = c, se_Manifest = ma_Manifest m,
        se_TypeScriptEnvHash = h, se_TypeScriptEpochTS = ts, se_CommittedSources = srcs\<rparr>))"
  using loadStaticEnvState_epoch [OF assms(1-3)] assms(4,5)
  by (auto simp: LoadStaticEnv_def list_all_iff split: prod.splits)

theorem static_env_is_epoch_witness:
  "LoadStaticEnv (demo_store demo_log) ''s'' ''b'' ''c2'' = Some (Inr
     \<lparr>se_Session = ''s'', se_Branch = ''b'', se_Head = ''c2'',
      se_Manifest = \<lparr>mf_ID = ''m'', mf_Functions = []\<rparr>,
      se_TypeScriptEnvHash = [], se_TypeScriptEpochTS = [], se_CommittedSources = [''c1'', ''c2'']\<rparr>)"
proof -
  have "known (lineage_of ''s'' demo_log) ''b''"
    "list_all (\<lambda>cb. static_details ''s'' demo_log cb \<noteq> None) (branch_history (lineage_of ''s'' demo_log) ''b'' ''c2'')"
    "epoch_of ''s'' demo_log (branch_history (lineage_of ''s'' demo_log) ''b'' ''c2'') = ([], [], [''c1'', ''c2''])"
    by code_simp+
  moreover have "loadManifestAttached (demo_store demo_log) ''s'' =
      Inr \<lparr>ma_Session = ''s'', ma_ManifestID = ''m'', ma_Manifest = \<lparr>mf_ID = ''m'', mf_Functions = []\<rparr>, ma_At = 0\<rparr>"
    by (simp add: loadManifestAttached_def demo_store_def demo_log_def mkEntry_def)
  ultimately show ?thesis
    using static_env_is_epoch [of "''s''" "demo_store demo_log" "''b''" "''c2''"]
    by (simp add: demo_store_wf demo_wf)
qed

end
