(* ===== verification/Sqlite_Store.thy ===== *)
theory Sqlite_Store
  imports Mem_Store
begin

text \<open>
  The SQLite store of \<open>src/store/sqlite/sqlite.go\<close>. The database is the two tables
  of its schema; a query is the selection its SQL text describes. The driver
  and the JSON codec are parameters kept in the store: \<open>sq_fail\<close> gives the error
  of the driver at a call site (and at a row of its cursor) between two writes,
  \<open>sq_json\<close> encodes facts as payloads. Error texts are those of the code.

  The connection pool has one connection (\<open>SetMaxOpenConns(1)\<close>). A query made
  while the cursor of another is open waits for the connection forever: it
  does not return (\<open>None\<close>).

  The extraction of the index columns and the visibility of runtime transitions are the same code as in the in-memory
  store, with row identifiers for log positions; its definitions are shared.
\<close>

subsection \<open>Tables, driver and codec\<close>

record row =
  rw_id :: nat
  rw_session :: SessionID
  rw_branch :: BranchID
  rw_cell :: CellID
  rw_type :: string
  rw_payload :: string

text \<open>
  \<open>js_unmarshal T\<close> decodes a payload into the struct of fact type \<open>T\<close>. Texts are
  taken to be valid UTF-8, which \<open>encoding/json\<close> keeps as it is.
\<close>

record jsonCodec =
  js_marshal :: "Fact \<Rightarrow> string + string"
  js_unmarshal :: "string \<Rightarrow> string \<Rightarrow> string + Fact"

record sqlStore =
  sq_rows :: "row list"
  sq_seq :: nat
  sq_configs :: "string \<rightharpoonup> bytes"
  sq_json :: jsonCodec
  sq_fail :: "nat \<Rightarrow> string \<Rightarrow> nat \<Rightarrow> string option"
  sq_writes :: nat

definition sqlErr :: "sqlStore \<Rightarrow> string \<Rightarrow> nat \<Rightarrow> string option" where
  "sqlErr s site i = sq_fail s (sq_writes s) site i"

definition wroteTo :: "sqlStore \<Rightarrow> sqlStore" where
  "wroteTo s = s\<lparr>sq_writes := sq_writes s + 1\<rparr>"

definition driverError :: "string \<Rightarrow> string \<Rightarrow> StoreError" where
  "driverError site e = DriverError (''sqlite: '' @ site @ '': '' @ e)"

text \<open>\<open>ORDER BY id ASC\<close> of the rows that satisfy the \<open>WHERE\<close> clause; \<open>DESC\<close> is its reverse.\<close>

definition selectAsc :: "sqlStore \<Rightarrow> (row \<Rightarrow> bool) \<Rightarrow> row list" where
  "selectAsc s p = filter p (sort_key rw_id (sq_rows s))"

definition selectDesc :: "sqlStore \<Rightarrow> (row \<Rightarrow> bool) \<Rightarrow> row list" where
  "selectDesc s p = rev (selectAsc s p)"

text \<open>\<open>QueryRowContext\<close> and \<open>Scan\<close> with \<open>LIMIT 1\<close>: \<open>Inr None\<close> is \<open>sql.ErrNoRows\<close>.\<close>

definition queryRow :: "sqlStore \<Rightarrow> string \<Rightarrow> row list \<Rightarrow> StoreError + row option" where
  "queryRow s name rows =
     (case sqlErr s (name @ '' scan'') 0 of
        Some e \<Rightarrow> Inl (driverError (name @ '' scan'') e)
      | None \<Rightarrow> Inr (case rows of [] \<Rightarrow> None | r # _ \<Rightarrow> Some r))"

text \<open>
  The loop over a cursor: an error of the query, of the scan of a row or of the
  cursor ends it; \<open>body\<close> returns the new value and whether the loop breaks.
\<close>

fun forRows ::
  "sqlStore \<Rightarrow> string \<Rightarrow> (row \<Rightarrow> 'a \<Rightarrow> StoreError + 'a \<times> bool) \<Rightarrow> nat \<Rightarrow> row list \<Rightarrow> 'a \<Rightarrow> StoreError + 'a" where
  "forRows s name body i [] acc = Inr acc"
| "forRows s name body i (r # rs) acc =
     (case sqlErr s (name @ '' scan'') i of
        Some e \<Rightarrow> Inl (driverError (name @ '' scan'') e)
      | None \<Rightarrow> rbind (body r acc) (\<lambda>(acc, stop).
          if stop then Inr acc else forRows s name body (i + 1) rs acc))"

definition queryRows ::
  "sqlStore \<Rightarrow> string \<Rightarrow> row list \<Rightarrow> (row \<Rightarrow> 'a \<Rightarrow> StoreError + 'a \<times> bool) \<Rightarrow> 'a \<Rightarrow> StoreError + 'a" where
  "queryRows s name rows body acc =
     (case sqlErr s (name @ '' query'') 0 of
        Some e \<Rightarrow> Inl (driverError (name @ '' query'') e)
      | None \<Rightarrow> rbind (forRows s name body 0 rows acc) (\<lambda>acc.
          case sqlErr s (name @ '' rows'') 0 of
            Some e \<Rightarrow> Inl (driverError (name @ '' rows'') e)
          | None \<Rightarrow> Inr acc))"

text \<open>
  Decoding a payload into the struct type \<open>T\<close>, of which \<open>proj\<close> is the projection
  from facts. A decoder gives a value of the type it was asked for, so the
  last case does not arise.
\<close>

definition decodeAs :: "sqlStore \<Rightarrow> string \<Rightarrow> (Fact \<Rightarrow> 'a option) \<Rightarrow> string \<Rightarrow> row \<Rightarrow> StoreError + 'a" where
  "decodeAs s T proj site r =
     (case js_unmarshal (sq_json s) T (rw_payload r) of
        Inl e \<Rightarrow> Inl (driverError site e)
      | Inr f \<Rightarrow> (case proj f of Some x \<Rightarrow> Inr x | None \<Rightarrow> Inl (driverError site T)))"

fun asSessionStarted where "asSessionStarted (SessionStarted x) = Some x" | "asSessionStarted _ = None"
fun asManifestAttached where "asManifestAttached (ManifestAttached x) = Some x" | "asManifestAttached _ = None"
fun asRuntimeAttached where "asRuntimeAttached (RuntimeAttached x) = Some x" | "asRuntimeAttached _ = None"
fun asRuntimeTransitioned where
  "asRuntimeTransitioned (RuntimeTransitioned x) = Some x" | "asRuntimeTransitioned _ = None"
fun asCellChecked where "asCellChecked (CellChecked x) = Some x" | "asCellChecked _ = None"
fun asCellEvaluated where "asCellEvaluated (CellEvaluated x) = Some x" | "asCellEvaluated _ = None"
fun asCellFailed where "asCellFailed (CellFailed x) = Some x" | "asCellFailed _ = None"
fun asEffectStarted where "asEffectStarted (EffectStarted x) = Some x" | "asEffectStarted _ = None"
fun asEffectCompleted where "asEffectCompleted (EffectCompleted x) = Some x" | "asEffectCompleted _ = None"
fun asEffectFailed where "asEffectFailed (EffectFailed x) = Some x" | "asEffectFailed _ = None"
fun asHeadMoved where "asHeadMoved (HeadMoved x) = Some x" | "asHeadMoved _ = None"
fun asBranchCreated where "asBranchCreated (BranchCreated x) = Some x" | "asBranchCreated _ = None"
fun asRestoreCompleted where "asRestoreCompleted (RestoreCompleted x) = Some x" | "asRestoreCompleted _ = None"

subsection \<open>Opening\<close>

definition pragmas :: "string list" where
  "pragmas = [''PRAGMA busy_timeout = 5000;'', ''PRAGMA journal_mode = WAL;'', ''PRAGMA synchronous = NORMAL;'',
     ''PRAGMA foreign_keys = ON;'']"

fun configure :: "sqlStore \<Rightarrow> string list \<Rightarrow> StoreError option" where
  "configure s [] = None"
| "configure s (p # ps) =
     (case sqlErr s p 0 of
        Some e \<Rightarrow> Some (driverError (''configure pragma '' @ quote p) e)
      | None \<Rightarrow> configure s ps)"

definition migrate :: "sqlStore \<Rightarrow> StoreError option" where
  "migrate s = map_option (driverError ''migrate schema'') (sqlErr s ''migrate schema'' 0)"

text \<open>Opening a database that holds the tables \<open>s\<close>: an empty database has empty tables after the migration.\<close>

definition Open_sql :: "string \<Rightarrow> sqlStore \<Rightarrow> StoreError + sqlStore" where
  "Open_sql dsn s =
     (case sqlErr s ''open'' 0 of
        Some e \<Rightarrow> Inl (driverError (''open '' @ quote dsn) e)
      | None \<Rightarrow>
          (case configure s pragmas of
             Some e \<Rightarrow> Inl e
           | None \<Rightarrow> (case migrate s of Some e \<Rightarrow> Inl e | None \<Rightarrow> Inr s)))"

definition LatestSessionID :: "sqlStore \<Rightarrow> StoreError + SessionID" where
  "LatestSessionID s =
     rbind (queryRow s ''LatestSessionID'' (selectDesc s (\<lambda>r. rw_type r = ''SessionStarted''))) (\<lambda>row.
       case row of
         None \<Rightarrow> Inr []
       | Some r \<Rightarrow> rbind (decodeAs s ''SessionStarted'' asSessionStarted ''LatestSessionID decode'' r) (\<lambda>f.
           Inr (ss_Session f)))"

subsection \<open>Writes\<close>

text \<open>\<open>INTEGER PRIMARY KEY AUTOINCREMENT\<close> gives the next identifier; a failed insert uses none.\<close>

definition AppendFact_sql :: "sqlStore \<Rightarrow> Fact \<Rightarrow> StoreError option \<times> sqlStore" where
  "AppendFact_sql s fct =
     (case js_marshal (sq_json s) fct of
        Inl e \<Rightarrow> (Some (driverError (''marshal fact '' @ quote (FactType fct)) e), s)
      | Inr payload \<Rightarrow>
          (case extractIndexColumns fct of (session, branch, cell) \<Rightarrow>
             (case sqlErr s ''append fact'' 0 of
                Some e \<Rightarrow> (Some (driverError (''append fact '' @ quote (FactType fct)) e), wroteTo s)
              | None \<Rightarrow> (None, wroteTo (s\<lparr>sq_seq := sq_seq s + 1,
                  sq_rows := sq_rows s @ [\<lparr>rw_id = sq_seq s + 1, rw_session = session, rw_branch = branch,
                    rw_cell = cell, rw_type = FactType fct, rw_payload = payload\<rparr>]\<rparr>)))))"

definition LoadRuntimeConfig_sql :: "sqlStore \<Rightarrow> string \<Rightarrow> StoreError + bytes" where
  "LoadRuntimeConfig_sql s hash =
     (if hash = [] then Inr []
      else case sqlErr s ''LoadRuntimeConfig scan'' 0 of
             Some e \<Rightarrow> Inl (driverError ''LoadRuntimeConfig scan'' e)
           | None \<Rightarrow>
               (case sq_configs s hash of
                  None \<Rightarrow> Inl (DriverError (''sqlite: LoadRuntimeConfig: runtime hash '' @ quote hash @ '' not found''))
                | Some config \<Rightarrow> Inr config))"

text \<open>
  The insert does nothing on a conflict; what is stored is then read back and
  compared. An error of the read leaves the inserted row.
\<close>

definition PutRuntimeConfig_sql :: "sqlStore \<Rightarrow> string \<Rightarrow> bytes \<Rightarrow> StoreError option \<times> sqlStore" where
  "PutRuntimeConfig_sql s hash config =
     (case sqlErr s ''PutRuntimeConfig'' 0 of
        Some e \<Rightarrow> (Some (driverError ''PutRuntimeConfig'' e), wroteTo s)
      | None \<Rightarrow>
          (let s = (if sq_configs s hash = None then s\<lparr>sq_configs := (sq_configs s)(hash \<mapsto> config)\<rparr> else s);
               s = wroteTo s
           in case LoadRuntimeConfig_sql s hash of
                Inl e \<Rightarrow> (Some e, s)
              | Inr stored \<Rightarrow>
                  if stored \<noteq> config
                  then (Some (DriverError (''sqlite: PutRuntimeConfig: hash collision for '' @ quote hash)), s)
                  else (None, s)))"

subsection \<open>Branch heads and single-fact lookups\<close>

definition branchExists_sql :: "sqlStore \<Rightarrow> SessionID \<Rightarrow> BranchID \<Rightarrow> StoreError + bool" where
  "branchExists_sql s session branch =
     rbind (queryRow s ''branchExists'' (selectAsc s (\<lambda>r. rw_session r = session \<and> rw_branch r = branch)))
       (\<lambda>row. Inr (row \<noteq> None))"

definition LoadHead_sql :: "sqlStore \<Rightarrow> SessionID \<Rightarrow> BranchID \<Rightarrow> StoreError + HeadRecord" where
  "LoadHead_sql s session branch =
     rbind (branchExists_sql s session branch) (\<lambda>exists.
       if \<not> exists
       then Inl (DriverError (''sqlite: LoadHead: session '' @ quote session @ '' branch '' @ quote branch @ '' not found''))
       else rbind (queryRow s ''LoadHead'' (selectDesc s (\<lambda>r. rw_session r = session \<and> rw_branch r = branch \<and>
                     rw_type r = ''HeadMoved''))) (\<lambda>row.
         case row of
           None \<Rightarrow> Inr \<lparr>hr_Session = session, hr_Branch = branch, hr_Head = []\<rparr>
         | Some r \<Rightarrow> rbind (decodeAs s ''HeadMoved'' asHeadMoved ''LoadHead decode'' r) (\<lambda>f.
             Inr \<lparr>hr_Session = hm_Session f, hr_Branch = hm_Branch f, hr_Head = hm_Next f\<rparr>)))"

definition LoadFailures_sql :: "sqlStore \<Rightarrow> SessionID \<Rightarrow> StoreError + CellFailed list" where
  "LoadFailures_sql s session =
     queryRows s ''LoadFailures'' (selectAsc s (\<lambda>r. rw_session r = session \<and> rw_type r = ''CellFailed''))
       (\<lambda>r failures. rbind (decodeAs s ''CellFailed'' asCellFailed ''LoadFailures decode'' r) (\<lambda>f.
          Inr (failures @ [f], False))) []"

definition loadManifestAttached_sql :: "sqlStore \<Rightarrow> SessionID \<Rightarrow> StoreError + ManifestAttached" where
  "loadManifestAttached_sql s session =
     rbind (queryRow s ''loadManifestAttached'' (selectAsc s (\<lambda>r. rw_session r = session \<and> rw_type r = ''ManifestAttached'')))
       (\<lambda>row. case row of
          None \<Rightarrow> Inl (DriverError (''sqlite: loadManifestAttached: no manifest for session '' @ quote session))
        | Some r \<Rightarrow> decodeAs s ''ManifestAttached'' asManifestAttached ''loadManifestAttached decode'' r)"

definition loadSessionStarted_sql :: "sqlStore \<Rightarrow> SessionID \<Rightarrow> StoreError + SessionStarted" where
  "loadSessionStarted_sql s session =
     rbind (queryRow s ''loadSessionStarted'' (selectAsc s (\<lambda>r. rw_session r = session \<and> rw_type r = ''SessionStarted'')))
       (\<lambda>row. case row of
          None \<Rightarrow> Inl (DriverError (''sqlite: loadSessionStarted: no session '' @ quote session))
        | Some r \<Rightarrow> decodeAs s ''SessionStarted'' asSessionStarted ''loadSessionStarted decode'' r)"

definition loadRuntimeAttached_sql :: "sqlStore \<Rightarrow> SessionID \<Rightarrow> StoreError + RuntimeAttached" where
  "loadRuntimeAttached_sql s session =
     rbind (queryRow s ''loadRuntimeAttached'' (selectAsc s (\<lambda>r. rw_session r = session \<and> rw_type r = ''RuntimeAttached'')))
       (\<lambda>row. case row of
          None \<Rightarrow> Inr \<lparr>ra_Session = [], ra_RuntimeHash = [], ra_At = 0\<rparr>
        | Some r \<Rightarrow> decodeAs s ''RuntimeAttached'' asRuntimeAttached ''loadRuntimeAttached decode'' r)"

definition loadManifest_sql :: "sqlStore \<Rightarrow> SessionID \<Rightarrow> StoreError + Manifest" where
  "loadManifest_sql s session = rbind (loadManifestAttached_sql s session) (\<lambda>f. Inr (ma_Manifest f))"

text \<open>The branch is read from its index column.\<close>

definition branchForCell_sql :: "sqlStore \<Rightarrow> SessionID \<Rightarrow> CellID \<Rightarrow> StoreError + BranchID" where
  "branchForCell_sql s session cell =
     rbind (queryRow s ''branchForCell'' (selectAsc s (\<lambda>r. rw_session r = session \<and> rw_cell r = cell \<and> rw_type r = ''CellCommitted'')))
       (\<lambda>row. case row of
          None \<Rightarrow> Inl (DriverError (''sqlite: branchForCell: cell '' @ quote cell @ '' not committed in session '' @ quote session))
        | Some r \<Rightarrow> Inr (rw_branch r))"

definition branchParentRecord_sql ::
  "sqlStore \<Rightarrow> SessionID \<Rightarrow> BranchID \<Rightarrow> StoreError + (BranchID \<times> CellID \<times> nat) option" where
  "branchParentRecord_sql s session branch =
     rbind (queryRow s ''branchParent'' (selectAsc s (\<lambda>r. rw_session r = session \<and> rw_branch r = branch \<and> rw_type r = ''BranchCreated'')))
       (\<lambda>row. case row of
          None \<Rightarrow> Inr None
        | Some r \<Rightarrow> rbind (decodeAs s ''BranchCreated'' asBranchCreated ''branchParent decode'' r) (\<lambda>f.
            rbind (branchForCell_sql s session (bc_ParentCell f)) (\<lambda>parentBranch.
              Inr (Some (parentBranch, bc_ParentCell f, rw_id r)))))"

definition branchParent_sql :: "sqlStore \<Rightarrow> SessionID \<Rightarrow> BranchID \<Rightarrow> StoreError + (BranchID \<times> CellID) option" where
  "branchParent_sql s session branch =
     rbind (branchParentRecord_sql s session branch)
       (\<lambda>r. Inr (map_option (\<lambda>(parent, forkCell, _). (parent, forkCell)) r))"

definition committedCellsUpTo_sql ::
  "sqlStore \<Rightarrow> SessionID \<Rightarrow> BranchID \<Rightarrow> CellID \<Rightarrow> StoreError + CellID list" where
  "committedCellsUpTo_sql s session branch stopCell =
     queryRows s ''committedCellsUpTo''
       (selectAsc s (\<lambda>r. rw_session r = session \<and> rw_branch r = branch \<and> rw_type r = ''CellCommitted''))
       (\<lambda>r cellIDs. Inr (cellIDs @ [rw_cell r], rw_cell r = stopCell)) []"

subsection \<open>The ancestor chain\<close>

partial_function (option) ancestorStack_sql ::
  "sqlStore \<Rightarrow> SessionID \<Rightarrow> BranchID \<Rightarrow> CellID \<Rightarrow> segment list \<Rightarrow> (StoreError, segment list) comp" where
  "ancestorStack_sql s session cur curStop stack =
     (case branchParent_sql s session cur of
        Inl lerr \<Rightarrow> Some (Inl lerr)
      | Inr None \<Rightarrow>
          Some (Inr (stack @ [\<lparr>sg_branch = cur, sg_stopAt = curStop, sg_forkCell = []\<rparr>]))
      | Inr (Some (parent, forkCell)) \<Rightarrow>
          ancestorStack_sql s session parent forkCell
            (stack @ [\<lparr>sg_branch = cur, sg_stopAt = curStop, sg_forkCell = forkCell\<rparr>]))"

definition collectAncestorChain_sql ::
  "sqlStore \<Rightarrow> SessionID \<Rightarrow> BranchID \<Rightarrow> CellID \<Rightarrow> (StoreError, (CellID \<times> BranchID) list) comp" where
  "collectAncestorChain_sql s session branch stopCell =
     cbind (ancestorStack_sql s session branch stopCell []) (\<lambda>stack.
       Some (rbind (rmap (\<lambda>seg. rbind (committedCellsUpTo_sql s session (sg_branch seg) (sg_stopAt seg)) (\<lambda>segCells.
                Inr (map (\<lambda>c. (c, sg_branch seg)) segCells))) (rev stack))
         (\<lambda>cells. Inr (concat cells))))"

subsection \<open>Cell sources and the static environment\<close>

text \<open>The most recent \<open>CellChecked\<close> row of a cell.\<close>

definition checkedRows :: "sqlStore \<Rightarrow> SessionID \<Rightarrow> BranchID \<Rightarrow> CellID \<Rightarrow> string \<Rightarrow> row list" where
  "checkedRows s session branch cell T = selectDesc s (\<lambda>r. rw_session r = session \<and> rw_branch r = branch \<and>
     rw_cell r = cell \<and> rw_type r = T)"

definition loadCellSource_sql :: "sqlStore \<Rightarrow> SessionID \<Rightarrow> BranchID \<Rightarrow> CellID \<Rightarrow> StoreError + string" where
  "loadCellSource_sql s session branch cell =
     rbind (queryRow s ''loadCellSource'' (checkedRows s session branch cell ''CellChecked'')) (\<lambda>row.
       case row of
         None \<Rightarrow> Inl (DriverError (''sqlite: loadCellSource: no CellChecked for cell '' @ quote cell))
       | Some r \<Rightarrow> rbind (decodeAs s ''CellChecked'' asCellChecked ''loadCellSource decode'' r) (\<lambda>f. Inr (ck_Source f)))"

definition loadCellStaticDetails_sql ::
  "sqlStore \<Rightarrow> SessionID \<Rightarrow> BranchID \<Rightarrow> CellID \<Rightarrow> StoreError + string \<times> string \<times> string" where
  "loadCellStaticDetails_sql s session branch cell =
     rbind (queryRow s ''loadCellStaticDetails'' (checkedRows s session branch cell ''CellChecked'')) (\<lambda>row.
       case row of
         None \<Rightarrow> Inl (DriverError (''sqlite: loadCellStaticDetails: no CellChecked for cell '' @ quote cell))
       | Some r \<Rightarrow> rbind (decodeAs s ''CellChecked'' asCellChecked ''loadCellStaticDetails decode'' r) (\<lambda>f.
           Inr (ck_Source f, ck_TypeScriptEnvHash f, ck_TypeScriptEpochTS f)))"

definition loadCommittedSources_sql ::
  "sqlStore \<Rightarrow> SessionID \<Rightarrow> BranchID \<Rightarrow> CellID \<Rightarrow> (StoreError, string list) comp" where
  "loadCommittedSources_sql s session branch stopCell =
     cbind (collectAncestorChain_sql s session branch stopCell) (\<lambda>chain.
       Some (rmap (\<lambda>(cellID, b). loadCellSource_sql s session b cellID) chain))"

fun staticEnvLoop_sql ::
  "sqlStore \<Rightarrow> SessionID \<Rightarrow> nat \<Rightarrow> string \<Rightarrow> string \<Rightarrow> nat \<Rightarrow> string list \<Rightarrow> (CellID \<times> BranchID) list \<Rightarrow>
   StoreError + string \<times> string \<times> nat \<times> string list" where
  "staticEnvLoop_sql s session i envHash epochTS start sources [] =
     Inr (envHash, epochTS, start, sources)"
| "staticEnvLoop_sql s session i envHash epochTS start sources ((cellID, b) # chain) =
     rbind (loadCellStaticDetails_sql s session b cellID) (\<lambda>(src, cellEnvHash, cellEpochTS).
       if cellEnvHash = []
       then staticEnvLoop_sql s session (i + 1) envHash epochTS start (sources @ [src]) chain
       else if envHash = []
       then staticEnvLoop_sql s session (i + 1) cellEnvHash cellEpochTS start (sources @ [src]) chain
       else if cellEnvHash \<noteq> envHash
       then staticEnvLoop_sql s session (i + 1) cellEnvHash cellEpochTS i (sources @ [src]) chain
       else staticEnvLoop_sql s session (i + 1) envHash epochTS start (sources @ [src]) chain)"

definition loadStaticEnvState_sql ::
  "sqlStore \<Rightarrow> SessionID \<Rightarrow> BranchID \<Rightarrow> CellID \<Rightarrow> (StoreError, string \<times> string \<times> string list) comp" where
  "loadStaticEnvState_sql s session branch stopCell =
     (if stopCell = [] then Some (Inr ([], [], []))
      else cbind (collectAncestorChain_sql s session branch stopCell) (\<lambda>chain.
        Some (rbind (staticEnvLoop_sql s session 0 [] [] 0 [] chain)
          (\<lambda>(envHash, epochTS, segmentStart, sources).
             Inr (envHash, epochTS, if segmentStart > 0 then drop segmentStart sources else sources)))))"

definition LoadStaticEnv_sql ::
  "sqlStore \<Rightarrow> SessionID \<Rightarrow> BranchID \<Rightarrow> CellID \<Rightarrow> (StoreError, StaticEnvSnapshot) comp" where
  "LoadStaticEnv_sql s session branch head =
     cbind (Some (loadManifestAttached_sql s session)) (\<lambda>attached.
       cbind (loadStaticEnvState_sql s session branch head) (\<lambda>(envHash, epochTS, sources).
         Some (Inr \<lparr>se_Session = session, se_Branch = branch, se_Head = head,
                    se_Manifest = ma_Manifest attached, se_TypeScriptEnvHash = envHash,
                    se_TypeScriptEpochTS = epochTS, se_CommittedSources = sources\<rparr>)))"

subsection \<open>Runtime visibility\<close>

definition loadRuntimeTransitionRecords :: "sqlStore \<Rightarrow> SessionID \<Rightarrow> StoreError + runtimeTransitionRecord list" where
  "loadRuntimeTransitionRecords s session =
     queryRows s ''loadRuntimeTransitionFacts''
       (selectAsc s (\<lambda>r. rw_session r = session \<and> rw_type r = ''RuntimeTransitioned''))
       (\<lambda>r transitions. rbind (decodeAs s ''RuntimeTransitioned'' asRuntimeTransitioned ''loadRuntimeTransitionFacts decode'' r)
          (\<lambda>f. Inr (transitions @ [\<lparr>tt_order = rw_id r, tt_fact = f\<rparr>], False))) []"

partial_function (option) cutoffWalk_sql ::
  "sqlStore \<Rightarrow> SessionID \<Rightarrow> BranchID \<Rightarrow> nat \<Rightarrow> runtimeVisibility \<Rightarrow> (StoreError, runtimeVisibility) comp" where
  "cutoffWalk_sql s session currentBranch currentCutoff scopes =
     (case branchParentRecord_sql s session currentBranch of
        Inl err \<Rightarrow> Some (Inl err)
      | Inr None \<Rightarrow>
          Some (Inr (scopes(currentBranch \<mapsto>
            (let scope = getScope scopes currentBranch in
             if sc_maxOrder scope = 0 \<or> sc_maxOrder scope > currentCutoff
             then scope\<lparr>sc_maxOrder := currentCutoff\<rparr> else scope))))
      | Inr (Some (parent, forkCell, branchCreatedID)) \<Rightarrow>
          cutoffWalk_sql s session parent branchCreatedID (scopes(currentBranch \<mapsto>
            (let scope = getScope scopes currentBranch in
             if sc_maxOrder scope = 0 \<or> sc_maxOrder scope > currentCutoff
             then scope\<lparr>sc_maxOrder := currentCutoff\<rparr> else scope))))"

definition buildRuntimeVisibility_sql ::
  "sqlStore \<Rightarrow> SessionID \<Rightarrow> BranchID \<Rightarrow> CellID \<Rightarrow> (StoreError, runtimeVisibility) comp" where
  "buildRuntimeVisibility_sql s session branch stopCell =
     cbind (collectAncestorChain_sql s session branch stopCell) (\<lambda>chain.
       cbind (Some (case chain of
                (_, b) # _ \<Rightarrow> Inr b
              | [] \<Rightarrow> rbind (loadSessionStarted_sql s session) (\<lambda>st. Inr (ss_RootBranch st)))) (\<lambda>rootBranch.
         let scopes = chainScopes Map.empty chain;
             rootScope = getScope scopes rootBranch;
             rootScope = (if sc_maxOrder rootScope = 0
                          then rootScope\<lparr>sc_maxOrder := MaxInt\<rparr> else rootScope)
         in cutoffWalk_sql s session branch MaxInt
              (scopes(rootBranch \<mapsto> rootScope\<lparr>sc_allowEmptyBoundary := True\<rparr>))))"

definition loadActiveRuntime_sql ::
  "sqlStore \<Rightarrow> SessionID \<Rightarrow> BranchID \<Rightarrow> CellID \<Rightarrow> (StoreError, string \<times> bytes) comp" where
  "loadActiveRuntime_sql s session branch head =
     cbind (Some (loadRuntimeAttached_sql s session)) (\<lambda>runtime.
       cbind
         (if head = []
          then cbind (Some (loadRuntimeTransitionRecords s session)) (\<lambda>transitions.
                 Some (Inr (the (scan_last
                   (\<lambda>t. if rt_Branch (tt_fact t) = branch \<and> rt_AfterCell (tt_fact t) = []
                        then Some (rt_RuntimeHash (tt_fact t)) else None)
                   (Some (ra_RuntimeHash runtime)) transitions))))
          else cbind (buildRuntimeVisibility_sql s session branch head) (\<lambda>visibility.
               cbind (Some (loadRuntimeTransitionRecords s session)) (\<lambda>records.
                 Some (Inr (the (scan_last
                   (\<lambda>t. if visible visibility t then Some (rt_RuntimeHash (tt_fact t)) else None)
                   (Some (ra_RuntimeHash runtime)) records))))))
         (\<lambda>currentHash.
           Some (rbind (LoadRuntimeConfig_sql s currentHash) (\<lambda>config. Inr (currentHash, config)))))"

definition buildRuntimeTransitions_sql ::
  "sqlStore \<Rightarrow> SessionID \<Rightarrow> BranchID \<Rightarrow> CellID \<Rightarrow> (StoreError, RuntimeTransition list) comp" where
  "buildRuntimeTransitions_sql s session branch stopCell =
     cbind (buildRuntimeVisibility_sql s session branch stopCell) (\<lambda>visibility.
     cbind (Some (loadRuntimeTransitionRecords s session)) (\<lambda>records.
       Some (rmap
         (\<lambda>t. rbind (LoadRuntimeConfig_sql s (rt_RuntimeHash (tt_fact t))) (\<lambda>config.
                Inr \<lparr>tr_AfterCell = rt_AfterCell (tt_fact t), tr_RuntimeHash = rt_RuntimeHash (tt_fact t),
                     tr_RuntimeConfig = config\<rparr>))
         (filter (visible visibility) records))))"

subsection \<open>Replay plans\<close>

definition loadCellDetails_sql ::
  "sqlStore \<Rightarrow> SessionID \<Rightarrow> BranchID \<Rightarrow> CellID \<Rightarrow> StoreError + CellLanguage \<times> string \<times> string \<times> EffectID list" where
  "loadCellDetails_sql s session branch cell =
     rbind (queryRow s ''loadCellDetails CellChecked'' (checkedRows s session branch cell ''CellChecked'')) (\<lambda>row.
     rbind (case row of
              None \<Rightarrow> Inr ([], [], [])
            | Some r \<Rightarrow> rbind (decodeAs s ''CellChecked'' asCellChecked ''loadCellDetails CellChecked decode'' r) (\<lambda>f.
                Inr (ck_Language f, ck_Source f, ck_EmittedJS f))) (\<lambda>(language, src, emittedJS).
     rbind (queryRow s ''loadCellDetails CellEvaluated'' (checkedRows s session branch cell ''CellEvaluated'')) (\<lambda>row2.
     rbind (case row2 of
              None \<Rightarrow> Inr []
            | Some r \<Rightarrow> rbind (decodeAs s ''CellEvaluated'' asCellEvaluated ''loadCellDetails CellEvaluated decode'' r) (\<lambda>f.
                Inr (ce_LinkedEffects f))) (\<lambda>effects.
       Inr (language, src, emittedJS, effects)))))"

definition buildReplaySteps_sql ::
  "sqlStore \<Rightarrow> SessionID \<Rightarrow> BranchID \<Rightarrow> CellID \<Rightarrow> (StoreError, ReplayStep list) comp" where
  "buildReplaySteps_sql s session branch stopCell =
     (case collectAncestorChain_sql s session branch stopCell of
        None \<Rightarrow> None
      | Some (Inl err) \<Rightarrow> Some (Inl (Wrapped ''sqlite: buildReplaySteps'' err))
      | Some (Inr chain) \<Rightarrow>
          Some (rmap (\<lambda>(cell, b). rbind (loadCellDetails_sql s session b cell) (\<lambda>(language, src, emitted, effects).
              Inr \<lparr>st_Cell = cell, st_Language = language, st_Source = src,
                   st_EmittedJS = emitted, st_Effects = effects\<rparr>)) chain))"

text \<open>The completion order is the position among the completions of the session.\<close>

definition loadReplayDecision_sql :: "sqlStore \<Rightarrow> SessionID \<Rightarrow> EffectID \<Rightarrow> StoreError + ReplayDecision" where
  "loadReplayDecision_sql s session effectID =
     rbind (queryRows s ''loadReplayDecision started''
         (selectAsc s (\<lambda>r. rw_session r = session \<and> rw_type r = ''EffectStarted''))
         (\<lambda>r policy. rbind (decodeAs s ''EffectStarted'' asEffectStarted ''loadReplayDecision started decode'' r) (\<lambda>f.
            if es_Effect f = effectID then Inr (Some (es_ReplayPolicy f), True) else Inr (policy, False))) None) (\<lambda>policy.
     case policy of
       None \<Rightarrow> Inl (DriverError (''sqlite: loadReplayDecision: EffectStarted not found for effect '' @ quote effectID))
     | Some policy \<Rightarrow>
     rbind (queryRows s ''loadReplayDecision completed''
         (selectAsc s (\<lambda>r. rw_session r = session \<and> rw_type r = ''EffectCompleted''))
         (\<lambda>r (result, order, rowIndex). rbind (decodeAs s ''EffectCompleted'' asEffectCompleted ''loadReplayDecision completed decode'' r) (\<lambda>f.
            if ec_Effect f = effectID then Inr ((ec_Result f, rowIndex + 1, rowIndex + 1), True)
            else Inr ((result, order, rowIndex + 1), False))) ([], 0, 0)) (\<lambda>(recordedResult, completionOrder, _).
       Inr \<lparr>rd_Effect = effectID, rd_Policy = policy, rd_RecordedResult = recordedResult,
            rd_CompletionOrder = completionOrder, rd_Rerun = False\<rparr>))"

fun decisionsForEffects_sql ::
  "sqlStore \<Rightarrow> SessionID \<Rightarrow> (EffectID \<rightharpoonup> ReplayDecision) \<Rightarrow> EffectID list \<Rightarrow>
   StoreError + (EffectID \<rightharpoonup> ReplayDecision)" where
  "decisionsForEffects_sql s session decisions [] = Inr decisions"
| "decisionsForEffects_sql s session decisions (effectID # rest) =
     (if decisions effectID \<noteq> None then decisionsForEffects_sql s session decisions rest
      else rbind (loadReplayDecision_sql s session effectID) (\<lambda>dec.
             decisionsForEffects_sql s session (decisions(effectID \<mapsto> dec)) rest))"

fun decisionsForSteps_sql ::
  "sqlStore \<Rightarrow> SessionID \<Rightarrow> (EffectID \<rightharpoonup> ReplayDecision) \<Rightarrow> ReplayStep list \<Rightarrow>
   StoreError + (EffectID \<rightharpoonup> ReplayDecision)" where
  "decisionsForSteps_sql s session decisions [] = Inr decisions"
| "decisionsForSteps_sql s session decisions (step # steps) =
     rbind (decisionsForEffects_sql s session decisions (st_Effects step)) (\<lambda>decisions.
       decisionsForSteps_sql s session decisions steps)"

definition buildReplayDecisions_sql ::
  "sqlStore \<Rightarrow> SessionID \<Rightarrow> ReplayStep list \<Rightarrow> StoreError + (EffectID \<rightharpoonup> ReplayDecision)" where
  "buildReplayDecisions_sql s session steps = decisionsForSteps_sql s session Map.empty steps"

definition LoadReplayPlan_sql :: "sqlStore \<Rightarrow> SessionID \<Rightarrow> CellID \<Rightarrow> (StoreError, ReplayPlan) comp" where
  "LoadReplayPlan_sql s session targetCell =
     cbind (Some (branchForCell_sql s session targetCell)) (\<lambda>branch.
     cbind (buildReplaySteps_sql s session branch targetCell) (\<lambda>steps.
     cbind (Some (buildReplayDecisions_sql s session steps)) (\<lambda>decisions.
     cbind (Some (loadRuntimeAttached_sql s session)) (\<lambda>runtime.
     cbind (Some (LoadRuntimeConfig_sql s (ra_RuntimeHash runtime))) (\<lambda>config.
     cbind (buildRuntimeTransitions_sql s session branch targetCell) (\<lambda>transitions.
       Some (Inr \<lparr>pl_Session = session, pl_Branch = branch, pl_TargetCell = targetCell,
                  pl_RuntimeHash = ra_RuntimeHash runtime, pl_RuntimeConfig = config,
                  pl_RuntimeTransitions = transitions, pl_Steps = steps,
                  pl_Decisions = decisions\<rparr>)))))))"

subsection \<open>The session cursor\<close>

text \<open>
  The loop of \<open>LoadSessionState\<close>. The branch of a restored cell is looked up by
  \<open>branchForCell\<close> while the cursor of the loop holds the connection. The pool of
  \<open>database/sql\<close> gives a query a free connection or, at the limit set by
  \<open>SetMaxOpenConns\<close>, blocks it until one is released; the loop releases its own
  only after the query. Contexts are not cancelled in the model.
\<close>

definition queryWhileOpen :: "StoreError + 'a \<Rightarrow> (StoreError, 'a) comp" where
  "queryWhileOpen q = None"

fun sessionStateLoop_sql ::
  "sqlStore \<Rightarrow> SessionID \<Rightarrow> nat \<Rightarrow> row list \<Rightarrow> BranchID \<times> CellID \<Rightarrow> (StoreError, BranchID \<times> CellID) comp" where
  "sessionStateLoop_sql s session i [] cursor = Some (Inr cursor)"
| "sessionStateLoop_sql s session i (r # rs) cursor =
     (case sqlErr s ''LoadSessionState scan'' i of
        Some e \<Rightarrow> Some (Inl (driverError ''LoadSessionState scan'' e))
      | None \<Rightarrow>
          if rw_type r = ''RestoreCompleted''
          then cbind (Some (decodeAs s ''RestoreCompleted'' asRestoreCompleted ''LoadSessionState decode restore'' r)) (\<lambda>f.
                 if rc_TargetCell f = [] then sessionStateLoop_sql s session (i + 1) rs cursor
                 else if rc_NewBranch f \<noteq> []
                 then sessionStateLoop_sql s session (i + 1) rs (rc_NewBranch f, rc_TargetCell f)
                 else cbind (queryWhileOpen (branchForCell_sql s session (rc_TargetCell f))) (\<lambda>branch.
                        sessionStateLoop_sql s session (i + 1) rs (branch, rc_TargetCell f)))
          else if rw_type r = ''HeadMoved''
          then cbind (Some (decodeAs s ''HeadMoved'' asHeadMoved ''LoadSessionState decode head'' r)) (\<lambda>f.
                 sessionStateLoop_sql s session (i + 1) rs (hm_Branch f, hm_Next f))
          else Some (Inl (DriverError (''sqlite: LoadSessionState: unexpected fact type '' @ quote (rw_type r)))))"

definition LoadSessionState_sql :: "sqlStore \<Rightarrow> SessionID \<Rightarrow> (StoreError, SessionState) comp" where
  "LoadSessionState_sql s session =
     cbind (Some (loadSessionStarted_sql s session)) (\<lambda>started.
     case sqlErr s ''LoadSessionState query'' 0 of
       Some e \<Rightarrow> Some (Inl (driverError ''LoadSessionState query'' e))
     | None \<Rightarrow>
     cbind (sessionStateLoop_sql s session 0
         (selectAsc s (\<lambda>r. rw_session r = session \<and> rw_type r \<in> {''HeadMoved'', ''RestoreCompleted''}))
         (ss_RootBranch started, [])) (\<lambda>(branch, head).
     case sqlErr s ''LoadSessionState rows'' 0 of
       Some e \<Rightarrow> Some (Inl (driverError ''LoadSessionState rows'' e))
     | None \<Rightarrow>
     cbind (loadActiveRuntime_sql s session branch head) (\<lambda>(runtimeHash, config).
       Some (Inr \<lparr>sst_Session = session, sst_Branch = branch, sst_Head = head,
                  sst_RuntimeHash = runtimeHash, sst_RuntimeConfig = config\<rparr>))))"

subsection \<open>Effects of a cell\<close>

text \<open>One row of the loop of \<open>LoadCellEffects\<close>.\<close>

definition cellEffectsRow ::
  "sqlStore \<Rightarrow> CellID \<Rightarrow> row \<Rightarrow> EffectRecord list \<times> (EffectID \<rightharpoonup> nat) \<Rightarrow>
   StoreError + (EffectRecord list \<times> (EffectID \<rightharpoonup> nat)) \<times> bool" where
  "cellEffectsRow s cell r acc = (case acc of (out, idx) \<Rightarrow>
     if rw_type r = ''EffectStarted''
     then rbind (decodeAs s ''EffectStarted'' asEffectStarted ''LoadCellEffects decode started'' r) (\<lambda>f.
            if es_Cell f \<noteq> cell then Inr ((out, idx), False)
            else Inr ((out @ [\<lparr>er_Effect = es_Effect f, er_Cell = es_Cell f,
                               er_FunctionName = es_FunctionName f, er_Params = es_Params f,
                               er_ReplayPolicy = es_ReplayPolicy f, er_Status = EffectRecordPending,
                               er_Result = [], er_ErrorMessage = [],
                               er_StartedAt = es_At f, er_UpdatedAt = es_At f\<rparr>],
                       idx(es_Effect f \<mapsto> length out)), False))
     else if rw_type r = ''EffectCompleted''
     then rbind (decodeAs s ''EffectCompleted'' asEffectCompleted ''LoadCellEffects decode completed'' r) (\<lambda>f.
            Inr ((case idx (ec_Effect f) of
                    None \<Rightarrow> (out, idx)
                  | Some i \<Rightarrow> (out[i := (out ! i)\<lparr>er_Status := EffectRecordCompleted, er_Result := ec_Result f,
                                        er_ErrorMessage := [], er_UpdatedAt := ec_At f\<rparr>], idx)), False))
     else if rw_type r = ''EffectFailed''
     then rbind (decodeAs s ''EffectFailed'' asEffectFailed ''LoadCellEffects decode failed'' r) (\<lambda>f.
            Inr ((case idx (ef_Effect f) of
                    None \<Rightarrow> (out, idx)
                  | Some i \<Rightarrow> (out[i := (out ! i)\<lparr>er_Status := EffectRecordFailed, er_Result := [],
                                        er_ErrorMessage := ef_ErrorMessage f, er_UpdatedAt := ef_At f\<rparr>], idx)), False))
     else Inr ((out, idx), False))"

definition LoadCellEffects_sql :: "sqlStore \<Rightarrow> SessionID \<Rightarrow> CellID \<Rightarrow> StoreError + EffectRecord list" where
  "LoadCellEffects_sql s session cell =
     rbind (queryRows s ''LoadCellEffects''
         (selectAsc s (\<lambda>r. rw_session r = session \<and> rw_type r \<in> {''EffectStarted'', ''EffectCompleted'', ''EffectFailed''}))
         (cellEffectsRow s cell) ([], Map.empty)) (\<lambda>(out, _). Inr out)"

end
