(* ===== verification/Sqlite_Refine.thy ===== *)
theory Sqlite_Refine
  imports Sqlite_Store Mem_Refine
begin

text \<open>
  The SQLite store and the in-memory store give the same answers. A store that
  satisfies \<open>sql_ok\<close> holds a fact log, \<open>sqlLog\<close>; \<open>memOf\<close> is the in-memory store with
  that log and the same descriptors. \<open>agrees s R a b\<close> relates an answer of the
  SQLite store to one of the in-memory store: a success is the same success up
  to \<open>R\<close>, and where the driver does not fail (\<open>faultless\<close>) an error is an error of
  both. The relation is compositional, so each query is related by relating
  the queries it is made of.
\<close>

subsection \<open>The log a store holds\<close>

definition factOf :: "sqlStore \<Rightarrow> row \<Rightarrow> Fact" where
  "factOf s r = projr (js_unmarshal (sq_json s) (rw_type r) (rw_payload r))"

definition sqlLog :: "sqlStore \<Rightarrow> Fact list" where
  "sqlLog s = map (factOf s) (sq_rows s)"

text \<open>\<open>LoadRuntimeConfig\<close> agrees the empty hash without a query, whatever the table holds for it.\<close>

definition sqlConfigs :: "sqlStore \<Rightarrow> string \<rightharpoonup> bytes" where
  "sqlConfigs s = (sq_configs s)([] \<mapsto> [])"

definition memOf :: "sqlStore \<Rightarrow> Store" where
  "memOf s = \<lparr>facts = map mkEntry (sqlLog s), runtimeConfigs = sqlConfigs s\<rparr>"

definition rowOf :: "sqlStore \<Rightarrow> row \<Rightarrow> bool" where
  "rowOf s r \<longleftrightarrow> js_unmarshal (sq_json s) (rw_type r) (rw_payload r) = Inr (factOf s r) \<and>
     FactType (factOf s r) = rw_type r \<and>
     extractIndexColumns (factOf s r) = (rw_session r, rw_branch r, rw_cell r)"

text \<open>What the code relies on in the codec: a marshalled fact is read back as it was.\<close>

definition codec_ok :: "jsonCodec \<Rightarrow> bool" where
  "codec_ok js \<longleftrightarrow> (\<forall>f p. js_marshal js f = Inr p \<longrightarrow> js_unmarshal js (FactType f) p = Inr f)"

definition sql_ok :: "sqlStore \<Rightarrow> bool" where
  "sql_ok s \<longleftrightarrow> codec_ok (sq_json s) \<and> (\<forall>r \<in> set (sq_rows s). rowOf s r) \<and>
     map rw_id (sq_rows s) = [1..<Suc (length (sq_rows s))] \<and> sq_seq s = length (sq_rows s)"

definition faultless :: "sqlStore \<Rightarrow> bool" where
  "faultless s \<longleftrightarrow> (\<forall>w site i. sq_fail s w site i = None)"

lemma sqlErr_faulty [dest]: "sqlErr s site i = Some e \<Longrightarrow> \<not> faultless s"
  by (auto simp: faultless_def sqlErr_def)

lemma rowOf_sel:
  assumes "sql_ok s" and "r \<in> set (sq_rows s)"
  shows "FactType (factOf s r) = rw_type r"
    and "extractIndexColumns (factOf s r) = (rw_session r, rw_branch r, rw_cell r)"
    and "js_unmarshal (sq_json s) (rw_type r) (rw_payload r) = Inr (factOf s r)"
  using assms by (auto simp: sql_ok_def rowOf_def)

lemma selectAsc_eq: "sql_ok s \<Longrightarrow> selectAsc s p = filter p (sq_rows s)"
  unfolding selectAsc_def by (subst sort_key_id_if_sorted) (simp_all add: sql_ok_def del: upt_Suc)

lemma row_cols:
  assumes "sql_ok s" and "r \<in> set (sq_rows s)"
  shows "rw_type r = FactType (factOf s r)" "rw_session r = fst (extractIndexColumns (factOf s r))"
    "rw_branch r = fst (snd (extractIndexColumns (factOf s r)))"
    "rw_cell r = snd (snd (extractIndexColumns (factOf s r)))"
  using rowOf_sel [OF assms] by simp_all

lemma decodeAs_eq:
  assumes "sql_ok s" and "r \<in> set (sq_rows s)" and "FactType (factOf s r) = T"
  shows "decodeAs s T proj site r =
    (case proj (factOf s r) of Some x \<Rightarrow> Inr x | None \<Rightarrow> Inl (driverError site T))"
  using rowOf_sel(1,3) [OF assms(1,2)] assms(3) by (auto simp: decodeAs_def)

subsection \<open>The writes\<close>

lemma wroteTo_sel [simp]:
  "sq_rows (wroteTo s) = sq_rows s" "sq_seq (wroteTo s) = sq_seq s" "sq_configs (wroteTo s) = sq_configs s"
  "sq_json (wroteTo s) = sq_json s" "sq_fail (wroteTo s) = sq_fail s"
  by (simp_all add: wroteTo_def)

lemma factOf_cong: "sq_json s' = sq_json s \<Longrightarrow> factOf s' = factOf s"
  by (rule ext) (simp add: factOf_def)

lemma sql_frame:
  assumes "sq_rows s' = sq_rows s" and "sq_seq s' = sq_seq s" and "sq_json s' = sq_json s"
  shows "sql_ok s' = sql_ok s" and "sqlLog s' = sqlLog s"
  using factOf_cong [of s' s] assms by (simp_all add: sql_ok_def rowOf_def sqlLog_def)

lemma AppendFact_sql_err:
  "AppendFact_sql s f = (Some e, s') \<Longrightarrow>
     sql_ok s' = sql_ok s \<and> sqlLog s' = sqlLog s \<and> sqlConfigs s' = sqlConfigs s"
  by (auto simp: AppendFact_sql_def sql_frame [of "wroteTo s" s] sqlConfigs_def
           split: sum.splits option.splits prod.splits)

lemma AppendFact_sql_ok:
  assumes ok: "sql_ok s" and app: "AppendFact_sql s f = (None, s')"
  shows "sql_ok s' \<and> sqlLog s' = sqlLog s @ [f] \<and> sqlConfigs s' = sqlConfigs s"
proof -
  obtain p where p: "js_marshal (sq_json s) f = Inr p"
    using app by (cases "js_marshal (sq_json s) f") (auto simp: AppendFact_sql_def)
  obtain a b c where cols: "extractIndexColumns f = (a, b, c)" by (cases "extractIndexColumns f")
  let ?r = "\<lparr>rw_id = sq_seq s + 1, rw_session = a, rw_branch = b, rw_cell = c, rw_type = FactType f, rw_payload = p\<rparr>"
  have s': "s' = wroteTo (s\<lparr>sq_seq := sq_seq s + 1, sq_rows := sq_rows s @ [?r]\<rparr>)"
    using app p cols by (auto simp: AppendFact_sql_def split: option.splits)
  have rows: "sq_rows s' = sq_rows s @ [?r]" "sq_seq s' = sq_seq s + 1" "sq_json s' = sq_json s"
    "sqlConfigs s' = sqlConfigs s" by (simp_all add: s' sqlConfigs_def)
  have fo: "factOf s' = factOf s" by (rule factOf_cong) (rule rows)
  have dec: "js_unmarshal (sq_json s) (FactType f) p = Inr f"
    using ok p by (simp add: sql_ok_def codec_ok_def)
  then have f: "factOf s ?r = f" by (simp add: factOf_def)
  then have "rowOf s' ?r" using dec cols by (simp add: rowOf_def fo rows)
  then show ?thesis
    using ok f by (auto simp: sql_ok_def rowOf_def sqlLog_def rows fo)
qed

subsection \<open>Related answers\<close>

definition agrees :: "sqlStore \<Rightarrow> ('a \<Rightarrow> 'b \<Rightarrow> bool) \<Rightarrow> StoreError + 'a \<Rightarrow> StoreError + 'b \<Rightarrow> bool" where
  "agrees s R a b =
     (case a of
        Inl _ \<Rightarrow> faultless s \<longrightarrow> isl b
      | Inr x \<Rightarrow> (case b of Inl _ \<Rightarrow> False | Inr y \<Rightarrow> R x y))"

text \<open>The same of calls that may not return: a call that does not return is one of both stores.\<close>

definition cagrees ::
  "sqlStore \<Rightarrow> ('a \<Rightarrow> 'b \<Rightarrow> bool) \<Rightarrow> (StoreError, 'a) comp \<Rightarrow> (StoreError, 'b) comp \<Rightarrow> bool" where
  "cagrees s R a b =
     (case a of
        None \<Rightarrow> b = None
      | Some x \<Rightarrow> (case b of None \<Rightarrow> \<not> faultless s \<and> isl x | Some y \<Rightarrow> agrees s R x y))"

named_theorems answer_intros \<open>rules that relate answers\<close>

lemma agrees_simps [simp]:
  "agrees s R (Inr x) (Inr y) = R x y" "agrees s R (Inl e) (Inl e')"
  "agrees s R (Inr x) (Inl e) = False" "cagrees s R (Some a) (Some b) = agrees s R a b"
  "cagrees s R None None"
  by (simp_all add: agrees_def cagrees_def)

lemma agrees_fault: "\<not> faultless s \<Longrightarrow> agrees s R (Inl e) b"
  by (simp add: agrees_def)

lemma cagrees_fault: "\<not> faultless s \<Longrightarrow> cagrees s R (Some (Inl e)) b"
  by (simp add: cagrees_def agrees_def split: option.splits)

lemma agrees_bind [answer_intros]:
  "agrees s R a b \<Longrightarrow> (\<And>x y. a = Inr x \<Longrightarrow> b = Inr y \<Longrightarrow> R x y \<Longrightarrow> agrees s Q (f x) (g y)) \<Longrightarrow>
     agrees s Q (rbind a f) (rbind b g)"
  by (cases a; cases b) (auto simp: agrees_def)

lemma agrees_bind_Inr:
  "agrees s R a (Inr y) \<Longrightarrow> (\<And>x. a = Inr x \<Longrightarrow> R x y \<Longrightarrow> agrees s Q (f x) b) \<Longrightarrow> agrees s Q (rbind a f) b"
  by (cases a) (auto simp: agrees_def)

lemma agrees_rmap [answer_intros]:
  "list_all2 P xs ys \<Longrightarrow> (\<And>x y. P x y \<Longrightarrow> agrees s R (f x) (g y)) \<Longrightarrow>
     agrees s (list_all2 R) (rmap f xs) (rmap g ys)"
  by (induction rule: list_all2_induct) (auto intro!: agrees_bind)

lemma agrees_rmap_eq:
  "(\<And>x. agrees s (=) (f x) (g x)) \<Longrightarrow> agrees s (=) (rmap f xs) (rmap g xs)"
  by (induction xs) (auto intro!: agrees_bind simp del: rbind.simps)

lemma agrees_rmap_map:
  "(\<And>x. agrees s (=) (f x) (Inr (g x))) \<Longrightarrow> agrees s (=) (rmap f xs) (Inr (map g xs))"
  by (induction xs) (auto intro!: agrees_bind_Inr)

lemma cagrees_bind [answer_intros]:
  assumes "cagrees s R a b"
    and "\<And>x y. a = Some (Inr x) \<Longrightarrow> b = Some (Inr y) \<Longrightarrow> R x y \<Longrightarrow> cagrees s Q (f x) (g y)"
  shows "cagrees s Q (cbind a f) (cbind b g)"
  using assms
  by (cases "(a, f)" rule: cbind.cases; cases "(b, g)" rule: cbind.cases)
     (auto simp: cagrees_def agrees_def split: option.splits sum.splits)

lemma cagrees_Some [answer_intros]: "agrees s R a b \<Longrightarrow> cagrees s R (Some a) (Some b)"
  by simp

lemma cagrees_bind_Inr:
  "agrees s R a (Inr y) \<Longrightarrow> (\<And>x. a = Inr x \<Longrightarrow> R x y \<Longrightarrow> cagrees s Q (f x) b) \<Longrightarrow> cagrees s Q (cbind (Some a) f) b"
  by (cases a) (auto simp: agrees_def intro: cagrees_fault)

lemma wrap_cbind:
  "(case c of None \<Rightarrow> None | Some (Inl e) \<Rightarrow> Some (Inl (v e)) | Some (Inr x) \<Rightarrow> h x) =
     cbind (map_option (map_sum v id) c) h"
  by (auto split: option.splits sum.splits)

lemma cagrees_wrap:
  assumes "cagrees s R a b"
    and "\<And>x y. R x y \<Longrightarrow> cagrees s Q (f x) (g y)"
  shows "cagrees s Q
    (case a of None \<Rightarrow> None | Some (Inl e) \<Rightarrow> Some (Inl (w e)) | Some (Inr x) \<Rightarrow> f x)
    (case b of None \<Rightarrow> None | Some (Inl e) \<Rightarrow> Some (Inl (w' e)) | Some (Inr y) \<Rightarrow> g y)"
proof -
  have "cagrees s R (map_option (map_sum w id) a) (map_option (map_sum w' id) b)"
    using assms(1) by (auto simp: cagrees_def agrees_def isl_map_sum split: option.splits sum.splits)
  then show ?thesis unfolding wrap_cbind using assms(2) by (rule cagrees_bind)
qed

lemma cagreesI:
  "(\<And>x. a = Some x \<Longrightarrow> cagrees s R (Some x) b) \<Longrightarrow> (\<And>y. b = Some y \<Longrightarrow> a \<noteq> None) \<Longrightarrow> cagrees s R a b"
  by (cases a; cases b) (auto simp: cagrees_def)

lemma agrees_mono: "agrees s R a b \<Longrightarrow> (\<And>x y. R x y \<Longrightarrow> Q x y) \<Longrightarrow> agrees s Q a b"
  by (auto simp: agrees_def split: sum.splits)

lemma agrees_Inr: "agrees s (=) a b \<Longrightarrow> a = Inr x \<Longrightarrow> b = Inr x"
  by (cases b) auto

lemma agrees_faultless: "agrees s (=) a b \<Longrightarrow> faultless s \<Longrightarrow> b = Inr x \<Longrightarrow> a = Inr x"
  by (cases a) (auto simp: agrees_def)

lemma cagrees_Inr: "cagrees s R a b \<Longrightarrow> a = Some (Inr x) \<Longrightarrow> \<exists>y. b = Some (Inr y) \<and> R x y"
  by (auto simp: cagrees_def agrees_def split: option.splits sum.splits)

lemma cagrees_faultless: "cagrees s R a b \<Longrightarrow> faultless s \<Longrightarrow> b = Some (Inr y) \<Longrightarrow> \<exists>x. a = Some (Inr x) \<and> R x y"
  by (auto simp: cagrees_def agrees_def split: option.splits sum.splits)

subsection \<open>Cursors\<close>

lemma queryRow_agrees:
  assumes "agrees s R (F (case rows of [] \<Rightarrow> None | r # _ \<Rightarrow> Some r)) b"
  shows "agrees s R (rbind (queryRow s n rows) F) b"
  using assms by (auto simp: queryRow_def intro: agrees_fault split: option.splits)

text \<open>The loop over a cursor whose driver does not fail and whose body does not.\<close>

fun rowsLoop :: "(row \<Rightarrow> 'a \<Rightarrow> 'a \<times> bool) \<Rightarrow> row list \<Rightarrow> 'a \<Rightarrow> 'a" where
  "rowsLoop step [] acc = acc"
| "rowsLoop step (r # rs) acc = (case step r acc of (acc, stop) \<Rightarrow> if stop then acc else rowsLoop step rs acc)"

lemma forRows_cases:
  assumes "\<And>r acc. r \<in> set rows \<Longrightarrow> body r acc = Inr (step r acc)"
  shows "forRows s n body i rows acc = Inr (rowsLoop step rows acc) \<or>
    \<not> faultless s \<and> isl (forRows s n body i rows acc)"
  using assms
proof (induction rows arbitrary: i acc)
  case (Cons r rs)
  have "forRows s n body (i + 1) rs a = Inr (rowsLoop step rs a) \<or> \<not> faultless s \<and> isl (forRows s n body (i + 1) rs a)" for a
    by (rule Cons.IH) (simp add: Cons.prems)
  then show ?case
    using Cons.prems [of r acc] by (auto split: option.splits prod.splits)
qed simp

lemma queryRows_agrees:
  assumes "\<And>r acc. r \<in> set rows \<Longrightarrow> body r acc = Inr (step r acc)"
    and "agrees s R (F (rowsLoop step rows acc)) b"
  shows "agrees s R (rbind (queryRows s n rows body acc) F) b"
  using forRows_cases [of rows body step s n 0 acc, OF assms(1)] assms(2)
  by (auto simp: queryRows_def isl_def intro!: agrees_fault split: option.splits)

lemma rowsLoop_collect:
  "(\<And>r acc. r \<in> set rows \<Longrightarrow> step r acc = (acc @ [h r], False)) \<Longrightarrow> rowsLoop step rows acc = acc @ map h rows"
  by (induction rows arbitrary: acc) auto

lemma rowsLoop_find:
  "(\<And>r acc. r \<in> set rows \<Longrightarrow> step r acc = (case g r of None \<Rightarrow> (acc, False) | Some y \<Rightarrow> (Some y, True))) \<Longrightarrow>
     rowsLoop step rows acc = (case find_map g rows of None \<Rightarrow> acc | Some y \<Rightarrow> Some y)"
  by (induction rows arbitrary: acc) (auto split: option.splits)

lemma rowsLoop_upto:
  "(\<And>r acc. r \<in> set rows \<Longrightarrow> step r acc = (acc @ [h r], h r = c)) \<Longrightarrow>
     rowsLoop step rows acc = acc @ take_upto c (map h rows)"
  by (induction rows arbitrary: acc) auto

lemma rbind_Inr_right: "rbind a Inr = a"
  by (cases a) auto

subsection \<open>Scans of the log as selections of rows\<close>

lemma facts_memOf: "facts (memOf s) = map (\<lambda>r. mkEntry (factOf s r)) (sq_rows s)"
  by (simp add: memOf_def sqlLog_def)

lemma find_map_on_filter: "(\<And>x. x \<in> set xs \<Longrightarrow> g x \<noteq> None \<Longrightarrow> p x) \<Longrightarrow> find_map g (filter p xs) = find_map g xs"
  by (induction xs) (auto split: option.splits)

lemma find_map_compose:
  "(\<And>x. x \<in> set xs \<Longrightarrow> g' x = map_option k (g x)) \<Longrightarrow> find_map g' xs = map_option k (find_map g xs)"
  by (induction xs) (auto split: option.splits)

lemma find_map_filter:
  "(\<And>x. x \<in> set xs \<Longrightarrow> p x = (g x \<noteq> None)) \<Longrightarrow>
     find_map g xs = (case filter p xs of [] \<Rightarrow> None | x # _ \<Rightarrow> g x)"
  by (induction xs) (auto split: option.splits)

lemma collect_filter:
  "(\<And>x. x \<in> set xs \<Longrightarrow> p x = (g x \<noteq> None)) \<Longrightarrow> collect g xs = map (\<lambda>x. the (g x)) (filter p xs)"
  by (induction xs) (auto split: option.splits)

text \<open>A query for one row, related to the loop over the log that stops at the first entry it accepts.\<close>

lemma queryRow_find:
  assumes "\<And>r. r \<in> set rows \<Longrightarrow> p r = (g (h r) \<noteq> None)"
    and "\<And>r y. r \<in> set rows \<Longrightarrow> p r \<Longrightarrow> g (h r) = Some y \<Longrightarrow> agrees s R (F (Some r)) (B y)"
    and "agrees s R (F None) A"
  shows "agrees s R (rbind (queryRow s n (filter p rows)) F) (case_option A B (find_map g (map h rows)))"
proof (rule queryRow_agrees)
  have find: "find_map g (map h rows) = (case filter p rows of [] \<Rightarrow> None | r # _ \<Rightarrow> g (h r))"
    unfolding find_map_map by (rule find_map_filter) (rule assms(1))
  show "agrees s R (F (case filter p rows of [] \<Rightarrow> None | r # _ \<Rightarrow> Some r)) (case_option A B (find_map g (map h rows)))"
  proof (cases "filter p rows")
    case (Cons r rs)
    then have r: "r \<in> set rows" "p r" using filter_eq_ConsD [OF Cons] by auto
    then obtain y where "g (h r) = Some y" using assms(1) by auto
    then show ?thesis using assms(2) [OF r] find Cons by simp
  qed (simp add: find assms(3))
qed

lemma queryRows_find:
  assumes "\<And>r. r \<in> set rows \<Longrightarrow> p r = (g (h r) \<noteq> None)"
    and "\<And>r acc. r \<in> set rows \<Longrightarrow> p r \<Longrightarrow> body r acc = Inr (acc @ [the (g (h r))], False)"
  shows "agrees s (=) (queryRows s n (filter p rows) body []) (Inr (collect g (map h rows)))"
proof -
  have "agrees s (=) (rbind (queryRows s n (filter p rows) body []) Inr) (Inr (collect g (map h rows)))"
  proof (rule queryRows_agrees)
    show "body r acc = Inr (acc @ [the (g (h r))], False)" if "r \<in> set (filter p rows)" for r acc
      using assms(2) that by simp
    have "collect g (map h rows) = map (\<lambda>r. the (g (h r))) (filter p rows)"
      unfolding collect_map by (rule collect_filter) (rule assms(1))
    then show "agrees s (=) (Inr (rowsLoop (\<lambda>r acc. (acc @ [the (g (h r))], False)) (filter p rows) []))
        (Inr (collect g (map h rows)))"
      using rowsLoop_collect [of "filter p rows" "\<lambda>r acc. (acc @ [the (g (h r))], False)"] by simp
  qed
  then show ?thesis by (simp add: rbind_Inr_right)
qed

text \<open>The row identifiers are the log positions, counted from 1.\<close>

lemma enumerate_rows:
  assumes "sql_ok s"
  shows "enumerate 0 (facts (memOf s)) = map (\<lambda>r. (rw_id r - 1, mkEntry (factOf s r))) (sq_rows s)"
proof (rule nth_equalityI)
  fix i assume "i < length (enumerate 0 (facts (memOf s)))"
  then have "i < length (sq_rows s)" by (simp add: facts_memOf)
  moreover have "map rw_id (sq_rows s) ! i = [1..<Suc (length (sq_rows s))] ! i" using assms by (simp add: sql_ok_def)
  ultimately have "rw_id (sq_rows s ! i) = Suc i" by (simp del: upt_Suc)
  with \<open>i < length (sq_rows s)\<close>
  show "enumerate 0 (facts (memOf s)) ! i = map (\<lambda>r. (rw_id r - 1, mkEntry (factOf s r))) (sq_rows s) ! i"
    by (simp add: facts_memOf nth_enumerate_eq)
qed (simp add: facts_memOf)

lemma rw_id_pos:
  assumes "sql_ok s" and "r \<in> set (sq_rows s)"
  shows "0 < rw_id r"
proof -
  have "rw_id r \<in> set (map rw_id (sq_rows s))" using assms(2) by simp
  also have "map rw_id (sq_rows s) = [1..<Suc (length (sq_rows s))]" using assms(1) by (simp add: sql_ok_def)
  finally show ?thesis by (simp del: upt_Suc)
qed

end
