(* ===== verification/Sqlite_Query.thy ===== *)
theory Sqlite_Query
  imports Sqlite_Refine
begin

text \<open>
  Every query of the SQLite store is related to the query of the in-memory
  store over the same log (\<open>Sqlite_Refine\<close>). The queries that select one fact,
  or all facts of a kind, come first; the walks over the branch ancestry and
  the queries built on them follow.
\<close>

subsection \<open>Single facts\<close>

lemma LoadRuntimeConfig_agree: "agrees s (=) (LoadRuntimeConfig_sql s h) (LoadRuntimeConfig (memOf s) h)"
  by (auto simp: LoadRuntimeConfig_sql_def LoadRuntimeConfig_def memOf_def sqlConfigs_def
           intro!: agrees_fault split: option.splits)

lemma loadRuntimeConfigLocked_agree:
  "agrees s (=) (LoadRuntimeConfig_sql s h) (loadRuntimeConfigLocked (memOf s) h)"
  using LoadRuntimeConfig_agree [of s h] by (simp add: loadRuntimeConfigLocked_def LoadRuntimeConfig_def)

lemma loadManifestAttached_agree:
  assumes ok: "sql_ok s"
  shows "agrees s (=) (loadManifestAttached_sql s sn) (loadManifestAttached (memOf s) sn)"
  unfolding loadManifestAttached_sql_def loadManifestAttached_def selectAsc_eq [OF ok] facts_memOf
  by (rule queryRow_find)
     (auto simp: row_cols [OF ok] decodeAs_eq [OF ok] split: Fact.splits if_splits)

lemma loadSessionStarted_agree:
  assumes ok: "sql_ok s"
  shows "agrees s (=) (loadSessionStarted_sql s sn) (loadSessionStarted (memOf s) sn)"
  unfolding loadSessionStarted_sql_def loadSessionStarted_def selectAsc_eq [OF ok] facts_memOf
  by (rule queryRow_find)
     (auto simp: row_cols [OF ok] decodeAs_eq [OF ok] split: Fact.splits if_splits)

lemma loadRuntimeAttached_agree:
  assumes ok: "sql_ok s"
  shows "agrees s (=) (loadRuntimeAttached_sql s sn) (loadRuntimeAttached (memOf s) sn)"
  unfolding loadRuntimeAttached_sql_def loadRuntimeAttached_def selectAsc_eq [OF ok] facts_memOf
  by (rule queryRow_find)
     (auto simp: row_cols [OF ok] decodeAs_eq [OF ok] split: Fact.splits if_splits)

lemma branchForCell_agree:
  assumes ok: "sql_ok s"
  shows "agrees s (=) (branchForCell_sql s sn c) (branchForCell (memOf s) sn c)"
  unfolding branchForCell_sql_def branchForCell_def selectAsc_eq [OF ok] facts_memOf
  by (rule queryRow_find)
     (auto simp: row_cols [OF ok] split: Fact.splits if_splits)

lemma branchParentRecord_agree:
  assumes ok: "sql_ok s"
  shows "agrees s (=) (branchParentRecord_sql s sn b) (branchParentRecord (memOf s) sn b)"
  unfolding branchParentRecord_sql_def branchParentRecord_def selectAsc_eq [OF ok] enumerate_rows [OF ok]
  by (rule queryRow_find)
     (auto simp: row_cols [OF ok] decodeAs_eq [OF ok] rw_id_pos [OF ok] split: Fact.splits if_splits
           intro!: agrees_bind [OF branchForCell_agree [OF ok]])

lemma branchParent_agree:
  assumes ok: "sql_ok s"
  shows "agrees s (=) (branchParent_sql s sn b) (branchParent (memOf s) sn b)"
  unfolding branchParent_sql_def branchParent_def
  by (rule agrees_bind [OF branchParentRecord_agree [OF ok]]) simp

lemma branchExists_agree:
  assumes ok: "sql_ok s"
  shows "agrees s (=) (branchExists_sql s sn b) (Inr (branchExists (memOf s) sn b))"
proof -
  have "branchExists (memOf s) sn b = (filter (\<lambda>r. rw_session r = sn \<and> rw_branch r = b) (sq_rows s) \<noteq> [])"
    by (auto simp: branchExists_def facts_memOf list_ex_iff row_cols [OF ok] filter_empty_conv)
  then show ?thesis
    unfolding branchExists_sql_def selectAsc_eq [OF ok]
    by (intro queryRow_agrees) (auto split: list.splits)
qed

lemma LoadHead_agree:
  assumes ok: "sql_ok s"
  shows "agrees s (=) (LoadHead_sql s sn b) (LoadHead (memOf s) sn b)"
proof -
  let ?p = "\<lambda>r. rw_session r = sn \<and> rw_branch r = b \<and> rw_type r = ''HeadMoved''"
  let ?g = "\<lambda>e. if en_session e \<noteq> sn \<or> en_branch e \<noteq> b \<or> en_factType e \<noteq> ''HeadMoved'' then None
    else case en_fact e of HeadMoved f \<Rightarrow> Some \<lparr>hr_Session = hm_Session f, hr_Branch = hm_Branch f, hr_Head = hm_Next f\<rparr>
         | _ \<Rightarrow> None"
  have "agrees s (=)
     (rbind (queryRow s ''LoadHead'' (selectDesc s ?p)) (\<lambda>row. case row of
        None \<Rightarrow> Inr \<lparr>hr_Session = sn, hr_Branch = b, hr_Head = []\<rparr>
      | Some r \<Rightarrow> rbind (decodeAs s ''HeadMoved'' asHeadMoved ''LoadHead decode'' r) (\<lambda>f.
          Inr \<lparr>hr_Session = hm_Session f, hr_Branch = hm_Branch f, hr_Head = hm_Next f\<rparr>)))
     (case find_map ?g (rev (facts (memOf s))) of
        None \<Rightarrow> Inr \<lparr>hr_Session = sn, hr_Branch = b, hr_Head = []\<rparr> | Some r \<Rightarrow> Inr r)"
    unfolding selectDesc_def selectAsc_eq [OF ok] rev_filter facts_memOf rev_map
    by (rule queryRow_find)
       (auto simp: row_cols [OF ok] decodeAs_eq [OF ok] split: Fact.splits if_splits)
  then show ?thesis
    unfolding LoadHead_sql_def LoadHead_def
    by (intro agrees_bind_Inr [OF branchExists_agree [OF ok]]) auto
qed

lemma LoadFailures_agree:
  assumes ok: "sql_ok s"
  shows "agrees s (=) (LoadFailures_sql s sn) (LoadFailures (memOf s) sn)"
  unfolding LoadFailures_sql_def LoadFailures_def selectAsc_eq [OF ok] facts_memOf
  by (rule queryRows_find) (auto simp: row_cols [OF ok] decodeAs_eq [OF ok] split: Fact.splits if_splits)

lemma loadRuntimeTransitionRecords_agree:
  assumes ok: "sql_ok s"
  shows "agrees s (=) (loadRuntimeTransitionRecords s sn) (Inr (transitionRecords (memOf s) sn))"
  unfolding loadRuntimeTransitionRecords_def transitionRecords_def selectAsc_eq [OF ok] enumerate_rows [OF ok]
  by (rule queryRows_find)
     (auto simp: row_cols [OF ok] decodeAs_eq [OF ok] rw_id_pos [OF ok] split: Fact.splits if_splits)

subsection \<open>The most recent check of a cell\<close>

lemma checkedRows_find:
  assumes "sql_ok s"
    and "\<And>r. r \<in> set (sq_rows s) \<Longrightarrow>
      (rw_session r = sn \<and> rw_branch r = b \<and> rw_cell r = c \<and> rw_type r = T) = (g (mkEntry (factOf s r)) \<noteq> None)"
    and "\<And>r y. r \<in> set (sq_rows s) \<Longrightarrow> rw_type r = T \<Longrightarrow> g (mkEntry (factOf s r)) = Some y \<Longrightarrow>
      agrees s R (F (Some r)) (B y)"
    and "agrees s R (F None) A"
  shows "agrees s R (rbind (queryRow s n (checkedRows s sn b c T)) F)
    (case_option A B (scan_last g None (facts (memOf s))))"
proof -
  have "scan_last g None (facts (memOf s)) = find_map g (map (\<lambda>r. mkEntry (factOf s r)) (rev (sq_rows s)))"
    by (simp add: scan_last_eq_find_map facts_memOf rev_map split: option.splits)
  moreover have "agrees s R (rbind (queryRow s n (checkedRows s sn b c T)) F)
      (case_option A B (find_map g (map (\<lambda>r. mkEntry (factOf s r)) (rev (sq_rows s)))))"
    unfolding checkedRows_def selectDesc_def selectAsc_eq [OF assms(1)] rev_filter
    using assms(2-4) by (intro queryRow_find) auto
  ultimately show ?thesis by simp
qed

lemma loadCellSource_agree:
  assumes ok: "sql_ok s"
  shows "agrees s (=) (loadCellSource_sql s sn b c) (loadCellSource (memOf s) sn b c)"
  unfolding loadCellSource_sql_def loadCellSource_def
  by (rule checkedRows_find [OF ok])
     (auto simp: row_cols [OF ok] decodeAs_eq [OF ok] split: Fact.splits if_splits)

lemma loadCellStaticDetails_agree:
  assumes ok: "sql_ok s"
  shows "agrees s (=) (loadCellStaticDetails_sql s sn b c) (loadCellStaticDetails (memOf s) sn b c)"
  unfolding loadCellStaticDetails_sql_def loadCellStaticDetails_def
  by (rule checkedRows_find [OF ok])
     (auto simp: row_cols [OF ok] decodeAs_eq [OF ok] split: Fact.splits if_splits)


subsection \<open>The branch ancestry\<close>

lemma committedCellsUpTo_agree:
  assumes ok: "sql_ok s"
  shows "agrees s (=) (committedCellsUpTo_sql s sn b c) (Inr (committedCellsUpTo (memOf s) sn b c))"
proof -
  let ?p = "\<lambda>r. rw_session r = sn \<and> rw_branch r = b \<and> rw_type r = ''CellCommitted''"
  let ?step = "\<lambda>r cells. (cells @ [rw_cell r], rw_cell r = c)"
  have "committedCellsUpTo (memOf s) sn b c = take_upto c (map rw_cell (filter ?p (sq_rows s)))"
    unfolding committedCellsUpTo_def facts_memOf collect_map
    by (subst collect_filter [where p = ?p])
       (auto simp: row_cols [OF ok] split: Fact.splits intro!: arg_cong [where f = "take_upto c"])
  then have "agrees s (=) (rbind (queryRows s ''committedCellsUpTo'' (filter ?p (sq_rows s))
      (\<lambda>r cells. Inr (?step r cells)) []) Inr) (Inr (committedCellsUpTo (memOf s) sn b c))"
    using rowsLoop_upto [of "filter ?p (sq_rows s)" ?step rw_cell c "[]"]
    by (intro queryRows_agrees) auto
  then show ?thesis
    by (simp add: committedCellsUpTo_sql_def selectAsc_eq [OF ok] rbind_Inr_right)
qed

text \<open>
  The two loops that climb the ancestry: an answer of the one is an answer of
  the other, by induction over the steps the loop made.
\<close>

lemma ancestorStack_sql_answer:
  "ancestorStack_sql s sn b c st = Some a \<Longrightarrow> sql_ok s \<Longrightarrow>
     cagrees s (=) (Some a) (ancestorStack (memOf s) sn b c st)"
proof (induction rule: ancestorStack_sql.raw_induct [rotated, consumes 1, case_names step])
  case (step walk s sn b c st a)
  show ?case
  proof (cases "branchParent_sql s sn b")
    case (Inl e)
    then show ?thesis
      using step.hyps step.prems branchParent_agree [of s sn b]
      by (subst ancestorStack.simps) (cases "faultless s"; auto simp: agrees_def intro: cagrees_fault split: sum.splits)
  next
    case (Inr x)
    with branchParent_agree [OF step.prems] have "branchParent (memOf s) sn b = Inr x" by (rule agrees_Inr)
    then show ?thesis
      using step Inr by (subst ancestorStack.simps) (auto simp: Let_def split: option.splits prod.splits)
  qed
qed

lemma ancestorStack_sql_returns:
  "ancestorStack m sn b c st = Some a \<Longrightarrow> sql_ok s \<Longrightarrow> memOf s = m \<Longrightarrow> ancestorStack_sql s sn b c st \<noteq> None"
proof (induction rule: ancestorStack.raw_induct [rotated, consumes 1, case_names step])
  case (step walk m sn b c st a)
  then show ?case
    using branchParent_agree [of s sn b]
    by (subst ancestorStack_sql.simps)
       (auto simp: agrees_def split: sum.splits option.splits prod.splits)
qed

lemma ancestorStack_agree:
  "sql_ok s \<Longrightarrow> cagrees s (=) (ancestorStack_sql s sn b c st) (ancestorStack (memOf s) sn b c st)"
  by (rule cagreesI) (auto dest: ancestorStack_sql_answer ancestorStack_sql_returns)

lemma cutoffWalk_sql_answer:
  "cutoffWalk_sql s sn b n sc = Some a \<Longrightarrow> sql_ok s \<Longrightarrow>
     cagrees s (=) (Some a) (cutoffWalk (memOf s) sn b n sc)"
proof (induction rule: cutoffWalk_sql.raw_induct [rotated, consumes 1, case_names step])
  case (step walk s sn b n sc a)
  show ?case
  proof (cases "branchParentRecord_sql s sn b")
    case (Inl e)
    then show ?thesis
      using step.hyps step.prems branchParentRecord_agree [of s sn b]
      by (subst cutoffWalk.simps) (cases "faultless s"; auto simp: agrees_def intro: cagrees_fault split: sum.splits)
  next
    case (Inr x)
    with branchParentRecord_agree [OF step.prems] have "branchParentRecord (memOf s) sn b = Inr x" by (rule agrees_Inr)
    then show ?thesis
      using step Inr by (subst cutoffWalk.simps) (auto simp: Let_def split: option.splits prod.splits)
  qed
qed

lemma cutoffWalk_sql_returns:
  "cutoffWalk m sn b n sc = Some a \<Longrightarrow> sql_ok s \<Longrightarrow> memOf s = m \<Longrightarrow> cutoffWalk_sql s sn b n sc \<noteq> None"
proof (induction rule: cutoffWalk.raw_induct [rotated, consumes 1, case_names step])
  case (step walk m sn b n sc a)
  then show ?case
    using branchParentRecord_agree [of s sn b]
    by (subst cutoffWalk_sql.simps)
       (auto simp: agrees_def split: sum.splits option.splits prod.splits)
qed

lemma cutoffWalk_agree:
  "sql_ok s \<Longrightarrow> cagrees s (=) (cutoffWalk_sql s sn b n sc) (cutoffWalk (memOf s) sn b n sc)"
  by (rule cagreesI) (auto dest: cutoffWalk_sql_answer cutoffWalk_sql_returns)

lemma collectAncestorChain_agree:
  assumes ok: "sql_ok s"
  shows "cagrees s (=) (collectAncestorChain_sql s sn b c) (collectAncestorChain (memOf s) sn b c)"
proof -
  have seg: "agrees s (=) (rbind (committedCellsUpTo_sql s sn (sg_branch g) (sg_stopAt g)) (\<lambda>cs. Inr (map (\<lambda>c. (c, sg_branch g)) cs)))
      (Inr (map (\<lambda>c. (c, sg_branch g)) (committedCellsUpTo (memOf s) sn (sg_branch g) (sg_stopAt g))))" for g
    by (rule agrees_bind_Inr [OF committedCellsUpTo_agree [OF ok]]) simp
  show ?thesis
    unfolding collectAncestorChain_sql_def collectAncestorChain_def
    by (rule cagrees_bind [OF ancestorStack_agree [OF ok]])
       (auto intro!: agrees_bind_Inr [OF agrees_rmap_map, OF seg])
qed

subsection \<open>The static environment\<close>

lemma staticEnvLoop_agree:
  "sql_ok s \<Longrightarrow> agrees s (=) (staticEnvLoop_sql s sn i eh ep start srcs chain)
     (staticEnvLoop (memOf s) sn i eh ep start srcs chain)"
proof (induction chain arbitrary: i eh ep start srcs)
  case (Cons x chain)
  obtain c b where "x = (c, b)" by (cases x)
  with Cons show ?case
    by (auto simp del: rbind.simps intro!: agrees_bind [OF loadCellStaticDetails_agree])
qed simp

lemma loadStaticEnvState_agree:
  assumes ok: "sql_ok s"
  shows "cagrees s (=) (loadStaticEnvState_sql s sn b c) (loadStaticEnvState (memOf s) sn b c)"
  unfolding loadStaticEnvState_sql_def loadStaticEnvState_def
  by (auto intro!: cagrees_bind [OF collectAncestorChain_agree [OF ok]] agrees_bind [OF staticEnvLoop_agree [OF ok]])

lemma LoadStaticEnv_agree:
  assumes ok: "sql_ok s"
  shows "cagrees s (=) (LoadStaticEnv_sql s sn b c) (LoadStaticEnv (memOf s) sn b c)"
  unfolding LoadStaticEnv_sql_def LoadStaticEnv_def
  by (auto intro!: cagrees_bind [OF cagrees_Some [OF loadManifestAttached_agree [OF ok]]]
        cagrees_bind [OF loadStaticEnvState_agree [OF ok]])

lemma loadCommittedSources_agree:
  assumes ok: "sql_ok s" and "c \<noteq> []"
  shows "cagrees s (=) (loadCommittedSources_sql s sn b c) (loadCommittedSources (memOf s) sn b c)"
proof -
  have "agrees s (=) (rmap (\<lambda>(c, b). loadCellSource_sql s sn b c) chain)
      (rmap (\<lambda>(c, b). loadCellSource (memOf s) sn b c) chain)" for chain
    by (rule agrees_rmap_eq) (auto intro: loadCellSource_agree [OF ok])
  then show ?thesis
    using assms(2) unfolding loadCommittedSources_sql_def loadCommittedSources_def
    by (auto intro!: cagrees_bind [OF collectAncestorChain_agree [OF ok]])
qed

subsection \<open>Runtime visibility\<close>

lemma buildRuntimeVisibility_agree:
  assumes ok: "sql_ok s"
  shows "cagrees s (=) (buildRuntimeVisibility_sql s sn b c) (buildRuntimeVisibility (memOf s) sn b c)"
proof -
  have root: "agrees s (=)
      (case chain of (_, b) # _ \<Rightarrow> Inr b | [] \<Rightarrow> rbind (loadSessionStarted_sql s sn) (\<lambda>st. Inr (ss_RootBranch st)))
      (case chain of (_, b) # _ \<Rightarrow> Inr b | [] \<Rightarrow> rbind (loadSessionStarted (memOf s) sn) (\<lambda>st. Inr (ss_RootBranch st)))"
    for chain :: "(CellID \<times> BranchID) list"
    by (auto intro!: agrees_bind [OF loadSessionStarted_agree [OF ok]] split: list.splits)
  show ?thesis
    unfolding buildRuntimeVisibility_sql_def buildRuntimeVisibility_def Let_def
    by (rule cagrees_bind [OF collectAncestorChain_agree [OF ok]], hypsubst)
       (rule cagrees_bind [OF cagrees_Some [OF root]], hypsubst, rule cutoffWalk_agree [OF ok])
qed

lemma loadActiveRuntime_agree:
  assumes ok: "sql_ok s"
  shows "cagrees s (=) (loadActiveRuntime_sql s sn b c) (loadActiveRuntime (memOf s) sn b c)"
proof -
  have records: "cagrees s (=) (cbind (Some (loadRuntimeTransitionRecords s sn)) (\<lambda>ts. Some (Inr (F ts))))
      (Some (Inr (F (transitionRecords (memOf s) sn))))" for F :: "runtimeTransitionRecord list \<Rightarrow> string"
    by (rule cagrees_bind_Inr [OF loadRuntimeTransitionRecords_agree [OF ok]]) simp
  show ?thesis
    unfolding loadActiveRuntime_sql_def loadActiveRuntime_def
  proof (rule cagrees_bind [OF cagrees_Some [OF loadRuntimeAttached_agree [OF ok]]], hypsubst, rule cagrees_bind [where R = "(=)"], goal_cases)
    case (1 runtime runtime')
    show ?case
      by (cases "c = []")
         (auto simp del: cbind.simps intro!: records cagrees_bind [OF buildRuntimeVisibility_agree [OF ok]])
  next
    case (2 runtime runtime' h h')
    then show ?case by (auto intro!: agrees_bind [OF loadRuntimeConfigLocked_agree])
  qed
qed

lemma buildRuntimeTransitions_agree:
  assumes ok: "sql_ok s"
  shows "cagrees s (=) (buildRuntimeTransitions_sql s sn b c) (buildRuntimeTransitions (memOf s) sn b c)"
  unfolding buildRuntimeTransitions_sql_def buildRuntimeTransitions_def
  by (rule cagrees_bind [OF buildRuntimeVisibility_agree [OF ok]], hypsubst,
      rule cagrees_bind_Inr [OF loadRuntimeTransitionRecords_agree [OF ok]], hypsubst, rule cagrees_Some)
     (rule agrees_rmap_eq, rule agrees_bind [OF loadRuntimeConfigLocked_agree], simp)


subsection \<open>Replay plans\<close>

lemma loadCellDetails_agree:
  assumes ok: "sql_ok s"
  shows "agrees s (=) (loadCellDetails_sql s sn b c) (Inr (loadCellDetails (memOf s) sn b c))"
proof -
  let ?ck = "\<lambda>e. if en_session e \<noteq> sn \<or> en_branch e \<noteq> b \<or> en_cell e \<noteq> c \<or> en_factType e \<noteq> ''CellChecked'' then None
    else case en_fact e of CellChecked f \<Rightarrow> Some (ck_Language f, ck_Source f, ck_EmittedJS f) | _ \<Rightarrow> None"
  let ?ev = "\<lambda>e. if en_session e \<noteq> sn \<or> en_branch e \<noteq> b \<or> en_cell e \<noteq> c \<or> en_factType e \<noteq> ''CellEvaluated'' then None
    else case en_fact e of CellEvaluated f \<Rightarrow> Some (ce_LinkedEffects f) | _ \<Rightarrow> None"
  let ?effs = "case scan_last ?ev None (facts (memOf s)) of None \<Rightarrow> [] | Some es \<Rightarrow> es"
  have effs: "agrees s (=)
      (rbind (queryRow s ''loadCellDetails CellEvaluated'' (checkedRows s sn b c ''CellEvaluated'')) (\<lambda>row2.
        rbind (case row2 of None \<Rightarrow> Inr []
          | Some r \<Rightarrow> rbind (decodeAs s ''CellEvaluated'' asCellEvaluated ''loadCellDetails CellEvaluated decode'' r) (\<lambda>f.
              Inr (ce_LinkedEffects f))) (\<lambda>effects. Inr (l, src, js, effects))))
      (case scan_last ?ev None (facts (memOf s)) of None \<Rightarrow> Inr (l, src, js, []) | Some es \<Rightarrow> Inr (l, src, js, es))"
    for l src js :: string
    by (rule checkedRows_find [OF ok])
       (auto simp: row_cols [OF ok] decodeAs_eq [OF ok] split: Fact.splits if_splits)
  have "agrees s (=) (loadCellDetails_sql s sn b c)
     (case scan_last ?ck None (facts (memOf s)) of None \<Rightarrow> Inr ([], [], [], ?effs) | Some (l, src, js) \<Rightarrow> Inr (l, src, js, ?effs))"
    unfolding loadCellDetails_sql_def
    using effs
    by (intro checkedRows_find [OF ok])
       (auto simp: row_cols [OF ok] decodeAs_eq [OF ok] split: Fact.splits if_splits option.splits)
  then show ?thesis by (auto simp: loadCellDetails_def Let_def split: option.splits prod.splits)
qed

lemma buildReplaySteps_agree:
  assumes ok: "sql_ok s"
  shows "cagrees s (=) (buildReplaySteps_sql s sn b c) (buildReplaySteps (memOf s) sn b c)"
proof -
  let ?step = "\<lambda>(c, b). case loadCellDetails (memOf s) sn b c of (language, src, emitted, effects) \<Rightarrow>
    \<lparr>st_Cell = c, st_Language = language, st_Source = src, st_EmittedJS = emitted, st_Effects = effects\<rparr>"
  have "agrees s (=) (case x of (c, b) \<Rightarrow> rbind (loadCellDetails_sql s sn b c) (\<lambda>(language, src, emitted, effects).
      Inr \<lparr>st_Cell = c, st_Language = language, st_Source = src, st_EmittedJS = emitted, st_Effects = effects\<rparr>))
      (Inr (?step x))" for x
    by (auto intro!: agrees_bind_Inr [OF loadCellDetails_agree [OF ok]] split: prod.splits)
  then have "agrees s (=) (rmap (\<lambda>(c, b). rbind (loadCellDetails_sql s sn b c) (\<lambda>(language, src, emitted, effects).
      Inr \<lparr>st_Cell = c, st_Language = language, st_Source = src, st_EmittedJS = emitted, st_Effects = effects\<rparr>)) chain)
      (Inr (map ?step chain))" for chain
    by (rule agrees_rmap_map)
  then show ?thesis
    unfolding buildReplaySteps_sql_def buildReplaySteps_def
    by (intro cagrees_wrap [OF collectAncestorChain_agree [OF ok]]) simp
qed

text \<open>
  The in-memory store counts completions by their position in the log, the
  SQLite store by their rank among the completions of the session.
\<close>

definition completionRank :: "sqlStore \<Rightarrow> SessionID \<Rightarrow> nat \<Rightarrow> nat" where
  "completionRank s sn n =
     length (filter (\<lambda>r. rw_session r = sn \<and> rw_type r = ''EffectCompleted'' \<and> rw_id r \<le> n) (sq_rows s))"

definition ranked :: "sqlStore \<Rightarrow> SessionID \<Rightarrow> ReplayDecision \<Rightarrow> ReplayDecision" where
  "ranked s sn d = d\<lparr>rd_CompletionOrder := completionRank s sn (rd_CompletionOrder d)\<rparr>"

lemma completedLoop_rank:
  assumes "sorted_wrt (\<lambda>a b. rw_id a < rw_id b) rows"
    and "\<And>r res ord i. r \<in> set rows \<Longrightarrow> step r (res, ord, i) =
      (case g r of Some x \<Rightarrow> ((x, i + 1, i + 1), True) | None \<Rightarrow> ((res, ord, i + 1), False))"
  shows "\<exists>k. rowsLoop step rows (res, ord, i) =
    (case find_map (\<lambda>r. map_option (\<lambda>x. (r, x)) (g r)) rows of
       None \<Rightarrow> (res, ord, k)
     | Some (r, x) \<Rightarrow> (x, i + length (filter (\<lambda>r'. rw_id r' \<le> rw_id r) rows), k))"
  using assms
proof (induction rows arbitrary: i)
  case (Cons r rows)
  show ?case
  proof (cases "g r")
    case None
    from Cons.IH [of "i + 1"] Cons.prems obtain k where
      "rowsLoop step rows (res, ord, i + 1) = (case find_map (\<lambda>r. map_option (\<lambda>x. (r, x)) (g r)) rows of
         None \<Rightarrow> (res, ord, k) | Some (r, x) \<Rightarrow> (x, i + 1 + length (filter (\<lambda>r'. rw_id r' \<le> rw_id r) rows), k))"
      by auto
    moreover have "rw_id r \<le> rw_id r'" if "find_map (\<lambda>r. map_option (\<lambda>x. (r, x)) (g r)) rows = Some (r', x)" for r' x
      using find_map_SomeD [OF that] Cons.prems(1) by auto
    ultimately show ?thesis using None Cons.prems(2) [of r] by (auto split: option.splits prod.splits intro!: exI [of _ k])
  next
    case (Some x)
    moreover have "filter (\<lambda>r'. rw_id r' \<le> rw_id r) rows = []"
      using Cons.prems(1) by (auto simp: filter_empty_conv)
    ultimately show ?thesis using Cons.prems(2) [of r] by simp
  qed
qed simp


lemma rows_sorted:
  assumes "sql_ok s"
  shows "sorted_wrt (\<lambda>a b. rw_id a < rw_id b) (filter p (sq_rows s))"
proof -
  have "sorted_wrt (<) (map rw_id (sq_rows s))" using assms by (simp add: sql_ok_def del: upt_Suc)
  then show ?thesis by (simp add: sorted_wrt_map sorted_wrt_filter)
qed

text \<open>The start and the completion of an effect, as both stores search them.\<close>

fun policyOf :: "SessionID \<Rightarrow> EffectID \<Rightarrow> Fact \<Rightarrow> ReplayPolicy option" where
  "policyOf sn ef (EffectStarted f) = (if es_Session f = sn \<and> es_Effect f = ef then Some (es_ReplayPolicy f) else None)"
| "policyOf sn ef _ = None"

fun completionOf :: "SessionID \<Rightarrow> EffectID \<Rightarrow> Fact \<Rightarrow> bytes option" where
  "completionOf sn ef (EffectCompleted f) = (if ec_Session f = sn \<and> ec_Effect f = ef then Some (ec_Result f) else None)"
| "completionOf sn ef _ = None"

definition completionRow :: "sqlStore \<Rightarrow> SessionID \<Rightarrow> EffectID \<Rightarrow> (row \<times> bytes) option" where
  "completionRow s sn ef = find_map (\<lambda>r. map_option (\<lambda>x. (r, x)) (completionOf sn ef (factOf s r))) (sq_rows s)"

lemma mem_loadReplayDecision:
  assumes ok: "sql_ok s"
  shows "loadReplayDecision (memOf s) sn ef =
    (case find_map (\<lambda>r. policyOf sn ef (factOf s r)) (sq_rows s) of
       None \<Rightarrow> Inl (EffectStartedNotFound ef)
     | Some policy \<Rightarrow> Inr \<lparr>rd_Effect = ef, rd_Policy = policy,
         rd_RecordedResult = (case completionRow s sn ef of None \<Rightarrow> [] | Some (_, x) \<Rightarrow> x),
         rd_CompletionOrder = (case completionRow s sn ef of None \<Rightarrow> 0 | Some (r, _) \<Rightarrow> rw_id r), rd_Rerun = False\<rparr>)"
proof -
  have 1: "find_map (\<lambda>e. if en_session e \<noteq> sn \<or> en_factType e \<noteq> ''EffectStarted'' then None
        else case en_fact e of EffectStarted f \<Rightarrow> if es_Effect f = ef then Some (es_ReplayPolicy f) else None | _ \<Rightarrow> None)
        (facts (memOf s)) = find_map (\<lambda>r. policyOf sn ef (factOf s r)) (sq_rows s)"
    unfolding facts_memOf find_map_map by (rule find_map_cong) (auto split: Fact.splits)
  have 2: "find_map (\<lambda>(i, e). if en_session e \<noteq> sn \<or> en_factType e \<noteq> ''EffectCompleted'' then None
        else case en_fact e of EffectCompleted f \<Rightarrow> if ec_Effect f = ef then Some (ec_Result f, i + 1) else None | _ \<Rightarrow> None)
        (enumerate 0 (facts (memOf s))) = map_option (\<lambda>(r, x). (x, rw_id r)) (completionRow s sn ef)"
    unfolding enumerate_rows [OF ok] find_map_map completionRow_def
    by (rule find_map_compose) (auto simp: rw_id_pos [OF ok] split: Fact.splits)
  show ?thesis
    unfolding loadReplayDecision_def 1 2 by (auto split: option.splits)
qed

lemma loadReplayDecision_agree:
  assumes ok: "sql_ok s"
  shows "agrees s (\<lambda>d d'. d = ranked s sn d') (loadReplayDecision_sql s sn ef) (loadReplayDecision (memOf s) sn ef)"
  unfolding loadReplayDecision_sql_def selectAsc_eq [OF ok]
proof (rule queryRows_agrees [where step = "\<lambda>r acc. case policyOf sn ef (factOf s r) of
    None \<Rightarrow> (acc, False) | Some y \<Rightarrow> (Some y, True)"], goal_cases)
  case (1 r acc)
  then obtain f where "factOf s r = EffectStarted f" "es_Session f = sn" "r \<in> set (sq_rows s)" by (auto simp: row_cols [OF ok])
  then show ?case by (simp add: row_cols [OF ok] decodeAs_eq [OF ok])
next
  case 2
  let ?pc = "\<lambda>r. rw_session r = sn \<and> rw_type r = ''EffectCompleted''"
  let ?ps = "\<lambda>r. rw_session r = sn \<and> rw_type r = ''EffectStarted''"
  have policy: "rowsLoop (\<lambda>r acc. case policyOf sn ef (factOf s r) of None \<Rightarrow> (acc, False) | Some y \<Rightarrow> (Some y, True))
      (filter ?ps (sq_rows s)) None = find_map (\<lambda>r. policyOf sn ef (factOf s r)) (sq_rows s)"
    by (subst rowsLoop_find [where g = "\<lambda>r. policyOf sn ef (factOf s r)"], simp, subst find_map_on_filter)
       (auto simp: row_cols [OF ok] split: option.splits if_splits elim!: policyOf.elims)
  let ?step = "\<lambda>r (res, ord, i). case completionOf sn ef (factOf s r) of
    Some x \<Rightarrow> ((x, i + 1, i + 1), True) | None \<Rightarrow> ((res, ord, i + (1 :: nat)), False)"
  have find: "find_map (\<lambda>r. map_option (\<lambda>x. (r, x)) (completionOf sn ef (factOf s r))) (filter ?pc (sq_rows s)) =
      completionRow s sn ef"
    unfolding completionRow_def by (rule find_map_on_filter) (auto simp: row_cols [OF ok] split: if_splits elim!: completionOf.elims)
  have rank: "length (filter (\<lambda>r'. rw_id r' \<le> n) (filter ?pc (sq_rows s))) = completionRank s sn n" for n
    by (simp add: completionRank_def conj_ac)
  obtain k where loop: "rowsLoop ?step (filter ?pc (sq_rows s)) ([], 0, 0) =
      (case completionRow s sn ef of None \<Rightarrow> ([], 0, k) | Some (r, x) \<Rightarrow> (x, completionRank s sn (rw_id r), k))"
    using completedLoop_rank [OF rows_sorted [OF ok], of ?pc ?step "\<lambda>r. completionOf sn ef (factOf s r)" "[]" 0 0]
    unfolding find rank add_0 by auto
  have none: "completionRank s sn 0 = 0" using rw_id_pos [OF ok] by (auto simp: completionRank_def filter_empty_conv)
  show ?case
  proof (cases "find_map (\<lambda>r. policyOf sn ef (factOf s r)) (sq_rows s)")
    case None
    then show ?thesis by (simp add: policy mem_loadReplayDecision [OF ok])
  next
    case (Some pol)
    show ?thesis
      unfolding policy Some mem_loadReplayDecision [OF ok] option.case
    proof (rule queryRows_agrees [where step = ?step], goal_cases)
      case (1 r acc)
      then obtain f where "factOf s r = EffectCompleted f" "ec_Session f = sn" "r \<in> set (sq_rows s)" by (auto simp: row_cols [OF ok])
      then show ?case by (cases acc) (simp add: row_cols [OF ok] decodeAs_eq [OF ok])
    next
      case 2
      show ?case unfolding loop by (auto simp: ranked_def none split: option.splits)
    qed
  qed
qed


definition rankedAll :: "sqlStore \<Rightarrow> SessionID \<Rightarrow> (EffectID \<rightharpoonup> ReplayDecision) \<Rightarrow> (EffectID \<rightharpoonup> ReplayDecision)" where
  "rankedAll s sn D = (\<lambda>ef. map_option (ranked s sn) (D ef))"

lemma rankedAll_upd: "(rankedAll s sn D)(ef \<mapsto> ranked s sn d) = rankedAll s sn (D(ef \<mapsto> d))"
  by (auto simp: rankedAll_def)

lemma decisionsForEffects_agree:
  "sql_ok s \<Longrightarrow> agrees s (\<lambda>D D'. D = rankedAll s sn D')
     (decisionsForEffects_sql s sn (rankedAll s sn D) efs) (decisionsForEffects (memOf s) sn D efs)"
proof (induction efs arbitrary: D)
  case (Cons ef efs)
  have "agrees s (\<lambda>D D'. D = rankedAll s sn D')
     (rbind (loadReplayDecision_sql s sn ef) (\<lambda>d. decisionsForEffects_sql s sn ((rankedAll s sn D)(ef \<mapsto> d)) efs))
     (rbind (loadReplayDecision (memOf s) sn ef) (\<lambda>d. decisionsForEffects (memOf s) sn (D(ef \<mapsto> d)) efs))"
    by (rule agrees_bind [OF loadReplayDecision_agree]) (auto simp: rankedAll_upd Cons)
  moreover have "(rankedAll s sn D ef \<noteq> None) = (D ef \<noteq> None)" by (simp add: rankedAll_def)
  ultimately show ?case using Cons by simp
qed simp

lemma decisionsForSteps_agree:
  "sql_ok s \<Longrightarrow> agrees s (\<lambda>D D'. D = rankedAll s sn D')
     (decisionsForSteps_sql s sn (rankedAll s sn D) steps) (decisionsForSteps (memOf s) sn D steps)"
proof (induction steps arbitrary: D)
  case (Cons st steps)
  then show ?case by (auto intro!: agrees_bind [OF decisionsForEffects_agree] simp del: rbind.simps)
qed simp

definition rankedPlan :: "sqlStore \<Rightarrow> ReplayPlan \<Rightarrow> ReplayPlan" where
  "rankedPlan s p = p\<lparr>pl_Decisions := rankedAll s (pl_Session p) (pl_Decisions p)\<rparr>"

lemma LoadReplayPlan_agree:
  assumes ok: "sql_ok s"
  shows "cagrees s (\<lambda>p p'. p = rankedPlan s p') (LoadReplayPlan_sql s sn c) (LoadReplayPlan (memOf s) sn c)"
proof -
  have dec: "agrees s (\<lambda>D D'. D = rankedAll s sn D') (buildReplayDecisions_sql s sn steps)
      (buildReplayDecisions (memOf s) sn steps)" for steps
    using decisionsForSteps_agree [OF ok, of sn Map.empty]
    by (simp add: buildReplayDecisions_sql_def buildReplayDecisions_def rankedAll_def)
  show ?thesis
    unfolding LoadReplayPlan_sql_def LoadReplayPlan_def
    by (rule cagrees_bind [OF cagrees_Some [OF branchForCell_agree [OF ok]]], hypsubst,
        rule cagrees_bind [OF buildReplaySteps_agree [OF ok]], hypsubst,
        rule cagrees_bind [OF cagrees_Some [OF dec]],
        rule cagrees_bind [OF cagrees_Some [OF loadRuntimeAttached_agree [OF ok]]], hypsubst,
        rule cagrees_bind [OF cagrees_Some [OF LoadRuntimeConfig_agree]], hypsubst,
        rule cagrees_bind [OF buildRuntimeTransitions_agree [OF ok]])
       (simp add: rankedPlan_def)
qed

text \<open>Ranks order completions as log positions do.\<close>

lemma completionRank_mono:
  assumes "r \<in> set (sq_rows s)" and "rw_session r = sn" and "rw_type r = ''EffectCompleted''" and "n < rw_id r"
  shows "completionRank s sn n < completionRank s sn (rw_id r)"
proof -
  let ?f = "\<lambda>m. filter (\<lambda>r. rw_session r = sn \<and> rw_type r = ''EffectCompleted'' \<and> rw_id r \<le> m)"
  obtain xs ys where rows: "sq_rows s = xs @ r # ys" using assms(1) by (auto dest: split_list)
  have le: "length (?f n zs) \<le> length (?f (rw_id r) zs)" for zs
    using assms(4) by (induction zs) auto
  show ?thesis
    unfolding completionRank_def rows using assms(2-4) le [of xs] le [of ys] by simp
qed

end
