(* ===== verification/Store_Ops.thy ===== *)
theory Store_Ops
  imports Mem_Props
begin

text \<open>
  The \<open>store.Store\<close> interface of \<open>src/store/store.go\<close>: its operations as a record
  the engine is given, its contract as a locale over an abstraction of the
  store (the fact log and the descriptor table), and the in-memory store as an
  instance. \<open>AppendFact\<close> and \<open>PutRuntimeConfig\<close> return the error, if any, with the
  new store; a query may also never return (\<open>None\<close>).
\<close>

record 's StoreOps =
  so_AppendFact :: "'s \<Rightarrow> Fact \<Rightarrow> StoreError option \<times> 's"
  so_PutRuntimeConfig :: "'s \<Rightarrow> string \<Rightarrow> bytes \<Rightarrow> StoreError option \<times> 's"
  so_LoadRuntimeConfig :: "'s \<Rightarrow> string \<Rightarrow> StoreError + bytes"
  so_LoadHead :: "'s \<Rightarrow> SessionID \<Rightarrow> BranchID \<Rightarrow> StoreError + HeadRecord"
  so_LoadStaticEnv :: "'s \<Rightarrow> SessionID \<Rightarrow> BranchID \<Rightarrow> CellID \<Rightarrow> (StoreError, StaticEnvSnapshot) comp"
  so_LoadReplayPlan :: "'s \<Rightarrow> SessionID \<Rightarrow> CellID \<Rightarrow> (StoreError, ReplayPlan) comp"
  so_LoadFailures :: "'s \<Rightarrow> SessionID \<Rightarrow> StoreError + CellFailed list"
  so_LoadSessionState :: "'s \<Rightarrow> SessionID \<Rightarrow> (StoreError, SessionState) comp"
  so_LoadCellEffects :: "'s \<Rightarrow> SessionID \<Rightarrow> CellID \<Rightarrow> StoreError + EffectRecord list"

text \<open>A Go call that returns only an error, as the new state and the error.\<close>

fun errOnly :: "'s \<Rightarrow> 'e + 's \<Rightarrow> 'e option \<times> 's" where
  "errOnly s (Inl e) = (Some e, s)"
| "errOnly s (Inr s') = (None, s')"

definition memOps :: "Store StoreOps" where
  "memOps = \<lparr>so_AppendFact = (\<lambda>s f. errOnly s (AppendFact s f)),
     so_PutRuntimeConfig = (\<lambda>s h c. errOnly s (PutRuntimeConfig s h c)),
     so_LoadRuntimeConfig = LoadRuntimeConfig, so_LoadHead = LoadHead,
     so_LoadStaticEnv = LoadStaticEnv, so_LoadReplayPlan = LoadReplayPlan,
     so_LoadFailures = LoadFailures, so_LoadSessionState = LoadSessionState,
     so_LoadCellEffects = LoadCellEffects\<rparr>"

text \<open>
  The contract. \<open>slog\<close> and \<open>scfg\<close> are what the store holds, \<open>sok\<close> its own
  invariant. A failed append changes nothing, a failed put at most adds the
  descriptor it was given; a query that succeeds on a
  well-formed log returns the abstract query of the log. Queries may fail.
\<close>

locale fact_store =
  fixes ops :: "'s StoreOps"
    and slog :: "'s \<Rightarrow> Fact list"
    and scfg :: "'s \<Rightarrow> string \<rightharpoonup> bytes"
    and sok :: "'s \<Rightarrow> bool"
  assumes append_ok: "sok s \<Longrightarrow> so_AppendFact ops s f = (None, s') \<Longrightarrow>
      sok s' \<and> slog s' = slog s @ [f] \<and> scfg s' = scfg s"
    and append_err: "sok s \<Longrightarrow> so_AppendFact ops s f = (Some e, s') \<Longrightarrow>
      sok s' \<and> slog s' = slog s \<and> scfg s' = scfg s"
    and put_ok: "sok s \<Longrightarrow> so_PutRuntimeConfig ops s h cf = (None, s') \<Longrightarrow>
      sok s' \<and> slog s' = slog s \<and> scfg s' = (scfg s)(h \<mapsto> cf) \<and> scfg s h \<in> {None, Some cf}"
    and put_err: "sok s \<Longrightarrow> so_PutRuntimeConfig ops s h cf = (Some e, s') \<Longrightarrow>
      sok s' \<and> slog s' = slog s \<and>
      (scfg s' = scfg s \<or> scfg s h = None \<and> scfg s' = (scfg s)(h \<mapsto> cf))"
    and load_head: "sok s \<Longrightarrow> log_wf sn (slog s) \<Longrightarrow> known (lineage_of sn (slog s)) b \<Longrightarrow>
      so_LoadHead ops s sn b = Inr r \<Longrightarrow>
      r = \<lparr>hr_Session = sn, hr_Branch = b, hr_Head = head_of sn (slog s) b\<rparr>"
    and load_plan: "sok s \<Longrightarrow> log_wf sn (slog s) \<Longrightarrow> length (slog s) \<le> MaxInt \<Longrightarrow>
      plan_ready sn (slog s) (scfg s) \<Longrightarrow> so_LoadReplayPlan ops s sn c = Some (Inr p) \<Longrightarrow>
      owner (lineage_of sn (slog s)) c = Some (pl_Branch p) \<and> pl_TargetCell p = c \<and>
      pl_Steps p = steps_of sn (slog s) c"
    and load_state: "sok s \<Longrightarrow> log_wf sn (slog s) \<Longrightarrow> length (slog s) \<le> MaxInt \<Longrightarrow>
      plan_ready sn (slog s) (scfg s) \<Longrightarrow> so_LoadSessionState ops s sn = Some (Inr st) \<Longrightarrow>
      sst_Session st = sn \<and> li_root (lineage_of sn (slog s)) \<noteq> None \<and>
      (sst_Branch st, sst_Head st) = cursor_of sn (slog s) \<and>
      sst_RuntimeHash st = active_hash sn (slog s) (sst_Branch st) (sst_Head st) \<and>
      sst_RuntimeConfig st = config_of (scfg s) (sst_RuntimeHash st)"

text \<open>
  A store whose driver does not fail: appends succeed, and so do the queries a
  running session makes. In a total store the session cursor can always be read.
\<close>

locale working_store = fact_store +
  assumes append_total: "sok s \<Longrightarrow> \<exists>s'. so_AppendFact ops s f = (None, s')"
    and head_total: "sok s \<Longrightarrow> log_wf sn (slog s) \<Longrightarrow> known (lineage_of sn (slog s)) b \<Longrightarrow>
      \<exists>r. so_LoadHead ops s sn b = Inr r"
    and plan_total: "sok s \<Longrightarrow> log_wf sn (slog s) \<Longrightarrow> length (slog s) \<le> MaxInt \<Longrightarrow>
      plan_ready sn (slog s) (scfg s) \<Longrightarrow> owner (lineage_of sn (slog s)) c \<noteq> None \<Longrightarrow>
      \<exists>p. so_LoadReplayPlan ops s sn c = Some (Inr p)"

locale total_store = working_store +
  assumes state_total: "sok s \<Longrightarrow> log_wf sn (slog s) \<Longrightarrow> length (slog s) \<le> MaxInt \<Longrightarrow>
      plan_ready sn (slog s) (scfg s) \<Longrightarrow> li_root (lineage_of sn (slog s)) \<noteq> None \<Longrightarrow>
      \<exists>st. so_LoadSessionState ops s sn = Some (Inr st)"

lemma errOnly_None [simp]: "errOnly s r = (None, s') \<longleftrightarrow> r = Inr s'"
  by (cases r) auto

lemma errOnly_Some [simp]: "errOnly s r = (Some e, s') \<longleftrightarrow> r = Inl e \<and> s' = s"
  by (cases r) auto

lemma memOps_sel [simp]:
  "so_AppendFact memOps s f = errOnly s (AppendFact s f)"
  "so_PutRuntimeConfig memOps s h c = errOnly s (PutRuntimeConfig s h c)"
  "so_LoadHead memOps = LoadHead" "so_LoadReplayPlan memOps = LoadReplayPlan"
  "so_LoadSessionState memOps = LoadSessionState" "so_LoadStaticEnv memOps = LoadStaticEnv"
  "so_LoadFailures memOps = LoadFailures" "so_LoadRuntimeConfig memOps = LoadRuntimeConfig"
  "so_LoadCellEffects memOps = LoadCellEffects"
  by (simp_all add: memOps_def)

lemma PutRuntimeConfig_Inr:
  "PutRuntimeConfig s h c = Inr s' \<Longrightarrow>
     runtimeConfigs s' = (runtimeConfigs s)(h \<mapsto> c) \<and> runtimeConfigs s h \<in> {None, Some c}"
  by (auto simp: PutRuntimeConfig_def fun_upd_idem split: option.splits if_splits)

lemma LoadSessionState_no_root:
  assumes "store_wf sn s" and "li_root (lineageOf sn s) = None"
  shows "LoadSessionState s sn = Some (Inl (NoSession sn))"
  using root_found [of s sn] assms by (simp add: store_wf_def LoadSessionState_def)

lemma mem_load_state:
  assumes "store_wf sn s" and "length (logOf s) \<le> MaxInt"
    and "plan_ready sn (logOf s) (runtimeConfigs s)" and "LoadSessionState s sn = Some (Inr st)"
  shows "sst_Session st = sn \<and> li_root (lineageOf sn s) \<noteq> None \<and>
    (sst_Branch st, sst_Head st) = cursor_of sn (logOf s) \<and>
    sst_RuntimeHash st = active_hash sn (logOf s) (sst_Branch st) (sst_Head st) \<and>
    sst_RuntimeConfig st = config_of (runtimeConfigs s) (sst_RuntimeHash st)"
proof (cases "li_root (lineageOf sn s)")
  case None
  then show ?thesis using LoadSessionState_no_root [OF assms(1)] assms(4) by simp
next
  case (Some r)
  obtain b c where "cursor_of sn (logOf s) = (b, c)" by (cases "cursor_of sn (logOf s)")
  with LoadSessionState_cursor [OF assms(1,2) Some this active_hash_stored [OF assms(3)]] Some assms(4)
  show ?thesis by auto
qed

lemma mem_load_plan:
  assumes "store_wf sn s" and "length (logOf s) \<le> MaxInt"
    and "plan_ready sn (logOf s) (runtimeConfigs s)" and "LoadReplayPlan s sn c = Some (Inr p)"
  shows "owner (lineageOf sn s) c = Some (pl_Branch p) \<and> pl_TargetCell p = c \<and>
    pl_Steps p = steps_of sn (logOf s) c"
proof (cases "owner (lineageOf sn s) c")
  case None
  then show ?thesis using LoadReplayPlan_unknown [of s sn c] assms by (simp add: store_wf_def)
next
  case (Some b)
  then show ?thesis using LoadReplayPlan_plan_of [OF assms(1-3) Some] assms(4) by (auto simp: plan_of_def Let_def)
qed

interpretation mem: total_store memOps logOf runtimeConfigs store_ok
proof
  fix s f s' e h cf c sn b r p st
  assume ok: "store_ok s"
  show "so_AppendFact memOps s f = (None, s') \<Longrightarrow>
      store_ok s' \<and> logOf s' = logOf s @ [f] \<and> runtimeConfigs s' = runtimeConfigs s"
    using ok by (simp add: AppendFact_store_ok AppendFact_logOf AppendFact_configs)
  show "so_AppendFact memOps s f = (Some e, s') \<Longrightarrow>
      store_ok s' \<and> logOf s' = logOf s \<and> runtimeConfigs s' = runtimeConfigs s"
    using ok by simp
  show "so_PutRuntimeConfig memOps s h cf = (None, s') \<Longrightarrow> store_ok s' \<and> logOf s' = logOf s \<and>
      runtimeConfigs s' = (runtimeConfigs s)(h \<mapsto> cf) \<and> runtimeConfigs s h \<in> {None, Some cf}"
    using ok PutRuntimeConfig_frame [of s h cf s'] PutRuntimeConfig_Inr [of s h cf s'] by simp
  show "so_PutRuntimeConfig memOps s h cf = (Some e, s') \<Longrightarrow> store_ok s' \<and> logOf s' = logOf s \<and>
      (runtimeConfigs s' = runtimeConfigs s \<or>
       runtimeConfigs s h = None \<and> runtimeConfigs s' = (runtimeConfigs s)(h \<mapsto> cf))"
    using ok by simp
  show "\<exists>s'. so_AppendFact memOps s f = (None, s')" by (simp add: AppendFact_def)
  assume wf: "log_wf sn (logOf s)"
  then have swf: "store_wf sn s" using ok by (simp add: store_wf_def)
  {
    assume "known (lineageOf sn s) b"
    then have "LoadHead s sn b = Inr \<lparr>hr_Session = sn, hr_Branch = b, hr_Head = head_of sn (logOf s) b\<rparr>"
      by (rule LoadHead_known [OF swf])
    then show "so_LoadHead memOps s sn b = Inr r \<Longrightarrow>
        r = \<lparr>hr_Session = sn, hr_Branch = b, hr_Head = head_of sn (logOf s) b\<rparr>"
      and "\<exists>r. so_LoadHead memOps s sn b = Inr r" by simp_all
  }
  assume len: "length (logOf s) \<le> MaxInt" and ready: "plan_ready sn (logOf s) (runtimeConfigs s)"
  show "so_LoadReplayPlan memOps s sn c = Some (Inr p) \<Longrightarrow>
      owner (lineageOf sn s) c = Some (pl_Branch p) \<and> pl_TargetCell p = c \<and> pl_Steps p = steps_of sn (logOf s) c"
    using mem_load_plan [OF swf len ready] by simp
  show "so_LoadSessionState memOps s sn = Some (Inr st) \<Longrightarrow>
      sst_Session st = sn \<and> li_root (lineageOf sn s) \<noteq> None \<and>
      (sst_Branch st, sst_Head st) = cursor_of sn (logOf s) \<and>
      sst_RuntimeHash st = active_hash sn (logOf s) (sst_Branch st) (sst_Head st) \<and>
      sst_RuntimeConfig st = config_of (runtimeConfigs s) (sst_RuntimeHash st)"
    using mem_load_state [OF swf len ready] by simp
  show "owner (lineageOf sn s) c \<noteq> None \<Longrightarrow> \<exists>p. so_LoadReplayPlan memOps s sn c = Some (Inr p)"
    using LoadReplayPlan_plan_of [OF swf len ready] by auto
  show "li_root (lineageOf sn s) \<noteq> None \<Longrightarrow> \<exists>st. so_LoadSessionState memOps s sn = Some (Inr st)"
    using LoadSessionState_cursor [OF swf len _ _ active_hash_stored [OF ready]]
    by (cases "cursor_of sn (logOf s)") auto
qed

end
