(* ===== verification/Sqlite_State.thy ===== *)
theory Sqlite_State
  imports Sqlite_Query Store_Ops
begin

text \<open>
  The last two queries of the SQLite store, the session cursor and the effects
  of a cell, and the store as an instance of the store contract. The session
  cursor differs from the in-memory store: its loop never returns once the
  session has restored a cell without making a branch for it.
\<close>

subsection \<open>The session cursor\<close>

abbreviation cursorRow :: "SessionID \<Rightarrow> row \<Rightarrow> bool" where
  "cursorRow sn r \<equiv> rw_session r = sn \<and> rw_type r \<in> {''HeadMoved'', ''RestoreCompleted''}"

text \<open>A restore to a committed cell that makes no branch.\<close>

fun plainRestore :: "SessionID \<Rightarrow> Fact \<Rightarrow> bool" where
  "plainRestore sn (RestoreCompleted f) \<longleftrightarrow> rc_Session f = sn \<and> rc_TargetCell f \<noteq> [] \<and> rc_NewBranch f = []"
| "plainRestore sn _ \<longleftrightarrow> False"

lemma sessionStateLoop_sql_Inr:
  "sql_ok s \<Longrightarrow> set rows \<subseteq> set (sq_rows s) \<Longrightarrow>
     sessionStateLoop_sql s sn i (filter (cursorRow sn) rows) cur = Some (Inr cur') \<Longrightarrow>
     sessionStateLoop (memOf s) sn cur (map (\<lambda>r. mkEntry (factOf s r)) rows) = Inr cur'"
proof (induction rows arbitrary: i cur)
  case (Cons r rows)
  then have r: "r \<in> set (sq_rows s)" by simp
  show ?case
    using Cons.IH Cons.prems rowOf_sel(3) [OF Cons.prems(1) r]
    by (cases "factOf s r")
       (auto simp: row_cols [OF Cons.prems(1) r] decodeAs_eq [OF Cons.prems(1) r] queryWhileOpen_def
             split: if_splits option.splits)
qed simp

lemma sessionStateLoop_sql_faultless:
  "sql_ok s \<Longrightarrow> faultless s \<Longrightarrow> set rows \<subseteq> set (sq_rows s) \<Longrightarrow>
     sessionStateLoop_sql s sn i (filter (cursorRow sn) rows) cur =
     (if list_ex (\<lambda>r. plainRestore sn (factOf s r)) rows then None
      else Some (sessionStateLoop (memOf s) sn cur (map (\<lambda>r. mkEntry (factOf s r)) rows)))"
proof (induction rows arbitrary: i cur)
  case (Cons r rows)
  then have r: "r \<in> set (sq_rows s)" by simp
  have "sqlErr s site j = None" for site j using Cons.prems(2) by (simp add: faultless_def sqlErr_def)
  then show ?case
    using Cons
    by (cases "factOf s r")
       (auto simp: row_cols [OF Cons.prems(1) r] decodeAs_eq [OF Cons.prems(1) r] queryWhileOpen_def)
qed simp

lemma LoadSessionState_sql_Inr:
  assumes ok: "sql_ok s" and "LoadSessionState_sql s sn = Some (Inr st)"
  shows "LoadSessionState (memOf s) sn = Some (Inr st)"
proof -
  from assms(2) obtain started b c h cf where q:
      "loadSessionStarted_sql s sn = Inr started"
      "sessionStateLoop_sql s sn 0 (selectAsc s (cursorRow sn)) (ss_RootBranch started, []) = Some (Inr (b, c))"
      "loadActiveRuntime_sql s sn b c = Some (Inr (h, cf))"
      "st = \<lparr>sst_Session = sn, sst_Branch = b, sst_Head = c, sst_RuntimeHash = h, sst_RuntimeConfig = cf\<rparr>"
    by (auto simp: LoadSessionState_sql_def split: option.splits)
  have "loadSessionStarted (memOf s) sn = Inr started"
    using agrees_Inr [OF loadSessionStarted_agree [OF ok] q(1)] .
  moreover have "sessionStateLoop (memOf s) sn (ss_RootBranch started, []) (facts (memOf s)) = Inr (b, c)"
    using sessionStateLoop_sql_Inr [OF ok subset_refl] q(2) by (simp add: selectAsc_eq [OF ok] facts_memOf)
  moreover have "loadActiveRuntime (memOf s) sn b c = Some (Inr (h, cf))"
    using cagrees_Inr [OF loadActiveRuntime_agree [OF ok] q(3)] by simp
  ultimately show ?thesis using q(4) by (simp add: LoadSessionState_def)
qed

lemma LoadSessionState_sql_blocks:
  assumes ok: "sql_ok s" and faultless: "faultless s" and started: "loadSessionStarted (memOf s) sn = Inr started"
    and plain: "list_ex (plainRestore sn) (sqlLog s)"
  shows "LoadSessionState_sql s sn = None"
proof -
  have "loadSessionStarted_sql s sn = Inr started"
    using agrees_faultless [OF loadSessionStarted_agree [OF ok] faultless started] .
  moreover have "sqlErr s site j = None" for site j using faultless by (simp add: faultless_def sqlErr_def)
  ultimately show ?thesis
    using plain sessionStateLoop_sql_faultless [OF ok faultless subset_refl]
    by (simp add: LoadSessionState_sql_def selectAsc_eq [OF ok] sqlLog_def list_ex_iff)
qed

lemma LoadSessionState_agree:
  assumes ok: "sql_ok s" and faultless: "faultless s" and plain: "\<not> list_ex (plainRestore sn) (sqlLog s)"
  shows "cagrees s (=) (LoadSessionState_sql s sn) (LoadSessionState (memOf s) sn)"
proof -
  have err: "sqlErr s site j = None" for site j using faultless by (simp add: faultless_def sqlErr_def)
  have loop: "sessionStateLoop_sql s sn 0 (selectAsc s (cursorRow sn)) cur =
      Some (sessionStateLoop (memOf s) sn cur (facts (memOf s)))" for cur
    using plain sessionStateLoop_sql_faultless [OF ok faultless subset_refl]
    by (simp add: selectAsc_eq [OF ok] sqlLog_def list_ex_iff facts_memOf)
  have refl: "cagrees s (=) (Some x) (Some x)" for x :: "StoreError + BranchID \<times> CellID" by (cases x) auto
  show ?thesis
    unfolding LoadSessionState_sql_def LoadSessionState_def loop err option.case
    by (rule cagrees_bind [OF cagrees_Some [OF loadSessionStarted_agree [OF ok]]], hypsubst)
       (auto intro!: cagrees_bind [OF refl] cagrees_bind [OF loadActiveRuntime_agree [OF ok]])
qed

subsection \<open>Effects of a cell\<close>

abbreviation effectRow :: "SessionID \<Rightarrow> row \<Rightarrow> bool" where
  "effectRow sn r \<equiv> rw_session r = sn \<and> rw_type r \<in> {''EffectStarted'', ''EffectCompleted'', ''EffectFailed''}"

lemma cellEffectsRow_total:
  assumes ok: "sql_ok s" and r: "r \<in> set (sq_rows s)"
  shows "cellEffectsRow s c r acc = Inr (projr (cellEffectsRow s c r acc))"
  by (cases "factOf s r")
     (auto simp: cellEffectsRow_def row_cols [OF ok r] decodeAs_eq [OF ok r] split: prod.splits)

lemma cellEffects_loop:
  assumes ok: "sql_ok s"
  shows "set rows \<subseteq> set (sq_rows s) \<Longrightarrow>
    fst (rowsLoop (\<lambda>r acc. projr (cellEffectsRow s c r acc)) (filter (effectRow sn) rows) (out, idx)) =
    cellEffectsLoop sn c out idx (map (\<lambda>r. mkEntry (factOf s r)) rows)"
proof (induction rows arbitrary: out idx)
  case (Cons r rows)
  then have r: "r \<in> set (sq_rows s)" by simp
  show ?case
    using Cons
    by (cases "factOf s r")
       (auto simp: cellEffectsRow_def row_cols [OF ok r] decodeAs_eq [OF ok r] split: option.splits)
qed simp

lemma LoadCellEffects_agree:
  assumes ok: "sql_ok s"
  shows "agrees s (=) (LoadCellEffects_sql s sn c) (LoadCellEffects (memOf s) sn c)"
  unfolding LoadCellEffects_sql_def LoadCellEffects_def selectAsc_eq [OF ok] facts_memOf
    cellEffects_loop [OF ok subset_refl, symmetric]
  by (rule queryRows_agrees [where step = "\<lambda>r acc. projr (cellEffectsRow s c r acc)"])
     (auto intro: cellEffectsRow_total [OF ok] split: prod.splits)

subsection \<open>The store contract\<close>

definition sqlOps :: "sqlStore StoreOps" where
  "sqlOps = \<lparr>so_AppendFact = AppendFact_sql, so_PutRuntimeConfig = PutRuntimeConfig_sql,
     so_LoadRuntimeConfig = LoadRuntimeConfig_sql, so_LoadHead = LoadHead_sql,
     so_LoadStaticEnv = LoadStaticEnv_sql, so_LoadReplayPlan = LoadReplayPlan_sql,
     so_LoadFailures = LoadFailures_sql, so_LoadSessionState = LoadSessionState_sql,
     so_LoadCellEffects = LoadCellEffects_sql\<rparr>"

lemma sqlOps_sel [simp]:
  "so_AppendFact sqlOps = AppendFact_sql" "so_PutRuntimeConfig sqlOps = PutRuntimeConfig_sql"
  "so_LoadHead sqlOps = LoadHead_sql" "so_LoadReplayPlan sqlOps = LoadReplayPlan_sql"
  "so_LoadSessionState sqlOps = LoadSessionState_sql" "so_LoadStaticEnv sqlOps = LoadStaticEnv_sql"
  "so_LoadFailures sqlOps = LoadFailures_sql" "so_LoadRuntimeConfig sqlOps = LoadRuntimeConfig_sql"
  "so_LoadCellEffects sqlOps = LoadCellEffects_sql"
  by (simp_all add: sqlOps_def)

lemma memOf_sel [simp]: "logOf (memOf s) = sqlLog s" "runtimeConfigs (memOf s) = sqlConfigs s" "store_ok (memOf s)"
  by (simp_all add: memOf_def logOf_def store_ok_def comp_def)

lemma PutRuntimeConfig_sql_frame:
  assumes "PutRuntimeConfig_sql s h cf = (e, s')"
  shows "sql_ok s' = sql_ok s \<and> sqlLog s' = sqlLog s"
proof -
  from assms have "sq_rows s' = sq_rows s \<and> sq_seq s' = sq_seq s \<and> sq_json s' = sq_json s"
    by (auto simp: PutRuntimeConfig_sql_def Let_def split: option.splits if_splits sum.splits)
  then show ?thesis by (simp add: sql_frame [of s' s])
qed

lemma PutRuntimeConfig_sql_ok:
  "PutRuntimeConfig_sql s h cf = (None, s') \<Longrightarrow>
     sqlConfigs s' = (sqlConfigs s)(h \<mapsto> cf) \<and> sqlConfigs s h \<in> {None, Some cf}"
  by (auto simp: PutRuntimeConfig_sql_def LoadRuntimeConfig_sql_def sqlConfigs_def Let_def fun_upd_twist fun_upd_idem
           split: option.splits if_splits sum.splits)

lemma PutRuntimeConfig_sql_err:
  "PutRuntimeConfig_sql s h cf = (Some e, s') \<Longrightarrow>
     sqlConfigs s' = sqlConfigs s \<or> sqlConfigs s h = None \<and> sqlConfigs s' = (sqlConfigs s)(h \<mapsto> cf)"
  by (cases "h = []")
     (auto simp: PutRuntimeConfig_sql_def sqlConfigs_def Let_def fun_upd_twist
           split: option.splits if_splits sum.splits)

interpretation sql: fact_store sqlOps sqlLog sqlConfigs sql_ok
proof
  fix s f s' e h cf c sn b r p st
  assume ok: "sql_ok s"
  show "so_AppendFact sqlOps s f = (None, s') \<Longrightarrow> sql_ok s' \<and> sqlLog s' = sqlLog s @ [f] \<and> sqlConfigs s' = sqlConfigs s"
    using AppendFact_sql_ok [OF ok] by simp
  show "so_AppendFact sqlOps s f = (Some e, s') \<Longrightarrow> sql_ok s' \<and> sqlLog s' = sqlLog s \<and> sqlConfigs s' = sqlConfigs s"
    using AppendFact_sql_err ok by simp
  show "so_PutRuntimeConfig sqlOps s h cf = (None, s') \<Longrightarrow> sql_ok s' \<and> sqlLog s' = sqlLog s \<and>
      sqlConfigs s' = (sqlConfigs s)(h \<mapsto> cf) \<and> sqlConfigs s h \<in> {None, Some cf}"
    using PutRuntimeConfig_sql_frame PutRuntimeConfig_sql_ok ok by simp
  show "so_PutRuntimeConfig sqlOps s h cf = (Some e, s') \<Longrightarrow> sql_ok s' \<and> sqlLog s' = sqlLog s \<and>
      (sqlConfigs s' = sqlConfigs s \<or> sqlConfigs s h = None \<and> sqlConfigs s' = (sqlConfigs s)(h \<mapsto> cf))"
    using PutRuntimeConfig_sql_frame PutRuntimeConfig_sql_err ok by simp
  assume "log_wf sn (sqlLog s)"
  then have wf: "store_wf sn (memOf s)" by (simp add: store_wf_def)
  show "known (lineage_of sn (sqlLog s)) b \<Longrightarrow> so_LoadHead sqlOps s sn b = Inr r \<Longrightarrow>
      r = \<lparr>hr_Session = sn, hr_Branch = b, hr_Head = head_of sn (sqlLog s) b\<rparr>"
    using agrees_Inr [OF LoadHead_agree [OF ok]] LoadHead_known [OF wf] by fastforce
  assume len: "length (sqlLog s) \<le> MaxInt" and ready: "plan_ready sn (sqlLog s) (sqlConfigs s)"
  show "so_LoadReplayPlan sqlOps s sn c = Some (Inr p) \<Longrightarrow>
      owner (lineage_of sn (sqlLog s)) c = Some (pl_Branch p) \<and> pl_TargetCell p = c \<and> pl_Steps p = steps_of sn (sqlLog s) c"
    using cagrees_Inr [OF LoadReplayPlan_agree [OF ok], of sn c p] mem_load_plan [OF wf] len ready
    by (auto simp: rankedPlan_def)
  show "so_LoadSessionState sqlOps s sn = Some (Inr st) \<Longrightarrow>
      sst_Session st = sn \<and> li_root (lineage_of sn (sqlLog s)) \<noteq> None \<and>
      (sst_Branch st, sst_Head st) = cursor_of sn (sqlLog s) \<and>
      sst_RuntimeHash st = active_hash sn (sqlLog s) (sst_Branch st) (sst_Head st) \<and>
      sst_RuntimeConfig st = config_of (sqlConfigs s) (sst_RuntimeHash st)"
    using mem_load_state [OF wf] LoadSessionState_sql_Inr [OF ok] len ready by simp
qed

text \<open>A database whose driver does not fail and whose codec encodes every fact.\<close>

definition sql_works :: "sqlStore \<Rightarrow> bool" where
  "sql_works s \<longleftrightarrow> sql_ok s \<and> faultless s \<and> (\<forall>f. \<not> isl (js_marshal (sq_json s) f))"

lemma AppendFact_sql_keeps:
  "AppendFact_sql s f = (e, s') \<Longrightarrow> sq_json s' = sq_json s \<and> sq_fail s' = sq_fail s"
  by (auto simp: AppendFact_sql_def split: sum.splits option.splits prod.splits)

lemma PutRuntimeConfig_sql_keeps:
  "PutRuntimeConfig_sql s h c = (e, s') \<Longrightarrow> sq_json s' = sq_json s \<and> sq_fail s' = sq_fail s"
  by (auto simp: PutRuntimeConfig_sql_def Let_def split: option.splits if_splits sum.splits)

lemma AppendFact_sql_total:
  assumes "sql_works s"
  shows "\<exists>s'. AppendFact_sql s f = (None, s')"
proof -
  have "sqlErr s site i = None" for site i using assms by (auto simp: sql_works_def faultless_def sqlErr_def)
  then show ?thesis
    using assms [unfolded sql_works_def, THEN conjunct2, THEN conjunct2, rule_format, of f]
    by (cases "js_marshal (sq_json s) f") (auto simp: AppendFact_sql_def split: prod.splits)
qed

lemma sql_works_write:
  "sql_works s \<Longrightarrow> sql_ok s' \<Longrightarrow> sq_json s' = sq_json s \<and> sq_fail s' = sq_fail s \<Longrightarrow> sql_works s'"
  by (auto simp: sql_works_def faultless_def)

interpretation sqlw: working_store sqlOps sqlLog sqlConfigs sql_works
proof
  fix s f s' e h cf c sn b r p st
  assume w: "sql_works s"
  then have ok: "sql_ok s" and faultless: "faultless s" by (simp_all add: sql_works_def)
  show "so_AppendFact sqlOps s f = (None, s') \<Longrightarrow> sql_works s' \<and> sqlLog s' = sqlLog s @ [f] \<and> sqlConfigs s' = sqlConfigs s"
    using sql.append_ok [OF ok] sql_works_write [OF w] AppendFact_sql_keeps by simp
  show "so_AppendFact sqlOps s f = (Some e, s') \<Longrightarrow> sql_works s' \<and> sqlLog s' = sqlLog s \<and> sqlConfigs s' = sqlConfigs s"
    using sql.append_err [OF ok] sql_works_write [OF w] AppendFact_sql_keeps by simp
  show "so_PutRuntimeConfig sqlOps s h cf = (None, s') \<Longrightarrow> sql_works s' \<and> sqlLog s' = sqlLog s \<and>
      sqlConfigs s' = (sqlConfigs s)(h \<mapsto> cf) \<and> sqlConfigs s h \<in> {None, Some cf}"
    using sql.put_ok [OF ok] sql_works_write [OF w] PutRuntimeConfig_sql_keeps by simp
  show "so_PutRuntimeConfig sqlOps s h cf = (Some e, s') \<Longrightarrow> sql_works s' \<and> sqlLog s' = sqlLog s \<and>
      (sqlConfigs s' = sqlConfigs s \<or> sqlConfigs s h = None \<and> sqlConfigs s' = (sqlConfigs s)(h \<mapsto> cf))"
    using sql.put_err [OF ok] sql_works_write [OF w] PutRuntimeConfig_sql_keeps by simp
  show "\<exists>s'. so_AppendFact sqlOps s f = (None, s')" using AppendFact_sql_total [OF w] by simp
  assume wf: "log_wf sn (sqlLog s)"
  then have swf: "store_wf sn (memOf s)" by (simp add: store_wf_def)
  show "known (lineage_of sn (sqlLog s)) b \<Longrightarrow> so_LoadHead sqlOps s sn b = Inr r \<Longrightarrow>
      r = \<lparr>hr_Session = sn, hr_Branch = b, hr_Head = head_of sn (sqlLog s) b\<rparr>"
    by (rule sql.load_head [OF ok wf])
  show "known (lineage_of sn (sqlLog s)) b \<Longrightarrow> \<exists>r. so_LoadHead sqlOps s sn b = Inr r"
    using agrees_faultless [OF LoadHead_agree [OF ok] faultless LoadHead_known [OF swf]] by auto
  assume len: "length (sqlLog s) \<le> MaxInt" and ready: "plan_ready sn (sqlLog s) (sqlConfigs s)"
  show "so_LoadReplayPlan sqlOps s sn c = Some (Inr p) \<Longrightarrow>
      owner (lineage_of sn (sqlLog s)) c = Some (pl_Branch p) \<and> pl_TargetCell p = c \<and> pl_Steps p = steps_of sn (sqlLog s) c"
    by (rule sql.load_plan [OF ok wf len ready])
  show "owner (lineage_of sn (sqlLog s)) c \<noteq> None \<Longrightarrow> \<exists>p. so_LoadReplayPlan sqlOps s sn c = Some (Inr p)"
    using LoadReplayPlan_plan_of [OF swf] len ready cagrees_faultless [OF LoadReplayPlan_agree [OF ok] faultless, of sn c] by fastforce
  show "so_LoadSessionState sqlOps s sn = Some (Inr st) \<Longrightarrow>
      sst_Session st = sn \<and> li_root (lineage_of sn (sqlLog s)) \<noteq> None \<and>
      (sst_Branch st, sst_Head st) = cursor_of sn (sqlLog s) \<and>
      sst_RuntimeHash st = active_hash sn (sqlLog s) (sst_Branch st) (sst_Head st) \<and>
      sst_RuntimeConfig st = config_of (sqlConfigs s) (sst_RuntimeHash st)"
    by (rule sql.load_state [OF ok wf len ready])
qed

end
