(* ===== verification/Effects.thy ===== *)
theory Effects
  imports Store_Ops "HOL-Library.AList"
begin

text \<open>
  Host effects of \<open>src/session/runtime.go\<close>: the per-cell effect accumulator, the
  replay step, and the two ways a host call is served, live (journalled in the
  store) and replayed (answered from the journal).

  The JavaScript engine itself is a library. A run of a cell is given as the
  tree of what the engine does at its boundary: it calls host functions and
  continues with their answers, writes to the console, tracks rejected
  promises, delivers the outcome of the cell, and goes idle when its event
  loop is empty, to be woken by the settlement of an asynchronous call. Such a
  tree is finite along every answer: it is a run that ends.
\<close>

subsection \<open>Boundary of the engine\<close>

record 'v evalResult =
  ev_completionValue :: "ValueRef option"
  ev_structured :: bytes
  ev_indexedValue :: 'v
  ev_hasIndexedValue :: bool

text \<open>
  The answer to a synchronous call is a value (the recorded bytes, decoded by
  the engine) with the effect's identifier, or a thrown error. An asynchronous
  call gives a promise: pending under an effect, or rejected at once, with the
  identifier the caller gets (\<open>[]\<close> if none).
\<close>

datatype hostReply = HReturn EffectID bytes | HThrow string
datatype asyncReply = APending EffectID | AReject EffectID string
datatype settlement = SResolve bytes | SReject string

text \<open>
  A call carries the function's name, its replay policy and the encoding of its
  first argument, which may have failed. Asynchronous calls are numbered from 0
  in call order, and \<open>Idle\<close> is woken with the number of the settled call. At
  \<open>Halt\<close> no JavaScript is left that waits for a call: calls still in flight are
  settled, but nothing runs on their settlement.
\<close>

datatype ('vm, 'v) js =
    Halt 'vm
  | Idle 'vm "nat \<Rightarrow> settlement \<Rightarrow> ('vm, 'v) js"
  | Deliver "string + 'v evalResult" "('vm, 'v) js"
  | SyncCall string ReplayPolicy "string + bytes" "hostReply \<Rightarrow> ('vm, 'v) js"
  | AsyncCall string ReplayPolicy "string + bytes" "asyncReply \<Rightarrow> ('vm, 'v) js"
  | Console string "('vm, 'v) js"
  | PromiseReject nat string "('vm, 'v) js"
  | PromiseHandle nat "('vm, 'v) js"

text \<open>The texts of store errors.\<close>

primrec StoreErrorText :: "StoreError \<Rightarrow> string" where
  "StoreErrorText (HashCollision h) = ''mem: PutRuntimeConfig: hash collision for '' @ quote h"
| "StoreErrorText (RuntimeHashNotFound h) = ''mem: LoadRuntimeConfig: runtime hash '' @ quote h @ '' not found''"
| "StoreErrorText (BranchNotFound s b) = ''mem: LoadHead: session '' @ quote s @ '' branch '' @ quote b @ '' not found''"
| "StoreErrorText (NoManifest s) = ''mem: loadManifestAttached: no manifest for session '' @ quote s"
| "StoreErrorText (NoSession s) = ''mem: loadSessionStarted: no session '' @ quote s"
| "StoreErrorText (NotCommitted c s) = ''mem: branchForCell: cell '' @ quote c @ '' not committed in session '' @ quote s"
| "StoreErrorText (NoCellChecked c) = ''mem: loadCellStaticDetails: no CellChecked for cell '' @ quote c"
| "StoreErrorText (EffectStartedNotFound e) =
     ''mem: loadReplayDecision: EffectStarted not found for effect '' @ quote e"
| "StoreErrorText (Wrapped p e) = p @ '': '' @ StoreErrorText e"
| "StoreErrorText (DriverError e) = e"

subsection \<open>The effect accumulator\<close>

type_synonym EffectStatus = string

definition EffectStatusPending :: EffectStatus where "EffectStatusPending = ''pending''"
definition EffectStatusCompleted :: EffectStatus where "EffectStatusCompleted = ''completed''"
definition EffectStatusFailed :: EffectStatus where "EffectStatusFailed = ''failed''"

record EffectSummary =
  sm_Effect :: EffectID
  sm_FunctionName :: string
  sm_Params :: bytes
  sm_Result :: bytes
  sm_ErrorMessage :: string
  sm_ReplayPolicy :: ReplayPolicy
  sm_Status :: EffectStatus

text \<open>
  \<open>unhandledRejection\<close> is a map keyed by promise; the association list keeps the
  iteration order of that map, which Go leaves open, as part of the value.
\<close>

record effectAccumulator =
  ac_order :: "EffectID list"
  ac_effects :: "EffectID \<rightharpoonup> EffectSummary"
  ac_asyncEffects :: "EffectID set"
  ac_pendingAsync :: nat
  ac_unhandledRejection :: "(nat \<times> string) list"
  ac_logs :: "string list"

definition newAccumulator :: effectAccumulator where
  "newAccumulator = \<lparr>ac_order = [], ac_effects = Map.empty, ac_asyncEffects = {}, ac_pendingAsync = 0,
     ac_unhandledRejection = [], ac_logs = []\<rparr>"

definition recordStarted ::
  "EffectID \<Rightarrow> string \<Rightarrow> bytes \<Rightarrow> ReplayPolicy \<Rightarrow> effectAccumulator \<Rightarrow> effectAccumulator" where
  "recordStarted effectID name params replay a =
     a\<lparr>ac_order := (if ac_effects a effectID = None then ac_order a @ [effectID] else ac_order a),
       ac_effects := (ac_effects a)(effectID \<mapsto>
         \<lparr>sm_Effect = effectID, sm_FunctionName = name, sm_Params = params, sm_Result = [],
          sm_ErrorMessage = [], sm_ReplayPolicy = replay, sm_Status = EffectStatusPending\<rparr>)\<rparr>"

definition addAsync ::
  "EffectID \<Rightarrow> string \<Rightarrow> bytes \<Rightarrow> ReplayPolicy \<Rightarrow> effectAccumulator \<Rightarrow> effectAccumulator" where
  "addAsync effectID name params replay a =
     (let a = recordStarted effectID name params replay a in
      a\<lparr>ac_asyncEffects := insert effectID (ac_asyncEffects a), ac_pendingAsync := ac_pendingAsync a + 1\<rparr>)"

definition markAsyncSettledLocked :: "EffectID \<Rightarrow> effectAccumulator \<Rightarrow> effectAccumulator" where
  "markAsyncSettledLocked effectID a =
     (if effectID \<notin> ac_asyncEffects a then a
      else a\<lparr>ac_asyncEffects := ac_asyncEffects a - {effectID}, ac_pendingAsync := ac_pendingAsync a - 1\<rparr>)"

definition recordCompleted :: "EffectID \<Rightarrow> bytes \<Rightarrow> effectAccumulator \<Rightarrow> effectAccumulator" where
  "recordCompleted effectID result a =
     (case ac_effects a effectID of None \<Rightarrow> a
      | Some summary \<Rightarrow> markAsyncSettledLocked effectID
          (a\<lparr>ac_effects := (ac_effects a)(effectID \<mapsto> summary\<lparr>sm_Status := EffectStatusCompleted,
             sm_Result := result, sm_ErrorMessage := []\<rparr>)\<rparr>))"

definition recordFailed :: "EffectID \<Rightarrow> string \<Rightarrow> effectAccumulator \<Rightarrow> effectAccumulator" where
  "recordFailed effectID errorMessage a =
     (case ac_effects a effectID of None \<Rightarrow> a
      | Some summary \<Rightarrow> markAsyncSettledLocked effectID
          (a\<lparr>ac_effects := (ac_effects a)(effectID \<mapsto> summary\<lparr>sm_Status := EffectStatusFailed,
             sm_Result := [], sm_ErrorMessage := errorMessage\<rparr>)\<rparr>))"

definition recordPromiseRejection :: "nat \<Rightarrow> string option \<Rightarrow> effectAccumulator \<Rightarrow> effectAccumulator" where
  "recordPromiseRejection p operation a =
     (case operation of
        Some reason \<Rightarrow> a\<lparr>ac_unhandledRejection := AList.update p reason (ac_unhandledRejection a)\<rparr>
      | None \<Rightarrow> a\<lparr>ac_unhandledRejection := filter (\<lambda>(q, _). q \<noteq> p) (ac_unhandledRejection a)\<rparr>)"

definition unhandledPromiseError :: "effectAccumulator \<Rightarrow> string option" where
  "unhandledPromiseError a =
     (case ac_unhandledRejection a of [] \<Rightarrow> None | (_, reason) # _ \<Rightarrow> Some (''promise rejected: '' @ reason))"

text \<open>\<open>drain\<close> returns the summaries in start order; a missing key reads as the zero struct.\<close>

definition zeroSummary :: EffectSummary where
  "zeroSummary = \<lparr>sm_Effect = [], sm_FunctionName = [], sm_Params = [], sm_Result = [],
     sm_ErrorMessage = [], sm_ReplayPolicy = [], sm_Status = []\<rparr>"

definition drain :: "effectAccumulator \<Rightarrow> EffectSummary list \<times> effectAccumulator" where
  "drain a = (map (\<lambda>e. case ac_effects a e of None \<Rightarrow> zeroSummary | Some sm \<Rightarrow> sm) (ac_order a),
     a\<lparr>ac_order := [], ac_effects := Map.empty, ac_asyncEffects := {}, ac_pendingAsync := 0,
       ac_unhandledRejection := []\<rparr>)"

definition recordLog :: "string \<Rightarrow> effectAccumulator \<Rightarrow> effectAccumulator" where
  "recordLog line a = a\<lparr>ac_logs := ac_logs a @ [line]\<rparr>"

definition drainLogs :: "effectAccumulator \<Rightarrow> string list \<times> effectAccumulator" where
  "drainLogs a = (ac_logs a, a\<lparr>ac_logs := []\<rparr>)"

definition effectIDsFromSummaries :: "EffectSummary list \<Rightarrow> EffectID list" where
  "effectIDsFromSummaries summaries = map sm_Effect summaries"

subsection \<open>The replay step\<close>

record replayInvocation =
  ri_effectID :: EffectID
  ri_decision :: ReplayDecision

text \<open>
  A queued settler resolves the promise of call number \<open>n\<close> with the recorded
  bytes; \<open>pendingAsync\<close> maps completion orders to the settlers queued under them.
\<close>

record replayStepState =
  rp_effects :: "replayInvocation list"
  rp_nextStart :: nat
  rp_pendingAsync :: "(nat \<times> (nat \<times> bytes) list) list"
  rp_flushScheduled :: bool

definition newReplayStepState ::
  "EffectID list \<Rightarrow> (EffectID \<rightharpoonup> ReplayDecision) \<Rightarrow> string + replayStepState" where
  "newReplayStepState effectIDs decisions =
     rbind (rmap (\<lambda>e. case decisions e of
                    None \<Rightarrow> Inl (''missing replay decision for effect '' @ quote e)
                  | Some d \<Rightarrow> Inr \<lparr>ri_effectID = e, ri_decision = d\<rparr>) effectIDs)
       (\<lambda>invs. Inr \<lparr>rp_effects = invs, rp_nextStart = 0, rp_pendingAsync = [], rp_flushScheduled = False\<rparr>)"

definition nextEffect :: "replayStepState \<Rightarrow> string + replayInvocation \<times> replayStepState" where
  "nextEffect s =
     (if rp_nextStart s \<ge> length (rp_effects s) then Inl ''replay effect stream exhausted''
      else Inr (rp_effects s ! rp_nextStart s, s\<lparr>rp_nextStart := rp_nextStart s + 1\<rparr>))"

definition queueAsync :: "nat \<Rightarrow> nat \<times> bytes \<Rightarrow> replayStepState \<Rightarrow> bool \<times> replayStepState" where
  "queueAsync order settle s =
     (let old = (case map_of (rp_pendingAsync s) order of None \<Rightarrow> [] | Some xs \<Rightarrow> xs);
          s = s\<lparr>rp_pendingAsync := AList.update order (old @ [settle]) (rp_pendingAsync s)\<rparr>
      in if rp_flushScheduled s then (False, s) else (True, s\<lparr>rp_flushScheduled := True\<rparr>))"

definition takePendingAsync :: "replayStepState \<Rightarrow> (nat \<times> bytes) list \<times> replayStepState" where
  "takePendingAsync s =
     (if rp_pendingAsync s = [] then ([], s\<lparr>rp_flushScheduled := False\<rparr>)
      else (concat (map (\<lambda>order. the (map_of (rp_pendingAsync s) order))
              (sort (map fst (rp_pendingAsync s)))),
            s\<lparr>rp_pendingAsync := [], rp_flushScheduled := False\<rparr>))"

definition ensureConsumed :: "replayStepState \<Rightarrow> string option" where
  "ensureConsumed s = (if rp_nextStart s \<noteq> length (rp_effects s)
     then Some (''replay consumed '' @ showNat (rp_nextStart s) @ '' of '' @ showNat (length (rp_effects s)) @ '' expected effects'') else None)"

subsection \<open>Live calls\<close>

text \<open>
  What a live run depends on outside the program: the identifiers \<open>uuid\<close>
  generates, in order, the host functions themselves, the order in which
  asynchronous calls finish, and the clock.
\<close>

record hostEnv =
  hv_uuid :: "nat \<Rightarrow> EffectID"
  hv_invoke :: "EffectID \<Rightarrow> string \<Rightarrow> bytes \<Rightarrow> string + bytes"
  hv_pick :: "nat \<Rightarrow> nat"
  hv_now :: Time

record ('s, 'v) cellRun =
  cr_store :: 's
  cr_acc :: effectAccumulator
  cr_inflight :: "(nat \<times> EffectID \<times> string \<times> bytes) list"
  cr_asyncCalls :: nat
  cr_uuids :: nat
  cr_outcome :: "(string + 'v evalResult) option"

definition effectStarted ::
  "SessionID \<Rightarrow> CellID \<Rightarrow> hostEnv \<Rightarrow> EffectID \<Rightarrow> string \<Rightarrow> ReplayPolicy \<Rightarrow> bytes \<Rightarrow> Fact" where
  "effectStarted sn cell H e name replay params = EffectStarted
     \<lparr>es_Session = sn, es_Effect = e, es_Cell = cell, es_FunctionName = name, es_Params = params,
      es_IdempotencyKey = [], es_ReplayPolicy = replay, es_At = hv_now H\<rparr>"

definition effectCompleted :: "SessionID \<Rightarrow> hostEnv \<Rightarrow> EffectID \<Rightarrow> bytes \<Rightarrow> Fact" where
  "effectCompleted sn H e r =
     EffectCompleted \<lparr>ec_Session = sn, ec_Effect = e, ec_Result = r, ec_At = hv_now H\<rparr>"

definition effectFailed :: "SessionID \<Rightarrow> hostEnv \<Rightarrow> EffectID \<Rightarrow> string \<Rightarrow> Fact" where
  "effectFailed sn H e msg =
     EffectFailed \<lparr>ef_Session = sn, ef_Effect = e, ef_ErrorMessage = msg, ef_At = hv_now H\<rparr>"

text \<open>
  The part both calls share once the host function has returned: journal the
  result, and on an error of the host function or of the journal mark the
  effect failed and journal that, ignoring errors of this last append.
\<close>

definition settleLive ::
  "'s StoreOps \<Rightarrow> SessionID \<Rightarrow> hostEnv \<Rightarrow> string \<Rightarrow> EffectID \<Rightarrow> string + bytes \<Rightarrow> ('s, 'v) cellRun \<Rightarrow>
   settlement \<times> ('s, 'v) cellRun" where
  "settleLive ops sn H name e res c =
     (case res of
        Inl err \<Rightarrow>
          (SReject err, c\<lparr>cr_acc := recordFailed e err (cr_acc c),
             cr_store := snd (so_AppendFact ops (cr_store c) (effectFailed sn H e err))\<rparr>)
      | Inr r \<Rightarrow>
          (case so_AppendFact ops (cr_store c) (effectCompleted sn H e r) of
             (None, st) \<Rightarrow> (SResolve r, c\<lparr>cr_store := st, cr_acc := recordCompleted e r (cr_acc c)\<rparr>)
           | (Some err, st) \<Rightarrow>
               (let msg = ''host function '' @ quote name @ '': journal EffectCompleted: '' @ StoreErrorText err in
                (SReject msg, c\<lparr>cr_acc := recordFailed e msg (cr_acc c),
                   cr_store := snd (so_AppendFact ops st (effectFailed sn H e msg))\<rparr>))))"

definition invokeSyncLive ::
  "'s StoreOps \<Rightarrow> SessionID \<Rightarrow> CellID \<Rightarrow> hostEnv \<Rightarrow> string \<Rightarrow> ReplayPolicy \<Rightarrow> string + bytes \<Rightarrow>
   ('s, 'v) cellRun \<Rightarrow> hostReply \<times> ('s, 'v) cellRun" where
  "invokeSyncLive ops sn cell H name replay arg c =
     (case arg of
        Inl err \<Rightarrow> (HThrow err, c)
      | Inr params \<Rightarrow>
          (let e = hv_uuid H (cr_uuids c); c = c\<lparr>cr_uuids := cr_uuids c + 1\<rparr> in
           case so_AppendFact ops (cr_store c) (effectStarted sn cell H e name replay params) of
             (Some err, st) \<Rightarrow>
               (HThrow (''host function '' @ quote name @ '': journal EffectStarted: '' @ StoreErrorText err),
                c\<lparr>cr_store := st\<rparr>)
           | (None, st) \<Rightarrow>
               (case settleLive ops sn H name e (hv_invoke H e name params)
                  (c\<lparr>cr_store := st, cr_acc := recordStarted e name params replay (cr_acc c)\<rparr>) of
                  (SResolve r, c) \<Rightarrow> (HReturn e r, c)
                | (SReject msg, c) \<Rightarrow> (HThrow msg, c))))"

definition invokeAsyncLive ::
  "'s StoreOps \<Rightarrow> SessionID \<Rightarrow> CellID \<Rightarrow> hostEnv \<Rightarrow> string \<Rightarrow> ReplayPolicy \<Rightarrow> string + bytes \<Rightarrow>
   ('s, 'v) cellRun \<Rightarrow> asyncReply \<times> ('s, 'v) cellRun" where
  "invokeAsyncLive ops sn cell H name replay arg c =
     (let n = cr_asyncCalls c; c = c\<lparr>cr_asyncCalls := n + 1\<rparr> in
      case arg of
        Inl err \<Rightarrow> (AReject [] err, c)
      | Inr params \<Rightarrow>
          (let e = hv_uuid H (cr_uuids c); c = c\<lparr>cr_uuids := cr_uuids c + 1\<rparr> in
           case so_AppendFact ops (cr_store c) (effectStarted sn cell H e name replay params) of
             (Some err, st) \<Rightarrow>
               (AReject [] (''host function '' @ quote name @ '': journal EffectStarted: '' @ StoreErrorText err),
                c\<lparr>cr_store := st\<rparr>)
           | (None, st) \<Rightarrow>
               (APending e, c\<lparr>cr_store := st, cr_acc := addAsync e name params replay (cr_acc c),
                              cr_inflight := cr_inflight c @ [(n, e, name, params)]\<rparr>)))"

text \<open>One asynchronous call finishes: the one the environment picks among those in flight.\<close>

definition finishAsync ::
  "'s StoreOps \<Rightarrow> SessionID \<Rightarrow> hostEnv \<Rightarrow> ('s, 'v) cellRun \<Rightarrow> nat \<times> settlement \<times> ('s, 'v) cellRun" where
  "finishAsync ops sn H c =
     (let i = hv_pick H (cr_uuids c) mod length (cr_inflight c) in
      case cr_inflight c ! i of (n, e, name, params) \<Rightarrow>
        (case settleLive ops sn H name e (hv_invoke H e name params)
            (c\<lparr>cr_inflight := take i (cr_inflight c) @ drop (Suc i) (cr_inflight c)\<rparr>) of
           (s, c) \<Rightarrow> (n, s, c)))"

function drainInflight ::
  "'s StoreOps \<Rightarrow> SessionID \<Rightarrow> hostEnv \<Rightarrow> ('s, 'v) cellRun \<Rightarrow> ('s, 'v) cellRun" where
  "drainInflight ops sn H c =
     (if cr_inflight c = [] then c
      else case finishAsync ops sn H c of (_, _, c) \<Rightarrow> drainInflight ops sn H c)"
  by auto

lemma settleLive_inflight [simp]: "cr_inflight (snd (settleLive ops sn H name e res c)) = cr_inflight c"
  by (auto simp: settleLive_def Let_def split: sum.splits option.splits prod.splits)

lemma finishAsync_shrinks:
  assumes "cr_inflight c \<noteq> []"
  shows "length (cr_inflight (snd (snd (finishAsync ops sn H c)))) < length (cr_inflight c)"
proof -
  let ?i = "hv_pick H (cr_uuids c) mod length (cr_inflight c)"
  have "?i < length (cr_inflight c)" using assms by simp
  then show ?thesis by (simp add: finishAsync_def Let_def case_prod_unfold)
qed

termination drainInflight
proof (relation "measure (\<lambda>(_, _, _, c). length (cr_inflight c))", goal_cases)
  case (2 ops sn H c x y xa ya)
  then show ?case
    using finishAsync_shrinks [of c ops sn H] by (cases "finishAsync ops sn H c") auto
qed simp

declare drainInflight.simps [simp del]

text \<open>
  The evaluation of a cell: the first delivered outcome is the result of
  \<open>runContext\<close>; the run goes on until no call is in flight
  (\<open>awaitCellSettled\<close>), and an idle run with nothing in flight is over.
\<close>

primrec liveCell ::
  "'s StoreOps \<Rightarrow> SessionID \<Rightarrow> CellID \<Rightarrow> hostEnv \<Rightarrow> ('vm, 'v) js \<Rightarrow> ('s, 'v) cellRun \<Rightarrow>
   'vm \<times> ('s, 'v) cellRun" where
  "liveCell ops sn cell H (Halt vm) c = (vm, drainInflight ops sn H c)"
| "liveCell ops sn cell H (Idle vm k) c =
     (if cr_inflight c = [] then (vm, c)
      else case finishAsync ops sn H c of (n, s, c) \<Rightarrow> liveCell ops sn cell H (k n s) c)"
| "liveCell ops sn cell H (Deliver out k) c =
     liveCell ops sn cell H k (if cr_outcome c = None then c\<lparr>cr_outcome := Some out\<rparr> else c)"
| "liveCell ops sn cell H (SyncCall name replay arg k) c =
     (case invokeSyncLive ops sn cell H name replay arg c of (r, c) \<Rightarrow> liveCell ops sn cell H (k r) c)"
| "liveCell ops sn cell H (AsyncCall name replay arg k) c =
     (case invokeAsyncLive ops sn cell H name replay arg c of (r, c) \<Rightarrow> liveCell ops sn cell H (k r) c)"
| "liveCell ops sn cell H (Console line k) c =
     liveCell ops sn cell H k (c\<lparr>cr_acc := recordLog line (cr_acc c)\<rparr>)"
| "liveCell ops sn cell H (PromiseReject p reason k) c =
     liveCell ops sn cell H k (c\<lparr>cr_acc := recordPromiseRejection p (Some reason) (cr_acc c)\<rparr>)"
| "liveCell ops sn cell H (PromiseHandle p k) c =
     liveCell ops sn cell H k (c\<lparr>cr_acc := recordPromiseRejection p None (cr_acc c)\<rparr>)"

subsection \<open>Replayed calls\<close>

text \<open>
  The state of a replayed run: the replay step (\<open>None\<close> once it is finished), the
  settlers of the flush in progress, the number of asynchronous calls so far,
  the delivered outcome, and the accumulator that keeps console lines and
  rejected promises where the caller has installed one. A flush queued with the event loop runs
  when the loop is idle; it takes all pending settlers in completion order and
  calls them one after the other. \<open>clock\<close> stands for \<open>time.Now().UnixNano()\<close>.
\<close>

record 'v replayRun =
  rr_step :: replayStepState
  rr_open :: bool
  rr_batch :: "(nat \<times> bytes) list"
  rr_asyncCalls :: nat
  rr_outcome :: "(string + 'v evalResult) option"
  rr_acc :: effectAccumulator

definition nextReplayInvocation :: "'v replayRun \<Rightarrow> string + replayInvocation \<times> 'v replayRun" where
  "nextReplayInvocation r =
     (if \<not> rr_open r then Inl ''replay host function invoked outside replay step''
      else rbind (nextEffect (rr_step r)) (\<lambda>(iv, st). Inr (iv, r\<lparr>rr_step := st\<rparr>)))"

text \<open>The checks both replayed calls make on the recorded invocation.\<close>

definition replayRefusal :: "string \<Rightarrow> replayInvocation \<Rightarrow> string option" where
  "replayRefusal name iv =
     (if rd_Policy (ri_decision iv) = ReplayNonReplayable
      then Some (''non-replayable effect: function '' @ quote name @ '' effectID '' @ quote (ri_effectID iv) @ '' cannot be replayed'')
      else if rd_RecordedResult (ri_decision iv) = []
      then Some (''host function '' @ quote name @ '' replay: missing recorded result for effect '' @ quote (ri_effectID iv))
      else None)"

definition invokeSyncReplay ::
  "string \<Rightarrow> string + bytes \<Rightarrow> 'v replayRun \<Rightarrow> hostReply \<times> 'v replayRun" where
  "invokeSyncReplay name arg r =
     (case arg of
        Inl err \<Rightarrow> (HThrow err, r)
      | Inr _ \<Rightarrow>
          (case nextReplayInvocation r of
             Inl err \<Rightarrow> (HThrow (''host function '' @ quote name @ '' replay: '' @ err), r)
           | Inr (iv, r) \<Rightarrow>
               (case replayRefusal name iv of
                  Some msg \<Rightarrow> (HThrow msg, r)
                | None \<Rightarrow> (HReturn (ri_effectID iv) (rd_RecordedResult (ri_decision iv)), r))))"

definition invokeAsyncReplay ::
  "nat \<Rightarrow> string \<Rightarrow> string + bytes \<Rightarrow> 'v replayRun \<Rightarrow> asyncReply \<times> 'v replayRun" where
  "invokeAsyncReplay clock name arg r =
     (let n = rr_asyncCalls r; r = r\<lparr>rr_asyncCalls := n + 1\<rparr> in
      case arg of
        Inl err \<Rightarrow> (AReject [] err, r)
      | Inr _ \<Rightarrow>
          (case nextReplayInvocation r of
             Inl err \<Rightarrow> (AReject [] (''host function '' @ quote name @ '' replay: '' @ err), r)
           | Inr (iv, r) \<Rightarrow>
               (case replayRefusal name iv of
                  Some msg \<Rightarrow> (AReject (ri_effectID iv) msg, r)
                | None \<Rightarrow>
                    (let d = ri_decision iv;
                         order = (if rd_CompletionOrder d = 0 then clock else rd_CompletionOrder d)
                     in (APending (ri_effectID iv),
                         r\<lparr>rr_step := snd (queueAsync order (n, rd_RecordedResult d) (rr_step r))\<rparr>)))))"

text \<open>The next settler of the flush in progress, or of a new flush; \<open>None\<close> when nothing is queued.\<close>

definition nextSettler :: "'v replayRun \<Rightarrow> ((nat \<times> bytes) \<times> 'v replayRun) option" where
  "nextSettler r =
     (case rr_batch r of
        s # rest \<Rightarrow> Some (s, r\<lparr>rr_batch := rest\<rparr>)
      | [] \<Rightarrow>
          (case takePendingAsync (rr_step r) of
             ([], st) \<Rightarrow> None
           | (s # rest, st) \<Rightarrow> Some (s, r\<lparr>rr_step := st, rr_batch := rest\<rparr>)))"

text \<open>
  A replayed run. When the outcome is delivered the caller of \<open>runContext\<close> goes
  on and finishes the replay step while the event loop may still be running:
  \<open>late\<close> tells whether the step is finished only after the loop is idle.
\<close>

primrec replayCell :: "nat \<Rightarrow> bool \<Rightarrow> ('vm, 'v) js \<Rightarrow> 'v replayRun \<Rightarrow> 'vm \<times> 'v replayRun" where
  "replayCell clock late (Halt vm) r = (vm, r)"
| "replayCell clock late (Idle vm k) r =
     (case nextSettler r of
        None \<Rightarrow> (vm, r)
      | Some ((n, raw), r) \<Rightarrow> replayCell clock late (k n (SResolve raw)) r)"
| "replayCell clock late (Deliver out k) r =
     replayCell clock late k (if rr_outcome r = None then r\<lparr>rr_outcome := Some out, rr_open := late\<rparr> else r)"
| "replayCell clock late (SyncCall name pol arg k) r =
     (case invokeSyncReplay name arg r of (rep, r) \<Rightarrow> replayCell clock late (k rep) r)"
| "replayCell clock late (AsyncCall name pol arg k) r =
     (case invokeAsyncReplay clock name arg r of (rep, r) \<Rightarrow> replayCell clock late (k rep) r)"
| "replayCell clock late (Console line k) r =
     replayCell clock late k (r\<lparr>rr_acc := recordLog line (rr_acc r)\<rparr>)"
| "replayCell clock late (PromiseReject p reason k) r =
     replayCell clock late k (r\<lparr>rr_acc := recordPromiseRejection p (Some reason) (rr_acc r)\<rparr>)"
| "replayCell clock late (PromiseHandle p k) r =
     replayCell clock late k (r\<lparr>rr_acc := recordPromiseRejection p None (rr_acc r)\<rparr>)"

end
