(* ===== verification/Effects_Props.thy ===== *)
theory Effects_Props
  imports Effects
begin

text \<open>
  What a live evaluation does to the store and to its accumulator, over any
  store that keeps the contract: it appends effect facts only, each effect the
  accumulator lists was journalled, and in the end no call is in flight.
\<close>

subsection \<open>The accumulator\<close>

definition acc_ok :: "effectAccumulator \<Rightarrow> bool" where
  "acc_ok a \<longleftrightarrow> distinct (ac_order a) \<and> set (ac_order a) = dom (ac_effects a) \<and>
     (\<forall>e sm. ac_effects a e = Some sm \<longrightarrow> sm_Effect sm = e)"

lemma acc_ok_new [simp]: "acc_ok newAccumulator"
  by (simp add: acc_ok_def newAccumulator_def)

lemma acc_started:
  assumes "acc_ok a"
  shows "acc_ok (recordStarted e n p r a)" and "set (ac_order (recordStarted e n p r a)) = insert e (set (ac_order a))"
  using assms by (auto simp: acc_ok_def recordStarted_def dom_def)

lemma acc_addAsync [simp]:
  "ac_order (addAsync e n p r a) = ac_order (recordStarted e n p r a)"
  "ac_effects (addAsync e n p r a) = ac_effects (recordStarted e n p r a)"
  by (simp_all add: addAsync_def Let_def)

lemma acc_settled [simp]:
  "ac_order (markAsyncSettledLocked e a) = ac_order a"
  "ac_effects (markAsyncSettledLocked e a) = ac_effects a"
  by (simp_all add: markAsyncSettledLocked_def)

lemma acc_completed:
  assumes "acc_ok a"
  shows "acc_ok (recordCompleted e r a)" and "ac_order (recordCompleted e r a) = ac_order a"
    and "acc_ok (recordFailed e m a)" and "ac_order (recordFailed e m a) = ac_order a"
  using assms by (auto simp: acc_ok_def recordCompleted_def recordFailed_def dom_def split: option.splits)

lemma acc_ok_cong:
  "ac_order a' = ac_order a \<Longrightarrow> ac_effects a' = ac_effects a \<Longrightarrow> acc_ok a' = acc_ok a"
  by (simp add: acc_ok_def)

lemma acc_misc [simp]:
  "ac_order (recordLog l a) = ac_order a" "ac_effects (recordLog l a) = ac_effects a"
  "ac_order (recordPromiseRejection p op a) = ac_order a"
  "ac_effects (recordPromiseRejection p op a) = ac_effects a"
  by (simp_all add: recordLog_def recordPromiseRejection_def split: option.splits)

lemma drain_effects:
  assumes "acc_ok a"
  shows "effectIDsFromSummaries (fst (drain a)) = ac_order a"
proof -
  have "sm_Effect (case ac_effects a e of None \<Rightarrow> zeroSummary | Some sm \<Rightarrow> sm) = e" if "e \<in> set (ac_order a)" for e
    using assms that by (auto simp: acc_ok_def)
  then show ?thesis by (simp add: drain_def effectIDsFromSummaries_def map_idI)
qed

subsection \<open>Evaluation appends effect facts\<close>

fun effectFact :: "SessionID \<Rightarrow> Fact \<Rightarrow> bool" where
  "effectFact sn (EffectStarted x) = (es_Session x = sn)"
| "effectFact sn (EffectCompleted x) = (ec_Session x = sn)"
| "effectFact sn (EffectFailed x) = (ef_Session x = sn)"
| "effectFact sn _ = False"

lemma effectFact_facts [simp]:
  "effectFact sn (effectStarted sn cell H e n r p)" "effectFact sn (effectCompleted sn H e b)"
  "effectFact sn (effectFailed sn H e m)"
  by (simp_all add: effectStarted_def effectCompleted_def effectFailed_def)

definition run_inv ::
  "('s \<Rightarrow> Fact list) \<Rightarrow> ('s \<Rightarrow> string \<rightharpoonup> bytes) \<Rightarrow> ('s \<Rightarrow> bool) \<Rightarrow> SessionID \<Rightarrow> 's \<Rightarrow> ('s, 'v) cellRun \<Rightarrow> bool" where
  "run_inv slog scfg sok sn s0 c \<longleftrightarrow>
     sok (cr_store c) \<and> scfg (cr_store c) = scfg s0 \<and>
     (\<exists>fs. slog (cr_store c) = slog s0 @ fs \<and> list_all (effectFact sn) fs) \<and> acc_ok (cr_acc c) \<and>
     (\<forall>e \<in> set (ac_order (cr_acc c)). find_map (startedOf sn e) (slog (cr_store c)) \<noteq> None)"

lemma run_inv_cong:
  "cr_store c' = cr_store c \<Longrightarrow> cr_acc c' = cr_acc c \<Longrightarrow>
     run_inv slog scfg sok sn s0 c' = run_inv slog scfg sok sn s0 c"
  by (simp add: run_inv_def)

lemma run_inv_acc:
  "run_inv slog scfg sok sn s0 c \<Longrightarrow> acc_ok a \<Longrightarrow> ac_order a = ac_order (cr_acc c) \<Longrightarrow>
     cr_store c' = cr_store c \<Longrightarrow> cr_acc c' = a \<Longrightarrow> run_inv slog scfg sok sn s0 c'"
  by (simp add: run_inv_def)

context fact_store
begin

lemma append_cases:
  assumes "sok s" and "so_AppendFact ops s f = (r, s')"
  shows "sok s'" and "scfg s' = scfg s" and "slog s' = slog s @ (if r = None then [f] else [])"
  using append_ok [OF assms(1), of f s'] append_err [OF assms(1), of f _ s'] assms(2) by (cases r; auto)+

lemma run_inv_append:
  assumes "run_inv slog scfg sok sn s0 c" and "so_AppendFact ops (cr_store c) f = (r, st)"
    and "effectFact sn f" and "cr_store c' = st" and "cr_acc c' = cr_acc c"
  shows "run_inv slog scfg sok sn s0 c'"
proof -
  have ok: "sok (cr_store c)" using assms(1) by (simp add: run_inv_def)
  note app = append_cases [OF ok assms(2)]
  obtain fs where "slog (cr_store c) = slog s0 @ fs" "list_all (effectFact sn) fs"
    using assms(1) by (auto simp: run_inv_def)
  then have "\<exists>fs. slog st = slog s0 @ fs \<and> list_all (effectFact sn) fs"
    using app(3) assms(3) by (intro exI [of _ "fs @ (if r = None then [f] else [])"]) simp
  then show ?thesis
    using assms app by (auto simp: run_inv_def find_map_append split: option.splits)
qed

lemma settleLive_inv:
  assumes "run_inv slog scfg sok sn s0 c" and "settleLive ops sn H name e res c = (s, c')"
  shows "run_inv slog scfg sok sn s0 c'"
proof -
  have acc: "acc_ok (cr_acc c)" using assms(1) by (simp add: run_inv_def)
  have fail: "run_inv slog scfg sok sn s0 (d\<lparr>cr_acc := recordFailed e m (cr_acc c),
      cr_store := snd (so_AppendFact ops (cr_store d) (effectFailed sn H e m))\<rparr>)"
    if d: "run_inv slog scfg sok sn s0 d" "cr_acc d = cr_acc c" for d m
  proof -
    obtain r st where a: "so_AppendFact ops (cr_store d) (effectFailed sn H e m) = (r, st)" by fastforce
    have "run_inv slog scfg sok sn s0 (d\<lparr>cr_store := st\<rparr>)" by (rule run_inv_append [OF d(1) a]) simp_all
    then show ?thesis using acc_completed(3,4) [OF acc, of e m] a d by (auto intro: run_inv_acc)
  qed
  show ?thesis
  proof (cases res)
    case (Inl err)
    then show ?thesis using fail [OF assms(1)] assms(2) by (auto simp: settleLive_def)
  next
    case (Inr r)
    obtain o' st where a: "so_AppendFact ops (cr_store c) (effectCompleted sn H e r) = (o', st)" by fastforce
    have st: "run_inv slog scfg sok sn s0 (c\<lparr>cr_store := st\<rparr>)" by (rule run_inv_append [OF assms(1) a]) simp_all
    show ?thesis
    proof (cases o')
      case None
      then show ?thesis
        using assms(2) Inr a acc_completed(1,2) [OF acc, of e r]
        by (auto simp: settleLive_def intro!: run_inv_acc [OF st])
    next
      case (Some err)
      then show ?thesis
        using assms(2) Inr a fail [OF st] by (auto simp: settleLive_def Let_def)
    qed
  qed
qed

lemma started_inv:
  assumes inv: "run_inv slog scfg sok sn s0 c"
    and app: "so_AppendFact ops (cr_store c) (effectStarted sn cell H e name replay p) = (None, st)"
    and c': "cr_store c' = st" "ac_order (cr_acc c') = ac_order (recordStarted e name p replay (cr_acc c))"
      "ac_effects (cr_acc c') = ac_effects (recordStarted e name p replay (cr_acc c))"
  shows "run_inv slog scfg sok sn s0 c'"
proof -
  have acc: "acc_ok (cr_acc c)" and ok: "sok (cr_store c)" using inv by (simp_all add: run_inv_def)
  note started = acc_started [OF acc, of e name p replay]
  have "run_inv slog scfg sok sn s0 (c\<lparr>cr_store := st\<rparr>)" by (rule run_inv_append [OF inv app]) simp_all
  moreover have "find_map (startedOf sn e) (slog st) \<noteq> None"
    using append_cases(3) [OF ok app] by (auto simp: find_map_append effectStarted_def split: option.splits)
  ultimately show ?thesis
    using started acc_ok_cong [OF c'(2,3)] c' by (auto simp: run_inv_def)
qed

lemma invokeSyncLive_inv:
  assumes inv: "run_inv slog scfg sok sn s0 c" and run: "invokeSyncLive ops sn cell H name replay arg c = (r, c')"
  shows "run_inv slog scfg sok sn s0 c'"
proof (cases arg)
  case (Inl err)
  then show ?thesis using run inv by (simp add: invokeSyncLive_def)
next
  case (Inr p)
  let ?e = "hv_uuid H (cr_uuids c)"
  obtain o' st where a: "so_AppendFact ops (cr_store c) (effectStarted sn cell H ?e name replay p) = (o', st)"
    by fastforce
  show ?thesis
  proof (cases o')
    case None
    let ?c = "c\<lparr>cr_uuids := cr_uuids c + 1, cr_store := st, cr_acc := recordStarted ?e name p replay (cr_acc c)\<rparr>"
    have "run_inv slog scfg sok sn s0 ?c" using a None by (intro started_inv [OF inv]) simp_all
    moreover obtain s c2 where "settleLive ops sn H name ?e (hv_invoke H ?e name p) ?c = (s, c2)" by fastforce
    ultimately show ?thesis
      using run Inr a None settleLive_inv by (cases s) (auto simp: invokeSyncLive_def Let_def)
  next
    case (Some err)
    then show ?thesis
      using run Inr a by (auto simp: invokeSyncLive_def Let_def intro!: run_inv_append [OF inv a])
  qed
qed

lemma invokeAsyncLive_inv:
  assumes inv: "run_inv slog scfg sok sn s0 c" and run: "invokeAsyncLive ops sn cell H name replay arg c = (r, c')"
  shows "run_inv slog scfg sok sn s0 c'"
proof (cases arg)
  case (Inl err)
  then show ?thesis using run inv by (auto simp: invokeAsyncLive_def Let_def run_inv_def)
next
  case (Inr p)
  let ?e = "hv_uuid H (cr_uuids c)"
  obtain o' st where a: "so_AppendFact ops (cr_store c) (effectStarted sn cell H ?e name replay p) = (o', st)"
    by fastforce
  show ?thesis
  proof (cases o')
    case None
    then show ?thesis
      using run Inr a by (intro started_inv [OF inv]) (auto simp: invokeAsyncLive_def Let_def)
  next
    case (Some err)
    then show ?thesis
      using run Inr a by (auto simp: invokeAsyncLive_def Let_def intro!: run_inv_append [OF inv a])
  qed
qed

lemma finishAsync_inv:
  assumes "run_inv slog scfg sok sn s0 c" and "finishAsync ops sn H c = (n, s, c')"
  shows "run_inv slog scfg sok sn s0 c'"
proof -
  let ?i = "hv_pick H (cr_uuids c) mod length (cr_inflight c)"
  let ?c = "c\<lparr>cr_inflight := take ?i (cr_inflight c) @ drop (Suc ?i) (cr_inflight c)\<rparr>"
  have "run_inv slog scfg sok sn s0 ?c" using assms(1) by (simp add: run_inv_def)
  then show ?thesis
    using assms(2) settleLive_inv by (auto simp: finishAsync_def Let_def split: prod.splits)
qed

lemma drainInflight_inv:
  "run_inv slog scfg sok sn s0 c \<Longrightarrow>
     run_inv slog scfg sok sn s0 (drainInflight ops sn H c) \<and> cr_inflight (drainInflight ops sn H c) = []"
proof (induction "length (cr_inflight c)" arbitrary: c rule: less_induct)
  case less
  show ?case
  proof (cases "cr_inflight c = []")
    case False
    obtain n s c' where f: "finishAsync ops sn H c = (n, s, c')" by (cases "finishAsync ops sn H c") auto
    have "length (cr_inflight c') < length (cr_inflight c)" using finishAsync_shrinks [OF False, of ops sn H] f by simp
    then show ?thesis
      using less.hyps [of c'] finishAsync_inv [OF less.prems f] False f by (simp add: drainInflight.simps [of ops sn H c])
  qed (use less.prems in \<open>simp add: drainInflight.simps\<close>)
qed

text \<open>Every live evaluation ends with nothing in flight and has appended effect facts only.\<close>

lemma live_inv:
  "run_inv slog scfg sok sn s0 c \<Longrightarrow> liveCell ops sn cell H t c = (vm, c') \<Longrightarrow>
     run_inv slog scfg sok sn s0 c' \<and> cr_inflight c' = []"
proof (induction t arbitrary: c)
  case (Halt vm)
  then show ?case using drainInflight_inv by auto
next
  case (Idle vm k)
  show ?case
  proof (cases "cr_inflight c = []")
    case False
    obtain n s d where f: "finishAsync ops sn H c = (n, s, d)" by (cases "finishAsync ops sn H c") auto
    show ?thesis
      using Idle.IH [OF rangeI rangeI finishAsync_inv [OF Idle.prems(1) f]] Idle.prems(2) False f by simp
  qed (use Idle in auto)
next
  case (Deliver out k)
  have "run_inv slog scfg sok sn s0 (if cr_outcome c = None then c\<lparr>cr_outcome := Some out\<rparr> else c)"
    using Deliver.prems(1) by (simp add: run_inv_def)
  then show ?case using Deliver.IH Deliver.prems(2) by simp
next
  case (SyncCall name replay arg k)
  obtain r d where f: "invokeSyncLive ops sn cell H name replay arg c = (r, d)" by fastforce
  show ?case
    using SyncCall.IH [OF rangeI invokeSyncLive_inv [OF SyncCall.prems(1) f]] SyncCall.prems(2) f by simp
next
  case (AsyncCall name replay arg k)
  obtain r d where f: "invokeAsyncLive ops sn cell H name replay arg c = (r, d)" by fastforce
  show ?case
    using AsyncCall.IH [OF rangeI invokeAsyncLive_inv [OF AsyncCall.prems(1) f]] AsyncCall.prems(2) f by simp
next
  case (Console line k)
  have "run_inv slog scfg sok sn s0 (c\<lparr>cr_acc := recordLog line (cr_acc c)\<rparr>)"
    using Console.prems(1) by (simp add: run_inv_def acc_ok_def)
  then show ?case using Console.IH Console.prems(2) by simp
next
  case (PromiseReject p reason k)
  have "run_inv slog scfg sok sn s0 (c\<lparr>cr_acc := recordPromiseRejection p (Some reason) (cr_acc c)\<rparr>)"
    using PromiseReject.prems(1) by (simp add: run_inv_def acc_ok_def)
  then show ?case using PromiseReject.IH PromiseReject.prems(2) by simp
next
  case (PromiseHandle p k)
  have "run_inv slog scfg sok sn s0 (c\<lparr>cr_acc := recordPromiseRejection p None (cr_acc c)\<rparr>)"
    using PromiseHandle.prems(1) by (simp add: run_inv_def acc_ok_def)
  then show ?case using PromiseHandle.IH PromiseHandle.prems(2) by simp
qed

end

end
