(* ===== verification/Replay.thy ===== *)
theory Replay
  imports Effects_Props
begin

text \<open>
  Record and replay: a cell that made its host calls one at a time, all of them
  replayable and successful, is reproduced from its journal. The replayed run
  gives the engine the same answers in the same order, so it ends in the same
  engine state with the same outcome, and it consumes the journal exactly.
\<close>

subsection \<open>Runs that can be replayed\<close>

text \<open>
  The conditions, checked along the live run: every call has a replayable policy
  and a non-empty result, an asynchronous call is made with no other in flight,
  and no call is made after the outcome is delivered (\<open>closed\<close>).
\<close>

definition call_ok :: "hostEnv \<Rightarrow> string \<Rightarrow> ReplayPolicy \<Rightarrow> string + bytes \<Rightarrow> nat \<Rightarrow> bool" where
  "call_ok H name pol arg u =
     (case arg of Inl _ \<Rightarrow> True
      | Inr p \<Rightarrow> pol \<noteq> ReplayNonReplayable \<and>
          (case hv_invoke H (hv_uuid H u) name p of Inl _ \<Rightarrow> False | Inr raw \<Rightarrow> raw \<noteq> []))"

primrec replayable ::
  "'s StoreOps \<Rightarrow> SessionID \<Rightarrow> CellID \<Rightarrow> hostEnv \<Rightarrow> ('vm, 'v) js \<Rightarrow> bool \<Rightarrow> ('s, 'v) cellRun \<Rightarrow> bool" where
  "replayable ops sn cell H (Halt vm) closed c = True"
| "replayable ops sn cell H (Idle vm k) closed c =
     (if cr_inflight c = [] then True
      else case finishAsync ops sn H c of (n, s, c) \<Rightarrow> replayable ops sn cell H (k n s) closed c)"
| "replayable ops sn cell H (Deliver out k) closed c =
     replayable ops sn cell H k True (if cr_outcome c = None then c\<lparr>cr_outcome := Some out\<rparr> else c)"
| "replayable ops sn cell H (SyncCall name pol arg k) closed c =
     (\<not> closed \<and> call_ok H name pol arg (cr_uuids c) \<and>
      (case invokeSyncLive ops sn cell H name pol arg c of (r, c) \<Rightarrow> replayable ops sn cell H (k r) closed c))"
| "replayable ops sn cell H (AsyncCall name pol arg k) closed c =
     (\<not> closed \<and> call_ok H name pol arg (cr_uuids c) \<and> cr_inflight c = [] \<and>
      (case invokeAsyncLive ops sn cell H name pol arg c of (r, c) \<Rightarrow> replayable ops sn cell H (k r) closed c))"
| "replayable ops sn cell H (Console line k) closed c =
     replayable ops sn cell H k closed (c\<lparr>cr_acc := recordLog line (cr_acc c)\<rparr>)"
| "replayable ops sn cell H (PromiseReject p reason k) closed c =
     replayable ops sn cell H k closed (c\<lparr>cr_acc := recordPromiseRejection p (Some reason) (cr_acc c)\<rparr>)"
| "replayable ops sn cell H (PromiseHandle p k) closed c =
     replayable ops sn cell H k closed (c\<lparr>cr_acc := recordPromiseRejection p None (cr_acc c)\<rparr>)"

text \<open>The effects a live run starts from here on: identifier, policy and result.\<close>

type_synonym tracedEffect = "EffectID \<times> ReplayPolicy \<times> bytes"

definition traced :: "hostEnv \<Rightarrow> string \<Rightarrow> ReplayPolicy \<Rightarrow> string + bytes \<Rightarrow> nat \<Rightarrow> tracedEffect list" where
  "traced H name pol arg u =
     (case arg of Inl _ \<Rightarrow> []
      | Inr p \<Rightarrow> (case hv_invoke H (hv_uuid H u) name p of
                    Inl _ \<Rightarrow> [] | Inr raw \<Rightarrow> [(hv_uuid H u, pol, raw)]))"

primrec trace ::
  "'s StoreOps \<Rightarrow> SessionID \<Rightarrow> CellID \<Rightarrow> hostEnv \<Rightarrow> ('vm, 'v) js \<Rightarrow> ('s, 'v) cellRun \<Rightarrow> tracedEffect list" where
  "trace ops sn cell H (Halt vm) c = []"
| "trace ops sn cell H (Idle vm k) c =
     (if cr_inflight c = [] then []
      else case finishAsync ops sn H c of (n, s, c) \<Rightarrow> trace ops sn cell H (k n s) c)"
| "trace ops sn cell H (Deliver out k) c =
     trace ops sn cell H k (if cr_outcome c = None then c\<lparr>cr_outcome := Some out\<rparr> else c)"
| "trace ops sn cell H (SyncCall name pol arg k) c =
     traced H name pol arg (cr_uuids c) @
     (case invokeSyncLive ops sn cell H name pol arg c of (r, c) \<Rightarrow> trace ops sn cell H (k r) c)"
| "trace ops sn cell H (AsyncCall name pol arg k) c =
     traced H name pol arg (cr_uuids c) @
     (case invokeAsyncLive ops sn cell H name pol arg c of (r, c) \<Rightarrow> trace ops sn cell H (k r) c)"
| "trace ops sn cell H (Console line k) c = trace ops sn cell H k (c\<lparr>cr_acc := recordLog line (cr_acc c)\<rparr>)"
| "trace ops sn cell H (PromiseReject p reason k) c =
     trace ops sn cell H k (c\<lparr>cr_acc := recordPromiseRejection p (Some reason) (cr_acc c)\<rparr>)"
| "trace ops sn cell H (PromiseHandle p k) c =
     trace ops sn cell H k (c\<lparr>cr_acc := recordPromiseRejection p None (cr_acc c)\<rparr>)"

subsection \<open>Calls that succeed\<close>

definition syncDone ::
  "'s StoreOps \<Rightarrow> SessionID \<Rightarrow> CellID \<Rightarrow> hostEnv \<Rightarrow> string \<Rightarrow> ReplayPolicy \<Rightarrow> bytes \<Rightarrow> bytes \<Rightarrow> ('s, 'v) cellRun \<Rightarrow> ('s, 'v) cellRun" where
  "syncDone ops sn cell H name pol p raw c = (let e = hv_uuid H (cr_uuids c) in
     c\<lparr>cr_uuids := cr_uuids c + 1,
       cr_store := snd (so_AppendFact ops (snd (so_AppendFact ops (cr_store c)
         (effectStarted sn cell H e name pol p))) (effectCompleted sn H e raw)),
       cr_acc := recordCompleted e raw (recordStarted e name p pol (cr_acc c))\<rparr>)"

definition asyncDone ::
  "'s StoreOps \<Rightarrow> SessionID \<Rightarrow> CellID \<Rightarrow> hostEnv \<Rightarrow> string \<Rightarrow> ReplayPolicy \<Rightarrow> bytes \<Rightarrow> ('s, 'v) cellRun \<Rightarrow> ('s, 'v) cellRun" where
  "asyncDone ops sn cell H name pol p c = (let e = hv_uuid H (cr_uuids c) in
     c\<lparr>cr_asyncCalls := cr_asyncCalls c + 1, cr_uuids := cr_uuids c + 1,
       cr_store := snd (so_AppendFact ops (cr_store c) (effectStarted sn cell H e name pol p)),
       cr_acc := addAsync e name p pol (cr_acc c),
       cr_inflight := cr_inflight c @ [(cr_asyncCalls c, e, name, p)]\<rparr>)"

definition settledOne ::
  "'s StoreOps \<Rightarrow> SessionID \<Rightarrow> hostEnv \<Rightarrow> EffectID \<Rightarrow> bytes \<Rightarrow> ('s, 'v) cellRun \<Rightarrow> ('s, 'v) cellRun" where
  "settledOne ops sn H e raw c =
     c\<lparr>cr_inflight := [], cr_store := snd (so_AppendFact ops (cr_store c) (effectCompleted sn H e raw)),
       cr_acc := recordCompleted e raw (cr_acc c)\<rparr>"

context working_store
begin

lemma append_snd:
  assumes "sok s"
  shows "so_AppendFact ops s f = (None, snd (so_AppendFact ops s f))"
    and "sok (snd (so_AppendFact ops s f))" and "slog (snd (so_AppendFact ops s f)) = slog s @ [f]"
  using append_total [OF assms, of f] append_ok [OF assms, of f] by auto

lemma invokeSync_done:
  assumes "sok (cr_store c)" and "hv_invoke H (hv_uuid H (cr_uuids c)) name p = Inr raw"
  shows "invokeSyncLive ops sn cell H name pol (Inr p) c =
    (HReturn (hv_uuid H (cr_uuids c)) raw, syncDone ops sn cell H name pol p raw c)"
proof -
  let ?f = "effectStarted sn cell H (hv_uuid H (cr_uuids c)) name pol p"
  obtain s1 where s1: "so_AppendFact ops (cr_store c) ?f = (None, s1)" "sok s1"
    using append_snd [OF assms(1), of ?f] by metis
  obtain s2 where "so_AppendFact ops s1 (effectCompleted sn H (hv_uuid H (cr_uuids c)) raw) = (None, s2)"
    using append_total [OF s1(2)] by blast
  with s1 show ?thesis
    using assms(2) by (simp add: invokeSyncLive_def settleLive_def syncDone_def Let_def)
qed

lemma invokeAsync_done:
  assumes "sok (cr_store c)"
  shows "invokeAsyncLive ops sn cell H name pol (Inr p) c =
    (APending (hv_uuid H (cr_uuids c)), asyncDone ops sn cell H name pol p c)"
proof -
  obtain st where
    "so_AppendFact ops (cr_store c) (effectStarted sn cell H (hv_uuid H (cr_uuids c)) name pol p) = (None, st)"
    using append_total [OF assms] by blast
  then show ?thesis by (simp add: invokeAsyncLive_def asyncDone_def Let_def)
qed

lemma finishAsync_done:
  assumes "sok (cr_store c)" and "cr_inflight c = [(n, e, name, p)]" and "hv_invoke H e name p = Inr raw"
  shows "finishAsync ops sn H c = (n, SResolve raw, settledOne ops sn H e raw c)"
proof -
  obtain st where "so_AppendFact ops (cr_store c) (effectCompleted sn H e raw) = (None, st)"
    using append_total [OF assms(1)] by blast
  then show ?thesis using assms(2,3) by (simp add: finishAsync_def settleLive_def settledOne_def Let_def)
qed

end

subsection \<open>The replayed run follows the live run\<close>

definition answers :: "replayInvocation \<Rightarrow> tracedEffect \<Rightarrow> bool" where
  "answers iv x = (case x of (e, pol, raw) \<Rightarrow>
     ri_effectID iv = e \<and> rd_Policy (ri_decision iv) = pol \<and> rd_RecordedResult (ri_decision iv) = raw)"

text \<open>
  The replayed run is where the live run is: the invocations ahead are the
  effects ahead, and the call in flight, if any, is the one settler queued.
\<close>

definition observed :: "effectAccumulator \<Rightarrow> string list \<times> (nat \<times> string) list" where
  "observed a = (ac_logs a, ac_unhandledRejection a)"

lemma observed_effects [simp]:
  "observed (recordStarted e n p pol a) = observed a" "observed (addAsync e n p pol a) = observed a"
  "observed (recordCompleted e raw a) = observed a" "observed (recordFailed e m a) = observed a"
  by (simp_all add: observed_def recordStarted_def addAsync_def recordCompleted_def recordFailed_def
      markAsyncSettledLocked_def Let_def split: option.splits)

fun queued ::
  "hostEnv \<Rightarrow> (nat \<times> EffectID \<times> string \<times> bytes) list \<Rightarrow> (nat \<times> (nat \<times> bytes) list) list \<Rightarrow> bool" where
  "queued H [] pending = (pending = [])"
| "queued H [(n, e, name, p)] pending =
     (case hv_invoke H e name p of
        Inl _ \<Rightarrow> False | Inr raw \<Rightarrow> \<exists>order. pending = [(order, [(n, raw)])])"
| "queued H _ pending = False"

definition at_same_point ::
  "hostEnv \<Rightarrow> bool \<Rightarrow> bool \<Rightarrow> tracedEffect list \<Rightarrow> ('s, 'v) cellRun \<Rightarrow> 'v replayRun \<Rightarrow> bool" where
  "at_same_point H late closed tr c r \<longleftrightarrow>
     (\<not> closed \<longrightarrow> rr_open r) \<and> (closed \<longleftrightarrow> cr_outcome c \<noteq> None) \<and>
     rr_outcome r = cr_outcome c \<and> rr_asyncCalls r = cr_asyncCalls c \<and> rr_batch r = [] \<and>
     rp_nextStart (rr_step r) \<le> length (rp_effects (rr_step r)) \<and>
     list_all2 answers (drop (rp_nextStart (rr_step r)) (rp_effects (rr_step r))) tr \<and>
     observed (rr_acc r) = observed (cr_acc c) \<and>
     queued H (cr_inflight c) (rp_pendingAsync (rr_step r))"

lemma next_answer:
  assumes "rr_open r" and "rp_nextStart (rr_step r) \<le> length (rp_effects (rr_step r))"
    and "list_all2 answers (drop (rp_nextStart (rr_step r)) (rp_effects (rr_step r))) ((e, pol, raw) # tr)"
  shows "\<exists>iv. nextReplayInvocation r =
      Inr (iv, r\<lparr>rr_step := (rr_step r)\<lparr>rp_nextStart := rp_nextStart (rr_step r) + 1\<rparr>\<rparr>) \<and>
    answers iv (e, pol, raw) \<and> rp_nextStart (rr_step r) + 1 \<le> length (rp_effects (rr_step r)) \<and>
    list_all2 answers (drop (rp_nextStart (rr_step r) + 1) (rp_effects (rr_step r))) tr"
proof -
  let ?n = "rp_nextStart (rr_step r)" and ?es = "rp_effects (rr_step r)"
  have lt: "?n < length ?es" using assms(2,3) by (cases "?n < length ?es") auto
  then have "drop ?n ?es = ?es ! ?n # drop (?n + 1) ?es" by (simp add: Cons_nth_drop_Suc)
  then show ?thesis
    using assms lt by (intro exI [of _ "?es ! ?n"]) (simp add: nextReplayInvocation_def nextEffect_def)
qed

lemma answer_accepted:
  "answers iv (e, pol, raw) \<Longrightarrow> pol \<noteq> ReplayNonReplayable \<Longrightarrow> raw \<noteq> [] \<Longrightarrow>
     replayRefusal name iv = None \<and> ri_effectID iv = e \<and> rd_RecordedResult (ri_decision iv) = raw"
  by (simp add: answers_def replayRefusal_def)

lemma replaySync_follows:
  assumes sim: "at_same_point H late False ((e, pol, raw) # tr) c r" and ok: "pol \<noteq> ReplayNonReplayable" "raw \<noteq> []"
    and c': "cr_outcome c' = cr_outcome c" "cr_asyncCalls c' = cr_asyncCalls c" "cr_inflight c' = cr_inflight c"
      "observed (cr_acc c') = observed (cr_acc c)"
  shows "\<exists>r'. invokeSyncReplay name (Inr p) r = (HReturn e raw, r') \<and> at_same_point H late False tr c' r'"
proof -
  obtain iv where iv: "nextReplayInvocation r =
      Inr (iv, r\<lparr>rr_step := (rr_step r)\<lparr>rp_nextStart := rp_nextStart (rr_step r) + 1\<rparr>\<rparr>)"
    "answers iv (e, pol, raw)" "rp_nextStart (rr_step r) + 1 \<le> length (rp_effects (rr_step r))"
    "list_all2 answers (drop (rp_nextStart (rr_step r) + 1) (rp_effects (rr_step r))) tr"
    using next_answer [of r e pol raw tr] sim by (auto simp: at_same_point_def)
  show ?thesis
    using iv answer_accepted [OF iv(2) ok] sim c'
    by (simp add: invokeSyncReplay_def at_same_point_def)
qed

lemma replayAsync_follows:
  assumes sim: "at_same_point H late False ((e, pol, raw) # tr) c r" and ok: "pol \<noteq> ReplayNonReplayable" "raw \<noteq> []"
    and none: "cr_inflight c = []" and inv: "hv_invoke H e name p = Inr raw"
    and c': "cr_outcome c' = cr_outcome c" "cr_asyncCalls c' = cr_asyncCalls c + 1"
      "cr_inflight c' = [(cr_asyncCalls c, e, name, p)]" "observed (cr_acc c') = observed (cr_acc c)"
  shows "\<exists>r'. invokeAsyncReplay clock name (Inr p) r = (APending e, r') \<and> at_same_point H late False tr c' r'"
proof -
  let ?r = "r\<lparr>rr_asyncCalls := rr_asyncCalls r + 1\<rparr>"
  obtain iv where iv: "nextReplayInvocation ?r =
      Inr (iv, ?r\<lparr>rr_step := (rr_step r)\<lparr>rp_nextStart := rp_nextStart (rr_step r) + 1\<rparr>\<rparr>)"
    "answers iv (e, pol, raw)" "rp_nextStart (rr_step r) + 1 \<le> length (rp_effects (rr_step r))"
    "list_all2 answers (drop (rp_nextStart (rr_step r) + 1) (rp_effects (rr_step r))) tr"
    using next_answer [of ?r e pol raw tr] sim by (auto simp: at_same_point_def)
  show ?thesis
    using iv answer_accepted [OF iv(2) ok] sim c' none inv
    by (auto simp: invokeAsyncReplay_def at_same_point_def queueAsync_def Let_def)
qed

lemma replay_settles:
  assumes sim: "at_same_point H late closed tr c r" and one: "cr_inflight c = [(n, e, name, p)]"
    and inv: "hv_invoke H e name p = Inr raw"
    and c': "cr_outcome c' = cr_outcome c" "cr_asyncCalls c' = cr_asyncCalls c" "cr_inflight c' = []"
      "observed (cr_acc c') = observed (cr_acc c)"
  shows "\<exists>r'. nextSettler r = Some ((n, raw), r') \<and> at_same_point H late closed tr c' r'"
proof -
  obtain order where "rp_pendingAsync (rr_step r) = [(order, [(n, raw)])]" "rr_batch r = []"
    using sim one inv by (auto simp: at_same_point_def)
  then show ?thesis
    using sim c' by (auto simp: nextSettler_def takePendingAsync_def at_same_point_def)
qed

lemma settleLive_outcome [simp]: "cr_outcome (snd (settleLive ops sn H name e res c)) = cr_outcome c"
  by (auto simp: settleLive_def Let_def split: sum.splits option.splits prod.splits)

lemma finishAsync_outcome [simp]: "cr_outcome (snd (snd (finishAsync ops sn H c))) = cr_outcome c"
  by (simp add: finishAsync_def Let_def case_prod_unfold)

lemma settleLive_observed [simp]: "observed (cr_acc (snd (settleLive ops sn H name e res c))) = observed (cr_acc c)"
  by (auto simp: settleLive_def Let_def split: sum.splits option.splits prod.splits)

lemma finishAsync_observed [simp]: "observed (cr_acc (snd (snd (finishAsync ops sn H c)))) = observed (cr_acc c)"
  by (simp add: finishAsync_def Let_def case_prod_unfold)

lemma drainInflight_outcome:
  "cr_outcome (drainInflight ops sn H c) = cr_outcome c \<and>
   observed (cr_acc (drainInflight ops sn H c)) = observed (cr_acc c)"
proof (induction ops sn H c rule: drainInflight.induct)
  case (1 ops sn H c)
  obtain n s d where "finishAsync ops sn H c = (n, s, d)" by (cases "finishAsync ops sn H c") auto
  then show ?case
    using 1 finishAsync_outcome [of ops sn H c] finishAsync_observed [of ops sn H c] by (simp add: drainInflight.simps [of ops sn H c])
qed

lemma done_sel [simp]:
  "cr_outcome (syncDone ops sn cell H name pol p raw c) = cr_outcome c"
  "cr_asyncCalls (syncDone ops sn cell H name pol p raw c) = cr_asyncCalls c"
  "cr_inflight (syncDone ops sn cell H name pol p raw c) = cr_inflight c"
  "cr_outcome (asyncDone ops sn cell H name pol p c) = cr_outcome c"
  "cr_asyncCalls (asyncDone ops sn cell H name pol p c) = cr_asyncCalls c + 1"
  "cr_inflight (asyncDone ops sn cell H name pol p c) =
     cr_inflight c @ [(cr_asyncCalls c, hv_uuid H (cr_uuids c), name, p)]"
  "cr_outcome (settledOne ops sn H e raw c) = cr_outcome c"
  "cr_asyncCalls (settledOne ops sn H e raw c) = cr_asyncCalls c"
  "cr_inflight (settledOne ops sn H e raw c) = []"
  "observed (cr_acc (syncDone ops sn cell H name pol p raw c)) = observed (cr_acc c)"
  "observed (cr_acc (asyncDone ops sn cell H name pol p c)) = observed (cr_acc c)"
  "observed (cr_acc (settledOne ops sn H e raw c)) = observed (cr_acc c)"
  by (simp_all add: syncDone_def asyncDone_def settledOne_def Let_def)

lemma at_same_point_end:
  assumes "at_same_point H late closed [] c r"
  shows "rr_outcome r = cr_outcome c" and "rp_nextStart (rr_step r) = length (rp_effects (rr_step r))"
    and "observed (rr_acc r) = observed (cr_acc c)"
  using assms by (auto simp: at_same_point_def)

lemma at_same_point_log:
  assumes "at_same_point H late closed tr c r"
  shows "at_same_point H late closed tr (c\<lparr>cr_acc := recordLog l (cr_acc c)\<rparr>) (r\<lparr>rr_acc := recordLog l (rr_acc r)\<rparr>)"
    and "at_same_point H late closed tr (c\<lparr>cr_acc := recordPromiseRejection p x (cr_acc c)\<rparr>)
      (r\<lparr>rr_acc := recordPromiseRejection p x (rr_acc r)\<rparr>)"
  using assms
  by (auto simp: at_same_point_def observed_def recordLog_def recordPromiseRejection_def split: option.splits)

lemma at_same_point_inflight:
  assumes "at_same_point H late closed tr c r" and "cr_inflight c \<noteq> []"
  obtains n e name p raw where "cr_inflight c = [(n, e, name, p)]" and "hv_invoke H e name p = Inr raw"
proof -
  have "queued H (cr_inflight c) (rp_pendingAsync (rr_step r))" using assms(1) by (simp add: at_same_point_def)
  then show thesis
    using assms(2) that
    by (cases "(H, cr_inflight c, rp_pendingAsync (rr_step r))" rule: queued.cases) (auto split: sum.splits)
qed

lemma call_okD:
  "call_ok H name pol (Inr p) u \<Longrightarrow> \<exists>raw. pol \<noteq> ReplayNonReplayable \<and> raw \<noteq> [] \<and>
     hv_invoke H (hv_uuid H u) name p = Inr raw \<and> traced H name pol (Inr p) u = [(hv_uuid H u, pol, raw)]"
  by (auto simp: call_ok_def traced_def split: sum.splits)

context working_store
begin

lemma done_sok:
  assumes "sok (cr_store c)"
  shows "sok (cr_store (syncDone ops sn cell H name pol p raw c))"
    and "sok (cr_store (asyncDone ops sn cell H name pol p c))"
    and "sok (cr_store (settledOne ops sn H e raw c))"
  using append_snd(2) [OF assms] append_snd(2) [OF append_snd(2) [OF assms]]
  by (simp_all add: syncDone_def asyncDone_def settledOne_def Let_def)

lemma replay_follows:
  "sok (cr_store c) \<Longrightarrow> at_same_point H late closed (trace ops sn cell H t c) c r \<Longrightarrow>
     replayable ops sn cell H t closed c \<Longrightarrow>
     \<exists>r'. replayCell clock late t r = (fst (liveCell ops sn cell H t c), r') \<and>
       rr_outcome r' = cr_outcome (snd (liveCell ops sn cell H t c)) \<and>
       observed (rr_acc r') = observed (cr_acc (snd (liveCell ops sn cell H t c))) \<and>
       rp_nextStart (rr_step r') = length (rp_effects (rr_step r'))"
proof (induction t arbitrary: c r closed)
  case (Halt vm)
  then show ?case using at_same_point_end by (auto simp: drainInflight_outcome)
next
  case (Idle vm k)
  show ?case
  proof (cases "cr_inflight c = []")
    case True
    then have "nextSettler r = None"
      using Idle.prems(2) by (simp add: at_same_point_def nextSettler_def takePendingAsync_def)
    then show ?thesis using at_same_point_end [of H late closed c r] Idle.prems(2) True by simp
  next
    case False
    obtain n e name p raw where one: "cr_inflight c = [(n, e, name, p)]" "hv_invoke H e name p = Inr raw"
      using at_same_point_inflight [OF Idle.prems(2) False] by blast
    let ?c = "settledOne ops sn H e raw c"
    have fin: "finishAsync ops sn H c = (n, SResolve raw, ?c)" using finishAsync_done [OF Idle.prems(1) one] .
    obtain r2 where r2: "nextSettler r = Some ((n, raw), r2)"
      "at_same_point H late closed (trace ops sn cell H (k n (SResolve raw)) ?c) ?c r2"
      using replay_settles [OF Idle.prems(2) one, of ?c] False fin by auto
    show ?thesis
      using Idle.IH [OF rangeI rangeI done_sok(3) [OF Idle.prems(1)] r2(2)] Idle.prems(3) False fin r2(1) by simp
  qed
next
  case (Deliver out k)
  let ?c = "if cr_outcome c = None then c\<lparr>cr_outcome := Some out\<rparr> else c"
  let ?r = "if rr_outcome r = None then r\<lparr>rr_outcome := Some out, rr_open := late\<rparr> else r"
  have "at_same_point H late True (trace ops sn cell H k ?c) ?c ?r"
    using Deliver.prems(2) by (auto simp: at_same_point_def)
  then show ?case using Deliver.IH [of ?c True ?r] Deliver.prems(1,3) by simp
next
  case (SyncCall name pol arg k)
  show ?case
  proof (cases arg)
    case (Inl err)
    then show ?thesis
      using SyncCall.IH [of "k (HThrow err)" c closed r] SyncCall.prems
      by (cases closed) (simp_all add: invokeSyncLive_def invokeSyncReplay_def traced_def)
  next
    case (Inr p)
    let ?e = "hv_uuid H (cr_uuids c)"
    obtain raw where raw: "pol \<noteq> ReplayNonReplayable" "raw \<noteq> []" "hv_invoke H ?e name p = Inr raw"
      "traced H name pol arg (cr_uuids c) = [(?e, pol, raw)]"
      using call_okD [of H name pol p "cr_uuids c"] SyncCall.prems(3) Inr by auto
    let ?c = "syncDone ops sn cell H name pol p raw c"
    have live: "invokeSyncLive ops sn cell H name pol arg c = (HReturn ?e raw, ?c)"
      using invokeSync_done [where c = c and H = H, OF SyncCall.prems(1) raw(3)] Inr by simp
    have closed: "closed = False" using SyncCall.prems(3) by simp
    obtain r2 where r2: "invokeSyncReplay name arg r = (HReturn ?e raw, r2)"
      "at_same_point H late False (trace ops sn cell H (k (HReturn ?e raw)) ?c) ?c r2"
      using replaySync_follows [of H late ?e pol raw _ c r ?c name p] SyncCall.prems(2) raw live closed Inr by auto
    show ?thesis
      using SyncCall.IH [OF rangeI done_sok(1) [OF SyncCall.prems(1)] r2(2)] SyncCall.prems(3) live closed r2(1) by simp
  qed
next
  case (AsyncCall name pol arg k)
  show ?case
  proof (cases arg)
    case (Inl err)
    let ?c = "c\<lparr>cr_asyncCalls := Suc (cr_asyncCalls c)\<rparr>" and ?r = "r\<lparr>rr_asyncCalls := Suc (rr_asyncCalls r)\<rparr>"
    have "at_same_point H late closed (trace ops sn cell H (k (AReject [] err)) ?c) ?c ?r"
      using AsyncCall.prems(2) Inl by (simp add: at_same_point_def invokeAsyncLive_def traced_def Let_def)
    then show ?thesis
      using AsyncCall.IH [of "k (AReject [] err)" ?c closed ?r] AsyncCall.prems Inl
      by (cases closed) (simp_all add: invokeAsyncLive_def invokeAsyncReplay_def Let_def)
  next
    case (Inr p)
    let ?e = "hv_uuid H (cr_uuids c)"
    obtain raw where raw: "pol \<noteq> ReplayNonReplayable" "raw \<noteq> []" "hv_invoke H ?e name p = Inr raw"
      "traced H name pol arg (cr_uuids c) = [(?e, pol, raw)]"
      using call_okD [of H name pol p "cr_uuids c"] AsyncCall.prems(3) Inr by auto
    let ?c = "asyncDone ops sn cell H name pol p c"
    have live: "invokeAsyncLive ops sn cell H name pol arg c = (APending ?e, ?c)"
      using invokeAsync_done [OF AsyncCall.prems(1)] Inr by simp
    have closed: "closed = False" "cr_inflight c = []" using AsyncCall.prems(3) by simp_all
    obtain r2 where r2: "invokeAsyncReplay clock name arg r = (APending ?e, r2)"
      "at_same_point H late False (trace ops sn cell H (k (APending ?e)) ?c) ?c r2"
      using replayAsync_follows [of H late ?e pol raw _ c r name p ?c clock] AsyncCall.prems(2) raw live closed Inr by auto
    show ?thesis
      using AsyncCall.IH [OF rangeI done_sok(2) [OF AsyncCall.prems(1)] r2(2)] AsyncCall.prems(3) live closed r2(1) by simp
  qed
next
  case (Console line k)
  then show ?case
    using Console.IH [of "c\<lparr>cr_acc := recordLog line (cr_acc c)\<rparr>" closed "r\<lparr>rr_acc := recordLog line (rr_acc r)\<rparr>"]
      at_same_point_log by fastforce
next
  case (PromiseReject p reason k)
  then show ?case
    using PromiseReject.IH [of "c\<lparr>cr_acc := recordPromiseRejection p (Some reason) (cr_acc c)\<rparr>" closed "r\<lparr>rr_acc := recordPromiseRejection p (Some reason) (rr_acc r)\<rparr>"]
      at_same_point_log by fastforce
next
  case (PromiseHandle p k)
  then show ?case
    using PromiseHandle.IH [of "c\<lparr>cr_acc := recordPromiseRejection p None (cr_acc c)\<rparr>" closed "r\<lparr>rr_acc := recordPromiseRejection p None (rr_acc r)\<rparr>"]
      at_same_point_log by fastforce
qed

end

subsection \<open>The journal answers the trace\<close>

fun resultOf :: "SessionID \<Rightarrow> EffectID \<Rightarrow> Fact \<Rightarrow> bytes option" where
  "resultOf sn e (EffectCompleted x) = (if ec_Session x = sn \<and> ec_Effect x = e then Some (ec_Result x) else None)"
| "resultOf sn e _ = None"

lemma completedOf_result:
  "map_option fst (find_map (completedOf sn e) (enumerate n log)) = find_map (resultOf sn e) log"
proof (induction log arbitrary: n)
  case (Cons f log)
  then show ?case by (cases f) auto
qed simp

lemma decision_of_recorded:
  assumes "find_map (startedOf sn e) log = Some pol" and "find_map (resultOf sn e) log = Some raw"
  shows "\<exists>d. decision_of sn log e = Some d \<and> answers \<lparr>ri_effectID = e, ri_decision = d\<rparr> (e, pol, raw)"
  using assms completedOf_result [of sn e 0 log]
  by (auto simp: decision_of_def answers_def split: option.splits)

definition fresh_from ::
  "SessionID \<Rightarrow> hostEnv \<Rightarrow> Fact list \<Rightarrow> effectAccumulator \<Rightarrow> nat \<Rightarrow> bool" where
  "fresh_from sn H log a u \<longleftrightarrow> (\<forall>i \<ge> u.
     find_map (startedOf sn (hv_uuid H i)) log = None \<and> find_map (resultOf sn (hv_uuid H i)) log = None \<and>
     ac_effects a (hv_uuid H i) = None)"

fun inflight_fresh :: "SessionID \<Rightarrow> hostEnv \<Rightarrow> Fact list \<Rightarrow> nat \<Rightarrow> (nat \<times> EffectID \<times> string \<times> bytes) list \<Rightarrow> bool" where
  "inflight_fresh sn H log u [] = True"
| "inflight_fresh sn H log u [(n, e, name, p)] =
     (find_map (resultOf sn e) log = None \<and> (\<exists>i < u. e = hv_uuid H i) \<and> (\<exists>raw. hv_invoke H e name p = Inr raw))"
| "inflight_fresh sn H log u _ = False"

text \<open>What the rest of a run leaves in a final log and accumulator.\<close>

definition journalled ::
  "SessionID \<Rightarrow> hostEnv \<Rightarrow> (nat \<times> EffectID \<times> string \<times> bytes) list \<Rightarrow> tracedEffect list \<Rightarrow>
   Fact list \<Rightarrow> EffectID list \<Rightarrow> Fact list \<Rightarrow> EffectID list \<Rightarrow> bool" where
  "journalled sn H xs tr log order log' order' \<longleftrightarrow>
     (\<exists>fs. log' = log @ fs) \<and> order' = order @ map fst tr \<and>
     (\<forall>(n, e, name, p) \<in> set xs. \<forall>raw. hv_invoke H e name p = Inr raw \<longrightarrow> find_map (resultOf sn e) log' = Some raw) \<and>
     (\<forall>(e, pol, raw) \<in> set tr. find_map (startedOf sn e) log' = Some pol \<and> find_map (resultOf sn e) log' = Some raw)"

lemma find_map_extend: "find_map f log = Some x \<Longrightarrow> find_map f (log @ fs) = Some x"
  by (simp add: find_map_append)

lemma startedOf_facts [simp]:
  "startedOf sn e (effectStarted sn cell H e' name pol p) = (if e' = e then Some pol else None)"
  "startedOf sn e (effectCompleted sn H e' raw) = None"
  "resultOf sn e (effectStarted sn' cell H e' name pol p) = None"
  "resultOf sn e (effectCompleted sn H e' raw) = (if e' = e then Some raw else None)"
  by (simp_all add: effectStarted_def effectCompleted_def)

lemma journalled_sync:
  assumes "journalled sn H xs tr (log @ [effectStarted sn cell H e name pol p, effectCompleted sn H e raw]) (order @ [e]) log' order'"
    and "find_map (startedOf sn e) log = None" and "find_map (resultOf sn e) log = None"
  shows "journalled sn H xs ((e, pol, raw) # tr) log order log' order'"
proof -
  let ?log1 = "log @ [effectStarted sn cell H e name pol p, effectCompleted sn H e raw]"
  obtain fs where fs: "log' = ?log1 @ fs" using assms(1) by (auto simp: journalled_def)
  have "find_map (startedOf sn e) ?log1 = Some pol" "find_map (resultOf sn e) ?log1 = Some raw"
    using assms(2,3) by (simp_all add: find_map_append)
  then have "find_map (startedOf sn e) log' = Some pol" "find_map (resultOf sn e) log' = Some raw"
    using find_map_extend fs by metis+
  then show ?thesis using assms(1) fs by (auto simp: journalled_def)
qed

lemma journalled_async:
  assumes "journalled sn H [(n, e, name, p)] tr (log @ [effectStarted sn cell H e name pol p]) (order @ [e]) log' order'"
    and "find_map (startedOf sn e) log = None" and "hv_invoke H e name p = Inr raw"
  shows "journalled sn H [] ((e, pol, raw) # tr) log order log' order'"
proof -
  let ?log1 = "log @ [effectStarted sn cell H e name pol p]"
  obtain fs where fs: "log' = ?log1 @ fs" using assms(1) by (auto simp: journalled_def)
  have "find_map (startedOf sn e) ?log1 = Some pol" using assms(2) by (simp add: find_map_append)
  then have "find_map (startedOf sn e) log' = Some pol" using find_map_extend fs by metis
  then show ?thesis using assms(1,3) fs by (auto simp: journalled_def)
qed

lemma journalled_settle:
  assumes "journalled sn H [] tr (log @ [effectCompleted sn H e raw]) order log' order'"
    and "find_map (resultOf sn e) log = None" and "hv_invoke H e name p = Inr raw"
  shows "journalled sn H [(n, e, name, p)] tr log order log' order'"
proof -
  let ?log1 = "log @ [effectCompleted sn H e raw]"
  obtain fs where fs: "log' = ?log1 @ fs" using assms(1) by (auto simp: journalled_def)
  have "find_map (resultOf sn e) ?log1 = Some raw" using assms(2) by (simp add: find_map_append)
  then have "find_map (resultOf sn e) log' = Some raw" using find_map_extend fs by metis
  then show ?thesis using assms(1,3) fs by (auto simp: journalled_def)
qed

lemma journalled_done: "journalled sn H [] [] log order log order"
  by (simp add: journalled_def)

lemma ac_order_settled [simp]:
  "ac_order (recordCompleted e raw a) = ac_order a" "ac_order (recordFailed e m a) = ac_order a"
  by (simp_all add: recordCompleted_def recordFailed_def split: option.splits)

lemma ac_effects_completed: "ac_effects a e' = None \<Longrightarrow> e' \<noteq> e \<Longrightarrow> ac_effects (recordCompleted e raw a) e' = None"
  by (simp add: recordCompleted_def split: option.splits)

lemma ac_order_fresh: "ac_effects a e = None \<Longrightarrow> ac_order (recordStarted e name p pol a) = ac_order a @ [e]"
  by (simp add: recordStarted_def)

lemma fresh_fromD:
  assumes "fresh_from sn H log a u"
  shows "find_map (startedOf sn (hv_uuid H u)) log = None" "find_map (resultOf sn (hv_uuid H u)) log = None"
    "ac_effects a (hv_uuid H u) = None"
  using assms by (auto simp: fresh_from_def)

context working_store
begin

lemma syncDone_fresh:
  assumes "sok (cr_store c)" and "inj (hv_uuid H)" and "fresh_from sn H (slog (cr_store c)) (cr_acc c) (cr_uuids c)"
    and c'_def: "c' = syncDone ops sn cell H name pol p raw c" and e_def: "e = hv_uuid H (cr_uuids c)"
  shows "slog (cr_store c') = slog (cr_store c) @ [effectStarted sn cell H e name pol p, effectCompleted sn H e raw]"
    and "ac_order (cr_acc c') = ac_order (cr_acc c) @ [e]" and "cr_uuids c' = Suc (cr_uuids c)"
    and "fresh_from sn H (slog (cr_store c')) (cr_acc c') (cr_uuids c')"
proof -
  have e: "hv_uuid H i = e \<longleftrightarrow> i = cr_uuids c" for i using assms(2) by (auto simp: e_def inj_def)
  show log: "slog (cr_store c') = slog (cr_store c) @ [effectStarted sn cell H e name pol p, effectCompleted sn H e raw]"
    using append_snd(3) [OF assms(1)] append_snd(3) [OF append_snd(2) [OF assms(1)]]
    by (simp add: c'_def e_def syncDone_def Let_def)
  show "ac_order (cr_acc c') = ac_order (cr_acc c) @ [e]"
    using fresh_fromD(3) [OF assms(3)] by (simp add: c'_def e_def syncDone_def Let_def ac_order_fresh)
  show u: "cr_uuids c' = Suc (cr_uuids c)" by (simp add: c'_def syncDone_def Let_def)
  have "ac_effects (cr_acc c') (hv_uuid H i) = None" if "i \<ge> Suc (cr_uuids c)" for i
    using assms(3) that e [of i]
    by (auto simp: c'_def syncDone_def Let_def fresh_from_def recordStarted_def e_def intro!: ac_effects_completed)
  moreover have "e \<noteq> hv_uuid H i" if "i \<ge> Suc (cr_uuids c)" for i using e [of i] that by auto
  ultimately show "fresh_from sn H (slog (cr_store c')) (cr_acc c') (cr_uuids c')"
    using assms(3) unfolding fresh_from_def log u by (auto simp: find_map_append)
qed

lemma asyncDone_fresh:
  assumes "sok (cr_store c)" and "inj (hv_uuid H)" and "fresh_from sn H (slog (cr_store c)) (cr_acc c) (cr_uuids c)"
    and c'_def: "c' = asyncDone ops sn cell H name pol p c" and e_def: "e = hv_uuid H (cr_uuids c)"
  shows "slog (cr_store c') = slog (cr_store c) @ [effectStarted sn cell H e name pol p]"
    and "ac_order (cr_acc c') = ac_order (cr_acc c) @ [e]" and "cr_uuids c' = Suc (cr_uuids c)"
    and "fresh_from sn H (slog (cr_store c')) (cr_acc c') (cr_uuids c')"
proof -
  have e: "hv_uuid H i = e \<longleftrightarrow> i = cr_uuids c" for i using assms(2) by (auto simp: e_def inj_def)
  show log: "slog (cr_store c') = slog (cr_store c) @ [effectStarted sn cell H e name pol p]"
    using append_snd(3) [OF assms(1)] by (simp add: c'_def e_def asyncDone_def Let_def)
  show "ac_order (cr_acc c') = ac_order (cr_acc c) @ [e]"
    using fresh_fromD(3) [OF assms(3)] by (simp add: c'_def e_def asyncDone_def Let_def ac_order_fresh)
  show u: "cr_uuids c' = Suc (cr_uuids c)" by (simp add: c'_def asyncDone_def Let_def)
  have "ac_effects (cr_acc c') (hv_uuid H i) = None" if "i \<ge> Suc (cr_uuids c)" for i
    using assms(3) that e [of i] by (auto simp: c'_def asyncDone_def Let_def fresh_from_def recordStarted_def e_def)
  moreover have "e \<noteq> hv_uuid H i" if "i \<ge> Suc (cr_uuids c)" for i using e [of i] that by auto
  ultimately show "fresh_from sn H (slog (cr_store c')) (cr_acc c') (cr_uuids c')"
    using assms(3) unfolding fresh_from_def log u by (auto simp: find_map_append)
qed

lemma settledOne_fresh:
  assumes "sok (cr_store c)" and "inj (hv_uuid H)" and "fresh_from sn H (slog (cr_store c)) (cr_acc c) (cr_uuids c)"
    and "i < cr_uuids c" and "e = hv_uuid H i"
    and c'_def: "c' = settledOne ops sn H e raw c"
  shows "slog (cr_store c') = slog (cr_store c) @ [effectCompleted sn H e raw]"
    and "ac_order (cr_acc c') = ac_order (cr_acc c)"
    and "fresh_from sn H (slog (cr_store c')) (cr_acc c') (cr_uuids c')"
proof -
  have e: "hv_uuid H j \<noteq> e" if "j \<ge> cr_uuids c" for j using assms(2,4,5) that by (auto dest: injD)
  show log: "slog (cr_store c') = slog (cr_store c) @ [effectCompleted sn H e raw]"
    using append_snd(3) [OF assms(1)] by (simp add: c'_def settledOne_def)
  show "ac_order (cr_acc c') = ac_order (cr_acc c)" by (simp add: c'_def settledOne_def)
  have "ac_effects (cr_acc c') (hv_uuid H j) = None" if "j \<ge> cr_uuids c" for j
    using assms(3) that e by (auto simp: c'_def settledOne_def fresh_from_def intro: ac_effects_completed)
  moreover have "cr_uuids c' = cr_uuids c" by (simp add: c'_def settledOne_def)
  ultimately show "fresh_from sn H (slog (cr_store c')) (cr_acc c') (cr_uuids c')"
    using assms(3) e unfolding fresh_from_def log by (auto simp: find_map_append)
qed

lemma drainInflight_one:
  assumes "sok (cr_store c)" and "cr_inflight c = [(n, e, name, p)]" and "hv_invoke H e name p = Inr raw"
  shows "drainInflight ops sn H c = settledOne ops sn H e raw c"
  using finishAsync_done [OF assms] assms(2)
  by (simp add: drainInflight.simps [of ops sn H c] drainInflight.simps [of ops sn H "settledOne ops sn H e raw c"])

lemma inflight_freshE:
  assumes "inflight_fresh sn H log u xs" and "xs \<noteq> []"
  obtains n e name p raw i where "xs = [(n, e, name, p)]" "hv_invoke H e name p = Inr raw"
    "find_map (resultOf sn e) log = None" "i < u" "e = hv_uuid H i"
  using assms that by (cases "(sn, H, log, u, xs)" rule: inflight_fresh.cases) auto

lemma live_journal:
  "sok (cr_store c) \<Longrightarrow> inj (hv_uuid H) \<Longrightarrow> fresh_from sn H (slog (cr_store c)) (cr_acc c) (cr_uuids c) \<Longrightarrow>
   inflight_fresh sn H (slog (cr_store c)) (cr_uuids c) (cr_inflight c) \<Longrightarrow>
   replayable ops sn cell H t closed c \<Longrightarrow>
   journalled sn H (cr_inflight c) (trace ops sn cell H t c) (slog (cr_store c)) (ac_order (cr_acc c))
     (slog (cr_store (snd (liveCell ops sn cell H t c)))) (ac_order (cr_acc (snd (liveCell ops sn cell H t c))))"
proof (induction t arbitrary: c closed)
  case (Halt vm)
  show ?case
  proof (cases "cr_inflight c = []")
    case True
    then show ?thesis using journalled_done by (simp add: drainInflight.simps)
  next
    case False
    then obtain n e name p raw i where one: "cr_inflight c = [(n, e, name, p)]" "hv_invoke H e name p = Inr raw"
      "find_map (resultOf sn e) (slog (cr_store c)) = None" "i < cr_uuids c" "e = hv_uuid H i"
      using inflight_freshE [OF Halt.prems(4)] by metis
    note f = settledOne_fresh [OF Halt.prems(1-3) one(4,5) refl, of raw]
    show ?thesis
      using journalled_settle [OF _ one(3,2)] journalled_done one f drainInflight_one [OF Halt.prems(1) one(1,2)]
      by simp
  qed
next
  case (Idle vm k)
  show ?case
  proof (cases "cr_inflight c = []")
    case True
    then show ?thesis using journalled_done by simp
  next
    case False
    then obtain n e name p raw i where one: "cr_inflight c = [(n, e, name, p)]" "hv_invoke H e name p = Inr raw"
      "find_map (resultOf sn e) (slog (cr_store c)) = None" "i < cr_uuids c" "e = hv_uuid H i"
      using inflight_freshE [OF Idle.prems(4)] by metis
    let ?c = "settledOne ops sn H e raw c"
    note f = settledOne_fresh [OF Idle.prems(1-3) one(4,5) refl, of raw]
    have fin: "finishAsync ops sn H c = (n, SResolve raw, ?c)" using finishAsync_done [OF Idle.prems(1) one(1,2)] .
    have "journalled sn H [] (trace ops sn cell H (k n (SResolve raw)) ?c) (slog (cr_store ?c)) (ac_order (cr_acc ?c))
        (slog (cr_store (snd (liveCell ops sn cell H (k n (SResolve raw)) ?c))))
        (ac_order (cr_acc (snd (liveCell ops sn cell H (k n (SResolve raw)) ?c))))"
      using Idle.IH [OF rangeI rangeI done_sok(3) [OF Idle.prems(1)] Idle.prems(2) f(3)] Idle.prems(5) False fin
      by simp
    then show ?thesis using journalled_settle [OF _ one(3,2)] False fin f one(1) by simp
  qed
next
  case (Deliver out k)
  then show ?case
    using Deliver.IH [of c True] Deliver.IH [of "c\<lparr>cr_outcome := Some out\<rparr>" True] by (cases "cr_outcome c") simp_all
next
  case (SyncCall name pol arg k)
  show ?case
  proof (cases arg)
    case (Inl err)
    then show ?thesis
      using SyncCall.IH [of "k (HThrow err)" c closed] SyncCall.prems
      by (cases closed) (simp_all add: invokeSyncLive_def traced_def)
  next
    case (Inr p)
    let ?e = "hv_uuid H (cr_uuids c)"
    obtain raw where raw: "hv_invoke H ?e name p = Inr raw" "traced H name pol arg (cr_uuids c) = [(?e, pol, raw)]"
      using call_okD [of H name pol p "cr_uuids c"] SyncCall.prems(5) Inr by auto
    let ?c = "syncDone ops sn cell H name pol p raw c"
    note f = syncDone_fresh [OF SyncCall.prems(1-3) refl refl, of cell name pol p raw]
    have live: "invokeSyncLive ops sn cell H name pol arg c = (HReturn ?e raw, ?c)"
      using invokeSync_done [where c = c and H = H, OF SyncCall.prems(1) raw(1)] Inr by simp
    have infl: "inflight_fresh sn H (slog (cr_store ?c)) (cr_uuids ?c) (cr_inflight ?c)"
    proof (cases "cr_inflight c = []")
      case False
      then obtain n e' name' p' raw' i where one: "cr_inflight c = [(n, e', name', p')]" "hv_invoke H e' name' p' = Inr raw'"
        "find_map (resultOf sn e') (slog (cr_store c)) = None" "i < cr_uuids c" "e' = hv_uuid H i"
        using inflight_freshE [OF SyncCall.prems(4)] by metis
      moreover have "?e \<noteq> e'" using one(4,5) SyncCall.prems(2) by (auto dest: injD)
      ultimately show ?thesis
        unfolding f(1,3) done_sel by (auto simp: find_map_append intro: less_SucI)
    qed simp
    let ?l = "liveCell ops sn cell H (k (HReturn ?e raw)) ?c"
    have "journalled sn H (cr_inflight c) (trace ops sn cell H (k (HReturn ?e raw)) ?c)
        (slog (cr_store c) @ [effectStarted sn cell H ?e name pol p, effectCompleted sn H ?e raw])
        (ac_order (cr_acc c) @ [?e]) (slog (cr_store (snd ?l))) (ac_order (cr_acc (snd ?l)))"
      using SyncCall.IH [OF rangeI done_sok(1) [OF SyncCall.prems(1)] SyncCall.prems(2) f(4) infl, of "HReturn ?e raw" closed]
        SyncCall.prems(5) live f(1,2) by (cases closed) simp_all
    from journalled_sync [OF this fresh_fromD(1,2) [OF SyncCall.prems(3)]] show ?thesis
      using live raw(2) by simp
  qed
next
  case (AsyncCall name pol arg k)
  show ?case
  proof (cases arg)
    case (Inl err)
    then show ?thesis
      using AsyncCall.IH [of "k (AReject [] err)" "c\<lparr>cr_asyncCalls := Suc (cr_asyncCalls c)\<rparr>" closed] AsyncCall.prems
      by (cases closed) (simp_all add: invokeAsyncLive_def traced_def Let_def)
  next
    case (Inr p)
    let ?e = "hv_uuid H (cr_uuids c)"
    obtain raw where raw: "hv_invoke H ?e name p = Inr raw" "traced H name pol arg (cr_uuids c) = [(?e, pol, raw)]"
      using call_okD [of H name pol p "cr_uuids c"] AsyncCall.prems(5) Inr by auto
    let ?c = "asyncDone ops sn cell H name pol p c"
    note f = asyncDone_fresh [OF AsyncCall.prems(1-3) refl refl, of cell name pol p]
    have live: "invokeAsyncLive ops sn cell H name pol arg c = (APending ?e, ?c)"
      using invokeAsync_done [OF AsyncCall.prems(1)] Inr by simp
    have none: "cr_inflight c = []" using AsyncCall.prems(5) by simp
    have infl: "inflight_fresh sn H (slog (cr_store ?c)) (cr_uuids ?c) (cr_inflight ?c)"
      using fresh_fromD(2) [OF AsyncCall.prems(3)] raw(1) none unfolding f(1,3) done_sel
      by (auto simp: find_map_append)
    let ?l = "liveCell ops sn cell H (k (APending ?e)) ?c"
    have "journalled sn H [(cr_asyncCalls c, ?e, name, p)] (trace ops sn cell H (k (APending ?e)) ?c)
        (slog (cr_store c) @ [effectStarted sn cell H ?e name pol p])
        (ac_order (cr_acc c) @ [?e]) (slog (cr_store (snd ?l))) (ac_order (cr_acc (snd ?l)))"
      using AsyncCall.IH [OF rangeI done_sok(2) [OF AsyncCall.prems(1)] AsyncCall.prems(2) f(4) infl, of "APending ?e" closed]
        AsyncCall.prems(5) live none f(1,2) by (cases closed) simp_all
    from journalled_async [OF this fresh_fromD(1) [OF AsyncCall.prems(3)] raw(1)] show ?thesis
      using live raw(2) none by simp
  qed
next
  case (Console line k)
  then show ?case
    using Console.IH [of "c\<lparr>cr_acc := recordLog line (cr_acc c)\<rparr>" closed] by (simp add: fresh_from_def)
next
  case (PromiseReject p reason k)
  then show ?case
    using PromiseReject.IH [of "c\<lparr>cr_acc := recordPromiseRejection p (Some reason) (cr_acc c)\<rparr>" closed]
    by (simp add: fresh_from_def)
next
  case (PromiseHandle p k)
  then show ?case
    using PromiseHandle.IH [of "c\<lparr>cr_acc := recordPromiseRejection p None (cr_acc c)\<rparr>" closed]
    by (simp add: fresh_from_def)
qed

end

subsection \<open>Record and replay\<close>

definition newCellRun :: "'s \<Rightarrow> nat \<Rightarrow> ('s, 'v) cellRun" where
  "newCellRun s u = \<lparr>cr_store = s, cr_acc = newAccumulator, cr_inflight = [], cr_asyncCalls = 0,
     cr_uuids = u, cr_outcome = None\<rparr>"

definition newReplayRun :: "replayStepState \<Rightarrow> 'v replayRun" where
  "newReplayRun st = \<lparr>rr_step = st, rr_open = True, rr_batch = [], rr_asyncCalls = 0,
     rr_outcome = None, rr_acc = newAccumulator\<rparr>"

lemma newReplayStepState_answers:
  assumes "\<forall>(e, pol, raw) \<in> set tr. \<exists>d. D e = Some d \<and> answers \<lparr>ri_effectID = e, ri_decision = d\<rparr> (e, pol, raw)"
  shows "\<exists>ivs. newReplayStepState (map fst tr) D =
      Inr \<lparr>rp_effects = ivs, rp_nextStart = 0, rp_pendingAsync = [], rp_flushScheduled = False\<rparr> \<and>
    list_all2 answers ivs tr"
proof -
  let ?iv = "\<lambda>e. \<lparr>ri_effectID = e, ri_decision = the (D e)\<rparr>"
  have "rmap (\<lambda>e. case D e of None \<Rightarrow> Inl (''missing replay decision for effect '' @ quote e)
                    | Some d \<Rightarrow> Inr \<lparr>ri_effectID = e, ri_decision = d\<rparr>) (map fst tr) = Inr (map ?iv (map fst tr))"
    using assms by (intro rmap_total_Inr) fastforce
  moreover have "list_all2 answers (map ?iv (map fst tr)) tr"
    using assms by (fastforce simp: list_all2_map1 list_all2_same)
  ultimately show ?thesis by (simp add: newReplayStepState_def)
qed

context working_store
begin

lemma record_replay:
  assumes ok: "sok s" and inj: "inj (hv_uuid H)" and fresh: "fresh_from sn H (slog s) newAccumulator u"
    and rep: "replayable ops sn cell H t False (newCellRun s u)"
    and live: "liveCell ops sn cell H t (newCellRun s u) = (vm, c')"
  shows "\<exists>st r'. newReplayStepState (ac_order (cr_acc c')) (decision_of sn (slog (cr_store c') @ fs)) = Inr st \<and>
    replayCell clock late t (newReplayRun st) = (vm, r') \<and>
    rr_outcome r' = cr_outcome c' \<and> observed (rr_acc r') = observed (cr_acc c') \<and>
    ensureConsumed (rr_step r') = None"
proof -
  let ?c = "newCellRun s u" and ?tr = "trace ops sn cell H t (newCellRun s u)"
  have "journalled sn H [] ?tr (slog s) [] (slog (cr_store c')) (ac_order (cr_acc c'))"
    using live_journal [of ?c H sn cell t False] ok inj fresh rep live by (simp add: newCellRun_def newAccumulator_def)
  then have order: "ac_order (cr_acc c') = map fst ?tr"
    and ans: "\<And>e pol raw. (e, pol, raw) \<in> set ?tr \<Longrightarrow>
      find_map (startedOf sn e) (slog (cr_store c')) = Some pol \<and> find_map (resultOf sn e) (slog (cr_store c')) = Some raw"
    by (auto simp: journalled_def)
  have "\<forall>(e, pol, raw) \<in> set ?tr. \<exists>d. decision_of sn (slog (cr_store c') @ fs) e = Some d \<and>
      answers \<lparr>ri_effectID = e, ri_decision = d\<rparr> (e, pol, raw)"
    using decision_of_recorded [OF find_map_extend find_map_extend] ans by blast
  from newReplayStepState_answers [OF this] obtain ivs where
    ivs: "newReplayStepState (map fst ?tr) (decision_of sn (slog (cr_store c') @ fs)) =
      Inr \<lparr>rp_effects = ivs, rp_nextStart = 0, rp_pendingAsync = [], rp_flushScheduled = False\<rparr>"
      "list_all2 answers ivs ?tr" by blast
  let ?st = "\<lparr>rp_effects = ivs, rp_nextStart = 0, rp_pendingAsync = [], rp_flushScheduled = False\<rparr>"
  have "at_same_point H late False ?tr ?c (newReplayRun ?st)"
    using ivs(2) by (simp add: at_same_point_def newReplayRun_def newCellRun_def)
  from replay_follows [OF _ this rep, of clock] ok live ivs(1) order show ?thesis
    by (auto simp: newCellRun_def ensureConsumed_def)
qed

end

end
