(* ===== verification/Runtime.thy ===== *)
theory Runtime
  imports Replay
begin

text \<open>
  The branch runtime of \<open>src/session/runtime.go\<close>: resolution of the runtime
  descriptor, creation of a runtime, indexed results, runtime transitions, and
  the replay of a plan into a fresh runtime.

  The JavaScript engine, the JSON codec, the SHA-256 digest and the delegate
  the embedding program installs are parameters (\<open>Goja\<close>, \<open>Delegate\<close>). The
  \<open>$val\<close> function of the engine reads the runtime's value table, so a run is
  given the table. \<open>gj_late\<close> and \<open>gj_clock\<close> are the schedule and the clock of a
  replayed run (theory \<open>Effects\<close>).
\<close>

datatype hostFunctionMode = ModeLive | ModeReplay

record 'v indexedValue =
  ix_value :: 'v
  ix_runtimeHash :: string
  ix_staleMessage :: string

record ('vm, 'v) branchRuntime =
  br_vm :: 'vm
  br_mode :: hostFunctionMode
  br_valueByIndex :: "nat \<rightharpoonup> 'v indexedValue"
  br_epoch :: string

record ('vm, 'v) Goja =
  gj_boot :: 'vm
  gj_run :: "'vm \<Rightarrow> (nat \<rightharpoonup> 'v) \<Rightarrow> string \<Rightarrow> string + ('vm, 'v) js"
  gj_setLast :: "'vm \<Rightarrow> 'v \<Rightarrow> string + 'vm"
  gj_undefined :: 'v
  gj_isCallable :: "'v \<Rightarrow> bool"
  gj_staleCallable :: "string \<Rightarrow> 'v"
  gj_staleMessage :: "'v \<Rightarrow> string option"
  gj_json :: "bytes \<Rightarrow> string + bytes"
  gj_sha256 :: "bytes \<Rightarrow> string"
  gj_clock :: nat
  gj_late :: bool

record 'vm Delegate =
  dl_ConfigureRuntime :: "SessionID \<Rightarrow> BranchID \<Rightarrow> string \<Rightarrow> 'vm \<Rightarrow> bytes \<Rightarrow> string + 'vm \<times> bytes"
  dl_TransitionRuntime ::
    "(SessionID \<Rightarrow> BranchID \<Rightarrow> string \<Rightarrow> string \<Rightarrow> 'vm \<Rightarrow> bytes \<Rightarrow> bytes \<Rightarrow> string + 'vm) option"

subsection \<open>Runtime descriptors\<close>

definition normalizeRuntimeConfig :: "('vm, 'v) Goja \<Rightarrow> bytes \<Rightarrow> string + bytes" where
  "normalizeRuntimeConfig G state =
     (if state = [] then Inr []
      else case gj_json G state of
             Inl e \<Rightarrow> Inl (''normalize runtime config: '' @ e)
           | Inr normalized \<Rightarrow> Inr normalized)"

definition runtimeConfigHash :: "('vm, 'v) Goja \<Rightarrow> bytes \<Rightarrow> string" where
  "runtimeConfigHash G state = gj_sha256 G state"

definition configureRuntime ::
  "'vm Delegate \<Rightarrow> SessionID \<Rightarrow> BranchID \<Rightarrow> string \<Rightarrow> 'vm \<Rightarrow> bytes \<Rightarrow> string + 'vm \<times> bytes" where
  "configureRuntime dl sn b h vm state =
     (case dl_ConfigureRuntime dl sn b h vm state of
        Inl e \<Rightarrow> Inl (''configure runtime: '' @ e)
      | Inr r \<Rightarrow> Inr r)"

definition previewConfiguredRuntimeState ::
  "('vm, 'v) Goja \<Rightarrow> 'vm Delegate option \<Rightarrow> SessionID \<Rightarrow> BranchID \<Rightarrow> string \<Rightarrow> bytes \<Rightarrow> string + bytes" where
  "previewConfiguredRuntimeState G delegate sn b h state =
     (case delegate of
        None \<Rightarrow> Inr state
      | Some dl \<Rightarrow> rbind (configureRuntime dl sn b h (gj_boot G) state) (\<lambda>(_, configured). Inr configured))"

definition maxRuntimeHashResolutionPasses :: nat where "maxRuntimeHashResolutionPasses = 8"

fun resolveLoop ::
  "('vm, 'v) Goja \<Rightarrow> 'vm Delegate option \<Rightarrow> SessionID \<Rightarrow> BranchID \<Rightarrow> bytes \<Rightarrow> nat \<Rightarrow> string \<Rightarrow> string + bytes \<times> string" where
  "resolveLoop G delegate sn b normalizedState 0 h =
     Inl ''resolve runtime descriptor: runtime hash did not stabilize after 8 passes''"
| "resolveLoop G delegate sn b normalizedState (Suc pass) h =
     rbind (previewConfiguredRuntimeState G delegate sn b h normalizedState) (\<lambda>configuredState.
     rbind (normalizeRuntimeConfig G configuredState) (\<lambda>normalizedConfiguredState.
       let nextHash = runtimeConfigHash G normalizedConfiguredState in
       if nextHash = h then Inr (normalizedConfiguredState, nextHash)
       else resolveLoop G delegate sn b normalizedState pass nextHash))"

definition resolveRuntimeDescriptor ::
  "('vm, 'v) Goja \<Rightarrow> 'vm Delegate option \<Rightarrow> SessionID \<Rightarrow> BranchID \<Rightarrow> bytes \<Rightarrow> string + bytes \<times> string" where
  "resolveRuntimeDescriptor G delegate sn b state =
     rbind (normalizeRuntimeConfig G state) (\<lambda>normalizedState.
       case delegate of
         None \<Rightarrow> Inr (normalizedState, runtimeConfigHash G normalizedState)
       | Some _ \<Rightarrow> resolveLoop G delegate sn b normalizedState maxRuntimeHashResolutionPasses
                      (runtimeConfigHash G normalizedState))"

definition newBranchRuntime ::
  "('vm, 'v) Goja \<Rightarrow> 'vm Delegate option \<Rightarrow> SessionID \<Rightarrow> BranchID \<Rightarrow> bytes \<Rightarrow> hostFunctionMode \<Rightarrow>
   string + ('vm, 'v) branchRuntime \<times> bytes \<times> string" where
  "newBranchRuntime G delegate sn b state mode =
     rbind (resolveRuntimeDescriptor G delegate sn b state) (\<lambda>(_, resolvedHash).
     rbind (normalizeRuntimeConfig G state) (\<lambda>normalizedState.
     rbind (case delegate of
              None \<Rightarrow> Inr (gj_boot G, normalizedState)
            | Some dl \<Rightarrow> configureRuntime dl sn b resolvedHash (gj_boot G) normalizedState) (\<lambda>(vm, configuredState).
     rbind (normalizeRuntimeConfig G configuredState) (\<lambda>normalizedConfiguredState.
       let actualHash = runtimeConfigHash G normalizedConfiguredState in
       if actualHash \<noteq> resolvedHash
       then Inl (''configure runtime: resolved runtime hash '' @ quote resolvedHash @
                 '' but delegate produced '' @ quote actualHash)
       else Inr (\<lparr>br_vm = vm, br_mode = mode, br_valueByIndex = Map.empty, br_epoch = resolvedHash\<rparr>,
                 normalizedConfiguredState, actualHash)))))"

subsection \<open>Indexed results\<close>

definition defaultStaleIndexedValueMessage :: string where
  "defaultStaleIndexedValueMessage = ''indexed value from a previous runtime is no longer callable''"

text \<open>\<open>strings.TrimSpace(s) == ''''\<close> on ASCII text.\<close>

definition isBlank :: "string \<Rightarrow> bool" where
  "isBlank s = list_all (\<lambda>c. c \<in> {CHR '' '', CHR 0x09, CHR 0x0A, CHR 0x0B, CHR 0x0C, CHR 0x0D}) s"

definition setIndexedResult ::
  "('vm, 'v) Goja \<Rightarrow> nat \<Rightarrow> 'v evalResult \<Rightarrow> ('vm, 'v) branchRuntime \<Rightarrow> string + ('vm, 'v) branchRuntime" where
  "setIndexedResult G index eval r =
     (let runtimeHash = br_epoch r;
          value = (if ev_hasIndexedValue eval then ev_indexedValue eval else gj_undefined G);
          staleMessage = (if ev_hasIndexedValue eval
            then case gj_staleMessage G value of
                   Some meta \<Rightarrow> if isBlank meta then defaultStaleIndexedValueMessage else meta
                 | None \<Rightarrow> defaultStaleIndexedValueMessage
            else defaultStaleIndexedValueMessage)
      in rbind (gj_setLast G (br_vm r) value) (\<lambda>vm.
           let r = r\<lparr>br_vm := vm\<rparr> in
           if index > 0
           then Inr (r\<lparr>br_valueByIndex := (br_valueByIndex r)(index \<mapsto>
                  \<lparr>ix_value = value, ix_runtimeHash = runtimeHash, ix_staleMessage = staleMessage\<rparr>)\<rparr>)
           else Inr r))"

definition indexedValueStaleMessage :: "'v indexedValue \<Rightarrow> string" where
  "indexedValueStaleMessage entry =
     (if isBlank (ix_staleMessage entry) then defaultStaleIndexedValueMessage else ix_staleMessage entry)"

definition staleEntry ::
  "('vm, 'v) Goja \<Rightarrow> string \<Rightarrow> nat \<Rightarrow> nat \<Rightarrow> 'v indexedValue \<Rightarrow> 'v indexedValue" where
  "staleEntry G runtimeHash currentIndex index entry =
     (if index > currentIndex then entry
      else if \<not> gj_isCallable G (ix_value entry) then entry
      else if ix_runtimeHash entry \<noteq> [] \<and> ix_runtimeHash entry \<noteq> runtimeHash
      then entry\<lparr>ix_value := gj_staleCallable G (indexedValueStaleMessage entry), ix_runtimeHash := []\<rparr>
      else entry)"

text \<open>The downward loop that looks for the latest value.\<close>

fun lastIndexedValue :: "(nat \<rightharpoonup> 'v indexedValue) \<Rightarrow> 'v \<Rightarrow> nat \<Rightarrow> 'v" where
  "lastIndexedValue vals undef 0 = undef"
| "lastIndexedValue vals undef (Suc i) =
     (case vals (Suc i) of Some entry \<Rightarrow> ix_value entry | None \<Rightarrow> lastIndexedValue vals undef i)"

definition replaceStaleIndexedResults ::
  "('vm, 'v) Goja \<Rightarrow> string \<Rightarrow> nat \<Rightarrow> ('vm, 'v) branchRuntime \<Rightarrow> string + ('vm, 'v) branchRuntime" where
  "replaceStaleIndexedResults G runtimeHash currentIndex r =
     (if runtimeHash = [] \<or> currentIndex = 0 then Inr r
      else let vals = (\<lambda>i. map_option (staleEntry G runtimeHash currentIndex i) (br_valueByIndex r i)) in
           rbind (gj_setLast G (br_vm r) (lastIndexedValue vals (gj_undefined G) currentIndex)) (\<lambda>vm.
             Inr (r\<lparr>br_vm := vm, br_valueByIndex := vals\<rparr>)))"

subsection \<open>Runtime transitions\<close>

definition applyRuntimeTransition ::
  "('vm, 'v) Goja \<Rightarrow> 'vm Delegate option \<Rightarrow> SessionID \<Rightarrow> BranchID \<Rightarrow> string \<Rightarrow> string \<Rightarrow> bytes \<Rightarrow> bytes \<Rightarrow>
   ('vm, 'v) branchRuntime \<Rightarrow> string + ('vm, 'v) branchRuntime" where
  "applyRuntimeTransition G delegate sn b fromHash toHash fromState toState rt =
     (if fromHash = toHash then Inr rt
      else case delegate of
        None \<Rightarrow> Inr rt
      | Some dl \<Rightarrow>
          (case dl_TransitionRuntime dl of
             None \<Rightarrow> Inl ''apply runtime transition: delegate does not implement engine.VMTransitionDelegate''
           | Some transition \<Rightarrow>
               (case transition sn b fromHash toHash (br_vm rt) fromState toState of
                  Inl e \<Rightarrow> Inl (''apply runtime transition: '' @ e)
                | Inr vm \<Rightarrow> Inr (rt\<lparr>br_epoch := toHash, br_vm := vm\<rparr>))))"

definition applyRuntimeTransitionAndInvalidateIndexedResults ::
  "('vm, 'v) Goja \<Rightarrow> 'vm Delegate option \<Rightarrow> SessionID \<Rightarrow> BranchID \<Rightarrow> string \<Rightarrow> string \<Rightarrow> bytes \<Rightarrow> bytes \<Rightarrow> nat \<Rightarrow>
   ('vm, 'v) branchRuntime \<Rightarrow> string + ('vm, 'v) branchRuntime" where
  "applyRuntimeTransitionAndInvalidateIndexedResults G delegate sn b fromHash toHash fromState toState currentIndex rt =
     (if fromHash = toHash then Inr rt
      else rbind (applyRuntimeTransition G delegate sn b fromHash toHash fromState toState rt) (\<lambda>rt.
             case replaceStaleIndexedResults G toHash currentIndex rt of
               Inl e \<Rightarrow> Inl (''apply runtime transition: replace stale indexed results: '' @ e)
             | Inr rt \<Rightarrow> Inr rt))"

subsection \<open>Replaying a plan\<close>

definition replaySourceForStep :: "ReplayStep \<Rightarrow> string" where
  "replaySourceForStep step =
     (if st_Language step = CellLanguageTypeScript then st_EmittedJS step
      else if st_EmittedJS step \<noteq> [] then st_EmittedJS step
      else st_Source step)"

abbreviation valueTable :: "('vm, 'v) branchRuntime \<Rightarrow> nat \<rightharpoonup> 'v" where
  "valueTable rt \<equiv> (\<lambda>i. map_option ix_value (br_valueByIndex rt i))"

text \<open>
  \<open>runContext\<close> of a replayed cell between \<open>beginReplayStep\<close> and
  \<open>finishReplayStep\<close>: a run that never delivers an outcome ends at the deadline.
\<close>

definition replayRunContext ::
  "('vm, 'v) Goja \<Rightarrow> replayStepState \<Rightarrow> string \<Rightarrow> ('vm, 'v) branchRuntime \<Rightarrow>
   string + 'v evalResult \<times> replayStepState \<times> ('vm, 'v) branchRuntime" where
  "replayRunContext G st src rt =
     (case gj_run G (br_vm rt) (valueTable rt) src of
        Inl e \<Rightarrow> Inl (''goja: '' @ e)
      | Inr t \<Rightarrow>
          (case replayCell (gj_clock G) (gj_late G) t (newReplayRun st) of
             (vm, r) \<Rightarrow>
               (case rr_outcome r of
                  None \<Rightarrow> Inl ''promise still pending after evaluation: context deadline exceeded''
                | Some (Inl e) \<Rightarrow> Inl e
                | Some (Inr eval) \<Rightarrow> Inr (eval, rr_step r, rt\<lparr>br_vm := vm\<rparr>))))"

record ('vm, 'v) replayCursor =
  rq_rt :: "('vm, 'v) branchRuntime"
  rq_config :: bytes
  rq_hash :: string

fun applyTransitions ::
  "('vm, 'v) Goja \<Rightarrow> 'vm Delegate option \<Rightarrow> SessionID \<Rightarrow> BranchID \<Rightarrow> nat \<Rightarrow> RuntimeTransition list \<Rightarrow>
   ('vm, 'v) replayCursor \<Rightarrow> string + ('vm, 'v) replayCursor" where
  "applyTransitions G delegate sn b currentIndex [] q = Inr q"
| "applyTransitions G delegate sn b currentIndex (t # ts) q =
     rbind (applyRuntimeTransitionAndInvalidateIndexedResults G delegate sn b (rq_hash q) (tr_RuntimeHash t)
              (rq_config q) (tr_RuntimeConfig t) currentIndex (rq_rt q)) (\<lambda>rt.
       applyTransitions G delegate sn b currentIndex ts
         \<lparr>rq_rt = rt, rq_config = tr_RuntimeConfig t, rq_hash = tr_RuntimeHash t\<rparr>)"

definition transitionsAfter :: "ReplayPlan \<Rightarrow> CellID \<Rightarrow> RuntimeTransition list" where
  "transitionsAfter plan cell = filter (\<lambda>t. tr_AfterCell t = cell) (pl_RuntimeTransitions plan)"

definition replayStep ::
  "('vm, 'v) Goja \<Rightarrow> 'vm Delegate option \<Rightarrow> SessionID \<Rightarrow> BranchID \<Rightarrow> ReplayPlan \<Rightarrow> nat \<Rightarrow> ReplayStep \<Rightarrow>
   ('vm, 'v) replayCursor \<Rightarrow> string + ('vm, 'v) replayCursor" where
  "replayStep G delegate sn b plan stepIndex step q =
     (let cell = quote (st_Cell step) in
      case newReplayStepState (st_Effects step) (pl_Decisions plan) of
        Inl e \<Rightarrow> Inl (''prepare replay step '' @ cell @ '': '' @ e)
      | Inr st \<Rightarrow>
          (case replayRunContext G st (replaySourceForStep step) (rq_rt q) of
             Inl e \<Rightarrow> Inl (''replay cell '' @ cell @ '': '' @ e)
           | Inr (eval, st, rt) \<Rightarrow>
               (case ensureConsumed st of
                  Some e \<Rightarrow> Inl (''replay cell '' @ cell @ '' effects: '' @ e)
                | None \<Rightarrow>
                    (case setIndexedResult G (stepIndex + 1) eval rt of
                       Inl e \<Rightarrow> Inl (''replay cell '' @ cell @ '' set $last/$val('' @ showNat (stepIndex + 1) @ ''): '' @ e)
                     | Inr rt \<Rightarrow>
                         (case applyTransitions G delegate sn b (stepIndex + 1)
                                 (transitionsAfter plan (st_Cell step)) (q\<lparr>rq_rt := rt\<rparr>) of
                            Inl e \<Rightarrow> Inl (''replay cell '' @ cell @ '' transition runtime: '' @ e)
                          | Inr q \<Rightarrow> Inr q)))))"

fun replaySteps ::
  "('vm, 'v) Goja \<Rightarrow> 'vm Delegate option \<Rightarrow> SessionID \<Rightarrow> BranchID \<Rightarrow> ReplayPlan \<Rightarrow> nat \<Rightarrow> ReplayStep list \<Rightarrow>
   ('vm, 'v) replayCursor \<Rightarrow> string + ('vm, 'v) replayCursor" where
  "replaySteps G delegate sn b plan stepIndex [] q = Inr q"
| "replaySteps G delegate sn b plan stepIndex (step # steps) q =
     rbind (replayStep G delegate sn b plan stepIndex step q) (\<lambda>q.
       replaySteps G delegate sn b plan (stepIndex + 1) steps q)"

definition replayPlanPrefixIntoRuntime ::
  "('vm, 'v) Goja \<Rightarrow> 'vm Delegate option \<Rightarrow> SessionID \<Rightarrow> BranchID \<Rightarrow> ReplayPlan \<Rightarrow> nat \<Rightarrow>
   string + ('vm, 'v) branchRuntime \<times> bytes \<times> string" where
  "replayPlanPrefixIntoRuntime G delegate sn b plan stepCount =
     rbind (newBranchRuntime G delegate sn b (pl_RuntimeConfig plan) ModeReplay)
       (\<lambda>(rt, configuredState, runtimeHash).
     rbind (applyTransitions G delegate sn b 0 (transitionsAfter plan [])
              \<lparr>rq_rt = rt, rq_config = configuredState, rq_hash = runtimeHash\<rparr>) (\<lambda>q.
     rbind (replaySteps G delegate sn b plan 0 (take stepCount (pl_Steps plan)) q) (\<lambda>q.
       Inr (if stepCount \<ge> length (pl_Steps plan) then (rq_rt q)\<lparr>br_mode := ModeLive\<rparr> else rq_rt q,
            rq_config q, rq_hash q))))"

definition replayPlanIntoRuntime ::
  "('vm, 'v) Goja \<Rightarrow> 'vm Delegate option \<Rightarrow> SessionID \<Rightarrow> BranchID \<Rightarrow> ReplayPlan \<Rightarrow>
   string + ('vm, 'v) branchRuntime \<times> bytes \<times> string" where
  "replayPlanIntoRuntime G delegate sn b plan =
     replayPlanPrefixIntoRuntime G delegate sn b plan (length (pl_Steps plan))"

end
