(* ===== verification/Session.thy ===== *)
theory Session
  imports Runtime
begin

text \<open>
  The session engine of \<open>src/session/session.go\<close>: starting, opening, restoring
  and forking sessions, submitting cells, runtime transitions and queries. The
  session struct is a record; the store is passed along with it. An operation
  that runs a store query may never return (\<open>None\<close>). Identifiers from \<open>uuid\<close>, the
  clock and the host functions come in as arguments of the operation; contexts
  and the per-session mutex are not modelled: an operation is one step.

  TypeScript checking is given by the configured factory and environment
  provider, as functions; a TypeScript session is such a checker with the list
  of committed sources it was given. \<open>jswire.Describe\<close> is passed to \<open>describeValue\<close> as a function.
\<close>

subsection \<open>Types of the engine interface\<close>

type_synonym RuntimeMode = string

definition RuntimeModePersistent :: RuntimeMode where "RuntimeModePersistent = ''persistent''"
definition RuntimeModeReplayPerSubmit :: RuntimeMode where "RuntimeModeReplayPerSubmit = ''replay_per_submit''"

record SubmitInput =
  in_Source :: string
  in_Language :: CellLanguage

record ReplWarning =
  rw_Code :: string
  rw_Message :: string

record SubmitResult =
  sr_Cell :: CellID
  sr_Index :: nat
  sr_Language :: CellLanguage
  sr_Diagnostics :: "Diagnostic list"
  sr_HasErrors :: bool
  sr_CompletionValue :: "ValueRef option"
  sr_Log :: "string list"
  sr_Warnings :: "ReplWarning list"

record ValueView =
  vv_Handle :: ValueID
  vv_Preview :: string
  vv_Summary :: string
  vv_Full :: string
  vv_TypeHint :: string
  vv_Structured :: bytes

record FailureView =
  fv_Failure :: FailureID
  fv_Branch :: BranchID
  fv_Parent :: CellID
  fv_Source :: string
  fv_RuntimeHash :: string
  fv_Phase :: string
  fv_ErrorMessage :: string
  fv_LinkedEffects :: "EffectID list"
  fv_At :: Time

record SubmitFailure =
  sf_Failure :: FailureID
  sf_Parent :: CellID
  sf_Phase :: string
  sf_ErrorMessage :: string
  sf_LinkedEffects :: "EffectSummary list"
  sf_Log :: "string list"

record SubmitCheckFailure =
  sk_Cell :: CellID
  sk_Language :: CellLanguage
  sk_Diagnostics :: "Diagnostic list"

text \<open>The error of a submit: a plain error, a recorded failure, or failed checking.\<close>

datatype SubmitError =
    PlainError string
  | FailureError SubmitFailure
  | CheckError SubmitResult SubmitCheckFailure

record tsEnv =
  te_Hash :: string
  te_EpochTS :: string
  te_CurrentDir :: string

record tsResult =
  tn_Diagnostics :: "Diagnostic list"
  tn_EmittedJS :: string
  tn_HasErrors :: bool

type_synonym tsChecker = "string list \<Rightarrow> tsEnv \<Rightarrow> string \<Rightarrow> string + tsResult"

record ('s, 'vm, 'v) SessionDeps =
  dp_ops :: "'s StoreOps"
  dp_goja :: "('vm, 'v) Goja"
  dp_delegate :: "'vm Delegate option"
  dp_runtimeConfig :: bytes
  dp_runtimeMode :: RuntimeMode
  dp_tsFactory :: "(string + tsChecker) option"
  dp_tsEnvProvider :: "(SessionID \<Rightarrow> BranchID \<Rightarrow> CellID \<Rightarrow> string + tsEnv) option"
  dp_describe :: "bytes \<Rightarrow> string + string \<times> string"

record ('vm, 'v) session =
  sx_id :: SessionID
  sx_branch :: BranchID
  sx_head :: CellID
  sx_runtimeHash :: string
  sx_runtimeConfig :: bytes
  sx_runtimeMode :: RuntimeMode
  sx_runtime :: "('vm, 'v) branchRuntime option"
  sx_runtimeDirty :: bool
  sx_currentIndex :: nat
  sx_values :: "ValueID \<rightharpoonup> ValueView"
  sx_tsSession :: "(tsChecker \<times> string list) option"
  sx_committedSources :: "string list"
  sx_tsEnvHash :: string
  sx_tsEpochTS :: string

record ('vm, 'v) loadedBranchState =
  lb_branch :: BranchID
  lb_head :: CellID
  lb_runtime :: "('vm, 'v) branchRuntime"
  lb_runtimeConfig :: bytes
  lb_runtimeHash :: string
  lb_currentIndex :: nat
  lb_envHash :: string
  lb_epochTS :: string
  lb_sources :: "string list"

definition runtimeModeOrDefault :: "RuntimeMode \<Rightarrow> RuntimeMode" where
  "runtimeModeOrDefault mode = (if mode = [] then RuntimeModePersistent else mode)"

definition languageOrDefault :: "CellLanguage \<Rightarrow> CellLanguage" where
  "languageOrDefault language = (if language = [] then CellLanguageJavaScript else language)"

subsection \<open>Error locations\<close>

text \<open>
  The cell is wrapped in one extra line, so \<open>Line l:c\<close> and \<open>cell.js:l:c(\<close> in
  error texts are moved up by one. The two regular expressions are matched
  from left to right without overlap; digits are ASCII.
\<close>

definition isDigit :: "char \<Rightarrow> bool" where
  "isDigit c \<longleftrightarrow> (48 :: nat) \<le> of_char c \<and> (of_char c :: nat) \<le> 57"

definition atoi :: "string \<Rightarrow> nat" where
  "atoi ds = min MaxInt (foldl (\<lambda>n c. 10 * n + (of_char c - 48)) 0 ds)"

text \<open>\<open>matchLoc pre post s\<close>: \<open>pre\<close>, digits, a colon, digits, \<open>post\<close> at the start of \<open>s\<close>.\<close>

definition matchLoc :: "string \<Rightarrow> string \<Rightarrow> string \<Rightarrow> (string \<times> string \<times> string) option" where
  "matchLoc pre post s =
     (if take (length pre) s \<noteq> pre then None
      else let s = drop (length pre) s; l = takeWhile isDigit s; s = dropWhile isDigit s in
        if l = [] \<or> s = [] \<or> hd s \<noteq> CHR '':'' then None
        else let c = takeWhile isDigit (tl s); s = dropWhile isDigit (tl s) in
          if c = [] \<or> take (length post) s \<noteq> post then None
          else Some (l, c, drop (length post) s))"

definition moveUp :: "nat \<Rightarrow> nat" where
  "moveUp line = (if line > 1 then line - 1 else 1)"

fun rewriteLocs :: "string \<Rightarrow> string \<Rightarrow> nat \<Rightarrow> string \<Rightarrow> string" where
  "rewriteLocs pre post 0 s = s"
| "rewriteLocs pre post (Suc n) [] = []"
| "rewriteLocs pre post (Suc n) (x # xs) =
     (case matchLoc pre post (x # xs) of
        None \<Rightarrow> x # rewriteLocs pre post n xs
      | Some (l, c, rest) \<Rightarrow>
          pre @ showNat (moveUp (atoi l)) @ '':'' @ showNat (atoi c) @ post @ rewriteLocs pre post n rest)"

definition translateWrappedCellLocations :: "string \<Rightarrow> string" where
  "translateWrappedCellLocations msg =
     (let msg = rewriteLocs ''Line '' [] (length msg) msg
      in rewriteLocs ''cell.js:'' ''('' (length msg) msg)"

definition combineSubmitErrors :: "string option \<Rightarrow> string option \<Rightarrow> string option" where
  "combineSubmitErrors primary secondary =
     (case (primary, secondary) of
        (None, _) \<Rightarrow> secondary
      | (_, None) \<Rightarrow> primary
      | (Some p, Some q) \<Rightarrow> Some (p @ ''; awaiting cell settlement: '' @ q))"

subsection \<open>Static context\<close>

definition resetTypeScriptSession :: "('vm, 'v) session \<Rightarrow> ('vm, 'v) session" where
  "resetTypeScriptSession s = s\<lparr>sx_tsSession := None\<rparr>"

definition ensureTypeScriptSession ::
  "('s, 'vm, 'v) SessionDeps \<Rightarrow> ('vm, 'v) session \<Rightarrow> string + (tsChecker \<times> string list) \<times> ('vm, 'v) session" where
  "ensureTypeScriptSession D s =
     (case dp_tsFactory D of
        None \<Rightarrow> Inl ''typescript mode is not configured for this session''
      | Some factory \<Rightarrow>
          (case sx_tsSession s of
             Some ts \<Rightarrow> Inr (ts, s)
           | None \<Rightarrow>
               (case factory of
                  Inl e \<Rightarrow> Inl (''create typescript session: '' @ e)
                | Inr check \<Rightarrow> (let ts = (check, sx_committedSources s) in Inr (ts, s\<lparr>sx_tsSession := Some ts\<rparr>)))))"

definition installLoadedBranchState ::
  "('vm, 'v) loadedBranchState \<Rightarrow> ('vm, 'v) session \<Rightarrow> ('vm, 'v) session" where
  "installLoadedBranchState st s =
     (resetTypeScriptSession s)\<lparr>sx_branch := lb_branch st, sx_head := lb_head st,
        sx_currentIndex := lb_currentIndex st, sx_committedSources := lb_sources st,
        sx_tsEnvHash := lb_envHash st, sx_tsEpochTS := lb_epochTS st,
        sx_runtimeHash := lb_runtimeHash st, sx_runtimeConfig := lb_runtimeConfig st,
        sx_runtime := Some (lb_runtime st), sx_runtimeDirty := False, sx_values := Map.empty\<rparr>"

definition envResetWarning :: ReplWarning where
  "envResetWarning = \<lparr>rw_Code = ''typescript_env_reset'',
     rw_Message = ''TypeScript static context was reset because the TypeScript env changed.''\<rparr>"

definition applyTypeScriptEnv :: "tsEnv \<Rightarrow> ('vm, 'v) session \<Rightarrow> ReplWarning list \<times> ('vm, 'v) session" where
  "applyTypeScriptEnv env s =
     (if sx_tsEnvHash s \<noteq> [] \<and> te_Hash env \<noteq> sx_tsEnvHash s
      then ([envResetWarning], (resetTypeScriptSession s)\<lparr>sx_committedSources := [],
              sx_tsEnvHash := te_Hash env, sx_tsEpochTS := te_EpochTS env\<rparr>)
      else ([], s\<lparr>sx_tsEnvHash := te_Hash env, sx_tsEpochTS := te_EpochTS env\<rparr>))"

definition syncTypeScriptEnv ::
  "('s, 'vm, 'v) SessionDeps \<Rightarrow> ('vm, 'v) session \<Rightarrow> string + tsEnv \<times> ReplWarning list \<times> ('vm, 'v) session" where
  "syncTypeScriptEnv D s =
     (case dp_tsEnvProvider D of
        None \<Rightarrow> Inr (\<lparr>te_Hash = [], te_EpochTS = [], te_CurrentDir = []\<rparr>, [], s)
      | Some provider \<Rightarrow>
          rbind (provider (sx_id s) (sx_branch s) (sx_head s)) (\<lambda>env.
            case applyTypeScriptEnv env s of (warnings, s) \<Rightarrow> Inr (env, warnings, s)))"

subsection \<open>Runtimes of a session\<close>

text \<open>A store error as the text that wraps it.\<close>

definition storeErr :: "string \<Rightarrow> StoreError \<Rightarrow> string" where
  "storeErr prefix e = prefix @ StoreErrorText e"

text \<open>
  The runtime at the session's head: a fresh one for an empty branch, the
  replayed plan otherwise. \<open>p1\<close>, \<open>p2\<close>, \<open>p3\<close> are the prefixes of the three errors.
\<close>

definition runtimeAtHead ::
  "('s, 'vm, 'v) SessionDeps \<Rightarrow> string \<Rightarrow> string \<Rightarrow> string \<Rightarrow> 's \<Rightarrow> ('vm, 'v) session \<Rightarrow>
   (string, ('vm, 'v) branchRuntime \<times> bytes \<times> string) comp" where
  "runtimeAtHead D p1 p2 p3 st s =
     (if sx_head s = []
      then Some (case newBranchRuntime (dp_goja D) (dp_delegate D) (sx_id s) (sx_branch s) (sx_runtimeConfig s) ModeLive of
             Inl e \<Rightarrow> Inl (p1 @ e) | Inr r \<Rightarrow> Inr r)
      else case so_LoadReplayPlan (dp_ops D) st (sx_id s) (sx_head s) of
             None \<Rightarrow> None
           | Some (Inl e) \<Rightarrow> Some (Inl (storeErr p2 e))
           | Some (Inr plan) \<Rightarrow>
               Some (case replayPlanIntoRuntime (dp_goja D) (dp_delegate D) (sx_id s) (sx_branch s) plan of
                       Inl e \<Rightarrow> Inl (p3 @ e) | Inr r \<Rightarrow> Inr r))"

definition rebuildRuntimeFromCommitted ::
  "('s, 'vm, 'v) SessionDeps \<Rightarrow> 's \<Rightarrow> ('vm, 'v) session \<Rightarrow> (string, ('vm, 'v) session) comp" where
  "rebuildRuntimeFromCommitted D st s =
     cbind (runtimeAtHead D ''init runtime from current config: '' ''load replay plan for runtime rebuild: ''
              ''replay committed runtime state: '' st s) (\<lambda>(rt, runtimeConfig, runtimeHash).
       Some (Inr (s\<lparr>sx_runtime := Some rt, sx_runtimeConfig := runtimeConfig,
                    sx_runtimeHash := runtimeHash, sx_runtimeDirty := False\<rparr>)))"

definition ensureCleanRuntime ::
  "('s, 'vm, 'v) SessionDeps \<Rightarrow> 's \<Rightarrow> ('vm, 'v) session \<Rightarrow> (string, ('vm, 'v) session) comp" where
  "ensureCleanRuntime D st s =
     (if sx_runtime s \<noteq> None \<and> \<not> sx_runtimeDirty s then Some (Inr s)
      else case rebuildRuntimeFromCommitted D st s of
             None \<Rightarrow> None
           | Some (Inl e) \<Rightarrow> Some (Inl (''recover dirty runtime: '' @ e))
           | Some (Inr s) \<Rightarrow> Some (Inr s))"

text \<open>
  The runtime a cell is evaluated in, its descriptor and hash; the session may
  have been rebuilt on the way. A runtime of the replay-per-submit mode is
  fresh: it is not the session's own.
\<close>

definition prepareSubmitRuntime ::
  "('s, 'vm, 'v) SessionDeps \<Rightarrow> 's \<Rightarrow> ('vm, 'v) session \<Rightarrow>
   (string, (('vm, 'v) branchRuntime \<times> bytes \<times> string) \<times> ('vm, 'v) session) comp" where
  "prepareSubmitRuntime D st s =
     (if sx_runtimeMode s \<noteq> RuntimeModeReplayPerSubmit
      then cbind (ensureCleanRuntime D st s) (\<lambda>s.
             Some (Inr ((the (sx_runtime s), sx_runtimeConfig s, sx_runtimeHash s), s)))
      else cbind (runtimeAtHead D [] ''load replay plan for submit: '' ''rebuild runtime for submit: '' st s)
             (\<lambda>r. Some (Inr (r, s))))"

subsection \<open>Submitting a cell\<close>

text \<open>What a submit takes from outside: identifiers, the time and the host.\<close>

record submitExt =
  xt_cellID :: CellID
  xt_failureID :: FailureID
  xt_now :: Time
  xt_host :: hostEnv

text \<open>
  The evaluation between \<open>beginCell\<close> and the drain: errors of \<open>runContext\<close> and of
  \<open>awaitCellSettled\<close>, the result, the drained effects and logs, the runtime and
  the store. When no outcome is delivered, the deadline has passed and waiting
  for settlement reports it as well.
\<close>

record ('s, 'vm, 'v) cellEval =
  cl_err :: "string option"
  cl_settleErr :: "string option"
  cl_eval :: "'v evalResult"
  cl_effects :: "EffectSummary list"
  cl_logs :: "string list"
  cl_rt :: "('vm, 'v) branchRuntime"
  cl_store :: 's

definition zeroEval :: "('vm, 'v) Goja \<Rightarrow> 'v evalResult" where
  "zeroEval G = \<lparr>ev_completionValue = None, ev_structured = [], ev_indexedValue = gj_undefined G, ev_hasIndexedValue = False\<rparr>"

definition evalCell ::
  "('s, 'vm, 'v) SessionDeps \<Rightarrow> SessionID \<Rightarrow> CellID \<Rightarrow> hostEnv \<Rightarrow> string \<Rightarrow> ('vm, 'v) branchRuntime \<Rightarrow> 's \<Rightarrow>
   ('s, 'vm, 'v) cellEval" where
  "evalCell D sn cell H src rt st =
     (case gj_run (dp_goja D) (br_vm rt) (valueTable rt) src of
        Inl e \<Rightarrow> \<lparr>cl_err = Some (''goja: '' @ e), cl_settleErr = None, cl_eval = zeroEval (dp_goja D),
                  cl_effects = [], cl_logs = [], cl_rt = rt, cl_store = st\<rparr>
      | Inr t \<Rightarrow>
          (case liveCell (dp_ops D) sn cell H t (newCellRun st 0) of
             (vm, c) \<Rightarrow>
               (let (effects, acc) = drain (cr_acc c); (logs, _) = drainLogs acc in
                \<lparr>cl_err = (case cr_outcome c of
                     None \<Rightarrow> Some ''promise still pending after evaluation: context deadline exceeded''
                   | Some (Inl e) \<Rightarrow> Some e
                   | Some (Inr _) \<Rightarrow> None),
                 cl_settleErr = (if cr_outcome c = None then Some ''context deadline exceeded''
                                 else unhandledPromiseError (cr_acc c)),
                 cl_eval = (case cr_outcome c of Some (Inr ev) \<Rightarrow> ev | _ \<Rightarrow> zeroEval (dp_goja D)),
                 cl_effects = effects, cl_logs = logs, cl_rt = rt\<lparr>br_vm := vm\<rparr>, cl_store = cr_store c\<rparr>)))"

definition abandonSubmitRuntime :: "bool \<Rightarrow> ('vm, 'v) session \<Rightarrow> ('vm, 'v) session" where
  "abandonSubmitRuntime freshRuntime s = (if freshRuntime then s else s\<lparr>sx_runtimeDirty := True\<rparr>)"

definition recordFailure ::
  "'s StoreOps \<Rightarrow> ('vm, 'v) session \<Rightarrow> 's \<Rightarrow> FailureID \<Rightarrow> string \<Rightarrow> CellID \<Rightarrow> string \<Rightarrow> string \<Rightarrow> EffectID list \<Rightarrow>
   string \<Rightarrow> Time \<Rightarrow> StoreError option \<times> 's" where
  "recordFailure ops s st failureID source parent runtimeHash phase effects evalErr now =
     so_AppendFact ops st (CellFailed
       \<lparr>cf_Session = sx_id s, cf_Branch = sx_branch s, cf_Failure = failureID, cf_Parent = parent,
        cf_Source = source, cf_RuntimeHash = runtimeHash, cf_Phase = phase, cf_ErrorMessage = evalErr,
        cf_LinkedEffects = effects, cf_At = now\<rparr>)"

definition submitFailureResult ::
  "'s StoreOps \<Rightarrow> bool \<Rightarrow> submitExt \<Rightarrow> string \<Rightarrow> CellID \<Rightarrow> string \<Rightarrow> string \<Rightarrow> string \<Rightarrow> ('s, 'vm, 'v) cellEval \<Rightarrow>
   's \<Rightarrow> ('vm, 'v) session \<Rightarrow> SubmitError \<times> 's \<times> ('vm, 'v) session" where
  "submitFailureResult ops freshRuntime x source previousHead runtimeHash phase cause ce st s =
     (let s = abandonSubmitRuntime freshRuntime s in
      case recordFailure ops s st (xt_failureID x) source previousHead runtimeHash phase
             (effectIDsFromSummaries (cl_effects ce)) cause (xt_now x) of
        (Some recordErr, st) \<Rightarrow>
          (PlainError (''session: Submit: '' @ phase @ '': '' @ cause @ ''; record failure: '' @ StoreErrorText recordErr), st, s)
      | (None, st) \<Rightarrow>
          (FailureError \<lparr>sf_Failure = xt_failureID x, sf_Parent = previousHead, sf_Phase = phase,
             sf_ErrorMessage = cause, sf_LinkedEffects = cl_effects ce, sf_Log = cl_logs ce\<rparr>, st, s))"

definition ensureBranchHeadWritable ::
  "'s StoreOps \<Rightarrow> string \<Rightarrow> 's \<Rightarrow> ('vm, 'v) session \<Rightarrow> string option" where
  "ensureBranchHeadWritable ops action st s =
     (case so_LoadHead ops st (sx_id s) (sx_branch s) of
        Inl e \<Rightarrow> Some (storeErr ''load branch head: '' e)
      | Inr head \<Rightarrow>
          if hr_Head head = [] \<or> hr_Head head = sx_head s then None
          else Some (''active cursor is at cell '' @ quote (sx_head s) @ '' while branch '' @ quote (sx_branch s) @
                     '' head is '' @ quote (hr_Head head) @ ''; fork before '' @ action))"

definition describeValue :: "(bytes \<Rightarrow> string + string \<times> string) \<Rightarrow> string \<Rightarrow> bytes \<Rightarrow> string \<times> string" where
  "describeValue describe preview structured =
     (if structured = [] then (preview, preview)
      else case describe structured of
             Inl _ \<Rightarrow> (preview, preview)
           | Inr (summary, full) \<Rightarrow>
               (if summary \<noteq> [] then summary else preview, if full \<noteq> [] then full else preview))"

text \<open>The part of a submit after the four facts are durable.\<close>

definition finishSubmit ::
  "('s, 'vm, 'v) SessionDeps \<Rightarrow> submitExt \<Rightarrow> string \<Rightarrow> CellLanguage \<Rightarrow> Diagnostic list \<Rightarrow> ReplWarning list \<Rightarrow> bool \<Rightarrow>
   bytes \<Rightarrow> string \<Rightarrow> ('s, 'vm, 'v) cellEval \<Rightarrow> ('vm, 'v) session \<Rightarrow> (SubmitError + SubmitResult) \<times> ('vm, 'v) session" where
  "finishSubmit D x source language diagnostics warnings freshRuntime cfg h ce s =
     (let nextIndex = sx_currentIndex s + 1;
          s = s\<lparr>sx_head := xt_cellID x, sx_runtimeDirty := False, sx_runtime := Some (cl_rt ce)\<rparr>;
          s = (if freshRuntime then s\<lparr>sx_runtimeConfig := cfg, sx_runtimeHash := h\<rparr> else s)
      in case setIndexedResult (dp_goja D) nextIndex (cl_eval ce) (cl_rt ce) of
           Inl e \<Rightarrow> (Inl (PlainError (''session: Submit: set $last/$val('' @ showNat nextIndex @ ''): '' @ e)),
                     s\<lparr>sx_runtimeDirty := True\<rparr>)
         | Inr rt \<Rightarrow>
             (let s = s\<lparr>sx_runtime := Some rt, sx_currentIndex := nextIndex,
                    sx_committedSources := sx_committedSources s @ [source],
                    sx_tsSession := map_option (\<lambda>(check, srcs). (check, srcs @ [source])) (sx_tsSession s)\<rparr>;
                  s = (case ev_completionValue (cl_eval ce) of
                         None \<Rightarrow> s
                       | Some ref \<Rightarrow>
                           (case describeValue (dp_describe D) (vr_Preview ref) (ev_structured (cl_eval ce)) of
                              (summary, full) \<Rightarrow> s\<lparr>sx_values := (sx_values s)(vr_ID ref \<mapsto>
                                \<lparr>vv_Handle = vr_ID ref, vv_Preview = vr_Preview ref, vv_Summary = summary, vv_Full = full,
                                 vv_TypeHint = vr_TypeHint ref, vv_Structured = ev_structured (cl_eval ce)\<rparr>)\<rparr>))
              in (Inr \<lparr>sr_Cell = xt_cellID x, sr_Index = nextIndex, sr_Language = language,
                       sr_Diagnostics = diagnostics, sr_HasErrors = False,
                       sr_CompletionValue = ev_completionValue (cl_eval ce), sr_Log = cl_logs ce,
                       sr_Warnings = warnings\<rparr>, s)))"

text \<open>The appends of a successful evaluation, each with its failure phase.\<close>

definition commitCell ::
  "('s, 'vm, 'v) SessionDeps \<Rightarrow> submitExt \<Rightarrow> string \<Rightarrow> CellLanguage \<Rightarrow> Diagnostic list \<Rightarrow> ReplWarning list \<Rightarrow> bool \<Rightarrow>
   bytes \<Rightarrow> string \<Rightarrow> ('s, 'vm, 'v) cellEval \<Rightarrow> ('vm, 'v) session \<Rightarrow> (SubmitError + SubmitResult) \<times> 's \<times> ('vm, 'v) session" where
  "commitCell D x source language diagnostics warnings freshRuntime cfg h ce s =
     (let ops = dp_ops D; effectIDs = effectIDsFromSummaries (cl_effects ce); previousHead = sx_head s;
          fail = (\<lambda>phase err st. case submitFailureResult ops freshRuntime x source previousHead h phase (StoreErrorText err) ce st s of
                    (e, st, s) \<Rightarrow> (Inl e, st, s))
      in case so_AppendFact ops (cl_store ce) (CellEvaluated
             \<lparr>ce_Session = sx_id s, ce_Branch = sx_branch s, ce_Cell = xt_cellID x, ce_CreatedBindings = [],
              ce_LinkedEffects = effectIDs, ce_CompletionValue = ev_completionValue (cl_eval ce),
              ce_ErrorMessage = [], ce_At = xt_now x\<rparr>) of
           (Some err, st) \<Rightarrow> fail ''append_cell_evaluated'' err st
         | (None, st) \<Rightarrow>
         (case so_AppendFact ops st (CellCommitted
             \<lparr>cc_Session = sx_id s, cc_Branch = sx_branch s, cc_Cell = xt_cellID x, cc_At = xt_now x\<rparr>) of
           (Some err, st) \<Rightarrow> fail ''append_cell_committed'' err st
         | (None, st) \<Rightarrow>
         (case so_AppendFact ops st (HeadMoved
             \<lparr>hm_Session = sx_id s, hm_Branch = sx_branch s, hm_Previous = previousHead,
              hm_Next = xt_cellID x, hm_At = xt_now x\<rparr>) of
           (Some err, st) \<Rightarrow> fail ''append_head_moved'' err st
         | (None, st) \<Rightarrow>
             (case finishSubmit D x source language diagnostics warnings freshRuntime cfg h ce s of
                (r, s) \<Rightarrow> (r, st, s)))))"

text \<open>Type checking: diagnostics, emitted JavaScript and whether there are errors.\<close>

definition checkCell ::
  "('s, 'vm, 'v) SessionDeps \<Rightarrow> tsEnv \<Rightarrow> CellLanguage \<Rightarrow> string \<Rightarrow> ('vm, 'v) session \<Rightarrow>
   (string + Diagnostic list \<times> string \<times> bool) \<times> ('vm, 'v) session" where
  "checkCell D env language source s =
     (if language \<noteq> CellLanguageTypeScript then (Inr ([], [], False), s)
      else case ensureTypeScriptSession D s of
             Inl e \<Rightarrow> (Inl (''session: Submit: '' @ e), s)
           | Inr ((check, srcs), s) \<Rightarrow>
               (case check srcs env source of
                  Inl e \<Rightarrow> (Inl (''session: Submit: typescript check: '' @ e), s)
                | Inr res \<Rightarrow> (Inr (tn_Diagnostics res, tn_EmittedJS res, tn_HasErrors res), s)))"

definition execSource :: "CellLanguage \<Rightarrow> string \<Rightarrow> string \<Rightarrow> string" where
  "execSource language source emittedJS =
     (if language = CellLanguageTypeScript then emittedJS
      else if emittedJS \<noteq> [] then emittedJS else source)"

text \<open>The part of a submit from the prepared runtime on.\<close>

definition evaluateAndCommit ::
  "('s, 'vm, 'v) SessionDeps \<Rightarrow> submitExt \<Rightarrow> string \<Rightarrow> string \<Rightarrow> CellLanguage \<Rightarrow> Diagnostic list \<Rightarrow> ReplWarning list \<Rightarrow>
   (('vm, 'v) branchRuntime \<times> bytes \<times> string) \<Rightarrow> 's \<Rightarrow> ('vm, 'v) session \<Rightarrow>
   (SubmitError + SubmitResult) \<times> 's \<times> ('vm, 'v) session" where
  "evaluateAndCommit D x source src language diagnostics warnings r st s = (case r of (rt, cfg, h) \<Rightarrow>
     (let freshRuntime = (sx_runtimeMode s = RuntimeModeReplayPerSubmit);
          ce = evalCell D (sx_id s) (xt_cellID x) (xt_host x) src rt st;
          s = (if freshRuntime then s else s\<lparr>sx_runtime := Some (cl_rt ce)\<rparr>)
      in case map_option translateWrappedCellLocations (combineSubmitErrors (cl_err ce) (cl_settleErr ce)) of
           Some terminalErr \<Rightarrow>
             (let s = (if freshRuntime then s else s\<lparr>sx_runtimeDirty := True\<rparr>);
                  phase = (if cl_err ce = None then ''await_cell_settlement''
                           else if cl_settleErr ce \<noteq> None then ''eval_and_await_cell_settlement'' else ''eval'')
              in case submitFailureResult (dp_ops D) freshRuntime x source (sx_head s) h phase terminalErr ce (cl_store ce) s of
                   (e, st, s) \<Rightarrow> (Inl e, st, s))
         | None \<Rightarrow> commitCell D x source language diagnostics warnings freshRuntime cfg h ce s))"

definition SubmitCell ::
  "('s, 'vm, 'v) SessionDeps \<Rightarrow> SubmitInput \<Rightarrow> submitExt \<Rightarrow> 's \<Rightarrow> ('vm, 'v) session \<Rightarrow>
   ((SubmitError + SubmitResult) \<times> 's \<times> ('vm, 'v) session) option" where
  "SubmitCell D input x st s =
     (case ensureBranchHeadWritable (dp_ops D) ''submitting'' st s of
        Some e \<Rightarrow> Some (Inl (PlainError (''session: Submit: '' @ e)), st, s)
      | None \<Rightarrow>
     (let source = in_Source input; language = languageOrDefault (in_Language input) in
      case syncTypeScriptEnv D s of
        Inl e \<Rightarrow> Some (Inl (PlainError (''session: Submit: load typescript env: '' @ e)), st, s)
      | Inr (env, warnings, s) \<Rightarrow>
     (case checkCell D env language source s of
        (Inl e, s) \<Rightarrow> Some (Inl (PlainError e), st, s)
      | (Inr (diagnostics, emittedJS, hasErrors), s) \<Rightarrow>
     (case so_AppendFact (dp_ops D) st (CellChecked
          \<lparr>ck_Session = sx_id s, ck_Branch = sx_branch s, ck_Cell = xt_cellID x, ck_Parent = sx_head s,
           ck_Language = language, ck_Source = source, ck_Diagnostics = diagnostics, ck_EmittedJS = emittedJS,
           ck_TypeScriptEnvHash = sx_tsEnvHash s, ck_TypeScriptEpochTS = sx_tsEpochTS s,
           ck_HasErrors = hasErrors, ck_At = xt_now x\<rparr>) of
        (Some e, st) \<Rightarrow> Some (Inl (PlainError (storeErr ''session: Submit: append CellChecked: '' e)), st, s)
      | (None, st) \<Rightarrow>
          if hasErrors
          then Some (Inl (CheckError
                 \<lparr>sr_Cell = xt_cellID x, sr_Index = 0, sr_Language = language, sr_Diagnostics = diagnostics,
                  sr_HasErrors = True, sr_CompletionValue = None, sr_Log = [], sr_Warnings = warnings\<rparr>
                 \<lparr>sk_Cell = xt_cellID x, sk_Language = language, sk_Diagnostics = diagnostics\<rparr>), st, s)
          else (case prepareSubmitRuntime D st s of
                  None \<Rightarrow> None
                | Some (Inl e) \<Rightarrow> Some (Inl (PlainError (''session: Submit: prepare runtime: '' @ e)), st, s)
                | Some (Inr (r, s)) \<Rightarrow>
                    Some (evaluateAndCommit D x source (execSource language source emittedJS) language
                            diagnostics warnings r st s))))))"

definition Submit ::
  "('s, 'vm, 'v) SessionDeps \<Rightarrow> string \<Rightarrow> submitExt \<Rightarrow> 's \<Rightarrow> ('vm, 'v) session \<Rightarrow>
   ((SubmitError + SubmitResult) \<times> 's \<times> ('vm, 'v) session) option" where
  "Submit D src x st s = SubmitCell D \<lparr>in_Source = src, in_Language = CellLanguageJavaScript\<rparr> x st s"

subsection \<open>Starting and opening sessions\<close>

definition newSession ::
  "('s, 'vm, 'v) SessionDeps \<Rightarrow> SessionID \<Rightarrow> BranchID \<Rightarrow> CellID \<Rightarrow> string \<Rightarrow> bytes \<Rightarrow>
   ('vm, 'v) branchRuntime option \<Rightarrow> ('vm, 'v) session" where
  "newSession D sn b c h cfg rt =
     \<lparr>sx_id = sn, sx_branch = b, sx_head = c, sx_runtimeHash = h, sx_runtimeConfig = cfg,
      sx_runtimeMode = runtimeModeOrDefault (dp_runtimeMode D), sx_runtime = rt, sx_runtimeDirty = False,
      sx_currentIndex = 0, sx_values = Map.empty, sx_tsSession = None, sx_committedSources = [],
      sx_tsEnvHash = [], sx_tsEpochTS = []\<rparr>"

definition StartSession ::
  "('s, 'vm, 'v) SessionDeps \<Rightarrow> Manifest \<Rightarrow> SessionID \<Rightarrow> BranchID \<Rightarrow> Time \<Rightarrow> 's \<Rightarrow>
   (string + ('vm, 'v) session) \<times> 's" where
  "StartSession D manifest sessionID rootBranchID now st =
     (let ops = dp_ops D in
      case newBranchRuntime (dp_goja D) (dp_delegate D) sessionID rootBranchID (dp_runtimeConfig D) ModeLive of
        Inl e \<Rightarrow> (Inl (''session: StartSession: init runtime: '' @ e), st)
      | Inr (rt, runtimeConfig, runtimeHash) \<Rightarrow>
     (case so_PutRuntimeConfig ops st runtimeHash runtimeConfig of
        (Some e, st) \<Rightarrow> (Inl (storeErr ''session: StartSession: store runtime config: '' e), st)
      | (None, st) \<Rightarrow>
     (case so_AppendFact ops st (SessionStarted
          \<lparr>ss_Session = sessionID, ss_RootBranch = rootBranchID, ss_At = now\<rparr>) of
        (Some e, st) \<Rightarrow> (Inl (storeErr ''session: StartSession: append SessionStarted: '' e), st)
      | (None, st) \<Rightarrow>
     (case so_AppendFact ops st (ManifestAttached
          \<lparr>ma_Session = sessionID, ma_ManifestID = mf_ID manifest, ma_Manifest = manifest, ma_At = now\<rparr>) of
        (Some e, st) \<Rightarrow> (Inl (storeErr ''session: StartSession: append ManifestAttached: '' e), st)
      | (None, st) \<Rightarrow>
     (case so_AppendFact ops st (RuntimeAttached
          \<lparr>ra_Session = sessionID, ra_RuntimeHash = runtimeHash, ra_At = now\<rparr>) of
        (Some e, st) \<Rightarrow> (Inl (storeErr ''session: StartSession: append RuntimeAttached: '' e), st)
      | (None, st) \<Rightarrow> (Inr (newSession D sessionID rootBranchID [] runtimeHash runtimeConfig (Some rt)), st))))))"

text \<open>The branch state that is installed after a replay of \<open>plan\<close>, and its load.\<close>

definition loadedState ::
  "BranchID \<Rightarrow> CellID \<Rightarrow> ('vm, 'v) branchRuntime \<times> bytes \<times> string \<Rightarrow> nat \<Rightarrow> string \<times> string \<times> string list \<Rightarrow>
   ('vm, 'v) loadedBranchState" where
  "loadedState b c r n env = (case r of (rt, runtimeConfig, runtimeHash) \<Rightarrow>
     \<lparr>lb_branch = b, lb_head = c, lb_runtime = rt, lb_runtimeConfig = runtimeConfig,
      lb_runtimeHash = runtimeHash, lb_currentIndex = n, lb_envHash = fst env,
      lb_epochTS = fst (snd env), lb_sources = snd (snd env)\<rparr>)"

definition snapshotEnv :: "StaticEnvSnapshot \<Rightarrow> string \<times> string \<times> string list" where
  "snapshotEnv env = (se_TypeScriptEnvHash env, se_TypeScriptEpochTS env, se_CommittedSources env)"

text \<open>
  Replaying \<open>plan\<close> for branch \<open>b\<close> and loading the static environment at \<open>eb\<close>, \<open>c\<close>;
  \<open>p1\<close> and \<open>p2\<close> are the prefixes of the errors.
\<close>

definition loadBranchState ::
  "('s, 'vm, 'v) SessionDeps \<Rightarrow> string \<Rightarrow> string \<Rightarrow> 's \<Rightarrow> SessionID \<Rightarrow> ReplayPlan \<Rightarrow> BranchID \<Rightarrow> BranchID \<Rightarrow> CellID \<Rightarrow>
   (string, ('vm, 'v) loadedBranchState) comp" where
  "loadBranchState D p1 p2 st sn plan b eb c =
     (case replayPlanIntoRuntime (dp_goja D) (dp_delegate D) sn b plan of
        Inl e \<Rightarrow> Some (Inl (p1 @ e))
      | Inr r \<Rightarrow>
          (case so_LoadStaticEnv (dp_ops D) st sn eb c of
             None \<Rightarrow> None
           | Some (Inl e) \<Rightarrow> Some (Inl (storeErr p2 e))
           | Some (Inr env) \<Rightarrow> Some (Inr (loadedState b c r (length (pl_Steps plan)) (snapshotEnv env)))))"

definition openSessionState ::
  "('s, 'vm, 'v) SessionDeps \<Rightarrow> 's \<Rightarrow> SessionState \<Rightarrow> (string, ('vm, 'v) session) comp" where
  "openSessionState D st state =
     (let sn = sst_Session state; b = sst_Branch state; c = sst_Head state;
          s = newSession D sn b c (sst_RuntimeHash state) (sst_RuntimeConfig state) None in
      if c = []
      then (case newBranchRuntime (dp_goja D) (dp_delegate D) sn b (sst_RuntimeConfig state) ModeLive of
              Inl e \<Rightarrow> Some (Inl (''session: OpenSession: init runtime: '' @ e))
            | Inr r \<Rightarrow> Some (Inr (installLoadedBranchState (loadedState b c r 0 ([], [], [])) s)))
      else (case so_LoadReplayPlan (dp_ops D) st sn c of
              None \<Rightarrow> None
            | Some (Inl e) \<Rightarrow> Some (Inl (storeErr ''session: OpenSession: load replay plan: '' e))
            | Some (Inr plan) \<Rightarrow>
                cbind (loadBranchState D ''session: OpenSession: replay history: ''
                         ''session: OpenSession: load static env: '' st sn plan b b c)
                  (\<lambda>lb. Some (Inr (installLoadedBranchState lb s)))))"

definition OpenSession ::
  "('s, 'vm, 'v) SessionDeps \<Rightarrow> SessionID \<Rightarrow> 's \<Rightarrow> (string, ('vm, 'v) session) comp" where
  "OpenSession D sn st =
     (case so_LoadSessionState (dp_ops D) st sn of
        None \<Rightarrow> None
      | Some (Inl e) \<Rightarrow> Some (Inl (storeErr ''session: OpenSession: load state: '' e))
      | Some (Inr state) \<Rightarrow> openSessionState D st state)"

definition bootstrapExistingSession ::
  "('s, 'vm, 'v) SessionDeps \<Rightarrow> SessionID \<Rightarrow> 's \<Rightarrow> (string, ('vm, 'v) session) comp" where
  "bootstrapExistingSession D sn st =
     (case so_LoadSessionState (dp_ops D) st sn of
        None \<Rightarrow> None
      | Some (Inl e) \<Rightarrow> Some (Inl (storeErr ''session: bootstrapExistingSession: load state: '' e))
      | Some (Inr state) \<Rightarrow>
          Some (Inr (newSession D sn (sst_Branch state) (sst_Head state) (sst_RuntimeHash state)
                       (sst_RuntimeConfig state) None)))"

subsection \<open>Restoring and forking\<close>

definition restoreLocked ::
  "('s, 'vm, 'v) SessionDeps \<Rightarrow> CellID \<Rightarrow> Time \<Rightarrow> 's \<Rightarrow> ('vm, 'v) session \<Rightarrow>
   (string option \<times> 's \<times> ('vm, 'v) session) option" where
  "restoreLocked D targetCell now st s =
     (case so_LoadReplayPlan (dp_ops D) st (sx_id s) targetCell of
        None \<Rightarrow> None
      | Some (Inl e) \<Rightarrow> Some (Some (storeErr ''session: Restore: load replay plan: '' e), st, s)
      | Some (Inr plan) \<Rightarrow>
     (case loadBranchState D ''session: Restore: replay history: '' ''session: Restore: load static env: ''
             st (sx_id s) plan (pl_Branch plan) (pl_Branch plan) targetCell of
        None \<Rightarrow> None
      | Some (Inl e) \<Rightarrow> Some (Some e, st, s)
      | Some (Inr lb) \<Rightarrow>
     (case so_AppendFact (dp_ops D) st (RestoreCompleted
          \<lparr>rc_Session = sx_id s, rc_TargetCell = targetCell, rc_NewBranch = [], rc_At = now\<rparr>) of
        (Some e, st) \<Rightarrow> Some (Some (storeErr ''session: Restore: append RestoreCompleted: '' e), st, s)
      | (None, st) \<Rightarrow> Some (None, st, installLoadedBranchState lb s))))"

definition Restore ::
  "('s, 'vm, 'v) SessionDeps \<Rightarrow> CellID \<Rightarrow> Time \<Rightarrow> 's \<Rightarrow> ('vm, 'v) session \<Rightarrow>
   (string option \<times> 's \<times> ('vm, 'v) session) option" where
  "Restore D targetCell now st s = restoreLocked D targetCell now st s"

definition forkLocked ::
  "('s, 'vm, 'v) SessionDeps \<Rightarrow> CellID \<Rightarrow> BranchID \<Rightarrow> Time \<Rightarrow> 's \<Rightarrow> ('vm, 'v) session \<Rightarrow>
   (string option \<times> 's \<times> ('vm, 'v) session) option" where
  "forkLocked D targetCell newBranchID now st s =
     (case so_LoadReplayPlan (dp_ops D) st (sx_id s) targetCell of
        None \<Rightarrow> None
      | Some (Inl e) \<Rightarrow> Some (Some (storeErr ''session: Fork: load replay plan: '' e), st, s)
      | Some (Inr plan) \<Rightarrow>
     (case loadBranchState D ''session: Fork: replay history: '' ''session: Fork: load static env: ''
             st (sx_id s) plan newBranchID (pl_Branch plan) targetCell of
        None \<Rightarrow> None
      | Some (Inl e) \<Rightarrow> Some (Some e, st, s)
      | Some (Inr lb) \<Rightarrow>
     (case so_AppendFact (dp_ops D) st (BranchCreated
          \<lparr>bc_Session = sx_id s, bc_Branch = newBranchID, bc_ParentCell = targetCell, bc_At = now\<rparr>) of
        (Some e, st) \<Rightarrow> Some (Some (storeErr ''session: Fork: append BranchCreated: '' e), st, s)
      | (None, st) \<Rightarrow>
     (case so_AppendFact (dp_ops D) st (RestoreCompleted
          \<lparr>rc_Session = sx_id s, rc_TargetCell = targetCell, rc_NewBranch = newBranchID, rc_At = now\<rparr>) of
        (Some e, st) \<Rightarrow> Some (Some (storeErr ''session: Fork: append RestoreCompleted: '' e), st, s)
      | (None, st) \<Rightarrow> Some (None, st, installLoadedBranchState lb s)))))"

definition Fork ::
  "('s, 'vm, 'v) SessionDeps \<Rightarrow> CellID \<Rightarrow> BranchID \<Rightarrow> Time \<Rightarrow> 's \<Rightarrow> ('vm, 'v) session \<Rightarrow>
   (string option \<times> 's \<times> ('vm, 'v) session) option" where
  "Fork D targetCell newBranchID now st s = forkLocked D targetCell newBranchID now st s"

text \<open>
  \<open>RestoreSession\<close> and \<open>ForkSession\<close> run the session operation on a session that
  has the durable cursor and no runtime; the session is dropped on an error.
\<close>

definition thenOn ::
  "string \<Rightarrow> (string, ('vm, 'v) session) comp \<Rightarrow> 's \<Rightarrow>
   ('s \<Rightarrow> ('vm, 'v) session \<Rightarrow> (string option \<times> 's \<times> ('vm, 'v) session) option) \<Rightarrow>
   ((string + ('vm, 'v) session) \<times> 's) option" where
  "thenOn prefix boot st f =
     (case boot of
        None \<Rightarrow> None
      | Some (Inl e) \<Rightarrow> Some (Inl e, st)
      | Some (Inr s) \<Rightarrow>
          (case f st s of
             None \<Rightarrow> None
           | Some (Some e, st, _) \<Rightarrow> Some (Inl (prefix @ e), st)
           | Some (None, st, s) \<Rightarrow> Some (Inr s, st)))"

definition RestoreSession ::
  "('s, 'vm, 'v) SessionDeps \<Rightarrow> SessionID \<Rightarrow> CellID \<Rightarrow> Time \<Rightarrow> 's \<Rightarrow> ((string + ('vm, 'v) session) \<times> 's) option" where
  "RestoreSession D sn targetCell now st =
     thenOn ''session: RestoreSession: '' (bootstrapExistingSession D sn st) st (Restore D targetCell now)"

definition ForkSession ::
  "('s, 'vm, 'v) SessionDeps \<Rightarrow> SessionID \<Rightarrow> CellID \<Rightarrow> BranchID \<Rightarrow> Time \<Rightarrow> 's \<Rightarrow>
   ((string + ('vm, 'v) session) \<times> 's) option" where
  "ForkSession D sn targetCell newBranchID now st =
     thenOn ''session: ForkSession: '' (bootstrapExistingSession D sn st) st (Fork D targetCell newBranchID now)"

subsection \<open>Runtime transitions\<close>

text \<open>
  A transition that fails halfway leaves the runtime dirty: what the failed
  delegate call did to it is never read again, so the model keeps the old one.
\<close>

definition TransitionToState ::
  "('s, 'vm, 'v) SessionDeps \<Rightarrow> bytes \<Rightarrow> Time \<Rightarrow> 's \<Rightarrow> ('vm, 'v) session \<Rightarrow>
   (string option \<times> 's \<times> ('vm, 'v) session) option" where
  "TransitionToState D toState now st s =
     (let ops = dp_ops D; p = ''session: TransitionToState: '' in
      case ensureBranchHeadWritable ops ''transitioning runtime'' st s of
        Some e \<Rightarrow> Some (Some (p @ e), st, s)
      | None \<Rightarrow>
     (case ensureCleanRuntime D st s of
        None \<Rightarrow> None
      | Some (Inl e) \<Rightarrow> Some (Some (p @ e), st, s)
      | Some (Inr s) \<Rightarrow>
     (case resolveRuntimeDescriptor (dp_goja D) (dp_delegate D) (sx_id s) (sx_branch s) toState of
        Inl e \<Rightarrow> Some (Some (p @ ''resolve runtime descriptor: '' @ e), st, s)
      | Inr (resolvedState, resolvedHash) \<Rightarrow>
          if resolvedHash = sx_runtimeHash s then Some (None, st, s\<lparr>sx_runtimeConfig := resolvedState\<rparr>)
          else
     (case so_PutRuntimeConfig ops st resolvedHash resolvedState of
        (Some e, st) \<Rightarrow> Some (Some (p @ storeErr ''store runtime config: '' e), st, s)
      | (None, st) \<Rightarrow>
          if (case dp_delegate D of None \<Rightarrow> False | Some dl \<Rightarrow> dl_TransitionRuntime dl = None)
          then Some (Some (p @ ''delegate does not implement engine.VMTransitionDelegate''), st, s\<lparr>sx_runtimeDirty := True\<rparr>)
          else
     (case applyRuntimeTransitionAndInvalidateIndexedResults (dp_goja D) (dp_delegate D) (sx_id s) (sx_branch s)
             (sx_runtimeHash s) resolvedHash (sx_runtimeConfig s) resolvedState (sx_currentIndex s) (the (sx_runtime s)) of
        Inl e \<Rightarrow> Some (Some (p @ e), st, s\<lparr>sx_runtimeDirty := True\<rparr>)
      | Inr rt \<Rightarrow>
     (let s = s\<lparr>sx_runtime := Some rt\<rparr> in
      case so_AppendFact ops st (RuntimeTransitioned
          \<lparr>rt_Session = sx_id s, rt_Branch = sx_branch s, rt_AfterCell = sx_head s,
           rt_RuntimeHash = resolvedHash, rt_At = now\<rparr>) of
        (Some e, st) \<Rightarrow> Some (Some (p @ storeErr ''append RuntimeTransitioned: '' e), st, s\<lparr>sx_runtimeDirty := True\<rparr>)
      | (None, st) \<Rightarrow>
          Some (None, st, s\<lparr>sx_runtimeHash := resolvedHash, sx_runtimeConfig := resolvedState,
                             sx_runtimeDirty := False\<rparr>)))))))"

subsection \<open>Queries\<close>

definition Inspect :: "('vm, 'v) session \<Rightarrow> ValueID \<Rightarrow> string + ValueView" where
  "Inspect s handle =
     (case sx_values s handle of
        None \<Rightarrow> Inl (''session: Inspect: unknown handle '' @ quote handle)
      | Some view \<Rightarrow> Inr view)"

definition Failures :: "'s StoreOps \<Rightarrow> 's \<Rightarrow> ('vm, 'v) session \<Rightarrow> string + FailureView list" where
  "Failures ops st s =
     (case so_LoadFailures ops st (sx_id s) of
        Inl e \<Rightarrow> Inl (storeErr ''session: Failures: '' e)
      | Inr records \<Rightarrow> Inr (map (\<lambda>r. \<lparr>fv_Failure = cf_Failure r, fv_Branch = cf_Branch r, fv_Parent = cf_Parent r,
          fv_Source = cf_Source r, fv_RuntimeHash = cf_RuntimeHash r, fv_Phase = cf_Phase r,
          fv_ErrorMessage = cf_ErrorMessage r, fv_LinkedEffects = cf_LinkedEffects r, fv_At = cf_At r\<rparr>) records))"

text \<open>The replay of the target cell of \<open>Logs\<close> with its accumulator: errors, the step state at the end and the logs.\<close>

definition replayForLogs ::
  "('vm, 'v) Goja \<Rightarrow> replayStepState \<Rightarrow> string \<Rightarrow> ('vm, 'v) branchRuntime \<Rightarrow>
   string option \<times> string option \<times> replayStepState \<times> string list" where
  "replayForLogs G step src rt =
     (case gj_run G (br_vm rt) (valueTable rt) src of
        Inl e \<Rightarrow> (Some (''goja: '' @ e), None, step, [])
      | Inr t \<Rightarrow>
          (case replayCell (gj_clock G) (gj_late G) t (newReplayRun step) of
             (vm, r) \<Rightarrow>
               (case rr_outcome r of
                  None \<Rightarrow> Some ''promise still pending after evaluation: context deadline exceeded''
                | Some (Inl e) \<Rightarrow> Some e
                | Some (Inr _) \<Rightarrow> None,
                if rr_outcome r = None then Some ''context deadline exceeded'' else unhandledPromiseError (rr_acc r),
                rr_step r, fst (drainLogs (rr_acc r)))))"

definition Logs ::
  "('s, 'vm, 'v) SessionDeps \<Rightarrow> CellID \<Rightarrow> 's \<Rightarrow> ('vm, 'v) session \<Rightarrow> (string option \<times> string list) option" where
  "Logs D targetCell st s =
     (let G = dp_goja D; p = ''session: Logs: '' in
      case so_LoadReplayPlan (dp_ops D) st (sx_id s) targetCell of
        None \<Rightarrow> None
      | Some (Inl e) \<Rightarrow> Some (Some (p @ storeErr ''load replay plan: '' e), [])
      | Some (Inr plan) \<Rightarrow>
          if pl_Steps plan = [] then Some (None, [])
          else let target = last (pl_Steps plan) in Some
     (case replayPlanPrefixIntoRuntime G (dp_delegate D) (sx_id s) (pl_Branch plan) plan (length (pl_Steps plan) - 1) of
        Inl e \<Rightarrow> (Some (p @ ''replay prefix: '' @ e), [])
      | Inr (rt, _, _) \<Rightarrow>
     (case newReplayStepState (st_Effects target) (pl_Decisions plan) of
        Inl e \<Rightarrow> (Some (p @ ''begin replay step: '' @ e), [])
      | Inr step \<Rightarrow>
     (case replayForLogs G step (replaySourceForStep target) rt of
        (runErr, settleErr, step, logs) \<Rightarrow>
          (case combineSubmitErrors runErr settleErr of
             Some e \<Rightarrow> (Some (p @ ''replay target cell: '' @ e), logs)
           | None \<Rightarrow>
               (case ensureConsumed step of
                  Some e \<Rightarrow> (Some (p @ ''finish replay step: '' @ e), logs)
                | None \<Rightarrow> (None, logs)))))))"

definition Close :: "('vm, 'v) session \<Rightarrow> ('vm, 'v) session" where
  "Close s = resetTypeScriptSession (s\<lparr>sx_runtime := None\<rparr>)"

end
