(* ===== verification/Session_Log.thy ===== *)
theory Session_Log
  imports Session
begin

text \<open>
  The facts each session operation appends, as predicates on fact lists, and
  what they do to the log: they keep it well-formed and ready for replay, and
  move the durable cursor in the same way as the operation moves the session.
\<close>

subsection \<open>Facts that keep a log ready\<close>

definition fact_ready :: "SessionID \<Rightarrow> Fact list \<Rightarrow> (string \<rightharpoonup> bytes) \<Rightarrow> Fact \<Rightarrow> bool" where
  "fact_ready sn log cfg f = (case f of
     CellEvaluated x \<Rightarrow> ce_Session x = sn \<longrightarrow>
       list_all (\<lambda>e. find_map (startedOf sn e) log \<noteq> None) (ce_LinkedEffects x)
   | RuntimeAttached x \<Rightarrow> ra_Session x = sn \<longrightarrow> config_stored cfg (ra_RuntimeHash x)
   | RuntimeTransitioned x \<Rightarrow> rt_Session x = sn \<longrightarrow> config_stored cfg (rt_RuntimeHash x)
   | _ \<Rightarrow> True)"

lemma fact_ready_mono:
  assumes "fact_ready sn log cfg f"
  shows "fact_ready sn (log @ fs) cfg f"
  using assms by (cases f) (auto simp: fact_ready_def list_all_iff find_map_append split: option.splits)

lemma plan_ready_iff: "plan_ready sn log cfg \<longleftrightarrow> list_all (fact_ready sn log cfg) log"
  unfolding plan_ready_def fact_ready_def ..

lemma plan_ready_snoc:
  "plan_ready sn log cfg \<Longrightarrow> fact_ready sn log cfg f \<Longrightarrow> plan_ready sn (log @ [f]) cfg"
  using fact_ready_mono [of sn log cfg _ "[f]"] by (simp add: plan_ready_iff list_all_iff)

lemma plan_ready_put:
  assumes "plan_ready sn log cfg"
  shows "plan_ready sn log (cfg(h \<mapsto> c))"
proof -
  have "fact_ready sn log (cfg(h \<mapsto> c)) f" if "fact_ready sn log cfg f" for f
    using that by (cases f) (auto simp: fact_ready_def config_stored_def)
  then show ?thesis using assms by (simp add: plan_ready_iff list_all_iff)
qed

text \<open>The durable state of a session: a well-formed replayable log with its cursor at \<open>cur\<close>.\<close>

definition durable :: "SessionID \<Rightarrow> Fact list \<Rightarrow> (string \<rightharpoonup> bytes) \<Rightarrow> BranchID \<times> CellID \<Rightarrow> bool" where
  "durable sn log cfg cur \<longleftrightarrow>
     log_wf sn log \<and> plan_ready sn log cfg \<and> li_root (lineage_of sn log) \<noteq> None \<and> cursor_of sn log = cur"

lemma durable_cursor_ok: "durable sn log cfg cur \<Longrightarrow> cursor_ok (lineage_of sn log) cur"
  using cursor_of_ok [of sn log] by (auto simp: durable_def)

lemma root_mono: "li_root L \<noteq> None \<Longrightarrow> li_root (lineage_step sn L f) \<noteq> None"
  by (auto simp: lineage_step_defs split: Fact.splits)

lemma durable_snoc:
  assumes "durable sn log cfg cur" and "ok_step sn (lineage_of sn log) f" and "fact_ready sn log cfg f"
  shows "durable sn (log @ [f]) cfg (cursor_fact sn (lineage_of sn log) cur f)"
  using assms plan_ready_snoc [OF _ assms(3)] root_mono by (auto simp: durable_def)

lemma durable_put: "durable sn log cfg cur \<Longrightarrow> durable sn log (cfg(h \<mapsto> c)) cur"
  by (simp add: durable_def plan_ready_put)

lemma effectFact_frame:
  assumes "effectFact sn f"
  shows "ok_step sn' L f" "fact_ready sn' log cfg f" "cursor_fact sn' L cur f = cur"
    "lineage_fact sn' L f = L" "checkedOf sn' b c f = None" "evaluatedOf sn' b c f = None" "headOf sn' b f = None"
  using assms
  by (cases f; simp add: ok_step_def fact_ready_def cursor_fact_def lineage_fact_def)+

lemma durable_effects:
  "durable sn log cfg cur \<Longrightarrow> list_all (effectFact sn) fs \<Longrightarrow> durable sn (log @ fs) cfg cur"
proof (induction fs rule: rev_induct)
  case (snoc f fs)
  then have "durable sn (log @ fs) cfg cur" "effectFact sn f" by auto
  from durable_snoc [OF this(1) effectFact_frame(1,2) [OF this(2)]] show ?case
    using effectFact_frame(3) [OF \<open>effectFact sn f\<close>] by simp
qed simp

lemma owner_effects [simp]:
  "list_all (effectFact sn) fs \<Longrightarrow> owner (lineage_of sn (log @ fs)) c = owner (lineage_of sn log) c"
proof (induction fs rule: rev_induct)
  case (snoc f fs)
  then show ?case
    using effectFact_frame(4) [of sn f sn "lineage_of sn (log @ fs)"]
    by (simp add: lineage_step_def flip: append_assoc)
qed simp

subsection \<open>The facts of a submit\<close>

text \<open>
  What is left of a cell when a submit returns: nothing or a checked and maybe
  evaluated cell; a committed cell whose head move failed; or a committed cell
  at the head.
\<close>

datatype submitEnd = NotCommittedCell | HeadNotMoved | CommittedCell

inductive submitted ::
  "SessionID \<Rightarrow> Fact list \<Rightarrow> BranchID \<Rightarrow> CellID \<Rightarrow> CellID \<Rightarrow> submitEnd \<Rightarrow> Fact list \<Rightarrow> bool"
  for sn log b h c where
  refused: "submitted sn log b h c NotCommittedCell []"
| checked: "\<lbrakk>ck_Session k = sn; ck_Branch k = b; ck_Cell k = c; ck_Parent k = h\<rbrakk> \<Longrightarrow>
    submitted sn log b h c NotCommittedCell [CellChecked k]"
| ran: "\<lbrakk>submitted sn log b h c NotCommittedCell [CellChecked k]; list_all (effectFact sn) fs\<rbrakk> \<Longrightarrow>
    submitted sn log b h c NotCommittedCell (CellChecked k # fs)"
| evaluated: "\<lbrakk>submitted sn log b h c NotCommittedCell (CellChecked k # fs); list_all (effectFact sn) fs;
      ce_Session v = sn; ce_Branch v = b; ce_Cell v = c;
      list_all (\<lambda>e. find_map (startedOf sn e) (log @ CellChecked k # fs) \<noteq> None) (ce_LinkedEffects v)\<rbrakk> \<Longrightarrow>
    submitted sn log b h c NotCommittedCell (CellChecked k # fs @ [CellEvaluated v])"
| committed: "\<lbrakk>submitted sn log b h c NotCommittedCell (CellChecked k # fs @ [CellEvaluated v]); list_all (effectFact sn) fs;
      cc_Session m = sn; cc_Branch m = b; cc_Cell m = c\<rbrakk> \<Longrightarrow>
    submitted sn log b h c HeadNotMoved (CellChecked k # fs @ [CellEvaluated v, CellCommitted m])"
| moved: "\<lbrakk>submitted sn log b h c HeadNotMoved (CellChecked k # fs @ [CellEvaluated v, CellCommitted m]); list_all (effectFact sn) fs;
      hm_Session d = sn; hm_Branch d = b; hm_Previous d = h; hm_Next d = c\<rbrakk> \<Longrightarrow>
    submitted sn log b h c CommittedCell (CellChecked k # fs @ [CellEvaluated v, CellCommitted m, HeadMoved d])"
| failed: "\<lbrakk>submitted sn log b h c r fs; r \<noteq> CommittedCell; cf_Session x = sn; cf_Branch x = b; cf_Parent x = h\<rbrakk> \<Longrightarrow>
    submitted sn log b h c r (fs @ [CellFailed x])"

lemma durable_keep:
  "durable sn log cfg cur \<Longrightarrow> ok_step sn (lineage_of sn log) f \<Longrightarrow> fact_ready sn log cfg f \<Longrightarrow>
     cursor_fact sn (lineage_of sn log) cur f = cur \<Longrightarrow> durable sn (log @ [f]) cfg cur"
  using durable_snoc [of sn log cfg cur f] by simp

text \<open>A submit keeps the log well-formed; the cursor moves exactly when the head move was recorded.\<close>

lemma submitted_durable:
  assumes "submitted sn log b h c r fs" and "durable sn log cfg (b, h)"
    and new: "owner (lineage_of sn log) c = None" "c \<noteq> []"
  shows "durable sn (log @ fs) cfg (b, if r = CommittedCell then c else h) \<and>
    owner (lineage_of sn (log @ fs)) c = (if r = NotCommittedCell then None else Some b)"
  using assms(1)
proof induction
  case (checked k)
  then show ?case
    using durable_keep [OF assms(2), of "CellChecked k"] new
    by (simp add: ok_step_def fact_ready_def cursor_fact_def lineage_step_defs)
next
  case (ran k fs)
  then show ?case using durable_effects [of sn "log @ [CellChecked k]" cfg "(b, h)" fs] owner_effects [of sn fs "log @ [CellChecked k]" c] by simp
next
  case (evaluated k fs v)
  let ?l = "log @ CellChecked k # fs"
  have "durable sn ?l cfg (b, h)" "owner (lineage_of sn ?l) c = None" using evaluated.IH by simp_all
  then show ?case
    using durable_keep [of sn ?l cfg "(b, h)" "CellEvaluated v"] lineage_of_snoc [of sn ?l "CellEvaluated v"] evaluated.hyps
    by (simp add: ok_step_def fact_ready_def cursor_fact_def lineage_step_defs)
next
  case (committed k fs v m)
  let ?l = "log @ CellChecked k # fs @ [CellEvaluated v]"
  have d: "durable sn ?l cfg (b, h)" and n: "owner (lineage_of sn ?l) c = None" using committed.IH by simp_all
  have "known (lineage_of sn ?l) b" using durable_cursor_ok [OF d] by (simp add: cursor_ok_def)
  then show ?case
    using durable_keep [OF d, of "CellCommitted m"] lineage_of_snoc [of sn ?l "CellCommitted m"] committed.hyps n new
    by (simp add: ok_step_def fact_ready_def cursor_fact_def lineage_step_defs owner_def map_add_def)
next
  case (moved k fs v m d)
  let ?l = "log @ CellChecked k # fs @ [CellEvaluated v, CellCommitted m]"
  have d: "durable sn ?l cfg (b, h)" and n: "owner (lineage_of sn ?l) c = Some b" using moved.IH by simp_all
  then show ?case
    using durable_snoc [OF d, of "HeadMoved d"] lineage_of_snoc [of sn ?l "HeadMoved d"] moved.hyps
    by (simp add: ok_step_def fact_ready_def cursor_fact_def lineage_step_defs)
next
  case (failed r fs x)
  then have d: "durable sn (log @ fs) cfg (b, h)"
    and n: "owner (lineage_of sn (log @ fs)) c = (if r = NotCommittedCell then None else Some b)" by simp_all
  then show ?case
    using durable_keep [OF d, of "CellFailed x"] lineage_of_snoc [of sn "log @ fs" "CellFailed x"] failed.hyps
    by (simp add: ok_step_def fact_ready_def cursor_fact_def lineage_step_defs)
qed (use assms in simp)

subsection \<open>Restores, forks and transitions\<close>

lemma durable_restore:
  assumes "durable sn log cfg cur" and "owner (lineage_of sn log) c = Some b"
    and "rc_Session x = sn" and "rc_TargetCell x = c" and "rc_NewBranch x = []"
  shows "durable sn (log @ [RestoreCompleted x]) cfg (b, c)"
  using durable_snoc [OF assms(1), of "RestoreCompleted x"] assms(2-)
  by (simp add: ok_step_def fact_ready_def cursor_fact_def)

lemma durable_branch:
  assumes "durable sn log cfg cur" and "owner (lineage_of sn log) c \<noteq> None"
    and "bc_Session x = sn" and "bc_ParentCell x = c" and "bc_Branch x = b" and "b \<noteq> []" and "\<not> known (lineage_of sn log) b"
  shows "durable sn (log @ [BranchCreated x]) cfg cur"
  using durable_keep [OF assms(1), of "BranchCreated x"] assms(2-)
  by (simp add: ok_step_def fact_ready_def cursor_fact_def)

lemma durable_fork:
  assumes d: "durable sn log cfg cur" and own: "owner (lineage_of sn log) c = Some p"
    and x: "bc_Session x = sn" "bc_ParentCell x = c" "bc_Branch x = b" and new: "b \<noteq> []" "\<not> known (lineage_of sn log) b"
    and y: "rc_Session y = sn" "rc_TargetCell y = c" "rc_NewBranch y = b"
  shows "durable sn (log @ [BranchCreated x, RestoreCompleted y]) cfg (b, c)"
proof -
  let ?l = "log @ [BranchCreated x]"
  have d1: "durable sn ?l cfg cur" using durable_branch [OF d _ x(1,2,3) new] own by simp
  have ok: "log_wf sn log" "ok_step sn (lineage_of sn log) (BranchCreated x)"
    using d d1 by (simp_all add: durable_def)
  have "owner (lineage_of sn ?l) c = Some p" using own by (simp add: owner_mono)
  moreover have "known (lineage_of sn ?l) b" "inherited (lineage_of sn ?l) b = history (lineage_of sn log) c"
    using x by (simp_all add: lineage_step_defs known_def inherited_def)
  ultimately show ?thesis
    using durable_snoc [OF d1, of "RestoreCompleted y"] history_stable [OF ok own] y new
    by (simp add: ok_step_def fact_ready_def cursor_fact_def)
qed

text \<open>A new branch sees the history of the cell it was forked from.\<close>

lemma fork_branch_history:
  assumes d: "durable sn log cfg cur" and own: "owner (lineage_of sn log) c \<noteq> None" and b: "b \<noteq> []" "\<not> known (lineage_of sn log) b"
  shows "branch_history (lineage_of sn (log @ [BranchCreated \<lparr>bc_Session = sn, bc_Branch = b, bc_ParentCell = c, bc_At = t\<rparr>,
      RestoreCompleted \<lparr>rc_Session = sn, rc_TargetCell = c, rc_NewBranch = b, rc_At = t\<rparr>])) b c = history (lineage_of sn log) c"
proof -
  let ?x = "BranchCreated \<lparr>bc_Session = sn, bc_Branch = b, bc_ParentCell = c, bc_At = t\<rparr>"
  let ?y = "RestoreCompleted \<lparr>rc_Session = sn, rc_TargetCell = c, rc_NewBranch = b, rc_At = t\<rparr>"
  have inv: "lineage_inv (lineage_of sn log)" using d by (auto simp: durable_def dest: log_wf_inv)
  have "own (lineage_of sn log) b = []"
    using own_owner [OF inv] known_owner [OF inv] b(2) by (metis list.set_intros(1) neq_Nil_conv)
  then have "own (lineage_of sn (log @ [?x, ?y])) b = []"
    using lineage_of_snoc [of sn "log @ [?x]" ?y] by (simp add: own_step)
  moreover have "inherited (lineage_of sn (log @ [?x, ?y])) b = history (lineage_of sn log) c"
    using lineage_of_snoc [of sn "log @ [?x]" ?y] by (simp add: lineage_step_defs inherited_def)
  ultimately show ?thesis by (simp add: branch_history_def)
qed

lemma durable_transition:
  assumes "durable sn log cfg (b, h)" and "rt_Session x = sn" "rt_Branch x = b" "rt_AfterCell x = h"
    and "config_stored cfg (rt_RuntimeHash x)"
  shows "durable sn (log @ [RuntimeTransitioned x]) cfg (b, h)"
  using durable_keep [OF assms(1), of "RuntimeTransitioned x"] durable_cursor_ok [OF assms(1)] assms(2-)
  by (auto simp: ok_step_def fact_ready_def cursor_fact_def cursor_ok_def)

lemma durable_start:
  assumes "log_wf sn log" and "plan_ready sn log cfg" and "li_root (lineage_of sn log) = None"
    and x: "ss_Session x = sn" "ss_RootBranch x = b" "b \<noteq> []"
  shows "durable sn (log @ [SessionStarted x]) cfg (b, [])"
  using assms plan_ready_snoc [OF assms(2), of "SessionStarted x"]
  by (simp add: durable_def ok_step_def fact_ready_def cursor_fact_def lineage_step_defs)

lemma durable_attach:
  assumes "durable sn log cfg cur"
  shows "durable sn (log @ [ManifestAttached x]) cfg cur"
    and "config_stored cfg (ra_RuntimeHash y) \<Longrightarrow> durable sn (log @ [RuntimeAttached y]) cfg cur"
  using durable_keep [OF assms, of "ManifestAttached x"] durable_keep [OF assms, of "RuntimeAttached y"]
  by (simp_all add: ok_step_def fact_ready_def cursor_fact_def)

subsection \<open>Cell indices\<close>

lemma owner_Nil: "log_wf sn log \<Longrightarrow> owner (lineage_of sn log) [] = None"
  using log_wf_inv [of sn log] by (simp add: lineage_inv_def owner_None_iff)

lemma history_Nil: "log_wf sn log \<Longrightarrow> history (lineage_of sn log) [] = []"
  by (simp add: history_def owner_Nil)

text \<open>A cursor with no cell is on the root branch, which inherits nothing.\<close>

lemma cursor_at_root:
  "log_wf sn log \<Longrightarrow> li_root (lineage_of sn log) \<noteq> None \<Longrightarrow> cursor_of sn log = (b, []) \<Longrightarrow>
     inherited (lineage_of sn log) b = []"
proof (induction arbitrary: b rule: log_wf_induct)
  case (snoc log f)
  note no = owner_Nil [OF snoc.hyps(1)]
  have inv: "li_root (lineage_of sn log) = None \<Longrightarrow> \<not> known (lineage_of sn log) b" for b
    using log_wf_inv [OF snoc.hyps(1)] by (simp add: lineage_inv_def known_def)
  have old: "inherited (lineage_of sn (log @ [f])) b = []"
    if "li_root (lineage_of sn log) \<noteq> None" "cursor_of sn log = (b, [])"
    using snoc.IH [OF that] cursor_of_ok [OF snoc.hyps(1) that(1)] that inherited_step [OF snoc.hyps(2) inv]
    by (simp add: cursor_ok_def)
  show ?case
  proof (cases f)
    case (SessionStarted x)
    then show ?thesis
      using snoc.prems old by (cases "ss_Session x = sn") (auto simp: cursor_fact_def lineage_step_defs inherited_def)
  next
    case (HeadMoved x)
    then show ?thesis
      using snoc.prems old snoc.hyps(2) no
      by (cases "hm_Session x = sn") (auto simp: cursor_fact_def ok_step_def lineage_step_defs)
  next
    case (RestoreCompleted x)
    then show ?thesis
      using snoc.prems old snoc.hyps(2) no
      by (cases "rc_Session x = sn") (auto simp: cursor_fact_def ok_step_def lineage_step_defs split: if_splits)
  qed (use snoc.prems old in \<open>auto simp: cursor_fact_def lineage_step_defs split: if_splits\<close>)
qed simp

text \<open>No commit is waiting for its head move: the head of a branch is its last cell.\<close>

definition heads_synced :: "SessionID \<Rightarrow> Fact list \<Rightarrow> bool" where
  "heads_synced sn log \<longleftrightarrow> (\<forall>b. head_of sn log b =
     (let cells = own (lineage_of sn log) b in if cells = [] then [] else last cells))"

text \<open>At a writable cursor the history of the head is everything the branch has.\<close>

lemma history_at_head:
  assumes d: "durable sn log cfg (b, h)" and sync: "heads_synced sn log"
    and head: "head_of sn log b \<in> {[], h}"
  shows "history (lineage_of sn log) h =
    inherited (lineage_of sn log) b @ map (\<lambda>c. (c, b)) (own (lineage_of sn log) b)"
proof -
  let ?L = "lineage_of sn log"
  have wf: "log_wf sn log" and inv: "lineage_inv ?L" using d by (auto simp: durable_def dest: log_wf_inv)
  have no: "own ?L b = [] \<Longrightarrow> owner ?L h \<noteq> Some b" using own_owner [OF inv, of h b] by simp
  have nonempty: "[] \<notin> set (own ?L b)" using owner_Nil [OF wf] own_owner [OF inv, of "[]" b] by simp
  show ?thesis
  proof (cases "own ?L b = []")
    case True
    show ?thesis
    proof (cases "h = []")
      case True
      then show ?thesis
        using cursor_at_root [OF wf] d history_Nil [OF wf] \<open>own ?L b = []\<close> by (simp add: durable_def)
    next
      case False
      then show ?thesis using durable_cursor_ok [OF d] no True by (auto simp: cursor_ok_def)
    qed
  next
    case False
    then have "last (own ?L b) \<noteq> []" using nonempty last_in_set [OF False] by metis
    then have "last (own ?L b) = h" using sync head False by (auto simp: heads_synced_def Let_def)
    then obtain xs where xs: "own ?L b = xs @ [h]" using False by (metis append_butlast_last_id)
    then have "h \<notin> set xs" using distinct_own [OF inv, of b] by simp
    moreover have "owner ?L h = Some b" using own_owner [OF inv, of h b] xs by simp
    ultimately show ?thesis using xs by (simp add: history_def branch_history_def take_upto_append)
  qed
qed

lemma committed_history:
  assumes wf: "log_wf sn (log @ fs)" and own': "own (lineage_of sn (log @ fs)) b = own (lineage_of sn log) b @ [c]"
    and known: "known (lineage_of sn log) b"
  shows "history (lineage_of sn (log @ fs)) c =
    inherited (lineage_of sn log) b @ map (\<lambda>c. (c, b)) (own (lineage_of sn log) b) @ [(c, b)]"
proof -
  let ?L = "lineage_of sn (log @ fs)"
  have inv: "lineage_inv ?L" using log_wf_inv [OF wf] .
  have "owner ?L c = Some b" using own_owner [OF inv, of c b] own' by simp
  moreover have "c \<notin> set (own (lineage_of sn log) b)" using distinct_own [OF inv, of b] own' by simp
  moreover have "inherited ?L b = inherited (lineage_of sn log) b" using inherited_extend [OF wf known] by simp
  ultimately show ?thesis using own' by (simp add: history_def branch_history_def take_upto_append)
qed

text \<open>What a submit does to the cells and heads of the branches.\<close>

lemma own_effects [simp]:
  "list_all (effectFact sn) fs \<Longrightarrow> own (lineage_of sn (log @ fs)) b = own (lineage_of sn log) b \<and>
     head_of sn (log @ fs) b = head_of sn log b"
proof (induction fs rule: rev_induct)
  case (snoc f fs)
  then show ?case
    using effectFact_frame(4,7) [of sn f sn] lineage_of_snoc [of sn "log @ fs" f] head_of_snoc [of sn "log @ fs" f]
    by (simp add: lineage_step_def flip: append_assoc del: lineage_of_snoc head_of_snoc)
qed simp

lemma submitted_own:
  assumes "submitted sn log b h c r fs"
  shows "own (lineage_of sn (log @ fs)) b' =
      own (lineage_of sn log) b' @ (if r \<noteq> NotCommittedCell \<and> b' = b then [c] else []) \<and>
    head_of sn (log @ fs) b' = (if r = CommittedCell \<and> b' = b then c else head_of sn log b')"
  using assms
proof induction
  case (checked k)
  then show ?case by (simp add: own_step)
next
  case (ran k fs)
  then show ?case using own_effects [of sn fs "log @ [CellChecked k]" b'] by simp
next
  case (evaluated k fs v)
  then show ?case
    using lineage_of_snoc [of sn "log @ CellChecked k # fs" "CellEvaluated v"]
      head_of_snoc [of sn "log @ CellChecked k # fs" "CellEvaluated v" b']
    by (simp add: own_step)
next
  case (committed k fs v m)
  let ?l = "log @ CellChecked k # fs @ [CellEvaluated v]"
  show ?case
    using committed lineage_of_snoc [of sn ?l "CellCommitted m"] head_of_snoc [of sn ?l "CellCommitted m" b']
    by (simp add: own_step)
next
  case (moved k fs v m d)
  let ?l = "log @ CellChecked k # fs @ [CellEvaluated v, CellCommitted m]"
  show ?case
    using moved lineage_of_snoc [of sn ?l "HeadMoved d"] head_of_snoc [of sn ?l "HeadMoved d" b']
    by (simp add: own_step)
next
  case (failed r fs x)
  then show ?case
    using lineage_of_snoc [of sn "log @ fs" "CellFailed x"] head_of_snoc [of sn "log @ fs" "CellFailed x" b']
    by (simp add: own_step)
qed simp

subsection \<open>Facts of other sessions\<close>

definition foreign :: "SessionID \<Rightarrow> Fact \<Rightarrow> bool" where
  "foreign sn f \<longleftrightarrow> fst (extractIndexColumns f) \<noteq> sn"

lemma foreign_frame:
  assumes "foreign sn f"
  shows "ok_step sn L f" "fact_ready sn log cfg f" "cursor_fact sn L cur f = cur" "lineage_fact sn L f = L"
    "headOf sn b f = None"
  using assms by (cases f; simp add: foreign_def ok_step_def fact_ready_def cursor_fact_def lineage_fact_def)+

lemma history_len [simp]: "history (L\<lparr>li_len := n\<rparr>) c = history L c"
  by (simp add: history_def branch_history_def split: option.split)

text \<open>Facts that are not the session's leave its log state, cells, heads and histories alone.\<close>

lemma durable_foreign:
  "durable sn log cfg cur \<Longrightarrow> list_all (foreign sn) fs \<Longrightarrow>
     durable sn (log @ fs) cfg cur \<and> history (lineage_of sn (log @ fs)) c = history (lineage_of sn log) c \<and>
     own (lineage_of sn (log @ fs)) b = own (lineage_of sn log) b \<and> head_of sn (log @ fs) b = head_of sn log b"
proof (induction fs rule: rev_induct)
  case (snoc f fs)
  then have d: "durable sn (log @ fs) cfg cur" and f: "foreign sn f" by auto
  have "durable sn ((log @ fs) @ [f]) cfg cur" using durable_keep [OF d] foreign_frame(1-3) [OF f] by blast
  moreover have "lineage_of sn ((log @ fs) @ [f]) = (lineage_of sn (log @ fs))\<lparr>li_len := Suc (li_len (lineage_of sn (log @ fs)))\<rparr>"
    using foreign_frame(4) [OF f] by (simp add: lineage_step_def del: append_assoc)
  ultimately show ?case
    using snoc foreign_frame(5) [OF f] head_of_snoc [of sn "log @ fs" f b] by simp
qed simp

subsection \<open>Submits and histories\<close>

inductive_cases submitted_CommittedE: "submitted sn log b h c CommittedCell fs"

text \<open>A submit at a writable head puts the cell at the end of the history of the head.\<close>

lemma submitted_history:
  assumes d: "durable sn log cfg (b, h)" and sync: "heads_synced sn log" and head: "head_of sn log b \<in> {[], h}"
    and new: "c \<noteq> []" "owner (lineage_of sn log) c = None" and sub: "submitted sn log b h c CommittedCell fs"
  shows "durable sn (log @ fs) cfg (b, c)" "heads_synced sn (log @ fs)"
    "history (lineage_of sn (log @ fs)) c = history (lineage_of sn log) h @ [(c, b)]"
    "history (lineage_of sn (log @ fs)) h = history (lineage_of sn log) h"
proof -
  show d': "durable sn (log @ fs) cfg (b, c)"
    using submitted_durable [OF sub d new(2,1)] by simp
  then have wf': "log_wf sn (log @ fs)" by (simp add: durable_def)
  have own': "own (lineage_of sn (log @ fs)) b' = own (lineage_of sn log) b' @ (if b' = b then [c] else [])"
    "head_of sn (log @ fs) b' = (if b' = b then c else head_of sn log b')" for b'
    using submitted_own [OF sub, of b'] by auto
  then show "heads_synced sn (log @ fs)" using sync by (auto simp: heads_synced_def Let_def)
  have kn: "known (lineage_of sn log) b" using durable_cursor_ok [OF d] by (simp add: cursor_ok_def)
  show "history (lineage_of sn (log @ fs)) c = history (lineage_of sn log) h @ [(c, b)]"
    using committed_history [OF wf' _ kn, of c] own'(1) [of b] history_at_head [OF d sync head] by simp
  have "h = [] \<or> owner (lineage_of sn log) h \<noteq> None" using durable_cursor_ok [OF d] by (auto simp: cursor_ok_def)
  then show "history (lineage_of sn (log @ fs)) h = history (lineage_of sn log) h"
    using history_extend [OF wf', of h] history_Nil [OF wf'] history_Nil [OF log_wf_appendD [OF wf']] by auto
qed

text \<open>What each fact of a submit says, and the facts of a submit that ends with a committed cell.\<close>

fun submit_fact :: "SessionID \<Rightarrow> BranchID \<Rightarrow> CellID \<Rightarrow> CellID \<Rightarrow> Fact \<Rightarrow> bool" where
  "submit_fact sn b h c (CellChecked k) = (ck_Session k = sn \<and> ck_Branch k = b \<and> ck_Cell k = c \<and> ck_Parent k = h)"
| "submit_fact sn b h c (CellEvaluated v) = (ce_Session v = sn \<and> ce_Branch v = b \<and> ce_Cell v = c)"
| "submit_fact sn b h c (CellCommitted m) = (cc_Session m = sn \<and> cc_Branch m = b \<and> cc_Cell m = c)"
| "submit_fact sn b h c (HeadMoved d) = (hm_Session d = sn \<and> hm_Branch d = b \<and> hm_Previous d = h \<and> hm_Next d = c)"
| "submit_fact sn b h c (CellFailed x) = (cf_Session x = sn \<and> cf_Branch x = b \<and> cf_Parent x = h)"
| "submit_fact sn b h c f = effectFact sn f"

lemma effectFact_submit: "effectFact sn f \<Longrightarrow> submit_fact sn b h c f"
  by (cases f) simp_all

lemma submitted_fact: "submitted sn log b h c r fs \<Longrightarrow> list_all (submit_fact sn b h c) fs"
  by (induction rule: submitted.induct) (auto simp: list_all_iff effectFact_submit)

lemma submitted_facts:
  assumes "submitted sn log b h c CommittedCell fs"
  shows "\<exists>k effs v m d. fs = CellChecked k # effs @ [CellEvaluated v, CellCommitted m, HeadMoved d] \<and>
    list_all (effectFact sn) effs \<and> list_all (submit_fact sn b h c) fs"
  using assms submitted_fact [OF assms] by (cases rule: submitted_CommittedE) blast+

end
