(* ===== verification/Session_Props.thy ===== *)
theory Session_Props
  imports Session_Log
begin

text \<open>
  What the session operations do to any store that keeps the contract of
  \<open>fact_store\<close>, whatever writes and queries fail: the facts they append, the
  cursor they leave, and the invariant that ties a session to its log.
\<close>

definition grown ::
  "('s \<Rightarrow> Fact list) \<Rightarrow> ('s \<Rightarrow> string \<rightharpoonup> bytes) \<Rightarrow> ('s \<Rightarrow> bool) \<Rightarrow> 's \<Rightarrow> Fact list \<Rightarrow> 's \<Rightarrow> bool" where
  "grown slog scfg sok st fs st' \<longleftrightarrow> sok st' \<and> slog st' = slog st @ fs \<and> scfg st' = scfg st"

lemma grown_trans:
  "grown slog scfg sok st fs st' \<Longrightarrow> grown slog scfg sok st' gs st'' \<Longrightarrow> grown slog scfg sok st (fs @ gs) st''"
  by (simp add: grown_def)

text \<open>The parts of a session that a failed operation must not touch.\<close>

definition same_place :: "('vm, 'v) session \<Rightarrow> ('vm, 'v) session \<Rightarrow> bool" where
  "same_place s s' \<longleftrightarrow> sx_id s' = sx_id s \<and> sx_branch s' = sx_branch s \<and> sx_head s' = sx_head s \<and>
     sx_currentIndex s' = sx_currentIndex s \<and> sx_values s' = sx_values s \<and> sx_runtimeMode s' = sx_runtimeMode s"

lemma same_place_refl [simp]: "same_place s s"
  by (simp add: same_place_def)

lemma same_place_trans: "same_place s s' \<Longrightarrow> same_place s' s'' \<Longrightarrow> same_place s s''"
  by (simp add: same_place_def)

lemma same_place_dirty [simp]: "same_place s (s'\<lparr>sx_runtimeDirty := d\<rparr>) = same_place s s'"
  "same_place s (s'\<lparr>sx_runtime := rt\<rparr>) = same_place s s'" "same_place s (abandonSubmitRuntime fr s') = same_place s s'"
  by (simp_all add: same_place_def abandonSubmitRuntime_def)

lemma syncTypeScriptEnv_place: "syncTypeScriptEnv D s = Inr (env, w, s') \<Longrightarrow> same_place s s'"
  by (auto simp: syncTypeScriptEnv_def applyTypeScriptEnv_def resetTypeScriptSession_def same_place_def
        split: option.splits prod.splits if_splits)

lemma checkCell_place: "checkCell D env l src s = (r, s') \<Longrightarrow> same_place s s'"
  by (auto simp: checkCell_def ensureTypeScriptSession_def same_place_def Let_def
        split: option.splits prod.splits if_splits sum.splits)

lemma ensureCleanRuntime_place: "ensureCleanRuntime D st s = Some (Inr s') \<Longrightarrow> same_place s s'"
  by (auto simp: ensureCleanRuntime_def rebuildRuntimeFromCommitted_def same_place_def
        split: option.splits prod.splits if_splits sum.splits)

lemma prepareSubmitRuntime_place: "prepareSubmitRuntime D st s = Some (Inr (r, s')) \<Longrightarrow> same_place s s'"
  by (auto simp: prepareSubmitRuntime_def dest: ensureCleanRuntime_place split: if_splits)

lemma finishSubmit_place:
  assumes "finishSubmit D x source language diagnostics warnings fr cfg h ce s = (r, s')"
  shows "sx_id s' = sx_id s" "sx_branch s' = sx_branch s" "sx_head s' = xt_cellID x"
    "case r of Inl e \<Rightarrow> (\<exists>m. e = PlainError m) \<and> sx_currentIndex s' = sx_currentIndex s \<and> sx_runtimeDirty s'
       | Inr res \<Rightarrow> sr_Cell res = xt_cellID x \<and> sr_Index res = Suc (sx_currentIndex s) \<and>
           sx_currentIndex s' = Suc (sx_currentIndex s) \<and> \<not> sx_runtimeDirty s'"
  using assms by (auto simp: finishSubmit_def Let_def split: sum.splits option.splits prod.splits if_splits)

text \<open>The cursor a submit that ends in \<open>r\<close> leaves the session at, and what its result says.\<close>

definition submit_place :: "submitExt \<Rightarrow> submitEnd \<Rightarrow> SubmitError + SubmitResult \<Rightarrow> ('vm, 'v) session \<Rightarrow> ('vm, 'v) session \<Rightarrow> bool" where
  "submit_place x r res s s' \<longleftrightarrow>
     (if r = CommittedCell
      then sx_id s' = sx_id s \<and> sx_branch s' = sx_branch s \<and> sx_head s' = xt_cellID x \<and>
        (case res of
           Inr out \<Rightarrow> sr_Cell out = xt_cellID x \<and> sr_Index out = Suc (sx_currentIndex s) \<and>
             sx_currentIndex s' = Suc (sx_currentIndex s)
         | Inl e \<Rightarrow> \<exists>m. e = PlainError m)
      else same_place s s' \<and> (\<exists>e. res = Inl e))"

text \<open>A failure reported to the caller is the last fact of the log.\<close>

definition recorded :: "SubmitError + SubmitResult \<Rightarrow> Fact list \<Rightarrow> bool" where
  "recorded res log \<longleftrightarrow> (case res of
     Inl (FailureError sf) \<Rightarrow>
       log \<noteq> [] \<and> (\<exists>y. last log = CellFailed y \<and> cf_Failure y = sf_Failure sf \<and> cf_Parent y = sf_Parent sf \<and>
         cf_Phase y = sf_Phase sf \<and> cf_ErrorMessage y = sf_ErrorMessage sf \<and>
         cf_LinkedEffects y = effectIDsFromSummaries (sf_LinkedEffects sf))
   | _ \<Rightarrow> True)"

lemma submit_place_from: "same_place s s1 \<Longrightarrow> submit_place x r res s1 s' \<Longrightarrow> submit_place x r res s s'"
  by (auto simp: submit_place_def same_place_def split: if_splits sum.splits)

text \<open>What \<open>loadBranchState\<close> loads.\<close>

lemma loadBranchState_loaded:
  "loadBranchState D p1 p2 st sn plan b eb c = Some (Inr lb) \<Longrightarrow>
     lb_branch lb = b \<and> lb_head lb = c \<and> lb_currentIndex lb = length (pl_Steps plan)"
  by (auto simp: loadBranchState_def loadedState_def split: sum.splits option.splits prod.splits)

context fact_store
begin

lemma grown_append:
  assumes "sok st" and "so_AppendFact ops st f = (r, st')"
  shows "grown slog scfg sok st (if r = None then [f] else []) st'"
  using append_cases [OF assms] by (simp add: grown_def)

lemma evalCell_grown:
  assumes ok: "sok st" and D: "dp_ops D = ops"
    and ce_def: "ce = evalCell D sn cell H src rt st"
  shows "\<exists>fs. grown slog scfg sok st fs (cl_store ce) \<and> list_all (effectFact sn) fs \<and>
    list_all (\<lambda>e. find_map (startedOf sn e) (slog st @ fs) \<noteq> None) (effectIDsFromSummaries (cl_effects ce))"
proof (cases "gj_run (dp_goja D) (br_vm rt) (valueTable rt) src")
  case (Inl e)
  then show ?thesis
    using ok by (auto simp: ce_def evalCell_def grown_def effectIDsFromSummaries_def intro!: exI [of _ "[]"])
next
  case (Inr t)
  obtain vm c where l: "liveCell ops sn cell H t (newCellRun st 0) = (vm, c)" by fastforce
  have "run_inv slog scfg sok sn st (newCellRun st 0)"
    using ok by (simp add: run_inv_def newCellRun_def) (simp add: newAccumulator_def)
  from live_inv [OF this l] have inv: "run_inv slog scfg sok sn st c" by simp
  then have "effectIDsFromSummaries (fst (drain (cr_acc c))) = ac_order (cr_acc c)"
    by (simp add: run_inv_def drain_effects)
  moreover have "cl_store ce = cr_store c" "cl_effects ce = fst (drain (cr_acc c))"
    by (simp_all add: ce_def evalCell_def Inr D l Let_def case_prod_unfold)
  ultimately show ?thesis using inv by (auto simp: run_inv_def grown_def list_all_iff)
qed

lemma submitFailureResult_grown:
  assumes "sok st" and "submitFailureResult ops fr x src h hash phase cause ce st s = (e, st', s')"
    and "submitted (sx_id s) log (sx_branch s) h c r fs" and "r \<noteq> CommittedCell"
  shows "\<exists>gs. grown slog scfg sok st gs st' \<and> submitted (sx_id s) log (sx_branch s) h c r (fs @ gs) \<and>
    same_place s s' \<and> recorded (Inl e) (slog st')"
proof -
  obtain a st1 where a: "recordFailure ops (abandonSubmitRuntime fr s) st (xt_failureID x) src h hash phase
      (effectIDsFromSummaries (cl_effects ce)) cause (xt_now x) = (a, st1)" by fastforce
  have keep: "sx_id (abandonSubmitRuntime fr s) = sx_id s" "sx_branch (abandonSubmitRuntime fr s) = sx_branch s"
    by (simp_all add: abandonSubmitRuntime_def)
  have "st' = st1" "s' = abandonSubmitRuntime fr s"
    using assms(2) a by (auto simp: submitFailureResult_def Let_def split: option.splits)
  then have place: "same_place s s'" and st': "st' = st1" by simp_all
  show ?thesis
  proof (cases a)
    case None
    then show ?thesis
      using grown_append [OF assms(1) a [unfolded recordFailure_def]] place st' keep submitted.failed [OF assms(3,4)]
        assms(2) a
      by (intro exI [of _ "[CellFailed _]"] conjI)
        (auto simp: recorded_def grown_def submitFailureResult_def Let_def
          elim: back_subst [of "\<lambda>fs. grown slog scfg sok st fs st'"])
  next
    case (Some err)
    then show ?thesis
      using grown_append [OF assms(1) a [unfolded recordFailure_def]] place st' assms(2,3) a
      by (intro exI [of _ "[]"]) (auto simp: recorded_def submitFailureResult_def Let_def)
  qed
qed

lemma commitCell_grown:
  assumes ok: "sok (cl_store ce)" and D: "dp_ops D = ops"
    and run: "commitCell D x source language diagnostics warnings fr cfg h ce s = (res, st', s')"
    and sub: "submitted (sx_id s) log (sx_branch s) (sx_head s) (xt_cellID x) NotCommittedCell (CellChecked k # fs)"
    and eff: "list_all (effectFact (sx_id s)) fs"
    and linked: "list_all (\<lambda>e. find_map (startedOf (sx_id s) e) (log @ CellChecked k # fs) \<noteq> None)
      (effectIDsFromSummaries (cl_effects ce))"
  shows "\<exists>gs r. grown slog scfg sok (cl_store ce) gs st' \<and>
    submitted (sx_id s) log (sx_branch s) (sx_head s) (xt_cellID x) r (CellChecked k # fs @ gs) \<and>
    submit_place x r res s s' \<and> recorded res (slog st')"
proof -
  let ?P = "\<lambda>st gs. \<exists>gs' r. grown slog scfg sok st gs' st' \<and>
    submitted (sx_id s) log (sx_branch s) (sx_head s) (xt_cellID x) r (CellChecked k # fs @ gs @ gs') \<and>
    submit_place x r res s s' \<and> recorded res (slog st')"
  define v where "v = \<lparr>ce_Session = sx_id s, ce_Branch = sx_branch s, ce_Cell = xt_cellID x, ce_CreatedBindings = [],
    ce_LinkedEffects = effectIDsFromSummaries (cl_effects ce), ce_CompletionValue = ev_completionValue (cl_eval ce),
    ce_ErrorMessage = [], ce_At = xt_now x\<rparr>"
  define m where "m = \<lparr>cc_Session = sx_id s, cc_Branch = sx_branch s, cc_Cell = xt_cellID x, cc_At = xt_now x\<rparr>"
  define d where "d = \<lparr>hm_Session = sx_id s, hm_Branch = sx_branch s, hm_Previous = sx_head s, hm_Next = xt_cellID x, hm_At = xt_now x\<rparr>"
  define fail where "fail = (\<lambda>phase err st. case submitFailureResult ops fr x source (sx_head s) h phase (StoreErrorText err) ce st s of
    (e, st, s) \<Rightarrow> (Inl e :: SubmitError + SubmitResult, st, s))"
  have stop: "?P st gs" if "fail phase err st = (res, st', s')" and "sok st" and "r \<noteq> CommittedCell"
    and "submitted (sx_id s) log (sx_branch s) (sx_head s) (xt_cellID x) r (CellChecked k # fs @ gs)" for phase err st gs r
  proof -
    obtain e st2 s2 where q: "submitFailureResult ops fr x source (sx_head s) h phase (StoreErrorText err) ce st s = (e, st2, s2)"
      using prod_cases3 by blast
    then have e: "submitFailureResult ops fr x source (sx_head s) h phase (StoreErrorText err) ce st s = (e, st', s')"
      and "res = Inl e" using that(1) by (simp_all add: fail_def)
    then show ?thesis
      using submitFailureResult_grown [OF that(2) e that(4,3)] that(3) by (auto simp: submit_place_def)
  qed
  obtain a1 st1 where a1: "so_AppendFact ops (cl_store ce) (CellEvaluated v) = (a1, st1)" by fastforce
  obtain a2 st2 where a2: "so_AppendFact ops st1 (CellCommitted m) = (a2, st2)" by fastforce
  obtain a3 st3 where a3: "so_AppendFact ops st2 (HeadMoved d) = (a3, st3)" by fastforce
  have run': "(case a1 of Some err \<Rightarrow> fail ''append_cell_evaluated'' err st1 | None \<Rightarrow>
    (case a2 of Some err \<Rightarrow> fail ''append_cell_committed'' err st2 | None \<Rightarrow>
    (case a3 of Some err \<Rightarrow> fail ''append_head_moved'' err st3 | None \<Rightarrow>
       (case finishSubmit D x source language diagnostics warnings fr cfg h ce s of (r, s) \<Rightarrow> (r, st3, s))))) = (res, st', s')"
    using run a1 a2 a3 by (simp add: commitCell_def Let_def D v_def m_def d_def fail_def split: option.splits)
  note g1 = grown_append [OF ok a1] 
  have ok1: "sok st1" using g1 by (simp add: grown_def)
  note g2 = grown_append [OF ok1 a2]
  have ok2: "sok st2" using g2 by (simp add: grown_def)
  note g3 = grown_append [OF ok2 a3]
  have ok3: "sok st3" using g3 by (simp add: grown_def)
  have s1: "submitted (sx_id s) log (sx_branch s) (sx_head s) (xt_cellID x) NotCommittedCell (CellChecked k # fs @ [CellEvaluated v])"
    using submitted.evaluated [OF sub eff, of v] linked by (simp add: v_def)
  from submitted.committed [OF this eff, of m]
  have s2: "submitted (sx_id s) log (sx_branch s) (sx_head s) (xt_cellID x) HeadNotMoved
      (CellChecked k # fs @ [CellEvaluated v, CellCommitted m])" by (simp add: m_def)
  from submitted.moved [OF this eff, of d]
  have s3: "submitted (sx_id s) log (sx_branch s) (sx_head s) (xt_cellID x) CommittedCell
      (CellChecked k # fs @ [CellEvaluated v, CellCommitted m, HeadMoved d])" by (simp add: d_def)
  have "?P (cl_store ce) []"
  proof (cases a1)
    case (Some err)
    then show ?thesis using stop [of _ err st1 NotCommittedCell "[]"] run' ok1 sub g1 by (auto simp: grown_def)
  next
    case a1: None
    have "?P st1 [CellEvaluated v]"
    proof (cases a2)
      case (Some err)
      then show ?thesis using stop [of _ err st2 NotCommittedCell "[CellEvaluated v]"] run' a1 ok2 s1 g2 by (auto simp: grown_def)
    next
      case a2: None
      have "?P st2 [CellEvaluated v, CellCommitted m]"
      proof (cases a3)
        case (Some err)
        then show ?thesis
          using stop [of _ err st3 HeadNotMoved "[CellEvaluated v, CellCommitted m]"] run' a1 a2 ok3 s2 g3
          by (auto simp: grown_def)
      next
        case None
        then obtain f: "finishSubmit D x source language diagnostics warnings fr cfg h ce s = (res, s')" and "st' = st3"
          using run' a1 a2 by (auto split: prod.splits)
        then show ?thesis
          using finishSubmit_place [OF f] g3 s3 None
          by (intro exI [of _ "[HeadMoved d]"] exI [of _ CommittedCell]) (auto simp: submit_place_def recorded_def split: sum.splits)
      qed
      then show ?thesis using g2 a2 by (force simp: grown_def)
    qed
    then show ?thesis using g1 a1 by (force simp: grown_def)
  qed
  then show ?thesis by simp
qed

lemma evaluateAndCommit_grown:
  assumes ok: "sok st" and D: "dp_ops D = ops"
    and run: "evaluateAndCommit D x source src language diagnostics warnings (rt, cfg, h) st s = (res, st', s')"
    and sub: "submitted (sx_id s) log (sx_branch s) (sx_head s) (xt_cellID x) NotCommittedCell [CellChecked k]"
    and log: "slog st = log @ [CellChecked k]"
  shows "\<exists>gs r. grown slog scfg sok st gs st' \<and>
    submitted (sx_id s) log (sx_branch s) (sx_head s) (xt_cellID x) r (CellChecked k # gs) \<and>
    submit_place x r res s s' \<and> recorded res (slog st')"
proof -
  define ce where "ce = evalCell D (sx_id s) (xt_cellID x) (xt_host x) src rt st"
  define fr where "fr = (sx_runtimeMode s = RuntimeModeReplayPerSubmit)"
  define s1 where "s1 = (if fr then s else s\<lparr>sx_runtime := Some (cl_rt ce)\<rparr>)"
  note run1 = run [unfolded evaluateAndCommit_def Let_def prod.case, folded ce_def fr_def, folded s1_def]
  obtain fs where g: "grown slog scfg sok st fs (cl_store ce)" and eff: "list_all (effectFact (sx_id s)) fs"
    and linked: "list_all (\<lambda>e. find_map (startedOf (sx_id s) e) (slog st @ fs) \<noteq> None) (effectIDsFromSummaries (cl_effects ce))"
    using evalCell_grown [OF ok D ce_def] by blast
  have ok1: "sok (cl_store ce)" using g by (simp add: grown_def)
  have s1: "sx_id s1 = sx_id s" "sx_branch s1 = sx_branch s" "sx_head s1 = sx_head s" "same_place s s1"
    by (simp_all add: s1_def)
  have ran: "submitted (sx_id s1) log (sx_branch s1) (sx_head s1) (xt_cellID x) NotCommittedCell (CellChecked k # fs)"
    using submitted.ran [OF sub eff] s1 by simp
  have linked1: "list_all (\<lambda>e. find_map (startedOf (sx_id s1) e) (log @ CellChecked k # fs) \<noteq> None)
      (effectIDsFromSummaries (cl_effects ce))"
    using linked log s1 by simp
  have "\<exists>gs r. grown slog scfg sok (cl_store ce) gs st' \<and>
    submitted (sx_id s) log (sx_branch s) (sx_head s) (xt_cellID x) r (CellChecked k # fs @ gs) \<and>
    submit_place x r res s s' \<and> recorded res (slog st')"
  proof (cases "map_option translateWrappedCellLocations (combineSubmitErrors (cl_err ce) (cl_settleErr ce))")
    case None
    then have "commitCell D x source language diagnostics warnings fr cfg h ce s1 = (res, st', s')"
      using run1 by simp
    from commitCell_grown [OF ok1 D this ran eff [folded s1(1)] linked1] submit_place_from [OF s1(4)] s1
    show ?thesis by auto blast
  next
    case (Some terminalErr)
    define s2 where "s2 = (if fr then s1 else s1\<lparr>sx_runtimeDirty := True\<rparr>)"
    have s2: "sx_id s2 = sx_id s" "sx_branch s2 = sx_branch s" "sx_head s2 = sx_head s" "same_place s s2"
      using s1 by (simp_all add: s2_def)
    obtain phase e where f: "submitFailureResult ops fr x source (sx_head s) h phase terminalErr ce (cl_store ce) s2 = (e, st', s')"
      and "res = Inl e"
      using run1 [folded s2_def] Some s2(3) D by (auto split: prod.splits)
    moreover have "submitted (sx_id s2) log (sx_branch s2) (sx_head s) (xt_cellID x) NotCommittedCell (CellChecked k # fs)"
      using ran s1 s2 by simp
    ultimately show ?thesis
      using submitFailureResult_grown [OF ok1 f, of log "xt_cellID x" NotCommittedCell] s2 same_place_trans [OF s2(4)]
      by (fastforce simp: submit_place_def)
  qed
  then show ?thesis using grown_trans [OF g] by blast
qed

text \<open>Every submit appends the facts of one of the cases of \<open>submitted\<close>, whatever the store and the evaluation do.\<close>

lemma SubmitCell_grown:
  assumes ok: "sok st" and D: "dp_ops D = ops" and run: "SubmitCell D input x st s = Some (res, st', s')"
  shows "\<exists>fs r. grown slog scfg sok st fs st' \<and>
    submitted (sx_id s) (slog st) (sx_branch s) (sx_head s) (xt_cellID x) r fs \<and>
    submit_place x r res s s' \<and> recorded res (slog st')"
proof -
  let ?goal = "\<lambda>st1 log fs. \<exists>gs r. grown slog scfg sok st1 gs st' \<and>
    submitted (sx_id s) log (sx_branch s) (sx_head s) (xt_cellID x) r (fs @ gs) \<and>
    submit_place x r res s s' \<and> recorded res (slog st')"
  have stop: "?goal st1 log fs" if "submitted (sx_id s) log (sx_branch s) (sx_head s) (xt_cellID x) NotCommittedCell fs"
    "sok st1" "st' = st1 \<and> same_place s s' \<and> (\<exists>e. res = Inl e \<and> (\<forall>sf. e \<noteq> FailureError sf))" for st1 fs log
    using that by (intro exI [of _ "[]"] exI [of _ NotCommittedCell])
      (auto simp: grown_def submit_place_def recorded_def split: SubmitError.splits)
  note refuse = stop [OF submitted.refused, simplified append_Nil]
  show ?thesis
  proof (cases "ensureBranchHeadWritable ops ''submitting'' st s")
    case (Some e)
    then show ?thesis using run D by (intro refuse [OF ok]) (auto simp: SubmitCell_def)
  next
    case writable: None
    show ?thesis
    proof (cases "syncTypeScriptEnv D s")
      case (Inl e)
      then show ?thesis
        using run D writable by (intro refuse [OF ok]) (auto simp: SubmitCell_def Let_def)
    next
      case sync: (Inr ew)
      obtain env w s1 where ew: "ew = (env, w, s1)" by (cases ew) auto
      obtain cr s2 where check: "checkCell D env (languageOrDefault (in_Language input)) (in_Source input) s1 = (cr, s2)" by fastforce
      have p1: "same_place s s1" using syncTypeScriptEnv_place [of D s] sync ew by blast
      have p2: "same_place s s2" using checkCell_place [OF check] same_place_trans [OF p1] by blast
      show ?thesis
      proof (cases cr)
        case (Inl e)
        then show ?thesis
          using run D writable sync ew check p2 by (intro refuse [OF ok]) (auto simp: SubmitCell_def Let_def)
      next
        case (Inr dx)
        obtain diagnostics emittedJS hasErrors where dx: "dx = (diagnostics, emittedJS, hasErrors)" by (cases dx) auto
        define k where "k = \<lparr>ck_Session = sx_id s2, ck_Branch = sx_branch s2, ck_Cell = xt_cellID x, ck_Parent = sx_head s2,
          ck_Language = languageOrDefault (in_Language input), ck_Source = in_Source input, ck_Diagnostics = diagnostics,
          ck_EmittedJS = emittedJS, ck_TypeScriptEnvHash = sx_tsEnvHash s2, ck_TypeScriptEpochTS = sx_tsEpochTS s2,
          ck_HasErrors = hasErrors, ck_At = xt_now x\<rparr>"
        obtain a st1 where a: "so_AppendFact ops st (CellChecked k) = (a, st1)" by fastforce
        note g = grown_append [OF ok a]
        have place: "sx_id s2 = sx_id s" "sx_branch s2 = sx_branch s" "sx_head s2 = sx_head s"
          using p2 by (simp_all add: same_place_def)
        have ck: "submitted (sx_id s) (slog st) (sx_branch s) (sx_head s) (xt_cellID x) NotCommittedCell [CellChecked k]"
          using place by (intro submitted.checked) (simp_all add: k_def)
        note run1 = run [unfolded SubmitCell_def D Let_def writable option.case sync sum.case ew prod.case check Inr dx
          k_def [symmetric] a]
        show ?thesis
        proof (cases a)
          case (Some e)
          then have st1: "sok st1" "grown slog scfg sok st [] st1" using g by (simp_all add: grown_def)
          have "?goal st1 (slog st) []"
            unfolding append_Nil by (intro refuse [OF st1(1)]) (use run1 p2 Some in auto)
          then show ?thesis using grown_trans [OF st1(2)] by (metis append_Nil)
        next
          case None
          have "?goal st1 (slog st) [CellChecked k]"
          proof (cases hasErrors)
            case True
            then show ?thesis using g None by (intro stop [OF ck]) (use run1 p2 in \<open>auto simp: grown_def\<close>)
          next
            case False
            show ?thesis
            proof (cases "prepareSubmitRuntime D st1 s2")
              case None
              then show ?thesis using run1 \<open>a = None\<close> False by simp
            next
              case (Some pr)
              show ?thesis
              proof (cases pr)
                case (Inl e)
                then show ?thesis
                  using g None by (intro stop [OF ck]) (use run1 p2 False Some in \<open>auto simp: grown_def\<close>)
              next
                case (Inr q)
                obtain rt cfg h s3 where q: "q = ((rt, cfg, h), s3)" by (metis surj_pair)
                have p3: "same_place s s3"
                  using prepareSubmitRuntime_place [of D st1 s2] Some Inr q same_place_trans [OF p2] by blast
                then have place3: "sx_id s3 = sx_id s" "sx_branch s3 = sx_branch s" "sx_head s3 = sx_head s"
                  by (simp_all add: same_place_def)
                have ev: "evaluateAndCommit D x (in_Source input) (execSource (languageOrDefault (in_Language input)) (in_Source input) emittedJS)
                    (languageOrDefault (in_Language input)) diagnostics w (rt, cfg, h) st1 s3 = (res, st', s')"
                  using run1 None False Some Inr q by simp
                have "sok st1" "slog st1 = slog st @ [CellChecked k]" using g None by (simp_all add: grown_def)
                from evaluateAndCommit_grown [OF this(1) D ev _ this(2)] ck place3 submit_place_from [OF p3]
                show ?thesis by auto blast
              qed
            qed
          qed
          moreover have "grown slog scfg sok st [CellChecked k] st1" using g None by simp
          ultimately show ?thesis by (blast intro: grown_trans)
        qed
      qed
    qed
  qed
qed

lemma Restore_grown:
  assumes ok: "sok st" and D: "dp_ops D = ops" and run: "Restore D c now st s = Some (e, st', s')"
    and d: "durable (sx_id s) (slog st) (scfg st) cur" and len: "length (slog st) \<le> MaxInt"
  shows "if e = None
    then grown slog scfg sok st [RestoreCompleted \<lparr>rc_Session = sx_id s, rc_TargetCell = c, rc_NewBranch = [], rc_At = now\<rparr>] st' \<and>
      owner (lineage_of (sx_id s) (slog st)) c = Some (sx_branch s') \<and> sx_id s' = sx_id s \<and> sx_head s' = c \<and>
      sx_currentIndex s' = length (history (lineage_of (sx_id s) (slog st)) c)
    else s' = s \<and> grown slog scfg sok st [] st'"
proof (cases "so_LoadReplayPlan ops st (sx_id s) c")
  case None
  then show ?thesis using run by (simp add: Restore_def restoreLocked_def D)
next
  case (Some p)
  show ?thesis
  proof (cases p)
    case (Inl e)
    then show ?thesis using run Some ok by (auto simp: Restore_def restoreLocked_def D grown_def)
  next
    case (Inr plan)
    have plan: "owner (lineage_of (sx_id s) (slog st)) c = Some (pl_Branch plan)"
      "length (pl_Steps plan) = length (history (lineage_of (sx_id s) (slog st)) c)"
      using load_plan [OF ok _ len] d Some Inr by (auto simp: durable_def steps_of_def)
    let ?load = "loadBranchState D ''session: Restore: replay history: '' ''session: Restore: load static env: ''
             st (sx_id s) plan (pl_Branch plan) (pl_Branch plan) c"
    note run1 = run [unfolded Restore_def restoreLocked_def D Some Inr option.case sum.case]
    show ?thesis
    proof (cases ?load)
      case None
      then show ?thesis using run1 by simp
    next
      case load: (Some l)
      show ?thesis
      proof (cases l)
        case (Inl m)
        then show ?thesis using run1 load ok by (auto simp: grown_def)
      next
        case (Inr lb)
        obtain a st1 where a: "so_AppendFact ops st (RestoreCompleted
            \<lparr>rc_Session = sx_id s, rc_TargetCell = c, rc_NewBranch = [], rc_At = now\<rparr>) = (a, st1)" by fastforce
        then show ?thesis
          using run1 load Inr grown_append [OF ok a] loadBranchState_loaded [of D _ _ st "sx_id s" plan] plan
          by (auto simp: installLoadedBranchState_def resetTypeScriptSession_def split: option.splits)
      qed
    qed
  qed
qed

lemma Fork_grown:
  assumes ok: "sok st" and D: "dp_ops D = ops" and run: "Fork D c b now st s = Some (e, st', s')"
    and d: "durable (sx_id s) (slog st) (scfg st) cur" and len: "length (slog st) \<le> MaxInt"
  defines "bc \<equiv> BranchCreated \<lparr>bc_Session = sx_id s, bc_Branch = b, bc_ParentCell = c, bc_At = now\<rparr>"
    and "rc \<equiv> RestoreCompleted \<lparr>rc_Session = sx_id s, rc_TargetCell = c, rc_NewBranch = b, rc_At = now\<rparr>"
  shows "if e = None
    then grown slog scfg sok st [bc, rc] st' \<and> owner (lineage_of (sx_id s) (slog st)) c \<noteq> None \<and>
      sx_id s' = sx_id s \<and> sx_branch s' = b \<and> sx_head s' = c \<and>
      sx_currentIndex s' = length (history (lineage_of (sx_id s) (slog st)) c)
    else s' = s \<and> (grown slog scfg sok st [] st' \<or>
      grown slog scfg sok st [bc] st' \<and> owner (lineage_of (sx_id s) (slog st)) c \<noteq> None)"
proof (cases "so_LoadReplayPlan ops st (sx_id s) c")
  case None
  then show ?thesis using run by (simp add: Fork_def forkLocked_def D)
next
  case (Some p)
  show ?thesis
  proof (cases p)
    case (Inl e)
    then show ?thesis using run Some ok by (auto simp: Fork_def forkLocked_def D grown_def)
  next
    case (Inr plan)
    have plan: "owner (lineage_of (sx_id s) (slog st)) c = Some (pl_Branch plan)"
      "length (pl_Steps plan) = length (history (lineage_of (sx_id s) (slog st)) c)"
      using load_plan [OF ok _ len] d Some Inr by (auto simp: durable_def steps_of_def)
    let ?load = "loadBranchState D ''session: Fork: replay history: '' ''session: Fork: load static env: ''
             st (sx_id s) plan b (pl_Branch plan) c"
    note run1 = run [unfolded Fork_def forkLocked_def D Some Inr option.case sum.case, folded bc_def rc_def]
    show ?thesis
    proof (cases ?load)
      case None
      then show ?thesis using run1 by simp
    next
      case load: (Some l)
      show ?thesis
      proof (cases l)
        case (Inl m)
        then show ?thesis using run1 load ok by (auto simp: grown_def)
      next
        case (Inr lb)
        obtain a st1 where a: "so_AppendFact ops st bc = (a, st1)" by fastforce
        obtain a' st2 where a': "so_AppendFact ops st1 rc = (a', st2)" by fastforce
        note g = grown_append [OF ok a]
        then have "sok st1" by (simp add: grown_def)
        from grown_append [OF this a'] g show ?thesis
          using run1 load Inr a a' loadBranchState_loaded [of D _ _ st "sx_id s" plan] plan
          by (cases a; cases a'; simp add: grown_def)
            (auto simp: installLoadedBranchState_def resetTypeScriptSession_def)
      qed
    qed
  qed
qed

lemma TransitionToState_grown:
  assumes ok: "sok st" and D: "dp_ops D = ops" and run: "TransitionToState D to now st s = Some (e, st', s')"
  shows "same_place s s' \<and> sok st' \<and> (\<exists>h c. scfg st' \<in> {scfg st, (scfg st)(h \<mapsto> c)} \<and>
    slog st' \<in> {slog st, slog st @ [RuntimeTransitioned
      \<lparr>rt_Session = sx_id s, rt_Branch = sx_branch s, rt_AfterCell = sx_head s, rt_RuntimeHash = h, rt_At = now\<rparr>]} \<and>
    (slog st' \<noteq> slog st \<longrightarrow> e = None \<and> scfg st' = (scfg st)(h \<mapsto> c) \<and> sx_runtimeHash s' = h))"
proof -
  let ?Q = "\<lambda>e st' s'. same_place s s' \<and> sok st' \<and> (\<exists>h c. scfg st' \<in> {scfg st, (scfg st)(h \<mapsto> c)} \<and>
    slog st' \<in> {slog st, slog st @ [RuntimeTransitioned
      \<lparr>rt_Session = sx_id s, rt_Branch = sx_branch s, rt_AfterCell = sx_head s, rt_RuntimeHash = h, rt_At = now\<rparr>]} \<and>
    (slog st' \<noteq> slog st \<longrightarrow> e = None \<and> scfg st' = (scfg st)(h \<mapsto> c) \<and> sx_runtimeHash s' = h))"
  have keep: "?Q e st1 s1" if "same_place s s1" "sok st1" "slog st1 = slog st" "scfg st1 \<in> {scfg st, (scfg st)(h \<mapsto> c)}"
    for e :: "string option" and st1 s1 h c using that by auto
  show ?thesis
  proof (cases "ensureBranchHeadWritable ops ''transitioning runtime'' st s")
    case (Some m)
    then show ?thesis using keep [of s st] run ok by (auto simp: TransitionToState_def Let_def D)
  next
    case writable: None
    show ?thesis
    proof (cases "ensureCleanRuntime D st s")
      case None
      then show ?thesis using run writable by (simp add: TransitionToState_def Let_def D)
    next
      case clean: (Some cl)
      show ?thesis
      proof (cases cl)
        case (Inl m)
        then show ?thesis using keep [of s st] run ok writable clean by (auto simp: TransitionToState_def Let_def D)
      next
        case (Inr s1)
        have p1: "same_place s s1" using ensureCleanRuntime_place [of D st s s1] clean Inr by simp
        then have place: "sx_id s1 = sx_id s" "sx_branch s1 = sx_branch s" "sx_head s1 = sx_head s" by (simp_all add: same_place_def)
        note run1 = run [unfolded TransitionToState_def Let_def D writable clean Inr option.case sum.case place]
        show ?thesis
        proof (cases "resolveRuntimeDescriptor (dp_goja D) (dp_delegate D) (sx_id s) (sx_branch s) to")
          case (Inl m)
          then show ?thesis using keep [of s1 st] run1 p1 ok by auto
        next
          case res: (Inr sh)
          obtain c h where sh: "sh = (c, h)" by fastforce
          show ?thesis
          proof (cases "h = sx_runtimeHash s1")
            case True
            then show ?thesis using keep [of _ st] run1 res sh p1 ok by (auto simp: same_place_def)
          next
            case hash: False
            obtain a st1 where a: "so_PutRuntimeConfig ops st h c = (a, st1)" by fastforce
            have st1: "sok st1 \<and> slog st1 = slog st \<and> scfg st1 \<in> {scfg st, (scfg st)(h \<mapsto> c)} \<and>
                (a = None \<longrightarrow> scfg st1 = (scfg st)(h \<mapsto> c))"
              using put_ok [OF ok, of h c st1] put_err [OF ok, of h c _ st1] a by (cases a) auto
            note run2 = run1 [unfolded res sh sum.case prod.case a]
            show ?thesis
            proof (cases a)
              case (Some m)
              then show ?thesis using keep [of s1 st1 h c] run2 hash p1 st1 by auto
            next
              case None
              let ?f = "RuntimeTransitioned
                \<lparr>rt_Session = sx_id s, rt_Branch = sx_branch s, rt_AfterCell = sx_head s, rt_RuntimeHash = h, rt_At = now\<rparr>"
              obtain a' st2 where a': "so_AppendFact ops st1 ?f = (a', st2)" by fastforce
              have st2: "sok st2" "scfg st2 = (scfg st)(h \<mapsto> c)" "slog st2 = slog st @ (if a' = None then [?f] else [])"
                using append_cases [OF _ a'] st1 None by simp_all
              show ?thesis
              proof (cases a')
                case (Some m)
                then show ?thesis
                  using keep [of _ st1 h c] keep [of _ st2 h c] run2 \<open>a = None\<close> hash p1 st1 st2 a'
                  by (auto simp: place split: if_splits sum.splits)
              next
                case None
                then show ?thesis
                  using keep [of _ st1 h c] run2 \<open>a = None\<close> hash p1 st1 st2 a' place
                  by (auto simp: same_place_def split: if_splits sum.splits)
              qed
            qed
          qed
        qed
      qed
    qed
  qed
qed

end

end
