(* ===== verification/Session_Inv.thy ===== *)
theory Session_Inv
  imports Session_Props
begin

text \<open>
  The invariant of a running session: its log is well-formed and replayable,
  its branch and head are the durable cursor. It holds from a successful start
  on, through every operation with every outcome, through reopening and
  closing, and while other sessions write to the same store.
\<close>

definition session_inv ::
  "('s \<Rightarrow> Fact list) \<Rightarrow> ('s \<Rightarrow> string \<rightharpoonup> bytes) \<Rightarrow> ('s \<Rightarrow> bool) \<Rightarrow> 's \<Rightarrow> ('vm, 'v) session \<Rightarrow> bool" where
  "session_inv slog scfg sok st s \<longleftrightarrow>
     sok st \<and> durable (sx_id s) (slog st) (scfg st) (sx_branch s, sx_head s)"

text \<open>A session that has not been started: no fact of it is in the log.\<close>

definition unused :: "SessionID \<Rightarrow> Fact list \<Rightarrow> bool" where
  "unused sn log \<longleftrightarrow> list_all (foreign sn) log"

lemma unused_log: "unused sn log \<Longrightarrow>
    log_wf sn log \<and> plan_ready sn log cfg \<and> li_root (lineage_of sn log) = None \<and>
    (\<forall>b. own (lineage_of sn log) b = [] \<and> head_of sn log b = [])"
  unfolding unused_def
proof (induction log rule: rev_induct)
  case (snoc f log)
  then show ?case
    using foreign_frame [of sn f] plan_ready_snoc [of sn log cfg f] by (simp add: lineage_step_def)
qed (simp add: plan_ready_def own_def)

text \<open>
  One step of a session: an operation with fresh identifiers, closing, dropping
  the handle and opening the session again, or writes of other sessions.
\<close>

inductive session_step ::
  "('s, 'vm, 'v) SessionDeps \<Rightarrow> ('s \<Rightarrow> Fact list) \<Rightarrow> ('s \<Rightarrow> string \<rightharpoonup> bytes) \<Rightarrow> ('s \<Rightarrow> bool) \<Rightarrow>
   's \<times> ('vm, 'v) session \<Rightarrow> 's \<times> ('vm, 'v) session \<Rightarrow> bool"
  for D slog scfg sok where
  submit: "\<lbrakk>SubmitCell D input x st s = Some (r, st', s'); xt_cellID x \<noteq> [];
      owner (lineage_of (sx_id s) (slog st)) (xt_cellID x) = None\<rbrakk> \<Longrightarrow>
    session_step D slog scfg sok (st, s) (st', s')"
| restore: "Restore D c now st s = Some (e, st', s') \<Longrightarrow> length (slog st) \<le> MaxInt \<Longrightarrow>
    session_step D slog scfg sok (st, s) (st', s')"
| fork: "\<lbrakk>Fork D c b now st s = Some (e, st', s'); length (slog st) \<le> MaxInt; b \<noteq> [];
      \<not> known (lineage_of (sx_id s) (slog st)) b\<rbrakk> \<Longrightarrow>
    session_step D slog scfg sok (st, s) (st', s')"
| transition: "TransitionToState D to now st s = Some (e, st', s') \<Longrightarrow>
    session_step D slog scfg sok (st, s) (st', s')"
| close: "session_step D slog scfg sok (st, s) (st, Close s)"
| reopen: "OpenSession D (sx_id s) st = Some (Inr s') \<Longrightarrow> length (slog st) \<le> MaxInt \<Longrightarrow>
    session_step D slog scfg sok (st, s) (st, s')"
| others: "\<lbrakk>sok st'; slog st' = slog st @ fs; list_all (foreign (sx_id s)) fs; scfg st \<subseteq>\<^sub>m scfg st'\<rbrakk> \<Longrightarrow>
    session_step D slog scfg sok (st, s) (st', s)"

abbreviation session_steps where
  "session_steps D slog scfg sok \<equiv> (session_step D slog scfg sok)\<^sup>*\<^sup>*"

inductive_cases session_stepE [consumes 1, case_names submit restore fork transition close reopen others]:
  "session_step D slog scfg sok (st, s) (st', s')"

lemma plan_ready_mono:
  assumes "plan_ready sn log cfg" and "cfg \<subseteq>\<^sub>m cfg'"
  shows "plan_ready sn log cfg'"
proof -
  have "config_stored cfg' h" if "config_stored cfg h" for h
    using that assms(2) by (force simp: config_stored_def map_le_def dom_def)
  then have "fact_ready sn log cfg' f" if "fact_ready sn log cfg f" for f
    using that by (cases f) (auto simp: fact_ready_def)
  then show ?thesis using assms(1) by (simp add: plan_ready_iff list_all_iff)
qed

context fact_store
begin

lemma StartSession_grown:
  assumes ok: "sok st" and D: "dp_ops D = ops" and new: "unused sn (slog st)" and b: "b \<noteq> []"
    and run: "StartSession D m sn b now st = (Inr s, st')"
  shows "session_inv slog scfg sok st' s \<and> sx_id s = sn \<and> sx_branch s = b \<and> sx_head s = [] \<and>
    sx_currentIndex s = 0 \<and> heads_synced sn (slog st')"
proof -
  obtain rt cfg h where rt: "newBranchRuntime (dp_goja D) (dp_delegate D) sn b (dp_runtimeConfig D) ModeLive = Inr (rt, cfg, h)"
    using run by (auto simp: StartSession_def Let_def split: sum.splits)
  define x where "x = \<lparr>ss_Session = sn, ss_RootBranch = b, ss_At = now\<rparr>"
  define y where "y = \<lparr>ma_Session = sn, ma_ManifestID = mf_ID m, ma_Manifest = m, ma_At = now\<rparr>"
  define z where "z = \<lparr>ra_Session = sn, ra_RuntimeHash = h, ra_At = now\<rparr>"
  obtain st1 st2 st3 where a: "so_PutRuntimeConfig ops st h cfg = (None, st1)" "so_AppendFact ops st1 (SessionStarted x) = (None, st2)"
      "so_AppendFact ops st2 (ManifestAttached y) = (None, st3)" "so_AppendFact ops st3 (RuntimeAttached z) = (None, st')"
    and s: "s = newSession D sn b [] h cfg (Some rt)"
    using run rt by (auto simp: StartSession_def Let_def D x_def y_def z_def split: prod.splits option.splits)
  note l1 = put_ok [OF ok a(1)]
  note l2 = append_ok [OF l1 [THEN conjunct1] a(2)]
  note l3 = append_ok [OF l2 [THEN conjunct1] a(3)]
  note l4 = append_ok [OF l3 [THEN conjunct1] a(4)]
  note u = unused_log [OF new, of "(scfg st)(h \<mapsto> cfg)"]
  have "durable sn (slog st @ [SessionStarted x]) ((scfg st)(h \<mapsto> cfg)) (b, [])"
    using durable_start u b by (simp add: x_def)
  from durable_attach(2) [OF durable_attach(1) [OF this]]
  have "durable sn (slog st') (scfg st') (b, [])"
    using l1 l2 l3 l4 by (simp add: config_stored_def z_def)
  moreover have "own (lineage_of sn (slog st')) b' = []" "head_of sn (slog st') b' = []" for b'
    using u l1 l2 l3 l4 lineage_of_snoc [of sn "slog st @ [SessionStarted x, ManifestAttached y]" "RuntimeAttached z"]
      head_of_snoc [of sn "slog st @ [SessionStarted x, ManifestAttached y]" "RuntimeAttached z"]
      lineage_of_snoc [of sn "slog st @ [SessionStarted x]" "ManifestAttached y"]
      head_of_snoc [of sn "slog st @ [SessionStarted x]" "ManifestAttached y"]
    by (simp_all add: own_step)
  ultimately show ?thesis using l4 s by (simp add: session_inv_def newSession_def heads_synced_def Let_def)
qed

lemma OpenSession_place:
  assumes ok: "sok st" and D: "dp_ops D = ops" and d: "durable sn (slog st) (scfg st) (b, c)" and len: "length (slog st) \<le> MaxInt"
    and run: "OpenSession D sn st = Some (Inr s)"
  shows "sx_id s = sn \<and> sx_branch s = b \<and> sx_head s = c \<and>
    sx_currentIndex s = length (history (lineage_of sn (slog st)) c)"
proof -
  obtain state where ld: "so_LoadSessionState ops st sn = Some (Inr state)" and os: "openSessionState D st state = Some (Inr s)"
    using run by (auto simp: OpenSession_def D split: option.splits sum.splits)
  have state: "sst_Session state = sn" "sst_Branch state = b" "sst_Head state = c"
    using load_state [OF ok _ len _ ld] d by (auto simp: durable_def)
  show ?thesis
  proof (cases "c = []")
    case True
    then show ?thesis
      using os state d history_Nil [of sn "slog st"]
      by (auto simp: openSessionState_def Let_def installLoadedBranchState_def resetTypeScriptSession_def loadedState_def
            newSession_def durable_def split: sum.splits prod.splits)
  next
    case False
    then obtain plan lb where plan: "so_LoadReplayPlan ops st sn c = Some (Inr plan)"
      and lb: "loadBranchState D ''session: OpenSession: replay history: '' ''session: OpenSession: load static env: '' st sn plan b b c =
        Some (Inr lb)"
      and s: "s = installLoadedBranchState lb (newSession D sn b c (sst_RuntimeHash state) (sst_RuntimeConfig state) None)"
      using os state by (auto simp: openSessionState_def Let_def D split: option.splits sum.splits)
    have "length (pl_Steps plan) = length (history (lineage_of sn (slog st)) c)"
      using load_plan [OF ok _ len _ plan] d by (simp add: durable_def steps_of_def)
    then show ?thesis
      using s loadBranchState_loaded [OF lb] by (simp add: installLoadedBranchState_def resetTypeScriptSession_def newSession_def)
  qed
qed

lemma writable_head:
  assumes ok: "sok st" and d: "durable (sx_id s) (slog st) cfg (sx_branch s, sx_head s)"
    and w: "ensureBranchHeadWritable ops a st s = None"
  shows "head_of (sx_id s) (slog st) (sx_branch s) \<in> {[], sx_head s}"
proof -
  have kn: "known (lineage_of (sx_id s) (slog st)) (sx_branch s)" using durable_cursor_ok [OF d] by (simp add: cursor_ok_def)
  obtain r where "so_LoadHead ops st (sx_id s) (sx_branch s) = Inr r"
    using w by (auto simp: ensureBranchHeadWritable_def split: sum.splits)
  then show ?thesis
    using load_head [OF ok _ kn, of r] d w by (auto simp: ensureBranchHeadWritable_def durable_def split: if_splits)
qed

text \<open>The invariant is kept by every step.\<close>

lemma session_step_inv:
  assumes D: "dp_ops D = ops" and step: "session_step D slog scfg sok (st, s) (st', s')"
    and inv: "session_inv slog scfg sok st s"
  shows "session_inv slog scfg sok st' s' \<and> sx_id s' = sx_id s"
proof -
  have ok: "sok st" and d: "durable (sx_id s) (slog st) (scfg st) (sx_branch s, sx_head s)"
    using inv by (simp_all add: session_inv_def)
  from step show ?thesis
  proof (cases rule: session_stepE)
    case (submit input x r)
    from SubmitCell_grown [OF ok D submit(1)] obtain fs q where
      g: "grown slog scfg sok st fs st'" and sub: "submitted (sx_id s) (slog st) (sx_branch s) (sx_head s) (xt_cellID x) q fs"
      and p: "submit_place x q r s s'" by blast
    then show ?thesis
      using submitted_durable [OF sub d submit(3,2)]
      by (auto simp: grown_def session_inv_def submit_place_def same_place_def split: if_splits)
  next
    case (restore c now e)
    from Restore_grown [OF ok D restore(1) d restore(2)] show ?thesis
      using d durable_restore [OF d, of c "sx_branch s'"] by (auto simp: grown_def session_inv_def split: if_splits)
  next
    case (fork c b now e)
    from Fork_grown [OF ok D fork(1) d fork(2)] show ?thesis
      using d durable_branch [OF d, of c _ b] durable_fork [OF d, of c _ _ b] fork(3,4)
      by (auto simp: grown_def session_inv_def split: if_splits)
  next
    case (transition to now e)
    from TransitionToState_grown [OF ok D transition] obtain h c where t: "same_place s s'" "sok st'"
      "scfg st' \<in> {scfg st, (scfg st)(h \<mapsto> c)}" "slog st' = slog st \<or> slog st' = slog st @ [RuntimeTransitioned
        \<lparr>rt_Session = sx_id s, rt_Branch = sx_branch s, rt_AfterCell = sx_head s, rt_RuntimeHash = h, rt_At = now\<rparr>] \<and>
        scfg st' = (scfg st)(h \<mapsto> c)" by auto
    have "durable (sx_id s) (slog st) (scfg st') (sx_branch s, sx_head s)" using t(3) d durable_put [OF d] by auto
    then have "durable (sx_id s) (slog st') (scfg st') (sx_branch s, sx_head s)"
      using t(4) durable_transition by (auto simp: config_stored_def)
    then show ?thesis using t(1,2) by (simp add: session_inv_def same_place_def)
  next
    case close
    then show ?thesis using inv by (simp add: session_inv_def Close_def resetTypeScriptSession_def)
  next
    case reopen
    then show ?thesis using OpenSession_place [OF ok D d reopen(3,2)] inv by (simp add: session_inv_def)
  next
    case (others fs)
    then have "durable (sx_id s) (slog st') (scfg st) (sx_branch s, sx_head s)" using durable_foreign [OF d] by auto
    then show ?thesis using others plan_ready_mono by (auto simp: session_inv_def durable_def)
  qed
qed

lemma session_steps_inv:
  assumes D: "dp_ops D = ops" and "session_steps D slog scfg sok (st, s) (st', s')" and "session_inv slog scfg sok st s"
  shows "session_inv slog scfg sok st' s' \<and> sx_id s' = sx_id s"
  using assms(2,3)
proof (induction rule: rtranclp_induct2)
  case (step st1 s1 st2 s2)
  then show ?case using session_step_inv [OF D] by metis
qed simp

text \<open>A submit that succeeds: the facts it appends and what becomes of the history.\<close>

lemma SubmitCell_committed:
  assumes D: "dp_ops D = ops" and inv: "session_inv slog scfg sok st s" and sync: "heads_synced (sx_id s) (slog st)"
    and run: "SubmitCell D input x st s = Some (Inr out, st', s')"
    and new: "xt_cellID x \<noteq> []" "owner (lineage_of (sx_id s) (slog st)) (xt_cellID x) = None"
  shows "\<exists>fs. slog st' = slog st @ fs \<and> scfg st' = scfg st \<and>
      submitted (sx_id s) (slog st) (sx_branch s) (sx_head s) (xt_cellID x) CommittedCell fs"
    and "submit_place x CommittedCell (Inr out) s s'"
    and "session_inv slog scfg sok st' s'" and "heads_synced (sx_id s) (slog st')"
    and "history (lineage_of (sx_id s) (slog st')) (xt_cellID x) =
      history (lineage_of (sx_id s) (slog st)) (sx_head s) @ [(xt_cellID x, sx_branch s)]"
proof -
  have ok: "sok st" and d: "durable (sx_id s) (slog st) (scfg st) (sx_branch s, sx_head s)"
    using inv by (simp_all add: session_inv_def)
  have "ensureBranchHeadWritable ops ''submitting'' st s = None"
    using run D by (auto simp: SubmitCell_def split: option.splits)
  note w = writable_head [OF ok d this]
  from SubmitCell_grown [OF ok D run] obtain fs where fs: "slog st' = slog st @ fs" "scfg st' = scfg st"
    and sub: "submitted (sx_id s) (slog st) (sx_branch s) (sx_head s) (xt_cellID x) CommittedCell fs"
    and place: "submit_place x CommittedCell (Inr out) s s'"
    by (fastforce simp: submit_place_def grown_def split: if_splits)
  note h = submitted_history [OF d sync w new sub]
  show "\<exists>fs. slog st' = slog st @ fs \<and> scfg st' = scfg st \<and>
      submitted (sx_id s) (slog st) (sx_branch s) (sx_head s) (xt_cellID x) CommittedCell fs" using fs sub by blast
  show "submit_place x CommittedCell (Inr out) s s'" by (rule place)
  show "session_inv slog scfg sok st' s'"
    using session_step_inv [OF D session_step.submit [OF run new(1), where slog = slog] inv] new(2) by simp
  show "heads_synced (sx_id s) (slog st')" "history (lineage_of (sx_id s) (slog st')) (xt_cellID x) =
      history (lineage_of (sx_id s) (slog st)) (sx_head s) @ [(xt_cellID x, sx_branch s)]"
    using h(2,3) fs by simp_all
qed

end

context working_store
begin

text \<open>Rebuilding the runtime of a session returns.\<close>

lemma runtimeAtHead_returns:
  assumes D: "dp_ops D = ops" and ok: "sok st" and d: "durable (sx_id s) (slog st) (scfg st) (b, sx_head s)"
    and len: "length (slog st) \<le> MaxInt"
  shows "runtimeAtHead D p1 p2 p3 st s \<noteq> None"
proof (cases "sx_head s = []")
  case False
  then have "owner (lineage_of (sx_id s) (slog st)) (sx_head s) \<noteq> None"
    using durable_cursor_ok [OF d] by (auto simp: cursor_ok_def)
  then obtain p where "so_LoadReplayPlan ops st (sx_id s) (sx_head s) = Some (Inr p)"
    using plan_total [OF ok _ len, of "sx_id s" "sx_head s"] d by (auto simp: durable_def)
  then show ?thesis by (simp add: runtimeAtHead_def D)
qed (simp add: runtimeAtHead_def)

lemma ensureCleanRuntime_returns:
  assumes "dp_ops D = ops" and "sok st" and "durable (sx_id s) (slog st) (scfg st) (b, sx_head s)" and "length (slog st) \<le> MaxInt"
  shows "ensureCleanRuntime D st s \<noteq> None"
  using runtimeAtHead_returns [OF assms]
  by (auto simp: ensureCleanRuntime_def rebuildRuntimeFromCommitted_def cbind_None_iff simp del: not_None_eq split: option.splits sum.splits)

lemma prepareSubmitRuntime_returns:
  assumes "dp_ops D = ops" and "sok st" and "durable (sx_id s) (slog st) (scfg st) (b, sx_head s)" and "length (slog st) \<le> MaxInt"
  shows "prepareSubmitRuntime D st s \<noteq> None"
  using runtimeAtHead_returns [OF assms] ensureCleanRuntime_returns [OF assms]
  by (auto simp: prepareSubmitRuntime_def cbind_None_iff simp del: not_None_eq)

end

end
