(* ===== verification/Rebuild.thy ===== *)
theory Rebuild
  imports Session_Inv
begin

text \<open>
  Rebuilding a session's runtime from its store. A session that is its own
  rebuild stays so through every successful submit whose run can be replayed:
  the runtime built by replaying the journal, values and global state included,
  is the runtime the live evaluation left. The theory is about the in-memory
  store and sessions without runtime transitions.
\<close>

subsection \<open>Replaying one more step\<close>

lemma replayStep_cong:
  assumes "\<And>e. e \<in> set (st_Effects step) \<Longrightarrow> pl_Decisions p e = pl_Decisions p' e"
    and "pl_RuntimeTransitions p = pl_RuntimeTransitions p'"
  shows "replayStep G dl sn b p i step q = replayStep G dl sn b p' i step q"
proof -
  have "newReplayStepState (st_Effects step) (pl_Decisions p) = newReplayStepState (st_Effects step) (pl_Decisions p')"
    unfolding newReplayStepState_def
    by (intro arg_cong2 [of _ _ _ _ rbind] rmap_cong) (use assms(1) in auto)
  moreover have "transitionsAfter p c = transitionsAfter p' c" for c using assms(2) by (simp add: transitionsAfter_def)
  ultimately show ?thesis by (simp only: replayStep_def)
qed

lemma replaySteps_cong:
  assumes "\<And>step e. step \<in> set steps \<Longrightarrow> e \<in> set (st_Effects step) \<Longrightarrow> pl_Decisions p e = pl_Decisions p' e"
    and "pl_RuntimeTransitions p = pl_RuntimeTransitions p'"
  shows "replaySteps G dl sn b p i steps q = replaySteps G dl sn b p' i steps q"
  using assms(1)
proof (induction steps arbitrary: i q)
  case (Cons step steps)
  have "replayStep G dl sn b p i step q = replayStep G dl sn b p' i step q"
    by (intro replayStep_cong [OF _ assms(2)] Cons.prems [of step]) simp_all
  moreover have "replaySteps G dl sn b p (i + 1) steps = replaySteps G dl sn b p' (i + 1) steps"
    by (intro ext Cons.IH Cons.prems) auto
  ultimately show ?case by simp
qed simp

lemma replaySteps_snoc:
  "replaySteps G dl sn b p i (steps @ [step]) q =
     rbind (replaySteps G dl sn b p i steps q) (replayStep G dl sn b p (i + length steps) step)"
proof (induction steps arbitrary: i q)
  case Nil
  then show ?case by (cases "replayStep G dl sn b p i step q") simp_all
next
  case (Cons x steps)
  then show ?case by (cases "replayStep G dl sn b p i x q") simp_all
qed

lemma setIndexedResult_mode:
  "setIndexedResult G n ev (rt\<lparr>br_mode := m\<rparr>) =
     (case setIndexedResult G n ev rt of Inl e \<Rightarrow> Inl e | Inr rt \<Rightarrow> Inr (rt\<lparr>br_mode := m\<rparr>))"
  by (cases "gj_setLast G (br_vm rt) (if ev_hasIndexedValue ev then ev_indexedValue ev else gj_undefined G)")
    (auto simp: setIndexedResult_def Let_def)

subsection \<open>Decisions of settled effects\<close>

text \<open>Every effect of the history has its start and its result in the journal.\<close>

definition settled :: "SessionID \<Rightarrow> Fact list \<Rightarrow> EffectID list \<Rightarrow> bool" where
  "settled sn log es \<longleftrightarrow>
     list_all (\<lambda>e. find_map (startedOf sn e) log \<noteq> None \<and> find_map (resultOf sn e) log \<noteq> None) es"

lemma settled_extend: "settled sn log es \<Longrightarrow> settled sn (log @ fs) es"
  by (auto simp: settled_def list_all_iff find_map_append split: option.splits)

lemma decision_of_extend:
  assumes "settled sn log es" and "e \<in> set es"
  shows "decision_of sn (log @ fs) e = decision_of sn log e"
proof -
  obtain pol raw where s: "find_map (startedOf sn e) log = Some pol" "find_map (resultOf sn e) log = Some raw"
    using assms by (auto simp: settled_def list_all_iff)
  then obtain r where "find_map (completedOf sn e) (enumerate 0 log) = Some r"
    using completedOf_result [of sn e 0 log] by auto
  then show ?thesis using s by (simp add: decision_of_def find_map_append enumerate_append_eq)
qed

context working_store
begin

lemma record_settled:
  assumes ok: "sok s" and inj: "inj (hv_uuid H)" and fresh: "fresh_from sn H (slog s) newAccumulator u"
    and rep: "replayable ops sn cell H t False (newCellRun s u)"
    and live: "liveCell ops sn cell H t (newCellRun s u) = (vm, c')"
  shows "settled sn (slog (cr_store c')) (ac_order (cr_acc c'))"
proof -
  let ?tr = "trace ops sn cell H t (newCellRun s u)"
  have "journalled sn H [] ?tr (slog s) [] (slog (cr_store c')) (ac_order (cr_acc c'))"
    using live_journal [of "newCellRun s u" H sn cell t False] ok inj fresh rep live
    by (simp add: newCellRun_def newAccumulator_def)
  then have "ac_order (cr_acc c') = map fst ?tr"
    and "\<And>e pol raw. (e, pol, raw) \<in> set ?tr \<Longrightarrow>
      find_map (startedOf sn e) (slog (cr_store c')) = Some pol \<and> find_map (resultOf sn e) (slog (cr_store c')) = Some raw"
    by (auto simp: journalled_def)
  then show ?thesis by (fastforce simp: settled_def list_all_iff)
qed

lemma evalCell_settled:
  assumes ok: "sok st" and D: "dp_ops D = ops" and inj: "inj (hv_uuid H)"
    and fresh: "fresh_from sn H (slog st) newAccumulator 0"
    and run: "gj_run (dp_goja D) (br_vm rt) (valueTable rt) src = Inr t"
    and rep: "replayable ops sn cell H t False (newCellRun st 0)"
    and ce: "ce = evalCell D sn cell H src rt st"
  shows "settled sn (slog (cl_store ce)) (effectIDsFromSummaries (cl_effects ce))"
proof -
  obtain vm c where live: "liveCell ops sn cell H t (newCellRun st 0) = (vm, c)" by fastforce
  have "acc_ok (cr_acc c)"
    using live_inv [OF _ live, of st] ok by (simp add: run_inv_def newCellRun_def) (simp add: newAccumulator_def)
  moreover have "cl_store ce = cr_store c" "cl_effects ce = fst (drain (cr_acc c))"
    using live by (simp_all add: ce evalCell_def run D Let_def case_prod_unfold)
  ultimately show ?thesis using record_settled [OF ok inj fresh rep live] by (simp add: drain_effects)
qed

text \<open>A live evaluation that is replayed as a step from the same runtime.\<close>

lemma evalCell_replayed:
  assumes ok: "sok st" and D: "dp_ops D = ops" and inj: "inj (hv_uuid H)"
    and fresh: "fresh_from sn H (slog st) newAccumulator 0"
    and run: "gj_run (dp_goja D) (br_vm rt) (valueTable rt) src = Inr t"
    and rep: "replayable ops sn cell H t False (newCellRun st 0)"
    and ce: "ce = evalCell D sn cell H src rt st" and good: "cl_err ce = None"
    and idx: "setIndexedResult (dp_goja D) (Suc i) (cl_eval ce) (cl_rt ce) = Inr rt'"
    and step: "replaySourceForStep step = src" "st_Effects step = effectIDsFromSummaries (cl_effects ce)"
    and dec: "\<And>e. e \<in> set (st_Effects step) \<Longrightarrow> pl_Decisions p e = decision_of sn (slog (cl_store ce) @ fs) e"
    and none: "pl_RuntimeTransitions p = []" and q: "rq_rt q = rt\<lparr>br_mode := m\<rparr>"
  shows "replayStep (dp_goja D) dl sn b p i step q = Inr (q\<lparr>rq_rt := rt'\<lparr>br_mode := m\<rparr>\<rparr>)"
proof -
  obtain vm c where live: "liveCell ops sn cell H t (newCellRun st 0) = (vm, c)" by fastforce
  have inv: "run_inv slog scfg sok sn st c"
    using live_inv [OF _ live, of st] ok by (simp add: run_inv_def newCellRun_def) (simp add: newAccumulator_def)
  have cl: "cl_store ce = cr_store c" "cl_effects ce = fst (drain (cr_acc c))" "cl_rt ce = rt\<lparr>br_vm := vm\<rparr>"
    using live by (simp_all add: ce evalCell_def run D Let_def case_prod_unfold)
  obtain ev where ev: "cr_outcome c = Some (Inr ev)" "cl_eval ce = ev"
    using good live by (auto simp: ce evalCell_def run D Let_def case_prod_unfold split: option.splits sum.splits)
  have effs: "st_Effects step = ac_order (cr_acc c)"
    using inv step(2) cl(2) by (simp add: run_inv_def drain_effects)
  have "newReplayStepState (st_Effects step) (pl_Decisions p) =
      newReplayStepState (st_Effects step) (decision_of sn (slog (cr_store c) @ fs))"
    unfolding newReplayStepState_def
    by (intro arg_cong2 [of _ _ _ _ rbind] rmap_cong) (use dec cl in auto)
  moreover obtain step0 r where "newReplayStepState (ac_order (cr_acc c)) (decision_of sn (slog (cr_store c) @ fs)) = Inr step0"
    "replayCell (gj_clock (dp_goja D)) (gj_late (dp_goja D)) t (newReplayRun step0) = (vm, r)"
    "rr_outcome r = cr_outcome c" "ensureConsumed (rr_step r) = None"
    using record_replay [OF ok inj fresh rep live, where fs = fs] by blast
  moreover have "setIndexedResult (dp_goja D) (Suc i) ev (rt\<lparr>br_mode := m, br_vm := vm\<rparr>) = Inr (rt'\<lparr>br_mode := m\<rparr>)"
  proof -
    have "setIndexedResult (dp_goja D) (Suc i) ev (rt\<lparr>br_vm := vm\<rparr>\<lparr>br_mode := m\<rparr>) = Inr (rt'\<lparr>br_mode := m\<rparr>)"
      unfolding setIndexedResult_mode using idx ev cl by simp
    then show ?thesis by (cases rt) simp
  qed
  ultimately show "replayStep (dp_goja D) dl sn b p i step q = Inr (q\<lparr>rq_rt := rt'\<lparr>br_mode := m\<rparr>\<rparr>)"
    using effs ev cl step(1) none q run
    by (simp add: replayStep_def Let_def replayRunContext_def transitionsAfter_def)
qed

end

subsection \<open>The committed runtime\<close>

text \<open>The log has no runtime transition of the session.\<close>

definition quiet :: "SessionID \<Rightarrow> Fact list \<Rightarrow> bool" where
  "quiet sn log \<longleftrightarrow> transitions_of sn log = []"

text \<open>The runtime a replay of the history of \<open>c\<close> builds for branch \<open>b\<close>.\<close>

definition committed_runtime ::
  "('vm, 'v) Goja \<Rightarrow> 'vm Delegate option \<Rightarrow> SessionID \<Rightarrow> BranchID \<Rightarrow> Fact list \<Rightarrow> (string \<rightharpoonup> bytes) \<Rightarrow> CellID \<Rightarrow>
   string + ('vm, 'v) branchRuntime \<times> bytes \<times> string" where
  "committed_runtime G dl sn b log cfg c = replayPlanIntoRuntime G dl sn b (plan_of sn log cfg c b)"

definition history_effects :: "SessionID \<Rightarrow> Fact list \<Rightarrow> CellID \<Rightarrow> EffectID list" where
  "history_effects sn log c = concat (map st_Effects (steps_of sn log c))"

lemma history_effects_linked: "set (history_effects sn log c) = linked_effects (steps_of sn log c)"
  by (simp add: history_effects_def linked_effects_def)

lemma plan_of_sel [simp]:
  "pl_Steps (plan_of sn log cfg c b) = steps_of sn log c"
  "pl_RuntimeConfig (plan_of sn log cfg c b) = config_of cfg (attached_hash sn log)"
  "quiet sn log \<Longrightarrow> pl_RuntimeTransitions (plan_of sn log cfg c b) = []"
  "e \<in> linked_effects (steps_of sn log c) \<Longrightarrow> pl_Decisions (plan_of sn log cfg c b) e = decision_of sn log e"
  by (simp_all add: plan_of_def Let_def quiet_def)

lemma committed_runtime_quiet:
  assumes "quiet sn log"
  shows "committed_runtime G dl sn b log cfg c =
    rbind (newBranchRuntime G dl sn b (config_of cfg (attached_hash sn log)) ModeReplay) (\<lambda>(rt, cf, h).
    rbind (replaySteps G dl sn b (plan_of sn log cfg c b) 0 (steps_of sn log c) \<lparr>rq_rt = rt, rq_config = cf, rq_hash = h\<rparr>)
      (\<lambda>q. Inr ((rq_rt q)\<lparr>br_mode := ModeLive\<rparr>, rq_config q, rq_hash q)))"
  using assms by (simp add: committed_runtime_def replayPlanIntoRuntime_def replayPlanPrefixIntoRuntime_def transitionsAfter_def
      cong: rbind_cong)

lemma replayPlan_branch:
  assumes "quiet sn log"
  shows "replayPlanIntoRuntime G dl sn b (plan_of sn log cfg c b') = committed_runtime G dl sn b log cfg c"
proof -
  have "replaySteps G dl sn b (plan_of sn log cfg c b') 0 (steps_of sn log c) =
      replaySteps G dl sn b (plan_of sn log cfg c b) 0 (steps_of sn log c)"
    using assms by (intro ext replaySteps_cong) (simp_all add: plan_of_def Let_def quiet_def)
  then show ?thesis
    using assms
    by (simp add: committed_runtime_def replayPlanIntoRuntime_def replayPlanPrefixIntoRuntime_def transitionsAfter_def
      cong: rbind_cong)
qed

lemma rbind_assoc: "rbind (rbind m f) g = rbind m (\<lambda>x. rbind (f x) g)"
  by (cases m) simp_all

lemma newBranchRuntime_mode:
  "newBranchRuntime G dl sn b cfg m =
     rbind (newBranchRuntime G dl sn b cfg m') (\<lambda>(rt, r). Inr (rt\<lparr>br_mode := m\<rparr>, r))"
  by (auto simp: newBranchRuntime_def rbind_assoc Let_def case_prod_unfold intro!: rbind_cong)

lemma quiet_appendD: "quiet sn (log @ fs) \<Longrightarrow> quiet sn log"
  by (simp add: quiet_def transitions_of_def enumerate_append_eq collect_append)

lemma steps_of_old:
  assumes "log_wf sn (log @ fs)" and "h = [] \<or> owner (lineage_of sn log) h \<noteq> None"
  shows "steps_of sn (log @ fs) h = steps_of sn log h"
  using assms(2) steps_of_extend [OF assms(1), of h] history_Nil [OF assms(1)] history_Nil [OF log_wf_appendD [OF assms(1)]]
  by (auto simp: steps_of_def)

lemma replaySteps_old:
  assumes q: "quiet sn (log @ fs)" and set: "settled sn log (history_effects sn log h)"
    and steps: "steps_of sn (log @ fs) c = steps_of sn log h @ steps"
  shows "replaySteps G dl sn b (plan_of sn (log @ fs) cfg c b) i (steps_of sn log h) =
    replaySteps G dl sn b (plan_of sn log cfg h b) i (steps_of sn log h)"
proof (intro ext replaySteps_cong)
  fix step e assume e: "step \<in> set (steps_of sn log h)" "e \<in> set (st_Effects step)"
  then have "e \<in> set (history_effects sn log h)" by (auto simp: history_effects_def)
  moreover have "e \<in> linked_effects (steps_of sn log h)" "e \<in> linked_effects (steps_of sn (log @ fs) c)"
    using e by (auto simp: linked_effects_def steps)
  ultimately show "pl_Decisions (plan_of sn (log @ fs) cfg c b) e = pl_Decisions (plan_of sn log cfg h b) e"
    using decision_of_extend [OF set] by simp
qed (use q quiet_appendD [OF q] in simp)

text \<open>Later facts do not change the committed runtime of a cell.\<close>

lemma committed_extend:
  assumes wf: "log_wf sn (log @ fs)" and q: "quiet sn (log @ fs)"
    and att: "attached_hash sn (log @ fs) = attached_hash sn log"
    and set: "settled sn log (history_effects sn log h)" and h: "h = [] \<or> owner (lineage_of sn log) h \<noteq> None"
  shows "committed_runtime G dl sn b (log @ fs) cfg h = committed_runtime G dl sn b log cfg h"
  using steps_of_old [OF wf h]
  by (simp add: committed_runtime_quiet q quiet_appendD [OF q] att replaySteps_old [OF q set, of h "[]"])

text \<open>One more cell on the history.\<close>

lemma committed_snoc:
  assumes wf: "log_wf sn (log @ fs)" and q: "quiet sn (log @ fs)"
    and att: "attached_hash sn (log @ fs) = attached_hash sn log"
    and set: "settled sn log (history_effects sn log h)" and h: "h = [] \<or> owner (lineage_of sn log) h \<noteq> None"
    and hist: "history (lineage_of sn (log @ fs)) c = history (lineage_of sn log) h @ [(c, b')]"
    and stable: "history (lineage_of sn (log @ fs)) h = history (lineage_of sn log) h"
    and old: "committed_runtime G dl sn b log cfg h = Inr (rt, cf, hash)"
    and step: "\<And>p q m. pl_RuntimeTransitions p = [] \<Longrightarrow>
      (\<And>e. e \<in> set (st_Effects (step_of sn (log @ fs) (c, b'))) \<Longrightarrow> pl_Decisions p e = decision_of sn (log @ fs) e) \<Longrightarrow>
      rq_rt q = rt\<lparr>br_mode := m\<rparr> \<Longrightarrow>
      replayStep G dl sn b p (length (history (lineage_of sn log) h)) (step_of sn (log @ fs) (c, b')) q =
        Inr (q\<lparr>rq_rt := rt'\<lparr>br_mode := m\<rparr>\<rparr>)"
    and live: "br_mode rt' = ModeLive"
  shows "committed_runtime G dl sn b (log @ fs) cfg c = Inr (rt', cf, hash)"
proof -
  let ?p = "plan_of sn (log @ fs) cfg c b" and ?s = "step_of sn (log @ fs) (c, b')"
  have steps: "steps_of sn (log @ fs) c = steps_of sn log h @ [?s]"
    using steps_of_old [OF wf h] by (simp add: steps_of_def hist stable)
  obtain rt0 cf0 h0 q0 where new: "newBranchRuntime G dl sn b (config_of cfg (attached_hash sn log)) ModeReplay = Inr (rt0, cf0, h0)"
    and run: "replaySteps G dl sn b (plan_of sn log cfg h b) 0 (steps_of sn log h) \<lparr>rq_rt = rt0, rq_config = cf0, rq_hash = h0\<rparr> = Inr q0"
    and rt: "rt = (rq_rt q0)\<lparr>br_mode := ModeLive\<rparr>" "cf = rq_config q0" "hash = rq_hash q0"
    using old by (auto simp: committed_runtime_quiet quiet_appendD [OF q])
  have "rq_rt q0 = rt\<lparr>br_mode := br_mode (rq_rt q0)\<rparr>" using rt(1) by simp
  then have "replayStep G dl sn b ?p (length (steps_of sn log h)) ?s q0 = Inr (q0\<lparr>rq_rt := rt'\<lparr>br_mode := br_mode (rq_rt q0)\<rparr>\<rparr>)"
    using step [of ?p q0] steps q by (simp add: steps_of_def linked_effects_def)
  moreover have "rt'\<lparr>br_mode := ModeLive\<rparr> = rt'" using live by simp
  ultimately show ?thesis
    using new run rt by (simp add: committed_runtime_quiet q att steps replaySteps_snoc replaySteps_old [OF q set steps])
qed

end
