(* ===== verification/Resume.thy ===== *)
theory Resume
  imports Rebuild
begin

text \<open>
  Sessions that can be resumed: their runtime is the one a rebuild from the
  store gives. Starting, opening, restoring and forking produce such sessions,
  and successful submits of cells whose run can be replayed keep them such.
\<close>

subsection \<open>A successful submit in detail\<close>

definition core :: "('vm, 'v) session \<Rightarrow> ('vm, 'v) session" where
  "core s = s\<lparr>sx_tsSession := None, sx_committedSources := [], sx_tsEnvHash := [], sx_tsEpochTS := []\<rparr>"

lemma core_sel [simp]:
  "sx_id (core s) = sx_id s" "sx_branch (core s) = sx_branch s" "sx_head (core s) = sx_head s"
  "sx_runtimeHash (core s) = sx_runtimeHash s" "sx_runtimeConfig (core s) = sx_runtimeConfig s"
  "sx_runtimeMode (core s) = sx_runtimeMode s" "sx_runtime (core s) = sx_runtime s"
  "sx_runtimeDirty (core s) = sx_runtimeDirty s" "sx_currentIndex (core s) = sx_currentIndex s"
  by (simp_all add: core_def)

lemma coreD:
  assumes "core s' = core s"
  shows "sx_id s' = sx_id s" "sx_branch s' = sx_branch s" "sx_head s' = sx_head s"
    "sx_runtimeHash s' = sx_runtimeHash s" "sx_runtimeConfig s' = sx_runtimeConfig s"
    "sx_runtimeMode s' = sx_runtimeMode s" "sx_runtime s' = sx_runtime s"
    "sx_runtimeDirty s' = sx_runtimeDirty s" "sx_currentIndex s' = sx_currentIndex s"
  using assms by (metis core_sel)+

lemma sync_core: "syncTypeScriptEnv D s = Inr (env, w, s') \<Longrightarrow> core s' = core s"
  by (auto simp: syncTypeScriptEnv_def applyTypeScriptEnv_def resetTypeScriptSession_def core_def
        split: option.splits prod.splits if_splits)

lemma checkCell_core: "checkCell D env l src s = (r, s') \<Longrightarrow> core s' = core s"
  by (auto simp: checkCell_def ensureTypeScriptSession_def core_def Let_def
        split: option.splits prod.splits if_splits sum.splits)

text \<open>The JavaScript a submit runs: the source, or what the type checker emits for it.\<close>

definition checkedSource :: "('s, 'vm, 'v) SessionDeps \<Rightarrow> SubmitInput \<Rightarrow> ('vm, 'v) session \<Rightarrow> string" where
  "checkedSource D input s =
     (let l = languageOrDefault (in_Language input) in
      case syncTypeScriptEnv D s of Inl _ \<Rightarrow> [] | Inr (env, _, s) \<Rightarrow>
        (case fst (checkCell D env l (in_Source input) s) of Inl _ \<Rightarrow> []
         | Inr (_, emittedJS, _) \<Rightarrow> execSource l (in_Source input) emittedJS))"

text \<open>The facts and the runtime a successful submit is made of.\<close>

record ('s, 'vm, 'v) success =
  su_checked :: CellChecked
  su_store :: 's
  su_rt :: "('vm, 'v) branchRuntime"
  su_cfg :: bytes
  su_hash :: string
  su_from :: "('vm, 'v) session"
  su_eval :: "('s, 'vm, 'v) cellEval"
  su_evaluated :: CellEvaluated
  su_committed :: CellCommitted
  su_moved :: HeadMoved
  su_rt' :: "('vm, 'v) branchRuntime"

definition success_of ::
  "('s, 'vm, 'v) SessionDeps \<Rightarrow> SubmitInput \<Rightarrow> submitExt \<Rightarrow> 's \<Rightarrow> ('vm, 'v) session \<Rightarrow> ('vm, 'v) session \<Rightarrow>
   ('s, 'vm, 'v) success \<Rightarrow> bool" where
  "success_of D input x st s s' w \<longleftrightarrow>
     so_AppendFact (dp_ops D) st (CellChecked (su_checked w)) = (None, su_store w) \<and>
     ck_Session (su_checked w) = sx_id s \<and> ck_Branch (su_checked w) = sx_branch s \<and>
     ck_Cell (su_checked w) = xt_cellID x \<and> ck_Parent (su_checked w) = sx_head s \<and>
     execSource (ck_Language (su_checked w)) (ck_Source (su_checked w)) (ck_EmittedJS (su_checked w)) = checkedSource D input s \<and>
     (\<exists>s2. core s2 = core s \<and>
       prepareSubmitRuntime D (su_store w) s2 = Some (Inr ((su_rt w, su_cfg w, su_hash w), su_from w))) \<and>
     su_eval w = evalCell D (sx_id s) (xt_cellID x) (xt_host x) (checkedSource D input s) (su_rt w) (su_store w) \<and>
     cl_err (su_eval w) = None \<and>
     ce_Session (su_evaluated w) = sx_id s \<and> ce_Branch (su_evaluated w) = sx_branch s \<and>
     ce_Cell (su_evaluated w) = xt_cellID x \<and>
     ce_LinkedEffects (su_evaluated w) = effectIDsFromSummaries (cl_effects (su_eval w)) \<and>
     cc_Session (su_committed w) = sx_id s \<and> cc_Branch (su_committed w) = sx_branch s \<and> cc_Cell (su_committed w) = xt_cellID x \<and>
     hm_Session (su_moved w) = sx_id s \<and> hm_Branch (su_moved w) = sx_branch s \<and>
     hm_Previous (su_moved w) = sx_head s \<and> hm_Next (su_moved w) = xt_cellID x \<and>
     setIndexedResult (dp_goja D) (Suc (sx_currentIndex s)) (cl_eval (su_eval w)) (cl_rt (su_eval w)) = Inr (su_rt' w) \<and>
     sx_id s' = sx_id s \<and> sx_branch s' = sx_branch s \<and> sx_head s' = xt_cellID x \<and>
     sx_currentIndex s' = Suc (sx_currentIndex s) \<and> sx_runtime s' = Some (su_rt' w) \<and> \<not> sx_runtimeDirty s' \<and>
     sx_runtimeMode s' = sx_runtimeMode s \<and>
     sx_runtimeConfig s' = (if sx_runtimeMode s = RuntimeModeReplayPerSubmit then su_cfg w else sx_runtimeConfig (su_from w)) \<and>
     sx_runtimeHash s' = (if sx_runtimeMode s = RuntimeModeReplayPerSubmit then su_hash w else sx_runtimeHash (su_from w))"

lemma finishSubmit_success:
  assumes "finishSubmit D x source language diagnostics warnings fr cfg h ce s = (Inr out, s')"
  shows "\<exists>rt'. setIndexedResult (dp_goja D) (Suc (sx_currentIndex s)) (cl_eval ce) (cl_rt ce) = Inr rt' \<and>
    sx_id s' = sx_id s \<and> sx_branch s' = sx_branch s \<and> sx_head s' = xt_cellID x \<and>
    sx_currentIndex s' = Suc (sx_currentIndex s) \<and> sx_runtime s' = Some rt' \<and> \<not> sx_runtimeDirty s' \<and>
    sx_runtimeMode s' = sx_runtimeMode s \<and>
    sx_runtimeConfig s' = (if fr then cfg else sx_runtimeConfig s) \<and> sx_runtimeHash s' = (if fr then h else sx_runtimeHash s)"
  using assms by (auto simp: finishSubmit_def Let_def split: sum.splits option.splits prod.splits if_splits)

lemma submitFailureResult_Inr [simp]:
  "(case submitFailureResult ops fr x src h hash phase cause ce st s of (e, st, s) \<Rightarrow> (Inl e, st, s)) \<noteq> (Inr out, st', s')"
  by (cases "submitFailureResult ops fr x src h hash phase cause ce st s") simp

lemma commitCell_success:
  assumes "commitCell D x source language diagnostics warnings fr cfg h ce s = (Inr out, st', s')"
  obtains v m d st1 st2 where
    "so_AppendFact (dp_ops D) (cl_store ce) (CellEvaluated v) = (None, st1)"
    "so_AppendFact (dp_ops D) st1 (CellCommitted m) = (None, st2)"
    "so_AppendFact (dp_ops D) st2 (HeadMoved d) = (None, st')"
    "ce_Session v = sx_id s" "ce_Branch v = sx_branch s" "ce_Cell v = xt_cellID x"
    "ce_LinkedEffects v = effectIDsFromSummaries (cl_effects ce)"
    "cc_Session m = sx_id s" "cc_Branch m = sx_branch s" "cc_Cell m = xt_cellID x"
    "hm_Session d = sx_id s" "hm_Branch d = sx_branch s" "hm_Previous d = sx_head s" "hm_Next d = xt_cellID x"
    "finishSubmit D x source language diagnostics warnings fr cfg h ce s = (Inr out, s')"
  using assms unfolding commitCell_def Let_def
  by (auto split: prod.splits option.splits)

lemma combine_None: "combineSubmitErrors p q = None \<longleftrightarrow> p = None \<and> q = None"
  by (auto simp: combineSubmitErrors_def split: option.splits)

lemma evaluateAndCommit_success:
  assumes "evaluateAndCommit D x source src language diagnostics warnings (rt, cfg, h) st s = (Inr out, st', s')"
  obtains ce s1 where "ce = evalCell D (sx_id s) (xt_cellID x) (xt_host x) src rt st" "cl_err ce = None"
    "s1 = (if sx_runtimeMode s = RuntimeModeReplayPerSubmit then s else s\<lparr>sx_runtime := Some (cl_rt ce)\<rparr>)"
    "commitCell D x source language diagnostics warnings (sx_runtimeMode s = RuntimeModeReplayPerSubmit) cfg h ce s1 = (Inr out, st', s')"
proof -
  let ?ce = "evalCell D (sx_id s) (xt_cellID x) (xt_host x) src rt st"
  have none: "combineSubmitErrors (cl_err ?ce) (cl_settleErr ?ce) = None"
  proof (rule ccontr)
    assume "\<not> ?thesis"
    then obtain m where "combineSubmitErrors (cl_err ?ce) (cl_settleErr ?ce) = Some m" by blast
    then show False using assms by (simp add: evaluateAndCommit_def Let_def split: prod.splits)
  qed
  then have "cl_err ?ce = None" by (simp add: combine_None)
  with none that [OF refl _ refl] assms show thesis by (simp add: evaluateAndCommit_def Let_def)
qed

lemma SubmitCell_success:
  assumes run: "SubmitCell D input x st s = Some (Inr out, st', s')"
  obtains w st1 st2 where "success_of D input x st s s' w"
    "so_AppendFact (dp_ops D) (cl_store (su_eval w)) (CellEvaluated (su_evaluated w)) = (None, st1)"
    "so_AppendFact (dp_ops D) st1 (CellCommitted (su_committed w)) = (None, st2)"
    "so_AppendFact (dp_ops D) st2 (HeadMoved (su_moved w)) = (None, st')"
    "ensureBranchHeadWritable (dp_ops D) ''submitting'' st s = None"
proof -
  let ?l = "languageOrDefault (in_Language input)"
  have writable: "ensureBranchHeadWritable (dp_ops D) ''submitting'' st s = None"
    using run by (auto simp: SubmitCell_def split: option.splits)
  then obtain env warn s1 where sync: "syncTypeScriptEnv D s = Inr (env, warn, s1)"
    using run by (auto simp: SubmitCell_def Let_def split: sum.splits)
  obtain cr s2 where check: "checkCell D env ?l (in_Source input) s1 = (cr, s2)" by fastforce
  then obtain dg js where cr: "cr = Inr (dg, js, False)"
    using run writable sync by (auto simp: SubmitCell_def Let_def split: sum.splits prod.splits option.splits if_splits)
  define k where "k = \<lparr>ck_Session = sx_id s2, ck_Branch = sx_branch s2, ck_Cell = xt_cellID x, ck_Parent = sx_head s2,
    ck_Language = ?l, ck_Source = in_Source input, ck_Diagnostics = dg, ck_EmittedJS = js,
    ck_TypeScriptEnvHash = sx_tsEnvHash s2, ck_TypeScriptEpochTS = sx_tsEpochTS s2, ck_HasErrors = False, ck_At = xt_now x\<rparr>"
  obtain a st1 where a: "so_AppendFact (dp_ops D) st (CellChecked k) = (a, st1)" by fastforce
  note run1 = run [unfolded SubmitCell_def Let_def writable option.case sync sum.case prod.case check cr k_def [symmetric] a if_False]
  have none: "a = None" using run1 by (cases a) simp_all
  then obtain rt cfg h s3 where prep: "prepareSubmitRuntime D st1 s2 = Some (Inr ((rt, cfg, h), s3))"
    and ev: "evaluateAndCommit D x (in_Source input) (execSource ?l (in_Source input) js) ?l dg warn (rt, cfg, h) st1 s3 = (Inr out, st', s')"
    using run1 by (auto split: option.splits sum.splits)
  have core2: "core s2 = core s" using sync_core [OF sync] checkCell_core [OF check] by simp
  have s3: "sx_id s3 = sx_id s" "sx_branch s3 = sx_branch s" "sx_head s3 = sx_head s" "sx_currentIndex s3 = sx_currentIndex s"
    "sx_runtimeMode s3 = sx_runtimeMode s"
    using prepareSubmitRuntime_place [OF prep] coreD [OF core2] by (simp_all add: same_place_def)
  have src: "execSource ?l (in_Source input) js = checkedSource D input s"
    by (simp add: checkedSource_def Let_def sync check cr)
  obtain ce s4 where ce: "ce = evalCell D (sx_id s3) (xt_cellID x) (xt_host x) (checkedSource D input s) rt st1" "cl_err ce = None"
    and s4: "s4 = (if sx_runtimeMode s3 = RuntimeModeReplayPerSubmit then s3 else s3\<lparr>sx_runtime := Some (cl_rt ce)\<rparr>)"
    and com: "commitCell D x (in_Source input) ?l dg warn (sx_runtimeMode s3 = RuntimeModeReplayPerSubmit) cfg h ce s4 = (Inr out, st', s')"
    using evaluateAndCommit_success [OF ev] src by metis
  obtain v m d st2 st3 where facts: "so_AppendFact (dp_ops D) (cl_store ce) (CellEvaluated v) = (None, st2)"
    "so_AppendFact (dp_ops D) st2 (CellCommitted m) = (None, st3)" "so_AppendFact (dp_ops D) st3 (HeadMoved d) = (None, st')"
    "ce_Session v = sx_id s4" "ce_Branch v = sx_branch s4" "ce_Cell v = xt_cellID x"
    "ce_LinkedEffects v = effectIDsFromSummaries (cl_effects ce)"
    "cc_Session m = sx_id s4" "cc_Branch m = sx_branch s4" "cc_Cell m = xt_cellID x"
    "hm_Session d = sx_id s4" "hm_Branch d = sx_branch s4" "hm_Previous d = sx_head s4" "hm_Next d = xt_cellID x"
    and fin: "finishSubmit D x (in_Source input) ?l dg warn (sx_runtimeMode s3 = RuntimeModeReplayPerSubmit) cfg h ce s4 = (Inr out, s')"
    using commitCell_success [OF com] by metis
  obtain rt' where rt': "setIndexedResult (dp_goja D) (Suc (sx_currentIndex s4)) (cl_eval ce) (cl_rt ce) = Inr rt'"
    "sx_id s' = sx_id s4 \<and> sx_branch s' = sx_branch s4 \<and> sx_head s' = xt_cellID x \<and>
     sx_currentIndex s' = Suc (sx_currentIndex s4) \<and> sx_runtime s' = Some rt' \<and> \<not> sx_runtimeDirty s' \<and>
     sx_runtimeMode s' = sx_runtimeMode s4"
    "sx_runtimeConfig s' = (if sx_runtimeMode s3 = RuntimeModeReplayPerSubmit then cfg else sx_runtimeConfig s4)"
    "sx_runtimeHash s' = (if sx_runtimeMode s3 = RuntimeModeReplayPerSubmit then h else sx_runtimeHash s4)"
    using finishSubmit_success [OF fin] by blast
  have s4': "sx_id s4 = sx_id s" "sx_branch s4 = sx_branch s" "sx_head s4 = sx_head s" "sx_currentIndex s4 = sx_currentIndex s"
    "sx_runtimeMode s4 = sx_runtimeMode s" "sx_runtimeConfig s4 = sx_runtimeConfig s3" "sx_runtimeHash s4 = sx_runtimeHash s3"
    using s3 by (simp_all add: s4)
  let ?w = "\<lparr>su_checked = k, su_store = st1, su_rt = rt, su_cfg = cfg, su_hash = h, su_from = s3, su_eval = ce,
    su_evaluated = v, su_committed = m, su_moved = d, su_rt' = rt'\<rparr>"
  have "success_of D input x st s s' ?w"
    using a none core2 coreD [OF core2] prep src ce facts rt' s3 s4' by (auto simp: success_of_def k_def)
  with that [of ?w st2 st3] facts writable show thesis by simp
qed

subsection \<open>Resumable sessions\<close>

definition resumable :: "(Store, 'vm, 'v) SessionDeps \<Rightarrow> Store \<Rightarrow> ('vm, 'v) session \<Rightarrow> bool" where
  "resumable D st s \<longleftrightarrow>
     session_inv logOf runtimeConfigs store_ok st s \<and> heads_synced (sx_id s) (logOf st) \<and> quiet (sx_id s) (logOf st) \<and>
     settled (sx_id s) (logOf st) (history_effects (sx_id s) (logOf st) (sx_head s)) \<and>
     (sx_head s = [] \<longrightarrow> sx_runtimeConfig s = config_of (runtimeConfigs st) (attached_hash (sx_id s) (logOf st))) \<and>
     sx_currentIndex s = length (history (lineage_of (sx_id s) (logOf st)) (sx_head s)) \<and>
     rebuildRuntimeFromCommitted D st s = Some (Inr s)"

lemma rebuild_self:
  "rebuildRuntimeFromCommitted D st s = Some (Inr s) \<longleftrightarrow>
     \<not> sx_runtimeDirty s \<and> (\<exists>rt. sx_runtime s = Some rt \<and>
       runtimeAtHead D ''init runtime from current config: '' ''load replay plan for runtime rebuild: ''
         ''replay committed runtime state: '' st s = Some (Inr (rt, sx_runtimeConfig s, sx_runtimeHash s)))"
  by (cases s) (auto simp: rebuildRuntimeFromCommitted_def)

lemma cursor_owned: "durable sn log cfg (b, h) \<Longrightarrow> h = [] \<or> owner (lineage_of sn log) h \<noteq> None"
  using durable_cursor_ok [of sn log cfg "(b, h)"] by (auto simp: cursor_ok_def)

text \<open>What \<open>runtimeAtHead\<close> builds is the committed runtime of the head.\<close>

lemma runtimeAtHead_committed:
  assumes D: "dp_ops D = memOps" and ok: "store_ok st" and d: "durable (sx_id s) (logOf st) (runtimeConfigs st) (b, sx_head s)"
    and q: "quiet (sx_id s) (logOf st)" and len: "length (logOf st) \<le> MaxInt"
    and cfg: "sx_head s = [] \<longrightarrow> sx_runtimeConfig s = config_of (runtimeConfigs st) (attached_hash (sx_id s) (logOf st))"
  shows "runtimeAtHead D p1 p2 p3 st s = Some (Inr r) \<longleftrightarrow>
    committed_runtime (dp_goja D) (dp_delegate D) (sx_id s) (sx_branch s) (logOf st) (runtimeConfigs st) (sx_head s) = Inr r"
proof (cases "sx_head s = []")
  case True
  have "steps_of (sx_id s) (logOf st) [] = []" using d history_Nil by (auto simp: steps_of_def durable_def)
  then have "committed_runtime (dp_goja D) (dp_delegate D) (sx_id s) (sx_branch s) (logOf st) (runtimeConfigs st) (sx_head s) =
      newBranchRuntime (dp_goja D) (dp_delegate D) (sx_id s) (sx_branch s) (sx_runtimeConfig s) ModeLive"
    using True cfg newBranchRuntime_mode [of "dp_goja D" "dp_delegate D" "sx_id s" "sx_branch s" "sx_runtimeConfig s" ModeLive ModeReplay]
    by (simp add: committed_runtime_quiet q case_prod_unfold)
  then show ?thesis using True by (auto simp: runtimeAtHead_def split: sum.splits)
next
  case False
  then obtain b' where b': "owner (lineage_of (sx_id s) (logOf st)) (sx_head s) = Some b'" using cursor_owned [OF d] by auto
  have "LoadReplayPlan st (sx_id s) (sx_head s) = Some (Inr (plan_of (sx_id s) (logOf st) (runtimeConfigs st) (sx_head s) b'))"
    using d ok b' by (intro LoadReplayPlan_plan_of [OF _ len]) (simp_all add: store_wf_def durable_def)
  then show ?thesis
    using False by (auto simp: runtimeAtHead_def D replayPlan_branch [OF q] split: sum.splits)
qed

lemma runtimeAtHead_core: "core s' = core s \<Longrightarrow> runtimeAtHead D p1 p2 p3 st s' = runtimeAtHead D p1 p2 p3 st s"
  using coreD [of s' s] by (simp only: runtimeAtHead_def)

lemma runtimeAtHead_prefixes:
  "runtimeAtHead D p1 p2 p3 st s = Some (Inr r) \<Longrightarrow> runtimeAtHead D q1 q2 q3 st s = Some (Inr r)"
  by (auto simp: runtimeAtHead_def split: option.splits sum.splits if_splits)

lemma committed_runtime_live: "quiet sn log \<Longrightarrow> committed_runtime G dl sn b log cfg c = Inr (rt, r) \<Longrightarrow> br_mode rt = ModeLive"
  by (auto simp: committed_runtime_quiet)

lemma setIndexedResult_keeps_mode: "setIndexedResult G n ev rt = Inr rt' \<Longrightarrow> br_mode rt' = br_mode rt"
  by (auto simp: setIndexedResult_def Let_def split: if_splits)

subsection \<open>What a submit leaves of the queries\<close>

text \<open>Facts that neither attach nor switch a runtime of the session.\<close>

definition plain :: "SessionID \<Rightarrow> Fact \<Rightarrow> bool" where
  "plain sn f \<longleftrightarrow> attachOf sn f = None \<and> (\<forall>x. f \<noteq> RuntimeTransitioned x)"

lemma plain_extend:
  "list_all (plain sn) fs \<Longrightarrow> attached_hash sn (log @ fs) = attached_hash sn log \<and> (quiet sn (log @ fs) \<longleftrightarrow> quiet sn log)"
proof (induction fs rule: rev_induct)
  case (snoc f fs)
  then have f: "plain sn f" by simp
  have "attached_hash sn ((log @ fs) @ [f]) = attached_hash sn (log @ fs)"
    using f by (simp add: attached_hash_def find_map_append plain_def split: option.splits)
  moreover have "transitions_of sn ((log @ fs) @ [f]) = transitions_of sn (log @ fs)"
    unfolding transitions_of_snoc using f by (cases f) (simp_all add: plain_def)
  ultimately show ?case using snoc by (simp add: quiet_def)
qed simp

lemma effectFact_plain: "effectFact sn f \<Longrightarrow> plain sn f"
  by (cases f) (simp_all add: plain_def)

lemma effects_plain: "list_all (effectFact sn) fs \<Longrightarrow> list_all (plain sn) fs"
  by (auto simp: list_all_iff effectFact_plain)

lemma scan_last_effects:
  "list_all (effectFact sn) fs \<Longrightarrow> scan_last (checkedOf sn b c) acc fs = acc \<and> scan_last (evaluatedOf sn b c) acc' fs = acc'"
  by (induction fs arbitrary: acc acc') (auto simp: effectFact_frame)

lemma step_of_submitted:
  assumes "list_all (effectFact sn) fs"
    and "ck_Session k = sn" "ck_Branch k = b" "ck_Cell k = c" "ce_Session v = sn" "ce_Branch v = b" "ce_Cell v = c"
  shows "step_of sn (log @ CellChecked k # fs @ [CellEvaluated v, CellCommitted m, HeadMoved d]) (c, b) =
    \<lparr>st_Cell = c, st_Language = ck_Language k, st_Source = ck_Source k, st_EmittedJS = ck_EmittedJS k,
     st_Effects = ce_LinkedEffects v\<rparr>"
  using assms scan_last_effects [OF assms(1)] by (simp add: step_of_def scan_last_append)

lemma replaySource_exec:
  "replaySourceForStep \<lparr>st_Cell = c, st_Language = l, st_Source = src, st_EmittedJS = js, st_Effects = es\<rparr> = execSource l src js"
  by (simp add: replaySourceForStep_def execSource_def)

subsection \<open>Submitting keeps a session resumable\<close>

lemma fresh_from_checked:
  "fresh_from sn H (log @ [CellChecked k]) newAccumulator 0 = fresh_from sn H log newAccumulator 0"
proof -
  have "find_map (startedOf sn e) (log @ [CellChecked k]) = find_map (startedOf sn e) log"
    "find_map (resultOf sn e) (log @ [CellChecked k]) = find_map (resultOf sn e) log" for e
    by (auto simp: find_map_append split: option.splits)
  then show ?thesis by (simp add: fresh_from_def)
qed

lemma prepare_committed:
  assumes D: "dp_ops D = memOps" and r: "resumable D st s" and core: "core s2 = core s"
    and k: "so_AppendFact memOps st (CellChecked k) = (None, st1)" "ck_Session k = sx_id s" "ck_Cell k = c"
      "owner (lineage_of (sx_id s) (logOf st)) c = None"
    and len: "length (logOf st1) \<le> MaxInt"
    and prep: "prepareSubmitRuntime D st1 s2 = Some (Inr ((rt, cfg, h), s3))"
  shows "sx_runtime s = Some rt" "cfg = sx_runtimeConfig s" "h = sx_runtimeHash s"
    "sx_runtimeConfig s3 = sx_runtimeConfig s" "sx_runtimeHash s3 = sx_runtimeHash s"
    "committed_runtime (dp_goja D) (dp_delegate D) (sx_id s) (sx_branch s) (logOf st) (runtimeConfigs st) (sx_head s) =
       Inr (rt, sx_runtimeConfig s, sx_runtimeHash s)"
proof -
  let ?sn = "sx_id s" and ?log = "logOf st"
  have ok: "store_ok st" and d: "durable ?sn ?log (runtimeConfigs st) (sx_branch s, sx_head s)"
    and q: "quiet ?sn ?log" and set: "settled ?sn ?log (history_effects ?sn ?log (sx_head s))"
    and cf: "sx_head s = [] \<longrightarrow> sx_runtimeConfig s = config_of (runtimeConfigs st) (attached_hash ?sn ?log)"
    and self: "rebuildRuntimeFromCommitted D st s = Some (Inr s)"
    using r by (simp_all add: resumable_def session_inv_def)
  have st1: "store_ok st1" "logOf st1 = ?log @ [CellChecked k]" "runtimeConfigs st1 = runtimeConfigs st"
    using mem.append_ok [OF ok k(1)] by simp_all
  have len0: "length ?log \<le> MaxInt" using len st1 by simp
  obtain rt0 where rt0: "sx_runtime s = Some rt0" "\<not> sx_runtimeDirty s"
    and com: "committed_runtime (dp_goja D) (dp_delegate D) ?sn (sx_branch s) ?log (runtimeConfigs st) (sx_head s) =
      Inr (rt0, sx_runtimeConfig s, sx_runtimeHash s)"
    using self unfolding rebuild_self runtimeAtHead_committed [OF D ok d q len0 cf] by blast
  have pl: "list_all (plain ?sn) [CellChecked k]" by (simp add: plain_def)
  note ext = plain_extend [OF pl, of ?log]
  have d1: "durable ?sn (logOf st1) (runtimeConfigs st1) (sx_branch s, sx_head s)"
    using durable_keep [OF d, of "CellChecked k"] k st1 by (simp add: ok_step_def fact_ready_def cursor_fact_def)
  have cf1: "sx_head s = [] \<longrightarrow> sx_runtimeConfig s = config_of (runtimeConfigs st1) (attached_hash ?sn (logOf st1))"
    using cf ext st1 by simp
  have com1: "committed_runtime (dp_goja D) (dp_delegate D) ?sn (sx_branch s) (logOf st1) (runtimeConfigs st1) (sx_head s) =
      Inr (rt0, sx_runtimeConfig s, sx_runtimeHash s)"
    unfolding st1(2,3)
    by (subst committed_extend [OF _ _ _ set cursor_owned [OF d]]) (use com d1 st1 ext q in \<open>auto simp: durable_def\<close>)
  have "runtimeAtHead D p1 p2 p3 st1 s2 = Some (Inr (rt0, sx_runtimeConfig s, sx_runtimeHash s))" for p1 p2 p3
    using com1 runtimeAtHead_committed [OF D st1(1) d1 _ len cf1] ext q st1 by (simp add: runtimeAtHead_core [OF core])
  then have "(rt, cfg, h) = (rt0, sx_runtimeConfig s, sx_runtimeHash s) \<and> s3 = s2"
    using prep rt0 coreD [OF core] by (auto simp: prepareSubmitRuntime_def ensureCleanRuntime_def split: if_splits)
  then show "sx_runtime s = Some rt" "cfg = sx_runtimeConfig s" "h = sx_runtimeHash s"
    "sx_runtimeConfig s3 = sx_runtimeConfig s" "sx_runtimeHash s3 = sx_runtimeHash s"
    "committed_runtime (dp_goja D) (dp_delegate D) ?sn (sx_branch s) ?log (runtimeConfigs st) (sx_head s) =
       Inr (rt, sx_runtimeConfig s, sx_runtimeHash s)"
    using rt0 com coreD [OF core] by simp_all
qed

text \<open>The run of the cell meets the conditions of replay, and the effect identifiers are new.\<close>

definition cell_replayable ::
  "(Store, 'vm, 'v) SessionDeps \<Rightarrow> SubmitInput \<Rightarrow> submitExt \<Rightarrow> Store \<Rightarrow> ('vm, 'v) session \<Rightarrow> bool" where
  "cell_replayable D input x st s \<longleftrightarrow>
     inj (hv_uuid (xt_host x)) \<and> fresh_from (sx_id s) (xt_host x) (logOf st) newAccumulator 0 \<and>
     (\<forall>rt t st'. sx_runtime s = Some rt \<longrightarrow>
        gj_run (dp_goja D) (br_vm rt) (valueTable rt) (checkedSource D input s) = Inr t \<longrightarrow> store_ok st' \<longrightarrow>
        replayable memOps (sx_id s) (xt_cellID x) (xt_host x) t False (newCellRun st' 0))"

lemma success_grown:
  assumes D: "dp_ops D = memOps" and ok: "store_ok st" and w: "success_of D input x st s s' w"
    and a: "so_AppendFact memOps (cl_store (su_eval w)) (CellEvaluated (su_evaluated w)) = (None, st2)"
      "so_AppendFact memOps st2 (CellCommitted (su_committed w)) = (None, st3)"
      "so_AppendFact memOps st3 (HeadMoved (su_moved w)) = (None, st')"
  obtains fs where "list_all (effectFact (sx_id s)) fs" "store_ok (su_store w)"
    "logOf (su_store w) = logOf st @ [CellChecked (su_checked w)]"
    "logOf (cl_store (su_eval w)) = logOf st @ CellChecked (su_checked w) # fs"
    "store_ok st'" "runtimeConfigs st' = runtimeConfigs st"
    "logOf st' = logOf st @ CellChecked (su_checked w) # fs @ [CellEvaluated (su_evaluated w), CellCommitted (su_committed w), HeadMoved (su_moved w)]"
    "submitted (sx_id s) (logOf st) (sx_branch s) (sx_head s) (xt_cellID x) CommittedCell
       (CellChecked (su_checked w) # fs @ [CellEvaluated (su_evaluated w), CellCommitted (su_committed w), HeadMoved (su_moved w)])"
proof -
  let ?k = "su_checked w" and ?v = "su_evaluated w" and ?ce = "su_eval w"
  have k: "so_AppendFact memOps st (CellChecked ?k) = (None, su_store w)"
    using w D unfolding success_of_def by metis
  have st1: "store_ok (su_store w)" "logOf (su_store w) = logOf st @ [CellChecked ?k]" "runtimeConfigs (su_store w) = runtimeConfigs st"
    using mem.append_ok [OF ok k] by simp_all
  have ce: "?ce = evalCell D (sx_id s) (xt_cellID x) (xt_host x) (checkedSource D input s) (su_rt w) (su_store w)"
    using w unfolding success_of_def by blast
  from mem.evalCell_grown [OF st1(1) D ce] obtain fs where
    g: "grown logOf runtimeConfigs store_ok (su_store w) fs (cl_store ?ce)" and eff: "list_all (effectFact (sx_id s)) fs"
    and linked: "list_all (\<lambda>e. find_map (startedOf (sx_id s) e) (logOf (su_store w) @ fs) \<noteq> None) (effectIDsFromSummaries (cl_effects ?ce))"
    by blast
  have e: "store_ok (cl_store ?ce)" "logOf (cl_store ?ce) = logOf st @ CellChecked ?k # fs" "runtimeConfigs (cl_store ?ce) = runtimeConfigs st"
    using g st1 by (simp_all add: grown_def)
  note l2 = mem.append_ok [OF e(1) a(1)]
  note l3 = mem.append_ok [OF l2 [THEN conjunct1] a(2)]
  note l4 = mem.append_ok [OF l3 [THEN conjunct1] a(3)]
  have ck: "submitted (sx_id s) (logOf st) (sx_branch s) (sx_head s) (xt_cellID x) NotCommittedCell [CellChecked ?k]"
    using w by (intro submitted.checked) (simp_all add: success_of_def)
  have "list_all (\<lambda>e. find_map (startedOf (sx_id s) e) (logOf st @ CellChecked ?k # fs) \<noteq> None) (ce_LinkedEffects ?v)"
    using linked w st1 by (simp add: success_of_def)
  note ev = submitted.evaluated [OF submitted.ran [OF ck eff] eff _ _ _ this]
  have "submitted (sx_id s) (logOf st) (sx_branch s) (sx_head s) (xt_cellID x) CommittedCell
       (CellChecked ?k # fs @ [CellEvaluated ?v, CellCommitted (su_committed w), HeadMoved (su_moved w)])"
    by (rule submitted.moved [OF submitted.committed [OF ev eff] eff]) (use w in \<open>simp_all add: success_of_def\<close>)
  with that [OF eff st1(1,2) e(2)] l2 l3 l4 e show thesis by simp
qed

text \<open>Replaying the new history gives the runtime the evaluation left.\<close>

lemma success_runtime:
  assumes D: "dp_ops D = memOps" and r: "resumable D st s" and w: "success_of D input x st s s' w"
    and rep: "cell_replayable D input x st s" and eff: "list_all (effectFact (sx_id s)) fs"
    and st1: "store_ok (su_store w)" "logOf (su_store w) = logOf st @ [CellChecked (su_checked w)]"
    and e: "logOf (cl_store (su_eval w)) = logOf st @ CellChecked (su_checked w) # fs"
    and rt: "sx_runtime s = Some (su_rt w)"
      "committed_runtime (dp_goja D) (dp_delegate D) (sx_id s) (sx_branch s) (logOf st) (runtimeConfigs st) (sx_head s) =
         Inr (su_rt w, sx_runtimeConfig s, sx_runtimeHash s)"
  defines "fs' \<equiv> CellChecked (su_checked w) # fs @ [CellEvaluated (su_evaluated w), CellCommitted (su_committed w), HeadMoved (su_moved w)]"
  assumes wf: "log_wf (sx_id s) (logOf st @ fs')" and pl: "list_all (plain (sx_id s)) fs'"
    and hist: "history (lineage_of (sx_id s) (logOf st @ fs')) (xt_cellID x) =
        history (lineage_of (sx_id s) (logOf st)) (sx_head s) @ [(xt_cellID x, sx_branch s)]"
      "history (lineage_of (sx_id s) (logOf st @ fs')) (sx_head s) = history (lineage_of (sx_id s) (logOf st)) (sx_head s)"
  shows "committed_runtime (dp_goja D) (dp_delegate D) (sx_id s) (sx_branch s) (logOf st @ fs') (runtimeConfigs st) (xt_cellID x) =
      Inr (su_rt' w, sx_runtimeConfig s, sx_runtimeHash s)"
    and "settled (sx_id s) (logOf st @ fs') (history_effects (sx_id s) (logOf st @ fs') (xt_cellID x))"
proof -
  let ?sn = "sx_id s" and ?log = "logOf st" and ?b = "sx_branch s" and ?h = "sx_head s" and ?c = "xt_cellID x" and ?G = "dp_goja D"
  let ?step = "step_of ?sn (?log @ fs') (?c, ?b)"
  have d: "durable ?sn ?log (runtimeConfigs st) (?b, ?h)" and q: "quiet ?sn ?log"
    and set: "settled ?sn ?log (history_effects ?sn ?log ?h)" and idx: "sx_currentIndex s = length (history (lineage_of ?sn ?log) ?h)"
    using r by (simp_all add: resumable_def session_inv_def)
  have step: "?step = \<lparr>st_Cell = ?c, st_Language = ck_Language (su_checked w), st_Source = ck_Source (su_checked w),
      st_EmittedJS = ck_EmittedJS (su_checked w), st_Effects = ce_LinkedEffects (su_evaluated w)\<rparr>"
    unfolding fs'_def by (rule step_of_submitted [OF eff]) (use w in \<open>simp_all add: success_of_def\<close>)
  have ce: "su_eval w = evalCell D ?sn ?c (xt_host x) (checkedSource D input s) (su_rt w) (su_store w)" "cl_err (su_eval w) = None"
    and ir: "setIndexedResult ?G (Suc (sx_currentIndex s)) (cl_eval (su_eval w)) (cl_rt (su_eval w)) = Inr (su_rt' w)"
    using w unfolding success_of_def by blast+
  obtain t where t: "gj_run ?G (br_vm (su_rt w)) (valueTable (su_rt w)) (checkedSource D input s) = Inr t"
    using ce by (auto simp: evalCell_def split: sum.splits)
  have rep': "inj (hv_uuid (xt_host x))" "fresh_from ?sn (xt_host x) (logOf (su_store w)) newAccumulator 0"
    "replayable memOps ?sn ?c (xt_host x) t False (newCellRun (su_store w) 0)"
    using rep t rt(1) st1 by (simp_all add: cell_replayable_def fresh_from_checked)
  have src: "replaySourceForStep ?step = checkedSource D input s"
    using w unfolding step replaySource_exec success_of_def by blast
  have effs: "st_Effects ?step = effectIDsFromSummaries (cl_effects (su_eval w))"
    using w unfolding step success_of_def by simp
  have logs: "?log @ fs' = logOf (cl_store (su_eval w)) @ [CellEvaluated (su_evaluated w), CellCommitted (su_committed w), HeadMoved (su_moved w)]"
    using e by (simp add: fs'_def)
  note one = mem.evalCell_replayed [where fs = "[CellEvaluated (su_evaluated w), CellCommitted (su_committed w), HeadMoved (su_moved w)]",
    OF st1(1) D rep'(1,2) t rep'(3) ce(1,2) ir src effs, folded logs, unfolded idx]
  have live: "br_mode (su_rt' w) = ModeLive"
    using setIndexedResult_keeps_mode [OF ir] committed_runtime_live [OF q rt(2)] ce(1) t
    by (simp add: evalCell_def Let_def case_prod_unfold)
  note ext = plain_extend [OF pl, of ?log]
  show "committed_runtime ?G (dp_delegate D) ?sn ?b (?log @ fs') (runtimeConfigs st) ?c = Inr (su_rt' w, sx_runtimeConfig s, sx_runtimeHash s)"
    by (rule committed_snoc [OF wf _ _ set cursor_owned [OF d] hist rt(2) one live]) (use ext q in simp_all)
  have "steps_of ?sn (?log @ fs') ?c = steps_of ?sn ?log ?h @ [?step]"
    using steps_of_old [OF wf cursor_owned [OF d]] by (simp add: steps_of_def hist)
  then have "history_effects ?sn (?log @ fs') ?c = history_effects ?sn ?log ?h @ st_Effects ?step"
    by (simp add: history_effects_def)
  moreover have "settled ?sn (?log @ fs') (st_Effects ?step)"
    unfolding effs by (subst logs) (rule settled_extend [OF mem.evalCell_settled [OF st1(1) D rep'(1,2) t rep'(3) ce(1)]])
  ultimately show "settled ?sn (?log @ fs') (history_effects ?sn (?log @ fs') ?c)"
    using settled_extend [OF set, of fs'] by (simp add: settled_def)
qed

lemma resumable_submit:
  assumes D: "dp_ops D = memOps" and r: "resumable D st s" and run: "SubmitCell D input x st s = Some (Inr out, st', s')"
    and new: "xt_cellID x \<noteq> []" "owner (lineage_of (sx_id s) (logOf st)) (xt_cellID x) = None"
    and rep: "cell_replayable D input x st s" and len: "length (logOf st') \<le> MaxInt"
  shows "resumable D st' s'"
proof -
  obtain w st2 st3 where w: "success_of D input x st s s' w"
    and a: "so_AppendFact memOps (cl_store (su_eval w)) (CellEvaluated (su_evaluated w)) = (None, st2)"
      "so_AppendFact memOps st2 (CellCommitted (su_committed w)) = (None, st3)"
      "so_AppendFact memOps st3 (HeadMoved (su_moved w)) = (None, st')"
    and writable: "ensureBranchHeadWritable memOps ''submitting'' st s = None"
    using SubmitCell_success [OF run] D by metis
  have ok: "store_ok st" and q: "quiet (sx_id s) (logOf st)"
    and idx: "sx_currentIndex s = length (history (lineage_of (sx_id s) (logOf st)) (sx_head s))"
    using r by (simp_all add: resumable_def session_inv_def)
  obtain fs where eff: "list_all (effectFact (sx_id s)) fs" and st1: "store_ok (su_store w)" "logOf (su_store w) = logOf st @ [CellChecked (su_checked w)]"
    and e: "logOf (cl_store (su_eval w)) = logOf st @ CellChecked (su_checked w) # fs"
    and st': "store_ok st'" "runtimeConfigs st' = runtimeConfigs st"
      "logOf st' = logOf st @ CellChecked (su_checked w) # fs @ [CellEvaluated (su_evaluated w), CellCommitted (su_committed w), HeadMoved (su_moved w)]"
    and sub: "submitted (sx_id s) (logOf st) (sx_branch s) (sx_head s) (xt_cellID x) CommittedCell
       (CellChecked (su_checked w) # fs @ [CellEvaluated (su_evaluated w), CellCommitted (su_committed w), HeadMoved (su_moved w)])"
    using success_grown [OF D ok w a] by metis
  have d: "durable (sx_id s) (logOf st) (runtimeConfigs st) (sx_branch s, sx_head s)" "heads_synced (sx_id s) (logOf st)"
    using r by (simp_all add: resumable_def session_inv_def)
  note hist = submitted_history [OF d mem.writable_head [OF ok d(1) writable] new sub, folded st'(3)]
  have pl: "list_all (plain (sx_id s)) (CellChecked (su_checked w) # fs @ [CellEvaluated (su_evaluated w), CellCommitted (su_committed w), HeadMoved (su_moved w)])"
    using effects_plain [OF eff] by (simp add: plain_def)
  note ext = plain_extend [OF pl, of "logOf st", folded st'(3)]
  obtain s2 where core: "core s2 = core s"
    and prep: "prepareSubmitRuntime D (su_store w) s2 = Some (Inr ((su_rt w, su_cfg w, su_hash w), su_from w))"
    using w by (auto simp: success_of_def)
  have k: "so_AppendFact memOps st (CellChecked (su_checked w)) = (None, su_store w)" "ck_Session (su_checked w) = sx_id s"
      "ck_Cell (su_checked w) = xt_cellID x"
    using w D by (simp_all add: success_of_def)
  have "length (logOf (su_store w)) \<le> MaxInt" using len st' st1 by simp
  note prepared = prepare_committed [OF D r core k new(2) this prep]
  have "log_wf (sx_id s) (logOf st')" using hist(1) by (simp add: durable_def)
  note rt = success_runtime [OF D r w rep eff st1 e prepared(1,6) _ pl, folded st'(3), OF this hist(3,4)]
  have s': "sx_id s' = sx_id s" "sx_branch s' = sx_branch s" "sx_head s' = xt_cellID x" "sx_currentIndex s' = Suc (sx_currentIndex s)"
    "sx_runtime s' = Some (su_rt' w)" "\<not> sx_runtimeDirty s'" "sx_runtimeConfig s' = sx_runtimeConfig s" "sx_runtimeHash s' = sx_runtimeHash s"
    using w prepared by (auto simp: success_of_def)
  have d': "durable (sx_id s') (logOf st') (runtimeConfigs st') (sx_branch s', sx_head s')"
    and q': "quiet (sx_id s') (logOf st')" using hist(1) ext q st' s' by simp_all
  have "rebuildRuntimeFromCommitted D st' s' = Some (Inr s')"
    unfolding rebuild_self using runtimeAtHead_committed [OF D st'(1) d' q' len] rt s' st' new by auto
  then show ?thesis
    using d' q' hist rt s' st' new idx by (simp add: resumable_def session_inv_def)
qed

subsection \<open>Restored, forked, started and reopened sessions\<close>

lemma loadBranchState_committed:
  assumes "loadBranchState D p1 p2 st sn (plan_of sn log cfg c b') b eb c = Some (Inr lb)" and "quiet sn log"
  shows "committed_runtime (dp_goja D) (dp_delegate D) sn b log cfg c = Inr (lb_runtime lb, lb_runtimeConfig lb, lb_runtimeHash lb)"
  using assms replayPlan_branch [OF assms(2), of "dp_goja D" "dp_delegate D" b cfg c b']
  by (auto simp: loadBranchState_def loadedState_def split: sum.splits option.splits prod.splits)

text \<open>A branch state that was loaded before the last facts were appended, installed.\<close>

lemma installed_resumable:
  assumes D: "dp_ops D = memOps" and st': "store_ok st'" "logOf st' = log @ fs" "length (logOf st') \<le> MaxInt"
    and d: "durable sn (log @ fs) (runtimeConfigs st') (b, c)" and sync: "heads_synced sn (log @ fs)"
    and q: "quiet sn log" and pl: "list_all (plain sn) fs" and own: "owner (lineage_of sn log) c = Some b'"
    and set: "settled sn log (history_effects sn log c)"
    and com: "committed_runtime (dp_goja D) (dp_delegate D) sn b log (runtimeConfigs st') c =
      Inr (lb_runtime lb, lb_runtimeConfig lb, lb_runtimeHash lb)"
    and lb: "lb_branch lb = b" "lb_head lb = c" "lb_currentIndex lb = length (history (lineage_of sn log) c)" and s: "sx_id s = sn"
  shows "resumable D st' (installLoadedBranchState lb s)"
proof -
  let ?s = "installLoadedBranchState lb s"
  have wf: "log_wf sn (log @ fs)" using d by (simp add: durable_def)
  note ext = plain_extend [OF pl, of log]
  have f: "sx_id ?s = sn" "sx_branch ?s = b" "sx_head ?s = c" "sx_runtime ?s = Some (lb_runtime lb)" "\<not> sx_runtimeDirty ?s"
    "sx_runtimeConfig ?s = lb_runtimeConfig lb" "sx_runtimeHash ?s = lb_runtimeHash lb" "sx_currentIndex ?s = lb_currentIndex lb"
    using lb s by (simp_all add: installLoadedBranchState_def resetTypeScriptSession_def)
  have c: "c \<noteq> []" using own owner_Nil [OF log_wf_appendD [OF wf]] by auto
  have steps: "steps_of sn (log @ fs) c = steps_of sn log c" by (rule steps_of_old [OF wf]) (use own in simp)
  have "committed_runtime (dp_goja D) (dp_delegate D) sn b (log @ fs) (runtimeConfigs st') c =
      Inr (lb_runtime lb, lb_runtimeConfig lb, lb_runtimeHash lb)"
    by (subst committed_extend [OF wf _ _ set]) (use com ext q own in simp_all)
  moreover have "durable (sx_id ?s) (logOf st') (runtimeConfigs st') (b, sx_head ?s)" "quiet (sx_id ?s) (logOf st')"
    using d f st' ext q by simp_all
  ultimately have "rebuildRuntimeFromCommitted D st' ?s = Some (Inr ?s)"
    unfolding rebuild_self using runtimeAtHead_committed [OF D st'(1) _ _ st'(3), of ?s b] f c st' by auto
  then show ?thesis
    using d f c st' sync ext q settled_extend [OF set, of fs] history_extend [OF wf own] lb(3)
    by (simp add: resumable_def session_inv_def history_effects_def steps)
qed

lemma heads_synced_frame:
  "heads_synced sn log \<Longrightarrow> (\<And>b. own (lineage_of sn log') b = own (lineage_of sn log) b \<and> head_of sn log' b = head_of sn log b) \<Longrightarrow>
     heads_synced sn log'"
  by (simp add: heads_synced_def)

lemma resumable_restore:
  assumes D: "dp_ops D = memOps" and inv: "session_inv logOf runtimeConfigs store_ok st s"
    and sync: "heads_synced (sx_id s) (logOf st)" and q: "quiet (sx_id s) (logOf st)"
    and set: "settled (sx_id s) (logOf st) (history_effects (sx_id s) (logOf st) c)"
    and run: "Restore D c now st s = Some (None, st', s')" and len: "length (logOf st') \<le> MaxInt"
  shows "resumable D st' s'"
proof -
  let ?f = "RestoreCompleted \<lparr>rc_Session = sx_id s, rc_TargetCell = c, rc_NewBranch = [], rc_At = now\<rparr>"
  have ok: "store_ok st" and d: "durable (sx_id s) (logOf st) (runtimeConfigs st) (sx_branch s, sx_head s)"
    using inv by (simp_all add: session_inv_def)
  obtain plan lb where plan: "LoadReplayPlan st (sx_id s) c = Some (Inr plan)"
    and load: "loadBranchState D ''session: Restore: replay history: '' ''session: Restore: load static env: ''
             st (sx_id s) plan (pl_Branch plan) (pl_Branch plan) c = Some (Inr lb)"
    and a: "so_AppendFact memOps st ?f = (None, st')" and s': "s' = installLoadedBranchState lb s"
    using run by (auto simp: Restore_def restoreLocked_def D split: option.splits sum.splits prod.splits)
  have st': "store_ok st'" "logOf st' = logOf st @ [?f]" "runtimeConfigs st' = runtimeConfigs st"
    using mem.append_ok [OF ok a] by simp_all
  have len0: "length (logOf st) \<le> MaxInt" using len st' by simp
  note wf = d [unfolded durable_def]
  define b' where "b' = pl_Branch plan"
  have own: "owner (lineage_of (sx_id s) (logOf st)) c = Some b'"
    using mem.load_plan [OF ok _ len0, of "sx_id s" c plan] wf plan by (simp add: b'_def)
  have p: "plan = plan_of (sx_id s) (logOf st) (runtimeConfigs st) c b'"
    using LoadReplayPlan_plan_of [OF _ len0 _ own] wf ok plan by (simp add: store_wf_def)
  note load' = load [folded b'_def, unfolded p]
  note lb = loadBranchState_loaded [OF load']
  show ?thesis
    unfolding s'
  proof (rule installed_resumable [OF D st'(1,2) len _ _ q _ own set])
    show "durable (sx_id s) (logOf st @ [?f]) (runtimeConfigs st') (b', c)"
      using durable_restore [OF d own, of "\<lparr>rc_Session = sx_id s, rc_TargetCell = c, rc_NewBranch = [], rc_At = now\<rparr>"] st' by simp
    show "heads_synced (sx_id s) (logOf st @ [?f])" by (rule heads_synced_frame [OF sync]) (simp add: own_step)
    show "committed_runtime (dp_goja D) (dp_delegate D) (sx_id s) b' (logOf st) (runtimeConfigs st') c =
        Inr (lb_runtime lb, lb_runtimeConfig lb, lb_runtimeHash lb)"
      using loadBranchState_committed [OF load' q] st'(3) by simp
  qed (use lb in \<open>simp_all add: plain_def steps_of_def\<close>)
qed

lemma resumable_fork:
  assumes D: "dp_ops D = memOps" and inv: "session_inv logOf runtimeConfigs store_ok st s"
    and sync: "heads_synced (sx_id s) (logOf st)" and q: "quiet (sx_id s) (logOf st)"
    and set: "settled (sx_id s) (logOf st) (history_effects (sx_id s) (logOf st) c)"
    and new: "b \<noteq> []" "\<not> known (lineage_of (sx_id s) (logOf st)) b"
    and run: "Fork D c b now st s = Some (None, st', s')" and len: "length (logOf st') \<le> MaxInt"
  shows "resumable D st' s'"
proof -
  let ?x = "\<lparr>bc_Session = sx_id s, bc_Branch = b, bc_ParentCell = c, bc_At = now\<rparr>"
  let ?y = "\<lparr>rc_Session = sx_id s, rc_TargetCell = c, rc_NewBranch = b, rc_At = now\<rparr>"
  let ?fs = "[BranchCreated ?x, RestoreCompleted ?y]"
  have ok: "store_ok st" and d: "durable (sx_id s) (logOf st) (runtimeConfigs st) (sx_branch s, sx_head s)"
    using inv by (simp_all add: session_inv_def)
  obtain plan lb st1 where plan: "LoadReplayPlan st (sx_id s) c = Some (Inr plan)"
    and load: "loadBranchState D ''session: Fork: replay history: '' ''session: Fork: load static env: ''
             st (sx_id s) plan b (pl_Branch plan) c = Some (Inr lb)"
    and a: "so_AppendFact memOps st (BranchCreated ?x) = (None, st1)" "so_AppendFact memOps st1 (RestoreCompleted ?y) = (None, st')"
    and s': "s' = installLoadedBranchState lb s"
    using run by (auto simp: Fork_def forkLocked_def D split: option.splits sum.splits prod.splits)
  note l1 = mem.append_ok [OF ok a(1)]
  note l2 = mem.append_ok [OF l1 [THEN conjunct1] a(2)]
  have st': "store_ok st'" "logOf st' = logOf st @ ?fs" "runtimeConfigs st' = runtimeConfigs st" using l1 l2 by simp_all
  have len0: "length (logOf st) \<le> MaxInt" using len st' by simp
  note wf = d [unfolded durable_def]
  define b' where "b' = pl_Branch plan"
  have own: "owner (lineage_of (sx_id s) (logOf st)) c = Some b'"
    using mem.load_plan [OF ok _ len0, of "sx_id s" c plan] wf plan by (simp add: b'_def)
  have p: "plan = plan_of (sx_id s) (logOf st) (runtimeConfigs st) c b'"
    using LoadReplayPlan_plan_of [OF _ len0 _ own] wf ok plan by (simp add: store_wf_def)
  note load' = load [folded b'_def, unfolded p]
  note lb = loadBranchState_loaded [OF load']
  show ?thesis
    unfolding s'
  proof (rule installed_resumable [OF D st'(1,2) len _ _ q _ own set])
    show "durable (sx_id s) (logOf st @ ?fs) (runtimeConfigs st') (b, c)"
      using durable_fork [OF d own, of ?x b ?y] new st' by simp
    show "heads_synced (sx_id s) (logOf st @ ?fs)"
      using head_of_snoc [of "sx_id s" "logOf st @ [BranchCreated ?x]" "RestoreCompleted ?y"]
        lineage_of_snoc [of "sx_id s" "logOf st @ [BranchCreated ?x]" "RestoreCompleted ?y"]
      by (intro heads_synced_frame [OF sync]) (simp add: own_step)
    show "committed_runtime (dp_goja D) (dp_delegate D) (sx_id s) b (logOf st) (runtimeConfigs st') c =
        Inr (lb_runtime lb, lb_runtimeConfig lb, lb_runtimeHash lb)"
      using loadBranchState_committed [OF load' q] st'(3) by simp
  qed (use lb in \<open>simp_all add: plain_def steps_of_def\<close>)
qed

text \<open>
  A delegate is stable at a descriptor when configuring a runtime with the
  state it returned gives the same runtime and state again.
\<close>

definition stable_config :: "('vm, 'v) Goja \<Rightarrow> 'vm Delegate option \<Rightarrow> SessionID \<Rightarrow> BranchID \<Rightarrow> bytes \<Rightarrow> bool" where
  "stable_config G dl sn b cfg \<longleftrightarrow> (case newBranchRuntime G dl sn b cfg ModeLive of
     Inl _ \<Rightarrow> True
   | Inr (rt, cf, h) \<Rightarrow> h \<noteq> [] \<and> newBranchRuntime G dl sn b cf ModeLive = Inr (rt, cf, h))"

lemma unused_attached: "unused sn log \<Longrightarrow> attached_hash sn log = [] \<and> quiet sn log \<and> find_map (attachOf sn) log = None"
  unfolding unused_def
proof (induction log rule: rev_induct)
  case (snoc f log)
  then have "foreign sn f" by simp
  then show ?case
    using snoc by (cases f) (auto simp: attached_hash_def quiet_def transitions_of_snoc find_map_append foreign_def)
qed (simp add: attached_hash_def quiet_def transitions_of_def collect_def)

lemma resumable_start:
  assumes D: "dp_ops D = memOps" and ok: "store_ok st" and new: "unused sn (logOf st)" "b \<noteq> []"
    and stable: "stable_config (dp_goja D) (dp_delegate D) sn b (dp_runtimeConfig D)"
    and run: "StartSession D m sn b now st = (Inr s, st')"
  shows "resumable D st' s"
proof -
  note inv = mem.StartSession_grown [OF ok D new run]
  obtain rt cfg h where rt: "newBranchRuntime (dp_goja D) (dp_delegate D) sn b (dp_runtimeConfig D) ModeLive = Inr (rt, cfg, h)"
    using run by (auto simp: StartSession_def Let_def split: sum.splits)
  obtain x y st1 st2 st3 where a: "so_PutRuntimeConfig memOps st h cfg = (None, st1)" "so_AppendFact memOps st1 (SessionStarted x) = (None, st2)"
      "so_AppendFact memOps st2 (ManifestAttached y) = (None, st3)"
      "so_AppendFact memOps st3 (RuntimeAttached \<lparr>ra_Session = sn, ra_RuntimeHash = h, ra_At = now\<rparr>) = (None, st')"
    and s: "s = newSession D sn b [] h cfg (Some rt)"
    using run rt by (auto simp: StartSession_def Let_def D simp del: memOps_sel split: prod.splits option.splits)
  note l1 = mem.put_ok [OF ok a(1)]
  note l2 = mem.append_ok [OF l1 [THEN conjunct1] a(2)]
  note l3 = mem.append_ok [OF l2 [THEN conjunct1] a(3)]
  note l4 = mem.append_ok [OF l3 [THEN conjunct1] a(4)]
  have h: "h \<noteq> []" "newBranchRuntime (dp_goja D) (dp_delegate D) sn b cfg ModeLive = Inr (rt, cfg, h)"
    using stable rt by (simp_all add: stable_config_def)
  have log: "logOf st' = logOf st @ [SessionStarted x, ManifestAttached y, RuntimeAttached \<lparr>ra_Session = sn, ra_RuntimeHash = h, ra_At = now\<rparr>]"
    and cfg: "runtimeConfigs st' h = Some cfg" using l1 l2 l3 l4 by simp_all
  note u = unused_attached [OF new(1)]
  have "attached_hash sn (logOf st') = h" using u by (simp add: log attached_hash_def find_map_append)
  moreover have "quiet sn (logOf st')"
    using u transitions_of_snoc [of sn "logOf st @ [SessionStarted x, ManifestAttached y]"]
      transitions_of_snoc [of sn "logOf st @ [SessionStarted x]"] by (simp add: log quiet_def transitions_of_snoc)
  moreover have "history (lineage_of sn (logOf st')) [] = []"
    using inv by (intro history_Nil) (auto simp: session_inv_def durable_def)
  moreover have "rebuildRuntimeFromCommitted D st' s = Some (Inr s)"
    unfolding rebuild_self using h(2) by (simp add: s newSession_def runtimeAtHead_def)
  ultimately show ?thesis
    using inv h(1) cfg by (simp add: resumable_def s newSession_def history_effects_def steps_of_def settled_def config_of_def)
qed

lemma active_hash_quiet: "quiet sn log \<Longrightarrow> active_hash sn log b c = attached_hash sn log"
  by (simp add: active_hash_def quiet_def)

text \<open>Opening a resumable session gives its runtime, descriptor, cursor and index again.\<close>

lemma resumable_reopen:
  assumes D: "dp_ops D = memOps" and r: "resumable D st s" and len: "length (logOf st) \<le> MaxInt"
    and run: "OpenSession D (sx_id s) st = Some (Inr s2)"
  shows "sx_id s2 = sx_id s \<and> sx_branch s2 = sx_branch s \<and> sx_head s2 = sx_head s \<and> sx_runtime s2 = sx_runtime s \<and>
    sx_runtimeConfig s2 = sx_runtimeConfig s \<and> sx_runtimeHash s2 = sx_runtimeHash s \<and> sx_currentIndex s2 = sx_currentIndex s"
proof -
  let ?sn = "sx_id s" and ?log = "logOf st" and ?b = "sx_branch s" and ?c = "sx_head s"
  have ok: "store_ok st" and d: "durable ?sn ?log (runtimeConfigs st) (?b, ?c)" and q: "quiet ?sn ?log"
    and cf: "?c = [] \<longrightarrow> sx_runtimeConfig s = config_of (runtimeConfigs st) (attached_hash ?sn ?log)"
    and idx: "sx_currentIndex s = length (history (lineage_of ?sn ?log) ?c)"
    and self: "rebuildRuntimeFromCommitted D st s = Some (Inr s)"
    using r by (simp_all add: resumable_def session_inv_def)
  obtain rt where rt: "sx_runtime s = Some rt"
    and at: "runtimeAtHead D ''init runtime from current config: '' ''load replay plan for runtime rebuild: ''
         ''replay committed runtime state: '' st s = Some (Inr (rt, sx_runtimeConfig s, sx_runtimeHash s))"
    using self unfolding rebuild_self by blast
  note place = mem.OpenSession_place [OF ok D d len run]
  obtain state where ld: "LoadSessionState st ?sn = Some (Inr state)" and os: "openSessionState D st state = Some (Inr s2)"
    using run by (auto simp: OpenSession_def D split: option.splits sum.splits)
  have state: "sst_Session state = ?sn" "sst_Branch state = ?b" "sst_Head state = ?c"
    "sst_RuntimeConfig state = config_of (runtimeConfigs st) (attached_hash ?sn ?log)"
    using mem.load_state [OF ok _ len, of ?sn state] d ld by (auto simp: durable_def active_hash_quiet [OF q])
  have "sx_runtime s2 = Some rt \<and> sx_runtimeConfig s2 = sx_runtimeConfig s \<and> sx_runtimeHash s2 = sx_runtimeHash s"
  proof (cases "?c = []")
    case True
    then have "newBranchRuntime (dp_goja D) (dp_delegate D) ?sn ?b (sst_RuntimeConfig state) ModeLive = Inr (rt, sx_runtimeConfig s, sx_runtimeHash s)"
      using at cf state(4) by (auto simp: runtimeAtHead_def split: sum.splits)
    then show ?thesis
      using os state True by (auto simp: openSessionState_def Let_def installLoadedBranchState_def resetTypeScriptSession_def loadedState_def)
  next
    case False
    obtain plan lb where plan: "LoadReplayPlan st ?sn ?c = Some (Inr plan)"
      and lb: "loadBranchState D ''session: OpenSession: replay history: '' ''session: OpenSession: load static env: '' st ?sn plan ?b ?b ?c = Some (Inr lb)"
      and s2: "s2 = installLoadedBranchState lb (newSession D ?sn ?b ?c (sst_RuntimeHash state) (sst_RuntimeConfig state) None)"
      using os state False by (auto simp: openSessionState_def Let_def D split: option.splits sum.splits)
    have "replayPlanIntoRuntime (dp_goja D) (dp_delegate D) ?sn ?b plan = Inr (rt, sx_runtimeConfig s, sx_runtimeHash s)"
      using at plan False by (auto simp: runtimeAtHead_def D split: sum.splits)
    then have "lb_runtime lb = rt \<and> lb_runtimeConfig lb = sx_runtimeConfig s \<and> lb_runtimeHash lb = sx_runtimeHash s"
      using lb by (auto simp: loadBranchState_def loadedState_def split: option.splits sum.splits)
    then show ?thesis using s2 by (simp add: installLoadedBranchState_def resetTypeScriptSession_def)
  qed
  then show ?thesis using place idx rt by simp
qed

end
