(* ===== verification/Availability.thy ===== *)
theory Availability
  imports Resume
begin

text \<open>
  When the operations that rebuild a runtime succeed on the in-memory store:
  restoring, forking and opening fail only if the replay of the history fails,
  and for a resumable session it does not.
\<close>

text \<open>Every committed cell has its check on record, and the session its manifest.\<close>

definition static_ready :: "SessionID \<Rightarrow> Store \<Rightarrow> bool" where
  "static_ready sn st \<longleftrightarrow> \<not> isl (loadManifestAttached st sn) \<and>
     list_all (\<lambda>cb. static_details sn (logOf st) cb \<noteq> None) (li_commits (lineage_of sn (logOf st)))"

lemma LoadStaticEnv_ready:
  assumes "store_wf sn st" and "known (lineageOf sn st) b" and "c \<noteq> []" and "static_ready sn st"
  shows "\<exists>env. LoadStaticEnv st sn b c = Some (Inr env)"
proof -
  have inv: "lineage_inv (lineageOf sn st)" using assms(1) by (simp add: store_wf_def log_wf_inv)
  obtain m where "loadManifestAttached st sn = Inr m"
    using assms(4) by (cases "loadManifestAttached st sn") (simp_all add: static_ready_def)
  moreover have "loadStaticEnvState st sn b c = Some (Inr (epoch_of sn (logOf st) (branch_history (lineageOf sn st) b c)))"
    using assms subsetD [OF branch_history_subset [OF inv]]
    by (intro loadStaticEnvState_epoch) (simp_all add: static_ready_def list_all_iff del: not_None_eq)
  ultimately show ?thesis by (auto simp: LoadStaticEnv_def split: prod.splits)
qed

lemma loadBranchState_succeeds:
  assumes D: "dp_ops D = memOps" and wf: "store_wf sn st" and kn: "known (lineageOf sn st) eb" and c: "c \<noteq> []" and ready: "static_ready sn st"
    and run: "replayPlanIntoRuntime (dp_goja D) (dp_delegate D) sn b plan = Inr (rt, cf, h)"
  shows "\<exists>lb. loadBranchState D p1 p2 st sn plan b eb c = Some (Inr lb) \<and> lb_runtime lb = rt"
  using LoadStaticEnv_ready [OF wf kn c ready] run by (auto simp: loadBranchState_def loadedState_def D)

lemma Restore_succeeds:
  assumes D: "dp_ops D = memOps" and inv: "session_inv logOf runtimeConfigs store_ok st s" and ready: "static_ready (sx_id s) st"
    and len: "length (logOf st) \<le> MaxInt" and own: "owner (lineageOf (sx_id s) st) c = Some b"
    and run: "replayPlanIntoRuntime (dp_goja D) (dp_delegate D) (sx_id s) b
      (plan_of (sx_id s) (logOf st) (runtimeConfigs st) c b) = Inr (rt, cf, h)"
  shows "\<exists>st' s'. Restore D c now st s = Some (None, st', s') \<and> sx_runtime s' = Some rt"
proof -
  have wf: "store_wf (sx_id s) st" "plan_ready (sx_id s) (logOf st) (runtimeConfigs st)"
    using inv by (simp_all add: session_inv_def durable_def store_wf_def)
  then have c: "c \<noteq> []" "known (lineageOf (sx_id s) st) b"
    using own owner_Nil [of "sx_id s" "logOf st"] known_owner [OF log_wf_inv own] by (auto simp: store_wf_def)
  obtain lb where "loadBranchState D ''session: Restore: replay history: '' ''session: Restore: load static env: '' st (sx_id s)
      (plan_of (sx_id s) (logOf st) (runtimeConfigs st) c b) b b c = Some (Inr lb)" "lb_runtime lb = rt"
    using loadBranchState_succeeds [OF D wf(1) c(2,1) ready run] by blast
  moreover have "pl_Branch (plan_of (sx_id s) (logOf st) (runtimeConfigs st) c b) = b" by (simp add: plan_of_def Let_def)
  ultimately show ?thesis
    using LoadReplayPlan_plan_of [OF wf(1) len wf(2) own]
    by (simp add: Restore_def restoreLocked_def D AppendFact_def installLoadedBranchState_def Let_def)
qed

lemma Fork_succeeds:
  assumes D: "dp_ops D = memOps" and inv: "session_inv logOf runtimeConfigs store_ok st s" and ready: "static_ready (sx_id s) st"
    and len: "length (logOf st) \<le> MaxInt" and own: "owner (lineageOf (sx_id s) st) c = Some b"
    and run: "replayPlanIntoRuntime (dp_goja D) (dp_delegate D) (sx_id s) nb
      (plan_of (sx_id s) (logOf st) (runtimeConfigs st) c b) = Inr (rt, cf, h)"
  shows "\<exists>st' s'. Fork D c nb now st s = Some (None, st', s') \<and> sx_runtime s' = Some rt"
proof -
  have wf: "store_wf (sx_id s) st" "plan_ready (sx_id s) (logOf st) (runtimeConfigs st)"
    using inv by (simp_all add: session_inv_def durable_def store_wf_def)
  then have c: "c \<noteq> []" "known (lineageOf (sx_id s) st) b"
    using own owner_Nil [of "sx_id s" "logOf st"] known_owner [OF log_wf_inv own] by (auto simp: store_wf_def)
  obtain lb where "loadBranchState D ''session: Fork: replay history: '' ''session: Fork: load static env: '' st (sx_id s)
      (plan_of (sx_id s) (logOf st) (runtimeConfigs st) c b) nb b c = Some (Inr lb)" "lb_runtime lb = rt"
    using loadBranchState_succeeds [OF D wf(1) c(2,1) ready run] by blast
  moreover have "pl_Branch (plan_of (sx_id s) (logOf st) (runtimeConfigs st) c b) = b" by (simp add: plan_of_def Let_def)
  ultimately show ?thesis
    using LoadReplayPlan_plan_of [OF wf(1) len wf(2) own]
    by (simp add: Fork_def forkLocked_def D AppendFact_def installLoadedBranchState_def Let_def)
qed

lemma OpenSession_succeeds:
  assumes D: "dp_ops D = memOps" and r: "resumable D st s" and len: "length (logOf st) \<le> MaxInt"
    and ready: "static_ready (sx_id s) st"
  shows "\<exists>s2. OpenSession D (sx_id s) st = Some (Inr s2)"
proof -
  let ?sn = "sx_id s" and ?log = "logOf st" and ?b = "sx_branch s" and ?c = "sx_head s"
  have ok: "store_ok st" and d: "durable ?sn ?log (runtimeConfigs st) (?b, ?c)" and q: "quiet ?sn ?log"
    and cf: "?c = [] \<longrightarrow> sx_runtimeConfig s = config_of (runtimeConfigs st) (attached_hash ?sn ?log)"
    and self: "rebuildRuntimeFromCommitted D st s = Some (Inr s)"
    using r by (simp_all add: resumable_def session_inv_def)
  have wf: "store_wf ?sn st" "log_wf ?sn ?log" "plan_ready ?sn ?log (runtimeConfigs st)" and root: "li_root (lineage_of ?sn ?log) \<noteq> None"
    and cur: "cursor_of ?sn ?log = (?b, ?c)"
    using d ok by (simp_all add: durable_def store_wf_def)
  have kn: "known (lineage_of ?sn ?log) ?b" using durable_cursor_ok [OF d] by (simp add: cursor_ok_def)
  obtain rt where at: "runtimeAtHead D ''init runtime from current config: '' ''load replay plan for runtime rebuild: ''
         ''replay committed runtime state: '' st s = Some (Inr (rt, sx_runtimeConfig s, sx_runtimeHash s))"
    using self unfolding rebuild_self by blast
  obtain state where ld: "LoadSessionState st ?sn = Some (Inr state)"
    using mem.state_total [OF ok wf(2) len wf(3) root] by auto
  have state: "sst_Session state = ?sn" "sst_Branch state = ?b" "sst_Head state = ?c"
    "sst_RuntimeConfig state = config_of (runtimeConfigs st) (attached_hash ?sn ?log)"
    using mem.load_state [OF ok wf(2) len wf(3), of state] cur ld by (auto simp: active_hash_quiet [OF q])
  have "\<exists>s2. openSessionState D st state = Some (Inr s2)"
  proof (cases "?c = []")
    case True
    then show ?thesis using at cf state by (auto simp: runtimeAtHead_def openSessionState_def Let_def split: sum.splits)
  next
    case False
    then obtain plan where plan: "LoadReplayPlan st ?sn ?c = Some (Inr plan)"
      and run: "replayPlanIntoRuntime (dp_goja D) (dp_delegate D) ?sn ?b plan = Inr (rt, sx_runtimeConfig s, sx_runtimeHash s)"
      using at by (auto simp: runtimeAtHead_def D split: option.splits sum.splits)
    show ?thesis
      using loadBranchState_succeeds [OF D wf(1) kn False ready run] False plan state
      by (fastforce simp: openSessionState_def Let_def D)
  qed
  then show ?thesis using ld by (simp add: OpenSession_def D)
qed

end
