(* ===== verification/Session_Example.thy ===== *)
theory Session_Example
  imports Availability
begin

text \<open>
  A small engine on the in-memory store, run once: its program state is a
  number, and its cells call a host function, throw, or just return. The
  witnesses of the session properties are about this run.
\<close>

subsection \<open>A concrete engine\<close>

definition eng_value :: "nat \<Rightarrow> nat evalResult" where
  "eng_value n = \<lparr>ev_completionValue = None, ev_structured = [], ev_indexedValue = n, ev_hasIndexedValue = True\<rparr>"

definition eng_run :: "nat \<Rightarrow> (nat \<rightharpoonup> nat) \<Rightarrow> string \<Rightarrow> string + (nat, nat) js" where
  "eng_run vm vals src =
     (if src = ''call'' then Inr (SyncCall ''f'' ReplayReadonly (Inr [1]) (\<lambda>r. case r of
          HReturn e raw \<Rightarrow> Console ''called'' (Deliver (Inr (eng_value (length raw))) (Halt (vm + 1)))
        | HThrow m \<Rightarrow> Deliver (Inl m) (Halt vm)))
      else if src = ''throw'' then Inr (Deliver (Inl ''boom'') (Halt vm))
      else Inr (Deliver (Inr (eng_value vm)) (Halt (vm + 1))))"

definition eng_goja :: "(nat, nat) Goja" where
  "eng_goja = \<lparr>gj_boot = 0, gj_run = eng_run, gj_setLast = (\<lambda>vm v. Inr vm), gj_undefined = 0,
     gj_isCallable = (\<lambda>_. False), gj_staleCallable = (\<lambda>_. 0), gj_staleMessage = (\<lambda>_. None),
     gj_json = Inr, gj_sha256 = (\<lambda>bs. if bs = [] then ''h'' else ''k''), gj_clock = 0, gj_late = True\<rparr>"

definition eng_deps :: "(Store, nat, nat) SessionDeps" where
  "eng_deps = \<lparr>dp_ops = memOps, dp_goja = eng_goja, dp_delegate = None, dp_runtimeConfig = [],
     dp_runtimeMode = [], dp_tsFactory = None, dp_tsEnvProvider = None, dp_describe = (\<lambda>_. Inl [])\<rparr>"

definition eng_host :: "string \<Rightarrow> hostEnv" where
  "eng_host c = \<lparr>hv_uuid = (\<lambda>n. c @ replicate n CHR ''x''), hv_invoke = (\<lambda>_ _ _. Inr [7]), hv_pick = (\<lambda>_. 0), hv_now = 0\<rparr>"

definition eng_ext :: "CellID \<Rightarrow> submitExt" where
  "eng_ext c = \<lparr>xt_cellID = c, xt_failureID = ''fail'', xt_now = 0, xt_host = eng_host c\<rparr>"

definition eng_manifest :: Manifest where
  "eng_manifest = \<lparr>mf_ID = ''m'', mf_Functions = []\<rparr>"

definition eng_js :: "string \<Rightarrow> SubmitInput" where
  "eng_js src = \<lparr>in_Source = src, in_Language = CellLanguageJavaScript\<rparr>"

text \<open>The session after its start, after a first cell, and after a second.\<close>

definition eng_started where "eng_started = StartSession eng_deps eng_manifest ''s'' ''b'' 0 New"
definition eng_st0 where "eng_st0 = snd eng_started"
definition eng_s0 where "eng_s0 = projr (fst eng_started)"

definition eng_first where "eng_first = (case eng_started of (s, st) \<Rightarrow> the (SubmitCell eng_deps (eng_js ''call'') (eng_ext ''c1'') st (projr s)))"
definition eng_st1 where "eng_st1 = fst (snd eng_first)"
definition eng_s1 where "eng_s1 = snd (snd eng_first)"

definition eng_second where "eng_second = (case eng_first of (_, st, s) \<Rightarrow> the (SubmitCell eng_deps (eng_js ''1'') (eng_ext ''c2'') st s))"
definition eng_st2 where "eng_st2 = fst (snd eng_second)"
definition eng_s2 where "eng_s2 = snd (snd eng_second)"

text \<open>
  From there: a cell that throws, a restore to the first cell, a fork from it, a
  transition to another descriptor, and opening the session again.
\<close>

definition eng_failed where "eng_failed = (case eng_second of (_, st, s) \<Rightarrow> SubmitCell eng_deps (eng_js ''throw'') (eng_ext ''c3'') st s)"
definition eng_moved where "eng_moved = (case eng_second of (_, st, s) \<Rightarrow> TransitionToState eng_deps [5] 0 st s)"
lemma not_isl: "\<not> isl r \<longleftrightarrow> (\<exists>x. r = Inr x)"
  by (cases r) simp_all

lemma eng_evaluated:
  "(case eng_started of (r, st) \<Rightarrow> \<not> isl r \<and> SubmitCell eng_deps (eng_js ''call'') (eng_ext ''c1'') st (projr r) \<noteq> None \<and>
      sx_id (projr r) = ''s'' \<and> length (logOf st) \<le> 20 \<and> owner (lineage_of ''s'' (logOf st)) ''c1'' = None) \<and>
   (case eng_first of (r, st, s) \<Rightarrow> \<not> isl r \<and> SubmitCell eng_deps (eng_js ''1'') (eng_ext ''c2'') st s \<noteq> None \<and>
      sx_id s = ''s'' \<and> sx_head s = ''c1'' \<and> sx_branch s = ''b'' \<and> length (logOf st) \<le> 20 \<and>
      owner (lineage_of ''s'' (logOf st)) ''c2'' = None \<and> sr_Index (projr r) = 1) \<and>
   (case eng_second of (r, st, s) \<Rightarrow> \<not> isl r \<and> sx_id s = ''s'' \<and> sx_head s = ''c2'' \<and> sx_branch s = ''b'' \<and>
      length (logOf st) \<le> 20 \<and> sr_Index (projr r) = 2 \<and>
      owner (lineage_of ''s'' (logOf st)) ''c3'' = None \<and> \<not> known (lineage_of ''s'' (logOf st)) ''b2'' \<and>
      transitions_of ''s'' (logOf st) = [] \<and> head_of ''s'' (logOf st) ''b'' = ''c2'')"
  by code_simp

lemma eng_failed_run: "(case eng_failed of Some (Inl (FailureError sf), st, s) \<Rightarrow> sf_ErrorMessage sf = ''boom'' \<and> length (logOf st) \<le> 20 | _ \<Rightarrow> False)"
  by code_simp

lemma eng_moved_run: "(case eng_second of (_, st0, s0) \<Rightarrow> case TransitionToState eng_deps [5] 0 st0 s0 of
     Some (None, st, s) \<Rightarrow> sx_runtimeHash s = ''k'' \<and> length (logOf st) = Suc (length (logOf st0)) | _ \<Rightarrow> False)"
  by code_simp

lemma eng_replayed: "(case eng_second of (_, st, s) \<Rightarrow> static_ready ''s'' st \<and> owner (lineage_of ''s'' (logOf st)) ''c1'' = Some ''b'' \<and>
    (let plan = plan_of ''s'' (logOf st) (runtimeConfigs st) ''c1'' ''b'' in
     \<not> isl (replayPlanIntoRuntime eng_goja None ''s'' ''b'' plan) \<and> \<not> isl (replayPlanIntoRuntime eng_goja None ''s'' ''b2'' plan)))"
  by code_simp

lemmas eng_defs = eng_first_def eng_st0_def eng_s0_def eng_st1_def eng_s1_def eng_second_def eng_st2_def eng_s2_def

lemma eng_start: "StartSession eng_deps eng_manifest ''s'' ''b'' 0 New = (Inr eng_s0, eng_st0)"
  using eng_evaluated by (auto simp: eng_s0_def eng_st0_def eng_started_def prod_eq_iff case_prod_unfold)

lemma eng_runs:
  "\<exists>out. SubmitCell eng_deps (eng_js ''call'') (eng_ext ''c1'') eng_st0 eng_s0 = Some (Inr out, eng_st1, eng_s1)"
  "\<exists>out. SubmitCell eng_deps (eng_js ''1'') (eng_ext ''c2'') eng_st1 eng_s1 = Some (Inr out, eng_st2, eng_s2)"
  using eng_evaluated by (auto simp: eng_defs not_isl case_prod_unfold)

lemma eng_facts:
  "sx_id eng_s0 = ''s''" "sx_id eng_s1 = ''s''" "sx_id eng_s2 = ''s''"
  "sx_branch eng_s1 = ''b''" "sx_head eng_s1 = ''c1''" "sx_branch eng_s2 = ''b''" "sx_head eng_s2 = ''c2''"
  "owner (lineage_of ''s'' (logOf eng_st0)) ''c1'' = None" "owner (lineage_of ''s'' (logOf eng_st1)) ''c2'' = None"
  "length (logOf eng_st0) \<le> MaxInt" "length (logOf eng_st1) \<le> MaxInt" "length (logOf eng_st2) \<le> 20"
  "owner (lineage_of ''s'' (logOf eng_st2)) ''c3'' = None" "\<not> known (lineage_of ''s'' (logOf eng_st2)) ''b2''"
  "transitions_of ''s'' (logOf eng_st2) = []"
  using eng_evaluated by (auto simp: eng_st0_def eng_s0_def eng_st1_def eng_s1_def eng_st2_def eng_s2_def case_prod_unfold MaxInt_def)


lemma eng_ops: "dp_ops eng_deps = memOps"
  by (simp add: eng_deps_def)

lemma eng_new: "store_ok New" "unused ''s'' (logOf New)"
  by (simp_all add: New_def store_ok_def unused_def logOf_def)

lemma eng_inv:
  "session_inv logOf runtimeConfigs store_ok eng_st0 eng_s0" "heads_synced ''s'' (logOf eng_st0)"
  using mem.StartSession_grown [OF eng_new(1) eng_ops eng_new(2) _ eng_start] by auto

lemma eng_steps: "session_steps eng_deps logOf runtimeConfigs store_ok (eng_st0, eng_s0) (eng_st2, eng_s2)"
proof -
  have "session_step eng_deps logOf runtimeConfigs store_ok (eng_st0, eng_s0) (eng_st1, eng_s1)"
    using eng_runs(1) eng_facts by (auto simp: eng_ext_def intro!: session_step.submit)
  moreover have "session_step eng_deps logOf runtimeConfigs store_ok (eng_st1, eng_s1) (eng_st2, eng_s2)"
    using eng_runs(2) eng_facts by (auto simp: eng_ext_def intro!: session_step.submit)
  ultimately show ?thesis by (meson converse_rtranclp_into_rtranclp rtranclp.rtrancl_refl)
qed

lemma eng_at2:
  "session_inv logOf runtimeConfigs store_ok eng_st2 eng_s2" "heads_synced ''s'' (logOf eng_st2)" "quiet ''s'' (logOf eng_st2)"
  "static_ready ''s'' eng_st2" "owner (lineage_of ''s'' (logOf eng_st2)) ''c1'' = Some ''b''" "length (logOf eng_st2) \<le> MaxInt"
proof -
  note c = mem.SubmitCell_committed [OF eng_ops]
  have "session_inv logOf runtimeConfigs store_ok eng_st1 eng_s1" "heads_synced ''s'' (logOf eng_st1)"
    using c(3,4) [OF eng_inv(1) _ _ _ _] eng_runs(1) eng_inv eng_facts by (auto simp: eng_ext_def)
  then show "session_inv logOf runtimeConfigs store_ok eng_st2 eng_s2" "heads_synced ''s'' (logOf eng_st2)"
    using c(3,4) [of eng_st1 eng_s1] eng_runs(2) eng_facts by (auto simp: eng_ext_def)
qed (use eng_facts eng_replayed in \<open>auto simp: quiet_def eng_st2_def MaxInt_def case_prod_unfold\<close>)

text \<open>The states after the throwing cell, the restore, the fork, the transition and the reopening.\<close>

definition eng_st3 where "eng_st3 = fst (snd (the eng_failed))"
definition eng_s3 where "eng_s3 = snd (snd (the eng_failed))"
definition eng_st4 where "eng_st4 = fst (snd (the (Restore eng_deps ''c1'' 0 eng_st2 eng_s2)))"
definition eng_s4 where "eng_s4 = snd (snd (the (Restore eng_deps ''c1'' 0 eng_st2 eng_s2)))"
definition eng_st5 where "eng_st5 = fst (snd (the (Fork eng_deps ''c1'' ''b2'' 0 eng_st2 eng_s2)))"
definition eng_s5 where "eng_s5 = snd (snd (the (Fork eng_deps ''c1'' ''b2'' 0 eng_st2 eng_s2)))"
definition eng_st6 where "eng_st6 = fst (snd (the eng_moved))"
definition eng_s6 where "eng_s6 = snd (snd (the eng_moved))"

lemma eng_more:
  "\<exists>sf. SubmitCell eng_deps (eng_js ''throw'') (eng_ext ''c3'') eng_st2 eng_s2 = Some (Inl (FailureError sf), eng_st3, eng_s3) \<and>
     sf_ErrorMessage sf = ''boom''"
  "TransitionToState eng_deps [5] 0 eng_st2 eng_s2 = Some (None, eng_st6, eng_s6)"
  "sx_runtimeHash eng_s6 = ''k''" "length (logOf eng_st6) = Suc (length (logOf eng_st2))"
  using eng_failed_run eng_moved_run
  by (auto simp: eng_failed_def eng_moved_def eng_st2_def eng_s2_def eng_st3_def eng_s3_def eng_st6_def eng_s6_def
        case_prod_unfold split: option.splits sum.splits SubmitError.splits prod.splits)

lemma eng_plan:
  "\<exists>r. replayPlanIntoRuntime (dp_goja eng_deps) (dp_delegate eng_deps) ''s'' ''b''
     (plan_of ''s'' (logOf eng_st2) (runtimeConfigs eng_st2) ''c1'' ''b'') = Inr r"
  "\<exists>r. replayPlanIntoRuntime (dp_goja eng_deps) (dp_delegate eng_deps) ''s'' ''b2''
     (plan_of ''s'' (logOf eng_st2) (runtimeConfigs eng_st2) ''c1'' ''b'') = Inr r"
  using eng_replayed by (auto simp: eng_st2_def eng_deps_def case_prod_unfold Let_def not_isl)

lemma eng_branched:
  "Restore eng_deps ''c1'' 0 eng_st2 eng_s2 = Some (None, eng_st4, eng_s4)"
  "Fork eng_deps ''c1'' ''b2'' 0 eng_st2 eng_s2 = Some (None, eng_st5, eng_s5)"
  using Restore_succeeds [OF eng_ops eng_at2(1), where c = "''c1''" and b = "''b''" and now = 0]
    Fork_succeeds [OF eng_ops eng_at2(1), where c = "''c1''" and b = "''b''" and nb = "''b2''" and now = 0]
    eng_plan eng_at2 eng_facts
  by (auto simp: eng_st4_def eng_s4_def eng_st5_def eng_s5_def)

text \<open>After the restore the cursor is behind the head of the branch.\<close>

lemma eng_stale: "head_of (sx_id eng_s4) (logOf eng_st4) (sx_branch eng_s4) \<notin> {[], sx_head eng_s4}"
proof -
  have d: "store_ok eng_st2" "durable ''s'' (logOf eng_st2) (runtimeConfigs eng_st2) (''b'', ''c2'')"
    using eng_at2(1) eng_facts by (simp_all add: session_inv_def)
  have g: "logOf eng_st4 = logOf eng_st2 @ [RestoreCompleted \<lparr>rc_Session = ''s'', rc_TargetCell = ''c1'', rc_NewBranch = [], rc_At = 0\<rparr>]"
    "sx_id eng_s4 = ''s''" "sx_head eng_s4 = ''c1''" "sx_branch eng_s4 = ''b''"
    using mem.Restore_grown [OF d(1) eng_ops eng_branched(1) _ eng_at2(6)] d(2) eng_at2(5) eng_facts by (simp_all add: grown_def)
  have "head_of ''s'' (logOf eng_st2) ''b'' = ''c2''"
    using eng_evaluated by (simp add: eng_st2_def case_prod_unfold)
  then show ?thesis by (simp add: g)
qed

subsection \<open>The run is resumable\<close>

text \<open>No effect of the log is named after the cell.\<close>

definition eng_unnamed :: "CellID \<Rightarrow> Fact list \<Rightarrow> bool" where
  "eng_unnamed c log = list_all (\<lambda>f. case f of EffectStarted x \<Rightarrow> take 2 (es_Effect x) \<noteq> c
     | EffectCompleted x \<Rightarrow> take 2 (ec_Effect x) \<noteq> c | _ \<Rightarrow> True) log"

lemma eng_fresh:
  assumes "eng_unnamed c log" and "length c = 2"
  shows "fresh_from ''s'' (eng_host c) log newAccumulator 0"
proof -
  have c: "take 2 (c @ xs) = c" for xs using assms(2) by simp
  have "startedOf ''s'' e f = None" "resultOf ''s'' e f = None" if "f \<in> set log" "take 2 e = c" for f e
    using bspec [OF assms(1) [unfolded eng_unnamed_def list_all_iff] that(1)] that(2) by (cases f; auto)+
  from this [OF _ c] have "startedOf ''s'' (c @ xs) f = None" "resultOf ''s'' (c @ xs) f = None" if "f \<in> set log" for f xs
    using that by blast+
  then show ?thesis by (simp add: fresh_from_def eng_host_def newAccumulator_def find_map_None_iff)
qed

lemma eng_uuids: "inj (hv_uuid (eng_host c))"
  by (rule injI) (metis eng_host_def hostEnv.select_convs(1) length_replicate same_append_eq)

lemma eng_replayable:
  assumes "eng_unnamed c (logOf st)" and "length c = 2" and "sx_id s = ''s''"
  shows "cell_replayable eng_deps (eng_js src) (eng_ext c) st s"
proof -
  have "replayable ops sn cell (eng_host c) t False (newCellRun st' 0)"
    if "eng_run vm vals source = Inr t" for ops :: "Store StoreOps" and sn cell st' vm vals source t
    using that by (auto simp: eng_run_def call_ok_def eng_host_def ReplayReadonly_def ReplayNonReplayable_def split: if_splits hostReply.splits prod.splits)
  then show ?thesis
    using assms eng_fresh [OF assms(1,2)] eng_uuids by (auto simp: cell_replayable_def eng_ext_def eng_deps_def eng_goja_def)
qed

lemma eng_named: "eng_unnamed ''c1'' (logOf (snd eng_started))" "(case eng_first of (_, st, _) \<Rightarrow> eng_unnamed ''c2'' (logOf st))"
  by code_simp+

lemma eng_stable: "stable_config (dp_goja eng_deps) (dp_delegate eng_deps) ''s'' ''b'' (dp_runtimeConfig eng_deps)"
  by (simp add: stable_config_def newBranchRuntime_def resolveRuntimeDescriptor_def normalizeRuntimeConfig_def runtimeConfigHash_def
      eng_deps_def eng_goja_def Let_def)

lemma eng_resumable: "resumable eng_deps eng_st0 eng_s0" "resumable eng_deps eng_st1 eng_s1" "resumable eng_deps eng_st2 eng_s2"
proof -
  show st0: "resumable eng_deps eng_st0 eng_s0"
    by (rule resumable_start [OF eng_ops eng_new _ eng_stable eng_start]) simp
  show st1: "resumable eng_deps eng_st1 eng_s1"
    using resumable_submit [OF eng_ops st0 _ _ _ eng_replayable [of "''c1''"], of "''call''"] eng_runs(1) eng_named(1) eng_facts
    by (auto simp: eng_ext_def eng_st0_def)
  show "resumable eng_deps eng_st2 eng_s2"
    using resumable_submit [OF eng_ops st1 _ _ _ eng_replayable [of "''c2''"], of "''1''"] eng_runs(2) eng_named(2) eng_facts eng_at2(6)
    by (auto simp: eng_ext_def eng_st1_def case_prod_unfold)
qed

lemma eng_reopens: "\<exists>s'. OpenSession eng_deps ''s'' eng_st2 = Some (Inr s')"
  using OpenSession_succeeds [OF eng_ops eng_resumable(3) eng_at2(6)] eng_at2 eng_facts by simp

end
