(* ===== verification/Sqlite_Claims.thy ===== *)
theory Sqlite_Claims
  imports Sqlite_State Session_Example
begin

text \<open>
  The properties of the SQLite store: its agrees are those of the in-memory
  store, its writes keep the invariant, and what happens when a session that
  has been restored is opened again. The witnesses run on a database that the
  append operation fills with a given log, with a codec that numbers the facts
  of a table.
\<close>

subsection \<open>A database with a given log\<close>

fun posOf :: "'a \<Rightarrow> 'a list \<Rightarrow> nat" where
  "posOf x [] = 0"
| "posOf x (y # ys) = (if x = y then 0 else Suc (posOf x ys))"

definition tableCodec :: "Fact list \<Rightarrow> jsonCodec" where
  "tableCodec tbl = \<lparr>js_marshal = (\<lambda>f. if f \<in> set tbl then Inr (replicate (posOf f tbl) CHR ''x'') else Inl ''unknown''),
     js_unmarshal = (\<lambda>_ p. if length p < length tbl then Inr (tbl ! length p) else Inl ''unknown'')\<rparr>"

definition emptySql :: "jsonCodec \<Rightarrow> (string \<rightharpoonup> bytes) \<Rightarrow> sqlStore" where
  "emptySql js cfg = \<lparr>sq_rows = [], sq_seq = 0, sq_configs = cfg, sq_json = js,
     sq_fail = (\<lambda>_ _ _. None), sq_writes = 0\<rparr>"

definition sqlOf :: "Fact list \<Rightarrow> (string \<rightharpoonup> bytes) \<Rightarrow> sqlStore" where
  "sqlOf fs cfg = foldl (\<lambda>s f. snd (AppendFact_sql s f)) (emptySql (tableCodec fs) cfg) fs"

lemma posOf_nth: "x \<in> set xs \<Longrightarrow> posOf x xs < length xs \<and> xs ! posOf x xs = x"
  by (induction xs) auto

lemma tableCodec_ok: "codec_ok (tableCodec tbl)"
  by (auto simp: codec_ok_def tableCodec_def posOf_nth)

lemma appends_fill:
  assumes "sql_ok s" and "faultless s" and "sq_json s = tableCodec tbl" and "set fs \<subseteq> set tbl"
  shows "let s' = foldl (\<lambda>s f. snd (AppendFact_sql s f)) s fs in
    sql_ok s' \<and> faultless s' \<and> sqlLog s' = sqlLog s @ fs \<and> sqlConfigs s' = sqlConfigs s"
  using assms
proof (induction fs arbitrary: s)
  case (Cons f fs)
  obtain a b c where "extractIndexColumns f = (a, b, c)" by (cases "extractIndexColumns f")
  then obtain s' where app: "AppendFact_sql s f = (None, s')"
    using Cons.prems by (auto simp: AppendFact_sql_def tableCodec_def faultless_def sqlErr_def)
  have "sql_ok s'" "sqlLog s' = sqlLog s @ [f]" "sqlConfigs s' = sqlConfigs s" "faultless s'" "sq_json s' = tableCodec tbl"
    using AppendFact_sql_ok [OF Cons.prems(1) app] AppendFact_sql_keeps [OF app] Cons.prems by (simp_all add: faultless_def)
  then show ?case using Cons.IH [of s'] Cons.prems(4) app by (simp add: Let_def)
qed (simp add: Let_def)

lemma sqlOf_sel:
  "sql_ok (sqlOf fs cfg)" "faultless (sqlOf fs cfg)" "sqlLog (sqlOf fs cfg) = fs"
  "sqlConfigs (sqlOf fs cfg) = cfg([] \<mapsto> [])"
proof -
  let ?s = "emptySql (tableCodec fs) cfg"
  have "sql_ok ?s" "faultless ?s" "sqlLog ?s = []" "sqlConfigs ?s = cfg([] \<mapsto> [])"
    using tableCodec_ok by (simp_all add: emptySql_def sql_ok_def faultless_def sqlLog_def sqlConfigs_def)
  moreover have "sq_json ?s = tableCodec fs" by (simp add: emptySql_def)
  ultimately show "sql_ok (sqlOf fs cfg)" "faultless (sqlOf fs cfg)" "sqlLog (sqlOf fs cfg) = fs"
      "sqlConfigs (sqlOf fs cfg) = cfg([] \<mapsto> [])"
    unfolding sqlOf_def using appends_fill [of ?s fs fs] by (auto simp: Let_def)
qed

text \<open>The log of the run of \<open>Session_Example\<close>, after two cells, in a database.\<close>

definition eng_db :: sqlStore where
  "eng_db = sqlOf (logOf eng_st2) (runtimeConfigs eng_st2)"

lemma plan_ready_sqlConfigs: "plan_ready sn log cfg \<Longrightarrow> plan_ready sn log (cfg([] \<mapsto> []))"
  unfolding plan_ready_def by (erule list.pred_mono_strong) (auto simp: config_stored_def split: Fact.splits)

lemma eng_db_facts:
  "sql_ok eng_db" "faultless eng_db" "sqlLog eng_db = logOf eng_st2" "store_wf ''s'' (memOf eng_db)"
  "plan_ready ''s'' (sqlLog eng_db) (sqlConfigs eng_db)" "known (lineage_of ''s'' (sqlLog eng_db)) ''b''"
  "head_of ''s'' (sqlLog eng_db) ''b'' = ''c2''"
proof -
  have d: "durable ''s'' (logOf eng_st2) (runtimeConfigs eng_st2) (''b'', ''c2'')"
    using eng_at2(1) eng_facts by (simp add: session_inv_def)
  show "sql_ok eng_db" "faultless eng_db" and log: "sqlLog eng_db = logOf eng_st2" by (simp_all add: eng_db_def sqlOf_sel)
  show "store_wf ''s'' (memOf eng_db)" using d by (simp add: store_wf_def log durable_def)
  show "plan_ready ''s'' (sqlLog eng_db) (sqlConfigs eng_db)"
    using d plan_ready_sqlConfigs by (simp add: durable_def log eng_db_def sqlOf_sel)
  show "known (lineage_of ''s'' (sqlLog eng_db)) ''b''" using durable_cursor_ok [OF d] by (simp add: log cursor_ok_def)
  show "head_of ''s'' (sqlLog eng_db) ''b'' = ''c2''"
    using eng_evaluated by (simp add: log eng_st2_def case_prod_unfold)
qed

subsection \<open>Completion orders\<close>

definition completedAt :: "sqlStore \<Rightarrow> SessionID \<Rightarrow> nat \<Rightarrow> bool" where
  "completedAt s sn n \<longleftrightarrow>
     n = 0 \<or> (\<exists>r \<in> set (sq_rows s). rw_session r = sn \<and> rw_type r = ''EffectCompleted'' \<and> rw_id r = n)"

lemma completionRank_less:
  assumes "completedAt s sn n" and "completedAt s sn m"
  shows "completionRank s sn n < completionRank s sn m \<longleftrightarrow> n < m"
proof -
  have mono: "completionRank s sn a < completionRank s sn b" if "completedAt s sn b" "a < b" for a b
    using that completionRank_mono [of _ s sn a] by (auto simp: completedAt_def)
  show ?thesis using mono [of n m] mono [of m n] assms by (cases n m rule: linorder_cases) auto
qed

lemma loadReplayDecision_completedAt:
  assumes ok: "sql_ok s" and "loadReplayDecision (memOf s) sn ef = Inr d"
  shows "completedAt s sn (rd_CompletionOrder d)"
proof -
  have "completedAt s sn (rw_id r)" if "completionRow s sn ef = Some (r, x)" for r x
  proof -
    from find_map_SomeD [OF that [unfolded completionRow_def]] obtain r' where
      r': "r' \<in> set (sq_rows s)" "completionOf sn ef (factOf s r') = Some x" "r' = r" by auto
    then obtain f where "factOf s r = EffectCompleted f" "ec_Session f = sn"
      by (cases "factOf s r") (auto split: if_splits)
    moreover have "r \<in> set (sq_rows s)" using r' by simp
    ultimately have "rw_session r = sn" "rw_type r = ''EffectCompleted''" by (simp_all add: row_cols [OF ok])
    with \<open>r \<in> set (sq_rows s)\<close> show ?thesis unfolding completedAt_def by blast
  qed
  then show ?thesis
    using assms(2) by (auto simp: mem_loadReplayDecision [OF ok] completedAt_def split: option.splits)
qed

definition allCompleted :: "sqlStore \<Rightarrow> SessionID \<Rightarrow> (EffectID \<rightharpoonup> ReplayDecision) \<Rightarrow> bool" where
  "allCompleted s sn D \<longleftrightarrow> (\<forall>d \<in> ran D. completedAt s sn (rd_CompletionOrder d))"

lemma allCompleted_upd:
  "allCompleted s sn D \<Longrightarrow> completedAt s sn (rd_CompletionOrder d) \<Longrightarrow> allCompleted s sn (D(ef \<mapsto> d))"
  by (auto simp: allCompleted_def ran_def)

lemma decisionsForEffects_completed:
  assumes "sql_ok s"
  shows "decisionsForEffects (memOf s) sn D efs = Inr D' \<Longrightarrow> allCompleted s sn D \<Longrightarrow> allCompleted s sn D'"
proof (induction efs arbitrary: D)
  case (Cons ef efs)
  show ?case
  proof (cases "D ef")
    case None
    with Cons.prems obtain d where d: "loadReplayDecision (memOf s) sn ef = Inr d"
      "decisionsForEffects (memOf s) sn (D(ef \<mapsto> d)) efs = Inr D'" by auto
    show ?thesis
      by (rule Cons.IH [OF d(2)], rule allCompleted_upd [OF Cons.prems(2)], rule loadReplayDecision_completedAt [OF assms d(1)])
  qed (use Cons in simp)
qed simp

lemma decisionsForSteps_completed:
  "sql_ok s \<Longrightarrow> decisionsForSteps (memOf s) sn D steps = Inr D' \<Longrightarrow> allCompleted s sn D \<Longrightarrow> allCompleted s sn D'"
  by (induction steps arbitrary: D) (auto dest: decisionsForEffects_completed)

lemma plan_completed:
  "sql_ok s \<Longrightarrow> LoadReplayPlan (memOf s) sn c = Some (Inr p) \<Longrightarrow> pl_Session p = sn \<and> allCompleted s sn (pl_Decisions p)"
  by (auto simp: LoadReplayPlan_def buildReplayDecisions_def allCompleted_def [of s sn Map.empty]
           dest!: decisionsForSteps_completed)

subsection \<open>Answers\<close>

lemma agrees_same: "agrees s (=) a b \<Longrightarrow> faultless s \<Longrightarrow> (a = Inr x) = (b = Inr x)"
  by (cases a; cases b) (auto simp: agrees_def)

lemma cagrees_same: "cagrees s (=) a b \<Longrightarrow> faultless s \<Longrightarrow> (a = Some (Inr x)) = (b = Some (Inr x))"
  using cagrees_Inr [of s "(=)" a b x] cagrees_faultless [of s "(=)" a b x] by auto

text \<open>
  C13. On a database whose driver does not fail, the SQLite store answers as the
  in-memory store with the same log and descriptors does: the head of a branch,
  the static environment, the failures, the effects of a cell and a descriptor
  are found by the one exactly when they are found by the other, and are equal.
  So is the session cursor, as long as the session has no restore that makes no
  branch.
\<close>

theorem sqlite_answers_as_mem:
  assumes "sql_ok s" and "faultless s"
  shows "(LoadHead_sql s sn b = Inr hr \<longleftrightarrow> LoadHead (memOf s) sn b = Inr hr) \<and>
    (LoadStaticEnv_sql s sn b c = Some (Inr env) \<longleftrightarrow> LoadStaticEnv (memOf s) sn b c = Some (Inr env)) \<and>
    (LoadFailures_sql s sn = Inr fails \<longleftrightarrow> LoadFailures (memOf s) sn = Inr fails) \<and>
    (LoadCellEffects_sql s sn c = Inr effs \<longleftrightarrow> LoadCellEffects (memOf s) sn c = Inr effs) \<and>
    (LoadRuntimeConfig_sql s h = Inr cfg \<longleftrightarrow> LoadRuntimeConfig (memOf s) h = Inr cfg) \<and>
    (\<not> list_ex (plainRestore sn) (sqlLog s) \<longrightarrow>
      LoadSessionState_sql s sn = Some (Inr st) \<longleftrightarrow> LoadSessionState (memOf s) sn = Some (Inr st))"
  by (intro conjI impI agrees_same [OF _ assms(2)] cagrees_same [OF _ assms(2)] LoadHead_agree LoadStaticEnv_agree
      LoadFailures_agree LoadCellEffects_agree LoadRuntimeConfig_agree LoadSessionState_agree assms)

theorem sqlite_answers_as_mem_witness:
  "LoadHead_sql eng_db ''s'' ''b'' = Inr \<lparr>hr_Session = ''s'', hr_Branch = ''b'', hr_Head = ''c2''\<rparr>"
  using sqlite_answers_as_mem [OF eng_db_facts(1,2), of "''s''" "''b''"] LoadHead_known [OF eng_db_facts(4)] eng_db_facts(6,7)
  by simp

text \<open>
  C14. A replay plan of the SQLite store is the plan of the in-memory store but
  for the completion numbers of its decisions: those are ranks among the
  completions of the session instead of log positions, and any two effects of
  the plan completed in the same order by both.
\<close>

theorem sqlite_plan_is_mem_plan:
  assumes "sql_ok s" and "LoadReplayPlan_sql s sn c = Some (Inr p)"
  shows "\<exists>p'. LoadReplayPlan (memOf s) sn c = Some (Inr p') \<and> p = p'\<lparr>pl_Decisions := pl_Decisions p\<rparr> \<and>
    (\<forall>e. rel_option (\<lambda>d d'. d = d'\<lparr>rd_CompletionOrder := rd_CompletionOrder d\<rparr>) (pl_Decisions p e) (pl_Decisions p' e)) \<and>
    (\<forall>e1 e2 d1 d2. pl_Decisions p' e1 = Some d1 \<longrightarrow> pl_Decisions p' e2 = Some d2 \<longrightarrow>
      rd_CompletionOrder (the (pl_Decisions p e1)) < rd_CompletionOrder (the (pl_Decisions p e2)) \<longleftrightarrow>
      rd_CompletionOrder d1 < rd_CompletionOrder d2)"
proof -
  from cagrees_Inr [OF LoadReplayPlan_agree [OF assms(1)] assms(2)] obtain p' where
    p': "LoadReplayPlan (memOf s) sn c = Some (Inr p')" "p = rankedPlan s p'" by blast
  have p: "p = p'\<lparr>pl_Decisions := rankedAll s sn (pl_Decisions p')\<rparr>" and all: "allCompleted s sn (pl_Decisions p')"
    using plan_completed [OF assms(1) p'(1)] p'(2) by (simp_all add: rankedPlan_def)
  have "rel_option (\<lambda>d d'. d = d'\<lparr>rd_CompletionOrder := rd_CompletionOrder d\<rparr>) (pl_Decisions p e) (pl_Decisions p' e)" for e
    by (cases "pl_Decisions p' e") (simp_all add: p rankedAll_def ranked_def)
  moreover have "rd_CompletionOrder (the (pl_Decisions p e1)) < rd_CompletionOrder (the (pl_Decisions p e2)) \<longleftrightarrow>
      rd_CompletionOrder d1 < rd_CompletionOrder d2"
    if "pl_Decisions p' e1 = Some d1" "pl_Decisions p' e2 = Some d2" for e1 e2 d1 d2
    using completionRank_less [of s sn "rd_CompletionOrder d1" "rd_CompletionOrder d2"] all that
    by (auto simp: p rankedAll_def ranked_def allCompleted_def intro: ranI)
  ultimately show ?thesis using p'(1) p by auto
qed

theorem sqlite_plan_is_mem_plan_witness:
  "\<exists>p p'. LoadReplayPlan_sql eng_db ''s'' ''c1'' = Some (Inr p) \<and> LoadReplayPlan (memOf eng_db) ''s'' ''c1'' = Some (Inr p') \<and>
     pl_Steps p = pl_Steps p'"
proof -
  have "LoadReplayPlan (memOf eng_db) ''s'' ''c1'' \<in> range (\<lambda>p. Some (Inr p))"
    using LoadReplayPlan_plan_of [OF eng_db_facts(4)] eng_db_facts(3,5) eng_at2(5,6) by simp
  then obtain p where p: "LoadReplayPlan_sql eng_db ''s'' ''c1'' = Some (Inr p)"
    using cagrees_faultless [OF LoadReplayPlan_agree [OF eng_db_facts(1)] eng_db_facts(2)] by blast
  from sqlite_plan_is_mem_plan [OF eng_db_facts(1) p] obtain p' where
    "LoadReplayPlan (memOf eng_db) ''s'' ''c1'' = Some (Inr p')" "p = p'\<lparr>pl_Decisions := pl_Decisions p\<rparr>" by blast
  then show ?thesis using p by (metis (no_types) ReplayPlan.select_convs ReplayPlan.surjective ReplayPlan.update_convs)
qed

subsection \<open>Reopening a restored session\<close>

text \<open>
  C15. Once a session in a SQLite database has been restored to a cell without
  making a branch, as \<open>Restore\<close> does, no new handle to it can be made:
  \<open>OpenSession\<close>, \<open>RestoreSession\<close> and \<open>ForkSession\<close> never return, because reading
  the session cursor queries the database while its own cursor holds the only
  connection. The in-memory store reads the cursor of the same log.
\<close>

theorem sqlite_restored_session_never_opens:
  assumes "dp_ops D = sqlOps" and "sql_ok st" and "faultless st"
    and "durable sn (sqlLog st) (sqlConfigs st) cur" and "length (sqlLog st) \<le> MaxInt"
    and "list_ex (plainRestore sn) (sqlLog st)"
  shows "OpenSession D sn st = None \<and> RestoreSession D sn c now st = None \<and> ForkSession D sn c b now st = None \<and>
    (\<exists>state. LoadSessionState (memOf st) sn = Some (Inr state) \<and> (sst_Branch state, sst_Head state) = cur)"
proof -
  have wf: "store_wf sn (memOf st)" "log_wf sn (sqlLog st)" and ready: "plan_ready sn (sqlLog st) (sqlConfigs st)"
    and root: "li_root (lineage_of sn (sqlLog st)) \<noteq> None" and cur: "cursor_of sn (sqlLog st) = cur"
    using assms(4) by (simp_all add: durable_def store_wf_def)
  have "\<exists>x. loadSessionStarted (memOf st) sn = Inr x"
    using root_found [of "memOf st" sn] wf(2) root by auto
  then have block: "LoadSessionState_sql st sn = None"
    using LoadSessionState_sql_blocks [OF assms(2,3) _ assms(6)] by blast
  obtain state where state: "LoadSessionState (memOf st) sn = Some (Inr state)"
    using mem.state_total [of "memOf st" sn] wf(2) assms(5) ready root by auto
  have "(sst_Branch state, sst_Head state) = cur"
    using mem_load_state [OF wf(1) _ _ state] assms(5) ready cur by simp
  then show ?thesis
    using block state by (simp add: OpenSession_def RestoreSession_def ForkSession_def bootstrapExistingSession_def assms(1) thenOn_def)
qed

definition eng_sql_deps :: "(sqlStore, nat, nat) SessionDeps" where
  "eng_sql_deps = \<lparr>dp_ops = sqlOps, dp_goja = eng_goja, dp_delegate = None, dp_runtimeConfig = [],
     dp_runtimeMode = [], dp_tsFactory = None, dp_tsEnvProvider = None, dp_describe = (\<lambda>_. Inl [])\<rparr>"

theorem sqlite_restored_session_never_opens_witness:
  "OpenSession eng_sql_deps ''s'' (sqlOf (logOf eng_st4) (runtimeConfigs eng_st4)) = None"
proof -
  let ?db = "sqlOf (logOf eng_st4) (runtimeConfigs eng_st4)"
  have inv: "session_inv logOf runtimeConfigs store_ok eng_st4 eng_s4"
    using mem.session_step_inv [OF eng_ops session_step.restore [OF eng_branched(1)]] eng_at2 by blast
  have g: "logOf eng_st4 = logOf eng_st2 @ [RestoreCompleted \<lparr>rc_Session = ''s'', rc_TargetCell = ''c1'', rc_NewBranch = [], rc_At = 0\<rparr>]"
    "sx_id eng_s4 = ''s''"
    using mem.Restore_grown [OF _ eng_ops eng_branched(1) _ eng_at2(6)] eng_at2(1,5) eng_facts
    by (auto simp: grown_def session_inv_def)
  have "durable ''s'' (sqlLog ?db) (sqlConfigs ?db) (sx_branch eng_s4, sx_head eng_s4)"
    using inv g(2) plan_ready_sqlConfigs by (simp add: session_inv_def durable_def sqlOf_sel)
  moreover have "length (sqlLog ?db) \<le> MaxInt" using eng_facts by (simp add: sqlOf_sel g(1) MaxInt_def)
  moreover have "list_ex (plainRestore ''s'') (sqlLog ?db)" by (simp add: sqlOf_sel g(1))
  moreover have "dp_ops eng_sql_deps = sqlOps" by (simp add: eng_sql_deps_def)
  ultimately show ?thesis using sqlite_restored_session_never_opens [OF _ sqlOf_sel(1,2)] by blast
qed

subsection \<open>Writes\<close>

text \<open>
  Writes keep the invariant of the database whether or not they succeed. An
  append adds its fact to the log or leaves log and descriptors alone; a put
  leaves the log alone and changes no stored descriptor, and one that succeeds
  stores a descriptor that can be read back.
\<close>

theorem sqlite_writes_keep_invariant:
  assumes "sql_ok s" and "AppendFact_sql s f = (e, s1)" and "PutRuntimeConfig_sql s h cfg = (e', s2)"
  shows "sql_ok s1 \<and> sqlLog s1 = sqlLog s @ (if e = None then [f] else []) \<and> sqlConfigs s1 = sqlConfigs s \<and>
    sql_ok s2 \<and> sqlLog s2 = sqlLog s \<and> sqlConfigs s \<subseteq>\<^sub>m sqlConfigs s2 \<and>
    (e' = None \<longrightarrow> faultless s \<longrightarrow> LoadRuntimeConfig_sql s2 h = Inr cfg)"
proof -
  have "sql_ok s1 \<and> sqlLog s1 = sqlLog s @ (if e = None then [f] else []) \<and> sqlConfigs s1 = sqlConfigs s"
    using sql.append_ok [OF assms(1), of f s1] sql.append_err [OF assms(1), of f _ s1] assms(2) by (cases e) auto
  moreover have "sql_ok s2 \<and> sqlLog s2 = sqlLog s \<and> sqlConfigs s \<subseteq>\<^sub>m sqlConfigs s2"
    using sql.put_ok [OF assms(1), of h cfg s2] sql.put_err [OF assms(1), of h cfg _ s2] assms(3)
    by (cases e') (auto simp: map_le_def)
  moreover have "LoadRuntimeConfig_sql s2 h = Inr cfg" if "e' = None"
    using assms(3) that by (auto simp: PutRuntimeConfig_sql_def Let_def split: option.splits sum.splits if_splits)
  ultimately show ?thesis by blast
qed

theorem sqlite_writes_keep_invariant_witness:
  "LoadRuntimeConfig_sql (snd (PutRuntimeConfig_sql (sqlOf [] Map.empty) ''h'' [1])) ''h'' = Inr [1] \<and>
   sqlLog (snd (PutRuntimeConfig_sql (sqlOf [] Map.empty) ''h'' [1])) = []"
proof -
  have "fst (PutRuntimeConfig_sql (sqlOf [] Map.empty) ''h'' [1]) = None"
    by (simp add: PutRuntimeConfig_sql_def LoadRuntimeConfig_sql_def sqlErr_def sqlOf_def emptySql_def wroteTo_def)
  then show ?thesis
    using sqlite_writes_keep_invariant [OF sqlOf_sel(1) prod.collapse [symmetric] prod.collapse [symmetric],
        of "[]" Map.empty _ "''h''" "[1]"] by (simp add: sqlOf_sel)
qed

lemma collect_rev: "collect f (rev xs) = rev (collect f xs)"
  by (induction xs) (auto simp: collect_append split: option.splits)

text \<open>
  \<open>LatestSessionID\<close> is the session of the last \<open>SessionStarted\<close> fact of the
  database, and the empty identifier when no session was ever started.
\<close>

theorem latest_session_is_last_started:
  assumes "sql_ok s" and "faultless s"
  shows "LatestSessionID s = Inr (case collect asSessionStarted (sqlLog s) of [] \<Rightarrow> [] | xs \<Rightarrow> ss_Session (last xs))"
proof -
  have "agrees s (=) (LatestSessionID s) (case find_map asSessionStarted (map (factOf s) (rev (sq_rows s))) of
      None \<Rightarrow> Inr [] | Some x \<Rightarrow> Inr (ss_Session x))"
    unfolding LatestSessionID_def selectDesc_def selectAsc_eq [OF assms(1)] rev_filter
    by (rule queryRow_find)
       (auto simp: row_cols [OF assms(1)] decodeAs_eq [OF assms(1)] elim!: asSessionStarted.elims)
  moreover have "find_map asSessionStarted (map (factOf s) (rev (sq_rows s))) =
      (case collect asSessionStarted (sqlLog s) of [] \<Rightarrow> None | xs \<Rightarrow> Some (last xs))"
    by (cases "collect asSessionStarted (sqlLog s)" rule: rev_cases)
       (auto simp: find_map_eq_hd_collect sqlLog_def collect_rev append_eq_Cons_conv simp flip: rev_map split: list.splits)
  ultimately show ?thesis
    by (auto split: list.splits dest: agrees_faultless [OF _ assms(2) refl])
qed

theorem latest_session_is_last_started_witness:
  "LatestSessionID (sqlOf [SessionStarted \<lparr>ss_Session = ''s'', ss_RootBranch = ''b'', ss_At = 0\<rparr>,
     SessionStarted \<lparr>ss_Session = ''t'', ss_RootBranch = ''b'', ss_At = 1\<rparr>] Map.empty) = Inr ''t''"
  by (simp add: latest_session_is_last_started [OF sqlOf_sel(1,2)] sqlOf_sel)

end
