(* ===== verification/Session_Claims.thy ===== *)
theory Session_Claims
  imports Session_Example
begin

text \<open>
  Correctness of the session engine. The theorems about single operations hold
  for every store that keeps the contract \<open>fact_store\<close>, failing writes and
  queries included; those about runtimes are about the in-memory store.
\<close>

subsection \<open>The session invariant\<close>

text \<open>
  C1. A session never loses its place. From a successful \<open>StartSession\<close> on, after
  any sequence of submits, restores, forks, runtime transitions, closes and
  reopenings, each with any outcome, and any writes of other sessions, the log
  is well-formed and replayable for the session, and the branch and head of the
  session are the durable cursor.
\<close>

theorem session_keeps_its_place:
  assumes "fact_store (dp_ops D) slog scfg sok" and "sok st0" and "unused sn (slog st0)" and "b \<noteq> []"
    and "StartSession D m sn b now st0 = (Inr s1, st1)" and "session_steps D slog scfg sok (st1, s1) (st, s)"
  shows "sx_id s = sn \<and> log_wf sn (slog st) \<and> plan_ready sn (slog st) (scfg st) \<and>
    cursor_of sn (slog st) = (sx_branch s, sx_head s) \<and> cursor_ok (lineage_of sn (slog st)) (sx_branch s, sx_head s)"
proof -
  have "session_inv slog scfg sok st1 s1 \<and> sx_id s1 = sn"
    using fact_store.StartSession_grown [OF assms(1,2) refl assms(3-5)] by simp
  then have "session_inv slog scfg sok st s" "sx_id s = sn"
    using fact_store.session_steps_inv [OF assms(1) refl assms(6)] by simp_all
  then show ?thesis
    using durable_cursor_ok [of sn "slog st" "scfg st" "(sx_branch s, sx_head s)"] by (auto simp: session_inv_def durable_def)
qed

theorem session_keeps_its_place_witness:
  "log_wf ''s'' (logOf eng_st2) \<and> cursor_of ''s'' (logOf eng_st2) = (sx_branch eng_s2, sx_head eng_s2)"
  using session_keeps_its_place [of eng_deps logOf runtimeConfigs store_ok New "''s''" "''b''", unfolded eng_ops,
      OF mem.fact_store_axioms eng_new _ eng_start eng_steps] by simp

text \<open>
  Opening a session gives back its place. After any sequence of operations
  from a successful start, with any outcomes, \<open>OpenSession\<close> puts the new handle on
  the branch and head of the old one, and its cell index is the length of the
  history of the head.
\<close>

theorem reopen_same_place:
  assumes "fact_store (dp_ops D) slog scfg sok" and "sok st0" and "unused sn (slog st0)" and "b \<noteq> []"
    and "StartSession D m sn b now st0 = (Inr s1, st1)" and "session_steps D slog scfg sok (st1, s1) (st, s)"
    and "length (slog st) \<le> MaxInt" and "OpenSession D sn st = Some (Inr s')"
  shows "sx_id s' = sn \<and> sx_branch s' = sx_branch s \<and> sx_head s' = sx_head s \<and>
    sx_currentIndex s' = length (history (lineage_of sn (slog st)) (sx_head s))"
proof -
  have "session_inv slog scfg sok st1 s1 \<and> sx_id s1 = sn"
    using fact_store.StartSession_grown [OF assms(1,2) refl assms(3-5)] by simp
  then have "session_inv slog scfg sok st s" "sx_id s = sn"
    using fact_store.session_steps_inv [OF assms(1) refl assms(6)] by simp_all
  then show ?thesis
    using fact_store.OpenSession_place [OF assms(1) _ refl _ assms(7,8), of "sx_branch s" "sx_head s"]
    by (simp add: session_inv_def)
qed

theorem reopen_same_place_witness:
  "\<exists>s'. OpenSession eng_deps ''s'' eng_st2 = Some (Inr s') \<and> sx_branch s' = ''b'' \<and> sx_head s' = ''c2''"
proof -
  obtain s' where s': "OpenSession eng_deps ''s'' eng_st2 = Some (Inr s')" using eng_reopens by blast
  then show ?thesis
    using reopen_same_place [of eng_deps logOf runtimeConfigs store_ok New "''s''" "''b''", unfolded eng_ops,
      OF mem.fact_store_axioms eng_new _ eng_start eng_steps eng_at2(6) s'] eng_facts by simp
qed

subsection \<open>Submitting\<close>

text \<open>
  C3. A submit that succeeds appends exactly the check, the effects, the
  evaluation, the commit and the head move of its cell, all of the session and
  its branch, puts the cell at the end of the history of the head, and moves
  the session's cursor and index on by one cell.
\<close>

theorem submit_appends_the_cell:
  assumes "fact_store (dp_ops D) slog scfg sok" and "session_inv slog scfg sok st s" and "heads_synced (sx_id s) (slog st)"
    and "SubmitCell D input x st s = Some (Inr out, st', s')"
    and "xt_cellID x \<noteq> []" and "owner (lineage_of (sx_id s) (slog st)) (xt_cellID x) = None"
  shows "(\<exists>k effs v m d. slog st' = slog st @ CellChecked k # effs @ [CellEvaluated v, CellCommitted m, HeadMoved d] \<and>
      list_all (effectFact (sx_id s)) effs \<and>
      list_all (submit_fact (sx_id s) (sx_branch s) (sx_head s) (xt_cellID x))
        [CellChecked k, CellEvaluated v, CellCommitted m, HeadMoved d]) \<and>
    history (lineage_of (sx_id s) (slog st')) (xt_cellID x) =
      history (lineage_of (sx_id s) (slog st)) (sx_head s) @ [(xt_cellID x, sx_branch s)] \<and>
    sx_branch s' = sx_branch s \<and> sx_head s' = xt_cellID x \<and> sr_Cell out = xt_cellID x \<and>
    sr_Index out = sx_currentIndex s + 1 \<and> sx_currentIndex s' = sx_currentIndex s + 1 \<and>
    session_inv slog scfg sok st' s' \<and> heads_synced (sx_id s) (slog st')"
proof -
  note c = fact_store.SubmitCell_committed [OF assms(1) refl assms(2-6)]
  obtain fs where "slog st' = slog st @ fs"
    and "submitted (sx_id s) (slog st) (sx_branch s) (sx_head s) (xt_cellID x) CommittedCell fs" using c(1) by blast
  then show ?thesis
    using submitted_facts [of "sx_id s" "slog st" "sx_branch s" "sx_head s" "xt_cellID x" fs] c(2-5)
    by (fastforce simp: submit_place_def)
qed

theorem submit_appends_the_cell_witness:
  "history (lineage_of ''s'' (logOf eng_st1)) ''c1'' = history (lineage_of ''s'' (logOf eng_st0)) (sx_head eng_s0) @ [(''c1'', sx_branch eng_s0)] \<and>
   sx_head eng_s1 = ''c1''"
proof -
  obtain out where "SubmitCell eng_deps (eng_js ''call'') (eng_ext ''c1'') eng_st0 eng_s0 = Some (Inr out, eng_st1, eng_s1)"
    using eng_runs(1) by blast
  from submit_appends_the_cell [of eng_deps logOf runtimeConfigs store_ok, unfolded eng_ops, OF mem.fact_store_axioms eng_inv(1) _ this]
  show ?thesis using eng_inv(2) eng_facts by (simp add: eng_ext_def)
qed

text \<open>
  C8. A submit that fails, in the check or in the evaluation, leaves the session
  where it was: branch, head, index, values and mode are kept, the log is only
  extended, the durable cursor and the history of every committed cell are
  unchanged, and a reported failure is the last fact of the log.
\<close>

theorem failed_submit_keeps_place:
  assumes "fact_store (dp_ops D) slog scfg sok" and "session_inv slog scfg sok st s"
    and "SubmitCell D input x st s = Some (Inl e, st', s')" and "\<forall>m. e \<noteq> PlainError m"
    and "xt_cellID x \<noteq> []" and "owner (lineage_of (sx_id s) (slog st)) (xt_cellID x) = None"
    and "owner (lineage_of (sx_id s) (slog st)) c \<noteq> None"
  shows "same_place s s' \<and> take (length (slog st)) (slog st') = slog st \<and>
    cursor_of (sx_id s) (slog st') = cursor_of (sx_id s) (slog st) \<and>
    history (lineage_of (sx_id s) (slog st')) c = history (lineage_of (sx_id s) (slog st)) c \<and>
    recorded (Inl e) (slog st')"
proof -
  have ok: "sok st" and d: "durable (sx_id s) (slog st) (scfg st) (sx_branch s, sx_head s)"
    using assms(2) by (simp_all add: session_inv_def)
  from fact_store.SubmitCell_grown [OF assms(1) ok refl assms(3)] obtain fs r where
    fs: "slog st' = slog st @ fs" and place: "submit_place x r (Inl e) s s'" and rec: "recorded (Inl e) (slog st')"
    by (auto simp: grown_def)
  have same: "same_place s s'" using place assms(4) by (auto simp: submit_place_def split: if_splits)
  have "session_inv slog scfg sok st' s'"
    using fact_store.session_step_inv [OF assms(1) refl _ assms(2)] session_step.submit [OF assms(3,5), where slog = slog] assms(6) by blast
  then have "log_wf (sx_id s) (slog st @ fs)" "cursor_of (sx_id s) (slog st') = (sx_branch s, sx_head s)"
    using same fs by (simp_all add: session_inv_def durable_def same_place_def)
  then show ?thesis
    using same fs rec d history_extend [of "sx_id s" "slog st" fs c] assms(7) by (auto simp: durable_def)
qed

theorem failed_submit_keeps_place_witness:
  "same_place eng_s2 eng_s3 \<and> cursor_of ''s'' (logOf eng_st3) = cursor_of ''s'' (logOf eng_st2)"
proof -
  obtain sf where "SubmitCell eng_deps (eng_js ''throw'') (eng_ext ''c3'') eng_st2 eng_s2 = Some (Inl (FailureError sf), eng_st3, eng_s3)"
    using eng_more(1) by blast
  from failed_submit_keeps_place [of eng_deps logOf runtimeConfigs store_ok, unfolded eng_ops, OF mem.fact_store_axioms eng_at2(1) this, of "''c1''"]
  show ?thesis using eng_at2 eng_facts by (simp add: eng_ext_def)
qed

text \<open>
  C9. A session whose cursor is not the head of its branch can neither submit a
  cell nor switch its runtime: both are refused with an error, and the store and
  the session are untouched.
\<close>

theorem stale_cursor_refused:
  assumes "working_store (dp_ops D) slog scfg sok" and "session_inv slog scfg sok st s"
    and "head_of (sx_id s) (slog st) (sx_branch s) \<notin> {[], sx_head s}"
  shows "(\<exists>m. SubmitCell D input x st s = Some (Inl (PlainError m), st, s)) \<and>
    (\<exists>m. TransitionToState D to now st s = Some (Some m, st, s))"
proof -
  have ok: "sok st" and d: "durable (sx_id s) (slog st) (scfg st) (sx_branch s, sx_head s)"
    using assms(2) by (simp_all add: session_inv_def)
  have fs: "fact_store (dp_ops D) slog scfg sok" using assms(1) by (rule working_store.axioms(1))
  have kn: "log_wf (sx_id s) (slog st)" "known (lineage_of (sx_id s) (slog st)) (sx_branch s)"
    using d durable_cursor_ok [OF d] by (simp_all add: durable_def cursor_ok_def)
  obtain r where r: "so_LoadHead (dp_ops D) st (sx_id s) (sx_branch s) = Inr r"
    using working_store.head_total [OF assms(1) ok kn] by blast
  then have "hr_Head r \<notin> {[], sx_head s}" using fact_store.load_head [OF fs ok kn r] assms(3) by simp
  with r have w: "\<exists>m. ensureBranchHeadWritable (dp_ops D) a st s = Some m" for a by (simp add: ensureBranchHeadWritable_def)
  show ?thesis using w [of "''submitting''"] w [of "''transitioning runtime''"] by (auto simp: SubmitCell_def TransitionToState_def Let_def)
qed

theorem stale_cursor_refused_witness:
  "\<exists>m. SubmitCell eng_deps (eng_js ''1'') (eng_ext ''c3'') eng_st4 eng_s4 = Some (Inl (PlainError m), eng_st4, eng_s4)"
proof -
  have "session_inv logOf runtimeConfigs store_ok eng_st4 eng_s4"
    using mem.session_step_inv [OF eng_ops session_step.restore [OF eng_branched(1)]] eng_at2 by blast
  then show ?thesis
    using stale_cursor_refused [of eng_deps logOf runtimeConfigs store_ok, unfolded eng_ops, OF mem.working_store_axioms] eng_stale by simp
qed



subsection \<open>Moving the cursor\<close>

text \<open>
  C16. \<open>Restore\<close> is all or nothing. If it succeeds, exactly one fact is appended
  and the session is at the target cell, on the branch that committed it, with
  the length of its history as index; if it fails, the log and the session are
  as before.
\<close>

theorem restore_all_or_nothing:
  assumes "fact_store (dp_ops D) slog scfg sok" and "session_inv slog scfg sok st s" and "length (slog st) \<le> MaxInt"
    and "Restore D c now st s = Some (e, st', s')"
  shows "(case e of
      None \<Rightarrow> slog st' = slog st @ [RestoreCompleted \<lparr>rc_Session = sx_id s, rc_TargetCell = c, rc_NewBranch = [], rc_At = now\<rparr>] \<and>
        owner (lineage_of (sx_id s) (slog st)) c = Some (sx_branch s') \<and> sx_head s' = c \<and>
        sx_currentIndex s' = length (history (lineage_of (sx_id s) (slog st)) c)
    | Some _ \<Rightarrow> slog st' = slog st \<and> s' = s) \<and> session_inv slog scfg sok st' s'"
proof -
  have ok: "sok st" and d: "durable (sx_id s) (slog st) (scfg st) (sx_branch s, sx_head s)"
    using assms(2) by (simp_all add: session_inv_def)
  show ?thesis
    using fact_store.Restore_grown [OF assms(1) ok refl assms(4) d assms(3)]
      fact_store.session_step_inv [OF assms(1) refl session_step.restore [OF assms(4), where slog = slog] assms(2)] assms(3)
    by (auto simp: grown_def split: option.splits)
qed

theorem restore_all_or_nothing_witness: "sx_head eng_s4 = ''c1'' \<and> length (logOf eng_st4) = Suc (length (logOf eng_st2))"
  using restore_all_or_nothing [of eng_deps logOf runtimeConfigs store_ok, unfolded eng_ops, OF mem.fact_store_axioms
      eng_at2(1,6) eng_branched(1)] by simp

text \<open>
  \<open>Fork\<close> to a new branch: if it succeeds, the branch and the move to it are
  appended and the session is on the new branch at the target cell, which sees
  the history of the target; if it fails, the session and its durable cursor
  are as before.
\<close>

theorem fork_inherits_history:
  assumes "fact_store (dp_ops D) slog scfg sok" and "session_inv slog scfg sok st s" and "length (slog st) \<le> MaxInt"
    and "b \<noteq> []" and "\<not> known (lineage_of (sx_id s) (slog st)) b" and "Fork D c b now st s = Some (e, st', s')"
  shows "(case e of
      None \<Rightarrow> slog st' = slog st @ [BranchCreated \<lparr>bc_Session = sx_id s, bc_Branch = b, bc_ParentCell = c, bc_At = now\<rparr>,
          RestoreCompleted \<lparr>rc_Session = sx_id s, rc_TargetCell = c, rc_NewBranch = b, rc_At = now\<rparr>] \<and>
        sx_branch s' = b \<and> sx_head s' = c \<and> sx_currentIndex s' = length (history (lineage_of (sx_id s) (slog st)) c) \<and>
        branch_history (lineage_of (sx_id s) (slog st')) b c = history (lineage_of (sx_id s) (slog st)) c
    | Some _ \<Rightarrow> s' = s \<and> cursor_of (sx_id s) (slog st') = cursor_of (sx_id s) (slog st)) \<and>
    session_inv slog scfg sok st' s'"
proof -
  have ok: "sok st" and d: "durable (sx_id s) (slog st) (scfg st) (sx_branch s, sx_head s)"
    using assms(2) by (simp_all add: session_inv_def)
  have inv: "session_inv slog scfg sok st' s'" "sx_id s' = sx_id s"
    using fact_store.session_step_inv [OF assms(1) refl session_step.fork [OF assms(6), where slog = slog] assms(2)] assms(3-5) by auto
  note g = fact_store.Fork_grown [OF assms(1) ok refl assms(6) d assms(3)]
  show ?thesis
  proof (cases e)
    case None
    have own: "owner (lineage_of (sx_id s) (slog st)) c \<noteq> None" using g None by simp
    have "branch_history (lineage_of (sx_id s) (slog st')) b c = history (lineage_of (sx_id s) (slog st)) c"
      using g None fork_branch_history [OF d own assms(4,5)] by (simp add: grown_def)
    then show ?thesis using g None inv by (simp add: grown_def)
  next
    case (Some m)
    then have "s' = s" using g by simp
    then show ?thesis using Some inv d by (simp add: session_inv_def durable_def)
  qed
qed

theorem fork_inherits_history_witness:
  "branch_history (lineage_of ''s'' (logOf eng_st5)) ''b2'' ''c1'' = history (lineage_of ''s'' (logOf eng_st2)) ''c1'' \<and> sx_branch eng_s5 = ''b2''"
  using fork_inherits_history [of eng_deps logOf runtimeConfigs store_ok, unfolded eng_ops, OF mem.fact_store_axioms
      eng_at2(1,6) _ _ eng_branched(2), unfolded eng_facts(3) option.case] eng_facts(14) by blast

text \<open>
  \<open>TransitionToState\<close> never moves the session. It appends at most one fact,
  a transition of the session's branch after its head, and only when it
  succeeds with a descriptor whose hash is new; the descriptor is stored before
  the fact that names it.
\<close>

theorem transition_keeps_place:
  assumes "fact_store (dp_ops D) slog scfg sok" and "session_inv slog scfg sok st s"
    and "TransitionToState D to now st s = Some (e, st', s')"
  shows "same_place s s' \<and> session_inv slog scfg sok st' s' \<and>
    (slog st' = slog st \<or> e = None \<and> slog st' = slog st @ [RuntimeTransitioned \<lparr>rt_Session = sx_id s, rt_Branch = sx_branch s,
       rt_AfterCell = sx_head s, rt_RuntimeHash = sx_runtimeHash s', rt_At = now\<rparr>] \<and> scfg st' (sx_runtimeHash s') \<noteq> None)"
proof -
  have ok: "sok st" using assms(2) by (simp add: session_inv_def)
  obtain h c where t: "same_place s s'" "slog st' \<in> {slog st, slog st @ [RuntimeTransitioned \<lparr>rt_Session = sx_id s,
      rt_Branch = sx_branch s, rt_AfterCell = sx_head s, rt_RuntimeHash = h, rt_At = now\<rparr>]}"
    "slog st' \<noteq> slog st \<Longrightarrow> e = None \<and> scfg st' = (scfg st)(h \<mapsto> c) \<and> sx_runtimeHash s' = h"
    using fact_store.TransitionToState_grown [OF assms(1) ok refl assms(3)] by blast
  moreover have "slog st' \<noteq> slog st \<Longrightarrow> scfg st' (sx_runtimeHash s') \<noteq> None" using t(3) by auto
  ultimately show ?thesis
    using fact_store.session_step_inv [OF assms(1) refl session_step.transition [OF assms(3)] assms(2)] by blast
qed

theorem transition_keeps_place_witness:
  "same_place eng_s2 eng_s6 \<and> logOf eng_st6 = logOf eng_st2 @ [RuntimeTransitioned
     \<lparr>rt_Session = ''s'', rt_Branch = ''b'', rt_AfterCell = ''c2'', rt_RuntimeHash = ''k'', rt_At = 0\<rparr>]"
  using transition_keeps_place [of eng_deps logOf runtimeConfigs store_ok, unfolded eng_ops, OF mem.fact_store_axioms
      eng_at2(1) eng_more(2)] eng_more(3,4) eng_facts by auto

end
