(* ===== verification/Resume_Runs.thy ===== *)
theory Resume_Runs
  imports Availability
begin

text \<open>
  Runs of a session that stay resumable. The log of such a run has the check
  and the settled effects of every committed cell, so that every cell can be
  restored, forked from and opened, and the runtime a handle holds is always
  the one that replay builds from the log.
\<close>

subsection \<open>What the log must record\<close>

definition recorded_cell :: "SessionID \<Rightarrow> Fact list \<Rightarrow> CellID \<times> BranchID \<Rightarrow> bool" where
  "recorded_cell sn log cb \<longleftrightarrow> static_details sn log cb \<noteq> None \<and> settled sn log (st_Effects (step_of sn log cb))"

definition recorded_cells :: "SessionID \<Rightarrow> Fact list \<Rightarrow> bool" where
  "recorded_cells sn log \<longleftrightarrow> list_all (recorded_cell sn log) (li_commits (lineage_of sn log)) \<and>
     (\<exists>x. ManifestAttached x \<in> set log \<and> ma_Session x = sn)"

lemma manifest_log:
  assumes "store_ok st"
  shows "\<not> isl (loadManifestAttached st sn) \<longleftrightarrow> (\<exists>x. ManifestAttached x \<in> set (logOf st) \<and> ma_Session x = sn)"
proof -
  let ?f = "\<lambda>e. if en_session e \<noteq> sn \<or> en_factType e \<noteq> ''ManifestAttached'' then None
             else case en_fact e of ManifestAttached f \<Rightarrow> Some f | _ \<Rightarrow> None"
  have eq: "?f (mkEntry f) \<noteq> None \<longleftrightarrow> (\<exists>x. f = ManifestAttached x \<and> ma_Session x = sn)" for f
    by (cases f) auto
  have "find_map ?f (facts st) \<noteq> None \<longleftrightarrow> (\<exists>f \<in> set (logOf st). ?f (mkEntry f) \<noteq> None)"
    by (subst assms [unfolded store_ok_def]) (simp add: find_map_None_iff)
  then have "find_map ?f (facts st) \<noteq> None \<longleftrightarrow> (\<exists>x. ManifestAttached x \<in> set (logOf st) \<and> ma_Session x = sn)"
    unfolding eq by auto
  then show ?thesis by (auto simp: loadManifestAttached_def split: option.splits)
qed

lemma recorded_static: "store_ok st \<Longrightarrow> recorded_cells sn (logOf st) \<Longrightarrow> static_ready sn st"
  by (simp add: static_ready_def manifest_log recorded_cells_def recorded_cell_def list_all_iff)

lemma recorded_settled:
  assumes wf: "log_wf sn log" and r: "recorded_cells sn log"
  shows "settled sn log (history_effects sn log c)"
proof -
  have "(c', b') \<in> set (li_commits (lineage_of sn log))" if "(c', b') \<in> set (history (lineage_of sn log) c)" for c' b'
    using history_owner [OF wf that] owner_iff_commits [OF log_wf_inv [OF wf]] by blast
  then have "recorded_cell sn log cb" if "cb \<in> set (history (lineage_of sn log) c)" for cb
    using that r by (cases cb) (auto simp: recorded_cells_def list_all_iff)
  then show ?thesis
    by (force simp: recorded_cell_def settled_def history_effects_def steps_of_def list_all_iff)
qed

lemma step_of_extend:
  assumes "log_wf sn (log @ fs)" and "owner (lineage_of sn log) c = Some b'"
  shows "step_of sn (log @ fs) (c, b) = step_of sn log (c, b)"
  using assms(1)
proof (induction fs rule: rev_induct)
  case (snoc f fs)
  then have "log_wf sn (log @ fs)" "ok_step sn (lineage_of sn (log @ fs)) f"
    using log_wf_snoc [of sn "log @ fs" f] by simp_all
  moreover have "owner (lineage_of sn (log @ fs)) c = Some b'" by (rule owner_prefix [OF assms(2)])
  ultimately show ?case using step_of_stable [of sn "log @ fs" f c b' b] snoc.IH by simp
qed simp

lemma scan_last_found: "scan_last g acc xs \<noteq> None \<longleftrightarrow> acc \<noteq> None \<or> (\<exists>x \<in> set xs. g x \<noteq> None)"
  by (induction xs arbitrary: acc) (auto split: option.splits)

lemma recorded_cell_extend:
  assumes "log_wf sn (log @ fs)" and "recorded_cell sn log (c, b)" and "owner (lineage_of sn log) c = Some b'"
  shows "recorded_cell sn (log @ fs) (c, b)"
  using assms(2) step_of_extend [OF assms(1,3), of b] settled_extend [of sn log _ fs]
  unfolding recorded_cell_def static_details_def by (simp add: scan_last_found del: not_None_eq) (auto simp: scan_last_found)

text \<open>Facts that commit no cell keep the record.\<close>

lemma recorded_keep:
  assumes wf: "log_wf sn (log @ fs)" and r: "recorded_cells sn log"
    and own: "\<And>b. own (lineage_of sn (log @ fs)) b = own (lineage_of sn log) b"
  shows "recorded_cells sn (log @ fs)"
proof -
  have inv: "lineage_inv (lineage_of sn log)" by (rule log_wf_inv [OF log_wf_appendD [OF wf]])
  have "recorded_cell sn (log @ fs) (c, b)" if "(c, b) \<in> set (li_commits (lineage_of sn (log @ fs)))" for c b
  proof -
    have c: "(c, b) \<in> set (li_commits (lineage_of sn log))" using that own by (simp flip: mem_own_iff)
    then have "owner (lineage_of sn log) c = Some b" by (simp add: owner_iff_commits [OF inv])
    moreover have "recorded_cell sn log (c, b)" using c r by (auto simp: recorded_cells_def list_all_iff)
    ultimately show ?thesis by (rule recorded_cell_extend [OF wf, rotated])
  qed
  then show ?thesis using r by (force simp: recorded_cells_def list_all_iff)
qed

text \<open>A submitted cell is recorded with its check.\<close>

lemma recorded_submit:
  assumes wf: "log_wf sn (log @ fs)" and r: "recorded_cells sn log" and sub: "submitted sn log b h c CommittedCell fs"
    and set: "settled sn (log @ fs) (st_Effects (step_of sn (log @ fs) (c, b)))"
  shows "recorded_cells sn (log @ fs)"
proof -
  have inv: "lineage_inv (lineage_of sn log)" by (rule log_wf_inv [OF log_wf_appendD [OF wf]])
  obtain k fs' where "fs = CellChecked k # fs'" "list_all (submit_fact sn b h c) fs"
    using submitted_facts [OF sub] by blast
  then have k: "CellChecked k \<in> set fs" "submit_fact sn b h c (CellChecked k)" by (simp_all add: list_all_iff)
  then have "\<exists>f \<in> set (log @ fs). checkedOf sn b c f \<noteq> None" by (intro bexI [of _ "CellChecked k"]) simp_all
  then have "scan_last (checkedOf sn b c) None (log @ fs) \<noteq> None" unfolding scan_last_found by blast
  then have new: "recorded_cell sn (log @ fs) (c, b)" using set by (auto simp: recorded_cell_def static_details_def)
  have "recorded_cell sn (log @ fs) (c', b')" if "(c', b') \<in> set (li_commits (lineage_of sn (log @ fs)))" for c' b'
  proof (cases "(c', b') = (c, b)")
    case False
    then have m: "(c', b') \<in> set (li_commits (lineage_of sn log))"
      using that submitted_own [OF sub, of b'] by (auto simp flip: mem_own_iff split: if_splits)
    then have "owner (lineage_of sn log) c' = Some b'" by (simp add: owner_iff_commits [OF inv])
    moreover have "recorded_cell sn log (c', b')" using m r by (auto simp: recorded_cells_def list_all_iff)
    ultimately show ?thesis by (rule recorded_cell_extend [OF wf, rotated])
  qed (use new in simp)
  then show ?thesis using r by (force simp: recorded_cells_def list_all_iff)
qed

subsection \<open>Resumable runs\<close>

text \<open>Replay of every committed cell, on the branch that committed it, succeeds.\<close>

definition replays :: "(Store, 'vm, 'v) SessionDeps \<Rightarrow> SessionID \<Rightarrow> Store \<Rightarrow> bool" where
  "replays D sn st \<longleftrightarrow> (\<forall>c b. owner (lineage_of sn (logOf st)) c = Some b \<longrightarrow>
     (\<exists>r. committed_runtime (dp_goja D) (dp_delegate D) sn b (logOf st) (runtimeConfigs st) c = Inr r))"

definition resumes :: "(Store, 'vm, 'v) SessionDeps \<Rightarrow> Store \<Rightarrow> ('vm, 'v) session \<Rightarrow> bool" where
  "resumes D st s \<longleftrightarrow> resumable D st s \<and> recorded_cells (sx_id s) (logOf st) \<and> replays D (sx_id s) st"

lemma submit_fact_plain: "submit_fact sn b h c f \<Longrightarrow> plain sn f"
  by (cases f) (auto simp: plain_def)

text \<open>Facts that leave the descriptor alone keep the replays of the cells that were there.\<close>

lemma replays_extend:
  assumes wf: "log_wf sn (logOf st')" and log: "logOf st' = logOf st @ fs" and cfg: "runtimeConfigs st' = runtimeConfigs st"
    and q: "quiet sn (logOf st)" and pl: "list_all (plain sn) fs" and rec: "recorded_cells sn (logOf st)"
    and r: "replays D sn st" and own: "owner (lineage_of sn (logOf st)) c = Some b"
  shows "\<exists>r. committed_runtime (dp_goja D) (dp_delegate D) sn b (logOf st') (runtimeConfigs st') c = Inr r"
proof -
  note ext = plain_extend [OF pl, of "logOf st"]
  have wf0: "log_wf sn (logOf st)" using log_wf_appendD wf log by metis
  have "committed_runtime (dp_goja D) (dp_delegate D) sn b (logOf st @ fs) (runtimeConfigs st) c =
      committed_runtime (dp_goja D) (dp_delegate D) sn b (logOf st) (runtimeConfigs st) c"
    by (rule committed_extend) (use wf log ext q own recorded_settled [OF wf0 rec] in simp_all)
  then show ?thesis using r own log cfg by (simp add: replays_def)
qed

lemma replays_keep:
  assumes "log_wf sn (logOf st')" and "logOf st' = logOf st @ fs" and "runtimeConfigs st' = runtimeConfigs st"
    and "quiet sn (logOf st)" and "list_all (plain sn) fs" and "recorded_cells sn (logOf st)" and "replays D sn st"
    and own: "\<And>b. own (lineage_of sn (logOf st')) b = own (lineage_of sn (logOf st)) b"
  shows "replays D sn st'"
proof -
  have "owner (lineage_of sn (logOf st)) c = Some b" if "owner (lineage_of sn (logOf st')) c = Some b" for c b
    using that own [of b] own_owner [OF log_wf_inv [OF assms(1)], of c b] log_wf_appendD [of sn "logOf st" fs] assms(1,2)
      own_owner [OF log_wf_inv, of sn "logOf st" c b] by simp
  then show ?thesis using replays_extend [OF assms(1-7)] by (simp add: replays_def)
qed

text \<open>
  The steps: a submit that succeeds, with new identifiers and a replayable
  evaluation, and restores, forks and reopenings that succeed.
\<close>

inductive resume_step ::
  "(Store, 'vm, 'v) SessionDeps \<Rightarrow> Store \<times> ('vm, 'v) session \<Rightarrow> Store \<times> ('vm, 'v) session \<Rightarrow> bool" for D where
  submit: "\<lbrakk>SubmitCell D input x st s = Some (Inr out, st', s'); xt_cellID x \<noteq> [];
      owner (lineage_of (sx_id s) (logOf st)) (xt_cellID x) = None; cell_replayable D input x st s;
      length (logOf st') \<le> MaxInt\<rbrakk> \<Longrightarrow> resume_step D (st, s) (st', s')"
| restore: "Restore D c now st s = Some (None, st', s') \<Longrightarrow> length (logOf st) \<le> MaxInt \<Longrightarrow>
    length (logOf st') \<le> MaxInt \<Longrightarrow> resume_step D (st, s) (st', s')"
| fork: "\<lbrakk>Fork D c b now st s = Some (None, st', s'); b \<noteq> []; \<not> known (lineage_of (sx_id s) (logOf st)) b;
      length (logOf st) \<le> MaxInt; length (logOf st') \<le> MaxInt\<rbrakk> \<Longrightarrow> resume_step D (st, s) (st', s')"
| reopen: "OpenSession D (sx_id s) st = Some (Inr s') \<Longrightarrow> length (logOf st) \<le> MaxInt \<Longrightarrow>
    resume_step D (st, s) (st, s')"

abbreviation resume_steps where "resume_steps D \<equiv> (resume_step D)\<^sup>*\<^sup>*"

inductive_cases resume_stepE [consumes 1, case_names submit restore fork reopen]:
  "resume_step D (st, s) (st', s')"

lemma resumableD:
  assumes "resumable D st s"
  shows "session_inv logOf runtimeConfigs store_ok st s" "heads_synced (sx_id s) (logOf st)" "quiet (sx_id s) (logOf st)"
    "store_ok st" "log_wf (sx_id s) (logOf st)" "durable (sx_id s) (logOf st) (runtimeConfigs st) (sx_branch s, sx_head s)"
  using assms by (simp_all add: resumable_def session_inv_def durable_def)

lemma resumable_committed:
  assumes D: "dp_ops D = memOps" and r: "resumable D st s" and len: "length (logOf st) \<le> MaxInt"
  shows "\<exists>r. committed_runtime (dp_goja D) (dp_delegate D) (sx_id s) (sx_branch s) (logOf st) (runtimeConfigs st) (sx_head s) = Inr r"
proof -
  obtain rt where at: "runtimeAtHead D ''init runtime from current config: '' ''load replay plan for runtime rebuild: ''
         ''replay committed runtime state: '' st s = Some (Inr (rt, sx_runtimeConfig s, sx_runtimeHash s))"
    using r unfolding resumable_def rebuild_self by blast
  have "sx_head s = [] \<longrightarrow> sx_runtimeConfig s = config_of (runtimeConfigs st) (attached_hash (sx_id s) (logOf st))"
    using r by (simp add: resumable_def)
  with runtimeAtHead_committed [OF D resumableD(4,6,3) [OF r] len] at show ?thesis by blast
qed

lemma StartSession_log:
  assumes D: "dp_ops D = memOps" and ok: "store_ok st" and new: "unused sn (logOf st)"
    and run: "StartSession D m sn b now st = (Inr s, st')"
  shows "li_commits (lineage_of sn (logOf st')) = []" "\<exists>x. ManifestAttached x \<in> set (logOf st') \<and> ma_Session x = sn"
proof -
  obtain x y z st1 st2 st3 h cf where a: "so_PutRuntimeConfig memOps st h cf = (None, st1)"
      "so_AppendFact memOps st1 (SessionStarted x) = (None, st2)"
      "so_AppendFact memOps st2 (ManifestAttached y) = (None, st3)" "ma_Session y = sn"
      "so_AppendFact memOps st3 (RuntimeAttached z) = (None, st')"
    using run by (fastforce simp: StartSession_def Let_def D simp del: memOps_sel split: sum.splits prod.splits option.splits)
  note l1 = mem.put_ok [OF ok a(1)]
  note l2 = mem.append_ok [OF l1 [THEN conjunct1] a(2)]
  note l3 = mem.append_ok [OF l2 [THEN conjunct1] a(3)]
  note l4 = mem.append_ok [OF l3 [THEN conjunct1] a(5)]
  have log: "logOf st' = ((logOf st @ [SessionStarted x]) @ [ManifestAttached y]) @ [RuntimeAttached z]"
    using l1 l2 l3 l4 by simp
  have "li_commits (lineage_of sn (logOf st)) = []"
    using unused_log [OF new] mem_own_iff [of _ "lineage_of sn (logOf st)"] by (metis empty_iff empty_set hd_in_set surj_pair)
  then show "li_commits (lineage_of sn (logOf st')) = []"
    unfolding log lineage_of_snoc by (simp add: lineage_step_defs)
  show "\<exists>x. ManifestAttached x \<in> set (logOf st') \<and> ma_Session x = sn" using a(4) by (auto simp: log)
qed

lemma resumes_start:
  assumes "dp_ops D = memOps" and "store_ok st" and new: "unused sn (logOf st)" "b \<noteq> []"
    and "stable_config (dp_goja D) (dp_delegate D) sn b (dp_runtimeConfig D)"
    and run: "StartSession D m sn b now st = (Inr s, st')"
  shows "resumes D st' s \<and> sx_id s = sn"
  using resumable_start [OF assms(1,2) new assms(5) run] mem.StartSession_grown [OF assms(2,1) new run]
    StartSession_log [OF assms(1,2) new(1) run]
  by (simp add: resumes_def recorded_cells_def replays_def owner_def)

lemma resumes_submit:
  assumes D: "dp_ops D = memOps" and r: "resumes D st s" and run: "SubmitCell D input x st s = Some (Inr out, st', s')"
    and new: "xt_cellID x \<noteq> []" "owner (lineage_of (sx_id s) (logOf st)) (xt_cellID x) = None"
    and rep: "cell_replayable D input x st s" and len: "length (logOf st') \<le> MaxInt"
  shows "resumes D st' s' \<and> sx_id s' = sx_id s"
proof -
  let ?sn = "sx_id s" and ?c = "xt_cellID x" and ?b = "sx_branch s"
  have r0: "resumable D st s" and rec: "recorded_cells ?sn (logOf st)" and all: "replays D ?sn st" using r by (simp_all add: resumes_def)
  note r1 = resumable_submit [OF D r0 run new rep len]
  note c = mem.SubmitCell_committed [OF D resumableD(1,2) [OF r0] run new]
  obtain fs where fs: "logOf st' = logOf st @ fs" and cfg: "runtimeConfigs st' = runtimeConfigs st" and sub: "submitted ?sn (logOf st) ?b (sx_head s) ?c CommittedCell fs"
    using c(1) by blast
  have s': "sx_id s' = ?sn" "sx_head s' = ?c" using c(2) by (simp_all add: submit_place_def)
  have "settled ?sn (logOf st') (history_effects ?sn (logOf st') ?c)" using r1 s' by (simp add: resumable_def)
  then have "settled ?sn (logOf st') (st_Effects (step_of ?sn (logOf st') (?c, ?b)))"
    using c(5) by (simp add: history_effects_def steps_of_def settled_def)
  moreover have wf: "log_wf ?sn (logOf st')" using resumableD(5) [OF r1] s' by simp
  ultimately have "recorded_cells ?sn (logOf st')" using recorded_submit [OF _ rec sub] fs by simp
  moreover have "replays D ?sn st'"
    unfolding replays_def
  proof (intro allI impI)
    fix c' b' assume o': "owner (lineage_of ?sn (logOf st')) c' = Some b'"
    then have "c' \<in> set (own (lineage_of ?sn (logOf st')) b')" using own_owner [OF log_wf_inv [OF wf]] by blast
    then have "c' \<in> set (own (lineage_of ?sn (logOf st)) b') \<or> (c', b') = (?c, ?b)"
      using submitted_own [OF sub, of b'] fs by (auto split: if_splits)
    then show "\<exists>r. committed_runtime (dp_goja D) (dp_delegate D) ?sn b' (logOf st') (runtimeConfigs st') c' = Inr r"
    proof
      assume "c' \<in> set (own (lineage_of ?sn (logOf st)) b')"
      then have "owner (lineage_of ?sn (logOf st)) c' = Some b'" using own_owner [OF log_wf_inv [OF resumableD(5) [OF r0]]] by blast
      then show ?thesis
        using replays_extend [OF wf fs cfg resumableD(3) [OF r0] _ rec all] submitted_fact [OF sub] submit_fact_plain
        by (fastforce simp: list_all_iff)
    next
      assume "(c', b') = (?c, ?b)"
      moreover have "\<exists>r. committed_runtime (dp_goja D) (dp_delegate D) ?sn ?b (logOf st') (runtimeConfigs st') ?c = Inr r"
        using resumable_committed [OF D r1 len] s' c(2) by (simp add: submit_place_def)
      ultimately show ?thesis by simp
    qed
  qed
  ultimately show ?thesis using r1 s' by (simp add: resumes_def)
qed

lemma resumes_restore:
  assumes D: "dp_ops D = memOps" and r: "resumes D st s" and run: "Restore D c now st s = Some (None, st', s')"
    and le: "length (logOf st) \<le> MaxInt" and len: "length (logOf st') \<le> MaxInt"
  shows "resumes D st' s' \<and> sx_id s' = sx_id s"
proof -
  have r0: "resumable D st s" and rec: "recorded_cells (sx_id s) (logOf st)" and all: "replays D (sx_id s) st"
    using r by (simp_all add: resumes_def)
  note i = resumableD [OF r0]
  note r1 = resumable_restore [OF D i(1-3) recorded_settled [OF i(5) rec] run len]
  have g: "logOf st' = logOf st @ [RestoreCompleted \<lparr>rc_Session = sx_id s, rc_TargetCell = c, rc_NewBranch = [], rc_At = now\<rparr>]"
    "sx_id s' = sx_id s" "runtimeConfigs st' = runtimeConfigs st" using mem.Restore_grown [OF i(4) D run i(6) le] by (simp_all add: grown_def)
  have wf: "log_wf (sx_id s) (logOf st')" using resumableD(5) [OF r1] g(2) by simp
  have own: "own (lineage_of (sx_id s) (logOf st')) b = own (lineage_of (sx_id s) (logOf st)) b" for b
    unfolding g(1) by (simp add: own_step)
  have "recorded_cells (sx_id s) (logOf st')" using recorded_keep [OF _ rec] wf own unfolding g(1) by blast
  moreover have "replays D (sx_id s) st'" by (rule replays_keep [OF wf g(1,3) i(3) _ rec all own]) (simp add: plain_def)
  ultimately show ?thesis using r1 g by (simp add: resumes_def)
qed

lemma resumes_fork:
  assumes D: "dp_ops D = memOps" and r: "resumes D st s" and run: "Fork D c b now st s = Some (None, st', s')"
    and b: "b \<noteq> []" "\<not> known (lineage_of (sx_id s) (logOf st)) b"
    and le: "length (logOf st) \<le> MaxInt" and len: "length (logOf st') \<le> MaxInt"
  shows "resumes D st' s' \<and> sx_id s' = sx_id s"
proof -
  have r0: "resumable D st s" and rec: "recorded_cells (sx_id s) (logOf st)" and all: "replays D (sx_id s) st"
    using r by (simp_all add: resumes_def)
  note i = resumableD [OF r0]
  note r1 = resumable_fork [OF D i(1-3) recorded_settled [OF i(5) rec] b run len]
  let ?x = "BranchCreated \<lparr>bc_Session = sx_id s, bc_Branch = b, bc_ParentCell = c, bc_At = now\<rparr>"
  let ?y = "RestoreCompleted \<lparr>rc_Session = sx_id s, rc_TargetCell = c, rc_NewBranch = b, rc_At = now\<rparr>"
  have g: "logOf st' = logOf st @ [?x, ?y]" "sx_id s' = sx_id s" "runtimeConfigs st' = runtimeConfigs st"
    using mem.Fork_grown [OF i(4) D run i(6) le] by (simp_all add: grown_def)
  have wf: "log_wf (sx_id s) (logOf st')" using resumableD(5) [OF r1] g(2) by simp
  have own: "own (lineage_of (sx_id s) (logOf st')) b' = own (lineage_of (sx_id s) (logOf st)) b'" for b'
    using lineage_of_snoc [of "sx_id s" "logOf st @ [?x]" ?y] unfolding g(1) by (simp add: own_step)
  have "recorded_cells (sx_id s) (logOf st')" using recorded_keep [OF _ rec] wf own unfolding g(1) by blast
  moreover have "replays D (sx_id s) st'" by (rule replays_keep [OF wf g(1,3) i(3) _ rec all own]) (simp add: plain_def)
  ultimately show ?thesis using r1 g by (simp add: resumes_def)
qed

lemma OpenSession_clean: "OpenSession D sn st = Some (Inr s) \<Longrightarrow> \<not> sx_runtimeDirty s"
  by (auto simp: OpenSession_def openSessionState_def Let_def installLoadedBranchState_def cbind_Inr_iff split: option.splits sum.splits if_splits)

lemma resumes_reopen:
  assumes D: "dp_ops D = memOps" and r: "resumes D st s" and run: "OpenSession D (sx_id s) st = Some (Inr s')"
    and len: "length (logOf st) \<le> MaxInt"
  shows "resumes D st s' \<and> sx_id s' = sx_id s"
proof -
  have r0: "resumable D st s" and rec: "recorded_cells (sx_id s) (logOf st)" and all: "replays D (sx_id s) st"
    using r by (simp_all add: resumes_def)
  note e = resumable_reopen [OF D r0 len run]
  have "rebuildRuntimeFromCommitted D st s = Some (Inr s)" using r0 by (simp add: resumable_def)
  moreover have "runtimeAtHead D p1 p2 p3 st s' = runtimeAtHead D p1 p2 p3 st s" for p1 p2 p3
    using e by (simp only: runtimeAtHead_def)
  ultimately have "rebuildRuntimeFromCommitted D st s' = Some (Inr s')"
    using e OpenSession_clean [OF run] unfolding rebuild_self by simp
  then have "resumable D st s'" using r0 e by (simp add: resumable_def session_inv_def)
  then show ?thesis using e rec all by (simp add: resumes_def)
qed

lemma resume_steps_resumes:
  assumes D: "dp_ops D = memOps" and "resume_steps D (st, s) (st', s')" and "resumes D st s"
  shows "resumes D st' s' \<and> sx_id s' = sx_id s"
  using assms(2,3)
proof (induction rule: rtranclp_induct2)
  case (step st1 s1 st2 s2)
  then have r: "resumes D st1 s1" "sx_id s1 = sx_id s" by simp_all
  from step.hyps(2) have "resumes D st2 s2 \<and> sx_id s2 = sx_id s1"
  proof (cases rule: resume_stepE)
    case (submit input x out) then show ?thesis by (intro resumes_submit [OF D r(1)])
  next
    case (restore c now) then show ?thesis by (intro resumes_restore [OF D r(1)])
  next
    case (fork c b now) then show ?thesis by (intro resumes_fork [OF D r(1)])
  next
    case reopen then show ?thesis using resumes_reopen [OF D r(1)] by simp
  qed
  then show ?case using r(2) by simp
qed simp

text \<open>At every point of such a run the session opens with the runtime its handle holds.\<close>

lemma resumes_opens:
  assumes D: "dp_ops D = memOps" and r: "resumes D st s" and len: "length (logOf st) \<le> MaxInt"
  obtains s2 where "OpenSession D (sx_id s) st = Some (Inr s2)" "sx_branch s2 = sx_branch s" "sx_head s2 = sx_head s"
    "sx_runtime s2 = sx_runtime s" "sx_runtimeConfig s2 = sx_runtimeConfig s" "sx_runtimeHash s2 = sx_runtimeHash s"
    "sx_currentIndex s2 = sx_currentIndex s"
proof -
  have r0: "resumable D st s" using r by (simp add: resumes_def)
  have "static_ready (sx_id s) st" using recorded_static [OF resumableD(4) [OF r0]] r by (simp add: resumes_def)
  then obtain s2 where "OpenSession D (sx_id s) st = Some (Inr s2)" using OpenSession_succeeds [OF D r0 len] by blast
  with resumable_reopen [OF D r0 len this] that show thesis by blast
qed

text \<open>At every point of such a run, every committed cell can be restored.\<close>

lemma resumes_restores:
  assumes D: "dp_ops D = memOps" and r: "resumes D st s" and len: "length (logOf st) \<le> MaxInt"
    and own: "owner (lineage_of (sx_id s) (logOf st)) c = Some b"
  obtains st' s' where "Restore D c now st s = Some (None, st', s')"
proof -
  have r0: "resumable D st s" and rec: "recorded_cells (sx_id s) (logOf st)" using r by (simp_all add: resumes_def)
  obtain rt cf h where "committed_runtime (dp_goja D) (dp_delegate D) (sx_id s) b (logOf st) (runtimeConfigs st) c = Inr (rt, cf, h)"
    using r own by (force simp: resumes_def replays_def)
  with Restore_succeeds [OF D resumableD(1) [OF r0] recorded_static [OF resumableD(4) [OF r0] rec] len own, of rt cf h now] that
  show thesis by (auto simp: committed_runtime_def)
qed

end
