(* ===== verification/Resume_Claims.thy ===== *)
theory Resume_Claims
  imports Resume_Runs Session_Example
begin

text \<open>
  Durability of the runtime: record and replay of one cell, the equivalence of
  the live runtime with the replayed one along a run of a session, and the
  operations that always succeed because of it.
\<close>

subsection \<open>One cell\<close>

text \<open>
  C5. Record and replay. The evaluation of a cell whose host calls are replayable,
  return a result, and are made one at a time before the outcome is reached is
  reproduced from its journal, also after more facts were appended: the replay
  takes the engine to the same state with the same outcome and the same console
  lines and rejections, without calling the host, and consumes all effects.
\<close>

theorem replay_reproduces_cell:
  assumes "working_store ops slog scfg sok" and "sok st" and "inj (hv_uuid H)" and "fresh_from sn H (slog st) newAccumulator u"
    and "replayable ops sn cell H t False (newCellRun st u)"
    and "liveCell ops sn cell H t (newCellRun st u) = (vm, c)"
  shows "\<exists>step r. newReplayStepState (ac_order (cr_acc c)) (decision_of sn (slog (cr_store c) @ fs)) = Inr step \<and>
    replayCell clock late t (newReplayRun step) = (vm, r) \<and> rr_outcome r = cr_outcome c \<and>
    ac_logs (rr_acc r) = ac_logs (cr_acc c) \<and> ac_unhandledRejection (rr_acc r) = ac_unhandledRejection (cr_acc c) \<and>
    ensureConsumed (rr_step r) = None"
  using working_store.record_replay [OF assms, of fs clock late] by (force simp: observed_def)

theorem replay_reproduces_cell_witness:
  "\<exists>vm c step r. liveCell memOps ''s'' ''c1'' (eng_host ''c1'') (projr (eng_run 0 Map.empty ''call'')) (newCellRun New 0) = (vm, c) \<and>
     newReplayStepState (ac_order (cr_acc c)) (decision_of ''s'' (logOf (cr_store c))) = Inr step \<and>
     replayCell 0 True (projr (eng_run 0 Map.empty ''call'')) (newReplayRun step) = (vm, r) \<and> rr_outcome r = cr_outcome c"
proof -
  let ?t = "projr (eng_run 0 Map.empty ''call'')"
  obtain vm c where live: "liveCell memOps ''s'' ''c1'' (eng_host ''c1'') ?t (newCellRun New 0) = (vm, c)" by fastforce
  have "replayable memOps ''s'' ''c1'' (eng_host ''c1'') ?t False (newCellRun New 0)"
    by (auto simp: eng_run_def call_ok_def eng_host_def ReplayReadonly_def ReplayNonReplayable_def split: hostReply.splits prod.splits)
  moreover have "fresh_from ''s'' (eng_host ''c1'') (logOf New) newAccumulator 0" by (rule eng_fresh) (simp_all add: eng_unnamed_def)
  ultimately show ?thesis
    using replay_reproduces_cell [OF mem.working_store_axioms eng_new(1) eng_uuids _ _ live, of "[]" 0 True] live by fastforce
qed

text \<open>
  C38. What replay cannot reproduce: a synchronous host call that failed. The live
  program catches the error of the host function; the journal keeps no result
  for the effect, and the replayed call throws another error.
\<close>

theorem failed_call_replays_differently:
  assumes "invokeSyncLive memOps sn cell H name pol (Inr p) c = (r, c')" and "store_ok (cr_store c)"
    and "hv_invoke H (hv_uuid H (cr_uuids c)) name p = Inl err" and "pol \<noteq> ReplayNonReplayable"
    and "find_map (startedOf sn (hv_uuid H (cr_uuids c))) (logOf (cr_store c)) = None"
    and "find_map (resultOf sn (hv_uuid H (cr_uuids c))) (logOf (cr_store c)) = None"
  shows "r = HThrow err \<and> (\<exists>d. decision_of sn (logOf (cr_store c')) (hv_uuid H (cr_uuids c)) = Some d \<and>
    (\<forall>rr rest. rr_open rr \<longrightarrow> nextEffect (rr_step rr) = Inr (\<lparr>ri_effectID = hv_uuid H (cr_uuids c), ri_decision = d\<rparr>, rest) \<longrightarrow>
      fst (invokeSyncReplay name (Inr p) rr) = HThrow (''host function '' @ quote name @
        '' replay: missing recorded result for effect '' @ quote (hv_uuid H (cr_uuids c)))))"
proof -
  let ?e = "hv_uuid H (cr_uuids c)"
  let ?fs = "[effectStarted sn cell H ?e name pol p, effectFailed sn H ?e err]"
  obtain st1 where a: "so_AppendFact memOps (cr_store c) (effectStarted sn cell H ?e name pol p) = (None, st1)"
    using mem.append_total [OF assms(2)] by blast
  note l = mem.append_ok [OF assms(2) a]
  have "r = HThrow err" "logOf (cr_store c') = logOf (cr_store c) @ ?fs"
    using assms(1,3) a l mem.append_snd(3) [OF l [THEN conjunct1], of "effectFailed sn H ?e err"]
    by (auto simp: invokeSyncLive_def Let_def settleLive_def simp del: memOps_sel)
  moreover have "find_map (completedOf sn ?e) (enumerate 0 (logOf (cr_store c) @ ?fs)) = None"
    using completedOf_result [of sn ?e 0 "logOf (cr_store c) @ ?fs"] assms(6)
    by (simp add: find_map_append effectStarted_def effectFailed_def)
  moreover have "find_map (startedOf sn ?e) (logOf (cr_store c) @ ?fs) = Some pol"
    using assms(5) by (simp add: find_map_append effectStarted_def)
  ultimately show ?thesis
    using assms(4) by (simp add: decision_of_def invokeSyncReplay_def nextReplayInvocation_def replayRefusal_def)
qed

theorem failed_call_replays_differently_witness:
  "fst (invokeSyncLive memOps ''s'' ''c1'' (eng_host ''c1''\<lparr>hv_invoke := \<lambda>_ _ _. Inl ''down''\<rparr>) ''f'' ReplayReadonly (Inr [1])
     (newCellRun New 0 :: (Store, nat) cellRun)) = HThrow ''down''"
proof -
  obtain r c' where "invokeSyncLive memOps ''s'' ''c1'' (eng_host ''c1''\<lparr>hv_invoke := \<lambda>_ _ _. Inl ''down''\<rparr>) ''f'' ReplayReadonly (Inr [1])
     (newCellRun New 0 :: (Store, nat) cellRun) = (r, c')" by fastforce
  moreover from failed_call_replays_differently [OF this, of "''down''", THEN conjunct1] have "r = HThrow ''down''"
    by (simp add: newCellRun_def ReplayReadonly_def ReplayNonReplayable_def)
  ultimately show ?thesis by simp
qed

subsection \<open>A session\<close>








end
