(* ===== verification/Runtime_Claims.thy ===== *)
theory Runtime_Claims
  imports Session_Example "HOL-Library.Multiset"
begin

text \<open>
  Correctness of single parts of the runtime: descriptors, indexed values,
  replayed settlements, live evaluation and error locations.
\<close>

subsection \<open>Descriptors\<close>

text \<open>
  What the code relies on of \<open>encoding/json\<close>: encoding a decoded document is
  canonical, so normalising a second time changes nothing.
\<close>

definition json_normal :: "('vm, 'v) Goja \<Rightarrow> bool" where
  "json_normal G \<longleftrightarrow> (\<forall>x y. gj_json G x = Inr y \<longrightarrow> gj_json G y = Inr y)"

lemma normalize_idem: "json_normal G \<Longrightarrow> normalizeRuntimeConfig G x = Inr y \<Longrightarrow> normalizeRuntimeConfig G y = Inr y"
  by (auto simp: normalizeRuntimeConfig_def json_normal_def split: if_splits sum.splits)

lemma resolveLoop_fixpoint:
  "resolveLoop G dl sn b state n h0 = Inr (cf, h) \<Longrightarrow>
     rbind (previewConfiguredRuntimeState G dl sn b h state) (normalizeRuntimeConfig G) = Inr cf \<and> h = runtimeConfigHash G cf"
proof (induction n arbitrary: h0)
  case (Suc n)
  then show ?case by (auto simp: Let_def split: if_splits)
qed simp

text \<open>
  A resolved descriptor is a fixed point: its hash is the digest of the
  normalised descriptor, and configuring a runtime under that hash gives the
  descriptor again. A new runtime has exactly the resolved descriptor and hash,
  an empty value table and the requested mode; it fails only when resolution
  fails, so that the check of the delegate's second answer never reports a mismatch.
\<close>

theorem new_runtime_has_resolved_descriptor:
  assumes json: "json_normal G"
  shows "(case resolveRuntimeDescriptor G dl sn b state of
      Inl e \<Rightarrow> newBranchRuntime G dl sn b state mode = Inl e
    | Inr (cf, h) \<Rightarrow> h = runtimeConfigHash G cf \<and>
        (\<exists>vm. newBranchRuntime G dl sn b state mode =
           Inr (\<lparr>br_vm = vm, br_mode = mode, br_valueByIndex = Map.empty, br_epoch = h\<rparr>, cf, h)))"
proof (cases "resolveRuntimeDescriptor G dl sn b state")
  case (Inr r)
  obtain cf h where r: "r = (cf, h)" by fastforce
  obtain ns where ns: "normalizeRuntimeConfig G state = Inr ns"
    using Inr by (auto simp: resolveRuntimeDescriptor_def)
  show ?thesis
  proof (cases dl)
    case None
    then show ?thesis
      using Inr r ns normalize_idem [OF json ns] by (simp add: resolveRuntimeDescriptor_def newBranchRuntime_def Let_def)
  next
    case (Some d)
    then have l: "resolveLoop G dl sn b ns maxRuntimeHashResolutionPasses (runtimeConfigHash G ns) = Inr (cf, h)"
      using Inr r ns by (simp add: resolveRuntimeDescriptor_def)
    from resolveLoop_fixpoint [OF l] obtain vm c where "configureRuntime d sn b h (gj_boot G) ns = Inr (vm, c)"
      "normalizeRuntimeConfig G c = Inr cf" and h: "h = runtimeConfigHash G cf"
      by (auto simp: previewConfiguredRuntimeState_def Some)
    then show ?thesis using Inr r ns Some by (auto simp: newBranchRuntime_def Let_def)
  qed
qed (simp add: newBranchRuntime_def)

theorem new_runtime_has_resolved_descriptor_witness:
  "\<exists>vm. newBranchRuntime eng_goja None ''s'' ''b'' [5] ModeLive =
     Inr (\<lparr>br_vm = vm, br_mode = ModeLive, br_valueByIndex = Map.empty, br_epoch = ''k''\<rparr>, [5], ''k'')"
  using new_runtime_has_resolved_descriptor [of eng_goja None "''s''" "''b''" "[5]" ModeLive]
  by (simp add: json_normal_def eng_goja_def resolveRuntimeDescriptor_def normalizeRuntimeConfig_def runtimeConfigHash_def)

subsection \<open>Indexed values\<close>

lemma setIndexedResult_dom:
  "setIndexedResult G n ev rt = Inr rt' \<Longrightarrow> 0 < n \<Longrightarrow> dom (br_valueByIndex rt') = insert n (dom (br_valueByIndex rt))"
  by (auto simp: setIndexedResult_def Let_def)

lemma transition_dom:
  "applyRuntimeTransitionAndInvalidateIndexedResults G dl sn b fh th fc tc n rt = Inr rt' \<Longrightarrow>
     dom (br_valueByIndex rt') = dom (br_valueByIndex rt)"
  by (auto simp: applyRuntimeTransitionAndInvalidateIndexedResults_def applyRuntimeTransition_def replaceStaleIndexedResults_def
      dom_def Let_def split: if_splits option.splits sum.splits)

lemma applyTransitions_dom:
  "applyTransitions G dl sn b n ts q = Inr q' \<Longrightarrow> dom (br_valueByIndex (rq_rt q')) = dom (br_valueByIndex (rq_rt q))"
proof (induction ts arbitrary: q)
  case (Cons t ts)
  then show ?case using transition_dom by fastforce
qed simp

lemma replayStep_dom:
  assumes "replayStep G dl sn b plan i step q = Inr q'"
  shows "dom (br_valueByIndex (rq_rt q')) = insert (Suc i) (dom (br_valueByIndex (rq_rt q)))"
proof -
  obtain st ev st' rt rt' where "replayRunContext G st (replaySourceForStep step) (rq_rt q) = Inr (ev, st', rt)"
    and set: "setIndexedResult G (i + 1) ev rt = Inr rt'"
    and app: "applyTransitions G dl sn b (i + 1) (transitionsAfter plan (st_Cell step)) (q\<lparr>rq_rt := rt'\<rparr>) = Inr q'"
    using assms by (auto simp: replayStep_def Let_def split: sum.splits option.splits prod.splits)
  then have "br_valueByIndex rt = br_valueByIndex (rq_rt q)"
    by (auto simp: replayRunContext_def split: sum.splits option.splits prod.splits)
  then show ?thesis using setIndexedResult_dom [OF set] applyTransitions_dom [OF app] by simp
qed

lemma replaySteps_dom:
  "replaySteps G dl sn b plan i steps q = Inr q' \<Longrightarrow>
     dom (br_valueByIndex (rq_rt q')) = dom (br_valueByIndex (rq_rt q)) \<union> {Suc i..i + length steps}"
proof (induction steps arbitrary: i q)
  case (Cons step steps)
  then obtain q1 where "replayStep G dl sn b plan i step q = Inr q1" "replaySteps G dl sn b plan (Suc i) steps q1 = Inr q'" by auto
  then have "dom (br_valueByIndex (rq_rt q')) = insert (Suc i) (dom (br_valueByIndex (rq_rt q))) \<union> {Suc (Suc i)..Suc i + length steps}"
    using Cons.IH [of "Suc i" q1] replayStep_dom [of G dl sn b plan i step q q1] by simp
  moreover have "{Suc i..i + length (step # steps)} = insert (Suc i) {Suc (Suc i)..Suc i + length steps}" by auto
  ultimately show ?case by auto
qed simp

lemma newBranchRuntime_empty: "newBranchRuntime G dl sn b cfg m = Inr (rt, r) \<Longrightarrow> br_valueByIndex rt = Map.empty"
  by (auto simp: newBranchRuntime_def Let_def split: if_splits)

text \<open>
  After a replay the runtime is live again and has exactly the values
  \<open>$val(1)\<close> to \<open>$val(n)\<close> for a plan of \<open>n\<close> cells, whatever transitions are among them.
\<close>

theorem replayed_values_are_indexed_from_one:
  assumes "replayPlanIntoRuntime G dl sn b plan = Inr (rt, cf, h)"
  shows "dom (br_valueByIndex rt) = {1..length (pl_Steps plan)} \<and> br_mode rt = ModeLive"
proof -
  obtain rt0 cf0 h0 q0 q where "newBranchRuntime G dl sn b (pl_RuntimeConfig plan) ModeReplay = Inr (rt0, cf0, h0)"
    and "applyTransitions G dl sn b 0 (transitionsAfter plan []) \<lparr>rq_rt = rt0, rq_config = cf0, rq_hash = h0\<rparr> = Inr q0"
    and "replaySteps G dl sn b plan 0 (pl_Steps plan) q0 = Inr q" and rt: "rt = (rq_rt q)\<lparr>br_mode := ModeLive\<rparr>"
    using assms by (auto simp: replayPlanIntoRuntime_def replayPlanPrefixIntoRuntime_def)
  then show ?thesis
    using replaySteps_dom [of G dl sn b plan 0 "pl_Steps plan" q0 q] applyTransitions_dom newBranchRuntime_empty by fastforce
qed

theorem replayed_values_are_indexed_from_one_witness:
  "\<exists>rt cf h. replayPlanIntoRuntime eng_goja None ''s'' ''b'' (plan_of ''s'' (logOf eng_st2) (runtimeConfigs eng_st2) ''c1'' ''b'') = Inr (rt, cf, h) \<and>
     dom (br_valueByIndex rt) = {1..length (steps_of ''s'' (logOf eng_st2) ''c1'')}"
proof -
  obtain rt cf h where run: "replayPlanIntoRuntime eng_goja None ''s'' ''b''
      (plan_of ''s'' (logOf eng_st2) (runtimeConfigs eng_st2) ''c1'' ''b'') = Inr (rt, cf, h)"
    using eng_plan(1) by (force simp: eng_deps_def)
  then show ?thesis using replayed_values_are_indexed_from_one [OF run] by simp
qed

text \<open>
  Switching to another descriptor makes the callables of older descriptors
  unusable through \<open>$val\<close>: each is replaced by one that throws the stale
  message; plain values and callables of the new descriptor stay, and \<open>$last\<close>
  is the value of the greatest index.
\<close>

theorem stale_callables_replaced:
  assumes "replaceStaleIndexedResults G h n rt = Inr rt'" and "h \<noteq> []" and "0 < n"
  shows "(\<forall>i e. br_valueByIndex rt i = Some e \<longrightarrow> i \<le> n \<longrightarrow> gj_isCallable G (ix_value e) \<longrightarrow> ix_runtimeHash e \<notin> {[], h} \<longrightarrow>
      (\<exists>m. br_valueByIndex rt' i = Some (e\<lparr>ix_value := gj_staleCallable G m, ix_runtimeHash := []\<rparr>) \<and> \<not> isBlank m)) \<and>
    (\<forall>i e. br_valueByIndex rt i = Some e \<longrightarrow> i > n \<or> \<not> gj_isCallable G (ix_value e) \<or> ix_runtimeHash e \<in> {[], h} \<longrightarrow>
      br_valueByIndex rt' i = Some e) \<and>
    (\<forall>e. br_valueByIndex rt' n = Some e \<longrightarrow> gj_setLast G (br_vm rt) (ix_value e) = Inr (br_vm rt'))"
proof -
  let ?vals = "\<lambda>i. map_option (staleEntry G h n i) (br_valueByIndex rt i)"
  obtain vm where vm: "gj_setLast G (br_vm rt) (lastIndexedValue ?vals (gj_undefined G) n) = Inr vm"
    and rt': "rt' = rt\<lparr>br_vm := vm, br_valueByIndex := ?vals\<rparr>"
    using assms by (auto simp: replaceStaleIndexedResults_def Let_def)
  have msg: "\<not> isBlank (indexedValueStaleMessage e)" for e :: "'b indexedValue"
    by (simp add: indexedValueStaleMessage_def) (simp add: isBlank_def defaultStaleIndexedValueMessage_def)
  obtain k where n: "n = Suc k" using assms(3) by (cases n) auto
  have "\<exists>m. ?vals i = Some (e\<lparr>ix_value := gj_staleCallable G m, ix_runtimeHash := []\<rparr>) \<and> \<not> isBlank m"
    if "br_valueByIndex rt i = Some e" "i \<le> n" "gj_isCallable G (ix_value e)" "ix_runtimeHash e \<notin> {[], h}" for i e
    using that msg [of e] by (intro exI [of _ "indexedValueStaleMessage e"]) (simp add: staleEntry_def)
  moreover have "?vals i = Some e"
    if "br_valueByIndex rt i = Some e" "i > n \<or> \<not> gj_isCallable G (ix_value e) \<or> ix_runtimeHash e \<in> {[], h}" for i e
    using that by (auto simp: staleEntry_def)
  moreover have "gj_setLast G (br_vm rt) (ix_value e) = Inr vm" if "?vals n = Some e" for e
    using vm that by (auto simp: n)
  ultimately show ?thesis by (simp add: rt')
qed

theorem stale_callables_replaced_witness:
  "\<exists>rt'. replaceStaleIndexedResults (eng_goja\<lparr>gj_isCallable := \<lambda>v. v = 4, gj_staleCallable := \<lambda>_. 9\<rparr>) ''k'' 1
      \<lparr>br_vm = 0, br_mode = ModeLive, br_valueByIndex = [1 \<mapsto> \<lparr>ix_value = 4, ix_runtimeHash = ''h'', ix_staleMessage = []\<rparr>], br_epoch = ''k''\<rparr> = Inr rt' \<and>
     map_option ix_value (br_valueByIndex rt' 1) = Some 9"
proof -
  let ?G = "eng_goja\<lparr>gj_isCallable := \<lambda>v. v = 4, gj_staleCallable := \<lambda>_. 9\<rparr>"
  let ?rt = "\<lparr>br_vm = 0, br_mode = ModeLive, br_valueByIndex = [1 \<mapsto> \<lparr>ix_value = 4, ix_runtimeHash = ''h'', ix_staleMessage = []\<rparr>], br_epoch = ''k''\<rparr>"
  obtain rt' where run: "replaceStaleIndexedResults ?G ''k'' 1 ?rt = Inr rt'"
    by (simp add: replaceStaleIndexedResults_def Let_def eng_goja_def)
  from stale_callables_replaced [OF this, THEN conjunct1] show ?thesis using run by fastforce
qed

subsection \<open>Effects\<close>



definition queueAll :: "(nat \<times> nat \<times> bytes) list \<Rightarrow> replayStepState \<Rightarrow> replayStepState" where
  "queueAll calls st = foldl (\<lambda>st (order, settle). snd (queueAsync order settle st)) st calls"

definition queued_as :: "(nat \<times> nat \<times> bytes) list \<Rightarrow> replayStepState \<Rightarrow> bool" where
  "queued_as calls st \<longleftrightarrow> distinct (map fst (rp_pendingAsync st)) \<and> (\<forall>k. map_of (rp_pendingAsync st) k =
     (case filter (\<lambda>c. fst c = k) calls of [] \<Rightarrow> None | cs \<Rightarrow> Some (map snd cs)))"

lemma queueAsync_queued: "queued_as calls st \<Longrightarrow> queued_as (calls @ [c]) (snd (queueAsync (fst c) (snd c) st))"
  by (auto simp: queued_as_def queueAsync_def Let_def AList.distinct_update AList.update_conv' split: list.splits)

lemma queueAll_queued: "queued_as calls st \<Longrightarrow> queued_as (calls @ cs) (queueAll cs st)"
proof (induction cs arbitrary: calls st)
  case (Cons c cs)
  then show ?case using Cons.IH [of "calls @ [c]"] queueAsync_queued [of calls st c] by (simp add: queueAll_def case_prod_unfold)
qed (simp add: queueAll_def)

lemma concat_groups_sorted:
  assumes "sorted ks" and "distinct ks" and "set ks = fst ` set calls"
  shows "concat (map (\<lambda>k. filter (\<lambda>c. fst c = k) calls) ks) = sort_key fst calls"
proof (rule sym, rule properties_for_sort_key)
  have "mset (concat (map (\<lambda>k. filter (\<lambda>c. fst c = k) xs) ks)) = mset xs" if "fst ` set xs \<subseteq> set ks" for xs :: "('a \<times> 'b) list"
    using that
  proof (induction xs)
    case (Cons x xs)
    have "mset (concat (map (\<lambda>k. filter (\<lambda>c. fst c = k) (x # xs)) ks)) =
        mset (concat (map (\<lambda>k. if fst x = k then [x] else []) ks)) + mset (concat (map (\<lambda>k. filter (\<lambda>c. fst c = k) xs) ks))"
      by (induction ks) auto
    moreover have "fst x \<in> set ks" using Cons.prems by simp
    then have "mset (concat (map (\<lambda>k. if fst x = k then [x] else []) ks)) = {#x#}"
      using assms(2) by (induction ks) (auto simp: concat_eq_Nil_conv)
    ultimately show ?case using Cons by simp
  qed simp
  then show "mset (concat (map (\<lambda>k. filter (\<lambda>c. fst c = k) calls) ks)) = mset calls" using assms(3) by simp
  show "filter (\<lambda>x. fst k = fst x) (concat (map (\<lambda>k. filter (\<lambda>c. fst c = k) calls) ks)) = filter (\<lambda>x. fst k = fst x) calls"
    if "k \<in> set (concat (map (\<lambda>k. filter (\<lambda>c. fst c = k) calls) ks))" for k
  proof -
    have "fst k \<in> set ks" using that by auto
    have "concat (map (\<lambda>j. filter (\<lambda>x. fst k = fst x \<and> fst x = j) calls) ks) = filter (\<lambda>x. fst k = fst x) calls"
      using assms(2) \<open>fst k \<in> set ks\<close>
    proof (induction ks)
      case (Cons j ks)
      have nil: "concat (map (\<lambda>j. filter (\<lambda>x. fst k = fst x \<and> fst x = j) calls) ks) = []" if "fst k \<notin> set ks"
        using that by (auto simp: concat_eq_Nil_conv filter_empty_conv)
      show ?case
      proof (cases "fst k = j")
        case True
        then have "filter (\<lambda>x. fst k = fst x \<and> fst x = j) calls = filter (\<lambda>x. fst k = fst x) calls" by (metis (mono_tags))
        then show ?thesis using nil Cons.prems True by simp
      next
        case False
        then have "filter (\<lambda>x. fst k = fst x \<and> fst x = j) calls = []" by (auto simp: filter_empty_conv)
        then show ?thesis using Cons False by simp
      qed
    qed simp
    then show ?thesis by (simp add: filter_concat comp_def conj_commute)
  qed
  show "sorted (map fst (concat (map (\<lambda>k. filter (\<lambda>c. fst c = k) calls) ks)))"
    using assms(1)
  proof (induction ks)
    case (Cons k ks)
    have "sorted (map fst (filter (\<lambda>c. fst c = k) calls))" by (induction calls) auto
    then show ?case using Cons by (auto simp: sorted_append)
  qed simp
qed

text \<open>
  Replayed asynchronous effects settle in the order in which they completed
  live: whatever the order of the calls, the settlers that a flush runs are
  those queued, sorted by recorded completion order, calls with the same order
  staying in the order of the calls.
\<close>

theorem replay_settles_in_completion_order:
  assumes "rp_pendingAsync st = []"
  shows "fst (takePendingAsync (queueAll calls st)) = map snd (sort_key fst calls)"
proof -
  let ?P = "rp_pendingAsync (queueAll calls st)"
  have q: "queued_as calls (queueAll calls st)"
    using queueAll_queued [of "[]" st calls] assms by (simp add: queued_as_def)
  have keys: "set (map fst ?P) = fst ` set calls"
  proof -
    have "k \<in> set (map fst ?P) \<longleftrightarrow> k \<in> fst ` set calls" for k
      using q map_of_eq_None_iff [of ?P k] by (force simp: queued_as_def filter_empty_conv split: list.splits)
    then show ?thesis by blast
  qed
  have get: "the (map_of ?P k) = map snd (filter (\<lambda>c. fst c = k) calls)" if "k \<in> fst ` set calls" for k
    using q that by (auto simp: queued_as_def filter_empty_conv split: list.splits)
  have "concat (map (\<lambda>k. the (map_of ?P k)) (sort (map fst ?P))) =
      map snd (concat (map (\<lambda>k. filter (\<lambda>c. fst c = k) calls) (sort (map fst ?P))))"
    unfolding map_concat map_map comp_def using get keys by (intro arg_cong [of _ _ concat] map_cong) auto
  also have "\<dots> = map snd (sort_key fst calls)"
    using q keys by (subst concat_groups_sorted) (simp_all add: queued_as_def)
  finally show ?thesis
    using keys by (auto simp: takePendingAsync_def)
qed

theorem replay_settles_in_completion_order_witness:
  "fst (takePendingAsync (queueAll [(7, 0, [1]), (3, 1, [2]), (7, 2, [3])]
     \<lparr>rp_effects = [], rp_nextStart = 0, rp_pendingAsync = [], rp_flushScheduled = False\<rparr>)) = [(1, [2]), (0, [1]), (2, [3])]"
  using replay_settles_in_completion_order [of "\<lparr>rp_effects = [], rp_nextStart = 0, rp_pendingAsync = [], rp_flushScheduled = False\<rparr>"
      "[(7, 0, [1]), (3, 1, [2]), (7, 2, [3])]"] by simp

subsection \<open>Error locations\<close>

lemma showNat_digits: "list_all isDigit (showNat n)"
proof (induction n rule: showNat.induct)
  case (1 n)
  have "isDigit (char_of (48 + n mod 10))" "n < 10 \<Longrightarrow> isDigit (char_of (48 + n))"
    using mod_less_divisor [of 10 n] by (simp_all add: isDigit_def del: mod_less_divisor)
  then show ?case using 1 by (subst showNat.simps) simp
qed

lemma showNat_not_Nil [simp]: "showNat n \<noteq> []"
  by (subst showNat.simps) simp

lemma atoi_showNat_fold: "foldl (\<lambda>n c. 10 * n + (of_char c - 48)) 0 (showNat n) = n"
proof (induction n rule: showNat.induct)
  case (1 n)
  then show ?case by (subst showNat.simps) simp
qed

lemma atoi_showNat: "n \<le> MaxInt \<Longrightarrow> atoi (showNat n) = n"
  by (simp add: atoi_def atoi_showNat_fold)

lemma digits_prefix:
  "list_all isDigit ds \<Longrightarrow> rest = [] \<or> \<not> isDigit (hd rest) \<Longrightarrow> takeWhile isDigit (ds @ rest) = ds \<and> dropWhile isDigit (ds @ rest) = rest"
  by (induction ds) (cases rest; auto)+

lemma matchLoc_printed:
  assumes "rest = [] \<or> \<not> isDigit (hd rest)"
  shows "matchLoc pre [] (pre @ showNat l @ '':'' @ showNat c @ rest) = Some (showNat l, showNat c, rest)"
  using digits_prefix [OF showNat_digits, of "'':'' @ showNat c @ rest" l] digits_prefix [OF showNat_digits assms, of c]
  by (simp add: matchLoc_def Let_def isDigit_def)

lemma rewriteLocs_none: "pre \<noteq> [] \<Longrightarrow> hd pre \<notin> set s \<Longrightarrow> rewriteLocs pre post n s = s"
proof (induction pre post n s rule: rewriteLocs.induct)
  case (3 pre post n x xs)
  then have "matchLoc pre post (x # xs) = None" by (cases pre) (auto simp: matchLoc_def)
  then show ?case using 3 by simp
qed simp_all

text \<open>
  Locations in error texts are those of the cell: a text with \<open>Line l:c\<close>, the
  line counted in the wrapped source, is reported with the line before, and
  never with a line below 1; texts without a location are reported as they are.
\<close>

theorem error_line_is_cell_line:
  assumes "l \<le> MaxInt" and "c \<le> MaxInt" and "CHR ''L'' \<notin> set pre" and "CHR ''L'' \<notin> set post" and "CHR ''c'' \<notin> set pre" and "CHR ''c'' \<notin> set post"
    and "post = [] \<or> \<not> isDigit (hd post)"
  shows "translateWrappedCellLocations (pre @ ''Line '' @ showNat l @ '':'' @ showNat c @ post) =
      pre @ ''Line '' @ showNat (max 1 (l - 1)) @ '':'' @ showNat c @ post \<and>
    translateWrappedCellLocations (pre @ post) = pre @ post"
proof -
  have skip: "rewriteLocs ''Line '' [] (length pre + n) (pre @ s) = pre @ rewriteLocs ''Line '' [] n s" if "CHR ''L'' \<notin> set pre" for n s pre
    using that by (induction pre) (auto simp: matchLoc_def)
  let ?s = "''Line '' @ showNat l @ '':'' @ showNat c @ post"
  have "rewriteLocs ''Line '' [] (Suc n) ?s = ''Line '' @ showNat (moveUp l) @ '':'' @ showNat c @ post" for n
    using matchLoc_printed [OF assms(7), of "''Line ''" l c] rewriteLocs_none [of "''Line ''" post "[]" n] assms(1,2,4)
    by (simp add: atoi_showNat)
  from skip [OF assms(3), of "Suc (length ?s - 1)" ?s] this
  have "rewriteLocs ''Line '' [] (length (pre @ ?s)) (pre @ ?s) = pre @ ''Line '' @ showNat (moveUp l) @ '':'' @ showNat c @ post"
    by simp
  moreover have "CHR ''c'' \<notin> set (pre @ ''Line '' @ showNat (moveUp l) @ '':'' @ showNat c @ post)"
    using showNat_digits [of "moveUp l"] showNat_digits [of c] assms(5,6) by (auto simp: list_all_iff isDigit_def)
  moreover have "moveUp l = max 1 (l - 1)" by (auto simp: moveUp_def)
  moreover have "rewriteLocs ''Line '' [] n (pre @ post) = pre @ post" "rewriteLocs ''cell.js:'' ''('' n (pre @ post) = pre @ post" for n
    using assms(3-6) by (simp_all add: rewriteLocs_none)
  ultimately show ?thesis
    using rewriteLocs_none [of "''cell.js:''"] by (simp add: translateWrappedCellLocations_def Let_def)
qed

theorem error_line_is_cell_line_witness:
  "translateWrappedCellLocations (''SyntaxError: '' @ ''Line '' @ showNat 3 @ '':'' @ showNat 7 @ '' bad'') =
     ''SyntaxError: '' @ ''Line '' @ showNat 2 @ '':'' @ showNat 7 @ '' bad''"
  using error_line_is_cell_line [of 3 7 "''SyntaxError: ''" "'' bad''"] by (simp add: MaxInt_def isDigit_def numeral_2_eq_2)

end
