(* ===== verification/Wire_Format.thy ===== *)
theory Wire_Format
  imports Repl_Prelude
begin

text \<open>
  The wire format of \<open>src/jswire/bridge.go\<close>: a value graph, its sizes, its
  encoding and the validating decoder. The byte encodings of numbers, strings
  and byte slices come from the package mus-go and are a parameter (\<open>musLib\<close>).

  A \<open>float64\<close> is its IEEE 754 bit pattern. An encoder writes at \<open>bs[n:]\<close> of a
  buffer and returns the number of bytes; in the model it returns the bytes. A
  decoder reads at \<open>bs[n:]\<close> and returns its result with the number of bytes it
  consumed.
\<close>

subsection \<open>Errors and primitive encodings\<close>

datatype WireError = ErrUnsupportedVersion | ErrInvalidWire string | MusError string | Panic string

type_synonym float64 = "64 word"
type_synonym 'a reader = "bytes \<Rightarrow> WireError + 'a \<times> nat"

record 'a mus =
  ms_Size :: "'a \<Rightarrow> nat"
  ms_Marshal :: "'a \<Rightarrow> bytes"
  ms_Unmarshal :: "bytes \<Rightarrow> string + 'a \<times> nat"

record musLib =
  mu_Byte :: "byte mus"
  mu_Uint64 :: "64 word mus"
  mu_Int64 :: "64 word mus"
  mu_PositiveInt64 :: "64 word mus"
  mu_Float64 :: "float64 mus"
  mu_String :: "string mus"
  mu_ByteSlice :: "bytes mus"

definition musRead :: "'a mus \<Rightarrow> 'a reader" where
  "musRead m bs = (case ms_Unmarshal m bs of Inl e \<Rightarrow> Inl (MusError e) | Inr r \<Rightarrow> Inr r)"

text \<open>\<open>x, m, err := r(bs[n:])\<close>, returning on an error, then \<open>n += m\<close> and the rest of the decoder.\<close>

definition rthen :: "'a reader \<Rightarrow> ('a \<Rightarrow> 'b reader) \<Rightarrow> 'b reader" where
  "rthen r f bs = rbind (r bs) (\<lambda>(x, m). rbind (f x (drop m bs)) (\<lambda>(y, k). Inr (y, m + k)))"

definition rok :: "'a \<Rightarrow> 'a reader" where
  "rok x bs = Inr (x, 0)"

definition rfail :: "WireError \<Rightarrow> 'a reader" where
  "rfail e bs = Inl e"

fun readTimes :: "nat \<Rightarrow> 'a reader \<Rightarrow> 'a list reader" where
  "readTimes 0 r = rok []"
| "readTimes (Suc n) r = rthen r (\<lambda>x. rthen (readTimes n r) (\<lambda>xs. rok (x # xs)))"

text \<open>
  \<open>make([]T, count)\<close> panics on a negative count and where the slice would exceed
  the address space (\<open>maxAlloc\<close> of the 64-bit runtime); \<open>elemSize\<close> is \<open>sizeof(T)\<close>.
\<close>

definition maxAlloc :: nat where "maxAlloc = 281474976710656"

definition makeSlice :: "nat \<Rightarrow> int \<Rightarrow> nat reader" where
  "makeSlice elemSize count bs =
     (if count < 0 \<or> nat count * elemSize > maxAlloc then Inl (Panic ''runtime error: makeslice: len out of range'')
      else Inr (nat count, 0))"

definition marshalLen :: "musLib \<Rightarrow> nat \<Rightarrow> bytes" where
  "marshalLen L v = ms_Marshal (mu_PositiveInt64 L) (of_nat v)"

definition sizeLen :: "musLib \<Rightarrow> nat \<Rightarrow> nat" where
  "sizeLen L v = ms_Size (mu_PositiveInt64 L) (of_nat v)"

definition unmarshalLen :: "musLib \<Rightarrow> int reader" where
  "unmarshalLen L = rthen (musRead (mu_PositiveInt64 L)) (\<lambda>v. rok (sint v))"

definition marshalU32 :: "musLib \<Rightarrow> 32 word \<Rightarrow> bytes" where
  "marshalU32 L v = ms_Marshal (mu_Uint64 L) (ucast v)"

definition sizeU32 :: "musLib \<Rightarrow> 32 word \<Rightarrow> nat" where
  "sizeU32 L v = ms_Size (mu_Uint64 L) (ucast v)"

definition unmarshalU32 :: "musLib \<Rightarrow> 32 word reader" where
  "unmarshalU32 L = rthen (musRead (mu_Uint64 L)) (\<lambda>v.
     if v > 0xFFFFFFFF then rfail (ErrInvalidWire []) else rok (ucast v))"

subsection \<open>Value graphs\<close>

datatype valueKind = valueUndefined | valueNull | valueBool | valueNumber | valueString | valueBigInt | valueRef

datatype numberKind = numberFinite | numberNaN | numberPosInf | numberNegInf | numberNegZero

datatype nodeKind = nodeObject | nodeArray | nodeMap | nodeSet | nodeDate | nodeRegexp | nodeArrayBuffer
  | nodeTypedArray | nodePromise | nodeError

text \<open>The numbering of the constants (\<open>iota\<close>).\<close>

primrec valueKindByte :: "valueKind \<Rightarrow> byte" where
  "valueKindByte valueUndefined = 0" | "valueKindByte valueNull = 1" | "valueKindByte valueBool = 2"
| "valueKindByte valueNumber = 3" | "valueKindByte valueString = 4" | "valueKindByte valueBigInt = 5"
| "valueKindByte valueRef = 6"

primrec numberKindByte :: "numberKind \<Rightarrow> byte" where
  "numberKindByte numberFinite = 0" | "numberKindByte numberNaN = 1" | "numberKindByte numberPosInf = 2"
| "numberKindByte numberNegInf = 3" | "numberKindByte numberNegZero = 4"

primrec nodeKindByte :: "nodeKind \<Rightarrow> byte" where
  "nodeKindByte nodeObject = 0" | "nodeKindByte nodeArray = 1" | "nodeKindByte nodeMap = 2"
| "nodeKindByte nodeSet = 3" | "nodeKindByte nodeDate = 4" | "nodeKindByte nodeRegexp = 5"
| "nodeKindByte nodeArrayBuffer = 6" | "nodeKindByte nodeTypedArray = 7" | "nodeKindByte nodePromise = 8"
| "nodeKindByte nodeError = 9"

definition valueKinds :: "valueKind list" where
  "valueKinds = [valueUndefined, valueNull, valueBool, valueNumber, valueString, valueBigInt, valueRef]"

definition numberKinds :: "numberKind list" where
  "numberKinds = [numberFinite, numberNaN, numberPosInf, numberNegInf, numberNegZero]"

definition nodeKinds :: "nodeKind list" where
  "nodeKinds = [nodeObject, nodeArray, nodeMap, nodeSet, nodeDate, nodeRegexp, nodeArrayBuffer,
     nodeTypedArray, nodePromise, nodeError]"

text \<open>The \<open>switch\<close> on a kind that was read; the default case is invalid.\<close>

definition kindOf :: "('k \<Rightarrow> byte) \<Rightarrow> 'k list \<Rightarrow> byte \<Rightarrow> 'k reader" where
  "kindOf code ks b = (case filter (\<lambda>k. code k = b) ks of k # _ \<Rightarrow> rok k | [] \<Rightarrow> rfail (ErrInvalidWire []))"

record wireValue =
  wv_Kind :: valueKind
  wv_Bool :: bool
  wv_Number :: float64
  wv_Text :: string
  wv_Ref :: "32 word"

record wireProp =
  wp_Key :: string
  wp_Value :: wireValue

record wireSlot =
  ws_Present :: bool
  ws_Value :: wireValue

record wireEntry =
  we_Key :: wireValue
  we_Value :: wireValue

record wireNode =
  wn_ID :: "32 word"
  wn_Kind :: nodeKind
  wn_Props :: "wireProp list"
  wn_Slots :: "wireSlot list"
  wn_Entries :: "wireEntry list"
  wn_Values :: "wireValue list"
  wn_DateValid :: bool
  wn_DateMS :: "64 word"
  wn_TextA :: string
  wn_TextB :: string
  wn_Bytes :: bytes
  wn_Buffer :: wireValue
  wn_ByteOffset :: "32 word"
  wn_ByteLength :: "32 word"
  wn_Promise :: wireValue
  wn_Cause :: wireValue

record wireGraph =
  wg_Root :: wireValue
  wg_Nodes :: "wireNode list"

definition zeroValue :: wireValue where
  "zeroValue = \<lparr>wv_Kind = valueUndefined, wv_Bool = False, wv_Number = 0, wv_Text = [], wv_Ref = 0\<rparr>"

definition zeroNode :: wireNode where
  "zeroNode = \<lparr>wn_ID = 0, wn_Kind = nodeObject, wn_Props = [], wn_Slots = [], wn_Entries = [], wn_Values = [],
     wn_DateValid = False, wn_DateMS = 0, wn_TextA = [], wn_TextB = [], wn_Bytes = [], wn_Buffer = zeroValue,
     wn_ByteOffset = 0, wn_ByteLength = 0, wn_Promise = zeroValue, wn_Cause = zeroValue\<rparr>"

subsection \<open>Numbers\<close>

unbundle bit_operations_syntax

definition Signbit :: "float64 \<Rightarrow> bool" where "Signbit f \<longleftrightarrow> bit f 63"

definition expBits :: "float64 \<Rightarrow> 64 word" where "expBits f = drop_bit 52 f AND 0x7FF"
definition fracBits :: "float64 \<Rightarrow> 64 word" where "fracBits f = f AND 0xFFFFFFFFFFFFF"

definition IsNaN :: "float64 \<Rightarrow> bool" where "IsNaN f \<longleftrightarrow> expBits f = 0x7FF \<and> fracBits f \<noteq> 0"
definition NaN :: float64 where "NaN = 0x7FF8000000000001"
definition PosInf :: float64 where "PosInf = 0x7FF0000000000000"
definition NegInf :: float64 where "NegInf = 0xFFF0000000000000"
definition NegZero :: float64 where "NegZero = 0x8000000000000000"

text \<open>\<open>f == 0\<close> holds for both zeros.\<close>

definition numberKindOf :: "float64 \<Rightarrow> numberKind" where
  "numberKindOf f =
     (if IsNaN f then numberNaN
      else if f = PosInf then numberPosInf
      else if f = NegInf then numberNegInf
      else if (f = 0 \<or> f = NegZero) \<and> Signbit f then numberNegZero
      else numberFinite)"

subsection \<open>Values\<close>

definition sizeValue :: "musLib \<Rightarrow> wireValue \<Rightarrow> nat" where
  "sizeValue L v = 1 +
     (case wv_Kind v of
        valueBool \<Rightarrow> 1
      | valueNumber \<Rightarrow> 1 + (if numberKindOf (wv_Number v) = numberFinite then ms_Size (mu_Float64 L) (wv_Number v) else 0)
      | valueString \<Rightarrow> ms_Size (mu_String L) (wv_Text v)
      | valueBigInt \<Rightarrow> ms_Size (mu_String L) (wv_Text v)
      | valueRef \<Rightarrow> sizeU32 L (wv_Ref v)
      | _ \<Rightarrow> 0)"

definition marshalValue :: "musLib \<Rightarrow> wireValue \<Rightarrow> bytes" where
  "marshalValue L v = ms_Marshal (mu_Byte L) (valueKindByte (wv_Kind v)) @
     (case wv_Kind v of
        valueBool \<Rightarrow> ms_Marshal (mu_Byte L) (if wv_Bool v then 1 else 0)
      | valueNumber \<Rightarrow>
          (let k = numberKindOf (wv_Number v) in
           ms_Marshal (mu_Byte L) (numberKindByte k) @
           (if k = numberFinite then ms_Marshal (mu_Float64 L) (wv_Number v) else []))
      | valueString \<Rightarrow> ms_Marshal (mu_String L) (wv_Text v)
      | valueBigInt \<Rightarrow> ms_Marshal (mu_String L) (wv_Text v)
      | valueRef \<Rightarrow> marshalU32 L (wv_Ref v)
      | _ \<Rightarrow> [])"

definition unmarshalValue :: "musLib \<Rightarrow> wireValue reader" where
  "unmarshalValue L =
     rthen (musRead (mu_Byte L)) (\<lambda>kind. rthen (kindOf valueKindByte valueKinds kind) (\<lambda>kind.
     let out = zeroValue\<lparr>wv_Kind := kind\<rparr> in
     case kind of
       valueUndefined \<Rightarrow> rok out
     | valueNull \<Rightarrow> rok out
     | valueBool \<Rightarrow> rthen (musRead (mu_Byte L)) (\<lambda>b. rok (out\<lparr>wv_Bool := b \<noteq> 0\<rparr>))
     | valueNumber \<Rightarrow>
         rthen (musRead (mu_Byte L)) (\<lambda>k. rthen (kindOf numberKindByte numberKinds k) (\<lambda>k.
           case k of
             numberFinite \<Rightarrow> rthen (musRead (mu_Float64 L)) (\<lambda>f. rok (out\<lparr>wv_Number := f\<rparr>))
           | numberNaN \<Rightarrow> rok (out\<lparr>wv_Number := NaN\<rparr>)
           | numberPosInf \<Rightarrow> rok (out\<lparr>wv_Number := PosInf\<rparr>)
           | numberNegInf \<Rightarrow> rok (out\<lparr>wv_Number := NegInf\<rparr>)
           | numberNegZero \<Rightarrow> rok (out\<lparr>wv_Number := NegZero\<rparr>)))
     | valueString \<Rightarrow> rthen (musRead (mu_String L)) (\<lambda>s. rok (out\<lparr>wv_Text := s\<rparr>))
     | valueBigInt \<Rightarrow> rthen (musRead (mu_String L)) (\<lambda>s. rok (out\<lparr>wv_Text := s\<rparr>))
     | valueRef \<Rightarrow> rthen (unmarshalU32 L) (\<lambda>ref. rok (out\<lparr>wv_Ref := ref\<rparr>))))"

subsection \<open>Nodes\<close>

definition sizeProps :: "musLib \<Rightarrow> wireProp list \<Rightarrow> nat" where
  "sizeProps L props = sizeLen L (length props) +
     sum_list (map (\<lambda>p. ms_Size (mu_String L) (wp_Key p) + sizeValue L (wp_Value p)) props)"

definition marshalProps :: "musLib \<Rightarrow> wireProp list \<Rightarrow> bytes" where
  "marshalProps L props = marshalLen L (length props) @
     concat (map (\<lambda>p. ms_Marshal (mu_String L) (wp_Key p) @ marshalValue L (wp_Value p)) props)"

definition unmarshalProps :: "musLib \<Rightarrow> wireProp list reader" where
  "unmarshalProps L = rthen (unmarshalLen L) (\<lambda>count.
     if count = 0 then rok []
     else rthen (makeSlice 56 count) (\<lambda>count. readTimes count
       (rthen (musRead (mu_String L)) (\<lambda>key. rthen (unmarshalValue L) (\<lambda>val.
          rok \<lparr>wp_Key = key, wp_Value = val\<rparr>)))))"

text \<open>The \<open>switch\<close> over the kind of a node, and the node around it.\<close>

definition sizeBody :: "musLib \<Rightarrow> wireNode \<Rightarrow> nat" where
  "sizeBody L n =
     (case wn_Kind n of
        nodeObject \<Rightarrow> ms_Size (mu_String L) (wn_TextA n)
      | nodeArray \<Rightarrow> sizeLen L (length (wn_Slots n)) +
          sum_list (map (\<lambda>s. 1 + (if ws_Present s then sizeValue L (ws_Value s) else 0)) (wn_Slots n))
      | nodeMap \<Rightarrow> sizeLen L (length (wn_Entries n)) +
          sum_list (map (\<lambda>e. sizeValue L (we_Key e) + sizeValue L (we_Value e)) (wn_Entries n))
      | nodeSet \<Rightarrow> sizeLen L (length (wn_Values n)) + sum_list (map (sizeValue L) (wn_Values n))
      | nodeDate \<Rightarrow> 1 + (if wn_DateValid n then ms_Size (mu_Int64 L) (wn_DateMS n) else 0)
      | nodeRegexp \<Rightarrow> ms_Size (mu_String L) (wn_TextA n) + ms_Size (mu_String L) (wn_TextB n)
      | nodeArrayBuffer \<Rightarrow> ms_Size (mu_ByteSlice L) (wn_Bytes n)
      | nodeTypedArray \<Rightarrow> ms_Size (mu_String L) (wn_TextA n) + sizeValue L (wn_Buffer n) +
          sizeU32 L (wn_ByteOffset n) + sizeU32 L (wn_ByteLength n)
      | nodePromise \<Rightarrow> sizeValue L (wn_Promise n)
      | nodeError \<Rightarrow> ms_Size (mu_String L) (wn_TextA n) + ms_Size (mu_String L) (wn_TextB n) + sizeValue L (wn_Cause n))"

definition sizeNode :: "musLib \<Rightarrow> wireNode \<Rightarrow> nat" where
  "sizeNode L n = sizeU32 L (wn_ID n) + 1 + sizeBody L n + sizeProps L (wn_Props n)"

definition marshalBody :: "musLib \<Rightarrow> wireNode \<Rightarrow> bytes" where
  "marshalBody L n =
     (case wn_Kind n of
        nodeObject \<Rightarrow> ms_Marshal (mu_String L) (wn_TextA n)
      | nodeArray \<Rightarrow> marshalLen L (length (wn_Slots n)) @
          concat (map (\<lambda>s. if ws_Present s then ms_Marshal (mu_Byte L) 1 @ marshalValue L (ws_Value s)
                           else ms_Marshal (mu_Byte L) 0) (wn_Slots n))
      | nodeMap \<Rightarrow> marshalLen L (length (wn_Entries n)) @
          concat (map (\<lambda>e. marshalValue L (we_Key e) @ marshalValue L (we_Value e)) (wn_Entries n))
      | nodeSet \<Rightarrow> marshalLen L (length (wn_Values n)) @ concat (map (marshalValue L) (wn_Values n))
      | nodeDate \<Rightarrow> ms_Marshal (mu_Byte L) (if wn_DateValid n then 1 else 0) @
          (if wn_DateValid n then ms_Marshal (mu_Int64 L) (wn_DateMS n) else [])
      | nodeRegexp \<Rightarrow> ms_Marshal (mu_String L) (wn_TextA n) @ ms_Marshal (mu_String L) (wn_TextB n)
      | nodeArrayBuffer \<Rightarrow> ms_Marshal (mu_ByteSlice L) (wn_Bytes n)
      | nodeTypedArray \<Rightarrow> ms_Marshal (mu_String L) (wn_TextA n) @ marshalValue L (wn_Buffer n) @
          marshalU32 L (wn_ByteOffset n) @ marshalU32 L (wn_ByteLength n)
      | nodePromise \<Rightarrow> marshalValue L (wn_Promise n)
      | nodeError \<Rightarrow> ms_Marshal (mu_String L) (wn_TextA n) @ ms_Marshal (mu_String L) (wn_TextB n) @
          marshalValue L (wn_Cause n))"

definition marshalNode :: "musLib \<Rightarrow> wireNode \<Rightarrow> bytes" where
  "marshalNode L n = marshalU32 L (wn_ID n) @ ms_Marshal (mu_Byte L) (nodeKindByte (wn_Kind n)) @
     marshalBody L n @ marshalProps L (wn_Props n)"

definition unmarshalSlot :: "musLib \<Rightarrow> wireSlot reader" where
  "unmarshalSlot L = rthen (musRead (mu_Byte L)) (\<lambda>present.
     if present = 0 then rok \<lparr>ws_Present = False, ws_Value = zeroValue\<rparr>
     else rthen (unmarshalValue L) (\<lambda>val. rok \<lparr>ws_Present = True, ws_Value = val\<rparr>))"

definition unmarshalEntry :: "musLib \<Rightarrow> wireEntry reader" where
  "unmarshalEntry L = rthen (unmarshalValue L) (\<lambda>key. rthen (unmarshalValue L) (\<lambda>val.
     rok \<lparr>we_Key = key, we_Value = val\<rparr>))"

text \<open>The \<open>switch\<close> of \<open>unmarshalNode\<close> over the kind of the node.\<close>

definition unmarshalBody :: "musLib \<Rightarrow> wireNode \<Rightarrow> wireNode reader" where
  "unmarshalBody L out =
     (case wn_Kind out of
        nodeObject \<Rightarrow> rthen (musRead (mu_String L)) (\<lambda>name. rok (out\<lparr>wn_TextA := name\<rparr>))
      | nodeArray \<Rightarrow> rthen (unmarshalLen L) (\<lambda>count. rthen (makeSlice 48 count) (\<lambda>count.
          rthen (readTimes count (unmarshalSlot L)) (\<lambda>slots. rok (out\<lparr>wn_Slots := slots\<rparr>))))
      | nodeMap \<Rightarrow> rthen (unmarshalLen L) (\<lambda>count. rthen (makeSlice 80 count) (\<lambda>count.
          rthen (readTimes count (unmarshalEntry L)) (\<lambda>entries. rok (out\<lparr>wn_Entries := entries\<rparr>))))
      | nodeSet \<Rightarrow> rthen (unmarshalLen L) (\<lambda>count. rthen (makeSlice 40 count) (\<lambda>count.
          rthen (readTimes count (unmarshalValue L)) (\<lambda>values. rok (out\<lparr>wn_Values := values\<rparr>))))
      | nodeDate \<Rightarrow> rthen (musRead (mu_Byte L)) (\<lambda>valid.
          if valid \<noteq> 0
          then rthen (musRead (mu_Int64 L)) (\<lambda>ms. rok (out\<lparr>wn_DateValid := True, wn_DateMS := ms\<rparr>))
          else rok (out\<lparr>wn_DateValid := False\<rparr>))
      | nodeRegexp \<Rightarrow> rthen (musRead (mu_String L)) (\<lambda>s. rthen (musRead (mu_String L)) (\<lambda>f.
          rok (out\<lparr>wn_TextA := s, wn_TextB := f\<rparr>)))
      | nodeArrayBuffer \<Rightarrow> rthen (musRead (mu_ByteSlice L)) (\<lambda>b. rok (out\<lparr>wn_Bytes := b\<rparr>))
      | nodeTypedArray \<Rightarrow> rthen (musRead (mu_String L)) (\<lambda>ctor. rthen (unmarshalValue L) (\<lambda>buffer.
          rthen (unmarshalU32 L) (\<lambda>offset. rthen (unmarshalU32 L) (\<lambda>len.
            rok (out\<lparr>wn_TextA := ctor, wn_Buffer := buffer, wn_ByteOffset := offset, wn_ByteLength := len\<rparr>)))))
      | nodePromise \<Rightarrow> rthen (unmarshalValue L) (\<lambda>promise. rok (out\<lparr>wn_Promise := promise\<rparr>))
      | nodeError \<Rightarrow> rthen (musRead (mu_String L)) (\<lambda>name. rthen (musRead (mu_String L)) (\<lambda>msg.
          rthen (unmarshalValue L) (\<lambda>cause. rok (out\<lparr>wn_TextA := name, wn_TextB := msg, wn_Cause := cause\<rparr>)))))"

definition unmarshalNode :: "musLib \<Rightarrow> wireNode reader" where
  "unmarshalNode L = rthen (unmarshalU32 L) (\<lambda>id. rthen (musRead (mu_Byte L)) (\<lambda>kind.
     rthen (kindOf nodeKindByte nodeKinds kind) (\<lambda>kind.
     rthen (unmarshalBody L (zeroNode\<lparr>wn_ID := id, wn_Kind := kind\<rparr>)) (\<lambda>out.
     rthen (unmarshalProps L) (\<lambda>props. rok (out\<lparr>wn_Props := props\<rparr>))))))"

subsection \<open>Validation\<close>

definition bytesPerElement :: "string \<Rightarrow> 32 word" where
  "bytesPerElement ctor =
     (if ctor \<in> {''Uint8Array'', ''Uint8ClampedArray'', ''Int8Array'', ''DataView''} then 1
      else if ctor \<in> {''Uint16Array'', ''Int16Array''} then 2
      else if ctor \<in> {''Uint32Array'', ''Int32Array'', ''Float32Array''} then 4
      else if ctor \<in> {''Float64Array'', ''BigInt64Array'', ''BigUint64Array''} then 8
      else 0)"

definition showWord :: "'a::len word \<Rightarrow> string" where "showWord w = showNat (unat w)"

definition invalidWiref :: "string \<Rightarrow> WireError" where
  "invalidWiref text = ErrInvalidWire text"

fun validateGraphNodeIDs :: "32 word list \<Rightarrow> wireNode list \<Rightarrow> WireError option" where
  "validateGraphNodeIDs seen [] = None"
| "validateGraphNodeIDs seen (n # ns) =
     (if wn_ID n = 0 then Some (ErrInvalidWire ''zero node id'')
      else if wn_ID n \<in> set seen then Some (ErrInvalidWire (''duplicate node id '' @ showWord (wn_ID n)))
      else validateGraphNodeIDs (wn_ID n # seen) ns)"

definition nodeByID :: "wireNode list \<Rightarrow> 32 word \<rightharpoonup> wireNode" where
  "nodeByID ns = foldl (\<lambda>m n. m(wn_ID n \<mapsto> n)) Map.empty ns"

definition validateWireValue :: "(32 word \<rightharpoonup> wireNode) \<Rightarrow> wireValue \<Rightarrow> WireError option" where
  "validateWireValue byID v =
     (if wv_Kind v \<noteq> valueRef then None
      else if byID (wv_Ref v) = None then Some (ErrInvalidWire (''missing ref '' @ showWord (wv_Ref v)))
      else None)"

text \<open>A loop that returns at the first error.\<close>

fun firstErr :: "('a \<Rightarrow> 'e option) \<Rightarrow> 'a list \<Rightarrow> 'e option" where
  "firstErr f [] = None"
| "firstErr f (x # xs) = (case f x of Some e \<Rightarrow> Some e | None \<Rightarrow> firstErr f xs)"

definition validateWireNode :: "(32 word \<rightharpoonup> wireNode) \<Rightarrow> wireNode \<Rightarrow> WireError option" where
  "validateWireNode byID n =
     (case firstErr (\<lambda>p. validateWireValue byID (wp_Value p)) (wn_Props n) of
        Some e \<Rightarrow> Some e
      | None \<Rightarrow>
     (case wn_Kind n of
        nodeArray \<Rightarrow> firstErr (\<lambda>s. if ws_Present s then validateWireValue byID (ws_Value s) else None) (wn_Slots n)
      | nodeMap \<Rightarrow> firstErr (\<lambda>e. case validateWireValue byID (we_Key e) of
            Some err \<Rightarrow> Some err | None \<Rightarrow> validateWireValue byID (we_Value e)) (wn_Entries n)
      | nodeSet \<Rightarrow> firstErr (validateWireValue byID) (wn_Values n)
      | nodeTypedArray \<Rightarrow>
          (let bytesPer = bytesPerElement (wn_TextA n) in
           if wv_Kind (wn_Buffer n) \<noteq> valueRef then Some (ErrInvalidWire ''typed array buffer must be a ref'')
           else case byID (wv_Ref (wn_Buffer n)) of
             None \<Rightarrow> Some (ErrInvalidWire (''missing typed array buffer ref '' @ showWord (wv_Ref (wn_Buffer n))))
           | Some bufferNode \<Rightarrow>
               if wn_Kind bufferNode \<noteq> nodeArrayBuffer
               then Some (ErrInvalidWire (''typed array buffer ref '' @ showWord (wv_Ref (wn_Buffer n)) @ '' is not an ArrayBuffer''))
               else if bytesPer = 0
               then Some (ErrInvalidWire (''unknown typed array constructor '' @ quote (wn_TextA n)))
               else if wn_ByteLength n mod bytesPer \<noteq> 0
               then Some (ErrInvalidWire ''invalid typed array byte length'')
               else if ucast (wn_ByteOffset n) + (ucast (wn_ByteLength n) :: 64 word) > of_nat (length (wn_Bytes bufferNode))
               then Some (ErrInvalidWire ''typed array window out of bounds'')
               else None)
      | nodePromise \<Rightarrow> validateWireValue byID (wn_Promise n)
      | nodeError \<Rightarrow> validateWireValue byID (wn_Cause n)
      | _ \<Rightarrow> None))"

definition validateGraph :: "wireGraph \<Rightarrow> WireError option" where
  "validateGraph graph =
     (case validateGraphNodeIDs [] (wg_Nodes graph) of
        Some e \<Rightarrow> Some e
      | None \<Rightarrow>
          (case validateWireValue (nodeByID (wg_Nodes graph)) (wg_Root graph) of
             Some e \<Rightarrow> Some e
           | None \<Rightarrow> firstErr (validateWireNode (nodeByID (wg_Nodes graph))) (wg_Nodes graph)))"

subsection \<open>Graphs\<close>

definition wireVersion :: byte where "wireVersion = 1"

definition sizeGraph :: "musLib \<Rightarrow> wireGraph \<Rightarrow> nat" where
  "sizeGraph L g = 1 + sizeValue L (wg_Root g) + sizeLen L (length (wg_Nodes g)) +
     sum_list (map (sizeNode L) (wg_Nodes g))"

definition graphBytes :: "musLib \<Rightarrow> wireGraph \<Rightarrow> bytes" where
  "graphBytes L g = wireVersion # marshalValue L (wg_Root g) @ marshalLen L (length (wg_Nodes g)) @
     concat (map (marshalNode L) (wg_Nodes g))"

text \<open>
  The buffer has the computed size. Writing past its end panics, and what is not
  written stays zero.
\<close>

definition marshalGraph :: "musLib \<Rightarrow> wireGraph \<Rightarrow> WireError + bytes" where
  "marshalGraph L g =
     (if length (graphBytes L g) > sizeGraph L g then Inl (Panic ''runtime error: index out of range'')
      else Inr (graphBytes L g @ replicate (sizeGraph L g - length (graphBytes L g)) 0))"

definition unmarshalGraph :: "musLib \<Rightarrow> bytes \<Rightarrow> WireError + wireGraph" where
  "unmarshalGraph L bs =
     (case bs of
        [] \<Rightarrow> Inl (ErrInvalidWire [])
      | version # body \<Rightarrow>
          if version \<noteq> wireVersion then Inl ErrUnsupportedVersion
          else
            rbind (rthen (unmarshalValue L) (\<lambda>root. rthen (unmarshalLen L) (\<lambda>count. rthen (makeSlice 304 count) (\<lambda>count.
              rthen (readTimes count (unmarshalNode L)) (\<lambda>nodes. rok \<lparr>wg_Root = root, wg_Nodes = nodes\<rparr>)))) body) (\<lambda>(graph, n).
            if n \<noteq> length body then Inl (ErrInvalidWire ''trailing bytes'')
            else case validateGraph graph of Some e \<Rightarrow> Inl e | None \<Rightarrow> Inr graph))"

end
