(* ===== verification/Wire_Codec.thy ===== *)
theory Wire_Codec
  imports Wire_Format
begin

text \<open>
  Round trip of the wire format. \<open>musLib_ok\<close> is what the code relies on in the
  package mus-go. \<open>reads r bs x\<close>: the reader takes exactly the bytes \<open>bs\<close> off any
  input that starts with them and gives \<open>x\<close>; \<open>yields r P\<close>: whatever it reads has
  \<open>P\<close> and lies within the input. Both compose along \<open>rthen\<close>, so each encoder is
  matched with its decoder piece by piece.
\<close>

subsection \<open>The primitive encodings\<close>

definition mus_ok :: "'a mus \<Rightarrow> ('a \<Rightarrow> bool) \<Rightarrow> bool" where
  "mus_ok m D \<longleftrightarrow>
     (\<forall>x rest. D x \<longrightarrow> ms_Unmarshal m (ms_Marshal m x @ rest) = Inr (x, length (ms_Marshal m x))) \<and>
     (\<forall>x. D x \<longrightarrow> ms_Size m x = length (ms_Marshal m x)) \<and>
     (\<forall>bs x n. ms_Unmarshal m bs = Inr (x, n) \<longrightarrow> D x \<and> n \<le> length bs)"

definition MaxLen :: nat where "MaxLen = 2 ^ 63"

definition musLib_ok :: "musLib \<Rightarrow> bool" where
  "musLib_ok L \<longleftrightarrow> mus_ok (mu_Byte L) (\<lambda>_. True) \<and> (\<forall>b < 128. length (ms_Marshal (mu_Byte L) b) = 1) \<and>
     mus_ok (mu_Uint64 L) (\<lambda>_. True) \<and> mus_ok (mu_Int64 L) (\<lambda>_. True) \<and>
     mus_ok (mu_PositiveInt64 L) (\<lambda>_. True) \<and> mus_ok (mu_Float64 L) (\<lambda>_. True) \<and>
     mus_ok (mu_String L) (\<lambda>s. length s < MaxLen) \<and> mus_ok (mu_ByteSlice L) (\<lambda>b. length b < MaxLen)"

lemma musLib_okD:
  assumes "musLib_ok L"
  shows "mus_ok (mu_Byte L) (\<lambda>_. True)" "mus_ok (mu_Uint64 L) (\<lambda>_. True)" "mus_ok (mu_Int64 L) (\<lambda>_. True)"
    "mus_ok (mu_PositiveInt64 L) (\<lambda>_. True)" "mus_ok (mu_Float64 L) (\<lambda>_. True)"
    "mus_ok (mu_String L) (\<lambda>s. length s < MaxLen)" "mus_ok (mu_ByteSlice L) (\<lambda>b. length b < MaxLen)"
    "b < 128 \<Longrightarrow> length (ms_Marshal (mu_Byte L) b) = 1"
  using assms by (simp_all add: musLib_ok_def)

lemma mus_size: "mus_ok m D \<Longrightarrow> D x \<Longrightarrow> ms_Size m x = length (ms_Marshal m x)"
  by (simp add: mus_ok_def)

subsection \<open>Readers that take exactly what was written\<close>

definition reads :: "'a reader \<Rightarrow> bytes \<Rightarrow> 'a \<Rightarrow> bool" where
  "reads r bs x \<longleftrightarrow> (\<forall>rest. r (bs @ rest) = Inr (x, length bs))"

named_theorems reads_intros \<open>readers and the bytes they take\<close>

lemma reads_rok: "reads (rok x) [] x"
  by (simp add: reads_def rok_def)

lemma reads_rthen: "reads r bs x \<Longrightarrow> reads (f x) bs' y \<Longrightarrow> reads (rthen r f) (bs @ bs') y"
  by (simp add: reads_def rthen_def)

lemma reads_last: "reads r bs x \<Longrightarrow> f x = y \<Longrightarrow> reads (rthen r (\<lambda>x. rok (f x))) bs y"
  using reads_rthen [OF _ reads_rok, of r bs x "\<lambda>x. f x"] by simp

lemma reads_skip: "reads r [] x \<Longrightarrow> reads (f x) bs y \<Longrightarrow> reads (rthen r f) bs y"
  using reads_rthen [of r "[]" x f bs y] by simp

lemma reads_mus: "mus_ok m D \<Longrightarrow> D x \<Longrightarrow> reads (musRead m) (ms_Marshal m x) x"
  by (simp add: reads_def musRead_def mus_ok_def)

lemma reads_readTimes:
  "(\<And>x. x \<in> set xs \<Longrightarrow> reads r (f x) (g x)) \<Longrightarrow> reads (readTimes (length xs) r) (concat (map f xs)) (map g xs)"
  by (induction xs) (auto intro!: reads_rok reads_rthen reads_last)

lemma reads_makeSlice: "n * elemSize \<le> maxAlloc \<Longrightarrow> reads (makeSlice elemSize (int n)) [] n"
  by (simp add: reads_def makeSlice_def)

lemma reads_Len:
  assumes "musLib_ok L" and "n < MaxLen"
  shows "reads (unmarshalLen L) (marshalLen L n) (int n)"
proof -
  have "sint (of_nat n :: 64 word) = int n"
    using assms(2) by (simp add: MaxLen_def signed_of_nat signed_take_bit_int_eq_self)
  then show ?thesis
    unfolding unmarshalLen_def marshalLen_def
    using reads_last [OF reads_mus [OF musLib_okD(4) [OF assms(1)], of "of_nat n"], of sint] by simp
qed

lemma reads_U32:
  assumes "musLib_ok L"
  shows "reads (unmarshalU32 L) (marshalU32 L w) w"
proof -
  have "unat (ucast w :: 64 word) < 2 ^ 32"
    using unsigned_less [of w, where 'a = nat] by (simp add: unsigned_ucast_eq take_bit_nat_eq_self)
  then have "\<not> (0xFFFFFFFF :: 64 word) < ucast w" by (simp add: word_less_nat_alt)
  moreover have "ucast (ucast w :: 64 word) = w" by (simp add: ucast_up_ucast_id is_up)
  ultimately show ?thesis
    unfolding unmarshalU32_def marshalU32_def
    using reads_rthen [OF reads_mus [OF musLib_okD(2) [OF assms], of "ucast w"], of _ "[]" w] reads_rok [of w] by simp
qed

lemma kindByte_small [simp]: "valueKindByte vk < 128" "numberKindByte nk < 128" "nodeKindByte k < 128"
  by (cases vk, simp_all, cases nk, simp_all, cases k, simp_all)

lemma reads_valueKind: "reads (kindOf valueKindByte valueKinds (valueKindByte k)) [] k"
  by (cases k) (simp_all add: kindOf_def valueKinds_def reads_rok)

lemma reads_numberKind: "reads (kindOf numberKindByte numberKinds (numberKindByte k)) [] k"
  by (cases k) (simp_all add: kindOf_def numberKinds_def reads_rok)

lemma reads_nodeKind: "reads (kindOf nodeKindByte nodeKinds (nodeKindByte k)) [] k"
  by (cases k) (simp_all add: kindOf_def nodeKinds_def reads_rok)


subsection \<open>Normal forms\<close>

text \<open>
  What survives a round trip: the fields that belong to the kind, and one NaN.
  \<open>fits\<close> says that texts and slices have lengths Go can allocate.
\<close>

definition normValue :: "wireValue \<Rightarrow> wireValue" where
  "normValue v = (let out = zeroValue\<lparr>wv_Kind := wv_Kind v\<rparr> in
     case wv_Kind v of
       valueBool \<Rightarrow> out\<lparr>wv_Bool := wv_Bool v\<rparr>
     | valueNumber \<Rightarrow> out\<lparr>wv_Number := if IsNaN (wv_Number v) then NaN else wv_Number v\<rparr>
     | valueString \<Rightarrow> out\<lparr>wv_Text := wv_Text v\<rparr>
     | valueBigInt \<Rightarrow> out\<lparr>wv_Text := wv_Text v\<rparr>
     | valueRef \<Rightarrow> out\<lparr>wv_Ref := wv_Ref v\<rparr>
     | _ \<Rightarrow> out)"

definition normProp :: "wireProp \<Rightarrow> wireProp" where
  "normProp p = \<lparr>wp_Key = wp_Key p, wp_Value = normValue (wp_Value p)\<rparr>"

definition normSlot :: "wireSlot \<Rightarrow> wireSlot" where
  "normSlot s = \<lparr>ws_Present = ws_Present s, ws_Value = if ws_Present s then normValue (ws_Value s) else zeroValue\<rparr>"

definition normEntry :: "wireEntry \<Rightarrow> wireEntry" where
  "normEntry e = \<lparr>we_Key = normValue (we_Key e), we_Value = normValue (we_Value e)\<rparr>"

definition normBody :: "wireNode \<Rightarrow> wireNode" where
  "normBody n = (let out = zeroNode\<lparr>wn_ID := wn_ID n, wn_Kind := wn_Kind n\<rparr> in
     case wn_Kind n of
       nodeObject \<Rightarrow> out\<lparr>wn_TextA := wn_TextA n\<rparr>
     | nodeArray \<Rightarrow> out\<lparr>wn_Slots := map normSlot (wn_Slots n)\<rparr>
     | nodeMap \<Rightarrow> out\<lparr>wn_Entries := map normEntry (wn_Entries n)\<rparr>
     | nodeSet \<Rightarrow> out\<lparr>wn_Values := map normValue (wn_Values n)\<rparr>
     | nodeDate \<Rightarrow> if wn_DateValid n then out\<lparr>wn_DateValid := True, wn_DateMS := wn_DateMS n\<rparr> else out
     | nodeRegexp \<Rightarrow> out\<lparr>wn_TextA := wn_TextA n, wn_TextB := wn_TextB n\<rparr>
     | nodeArrayBuffer \<Rightarrow> out\<lparr>wn_Bytes := wn_Bytes n\<rparr>
     | nodeTypedArray \<Rightarrow> out\<lparr>wn_TextA := wn_TextA n, wn_Buffer := normValue (wn_Buffer n),
         wn_ByteOffset := wn_ByteOffset n, wn_ByteLength := wn_ByteLength n\<rparr>
     | nodePromise \<Rightarrow> out\<lparr>wn_Promise := normValue (wn_Promise n)\<rparr>
     | nodeError \<Rightarrow> out\<lparr>wn_TextA := wn_TextA n, wn_TextB := wn_TextB n, wn_Cause := normValue (wn_Cause n)\<rparr>)"

definition normNode :: "wireNode \<Rightarrow> wireNode" where
  "normNode n = (normBody n)\<lparr>wn_Props := map normProp (wn_Props n)\<rparr>"

definition normGraph :: "wireGraph \<Rightarrow> wireGraph" where
  "normGraph g = \<lparr>wg_Root = normValue (wg_Root g), wg_Nodes = map normNode (wg_Nodes g)\<rparr>"

definition fitsText :: "'a list \<Rightarrow> bool" where "fitsText s \<longleftrightarrow> length s < MaxLen"

definition fitsSlice :: "nat \<Rightarrow> 'a list \<Rightarrow> bool" where "fitsSlice elemSize xs \<longleftrightarrow> length xs * elemSize \<le> maxAlloc"

definition fitsValue :: "wireValue \<Rightarrow> bool" where "fitsValue v \<longleftrightarrow> fitsText (wv_Text v)"

definition fitsNode :: "wireNode \<Rightarrow> bool" where
  "fitsNode n \<longleftrightarrow> fitsText (wn_TextA n) \<and> fitsText (wn_TextB n) \<and> fitsText (wn_Bytes n) \<and>
     fitsSlice 56 (wn_Props n) \<and> list_all (\<lambda>p. fitsText (wp_Key p) \<and> fitsValue (wp_Value p)) (wn_Props n) \<and>
     fitsSlice 48 (wn_Slots n) \<and> list_all (\<lambda>s. fitsValue (ws_Value s)) (wn_Slots n) \<and>
     fitsSlice 80 (wn_Entries n) \<and> list_all (\<lambda>e. fitsValue (we_Key e) \<and> fitsValue (we_Value e)) (wn_Entries n) \<and>
     fitsSlice 40 (wn_Values n) \<and> list_all fitsValue (wn_Values n) \<and>
     fitsValue (wn_Buffer n) \<and> fitsValue (wn_Promise n) \<and> fitsValue (wn_Cause n)"

definition fitsGraph :: "wireGraph \<Rightarrow> bool" where
  "fitsGraph g \<longleftrightarrow> fitsValue (wg_Root g) \<and> fitsSlice 304 (wg_Nodes g) \<and> list_all fitsNode (wg_Nodes g)"

lemma fitsSlice_Len: "fitsSlice k xs \<Longrightarrow> 0 < k \<Longrightarrow> length xs < MaxLen"
proof -
  assume "fitsSlice k xs" "0 < k"
  then have "length xs \<le> length xs * k" by simp
  moreover have "length xs * k \<le> maxAlloc" using \<open>fitsSlice k xs\<close> by (simp add: fitsSlice_def)
  ultimately have "length xs \<le> maxAlloc" by (rule order_trans)
  then show ?thesis by (simp add: maxAlloc_def MaxLen_def)
qed

subsection \<open>Encoders and decoders\<close>

lemma numberKindOf_norm:
  "case numberKindOf f of
     numberFinite \<Rightarrow> \<not> IsNaN f
   | numberNaN \<Rightarrow> IsNaN f
   | numberPosInf \<Rightarrow> f = PosInf \<and> \<not> IsNaN f
   | numberNegInf \<Rightarrow> f = NegInf \<and> \<not> IsNaN f
   | numberNegZero \<Rightarrow> f = NegZero \<and> \<not> IsNaN f"
  by (auto simp: numberKindOf_def Signbit_def NegZero_def split: numberKind.splits)

lemma reads_Value:
  assumes L: "musLib_ok L" and fits: "fitsValue v"
  shows "reads (unmarshalValue L) (marshalValue L v) (normValue v)"
proof -
  note ok = musLib_okD [OF L]
  note byte = reads_mus [OF ok(1) TrueI]
  note str = reads_mus [OF ok(6) fits [unfolded fitsValue_def fitsText_def]]
  show ?thesis
    unfolding unmarshalValue_def marshalValue_def normValue_def
  proof (rule reads_rthen [OF byte], rule reads_skip [OF reads_valueKind], goal_cases)
    case 1
    show ?case
    proof (cases "wv_Kind v")
      case valueNumber
      show ?thesis
        unfolding valueNumber Let_def valueKind.case
      proof (rule reads_rthen [OF byte], rule reads_skip [OF reads_numberKind], goal_cases)
        case 1
        show ?case
          using numberKindOf_norm [of "wv_Number v"]
          by (cases "numberKindOf (wv_Number v)")
             (auto intro!: reads_rok reads_last reads_mus [OF ok(5)])
      qed
    qed (auto simp: Let_def intro!: reads_rok reads_last byte str reads_U32 [OF L])
  qed
qed

text \<open>A counted list: its length, the allocation, then its elements.\<close>

lemma reads_counted:
  assumes L: "musLib_ok L" and fits: "fitsSlice k xs" and k: "0 < k"
    and elem: "\<And>x. x \<in> set xs \<Longrightarrow> reads r (enc x) (g x)"
    and then_: "reads (f (map g xs)) bs y"
  shows "reads (rthen (unmarshalLen L) (\<lambda>count. rthen (makeSlice k count) (\<lambda>count. rthen (readTimes count r) f)))
    (marshalLen L (length xs) @ concat (map enc xs) @ bs) y"
proof -
  have times: "reads (readTimes (length xs) r) (concat (map enc xs)) (map g xs)"
    by (rule reads_readTimes) (rule elem)
  show ?thesis
    by (rule reads_rthen [OF reads_Len [OF L fitsSlice_Len [OF fits k]]],
        rule reads_skip [OF reads_makeSlice [OF fits [unfolded fitsSlice_def]]],
        rule reads_rthen [OF times], rule then_)
qed

lemma reads_Props:
  assumes L: "musLib_ok L" and fits: "fitsSlice 56 ps" "list_all (\<lambda>p. fitsText (wp_Key p) \<and> fitsValue (wp_Value p)) ps"
  shows "reads (unmarshalProps L) (marshalProps L ps) (map normProp ps)"
proof -
  let ?elem = "rthen (musRead (mu_String L)) (\<lambda>key. rthen (unmarshalValue L) (\<lambda>val. rok \<lparr>wp_Key = key, wp_Value = val\<rparr>))"
  have elem: "reads ?elem (ms_Marshal (mu_String L) (wp_Key p) @ marshalValue L (wp_Value p)) (normProp p)" if "p \<in> set ps" for p
    using fits(2) that
    by (auto simp: list_all_iff fitsText_def normProp_def
        intro!: reads_rthen [OF reads_mus [OF musLib_okD(6) [OF L]]] reads_last [OF reads_Value [OF L]])
  have len: "reads (unmarshalLen L) (marshalLen L (length ps)) (int (length ps))"
    using reads_Len [OF L fitsSlice_Len [OF fits(1)]] by simp
  have times: "reads (readTimes (length ps) ?elem)
      (concat (map (\<lambda>p. ms_Marshal (mu_String L) (wp_Key p) @ marshalValue L (wp_Value p)) ps)) (map normProp ps)"
    by (rule reads_readTimes) (rule elem)
  show ?thesis
    unfolding unmarshalProps_def marshalProps_def
  proof (rule reads_rthen [OF len], cases "ps = []")
    case False
    have "reads (rthen (makeSlice 56 (int (length ps))) (\<lambda>count. readTimes count ?elem))
        (concat (map (\<lambda>p. ms_Marshal (mu_String L) (wp_Key p) @ marshalValue L (wp_Value p)) ps)) (map normProp ps)"
      by (rule reads_skip [OF reads_makeSlice [OF fits(1) [unfolded fitsSlice_def]]], rule times)
    with False show "reads (if int (length ps) = 0 then rok []
        else rthen (makeSlice 56 (int (length ps))) (\<lambda>count. readTimes count ?elem))
        (concat (map (\<lambda>p. ms_Marshal (mu_String L) (wp_Key p) @ marshalValue L (wp_Value p)) ps)) (map normProp ps)"
      by simp
  qed (simp add: reads_rok)
qed

lemma reads_Slot:
  assumes L: "musLib_ok L" and "fitsValue (ws_Value s)"
  shows "reads (unmarshalSlot L) (if ws_Present s then ms_Marshal (mu_Byte L) 1 @ marshalValue L (ws_Value s)
    else ms_Marshal (mu_Byte L) 0) (normSlot s)"
proof -
  note byte = reads_mus [OF musLib_okD(1) [OF L] TrueI]
  have "reads (unmarshalSlot L) (ms_Marshal (mu_Byte L) 0 @ []) \<lparr>ws_Present = False, ws_Value = zeroValue\<rparr>"
    unfolding unmarshalSlot_def by (rule reads_rthen [OF byte]) (simp add: reads_rok)
  moreover have "reads (unmarshalSlot L) (ms_Marshal (mu_Byte L) 1 @ marshalValue L (ws_Value s))
      \<lparr>ws_Present = True, ws_Value = normValue (ws_Value s)\<rparr>"
    unfolding unmarshalSlot_def by (rule reads_rthen [OF byte]) (simp add: reads_last [OF reads_Value [OF assms]])
  ultimately show ?thesis by (simp add: normSlot_def)
qed

lemma reads_Entry:
  assumes L: "musLib_ok L" and "fitsValue (we_Key e)" and "fitsValue (we_Value e)"
  shows "reads (unmarshalEntry L) (marshalValue L (we_Key e) @ marshalValue L (we_Value e)) (normEntry e)"
  unfolding unmarshalEntry_def
  by (rule reads_rthen [OF reads_Value [OF L assms(2)]], rule reads_last [OF reads_Value [OF L assms(3)]])
     (simp add: normEntry_def)

lemma reads_Node:
  assumes L: "musLib_ok L" and fits: "fitsNode n"
  shows "reads (unmarshalNode L) (marshalNode L n) (normNode n)"
proof -
  note ok = musLib_okD [OF L]
  note byte = reads_mus [OF ok(1) TrueI]
  note f = fits [unfolded fitsNode_def]
  have str: "reads (musRead (mu_String L)) (ms_Marshal (mu_String L) (wn_TextA n)) (wn_TextA n)"
    "reads (musRead (mu_String L)) (ms_Marshal (mu_String L) (wn_TextB n)) (wn_TextB n)"
    "reads (musRead (mu_ByteSlice L)) (ms_Marshal (mu_ByteSlice L) (wn_Bytes n)) (wn_Bytes n)"
    using f reads_mus [OF ok(6)] reads_mus [OF ok(7)] by (simp_all add: fitsText_def)
  note val = reads_Value [OF L]
  let ?out = "zeroNode\<lparr>wn_ID := wn_ID n, wn_Kind := wn_Kind n\<rparr>"
  have props: "reads (rthen (unmarshalProps L) (\<lambda>props. rok (normBody n\<lparr>wn_Props := props\<rparr>))) (marshalProps L (wn_Props n)) (normNode n)"
    by (rule reads_last [OF reads_Props [OF L]]) (use f in \<open>simp_all add: normNode_def\<close>)
  have slots: "reads (rthen (unmarshalLen L) (\<lambda>count. rthen (makeSlice 48 count) (\<lambda>count.
      rthen (readTimes count (unmarshalSlot L)) (\<lambda>slots. rok (?out\<lparr>wn_Slots := slots\<rparr>)))))
      (marshalLen L (length (wn_Slots n)) @ concat (map (\<lambda>s. if ws_Present s then ms_Marshal (mu_Byte L) 1 @ marshalValue L (ws_Value s)
         else ms_Marshal (mu_Byte L) 0) (wn_Slots n)) @ []) (?out\<lparr>wn_Slots := map normSlot (wn_Slots n)\<rparr>)"
    using f by (intro reads_counted [OF L, where g = normSlot] reads_Slot [OF L] reads_rok) (auto simp: list_all_iff)
  have entries: "reads (rthen (unmarshalLen L) (\<lambda>count. rthen (makeSlice 80 count) (\<lambda>count.
      rthen (readTimes count (unmarshalEntry L)) (\<lambda>entries. rok (?out\<lparr>wn_Entries := entries\<rparr>)))))
      (marshalLen L (length (wn_Entries n)) @ concat (map (\<lambda>e. marshalValue L (we_Key e) @ marshalValue L (we_Value e)) (wn_Entries n)) @ [])
      (?out\<lparr>wn_Entries := map normEntry (wn_Entries n)\<rparr>)"
    using f by (intro reads_counted [OF L, where g = normEntry] reads_Entry [OF L] reads_rok) (auto simp: list_all_iff)
  have "reads (rthen (unmarshalLen L) (\<lambda>count. rthen (makeSlice 40 count) (\<lambda>count.
      rthen (readTimes count (unmarshalValue L)) (\<lambda>values. rok (?out\<lparr>wn_Values := values\<rparr>)))))
      (marshalLen L (length (wn_Values n)) @ concat (map (marshalValue L) (wn_Values n)) @ [])
      (?out\<lparr>wn_Values := map normValue (wn_Values n)\<rparr>)"
    using f by (intro reads_counted [OF L, where g = normValue] reads_Value [OF L] reads_rok) (auto simp: list_all_iff)
  note lists = slots [unfolded append_Nil2] entries [unfolded append_Nil2] this [unfolded append_Nil2]
  have date: "reads (rthen (musRead (mu_Byte L)) (\<lambda>valid.
      if valid \<noteq> 0 then rthen (musRead (mu_Int64 L)) (\<lambda>ms. rok (?out\<lparr>wn_DateValid := True, wn_DateMS := ms\<rparr>))
      else rok (?out\<lparr>wn_DateValid := False\<rparr>)))
      (ms_Marshal (mu_Byte L) (if wn_DateValid n then 1 else 0) @ (if wn_DateValid n then ms_Marshal (mu_Int64 L) (wn_DateMS n) else []))
      (if wn_DateValid n then ?out\<lparr>wn_DateValid := True, wn_DateMS := wn_DateMS n\<rparr> else ?out)"
  proof (rule reads_rthen [OF byte], cases "wn_DateValid n")
    case False
    then show "reads (if (if wn_DateValid n then 1 else 0 :: byte) \<noteq> 0
        then rthen (musRead (mu_Int64 L)) (\<lambda>ms. rok (?out\<lparr>wn_DateValid := True, wn_DateMS := ms\<rparr>))
        else rok (?out\<lparr>wn_DateValid := False\<rparr>))
        (if wn_DateValid n then ms_Marshal (mu_Int64 L) (wn_DateMS n) else [])
        (if wn_DateValid n then ?out\<lparr>wn_DateValid := True, wn_DateMS := wn_DateMS n\<rparr> else ?out)"
      using reads_rok [of ?out] by (simp add: zeroNode_def)
  qed (auto intro: reads_last [OF reads_mus [OF ok(3)]])
  have body: "reads (unmarshalBody L ?out) (marshalBody L n) (normBody n)"
  proof (cases "wn_Kind n = nodeDate")
    case True
    then show ?thesis using date [unfolded True] by (cases "wn_DateValid n") (simp_all add: unmarshalBody_def marshalBody_def normBody_def)
  next
    case False
    then show ?thesis
      using lists f
      by (cases "wn_Kind n")
       (auto simp: unmarshalBody_def marshalBody_def normBody_def
          intro!: reads_last [OF str(1)] reads_last [OF str(2)] reads_last [OF str(3)] reads_rthen [OF str(1)]
            reads_rthen [OF str(2)] reads_rthen [OF byte] reads_last [OF byte] reads_last [OF val] reads_rthen [OF val]
            reads_rthen [OF reads_U32 [OF L]] reads_last [OF reads_U32 [OF L]])
  qed
  show ?thesis
    unfolding unmarshalNode_def marshalNode_def
    by (rule reads_rthen [OF reads_U32 [OF L]], rule reads_rthen [OF byte], rule reads_skip [OF reads_nodeKind],
        rule reads_rthen [OF body], rule props)
qed

subsection \<open>Sizes\<close>

lemma length_concat_map: "length (concat (map f xs)) = sum_list (map (\<lambda>x. length (f x)) xs)"
  by (induction xs) auto

lemma size_Len: "musLib_ok L \<Longrightarrow> sizeLen L n = length (marshalLen L n)"
  by (simp add: sizeLen_def marshalLen_def mus_size [OF musLib_okD(4)])

lemma size_U32: "musLib_ok L \<Longrightarrow> sizeU32 L w = length (marshalU32 L w)"
  by (simp add: sizeU32_def marshalU32_def mus_size [OF musLib_okD(2)])

lemma size_Text:
  assumes "musLib_ok L"
  shows "fitsText s \<Longrightarrow> ms_Size (mu_String L) s = length (ms_Marshal (mu_String L) s)"
    and "fitsText b \<Longrightarrow> ms_Size (mu_ByteSlice L) b = length (ms_Marshal (mu_ByteSlice L) b)"
  using mus_size [OF musLib_okD(6) [OF assms]] mus_size [OF musLib_okD(7) [OF assms]] by (simp_all add: fitsText_def)

lemma size_Value: "musLib_ok L \<Longrightarrow> fitsValue v \<Longrightarrow> sizeValue L v = length (marshalValue L v)"
  by (auto simp: sizeValue_def marshalValue_def fitsValue_def size_Text size_U32 musLib_okD(8)
           mus_size [OF musLib_okD(5)] Let_def split: valueKind.splits)

lemma sum_list_cong_set: "(\<And>x. x \<in> set xs \<Longrightarrow> f x = g x) \<Longrightarrow> sum_list (map f xs) = sum_list (map g xs)"
  by (induction xs) auto

lemma size_Props:
  assumes "musLib_ok L" and "list_all (\<lambda>p. fitsText (wp_Key p) \<and> fitsValue (wp_Value p)) ps"
  shows "sizeProps L ps = length (marshalProps L ps)"
  using assms unfolding sizeProps_def marshalProps_def length_append length_concat_map size_Len [OF assms(1)]
  by (auto simp: list_all_iff size_Text size_Value intro!: sum_list_cong_set)

lemma size_Body:
  assumes L: "musLib_ok L" and "fitsNode n"
  shows "sizeBody L n = length (marshalBody L n)"
  using assms(2)
  by (cases "wn_Kind n")
     (auto simp: sizeBody_def marshalBody_def fitsNode_def length_concat_map size_Len [OF L] size_Text [OF L] size_U32 [OF L]
        size_Value [OF L] musLib_okD(8) [OF L] mus_size [OF musLib_okD(3) [OF L]] list_all_iff intro!: sum_list_cong_set)

lemma size_Node:
  assumes L: "musLib_ok L" and "fitsNode n"
  shows "sizeNode L n = length (marshalNode L n)"
  using size_Body [OF assms] size_Props [OF L] assms(2)
  by (simp add: sizeNode_def marshalNode_def size_U32 [OF L] musLib_okD(8) [OF L] fitsNode_def)

lemma size_Graph:
  assumes L: "musLib_ok L" and "fitsGraph g"
  shows "sizeGraph L g = length (graphBytes L g)"
  using assms(2)
  by (auto simp: sizeGraph_def graphBytes_def fitsGraph_def size_Value [OF L] size_Len [OF L] length_concat_map
        size_Node [OF L] list_all_iff intro!: sum_list_cong_set)

subsection \<open>Graphs\<close>

lemma marshalGraph_bytes:
  "musLib_ok L \<Longrightarrow> fitsGraph g \<Longrightarrow> marshalGraph L g = Inr (graphBytes L g)"
  by (simp add: marshalGraph_def size_Graph)

lemma reads_exact: "reads r bs x \<Longrightarrow> r bs = Inr (x, length bs)"
  unfolding reads_def by (metis append_Nil2)

lemma unmarshal_graphBytes:
  assumes L: "musLib_ok L" and fits: "fitsGraph g"
  shows "unmarshalGraph L (graphBytes L g) =
    (case validateGraph (normGraph g) of Some e \<Rightarrow> Inl e | None \<Rightarrow> Inr (normGraph g))"
proof -
  have f: "fitsValue (wg_Root g)" "fitsSlice 304 (wg_Nodes g)" "\<And>n. n \<in> set (wg_Nodes g) \<Longrightarrow> fitsNode n"
    using fits by (simp_all add: fitsGraph_def list_all_iff)
  let ?body = "marshalValue L (wg_Root g) @ marshalLen L (length (wg_Nodes g)) @ concat (map (marshalNode L) (wg_Nodes g)) @ []"
  have "reads (rthen (unmarshalValue L) (\<lambda>root. rthen (unmarshalLen L) (\<lambda>count. rthen (makeSlice 304 count) (\<lambda>count.
      rthen (readTimes count (unmarshalNode L)) (\<lambda>nodes. rok \<lparr>wg_Root = root, wg_Nodes = nodes\<rparr>))))) ?body (normGraph g)"
    by (rule reads_rthen [OF reads_Value [OF L f(1)]], rule reads_counted [OF L f(2), where g = normNode])
       (auto simp: normGraph_def intro: reads_Node [OF L f(3)] reads_rok)
  from reads_exact [OF this] show ?thesis by (simp add: unmarshalGraph_def graphBytes_def)
qed

subsection \<open>Validation of a normal form\<close>

lemma normValue_sel [simp]:
  "wv_Kind (normValue v) = wv_Kind v" "wv_Kind v = valueRef \<Longrightarrow> wv_Ref (normValue v) = wv_Ref v"
  by (simp_all add: normValue_def Let_def zeroValue_def split: valueKind.splits)

lemma normNode_sel [simp]:
  "wn_ID (normNode n) = wn_ID n" "wn_Kind (normNode n) = wn_Kind n" "wn_Props (normNode n) = map normProp (wn_Props n)"
  "wn_Kind n = nodeArray \<Longrightarrow> wn_Slots (normNode n) = map normSlot (wn_Slots n)"
  "wn_Kind n = nodeMap \<Longrightarrow> wn_Entries (normNode n) = map normEntry (wn_Entries n)"
  "wn_Kind n = nodeSet \<Longrightarrow> wn_Values (normNode n) = map normValue (wn_Values n)"
  "wn_Kind n = nodeArrayBuffer \<Longrightarrow> wn_Bytes (normNode n) = wn_Bytes n"
  "wn_Kind n = nodeTypedArray \<Longrightarrow> wn_TextA (normNode n) = wn_TextA n \<and> wn_Buffer (normNode n) = normValue (wn_Buffer n) \<and>
     wn_ByteOffset (normNode n) = wn_ByteOffset n \<and> wn_ByteLength (normNode n) = wn_ByteLength n"
  "wn_Kind n = nodePromise \<Longrightarrow> wn_Promise (normNode n) = normValue (wn_Promise n)"
  "wn_Kind n = nodeError \<Longrightarrow> wn_Cause (normNode n) = normValue (wn_Cause n)"
  by (simp_all add: normNode_def normBody_def Let_def zeroNode_def split: nodeKind.splits)

lemma norm_sel [simp]:
  "wp_Value (normProp p) = normValue (wp_Value p)" "ws_Present (normSlot s) = ws_Present s"
  "ws_Present s \<Longrightarrow> ws_Value (normSlot s) = normValue (ws_Value s)"
  "we_Key (normEntry e) = normValue (we_Key e)" "we_Value (normEntry e) = normValue (we_Value e)"
  by (simp_all add: normProp_def normSlot_def normEntry_def)

lemma firstErr_map: "firstErr f (map g xs) = firstErr (\<lambda>x. f (g x)) xs"
  by (induction xs) (auto split: option.splits)

lemma firstErr_cong: "(\<And>x. x \<in> set xs \<Longrightarrow> f x = g x) \<Longrightarrow> firstErr f xs = firstErr g xs"
  by (induction xs) (auto split: option.splits)

lemma firstErr_None: "firstErr f xs = None \<longleftrightarrow> (\<forall>x \<in> set xs. f x = None)"
  by (induction xs) (auto split: option.splits)

lemma nodeByID_norm: "nodeByID (map normNode ns) = (\<lambda>r. map_option normNode (nodeByID ns r))"
  by (induction ns rule: rev_induct) (auto simp: nodeByID_def fun_eq_iff)

lemma validateIDs_norm: "validateGraphNodeIDs seen (map normNode ns) = validateGraphNodeIDs seen ns"
  by (induction ns arbitrary: seen) auto

lemma validateValue_norm:
  "validateWireValue (\<lambda>r. map_option normNode (byID r)) (normValue v) = validateWireValue byID v"
  by (auto simp: validateWireValue_def)

lemma validateNode_norm:
  "validateWireNode (\<lambda>r. map_option normNode (byID r)) (normNode n) = validateWireNode byID n"
  unfolding validateWireNode_def normNode_sel(2,3) firstErr_map norm_sel validateValue_norm
  by (rule option.case_cong [OF refl])
     (auto simp: firstErr_map validateValue_norm Let_def split: nodeKind.splits option.splits intro!: firstErr_cong)

lemma validateGraph_norm: "validateGraph (normGraph g) = validateGraph g"
  unfolding validateGraph_def normGraph_def wireGraph.select_convs validateIDs_norm nodeByID_norm validateValue_norm
    firstErr_map validateNode_norm ..

subsection \<open>Decoded graphs\<close>

definition yields :: "'a reader \<Rightarrow> ('a \<Rightarrow> bool) \<Rightarrow> bool" where
  "yields r P \<longleftrightarrow> (\<forall>bs x n. r bs = Inr (x, n) \<longrightarrow> P x \<and> n \<le> length bs)"

lemma yields_rok: "P x \<Longrightarrow> yields (rok x) P"
  by (simp add: yields_def rok_def)

lemma yields_rfail: "yields (rfail e) P"
  by (simp add: yields_def rfail_def)

lemma yields_rthen:
  assumes "yields r P" and "\<And>x. P x \<Longrightarrow> yields (f x) Q"
  shows "yields (rthen r f) Q"
  unfolding yields_def
proof (intro allI impI)
  fix bs y n assume "rthen r f bs = Inr (y, n)"
  then obtain x m k where r: "r bs = Inr (x, m)" and f: "f x (drop m bs) = Inr (y, k)" and n: "n = m + k"
    by (auto simp: rthen_def)
  have "P x" "m \<le> length bs" using assms(1) r by (auto simp: yields_def)
  moreover have "Q y" "k \<le> length (drop m bs)" using assms(2) [OF \<open>P x\<close>, unfolded yields_def, rule_format, OF f] by simp_all
  ultimately show "Q y \<and> n \<le> length bs" using n by simp
qed

lemma yields_mus: "mus_ok m D \<Longrightarrow> yields (musRead m) D"
  by (auto simp: mus_ok_def yields_def musRead_def split: sum.splits)

lemma yields_mono: "yields r P \<Longrightarrow> (\<And>x. P x \<Longrightarrow> Q x) \<Longrightarrow> yields r Q"
  by (auto simp: yields_def)

lemma yields_readTimes: "yields r P \<Longrightarrow> yields (readTimes n r) (\<lambda>xs. length xs = n \<and> list_all P xs)"
proof (induction n)
  case (Suc n)
  then show ?case by (auto intro!: yields_rthen [OF Suc.prems] yields_rthen [OF Suc.IH] yields_rok)
qed (simp add: yields_rok)

lemma yields_kindOf: "yields (kindOf code ks b) (\<lambda>_. True)"
  by (auto simp: kindOf_def intro: yields_rok yields_rfail split: list.splits)

lemma yields_makeSlice: "yields (makeSlice k count) (\<lambda>n. n * k \<le> maxAlloc)"
  by (auto simp: yields_def makeSlice_def split: if_splits)

lemma yields_counted:
  assumes L: "musLib_ok L" and r: "yields r P" and f: "\<And>xs. fitsSlice k xs \<Longrightarrow> list_all P xs \<Longrightarrow> yields (f xs) Q"
  shows "yields (rthen (unmarshalLen L) (\<lambda>count. rthen (makeSlice k count) (\<lambda>count. rthen (readTimes count r) f))) Q"
proof -
  have "yields (unmarshalLen L) (\<lambda>_. True)"
    unfolding unmarshalLen_def by (rule yields_rthen [OF yields_mus [OF musLib_okD(4) [OF L]]]) (simp add: yields_rok)
  then show ?thesis
    by (rule yields_rthen) (auto simp: fitsSlice_def intro!: yields_rthen [OF yields_makeSlice] yields_rthen [OF yields_readTimes [OF r]] f)
qed

lemma yields_U32: "musLib_ok L \<Longrightarrow> yields (unmarshalU32 L) (\<lambda>_. True)"
  unfolding unmarshalU32_def
  by (rule yields_rthen [OF yields_mus [OF musLib_okD(2)]]) (auto intro: yields_rok yields_rfail)

lemma fitsText_Nil [simp]: "fitsText []"
  by (simp add: fitsText_def MaxLen_def)

lemma fitsSlice_Nil [simp]: "fitsSlice k []"
  by (simp add: fitsSlice_def)

lemma fitsValue_zero [simp]: "fitsValue zeroValue"
  by (simp add: fitsValue_def zeroValue_def)

lemma yields_Value:
  assumes L: "musLib_ok L"
  shows "yields (unmarshalValue L) fitsValue"
  unfolding unmarshalValue_def Let_def
  by (rule yields_rthen [OF yields_mus [OF musLib_okD(1) [OF L]]], rule yields_rthen [OF yields_kindOf])
     (auto simp: fitsValue_def zeroValue_def fitsText_def [where 'a = char] MaxLen_def split: valueKind.splits numberKind.splits
        intro!: yields_rok yields_rthen [OF yields_mus [OF musLib_okD(1) [OF L]]] yields_rthen [OF yields_kindOf]
          yields_rthen [OF yields_mus [OF musLib_okD(5) [OF L]]] yields_rthen [OF yields_mus [OF musLib_okD(6) [OF L]]]
          yields_rthen [OF yields_U32 [OF L]])

lemma yields_Text:
  assumes "musLib_ok L"
  shows "yields (musRead (mu_String L)) fitsText" "yields (musRead (mu_ByteSlice L)) fitsText"
  by (rule yields_mono [OF yields_mus [OF musLib_okD(6) [OF assms]]], simp add: fitsText_def)
     (rule yields_mono [OF yields_mus [OF musLib_okD(7) [OF assms]]], simp add: fitsText_def)

lemma yields_Slot:
  assumes L: "musLib_ok L"
  shows "yields (unmarshalSlot L) (\<lambda>s. fitsValue (ws_Value s))"
  unfolding unmarshalSlot_def
  by (rule yields_rthen [OF yields_mus [OF musLib_okD(1) [OF L]]])
     (auto intro!: yields_rok yields_rthen [OF yields_Value [OF L]])

lemma yields_Entry:
  assumes L: "musLib_ok L"
  shows "yields (unmarshalEntry L) (\<lambda>e. fitsValue (we_Key e) \<and> fitsValue (we_Value e))"
  unfolding unmarshalEntry_def
  by (auto intro!: yields_rok yields_rthen [OF yields_Value [OF L]])

lemma yields_Props:
  assumes L: "musLib_ok L"
  shows "yields (unmarshalProps L) (\<lambda>ps. fitsSlice 56 ps \<and> list_all (\<lambda>p. fitsText (wp_Key p) \<and> fitsValue (wp_Value p)) ps)"
    (is "yields _ ?Q")
proof -
  let ?r = "rthen (musRead (mu_String L)) (\<lambda>key. rthen (unmarshalValue L) (\<lambda>val. rok \<lparr>wp_Key = key, wp_Value = val\<rparr>))"
  have r: "yields ?r (\<lambda>p. fitsText (wp_Key p) \<and> fitsValue (wp_Value p))"
    by (auto intro!: yields_rok yields_rthen [OF yields_Text(1) [OF L]] yields_rthen [OF yields_Value [OF L]])
  have "yields (unmarshalLen L) (\<lambda>_. True)"
    unfolding unmarshalLen_def by (rule yields_rthen [OF yields_mus [OF musLib_okD(4) [OF L]]]) (simp add: yields_rok)
  then show ?thesis
    unfolding unmarshalProps_def
  proof (rule yields_rthen)
    fix count
    have "yields (rthen (makeSlice 56 count) (\<lambda>count. readTimes count ?r)) ?Q"
      by (rule yields_rthen [OF yields_makeSlice]) (rule yields_mono [OF yields_readTimes [OF r]], simp add: fitsSlice_def)
    then show "yields (if count = 0 then rok [] else rthen (makeSlice 56 count) (\<lambda>count. readTimes count ?r)) ?Q"
      by (simp add: yields_rok)
  qed
qed

text \<open>The fields of a node but its properties.\<close>

definition fitsBody :: "wireNode \<Rightarrow> bool" where
  "fitsBody n \<longleftrightarrow> fitsNode (n\<lparr>wn_Props := []\<rparr>)"

lemma yields_Body:
  assumes L: "musLib_ok L"
  shows "yields (unmarshalBody L (zeroNode\<lparr>wn_ID := nid, wn_Kind := kind\<rparr>)) fitsBody"
  by (cases kind)
     (auto simp: unmarshalBody_def fitsBody_def fitsNode_def zeroNode_def
        intro!: yields_rok yields_rthen [OF yields_Text(1) [OF L]] yields_rthen [OF yields_Text(2) [OF L]]
          yields_rthen [OF yields_Value [OF L]] yields_rthen [OF yields_U32 [OF L]]
          yields_rthen [OF yields_mus [OF musLib_okD(1) [OF L]]] yields_rthen [OF yields_mus [OF musLib_okD(3) [OF L]]]
          yields_counted [OF L yields_Slot [OF L]] yields_counted [OF L yields_Entry [OF L]]
          yields_counted [OF L yields_Value [OF L]])

lemma yields_Node:
  assumes L: "musLib_ok L"
  shows "yields (unmarshalNode L) fitsNode"
  unfolding unmarshalNode_def
  by (rule yields_rthen [OF yields_U32 [OF L]], rule yields_rthen [OF yields_mus [OF musLib_okD(1) [OF L]]],
      rule yields_rthen [OF yields_kindOf], rule yields_rthen [OF yields_Body [OF L]], rule yields_rthen [OF yields_Props [OF L]])
     (auto simp: fitsBody_def fitsNode_def intro!: yields_rok)

lemma unmarshalGraph_fits:
  assumes L: "musLib_ok L" and dec: "unmarshalGraph L bs = Inr g"
  shows "fitsGraph g" and "validateGraph g = None"
proof -
  have "yields (rthen (unmarshalValue L) (\<lambda>root. rthen (unmarshalLen L) (\<lambda>count. rthen (makeSlice 304 count) (\<lambda>count.
      rthen (readTimes count (unmarshalNode L)) (\<lambda>nodes. rok \<lparr>wg_Root = root, wg_Nodes = nodes\<rparr>))))) fitsGraph"
    by (rule yields_rthen [OF yields_Value [OF L]], rule yields_counted [OF L yields_Node [OF L]])
       (auto simp: fitsGraph_def intro!: yields_rok)
  moreover obtain body n where "rthen (unmarshalValue L) (\<lambda>root. rthen (unmarshalLen L) (\<lambda>count. rthen (makeSlice 304 count) (\<lambda>count.
      rthen (readTimes count (unmarshalNode L)) (\<lambda>nodes. rok \<lparr>wg_Root = root, wg_Nodes = nodes\<rparr>)))) body = Inr (g, n)"
    and valid: "validateGraph g = None"
    using dec by (auto simp: unmarshalGraph_def split: list.splits if_splits option.splits)
  ultimately show "fitsGraph g" and "validateGraph g = None" by (auto simp: yields_def)
qed

text \<open>What validation establishes.\<close>

lemma validateIDs_distinct:
  "validateGraphNodeIDs seen ns = None \<longleftrightarrow> distinct (map wn_ID ns) \<and> 0 \<notin> wn_ID ` set ns \<and> wn_ID ` set ns \<inter> set seen = {}"
  by (induction ns arbitrary: seen) auto

lemma nodeByID_Some: "nodeByID ns r = Some n \<Longrightarrow> n \<in> set ns \<and> wn_ID n = r"
  by (induction ns rule: rev_induct) (auto simp: nodeByID_def split: if_splits)

lemma nodeByID_None: "nodeByID ns r = None \<longleftrightarrow> r \<notin> wn_ID ` set ns"
  by (induction ns rule: rev_induct) (auto simp: nodeByID_def)

end
