(* ===== verification/Wire_Claims.thy ===== *)
theory Wire_Claims
  imports Wire_Codec
begin

text \<open>
  The properties of the wire format, and a concrete primitive codec on which
  they are witnessed: base-128 numbers, and texts and byte slices behind their
  length.
\<close>

subsection \<open>A concrete codec\<close>

fun leb :: "nat \<Rightarrow> bytes" where
  "leb n = (if n < 128 then [of_nat n] else of_nat (128 + n mod 128) # leb (n div 128))"

fun unleb :: "bytes \<Rightarrow> (nat \<times> nat) option" where
  "unleb [] = None"
| "unleb (b # bs) =
     (if unat b < 128 then Some (unat b, 1)
      else case unleb bs of None \<Rightarrow> None | Some (n, k) \<Rightarrow> Some (unat b - 128 + 128 * n, k + 1))"

declare leb.simps [simp del]

definition lebWord :: "64 word mus" where
  "lebWord = \<lparr>ms_Size = (\<lambda>w. length (leb (unat w))), ms_Marshal = (\<lambda>w. leb (unat w)),
     ms_Unmarshal = (\<lambda>bs. case unleb bs of None \<Rightarrow> Inl ''too small byte slice'' | Some (n, k) \<Rightarrow> Inr (of_nat n, k))\<rparr>"

definition lebByte :: "byte mus" where
  "lebByte = \<lparr>ms_Size = (\<lambda>b. length (leb (unat b))), ms_Marshal = (\<lambda>b. leb (unat b)),
     ms_Unmarshal = (\<lambda>bs. case unleb bs of None \<Rightarrow> Inl ''too small byte slice'' | Some (n, k) \<Rightarrow> Inr (of_nat n, k))\<rparr>"

definition lebList :: "('a \<Rightarrow> byte) \<Rightarrow> (byte \<Rightarrow> 'a) \<Rightarrow> 'a list mus" where
  "lebList f g = \<lparr>ms_Size = (\<lambda>xs. length (leb (length xs)) + length xs), ms_Marshal = (\<lambda>xs. leb (length xs) @ map f xs),
     ms_Unmarshal = (\<lambda>bs. case unleb bs of None \<Rightarrow> Inl ''too small byte slice''
       | Some (n, k) \<Rightarrow> if n < MaxLen \<and> n + k \<le> length bs then Inr (map g (take n (drop k bs)), n + k)
                        else Inl ''too small byte slice'')\<rparr>"

definition lebLib :: musLib where
  "lebLib = \<lparr>mu_Byte = lebByte, mu_Uint64 = lebWord, mu_Int64 = lebWord, mu_PositiveInt64 = lebWord,
     mu_Float64 = lebWord, mu_String = lebList (\<lambda>c. of_nat (of_char c)) (\<lambda>b. char_of (unat b)), mu_ByteSlice = lebList id id\<rparr>"

lemma unat_of_nat_byte: "n < 256 \<Longrightarrow> unat (of_nat n :: byte) = n"
  by (simp add: unsigned_of_nat take_bit_nat_eq_self)

lemma unleb_leb: "unleb (leb n @ rest) = Some (n, length (leb n))"
proof (induction n rule: leb.induct)
  case (1 n)
  show ?case
  proof (cases "n < 128")
    case True
    then show ?thesis by (simp add: leb.simps [of n] unat_of_nat_byte)
  next
    case False
    have u: "unat (of_nat (128 + n mod 128) :: byte) = 128 + n mod 128" by (rule unat_of_nat_byte) simp
    have "unleb (leb n @ rest) = Some (n mod 128 + 128 * (n div 128), length (leb (n div 128)) + 1)"
      using 1 [OF False] by (simp only: leb.simps [of n] False if_False append_Cons unleb.simps u) simp
    then show ?thesis using False by (simp add: leb.simps [of n])
  qed
qed

lemma unleb_length: "unleb bs = Some (n, k) \<Longrightarrow> k \<le> length bs"
  by (induction bs arbitrary: n k) (auto split: if_splits option.splits)

lemma lebWord_ok: "mus_ok lebWord (\<lambda>_. True)"
  by (auto simp: mus_ok_def lebWord_def unleb_leb split: option.splits dest: unleb_length)

lemma lebByte_ok: "mus_ok lebByte (\<lambda>_. True)"
  by (auto simp: mus_ok_def lebByte_def unleb_leb split: option.splits dest: unleb_length)

lemma lebList_ok: "(\<And>x. g (f x) = x) \<Longrightarrow> mus_ok (lebList f g) (\<lambda>xs. length xs < MaxLen)"
  by (auto simp: mus_ok_def lebList_def unleb_leb comp_def split: option.splits if_splits)

lemma char_byte: "char_of (unat (of_nat (of_char c) :: byte)) = c"
proof -
  have "(of_char c :: nat) < 256" by (rule nat_of_char_less_256)
  then show ?thesis by (simp only: unat_of_nat_byte char_of_char)
qed

lemma lebLib_ok: "musLib_ok lebLib"
  unfolding musLib_ok_def lebLib_def musLib.select_convs
  by (intro conjI lebWord_ok lebByte_ok lebList_ok char_byte) (simp_all add: lebByte_def word_less_nat_alt leb.simps)

subsection \<open>Encoding\<close>

text \<open>
  C18. Encoding and decoding a value graph. For every graph whose texts and
  slices have lengths Go can allocate, the encoder fills exactly the buffer it
  sized, without a panic; decoding the bytes gives the graph in normal form
  (fields foreign to a kind dropped, one NaN) if the graph is valid, and the
  error of validation if it is not.
\<close>

theorem wire_round_trip:
  assumes "musLib_ok L" and "fitsGraph g"
  shows "\<exists>bs. marshalGraph L g = Inr bs \<and> length bs = sizeGraph L g \<and>
    unmarshalGraph L bs = (case validateGraph g of None \<Rightarrow> Inr (normGraph g) | Some e \<Rightarrow> Inl e)"
  using marshalGraph_bytes [OF assms] size_Graph [OF assms] unmarshal_graphBytes [OF assms]
  by (simp add: validateGraph_norm split: option.splits)

text \<open>A cyclic graph: an array that holds itself, a number and a hole.\<close>

definition demo_graph :: wireGraph where
  "demo_graph = \<lparr>wg_Root = zeroValue\<lparr>wv_Kind := valueRef, wv_Ref := 1\<rparr>,
     wg_Nodes = [zeroNode\<lparr>wn_ID := 1, wn_Kind := nodeArray, wn_Slots :=
       [\<lparr>ws_Present = True, ws_Value = zeroValue\<lparr>wv_Kind := valueRef, wv_Ref := 1\<rparr>\<rparr>,
        \<lparr>ws_Present = True, ws_Value = zeroValue\<lparr>wv_Kind := valueNumber, wv_Number := NegZero\<rparr>\<rparr>,
        \<lparr>ws_Present = False, ws_Value = zeroValue\<rparr>]\<rparr>]\<rparr>"

lemma demo_graph_ok: "fitsGraph demo_graph" "validateGraph demo_graph = None" "normGraph demo_graph = demo_graph"
  by (simp_all add: demo_graph_def fitsGraph_def fitsNode_def fitsValue_def fitsText_def fitsSlice_def maxAlloc_def MaxLen_def
      zeroNode_def zeroValue_def validateGraph_def validateWireValue_def validateWireNode_def nodeByID_def normGraph_def
      normValue_def normNode_def normBody_def normSlot_def IsNaN_def expBits_def fracBits_def NegZero_def Let_def)

theorem wire_round_trip_witness:
  "\<exists>bs. marshalGraph lebLib demo_graph = Inr bs \<and> unmarshalGraph lebLib bs = Inr demo_graph"
  using wire_round_trip [OF lebLib_ok demo_graph_ok(1)] by (auto simp: demo_graph_ok)

subsection \<open>Decoding\<close>

text \<open>The values of a graph that may be references, and a typed array inside its buffer.\<close>

definition refIn :: "wireGraph \<Rightarrow> wireValue \<Rightarrow> bool" where
  "refIn g v \<longleftrightarrow> v = wg_Root g \<or> (\<exists>n \<in> set (wg_Nodes g). v \<in> wp_Value ` set (wn_Props n) \<or>
     (case wn_Kind n of
        nodeArray \<Rightarrow> \<exists>s \<in> set (wn_Slots n). ws_Present s \<and> v = ws_Value s
      | nodeMap \<Rightarrow> v \<in> we_Key ` set (wn_Entries n) \<union> we_Value ` set (wn_Entries n)
      | nodeSet \<Rightarrow> v \<in> set (wn_Values n)
      | nodeTypedArray \<Rightarrow> v = wn_Buffer n
      | nodePromise \<Rightarrow> v = wn_Promise n
      | nodeError \<Rightarrow> v = wn_Cause n
      | _ \<Rightarrow> False))"

definition windowIn :: "wireGraph \<Rightarrow> wireNode \<Rightarrow> bool" where
  "windowIn g n \<longleftrightarrow> wv_Kind (wn_Buffer n) = valueRef \<and> (\<exists>b \<in> set (wg_Nodes g).
     wn_ID b = wv_Ref (wn_Buffer n) \<and> wn_Kind b = nodeArrayBuffer \<and>
     unat (wn_ByteOffset n) + unat (wn_ByteLength n) \<le> length (wn_Bytes b) \<and>
     0 < bytesPerElement (wn_TextA n) \<and> unat (bytesPerElement (wn_TextA n)) dvd unat (wn_ByteLength n))"

lemma validateGraph_IDs:
  "validateGraph g = None \<Longrightarrow> distinct (map wn_ID (wg_Nodes g)) \<and> 0 \<notin> wn_ID ` set (wg_Nodes g)"
  by (simp add: validateGraph_def validateIDs_distinct split: option.splits)

lemma validateGraph_node:
  assumes "validateGraph g = None" and "n \<in> set (wg_Nodes g)"
  shows "validateWireNode (nodeByID (wg_Nodes g)) n = None"
  using assms by (auto simp: validateGraph_def firstErr_None split: option.splits)

lemma validateWireValue_ref:
  "validateWireValue (nodeByID ns) v = None \<longleftrightarrow> (wv_Kind v = valueRef \<longrightarrow> wv_Ref v \<in> wn_ID ` set ns)"
  by (auto simp: validateWireValue_def nodeByID_None)

lemma validateGraph_ref:
  assumes valid: "validateGraph g = None" and v: "refIn g v" and k: "wv_Kind v = valueRef"
  shows "wv_Ref v \<in> wn_ID ` set (wg_Nodes g)"
proof (cases "v = wg_Root g")
  case True
  with valid k show ?thesis by (auto simp: validateGraph_def validateWireValue_ref split: option.splits)
next
  case False
  with v obtain n where n: "n \<in> set (wg_Nodes g)"
    and inn: "v \<in> wp_Value ` set (wn_Props n) \<or> (case wn_Kind n of
        nodeArray \<Rightarrow> \<exists>s \<in> set (wn_Slots n). ws_Present s \<and> v = ws_Value s
      | nodeMap \<Rightarrow> v \<in> we_Key ` set (wn_Entries n) \<union> we_Value ` set (wn_Entries n)
      | nodeSet \<Rightarrow> v \<in> set (wn_Values n)
      | nodeTypedArray \<Rightarrow> v = wn_Buffer n
      | nodePromise \<Rightarrow> v = wn_Promise n
      | nodeError \<Rightarrow> v = wn_Cause n
      | _ \<Rightarrow> False)" by (auto simp: refIn_def)
  have "validateWireValue (nodeByID (wg_Nodes g)) v = None"
    using validateGraph_node [OF valid n] inn
    by (cases "wn_Kind n")
       (auto simp: validateWireNode_def firstErr_None Let_def validateWireValue_def [of _ "wn_Buffer n"]
          split: option.splits if_splits)
  with k show ?thesis by (simp add: validateWireValue_ref)
qed

lemma word_sum_no_wrap: "unat (ucast (a :: 32 word) + ucast (b :: 32 word) :: 64 word) = unat a + unat b"
proof -
  have "unat a < 2 ^ 32" "unat b < 2 ^ 32" using unsigned_less [of a] unsigned_less [of b] by simp_all
  then show ?thesis by (simp add: unat_word_ariths unsigned_ucast_eq take_bit_nat_eq_self)
qed

lemma validateGraph_window:
  assumes valid: "validateGraph g = None" and n: "n \<in> set (wg_Nodes g)" and k: "wn_Kind n = nodeTypedArray"
    and fits: "\<And>b. b \<in> set (wg_Nodes g) \<Longrightarrow> fitsText (wn_Bytes b)"
  shows "windowIn g n"
proof -
  let ?bp = "bytesPerElement (wn_TextA n)"
  from validateGraph_node [OF valid n] k obtain b where b: "nodeByID (wg_Nodes g) (wv_Ref (wn_Buffer n)) = Some b"
    and kind: "wv_Kind (wn_Buffer n) = valueRef" "wn_Kind b = nodeArrayBuffer" and bp: "?bp \<noteq> 0" "wn_ByteLength n mod ?bp = 0"
    and le: "\<not> of_nat (length (wn_Bytes b)) < ucast (wn_ByteOffset n) + (ucast (wn_ByteLength n) :: 64 word)"
    by (auto simp: validateWireNode_def Let_def split: option.splits if_splits)
  note bn = nodeByID_Some [OF b]
  have "unat (of_nat (length (wn_Bytes b)) :: 64 word) = length (wn_Bytes b)"
    using fits [of b] bn by (simp add: fitsText_def MaxLen_def unsigned_of_nat take_bit_nat_eq_self)
  with le have "unat (wn_ByteOffset n) + unat (wn_ByteLength n) \<le> length (wn_Bytes b)"
    by (simp add: word_less_nat_alt word_sum_no_wrap not_less)
  moreover have "unat ?bp dvd unat (wn_ByteLength n)"
    using bp(2) by (metis unat_mod unat_0 dvd_eq_mod_eq_0)
  ultimately show ?thesis using bn kind bp(1) unfolding windowIn_def by (auto simp: word_gt_0)
qed

text \<open>
  C19. A payload that decodes gives a graph that is safe to walk: its node
  identifiers are distinct and not zero, every reference leads to a node, and a
  typed array lies within its buffer and has whole elements. Encoding it again
  and decoding that gives its normal form.
\<close>

theorem decoded_graph_is_safe:
  assumes "musLib_ok L" and "unmarshalGraph L bs = Inr g"
  shows "distinct (map wn_ID (wg_Nodes g)) \<and> 0 \<notin> wn_ID ` set (wg_Nodes g) \<and>
    (\<forall>v. refIn g v \<longrightarrow> wv_Kind v = valueRef \<longrightarrow> wv_Ref v \<in> wn_ID ` set (wg_Nodes g)) \<and>
    (\<forall>n \<in> set (wg_Nodes g). wn_Kind n = nodeTypedArray \<longrightarrow> windowIn g n) \<and>
    (\<exists>bs'. marshalGraph L g = Inr bs' \<and> unmarshalGraph L bs' = Inr (normGraph g))"
proof (intro conjI ballI impI allI)
  note fits = unmarshalGraph_fits(1) [OF assms] and valid = unmarshalGraph_fits(2) [OF assms]
  show "distinct (map wn_ID (wg_Nodes g))" "0 \<notin> wn_ID ` set (wg_Nodes g)" using validateGraph_IDs [OF valid] by simp_all
  show "wv_Ref v \<in> wn_ID ` set (wg_Nodes g)" if "refIn g v" "wv_Kind v = valueRef" for v
    by (rule validateGraph_ref [OF valid that])
  show "windowIn g n" if "n \<in> set (wg_Nodes g)" "wn_Kind n = nodeTypedArray" for n
    by (rule validateGraph_window [OF valid that]) (use fits in \<open>simp add: fitsGraph_def fitsNode_def list_all_iff\<close>)
  show "\<exists>bs'. marshalGraph L g = Inr bs' \<and> unmarshalGraph L bs' = Inr (normGraph g)"
    using marshalGraph_bytes [OF assms(1) fits] unmarshal_graphBytes [OF assms(1) fits] valid by (simp add: validateGraph_norm)
qed

theorem decoded_graph_is_safe_witness:
  "\<exists>bs. unmarshalGraph lebLib bs = Inr demo_graph \<and> distinct (map wn_ID (wg_Nodes demo_graph))"
proof -
  obtain bs where "unmarshalGraph lebLib bs = Inr demo_graph"
    using marshalGraph_bytes [OF lebLib_ok demo_graph_ok(1)] unmarshal_graphBytes [OF lebLib_ok demo_graph_ok(1)]
    by (auto simp: demo_graph_ok)
  with decoded_graph_is_safe [OF lebLib_ok this] show ?thesis by auto
qed

text \<open>
  C39. A payload whose node count is negative as a Go integer, or beyond what can
  be allocated, makes the decoder panic instead of returning an error, whatever
  follows the count.
\<close>

theorem bad_count_panics:
  assumes "musLib_ok L" and "sint i < 0 \<or> sint i * 304 > int maxAlloc"
  shows "unmarshalGraph L (wireVersion # marshalValue L zeroValue @ ms_Marshal (mu_PositiveInt64 L) i @ rest) =
    Inl (Panic ''runtime error: makeslice: len out of range'')"
proof -
  note val = reads_Value [OF assms(1), of zeroValue, simplified, unfolded reads_def, rule_format]
  have "reads (unmarshalLen L) (ms_Marshal (mu_PositiveInt64 L) i) (sint i)"
    unfolding unmarshalLen_def by (rule reads_last [OF reads_mus [OF musLib_okD(4) [OF assms(1)] TrueI] refl])
  note len = this [unfolded reads_def, rule_format]
  have "makeSlice 304 (sint i) bs = Inl (Panic ''runtime error: makeslice: len out of range'')" for bs
    using assms(2) by (auto simp: makeSlice_def)
  then show ?thesis by (simp add: unmarshalGraph_def rthen_def val len)
qed

theorem bad_count_panics_witness:
  "unmarshalGraph lebLib (wireVersion # marshalValue lebLib zeroValue @ ms_Marshal (mu_PositiveInt64 lebLib) (-1)) =
    Inl (Panic ''runtime error: makeslice: len out of range'')"
  using bad_count_panics [OF lebLib_ok, of "-1" "[]"] by simp

end
