(* ===== verification/Wire_Model.thy ===== *)
theory Wire_Model
  imports Wire_Format "HOL-Library.List_Lexorder" "HOL-Library.Char_ord"
begin

text \<open>
  The typed Go model of JavaScript values and its codec: \<open>src/jswire/types.go\<close>,
  \<open>encode.go\<close>, \<open>decode.go\<close>, \<open>graph_builder.go\<close> and \<open>typed_array_codec.go\<close>.

  A Go value in an \<open>any\<close> is a \<open>goValue\<close>, one constructor per dynamic type the code
  distinguishes; a Go value that contains itself has no counterpart. A Go map is
  an association list, which decoding keeps sorted by key. The words of signed
  types are read with \<open>sint\<close>; floating point values are their bit patterns.
\<close>

subsection \<open>Traversals that thread a state\<close>

fun smap :: "('a \<Rightarrow> 's \<Rightarrow> 'e + 'b \<times> 's) \<Rightarrow> 'a list \<Rightarrow> 's \<Rightarrow> 'e + 'b list \<times> 's" where
  "smap f [] s = Inr ([], s)"
| "smap f (x # xs) s = rbind (f x s) (\<lambda>(y, s). rbind (smap f xs s) (\<lambda>(ys, s). Inr (y # ys, s)))"

lemma smap_cong [fundef_cong]:
  "xs = ys \<Longrightarrow> s = t \<Longrightarrow> (\<And>x s. x \<in> set ys \<Longrightarrow> f x s = g x s) \<Longrightarrow> smap f xs s = smap g ys t"
  by (induction ys arbitrary: xs s t) (auto intro!: rbind_cong)

text \<open>Apply a function to the result and keep the state.\<close>

definition smapResult :: "('b \<Rightarrow> 'c) \<Rightarrow> 'e + 'b \<times> 's \<Rightarrow> 'e + 'c \<times> 's" where
  "smapResult h r = rbind r (\<lambda>(y, s). Inr (h y, s))"

subsection \<open>Values of the typed model\<close>

datatype goNumber =
    GoInt "64 word" | GoInt8 "8 word" | GoInt16 "16 word" | GoInt32 "32 word" | GoInt64 "64 word"
  | GoUint "64 word" | GoUint8 "8 word" | GoUint16 "16 word" | GoUint32 "32 word" | GoUint64 "64 word"
  | GoFloat32 "32 word" | GoFloat64 float64

datatype typedArray =
    Uint8ArrayType bytes | Uint8ClampedArrayType bytes | Int8ArrayType "8 word list"
  | Uint16ArrayType "16 word list" | Int16ArrayType "16 word list"
  | Uint32ArrayType "32 word list" | Int32ArrayType "32 word list"
  | BigUint64ArrayType "64 word list" | BigInt64ArrayType "64 word list"
  | Float32ArrayType "32 word list" | Float64ArrayType "64 word list"

record goTime =
  gt_Sec :: int
  gt_Nsec :: nat
  gt_UTC :: bool

text \<open>\<open>GoOther\<close> is a value of any other type, with its name (\<open>%T\<close>).\<close>

datatype goValue =
    GoNil
  | GoValue bytes
  | GoBool bool
  | GoString string
  | GoNumber goNumber
  | ObjectType "(string \<times> goValue) list"
  | GoMap "(string \<times> goValue) list"
  | ArrayType "goValue list"
  | GoSlice "goValue list"
  | MapType "(goValue \<times> goValue) list"
  | SetType "goValue list"
  | DateType goTime
  | GoTime goTime
  | BigIntType string
  | RegExpType string string
  | ArrayBufferType bytes
  | TypedArray typedArray
  | GoOther string

datatype textProblem = EmptyText | ContainsWhitespace | MissingDigits | NonDecimalDigit | IllegalFlag | DuplicateFlag char

datatype encodeProblem =
    UnsafeInteger string int
  | InvalidBigInt string textProblem
  | InvalidFlags string textProblem
  | UnsupportedType string

text \<open>\<open>EncodeError\<close> carries the path of \<open>encodePathError\<close>, the empty one for the root.\<close>

datatype codecError = WireFailure WireError | EncodeError string encodeProblem | OutOfFuel

text \<open>The rune that \<open>NonDecimalDigit\<close> and \<open>IllegalFlag\<close> complain about is not part of the model.\<close>

fun problemText :: "textProblem \<Rightarrow> string" where
  "problemText EmptyText = ''empty''"
| "problemText ContainsWhitespace = ''contains whitespace''"
| "problemText MissingDigits = ''missing digits''"
| "problemText NonDecimalDigit = ''contains non-decimal digit''"
| "problemText IllegalFlag = ''illegal flag''"
| "problemText (DuplicateFlag r) = ''duplicate flag '' @ [r]"

definition ofWire :: "WireError + 'a \<Rightarrow> codecError + 'a" where
  "ofWire r = (case r of Inl e \<Rightarrow> Inl (WireFailure e) | Inr x \<Rightarrow> Inr x)"

subsection \<open>Numbers and times\<close>

definition maxJSSafeInteger :: int where "maxJSSafeInteger = 9007199254740991"

fun bitLen :: "nat \<Rightarrow> nat" where
  "bitLen n = (if n = 0 then 0 else Suc (bitLen (n div 2)))"

declare bitLen.simps [simp del]

text \<open>The conversion \<open>float64(v)\<close> of an integer of at most 53 bits, and of a \<open>float32\<close>.\<close>

definition packFloat :: "bool \<Rightarrow> nat \<Rightarrow> nat \<Rightarrow> float64" where
  "packFloat neg e frac = of_nat ((if neg then 2 ^ 63 else 0) + e * 2 ^ 52 + frac)"

definition float64OfInt :: "int \<Rightarrow> float64" where
  "float64OfInt n =
     (if n = 0 then 0
      else let m = nat \<bar>n\<bar>; e = bitLen m - 1 in packFloat (n < 0) (1023 + e) (m * 2 ^ (52 - e) - 2 ^ 52))"

definition float64OfFloat32 :: "32 word \<Rightarrow> float64" where
  "float64OfFloat32 w =
     (let neg = bit w 31; e = unat (drop_bit 23 w AND 0xFF); m = unat (w AND 0x7FFFFF) in
      if e = 255 then packFloat neg 2047 (if m = 0 then 0 else (if m < 2 ^ 22 then m + 2 ^ 22 else m) * 2 ^ 29)
      else if e = 0
      then (if m = 0 then packFloat neg 0 0
            else packFloat neg (873 + bitLen m) (m * 2 ^ (53 - bitLen m) - 2 ^ 52))
      else packFloat neg (e + 896) (m * 2 ^ 29))"

definition UnixMilli :: "goTime \<Rightarrow> 64 word" where
  "UnixMilli t = word_of_int (gt_Sec t * 1000 + int (gt_Nsec t div 1000000))"

definition timeUnixMilliUTC :: "64 word \<Rightarrow> goTime" where
  "timeUnixMilliUTC ms = \<lparr>gt_Sec = sint ms div 1000, gt_Nsec = nat (sint ms mod 1000) * 1000000, gt_UTC = True\<rparr>"

definition numberValue :: "float64 \<Rightarrow> wireValue" where
  "numberValue f = zeroValue\<lparr>wv_Kind := valueNumber, wv_Number := f\<rparr>"

definition numberFromInt :: "string \<Rightarrow> int \<Rightarrow> string \<Rightarrow> codecError + wireValue" where
  "numberFromInt path v name =
     (if v < - maxJSSafeInteger \<or> v > maxJSSafeInteger then Inl (EncodeError path (UnsafeInteger name v))
      else Inr (numberValue (float64OfInt v)))"

definition numberFromUint :: "string \<Rightarrow> int \<Rightarrow> string \<Rightarrow> codecError + wireValue" where
  "numberFromUint path v name =
     (if v > maxJSSafeInteger then Inl (EncodeError path (UnsafeInteger name v))
      else Inr (numberValue (float64OfInt v)))"

fun encodeNumber :: "goNumber \<Rightarrow> string \<Rightarrow> codecError + wireValue" where
  "encodeNumber (GoInt x) path = numberFromInt path (sint x) ''int''"
| "encodeNumber (GoInt8 x) path = numberFromInt path (sint x) ''int8''"
| "encodeNumber (GoInt16 x) path = numberFromInt path (sint x) ''int16''"
| "encodeNumber (GoInt32 x) path = numberFromInt path (sint x) ''int32''"
| "encodeNumber (GoInt64 x) path = numberFromInt path (sint x) ''int64''"
| "encodeNumber (GoUint x) path = numberFromUint path (uint x) ''uint''"
| "encodeNumber (GoUint8 x) path = numberFromUint path (uint x) ''uint8''"
| "encodeNumber (GoUint16 x) path = numberFromUint path (uint x) ''uint16''"
| "encodeNumber (GoUint32 x) path = numberFromUint path (uint x) ''uint32''"
| "encodeNumber (GoUint64 x) path = numberFromUint path (uint x) ''uint64''"
| "encodeNumber (GoFloat32 x) path = Inr (numberValue (float64OfFloat32 x))"
| "encodeNumber (GoFloat64 x) path = Inr (numberValue x)"

subsection \<open>Texts\<close>

text \<open>The runes \<open>strings.TrimSpace\<close> removes, as UTF-8.\<close>

definition spaceRunes :: "string list" where
  "spaceRunes = map (map char_of) ([[9], [10], [11], [12], [13], [32], [0xC2, 0x85], [0xC2, 0xA0], [0xE1, 0x9A, 0x80],
     [0xE2, 0x80, 0xA8], [0xE2, 0x80, 0xA9], [0xE2, 0x80, 0xAF], [0xE2, 0x81, 0x9F], [0xE3, 0x80, 0x80]] @
     map (\<lambda>k. [0xE2, 0x80, k]) [0x80 ..< (0x8B :: nat)])"

definition trimsSpace :: "string \<Rightarrow> bool" where
  "trimsSpace s \<longleftrightarrow> list_ex (\<lambda>r. take (length r) s = r \<or> take (length r) (rev s) = rev r) spaceRunes"

definition isDecimal :: "char \<Rightarrow> bool" where
  "isDecimal c \<longleftrightarrow> CHR ''0'' \<le> c \<and> c \<le> CHR ''9''"

definition validateBigIntText :: "string \<Rightarrow> textProblem option" where
  "validateBigIntText s =
     (if s = [] then Some EmptyText
      else if trimsSpace s then Some ContainsWhitespace
      else if s = ''-'' then Some MissingDigits
      else if \<not> list_all isDecimal (if hd s = CHR ''-'' then tl s else s) then Some NonDecimalDigit
      else None)"

fun regExpFlags :: "char list \<Rightarrow> string \<Rightarrow> textProblem option" where
  "regExpFlags seen [] = None"
| "regExpFlags seen (r # flags) =
     (if r \<notin> set ''dgimsuvy'' then Some IllegalFlag
      else if r \<in> set seen then Some (DuplicateFlag r)
      else regExpFlags (r # seen) flags)"

definition validateRegExpFlags :: "string \<Rightarrow> textProblem option" where
  "validateRegExpFlags flags = regExpFlags [] flags"

definition objectPath :: "string \<Rightarrow> string \<Rightarrow> string" where
  "objectPath base key = (if base = [] then key else if key = [] then base @ ''.'' else base @ ''.'' @ key)"

definition joinLabel :: "string \<Rightarrow> string \<Rightarrow> string" where
  "joinLabel base label = (if base = [] then label else base @ '' '' @ label)"

definition arrayPath :: "string \<Rightarrow> nat \<Rightarrow> string" where
  "arrayPath base index = joinLabel base (''array index '' @ showNat index)"

definition mapEntryPath :: "string \<Rightarrow> nat \<Rightarrow> string \<Rightarrow> string" where
  "mapEntryPath base index side = joinLabel base (''map entry '' @ showNat index @ '' '' @ side)"

definition setValuePath :: "string \<Rightarrow> nat \<Rightarrow> string" where
  "setValuePath base index = joinLabel base (''set value '' @ showNat index)"

subsection \<open>Typed arrays\<close>

text \<open>\<open>binary.LittleEndian\<close>.\<close>

fun putLE :: "nat \<Rightarrow> 'a::len word \<Rightarrow> bytes" where
  "putLE 0 w = []"
| "putLE (Suc n) w = ucast w # putLE n (drop_bit 8 w)"

fun getLE :: "bytes \<Rightarrow> 'a::len word" where
  "getLE [] = 0"
| "getLE (b # bs) = ucast b OR push_bit 8 (getLE bs)"

definition typedArrayModelBytes :: "typedArray \<Rightarrow> string \<times> bytes" where
  "typedArrayModelBytes v =
     (case v of
        Uint8ArrayType x \<Rightarrow> (''Uint8Array'', x)
      | Uint8ClampedArrayType x \<Rightarrow> (''Uint8ClampedArray'', x)
      | Int8ArrayType x \<Rightarrow> (''Int8Array'', x)
      | Uint16ArrayType x \<Rightarrow> (''Uint16Array'', concat (map (putLE 2) x))
      | Int16ArrayType x \<Rightarrow> (''Int16Array'', concat (map (putLE 2) x))
      | Uint32ArrayType x \<Rightarrow> (''Uint32Array'', concat (map (putLE 4) x))
      | Int32ArrayType x \<Rightarrow> (''Int32Array'', concat (map (putLE 4) x))
      | BigUint64ArrayType x \<Rightarrow> (''BigUint64Array'', concat (map (putLE 8) x))
      | BigInt64ArrayType x \<Rightarrow> (''BigInt64Array'', concat (map (putLE 8) x))
      | Float32ArrayType x \<Rightarrow> (''Float32Array'', concat (map (putLE 4) x))
      | Float64ArrayType x \<Rightarrow> (''Float64Array'', concat (map (putLE 8) x)))"

definition elements :: "nat \<Rightarrow> bytes \<Rightarrow> 'a::len word list" where
  "elements k raw = map (\<lambda>i. getLE (take k (drop (i * k) raw))) [0 ..< length raw div k]"

definition typedArrayModelFromBytes :: "string \<Rightarrow> bytes \<Rightarrow> codecError + goValue" where
  "typedArrayModelFromBytes ctor raw =
     (let bytesPer = unat (bytesPerElement ctor) in
      if bytesPer = 0 then Inl (WireFailure (ErrInvalidWire (''unsupported typed array constructor '' @ quote ctor)))
      else if length raw mod bytesPer \<noteq> 0 then Inl (WireFailure (ErrInvalidWire (''invalid '' @ ctor @ '' byte length'')))
      else if ctor = ''Uint8Array'' then Inr (TypedArray (Uint8ArrayType raw))
      else if ctor = ''Uint8ClampedArray'' then Inr (TypedArray (Uint8ClampedArrayType raw))
      else if ctor = ''Int8Array'' then Inr (TypedArray (Int8ArrayType raw))
      else if ctor = ''Uint16Array'' then Inr (TypedArray (Uint16ArrayType (elements 2 raw)))
      else if ctor = ''Int16Array'' then Inr (TypedArray (Int16ArrayType (elements 2 raw)))
      else if ctor = ''Uint32Array'' then Inr (TypedArray (Uint32ArrayType (elements 4 raw)))
      else if ctor = ''Int32Array'' then Inr (TypedArray (Int32ArrayType (elements 4 raw)))
      else if ctor = ''BigUint64Array'' then Inr (TypedArray (BigUint64ArrayType (elements 8 raw)))
      else if ctor = ''BigInt64Array'' then Inr (TypedArray (BigInt64ArrayType (elements 8 raw)))
      else if ctor = ''Float32Array'' then Inr (TypedArray (Float32ArrayType (elements 4 raw)))
      else if ctor = ''Float64Array'' then Inr (TypedArray (Float64ArrayType (elements 8 raw)))
      else if ctor = ''DataView'' then Inl (WireFailure (ErrInvalidWire ''DataView has no typed Go model''))
      else Inl (WireFailure (ErrInvalidWire (''unsupported typed array constructor '' @ quote ctor))))"

definition typedArrayWindowBytes :: "wireNode \<Rightarrow> wireNode \<Rightarrow> codecError + bytes" where
  "typedArrayWindowBytes node buffer =
     (let start = unat (wn_ByteOffset node); stop = start + unat (wn_ByteLength node) in
      if stop > length (wn_Bytes buffer) then Inl (WireFailure (ErrInvalidWire ''typed array window out of bounds''))
      else Inr (take (stop - start) (drop start (wn_Bytes buffer))))"

subsection \<open>Building graphs\<close>

record graphBuilder =
  gb_nextID :: "32 word"
  gb_nodes :: "wireNode list"

definition newGraphBuilder :: graphBuilder where
  "newGraphBuilder = \<lparr>gb_nextID = 1, gb_nodes = []\<rparr>"

definition refValue :: "32 word \<Rightarrow> wireValue" where
  "refValue r = zeroValue\<lparr>wv_Kind := valueRef, wv_Ref := r\<rparr>"

definition addNode :: "wireNode \<Rightarrow> graphBuilder \<Rightarrow> codecError + wireValue \<times> graphBuilder" where
  "addNode node b =
     (if gb_nextID b = 0 then Inl (WireFailure (ErrInvalidWire ''node id overflow''))
      else Inr (refValue (gb_nextID b),
        b\<lparr>gb_nextID := gb_nextID b + 1, gb_nodes := gb_nodes b @ [node\<lparr>wn_ID := gb_nextID b\<rparr>]\<rparr>))"

text \<open>The slices of a node are copied so that the copy shares none; as a value it is the node.\<close>

definition copyWireNode :: "wireNode \<Rightarrow> wireNode" where
  "copyWireNode node = node"

definition cloneWireGraph :: "wireGraph \<Rightarrow> wireGraph" where
  "cloneWireGraph g = \<lparr>wg_Root = wg_Root g, wg_Nodes = map copyWireNode (wg_Nodes g)\<rparr>"

definition remapWireValue :: "(32 word \<rightharpoonup> 32 word) \<Rightarrow> wireValue \<Rightarrow> codecError + wireValue" where
  "remapWireValue remap v =
     (if wv_Kind v \<noteq> valueRef then Inr v
      else case remap (wv_Ref v) of
        None \<Rightarrow> Inl (WireFailure (ErrInvalidWire (''missing ref remap '' @ showWord (wv_Ref v))))
      | Some ref \<Rightarrow> Inr (v\<lparr>wv_Ref := ref\<rparr>))"

definition remapWireNode :: "(32 word \<rightharpoonup> 32 word) \<Rightarrow> wireNode \<Rightarrow> codecError + wireNode" where
  "remapWireNode remap node =
     (let out = copyWireNode node in
      case remap (wn_ID node) of
        None \<Rightarrow> Inl (WireFailure (ErrInvalidWire (''missing node id remap '' @ showWord (wn_ID node))))
      | Some nid \<Rightarrow>
          rbind (rmap (\<lambda>p. rbind (remapWireValue remap (wp_Value p)) (\<lambda>v. Inr (p\<lparr>wp_Value := v\<rparr>))) (wn_Props out)) (\<lambda>props.
          rbind (rmap (\<lambda>s. if ws_Present s then rbind (remapWireValue remap (ws_Value s)) (\<lambda>v. Inr (s\<lparr>ws_Value := v\<rparr>))
                           else Inr s) (wn_Slots out)) (\<lambda>slots.
          rbind (rmap (\<lambda>e. rbind (remapWireValue remap (we_Key e)) (\<lambda>k.
                           rbind (remapWireValue remap (we_Value e)) (\<lambda>v. Inr \<lparr>we_Key = k, we_Value = v\<rparr>))) (wn_Entries out)) (\<lambda>entries.
          rbind (rmap (remapWireValue remap) (wn_Values out)) (\<lambda>values.
          rbind (remapWireValue remap (wn_Buffer out)) (\<lambda>buffer.
          rbind (remapWireValue remap (wn_Promise out)) (\<lambda>promise.
          rbind (remapWireValue remap (wn_Cause out)) (\<lambda>cause.
          Inr (out\<lparr>wn_ID := nid, wn_Props := props, wn_Slots := slots, wn_Entries := entries, wn_Values := values,
            wn_Buffer := buffer, wn_Promise := promise, wn_Cause := cause\<rparr>)))))))))"

text \<open>The new identifiers of appended nodes.\<close>

fun remapIDs :: "wireNode list \<Rightarrow> (32 word \<rightharpoonup> 32 word) \<Rightarrow> 32 word \<Rightarrow> codecError + (32 word \<rightharpoonup> 32 word) \<times> 32 word" where
  "remapIDs [] remap nextID = Inr (remap, nextID)"
| "remapIDs (n # ns) remap nextID =
     (if nextID = 0 then Inl (WireFailure (ErrInvalidWire ''node id overflow''))
      else remapIDs ns (remap(wn_ID n \<mapsto> nextID)) (nextID + 1))"

definition appendGraphNodes :: "wireNode list \<Rightarrow> wireGraph \<Rightarrow> 32 word \<Rightarrow> codecError + wireValue \<times> wireNode list \<times> 32 word" where
  "appendGraphNodes dst src nextID =
     (case validateGraph src of
        Some e \<Rightarrow> Inl (WireFailure e)
      | None \<Rightarrow>
          rbind (remapIDs (wg_Nodes src) Map.empty nextID) (\<lambda>(remap, nextID).
          rbind (remapWireValue remap (wg_Root src)) (\<lambda>root.
          rbind (rmap (remapWireNode remap) (wg_Nodes src)) (\<lambda>nodes. Inr (root, dst @ nodes, nextID)))))"

definition appendGraph :: "musLib \<Rightarrow> bytes \<Rightarrow> graphBuilder \<Rightarrow> codecError + wireValue \<times> graphBuilder" where
  "appendGraph L raw b =
     rbind (ofWire (unmarshalGraph L raw)) (\<lambda>graph.
     rbind (appendGraphNodes (gb_nodes b) graph (gb_nextID b)) (\<lambda>(root, nodes, nextID).
     Inr (root, b\<lparr>gb_nodes := nodes, gb_nextID := nextID\<rparr>)))"

definition finishGraph :: "musLib \<Rightarrow> graphBuilder \<Rightarrow> wireValue \<Rightarrow> codecError + bytes" where
  "finishGraph L b root = ofWire (marshalGraph L \<lparr>wg_Root = root, wg_Nodes = gb_nodes b\<rparr>)"

definition nextNodeID :: "wireNode list \<Rightarrow> 32 word" where
  "nextNodeID nodes =
     (let m = foldl (\<lambda>m n. if wn_ID n > m then wn_ID n else m) 0 nodes in
      if m = NOT 0 then 0 else m + 1)"

subsection \<open>Encoding\<close>

type_synonym encoder = "goValue \<Rightarrow> string \<Rightarrow> graphBuilder \<Rightarrow> codecError + wireValue \<times> graphBuilder"

text \<open>The methods for composite values; \<open>enc\<close> is the encoder of the parts.\<close>

definition encodeObject :: "encoder \<Rightarrow> (string \<times> goValue) list \<Rightarrow> string \<Rightarrow> graphBuilder \<Rightarrow> codecError + wireValue \<times> graphBuilder" where
  "encodeObject enc obj path b =
     rbind (smap (\<lambda>(key, v) b. smapResult (\<lambda>w. \<lparr>wp_Key = key, wp_Value = w\<rparr>) (enc v (objectPath path key) b))
       (sort_key fst obj) b) (\<lambda>(props, b).
     addNode (zeroNode\<lparr>wn_Kind := nodeObject, wn_Props := props\<rparr>) b)"

definition encodeArray :: "encoder \<Rightarrow> goValue list \<Rightarrow> string \<Rightarrow> graphBuilder \<Rightarrow> codecError + wireValue \<times> graphBuilder" where
  "encodeArray enc items path b =
     rbind (smap (\<lambda>(i, item) b. smapResult (\<lambda>w. \<lparr>ws_Present = True, ws_Value = w\<rparr>) (enc item (arrayPath path i) b))
       (enumerate 0 items) b) (\<lambda>(slots, b).
     addNode (zeroNode\<lparr>wn_Kind := nodeArray, wn_Slots := slots\<rparr>) b)"

definition encodeMap :: "encoder \<Rightarrow> (goValue \<times> goValue) list \<Rightarrow> string \<Rightarrow> graphBuilder \<Rightarrow> codecError + wireValue \<times> graphBuilder" where
  "encodeMap enc entries path b =
     rbind (smap (\<lambda>(i, key, v) b.
         rbind (enc key (mapEntryPath path i ''key'') b) (\<lambda>(k, b).
         smapResult (\<lambda>w. \<lparr>we_Key = k, we_Value = w\<rparr>) (enc v (mapEntryPath path i ''value'') b)))
       (enumerate 0 entries) b) (\<lambda>(es, b).
     addNode (zeroNode\<lparr>wn_Kind := nodeMap, wn_Entries := es\<rparr>) b)"

definition encodeSet :: "encoder \<Rightarrow> goValue list \<Rightarrow> string \<Rightarrow> graphBuilder \<Rightarrow> codecError + wireValue \<times> graphBuilder" where
  "encodeSet enc items path b =
     rbind (smap (\<lambda>(i, item) b. enc item (setValuePath path i) b) (enumerate 0 items) b) (\<lambda>(values, b).
     addNode (zeroNode\<lparr>wn_Kind := nodeSet, wn_Values := values\<rparr>) b)"

definition encodeTypedArray :: "string \<Rightarrow> bytes \<Rightarrow> graphBuilder \<Rightarrow> codecError + wireValue \<times> graphBuilder" where
  "encodeTypedArray ctor raw b =
     rbind (addNode (zeroNode\<lparr>wn_Kind := nodeArrayBuffer, wn_Bytes := raw\<rparr>) b) (\<lambda>(buffer, b).
     addNode (zeroNode\<lparr>wn_Kind := nodeTypedArray, wn_TextA := ctor, wn_Buffer := buffer,
       wn_ByteLength := of_nat (length raw)\<rparr>) b)"

lemma enumerate_snd: "(i, x) \<in> set (enumerate n xs) \<Longrightarrow> x \<in> set xs"
  by (auto simp: in_set_enumerate_eq)

lemma encodeObject_cong [fundef_cong]:
  "obj = obj' \<Longrightarrow> path = path' \<Longrightarrow> b = b' \<Longrightarrow> (\<And>k v p c. (k, v) \<in> set obj' \<Longrightarrow> enc v p c = enc' v p c) \<Longrightarrow>
   encodeObject enc obj path b = encodeObject enc' obj' path' b'"
  unfolding encodeObject_def by (intro rbind_cong smap_cong) (auto simp: smapResult_def)

lemma encodeArray_cong [fundef_cong]:
  "xs = xs' \<Longrightarrow> path = path' \<Longrightarrow> b = b' \<Longrightarrow> (\<And>v p c. v \<in> set xs' \<Longrightarrow> enc v p c = enc' v p c) \<Longrightarrow>
   encodeArray enc xs path b = encodeArray enc' xs' path' b'"
  unfolding encodeArray_def by (intro rbind_cong smap_cong) (auto simp: smapResult_def dest: enumerate_snd)

lemma encodeSet_cong [fundef_cong]:
  "xs = xs' \<Longrightarrow> path = path' \<Longrightarrow> b = b' \<Longrightarrow> (\<And>v p c. v \<in> set xs' \<Longrightarrow> enc v p c = enc' v p c) \<Longrightarrow>
   encodeSet enc xs path b = encodeSet enc' xs' path' b'"
  unfolding encodeSet_def by (intro rbind_cong smap_cong) (auto dest: enumerate_snd)

lemma encodeMap_cong [fundef_cong]:
  "xs = xs' \<Longrightarrow> path = path' \<Longrightarrow> b = b' \<Longrightarrow>
   (\<And>k v p c. (k, v) \<in> set xs' \<Longrightarrow> enc k p c = enc' k p c) \<Longrightarrow>
   (\<And>k v p c. (k, v) \<in> set xs' \<Longrightarrow> enc v p c = enc' v p c) \<Longrightarrow>
   encodeMap enc xs path b = encodeMap enc' xs' path' b'"
  unfolding encodeMap_def
  by (intro rbind_cong smap_cong) (auto simp: smapResult_def intro!: rbind_cong dest!: enumerate_snd)

function (sequential) encode :: "musLib \<Rightarrow> encoder" where
  "encode L GoNil path b = Inr (zeroValue\<lparr>wv_Kind := valueNull\<rparr>, b)"
| "encode L (TypedArray x) path b = (case typedArrayModelBytes x of (ctor, raw) \<Rightarrow> encodeTypedArray ctor raw b)"
| "encode L (GoValue x) path b = appendGraph L x b"
| "encode L (GoBool x) path b = Inr (zeroValue\<lparr>wv_Kind := valueBool, wv_Bool := x\<rparr>, b)"
| "encode L (GoString x) path b = Inr (zeroValue\<lparr>wv_Kind := valueString, wv_Text := x\<rparr>, b)"
| "encode L (GoNumber x) path b = rbind (encodeNumber x path) (\<lambda>w. Inr (w, b))"
| "encode L (ObjectType x) path b = encodeObject (encode L) x path b"
| "encode L (GoMap x) path b = encodeObject (encode L) x path b"
| "encode L (ArrayType x) path b = encodeArray (encode L) x path b"
| "encode L (GoSlice x) path b = encodeArray (encode L) x path b"
| "encode L (MapType x) path b = encodeMap (encode L) x path b"
| "encode L (SetType x) path b = encodeSet (encode L) x path b"
| "encode L (DateType x) path b = addNode (zeroNode\<lparr>wn_Kind := nodeDate, wn_DateValid := True, wn_DateMS := UnixMilli x\<rparr>) b"
| "encode L (GoTime x) path b = addNode (zeroNode\<lparr>wn_Kind := nodeDate, wn_DateValid := True, wn_DateMS := UnixMilli x\<rparr>) b"
| "encode L (BigIntType x) path b =
     (case validateBigIntText x of
        Some e \<Rightarrow> Inl (EncodeError path (InvalidBigInt x e))
      | None \<Rightarrow> Inr (zeroValue\<lparr>wv_Kind := valueBigInt, wv_Text := x\<rparr>, b))"
| "encode L (RegExpType src flags) path b =
     (case validateRegExpFlags flags of
        Some e \<Rightarrow> Inl (EncodeError path (InvalidFlags flags e))
      | None \<Rightarrow> addNode (zeroNode\<lparr>wn_Kind := nodeRegexp, wn_TextA := src, wn_TextB := flags\<rparr>) b)"
| "encode L (ArrayBufferType x) path b = addNode (zeroNode\<lparr>wn_Kind := nodeArrayBuffer, wn_Bytes := x\<rparr>) b"
| "encode L (GoOther t) path b = Inl (EncodeError path (UnsupportedType t))"
  by pat_completeness auto
termination
proof (relation "measure (\<lambda>(L, v, path, b). size v)")
qed (force dest: size_list_estimation intro: le_imp_less_Suc
  simp: less_Suc_eq_le size_list_estimation' prod.size_gen)+

definition Encode :: "musLib \<Rightarrow> goValue \<Rightarrow> codecError + bytes" where
  "Encode L v =
     (case v of
        GoValue raw \<Rightarrow> Inr raw
      | _ \<Rightarrow> rbind (encode L v [] newGraphBuilder) (\<lambda>(root, b). finishGraph L b root))"

subsection \<open>Decoding\<close>

text \<open>
  The maps \<open>active\<close> and \<open>seen\<close> of the decoder, as the lists of their keys. A
  decoder calls itself through references, at most once for each node; the
  fuel of \<open>decodeValue\<close> bounds the depth of these calls.
\<close>

record decodeState =
  ds_active :: "32 word list"
  ds_seen :: "32 word list"

type_synonym decoder = "wireValue \<Rightarrow> decodeState \<Rightarrow> codecError + goValue \<times> decodeState"

fun mapPut :: "string \<Rightarrow> 'a \<Rightarrow> (string \<times> 'a) list \<Rightarrow> (string \<times> 'a) list" where
  "mapPut k v [] = [(k, v)]"
| "mapPut k v ((k', v') # m) =
     (if k = k' then (k, v) # m else if k < k' then (k, v) # (k', v') # m else (k', v') # mapPut k v m)"

definition mapOfList :: "(string \<times> 'a) list \<Rightarrow> (string \<times> 'a) list" where
  "mapOfList kvs = foldl (\<lambda>m (k, v). mapPut k v m) [] kvs"

definition decodeObject :: "decoder \<Rightarrow> wireNode \<Rightarrow> decodeState \<Rightarrow> codecError + goValue \<times> decodeState" where
  "decodeObject dec node st =
     (if wn_TextA node \<noteq> [] then Inl (WireFailure (ErrInvalidWire (''custom object '' @ wn_TextA node @ '' has no typed Go model'')))
      else smapResult (\<lambda>kvs. ObjectType (mapOfList kvs))
        (smap (\<lambda>prop st. smapResult (\<lambda>v. (wp_Key prop, v)) (dec (wp_Value prop) st)) (wn_Props node) st))"

definition decodeArray :: "decoder \<Rightarrow> wireNode \<Rightarrow> decodeState \<Rightarrow> codecError + goValue \<times> decodeState" where
  "decodeArray dec node st = smapResult ArrayType
     (smap (\<lambda>(i, slot) st.
        if \<not> ws_Present slot then Inl (WireFailure (ErrInvalidWire (''array hole at index '' @ showNat i @ '' cannot be represented by ArrayType'')))
        else dec (ws_Value slot) st) (enumerate 0 (wn_Slots node)) st)"

definition decodeMap :: "decoder \<Rightarrow> wireNode \<Rightarrow> decodeState \<Rightarrow> codecError + goValue \<times> decodeState" where
  "decodeMap dec node st = smapResult MapType
     (smap (\<lambda>entry st. rbind (dec (we_Key entry) st) (\<lambda>(key, st).
        smapResult (\<lambda>v. (key, v)) (dec (we_Value entry) st))) (wn_Entries node) st)"

definition decodeSet :: "decoder \<Rightarrow> wireNode \<Rightarrow> decodeState \<Rightarrow> codecError + goValue \<times> decodeState" where
  "decodeSet dec node st = smapResult SetType (smap dec (wn_Values node) st)"

definition decodeTypedArray :: "(32 word \<rightharpoonup> wireNode) \<Rightarrow> wireNode \<Rightarrow> codecError + goValue" where
  "decodeTypedArray nodes node =
     (if wn_TextA node = ''DataView'' then Inl (WireFailure (ErrInvalidWire ''DataView has no typed Go model''))
      else if wv_Kind (wn_Buffer node) \<noteq> valueRef
      then Inl (WireFailure (ErrInvalidWire ''typed array buffer is not a ref''))
      else case nodes (wv_Ref (wn_Buffer node)) of
        None \<Rightarrow> Inl (WireFailure (ErrInvalidWire (''missing typed array buffer ref '' @ showWord (wv_Ref (wn_Buffer node)))))
      | Some buffer \<Rightarrow>
          if wn_Kind buffer \<noteq> nodeArrayBuffer
          then Inl (WireFailure (ErrInvalidWire (''typed array buffer ref '' @ showWord (wv_Ref (wn_Buffer node)) @ '' is not ArrayBuffer'')))
          else rbind (typedArrayWindowBytes node buffer) (typedArrayModelFromBytes (wn_TextA node)))"

text \<open>The \<open>switch\<close> of \<open>decodeRef\<close> over the kind of the node.\<close>

definition decodeNode :: "(32 word \<rightharpoonup> wireNode) \<Rightarrow> decoder \<Rightarrow> wireNode \<Rightarrow> decodeState \<Rightarrow> codecError + goValue \<times> decodeState" where
  "decodeNode nodes dec node st =
     (case wn_Kind node of
        nodeObject \<Rightarrow> decodeObject dec node st
      | nodeArray \<Rightarrow> decodeArray dec node st
      | nodeMap \<Rightarrow> decodeMap dec node st
      | nodeSet \<Rightarrow> decodeSet dec node st
      | nodeDate \<Rightarrow>
          if \<not> wn_DateValid node then Inl (WireFailure (ErrInvalidWire ''invalid Date has no typed Go model timestamp''))
          else Inr (DateType (timeUnixMilliUTC (wn_DateMS node)), st)
      | nodeRegexp \<Rightarrow> Inr (RegExpType (wn_TextA node) (wn_TextB node), st)
      | nodeArrayBuffer \<Rightarrow> Inr (ArrayBufferType (wn_Bytes node), st)
      | nodeTypedArray \<Rightarrow> rbind (decodeTypedArray nodes node) (\<lambda>v. Inr (v, st))
      | nodePromise \<Rightarrow> Inl (WireFailure (ErrInvalidWire ''Promise has no typed Go model''))
      | nodeError \<Rightarrow> Inl (WireFailure (ErrInvalidWire (''unsupported '' @ (if wn_TextA node = [] then ''Error'' else wn_TextA node) @
            '' Error has no typed Go model''))))"

definition decodeRef :: "(32 word \<rightharpoonup> wireNode) \<Rightarrow> decoder \<Rightarrow> 32 word \<Rightarrow> decodeState \<Rightarrow> codecError + goValue \<times> decodeState" where
  "decodeRef nodes dec ref st =
     (case nodes ref of
        None \<Rightarrow> Inl (WireFailure (ErrInvalidWire (''missing ref '' @ showWord ref)))
      | Some node \<Rightarrow>
          if ref \<in> set (ds_active st) then Inl (WireFailure (ErrInvalidWire (''cycle at ref '' @ showWord ref)))
          else if ref \<in> set (ds_seen st) then Inl (WireFailure (ErrInvalidWire (''shared ref '' @ showWord ref @
            '' cannot be represented by the typed Go model'')))
          else rbind (decodeNode nodes dec node (st\<lparr>ds_seen := ref # ds_seen st, ds_active := ref # ds_active st\<rparr>)) (\<lambda>(v, st).
            Inr (v, st\<lparr>ds_active := removeAll ref (ds_active st)\<rparr>)))"

fun decodeValue :: "(32 word \<rightharpoonup> wireNode) \<Rightarrow> nat \<Rightarrow> decoder" where
  "decodeValue nodes 0 v st = Inl OutOfFuel"
| "decodeValue nodes (Suc fuel) v st =
     (case wv_Kind v of
        valueUndefined \<Rightarrow> Inr (GoNil, st)
      | valueNull \<Rightarrow> Inr (GoNil, st)
      | valueBool \<Rightarrow> Inr (GoBool (wv_Bool v), st)
      | valueNumber \<Rightarrow> Inr (GoNumber (GoFloat64 (wv_Number v)), st)
      | valueString \<Rightarrow> Inr (GoString (wv_Text v), st)
      | valueBigInt \<Rightarrow>
          (case validateBigIntText (wv_Text v) of
             Some e \<Rightarrow> Inl (WireFailure (ErrInvalidWire (''invalid BigInt '' @ quote (wv_Text v) @ '': '' @ problemText e)))
           | None \<Rightarrow> Inr (BigIntType (wv_Text v), st))
      | valueRef \<Rightarrow> decodeRef nodes (decodeValue nodes fuel) (wv_Ref v) st)"

declare decodeValue.simps [simp del]

definition Decode :: "musLib \<Rightarrow> bytes \<Rightarrow> codecError + goValue" where
  "Decode L raw =
     rbind (ofWire (unmarshalGraph L raw)) (\<lambda>graph.
     rbind (decodeValue (nodeByID (wg_Nodes graph)) (Suc (length (wg_Nodes graph))) (wg_Root graph)
       \<lparr>ds_active = [], ds_seen = []\<rparr>) (\<lambda>(v, st). Inr v))"

end
