(* ===== verification/Wire_Patch.thy ===== *)
theory Wire_Patch
  imports Wire_Model
begin

text \<open>
  Patches of payloads: \<open>src/jswire/patch.go\<close> and the path formatting of
  \<open>src/jswire/encode.go\<close>. A patch is applied to the wire graph; a pointer to a node
  of the edited graph is its index.
\<close>

record pathSegment =
  ps_Key :: string
  ps_Index :: "int option"

type_synonym path = "pathSegment list"

record patchOp =
  po_Op :: string
  po_Path :: path
  po_Value :: goValue

definition PatchSet :: string where "PatchSet = ''set''"
definition PatchRemove :: string where "PatchRemove = ''remove''"

datatype patchError =
    CodecFailure codecError
  | RemoveRoot
  | UnknownPatchOp string
  | EmptyPath
  | IndexSegment string
  | TraversesNonObject string
  | PathMissing string
  | ParentNotObject string
  | RootNotObject
  | AtOp nat string string patchError

definition ofCodec :: "codecError + 'a \<Rightarrow> patchError + 'a" where
  "ofCodec r = (case r of Inl e \<Rightarrow> Inl (CodecFailure e) | Inr x \<Rightarrow> Inr x)"

definition Itoa :: "int \<Rightarrow> string" where
  "Itoa n = (if n < 0 then ''-'' @ showNat (nat (- n)) else showNat (nat n))"

fun joinWith :: "string \<Rightarrow> string list \<Rightarrow> string" where
  "joinWith sep [] = []"
| "joinWith sep [s] = s"
| "joinWith sep (s # t # ss) = s @ sep @ joinWith sep (t # ss)"

definition formatPath :: "path \<Rightarrow> string" where
  "formatPath path =
     (if path = [] then ''<root>''
      else joinWith ''.'' (map (\<lambda>seg. case ps_Index seg of Some i \<Rightarrow> ''['' @ Itoa i @ '']'' | None \<Rightarrow> ps_Key seg) path))"

subsection \<open>The graph editor\<close>

record graphEditor =
  ge_graph :: wireGraph
  ge_byID :: "32 word \<rightharpoonup> nat"
  ge_nextID :: "32 word"

definition indexNodes :: "wireNode list \<Rightarrow> 32 word \<rightharpoonup> nat" where
  "indexNodes ns = foldl (\<lambda>m (i, n). m(wn_ID n \<mapsto> i)) Map.empty (enumerate 0 ns)"

definition newGraphEditor :: "musLib \<Rightarrow> bytes \<Rightarrow> patchError + graphEditor" where
  "newGraphEditor L raw =
     rbind (ofCodec (ofWire (unmarshalGraph L raw))) (\<lambda>graph.
     let graph = cloneWireGraph graph in
     Inr \<lparr>ge_graph = graph, ge_byID = indexNodes (wg_Nodes graph), ge_nextID = nextNodeID (wg_Nodes graph)\<rparr>)"

definition reindex :: "graphEditor \<Rightarrow> graphEditor" where
  "reindex e = e\<lparr>ge_byID := indexNodes (wg_Nodes (ge_graph e))\<rparr>"

definition appendValue :: "musLib \<Rightarrow> bytes \<Rightarrow> graphEditor \<Rightarrow> patchError + wireValue \<times> graphEditor" where
  "appendValue L raw e =
     rbind (ofCodec (ofWire (unmarshalGraph L raw))) (\<lambda>graph.
     rbind (ofCodec (appendGraphNodes (wg_Nodes (ge_graph e)) graph (ge_nextID e))) (\<lambda>(root, nodes, nextID).
     Inr (root, reindex (e\<lparr>ge_graph := (ge_graph e)\<lparr>wg_Nodes := nodes\<rparr>, ge_nextID := nextID\<rparr>))))"

definition finishEdit :: "musLib \<Rightarrow> graphEditor \<Rightarrow> patchError + bytes" where
  "finishEdit L e =
     (case validateGraph (ge_graph e) of
        Some err \<Rightarrow> Inl (CodecFailure (WireFailure err))
      | None \<Rightarrow> ofCodec (ofWire (marshalGraph L (ge_graph e))))"

definition nodeRef :: "graphEditor \<Rightarrow> 32 word \<Rightarrow> patchError + nat" where
  "nodeRef e ref =
     (case ge_byID e ref of
        None \<Rightarrow> Inl (CodecFailure (WireFailure (ErrInvalidWire (''missing ref '' @ showWord ref))))
      | Some idx \<Rightarrow> Inr idx)"

definition nodeAt :: "graphEditor \<Rightarrow> nat \<Rightarrow> wireNode" where
  "nodeAt e idx = wg_Nodes (ge_graph e) ! idx"

definition rootObject :: "graphEditor \<Rightarrow> patchError + nat" where
  "rootObject e =
     (if wv_Kind (wg_Root (ge_graph e)) \<noteq> valueRef then Inl RootNotObject
      else rbind (nodeRef e (wv_Ref (wg_Root (ge_graph e)))) (\<lambda>node.
        if wn_Kind (nodeAt e node) \<noteq> nodeObject then Inl RootNotObject else Inr node))"

definition objectPropValue :: "wireNode \<Rightarrow> string \<Rightarrow> wireValue option" where
  "objectPropValue node key = map_option wp_Value (List.find (\<lambda>p. wp_Key p = key) (wn_Props node))"

text \<open>The loop of \<open>objectParent\<close> over all segments but the last, from segment \<open>i\<close> on.\<close>

fun walkPath :: "graphEditor \<Rightarrow> path \<Rightarrow> nat \<Rightarrow> pathSegment list \<Rightarrow> nat \<Rightarrow> patchError + nat" where
  "walkPath e path i [] node = Inr node"
| "walkPath e path i (seg # segs) node =
     (if wn_Kind (nodeAt e node) \<noteq> nodeObject then Inl (TraversesNonObject (formatPath (take (i + 1) path)))
      else case objectPropValue (nodeAt e node) (ps_Key seg) of
        None \<Rightarrow> Inl (PathMissing (formatPath (take (i + 1) path)))
      | Some value \<Rightarrow>
          if wv_Kind value \<noteq> valueRef then Inl (TraversesNonObject (formatPath (take (i + 1) path)))
          else rbind (nodeRef e (wv_Ref value)) (\<lambda>next.
            if wn_Kind (nodeAt e next) \<noteq> nodeObject then Inl (TraversesNonObject (formatPath (take (i + 1) path)))
            else walkPath e path (i + 1) segs next))"

fun checkSegments :: "path \<Rightarrow> nat \<Rightarrow> pathSegment list \<Rightarrow> patchError option" where
  "checkSegments path i [] = None"
| "checkSegments path i (seg # segs) =
     (if ps_Index seg \<noteq> None then Some (IndexSegment (formatPath (take (i + 1) path)))
      else checkSegments path (i + 1) segs)"

definition objectParent :: "graphEditor \<Rightarrow> path \<Rightarrow> patchError + nat \<times> string" where
  "objectParent e path =
     (if path = [] then Inl EmptyPath
      else case checkSegments path 0 path of
        Some err \<Rightarrow> Inl err
      | None \<Rightarrow>
          rbind (rootObject e) (\<lambda>node.
          rbind (walkPath e path 0 (butlast path) node) (\<lambda>node.
          if wn_Kind (nodeAt e node) \<noteq> nodeObject then Inl (ParentNotObject (formatPath path))
          else Inr (node, ps_Key (last path)))))"

fun setProp :: "string \<Rightarrow> wireValue \<Rightarrow> wireProp list \<Rightarrow> wireProp list" where
  "setProp key val [] = [\<lparr>wp_Key = key, wp_Value = val\<rparr>]"
| "setProp key val (p # ps) = (if wp_Key p = key then p\<lparr>wp_Value := val\<rparr> # ps else p # setProp key val ps)"

fun removeProp :: "string \<Rightarrow> wireProp list \<Rightarrow> wireProp list" where
  "removeProp key [] = []"
| "removeProp key (p # ps) = (if wp_Key p = key then ps else p # removeProp key ps)"

definition editNode :: "nat \<Rightarrow> (wireNode \<Rightarrow> wireNode) \<Rightarrow> graphEditor \<Rightarrow> graphEditor" where
  "editNode idx f e = e\<lparr>ge_graph := (ge_graph e)\<lparr>wg_Nodes := (wg_Nodes (ge_graph e))[idx := f (nodeAt e idx)]\<rparr>\<rparr>"

definition setObjectProp :: "nat \<Rightarrow> string \<Rightarrow> wireValue \<Rightarrow> graphEditor \<Rightarrow> graphEditor" where
  "setObjectProp idx key val = editNode idx (\<lambda>n. n\<lparr>wn_Props := setProp key val (wn_Props n)\<rparr>)"

definition removeObjectProp :: "nat \<Rightarrow> string \<Rightarrow> graphEditor \<Rightarrow> graphEditor" where
  "removeObjectProp idx key = editNode idx (\<lambda>n. n\<lparr>wn_Props := removeProp key (wn_Props n)\<rparr>)"

subsection \<open>Patch operations\<close>

definition patchSet :: "musLib \<Rightarrow> bytes \<Rightarrow> path \<Rightarrow> goValue \<Rightarrow> patchError + bytes" where
  "patchSet L raw path val =
     rbind (newGraphEditor L raw) (\<lambda>ed.
     rbind (ofCodec (Encode L val)) (\<lambda>encoded.
     rbind (appendValue L encoded ed) (\<lambda>(val, ed).
     rbind (objectParent ed path) (\<lambda>(node, key).
     finishEdit L (setObjectProp node key val ed)))))"

definition patchRemove :: "musLib \<Rightarrow> bytes \<Rightarrow> path \<Rightarrow> patchError + bytes" where
  "patchRemove L raw path =
     rbind (newGraphEditor L raw) (\<lambda>ed.
     rbind (objectParent ed path) (\<lambda>(node, key).
     finishEdit L (removeObjectProp node key ed)))"

definition applyOnePatch :: "musLib \<Rightarrow> bytes \<Rightarrow> patchOp \<Rightarrow> patchError + bytes" where
  "applyOnePatch L raw op =
     (if po_Op op = PatchSet
      then (if po_Path op = [] then ofCodec (Encode L (po_Value op)) else patchSet L raw (po_Path op) (po_Value op))
      else if po_Op op = PatchRemove
      then (if po_Path op = [] then Inl RemoveRoot else patchRemove L raw (po_Path op))
      else Inl (UnknownPatchOp (po_Op op)))"

text \<open>The loop of \<open>Apply\<close> over the operations, from operation \<open>i\<close> on.\<close>

fun applyOps :: "musLib \<Rightarrow> nat \<Rightarrow> patchOp list \<Rightarrow> bytes \<Rightarrow> patchError + bytes" where
  "applyOps L i [] current = Inr current"
| "applyOps L i (op # ops) current =
     (case applyOnePatch L current op of
        Inl err \<Rightarrow> Inl (AtOp i (po_Op op) (formatPath (po_Path op)) err)
      | Inr next \<Rightarrow> applyOps L (i + 1) ops next)"

definition Apply :: "musLib \<Rightarrow> bytes \<Rightarrow> patchOp list \<Rightarrow> patchError + bytes" where
  "Apply L v p =
     (if p = [] then Inr v
      else rbind (if v = []
          then ofCodec (ofWire (marshalGraph L \<lparr>wg_Root = refValue 1, wg_Nodes = [zeroNode\<lparr>wn_ID := 1, wn_Kind := nodeObject\<rparr>]\<rparr>))
          else Inr v) (applyOps L 0 p))"

definition MergeObject :: "musLib \<Rightarrow> bytes \<Rightarrow> (string \<times> goValue) list \<Rightarrow> patchError + bytes" where
  "MergeObject L v obj =
     Apply L v (map (\<lambda>(key, x). \<lparr>po_Op = PatchSet, po_Path = [\<lparr>ps_Key = key, ps_Index = None\<rparr>], po_Value = x\<rparr>)
       (sort_key fst obj))"

end
