(* ===== verification/Wire_Typed.thy ===== *)
theory Wire_Typed
  imports Wire_Codec Wire_Model
begin

text \<open>
  Trees in graphs. \<open>denotes tbl w v R\<close>: in the node table \<open>tbl\<close> the wire value \<open>w\<close>
  stands for the Go value \<open>v\<close> and reaches the nodes \<open>R\<close>, each as often as it is
  listed. Decoding succeeds exactly on values that denote a tree without
  repetition, and what encoding appends to a graph denotes the value it was given.
\<close>

subsection \<open>The shape of a node\<close>

fun pairUp :: "'a list \<Rightarrow> ('a \<times> 'a) list" where
  "pairUp (k # v # xs) = (k, v) # pairUp xs"
| "pairUp _ = []"

text \<open>The parts of a node that is a tree, and how their values make up its value.\<close>

definition shape :: "(32 word \<rightharpoonup> wireNode) \<Rightarrow> wireNode \<Rightarrow> (wireValue list \<times> (goValue list \<Rightarrow> goValue)) option" where
  "shape tbl n =
     (case wn_Kind n of
        nodeObject \<Rightarrow> if wn_TextA n \<noteq> [] then None
          else Some (map wp_Value (wn_Props n), \<lambda>vs. ObjectType (mapOfList (zip (map wp_Key (wn_Props n)) vs)))
      | nodeArray \<Rightarrow> if list_all ws_Present (wn_Slots n) then Some (map ws_Value (wn_Slots n), ArrayType) else None
      | nodeMap \<Rightarrow> Some (concat (map (\<lambda>e. [we_Key e, we_Value e]) (wn_Entries n)), \<lambda>vs. MapType (pairUp vs))
      | nodeSet \<Rightarrow> Some (wn_Values n, SetType)
      | nodeDate \<Rightarrow> if wn_DateValid n then Some ([], \<lambda>_. DateType (timeUnixMilliUTC (wn_DateMS n))) else None
      | nodeRegexp \<Rightarrow> Some ([], \<lambda>_. RegExpType (wn_TextA n) (wn_TextB n))
      | nodeArrayBuffer \<Rightarrow> Some ([], \<lambda>_. ArrayBufferType (wn_Bytes n))
      | nodeTypedArray \<Rightarrow> (case decodeTypedArray tbl n of Inl e \<Rightarrow> None | Inr v \<Rightarrow> Some ([], \<lambda>_. v))
      | nodePromise \<Rightarrow> None
      | nodeError \<Rightarrow> None)"

lemma smapResult_Inr [simp]: "smapResult h r = Inr (z, s) \<longleftrightarrow> (\<exists>y. r = Inr (y, s) \<and> z = h y)"
  by (auto simp: smapResult_def)

lemma smap_Inr_length: "smap f xs s = Inr (ys, t) \<Longrightarrow> length ys = length xs"
  by (induction xs arbitrary: s ys) auto

text \<open>A traversal that only decorates the results of another.\<close>

lemma smap_decorated:
  "smap (\<lambda>x s. smapResult (h x) (dec (g x) s)) xs s = Inr (zs, t) \<longleftrightarrow>
   (\<exists>ys. smap dec (map g xs) s = Inr (ys, t) \<and> zs = map2 h xs ys)"
proof (induction xs arbitrary: s zs)
  case (Cons x xs)
  show ?case
    by (auto simp: Cons.IH)
qed auto

lemma smap_keyed:
  fixes dec :: "wireValue \<Rightarrow> 's \<Rightarrow> 'e + 'v \<times> 's"
  shows "smap (\<lambda>p s. smapResult (Pair (wp_Key p)) (dec (wp_Value p) s)) ps s = Inr (zs, t) \<longleftrightarrow>
   (\<exists>vs. smap dec (map wp_Value ps) s = Inr (vs, t) \<and> zs = zip (map wp_Key ps) vs)"
proof -
  have "map2 (\<lambda>p v. (wp_Key p, v)) ps vs = zip (map wp_Key ps) vs" for vs :: "'v list"
    by (simp only: zip_map1 case_prod_beta)
  then show ?thesis by (simp only: smap_decorated [of "\<lambda>p. Pair (wp_Key p)" dec wp_Value ps s zs t])
qed

lemma smap_pairs:
  "smap (\<lambda>e s. rbind (dec (f e) s) (\<lambda>(k, s). smapResult (\<lambda>v. (k, v)) (dec (g e) s))) es s = Inr (zs, t) \<longleftrightarrow>
   (\<exists>vs. smap dec (concat (map (\<lambda>e. [f e, g e]) es)) s = Inr (vs, t) \<and> zs = pairUp vs)"
proof (induction es arbitrary: s zs)
  case (Cons e es)
  show ?case
    by (auto simp: Cons.IH)
qed auto

lemma smap_present:
  "smap (\<lambda>(i, slot) s. if \<not> ws_Present slot then Inl (err i) else dec (ws_Value slot) s) (enumerate k slots) s = Inr (vs, t) \<longleftrightarrow>
   list_all ws_Present slots \<and> smap dec (map ws_Value slots) s = Inr (vs, t)"
  by (induction slots arbitrary: k s vs) (auto simp: list_all_iff split: if_splits)

lemma decodeArray_iff:
  "decodeArray dec n st = Inr (v, st') \<longleftrightarrow>
   list_all ws_Present (wn_Slots n) \<and> (\<exists>vs. smap dec (map ws_Value (wn_Slots n)) st = Inr (vs, st') \<and> v = ArrayType vs)"
  unfolding decodeArray_def smapResult_Inr by (subst smap_present) blast

lemma decodeNode_shape:
  "decodeNode tbl dec n st = Inr (v, st') \<longleftrightarrow>
   (\<exists>ws f vs. shape tbl n = Some (ws, f) \<and> smap dec ws st = Inr (vs, st') \<and> v = f vs)"
proof (cases "wn_Kind n")
  case nodeObject
  then show ?thesis by (auto simp: decodeNode_def shape_def decodeObject_def smap_keyed)
next
  case nodeTypedArray
  then show ?thesis by (auto simp: decodeNode_def shape_def split: sum.splits)
qed (auto simp: decodeNode_def shape_def decodeArray_iff decodeMap_def decodeSet_def smap_pairs split: if_splits)

subsection \<open>Trees\<close>

definition leafValue :: "wireValue \<Rightarrow> goValue option" where
  "leafValue w =
     (case wv_Kind w of
        valueUndefined \<Rightarrow> Some GoNil
      | valueNull \<Rightarrow> Some GoNil
      | valueBool \<Rightarrow> Some (GoBool (wv_Bool w))
      | valueNumber \<Rightarrow> Some (GoNumber (GoFloat64 (wv_Number w)))
      | valueString \<Rightarrow> Some (GoString (wv_Text w))
      | valueBigInt \<Rightarrow> if validateBigIntText (wv_Text w) = None then Some (BigIntType (wv_Text w)) else None
      | valueRef \<Rightarrow> None)"

inductive denotes :: "(32 word \<rightharpoonup> wireNode) \<Rightarrow> wireValue \<Rightarrow> goValue \<Rightarrow> 32 word list \<Rightarrow> bool"
  and denotesAll :: "(32 word \<rightharpoonup> wireNode) \<Rightarrow> wireValue list \<Rightarrow> goValue list \<Rightarrow> 32 word list \<Rightarrow> bool"
  for tbl where
  leaf: "leafValue w = Some v \<Longrightarrow> denotes tbl w v []"
| node: "wv_Kind w = valueRef \<Longrightarrow> tbl (wv_Ref w) = Some n \<Longrightarrow> shape tbl n = Some (ws, f) \<Longrightarrow>
    denotesAll tbl ws vs R \<Longrightarrow> denotes tbl w (f vs) (wv_Ref w # R)"
| none: "denotesAll tbl [] [] []"
| some: "denotes tbl w v R \<Longrightarrow> denotesAll tbl ws vs R' \<Longrightarrow> denotesAll tbl (w # ws) (v # vs) (R @ R')"

inductive_simps denotesAll_Nil [simp]: "denotesAll tbl [] vs R"
inductive_simps denotesAll_Cons: "denotesAll tbl (w # ws) vs R"
inductive_cases denotes_elim: "denotes tbl w v R"

lemma denotesAll_append:
  "denotesAll tbl (ws @ ws') vs R \<longleftrightarrow> (\<exists>us us' S S'. vs = us @ us' \<and> R = S @ S' \<and> denotesAll tbl ws us S \<and> denotesAll tbl ws' us' S')"
proof (induction ws arbitrary: vs R)
  case (Cons w ws)
  show ?case by (auto simp: denotesAll_Cons Cons.IH) (metis append_Cons append_assoc)+
qed auto

lemma denotesAll_length: "denotesAll tbl ws vs R \<Longrightarrow> length vs = length ws"
  by (induction ws arbitrary: vs R) (auto simp: denotesAll_Cons)

lemma denotes_dom:
  "denotes tbl w v R \<Longrightarrow> set R \<subseteq> dom tbl"
  "denotesAll tbl ws vs R \<Longrightarrow> set R \<subseteq> dom tbl"
  by (induction rule: denotes_denotesAll.inducts) auto

text \<open>Decoding a tree, and only a tree, succeeds.\<close>

lemma leafValue_None: "leafValue w = None \<and> wv_Kind w \<noteq> valueRef \<longrightarrow> wv_Kind w = valueBigInt \<and> validateBigIntText (wv_Text w) \<noteq> None"
  by (auto simp: leafValue_def split: valueKind.splits if_splits)

lemma decodeValue_leaf:
  "wv_Kind w \<noteq> valueRef \<Longrightarrow> decodeValue tbl (Suc fuel) w st = Inr (v, st') \<longleftrightarrow> leafValue w = Some v \<and> st' = st"
  by (auto simp: decodeValue.simps leafValue_def split: valueKind.splits option.splits if_splits)

lemma smap_sound:
  assumes "smap dec ws st = Inr (vs, st')"
    and "\<And>w st v st'. w \<in> set ws \<Longrightarrow> dec w st = Inr (v, st') \<Longrightarrow>
      \<exists>R. denotes tbl w v R \<and> distinct R \<and> set R \<inter> set (ds_seen st) = {} \<and> st' = st\<lparr>ds_seen := rev R @ ds_seen st\<rparr>"
  shows "\<exists>R. denotesAll tbl ws vs R \<and> distinct R \<and> set R \<inter> set (ds_seen st) = {} \<and> st' = st\<lparr>ds_seen := rev R @ ds_seen st\<rparr>"
  using assms
proof (induction ws arbitrary: vs st)
  case (Cons w ws)
  from Cons.prems(1) obtain v st1 us where w: "dec w st = Inr (v, st1)" and ws: "smap dec ws st1 = Inr (us, st')" and vs: "vs = v # us"
    by auto
  from Cons.prems(2) [OF _ w] obtain R where R: "denotes tbl w v R" "distinct R" "set R \<inter> set (ds_seen st) = {}"
      "st1 = st\<lparr>ds_seen := rev R @ ds_seen st\<rparr>" by auto
  from Cons.IH [OF ws Cons.prems(2)] obtain S where S: "denotesAll tbl ws us S" "distinct S" "set S \<inter> set (ds_seen st1) = {}"
      "st' = st1\<lparr>ds_seen := rev S @ ds_seen st1\<rparr>" by auto
  show ?case by (rule exI [of _ "R @ S"]) (use R S vs in \<open>auto intro: some\<close>)
qed auto

lemma decodeValue_sound:
  "decodeValue tbl fuel w st = Inr (v, st') \<Longrightarrow>
   \<exists>R. denotes tbl w v R \<and> distinct R \<and> set R \<inter> set (ds_seen st) = {} \<and> st' = st\<lparr>ds_seen := rev R @ ds_seen st\<rparr>"
proof (induction fuel arbitrary: w st v st')
  case (Suc fuel)
  show ?case
  proof (cases "wv_Kind w = valueRef")
    case False
    with Suc.prems have "leafValue w = Some v" "st' = st" by (simp_all add: decodeValue_leaf)
    then show ?thesis by (intro exI [of _ "[]"]) (auto intro: leaf)
  next
    case True
    let ?r = "wv_Ref w" and ?st = "st\<lparr>ds_seen := wv_Ref w # ds_seen st, ds_active := wv_Ref w # ds_active st\<rparr>"
    from Suc.prems True obtain n st1 where n: "tbl ?r = Some n" and r: "?r \<notin> set (ds_active st)" "?r \<notin> set (ds_seen st)"
      and dec: "decodeNode tbl (decodeValue tbl fuel) n ?st = Inr (v, st1)"
      and st': "st' = st1\<lparr>ds_active := removeAll ?r (ds_active st1)\<rparr>"
      by (auto simp: decodeValue.simps decodeRef_def split: option.splits if_splits)
    from dec obtain ws f vs where sh: "shape tbl n = Some (ws, f)" and sm: "smap (decodeValue tbl fuel) ws ?st = Inr (vs, st1)" and v: "v = f vs"
      by (auto simp: decodeNode_shape)
    from smap_sound [OF sm Suc.IH] obtain R where R: "denotesAll tbl ws vs R" "distinct R" "set R \<inter> set (ds_seen ?st) = {}"
        "st1 = ?st\<lparr>ds_seen := rev R @ ds_seen ?st\<rparr>" by auto
    have "denotes tbl w v (?r # R)" unfolding v by (rule node [OF True n sh R(1)])
    then show ?thesis using R r st' by (intro exI [of _ "?r # R"]) auto
  qed
qed (simp add: decodeValue.simps)

lemma decodeValue_complete:
  "denotes tbl w v R \<Longrightarrow> (\<And>st fuel. distinct R \<Longrightarrow> set R \<inter> set (ds_seen st) = {} \<Longrightarrow> set (ds_active st) \<subseteq> set (ds_seen st) \<Longrightarrow>
     length R < fuel \<Longrightarrow> decodeValue tbl fuel w st = Inr (v, st\<lparr>ds_seen := rev R @ ds_seen st\<rparr>))"
  "denotesAll tbl ws vs R \<Longrightarrow> (\<And>st fuel. distinct R \<Longrightarrow> set R \<inter> set (ds_seen st) = {} \<Longrightarrow> set (ds_active st) \<subseteq> set (ds_seen st) \<Longrightarrow>
     length R < fuel \<Longrightarrow> smap (decodeValue tbl fuel) ws st = Inr (vs, st\<lparr>ds_seen := rev R @ ds_seen st\<rparr>))"
proof (induction rule: denotes_denotesAll.inducts)
  case (leaf w v)
  then have "wv_Kind w \<noteq> valueRef" by (auto simp: leafValue_def)
  with leaf show ?case by (cases fuel) (auto simp: decodeValue_leaf)
next
  case (node w n ws f vs R)
  let ?r = "wv_Ref w" and ?st = "st\<lparr>ds_seen := wv_Ref w # ds_seen st, ds_active := wv_Ref w # ds_active st\<rparr>"
  obtain k where fuel: "fuel = Suc k" "length R < k" using node.prems(4) by (cases fuel) auto
  have "smap (decodeValue tbl k) ws ?st = Inr (vs, ?st\<lparr>ds_seen := rev R @ ds_seen ?st\<rparr>)"
    by (rule node.IH) (use node.prems fuel in auto)
  then have "decodeNode tbl (decodeValue tbl k) n ?st = Inr (f vs, ?st\<lparr>ds_seen := rev R @ ds_seen ?st\<rparr>)"
    using node(3) by (auto simp: decodeNode_shape)
  moreover have "?r \<notin> set (ds_active st)" "?r \<notin> set (ds_seen st)" using node.prems by auto
  ultimately show ?case using node(1,2) fuel by (simp add: decodeValue.simps decodeRef_def)
next
  case (some w v R ws vs R')
  have "decodeValue tbl fuel w st = Inr (v, st\<lparr>ds_seen := rev R @ ds_seen st\<rparr>)"
    by (rule some.IH) (use some.prems in auto)
  moreover have "smap (decodeValue tbl fuel) ws (st\<lparr>ds_seen := rev R @ ds_seen st\<rparr>) =
      Inr (vs, (st\<lparr>ds_seen := rev R @ ds_seen st\<rparr>)\<lparr>ds_seen := rev R' @ ds_seen (st\<lparr>ds_seen := rev R @ ds_seen st\<rparr>)\<rparr>)"
    by (rule some.IH) (use some.prems in auto)
  ultimately show ?case by simp
qed auto

subsection \<open>The decoder ends\<close>

lemma smapResult_Inl [simp]: "smapResult h r = Inl e \<longleftrightarrow> r = Inl e"
  by (auto simp: smapResult_def rbind_Inl_iff)

lemma smap_Inl:
  assumes "smap f xs s = Inl e" and "Q s"
    and "\<And>x s y s'. x \<in> set xs \<Longrightarrow> f x s = Inr (y, s') \<Longrightarrow> Q s \<Longrightarrow> Q s'"
  shows "\<exists>x \<in> set xs. \<exists>s'. Q s' \<and> f x s' = Inl e"
  using assms
proof (induction xs arbitrary: s)
  case (Cons x xs)
  show ?case
  proof (cases "f x s")
    case (Inl e')
    with Cons.prems show ?thesis by auto
  next
    case (Inr r)
    then obtain y t where f: "f x s = Inr (y, t)" by (cases r) auto
    with Cons.prems have "smap f xs t = Inl e" "Q t" by (auto simp: rbind_Inl_iff)
    moreover have "Q s'" if "y \<in> set xs" "f y s = Inr (z, s')" "Q s" for y s z s'
      by (rule Cons.prems(3) [of y s z s']) (use that in auto)
    ultimately have "\<exists>y \<in> set xs. \<exists>s'. Q s' \<and> f y s' = Inl e" by (rule Cons.IH)
    then show ?thesis by auto
  qed
qed simp

text \<open>A fuel error of a node comes from one of its parts.\<close>

lemma decodeNode_OutOfFuel:
  assumes err: "decodeNode tbl dec n st = Inl OutOfFuel" and Q: "Q st"
    and mono: "\<And>w st v st'. dec w st = Inr (v, st') \<Longrightarrow> Q st \<Longrightarrow> Q st'"
  shows "\<exists>w st'. Q st' \<and> dec w st' = Inl OutOfFuel"
proof (cases "wn_Kind n")
  case nodeObject
  with err have "smap (\<lambda>p s. smapResult (Pair (wp_Key p)) (dec (wp_Value p) s)) (wn_Props n) st = Inl OutOfFuel"
    by (auto simp: decodeNode_def decodeObject_def split: if_splits)
  from smap_Inl [OF this, where Q = Q] Q mono show ?thesis by fastforce
next
  case nodeArray
  with err have "smap (\<lambda>(i, slot) st. if \<not> ws_Present slot
      then Inl (WireFailure (ErrInvalidWire (''array hole at index '' @ showNat i @ '' cannot be represented by ArrayType'')))
      else dec (ws_Value slot) st) (enumerate 0 (wn_Slots n)) st = Inl OutOfFuel"
    by (simp add: decodeNode_def decodeArray_def)
  from smap_Inl [OF this, where Q = Q] Q mono show ?thesis by (fastforce split: if_splits)
next
  case nodeMap
  with err have "smap (\<lambda>e s. rbind (dec (we_Key e) s) (\<lambda>(k, s). smapResult (\<lambda>v. (k, v)) (dec (we_Value e) s))) (wn_Entries n) st = Inl OutOfFuel"
    by (simp add: decodeNode_def decodeMap_def)
  from smap_Inl [OF this, where Q = Q] Q mono
  have "\<exists>e \<in> set (wn_Entries n). \<exists>s. Q s \<and> rbind (dec (we_Key e) s) (\<lambda>(k, s). smapResult (\<lambda>v. (k, v)) (dec (we_Value e) s)) = Inl OutOfFuel"
    by fastforce
  then obtain e :: wireEntry and s where "Q s" "rbind (dec (we_Key e) s) (\<lambda>(k, s). smapResult (\<lambda>v. (k, v)) (dec (we_Value e) s)) = Inl OutOfFuel" by blast
  then show ?thesis by (auto simp: rbind_Inl_iff dest: mono)
next
  case nodeSet
  with err have "smap dec (wn_Values n) st = Inl OutOfFuel" by (simp add: decodeNode_def decodeSet_def)
  from smap_Inl [OF this, where Q = Q] Q mono show ?thesis by fastforce
next
  case nodeTypedArray
  with err show ?thesis
    by (auto simp: decodeNode_def decodeTypedArray_def typedArrayWindowBytes_def typedArrayModelFromBytes_def Let_def rbind_Inl_iff
        split: if_splits option.splits)
qed (use err in \<open>auto simp: decodeNode_def split: if_splits\<close>)

lemma decodeValue_fuel:
  "finite (dom tbl) \<Longrightarrow> card (dom tbl - set (ds_seen st)) < fuel \<Longrightarrow> decodeValue tbl fuel w st \<noteq> Inl OutOfFuel"
proof (induction fuel arbitrary: w st)
  case (Suc fuel)
  show ?case
  proof
    assume err: "decodeValue tbl (Suc fuel) w st = Inl OutOfFuel"
    let ?r = "wv_Ref w" and ?st = "st\<lparr>ds_seen := wv_Ref w # ds_seen st, ds_active := wv_Ref w # ds_active st\<rparr>"
    from err obtain n where n: "tbl ?r = Some n" "?r \<notin> set (ds_seen st)"
      and node: "decodeNode tbl (decodeValue tbl fuel) n ?st = Inl OutOfFuel"
      by (auto simp: decodeValue.simps decodeRef_def rbind_Inl_iff split: valueKind.splits option.splits if_splits)
    have "\<exists>w st'. set (ds_seen ?st) \<subseteq> set (ds_seen st') \<and> decodeValue tbl fuel w st' = Inl OutOfFuel"
      by (rule decodeNode_OutOfFuel [OF node, where Q = "\<lambda>s. set (ds_seen ?st) \<subseteq> set (ds_seen s)"]) (auto dest!: decodeValue_sound)
    then obtain w' st' where st': "set (ds_seen ?st) \<subseteq> set (ds_seen st')" and err': "decodeValue tbl fuel w' st' = Inl OutOfFuel"
      by auto
    have "dom tbl - set (ds_seen st') \<subset> dom tbl - set (ds_seen st)" using st' n by auto
    then have "card (dom tbl - set (ds_seen st')) < fuel"
      using Suc.prems by (meson finite_Diff less_le_trans not_less_eq psubset_card_mono leI less_trans)
    with Suc.IH Suc.prems(1) err' show False by blast
  qed
qed simp

lemma dom_nodeByID: "dom (nodeByID ns) = wn_ID ` set ns"
  using nodeByID_None [of ns] by (auto simp: dom_def)

lemma Decode_not_OutOfFuel: "Decode L raw \<noteq> Inl OutOfFuel"
proof
  assume err: "Decode L raw = Inl OutOfFuel"
  obtain g where "unmarshalGraph L raw = Inr g" using err by (cases "unmarshalGraph L raw") (auto simp: Decode_def ofWire_def)
  with err have "decodeValue (nodeByID (wg_Nodes g)) (Suc (length (wg_Nodes g))) (wg_Root g) \<lparr>ds_active = [], ds_seen = []\<rparr> = Inl OutOfFuel"
    by (auto simp: Decode_def ofWire_def rbind_Inl_iff)
  moreover have "card (wn_ID ` set (wg_Nodes g)) \<le> length (wg_Nodes g)"
    by (meson card_image_le card_length finite_set le_trans)
  ultimately show False
    using decodeValue_fuel [of "nodeByID (wg_Nodes g)" "\<lparr>ds_active = [], ds_seen = []\<rparr>"] by (auto simp: dom_nodeByID)
qed

text \<open>Decoding is finding the tree.\<close>

lemma Decode_iff:
  "Decode L raw = Inr v \<longleftrightarrow> (\<exists>g R. unmarshalGraph L raw = Inr g \<and> denotes (nodeByID (wg_Nodes g)) (wg_Root g) v R \<and> distinct R)"
  (is "?l \<longleftrightarrow> ?r")
proof
  assume ?l
  then obtain g st where g: "unmarshalGraph L raw = Inr g"
    and dec: "decodeValue (nodeByID (wg_Nodes g)) (Suc (length (wg_Nodes g))) (wg_Root g) \<lparr>ds_active = [], ds_seen = []\<rparr> = Inr (v, st)"
    by (auto simp: Decode_def ofWire_def split: sum.splits)
  from decodeValue_sound [OF dec] g show ?r by auto
next
  assume ?r
  then obtain g R where g: "unmarshalGraph L raw = Inr g" and R: "denotes (nodeByID (wg_Nodes g)) (wg_Root g) v R" "distinct R" by auto
  have "set R \<subseteq> dom (nodeByID (wg_Nodes g))" by (rule denotes_dom(1) [OF R(1)])
  then have "card (set R) \<le> card (wn_ID ` set (wg_Nodes g))" by (auto simp: dom_nodeByID intro: card_mono)
  also have "\<dots> \<le> length (wg_Nodes g)" by (meson card_image_le card_length finite_set le_trans)
  finally have "length R \<le> length (wg_Nodes g)" using R(2) by (simp add: distinct_card)
  with decodeValue_complete(1) [OF R, of "\<lparr>ds_active = [], ds_seen = []\<rparr>" "Suc (length (wg_Nodes g))"] g
  show ?l by (simp add: Decode_def ofWire_def)
qed

end
