(* ===== verification/Wire_Encode.thy ===== *)
theory Wire_Encode
  imports Wire_Typed
begin

text \<open>
  Renumbering and normalising a graph keeps the trees in it, up to the choice of
  NaN; and what the typed encoder appends to a graph denotes its argument in
  normal form (\<open>goNorm\<close>): integers become floating point numbers, times lose
  what is below a millisecond, maps are sorted.
\<close>

subsection \<open>Normal forms of Go values\<close>

definition canonNaN :: "float64 \<Rightarrow> float64" where
  "canonNaN f = (if IsNaN f then NaN else f)"

fun canonGo :: "goValue \<Rightarrow> goValue" where
  "canonGo (GoNumber (GoFloat64 f)) = GoNumber (GoFloat64 (canonNaN f))"
| "canonGo (ObjectType kvs) = ObjectType (map (\<lambda>(k, v). (k, canonGo v)) kvs)"
| "canonGo (ArrayType vs) = ArrayType (map canonGo vs)"
| "canonGo (MapType kvs) = MapType (map (\<lambda>(k, v). (canonGo k, canonGo v)) kvs)"
| "canonGo (SetType vs) = SetType (map canonGo vs)"
| "canonGo v = v"

lemma mapPut_map: "mapPut k (f v) (map (\<lambda>(k, v). (k, f v)) m) = map (\<lambda>(k, v). (k, f v)) (mapPut k v m)"
  by (induction m) auto

lemma mapOfList_map: "mapOfList (map (\<lambda>(k, v). (k, f v)) kvs) = map (\<lambda>(k, v). (k, f v)) (mapOfList kvs)"
proof -
  have "foldl (\<lambda>m (k, v). mapPut k v m) (map (\<lambda>(k, v). (k, f v)) acc) (map (\<lambda>(k, v). (k, f v)) kvs) =
      map (\<lambda>(k, v). (k, f v)) (foldl (\<lambda>m (k, v). mapPut k v m) acc kvs)" for acc
    by (induction kvs arbitrary: acc) (auto simp: mapPut_map)
  from this [of "[]"] show ?thesis by (simp add: mapOfList_def)
qed

lemma zip_map_snd: "zip ks (map f vs) = map (\<lambda>(k, v). (k, f v)) (zip ks vs)"
  by (simp add: zip_map2)

lemma pairUp_map: "pairUp (map f xs) = map (\<lambda>(k, v). (f k, f v)) (pairUp xs)"
  by (induction xs rule: pairUp.induct) auto

subsection \<open>Renumbering\<close>

definition remapV :: "(32 word \<Rightarrow> 32 word) \<Rightarrow> wireValue \<Rightarrow> wireValue" where
  "remapV \<rho> w = (if wv_Kind w = valueRef then w\<lparr>wv_Ref := \<rho> (wv_Ref w)\<rparr> else w)"

definition remapN :: "(32 word \<Rightarrow> 32 word) \<Rightarrow> wireNode \<Rightarrow> wireNode" where
  "remapN \<rho> n = n\<lparr>wn_ID := \<rho> (wn_ID n),
     wn_Props := map (\<lambda>p. p\<lparr>wp_Value := remapV \<rho> (wp_Value p)\<rparr>) (wn_Props n),
     wn_Slots := map (\<lambda>s. if ws_Present s then s\<lparr>ws_Value := remapV \<rho> (ws_Value s)\<rparr> else s) (wn_Slots n),
     wn_Entries := map (\<lambda>e. \<lparr>we_Key = remapV \<rho> (we_Key e), we_Value = remapV \<rho> (we_Value e)\<rparr>) (wn_Entries n),
     wn_Values := map (remapV \<rho>) (wn_Values n), wn_Buffer := remapV \<rho> (wn_Buffer n),
     wn_Promise := remapV \<rho> (wn_Promise n), wn_Cause := remapV \<rho> (wn_Cause n)\<rparr>"

text \<open>All references a node holds, whatever its kind; \<open>remapWireNode\<close> needs them renumbered.\<close>

definition heldValues :: "wireNode \<Rightarrow> wireValue list" where
  "heldValues n = map wp_Value (wn_Props n) @ map ws_Value (filter ws_Present (wn_Slots n)) @
     concat (map (\<lambda>e. [we_Key e, we_Value e]) (wn_Entries n)) @ wn_Values n @ [wn_Buffer n, wn_Promise n, wn_Cause n]"

definition refsOf :: "wireValue list \<Rightarrow> 32 word set" where
  "refsOf ws = wv_Ref ` {w \<in> set ws. wv_Kind w = valueRef}"

lemma refsOf_simps [simp]:
  "refsOf [] = {}" "refsOf (w # ws) = (if wv_Kind w = valueRef then {wv_Ref w} else {}) \<union> refsOf ws"
  "refsOf (us @ ws) = refsOf us \<union> refsOf ws"
  by (auto simp: refsOf_def)

lemma remapWireValue_total:
  "refsOf [w] \<subseteq> dom m \<Longrightarrow> remapWireValue m w = Inr (remapV (the \<circ> m) w)"
  by (auto simp: remapWireValue_def remapV_def split: option.splits if_splits)

lemma remapWireNode_total:
  assumes "wn_ID n \<in> dom m" and "refsOf (heldValues n) \<subseteq> dom m"
  shows "remapWireNode m n = Inr (remapN (the \<circ> m) n)"
proof -
  obtain nid where nid: "m (wn_ID n) = Some nid" using assms(1) by auto
  have held: "remapWireValue m w = Inr (remapV (the \<circ> m) w)" if "w \<in> set (heldValues n)" for w
    by (rule remapWireValue_total) (use assms(2) that in \<open>auto simp: refsOf_def\<close>)
  have "rmap (\<lambda>p. rbind (remapWireValue m (wp_Value p)) (\<lambda>v. Inr (p\<lparr>wp_Value := v\<rparr>))) (wn_Props n) =
      Inr (map (\<lambda>p. p\<lparr>wp_Value := remapV (the \<circ> m) (wp_Value p)\<rparr>) (wn_Props n))"
    by (rule rmap_total_Inr) (simp add: held heldValues_def)
  moreover have "rmap (\<lambda>s. if ws_Present s then rbind (remapWireValue m (ws_Value s)) (\<lambda>v. Inr (s\<lparr>ws_Value := v\<rparr>)) else Inr s) (wn_Slots n) =
      Inr (map (\<lambda>s. if ws_Present s then s\<lparr>ws_Value := remapV (the \<circ> m) (ws_Value s)\<rparr> else s) (wn_Slots n))"
    by (rule rmap_total_Inr) (simp add: held heldValues_def)
  moreover have "rmap (\<lambda>e. rbind (remapWireValue m (we_Key e)) (\<lambda>k. rbind (remapWireValue m (we_Value e)) (\<lambda>v.
        Inr \<lparr>we_Key = k, we_Value = v\<rparr>))) (wn_Entries n) =
      Inr (map (\<lambda>e. \<lparr>we_Key = remapV (the \<circ> m) (we_Key e), we_Value = remapV (the \<circ> m) (we_Value e)\<rparr>) (wn_Entries n))"
  proof (rule rmap_total_Inr)
    fix e assume e: "e \<in> set (wn_Entries n)"
    have "remapWireValue m (we_Key e) = Inr (remapV (the \<circ> m) (we_Key e))"
      "remapWireValue m (we_Value e) = Inr (remapV (the \<circ> m) (we_Value e))"
      by (rule held, use e in \<open>force simp: heldValues_def\<close>)+
    then show "rbind (remapWireValue m (we_Key e)) (\<lambda>k. rbind (remapWireValue m (we_Value e)) (\<lambda>v. Inr \<lparr>we_Key = k, we_Value = v\<rparr>)) =
        Inr \<lparr>we_Key = remapV (the \<circ> m) (we_Key e), we_Value = remapV (the \<circ> m) (we_Value e)\<rparr>" by simp
  qed
  moreover have "rmap (remapWireValue m) (wn_Values n) = Inr (map (remapV (the \<circ> m)) (wn_Values n))"
    by (rule rmap_total_Inr) (simp add: held heldValues_def)
  ultimately show ?thesis
    using nid by (simp add: remapWireNode_def copyWireNode_def remapN_def held heldValues_def Let_def)
qed

subsection \<open>Trees in a renumbered, normalised graph\<close>

lemma leafValue_norm: "leafValue w = Some v \<Longrightarrow> leafValue (normValue (remapV \<rho> w)) = Some (canonGo v)"
  by (auto simp: leafValue_def normValue_def remapV_def canonNaN_def Let_def zeroValue_def split: valueKind.splits if_splits)

text \<open>\<open>copied src \<rho> tbl\<close>: the nodes of \<open>src\<close> are in \<open>tbl\<close> under new identifiers, in normal form.\<close>

definition copied :: "(32 word \<rightharpoonup> wireNode) \<Rightarrow> (32 word \<Rightarrow> 32 word) \<Rightarrow> (32 word \<rightharpoonup> wireNode) \<Rightarrow> bool" where
  "copied src \<rho> tbl \<longleftrightarrow> (\<forall>r n. src r = Some n \<longrightarrow> tbl (\<rho> r) = Some (normNode (remapN \<rho> n)))"

lemma remapV_sel [simp]: "wv_Kind (remapV \<rho> w) = wv_Kind w" "wv_Kind w = valueRef \<Longrightarrow> wv_Ref (remapV \<rho> w) = \<rho> (wv_Ref w)"
  by (simp_all add: remapV_def)

lemma remapN_sel [simp]:
  "wn_Kind (remapN \<rho> n) = wn_Kind n" "wn_ID (remapN \<rho> n) = \<rho> (wn_ID n)" "wn_TextA (remapN \<rho> n) = wn_TextA n"
  "wn_TextB (remapN \<rho> n) = wn_TextB n" "wn_Bytes (remapN \<rho> n) = wn_Bytes n" "wn_Buffer (remapN \<rho> n) = remapV \<rho> (wn_Buffer n)"
  "wn_ByteOffset (remapN \<rho> n) = wn_ByteOffset n" "wn_ByteLength (remapN \<rho> n) = wn_ByteLength n"
  "wn_DateValid (remapN \<rho> n) = wn_DateValid n" "wn_DateMS (remapN \<rho> n) = wn_DateMS n"
  by (simp_all add: remapN_def)

lemma decodeTypedArray_copied:
  assumes "copied src \<rho> tbl" and "wn_Kind n = nodeTypedArray" and "decodeTypedArray src n = Inr v"
  shows "decodeTypedArray tbl (normNode (remapN \<rho> n)) = Inr v \<and> canonGo v = v"
proof -
  from assms(3) obtain b raw where b: "src (wv_Ref (wn_Buffer n)) = Some b" "wn_Kind b = nodeArrayBuffer"
    and raw: "typedArrayWindowBytes n b = Inr raw" "typedArrayModelFromBytes (wn_TextA n) raw = Inr v"
    and k: "wv_Kind (wn_Buffer n) = valueRef" "wn_TextA n \<noteq> ''DataView''"
    by (auto simp: decodeTypedArray_def split: if_splits option.splits)
  have "tbl (\<rho> (wv_Ref (wn_Buffer n))) = Some (normNode (remapN \<rho> b))" using assms(1) b(1) by (auto simp: copied_def)
  moreover have "typedArrayWindowBytes (normNode (remapN \<rho> n)) (normNode (remapN \<rho> b)) = typedArrayWindowBytes n b"
    using assms(2) b(2) by (simp add: typedArrayWindowBytes_def Let_def)
  ultimately have "decodeTypedArray tbl (normNode (remapN \<rho> n)) = Inr v"
    using assms(2) b raw k by (simp add: decodeTypedArray_def)
  moreover have "canonGo v = v"
    using raw(2) by (auto simp: typedArrayModelFromBytes_def Let_def split: if_splits)
  ultimately show ?thesis ..
qed

lemma shape_copied:
  assumes cp: "copied src \<rho> tbl" and sh: "shape src n = Some (ws, f)"
  shows "\<exists>g. shape tbl (normNode (remapN \<rho> n)) = Some (map (\<lambda>w. normValue (remapV \<rho> w)) ws, g) \<and>
    (\<forall>vs. g (map canonGo vs) = canonGo (f vs))"
proof (cases "wn_Kind n")
  case nodeTypedArray
  then show ?thesis using sh decodeTypedArray_copied [OF cp nodeTypedArray] by (auto simp: shape_def split: sum.splits)
qed (use sh in \<open>auto simp: shape_def normNode_def normBody_def remapN_def normProp_def normSlot_def normEntry_def zeroNode_def Let_def
    comp_def map_concat list_all_iff zip_map_snd mapOfList_map pairUp_map split: if_splits\<close>)

lemma denotes_copied:
  "denotes src w v R \<Longrightarrow> copied src \<rho> tbl \<Longrightarrow> denotes tbl (normValue (remapV \<rho> w)) (canonGo v) (map \<rho> R)"
  "denotesAll src ws vs R \<Longrightarrow> copied src \<rho> tbl \<Longrightarrow>
     denotesAll tbl (map (\<lambda>w. normValue (remapV \<rho> w)) ws) (map canonGo vs) (map \<rho> R)"
proof (induction rule: denotes_denotesAll.inducts)
  case (leaf w v)
  from leaf(1) show ?case by (auto intro: denotes_denotesAll.leaf leafValue_norm)
next
  case (node w n ws f vs R)
  let ?w = "normValue (remapV \<rho> w)"
  from shape_copied [OF node(6,3)] obtain g where g: "shape tbl (normNode (remapN \<rho> n)) = Some (map (\<lambda>w. normValue (remapV \<rho> w)) ws, g)"
    "g (map canonGo vs) = canonGo (f vs)" by auto
  have "denotes tbl ?w (g (map canonGo vs)) (wv_Ref ?w # map \<rho> R)"
    by (rule denotes_denotesAll.node [OF _ _ g(1)]) (use node in \<open>auto simp: copied_def\<close>)
  with g(2) node(1) show ?case by simp
qed (auto intro: denotes_denotesAll.intros)

subsection \<open>Appending a graph\<close>

text \<open>The fields of other kinds are empty in a decoded node.\<close>

definition ownFields :: "wireNode \<Rightarrow> bool" where
  "ownFields n \<longleftrightarrow> (wn_Kind n \<noteq> nodeArray \<longrightarrow> wn_Slots n = []) \<and> (wn_Kind n \<noteq> nodeMap \<longrightarrow> wn_Entries n = []) \<and>
     (wn_Kind n \<noteq> nodeSet \<longrightarrow> wn_Values n = []) \<and> (wn_Kind n \<noteq> nodeTypedArray \<longrightarrow> wn_Buffer n = zeroValue) \<and>
     (wn_Kind n \<noteq> nodePromise \<longrightarrow> wn_Promise n = zeroValue) \<and> (wn_Kind n \<noteq> nodeError \<longrightarrow> wn_Cause n = zeroValue)"

lemma yields_any: "musLib_ok L \<Longrightarrow> yields (unmarshalValue L) (\<lambda>_. True)"
  by (rule yields_mono [OF yields_Value]) simp_all

lemma yields_ownBody:
  assumes L: "musLib_ok L"
  shows "yields (unmarshalBody L (zeroNode\<lparr>wn_ID := nid, wn_Kind := kind\<rparr>)) ownFields"
  by (cases kind)
     (auto simp: unmarshalBody_def ownFields_def zeroNode_def
        intro!: yields_rok yields_rthen [OF yields_Text(1) [OF L]] yields_rthen [OF yields_Text(2) [OF L]]
          yields_rthen [OF yields_Value [OF L]] yields_rthen [OF yields_U32 [OF L]]
          yields_rthen [OF yields_mus [OF musLib_okD(1) [OF L]]] yields_rthen [OF yields_mus [OF musLib_okD(3) [OF L]]]
          yields_counted [OF L yields_Slot [OF L]] yields_counted [OF L yields_Entry [OF L]]
          yields_counted [OF L yields_Value [OF L]])

lemma yields_ownNode:
  assumes L: "musLib_ok L"
  shows "yields (unmarshalNode L) ownFields"
  unfolding unmarshalNode_def
  by (rule yields_rthen [OF yields_U32 [OF L]], rule yields_rthen [OF yields_mus [OF musLib_okD(1) [OF L]]],
      rule yields_rthen [OF yields_kindOf], rule yields_rthen [OF yields_ownBody [OF L]], rule yields_rthen [OF yields_Props [OF L]])
     (auto simp: ownFields_def intro!: yields_rok)

lemma unmarshalGraph_ownFields:
  assumes L: "musLib_ok L" and dec: "unmarshalGraph L bs = Inr g" and n: "n \<in> set (wg_Nodes g)"
  shows "ownFields n"
proof -
  have "yields (rthen (unmarshalValue L) (\<lambda>root. rthen (unmarshalLen L) (\<lambda>count. rthen (makeSlice 304 count) (\<lambda>count.
      rthen (readTimes count (unmarshalNode L)) (\<lambda>nodes. rok \<lparr>wg_Root = root, wg_Nodes = nodes\<rparr>)))))
      (\<lambda>g. list_all ownFields (wg_Nodes g))"
    by (rule yields_rthen [OF yields_Value [OF L]], rule yields_counted [OF L yields_ownNode [OF L]])
       (auto intro!: yields_rok)
  moreover obtain body m where "rthen (unmarshalValue L) (\<lambda>root. rthen (unmarshalLen L) (\<lambda>count. rthen (makeSlice 304 count) (\<lambda>count.
      rthen (readTimes count (unmarshalNode L)) (\<lambda>nodes. rok \<lparr>wg_Root = root, wg_Nodes = nodes\<rparr>)))) body = Inr (g, m)"
    using dec by (auto simp: unmarshalGraph_def split: list.splits if_splits option.splits)
  ultimately show ?thesis using n by (auto simp: yields_def list_all_iff)
qed

lemma validateWireValue_None: "validateWireValue tbl w = None \<longleftrightarrow> refsOf [w] \<subseteq> dom tbl"
  by (auto simp: validateWireValue_def)

lemma refsOf_subset: "refsOf ws \<subseteq> A \<longleftrightarrow> (\<forall>w \<in> set ws. refsOf [w] \<subseteq> A)"
  by (auto simp: refsOf_def)

lemma validate_zeroValue [simp]: "validateWireValue tbl zeroValue = None"
  by (simp add: validateWireValue_def zeroValue_def)

lemma held_valid:
  assumes "validateWireNode tbl n = None" and "ownFields n"
  shows "refsOf (heldValues n) \<subseteq> dom tbl"
proof -
  have "validateWireValue tbl w = None" if "w \<in> set (heldValues n)" for w
    using assms that
    by (cases "wn_Kind n")
       (auto simp: validateWireNode_def heldValues_def ownFields_def firstErr_None Let_def
          validateWireValue_def [of _ "wn_Buffer n"] split: option.splits if_splits)
  then show ?thesis by (subst refsOf_subset) (simp only: validateWireValue_None, blast)
qed

lemma remapIDs_ok:
  assumes "1 \<le> k" and "k + length ns \<le> 2 ^ 32" and "distinct (map wn_ID ns)"
  shows "\<exists>m'. remapIDs ns m (of_nat k) = Inr (m', of_nat (k + length ns)) \<and> dom m' = dom m \<union> wn_ID ` set ns \<and>
    (\<forall>r. r \<notin> wn_ID ` set ns \<longrightarrow> m' r = m r) \<and> map (the \<circ> m') (map wn_ID ns) = map of_nat [k ..< k + length ns]"
  using assms
proof (induction ns arbitrary: k m)
  case (Cons n ns)
  have nz: "of_nat k \<noteq> (0 :: 32 word)"
  proof
    assume "of_nat k = (0 :: 32 word)"
    then have "k mod 2 ^ 32 = 0" by (simp add: word_of_nat_eq_0_iff mod_eq_0_iff_dvd)
    with Cons.prems show False by simp
  qed
  have "1 \<le> Suc k" "Suc k + length ns \<le> 2 ^ 32" "distinct (map wn_ID ns)" using Cons.prems by auto
  from Cons.IH [OF this, of "m(wn_ID n \<mapsto> of_nat k)"] obtain m' where
    m': "remapIDs ns (m(wn_ID n \<mapsto> of_nat k)) (of_nat (Suc k)) = Inr (m', of_nat (Suc k + length ns))"
    "dom m' = dom (m(wn_ID n \<mapsto> of_nat k)) \<union> wn_ID ` set ns"
    "\<forall>r. r \<notin> wn_ID ` set ns \<longrightarrow> m' r = (m(wn_ID n \<mapsto> of_nat k)) r"
    "map (the \<circ> m') (map wn_ID ns) = map of_nat [Suc k ..< Suc k + length ns]" by blast
  have "m' (wn_ID n) = Some (of_nat k)" using m'(3) Cons.prems(3) by auto
  moreover have "map of_nat [k ..< k + length (n # ns)] = (of_nat k :: 32 word) # map of_nat [Suc k ..< Suc k + length ns]"
    by (simp add: upt_conv_Cons del: upt_Suc)
  ultimately show ?case
    using nz m' by (intro exI [of _ m']) (auto simp: ac_simps comp_def simp del: upt_Suc)
qed auto

lemma of_nat_inj32: "inj_on (of_nat :: nat \<Rightarrow> 32 word) {..<2 ^ 32}"
proof (rule inj_onI)
  fix a b :: nat assume ab: "a \<in> {..<2 ^ 32}" "b \<in> {..<2 ^ 32}" "of_nat a = (of_nat b :: 32 word)"
  have "unat (of_nat a :: 32 word) = a" "unat (of_nat b :: 32 word) = b"
    using ab(1,2) by (simp_all add: unsigned_of_nat take_bit_nat_eq_self)
  with ab(3) show "a = b" by metis
qed

end
