(* ===== verification/Wire_Emit.thy ===== *)
theory Wire_Emit
  imports Wire_Encode
begin

text \<open>
  What the typed encoder adds to the graph it builds. \<open>emitted k k' b b' ws T gs\<close>:
  from the builder \<open>b\<close> at identifier \<open>k\<close> to \<open>b'\<close> at \<open>k'\<close>, nodes with the
  identifiers in between were added that are valid among themselves, and if \<open>T\<close>
  then \<open>ws\<close> denotes \<open>gs\<close> there. The relation composes along a traversal.
\<close>

definition holds :: "(32 word \<rightharpoonup> wireNode) \<Rightarrow> wireNode list \<Rightarrow> bool" where
  "holds tbl ns \<longleftrightarrow> (\<forall>n \<in> set ns. tbl (wn_ID n) = Some n)"

definition emitted :: "nat \<Rightarrow> nat \<Rightarrow> graphBuilder \<Rightarrow> graphBuilder \<Rightarrow> wireValue list \<Rightarrow> bool \<Rightarrow> goValue list \<Rightarrow> bool" where
  "emitted k k' b b' ws T gs \<longleftrightarrow> k \<le> k' \<and> gb_nextID b' = of_nat k' \<and>
     (\<exists>new. gb_nodes b' = gb_nodes b @ new \<and> map wn_ID new = map of_nat [k ..< k'] \<and> list_all fitsNode new \<and> list_all fitsValue ws \<and>
       (\<forall>tbl. holds tbl new \<longrightarrow> list_all (\<lambda>n. validateWireNode tbl n = None) new \<and> list_all (\<lambda>w. validateWireValue tbl w = None) ws) \<and>
       (T \<longrightarrow> (\<exists>R. distinct R \<and> set R \<subseteq> of_nat ` {k ..< k'} \<and>
          (\<forall>tbl. holds tbl (map normNode new) \<longrightarrow> denotesAll tbl (map normValue ws) gs R))))"

lemma denotesAll_appendI:
  "denotesAll tbl ws us S \<Longrightarrow> denotesAll tbl ws' us' S' \<Longrightarrow> denotesAll tbl (ws @ ws') (us @ us') (S @ S')"
  by (auto simp: denotesAll_append)

lemma holds_append [simp]: "holds tbl (us @ vs) \<longleftrightarrow> holds tbl us \<and> holds tbl vs"
  by (auto simp: holds_def)

lemma emitted_nil: "gb_nextID b = of_nat k \<Longrightarrow> emitted k k b b [] T []"
  unfolding emitted_def by (intro conjI impI exI [of _ "[]"] order_refl) auto

lemma emitted_append:
  assumes "emitted k k1 b b1 ws T gs" and "emitted k1 k2 b1 b2 ws' T' gs'" and "k2 \<le> 2 ^ 32"
  shows "emitted k k2 b b2 (ws @ ws') (T \<and> T') (gs @ gs')"
proof -
  from assms(1) obtain new where 1: "k \<le> k1" "gb_nodes b1 = gb_nodes b @ new" "map wn_ID new = map of_nat [k ..< k1]"
      "list_all fitsNode new" "list_all fitsValue ws"
      "\<And>tbl. holds tbl new \<Longrightarrow> list_all (\<lambda>n. validateWireNode tbl n = None) new \<and> list_all (\<lambda>w. validateWireValue tbl w = None) ws"
    and T: "T \<longrightarrow> (\<exists>R. distinct R \<and> set R \<subseteq> of_nat ` {k ..< k1} \<and>
          (\<forall>tbl. holds tbl (map normNode new) \<longrightarrow> denotesAll tbl (map normValue ws) gs R))"
    unfolding emitted_def by blast
  from assms(2) obtain new' where 2: "k1 \<le> k2" "gb_nextID b2 = of_nat k2" "gb_nodes b2 = gb_nodes b1 @ new'"
      "map wn_ID new' = map of_nat [k1 ..< k2]" "list_all fitsNode new'" "list_all fitsValue ws'"
      "\<And>tbl. holds tbl new' \<Longrightarrow> list_all (\<lambda>n. validateWireNode tbl n = None) new' \<and> list_all (\<lambda>w. validateWireValue tbl w = None) ws'"
    and T': "T' \<longrightarrow> (\<exists>R. distinct R \<and> set R \<subseteq> of_nat ` {k1 ..< k2} \<and>
          (\<forall>tbl. holds tbl (map normNode new') \<longrightarrow> denotesAll tbl (map normValue ws') gs' R))"
    unfolding emitted_def by blast
  have "map wn_ID (new @ new') = map of_nat [k ..< k2]"
    using 1(1,3) 2(1,4) upt_add_eq_append [of k k1 "k2 - k1"] by simp
  moreover have "\<exists>R. distinct R \<and> set R \<subseteq> of_nat ` {k ..< k2} \<and>
      (\<forall>tbl. holds tbl (map normNode (new @ new')) \<longrightarrow> denotesAll tbl (map normValue (ws @ ws')) (gs @ gs') R)" if "T" "T'"
  proof -
    from T that obtain R where R: "distinct R" "set R \<subseteq> of_nat ` {k ..< k1}"
      "\<forall>tbl. holds tbl (map normNode new) \<longrightarrow> denotesAll tbl (map normValue ws) gs R" by auto
    from T' that obtain R' where R': "distinct R'" "set R' \<subseteq> of_nat ` {k1 ..< k2}"
      "\<forall>tbl. holds tbl (map normNode new') \<longrightarrow> denotesAll tbl (map normValue ws') gs' R'" by auto
    have "(of_nat ` {k ..< k1} :: 32 word set) \<inter> of_nat ` {k1 ..< k2} = of_nat ` ({k ..< k1} \<inter> {k1 ..< k2})"
      by (rule inj_on_image_Int [OF of_nat_inj32, symmetric]) (use assms(3) 2(1) in auto)
    then have "set R \<inter> set R' = {}" using R(2) R'(2) by auto
    moreover have "(of_nat ` {k ..< k1} :: 32 word set) \<subseteq> of_nat ` {k ..< k2}" "(of_nat ` {k1 ..< k2} :: 32 word set) \<subseteq> of_nat ` {k ..< k2}"
      using 1(1) 2(1) by (auto intro!: image_mono)
    ultimately show ?thesis using R R'
      by (intro exI [of _ "R @ R'"]) (auto intro: denotesAll_appendI)
  qed
  ultimately show ?thesis
    unfolding emitted_def using 1 2 by (intro conjI exI [of _ "new @ new'"]) (auto simp: list_all_iff)
qed

text \<open>A value that is no reference.\<close>

lemma emitted_leaf:
  assumes "gb_nextID b = of_nat k" and "leafValue w = Some v" and "fitsValue w"
  shows "emitted k k b b [w] T [canonGo v]"
proof -
  have k: "wv_Kind w \<noteq> valueRef" using assms(2) by (auto simp: leafValue_def)
  have "leafValue (normValue w) = Some (canonGo v)"
    using leafValue_norm [OF assms(2), of "\<lambda>r. r"] k by (simp add: remapV_def)
  then have "denotesAll tbl [normValue w] [canonGo v] ([] @ [])" for tbl
    by (intro denotes_denotesAll.intros)
  then show ?thesis
    unfolding emitted_def using assms k by (intro conjI exI [of _ "[]"]) (auto simp: validateWireValue_def)
qed

text \<open>A node added on top of its parts.\<close>

lemma of_nat_nz: "1 \<le> k \<Longrightarrow> k < 2 ^ 32 \<Longrightarrow> (of_nat k :: 32 word) \<noteq> 0"
  using of_nat_inj32 [THEN inj_onD, of k 0] by auto

lemma addNode_ok:
  assumes "gb_nextID b = of_nat k" and "1 \<le> k" and "k < 2 ^ 32"
  shows "addNode node b = Inr (refValue (of_nat k), \<lparr>gb_nextID = of_nat (Suc k), gb_nodes = gb_nodes b @ [node\<lparr>wn_ID := of_nat k\<rparr>]\<rparr>)"
  using assms of_nat_nz [OF assms(2,3)] by (cases b) (simp add: addNode_def ac_simps)

lemma normValue_ref [simp]: "normValue (refValue r) = refValue r" "wv_Kind (refValue r) = valueRef" "wv_Ref (refValue r) = r"
  "fitsValue (refValue r)"
  by (simp_all add: normValue_def refValue_def zeroValue_def Let_def fitsValue_def)

lemma emitted_node:
  assumes parts: "emitted k k1 b b1 ws T gs" and k: "1 \<le> k" "k1 < 2 ^ 32"
    and add: "addNode node b1 = Inr (w, b2)"
    and fits: "list_all fitsValue ws \<Longrightarrow> fitsNode node"
    and valid: "\<And>tbl nid. list_all (\<lambda>w. validateWireValue tbl w = None) ws \<Longrightarrow> validateWireNode tbl (node\<lparr>wn_ID := nid\<rparr>) = None"
    and shape: "\<And>tbl nid. length gs = length ws \<Longrightarrow> T \<Longrightarrow>
      \<exists>f. shape tbl (normNode (node\<lparr>wn_ID := nid\<rparr>)) = Some (map normValue ws, f) \<and> f gs = g"
  shows "emitted k (Suc k1) b b2 [w] T [g]"
proof -
  from parts obtain new where 1: "k \<le> k1" "gb_nextID b1 = of_nat k1" "gb_nodes b1 = gb_nodes b @ new" "map wn_ID new = map of_nat [k ..< k1]"
      "list_all fitsNode new" "list_all fitsValue ws"
      "\<And>tbl. holds tbl new \<Longrightarrow> list_all (\<lambda>n. validateWireNode tbl n = None) new \<and> list_all (\<lambda>w. validateWireValue tbl w = None) ws"
    and T: "T \<longrightarrow> (\<exists>R. distinct R \<and> set R \<subseteq> of_nat ` {k ..< k1} \<and>
          (\<forall>tbl. holds tbl (map normNode new) \<longrightarrow> denotesAll tbl (map normValue ws) gs R))"
    unfolding emitted_def by blast
  let ?r = "of_nat k1 :: 32 word" and ?n = "node\<lparr>wn_ID := of_nat k1\<rparr>"
  from addNode_ok [OF 1(2), of node] k 1(1) add
  have w: "w = refValue ?r" and b2: "b2 = \<lparr>gb_nextID = of_nat (Suc k1), gb_nodes = gb_nodes b1 @ [?n]\<rparr>" by simp_all
  have fits: "fitsNode ?n" using fits [OF 1(6)] by (simp add: fitsNode_def)
  have valid: "list_all (\<lambda>n. validateWireNode tbl n = None) (new @ [?n]) \<and> list_all (\<lambda>w. validateWireValue tbl w = None) [w]"
    if "holds tbl (new @ [?n])" for tbl
    using 1(7) [of tbl] that valid [of tbl ?r] w by (auto simp: holds_def validateWireValue_None dom_def)
  have denotes: "\<exists>R. distinct R \<and> set R \<subseteq> of_nat ` {k ..< Suc k1} \<and>
      (\<forall>tbl. holds tbl (map normNode (new @ [?n])) \<longrightarrow> denotesAll tbl (map normValue [w]) [g] R)" if T
  proof -
    from T that obtain R where R: "distinct R" "set R \<subseteq> of_nat ` {k ..< k1}"
      "\<And>tbl. holds tbl (map normNode new) \<Longrightarrow> denotesAll tbl (map normValue ws) gs R" by auto
    have "?r \<notin> of_nat ` {k ..< k1}"
    proof
      assume "?r \<in> of_nat ` {k ..< k1}"
      then obtain x where x: "x \<in> {k ..< k1}" "?r = of_nat x" by auto
      have "k1 = x" by (rule of_nat_inj32 [THEN inj_onD, OF x(2)]) (use x k in auto)
      with x show False by simp
    qed
    with R(1,2) have "distinct (?r # R)" by auto
    moreover have "denotesAll tbl [normValue w] [g] ((?r # R) @ [])" if h: "holds tbl (map normNode (new @ [?n]))" for tbl
    proof -
      have den: "denotesAll tbl (map normValue ws) gs R" using R(3) h by simp
      obtain f where f: "shape tbl (normNode ?n) = Some (map normValue ws, f)" "f gs = g"
        using shape [of tbl ?r] denotesAll_length [OF den] \<open>T\<close> by auto
      have "denotes tbl (refValue ?r) (f gs) (wv_Ref (refValue ?r) # R)"
        by (rule node [OF _ _ f(1) den]) (use h in \<open>auto simp: holds_def\<close>)
      then have "denotes tbl (normValue w) g (?r # R)" by (simp add: f(2) w)
      then show ?thesis by (intro some none)
    qed
    moreover have "?r \<in> of_nat ` {k ..< Suc k1}" using 1(1) by auto
    ultimately show ?thesis using R(2) by (intro exI [of _ "?r # R"]) auto
  qed
  show ?thesis
    unfolding emitted_def using 1 b2 fits valid denotes w by (intro conjI exI [of _ "new @ [?n]"]) auto
qed

end
