(* ===== verification/Wire_Append.thy ===== *)
theory Wire_Append
  imports Wire_Emit
begin

text \<open>
  Appending a decoded graph to another one: its nodes get the next free
  identifiers, stay valid, and denote what they denoted.
\<close>

lemma validateWireNode_refs:
  assumes "validateWireNode tbl n = None" and "ownFields n" and "w \<in> set (heldValues n)"
  shows "validateWireValue tbl w = None"
  using held_valid [OF assms(1,2)] assms(3) by (auto simp: validateWireValue_None refsOf_def)

lemma validate_typedArray:
  assumes "firstErr (\<lambda>p. validateWireValue tbl (wp_Value p)) (wn_Props n) = None" and "wn_Kind n = nodeTypedArray"
    and "wv_Kind (wn_Buffer n) = valueRef"
    and "tbl (wv_Ref (wn_Buffer n)) = Some b" and "wn_Kind b = nodeArrayBuffer" and "bytesPerElement (wn_TextA n) \<noteq> 0"
    and "wn_ByteLength n mod bytesPerElement (wn_TextA n) = 0"
    and "\<not> of_nat (length (wn_Bytes b)) < ucast (wn_ByteOffset n) + (ucast (wn_ByteLength n) :: 64 word)"
  shows "validateWireNode tbl n = None"
  using assms by (simp add: validateWireNode_def Let_def)

lemma validateWireNode_I:
  assumes held: "\<And>w. w \<in> set (heldValues n) \<Longrightarrow> validateWireValue tbl w = None"
    and typed: "wn_Kind n = nodeTypedArray \<Longrightarrow> \<exists>b. wv_Kind (wn_Buffer n) = valueRef \<and> tbl (wv_Ref (wn_Buffer n)) = Some b \<and>
      wn_Kind b = nodeArrayBuffer \<and> bytesPerElement (wn_TextA n) \<noteq> 0 \<and> wn_ByteLength n mod bytesPerElement (wn_TextA n) = 0 \<and>
      \<not> of_nat (length (wn_Bytes b)) < ucast (wn_ByteOffset n) + (ucast (wn_ByteLength n) :: 64 word)"
  shows "validateWireNode tbl n = None"
proof -
  have p: "validateWireValue tbl (wp_Value p) = None" if "p \<in> set (wn_Props n)" for p
    using that by (intro held) (simp add: heldValues_def)
  have s: "validateWireValue tbl (ws_Value s) = None" if "s \<in> set (wn_Slots n)" "ws_Present s" for s
    using that by (intro held) (simp add: heldValues_def)
  have e: "validateWireValue tbl (we_Key e) = None" "validateWireValue tbl (we_Value e) = None" if "e \<in> set (wn_Entries n)" for e
    using that by (intro held, force simp: heldValues_def)+
  have v: "validateWireValue tbl w = None" if "w \<in> set (wn_Values n) \<union> {wn_Promise n, wn_Cause n}" for w
    using that by (intro held) (auto simp: heldValues_def)
  have "firstErr (\<lambda>p. validateWireValue tbl (wp_Value p)) (wn_Props n) = None"
    "firstErr (\<lambda>s. if ws_Present s then validateWireValue tbl (ws_Value s) else None) (wn_Slots n) = None"
    "firstErr (\<lambda>e. case validateWireValue tbl (we_Key e) of Some err \<Rightarrow> Some err | None \<Rightarrow> validateWireValue tbl (we_Value e)) (wn_Entries n) = None"
    "firstErr (validateWireValue tbl) (wn_Values n) = None"
    "validateWireValue tbl (wn_Promise n) = None" "validateWireValue tbl (wn_Cause n) = None"
    by (simp_all add: firstErr_None p s e v)
  note held = this
  show ?thesis
  proof (cases "wn_Kind n = nodeTypedArray")
    case True
    obtain b where "wv_Kind (wn_Buffer n) = valueRef" "tbl (wv_Ref (wn_Buffer n)) = Some b"
      "wn_Kind b = nodeArrayBuffer" "bytesPerElement (wn_TextA n) \<noteq> 0" "wn_ByteLength n mod bytesPerElement (wn_TextA n) = 0"
      "\<not> of_nat (length (wn_Bytes b)) < ucast (wn_ByteOffset n) + (ucast (wn_ByteLength n) :: 64 word)"
      using typed [OF True] by (elim exE conjE) (rule that)
    then show ?thesis by (rule validate_typedArray [OF held(1) True])
  next
    case False
    with held show ?thesis by (cases "wn_Kind n") (simp_all add: validateWireNode_def)
  qed
qed

lemma typedArray_valid:
  assumes "validateWireNode tbl n = None" and "wn_Kind n = nodeTypedArray"
  obtains b where "wv_Kind (wn_Buffer n) = valueRef" "tbl (wv_Ref (wn_Buffer n)) = Some b" "wn_Kind b = nodeArrayBuffer"
    "bytesPerElement (wn_TextA n) \<noteq> 0" "wn_ByteLength n mod bytesPerElement (wn_TextA n) = 0"
    "\<not> of_nat (length (wn_Bytes b)) < ucast (wn_ByteOffset n) + (ucast (wn_ByteLength n) :: 64 word)"
  using assms by (auto simp: validateWireNode_def Let_def split: option.splits if_splits)

lemma held_remap: "w \<in> set (heldValues (remapN \<rho> n)) \<Longrightarrow> \<exists>u \<in> set (heldValues n). w = remapV \<rho> u"
  by (auto simp: heldValues_def remapN_def)

lemma validateWireNode_remap:
  assumes valid: "validateWireNode src n = None" and own: "ownFields n"
    and tbl: "\<And>r m. src r = Some m \<Longrightarrow> tbl (\<rho> r) = Some (remapN \<rho> m)"
  shows "validateWireNode tbl (remapN \<rho> n) = None"
proof (rule validateWireNode_I)
  fix w assume "w \<in> set (heldValues (remapN \<rho> n))"
  then obtain u where u: "u \<in> set (heldValues n)" "w = remapV \<rho> u" by (auto dest: held_remap)
  from validateWireNode_refs [OF valid own u(1)] show "validateWireValue tbl w = None"
    using tbl by (auto simp: u(2) validateWireValue_def split: if_splits)
next
  assume "wn_Kind (remapN \<rho> n) = nodeTypedArray"
  then have k: "wn_Kind n = nodeTypedArray" by simp
  from typedArray_valid [OF valid k] obtain b where b: "wv_Kind (wn_Buffer n) = valueRef" "src (wv_Ref (wn_Buffer n)) = Some b"
    "wn_Kind b = nodeArrayBuffer" "bytesPerElement (wn_TextA n) \<noteq> 0" "wn_ByteLength n mod bytesPerElement (wn_TextA n) = 0"
    "\<not> of_nat (length (wn_Bytes b)) < ucast (wn_ByteOffset n) + (ucast (wn_ByteLength n) :: 64 word)" .
  with tbl [OF b(2)] show "\<exists>b. wv_Kind (wn_Buffer (remapN \<rho> n)) = valueRef \<and> tbl (wv_Ref (wn_Buffer (remapN \<rho> n))) = Some b \<and>
      wn_Kind b = nodeArrayBuffer \<and> bytesPerElement (wn_TextA (remapN \<rho> n)) \<noteq> 0 \<and>
      wn_ByteLength (remapN \<rho> n) mod bytesPerElement (wn_TextA (remapN \<rho> n)) = 0 \<and>
      \<not> of_nat (length (wn_Bytes b)) < ucast (wn_ByteOffset (remapN \<rho> n)) + (ucast (wn_ByteLength (remapN \<rho> n)) :: 64 word)" by simp
qed

lemma fitsNode_remap: "fitsNode n \<Longrightarrow> fitsNode (remapN \<rho> n)"
  by (auto simp: fitsNode_def remapN_def fitsSlice_def list_all_iff fitsValue_def remapV_def)

lemma fitsValue_remap: "fitsValue w \<Longrightarrow> fitsValue (remapV \<rho> w)"
  by (simp add: fitsValue_def remapV_def)

text \<open>A decoded graph, whatever graph it is appended to.\<close>

lemma nodeByID_in: "distinct (map wn_ID ns) \<Longrightarrow> n \<in> set ns \<Longrightarrow> nodeByID ns (wn_ID n) = Some n"
  by (induction ns rule: rev_induct) (auto simp: nodeByID_def image_iff)

lemma validateGraph_root: "validateGraph g = None \<Longrightarrow> refsOf [wg_Root g] \<subseteq> wn_ID ` set (wg_Nodes g)"
  by (auto simp: validateGraph_def validateWireValue_None dom_nodeByID split: option.splits)

lemma validateGraph_nodes: "validateGraph g = None \<Longrightarrow> n \<in> set (wg_Nodes g) \<Longrightarrow> validateWireNode (nodeByID (wg_Nodes g)) n = None"
  by (auto simp: validateGraph_def firstErr_None split: option.splits)

lemma validateGraph_distinct: "validateGraph g = None \<Longrightarrow> distinct (map wn_ID (wg_Nodes g))"
  by (simp add: validateGraph_def validateIDs_distinct split: option.splits)

lemma appendGraphNodes_ok:
  assumes L: "musLib_ok L" and g: "unmarshalGraph L raw = Inr g" and k: "1 \<le> k" "k + length (wg_Nodes g) \<le> 2 ^ 32"
  shows "\<exists>\<rho>. appendGraphNodes dst g (of_nat k) =
      Inr (remapV \<rho> (wg_Root g), dst @ map (remapN \<rho>) (wg_Nodes g), of_nat (k + length (wg_Nodes g))) \<and>
    map \<rho> (map wn_ID (wg_Nodes g)) = map of_nat [k ..< k + length (wg_Nodes g)]"
proof -
  note valid = unmarshalGraph_fits(2) [OF L g]
  from remapIDs_ok [OF k validateGraph_distinct [OF valid], of Map.empty] obtain m where
    m: "remapIDs (wg_Nodes g) Map.empty (of_nat k) = Inr (m, of_nat (k + length (wg_Nodes g)))" "dom m = wn_ID ` set (wg_Nodes g)"
      "map (the \<circ> m) (map wn_ID (wg_Nodes g)) = map of_nat [k ..< k + length (wg_Nodes g)]" by auto
  have "remapWireValue m (wg_Root g) = Inr (remapV (the \<circ> m) (wg_Root g))"
    by (rule remapWireValue_total) (use validateGraph_root [OF valid] m(2) in auto)
  moreover have "rmap (remapWireNode m) (wg_Nodes g) = Inr (map (remapN (the \<circ> m)) (wg_Nodes g))"
  proof (rule rmap_total_Inr)
    fix n assume n: "n \<in> set (wg_Nodes g)"
    show "remapWireNode m n = Inr (remapN (the \<circ> m) n)"
      by (rule remapWireNode_total)
         (use n m(2) held_valid [OF validateGraph_nodes [OF valid n] unmarshalGraph_ownFields [OF L g n]] in \<open>auto simp: dom_nodeByID\<close>)
  qed
  ultimately show ?thesis
    using valid m by (intro exI [of _ "the \<circ> m"]) (simp add: appendGraphNodes_def)
qed

lemma appended_emitted:
  assumes L: "musLib_ok L" and g: "unmarshalGraph L raw = Inr g" and k: "k + length (wg_Nodes g) \<le> 2 ^ 32"
    and \<rho>: "map \<rho> (map wn_ID (wg_Nodes g)) = map of_nat [k ..< k + length (wg_Nodes g)]"
    and b': "gb_nodes b' = gb_nodes b @ map (remapN \<rho>) (wg_Nodes g)" "gb_nextID b' = of_nat (k + length (wg_Nodes g))"
  shows "emitted k (k + length (wg_Nodes g)) b b' [remapV \<rho> (wg_Root g)] (Decode L raw = Inr v) [canonGo v]"
proof -
  note valid = unmarshalGraph_fits(2) [OF L g] and fits = unmarshalGraph_fits(1) [OF L g]
  let ?new = "map (remapN \<rho>) (wg_Nodes g)" and ?src = "nodeByID (wg_Nodes g)"
  have ids: "map wn_ID ?new = map of_nat [k ..< k + length (wg_Nodes g)]" using \<rho> by (simp add: comp_def)
  have fitsnew: "list_all fitsNode ?new" "fitsValue (remapV \<rho> (wg_Root g))"
    using fits by (auto simp: fitsGraph_def list_all_iff intro: fitsNode_remap fitsValue_remap)
  have src: "tbl (\<rho> r) = Some (remapN \<rho> n)" if "holds tbl ?new" "?src r = Some n" for tbl r n
    using that nodeByID_Some [OF that(2)] by (auto simp: holds_def)
  have ok: "list_all (\<lambda>n. validateWireNode tbl n = None) ?new \<and> validateWireValue tbl (remapV \<rho> (wg_Root g)) = None"
    if h: "holds tbl ?new" for tbl
  proof
    show "list_all (\<lambda>n. validateWireNode tbl n = None) ?new"
      using validateWireNode_remap [OF validateGraph_nodes [OF valid] unmarshalGraph_ownFields [OF L g], of _ tbl \<rho>] src [OF h]
      by (auto simp: list_all_iff)
    show "validateWireValue tbl (remapV \<rho> (wg_Root g)) = None"
    proof (cases "wv_Kind (wg_Root g) = valueRef")
      case True
      with validateGraph_root [OF valid] obtain n where "n \<in> set (wg_Nodes g)" "wn_ID n = wv_Ref (wg_Root g)" by auto
      with h True show ?thesis by (auto simp: holds_def validateWireValue_def)
    qed (simp add: validateWireValue_def)
  qed
  have den: "\<exists>R. distinct R \<and> set R \<subseteq> of_nat ` {k ..< k + length (wg_Nodes g)} \<and>
      (\<forall>tbl. holds tbl (map normNode ?new) \<longrightarrow> denotesAll tbl [normValue (remapV \<rho> (wg_Root g))] [canonGo v] R)"
    if dec: "Decode L raw = Inr v"
  proof -
    from dec g obtain R where R: "denotes ?src (wg_Root g) v R" "distinct R" by (auto simp: Decode_iff)
    have sub: "set R \<subseteq> wn_ID ` set (wg_Nodes g)" using denotes_dom(1) [OF R(1)] by (simp add: dom_nodeByID)
    have "distinct (map \<rho> (map wn_ID (wg_Nodes g)))"
      unfolding \<rho> using k by (auto simp: distinct_map intro!: inj_on_subset [OF of_nat_inj32])
    then have inj: "inj_on \<rho> (wn_ID ` set (wg_Nodes g))" by (auto simp: distinct_map intro: inj_on_imageI)
    have img: "\<rho> ` wn_ID ` set (wg_Nodes g) = of_nat ` {k ..< k + length (wg_Nodes g)}"
      using arg_cong [OF \<rho>, of set] by (simp add: image_comp comp_def)
    have "denotesAll tbl [normValue (remapV \<rho> (wg_Root g))] [canonGo v] (map \<rho> R @ [])" if h: "holds tbl (map normNode ?new)" for tbl
    proof (intro some none)
      have "copied ?src \<rho> tbl"
        using h by (auto simp: copied_def holds_def dest!: nodeByID_Some)
      then show "denotes tbl (normValue (remapV \<rho> (wg_Root g))) (canonGo v) (map \<rho> R)" by (rule denotes_copied(1) [OF R(1)])
    qed
    moreover have "\<rho> ` set R \<subseteq> of_nat ` {k ..< k + length (wg_Nodes g)}" using image_mono [OF sub, of \<rho>] img by simp
    moreover have "distinct (map \<rho> R)" using R(2) inj_on_subset [OF inj sub] by (simp add: distinct_map)
    ultimately show ?thesis by (intro exI [of _ "map \<rho> R"]) simp
  qed
  show ?thesis
    unfolding emitted_def using b' ids fitsnew ok den by (intro conjI exI [of _ ?new]) auto
qed

lemma emitted_graph:
  assumes L: "musLib_ok L" and g: "unmarshalGraph L raw = Inr g"
    and k: "gb_nextID b = of_nat k" "1 \<le> k" "k + length (wg_Nodes g) \<le> 2 ^ 32"
  shows "\<exists>w b'. appendGraph L raw b = Inr (w, b') \<and> (\<forall>v. emitted k (k + length (wg_Nodes g)) b b' [w] (Decode L raw = Inr v) [canonGo v])"
proof -
  from appendGraphNodes_ok [OF L g k(2,3), of "gb_nodes b"] obtain \<rho> where
    app: "appendGraphNodes (gb_nodes b) g (of_nat k) =
      Inr (remapV \<rho> (wg_Root g), gb_nodes b @ map (remapN \<rho>) (wg_Nodes g), of_nat (k + length (wg_Nodes g)))"
    and \<rho>: "map \<rho> (map wn_ID (wg_Nodes g)) = map of_nat [k ..< k + length (wg_Nodes g)]" by auto
  let ?b' = "b\<lparr>gb_nodes := gb_nodes b @ map (remapN \<rho>) (wg_Nodes g), gb_nextID := of_nat (k + length (wg_Nodes g))\<rparr>"
  have "appendGraph L raw b = Inr (remapV \<rho> (wg_Root g), ?b')" using app g k(1) by (simp add: appendGraph_def ofWire_def)
  moreover have "emitted k (k + length (wg_Nodes g)) b ?b' [remapV \<rho> (wg_Root g)] (Decode L raw = Inr v) [canonGo v]" for v
    by (rule appended_emitted [OF L g k(3) \<rho>]) simp_all
  ultimately show ?thesis by blast
qed

end
