(* ===== verification/Wire_Roundtrip.thy ===== *)
theory Wire_Roundtrip
  imports Wire_Append "HOL-Library.Multiset"
begin

text \<open>
  The typed encoder and decoder are inverse up to the normal form \<open>goNorm\<close>, and
  when they succeed.
\<close>

subsection \<open>Which values can be encoded, how large they are and what becomes of them\<close>

fun numberBits :: "goNumber \<Rightarrow> float64" where
  "numberBits (GoInt x) = float64OfInt (sint x)" | "numberBits (GoInt8 x) = float64OfInt (sint x)"
| "numberBits (GoInt16 x) = float64OfInt (sint x)" | "numberBits (GoInt32 x) = float64OfInt (sint x)"
| "numberBits (GoInt64 x) = float64OfInt (sint x)" | "numberBits (GoUint x) = float64OfInt (uint x)"
| "numberBits (GoUint8 x) = float64OfInt (uint x)" | "numberBits (GoUint16 x) = float64OfInt (uint x)"
| "numberBits (GoUint32 x) = float64OfInt (uint x)" | "numberBits (GoUint64 x) = float64OfInt (uint x)"
| "numberBits (GoFloat32 x) = float64OfFloat32 x" | "numberBits (GoFloat64 x) = x"

fun numberSafe :: "goNumber \<Rightarrow> bool" where
  "numberSafe (GoInt x) \<longleftrightarrow> \<bar>sint x\<bar> \<le> maxJSSafeInteger" | "numberSafe (GoInt64 x) \<longleftrightarrow> \<bar>sint x\<bar> \<le> maxJSSafeInteger"
| "numberSafe (GoUint x) \<longleftrightarrow> uint x \<le> maxJSSafeInteger" | "numberSafe (GoUint64 x) \<longleftrightarrow> uint x \<le> maxJSSafeInteger"
| "numberSafe _ \<longleftrightarrow> True"

fun goNorm :: "musLib \<Rightarrow> goValue \<Rightarrow> goValue" where
  "goNorm L (GoValue raw) = (case Decode L raw of Inr v \<Rightarrow> canonGo v | Inl _ \<Rightarrow> GoNil)"
| "goNorm L (GoNumber x) = GoNumber (GoFloat64 (canonNaN (numberBits x)))"
| "goNorm L (ObjectType kvs) = ObjectType (sort_key fst (map (\<lambda>(k, v). (k, goNorm L v)) kvs))"
| "goNorm L (GoMap kvs) = ObjectType (sort_key fst (map (\<lambda>(k, v). (k, goNorm L v)) kvs))"
| "goNorm L (ArrayType vs) = ArrayType (map (goNorm L) vs)"
| "goNorm L (GoSlice vs) = ArrayType (map (goNorm L) vs)"
| "goNorm L (MapType kvs) = MapType (map (\<lambda>(k, v). (goNorm L k, goNorm L v)) kvs)"
| "goNorm L (SetType vs) = SetType (map (goNorm L) vs)"
| "goNorm L (DateType t) = DateType (timeUnixMilliUTC (UnixMilli t))"
| "goNorm L (GoTime t) = DateType (timeUnixMilliUTC (UnixMilli t))"
| "goNorm L v = v"

text \<open>\<open>encodable\<close>: the encoder accepts it. \<open>treeable\<close>: embedded payloads decode, and maps have each key once.\<close>

fun encodable :: "musLib \<Rightarrow> goValue \<Rightarrow> bool" where
  "encodable L (GoValue raw) \<longleftrightarrow> (case unmarshalGraph L raw of Inl _ \<Rightarrow> False | Inr _ \<Rightarrow> True)"
| "encodable L (GoNumber x) \<longleftrightarrow> numberSafe x"
| "encodable L (ObjectType kvs) \<longleftrightarrow> list_all (\<lambda>(k, v). encodable L v) kvs"
| "encodable L (GoMap kvs) \<longleftrightarrow> list_all (\<lambda>(k, v). encodable L v) kvs"
| "encodable L (ArrayType vs) \<longleftrightarrow> list_all (encodable L) vs"
| "encodable L (GoSlice vs) \<longleftrightarrow> list_all (encodable L) vs"
| "encodable L (MapType kvs) \<longleftrightarrow> list_all (\<lambda>(k, v). encodable L k \<and> encodable L v) kvs"
| "encodable L (SetType vs) \<longleftrightarrow> list_all (encodable L) vs"
| "encodable L (BigIntType s) \<longleftrightarrow> validateBigIntText s = None"
| "encodable L (RegExpType s f) \<longleftrightarrow> validateRegExpFlags f = None"
| "encodable L (GoOther t) \<longleftrightarrow> False"
| "encodable L _ \<longleftrightarrow> True"

fun treeable :: "musLib \<Rightarrow> goValue \<Rightarrow> bool" where
  "treeable L (GoValue raw) \<longleftrightarrow> (case Decode L raw of Inl _ \<Rightarrow> False | Inr _ \<Rightarrow> True)"
| "treeable L (ObjectType kvs) \<longleftrightarrow> distinct (map fst kvs) \<and> list_all (\<lambda>(k, v). treeable L v) kvs"
| "treeable L (GoMap kvs) \<longleftrightarrow> distinct (map fst kvs) \<and> list_all (\<lambda>(k, v). treeable L v) kvs"
| "treeable L (ArrayType vs) \<longleftrightarrow> list_all (treeable L) vs"
| "treeable L (GoSlice vs) \<longleftrightarrow> list_all (treeable L) vs"
| "treeable L (MapType kvs) \<longleftrightarrow> list_all (\<lambda>(k, v). treeable L k \<and> treeable L v) kvs"
| "treeable L (SetType vs) \<longleftrightarrow> list_all (treeable L) vs"
| "treeable L _ \<longleftrightarrow> True"

text \<open>Nodes, texts and bytes of a value, counted together.\<close>

fun goSize :: "musLib \<Rightarrow> goValue \<Rightarrow> nat" where
  "goSize L (GoValue raw) = Suc (case unmarshalGraph L raw of Inl _ \<Rightarrow> 0 | Inr g \<Rightarrow> length (wg_Nodes g))"
| "goSize L (GoString s) = Suc (length s)"
| "goSize L (BigIntType s) = Suc (length s)"
| "goSize L (RegExpType s f) = Suc (length s + length f)"
| "goSize L (ArrayBufferType bs) = Suc (length bs)"
| "goSize L (TypedArray x) = Suc (Suc (length (snd (typedArrayModelBytes x))))"
| "goSize L (ObjectType kvs) = Suc (sum_list (map (\<lambda>(k, v). length k + goSize L v) kvs))"
| "goSize L (GoMap kvs) = Suc (sum_list (map (\<lambda>(k, v). length k + goSize L v) kvs))"
| "goSize L (ArrayType vs) = Suc (sum_list (map (goSize L) vs))"
| "goSize L (GoSlice vs) = Suc (sum_list (map (goSize L) vs))"
| "goSize L (MapType kvs) = Suc (sum_list (map (\<lambda>(k, v). goSize L k + goSize L v) kvs))"
| "goSize L (SetType vs) = Suc (sum_list (map (goSize L) vs))"
| "goSize L _ = 1"

lemma goSize_pos: "1 \<le> goSize L v"
  by (induction v) auto

subsection \<open>Traversals of the encoder\<close>

lemma emitted_smap:
  assumes "smap f xs b = Inr (ys, b')" and "gb_nextID b = of_nat k" and "1 \<le> k" and "k + sum_list (map m xs) \<le> 2 ^ 32"
    and "\<And>x k b y b'. x \<in> set xs \<Longrightarrow> f x b = Inr (y, b') \<Longrightarrow> gb_nextID b = of_nat k \<Longrightarrow> 1 \<le> k \<Longrightarrow> k + m x \<le> 2 ^ 32 \<Longrightarrow>
      \<exists>k'. k' \<le> k + m x \<and> emitted k k' b b' (parts y) (T x) (gs x) \<and> Q x y"
  shows "\<exists>k'. k' \<le> k + sum_list (map m xs) \<and> emitted k k' b b' (concat (map parts ys)) (list_all T xs) (concat (map gs xs)) \<and>
    list_all2 Q xs ys"
  using assms
proof (induction xs arbitrary: b ys k)
  case Nil
  then show ?case by (auto intro!: exI [of _ k] emitted_nil)
next
  case (Cons x xs)
  from Cons.prems(1) obtain y b1 zs where f: "f x b = Inr (y, b1)" and sm: "smap f xs b1 = Inr (zs, b')" and ys: "ys = y # zs" by auto
  have "k + m x \<le> 2 ^ 32" using Cons.prems(4) by simp
  from Cons.prems(5) [OF _ f Cons.prems(2,3) this] obtain k1
    where 1: "k1 \<le> k + m x" "emitted k k1 b b1 (parts y) (T x) (gs x)" "Q x y" by auto
  have n1: "gb_nextID b1 = of_nat k1" "k \<le> k1" using 1(2) by (auto simp: emitted_def)
  have "1 \<le> k1" "k1 + sum_list (map m xs) \<le> 2 ^ 32" using n1 Cons.prems(3,4) 1(1) by auto
  from Cons.IH [OF sm n1(1) this Cons.prems(5)] obtain k2
    where 2: "k2 \<le> k1 + sum_list (map m xs)" "emitted k1 k2 b1 b' (concat (map parts zs)) (list_all T xs) (concat (map gs xs))"
      "list_all2 Q xs zs" by auto
  have "k2 \<le> 2 ^ 32" using 2(1) 1(1) Cons.prems(4) by simp
  from emitted_append [OF 1(2) 2(2) this] 1 2 ys show ?case by (intro exI [of _ k2]) auto
qed

lemma sum_list_sort_key: "sum_list (map f (sort_key g xs)) = sum_list (map f xs)" for f :: "'a \<Rightarrow> nat"
proof -
  have "mset (map f (sort_key g xs)) = mset (map f xs)" by simp
  then show ?thesis by (metis sum_mset_sum_list)
qed

lemma insort_key_map_fst:
  "insort_key fst (k, h v) (map (\<lambda>(k, v). (k, h v)) xs) = map (\<lambda>(k, v). (k, h v)) (insort_key fst (k, v) xs)"
  by (induction xs) auto

lemma sort_key_map_fst: "sort_key fst (map (\<lambda>(k, v). (k, h v)) kvs) = map (\<lambda>(k, v). (k, h v)) (sort_key fst kvs)"
  unfolding sort_key_def by (induction kvs) (auto simp: insort_key_map_fst)

lemma mapPut_last: "sorted_wrt (<) (map fst m @ [k]) \<Longrightarrow> mapPut k v m = m @ [(k, v)]"
  by (induction m) auto

lemma mapOfList_sorted: "sorted_wrt (<) (map fst kvs) \<Longrightarrow> mapOfList kvs = kvs"
proof (induction kvs rule: rev_induct)
  case (snoc kv kvs)
  then show ?case by (cases kv) (simp add: mapOfList_def mapPut_last sorted_wrt_append)
qed (simp add: mapOfList_def)

lemma mapOfList_sort: "distinct (map fst kvs) \<Longrightarrow> mapOfList (sort_key fst kvs) = sort_key fst kvs"
proof (rule mapOfList_sorted)
  assume d: "distinct (map fst kvs)"
  have "mset (map fst (sort_key fst kvs)) = mset (map fst kvs)" by simp
  then have "distinct (map fst (sort_key fst kvs))" using d by (metis mset_eq_imp_distinct_iff)
  then show "sorted_wrt (<) (map fst (sort_key fst kvs))" by (simp add: strict_sorted_iff)
qed

subsection \<open>Composite values\<close>

definition emits :: "musLib \<Rightarrow> encoder \<Rightarrow> goValue \<Rightarrow> bool" where
  "emits L enc v \<longleftrightarrow> (\<forall>path b w b' k. enc v path b = Inr (w, b') \<longrightarrow> gb_nextID b = of_nat k \<longrightarrow> 1 \<le> k \<longrightarrow>
     k + goSize L v \<le> 2 ^ 32 \<longrightarrow> (\<exists>k'. k' \<le> k + goSize L v \<and> emitted k k' b b' [w] (treeable L v) [goNorm L v]))"

lemma emitsD:
  "emits L enc v \<Longrightarrow> enc v path b = Inr (w, b') \<Longrightarrow> gb_nextID b = of_nat k \<Longrightarrow> Suc 0 \<le> k \<Longrightarrow> k + m \<le> 4294967296 \<Longrightarrow> goSize L v \<le> m \<Longrightarrow>
   \<exists>k'. k' \<le> k + m \<and> emitted k k' b b' [w] (treeable L v) [goNorm L v]"
proof -
  assume a: "emits L enc v" "enc v path b = Inr (w, b')" "gb_nextID b = of_nat k" "Suc 0 \<le> k" "k + m \<le> 4294967296" "goSize L v \<le> m"
  then have "1 \<le> k" "k + goSize L v \<le> 2 ^ 32" by simp_all
  with a obtain k' where "k' \<le> k + goSize L v" "emitted k k' b b' [w] (treeable L v) [goNorm L v]" unfolding emits_def by blast
  with a(6) show ?thesis by (intro exI [of _ k']) simp
qed

lemma emitted_cong: "emitted k k' b b' ws T gs \<Longrightarrow> ws' = ws \<Longrightarrow> T' = T \<Longrightarrow> gs' = gs \<Longrightarrow> emitted k k' b b' ws' T' gs'"
  by simp

lemma emitted_weaken: "emitted k k' b b' ws T gs \<Longrightarrow> (T' \<Longrightarrow> T) \<Longrightarrow> emitted k k' b b' ws T' gs"
  unfolding emitted_def by blast

lemma length_le_sum: "(\<And>x. x \<in> set xs \<Longrightarrow> 1 \<le> m x) \<Longrightarrow> length xs \<le> sum_list (map m xs)" for m :: "'a \<Rightarrow> nat"
  by (induction xs) fastforce+

lemma concat_singles [simp]: "concat (map (\<lambda>x. [f x]) xs) = map f xs"
  by (induction xs) auto

lemma fitsSlice_small: "n < 2 ^ 32 \<Longrightarrow> length xs \<le> n \<Longrightarrow> e \<le> 304 \<Longrightarrow> fitsSlice e xs"
proof -
  assume "n < 2 ^ 32" "length xs \<le> n" "e \<le> 304"
  then have "length xs * e \<le> 2 ^ 32 * 304" by (intro mult_le_mono) simp_all
  then show ?thesis by (simp add: fitsSlice_def maxAlloc_def)
qed

lemma fitsText_small: "n < 2 ^ 32 \<Longrightarrow> length s \<le> n \<Longrightarrow> fitsText s"
  by (simp add: fitsText_def MaxLen_def)

lemmas node_simps = fitsNode_def zeroNode_def validateWireNode_def firstErr_None shape_def normNode_def normBody_def Let_def
  normProp_def normSlot_def normEntry_def comp_def list_all_iff

lemma emits_object:
  assumes enc: "\<And>k v. (k, v) \<in> set kvs \<Longrightarrow> emits L enc v"
    and run: "encodeObject enc kvs path b = Inr (w, b')" and k: "gb_nextID b = of_nat k" "1 \<le> k" "k + goSize L (ObjectType kvs) \<le> 2 ^ 32"
  shows "\<exists>k'. k' \<le> k + goSize L (ObjectType kvs) \<and> emitted k k' b b' [w] (treeable L (ObjectType kvs)) [goNorm L (ObjectType kvs)]"
proof -
  let ?m = "\<lambda>(key, v). length (key :: string) + goSize L v" and ?kvs = "sort_key fst kvs"
  let ?gs = "map (\<lambda>kv. goNorm L (snd kv)) ?kvs"
  from run obtain props b1 where sm: "smap (\<lambda>(key, v) b. smapResult (\<lambda>w. \<lparr>wp_Key = key, wp_Value = w\<rparr>) (enc v (objectPath path key) b)) ?kvs b
      = Inr (props, b1)" and add: "addNode (zeroNode\<lparr>wn_Kind := nodeObject, wn_Props := props\<rparr>) b1 = Inr (w, b')"
    by (auto simp: encodeObject_def)
  have sum: "sum_list (map ?m ?kvs) = sum_list (map ?m kvs)" by (rule sum_list_sort_key)
  have "\<exists>k'. k' \<le> k + sum_list (map ?m ?kvs) \<and>
      emitted k k' b b1 (concat (map (\<lambda>p. [wp_Value p]) props)) (list_all (\<lambda>(key, v). treeable L v) ?kvs)
        (concat (map (\<lambda>kv. [goNorm L (snd kv)]) ?kvs)) \<and> list_all2 (\<lambda>(key, v) p. wp_Key p = key) ?kvs props"
    by (rule emitted_smap [OF sm k(1,2)]) (use k(3) in \<open>auto simp: sum intro!: emitsD [OF enc]\<close>)
  then obtain k1 where k1: "k1 \<le> k + sum_list (map ?m kvs)" and em: "emitted k k1 b b1 (map wp_Value props) (list_all (\<lambda>(key, v). treeable L v) ?kvs) ?gs"
    and keys: "list_all2 (\<lambda>(key, v) p. wp_Key p = key) ?kvs props"
    by (auto simp: sum)
  have ks: "map wp_Key props = map fst ?kvs"
    using keys by (induction rule: list_all2_induct) auto
  have len: "length props = length kvs" using list_all2_lengthD [OF keys] by simp
  have small: "sum_list (map ?m kvs) < 2 ^ 32" "k1 < 2 ^ 32" using k(2,3) k1 by simp_all
  have "length kvs \<le> sum_list (map ?m kvs)"
    by (rule length_le_sum) (use goSize_pos in \<open>auto intro: trans_le_add2\<close>)
  then have fp: "fitsSlice 56 props" using small len by (intro fitsSlice_small [of "sum_list (map ?m kvs)"]) auto
  have fk: "fitsText (wp_Key p)" if "p \<in> set props" for p
  proof -
    have "wp_Key p \<in> set (map fst ?kvs)" using that by (simp flip: ks)
    then obtain v where "(wp_Key p, v) \<in> set kvs" by auto
    then have "?m (wp_Key p, v) \<le> sum_list (map ?m kvs)" by (intro member_le_sum_list) ((force simp: image_iff) | simp)+
    then show ?thesis using small by (intro fitsText_small [of "sum_list (map ?m kvs)"]) auto
  qed
  have "emitted k (Suc k1) b b' [w] (treeable L (ObjectType kvs)) [goNorm L (ObjectType kvs)]"
  proof (rule emitted_node [OF emitted_weaken [OF em] k(2) small(2) add], goal_cases)
    case 1
    then show ?case by (auto simp: list_all_iff)
  next
    case 2
    then show ?case using fp fk by (auto simp: node_simps)
  next
    case (3 tbl nid)
    then have "firstErr (\<lambda>p. validateWireValue tbl (wp_Value p)) props = None" by (auto simp: firstErr_None list_all_iff)
    then show ?case by (simp add: validateWireNode_def zeroNode_def)
  next
    case (4 tbl nid)
    have "zip (map wp_Key props) ?gs = map (\<lambda>(key, v). (key, goNorm L v)) ?kvs"
      by (simp add: ks zip_map1 zip_map2 zip_same_conv_map comp_def case_prod_beta)
    moreover have "mapOfList (map (\<lambda>(key, v). (key, goNorm L v)) ?kvs) = sort_key fst (map (\<lambda>(key, v). (key, goNorm L v)) kvs)"
      using 4(2) mapOfList_sort [of kvs] by (simp add: mapOfList_map sort_key_map_fst)
    ultimately show ?case by (simp add: node_simps)
  qed
  then show ?thesis using k1 by auto
qed

lemma map_snd_enumerate: "map (\<lambda>(i, x). f x) (enumerate n xs) = map f xs"
  by (induction xs arbitrary: n) auto

lemma map_enumerate_snd: "map (\<lambda>p. f (snd p)) (enumerate n xs) = map f xs"
  by (induction xs arbitrary: n) auto

lemma list_all_snd_enumerate: "list_all (\<lambda>(i, x). P x) (enumerate n xs) = list_all P xs"
  by (induction xs arbitrary: n) auto

lemma smap_form: "smap (\<lambda>(i, v) s. smapResult h (enc i v s)) xs s = Inr (ys, t) \<Longrightarrow> list_all (\<lambda>y. \<exists>w. y = h w) ys"
  by (induction xs arbitrary: s ys) auto

text \<open>The traversal of a list of values, each turned into something that holds its wire value.\<close>

lemma emitted_items:
  assumes enc: "\<And>v. v \<in> set vs \<Longrightarrow> emits L enc v"
    and sm: "smap (\<lambda>(i, v) b. smapResult h (enc v (p i) b)) (enumerate 0 vs) b = Inr (ys, b1)"
    and part: "\<And>w. part (h w) = w" and k: "gb_nextID b = of_nat k" "1 \<le> k" "k + sum_list (map (goSize L) vs) \<le> 2 ^ 32"
  shows "\<exists>k1. k1 \<le> k + sum_list (map (goSize L) vs) \<and>
      emitted k k1 b b1 (map part ys) (list_all (treeable L) vs) (map (goNorm L) vs) \<and>
      length ys = length vs \<and> list_all (\<lambda>y. \<exists>w. y = h w) ys"
proof -
  let ?m = "\<lambda>(i :: nat, v). goSize L v" and ?vs = "enumerate 0 vs"
  have sum: "sum_list (map ?m ?vs) = sum_list (map (goSize L) vs)" by (simp add: map_snd_enumerate)
  have "\<exists>k'. k' \<le> k + sum_list (map ?m ?vs) \<and>
      emitted k k' b b1 (concat (map (\<lambda>y. [part y]) ys)) (list_all (\<lambda>(i, v). treeable L v) ?vs)
        (concat (map (\<lambda>iv. [goNorm L (snd iv)]) ?vs)) \<and> list_all2 (\<lambda>_ _. True) ?vs ys"
    by (rule emitted_smap [OF sm k(1,2)]) (use k(3) in \<open>auto simp: sum part dest!: enumerate_snd intro!: emitsD [OF enc]\<close>)
  then show ?thesis
    using smap_Inr_length [OF sm] smap_form [OF sm] by (auto simp: sum list_all_snd_enumerate map_enumerate_snd)
qed

lemma emits_array:
  assumes enc: "\<And>v. v \<in> set vs \<Longrightarrow> emits L enc v"
    and run: "encodeArray enc vs path b = Inr (w, b')" and k: "gb_nextID b = of_nat k" "1 \<le> k" "k + goSize L (ArrayType vs) \<le> 2 ^ 32"
  shows "\<exists>k'. k' \<le> k + goSize L (ArrayType vs) \<and> emitted k k' b b' [w] (treeable L (ArrayType vs)) [goNorm L (ArrayType vs)]"
proof -
  from run obtain slots b1 where sm: "smap (\<lambda>(i, item) b. smapResult (\<lambda>w. \<lparr>ws_Present = True, ws_Value = w\<rparr>) (enc item (arrayPath path i) b))
      (enumerate 0 vs) b = Inr (slots, b1)" and add: "addNode (zeroNode\<lparr>wn_Kind := nodeArray, wn_Slots := slots\<rparr>) b1 = Inr (w, b')"
    by (auto simp: encodeArray_def)
  have "\<exists>k1. k1 \<le> k + sum_list (map (goSize L) vs) \<and>
      emitted k k1 b b1 (map ws_Value slots) (list_all (treeable L) vs) (map (goNorm L) vs) \<and>
      length slots = length vs \<and> list_all (\<lambda>y. \<exists>w. y = \<lparr>ws_Present = True, ws_Value = w\<rparr>) slots"
    by (rule emitted_items [OF enc sm]) (use k in auto)
  then obtain k1 where k1: "k1 \<le> k + sum_list (map (goSize L) vs)"
    and em: "emitted k k1 b b1 (map ws_Value slots) (list_all (treeable L) vs) (map (goNorm L) vs)"
    and len: "length slots = length vs" and pres: "list_all (\<lambda>y. \<exists>w. y = \<lparr>ws_Present = True, ws_Value = w\<rparr>) slots" by auto
  have small: "sum_list (map (goSize L) vs) < 2 ^ 32" "k1 < 2 ^ 32" using k(2,3) k1 by simp_all
  have "length vs \<le> sum_list (map (goSize L) vs)" by (rule length_le_sum) (rule goSize_pos)
  then have fp: "fitsSlice 48 slots" using small len by (intro fitsSlice_small [of "sum_list (map (goSize L) vs)"]) auto
  have "emitted k (Suc k1) b b' [w] (list_all (treeable L) vs) [ArrayType (map (goNorm L) vs)]"
    by (rule emitted_node [OF em k(2) small(2) add]) (use fp pres in \<open>auto simp: node_simps\<close>)
  then show ?thesis using k1 by auto
qed

lemma emits_set:
  assumes enc: "\<And>v. v \<in> set vs \<Longrightarrow> emits L enc v"
    and run: "encodeSet enc vs path b = Inr (w, b')" and k: "gb_nextID b = of_nat k" "1 \<le> k" "k + goSize L (SetType vs) \<le> 2 ^ 32"
  shows "\<exists>k'. k' \<le> k + goSize L (SetType vs) \<and> emitted k k' b b' [w] (treeable L (SetType vs)) [goNorm L (SetType vs)]"
proof -
  have id: "smapResult (\<lambda>w. w) r = r" for r :: "codecError + wireValue \<times> graphBuilder"
    by (cases r) (auto simp: smapResult_def)
  from run obtain vals b1 where sm: "smap (\<lambda>(i, item) b. smapResult (\<lambda>w. w) (enc item (setValuePath path i) b))
      (enumerate 0 vs) b = Inr (vals, b1)" and add: "addNode (zeroNode\<lparr>wn_Kind := nodeSet, wn_Values := vals\<rparr>) b1 = Inr (w, b')"
    by (auto simp: encodeSet_def id)
  have "\<exists>k1. k1 \<le> k + sum_list (map (goSize L) vs) \<and>
      emitted k k1 b b1 (map (\<lambda>w. w) vals) (list_all (treeable L) vs) (map (goNorm L) vs) \<and>
      length vals = length vs \<and> list_all (\<lambda>y. \<exists>w. y = w) vals"
    by (rule emitted_items [OF enc sm]) (use k in auto)
  then obtain k1 where k1: "k1 \<le> k + sum_list (map (goSize L) vs)"
    and em: "emitted k k1 b b1 vals (list_all (treeable L) vs) (map (goNorm L) vs)"
    and len: "length vals = length vs" by auto
  have small: "sum_list (map (goSize L) vs) < 2 ^ 32" "k1 < 2 ^ 32" using k(2,3) k1 by simp_all
  have "length vs \<le> sum_list (map (goSize L) vs)" by (rule length_le_sum) (rule goSize_pos)
  then have fp: "fitsSlice 40 vals" using small len by (intro fitsSlice_small [of "sum_list (map (goSize L) vs)"]) auto
  have "emitted k (Suc k1) b b' [w] (list_all (treeable L) vs) [SetType (map (goNorm L) vs)]"
    by (rule emitted_node [OF em k(2) small(2) add]) (use fp in \<open>auto simp: node_simps\<close>)
  then show ?thesis using k1 by auto
qed

lemma pairUp_concat: "pairUp (concat (map (\<lambda>e. [f e, g e]) es)) = map (\<lambda>e. (f e, g e)) es"
  by (induction es) auto

lemma list_all_enumerate_snd: "list_all (\<lambda>p. P (snd p)) (enumerate n xs) = list_all P xs"
  by (induction xs arbitrary: n) auto

lemma concat_enumerate_snd: "concat (map (\<lambda>p. f (snd p)) (enumerate n xs)) = concat (map f xs)"
  by (induction xs arbitrary: n) auto

lemma emits_map:
  assumes enc: "\<And>k v. (k, v) \<in> set kvs \<Longrightarrow> emits L enc k \<and> emits L enc v"
    and run: "encodeMap enc kvs path b = Inr (w, b')" and k: "gb_nextID b = of_nat k" "1 \<le> k" "k + goSize L (MapType kvs) \<le> 2 ^ 32"
  shows "\<exists>k'. k' \<le> k + goSize L (MapType kvs) \<and> emitted k k' b b' [w] (treeable L (MapType kvs)) [goNorm L (MapType kvs)]"
proof -
  let ?m = "\<lambda>kv. goSize L (fst kv) + goSize L (snd kv)" and ?f = "\<lambda>(i, key, v) b.
         rbind (enc key (mapEntryPath path i ''key'') b) (\<lambda>(k, b).
         smapResult (\<lambda>w. \<lparr>we_Key = k, we_Value = w\<rparr>) (enc v (mapEntryPath path i ''value'') b))"
  let ?T = "\<lambda>kv. treeable L (fst kv) \<and> treeable L (snd kv)" and ?g = "\<lambda>kv. [goNorm L (fst kv), goNorm L (snd kv)]"
  from run obtain es b1 where sm: "smap ?f (enumerate 0 kvs) b = Inr (es, b1)"
    and add: "addNode (zeroNode\<lparr>wn_Kind := nodeMap, wn_Entries := es\<rparr>) b1 = Inr (w, b')"
    by (auto simp: encodeMap_def)
  have sum: "sum_list (map (\<lambda>p. ?m (snd p)) (enumerate 0 kvs)) = sum_list (map ?m kvs)" by (simp only: map_enumerate_snd [of ?m])
  have size: "goSize L (MapType kvs) = Suc (sum_list (map ?m kvs))" by (simp add: case_prod_beta')
  have "\<exists>k'. k' \<le> k + sum_list (map (\<lambda>p. ?m (snd p)) (enumerate 0 kvs)) \<and>
      emitted k k' b b1 (concat (map (\<lambda>e. [we_Key e, we_Value e]) es)) (list_all (\<lambda>p. ?T (snd p)) (enumerate 0 kvs))
        (concat (map (\<lambda>p. ?g (snd p)) (enumerate 0 kvs))) \<and> list_all2 (\<lambda>_ _. True) (enumerate 0 kvs) es"
  proof (rule emitted_smap [OF sm k(1,2)])
    fix x n c y c'
    assume x: "x \<in> set (enumerate 0 kvs)" and run: "?f x c = Inr (y, c')" and n: "gb_nextID c = of_nat n" "1 \<le> n" "n + ?m (snd x) \<le> 2 ^ 32"
    obtain i key v where kv: "x = (i, key, v)" by (cases x) auto
    have e: "emits L enc key" "emits L enc v" using enc x by (auto simp: kv dest!: enumerate_snd)
    from run obtain c1 w1 w2 where 1: "enc key (mapEntryPath path i ''key'') c = Inr (w1, c1)"
      and 2: "enc v (mapEntryPath path i ''value'') c1 = Inr (w2, c')" and y: "y = \<lparr>we_Key = w1, we_Value = w2\<rparr>"
      by (auto simp: kv)
    from emitsD [OF e(1) 1 n(1) _ _ order_refl] n kv obtain n1 where
      n1: "n1 \<le> n + goSize L key" "emitted n n1 c c1 [w1] (treeable L key) [goNorm L key]" by auto
    then have g: "gb_nextID c1 = of_nat n1" "n \<le> n1" by (auto simp: emitted_def)
    from emitsD [OF e(2) 2 g(1) _ _ order_refl] n n1 g kv obtain n2 where
      n2: "n2 \<le> n1 + goSize L v" "emitted n1 n2 c1 c' [w2] (treeable L v) [goNorm L v]" by auto
    have "n2 \<le> 2 ^ 32" using n(3) n1(1) n2(1) kv by simp
    from emitted_append [OF n1(2) n2(2) this] show "\<exists>k'. k' \<le> n + ?m (snd x) \<and>
        emitted n k' c c' [we_Key y, we_Value y] (?T (snd x)) (?g (snd x)) \<and> True"
      using n1 n2 by (intro exI [of _ n2]) (simp add: kv y)
  qed (use k(3) sum size in simp)
  then obtain k1 where k1: "k1 \<le> k + sum_list (map ?m kvs)"
    and em: "emitted k k1 b b1 (concat (map (\<lambda>e. [we_Key e, we_Value e]) es)) (list_all ?T kvs) (concat (map ?g kvs))"
    and len: "length es = length kvs"
    using list_all_enumerate_snd [of ?T 0 kvs] smap_Inr_length [OF sm]
    unfolding sum concat_enumerate_snd [of ?g] by (auto simp only: length_enumerate)
  have small: "sum_list (map ?m kvs) < 2 ^ 32" "k1 < 2 ^ 32" using k(2,3) k1 size by simp_all
  have "length kvs \<le> sum_list (map ?m kvs)" by (rule length_le_sum) (use goSize_pos in \<open>auto intro: trans_le_add1\<close>)
  then have fp: "fitsSlice 80 es" using small len by (intro fitsSlice_small [of "sum_list (map ?m kvs)"]) auto
  have parts: "map normValue (concat (map (\<lambda>e. [we_Key e, we_Value e]) es)) =
      concat (map (\<lambda>e. [normValue (we_Key e), normValue (we_Value e)]) es)"
    by (simp add: map_concat comp_def)
  have "emitted k (Suc k1) b b' [w] (list_all ?T kvs) [MapType (map (\<lambda>kv. (goNorm L (fst kv), goNorm L (snd kv))) kvs)]"
  proof (rule emitted_node [OF em k(2) small(2) add], goal_cases)
    case (2 tbl nid)
    then have "firstErr (\<lambda>e. case validateWireValue tbl (we_Key e) of Some err \<Rightarrow> Some err | None \<Rightarrow> validateWireValue tbl (we_Value e)) es = None"
      by (auto simp: firstErr_None list_all_iff)
    then show ?case by (simp add: validateWireNode_def zeroNode_def)
  qed (use fp in \<open>auto simp: node_simps parts pairUp_concat\<close>)
  then show ?thesis using k1 size by (auto simp: case_prod_beta')
qed

subsection \<open>Typed arrays\<close>

lemma length_putLE [simp]: "length (putLE n w) = n"
  by (induction n arbitrary: w) auto

lemma getLE_putLE: "getLE (putLE n w) = take_bit (8 * n) (w :: 'a::len word)"
proof (induction n arbitrary: w)
  case (Suc n)
  show ?case
    by (rule bit_word_eqI) (auto simp: Suc.IH bit_or_iff bit_push_bit_iff bit_take_bit_iff bit_ucast_iff bit_drop_bit_eq
        possible_bit_def not_less dest: bit_imp_le_length)
qed simp

lemma drop_concat: "(\<And>x. length (f x) = k) \<Longrightarrow> i \<le> length xs \<Longrightarrow> drop (i * k) (concat (map f xs)) = concat (map f (drop i xs))"
proof (induction xs arbitrary: i)
  case (Cons x xs)
  then show ?case by (cases i) auto
qed simp

lemma length_concat_const: "(\<And>x. length (f x) = k) \<Longrightarrow> length (concat (map f xs)) = length xs * k"
  by (induction xs) auto

lemma elements_putLE:
  assumes "8 * k = LENGTH('a::len)" and "0 < k"
  shows "elements k (concat (map (putLE k) xs)) = (xs :: 'a word list)"
proof (rule nth_equalityI)
  show "length (elements k (concat (map (putLE k) xs)) :: 'a word list) = length xs"
    using assms(2) by (simp add: elements_def length_concat_const [where k = k])
next
  fix i assume "i < length (elements k (concat (map (putLE k) xs)) :: 'a word list)"
  then have i: "i < length xs" using assms(2) by (simp add: elements_def length_concat_const [where k = k])
  have "take k (drop (i * k) (concat (map (putLE k) xs))) = putLE k (xs ! i)"
    using i by (simp add: drop_concat [where k = k] flip: Cons_nth_drop_Suc)
  then have "elements k (concat (map (putLE k) xs)) ! i = (getLE (putLE k (xs ! i)) :: 'a word)"
    using i assms(2) by (simp add: elements_def length_concat_const [where k = k])
  then show "elements k (concat (map (putLE k) xs)) ! i = xs ! i"
    using assms(1) by (simp add: getLE_putLE)
qed

lemma bytesPerElement_simps [simp]:
  "bytesPerElement ''Uint8Array'' = 1" "bytesPerElement ''Uint8ClampedArray'' = 1" "bytesPerElement ''Int8Array'' = 1"
  "bytesPerElement ''Uint16Array'' = 2" "bytesPerElement ''Int16Array'' = 2"
  "bytesPerElement ''Uint32Array'' = 4" "bytesPerElement ''Int32Array'' = 4" "bytesPerElement ''Float32Array'' = 4"
  "bytesPerElement ''Float64Array'' = 8" "bytesPerElement ''BigInt64Array'' = 8" "bytesPerElement ''BigUint64Array'' = 8"
  by (simp_all add: bytesPerElement_def)

lemma typedArrayModelFromBytes_ok:
  "typedArrayModelFromBytes (fst (typedArrayModelBytes x)) (snd (typedArrayModelBytes x)) = Inr (TypedArray x)"
  by (cases x) (simp_all add: typedArrayModelBytes_def typedArrayModelFromBytes_def elements_putLE length_concat_const)

lemma typedArray_constructor:
  "fst (typedArrayModelBytes x) \<noteq> ''DataView''" "length (fst (typedArrayModelBytes x)) < 20"
  "unat (bytesPerElement (fst (typedArrayModelBytes x))) dvd length (snd (typedArrayModelBytes x))"
  "bytesPerElement (fst (typedArrayModelBytes x)) \<noteq> 0"
  by (cases x; simp add: typedArrayModelBytes_def length_concat_const)+

lemma typedArray_roundtrip:
  assumes "typedArrayModelBytes x = (ctor, raw)"
  shows "typedArrayModelFromBytes ctor raw = Inr (TypedArray x)" and "ctor \<noteq> ''DataView''" and "length ctor < 20"
    and "unat (bytesPerElement ctor) dvd length raw" and "bytesPerElement ctor \<noteq> 0"
  using typedArrayModelFromBytes_ok [of x] typedArray_constructor [of x] assms by simp_all

lemma emits_typedArray:
  assumes run: "encodeTypedArray ctor raw b = Inr (w, b')" and x: "typedArrayModelBytes x = (ctor, raw)"
    and k: "gb_nextID b = of_nat k" "1 \<le> k" "k + goSize L (TypedArray x) \<le> 2 ^ 32"
  shows "\<exists>k'. k' \<le> k + goSize L (TypedArray x) \<and> emitted k k' b b' [w] True [TypedArray x]"
proof -
  note rt = typedArray_roundtrip [OF x]
  let ?buf = "zeroNode\<lparr>wn_Kind := nodeArrayBuffer, wn_Bytes := raw, wn_ID := of_nat k\<rparr>"
  let ?arr = "zeroNode\<lparr>wn_Kind := nodeTypedArray, wn_TextA := ctor, wn_Buffer := refValue (of_nat k),
       wn_ByteLength := of_nat (length raw), wn_ID := of_nat (Suc k)\<rparr>"
  have len: "length raw < 2 ^ 32" "Suc k < 2 ^ 32" "k < 2 ^ 32" using k(2,3) x by simp_all
  from addNode_ok [OF k(1,2) len(3), of "zeroNode\<lparr>wn_Kind := nodeArrayBuffer, wn_Bytes := raw\<rparr>"] run
  obtain b1 where b1: "b1 = \<lparr>gb_nextID = of_nat (Suc k), gb_nodes = gb_nodes b @ [?buf]\<rparr>"
    and add: "addNode (zeroNode\<lparr>wn_Kind := nodeTypedArray, wn_TextA := ctor, wn_Buffer := refValue (of_nat k),
       wn_ByteLength := of_nat (length raw)\<rparr>) b1 = Inr (w, b')"
    by (auto simp: encodeTypedArray_def)
  have n1: "gb_nextID b1 = of_nat (Suc k)" "1 \<le> Suc k" by (simp_all add: b1)
  from addNode_ok [OF n1 len(2)] add have w: "w = refValue (of_nat (Suc k))"
    and b': "b' = \<lparr>gb_nextID = of_nat (Suc (Suc k)), gb_nodes = gb_nodes b @ [?buf, ?arr]\<rparr>" by (simp_all add: b1)
  have ul: "unat (of_nat (length raw) :: 32 word) = length raw" using len(1) by (simp add: unsigned_of_nat take_bit_nat_eq_self)
  have mod: "(of_nat (length raw) :: 32 word) mod bytesPerElement ctor = 0"
  proof -
    have "unat ((of_nat (length raw) :: 32 word) mod bytesPerElement ctor) = 0"
      unfolding unat_mod ul using rt(4) by (simp only: dvd_eq_mod_eq_0)
    then show ?thesis by (simp only: unat_eq_zero)
  qed
  have win: "\<not> of_nat (length raw) < (ucast (of_nat (length raw) :: 32 word) :: 64 word)"
  proof -
    have "unat (ucast (of_nat (length raw) :: 32 word) :: 64 word) = length raw" "unat (of_nat (length raw) :: 64 word) = length raw"
      using len(1) ul by (simp_all add: unsigned_ucast_eq unsigned_of_nat take_bit_nat_eq_self)
    then show ?thesis by (simp add: word_less_nat_alt)
  qed
  have valid: "validateWireNode tbl ?buf = None \<and> validateWireNode tbl ?arr = None \<and> validateWireValue tbl w = None"
    if "holds tbl [?buf, ?arr]" for tbl
  proof -
    define i j :: "32 word" where "i = of_nat k" and "j = of_nat (Suc k)"
    define r :: "32 word" where "r = of_nat (length raw)"
    have tbl: "tbl i = Some (zeroNode\<lparr>wn_Kind := nodeArrayBuffer, wn_Bytes := raw, wn_ID := i\<rparr>)" "j \<in> dom tbl"
      using that unfolding holds_def i_def j_def by (simp_all add: zeroNode_def dom_def del: of_nat_Suc)
    have "validateWireNode tbl (zeroNode\<lparr>wn_Kind := nodeTypedArray, wn_TextA := ctor, wn_Buffer := refValue i,
        wn_ByteLength := r, wn_ID := j\<rparr>) = None"
      by (rule validate_typedArray [where b = "zeroNode\<lparr>wn_Kind := nodeArrayBuffer, wn_Bytes := raw, wn_ID := i\<rparr>"])
        (use tbl(1) rt(5) mod [folded r_def] win [folded r_def] in \<open>simp_all add: zeroNode_def\<close>)
    moreover have "validateWireNode tbl ?buf = None" by (simp add: validateWireNode_def zeroNode_def)
    moreover have "validateWireValue tbl w = None" using tbl(2) unfolding w j_def by (auto simp: validateWireValue_None)
    ultimately show ?thesis unfolding i_def j_def r_def by blast
  qed
  have fits: "fitsNode ?buf" "fitsNode ?arr"
    using len(1) rt(3) by (simp_all add: fitsNode_def zeroNode_def fitsText_def MaxLen_def)
  have den: "denotesAll tbl [w] [TypedArray x] [of_nat (Suc k)]" if h: "holds tbl (map normNode [?buf, ?arr])" for tbl
  proof -
    have "decodeTypedArray tbl (normNode ?arr) = Inr (TypedArray x)"
      using h rt(1,2) ul by (auto simp: decodeTypedArray_def holds_def normNode_def normBody_def zeroNode_def Let_def typedArrayWindowBytes_def)
    then have sh: "shape tbl (normNode ?arr) = Some ([], \<lambda>_. TypedArray x)" by (simp add: shape_def)
    have "denotes tbl w ((\<lambda>_. TypedArray x) []) (wv_Ref w # [])"
      by (rule node [OF _ _ sh none]) (use h in \<open>auto simp: w holds_def\<close>)
    then have "denotesAll tbl [w] [TypedArray x] ([of_nat (Suc k)] @ [])" unfolding w by (intro some none) simp
    then show ?thesis by simp
  qed
  have mem: "(of_nat (Suc k) :: 32 word) \<in> of_nat ` {k ..< Suc (Suc k)}" by (rule imageI) simp
  have "emitted k (Suc (Suc k)) b b' [w] True [TypedArray x]"
    unfolding emitted_def using b' fits valid den w mem
    by (intro conjI impI exI [of _ "[?buf, ?arr]"] exI [of _ "[of_nat (Suc k)]"]) (auto simp del: of_nat_Suc)
  then show ?thesis by (intro exI [of _ "Suc (Suc k)"]) simp
qed

subsection \<open>Every value\<close>

lemma encodeNumber_Inr: "encodeNumber x path = Inr w \<longleftrightarrow> numberSafe x \<and> w = numberValue (numberBits x)"
proof -
  have small: "\<not> sint (y :: 8 word) < - maxJSSafeInteger \<and> \<not> maxJSSafeInteger < sint y"
    "\<not> sint (z :: 16 word) < - maxJSSafeInteger \<and> \<not> maxJSSafeInteger < sint z"
    "\<not> sint (u :: 32 word) < - maxJSSafeInteger \<and> \<not> maxJSSafeInteger < sint u"
    "\<not> maxJSSafeInteger < uint y" "\<not> maxJSSafeInteger < uint z" "\<not> maxJSSafeInteger < uint u" for y z u
    using sint_greater_eq [of y] sint_less [of y] sint_greater_eq [of z] sint_less [of z] sint_greater_eq [of u] sint_less [of u]
      uint_lt2p [of y] uint_lt2p [of z] uint_lt2p [of u]
    by (auto simp: maxJSSafeInteger_def)
  show ?thesis
    by (cases x) (auto simp: numberFromInt_def numberFromUint_def small not_less abs_le_iff split: if_splits)
qed

lemma leafValue_number: "leafValue (numberValue f) = Some (GoNumber (GoFloat64 f))" "fitsValue (numberValue f)"
  by (simp_all add: leafValue_def numberValue_def fitsValue_def zeroValue_def)

lemma emitted_plainNode:
  assumes "gb_nextID b = of_nat k" and "1 \<le> k" and "k + m \<le> 2 ^ 32" and "0 < m" and "addNode node b = Inr (w, b')"
    and "fitsNode node" and "\<And>tbl nid. validateWireNode tbl (node\<lparr>wn_ID := nid\<rparr>) = None"
    and "\<And>tbl nid. \<exists>f. shape tbl (normNode (node\<lparr>wn_ID := nid\<rparr>)) = Some ([], f) \<and> f [] = g"
  shows "\<exists>k'. k' \<le> k + m \<and> emitted k k' b b' [w] T [g]"
  using emitted_node [OF emitted_nil [OF assms(1)] assms(2) _ assms(5), of T g] assms by (intro exI [of _ "Suc k"]) auto

lemma size_ObjectType: "(k, v) \<in> set kvs \<Longrightarrow> size v < size (ObjectType kvs)" "(k, v) \<in> set kvs \<Longrightarrow> size v < size (GoMap kvs)"
  by (force dest: size_list_estimation simp: less_Suc_eq_le size_list_estimation' prod.size_gen)+

lemma size_ArrayType: "v \<in> set vs \<Longrightarrow> size v < size (ArrayType vs)" "v \<in> set vs \<Longrightarrow> size v < size (GoSlice vs)"
    "v \<in> set vs \<Longrightarrow> size v < size (SetType vs)"
  by (auto simp: less_Suc_eq_le size_list_estimation')

lemma size_MapType: "(k, v) \<in> set kvs \<Longrightarrow> size k < size (MapType kvs) \<and> size v < size (MapType kvs)"
  by (force dest: size_list_estimation simp: less_Suc_eq_le size_list_estimation' prod.size_gen)

lemma encode_emits:
  assumes L: "musLib_ok L"
  shows "emits L (encode L) v"
proof (induction v rule: measure_induct_rule [of size])
  case (less v)
  show ?case
    unfolding emits_def
  proof (intro allI impI)
    fix path b w b' k
    assume run: "encode L v path b = Inr (w, b')" and k: "gb_nextID b = of_nat k" "1 \<le> k" "k + goSize L v \<le> 2 ^ 32"
    show "\<exists>k'. k' \<le> k + goSize L v \<and> emitted k k' b b' [w] (treeable L v) [goNorm L v]"
    proof (cases v)
      case (GoValue raw)
      with run obtain g where g: "unmarshalGraph L raw = Inr g" by (auto simp: appendGraph_def ofWire_def split: sum.splits)
      have "k + length (wg_Nodes g) \<le> 2 ^ 32" using k(3) GoValue g by simp
      from emitted_graph [OF L g k(1,2) this] obtain w1 b1 where
        1: "appendGraph L raw b = Inr (w1, b1)" "\<And>v. emitted k (k + length (wg_Nodes g)) b b1 [w1] (Decode L raw = Inr v) [canonGo v]" by auto
      have "emitted k (k + length (wg_Nodes g)) b b' [w] (treeable L v) [goNorm L v]"
      proof (cases "Decode L raw")
        case (Inl e)
        with 1(2) [of GoNil] run 1(1) GoValue show ?thesis by (auto simp: emitted_def)
      next
        case (Inr u)
        with 1(2) [of u] run 1(1) GoValue show ?thesis by (auto elim: emitted_weaken)
      qed
      then show ?thesis using GoValue g by (intro exI [of _ "k + length (wg_Nodes g)"]) simp
    next
      case (GoNumber x)
      with run have "b' = b" "w = numberValue (numberBits x)" by (auto simp: encodeNumber_Inr)
      with GoNumber emitted_leaf [OF k(1) leafValue_number, of "numberBits x" "treeable L v"] show ?thesis by (intro exI [of _ k]) simp
    next
      case (ObjectType kvs)
      show ?thesis unfolding ObjectType by (rule emits_object) (use ObjectType run k less.IH size_ObjectType(1) in auto)
    next
      case (GoMap kvs)
      then have eqs: "goSize L v = goSize L (ObjectType kvs)" "treeable L v = treeable L (ObjectType kvs)" "goNorm L v = goNorm L (ObjectType kvs)" by simp_all
      show ?thesis unfolding eqs by (rule emits_object) (use GoMap run k less.IH size_ObjectType(2) in auto)
    next
      case (ArrayType vs)
      show ?thesis unfolding ArrayType by (rule emits_array) (use ArrayType run k less.IH size_ArrayType(1) in auto)
    next
      case (GoSlice vs)
      then have eqs: "goSize L v = goSize L (ArrayType vs)" "treeable L v = treeable L (ArrayType vs)" "goNorm L v = goNorm L (ArrayType vs)" by simp_all
      show ?thesis unfolding eqs by (rule emits_array) (use GoSlice run k less.IH size_ArrayType(2) in auto)
    next
      case (MapType kvs)
      show ?thesis unfolding MapType by (rule emits_map) (use MapType run k less.IH size_MapType in auto)
    next
      case (SetType vs)
      show ?thesis unfolding SetType by (rule emits_set) (use SetType run k less.IH size_ArrayType(3) in auto)
    next
      case (TypedArray x)
      obtain ctor raw where x: "typedArrayModelBytes x = (ctor, raw)" by (cases "typedArrayModelBytes x")
      from emits_typedArray [OF _ x k(1,2), of w b' L] TypedArray run k(3) x show ?thesis by simp
    next
      case (BigIntType s)
      with run have "b' = b" "w = zeroValue\<lparr>wv_Kind := valueBigInt, wv_Text := s\<rparr>" "validateBigIntText s = None"
        by (auto split: option.splits)
      with BigIntType k emitted_leaf [OF k(1), of w "BigIntType s" "treeable L v"] show ?thesis
        by (intro exI [of _ k]) (simp add: leafValue_def fitsValue_def fitsText_def MaxLen_def)
    next
      case (GoString s)
      with run k emitted_leaf [OF k(1), of w "GoString s" "treeable L v"] show ?thesis
        by (intro exI [of _ k]) (auto simp: leafValue_def fitsValue_def fitsText_def MaxLen_def)
    next
      case (RegExpType s f)
      then show ?thesis using run k
        by (intro emitted_plainNode [OF k(1,2), of _ "zeroNode\<lparr>wn_Kind := nodeRegexp, wn_TextA := s, wn_TextB := f\<rparr>"])
           (auto simp: node_simps fitsText_def MaxLen_def split: option.splits)
    next
      case (ArrayBufferType bs)
      then show ?thesis using run k
        by (intro emitted_plainNode [OF k(1,2), of _ "zeroNode\<lparr>wn_Kind := nodeArrayBuffer, wn_Bytes := bs\<rparr>"])
           (auto simp: node_simps fitsText_def MaxLen_def)
    next
      case (DateType t)
      then show ?thesis using run k
        by (intro emitted_plainNode [OF k(1,2), of _ "zeroNode\<lparr>wn_Kind := nodeDate, wn_DateValid := True, wn_DateMS := UnixMilli t\<rparr>"])
           (auto simp: node_simps)
    next
      case (GoTime t)
      then show ?thesis using run k
        by (intro emitted_plainNode [OF k(1,2), of _ "zeroNode\<lparr>wn_Kind := nodeDate, wn_DateValid := True, wn_DateMS := UnixMilli t\<rparr>"])
           (auto simp: node_simps)
    next
      case GoNil
      with run k emitted_leaf [OF k(1), of w GoNil "treeable L v"] show ?thesis
        by (intro exI [of _ k]) (auto simp: leafValue_def fitsValue_def zeroValue_def)
    next
      case (GoBool x)
      with run k emitted_leaf [OF k(1), of w "GoBool x" "treeable L v"] show ?thesis
        by (intro exI [of _ k]) (auto simp: leafValue_def fitsValue_def zeroValue_def)
    next
      case (GoOther t)
      with run show ?thesis by simp
    qed
  qed
qed

subsection \<open>When encoding succeeds\<close>

lemma smap_encodable:
  "smap f xs b = Inr (ys, b') \<Longrightarrow> x \<in> set xs \<Longrightarrow> \<exists>b y b'. f x b = Inr (y, b')"
  by (induction xs arbitrary: b ys) auto

lemma in_enumerate: "x \<in> set xs \<Longrightarrow> \<exists>i. (i, x) \<in> set (enumerate n xs)"
  by (induction xs arbitrary: n) auto

lemma encode_encodable: "encode L v path b = Inr r \<Longrightarrow> encodable L v"
proof (induction v arbitrary: path b r rule: measure_induct_rule [of size])
  case (less v)
  have obj: "encodable L u" if "encodeObject (encode L) kvs path b = Inr r" "(key, u) \<in> set kvs" "size u < size v" for kvs key u
  proof -
    from that(1) obtain props b1 where "smap (\<lambda>(key, v) b. smapResult (\<lambda>w. \<lparr>wp_Key = key, wp_Value = w\<rparr>)
        (encode L v (objectPath path key) b)) (sort_key fst kvs) b = Inr (props, b1)" by (auto simp: encodeObject_def)
    from smap_encodable [OF this, of "(key, u)"] that(2) obtain c w c' where "encode L u (objectPath path key) c = Inr (w, c')" by auto
    with less.IH that(3) show ?thesis by blast
  qed
  have items: "encodable L u" if "smap (\<lambda>(i, item) b. smapResult h (encode L item (p i) b)) (enumerate 0 us) b = Inr (ys, b1)"
    "u \<in> set us" "size u < size v" for us u and h :: "wireValue \<Rightarrow> 'z" and p ys b1
  proof -
    from in_enumerate [OF that(2)] obtain i where "(i, u) \<in> set (enumerate 0 us)" by auto
    from smap_encodable [OF that(1) this] obtain c w c' where "encode L u (p i) c = Inr (w, c')" by auto
    with less.IH that(3) show ?thesis by blast
  qed
  show ?case
  proof (cases v)
    case (GoValue raw)
    with less.prems show ?thesis by (auto simp: appendGraph_def ofWire_def split: sum.splits)
  next
    case (GoNumber x)
    with less.prems show ?thesis by (cases r) (auto simp: encodeNumber_Inr)
  next
    case (ObjectType kvs)
    with less.prems obj [of kvs] size_ObjectType(1) show ?thesis by (fastforce simp: list_all_iff simp del: goValue.size)
  next
    case (GoMap kvs)
    with less.prems obj [of kvs] size_ObjectType(2) show ?thesis by (fastforce simp: list_all_iff simp del: goValue.size)
  next
    case (ArrayType us)
    with less.prems obtain ys b1 where "smap (\<lambda>(i, item) b. smapResult (\<lambda>w. \<lparr>ws_Present = True, ws_Value = w\<rparr>)
        (encode L item (arrayPath path i) b)) (enumerate 0 us) b = Inr (ys, b1)" by (cases r) (auto simp: encodeArray_def)
    from items [OF this] ArrayType size_ArrayType(1) show ?thesis by (auto simp: list_all_iff simp del: goValue.size)
  next
    case (GoSlice us)
    with less.prems obtain ys b1 where "smap (\<lambda>(i, item) b. smapResult (\<lambda>w. \<lparr>ws_Present = True, ws_Value = w\<rparr>)
        (encode L item (arrayPath path i) b)) (enumerate 0 us) b = Inr (ys, b1)" by (cases r) (auto simp: encodeArray_def)
    from items [OF this] GoSlice size_ArrayType(2) show ?thesis by (auto simp: list_all_iff simp del: goValue.size)
  next
    case (SetType us)
    have id: "smapResult (\<lambda>w. w) r = r" for r :: "codecError + wireValue \<times> graphBuilder"
      by (cases r) (auto simp: smapResult_def)
    from SetType less.prems obtain ys b1 where "smap (\<lambda>(i, item) b. smapResult (\<lambda>w. w)
        (encode L item (setValuePath path i) b)) (enumerate 0 us) b = Inr (ys, b1)" by (cases r) (auto simp: encodeSet_def id)
    from items [OF this] SetType size_ArrayType(3) show ?thesis by (auto simp: list_all_iff simp del: goValue.size)
  next
    case (MapType kvs)
    have "encodable L key \<and> encodable L u" if "(key, u) \<in> set kvs" for key u
    proof -
      from MapType less.prems obtain es b1 where sm: "smap (\<lambda>(i, key, v) b.
         rbind (encode L key (mapEntryPath path i ''key'') b) (\<lambda>(k, b).
         smapResult (\<lambda>w. \<lparr>we_Key = k, we_Value = w\<rparr>) (encode L v (mapEntryPath path i ''value'') b))) (enumerate 0 kvs) b = Inr (es, b1)"
        by (cases r) (auto simp: encodeMap_def)
      from in_enumerate [OF that] obtain i where "(i, key, u) \<in> set (enumerate 0 kvs)" by auto
      from smap_encodable [OF sm this] obtain c p q w w' c' where
        "encode L key p c = Inr w" "encode L u q c' = Inr w'" by auto
      with less.IH size_MapType [OF that] MapType show ?thesis by blast
    qed
    with MapType show ?thesis by (auto simp: list_all_iff)
  qed (use less.prems in \<open>auto split: option.splits\<close>)
qed

definition steps :: "nat \<Rightarrow> (graphBuilder \<Rightarrow> codecError + 'a \<times> graphBuilder) \<Rightarrow> bool" where
  "steps m f \<longleftrightarrow> (\<forall>b k. gb_nextID b = of_nat k \<longrightarrow> 1 \<le> k \<longrightarrow> k + m \<le> 2 ^ 32 \<longrightarrow>
     (\<exists>y b' k'. f b = Inr (y, b') \<and> gb_nextID b' = of_nat k' \<and> k \<le> k' \<and> k' \<le> k + m))"

lemma stepsE:
  assumes "steps m f" and "gb_nextID b = of_nat k" and "1 \<le> k" and "k + m \<le> 2 ^ 32"
  obtains y b' k' where "f b = Inr (y, b')" "gb_nextID b' = of_nat k'" "k \<le> k'" "k' \<le> k + m"
  using assms unfolding steps_def by blast

lemma steps_mono: "steps m f \<Longrightarrow> m \<le> n \<Longrightarrow> steps n f"
  unfolding steps_def by (meson add_left_mono le_trans)

lemma steps_pure: "steps m (\<lambda>b. Inr (x, b))"
  by (auto simp: steps_def)

lemma steps_bind:
  assumes "steps m f" and "\<And>y. steps n (g y)"
  shows "steps (m + n) (\<lambda>b. rbind (f b) (\<lambda>(y, b). g y b))"
  unfolding steps_def
proof (intro allI impI)
  fix b :: graphBuilder and k assume k: "gb_nextID b = of_nat k" "1 \<le> k" "k + (m + n) \<le> 2 ^ 32"
  then have "k + m \<le> 2 ^ 32" by simp
  from stepsE [OF assms(1) k(1,2) this] obtain y b1 k1 where
    1: "f b = Inr (y, b1)" "gb_nextID b1 = of_nat k1" "k \<le> k1" "k1 \<le> k + m" .
  have "1 \<le> k1" "k1 + n \<le> 2 ^ 32" using k 1 by auto
  from stepsE [OF assms(2) 1(2) this, of y] obtain z b2 k2 where
    "g y b1 = Inr (z, b2)" "gb_nextID b2 = of_nat k2" "k1 \<le> k2" "k2 \<le> k1 + n" .
  with 1 show "\<exists>y b' k'. rbind (f b) (\<lambda>(y, b). g y b) = Inr (y, b') \<and> gb_nextID b' = of_nat k' \<and> k \<le> k' \<and> k' \<le> k + (m + n)"
    by (intro exI [of _ z] exI [of _ b2] exI [of _ k2]) simp
qed

lemma steps_result: "steps m f \<Longrightarrow> steps m (\<lambda>b. smapResult h (f b))"
  using steps_bind [of m f 0 "\<lambda>y b. Inr (h y, b)"] by (simp add: steps_pure smapResult_def)

lemma steps_addNode: "0 < m \<Longrightarrow> steps m (addNode node)"
  unfolding steps_def
proof (intro allI impI)
  fix b :: graphBuilder and k assume m: "0 < m" and k: "gb_nextID b = of_nat k" "1 \<le> k" "k + m \<le> 2 ^ 32"
  then have "k < 2 ^ 32" by simp
  from addNode_ok [OF k(1,2) this, of node] m
  show "\<exists>y b' k'. addNode node b = Inr (y, b') \<and> gb_nextID b' = of_nat k' \<and> k \<le> k' \<and> k' \<le> k + m"
    by (intro exI [of _ "refValue (of_nat k)"] exI [of _ "\<lparr>gb_nextID = of_nat (Suc k), gb_nodes = gb_nodes b @ [node\<lparr>wn_ID := of_nat k\<rparr>]\<rparr>"]
        exI [of _ "Suc k"]) simp
qed

lemma steps_smap: "(\<And>x. x \<in> set xs \<Longrightarrow> steps (m x) (f x)) \<Longrightarrow> steps (sum_list (map m xs)) (smap f xs)"
proof (induction xs)
  case (Cons x xs)
  have "steps (m x + (sum_list (map m xs) + 0)) (\<lambda>b. rbind (f x b) (\<lambda>(y, b). rbind (smap f xs b) (\<lambda>(ys, b). Inr (y # ys, b))))"
    by (intro steps_bind steps_pure Cons) auto
  then show ?case by simp
next
  case Nil
  show ?case using steps_pure [of 0 "[]"] by (simp add: steps_def)
qed

lemma steps_smap_enumerate:
  "(\<And>i x. x \<in> set xs \<Longrightarrow> steps (m x) (f i x)) \<Longrightarrow> steps (sum_list (map m xs)) (smap (\<lambda>(i, x) b. f i x b) (enumerate 0 xs))"
  using steps_smap [of "enumerate 0 xs" "\<lambda>(i, x). m x" "\<lambda>(i, x) b. f i x b"] by (force simp: map_snd_enumerate dest: enumerate_snd)

lemma steps_Suc: "steps m f \<Longrightarrow> (\<And>y. steps 1 (g y)) \<Longrightarrow> steps (Suc m) (\<lambda>b. rbind (f b) (\<lambda>(y, b). g y b))"
  using steps_bind [of m f 1 g] by simp

lemma encode_steps:
  assumes L: "musLib_ok L"
  shows "encodable L v \<Longrightarrow> steps (goSize L v) (encode L v path)"
proof (induction v arbitrary: path rule: measure_induct_rule [of size])
  case (less v)
  have obj: "steps (goSize L (ObjectType kvs)) (encodeObject (encode L) kvs path)"
    if "list_all (\<lambda>(k, v). encodable L v) kvs" "\<And>k u. (k, u) \<in> set kvs \<Longrightarrow> size u < size v" for kvs
  proof -
    have "steps (sum_list (map (\<lambda>(k, v). length k + goSize L v) (sort_key fst kvs)))
        (smap (\<lambda>(key, v) b. smapResult (\<lambda>w. \<lparr>wp_Key = key, wp_Value = w\<rparr>) (encode L v (objectPath path key) b)) (sort_key fst kvs))"
    proof (rule steps_smap, clarify)
      fix k u assume "(k, u) \<in> set (sort_key fst kvs)"
      then have "steps (goSize L u) (encode L u p)" for p using that less.IH by (auto simp: list_all_iff)
      then show "steps (length k + goSize L u) (\<lambda>b. smapResult (\<lambda>w. \<lparr>wp_Key = k, wp_Value = w\<rparr>) (encode L u (objectPath path k) b))"
        by (intro steps_result steps_mono [of "goSize L u" _ "length k + goSize L u"]) simp_all
    qed
    then show ?thesis
      unfolding encodeObject_def using sum_list_sort_key [of "\<lambda>(k, v). length k + goSize L v" fst kvs]
      by (auto intro!: steps_Suc steps_addNode)
  qed
  have items: "steps (sum_list (map (goSize L) us)) (smap (\<lambda>(i, item) b. smapResult h (encode L item (p i) b)) (enumerate 0 us))"
    if "list_all (encodable L) us" "\<And>u. u \<in> set us \<Longrightarrow> size u < size v" for us p and h :: "wireValue \<Rightarrow> 'z"
    by (rule steps_smap_enumerate) (use that less.IH in \<open>auto simp: list_all_iff intro!: steps_result\<close>)
  have id: "smapResult (\<lambda>w. w) r = r" for r :: "codecError + wireValue \<times> graphBuilder"
    by (cases r) (auto simp: smapResult_def)
  show ?case
  proof (cases v)
    case (GoValue raw)
    with less.prems obtain g where g: "unmarshalGraph L raw = Inr g" by (auto split: sum.splits)
    show ?thesis
      unfolding steps_def
    proof (intro allI impI)
      fix b :: graphBuilder and k assume k: "gb_nextID b = of_nat k" "1 \<le> k" "k + goSize L v \<le> 2 ^ 32"
      then have "k + length (wg_Nodes g) \<le> 2 ^ 32" using GoValue g by simp
      from emitted_graph [OF L g k(1,2) this] obtain w b' where "appendGraph L raw b = Inr (w, b')"
        "emitted k (k + length (wg_Nodes g)) b b' [w] (Decode L raw = Inr GoNil) [canonGo GoNil]" by blast
      then show "\<exists>y b' k'. encode L v path b = Inr (y, b') \<and> gb_nextID b' = of_nat k' \<and> k \<le> k' \<and> k' \<le> k + goSize L v"
        using GoValue g by (intro exI [of _ w] exI [of _ b'] exI [of _ "k + length (wg_Nodes g)"]) (simp add: emitted_def)
    qed
  next
    case (GoNumber x)
    with less.prems have "encodeNumber x p = Inr (numberValue (numberBits x))" for p by (simp add: encodeNumber_Inr)
    with GoNumber show ?thesis by (simp add: steps_pure)
  next
    case (ObjectType kvs)
    with less.prems obj [of kvs] size_ObjectType(1) [of _ _ kvs] show ?thesis by (simp del: goValue.size)
  next
    case (GoMap kvs)
    with less.prems obj [of kvs] size_ObjectType(2) [of _ _ kvs] show ?thesis by (simp del: goValue.size)
  next
    case (ArrayType us)
    with less.prems items [of us] size_ArrayType(1) [of _ us] show ?thesis
      by (auto simp: encodeArray_def simp del: goValue.size intro!: steps_Suc steps_addNode)
  next
    case (GoSlice us)
    with less.prems items [of us] size_ArrayType(2) [of _ us] show ?thesis
      by (auto simp: encodeArray_def simp del: goValue.size intro!: steps_Suc steps_addNode)
  next
    case (SetType us)
    with less.prems items [of us "\<lambda>w. w"] size_ArrayType(3) [of _ us] show ?thesis
      by (auto simp: encodeSet_def id simp del: goValue.size intro!: steps_Suc steps_addNode)
  next
    case (MapType kvs)
    have "steps (sum_list (map (\<lambda>(k, v). goSize L k + goSize L v) kvs)) (smap (\<lambda>(i, kv) b. case kv of (key, v) \<Rightarrow>
         rbind (encode L key (mapEntryPath path i ''key'') b) (\<lambda>(k, b).
         smapResult (\<lambda>w. \<lparr>we_Key = k, we_Value = w\<rparr>) (encode L v (mapEntryPath path i ''value'') b))) (enumerate 0 kvs))"
    proof (rule steps_smap_enumerate)
      fix i :: nat and kv assume kv: "kv \<in> set kvs"
      obtain k u where kvu: "kv = (k, u)" by (cases kv)
      then have ku: "(k, u) \<in> set kvs" using kv by simp
      have "steps (goSize L k) (encode L k p)" "steps (goSize L u) (encode L u p)" for p
        using less.IH size_MapType [OF ku] less.prems ku MapType by (auto simp: list_all_iff simp del: goValue.size)
      then show "steps (case kv of (k, v) \<Rightarrow> goSize L k + goSize L v) (\<lambda>b. case kv of (key, v) \<Rightarrow>
          rbind (encode L key (mapEntryPath path i ''key'') b) (\<lambda>(k, b).
          smapResult (\<lambda>w. \<lparr>we_Key = k, we_Value = w\<rparr>) (encode L v (mapEntryPath path i ''value'') b)))"
        unfolding kvu prod.case by (intro steps_bind steps_result)
    qed
    moreover have "(\<lambda>(i, kv) b. case kv of (key, v) \<Rightarrow> F i key v b) = (\<lambda>(i, key, v) b. F i key v b)"
      for F :: "nat \<Rightarrow> goValue \<Rightarrow> goValue \<Rightarrow> graphBuilder \<Rightarrow> codecError + wireEntry \<times> graphBuilder" by auto
    ultimately show ?thesis
      using MapType by (auto simp: encodeMap_def intro!: steps_Suc steps_addNode)
  next
    case (TypedArray x)
    obtain ctor raw where x: "typedArrayModelBytes x = (ctor, raw)" by (cases "typedArrayModelBytes x")
    have "steps (Suc (Suc (length raw))) (encodeTypedArray ctor raw)"
      unfolding encodeTypedArray_def by (intro steps_Suc steps_addNode) simp_all
    with TypedArray x show ?thesis by simp
  qed (use less.prems in \<open>auto simp: steps_pure intro!: steps_addNode\<close>)
qed

subsection \<open>Payloads\<close>

lemma holds_nodeByID: "distinct (map wn_ID ns) \<Longrightarrow> holds (nodeByID ns) ns"
  by (simp add: holds_def nodeByID_in)

lemma finish_emitted:
  assumes L: "musLib_ok L" and em: "emitted 1 k newGraphBuilder b [root] T [v]" and k: "k \<le> 2 ^ 32"
  shows "\<exists>bs. finishGraph L b root = Inr bs \<and> (\<exists>g. unmarshalGraph L bs = Inr g) \<and> (T \<longrightarrow> Decode L bs = Inr v)"
proof -
  let ?g = "\<lparr>wg_Root = root, wg_Nodes = gb_nodes b\<rparr>"
  from em have ids: "map wn_ID (gb_nodes b) = map of_nat [1 ..< k]" and fits: "list_all fitsNode (gb_nodes b)" "fitsValue root"
    and valid: "\<And>tbl. holds tbl (gb_nodes b) \<Longrightarrow> list_all (\<lambda>n. validateWireNode tbl n = None) (gb_nodes b) \<and> validateWireValue tbl root = None"
    and den: "T \<longrightarrow> (\<exists>R. distinct R \<and> (\<forall>tbl. holds tbl (map normNode (gb_nodes b)) \<longrightarrow> denotesAll tbl [normValue root] [v] R))"
    unfolding emitted_def by (auto simp: newGraphBuilder_def)
  have len: "length (gb_nodes b) = k - 1" using arg_cong [OF ids, of length] by simp
  have "distinct (map of_nat [1 ..< k] :: 32 word list)"
    using k by (auto simp: distinct_map intro!: inj_on_subset [OF of_nat_inj32])
  then have dist: "distinct (map wn_ID (gb_nodes b))" by (simp only: ids)
  have "0 \<notin> set (map wn_ID (gb_nodes b))" unfolding ids using k of_nat_nz by force
  then have nz: "0 \<notin> wn_ID ` set (gb_nodes b)" by simp
  have fg: "fitsGraph ?g"
    using fits len k fitsSlice_small [of "2 ^ 32 - 1" "gb_nodes b" 304] by (simp add: fitsGraph_def)
  have "validateGraphNodeIDs [] (gb_nodes b) = None" "firstErr (validateWireNode (nodeByID (gb_nodes b))) (gb_nodes b) = None"
    "validateWireValue (nodeByID (gb_nodes b)) root = None"
    using valid [OF holds_nodeByID [OF dist]] dist nz by (simp_all add: validateIDs_distinct firstErr_None list_all_iff)
  then have vg: "validateGraph ?g = None" by (simp add: validateGraph_def)
  from unmarshal_graphBytes [OF L fg] vg
  have un: "unmarshalGraph L (graphBytes L ?g) = Inr (normGraph ?g)" by (simp add: validateGraph_norm)
  have "Decode L (graphBytes L ?g) = Inr v" if T
  proof -
    from den that obtain R where R: "distinct R" "\<And>tbl. holds tbl (map normNode (gb_nodes b)) \<Longrightarrow> denotesAll tbl [normValue root] [v] R"
      by auto
    have "distinct (map wn_ID (map normNode (gb_nodes b)))" using dist by (simp add: comp_def)
    from R(2) [OF holds_nodeByID [OF this]] have "denotes (nodeByID (map normNode (gb_nodes b))) (normValue root) v R"
      by (auto simp: denotesAll_Cons)
    with R(1) un show ?thesis by (auto simp: Decode_iff normGraph_def)
  qed
  then show ?thesis
    using marshalGraph_bytes [OF L fg] un by (auto simp: finishGraph_def ofWire_def)
qed

lemma Encode_cases: "(\<And>raw. v \<noteq> GoValue raw) \<Longrightarrow> Encode L v = rbind (encode L v [] newGraphBuilder) (\<lambda>(root, b). finishGraph L b root)"
  by (cases v) (auto simp: Encode_def)

lemma Encode_emitted:
  assumes L: "musLib_ok L" and raw: "\<And>raw. v \<noteq> GoValue raw" and small: "goSize L v < 2 ^ 32"
  shows "(\<exists>bs. Encode L v = Inr bs) \<longleftrightarrow> encodable L v"
    and "Encode L v = Inr bs \<Longrightarrow> (\<exists>g. unmarshalGraph L bs = Inr g) \<and> (treeable L v \<longrightarrow> Decode L bs = Inr (goNorm L v))"
proof -
  have k: "gb_nextID newGraphBuilder = of_nat 1" "(1 :: nat) \<le> 1" "1 + goSize L v \<le> 2 ^ 32" using small by (simp_all add: newGraphBuilder_def)
  have fin: "\<exists>bs. finishGraph L b root = Inr bs \<and> (\<exists>g. unmarshalGraph L bs = Inr g) \<and> (treeable L v \<longrightarrow> Decode L bs = Inr (goNorm L v))"
    if "encode L v [] newGraphBuilder = Inr (root, b)" for root b
  proof -
    from encode_emits [OF L, of v, unfolded emits_def] that k obtain k' where
      "k' \<le> 1 + goSize L v" "emitted 1 k' newGraphBuilder b [root] (treeable L v) [goNorm L v]" by blast
    with finish_emitted [OF L this(2)] small show ?thesis by simp
  qed
  show "(\<exists>bs. Encode L v = Inr bs) \<longleftrightarrow> encodable L v"
  proof
    assume "\<exists>bs. Encode L v = Inr bs"
    then show "encodable L v" by (auto simp: Encode_cases [OF raw] dest: encode_encodable)
  next
    assume "encodable L v"
    from stepsE [OF encode_steps [OF L this] k] obtain root b where run: "encode L v [] newGraphBuilder = Inr (root, b)" by metis
    with fin [OF run] show "\<exists>bs. Encode L v = Inr bs" by (auto simp: Encode_cases [OF raw])
  qed
  assume "Encode L v = Inr bs"
  then obtain root b where "encode L v [] newGraphBuilder = Inr (root, b)" "finishGraph L b root = Inr bs" by (auto simp: Encode_cases [OF raw])
  with fin show "(\<exists>g. unmarshalGraph L bs = Inr g) \<and> (treeable L v \<longrightarrow> Decode L bs = Inr (goNorm L v))" by fastforce
qed

end
