(* ===== verification/Wire_Patch_Trees.thy ===== *)
theory Wire_Patch_Trees
  imports Wire_Patch Wire_Roundtrip "HOL-Library.AList"
begin

text \<open>
  An edit of one object node of a graph, seen on the tree the graph denotes:
  \<open>editAt\<close> is the edit of the tree, \<open>parentOf\<close> finds the node.
\<close>

subsection \<open>Sorted association lists\<close>

abbreviation sortedMap :: "(string \<times> 'a) list \<Rightarrow> bool" where
  "sortedMap m \<equiv> sorted_wrt (<) (map fst m)"

lemma map_of_mapPut: "map_of (mapPut k v m) = (map_of m)(k \<mapsto> v)"
  by (induction m) auto

lemma keys_mapPut: "fst ` set (mapPut k v m) = insert k (fst ` set m)"
  by (simp add: map_of_mapPut flip: dom_map_of_conv_image_fst)

lemma sorted_mapPut: "sortedMap m \<Longrightarrow> sortedMap (mapPut k v m)"
proof (induction m)
  case (Cons kv m)
  obtain k' v' where kv: "kv = (k', v')" by (cases kv)
  have "\<forall>x \<in> fst ` set (mapPut k v m). k' < x" if "k' < k"
    using Cons.prems that by (auto simp: kv keys_mapPut)
  with Cons show ?case by (fastforce simp: kv)
qed simp

lemma mapOfList_snoc: "mapOfList (kvs @ [(k, v)]) = mapPut k v (mapOfList kvs)"
  by (simp add: mapOfList_def)

lemma sorted_mapOfList: "sortedMap (mapOfList kvs)"
proof (induction kvs rule: rev_induct)
  case (snoc kv kvs)
  then show ?case by (cases kv) (simp add: mapOfList_snoc sorted_mapPut)
qed (simp add: mapOfList_def)

lemma map_of_mapOfList: "distinct (map fst kvs) \<Longrightarrow> map_of (mapOfList kvs) = map_of kvs"
proof (induction kvs rule: rev_induct)
  case (snoc kv kvs)
  then have "map_of kvs (fst kv) = None" by (auto simp: map_of_eq_None_iff)
  with snoc show ?case by (cases kv) (auto simp: mapOfList_snoc map_of_mapPut map_add_def fun_eq_iff split: option.splits)
qed (simp add: mapOfList_def)

lemma sortedMap_ext:
  assumes "sortedMap m" and "sortedMap m'" and "map_of m = map_of m'"
  shows "m = m'"
proof -
  have d: "distinct (map fst m)" "distinct (map fst m')" using assms(1,2) by (simp_all add: strict_sorted_iff)
  have "set m = set m'"
  proof -
    have "x \<in> set m \<longleftrightarrow> map_of m (fst x) = Some (snd x)" "x \<in> set m' \<longleftrightarrow> map_of m' (fst x) = Some (snd x)" for x
      using map_of_eq_Some_iff [OF d(1), of "fst x" "snd x"] map_of_eq_Some_iff [OF d(2), of "fst x" "snd x"] by auto
    with assms(3) show ?thesis by auto
  qed
  moreover have "inj_on fst (set m \<union> set m')" using d \<open>set m = set m'\<close> by (simp add: distinct_map)
  moreover have "sorted (map fst m)" "sorted (map fst m')" using assms(1,2) by (simp_all add: strict_sorted_iff)
  ultimately show ?thesis using d by (intro map_sorted_distinct_set_unique [of fst]) (simp_all add: distinct_map)
qed

lemma distinct_update: "distinct (map fst kvs) \<Longrightarrow> distinct (map fst (AList.update k v kvs))"
  by (rule distinct_update)

lemma mapOfList_update: "distinct (map fst kvs) \<Longrightarrow> mapOfList (AList.update k v kvs) = mapPut k v (mapOfList kvs)"
  by (rule sortedMap_ext)
     (simp_all add: sorted_mapOfList sorted_mapPut map_of_mapPut map_of_mapOfList AList.distinct_update update_conv')

definition mapRemove :: "string \<Rightarrow> (string \<times> 'a) list \<Rightarrow> (string \<times> 'a) list" where
  "mapRemove k m = filter (\<lambda>(k', _). k' \<noteq> k) m"

lemma sorted_mapRemove: "sortedMap m \<Longrightarrow> sortedMap (mapRemove k m)"
  by (induction m) (auto simp: mapRemove_def)

lemma map_of_mapRemove: "map_of (mapRemove k m) = (map_of m)(k := None)"
  by (induction m) (auto simp: mapRemove_def)

lemma mapOfList_remove: "distinct (map fst kvs) \<Longrightarrow> mapOfList (mapRemove k kvs) = mapRemove k (mapOfList kvs)"
proof (rule sortedMap_ext)
  assume d: "distinct (map fst kvs)"
  have "distinct (map fst (mapRemove k kvs))" using d by (induction kvs) (auto simp: mapRemove_def)
  with d show "map_of (mapOfList (mapRemove k kvs)) = map_of (mapRemove k (mapOfList kvs))"
    by (simp add: map_of_mapOfList map_of_mapRemove)
qed (simp_all add: sorted_mapOfList sorted_mapRemove)

subsection \<open>Edits of trees\<close>

fun editAt :: "string list \<Rightarrow> ((string \<times> goValue) list \<Rightarrow> (string \<times> goValue) list) \<Rightarrow> goValue \<Rightarrow> goValue option" where
  "editAt [] f v = (case v of ObjectType m \<Rightarrow> Some (ObjectType (f m)) | _ \<Rightarrow> None)"
| "editAt (k # ks) f v =
     (case v of
        ObjectType m \<Rightarrow>
          (case map_of m k of
             Some c \<Rightarrow> map_option (\<lambda>c. ObjectType (mapPut k c m)) (editAt ks f c)
           | None \<Rightarrow> None)
      | _ \<Rightarrow> None)"

fun parentOf :: "(32 word \<rightharpoonup> wireNode) \<Rightarrow> string list \<Rightarrow> wireValue \<Rightarrow> 32 word option" where
  "parentOf tbl ks w =
     (if wv_Kind w \<noteq> valueRef then None
      else case tbl (wv_Ref w) of
        None \<Rightarrow> None
      | Some n \<Rightarrow>
          if wn_Kind n \<noteq> nodeObject then None
          else case ks of
            [] \<Rightarrow> Some (wv_Ref w)
          | k # ks \<Rightarrow> (case objectPropValue n k of None \<Rightarrow> None | Some c \<Rightarrow> parentOf tbl ks c))"

declare parentOf.simps [simp del]

definition wellKeyed :: "(32 word \<rightharpoonup> wireNode) \<Rightarrow> 32 word list \<Rightarrow> bool" where
  "wellKeyed tbl R \<longleftrightarrow> (\<forall>r \<in> set R. \<forall>n. tbl r = Some n \<longrightarrow> wn_Kind n = nodeObject \<longrightarrow> distinct (map wp_Key (wn_Props n)))"

lemma wellKeyed_mono: "wellKeyed tbl R \<Longrightarrow> set S \<subseteq> set R \<Longrightarrow> wellKeyed tbl S"
  by (auto simp: wellKeyed_def)

text \<open>A reference to a tree is an object exactly if its node is.\<close>

lemma denotes_object:
  "denotes tbl w (ObjectType m) R \<longleftrightarrow>
   (\<exists>n vs R'. wv_Kind w = valueRef \<and> tbl (wv_Ref w) = Some n \<and> wn_Kind n = nodeObject \<and> wn_TextA n = [] \<and>
      denotesAll tbl (map wp_Value (wn_Props n)) vs R' \<and> m = mapOfList (zip (map wp_Key (wn_Props n)) vs) \<and> R = wv_Ref w # R')"
  (is "?l \<longleftrightarrow> ?r")
proof
  assume ?l
  then show ?r
  proof (cases rule: denotes.cases)
    case leaf
    then show ?thesis by (auto simp: leafValue_def split: valueKind.splits if_splits)
  next
    case (node n ws f vs R')
    then have "wn_Kind n = nodeObject"
      by (auto simp: shape_def decodeTypedArray_def typedArrayModelFromBytes_def Let_def split: nodeKind.splits if_splits sum.splits option.splits)
    with node show ?thesis by (auto simp: shape_def split: if_splits)
  qed
next
  assume ?r
  then obtain n vs R' where n: "wv_Kind w = valueRef" "tbl (wv_Ref w) = Some n" "wn_Kind n = nodeObject" "wn_TextA n = []"
    "denotesAll tbl (map wp_Value (wn_Props n)) vs R'" "m = mapOfList (zip (map wp_Key (wn_Props n)) vs)" "R = wv_Ref w # R'" by blast
  from n(3,4) have sh: "shape tbl n = Some (map wp_Value (wn_Props n), \<lambda>vs. ObjectType (mapOfList (zip (map wp_Key (wn_Props n)) vs)))"
    by (simp add: shape_def)
  from node [OF n(1,2) sh n(5)] n(6,7) show ?l by simp
qed

lemma denotes_objectNode:
  assumes "denotes tbl w v R" and "wv_Kind w = valueRef" and "tbl (wv_Ref w) = Some n" and "wn_Kind n = nodeObject"
  shows "\<exists>m. v = ObjectType m"
  using assms by (cases rule: denotes.cases) (auto simp: shape_def leafValue_def split: if_splits)

lemma denotes_frame:
  assumes p: "tbl p = Some n" "wn_Kind n = nodeObject" "wn_Kind n' = nodeObject"
  shows "denotes tbl w v R \<Longrightarrow> p \<notin> set R \<Longrightarrow> denotes (tbl(p \<mapsto> n')) w v R"
    and "denotesAll tbl ws vs R \<Longrightarrow> p \<notin> set R \<Longrightarrow> denotesAll (tbl(p \<mapsto> n')) ws vs R"
proof (induction rule: denotes_denotesAll.inducts)
  case (node w m ws f vs R)
  have "shape (tbl(p \<mapsto> n')) m = Some (ws, f)"
  proof (cases "wn_Kind m = nodeTypedArray")
    case True
    with node(3) obtain v where v: "decodeTypedArray tbl m = Inr v" "ws = []" "f = (\<lambda>_. v)" by (auto simp: shape_def split: sum.splits)
    then have "decodeTypedArray (tbl(p \<mapsto> n')) m = Inr v"
      using p by (auto simp: decodeTypedArray_def split: if_splits option.splits)
    with True v show ?thesis by (simp add: shape_def)
  next
    case False
    with node(3) show ?thesis by (cases "wn_Kind m") (simp_all add: shape_def)
  qed
  moreover have "(tbl(p \<mapsto> n')) (wv_Ref w) = Some m" "p \<notin> set R" using node by auto
  ultimately show ?case using node by (intro denotes_denotesAll.node)
qed (auto intro: denotes_denotesAll.intros)

lemma objectPropValue_find:
  assumes "objectPropValue n k = Some c"
  obtains us p ws where "wn_Props n = us @ p # ws" "wp_Key p = k" "wp_Value p = c" "k \<notin> wp_Key ` set us"
proof -
  from assms obtain p where "List.find (\<lambda>p. wp_Key p = k) (wn_Props n) = Some p" "wp_Value p = c" by (auto simp: objectPropValue_def)
  then obtain i where i: "i < length (wn_Props n)" "wp_Key (wn_Props n ! i) = k" "p = wn_Props n ! i"
    "\<forall>j < i. wp_Key (wn_Props n ! j) \<noteq> k" by (auto simp: find_Some_iff)
  have "wn_Props n = take i (wn_Props n) @ p # drop (Suc i) (wn_Props n)" using i by (simp add: id_take_nth_drop)
  moreover have "k \<notin> wp_Key ` set (take i (wn_Props n))" using i by (fastforce simp: in_set_conv_nth)
  ultimately show ?thesis using that i \<open>wp_Value p = c\<close> by blast
qed

lemma objectPropValue_None: "objectPropValue n k = None \<longleftrightarrow> k \<notin> wp_Key ` set (wn_Props n)"
  by (auto simp: objectPropValue_def find_None_iff)

text \<open>An edit of the properties of one object that edits the map it stands for.\<close>

definition editsMap :: "(wireProp list \<Rightarrow> wireProp list) \<Rightarrow> ((string \<times> goValue) list \<Rightarrow> (string \<times> goValue) list) \<Rightarrow>
    (32 word \<rightharpoonup> wireNode) \<Rightarrow> 32 word set \<Rightarrow> bool" where
  "editsMap E f tbl S \<longleftrightarrow> (\<forall>ps vs R. denotesAll tbl (map wp_Value ps) vs R \<longrightarrow> distinct (map wp_Key ps) \<longrightarrow> distinct R \<longrightarrow>
     set R \<inter> S = {} \<longrightarrow> (\<exists>vs' R'. denotesAll tbl (map wp_Value (E ps)) vs' R' \<and> distinct R' \<and> set R' \<subseteq> set R \<union> S \<and>
       mapOfList (zip (map wp_Key (E ps)) vs') = f (mapOfList (zip (map wp_Key ps) vs))))"

lemma zip_append_split:
  assumes "denotesAll tbl (us @ w # ws) vs R"
  obtains ua c ub Ra Rc Rb where "vs = ua @ c # ub" "R = Ra @ Rc @ Rb" "length ua = length us" "length ub = length ws"
    "denotesAll tbl us ua Ra" "denotes tbl w c Rc" "denotesAll tbl ws ub Rb"
proof -
  from assms obtain ua vb Ra Rv where 1: "vs = ua @ vb" "R = Ra @ Rv" "denotesAll tbl us ua Ra" "denotesAll tbl (w # ws) vb Rv"
    by (auto simp: denotesAll_append)
  then obtain c ub Rc Rb where "vb = c # ub" "Rv = Rc @ Rb" "denotes tbl w c Rc" "denotesAll tbl ws ub Rb"
    by (auto simp: denotesAll_Cons)
  with 1 that show ?thesis by (metis denotesAll_length)
qed

lemma map_of_zip_split:
  assumes "distinct (ka @ k # kb)" and "length ua = length ka" and "length ub = length kb"
  shows "map_of (mapOfList (zip (ka @ k # kb) (ua @ c # ub))) k = Some c"
    and "mapOfList (zip (ka @ k # kb) (ua @ c' # ub)) = mapPut k c' (mapOfList (zip (ka @ k # kb) (ua @ c # ub)))"
proof -
  have d: "distinct (map fst (zip (ka @ k # kb) (ua @ x # ub)))" for x :: 'a using assms by simp
  have z: "zip (ka @ k # kb) (ua @ x # ub) = zip ka ua @ (k, x) # zip kb ub" for x :: 'a using assms(2) by (simp add: zip_append1)
  have n: "map_of (zip ka ua) k = None" using assms by (auto simp: map_of_eq_None_iff dest: set_zip_leftD)
  show "map_of (mapOfList (zip (ka @ k # kb) (ua @ c # ub))) k = Some c"
    unfolding map_of_mapOfList [OF d] using n by (simp add: z map_add_def)
  show "mapOfList (zip (ka @ k # kb) (ua @ c' # ub)) = mapPut k c' (mapOfList (zip (ka @ k # kb) (ua @ c # ub)))"
  proof (rule sortedMap_ext)
    show "map_of (mapOfList (zip (ka @ k # kb) (ua @ c' # ub))) = map_of (mapPut k c' (mapOfList (zip (ka @ k # kb) (ua @ c # ub))))"
      unfolding map_of_mapPut map_of_mapOfList [OF d] using n by (simp add: z map_add_def fun_eq_iff split: option.splits)
  qed (simp_all add: sorted_mapOfList sorted_mapPut)
qed

lemma editAt_denotes:
  assumes "denotes tbl w v R" and "distinct R" and "wellKeyed tbl R" and "set R \<inter> S = {}"
    and "parentOf tbl ks w = Some p" and "tbl p = Some n" and "tbl' = tbl(p \<mapsto> n\<lparr>wn_Props := E (wn_Props n)\<rparr>)"
    and "editsMap E f tbl' S"
  shows "p \<in> set R \<and> wn_Kind n = nodeObject \<and> (\<exists>v' R'. editAt ks f v = Some v' \<and> denotes tbl' w v' R' \<and> distinct R' \<and> set R' \<subseteq> set R \<union> S)"
  using assms
proof (induction ks arbitrary: w v R)
  case Nil
  then have w: "wv_Kind w = valueRef" "wv_Ref w = p" "wn_Kind n = nodeObject" by (auto simp: parentOf.simps split: option.splits if_splits)
  from denotes_objectNode [OF Nil.prems(1) w(1) _ w(3)] Nil.prems(6) w(2) obtain m where v: "v = ObjectType m" by auto
  from Nil.prems(1) [unfolded v denotes_object] w(2) Nil.prems(6) obtain vs R0 where
    c: "wn_TextA n = []" "denotesAll tbl (map wp_Value (wn_Props n)) vs R0" "m = mapOfList (zip (map wp_Key (wn_Props n)) vs)" "R = p # R0" by auto
  have p: "p \<notin> set R0" "distinct R0" "set R0 \<inter> S = {}" using Nil.prems(2,4) c(4) by auto
  have "denotesAll tbl' (map wp_Value (wn_Props n)) vs R0"
    unfolding Nil.prems(7) by (rule denotes_frame(2) [OF Nil.prems(6) w(3) _ c(2) p(1)]) (simp add: w(3))
  moreover have "distinct (map wp_Key (wn_Props n))" using Nil.prems(3,6) w(3) c(4) by (auto simp: wellKeyed_def)
  ultimately obtain vs' R' where e: "denotesAll tbl' (map wp_Value (E (wn_Props n))) vs' R'" "distinct R'" "set R' \<subseteq> set R0 \<union> S"
      "mapOfList (zip (map wp_Key (E (wn_Props n))) vs') = f m"
    using Nil.prems(8) p(2,3) unfolding editsMap_def c(3) by blast
  have "denotes tbl' w (ObjectType (f m)) (p # R')"
    unfolding denotes_object using w c(1) e Nil.prems(7) by (auto simp: w(2))
  moreover have "p \<notin> set R'" using e(3) p(1) Nil.prems(4) c(4) by auto
  ultimately show ?case using v w(3) c(4) e(2,3) by (auto intro!: exI [of _ "p # R'"])
next
  case (Cons k ks)
  then obtain n0 where w: "wv_Kind w = valueRef" "tbl (wv_Ref w) = Some n0" "wn_Kind n0 = nodeObject"
    by (auto simp: parentOf.simps [of _ _ w] split: option.splits if_splits)
  with Cons.prems(5) obtain wc where wc: "objectPropValue n0 k = Some wc" "parentOf tbl ks wc = Some p"
    by (auto simp: parentOf.simps [of _ _ w] split: option.splits)
  from denotes_objectNode [OF Cons.prems(1) w] obtain m where v: "v = ObjectType m" by auto
  from Cons.prems(1) [unfolded v denotes_object] w obtain vs R0 where
    c: "wn_TextA n0 = []" "denotesAll tbl (map wp_Value (wn_Props n0)) vs R0" "m = mapOfList (zip (map wp_Key (wn_Props n0)) vs)" "R = wv_Ref w # R0" by auto
  from objectPropValue_find [OF wc(1)] obtain us pr ws where
    ps: "wn_Props n0 = us @ pr # ws" "wp_Key pr = k" "wp_Value pr = wc" "k \<notin> wp_Key ` set us" .
  from c(2) ps obtain ua ch ub Ra Rc Rb where
    s: "vs = ua @ ch # ub" "R0 = Ra @ Rc @ Rb" "length ua = length us" "length ub = length ws"
      "denotesAll tbl (map wp_Value us) ua Ra" "denotes tbl wc ch Rc" "denotesAll tbl (map wp_Value ws) ub Rb"
    by (auto elim!: zip_append_split)
  have disj: "distinct Rc" "set Rc \<inter> S = {}" "wv_Ref w \<notin> set R0" using Cons.prems(2,4) c(4) s(2) by auto
  have wk: "wellKeyed tbl Rc" by (rule wellKeyed_mono [OF Cons.prems(3)]) (auto simp: c(4) s(2))
  from Cons.IH [OF s(6) disj(1) wk disj(2) wc(2) Cons.prems(6-8)] obtain ch' Rc' where
    p: "p \<in> set Rc" "wn_Kind n = nodeObject" and ch: "editAt ks f ch = Some ch'" "denotes tbl' wc ch' Rc'" "distinct Rc'" "set Rc' \<subseteq> set Rc \<union> S" by auto
  have np: "p \<notin> set Ra" "p \<notin> set Rb" "p \<noteq> wv_Ref w" using p(1) Cons.prems(2) c(4) s(2) by auto
  have fr: "denotesAll tbl' (map wp_Value us) ua Ra" "denotesAll tbl' (map wp_Value ws) ub Rb"
    unfolding Cons.prems(7) using denotes_frame(2) [OF Cons.prems(6) p(2) _ s(5) np(1)] denotes_frame(2) [OF Cons.prems(6) p(2) _ s(7) np(2)] p(2)
    by simp_all
  have all: "denotesAll tbl' (map wp_Value (wn_Props n0)) (ua @ ch' # ub) (Ra @ Rc' @ Rb)"
    using fr ch(2) ps by (auto intro!: denotesAll_appendI some)
  have "distinct (map wp_Key (wn_Props n0))" using Cons.prems(3) w c(4) unfolding wellKeyed_def by simp
  then have keys: "distinct (map wp_Key us @ k # map wp_Key ws)" using ps by simp
  have m: "m = mapOfList (zip (map wp_Key us @ k # map wp_Key ws) (ua @ ch # ub))" using c(3) ps s(1) by simp
  have z: "map_of m k = Some ch" "mapOfList (zip (map wp_Key (wn_Props n0)) (ua @ ch' # ub)) = mapPut k ch' m"
    using map_of_zip_split(1) [OF keys, of ua ub ch] map_of_zip_split(2) [OF keys, of ua ub ch' ch] s(3,4) ps by (simp_all add: m)
  have "tbl' (wv_Ref w) = Some n0" using w(2) np(3) Cons.prems(7) by simp
  then have "denotes tbl' w (ObjectType (mapPut k ch' m)) (wv_Ref w # Ra @ Rc' @ Rb)"
    unfolding denotes_object using w(1,3) c(1) all z(2) by auto
  moreover have "distinct (wv_Ref w # Ra @ Rc' @ Rb)" "set (wv_Ref w # Ra @ Rc' @ Rb) \<subseteq> set R \<union> S"
    using Cons.prems(2,4) c(4) s(2) ch(3,4) by auto
  moreover have "editAt (k # ks) f v = Some (ObjectType (mapPut k ch' m))" using v z(1) ch(1) by simp
  ultimately have "\<exists>v' R'. editAt (k # ks) f v = Some v' \<and> denotes tbl' w v' R' \<and> distinct R' \<and> set R' \<subseteq> set R \<union> S" by blast
  then show ?case using p c(4) s(2) by simp
qed

lemma editAt_other: "(\<And>m. v \<noteq> ObjectType m) \<Longrightarrow> editAt ks f v = None"
  by (cases ks; cases v) auto

lemma editAt_None:
  assumes "denotes tbl w v R" and "wellKeyed tbl R" and "parentOf tbl ks w = None"
  shows "editAt ks f v = None"
proof (cases "\<exists>m. v = ObjectType m")
  case True
  then obtain m where "v = ObjectType m" by blast
  then show ?thesis
    using assms
  proof (induction ks arbitrary: w v R m)
    case Nil
    then show ?case by (auto simp: denotes_object parentOf.simps [of _ _ w])
  next
    case (Cons k ks)
    from Cons.prems(1,2) obtain n vs R0 where n: "wv_Kind w = valueRef" "tbl (wv_Ref w) = Some n" "wn_Kind n = nodeObject"
      and c: "denotesAll tbl (map wp_Value (wn_Props n)) vs R0" "m = mapOfList (zip (map wp_Key (wn_Props n)) vs)" "R = wv_Ref w # R0"
      by (auto simp: denotes_object)
    have keys: "distinct (map wp_Key (wn_Props n))" using Cons.prems(3) n c(3) by (auto simp: wellKeyed_def)
    show ?case
    proof (cases "objectPropValue n k")
      case None
      then have "map_of m k = None"
        using keys denotesAll_length [OF c(1)] by (auto simp: objectPropValue_None c(2) map_of_mapOfList map_of_eq_None_iff dest!: set_zip_leftD)
      with Cons.prems(1) show ?thesis by simp
    next
      case (Some wc)
      then have no: "parentOf tbl ks wc = None" using Cons.prems(4) n by (simp add: parentOf.simps [of _ _ w])
      from objectPropValue_find [OF Some] obtain us pr ws where
        ps: "wn_Props n = us @ pr # ws" "wp_Key pr = k" "wp_Value pr = wc" "k \<notin> wp_Key ` set us" .
      from c(1) ps obtain ua ch ub Ra Rc Rb where
        s: "vs = ua @ ch # ub" "length ua = length us" "length ub = length ws" "denotes tbl wc ch Rc" "R0 = Ra @ Rc @ Rb"
        by (auto elim!: zip_append_split)
      have "map_of m k = Some ch"
        using map_of_zip_split(1) [of "map wp_Key us" k "map wp_Key ws" ua ub ch] keys ps s c(2) by simp
      moreover have "editAt ks f ch = None"
      proof (cases "\<exists>m'. ch = ObjectType m'")
        case True
        then obtain m' where "ch = ObjectType m'" by blast
        then show ?thesis by (rule Cons.IH [OF _ s(4) wellKeyed_mono [OF Cons.prems(3)] no]) (auto simp: c(3) s(5))
      next
        case False
        then show ?thesis by (intro editAt_other) blast
      qed
      ultimately show ?thesis using Cons.prems(1) by simp
    qed
  qed
qed (blast intro: editAt_other)

end
