(* ===== verification/Wire_Patch_Props.thy ===== *)
theory Wire_Patch_Props
  imports Wire_Patch_Trees
begin

text \<open>
  A patch of a payload is the edit of the tree the payload stands for: what
  the graph editor finds, that its result is a valid graph, and what it denotes.
\<close>

subsection \<open>Nodes by index\<close>

lemma enumerate_snoc: "enumerate k (xs @ [x]) = enumerate k xs @ [(k + length xs, x)]"
  by (simp add: enumerate_append_eq)

lemma indexNodes_snoc: "indexNodes (ns @ [n]) = (indexNodes ns)(wn_ID n \<mapsto> length ns)"
  by (simp add: indexNodes_def enumerate_snoc)

lemma nodeByID_snoc: "nodeByID (ns @ [n]) = (nodeByID ns)(wn_ID n \<mapsto> n)"
  by (simp add: nodeByID_def)

lemma indexNodes_Some: "indexNodes ns r = Some i \<Longrightarrow> i < length ns \<and> wn_ID (ns ! i) = r"
  by (induction ns arbitrary: i rule: rev_induct)
     (auto simp: indexNodes_snoc nth_append indexNodes_def [of "[]"] split: if_splits)

lemma nodeByID_index: "nodeByID ns r = map_option ((!) ns) (indexNodes ns r)"
proof (induction ns rule: rev_induct)
  case (snoc n ns)
  then show ?case
    by (cases "indexNodes ns r") (auto simp: indexNodes_snoc nodeByID_snoc nth_append dest: indexNodes_Some)
qed (simp add: nodeByID_def indexNodes_def)

lemma nodeByID_iff: "distinct (map wn_ID ns) \<Longrightarrow> nodeByID ns r = Some n \<longleftrightarrow> n \<in> set ns \<and> wn_ID n = r"
  using nodeByID_Some nodeByID_in by blast

lemma nodeByID_update:
  assumes "distinct (map wn_ID ns)" and "i < length ns" and "wn_ID n = wn_ID (ns ! i)"
  shows "nodeByID (ns[i := n]) = (nodeByID ns)(wn_ID n \<mapsto> n)"
proof
  fix r
  have ids: "map wn_ID (ns[i := n]) = map wn_ID ns" using assms(3) by (simp add: map_update list_update_id flip: nth_map [OF assms(2)])
  have d: "distinct (map wn_ID (ns[i := n]))" using assms(1) by (simp only: ids)
  have s: "set (ns[i := n]) = insert n (set ns - {ns ! i})" using assms(1,2) by (simp add: set_update_distinct distinct_map)
  have u: "m \<in> set ns \<Longrightarrow> wn_ID m = wn_ID (ns ! i) \<Longrightarrow> m = ns ! i" for m
    using assms(1,2) by (auto simp: distinct_map dest: inj_onD)
  show "nodeByID (ns[i := n]) r = ((nodeByID ns)(wn_ID n \<mapsto> n)) r"
  proof (cases "nodeByID ns r")
    case None
    then have "r \<notin> wn_ID ` set ns" by (simp add: nodeByID_None)
    moreover have "wn_ID ` set (ns[i := n]) = wn_ID ` set ns" using arg_cong [OF ids, of set] by simp
    ultimately show ?thesis using None assms(2,3) nodeByID_None [of "ns[i := n]" r] by auto
  next
    case (Some m)
    then have m: "m \<in> set ns" "wn_ID m = r" using nodeByID_iff [OF assms(1)] by auto
    show ?thesis
    proof (cases "r = wn_ID n")
      case True
      then show ?thesis using nodeByID_iff [OF d, of r n] s by auto
    next
      case False
      then have "m \<in> set (ns[i := n])" using m s assms(3) by auto
      then show ?thesis using nodeByID_iff [OF d, of r m] m Some False by auto
    qed
  qed
qed

subsection \<open>Finding the parent\<close>

definition keySegment :: "string \<Rightarrow> pathSegment" where
  "keySegment k = \<lparr>ps_Key = k, ps_Index = None\<rparr>"

lemma checkSegments_keys: "checkSegments path i (map keySegment ks) = None"
  by (induction ks arbitrary: i) (auto simp: keySegment_def)

lemma parentOf_simp:
  "wv_Kind w = valueRef \<Longrightarrow> tbl (wv_Ref w) = Some n \<Longrightarrow> wn_Kind n = nodeObject \<Longrightarrow> parentOf tbl ks w =
     (case ks of [] \<Rightarrow> Some (wv_Ref w) | k # ks \<Rightarrow> (case objectPropValue n k of None \<Rightarrow> None | Some c \<Rightarrow> parentOf tbl ks c))"
  by (simp add: parentOf.simps [of tbl ks w])

lemma parentOf_object:
  "parentOf tbl ks w = Some p \<Longrightarrow> \<exists>n. wv_Kind w = valueRef \<and> tbl (wv_Ref w) = Some n \<and> wn_Kind n = nodeObject"
  by (auto simp: parentOf.simps [of tbl ks w] split: option.splits if_splits)

lemma walkPath_parentOf:
  assumes "ge_byID e = indexNodes (wg_Nodes (ge_graph e))" and "wv_Kind w = valueRef"
    and "ge_byID e (wv_Ref w) = Some i" and "wn_Kind (nodeAt e i) = nodeObject"
  shows "case parentOf (nodeByID (wg_Nodes (ge_graph e))) ks w of
      Some p \<Rightarrow> \<exists>i'. walkPath e path j (map keySegment ks) i = Inr i' \<and> ge_byID e p = Some i' \<and> wn_Kind (nodeAt e i') = nodeObject
    | None \<Rightarrow> \<exists>err. walkPath e path j (map keySegment ks) i = Inl err"
  using assms(2-)
proof (induction ks arbitrary: w i j)
  case (Cons k ks)
  let ?tbl = "nodeByID (wg_Nodes (ge_graph e))"
  have tbl: "?tbl r = map_option (nodeAt e) (ge_byID e r)" for r
    by (simp add: nodeByID_index assms(1) nodeAt_def comp_def fun_eq_iff flip: map_option.compositionality) (simp add: nodeAt_def [abs_def])
  have w: "parentOf ?tbl (k # ks) w = (case objectPropValue (nodeAt e i) k of None \<Rightarrow> None | Some c \<Rightarrow> parentOf ?tbl ks c)"
    using Cons.prems by (subst parentOf_simp) (auto simp: tbl)
  show ?case
  proof (cases "objectPropValue (nodeAt e i) k")
    case None
    with Cons.prems w show ?thesis by (simp add: keySegment_def)
  next
    case (Some c)
    show ?thesis
    proof (cases "wv_Kind c = valueRef \<and> (\<exists>i'. ge_byID e (wv_Ref c) = Some i' \<and> wn_Kind (nodeAt e i') = nodeObject)")
      case True
      then obtain i' where c: "wv_Kind c = valueRef" "ge_byID e (wv_Ref c) = Some i'" "wn_Kind (nodeAt e i') = nodeObject" by auto
      have "walkPath e path j (map keySegment (k # ks)) i = walkPath e path (j + 1) (map keySegment ks) i'"
        using Cons.prems Some c by (simp add: keySegment_def nodeRef_def)
      with Cons.IH [OF c, of "j + 1"] w Some show ?thesis by (simp only: option.case)
    next
      case False
      then have "\<exists>err. walkPath e path j (map keySegment (k # ks)) i = Inl err"
        using Cons.prems Some by (auto simp: keySegment_def nodeRef_def split: option.splits)
      moreover have "parentOf ?tbl ks c = None"
        using False parentOf_object [of ?tbl ks c] by (cases "parentOf ?tbl ks c") (auto simp: tbl)
      ultimately show ?thesis using w Some by simp
    qed
  qed
qed (simp add: parentOf_simp nodeByID_index assms(1) nodeAt_def)

lemma objectParent_parentOf:
  assumes e: "ge_byID e = indexNodes (wg_Nodes (ge_graph e))"
  shows "case parentOf (nodeByID (wg_Nodes (ge_graph e))) ks (wg_Root (ge_graph e)) of
      Some p \<Rightarrow> \<exists>i. objectParent e (map keySegment (ks @ [k])) = Inr (i, k) \<and> ge_byID e p = Some i \<and> wn_Kind (nodeAt e i) = nodeObject
    | None \<Rightarrow> \<exists>err. objectParent e (map keySegment (ks @ [k])) = Inl err"
proof -
  let ?w = "wg_Root (ge_graph e)" and ?tbl = "nodeByID (wg_Nodes (ge_graph e))" and ?path = "map keySegment (ks @ [k])"
  have tbl: "?tbl r = map_option (\<lambda>i. nodeAt e i) (ge_byID e r)" for r by (simp add: nodeByID_index e nodeAt_def [abs_def])
  have lst: "last ?path = keySegment k" "ps_Key (keySegment k) = k" "butlast ?path = map keySegment ks" "?path \<noteq> []"
    by (simp_all add: keySegment_def butlast_append)
  have run: "objectParent e ?path = rbind (rootObject e) (\<lambda>node. rbind (walkPath e ?path 0 (map keySegment ks) node) (\<lambda>node.
      if wn_Kind (nodeAt e node) \<noteq> nodeObject then Inl (ParentNotObject (formatPath ?path)) else Inr (node, k)))"
    unfolding objectParent_def checkSegments_keys lst using lst(4) by simp
  show ?thesis
  proof (cases "wv_Kind ?w = valueRef \<and> (\<exists>i. ge_byID e (wv_Ref ?w) = Some i \<and> wn_Kind (nodeAt e i) = nodeObject)")
    case True
    then obtain i where w: "wv_Kind ?w = valueRef" "ge_byID e (wv_Ref ?w) = Some i" "wn_Kind (nodeAt e i) = nodeObject" by auto
    then have "rootObject e = Inr i" by (simp add: rootObject_def nodeRef_def)
    with run walkPath_parentOf [OF e w, where path = ?path and j = 0 and ks = ks] show ?thesis by (auto split: option.splits)
  next
    case False
    then have "\<exists>err. rootObject e = Inl err" by (auto simp: rootObject_def nodeRef_def split: option.splits)
    moreover have "parentOf ?tbl ks ?w = None"
      using False parentOf_object [of ?tbl ks ?w] by (cases "parentOf ?tbl ks ?w") (auto simp: tbl)
    ultimately show ?thesis using run by auto
  qed
qed

end
