(* ===== verification/Wire_Patch_Edit.thy ===== *)
theory Wire_Patch_Edit
  imports Wire_Patch_Props
begin

text \<open>
  The result of a patch: an edit of one object of a valid graph gives a valid
  graph, and its payload decodes to the edited tree.
\<close>

subsection \<open>Trees under new identifiers\<close>

definition renumbered :: "(32 word \<rightharpoonup> wireNode) \<Rightarrow> (32 word \<Rightarrow> 32 word) \<Rightarrow> (32 word \<rightharpoonup> wireNode) \<Rightarrow> bool" where
  "renumbered src \<rho> tbl \<longleftrightarrow> (\<forall>r n. src r = Some n \<longrightarrow> tbl (\<rho> r) = Some (remapN \<rho> n))"

lemma remapV_id [simp]: "remapV id w = w" "remapV (\<lambda>r. r) w = w"
  by (simp_all add: remapV_def)

lemma remapN_id [simp]: "remapN id n = n"
  by (simp add: remapN_def map_idI)

lemma leafValue_remap: "leafValue (remapV \<rho> w) = leafValue w"
  by (auto simp: leafValue_def remapV_def split: valueKind.splits)

lemma shape_renumbered:
  assumes "renumbered src \<rho> tbl" and "shape src n = Some (ws, f)"
  shows "shape tbl (remapN \<rho> n) = Some (map (remapV \<rho>) ws, f)"
proof (cases "wn_Kind n = nodeTypedArray")
  case True
  with assms(2) obtain v where v: "decodeTypedArray src n = Inr v" "ws = []" "f = (\<lambda>_. v)" by (auto simp: shape_def split: sum.splits)
  then obtain b where b: "src (wv_Ref (wn_Buffer n)) = Some b" "wv_Kind (wn_Buffer n) = valueRef"
    by (auto simp: decodeTypedArray_def split: if_splits option.splits)
  then have "tbl (\<rho> (wv_Ref (wn_Buffer n))) = Some (remapN \<rho> b)" using assms(1) by (auto simp: renumbered_def)
  then have "decodeTypedArray tbl (remapN \<rho> n) = Inr v"
    using v(1) b by (auto simp: decodeTypedArray_def typedArrayWindowBytes_def Let_def split: if_splits)
  with True v show ?thesis by (simp add: shape_def)
next
  case False
  have slots: "list_all ws_Present (map (\<lambda>s. if ws_Present s then s\<lparr>ws_Value := remapV \<rho> (ws_Value s)\<rparr> else s) xs) = list_all ws_Present xs"
    "list_all ws_Present xs \<Longrightarrow> map ws_Value (map (\<lambda>s. if ws_Present s then s\<lparr>ws_Value := remapV \<rho> (ws_Value s)\<rparr> else s) xs) =
      map (remapV \<rho>) (map ws_Value xs)" for xs
    by (auto simp: list_all_iff)
  have "shape tbl (remapN \<rho> n) = map_option (\<lambda>(ws, f). (map (remapV \<rho>) ws, f)) (shape src n)"
    using False
    by (cases "wn_Kind n") (simp_all add: shape_def remapN_def slots comp_def map_concat del: list.map_comp map_map cong: if_cong,
        simp_all add: comp_def map_concat)
  with assms(2) show ?thesis by simp
qed

lemma denotes_renumbered:
  "denotes src w v R \<Longrightarrow> renumbered src \<rho> tbl \<Longrightarrow> denotes tbl (remapV \<rho> w) v (map \<rho> R)"
  "denotesAll src ws vs R \<Longrightarrow> renumbered src \<rho> tbl \<Longrightarrow> denotesAll tbl (map (remapV \<rho>) ws) vs (map \<rho> R)"
proof (induction rule: denotes_denotesAll.inducts)
  case (leaf w v)
  then show ?case by (auto intro: denotes_denotesAll.leaf simp: leafValue_remap)
next
  case (node w n ws f vs R)
  have "denotes tbl (remapV \<rho> w) (f vs) (wv_Ref (remapV \<rho> w) # map \<rho> R)"
    by (rule denotes_denotesAll.node [OF _ _ shape_renumbered [OF node(6,3)]]) (use node in \<open>auto simp: renumbered_def\<close>)
  then show ?case using node(1) by simp
qed (auto intro: denotes_denotesAll.intros)

lemma denotes_extend:
  assumes "denotes src w v R" and "\<And>r n. src r = Some n \<Longrightarrow> tbl r = Some n"
  shows "denotes tbl w v R"
  using denotes_renumbered(1) [OF assms(1), of id tbl] assms(2) by (simp add: renumbered_def)

subsection \<open>Sound graphs\<close>

definition soundGraph :: "wireGraph \<Rightarrow> bool" where
  "soundGraph g \<longleftrightarrow> validateGraph g = None \<and> fitsGraph g \<and> list_all ownFields (wg_Nodes g)"

lemma sound_unmarshal: "musLib_ok L \<Longrightarrow> unmarshalGraph L raw = Inr g \<Longrightarrow> soundGraph g"
  by (simp add: soundGraph_def unmarshalGraph_fits list_all_iff unmarshalGraph_ownFields)

lemma validateGraph_I:
  assumes "distinct (map wn_ID (wg_Nodes g))" and "0 \<notin> wn_ID ` set (wg_Nodes g)"
    and "validateWireValue (nodeByID (wg_Nodes g)) (wg_Root g) = None"
    and "\<And>n. n \<in> set (wg_Nodes g) \<Longrightarrow> validateWireNode (nodeByID (wg_Nodes g)) n = None"
  shows "validateGraph g = None"
proof -
  have "validateGraphNodeIDs [] (wg_Nodes g) = None" "firstErr (validateWireNode (nodeByID (wg_Nodes g))) (wg_Nodes g) = None"
    using assms by (simp_all add: validateIDs_distinct firstErr_None)
  with assms(3) show ?thesis by (simp add: validateGraph_def)
qed

lemma sound_ids: "soundGraph g \<Longrightarrow> distinct (map wn_ID (wg_Nodes g)) \<and> 0 \<notin> wn_ID ` set (wg_Nodes g)"
  by (simp add: soundGraph_def validateGraph_def validateIDs_distinct split: option.splits)

text \<open>A node with other properties, in a table that has at least the same nodes.\<close>

lemma valid_edited:
  assumes valid: "validateWireNode tbl n = None" and own: "ownFields n" and dom: "dom tbl \<subseteq> dom tbl'"
    and buf: "\<And>r b. tbl r = Some b \<Longrightarrow> wn_Kind b = nodeArrayBuffer \<Longrightarrow> tbl' r = Some b"
    and ps: "\<And>p. p \<in> set ps \<Longrightarrow> validateWireValue tbl' (wp_Value p) = None"
  shows "validateWireNode tbl' (n\<lparr>wn_Props := ps\<rparr>) = None"
proof (rule validateWireNode_I)
  have old: "validateWireValue tbl' w = None" if "w \<in> set (heldValues n)" for w
    using validateWireNode_refs [OF valid own that] dom by (auto simp: validateWireValue_None)
  fix w assume "w \<in> set (heldValues (n\<lparr>wn_Props := ps\<rparr>))"
  then show "validateWireValue tbl' w = None" using old ps by (auto simp: heldValues_def)
next
  have sel: "wn_Buffer (n\<lparr>wn_Props := ps\<rparr>) = wn_Buffer n" "wn_TextA (n\<lparr>wn_Props := ps\<rparr>) = wn_TextA n"
    "wn_ByteLength (n\<lparr>wn_Props := ps\<rparr>) = wn_ByteLength n" "wn_ByteOffset (n\<lparr>wn_Props := ps\<rparr>) = wn_ByteOffset n" by simp_all
  assume "wn_Kind (n\<lparr>wn_Props := ps\<rparr>) = nodeTypedArray"
  then have "wn_Kind n = nodeTypedArray" by simp
  from typedArray_valid [OF valid this] obtain b where b: "wv_Kind (wn_Buffer n) = valueRef" "tbl (wv_Ref (wn_Buffer n)) = Some b"
    "wn_Kind b = nodeArrayBuffer" "bytesPerElement (wn_TextA n) \<noteq> 0" "wn_ByteLength n mod bytesPerElement (wn_TextA n) = 0"
    "\<not> of_nat (length (wn_Bytes b)) < ucast (wn_ByteOffset n) + (ucast (wn_ByteLength n) :: 64 word)" by blast
  note b = b(1) buf [OF b(2,3)] b(3-)
  then show "\<exists>b. wv_Kind (wn_Buffer (n\<lparr>wn_Props := ps\<rparr>)) = valueRef \<and> tbl' (wv_Ref (wn_Buffer (n\<lparr>wn_Props := ps\<rparr>))) = Some b \<and>
      wn_Kind b = nodeArrayBuffer \<and> bytesPerElement (wn_TextA (n\<lparr>wn_Props := ps\<rparr>)) \<noteq> 0 \<and>
      wn_ByteLength (n\<lparr>wn_Props := ps\<rparr>) mod bytesPerElement (wn_TextA (n\<lparr>wn_Props := ps\<rparr>)) = 0 \<and>
      \<not> of_nat (length (wn_Bytes b)) < ucast (wn_ByteOffset (n\<lparr>wn_Props := ps\<rparr>)) + (ucast (wn_ByteLength (n\<lparr>wn_Props := ps\<rparr>)) :: 64 word)"
    unfolding sel by (intro exI [of _ b] conjI) (rule b)+
qed

lemma heldProps_valid: "validateWireNode tbl n = None \<Longrightarrow> ownFields n \<Longrightarrow> p \<in> set (wn_Props n) \<Longrightarrow> validateWireValue tbl (wp_Value p) = None"
  by (rule validateWireNode_refs) (auto simp: heldValues_def)

text \<open>The edit of one object of a sound graph.\<close>

definition fitsProps :: "wireProp list \<Rightarrow> bool" where
  "fitsProps ps \<longleftrightarrow> fitsSlice 56 ps \<and> list_all (\<lambda>p. fitsText (wp_Key p) \<and> fitsValue (wp_Value p)) ps"

lemma sound_edit:
  fixes g :: wireGraph
  assumes g: "soundGraph g" and i: "i < length (wg_Nodes g)" and obj: "wn_Kind (wg_Nodes g ! i) = nodeObject"
    and ps: "fitsProps ps" "\<And>p. p \<in> set ps \<Longrightarrow> validateWireValue (nodeByID (wg_Nodes g)) (wp_Value p) = None"
  shows "soundGraph (g\<lparr>wg_Nodes := (wg_Nodes g)[i := (wg_Nodes g ! i)\<lparr>wn_Props := ps\<rparr>]\<rparr>)"
proof -
  let ?n = "wg_Nodes g ! i" and ?tbl = "nodeByID (wg_Nodes g)"
  let ?m = "?n\<lparr>wn_Props := ps\<rparr>"
  let ?ns = "(wg_Nodes g)[i := ?m]"
  have ids: "map wn_ID ?ns = map wn_ID (wg_Nodes g)" by (simp add: map_update flip: nth_map [OF i, of wn_ID])
  have d: "distinct (map wn_ID (wg_Nodes g))" and nz: "0 \<notin> wn_ID ` set (wg_Nodes g)" using sound_ids [OF g] by auto
  have tbl: "nodeByID ?ns = ?tbl(wn_ID ?n \<mapsto> ?m)" by (subst nodeByID_update [OF d i]) simp_all
  have own: "ownFields m" "fitsNode m" "validateWireNode ?tbl m = None" if "m \<in> set (wg_Nodes g)" for m
    using g that by (auto simp: soundGraph_def list_all_iff fitsGraph_def intro: validateGraph_nodes)
  have n: "?n \<in> set (wg_Nodes g)" using i by simp
  have at: "?tbl (wn_ID ?n) = Some ?n" by (rule nodeByID_in [OF d n])
  have dom: "dom ?tbl \<subseteq> dom (nodeByID ?ns)" unfolding tbl by auto
  have buf: "nodeByID ?ns r = Some b" if "?tbl r = Some b" "wn_Kind b = nodeArrayBuffer" for r b
    using that at obj unfolding tbl by auto
  have val: "validateWireValue (nodeByID ?ns) w = None" if "validateWireValue ?tbl w = None" for w
    using that dom unfolding validateWireValue_None by (rule order_trans)
  have keep: "validateWireNode (nodeByID ?ns) m = None" if m: "m \<in> set (wg_Nodes g)" for m
    using valid_edited [OF own(3) [OF m] own(1) [OF m] dom buf, of "wn_Props m"] heldProps_valid [OF own(3) [OF m] own(1) [OF m]] val by simp
  have edited: "validateWireNode (nodeByID ?ns) ?m = None"
    by (rule valid_edited [OF own(3) [OF n] own(1) [OF n] dom buf val [OF ps(2)]])
  have root: "validateWireValue ?tbl (wg_Root g) = None" using g by (auto simp: soundGraph_def validateGraph_def split: option.splits)
  have "validateGraph (g\<lparr>wg_Nodes := ?ns\<rparr>) = None"
  proof (rule validateGraph_I)
    show "distinct (map wn_ID (wg_Nodes (g\<lparr>wg_Nodes := ?ns\<rparr>)))" using d by (simp add: ids)
    show "0 \<notin> wn_ID ` set (wg_Nodes (g\<lparr>wg_Nodes := ?ns\<rparr>))" using arg_cong [OF ids, of set] nz by simp
    show "validateWireNode (nodeByID (wg_Nodes (g\<lparr>wg_Nodes := ?ns\<rparr>))) m = None" if "m \<in> set (wg_Nodes (g\<lparr>wg_Nodes := ?ns\<rparr>))" for m
      using that keep edited set_update_subset_insert [of "wg_Nodes g" i ?m] by auto
  qed (use val [OF root] in simp)
  moreover have "fitsNode ?m" using own(2) [OF n] ps(1) by (simp add: fitsNode_def fitsProps_def)
  then have "fitsGraph (g\<lparr>wg_Nodes := ?ns\<rparr>)"
    using g set_update_subset_insert [of "wg_Nodes g" i ?m] by (auto simp: soundGraph_def fitsGraph_def fitsSlice_def list_all_iff)
  moreover have ownm: "ownFields ?m" using own(1) [OF n] by (simp add: ownFields_def)
  have "list_all ownFields ?ns"
    using own(1) ownm set_update_subset_insert [of "wg_Nodes g" i ?m] by (auto simp: list_all_iff)
  ultimately show ?thesis by (simp add: soundGraph_def)
qed

subsection \<open>Finishing an edit\<close>

lemma finishEdit_sound:
  assumes L: "musLib_ok L" and g: "soundGraph (ge_graph e)"
    and den: "denotes (nodeByID (wg_Nodes (ge_graph e))) (wg_Root (ge_graph e)) v R" "distinct R"
  shows "\<exists>bs. finishEdit L e = Inr bs \<and> Decode L bs = Inr (canonGo v)"
proof -
  let ?g = "ge_graph e"
  have fits: "fitsGraph ?g" and valid: "validateGraph ?g = None" using g by (simp_all add: soundGraph_def)
  have "copied (nodeByID (wg_Nodes ?g)) id (nodeByID (map normNode (wg_Nodes ?g)))" by (simp add: copied_def nodeByID_norm)
  from denotes_copied(1) [OF den(1) this]
  have "denotes (nodeByID (wg_Nodes (normGraph ?g))) (wg_Root (normGraph ?g)) (canonGo v) R" by (simp add: normGraph_def)
  with den(2) have "Decode L (graphBytes L ?g) = Inr (canonGo v)"
    using unmarshal_graphBytes [OF L fits] valid by (auto simp: Decode_iff validateGraph_norm)
  then show ?thesis using marshalGraph_bytes [OF L fits] valid by (simp add: finishEdit_def ofCodec_def ofWire_def)
qed

end
