(* ===== verification/Wire_Patch_Refine.thy ===== *)
theory Wire_Patch_Refine
  imports Wire_Patch_Edit
begin

text \<open>
  Setting and removing a property refine the edit of a tree. The graph editor
  is seen as a whole here: the appended value has identifiers of its own, the
  edit of its parent touches no other node.
\<close>

subsection \<open>Edits of the properties\<close>

lemma setProp_new: "k \<notin> wp_Key ` set ps \<Longrightarrow> setProp k w ps = ps @ [\<lparr>wp_Key = k, wp_Value = w\<rparr>]"
  by (induction ps) auto

lemma setProp_old: "k \<notin> wp_Key ` set us \<Longrightarrow> wp_Key p = k \<Longrightarrow> setProp k w (us @ p # ws) = us @ p\<lparr>wp_Value := w\<rparr> # ws"
  by (induction us) auto

lemma removeProp_none: "k \<notin> wp_Key ` set ps \<Longrightarrow> removeProp k ps = ps"
  by (induction ps) auto

lemma removeProp_old: "k \<notin> wp_Key ` set us \<Longrightarrow> wp_Key p = k \<Longrightarrow> removeProp k (us @ p # ws) = us @ ws"
  by (induction us) auto

lemma split_key:
  assumes "k \<in> wp_Key ` set ps"
  obtains us p ws where "ps = us @ p # ws" "wp_Key p = k" "k \<notin> wp_Key ` set us"
proof -
  obtain us p ws where "ps = us @ p # ws" "wp_Key p = k" "\<forall>u \<in> set us. wp_Key u \<noteq> k"
    using assms split_list_first_prop [of ps "\<lambda>p. wp_Key p = k"] by auto
  then show ?thesis by (intro that) auto
qed

lemma editsMap_setProp:
  assumes val: "denotes tbl w x S" and S: "distinct S"
  shows "editsMap (setProp k w) (mapPut k x) tbl (set S)"
  unfolding editsMap_def
proof (intro allI impI)
  fix ps :: "wireProp list" and vs R assume den: "denotesAll tbl (map wp_Value ps) vs R" and keys: "distinct (map wp_Key ps)" and R: "distinct R" "set R \<inter> set S = {}"
  show "\<exists>vs' R'. denotesAll tbl (map wp_Value (setProp k w ps)) vs' R' \<and> distinct R' \<and> set R' \<subseteq> set R \<union> set S \<and>
      mapOfList (zip (map wp_Key (setProp k w ps)) vs') = mapPut k x (mapOfList (zip (map wp_Key ps) vs))"
  proof (cases "k \<in> wp_Key ` set ps")
    case True
    then obtain us p ws where ps: "ps = us @ p # ws" "wp_Key p = k" "k \<notin> wp_Key ` set us" by (rule split_key)
    from den [unfolded ps(1) map_append list.map] obtain ua c ub Ra Rc Rb where
      s: "vs = ua @ c # ub" "R = Ra @ Rc @ Rb" "length ua = length (map wp_Value us)" "length ub = length (map wp_Value ws)"
        "denotesAll tbl (map wp_Value us) ua Ra" "denotes tbl (wp_Value p) c Rc" "denotesAll tbl (map wp_Value ws) ub Rb"
      by (rule zip_append_split)
    have "distinct (map wp_Key us @ k # map wp_Key ws)" using keys ps by simp
    from map_of_zip_split(2) [OF this, of ua ub x c] s(3,4)
    have "mapOfList (zip (map wp_Key (setProp k w ps)) (ua @ x # ub)) = mapPut k x (mapOfList (zip (map wp_Key ps) vs))"
      using ps s(1) by (simp add: setProp_old)
    moreover have "denotesAll tbl (map wp_Value (setProp k w ps)) (ua @ x # ub) (Ra @ S @ Rb)"
      using s(5,7) val ps by (auto simp: setProp_old intro!: denotesAll_appendI some)
    moreover have "distinct (Ra @ S @ Rb)" "set (Ra @ S @ Rb) \<subseteq> set R \<union> set S" using R S s(2) by auto
    ultimately show ?thesis by blast
  next
    case False
    have "denotesAll tbl [w] [x] (S @ [])" by (intro some none val)
    then have "denotesAll tbl (map wp_Value (setProp k w ps)) (vs @ [x]) (R @ S @ [])"
      using False by (auto simp: setProp_new intro!: denotesAll_appendI den)
    moreover have "mapOfList (zip (map wp_Key (setProp k w ps)) (vs @ [x])) = mapPut k x (mapOfList (zip (map wp_Key ps) vs))"
      using False denotesAll_length [OF den] by (simp add: setProp_new mapOfList_snoc)
    ultimately show ?thesis using R S by (intro exI [of _ "vs @ [x]"] exI [of _ "R @ S @ []"]) auto
  qed
qed

lemma mapRemove_absent: "k \<notin> fst ` set m \<Longrightarrow> mapRemove k m = m"
  by (auto simp: mapRemove_def filter_id_conv image_iff)

lemma editsMap_removeProp: "editsMap (removeProp k) (mapRemove k) tbl {}"
  unfolding editsMap_def
proof (intro allI impI)
  fix ps :: "wireProp list" and vs R assume den: "denotesAll tbl (map wp_Value ps) vs R" and keys: "distinct (map wp_Key ps)" and R: "distinct R"
  have len: "length vs = length ps" using denotesAll_length [OF den] by simp
  have rem: "mapRemove k (mapOfList (zip (map wp_Key ps) vs)) = mapOfList (mapRemove k (zip (map wp_Key ps) vs))"
    using keys len by (intro mapOfList_remove [symmetric]) simp
  show "\<exists>vs' R'. denotesAll tbl (map wp_Value (removeProp k ps)) vs' R' \<and> distinct R' \<and> set R' \<subseteq> set R \<union> {} \<and>
      mapOfList (zip (map wp_Key (removeProp k ps)) vs') = mapRemove k (mapOfList (zip (map wp_Key ps) vs))"
  proof (cases "k \<in> wp_Key ` set ps")
    case True
    then obtain us p ws where ps: "ps = us @ p # ws" "wp_Key p = k" "k \<notin> wp_Key ` set us" by (rule split_key)
    from den [unfolded ps(1) map_append list.map] obtain ua c ub Ra Rc Rb where
      s: "vs = ua @ c # ub" "R = Ra @ Rc @ Rb" "length ua = length (map wp_Value us)" "length ub = length (map wp_Value ws)"
        "denotesAll tbl (map wp_Value us) ua Ra" "denotes tbl (wp_Value p) c Rc" "denotesAll tbl (map wp_Value ws) ub Rb"
      by (rule zip_append_split)
    have "k \<notin> wp_Key ` set ws" using keys ps by auto
    with ps(3) have "k \<notin> fst ` set (zip (map wp_Key us) ua)" "k \<notin> fst ` set (zip (map wp_Key ws) ub)" by (auto dest: set_zip_leftD)
    note keep = this [THEN mapRemove_absent]
    have "mapRemove k (zip (map wp_Key ps) vs) = zip (map wp_Key (removeProp k ps)) (ua @ ub)"
      using ps s(1,3) keep by (simp add: removeProp_old mapRemove_def)
    moreover have "denotesAll tbl (map wp_Value (removeProp k ps)) (ua @ ub) (Ra @ Rb)"
      using s(5,7) ps by (auto simp: removeProp_old intro!: denotesAll_appendI)
    moreover have "distinct (Ra @ Rb)" "set (Ra @ Rb) \<subseteq> set R" using R s(2) by auto
    ultimately show ?thesis using rem by (intro exI [of _ "ua @ ub"] exI [of _ "Ra @ Rb"]) simp
  next
    case False
    then have "mapRemove k (zip (map wp_Key ps) vs) = zip (map wp_Key ps) vs"
      by (intro mapRemove_absent) (auto dest: set_zip_leftD)
    with False den R rem show ?thesis by (auto simp: removeProp_none)
  qed
qed

subsection \<open>An edit of the parent\<close>

lemma parentOf_in: "denotes tbl w v R \<Longrightarrow> parentOf tbl ks w = Some p \<Longrightarrow> p \<in> set R"
proof (induction ks arbitrary: w v R)
  case Nil
  from parentOf_object [OF Nil(2)] obtain n where n: "wv_Kind w = valueRef" "tbl (wv_Ref w) = Some n" "wn_Kind n = nodeObject" by auto
  then have "p = wv_Ref w" using Nil(2) by (simp add: parentOf_simp)
  moreover obtain m where "v = ObjectType m" using denotes_objectNode [OF Nil(1) n] by auto
  ultimately show ?case using Nil(1) by (auto simp: denotes_object)
next
  case (Cons k ks)
  from parentOf_object [OF Cons.prems(2)] obtain n where n: "wv_Kind w = valueRef" "tbl (wv_Ref w) = Some n" "wn_Kind n = nodeObject" by auto
  then obtain c where c: "objectPropValue n k = Some c" "parentOf tbl ks c = Some p"
    using Cons.prems(2) by (auto simp: parentOf_simp split: option.splits)
  obtain m where "v = ObjectType m" using denotes_objectNode [OF Cons.prems(1) n] by auto
  with Cons.prems(1) n(2) obtain vs R0 where R: "denotesAll tbl (map wp_Value (wn_Props n)) vs R0" "R = wv_Ref w # R0" by (auto simp: denotes_object)
  from objectPropValue_find [OF c(1)] obtain us q ws where ps: "wn_Props n = us @ q # ws" "wp_Value q = c" by metis
  from R(1) [unfolded ps(1) map_append list.map] obtain ch Ra Rc Rb where "R0 = Ra @ Rc @ Rb" "denotes tbl (wp_Value q) ch Rc"
    by (rule zip_append_split)
  with Cons.IH [OF _ c(2)] ps(2) R(2) show ?case by auto
qed

lemma edit_refines:
  fixes e :: graphEditor and E :: "string \<Rightarrow> wireProp list \<Rightarrow> wireProp list"
  defines "ns \<equiv> wg_Nodes (ge_graph e)"
  assumes L: "musLib_ok L" and sound: "soundGraph (ge_graph e)" and idx: "ge_byID e = indexNodes ns"
    and den: "denotes (nodeByID ns) (wg_Root (ge_graph e)) v R" "distinct R" "wellKeyed (nodeByID ns) R" "set R \<inter> S = {}"
    and E: "\<And>p n. p \<in> set R \<Longrightarrow> nodeByID ns p = Some n \<Longrightarrow> fitsProps (E k (wn_Props n)) \<and> (\<forall>p \<in> set (E k (wn_Props n)). validateWireValue (nodeByID ns) (wp_Value p) = None)"
    and em: "\<And>p n. p \<in> set R \<Longrightarrow> nodeByID ns p = Some n \<Longrightarrow> wn_Kind n = nodeObject \<Longrightarrow>
      editsMap (E k) f ((nodeByID ns)(p \<mapsto> n\<lparr>wn_Props := E k (wn_Props n)\<rparr>)) S"
    and run: "run = rbind (objectParent e (map keySegment (ks @ [k]))) (\<lambda>(node, key).
      finishEdit L (editNode node (\<lambda>n. n\<lparr>wn_Props := E key (wn_Props n)\<rparr>) e))"
  shows "case editAt ks f v of Some v' \<Rightarrow> \<exists>bs. run = Inr bs \<and> Decode L bs = Inr (canonGo v') | None \<Rightarrow> \<exists>err. run = Inl err"
proof (cases "parentOf (nodeByID ns) ks (wg_Root (ge_graph e))")
  case None
  with objectParent_parentOf [OF idx [unfolded ns_def], of ks k] obtain err where "objectParent e (map keySegment (ks @ [k])) = Inl err"
    by (auto simp: ns_def)
  with run editAt_None [OF den(1,3) None, of f] show ?thesis by simp
next
  case (Some p)
  with objectParent_parentOf [OF idx [unfolded ns_def], of ks k] obtain i where
    i: "objectParent e (map keySegment (ks @ [k])) = Inr (i, k)" "ge_byID e p = Some i" "wn_Kind (nodeAt e i) = nodeObject"
    by (auto simp: ns_def)
  have p: "p \<in> set R" by (rule parentOf_in [OF den(1) Some])
  have len: "i < length ns" "wn_ID (ns ! i) = p" using i(2) indexNodes_Some [of ns p i] by (simp_all add: idx)
  have tbl: "nodeByID ns p = Some (ns ! i)" using i(2) by (simp add: nodeByID_index idx)
  have obj: "wn_Kind (ns ! i) = nodeObject" using i(3) by (simp add: nodeAt_def ns_def)
  let ?n = "(ns ! i)\<lparr>wn_Props := E k (wn_Props (ns ! i))\<rparr>" and ?e = "editNode i (\<lambda>n. n\<lparr>wn_Props := E k (wn_Props n)\<rparr>) e"
  have g': "ge_graph ?e = (ge_graph e)\<lparr>wg_Nodes := ns[i := ?n]\<rparr>" by (simp add: editNode_def nodeAt_def ns_def)
  have tbl': "nodeByID (ns[i := ?n]) = (nodeByID ns)(p \<mapsto> ?n)"
    using nodeByID_update [of ns i ?n] len sound_ids [OF sound] by (simp add: ns_def)
  from editAt_denotes [OF den Some tbl refl em [OF p tbl obj]] obtain v' R' where
    v': "editAt ks f v = Some v'" "denotes (nodeByID (ns[i := ?n])) (wg_Root (ge_graph e)) v' R'" "distinct R'"
    unfolding tbl' by blast
  have "soundGraph (ge_graph ?e)"
    unfolding g' ns_def using sound_edit [OF sound, of i] len obj E [OF p tbl] by (simp add: ns_def)
  from finishEdit_sound [OF L this, of v' R'] v' g' obtain bs where "finishEdit L ?e = Inr bs" "Decode L bs = Inr (canonGo v')" by auto
  with run i(1) v'(1) show ?thesis by simp
qed


subsection \<open>Removing a property\<close>

lemma cloneWireGraph_id [simp]: "cloneWireGraph g = g"
  by (simp add: cloneWireGraph_def copyWireNode_def [abs_def])

lemma set_removeProp: "p \<in> set (removeProp k ps) \<Longrightarrow> p \<in> set ps"
  by (induction ps) (auto split: if_splits)

lemma length_removeProp: "length (removeProp k ps) \<le> length ps"
  by (induction ps) auto

lemma set_setProp: "p \<in> set (setProp k w ps) \<Longrightarrow> p \<in> set ps \<or> wp_Key p = k \<and> wp_Value p = w"
  by (induction ps) (auto split: if_splits)

lemma length_setProp: "length (setProp k w ps) \<le> Suc (length ps)"
  by (induction ps) auto

lemma fitsSlice_le: "fitsSlice k xs \<Longrightarrow> length ys \<le> length xs \<Longrightarrow> fitsSlice k ys"
  by (auto simp: fitsSlice_def elim: order_trans [rotated])

lemma fitsNode_props: "fitsNode n \<Longrightarrow> fitsProps (wn_Props n)"
  by (simp add: fitsNode_def fitsProps_def)

text \<open>The objects of a graph whose properties have distinct names.\<close>

definition distinctKeys :: "wireGraph \<Rightarrow> bool" where
  "distinctKeys g \<longleftrightarrow> list_all (\<lambda>n. wn_Kind n = nodeObject \<longrightarrow> distinct (map wp_Key (wn_Props n))) (wg_Nodes g)"

lemma distinctKeys_wellKeyed: "distinctKeys g \<Longrightarrow> wellKeyed (nodeByID (wg_Nodes g)) R"
  by (auto simp: distinctKeys_def wellKeyed_def list_all_iff dest!: nodeByID_Some)

lemma sound_node:
  assumes "soundGraph g" and "n \<in> set (wg_Nodes g)"
  shows "validateWireNode (nodeByID (wg_Nodes g)) n = None" and "ownFields n" and "fitsNode n"
  using assms validateGraph_nodes [of g n] by (auto simp: soundGraph_def fitsGraph_def list_all_iff)

lemma patchRemove_refines:
  assumes L: "musLib_ok L" and g: "unmarshalGraph L raw = Inr g" "distinctKeys g" and v: "Decode L raw = Inr v"
  shows "case editAt ks (mapRemove k) v of
      Some v' \<Rightarrow> \<exists>bs. patchRemove L raw (map keySegment (ks @ [k])) = Inr bs \<and> Decode L bs = Inr (canonGo v')
    | None \<Rightarrow> \<exists>err. patchRemove L raw (map keySegment (ks @ [k])) = Inl err"
proof -
  let ?e = "\<lparr>ge_graph = g, ge_byID = indexNodes (wg_Nodes g), ge_nextID = nextNodeID (wg_Nodes g)\<rparr>"
  from v g(1) obtain R where R: "denotes (nodeByID (wg_Nodes g)) (wg_Root g) v R" "distinct R" by (auto simp: Decode_iff)
  have sound: "soundGraph g" by (rule sound_unmarshal [OF L g(1)])
  have E: "fitsProps (removeProp k (wn_Props n)) \<and> (\<forall>p \<in> set (removeProp k (wn_Props n)). validateWireValue (nodeByID (wg_Nodes g)) (wp_Value p) = None)"
    if n: "n \<in> set (wg_Nodes g)" for n
    using fitsNode_props [OF sound_node(3) [OF sound n]] fitsSlice_le [OF _ length_removeProp, of 56 "wn_Props n" k]
      heldProps_valid [OF sound_node(1,2) [OF sound n]] by (auto simp: fitsProps_def list_all_iff dest: set_removeProp)
  have run: "patchRemove L raw (map keySegment (ks @ [k])) = rbind (objectParent ?e (map keySegment (ks @ [k]))) (\<lambda>(node, key).
      finishEdit L (editNode node (\<lambda>n. n\<lparr>wn_Props := removeProp key (wn_Props n)\<rparr>) ?e))"
    using g(1) by (simp add: patchRemove_def newGraphEditor_def ofCodec_def ofWire_def removeObjectProp_def [abs_def] Let_def)
  show ?thesis
    by (rule edit_refines [where e = ?e and R = R and S = "{}" and E = removeProp, OF L _ _ _ _ _ _ _ _ run])
       (use sound R g(2) E in \<open>auto simp: distinctKeys_wellKeyed editsMap_removeProp dest!: nodeByID_Some\<close>)
qed


subsection \<open>Setting a property\<close>

text \<open>The last identifier in use; an editor gives out the next one.\<close>

fun lastID :: "wireNode list \<Rightarrow> nat" where
  "lastID [] = 0"
| "lastID (n # ns) = max (unat (wn_ID n)) (lastID ns)"

lemma lastID_le: "n \<in> set ns \<Longrightarrow> unat (wn_ID n) \<le> lastID ns"
  by (induction ns) auto

lemma nextNodeID_lastID:
  assumes "Suc (lastID ns) < 2 ^ 32"
  shows "nextNodeID ns = of_nat (Suc (lastID ns))"
proof -
  have fold: "unat (foldl (\<lambda>m n. if wn_ID n > m then wn_ID n else m) a ns) = max (unat a) (lastID ns)" for a
    by (induction ns arbitrary: a) (auto simp: word_less_nat_alt)
  let ?m = "foldl (\<lambda>m n. if wn_ID n > m then wn_ID n else m) 0 ns"
  have m: "unat ?m = lastID ns" by (simp add: fold)
  moreover have "unat (NOT 0 :: 32 word) = 2 ^ 32 - 1" by (simp add: unsigned_minus_1_eq_mask mask_eq_exp_minus_1)
  ultimately have "?m \<noteq> NOT 0" using assms by (metis Suc_pred' diff_Suc_1 less_irrefl zero_less_power zero_less_numeral)
  moreover have "?m = of_nat (lastID ns)" by (simp flip: m)
  ultimately show ?thesis by (simp add: nextNodeID_def Let_def)
qed

lemma ownFields_remap: "ownFields n \<Longrightarrow> ownFields (remapN \<rho> n)"
  by (simp add: ownFields_def remapN_def) (simp add: remapV_def zeroValue_def)

text \<open>A sound graph with the nodes of another, renumbered to identifiers that are free.\<close>

lemma sound_append:
  fixes g gx :: wireGraph and \<rho> :: "32 word \<Rightarrow> 32 word"
  defines "new \<equiv> map (remapN \<rho>) (wg_Nodes gx)" and "w \<equiv> remapV \<rho> (wg_Root gx)"
  defines "tbl \<equiv> nodeByID (wg_Nodes g @ new)"
  assumes L: "musLib_ok L" and g: "soundGraph g" and gx: "unmarshalGraph L enc = Inr gx"
    and k: "k = Suc (lastID (wg_Nodes g))" "k + length (wg_Nodes gx) \<le> 2 ^ 32"
    and \<rho>: "map \<rho> (map wn_ID (wg_Nodes gx)) = map of_nat [k ..< k + length (wg_Nodes gx)]"
  shows "soundGraph (g\<lparr>wg_Nodes := wg_Nodes g @ new\<rparr>)" and "validateWireValue tbl w = None" and "fitsValue w"
    and "\<And>r n. nodeByID (wg_Nodes g) r = Some n \<Longrightarrow> tbl r = Some n"
    and "renumbered (nodeByID (wg_Nodes gx)) \<rho> tbl" and "inj_on \<rho> (dom (nodeByID (wg_Nodes gx)))"
    and "dom (nodeByID (wg_Nodes g)) \<inter> \<rho> ` dom (nodeByID (wg_Nodes gx)) = {}"
proof -
  have ids: "map wn_ID new = map of_nat [k ..< k + length (wg_Nodes gx)]" using \<rho> by (simp add: new_def comp_def)
  have dn: "distinct (map wn_ID new)"
    unfolding ids using k by (auto simp: distinct_map intro!: inj_on_subset [OF of_nat_inj32])
  have old: "distinct (map wn_ID (wg_Nodes g))" "0 \<notin> wn_ID ` set (wg_Nodes g)" using sound_ids [OF g] by auto
  have new_id: "lastID (wg_Nodes g) < unat (wn_ID n)" if "n \<in> set new" for n
  proof -
    have "wn_ID n \<in> set (map wn_ID new)" using that by simp
    then obtain j where j: "wn_ID n = of_nat j" "k \<le> j" "j < k + length (wg_Nodes gx)" unfolding ids by auto
    then have "unat (of_nat j :: 32 word) = j" using k(2) by (simp add: unsigned_of_nat take_bit_nat_eq_self)
    with j k(1) show ?thesis by simp
  qed
  have disj: "wn_ID ` set (wg_Nodes g) \<inter> wn_ID ` set new = {}" using lastID_le new_id by (fastforce simp: disjoint_iff)
  have d: "distinct (map wn_ID (wg_Nodes g @ new))" using old(1) dn disj by simp
  have nz: "0 \<notin> wn_ID ` set (wg_Nodes g @ new)" using old(2) new_id by fastforce
  show sub: "tbl r = Some n" if "nodeByID (wg_Nodes g) r = Some n" for r n
    using nodeByID_Some [OF that] nodeByID_in [OF d, of n] by (auto simp: tbl_def)
  have hold: "holds tbl new" using nodeByID_in [OF d] by (simp add: holds_def tbl_def)
  have em: "emitted k (k + length (wg_Nodes gx)) \<lparr>gb_nextID = of_nat k, gb_nodes = wg_Nodes g\<rparr>
      \<lparr>gb_nextID = of_nat (k + length (wg_Nodes gx)), gb_nodes = wg_Nodes g @ new\<rparr> [w] (Decode L enc = Inr GoNil) [canonGo GoNil]"
    unfolding w_def by (rule appended_emitted [OF L gx k(2) \<rho>]) (simp_all add: new_def)
  then have "list_all fitsNode new" "list_all fitsValue [w]"
    "list_all (\<lambda>n. validateWireNode tbl n = None) new \<and> list_all (\<lambda>w. validateWireValue tbl w = None) [w]"
    using hold by (auto simp: emitted_def)
  then have new: "list_all fitsNode new" "fitsValue w" "list_all (\<lambda>n. validateWireNode tbl n = None) new" "validateWireValue tbl w = None"
    by simp_all
  show "validateWireValue tbl w = None" "fitsValue w" using new by simp_all
  have "\<rho> ` dom (nodeByID (wg_Nodes gx)) = wn_ID ` set new" by (auto simp: dom_nodeByID new_def image_comp)
  then show "dom (nodeByID (wg_Nodes g)) \<inter> \<rho> ` dom (nodeByID (wg_Nodes gx)) = {}" using disj by (simp add: dom_nodeByID)
  have "map wn_ID new = map \<rho> (map wn_ID (wg_Nodes gx))" by (simp add: new_def comp_def)
  then show "inj_on \<rho> (dom (nodeByID (wg_Nodes gx)))"
    using dn by (simp only: dom_nodeByID distinct_map) (auto intro: inj_on_imageI simp: comp_def distinct_map)
  show "renumbered (nodeByID (wg_Nodes gx)) \<rho> tbl"
    using hold by (auto simp: renumbered_def holds_def new_def dest!: nodeByID_Some)
  have keep: "validateWireNode tbl n = None" if n: "n \<in> set (wg_Nodes g)" for n
  proof -
    have dom: "dom (nodeByID (wg_Nodes g)) \<subseteq> dom tbl" using sub by auto
    have "validateWireValue tbl (wp_Value p) = None" if "p \<in> set (wn_Props n)" for p
      using heldProps_valid [OF sound_node(1,2) [OF g n] that] dom unfolding validateWireValue_None by (rule order_trans)
    with valid_edited [OF sound_node(1,2) [OF g n] dom sub, of "wn_Props n"] show ?thesis by simp
  qed
  have root: "validateWireValue tbl (wg_Root g) = None"
    using g sub by (fastforce simp: soundGraph_def validateGraph_def validateWireValue_None split: option.splits)
  have "validateGraph (g\<lparr>wg_Nodes := wg_Nodes g @ new\<rparr>) = None"
    by (rule validateGraph_I) (use d nz root keep new(3) in \<open>auto simp: tbl_def list_all_iff\<close>)
  moreover have "length (wg_Nodes g @ new) \<le> 2 ^ 32"
  proof -
    have "length (wg_Nodes g @ new) = card (set (map wn_ID (wg_Nodes g @ new)))" using distinct_card [OF d] by simp
    also have "\<dots> \<le> card (UNIV :: 32 word set)" by (rule card_mono) simp_all
    finally show ?thesis by (simp add: card_word)
  qed
  then have "fitsSlice 304 (wg_Nodes g @ new)" by (simp add: fitsSlice_def maxAlloc_def)
  moreover have "list_all ownFields (wg_Nodes g @ new)"
    using sound_node(2) [OF g] unmarshalGraph_ownFields [OF L gx] by (auto simp: list_all_iff new_def intro: ownFields_remap)
  moreover have "fitsValue (wg_Root g)" using g by (simp add: soundGraph_def fitsGraph_def)
  moreover have "list_all fitsNode (wg_Nodes g)" using g by (simp add: soundGraph_def fitsGraph_def)
  with new(1) have "list_all fitsNode (wg_Nodes g @ new)" by simp
  ultimately show "soundGraph (g\<lparr>wg_Nodes := wg_Nodes g @ new\<rparr>)" by (simp add: soundGraph_def fitsGraph_def)
qed


text \<open>Go can allocate the edited graph.\<close>

definition roomFor :: "wireGraph \<Rightarrow> wireGraph \<Rightarrow> string \<Rightarrow> bool" where
  "roomFor g gx k \<longleftrightarrow> Suc (lastID (wg_Nodes g)) + length (wg_Nodes gx) < 2 ^ 32 \<and> fitsText k \<and>
     list_all (\<lambda>n. Suc (length (wn_Props n)) * 56 \<le> maxAlloc) (wg_Nodes g)"

lemma fitsProps_setProp:
  assumes "fitsProps ps" and "Suc (length ps) * 56 \<le> maxAlloc" and "fitsText k" and "fitsValue w"
  shows "fitsProps (setProp k w ps)"
proof -
  have "length (setProp k w ps) * 56 \<le> Suc (length ps) * 56" by (rule mult_le_mono1 [OF length_setProp])
  with assms(2) have "fitsSlice 56 (setProp k w ps)" by (simp add: fitsSlice_def)
  with assms(1,3,4) show ?thesis by (auto simp: fitsProps_def list_all_iff dest!: set_setProp)
qed

lemma patchSet_refines:
  assumes L: "musLib_ok L" and g: "unmarshalGraph L raw = Inr g" "distinctKeys g" and v: "Decode L raw = Inr v"
    and x: "Encode L x = Inr enc" "unmarshalGraph L enc = Inr gx" "Decode L enc = Inr nx" and room: "roomFor g gx k"
  shows "case editAt ks (mapPut k nx) v of
      Some v' \<Rightarrow> \<exists>bs. patchSet L raw (map keySegment (ks @ [k])) x = Inr bs \<and> Decode L bs = Inr (canonGo v')
    | None \<Rightarrow> \<exists>err. patchSet L raw (map keySegment (ks @ [k])) x = Inl err"
proof -
  define K where "K = Suc (lastID (wg_Nodes g))"
  have K: "1 \<le> K" "K + length (wg_Nodes gx) \<le> 2 ^ 32" "nextNodeID (wg_Nodes g) = of_nat K"
    using room nextNodeID_lastID [of "wg_Nodes g"] by (simp_all add: K_def roomFor_def)
  from appendGraphNodes_ok [OF L x(2) K(1,2), of "wg_Nodes g"] obtain \<rho> where
    app: "appendGraphNodes (wg_Nodes g) gx (of_nat K) = Inr (remapV \<rho> (wg_Root gx), wg_Nodes g @ map (remapN \<rho>) (wg_Nodes gx), of_nat (K + length (wg_Nodes gx)))"
    and \<rho>: "map \<rho> (map wn_ID (wg_Nodes gx)) = map of_nat [K ..< K + length (wg_Nodes gx)]" by auto
  define NS where "NS = wg_Nodes g @ map (remapN \<rho>) (wg_Nodes gx)"
  define w where "w = remapV \<rho> (wg_Root gx)"
  define e where "e = \<lparr>ge_graph = g\<lparr>wg_Nodes := NS\<rparr>, ge_byID = indexNodes NS, ge_nextID = of_nat (K + length (wg_Nodes gx))\<rparr>"
  have sound0: "soundGraph g" by (rule sound_unmarshal [OF L g(1)])
  note ap = sound_append [OF L sound0 x(2) K_def K(2) \<rho>, folded NS_def w_def]
  from v g(1) obtain R where R: "denotes (nodeByID (wg_Nodes g)) (wg_Root g) v R" "distinct R" by (auto simp: Decode_iff)
  from x(2,3) obtain S where S: "denotes (nodeByID (wg_Nodes gx)) (wg_Root gx) nx S" "distinct S" by (auto simp: Decode_iff)
  have den: "denotes (nodeByID NS) (wg_Root g) v R" by (rule denotes_extend [OF R(1) ap(4)])
  have val: "denotes (nodeByID NS) w nx (map \<rho> S)" unfolding w_def by (rule denotes_renumbered(1) [OF S(1) ap(5)])
  have dS: "distinct (map \<rho> S)" using S(2) inj_on_subset [OF ap(6) denotes_dom(1) [OF S(1)]] by (simp add: distinct_map)
  have "\<rho> ` set S \<subseteq> \<rho> ` dom (nodeByID (wg_Nodes gx))" by (rule image_mono [OF denotes_dom(1) [OF S(1)]])
  then have disj: "set R \<inter> set (map \<rho> S) = {}" unfolding set_map using denotes_dom(1) [OF R(1)] ap(7) by blast
  have at: "nodeByID (wg_Nodes g) p = Some n" if p: "p \<in> set R" "nodeByID NS p = Some n" for p n
  proof -
    obtain m where "nodeByID (wg_Nodes g) p = Some m" using p(1) denotes_dom(1) [OF R(1)] by auto
    with ap(4) [OF this] p(2) show ?thesis by simp
  qed
  have wk: "wellKeyed (nodeByID NS) R"
    using distinctKeys_wellKeyed [OF g(2), of R] at unfolding wellKeyed_def by blast
  have E: "fitsProps (setProp k w (wn_Props n)) \<and> (\<forall>p \<in> set (setProp k w (wn_Props n)). validateWireValue (nodeByID NS) (wp_Value p) = None)"
    if p: "p \<in> set R" "nodeByID NS p = Some n" for p n
  proof -
    have n: "n \<in> set (wg_Nodes g)" "n \<in> set NS" using nodeByID_Some [OF at [OF p]] by (simp_all add: NS_def)
    have "fitsProps (setProp k w (wn_Props n))"
      by (rule fitsProps_setProp [OF fitsNode_props [OF sound_node(3) [OF sound0 n(1)]]])
         (use room n(1) ap(3) in \<open>auto simp: roomFor_def list_all_iff\<close>)
    moreover have "validateWireValue (nodeByID NS) (wp_Value q) = None" if "q \<in> set (wn_Props n)" for q
      using heldProps_valid [OF sound_node(1,2) [OF ap(1)], of n q] n(2) that by simp
    ultimately show ?thesis using ap(2) by (auto dest!: set_setProp)
  qed
  have em: "editsMap (setProp k w) (mapPut k nx) ((nodeByID NS)(p \<mapsto> n\<lparr>wn_Props := setProp k w (wn_Props n)\<rparr>)) (set (map \<rho> S))"
    if p: "p \<in> set R" "nodeByID NS p = Some n" "wn_Kind n = nodeObject" for p n
    by (rule editsMap_setProp [OF denotes_frame(1) [OF p(2,3) _ val] dS]) (use p disj in auto)
  have run: "patchSet L raw (map keySegment (ks @ [k])) x = rbind (objectParent e (map keySegment (ks @ [k]))) (\<lambda>(node, key).
      finishEdit L (editNode node (\<lambda>n. n\<lparr>wn_Props := setProp key w (wn_Props n)\<rparr>) e))"
    using g(1) x(1,2) app K(3)
    by (simp add: patchSet_def newGraphEditor_def appendValue_def ofCodec_def ofWire_def setObjectProp_def [abs_def] reindex_def e_def NS_def w_def Let_def)
  show ?thesis
    by (rule edit_refines [where e = e and R = R and S = "set (map \<rho> S)" and E = "\<lambda>key. setProp key w", OF L _ _ _ _ _ _ _ _ run])
       (use ap(1) den R(2) wk disj E em in \<open>simp_all add: e_def\<close>)
qed

end
