(* ===== verification/Typed_Claims.thy ===== *)
theory Typed_Claims
  imports Wire_Patch_Refine Wire_Claims
begin

text \<open>
  The properties of the typed Go model and of patches, witnessed on the concrete
  primitive codec of the wire format.
\<close>

subsection \<open>Encoding and decoding\<close>

text \<open>
  C20. Encoding and decoding typed values. A Go value whose numbers are safe integers
  or floats and whose texts, flags and embedded payloads are valid is encoded,
  and no other; the payload decodes as a graph, and as the value in normal form
  (numbers as floats, maps sorted by key, times in milliseconds) unless an
  embedded payload has no typed form.
\<close>

theorem typed_round_trip:
  assumes "musLib_ok L" and "\<forall>raw. v \<noteq> GoValue raw" and "goSize L v < 2 ^ 32"
  shows "((\<exists>bs. Encode L v = Inr bs) \<longleftrightarrow> encodable L v) \<and>
    (\<forall>bs. Encode L v = Inr bs \<longrightarrow> (\<exists>g. unmarshalGraph L bs = Inr g) \<and> (treeable L v \<longrightarrow> Decode L bs = Inr (goNorm L v)))"
  using Encode_emitted [OF assms(1) _ assms(3)] assms(2) by blast

definition demo_value :: goValue where
  "demo_value = GoMap [(''b'', ArrayType [GoBool True, GoNumber (GoFloat64 NegZero), GoNil]),
     (''a'', MapType [(BigIntType ''-12'', TypedArray (Uint8ArrayType [1, 2]))])]"

lemma bigint_ok: "validateBigIntText ''-12'' = None"
  by (simp add: validateBigIntText_def trimsSpace_def spaceRunes_def isDecimal_def upt_rec char_of_def less_eq_char_def)

lemma demo_value_ok: "encodable lebLib demo_value" "treeable lebLib demo_value" "goSize lebLib demo_value < 2 ^ 32"
  "goNorm lebLib demo_value = ObjectType [(''a'', MapType [(BigIntType ''-12'', TypedArray (Uint8ArrayType [1, 2]))]),
     (''b'', ArrayType [GoBool True, GoNumber (GoFloat64 NegZero), GoNil])]"
  by (simp_all add: bigint_ok demo_value_def typedArrayModelBytes_def canonNaN_def IsNaN_def expBits_def fracBits_def NegZero_def)

theorem typed_round_trip_witness:
  "\<exists>bs. Encode lebLib demo_value = Inr bs \<and> Decode lebLib bs =
    Inr (ObjectType [(''a'', MapType [(BigIntType ''-12'', TypedArray (Uint8ArrayType [1, 2]))]),
      (''b'', ArrayType [GoBool True, GoNumber (GoFloat64 NegZero), GoNil])])"
  using typed_round_trip [OF lebLib_ok _ demo_value_ok(3)] demo_value_ok by (auto simp: demo_value_def)

text \<open>
  C21. Decoding is total and exact. The typed decoder returns on every payload, a
  cyclic one too, and it gives a value exactly for the payloads whose graph is a
  tree below the root, with every node reached once, that stands for the value.
\<close>

theorem decode_is_tree:
  "Decode L raw \<noteq> Inl OutOfFuel \<and>
   (Decode L raw = Inr v \<longleftrightarrow> (\<exists>g R. unmarshalGraph L raw = Inr g \<and> denotes (nodeByID (wg_Nodes g)) (wg_Root g) v R \<and> distinct R))"
  by (intro conjI Decode_not_OutOfFuel Decode_iff)

text \<open>
  C40. A byte array of four gigabytes or more loses its tail: the encoder narrows its
  length to 32 bits, and the payload decodes without an error to the bytes
  before the wrapped length.
\<close>

theorem huge_array_truncated:
  assumes L: "musLib_ok L" and len: "length raw < MaxLen"
  shows "\<exists>bs. Encode L (TypedArray (Uint8ArrayType raw)) = Inr bs \<and>
    Decode L bs = Inr (TypedArray (Uint8ArrayType (take (length raw mod 2 ^ 32) raw)))"
proof -
  let ?buf = "zeroNode\<lparr>wn_Kind := nodeArrayBuffer, wn_Bytes := raw, wn_ID := 1\<rparr>"
  let ?arr = "zeroNode\<lparr>wn_Kind := nodeTypedArray, wn_TextA := ''Uint8Array'', wn_Buffer := refValue 1,
    wn_ByteLength := of_nat (length raw), wn_ID := 2\<rparr>"
  let ?g = "\<lparr>wg_Root = refValue 2, wg_Nodes = [?buf, ?arr]\<rparr>"
  have fits: "fitsGraph ?g"
    using len by (simp add: fitsGraph_def fitsNode_def fitsValue_def fitsText_def fitsSlice_def zeroNode_def zeroValue_def refValue_def
        MaxLen_def maxAlloc_def)
  have un: "unat (of_nat (length raw) :: 32 word) = length raw mod 2 ^ 32" by (simp add: unsigned_of_nat take_bit_eq_mod)
  have w64: "unat (of_nat (length raw) :: 64 word) = length raw"
    using len by (simp add: MaxLen_def unsigned_of_nat take_bit_nat_eq_self)
  have bound: "\<not> (of_nat (length raw) :: 64 word) < ucast (0 :: 32 word) + ucast (of_nat (length raw) :: 32 word)"
    using word_sum_no_wrap [of 0 "of_nat (length raw)"] un by (simp add: word_less_nat_alt w64)
  have bytesPer: "bytesPerElement ''Uint8Array'' = 1" by (simp add: bytesPerElement_def)
  have valid: "validateGraph ?g = None"
    using bound by (simp add: validateGraph_def validateWireValue_def validateWireNode_def nodeByID_def zeroNode_def zeroValue_def refValue_def
        bytesPer)
  have norm: "normGraph ?g = ?g"
    by (simp add: normGraph_def normNode_def normBody_def zeroNode_def normValue_def zeroValue_def refValue_def)
  have enc: "Encode L (TypedArray (Uint8ArrayType raw)) = Inr (graphBytes L ?g)"
    using marshalGraph_bytes [OF L fits]
    by (simp add: Encode_def typedArrayModelBytes_def encodeTypedArray_def addNode_def newGraphBuilder_def finishGraph_def ofWire_def)
  have "unmarshalGraph L (graphBytes L ?g) = Inr ?g"
    using unmarshal_graphBytes [OF L fits] valid by (simp add: norm)
  moreover have "denotes (nodeByID (wg_Nodes ?g)) (wg_Root ?g) (TypedArray (Uint8ArrayType (take (length raw mod 2 ^ 32) raw))) [2]"
  proof -
    have "shape (nodeByID [?buf, ?arr]) ?arr = Some ([], \<lambda>_. TypedArray (Uint8ArrayType (take (length raw mod 2 ^ 32) raw)))"
      by (simp add: shape_def decodeTypedArray_def nodeByID_def typedArrayWindowBytes_def typedArrayModelFromBytes_def bytesPer zeroNode_def
          un Let_def)
    from node [where w = "refValue 2", OF _ _ this none] show ?thesis by (simp add: nodeByID_def)
  qed
  ultimately have "Decode L (graphBytes L ?g) = Inr (TypedArray (Uint8ArrayType (take (length raw mod 2 ^ 32) raw)))"
    unfolding Decode_iff by (intro exI [of _ ?g] exI [of _ "[2]"] conjI) simp_all
  with enc show ?thesis by blast
qed

theorem huge_array_truncated_witness:
  "\<exists>bs. Encode lebLib (TypedArray (Uint8ArrayType (replicate (2 ^ 32) 7))) = Inr bs \<and> Decode lebLib bs = Inr (TypedArray (Uint8ArrayType []))"
  using huge_array_truncated [OF lebLib_ok, of "replicate (2 ^ 32) 7"] by (simp add: MaxLen_def)


subsection \<open>Patches\<close>

text \<open>A patch of one operation.\<close>

lemma apply_single:
  assumes "unmarshalGraph L raw = Inr g"
  shows "Apply L raw [op] =
    (case applyOnePatch L raw op of Inl err \<Rightarrow> Inl (AtOp 0 (po_Op op) (formatPath (po_Path op)) err) | Inr bs \<Rightarrow> Inr bs)"
proof -
  have "raw \<noteq> []" using assms by (auto simp: unmarshalGraph_def)
  then show ?thesis by (simp add: Apply_def split: sum.splits)
qed

text \<open>
  C29. Setting a property through a path. On a payload that stands for a tree, a set
  operation gives the payload of the tree in which the object at the parent path
  has the key bound to the encoded value; where the path leaves the tree or meets
  something that is not an object, it is an error and there is no new payload.
\<close>

theorem patch_set_edits_tree:
  assumes "musLib_ok L" and "unmarshalGraph L raw = Inr g" and "distinctKeys g" and "Decode L raw = Inr v"
    and "Encode L x = Inr enc" and "unmarshalGraph L enc = Inr gx" and "Decode L enc = Inr nx" and "roomFor g gx k"
  shows "case editAt ks (mapPut k nx) v of
      Some v' \<Rightarrow> \<exists>bs. Apply L raw [\<lparr>po_Op = PatchSet, po_Path = map keySegment (ks @ [k]), po_Value = x\<rparr>] = Inr bs \<and> Decode L bs = Inr (canonGo v')
    | None \<Rightarrow> \<exists>err. Apply L raw [\<lparr>po_Op = PatchSet, po_Path = map keySegment (ks @ [k]), po_Value = x\<rparr>] = Inl err"
  using patchSet_refines [OF assms, of ks] apply_single [OF assms(2)]
  by (auto simp: applyOnePatch_def split: option.splits)

text \<open>
  Removing a property through a path: the object at the parent path loses the
  key, and a key that is not there is no error.
\<close>

theorem patch_remove_edits_tree:
  assumes "musLib_ok L" and "unmarshalGraph L raw = Inr g" and "distinctKeys g" and "Decode L raw = Inr v"
  shows "case editAt ks (mapRemove k) v of
      Some v' \<Rightarrow> \<exists>bs. Apply L raw [\<lparr>po_Op = PatchRemove, po_Path = map keySegment (ks @ [k]), po_Value = x\<rparr>] = Inr bs \<and> Decode L bs = Inr (canonGo v')
    | None \<Rightarrow> \<exists>err. Apply L raw [\<lparr>po_Op = PatchRemove, po_Path = map keySegment (ks @ [k]), po_Value = x\<rparr>] = Inl err"
  using patchRemove_refines [OF assms, of ks k] apply_single [OF assms(2)]
  by (auto simp: applyOnePatch_def PatchSet_def PatchRemove_def split: option.splits)

text \<open>The payload of an object with one property, and a value to put beside it.\<close>

definition patch_graph :: wireGraph where
  "patch_graph = \<lparr>wg_Root = refValue 1, wg_Nodes = [zeroNode\<lparr>wn_Kind := nodeObject,
     wn_Props := [\<lparr>wp_Key = ''a'', wp_Value = zeroValue\<lparr>wv_Kind := valueBool, wv_Bool := True\<rparr>\<rparr>], wn_ID := 1\<rparr>]\<rparr>"

definition value_graph :: wireGraph where
  "value_graph = \<lparr>wg_Root = zeroValue\<lparr>wv_Kind := valueString, wv_Text := ''s''\<rparr>, wg_Nodes = []\<rparr>"

lemma patch_graphs_ok:
  "fitsGraph patch_graph" "fitsGraph value_graph" "validateGraph patch_graph = None" "validateGraph value_graph = None"
  "normGraph patch_graph = patch_graph" "normGraph value_graph = value_graph" "distinctKeys patch_graph" "roomFor patch_graph value_graph ''b''"
  by (simp_all add: patch_graph_def value_graph_def fitsGraph_def fitsNode_def fitsValue_def fitsText_def fitsSlice_def maxAlloc_def
      MaxLen_def zeroNode_def zeroValue_def refValue_def validateGraph_def validateWireValue_def validateWireNode_def nodeByID_def
      normGraph_def normValue_def normNode_def normBody_def normProp_def distinctKeys_def roomFor_def)

lemma patch_payloads:
  "Encode lebLib (ObjectType [(''a'', GoBool True)]) = Inr (graphBytes lebLib patch_graph)"
  "Encode lebLib (GoString ''s'') = Inr (graphBytes lebLib value_graph)"
  "unmarshalGraph lebLib (graphBytes lebLib patch_graph) = Inr patch_graph"
  "unmarshalGraph lebLib (graphBytes lebLib value_graph) = Inr value_graph"
proof -
  note ms = marshalGraph_bytes [OF lebLib_ok patch_graphs_ok(1)] marshalGraph_bytes [OF lebLib_ok patch_graphs_ok(2)]
  show "Encode lebLib (ObjectType [(''a'', GoBool True)]) = Inr (graphBytes lebLib patch_graph)"
    using ms(1) by (simp add: Encode_def encodeObject_def smapResult_def addNode_def newGraphBuilder_def finishGraph_def ofWire_def patch_graph_def)
  show "Encode lebLib (GoString ''s'') = Inr (graphBytes lebLib value_graph)"
    using ms(2) by (simp add: Encode_def newGraphBuilder_def finishGraph_def ofWire_def value_graph_def)
qed (simp_all add: unmarshal_graphBytes [OF lebLib_ok] patch_graphs_ok)

lemma patch_payloads_decode:
  "Decode lebLib (graphBytes lebLib patch_graph) = Inr (ObjectType [(''a'', GoBool True)])"
  "Decode lebLib (graphBytes lebLib value_graph) = Inr (GoString ''s'')"
  using Encode_emitted(2) [OF lebLib_ok _ _ patch_payloads(1)] Encode_emitted(2) [OF lebLib_ok _ _ patch_payloads(2)] by simp_all

theorem patch_set_edits_tree_witness:
  "\<exists>raw bs. Decode lebLib raw = Inr (ObjectType [(''a'', GoBool True)]) \<and>
    Apply lebLib raw [\<lparr>po_Op = PatchSet, po_Path = [keySegment ''b''], po_Value = GoString ''s''\<rparr>] = Inr bs \<and>
    Decode lebLib bs = Inr (ObjectType [(''a'', GoBool True), (''b'', GoString ''s'')])"
  using patch_set_edits_tree [OF lebLib_ok patch_payloads(3) patch_graphs_ok(7) patch_payloads_decode(1) patch_payloads(2,4)
      patch_payloads_decode(2) patch_graphs_ok(8), of "[]"] patch_payloads_decode(1) by auto

theorem patch_remove_edits_tree_witness:
  "\<exists>raw bs. Decode lebLib raw = Inr (ObjectType [(''a'', GoBool True)]) \<and>
    Apply lebLib raw [\<lparr>po_Op = PatchRemove, po_Path = [keySegment ''a''], po_Value = GoNil\<rparr>] = Inr bs \<and>
    Decode lebLib bs = Inr (ObjectType [])"
  using patch_remove_edits_tree [OF lebLib_ok patch_payloads(3) patch_graphs_ok(7) patch_payloads_decode(1), of "[]" "''a''" GoNil]
    patch_payloads_decode(1) by (auto simp: mapRemove_def)

end
