(* ===== verification/Js_Ast.thy ===== *)
theory Js_Ast
  imports Repl_Prelude
begin

text \<open>
  The JavaScript syntax trees \<open>src/session/top_level_await.go\<close> takes apart: the
  node types of the package \<open>goja/ast\<close> it names, with the fields it reads. A node
  of a type it does not name is an \<open>OtherExpression\<close> or \<open>OtherStatement\<close> with the
  name of its type. The nil interface of an expression is \<open>NilExpression\<close>; a
  pointer or a statement the code compares with nil is an option. Structs that
  hold expressions and statements are datatypes over them, so that the two kinds
  of nodes are the only recursive types.
\<close>

datatype token = TOKEN_ASSIGN | TOKEN_VOID | TOKEN_BREAK | TOKEN_LET | TOKEN_CONST | OtherToken string

datatype 'e property =
    PropertyShort string 'e
  | PropertyKeyed 'e 'e
  | PropertySpread 'e

datatype 'e binding = Binding 'e 'e

datatype 'e parameterList = ParameterList "'e binding list" 'e

datatype ('e, 's) functionLiteral = Function bool "string option" "'e parameterList option" "'s list option"

datatype ('e, 's) conciseBody = BlockBody "'s list" | ExpressionBody 'e

datatype ('e, 's) classElement =
    FieldDefinition 'e 'e
  | MethodDefinition 'e "('e, 's) functionLiteral option"
  | ClassStaticBlock "'s list option"

datatype ('e, 's) classLiteral = Class "string option" 'e "('e, 's) classElement list"

datatype 'e forInit = InitExpression 'e | InitVarDeclList "'e binding list" | InitLexicalDecl "'e binding list"

datatype 'e forInto = IntoExpression 'e | IntoVar "'e binding option" | IntoDeclaration 'e

datatype ('e, 's) switchCase = Case 'e "'s list"

datatype ('e, 's) catchClause = Catch 'e "'s list option"

datatype expression =
    NilExpression
  | Identifier string
  | StringLiteral string
  | NumberLiteral int
  | ThisExpression
  | AwaitExpression expression
  | AssignExpression token expression expression
  | ArrayLiteral "expression list"
  | ArrayPattern "expression list" expression
  | ObjectPattern "expression property list" expression
  | ObjectLiteral "expression property list"
  | BinaryExpression expression expression
  | UnaryExpression token expression
  | CallExpression expression "expression list"
  | ConditionalExpression expression expression expression
  | BracketExpression expression expression
  | DotExpression expression string
  | PrivateDotExpression expression string
  | NewExpression expression "expression list"
  | SequenceExpression "expression list"
  | TemplateLiteral expression "expression list"
  | YieldExpression expression
  | OptionalChain expression
  | OptionalExpression expression
  | SpreadElement expression
  | FunctionLiteral "(expression, statement) functionLiteral"
  | ArrowFunctionLiteral "expression parameterList option" "(expression, statement) conciseBody"
  | ClassLiteral "(expression, statement) classLiteral"
  | OtherExpression string
and statement =
    ExpressionStatement expression
  | VariableStatement "expression binding list"
  | LexicalDeclaration token "expression binding list"
  | FunctionDeclaration "(expression, statement) functionLiteral option"
  | ClassDeclaration "(expression, statement) classLiteral option"
  | BlockStatement "statement list"
  | IfStatement expression statement "statement option"
  | SwitchStatement expression "(expression, statement) switchCase list"
  | TryStatement "statement list option" "(expression, statement) catchClause option" "statement list option"
  | LabelledStatement string statement
  | WithStatement expression statement
  | WhileStatement expression statement
  | DoWhileStatement expression statement
  | ForStatement "expression forInit option" expression expression statement
  | ForInStatement "expression forInto" expression statement
  | ForOfStatement "expression forInto" expression statement
  | ReturnStatement expression
  | ThrowStatement expression
  | BranchStatement token "string option"
  | OtherStatement string

end
