(* ===== verification/Cell_Rewrite.thy ===== *)
theory Cell_Rewrite
  imports Js_Ast
begin

text \<open>
  The rewriting of a cell for top-level await: \<open>compileWrappedCell\<close> of
  \<open>src/session/top_level_await.go\<close> and the functions it calls. The parser and the
  compiler of goja are parameters. A loop that may not end has the result \<open>None\<close>
  when it does not.
\<close>

definition replInternalCommitName :: string where "replInternalCommitName = ''__repljs_internal_commit__''"

record topLevelDeclaration =
  td_Name :: string
  td_Kind :: string

fun tokenString :: "token \<Rightarrow> string" where
  "tokenString TOKEN_ASSIGN = ''=''"
| "tokenString TOKEN_VOID = ''void''"
| "tokenString TOKEN_BREAK = ''break''"
| "tokenString TOKEN_LET = ''let''"
| "tokenString TOKEN_CONST = ''const''"
| "tokenString (OtherToken s) = s"

subsection \<open>Declarations of a cell\<close>

text \<open>
  An element of a pattern that is not a binding target is skipped, and a binding
  target of another type has no names: both have none here.
\<close>

function (sequential) bindingTargetNames :: "expression \<Rightarrow> string list" where
  "bindingTargetNames (Identifier name) = [name]"
| "bindingTargetNames (ArrayPattern elements rest) = concat (map bindingTargetNames elements) @ bindingTargetNames rest"
| "bindingTargetNames (ObjectPattern properties rest) =
     concat (map (\<lambda>prop. case prop of
         PropertyShort name _ \<Rightarrow> [name]
       | PropertyKeyed _ v \<Rightarrow> bindingTargetNames v
       | PropertySpread _ \<Rightarrow> []) properties) @ bindingTargetNames rest"
| "bindingTargetNames _ = []"
  by pat_completeness auto
termination
  by (relation "measure size") (auto simp: less_Suc_eq_le trans_le_add1 size_list_estimation' dest!: size_list_estimation' [where f = "size_property size"])

definition bindingNames :: "expression binding list \<Rightarrow> string list" where
  "bindingNames bs = concat (map (\<lambda>b. case b of Binding target _ \<Rightarrow> bindingTargetNames target) bs)"

text \<open>The names one statement declares, with their kinds, in the order of the code.\<close>

definition statementDeclarations :: "statement \<Rightarrow> topLevelDeclaration list" where
  "statementDeclarations stmt =
     (case stmt of
        VariableStatement bs \<Rightarrow> map (\<lambda>name. \<lparr>td_Name = name, td_Kind = ''var''\<rparr>) (bindingNames bs)
      | LexicalDeclaration tok bs \<Rightarrow> map (\<lambda>name. \<lparr>td_Name = name, td_Kind = tokenString tok\<rparr>) (bindingNames bs)
      | FunctionDeclaration (Some (Function _ (Some name) _ _)) \<Rightarrow> [\<lparr>td_Name = name, td_Kind = ''function''\<rparr>]
      | ClassDeclaration (Some (Class (Some name) _ _)) \<Rightarrow> [\<lparr>td_Name = name, td_Kind = ''class''\<rparr>]
      | _ \<Rightarrow> [])"

text \<open>The closure \<open>add\<close>; a name is seen exactly if it is in the result.\<close>

definition addDeclaration :: "topLevelDeclaration list \<Rightarrow> topLevelDeclaration \<Rightarrow> topLevelDeclaration list" where
  "addDeclaration out d = (if td_Name d = [] \<or> td_Name d \<in> td_Name ` set out then out else out @ [d])"

definition collectTopLevelDeclarations :: "statement list \<Rightarrow> topLevelDeclaration list" where
  "collectTopLevelDeclarations stmts = foldl addDeclaration [] (concat (map statementDeclarations stmts))"

partial_function (option) freeName :: "string set \<Rightarrow> string \<Rightarrow> nat \<Rightarrow> string option" where
  "freeName used base i =
     (let candidate = base @ ''_'' @ showNat i in
      if candidate \<notin> used then Some candidate else freeName used base (i + 1))"

definition chooseInternalName :: "topLevelDeclaration list \<Rightarrow> string \<Rightarrow> string option" where
  "chooseInternalName decls base =
     (let used = td_Name ` set decls in if base \<notin> used then Some base else freeName used base 1)"

subsection \<open>The completion value\<close>

definition undefinedExpression :: expression where
  "undefinedExpression = UnaryExpression TOKEN_VOID (NumberLiteral 0)"

definition directEvalSentinel :: statement where
  "directEvalSentinel = ExpressionStatement (CallExpression (Identifier ''eval'') [StringLiteral []])"

definition completionDeclarationStatement :: "string \<Rightarrow> statement" where
  "completionDeclarationStatement name = LexicalDeclaration TOKEN_LET [Binding (Identifier name) undefinedExpression]"

definition completionAssignStatement :: "string \<Rightarrow> expression \<Rightarrow> statement" where
  "completionAssignStatement name val = ExpressionStatement (AssignExpression TOKEN_ASSIGN (Identifier name) val)"

definition commitReturnStatement :: "expression \<Rightarrow> statement" where
  "commitReturnStatement val = ReturnStatement (CallExpression (Identifier replInternalCommitName) [val])"

lemma size_case: "Case test ss \<in> set cs \<Longrightarrow> 2 * size_list size ss < Suc (Suc (2 * size_list (size_switchCase size size) cs + n))"
  using size_list_estimation' [of "Case test ss" cs "size_list size ss" "size_switchCase size size"] by simp

lemma size_butlast:
  assumes "ss \<noteq> []"
  shows "size_list size (butlast ss) < size_list size ss"
proof -
  obtain us s where "ss = us @ [s]" using assms by (cases ss rule: rev_cases) auto
  then show ?thesis by simp
qed

function (sequential) rewriteTailStatementsForCompletion :: "string \<Rightarrow> statement list \<Rightarrow> statement list"
  and rewriteTailStatementForCompletion :: "string \<Rightarrow> statement \<Rightarrow> statement"
  and rewriteSwitchConsequentForCompletion :: "string \<Rightarrow> statement list \<Rightarrow> statement list" where
  "rewriteTailStatementsForCompletion name [] = []"
| "rewriteTailStatementsForCompletion name [stmt] = [rewriteTailStatementForCompletion name stmt]"
| "rewriteTailStatementsForCompletion name (stmt # stmt' # stmts) =
     stmt # rewriteTailStatementsForCompletion name (stmt' # stmts)"
| "rewriteTailStatementForCompletion name stmt =
     (case stmt of
        ExpressionStatement e \<Rightarrow> completionAssignStatement name e
      | BlockStatement stmts \<Rightarrow> BlockStatement (rewriteTailStatementsForCompletion name stmts)
      | IfStatement test consequent alternate \<Rightarrow>
          IfStatement test (rewriteTailStatementForCompletion name consequent)
            (case alternate of None \<Rightarrow> None | Some s \<Rightarrow> Some (rewriteTailStatementForCompletion name s))
      | SwitchStatement discriminant cases \<Rightarrow>
          SwitchStatement discriminant (map (\<lambda>c. case c of Case test consequent \<Rightarrow>
            Case test (rewriteSwitchConsequentForCompletion name consequent)) cases)
      | TryStatement body catch finally \<Rightarrow>
          TryStatement (case body of None \<Rightarrow> None | Some stmts \<Rightarrow> Some (rewriteTailStatementsForCompletion name stmts))
            (case catch of Some (Catch param (Some stmts)) \<Rightarrow> Some (Catch param (Some (rewriteTailStatementsForCompletion name stmts)))
              | _ \<Rightarrow> catch) finally
      | LabelledStatement label s \<Rightarrow> LabelledStatement label (rewriteTailStatementForCompletion name s)
      | WithStatement object s \<Rightarrow> WithStatement object (rewriteTailStatementForCompletion name s)
      | _ \<Rightarrow> stmt)"
| "rewriteSwitchConsequentForCompletion name stmts =
     (if stmts = [] then []
      else if last stmts = BranchStatement TOKEN_BREAK None
      then rewriteSwitchConsequentForCompletion name (butlast stmts) @ [last stmts]
      else rewriteTailStatementsForCompletion name stmts)"
  by pat_completeness auto
termination
  by (relation "measure (\<lambda>x. case x of Inl (_, ss) \<Rightarrow> 2 * size_list size ss
      | Inr (Inl (_, s)) \<Rightarrow> 2 * size s + 1 | Inr (Inr (_, ss)) \<Rightarrow> 2 * size_list size ss + 1)")
     (auto simp: size_case size_butlast)

definition patchWrappedAsyncCell :: "statement list \<Rightarrow> bool \<Rightarrow> string \<Rightarrow> statement list" where
  "patchWrappedAsyncCell userStatements forceDynamic completionName =
     (if forceDynamic then [directEvalSentinel] else []) @ completionDeclarationStatement completionName #
     rewriteTailStatementsForCompletion completionName userStatements @
     [commitReturnStatement (Identifier completionName)]"

subsection \<open>Compiling a cell\<close>

text \<open>A message that prints the type of a node has the node instead.\<close>

datatype cellError =
    ParseError string
  | CompileError string
  | WrapperBodyCount nat
  | WrapperRoot statement
  | WrapperExpression expression
  | WrapperCallee expression
  | WrapperNotAsync
  | RuntimePanic string
  | DeclarationConflict string string string

definition wrapCell :: "string \<Rightarrow> string" where
  "wrapCell src = ''(async function __repljs_cell__(){'' @ [CHR 0x0A] @ src @ [CHR 0x0A] @
     ''return '' @ replInternalCommitName @ ''(void 0);'' @ [CHR 0x0A] @ ''})()''"

text \<open>
  The function literal of the wrapper, and the program with another body of it:
  the code changes the body in place.
\<close>

definition locateWrappedAsyncCell ::
  "statement list \<Rightarrow> cellError + statement list option \<times> (statement list \<Rightarrow> statement list)" where
  "locateWrappedAsyncCell prg =
     (case prg of
        [ExpressionStatement (CallExpression (FunctionLiteral (Function async name params body)) arguments)] \<Rightarrow>
          if \<not> async then Inl WrapperNotAsync
          else Inr (body, \<lambda>body'. [ExpressionStatement (CallExpression (FunctionLiteral (Function async name params (Some body'))) arguments)])
      | [ExpressionStatement (CallExpression callee _)] \<Rightarrow> Inl (WrapperCallee callee)
      | [ExpressionStatement e] \<Rightarrow> Inl (WrapperExpression e)
      | [stmt] \<Rightarrow> Inl (WrapperRoot stmt)
      | _ \<Rightarrow> Inl (WrapperBodyCount (length prg)))"

definition compileWrappedCell ::
  "(string \<Rightarrow> string + statement list) \<Rightarrow> (statement list \<Rightarrow> string + 'p) \<Rightarrow> string \<Rightarrow> (cellError, 'p \<times> topLevelDeclaration list) comp" where
  "compileWrappedCell parse compile src =
     cbind (Some (case parse (wrapCell src) of Inl e \<Rightarrow> Inl (ParseError e) | Inr prg \<Rightarrow> Inr prg)) (\<lambda>prg.
     cbind (Some (locateWrappedAsyncCell prg)) (\<lambda>(body, withBody).
     cbind (Some (case body of
         None \<Rightarrow> Inl (RuntimePanic ''nil pointer dereference'')
       | Some stmts \<Rightarrow> if stmts = [] then Inl (RuntimePanic ''slice bounds out of range'') else Inr (butlast stmts))) (\<lambda>userStatements.
     let decls = collectTopLevelDeclarations userStatements in
     cbind (map_option Inr (chooseInternalName decls ''__repljs_completion__'')) (\<lambda>completionName.
     Some (case compile (withBody (patchWrappedAsyncCell userStatements (decls \<noteq> []) completionName)) of
         Inl e \<Rightarrow> Inl (CompileError e)
       | Inr compiled \<Rightarrow> Inr (compiled, decls))))))"

end
