(* ===== verification/Cell_State.thy ===== *)
theory Cell_State
  imports Cell_Rewrite
begin

unbundle bit_operations_syntax

text \<open>
  The state of top-level declarations: the redeclaration table, the commit hook
  and the promotion of the scope of a cell to the global scope,
  \<open>topLevelAwaitState\<close> of \<open>src/session/top_level_await.go\<close>.
\<close>

subsection \<open>The redeclaration table\<close>

record committedTopLevelDeclaration =
  ct_LexicalKind :: string
  ct_VarLikeKind :: string

record topLevelAwaitCommitState =
  tc_allowed :: "string set"
  tc_varLike :: "string set"

record topLevelAwaitState =
  ta_committed :: "string \<rightharpoonup> committedTopLevelDeclaration"
  ta_pending :: "topLevelAwaitCommitState option"

definition newTopLevelAwaitState :: topLevelAwaitState where
  "newTopLevelAwaitState = \<lparr>ta_committed = Map.empty, ta_pending = None\<rparr>"

definition declarationIsVarLike :: "string \<Rightarrow> bool" where
  "declarationIsVarLike kind \<longleftrightarrow> kind = ''var'' \<or> kind = ''function''"

definition conflictKind :: "committedTopLevelDeclaration \<Rightarrow> string" where
  "conflictKind d =
     (if ct_LexicalKind d \<noteq> [] then ct_LexicalKind d
      else if ct_VarLikeKind d \<noteq> [] then ct_VarLikeKind d
      else ''declaration'')"

text \<open>The body of the loop of \<open>validateRedeclarations\<close>.\<close>

definition redeclarationError :: "topLevelAwaitState \<Rightarrow> topLevelDeclaration \<Rightarrow> cellError option" where
  "redeclarationError s decl =
     (case ta_committed s (td_Name decl) of
        None \<Rightarrow> None
      | Some prev \<Rightarrow>
          if declarationIsVarLike (td_Kind decl)
          then (if ct_LexicalKind prev \<noteq> [] then Some (DeclarationConflict (td_Name decl) (td_Kind decl) (ct_LexicalKind prev)) else None)
          else if ct_LexicalKind prev \<noteq> [] \<or> ct_VarLikeKind prev \<noteq> []
          then Some (DeclarationConflict (td_Name decl) (td_Kind decl) (conflictKind prev))
          else None)"

definition validateRedeclarations :: "topLevelAwaitState \<Rightarrow> topLevelDeclaration list \<Rightarrow> cellError option" where
  "validateRedeclarations s decls = find_map (redeclarationError s) decls"

definition emptyEntry :: committedTopLevelDeclaration where
  "emptyEntry = \<lparr>ct_LexicalKind = [], ct_VarLikeKind = []\<rparr>"

definition commitDeclaration :: "(string \<rightharpoonup> committedTopLevelDeclaration) \<Rightarrow> topLevelDeclaration \<Rightarrow> string \<rightharpoonup> committedTopLevelDeclaration" where
  "commitDeclaration committed decl =
     (let entry = (case committed (td_Name decl) of None \<Rightarrow> emptyEntry | Some e \<Rightarrow> e) in
      committed(td_Name decl \<mapsto>
        (if declarationIsVarLike (td_Kind decl) then entry\<lparr>ct_VarLikeKind := td_Kind decl\<rparr>
         else entry\<lparr>ct_LexicalKind := td_Kind decl\<rparr>)))"

definition commitDeclarations :: "topLevelDeclaration list \<Rightarrow> topLevelAwaitState \<Rightarrow> topLevelAwaitState" where
  "commitDeclarations decls s = s\<lparr>ta_committed := foldl commitDeclaration (ta_committed s) decls\<rparr>"

definition beginCommit :: "topLevelDeclaration list \<Rightarrow> topLevelAwaitState \<Rightarrow> topLevelAwaitState" where
  "beginCommit decls s = s\<lparr>ta_pending := Some
     \<lparr>tc_allowed = td_Name ` set decls, tc_varLike = td_Name ` set (filter (\<lambda>d. declarationIsVarLike (td_Kind d)) decls)\<rparr>\<rparr>"

definition endCommit :: "topLevelAwaitState \<Rightarrow> topLevelAwaitState" where
  "endCommit s = s\<lparr>ta_pending := None\<rparr>"

text \<open>A copy that shares nothing with the pending state, as a value the state itself.\<close>

definition pendingCommit :: "topLevelAwaitState \<Rightarrow> topLevelAwaitCommitState option" where
  "pendingCommit s = ta_pending s"

definition buildTopLevelAwaitPlan ::
  "(string \<Rightarrow> string + statement list) \<Rightarrow> (statement list \<Rightarrow> string + 'p) \<Rightarrow> topLevelAwaitState \<Rightarrow> string \<Rightarrow>
   (cellError, 'p \<times> topLevelDeclaration list) comp" where
  "buildTopLevelAwaitPlan parse compile s src =
     cbind (compileWrappedCell parse compile src) (\<lambda>(program, decls).
       Some (case validateRedeclarations s decls of Some e \<Rightarrow> Inl e | None \<Rightarrow> Inr (program, decls)))"

subsection \<open>Scopes of the engine\<close>

text \<open>
  The part of a goja runtime that the promotion reads and writes by reflection: a
  stash has the slots of its names, an array of values and a pointer to the outer
  stash. Stashes and arrays have addresses; the global stash, a struct of the
  runtime, has one too. The array of a stash is shared by the copies of the stash.
  A value of an array may be nil (\<open>None\<close>). A property of the global object holds
  a value, or it is an accessor that \<open>bridgePromotedGlobals\<close> has defined, which
  reads and writes a slot of the stash value it was given: the global stash, as
  it is when the accessor is called. \<open>vm_hasOwn\<close> is the property \<open>hasOwnProperty\<close> of
  the global object, if it is a function, and what that answers for an object.
\<close>

record stash =
  st_names :: "(string \<rightharpoonup> 32 word) option"
  st_values :: nat
  st_obj :: nat
  st_funcType :: nat
  st_outer :: "nat option"

datatype 'v globalProperty = DataProperty bool 'v | SlotAccessor nat

type_synonym 'v globalObject = "string \<rightharpoonup> 'v globalProperty"

record 'v gojaRuntime =
  vm_stashes :: "nat \<rightharpoonup> stash"
  vm_arrays :: "nat \<Rightarrow> 'v option list"
  vm_global :: nat
  vm_stash :: "nat option"
  vm_globalObject :: "'v globalObject"
  vm_extensible :: bool
  vm_hasOwn :: "'v globalObject \<Rightarrow> ('v globalObject \<Rightarrow> string \<Rightarrow> string + bool) option"
  vm_undefined :: 'v

definition stashMaskConst :: "32 word" where "stashMaskConst = push_bit 31 1"
definition stashMaskVar :: "32 word" where "stashMaskVar = push_bit 30 1"
definition stashMaskStrict :: "32 word" where "stashMaskStrict = push_bit 29 1"
definition stashMaskType :: "32 word" where
  "stashMaskType = stashMaskConst OR stashMaskVar OR stashMaskStrict"

definition slotOf :: "32 word \<Rightarrow> nat" where
  "slotOf idxRaw = unat (idxRaw AND NOT stashMaskType)"

definition promotedStashSlotValue :: "'v gojaRuntime \<Rightarrow> stash \<Rightarrow> nat \<Rightarrow> 'v" where
  "promotedStashSlotValue vm st idx =
     (let vals = vm_arrays vm (st_values st) in
      if idx \<ge> length vals then vm_undefined vm
      else case vals ! idx of None \<Rightarrow> vm_undefined vm | Some v \<Rightarrow> v)"

definition setPromotedStashSlotValue :: "stash \<Rightarrow> nat \<Rightarrow> 'v \<Rightarrow> 'v gojaRuntime \<Rightarrow> 'v gojaRuntime" where
  "setPromotedStashSlotValue st idx v vm =
     (let vals = vm_arrays vm (st_values st) in
      if idx \<ge> length vals then vm
      else vm\<lparr>vm_arrays := (vm_arrays vm)(st_values st := vals[idx := Some v])\<rparr>)"

definition globalStash :: "'v gojaRuntime \<Rightarrow> stash" where
  "globalStash vm = the (vm_stashes vm (vm_global vm))"

text \<open>Reading and setting a property of the global object.\<close>

definition getGlobal :: "'v gojaRuntime \<Rightarrow> string \<Rightarrow> 'v" where
  "getGlobal vm name =
     (case vm_globalObject vm name of
        None \<Rightarrow> vm_undefined vm
      | Some (DataProperty _ v) \<Rightarrow> v
      | Some (SlotAccessor idx) \<Rightarrow> promotedStashSlotValue vm (globalStash vm) idx)"

definition setGlobal :: "string \<Rightarrow> 'v \<Rightarrow> 'v gojaRuntime \<Rightarrow> string + 'v gojaRuntime" where
  "setGlobal name v vm =
     (case vm_globalObject vm name of
        Some (SlotAccessor idx) \<Rightarrow> Inr (setPromotedStashSlotValue (globalStash vm) idx v vm)
      | Some (DataProperty writable _) \<Rightarrow>
          if writable then Inr (vm\<lparr>vm_globalObject := (vm_globalObject vm)(name \<mapsto> DataProperty True v)\<rparr>)
          else Inl (''Cannot assign to read only property '' @ quote name)
      | None \<Rightarrow>
          if vm_extensible vm then Inr (vm\<lparr>vm_globalObject := (vm_globalObject vm)(name \<mapsto> DataProperty True v)\<rparr>)
          else Inl (''Cannot add property '' @ name @ '', object is not extensible''))"

definition defineSlotAccessor :: "string \<Rightarrow> nat \<Rightarrow> 'v gojaRuntime \<Rightarrow> string + 'v gojaRuntime" where
  "defineSlotAccessor name idx vm =
     (if vm_extensible vm then Inr (vm\<lparr>vm_globalObject := (vm_globalObject vm)(name \<mapsto> SlotAccessor idx)\<rparr>)
      else Inl (''Cannot define property '' @ name @ '', object is not extensible''))"

text \<open>The loop of \<open>bridgePromotedGlobals\<close>, over the names in the order of the iterator of the map.\<close>

fun bridgeNames ::
  "('v globalObject \<Rightarrow> string \<Rightarrow> string + bool) \<Rightarrow> string set \<Rightarrow> (string \<times> 32 word) list \<Rightarrow> 'v gojaRuntime \<Rightarrow> string + 'v gojaRuntime" where
  "bridgeNames hasOwn varLike [] vm = Inr vm"
| "bridgeNames hasOwn varLike ((name, idxRaw) # names) vm =
     (if name \<notin> varLike then bridgeNames hasOwn varLike names vm
      else case hasOwn (vm_globalObject vm) name of
        Inl e \<Rightarrow> Inl (''promote wrapper stash: check global property '' @ quote name @ '': '' @ e)
      | Inr exists \<Rightarrow>
          (let idx = slotOf idxRaw; currentValue = promotedStashSlotValue vm (globalStash vm) idx in
           if exists
           then (case setGlobal name currentValue vm of
                   Inl e \<Rightarrow> Inl (''promote wrapper stash: sync existing global '' @ quote name @ '': '' @ e)
                 | Inr vm \<Rightarrow> bridgeNames hasOwn varLike names vm)
           else (case defineSlotAccessor name idx vm of
                   Inl e \<Rightarrow> Inl (''promote wrapper stash: bridge global '' @ quote name @ '': '' @ e)
                 | Inr vm \<Rightarrow> bridgeNames hasOwn varLike names vm)))"

definition bridgePromotedGlobals :: "(string \<times> 32 word) list \<Rightarrow> string set \<Rightarrow> 'v gojaRuntime \<Rightarrow> string + 'v gojaRuntime" where
  "bridgePromotedGlobals names varLike vm =
     (case vm_hasOwn vm (vm_globalObject vm) of
        None \<Rightarrow> Inl ''promote wrapper stash: global object has no callable hasOwnProperty''
      | Some hasOwn \<Rightarrow> bridgeNames hasOwn varLike names vm)"

text \<open>
  \<open>fresh\<close> is the address of the copy of the global stash, \<open>order\<close> the order in which
  the iterator gives the names.
\<close>

definition promoteCurrentWrapperStash ::
  "nat \<Rightarrow> string list \<Rightarrow> string set \<Rightarrow> string set \<Rightarrow> 'v gojaRuntime \<Rightarrow> string + 'v gojaRuntime" where
  "promoteCurrentWrapperStash fresh order allowed varLike vm =
     (case vm_stash vm of
        None \<Rightarrow> Inl ''promote wrapper stash: vm.stash missing''
      | Some current \<Rightarrow>
          (let currentElem = the (vm_stashes vm current) in
           case st_names currentElem of
             None \<Rightarrow> Inl ''promote wrapper stash: current stash has no names map''
           | Some names \<Rightarrow>
               (let oldCopy = globalStash vm;
                    filtered = names |` (allowed - {''arguments'', ''this''});
                    currentElem = currentElem\<lparr>st_names := Some filtered, st_obj := st_obj oldCopy,
                      st_funcType := st_funcType oldCopy, st_outer := Some fresh\<rparr>;
                    vm = vm\<lparr>vm_stashes := (vm_stashes vm)(fresh \<mapsto> oldCopy, current \<mapsto> currentElem, vm_global vm \<mapsto> currentElem)\<rparr> in
                bridgePromotedGlobals (map (\<lambda>n. (n, the (filtered n))) (filter (\<lambda>n. filtered n \<noteq> None) order)) varLike vm)))"

end
