(* ===== verification/Cell_Scope.thy ===== *)
theory Cell_Scope
  imports Cell_State
begin

text \<open>
  The scope of the engine along the promotions of cells: to which slot of which
  array an identifier resolves, and what a property of the global object reads.
\<close>

subsection \<open>Identifiers\<close>

text \<open>
  An identifier resolves in a stash to the slot the stash gives its name, or to
  what the outer stash resolves it to. The result is an array and an index.
\<close>

definition slotIn :: "stash \<Rightarrow> string \<Rightarrow> (nat \<times> nat) option" where
  "slotIn st name = map_option (\<lambda>idx. (st_values st, slotOf idx)) (Option.bind (st_names st) (\<lambda>names. names name))"

inductive resolves :: "'v gojaRuntime \<Rightarrow> nat \<Rightarrow> string \<Rightarrow> nat \<times> nat \<Rightarrow> bool" for vm where
  resolves_here: "vm_stashes vm a = Some st \<Longrightarrow> slotIn st name = Some p \<Longrightarrow> resolves vm a name p"
| resolves_outer: "vm_stashes vm a = Some st \<Longrightarrow> slotIn st name = None \<Longrightarrow> st_outer st = Some b \<Longrightarrow>
    resolves vm b name p \<Longrightarrow> resolves vm a name p"

inductive_cases resolvesE: "resolves vm a name p"

definition outerOf :: "'v gojaRuntime \<Rightarrow> nat \<Rightarrow> nat \<Rightarrow> bool" where
  "outerOf vm a b \<longleftrightarrow> (\<exists>st. vm_stashes vm a = Some st \<and> st_outer st = Some b)"

lemma resolves_iff:
  "vm_stashes vm a = Some st \<Longrightarrow>
   resolves vm a name p \<longleftrightarrow> (case slotIn st name of Some q \<Rightarrow> p = q
     | None \<Rightarrow> (case st_outer st of None \<Rightarrow> False | Some b \<Rightarrow> resolves vm b name p))"
  by (auto elim: resolvesE intro: resolves.intros split: option.splits)

lemma resolves_agree:
  assumes "resolves vm a name p" and "\<And>b. (outerOf vm)\<^sup>*\<^sup>* a b \<Longrightarrow> vm_stashes vm' b = vm_stashes vm b"
  shows "resolves vm' a name p"
  using assms
proof (induction rule: resolves.induct)
  case (resolves_here a st name p)
  then show ?case by (auto intro: resolves.resolves_here)
next
  case (resolves_outer a st name b p)
  have "outerOf vm a b" using resolves_outer.hyps by (auto simp: outerOf_def)
  then have "resolves vm' b name p" using resolves_outer.IH resolves_outer.prems by (blast intro: converse_rtranclp_into_rtranclp)
  with resolves_outer show ?case by (auto intro: resolves.resolves_outer)
qed

lemma outer_agree:
  assumes "(outerOf vm)\<^sup>*\<^sup>* a b" and agree: "\<And>b. (outerOf vm)\<^sup>*\<^sup>* a b \<Longrightarrow> vm_stashes vm' b = vm_stashes vm b"
  shows "(outerOf vm')\<^sup>*\<^sup>* a b"
  using assms(1)
proof (induction rule: rtranclp_induct)
  case (step b c)
  from step.hyps agree [OF step.hyps(1)] have "outerOf vm' b c" by (simp add: outerOf_def)
  with step.IH show ?case by (rule rtranclp.rtrancl_into_rtrancl)
qed simp

lemma outer_agree_iff:
  assumes agree: "\<And>b. (outerOf vm)\<^sup>*\<^sup>* a b \<Longrightarrow> vm_stashes vm' b = vm_stashes vm b"
  shows "(outerOf vm')\<^sup>*\<^sup>* a b \<longleftrightarrow> (outerOf vm)\<^sup>*\<^sup>* a b"
proof
  assume "(outerOf vm')\<^sup>*\<^sup>* a b"
  then show "(outerOf vm)\<^sup>*\<^sup>* a b"
  proof (induction rule: rtranclp_induct)
    case (step b c)
    from step.hyps agree [OF step.IH] have "outerOf vm b c" by (simp add: outerOf_def)
    with step.IH show ?case by (rule rtranclp.rtrancl_into_rtrancl)
  qed simp
qed (rule outer_agree [OF _ agree])

lemma resolves_agree_iff:
  assumes agree: "\<And>b. (outerOf vm)\<^sup>*\<^sup>* a b \<Longrightarrow> vm_stashes vm' b = vm_stashes vm b"
  shows "resolves vm' a name p \<longleftrightarrow> resolves vm a name p"
  using resolves_agree [OF _ agree] resolves_agree [of vm' a name p vm] outer_agree_iff [OF agree] agree by (metis (no_types, lifting))

subsection \<open>The bridge to the global object\<close>

lemma setGlobal_frame: "setGlobal name v vm = Inr vm' \<Longrightarrow>
   vm_stashes vm' = vm_stashes vm \<and> vm_global vm' = vm_global vm \<and> vm_stash vm' = vm_stash vm"
  by (auto simp: setGlobal_def setPromotedStashSlotValue_def Let_def split: option.splits globalProperty.splits if_splits)

lemma defineSlotAccessor_frame: "defineSlotAccessor name idx vm = Inr vm' \<Longrightarrow>
   vm_stashes vm' = vm_stashes vm \<and> vm_global vm' = vm_global vm \<and> vm_stash vm' = vm_stash vm"
  by (auto simp: defineSlotAccessor_def split: if_splits)

lemma bridgeNames_frame: "bridgeNames hasOwn varLike names vm = Inr vm' \<Longrightarrow>
   vm_stashes vm' = vm_stashes vm \<and> vm_global vm' = vm_global vm \<and> vm_stash vm' = vm_stash vm"
  by (induction hasOwn varLike names vm rule: bridgeNames.induct)
     (auto simp: Let_def split: if_splits sum.splits dest!: setGlobal_frame defineSlotAccessor_frame)

text \<open>A property that is there keeps its kind.\<close>

lemma setGlobal_accessor: "setGlobal name v vm = Inr vm' \<Longrightarrow> vm_globalObject vm x = Some (SlotAccessor i) \<Longrightarrow>
   vm_globalObject vm' x = Some (SlotAccessor i)"
  by (auto simp: setGlobal_def setPromotedStashSlotValue_def Let_def split: option.splits globalProperty.splits if_splits)

definition faithfulHasOwn :: "('v globalObject \<Rightarrow> string \<Rightarrow> string + bool) \<Rightarrow> bool" where
  "faithfulHasOwn hasOwn \<longleftrightarrow> (\<forall>obj name. hasOwn obj name = Inr (obj name \<noteq> None))"

lemma bridgeNames_accessor:
  "bridgeNames hasOwn varLike names vm = Inr vm' \<Longrightarrow> faithfulHasOwn hasOwn \<Longrightarrow> vm_globalObject vm x = Some (SlotAccessor i) \<Longrightarrow>
   vm_globalObject vm' x = Some (SlotAccessor i)"
proof (induction hasOwn varLike names vm rule: bridgeNames.induct)
  case (2 hasOwn varLike name idxRaw names vm)
  let ?v = "promotedStashSlotValue vm (globalStash vm) (slotOf idxRaw)"
  show ?case
  proof (cases "name \<in> varLike")
    case False
    with 2 show ?thesis by simp
  next
    case True
    have own: "hasOwn (vm_globalObject vm) name = Inr (vm_globalObject vm name \<noteq> None)" using 2 by (simp add: faithfulHasOwn_def)
    show ?thesis
    proof (cases "vm_globalObject vm name = None")
      case False
      with True own 2(4) obtain vm1 where s: "setGlobal name ?v vm = Inr vm1" "bridgeNames hasOwn varLike names vm1 = Inr vm'"
        by (auto simp: Let_def split: sum.splits)
      from 2(2) [of True "slotOf idxRaw" ?v vm1] True own False s setGlobal_accessor [OF s(1) 2(6)] 2(5) show ?thesis by simp
    next
      case none: True
      with True own 2(4) obtain vm1 where s: "defineSlotAccessor name (slotOf idxRaw) vm = Inr vm1" "bridgeNames hasOwn varLike names vm1 = Inr vm'"
        by (auto simp: Let_def split: sum.splits)
      from none 2(6) have "x \<noteq> name" by auto
      with s(1) 2(6) have "vm_globalObject vm1 x = Some (SlotAccessor i)" by (auto simp: defineSlotAccessor_def split: if_splits)
      with 2(3) [of False "slotOf idxRaw" ?v vm1] True own none s 2(5) show ?thesis by simp
    qed
  qed
qed simp

text \<open>A name that is bridged is there afterwards; a new one reads its own slot.\<close>

lemma bridgeNames_new:
  "bridgeNames hasOwn varLike names vm = Inr vm' \<Longrightarrow> faithfulHasOwn hasOwn \<Longrightarrow> distinct (map fst names) \<Longrightarrow>
   (x, idxRaw) \<in> set names \<Longrightarrow> x \<in> varLike \<Longrightarrow> vm_globalObject vm x = None \<Longrightarrow>
   vm_globalObject vm' x = Some (SlotAccessor (slotOf idxRaw))"
proof (induction names arbitrary: vm)
  case (Cons y names)
  obtain name raw where y: "y = (name, raw)" by (cases y)
  let ?v = "promotedStashSlotValue vm (globalStash vm) (slotOf raw)"
  have own: "hasOwn (vm_globalObject vm) name = Inr (vm_globalObject vm name \<noteq> None)" using Cons.prems by (simp add: faithfulHasOwn_def)
  show ?case
  proof (cases "name = x")
    case True
    with y Cons.prems have "raw = idxRaw" by (auto simp: image_iff)
    with True y own Cons.prems obtain vm1 where d: "defineSlotAccessor x (slotOf idxRaw) vm = Inr vm1"
      and n: "bridgeNames hasOwn varLike names vm1 = Inr vm'" by (auto simp: Let_def split: sum.splits)
    from d have "vm_globalObject vm1 x = Some (SlotAccessor (slotOf idxRaw))" by (auto simp: defineSlotAccessor_def split: if_splits)
    with bridgeNames_accessor [OF n Cons.prems(2)] show ?thesis by blast
  next
    case False
    with y Cons.prems have x: "(x, idxRaw) \<in> set names" "distinct (map fst names)" by auto
    have "\<exists>vm1. bridgeNames hasOwn varLike names vm1 = Inr vm' \<and> vm_globalObject vm1 x = None"
    proof (cases "name \<in> varLike")
      case True
      with y own Cons.prems(1) obtain vm1 where "bridgeNames hasOwn varLike names vm1 = Inr vm'"
        and "setGlobal name ?v vm = Inr vm1 \<or> defineSlotAccessor name (slotOf raw) vm = Inr vm1"
        by (auto simp: Let_def split: sum.splits if_splits)
      moreover from this(2) False Cons.prems(6) have "vm_globalObject vm1 x = None"
        by (auto simp: setGlobal_def defineSlotAccessor_def setPromotedStashSlotValue_def Let_def
            split: option.splits globalProperty.splits if_splits)
      ultimately show ?thesis by blast
    qed (use y Cons.prems in auto)
    with Cons.IH x Cons.prems show ?thesis by blast
  qed
qed simp

subsection \<open>A promotion\<close>

definition promotedNames :: "string set \<Rightarrow> stash \<Rightarrow> string \<rightharpoonup> 32 word" where
  "promotedNames allowed st = the (st_names st) |` (allowed - {''arguments'', ''this''})"

definition promotedStash :: "nat \<Rightarrow> string set \<Rightarrow> stash \<Rightarrow> stash \<Rightarrow> stash" where
  "promotedStash fresh allowed old st = st\<lparr>st_names := Some (promotedNames allowed st), st_obj := st_obj old,
     st_funcType := st_funcType old, st_outer := Some fresh\<rparr>"

definition promotedOrder :: "string list \<Rightarrow> (string \<rightharpoonup> 32 word) \<Rightarrow> (string \<times> 32 word) list" where
  "promotedOrder order names = map (\<lambda>n. (n, the (names n))) (filter (\<lambda>n. names n \<noteq> None) order)"

lemma promote_Inr:
  assumes "promoteCurrentWrapperStash fresh order allowed varLike vm = Inr vm'"
  obtains current hasOwn where "vm_stash vm = Some current"
    and "st_names (the (vm_stashes vm current)) \<noteq> None"
    and "bridgeNames hasOwn varLike (promotedOrder order (promotedNames allowed (the (vm_stashes vm current))))
       (vm\<lparr>vm_stashes := (vm_stashes vm)(fresh \<mapsto> globalStash vm,
          current \<mapsto> promotedStash fresh allowed (globalStash vm) (the (vm_stashes vm current)),
          vm_global vm \<mapsto> promotedStash fresh allowed (globalStash vm) (the (vm_stashes vm current)))\<rparr>) = Inr vm'"
    and "vm_hasOwn vm (vm_globalObject vm) = Some hasOwn"
  using assms by (auto simp: promoteCurrentWrapperStash_def bridgePromotedGlobals_def Let_def promotedOrder_def promotedNames_def promotedStash_def
      split: option.splits)

lemma promote_stashes:
  assumes "promoteCurrentWrapperStash fresh order allowed varLike vm = Inr vm'" and c: "vm_stash vm = Some current"
  shows "vm_stashes vm' = (vm_stashes vm)(fresh \<mapsto> globalStash vm,
          current \<mapsto> promotedStash fresh allowed (globalStash vm) (the (vm_stashes vm current)),
          vm_global vm \<mapsto> promotedStash fresh allowed (globalStash vm) (the (vm_stashes vm current)))"
    and "vm_global vm' = vm_global vm"
proof -
  from assms(1) have "vm_stashes vm' = (vm_stashes vm)(fresh \<mapsto> globalStash vm,
          current \<mapsto> promotedStash fresh allowed (globalStash vm) (the (vm_stashes vm current)),
          vm_global vm \<mapsto> promotedStash fresh allowed (globalStash vm) (the (vm_stashes vm current))) \<and> vm_global vm' = vm_global vm"
  proof (rule promote_Inr)
    fix cur hasOwn
    assume "vm_stash vm = Some cur"
      and b: "bridgeNames hasOwn varLike (promotedOrder order (promotedNames allowed (the (vm_stashes vm cur))))
       (vm\<lparr>vm_stashes := (vm_stashes vm)(fresh \<mapsto> globalStash vm,
          cur \<mapsto> promotedStash fresh allowed (globalStash vm) (the (vm_stashes vm cur)),
          vm_global vm \<mapsto> promotedStash fresh allowed (globalStash vm) (the (vm_stashes vm cur)))\<rparr>) = Inr vm'"
    with c have "cur = current" by simp
    with bridgeNames_frame [OF b] show ?thesis by simp
  qed
  then show "vm_stashes vm' = (vm_stashes vm)(fresh \<mapsto> globalStash vm,
          current \<mapsto> promotedStash fresh allowed (globalStash vm) (the (vm_stashes vm current)),
          vm_global vm \<mapsto> promotedStash fresh allowed (globalStash vm) (the (vm_stashes vm current)))"
    and "vm_global vm' = vm_global vm" by blast+
qed

text \<open>The global scope is fit for a promotion: its outer stashes are apart from it.\<close>

definition apart :: "'v gojaRuntime \<Rightarrow> nat set \<Rightarrow> bool" where
  "apart vm addrs \<longleftrightarrow> (\<forall>b. (outerOf vm)\<^sup>+\<^sup>+ (vm_global vm) b \<longrightarrow> b \<notin> addrs)"

definition cellSlots :: "string set \<Rightarrow> stash \<Rightarrow> string \<Rightarrow> (nat \<times> nat) option" where
  "cellSlots allowed st name = (if name \<in> allowed - {''arguments'', ''this''} then slotIn st name else None)"

lemma slotIn_promoted:
  "st_names st \<noteq> None \<Longrightarrow> slotIn (promotedStash fresh allowed old st) name = cellSlots allowed st name"
  by (auto simp: slotIn_def promotedStash_def promotedNames_def cellSlots_def restrict_map_def)

lemma outer_promoted: "st_outer (promotedStash fresh allowed old st) = Some fresh"
  by (simp add: promotedStash_def)

lemma promotion_scope:
  assumes p: "promoteCurrentWrapperStash fresh order allowed varLike vm = Inr vm'"
    and c: "vm_stash vm = Some current" "vm_stashes vm current = Some st"
    and g: "vm_stashes vm (vm_global vm) = Some old"
    and d: "fresh \<noteq> current" "fresh \<noteq> vm_global vm" and apart: "apart vm {fresh, current, vm_global vm}"
    and a: "a = current \<or> a = vm_global vm"
  shows "resolves vm' a name q \<longleftrightarrow>
    (case cellSlots allowed st name of Some q' \<Rightarrow> q = q' | None \<Rightarrow> resolves vm (vm_global vm) name q)"
    and "apart vm' {vm_global vm}"
proof -
  let ?new = "promotedStash fresh allowed old st"
  from p have names: "st_names st \<noteq> None"
  proof (rule promote_Inr)
    fix cur
    assume "vm_stash vm = Some cur" "st_names (the (vm_stashes vm cur)) \<noteq> None"
    with c show ?thesis by simp
  qed
  have old: "globalStash vm = old" using g by (simp add: globalStash_def)
  have stashes: "vm_stashes vm' = (vm_stashes vm)(fresh \<mapsto> old, current \<mapsto> ?new, vm_global vm \<mapsto> ?new)"
    using promote_stashes [OF p c(1)] c(2) old by simp
  have new: "vm_stashes vm' a = Some ?new" using a stashes by auto
  have fresh: "vm_stashes vm' fresh = Some old" using stashes d by simp
  have agree: "vm_stashes vm' b = vm_stashes vm b" if "st_outer old = Some o'" "(outerOf vm)\<^sup>*\<^sup>* o' b" for o' b
  proof -
    have "outerOf vm (vm_global vm) o'" using g that by (simp add: outerOf_def)
    with that(2) have "(outerOf vm)\<^sup>+\<^sup>+ (vm_global vm) b" by (simp add: rtranclp_into_tranclp2)
    with apart stashes show ?thesis by (auto simp: apart_def)
  qed
  have "resolves vm' fresh name q \<longleftrightarrow> resolves vm (vm_global vm) name q"
    using resolves_agree_iff [OF agree] by (simp add: resolves_iff [OF fresh] resolves_iff [OF g] split: option.splits)
  then show "resolves vm' a name q \<longleftrightarrow>
      (case cellSlots allowed st name of Some q' \<Rightarrow> q = q' | None \<Rightarrow> resolves vm (vm_global vm) name q)"
    by (simp add: resolves_iff [OF new] slotIn_promoted [OF names] outer_promoted split: option.splits)
  have "b \<noteq> vm_global vm" if r: "(outerOf vm')\<^sup>+\<^sup>+ (vm_global vm) b" for b
  proof -
    have gl: "vm_stashes vm' (vm_global vm) = Some ?new" using stashes by simp
    from tranclpD [OF r] obtain z where "outerOf vm' (vm_global vm) z" "(outerOf vm')\<^sup>*\<^sup>* z b" by blast
    with gl have z: "(outerOf vm')\<^sup>*\<^sup>* fresh b" by (simp add: outerOf_def promotedStash_def)
    show ?thesis
    proof (cases "b = fresh")
      case False
      then obtain o' where o: "outerOf vm' fresh o'" "(outerOf vm')\<^sup>*\<^sup>* o' b" using z by (metis converse_rtranclpE)
      with fresh have o': "st_outer old = Some o'" by (simp add: outerOf_def)
      have "(outerOf vm)\<^sup>*\<^sup>* o' b" using o(2) outer_agree_iff [OF agree [OF o']] by simp
      moreover have "outerOf vm (vm_global vm) o'" using g o' by (simp add: outerOf_def)
      ultimately have "(outerOf vm)\<^sup>+\<^sup>+ (vm_global vm) b" by (simp add: rtranclp_into_tranclp2)
      with apart show ?thesis by (auto simp: apart_def)
    qed (use d in simp)
  qed
  moreover have "vm_global vm' = vm_global vm" using promote_stashes [OF p c(1)] by simp
  ultimately show "apart vm' {vm_global vm}" by (simp add: apart_def)
qed

end
