(* ===== verification/Cell_Run.thy ===== *)
theory Cell_Run
  imports Cell_State Effects
begin

text \<open>
  The run of a cell: the commit hook, \<open>runContext\<close> of \<open>src/session/runtime.go\<close> and
  the settling of the value a cell returns. The values of the engine are a
  parameter: \<open>jsOps\<close> holds what goja answers about a value.
\<close>

definition replInternalCompletionBrand :: string where
  "replInternalCompletionBrand = ''__repljs_internal_completion__''"

text \<open>What a pending promise will do once \<open>then\<close> is called on it.\<close>

datatype 'v pendingThen = NoThen | ThenFails string | WillFulfill 'v | WillReject "'v option" | NeverSettles

datatype 'v promiseState = Fulfilled 'v | Rejected "'v option" | Pending "'v pendingThen"

datatype exportKind = ExportNil | ExportBool | ExportNumber | ExportString | ExportOther

text \<open>\<open>jo_nil\<close> is the nil interface; \<open>jo_get\<close> gives it for a property that is not there.\<close>

record 'v jsOps =
  jo_nil :: 'v
  jo_undefined :: 'v
  jo_null :: 'v
  jo_isObject :: "'v \<Rightarrow> bool"
  jo_get :: "'v \<Rightarrow> string \<Rightarrow> 'v"
  jo_ToBoolean :: "'v \<Rightarrow> bool"
  jo_String :: "'v \<Rightarrow> string"
  jo_promise :: "'v \<Rightarrow> 'v promiseState option"
  jo_export :: "'v \<Rightarrow> exportKind"
  jo_EncodeGoja :: "'v \<Rightarrow> string + bytes"
  jo_envelope :: "'v \<Rightarrow> string + 'v"

subsection \<open>Results of a cell\<close>

definition exportedGojaPromise :: "'v jsOps \<Rightarrow> 'v \<Rightarrow> 'v promiseState option" where
  "exportedGojaPromise J v = (if v = jo_nil J then None else jo_promise J v)"

definition exportedSettledGojaPromise :: "'v jsOps \<Rightarrow> 'v \<Rightarrow> 'v option" where
  "exportedSettledGojaPromise J v = (case exportedGojaPromise J v of Some (Fulfilled r) \<Rightarrow> Some r | _ \<Rightarrow> None)"

partial_function (option) gojaTypeHint :: "'v jsOps \<Rightarrow> 'v \<Rightarrow> string option" where
  "gojaTypeHint J v =
     (case exportedSettledGojaPromise J v of
        Some r \<Rightarrow>
          Option.bind (gojaTypeHint J r) (\<lambda>inner. Some (''Promise<'' @ (if inner = [] then ''unknown'' else inner) @ ''>''))
      | None \<Rightarrow> Some
          (case jo_export J v of
             ExportNil \<Rightarrow> ''undefined'' | ExportBool \<Rightarrow> ''boolean'' | ExportNumber \<Rightarrow> ''number''
           | ExportString \<Rightarrow> ''string'' | ExportOther \<Rightarrow> ''object''))"

definition gojaValuePreview :: "'v jsOps \<Rightarrow> 'v \<Rightarrow> string" where
  "gojaValuePreview J v =
     (if v = jo_nil J then ''undefined'' else if v = jo_undefined J then ''undefined''
      else if v = jo_null J then ''null'' else jo_String J v)"

definition valueToEvalResult :: "'v jsOps \<Rightarrow> ValueID \<Rightarrow> 'v \<Rightarrow> 'v evalResult option" where
  "valueToEvalResult J nid v =
     (if v = jo_nil J \<or> v = jo_undefined J \<or> v = jo_null J
      then Some \<lparr>ev_completionValue = None, ev_structured = [], ev_indexedValue = v, ev_hasIndexedValue = True\<rparr>
      else case gojaTypeHint J v of
        None \<Rightarrow> None
      | Some typeHint \<Rightarrow> Some
          \<lparr>ev_completionValue = Some \<lparr>vr_ID = nid, vr_Preview = gojaValuePreview J v, vr_TypeHint = typeHint\<rparr>,
           ev_structured = (case jo_EncodeGoja J v of Inl _ \<Rightarrow> [] | Inr b \<Rightarrow> b),
           ev_indexedValue = v, ev_hasIndexedValue = True\<rparr>)"

definition unwrapInternalCompletionEnvelope :: "'v jsOps \<Rightarrow> 'v \<Rightarrow> 'v option" where
  "unwrapInternalCompletionEnvelope J v =
     (if \<not> jo_isObject J v then None
      else let brand = jo_get J v replInternalCompletionBrand in
        if brand = jo_nil J \<or> brand = jo_undefined J \<or> brand = jo_null J \<or> \<not> jo_ToBoolean J brand then None
        else Some (jo_get J v ''value''))"

text \<open>
  What is delivered for a value, if anything ever is. \<open>J\<close> answers about values
  now, \<open>J'\<close> when a promise the code waits for has settled.
\<close>

definition rejection :: "'v jsOps \<Rightarrow> 'v option \<Rightarrow> string + 'v evalResult" where
  "rejection J reason = Inl (''promise rejected: '' @ (case reason of None \<Rightarrow> [] | Some r \<Rightarrow> jo_String J r))"

definition deliverValue :: "'v jsOps \<Rightarrow> ValueID \<Rightarrow> 'v \<Rightarrow> (string + 'v evalResult) option" where
  "deliverValue J nid v = map_option Inr (valueToEvalResult J nid v)"

definition finalizeCommittedValue :: "'v jsOps \<Rightarrow> 'v jsOps \<Rightarrow> ValueID \<Rightarrow> 'v \<Rightarrow> (string + 'v evalResult) option" where
  "finalizeCommittedValue J J' nid v =
     (case exportedGojaPromise J v of
        Some (Fulfilled _) \<Rightarrow> deliverValue J nid v
      | Some (Rejected reason) \<Rightarrow> Some (rejection J reason)
      | Some (Pending NoThen) \<Rightarrow> Some (Inl ''promise still pending after evaluation'')
      | Some (Pending (ThenFails e)) \<Rightarrow> Some (Inl (''promise then: '' @ e))
      | Some (Pending (WillFulfill _)) \<Rightarrow> deliverValue J' nid v
      | Some (Pending (WillReject reason)) \<Rightarrow> Some (rejection J' reason)
      | Some (Pending NeverSettles) \<Rightarrow> None
      | None \<Rightarrow> deliverValue J nid v)"

definition finalizeCompletionValue :: "'v jsOps \<Rightarrow> 'v jsOps \<Rightarrow> ValueID \<Rightarrow> 'v \<Rightarrow> (string + 'v evalResult) option" where
  "finalizeCompletionValue J J' nid v =
     (case unwrapInternalCompletionEnvelope J v of
        Some committed \<Rightarrow> finalizeCommittedValue J J' nid committed
      | None \<Rightarrow> deliverValue J nid v)"

definition settleValueAsync :: "'v jsOps \<Rightarrow> 'v jsOps \<Rightarrow> 'v jsOps \<Rightarrow> ValueID \<Rightarrow> 'v \<Rightarrow> (string + 'v evalResult) option" where
  "settleValueAsync J0 J J' nid v =
     (if v = jo_nil J0 then Some (Inr \<lparr>ev_completionValue = None, ev_structured = [], ev_indexedValue = v, ev_hasIndexedValue = False\<rparr>)
      else case jo_promise J0 v of
        None \<Rightarrow> finalizeCompletionValue J0 J nid v
      | Some (Fulfilled r) \<Rightarrow> finalizeCompletionValue J0 J nid r
      | Some (Rejected reason) \<Rightarrow> Some (rejection J0 reason)
      | Some (Pending NoThen) \<Rightarrow> Some (Inl ''promise still pending after evaluation'')
      | Some (Pending (ThenFails e)) \<Rightarrow> Some (Inl (''promise then: '' @ e))
      | Some (Pending (WillFulfill r)) \<Rightarrow> finalizeCompletionValue J J' nid r
      | Some (Pending (WillReject reason)) \<Rightarrow> Some (rejection J reason)
      | Some (Pending NeverSettles) \<Rightarrow> None)"

subsection \<open>The commit hook\<close>

text \<open>
  \<open>commit\<close> gives the runtime back with the envelope, or with the text of the
  JavaScript error it throws. A failed promotion leaves what it has already done.
\<close>

definition commitHook ::
  "'v jsOps \<Rightarrow> nat \<Rightarrow> string list \<Rightarrow> topLevelAwaitState \<Rightarrow> 'v list \<Rightarrow> 'v gojaRuntime \<Rightarrow> string + 'v \<times> 'v gojaRuntime" where
  "commitHook J fresh order s arguments vm =
     (case pendingCommit s of
        None \<Rightarrow> Inl ''internal wrapped-cell commit hook called without pending state''
      | Some pending \<Rightarrow>
          rbind (if tc_allowed pending \<noteq> {}
                 then promoteCurrentWrapperStash fresh order (tc_allowed pending) (tc_varLike pending) vm
                 else Inr vm) (\<lambda>vm.
          rbind (jo_envelope J (case arguments of [] \<Rightarrow> jo_undefined J | v # _ \<Rightarrow> v)) (\<lambda>envelope.
          Inr (envelope, vm))))"

text \<open>
  A run of the compiled wrapper: its calls of the commit hook, with the runtime as
  it is then, and the runtime and value (or thrown error) it ends with.
\<close>

datatype 'v wrapperRun =
    RunError string "'v gojaRuntime"
  | RunValue 'v "'v gojaRuntime"
  | CallCommit "'v list" "'v gojaRuntime" "string + 'v \<times> 'v gojaRuntime \<Rightarrow> 'v wrapperRun"

primrec driveRun :: "('v list \<Rightarrow> 'v gojaRuntime \<Rightarrow> string + 'v \<times> 'v gojaRuntime) \<Rightarrow> 'v wrapperRun \<Rightarrow> (string + 'v) \<times> 'v gojaRuntime" where
  "driveRun hook (RunError e vm) = (Inl e, vm)"
| "driveRun hook (RunValue v vm) = (Inr v, vm)"
| "driveRun hook (CallCommit arguments vm k) = driveRun hook (k (hook arguments vm))"

datatype runError = PlanFailed cellError | EvaluationFailed string | PromisePending

record 'v cellRun =
  xr_result :: "runError + 'v evalResult"
  xr_state :: topLevelAwaitState
  xr_vm :: "'v gojaRuntime"

text \<open>\<open>run\<close> is the engine: how a compiled program runs in a runtime.\<close>

definition runContext ::
  "(string \<Rightarrow> string + statement list) \<Rightarrow> (statement list \<Rightarrow> string + 'p) \<Rightarrow> ('p \<Rightarrow> 'v gojaRuntime \<Rightarrow> 'v wrapperRun) \<Rightarrow>
   'v jsOps \<Rightarrow> 'v jsOps \<Rightarrow> 'v jsOps \<Rightarrow> ValueID \<Rightarrow> nat \<Rightarrow> string list \<Rightarrow> topLevelAwaitState \<Rightarrow> 'v gojaRuntime \<Rightarrow> string \<Rightarrow> 'v cellRun option" where
  "runContext parse compile run J0 J J' nid fresh order s vm src =
     (case buildTopLevelAwaitPlan parse compile s src of
        None \<Rightarrow> None
      | Some (Inl e) \<Rightarrow> Some \<lparr>xr_result = Inl (PlanFailed e), xr_state = s, xr_vm = vm\<rparr>
      | Some (Inr (program, decls)) \<Rightarrow>
          (let s = beginCommit decls s in
           case driveRun (commitHook J0 fresh order s) (run program vm) of
             (Inl e, vm) \<Rightarrow> Some \<lparr>xr_result = Inl (EvaluationFailed (''goja: '' @ e)), xr_state = endCommit s, xr_vm = vm\<rparr>
           | (Inr raw, vm) \<Rightarrow>
               (case settleValueAsync J0 J J' nid raw of
                  None \<Rightarrow> Some \<lparr>xr_result = Inl PromisePending, xr_state = endCommit s, xr_vm = vm\<rparr>
                | Some (Inl e) \<Rightarrow> Some \<lparr>xr_result = Inl (EvaluationFailed e), xr_state = endCommit s, xr_vm = vm\<rparr>
                | Some (Inr res) \<Rightarrow>
                    Some \<lparr>xr_result = Inr res, xr_state = endCommit (commitDeclarations decls s), xr_vm = vm\<rparr>)))"

end
