(* ===== verification/Cell_Promotions.thy ===== *)
theory Cell_Promotions
  imports Cell_Scope Cell_Run
begin

text \<open>
  The scope along the cells of a runtime, and the properties of the global object
  that the promotion defines.
\<close>

subsection \<open>Identifiers along cells\<close>

text \<open>
  Between two commits the engine runs code: it keeps the global stash and its
  outer stashes, though not the values in their arrays, and gives the wrapper a
  stash of its own. The map holds the slot each name was committed to last.
\<close>

definition wrapperScope :: "'v gojaRuntime \<Rightarrow> 'v gojaRuntime \<Rightarrow> nat \<Rightarrow> nat \<Rightarrow> stash \<Rightarrow> bool" where
  "wrapperScope vm vm' fresh current st \<longleftrightarrow>
     vm_global vm' = vm_global vm \<and> (\<forall>b. (outerOf vm)\<^sup>*\<^sup>* (vm_global vm) b \<longrightarrow> vm_stashes vm' b = vm_stashes vm b) \<and>
     vm_stash vm' = Some current \<and> vm_stashes vm' current = Some st \<and>
     distinct [fresh, current, vm_global vm'] \<and> apart vm' {fresh, current}"

inductive promotions :: "'v gojaRuntime \<Rightarrow> (string \<rightharpoonup> nat \<times> nat) \<Rightarrow> 'v gojaRuntime \<Rightarrow> bool" for vm0 where
  promotions_none: "promotions vm0 Map.empty vm0"
| promotions_commit: "promotions vm0 env vm \<Longrightarrow> wrapperScope vm vm1 fresh current st \<Longrightarrow>
    commitHook J fresh order (beginCommit decls s) arguments vm1 = Inr (envelope, vm') \<Longrightarrow>
    promotions vm0 (env ++ cellSlots (td_Name ` set decls) st) vm'"

lemma commitHook_Inr:
  assumes "commitHook J fresh order (beginCommit decls s) arguments vm = Inr (envelope, vm')"
  shows "if decls = [] then vm' = vm
    else promoteCurrentWrapperStash fresh order (td_Name ` set decls)
      (td_Name ` set (filter (\<lambda>d. declarationIsVarLike (td_Kind d)) decls)) vm = Inr vm'"
  using assms by (auto simp: commitHook_def pendingCommit_def beginCommit_def rbind_Inr_iff split: if_splits)

lemma promotions_scope:
  assumes "promotions vm0 env vm" and "vm_stashes vm0 (vm_global vm0) \<noteq> None" and "apart vm0 {vm_global vm0}"
  shows "vm_global vm = vm_global vm0 \<and> vm_stashes vm (vm_global vm) \<noteq> None \<and> apart vm {vm_global vm} \<and>
    (resolves vm (vm_global vm) name q \<longleftrightarrow>
      (case env name of Some q' \<Rightarrow> q = q' | None \<Rightarrow> resolves vm0 (vm_global vm0) name q))"
  using assms
proof (induction arbitrary: name q rule: promotions.induct)
  case (promotions_commit env vm vm1 fresh current st J order decls s arguments envelope vm')
  then have ih: "vm_global vm = vm_global vm0" "vm_stashes vm (vm_global vm) \<noteq> None" "apart vm {vm_global vm}"
    "\<And>name q. resolves vm (vm_global vm) name q \<longleftrightarrow>
      (case env name of Some q' \<Rightarrow> q = q' | None \<Rightarrow> resolves vm0 (vm_global vm0) name q)" by blast+
  have w: "vm_global vm1 = vm_global vm" "\<And>b. (outerOf vm)\<^sup>*\<^sup>* (vm_global vm) b \<Longrightarrow> vm_stashes vm1 b = vm_stashes vm b"
    "vm_stash vm1 = Some current" "vm_stashes vm1 current = Some st"
    "fresh \<noteq> current" "fresh \<noteq> vm_global vm1" "current \<noteq> vm_global vm1" "apart vm1 {fresh, current}"
    using promotions_commit.hyps(2) by (auto simp: wrapperScope_def)
  have g: "vm_stashes vm1 (vm_global vm1) \<noteq> None" using ih(2) w(1) w(2) [of "vm_global vm"] by simp
  have r: "resolves vm1 (vm_global vm1) name q \<longleftrightarrow> resolves vm (vm_global vm) name q" for name q
    unfolding w(1) by (rule resolves_agree_iff [OF w(2)])
  have "(outerOf vm1)\<^sup>+\<^sup>+ (vm_global vm) b \<longleftrightarrow> (outerOf vm)\<^sup>+\<^sup>+ (vm_global vm) b" for b
  proof -
    have "outerOf vm1 (vm_global vm) z \<longleftrightarrow> outerOf vm (vm_global vm) z" for z by (simp add: outerOf_def w(2))
    moreover have "(outerOf vm1)\<^sup>*\<^sup>* z b \<longleftrightarrow> (outerOf vm)\<^sup>*\<^sup>* z b" if "outerOf vm (vm_global vm) z" for z
      by (rule outer_agree_iff, rule w(2)) (rule converse_rtranclp_into_rtranclp [where r = "outerOf vm", OF that])
    ultimately show ?thesis by (metis tranclpD rtranclp_into_tranclp2)
  qed
  with ih(3) have ap: "apart vm1 {vm_global vm1}" by (simp add: apart_def w(1))
  from commitHook_Inr [OF promotions_commit.hyps(3)] show ?case
  proof (cases "decls = []")
    case True
    then have "vm' = vm1" "cellSlots (td_Name ` set decls) st = Map.empty"
      using commitHook_Inr [OF promotions_commit.hyps(3)] by (auto simp: cellSlots_def)
    then show ?thesis using g r ih ap w(1) by simp
  next
    case False
    then have p: "promoteCurrentWrapperStash fresh order (td_Name ` set decls)
      (td_Name ` set (filter (\<lambda>d. declarationIsVarLike (td_Kind d)) decls)) vm1 = Inr vm'"
      using commitHook_Inr [OF promotions_commit.hyps(3)] by simp
    from g obtain old where old: "vm_stashes vm1 (vm_global vm1) = Some old" by blast
    have a: "apart vm1 {fresh, current, vm_global vm1}" using ap w(8) by (auto simp: apart_def)
    have gl: "vm_global vm' = vm_global vm1" and st: "vm_stashes vm' (vm_global vm1) \<noteq> None"
      using promote_stashes [OF p w(3)] by simp_all
    from promotion_scope(1) [OF p w(3,4) old w(5,6) a disjI2 [OF refl], of name q] promotion_scope(2) [OF p w(3,4) old w(5,6) a disjI2 [OF refl]]
    show ?thesis using gl st r ih w(1) by (auto simp: map_add_def split: option.splits)
  qed
qed simp

subsection \<open>Properties of the global object\<close>

lemma promotedOrder_in: "x \<in> set order \<Longrightarrow> names x = Some idx \<Longrightarrow> (x, idx) \<in> set (promotedOrder order names)"
  by (force simp: promotedOrder_def)

lemma promotedOrder_distinct: "distinct order \<Longrightarrow> distinct (map fst (promotedOrder order names))"
  by (simp add: promotedOrder_def comp_def)

lemma promote_bridge:
  assumes p: "promoteCurrentWrapperStash fresh order allowed varLike vm = Inr vm'"
    and c: "vm_stash vm = Some current" "vm_stashes vm current = Some st"
    and own: "\<And>obj. vm_hasOwn vm obj = Some hasOwn"
  obtains vm1 where "bridgeNames hasOwn varLike (promotedOrder order (promotedNames allowed st)) vm1 = Inr vm'"
    and "vm_globalObject vm1 = vm_globalObject vm" and "vm_arrays vm1 = vm_arrays vm"
    and "st_values (globalStash vm1) = st_values st" and "vm_extensible vm1 = vm_extensible vm"
    and "vm_undefined vm1 = vm_undefined vm"
proof (rule promote_Inr [OF p], goal_cases)
  case (1 cur own')
  with c own have "cur = current" "own' = hasOwn" by auto
  then have "bridgeNames hasOwn varLike (promotedOrder order (promotedNames allowed st))
       (vm\<lparr>vm_stashes := (vm_stashes vm)(fresh \<mapsto> globalStash vm, current \<mapsto> promotedStash fresh allowed (globalStash vm) st,
          vm_global vm \<mapsto> promotedStash fresh allowed (globalStash vm) st)\<rparr>) = Inr vm'"
    using 1(4) c by simp
  then show ?case by (rule that) (simp_all add: globalStash_def promotedStash_def)
qed

lemma global_promoted:
  assumes p: "promoteCurrentWrapperStash fresh order allowed varLike vm = Inr vm'"
    and c: "vm_stash vm = Some current" "vm_stashes vm current = Some st"
  shows "globalStash vm' = promotedStash fresh allowed (globalStash vm) st"
  using promote_stashes [OF p c(1)] c(2) by (simp add: globalStash_def)

lemma resolves_global:
  assumes p: "promoteCurrentWrapperStash fresh order allowed varLike vm = Inr vm'"
    and c: "vm_stash vm = Some current" "vm_stashes vm current = Some st"
    and names: "st_names st = Some names" "names name = Some idx" "name \<in> allowed - {''arguments'', ''this''}"
  shows "resolves vm' (vm_global vm') name (st_values st, slotOf idx)"
proof (rule resolves_here)
  show "vm_stashes vm' (vm_global vm') = Some (promotedStash fresh allowed (globalStash vm) st)"
    using promote_stashes [OF p c(1)] c(2) by simp
  show "slotIn (promotedStash fresh allowed (globalStash vm) st) name = Some (st_values st, slotOf idx)"
    using names by (subst slotIn_promoted) (auto simp: cellSlots_def slotIn_def)
qed

text \<open>A new \<open>var\<close> or function is a property that shares its slot with the identifier.\<close>

lemma new_property:
  assumes p: "promoteCurrentWrapperStash fresh order allowed varLike vm = Inr vm'"
    and c: "vm_stash vm = Some current" "vm_stashes vm current = Some st"
    and names: "st_names st = Some names" "names name = Some idx" "name \<in> allowed - {''arguments'', ''this''}"
    and v: "name \<in> varLike" "name \<in> set order" "distinct order" "vm_globalObject vm name = None"
    and own: "\<And>obj. vm_hasOwn vm obj = Some hasOwn" "faithfulHasOwn hasOwn"
  shows "vm_globalObject vm' name = Some (SlotAccessor (slotOf idx))"
proof (rule promote_bridge [OF p c own(1)])
  fix vm1
  assume b: "bridgeNames hasOwn varLike (promotedOrder order (promotedNames allowed st)) vm1 = Inr vm'"
    and g: "vm_globalObject vm1 = vm_globalObject vm"
  have "promotedNames allowed st name = Some idx" using names by (simp add: promotedNames_def)
  from bridgeNames_new [OF b own(2) promotedOrder_distinct [OF v(3)] promotedOrder_in [where names = "promotedNames allowed st", OF v(2) this] v(1)] g v(4) show ?thesis by simp
qed

text \<open>The accessor of an earlier cell reads the array of the latest one.\<close>

lemma stale_property:
  assumes p: "promoteCurrentWrapperStash fresh order allowed varLike vm = Inr vm'"
    and c: "vm_stash vm = Some current" "vm_stashes vm current = Some st"
    and x: "vm_globalObject vm name = Some (SlotAccessor i)"
    and own: "\<And>obj. vm_hasOwn vm obj = Some hasOwn" "faithfulHasOwn hasOwn"
  shows "getGlobal vm' name = promotedStashSlotValue vm' st i"
proof (rule promote_bridge [OF p c own(1)])
  fix vm1
  assume b: "bridgeNames hasOwn varLike (promotedOrder order (promotedNames allowed st)) vm1 = Inr vm'"
    and g: "vm_globalObject vm1 = vm_globalObject vm"
  have "vm_globalObject vm' name = Some (SlotAccessor i)" using bridgeNames_accessor [OF b own(2)] x g by simp
  moreover have "st_values (globalStash vm') = st_values st" by (simp add: global_promoted [OF p c] promotedStash_def)
  ultimately show ?thesis by (simp add: getGlobal_def promotedStashSlotValue_def)
qed

text \<open>A \<open>var\<close> declared again is written through the accessor of the earlier cell.\<close>

lemma bridgeNames_skip: "name \<notin> varLike \<Longrightarrow> bridgeNames hasOwn varLike ((name, raw) # names) vm = bridgeNames hasOwn varLike names vm"
  by simp

lemma bridgeNames_none: "\<forall>(n, raw) \<in> set names. n \<notin> varLike \<Longrightarrow> bridgeNames hasOwn varLike names vm = Inr vm"
  by (induction names) auto

lemma bridgeNames_one:
  assumes "distinct (map fst names)" and "(x, raw) \<in> set names" and "varLike = {x}" and "hasOwn (vm_globalObject vm) x = Inr True"
  shows "bridgeNames hasOwn varLike names vm = bridgeNames hasOwn varLike [(x, raw)] vm"
  using assms
proof (induction names)
  case (Cons y names)
  show ?case
  proof (cases "y = (x, raw)")
    case True
    then have "\<forall>(n, raw) \<in> set names. n \<notin> varLike" using Cons.prems by force
    then have "\<forall>vm1. bridgeNames hasOwn varLike names vm1 = Inr vm1" by (simp add: bridgeNames_none)
    then show ?thesis using True Cons.prems(4) by (simp add: Let_def split: sum.split)
  next
    case False
    obtain n r where y: "y = (n, r)" by (cases y)
    from False y Cons.prems have "n \<notin> varLike" by (auto simp: image_iff)
    with Cons y show ?thesis using False by simp
  qed
qed simp

lemma redeclared_property:
  assumes p: "promoteCurrentWrapperStash fresh order allowed {name} vm = Inr vm'"
    and c: "vm_stash vm = Some current" "vm_stashes vm current = Some st"
    and names: "st_names st = Some names" "names name = Some idx" "name \<in> allowed - {''arguments'', ''this''}"
    and v: "name \<in> set order" "distinct order" "vm_globalObject vm name = Some (SlotAccessor i)"
    and own: "\<And>obj. vm_hasOwn vm obj = Some hasOwn" "faithfulHasOwn hasOwn"
  shows "vm_arrays vm' (st_values st) =
    (vm_arrays vm (st_values st))[i := Some (promotedStashSlotValue vm st (slotOf idx))]"
proof (rule promote_bridge [OF p c own(1)])
  fix vm1
  assume b: "bridgeNames hasOwn {name} (promotedOrder order (promotedNames allowed st)) vm1 = Inr vm'"
    and g: "vm_globalObject vm1 = vm_globalObject vm" "vm_arrays vm1 = vm_arrays vm" "st_values (globalStash vm1) = st_values st"
      "vm_undefined vm1 = vm_undefined vm"
  have o: "hasOwn (vm_globalObject vm1) name = Inr True" using own(2) g(1) v(3) by (simp add: faithfulHasOwn_def)
  have "promotedNames allowed st name = Some idx" using names by (simp add: promotedNames_def)
  from bridgeNames_one [OF promotedOrder_distinct [OF v(2)] promotedOrder_in [where names = "promotedNames allowed st", OF v(1) this] refl, of hasOwn vm1] o
  have "bridgeNames hasOwn {name} [(name, idx)] vm1 = Inr vm'" using b by simp
  with o g v(3) show ?thesis
    by (auto simp: Let_def setGlobal_def setPromotedStashSlotValue_def promotedStashSlotValue_def list_update_beyond
        split: if_splits cong: option.case_cong)
qed

end
