(* ===== verification/Cell_Names.thy ===== *)
theory Cell_Names
  imports Cell_Rewrite
begin

text \<open>The declarations the rewriting of a cell finds, and the name it invents.\<close>

subsection \<open>A free name\<close>

lemma showNat_ne: "showNat n \<noteq> []"
  by (subst showNat.simps) simp

lemma of_char_digit: "d < 10 \<Longrightarrow> of_char (char_of (48 + d)) = (48 + d :: nat)"
  by (simp add: of_char_of)

lemma digit_inj: "char_of (48 + a) = char_of (48 + b) \<Longrightarrow> a < 10 \<Longrightarrow> b < 10 \<Longrightarrow> a = b" for a b :: nat
  using of_char_digit [of a] of_char_digit [of b] by simp

lemma showNat_small: "n < 10 \<Longrightarrow> showNat n = [char_of (48 + n)]"
  by (subst showNat.simps) simp

lemma showNat_large: "\<not> n < 10 \<Longrightarrow> showNat n = showNat (n div 10) @ [char_of (48 + n mod 10)]"
  by (subst showNat.simps) simp

lemma showNat_length: "length (showNat n) = 1 \<longleftrightarrow> n < 10"
  using showNat_ne [of "n div 10"] by (cases "n < 10") (simp_all add: showNat_small showNat_large)

lemma showNat_inj: "showNat m = showNat n \<Longrightarrow> m = n"
proof (induction m arbitrary: n rule: showNat.induct)
  case (1 m)
  from 1(2) have s: "m < 10 \<longleftrightarrow> n < 10" by (metis showNat_length)
  show ?case
  proof (cases "m < 10")
    case True
    with 1(2) s digit_inj [of m n] show ?thesis by (simp only: showNat_small) simp
  next
    case False
    with s have eq: "showNat (m div 10) @ [char_of (48 + m mod 10)] = showNat (n div 10) @ [char_of (48 + n mod 10)]"
      using 1(2) by (simp only: showNat_large not_False_eq_True)
    then have "showNat (m div 10) = showNat (n div 10)" "char_of (48 + m mod 10) = (char_of (48 + n mod 10) :: char)"
      by (simp_all only: append1_eq_conv)
    with 1(1) [OF False] digit_inj [of "m mod 10" "n mod 10"] have "m div 10 = n div 10" "m mod 10 = n mod 10" by simp_all
    then show ?thesis by (metis div_mult_mod_eq)
  qed
qed

lemma freeName_first:
  assumes "finite used"
  shows "\<exists>n \<ge> i. freeName used base i = Some (base @ ''_'' @ showNat n) \<and> base @ ''_'' @ showNat n \<notin> used"
proof -
  let ?c = "\<lambda>n. base @ ''_'' @ showNat n"
  have "inj_on ?c {i..}" by (auto intro!: inj_onI dest: showNat_inj)
  then have "infinite (?c ` {i..})" by (simp only: finite_image_iff infinite_Ici not_False_eq_True)
  then have "\<not> ?c ` {i..} \<subseteq> used" using assms finite_subset by blast
  then obtain k where k: "i \<le> k" "?c k \<notin> used" by auto
  then show ?thesis
  proof (induction "k - i" arbitrary: i)
    case 0
    then show ?case by (auto simp: freeName.simps [of used base i])
  next
    case (Suc d)
    show ?case
    proof (cases "?c i \<in> used")
      case True
      then have "i \<noteq> k" using Suc.prems by auto
      then have "d = k - (i + 1)" "i + 1 \<le> k" using Suc.hyps(2) Suc.prems(1) by simp_all
      then obtain n where "n \<ge> i + 1" "freeName used base (i + 1) = Some (?c n) \<and> ?c n \<notin> used"
        using Suc.hyps(1) [OF _ _ Suc.prems(2)] by blast
      with True show ?thesis by (auto simp: freeName.simps [of used base i] intro!: exI [of _ n])
    qed (auto simp: freeName.simps [of used base i])
  qed
qed

lemma chooseInternalName_fresh:
  "\<exists>name. chooseInternalName decls base = Some name \<and> name \<notin> td_Name ` set decls"
  using freeName_first [of "td_Name ` set decls" 1 base] by (auto simp: chooseInternalName_def Let_def)

subsection \<open>Collected declarations\<close>

lemma foldl_addDeclaration_names:
  "td_Name ` set (foldl addDeclaration out ds) = td_Name ` set out \<union> (td_Name ` set ds - {[]})"
  by (induction ds arbitrary: out) (auto simp: addDeclaration_def)

lemma foldl_addDeclaration_distinct:
  "distinct (map td_Name out) \<Longrightarrow> distinct (map td_Name (foldl addDeclaration out ds))"
  by (induction ds arbitrary: out) (auto simp: addDeclaration_def)

lemma foldl_addDeclaration_first:
  "d \<in> set (foldl addDeclaration out ds) \<Longrightarrow> d \<notin> set out \<Longrightarrow>
   td_Name d \<noteq> [] \<and> td_Name d \<notin> td_Name ` set out \<and> (\<exists>us vs. ds = us @ d # vs \<and> td_Name d \<notin> td_Name ` set us)"
proof (induction ds arbitrary: out)
  case (Cons x ds)
  from Cons.prems(1) have d: "d \<in> set (foldl addDeclaration (addDeclaration out x) ds)" by simp
  show ?case
  proof (cases "d \<in> set (addDeclaration out x)")
    case True
    with Cons.prems(2) have "d = x" "td_Name d \<noteq> []" "td_Name d \<notin> td_Name ` set out" by (auto simp: addDeclaration_def split: if_splits)
    moreover have "x # ds = [] @ x # ds" by simp
    ultimately show ?thesis by (metis empty_iff image_is_empty list.set(1))
  next
    case False
    from Cons.IH [OF d False] obtain us vs where u: "td_Name d \<noteq> []" "td_Name d \<notin> td_Name ` set (addDeclaration out x)"
      "ds = us @ d # vs" "td_Name d \<notin> td_Name ` set us" by blast
    then have "td_Name d \<noteq> td_Name x" "td_Name d \<notin> td_Name ` set out" by (auto simp: addDeclaration_def split: if_splits)
    moreover have "x # ds = (x # us) @ d # vs" using u(3) by simp
    moreover have "td_Name d \<notin> td_Name ` set (x # us)" using u(4) \<open>td_Name d \<noteq> td_Name x\<close> by simp
    ultimately show ?thesis using u(1) by blast
  qed
qed simp

lemma collect_names: "td_Name ` set (collectTopLevelDeclarations stmts) = td_Name ` set (concat (map statementDeclarations stmts)) - {[]}"
  by (simp add: collectTopLevelDeclarations_def foldl_addDeclaration_names)

lemma collect_distinct: "distinct (map td_Name (collectTopLevelDeclarations stmts))"
  by (simp add: collectTopLevelDeclarations_def foldl_addDeclaration_distinct)

lemma collect_first:
  assumes "d \<in> set (collectTopLevelDeclarations stmts)"
  shows "td_Name d \<noteq> []" and "\<exists>us vs. concat (map statementDeclarations stmts) = us @ d # vs \<and> td_Name d \<notin> td_Name ` set us"
  using foldl_addDeclaration_first [of d "[]" "concat (map statementDeclarations stmts)"] assms by (auto simp: collectTopLevelDeclarations_def)

subsection \<open>Bound names\<close>

text \<open>
  The names a binding pattern binds in ECMAScript (\<open>BoundNames\<close>). A default value is
  an assignment expression in the tree.
\<close>

function (sequential) boundNames :: "expression \<Rightarrow> string list" where
  "boundNames (Identifier name) = [name]"
| "boundNames (AssignExpression TOKEN_ASSIGN target _) = boundNames target"
| "boundNames (ArrayPattern elements rest) = concat (map boundNames elements) @ boundNames rest"
| "boundNames (ObjectPattern properties rest) =
     concat (map (\<lambda>prop. case prop of
         PropertyShort name _ \<Rightarrow> [name]
       | PropertyKeyed _ v \<Rightarrow> boundNames v
       | PropertySpread _ \<Rightarrow> []) properties) @ boundNames rest"
| "boundNames _ = []"
  by pat_completeness auto
termination
  by (relation "measure size") (auto simp: less_Suc_eq_le trans_le_add1 size_list_estimation' dest!: size_list_estimation' [where f = "size_property size"])

function (sequential) plainPattern :: "expression \<Rightarrow> bool" where
  "plainPattern (AssignExpression TOKEN_ASSIGN _ _) \<longleftrightarrow> False"
| "plainPattern (ArrayPattern elements rest) \<longleftrightarrow> list_all plainPattern elements \<and> plainPattern rest"
| "plainPattern (ObjectPattern properties rest) \<longleftrightarrow>
     list_all (\<lambda>prop. case prop of PropertyKeyed _ v \<Rightarrow> plainPattern v | _ \<Rightarrow> True) properties \<and> plainPattern rest"
| "plainPattern _ \<longleftrightarrow> True"
  by pat_completeness auto
termination
  by (relation "measure size") (auto simp: less_Suc_eq_le trans_le_add1 size_list_estimation' dest!: size_list_estimation' [where f = "size_property size"])

lemma bindingTargetNames_subset: "set (bindingTargetNames e) \<subseteq> set (boundNames e)"
proof (induction e rule: boundNames.induct)
  case (4 properties rest)
  have "set (case pr of PropertyShort name _ \<Rightarrow> [name] | PropertyKeyed _ v \<Rightarrow> bindingTargetNames v | PropertySpread _ \<Rightarrow> []) \<subseteq>
      set (case pr of PropertyShort name _ \<Rightarrow> [name] | PropertyKeyed _ v \<Rightarrow> boundNames v | PropertySpread _ \<Rightarrow> [])"
    if p: "pr \<in> set properties" for pr
    using 4(1) [OF p] by (cases pr) auto
  with 4(2) show ?case by (simp, blast)
next
  case (3 elements rest)
  then show ?case by (simp, blast)
qed simp_all

lemma bindingTargetNames_plain: "plainPattern e \<Longrightarrow> bindingTargetNames e = boundNames e"
proof (induction e rule: boundNames.induct)
  case (4 properties rest)
  have "(case pr of PropertyShort name _ \<Rightarrow> [name] | PropertyKeyed _ v \<Rightarrow> bindingTargetNames v | PropertySpread _ \<Rightarrow> []) =
      (case pr of PropertyShort name _ \<Rightarrow> [name] | PropertyKeyed _ v \<Rightarrow> boundNames v | PropertySpread _ \<Rightarrow> [])"
    if p: "pr \<in> set properties" for pr
    using 4(1) [OF p] 4(3) p by (cases pr) (auto simp: list_all_iff)
  moreover have "bindingTargetNames rest = boundNames rest" using 4(2,3) by simp
  ultimately show ?case by (simp cong: map_cong)
qed (simp_all add: list_all_iff cong: map_cong)

end
