(* ===== verification/Cell_Table.thy ===== *)
theory Cell_Table
  imports Cell_Names Cell_Run
begin

text \<open>The redeclaration table along the cells of a runtime.\<close>

subsection \<open>One cell\<close>

lemma validate_None: "validateRedeclarations s decls = None \<longleftrightarrow> (\<forall>d \<in> set decls. redeclarationError s d = None)"
  by (simp add: validateRedeclarations_def find_map_None_iff)

lemma validate_Some:
  assumes "d \<in> set decls" and "redeclarationError s d \<noteq> None"
  shows "\<exists>name kind prior. validateRedeclarations s decls = Some (DeclarationConflict name kind prior)"
proof -
  from assms obtain e where "validateRedeclarations s decls = Some e" by (cases "validateRedeclarations s decls") (auto simp: validate_None)
  then obtain d' where "redeclarationError s d' = Some e" by (auto simp: validateRedeclarations_def dest: find_map_SomeD)
  with \<open>validateRedeclarations s decls = Some e\<close> show ?thesis
    by (auto simp: redeclarationError_def split: option.splits if_splits)
qed

lemma userStatements_Inr:
  "(case body of None \<Rightarrow> Inl e | Some ss \<Rightarrow> if ss = [] then Inl e' else Inr (butlast ss)) = Inr us \<longleftrightarrow>
   (\<exists>ss. body = Some ss \<and> ss \<noteq> [] \<and> us = butlast ss)"
  by (auto split: option.splits)

lemma compile_decls:
  assumes "compileWrappedCell parse compile src = Some (Inr (program, decls))"
  shows "\<exists>stmts. decls = collectTopLevelDeclarations stmts"
proof -
  from assms obtain ss stmts where r: "(case compile ss of Inl e \<Rightarrow> Inl (CompileError e) | Inr compiled \<Rightarrow> Inr (compiled, collectTopLevelDeclarations stmts)) =
      Inr (program, decls)"
    unfolding compileWrappedCell_def Let_def cbind_Inr_iff by (auto simp: userStatements_Inr)
  from r show ?thesis by (cases "compile ss") auto
qed

lemma runContext_cases:
  assumes "runContext parse compile run J0 J J' nid fresh order s vm src = Some r"
  obtains (refused) e where "xr_result r = Inl (PlanFailed e)" "xr_state r = s" "xr_vm r = vm"
  | (failed) e where "xr_result r = Inl e" "xr_state r = endCommit s"
  | (committed) program decls res where "compileWrappedCell parse compile src = Some (Inr (program, decls))"
      "validateRedeclarations s decls = None" "distinct (map td_Name decls)" "xr_result r = Inr res"
      "xr_state r = endCommit (commitDeclarations decls s)"
proof (cases "buildTopLevelAwaitPlan parse compile s src")
  case None
  with assms show ?thesis by (simp add: runContext_def)
next
  case (Some p)
  show ?thesis
  proof (cases p)
    case (Inl e)
    with Some assms show ?thesis by (auto simp: runContext_def intro: refused)
  next
    case (Inr pd)
    obtain program decls where pd: "pd = (program, decls)" by (cases pd)
    obtain raw vm' where d: "driveRun (commitHook J0 fresh order (beginCommit decls s)) (run program vm) = (raw, vm')" by (meson surj_pair)
    have c: "compileWrappedCell parse compile src = Some (Inr (program, decls))" and v: "validateRedeclarations s decls = None"
      using Some Inr pd by (auto simp: buildTopLevelAwaitPlan_def split: option.splits)
    from compile_decls [OF c] have dist: "distinct (map td_Name decls)" by (auto simp: collect_distinct)
    have e: "endCommit (beginCommit decls s) = endCommit s" "endCommit (commitDeclarations decls (beginCommit decls s)) = endCommit (commitDeclarations decls s)"
      by (simp_all add: endCommit_def beginCommit_def commitDeclarations_def)
    from assms Some Inr pd d show ?thesis
      by (auto simp: runContext_def Let_def e split: sum.splits option.splits intro: failed committed [OF c v dist])
  qed
qed

subsection \<open>The table\<close>

definition oneKind :: "topLevelAwaitState \<Rightarrow> bool" where
  "oneKind s \<longleftrightarrow> (\<forall>name e. ta_committed s name = Some e \<longrightarrow> ct_LexicalKind e = [] \<or> ct_VarLikeKind e = [])"

lemma foldl_commit_other: "name \<notin> td_Name ` set decls \<Longrightarrow> foldl commitDeclaration committed decls name = committed name"
  by (induction decls arbitrary: committed) (auto simp: commitDeclaration_def Let_def)

lemma foldl_commit_name:
  assumes "distinct (map td_Name decls)" and "d \<in> set decls"
  shows "foldl commitDeclaration committed decls (td_Name d) = commitDeclaration committed d (td_Name d)"
  using assms
proof (induction decls arbitrary: committed)
  case (Cons x decls)
  show ?case
  proof (cases "x = d")
    case True
    with Cons.prems show ?thesis by (simp add: foldl_commit_other)
  next
    case False
    with Cons.prems have "d \<in> set decls" "td_Name d \<noteq> td_Name x" by (auto simp: image_iff)
    with Cons show ?thesis by (simp add: commitDeclaration_def Let_def)
  qed
qed simp

lemma commit_oneKind:
  assumes inv: "oneKind s" and valid: "validateRedeclarations s decls = None" and dist: "distinct (map td_Name decls)"
  shows "oneKind (commitDeclarations decls s)"
  unfolding oneKind_def
proof (intro allI impI)
  fix name e assume e: "ta_committed (commitDeclarations decls s) name = Some e"
  show "ct_LexicalKind e = [] \<or> ct_VarLikeKind e = []"
  proof (cases "name \<in> td_Name ` set decls")
    case True
    then obtain d where d: "d \<in> set decls" "name = td_Name d" by blast
    then have "redeclarationError s d = None" using valid by (simp add: validate_None)
    with e d foldl_commit_name [OF dist d(1)] show ?thesis
      by (auto simp: commitDeclarations_def commitDeclaration_def redeclarationError_def emptyEntry_def Let_def
          split: option.splits if_splits)
  next
    case False
    with e inv show ?thesis by (auto simp: oneKind_def commitDeclarations_def foldl_commit_other)
  qed
qed

text \<open>A lexical name stays as it is, and so does a name no accepted cell declares.\<close>

lemma redeclaration_lexical:
  "ta_committed s (td_Name d) = Some e \<Longrightarrow> ct_LexicalKind e \<noteq> [] \<Longrightarrow> redeclarationError s d \<noteq> None"
  by (simp add: redeclarationError_def)

lemma commit_lexical:
  assumes "validateRedeclarations s decls = None" and "ta_committed s name = Some e" and "ct_LexicalKind e \<noteq> []"
  shows "ta_committed (commitDeclarations decls s) name = Some e"
proof -
  have "name \<notin> td_Name ` set decls"
  proof
    assume "name \<in> td_Name ` set decls"
    then obtain d where "d \<in> set decls" "name = td_Name d" by blast
    with assms redeclaration_lexical [of s d e] show False by (simp add: validate_None)
  qed
  with assms(2) show ?thesis by (simp add: commitDeclarations_def foldl_commit_other)
qed

subsection \<open>Runs of cells\<close>

inductive cells ::
  "(string \<Rightarrow> string + statement list) \<Rightarrow> (statement list \<Rightarrow> string + 'p) \<Rightarrow> ('p \<Rightarrow> 'v gojaRuntime \<Rightarrow> 'v wrapperRun) \<Rightarrow>
   topLevelAwaitState \<Rightarrow> topLevelAwaitState \<Rightarrow> bool" for parse compile run where
  cells_none: "cells parse compile run s s"
| cells_run: "cells parse compile run s s' \<Longrightarrow>
    runContext parse compile run J0 J J' nid fresh order s' vm src = Some r \<Longrightarrow> cells parse compile run s (xr_state r)"

lemma cells_invariant: "cells parse compile run s s' \<Longrightarrow> oneKind s \<Longrightarrow> ta_pending s = None \<Longrightarrow> oneKind s' \<and> ta_pending s' = None"
proof (induction rule: cells.induct)
  case (cells_run s s' J0 J J' nid fresh order vm src r)
  then have inv: "oneKind s'" "ta_pending s' = None" by auto
  from cells_run.hyps(2) show ?case
  proof (cases rule: runContext_cases)
    case (failed e)
    with inv show ?thesis by (simp add: oneKind_def endCommit_def)
  next
    case (committed program decls res)
    with commit_oneKind [OF inv(1) committed(2,3)] show ?thesis by (simp add: oneKind_def endCommit_def)
  qed (use inv in simp)
qed simp

lemma cells_lexical:
  "cells parse compile run s s' \<Longrightarrow> ta_committed s name = Some e \<Longrightarrow> ct_LexicalKind e \<noteq> [] \<Longrightarrow> ta_committed s' name = Some e"
proof (induction rule: cells.induct)
  case (cells_run s s' J0 J J' nid fresh order vm src r)
  then have e: "ta_committed s' name = Some e" by simp
  from cells_run.hyps(2) show ?case
  proof (cases rule: runContext_cases)
    case (committed program decls res)
    with commit_lexical [OF committed(2) e cells_run.prems(2)] show ?thesis by (simp add: endCommit_def)
  qed (use e in \<open>simp_all add: endCommit_def\<close>)
qed simp

lemma lexical_refused:
  assumes c: "compileWrappedCell parse compile src = Some (Inr (program, decls))" and d: "name \<in> td_Name ` set decls"
    and e: "ta_committed s name = Some e" "ct_LexicalKind e \<noteq> []"
  shows "\<exists>n kind prior. runContext parse compile run J0 J J' nid fresh order s vm src =
    Some \<lparr>xr_result = Inl (PlanFailed (DeclarationConflict n kind prior)), xr_state = s, xr_vm = vm\<rparr>"
proof -
  from d obtain x where "x \<in> set decls" "name = td_Name x" by blast
  with redeclaration_lexical [of s x e] e obtain n kind prior where "validateRedeclarations s decls = Some (DeclarationConflict n kind prior)"
    using validate_Some [of x decls s] by auto
  with c show ?thesis by (simp add: runContext_def buildTopLevelAwaitPlan_def)
qed

end
