(* ===== verification/Cell_Completion.thy ===== *)
theory Cell_Completion
  imports Cell_Names
begin

text \<open>
  What the rewriting of the tail of a cell does to its execution. Statements are
  run by a semantics whose expressions, scopes and remaining statements are
  parameters. It keeps, beside the state of the engine, the completion variable:
  an identifier of no expression of the cell, so that only its own assignment and
  the end of the cell see it.
\<close>

subsection \<open>Running statements\<close>

datatype 'v jump = Normal | BreakTo "string option" | Throws 'v | Leaves "'v option"

text \<open>
  \<open>js_other\<close> runs the statements the rewriting leaves as they are. A block or a
  switch enters a scope with its declarations; \<open>js_with\<close> and \<open>js_catch\<close> enter the
  scope of an object and of a caught value, or throw.
\<close>

record ('w, 'v) jsSem =
  js_eval :: "expression \<Rightarrow> 'w \<Rightarrow> 'w \<times> ('v + 'v)"
  js_true :: "'v \<Rightarrow> bool"
  js_same :: "'v \<Rightarrow> 'v \<Rightarrow> bool"
  js_other :: "statement \<Rightarrow> 'w \<Rightarrow> 'w \<times> 'v jump"
  js_enter :: "statement list \<Rightarrow> 'w \<Rightarrow> 'w"
  js_with :: "'v \<Rightarrow> 'w \<Rightarrow> 'w \<times> 'v option"
  js_catch :: "expression \<Rightarrow> 'v \<Rightarrow> 'w \<Rightarrow> 'w \<times> 'v option"
  js_leave :: "'w \<Rightarrow> 'w"

fun isDeclaration :: "statement \<Rightarrow> bool" where
  "isDeclaration (VariableStatement _) \<longleftrightarrow> True"
| "isDeclaration (LexicalDeclaration _ _) \<longleftrightarrow> True"
| "isDeclaration (FunctionDeclaration _) \<longleftrightarrow> True"
| "isDeclaration (ClassDeclaration _) \<longleftrightarrow> True"
| "isDeclaration _ \<longleftrightarrow> False"

text \<open>The case a value selects: the first whose test is the same, else the default, which has no test.\<close>

fun selectCase :: "('w, 'v) jsSem \<Rightarrow> 'v \<Rightarrow> nat \<Rightarrow> nat option \<Rightarrow> (expression, statement) switchCase list \<Rightarrow> 'w \<Rightarrow> 'w \<times> ('v + nat option)" where
  "selectCase J v i dflt [] w = (w, Inr dflt)"
| "selectCase J v i dflt (Case test _ # cases) w =
     (if test = NilExpression then selectCase J v (i + 1) (Some i) cases w
      else case js_eval J test w of
        (w, Inl e) \<Rightarrow> (w, Inl e)
      | (w, Inr t) \<Rightarrow> if js_same J v t then (w, Inr (Some i)) else selectCase J v (i + 1) dflt cases w)"

fun consequent :: "(expression, statement) switchCase \<Rightarrow> statement list" where
  "consequent (Case _ ss) = ss"

definition leaveBreak :: "string option \<Rightarrow> 'a \<times> 'v jump \<Rightarrow> 'a \<times> 'v jump" where
  "leaveBreak label r = (case r of (x, BreakTo l) \<Rightarrow> if l = label then (x, Normal) else r | _ \<Rightarrow> r)"

definition leaveScope :: "('w, 'v) jsSem \<Rightarrow> ('w \<times> 'v) \<times> 'v jump \<Rightarrow> ('w \<times> 'v) \<times> 'v jump" where
  "leaveScope J r = (case r of ((w, c), j) \<Rightarrow> ((js_leave J w, c), j))"

definition andThen :: "'a \<times> 'v jump \<Rightarrow> ('a \<Rightarrow> 'a \<times> 'v jump) \<Rightarrow> 'a \<times> 'v jump" where
  "andThen r k = (case r of (x, Normal) \<Rightarrow> k x | _ \<Rightarrow> r)"

definition evalInto :: "('w, 'v) jsSem \<Rightarrow> expression \<Rightarrow> ('v \<Rightarrow> 'w \<times> 'v \<Rightarrow> ('w \<times> 'v) \<times> 'v jump) \<Rightarrow> 'w \<times> 'v \<Rightarrow> ('w \<times> 'v) \<times> 'v jump" where
  "evalInto J e k x = (case js_eval J e (fst x) of (w, Inl t) \<Rightarrow> ((w, snd x), Throws t) | (w, Inr v) \<Rightarrow> k v (w, snd x))"

definition inBlock :: "('w, 'v) jsSem \<Rightarrow> statement list \<Rightarrow> ('w \<times> 'v \<Rightarrow> ('w \<times> 'v) \<times> 'v jump) \<Rightarrow> 'w \<times> 'v \<Rightarrow> ('w \<times> 'v) \<times> 'v jump" where
  "inBlock J ss h x = leaveScope J (h (js_enter J (filter isDeclaration ss) (fst x), snd x))"

definition tryCatch :: "('w, 'v) jsSem \<Rightarrow> expression \<Rightarrow> ('w \<times> 'v \<Rightarrow> ('w \<times> 'v) \<times> 'v jump) \<Rightarrow> ('w \<times> 'v) \<times> 'v jump \<Rightarrow> ('w \<times> 'v) \<times> 'v jump" where
  "tryCatch J param h r =
     (case r of
        (x, Throws t) \<Rightarrow>
          (case js_catch J param t (fst x) of
             (w, Some t') \<Rightarrow> ((w, snd x), Throws t')
           | (w, None) \<Rightarrow> leaveScope J (h (w, snd x)))
      | _ \<Rightarrow> r)"

definition tryFinally :: "('a \<Rightarrow> 'a \<times> 'v jump) \<Rightarrow> 'a \<times> 'v jump \<Rightarrow> 'a \<times> 'v jump" where
  "tryFinally h r = (case h (fst r) of (x, Normal) \<Rightarrow> (x, snd r) | r' \<Rightarrow> r')"

text \<open>
  \<open>exec J name tail\<close> runs a statement on the state of the engine and the completion
  variable \<open>name\<close>. With \<open>tail\<close> it is the specification of a completion value: an
  expression statement in tail position sets the variable. Without, it is plain
  execution, where the assignment to the variable does.
\<close>

definition execExpression :: "('w, 'v) jsSem \<Rightarrow> string \<Rightarrow> bool \<Rightarrow> expression \<Rightarrow> 'w \<times> 'v \<Rightarrow> ('w \<times> 'v) \<times> 'v jump" where
  "execExpression J name tail e =
     (if tail then evalInto J e (\<lambda>v (w, _). ((w, v), Normal))
      else case e of
        AssignExpression TOKEN_ASSIGN (Identifier n) e' \<Rightarrow>
          if n = name then evalInto J e' (\<lambda>v (w, _). ((w, v), Normal)) else evalInto J e (\<lambda>_ x. (x, Normal))
      | _ \<Rightarrow> evalInto J e (\<lambda>_ x. (x, Normal)))"

function (sequential) exec :: "('w, 'v) jsSem \<Rightarrow> string \<Rightarrow> bool \<Rightarrow> statement \<Rightarrow> 'w \<times> 'v \<Rightarrow> ('w \<times> 'v) \<times> 'v jump"
  and execs :: "('w, 'v) jsSem \<Rightarrow> string \<Rightarrow> bool \<Rightarrow> statement list \<Rightarrow> 'w \<times> 'v \<Rightarrow> ('w \<times> 'v) \<times> 'v jump"
  and execConsequent :: "('w, 'v) jsSem \<Rightarrow> string \<Rightarrow> bool \<Rightarrow> statement list \<Rightarrow> 'w \<times> 'v \<Rightarrow> ('w \<times> 'v) \<times> 'v jump"
  and execFrom :: "('w, 'v) jsSem \<Rightarrow> string \<Rightarrow> bool \<Rightarrow> nat \<Rightarrow> (expression, statement) switchCase list \<Rightarrow> 'w \<times> 'v \<Rightarrow> ('w \<times> 'v) \<times> 'v jump" where
  "exec J name tail (ExpressionStatement e) x = execExpression J name tail e x"
| "exec J name tail (BlockStatement ss) x =
     inBlock J ss (execs J name tail ss) x"
| "exec J name tail (IfStatement test yes no) x =
     evalInto J test (\<lambda>v x. if js_true J v then exec J name tail yes x
       else case no of None \<Rightarrow> (x, Normal) | Some s \<Rightarrow> exec J name tail s x) x"
| "exec J name tail (SwitchStatement e cases) x =
     evalInto J e (\<lambda>v (w, c).
       case selectCase J v 0 None cases (js_enter J (filter isDeclaration (concat (map consequent cases))) w) of
         (w, Inl t) \<Rightarrow> leaveScope J ((w, c), Throws t)
       | (w, Inr None) \<Rightarrow> leaveScope J ((w, c), Normal)
       | (w, Inr (Some i)) \<Rightarrow> leaveBreak None (leaveScope J (execFrom J name tail i cases (w, c)))) x"
| "exec J name tail (TryStatement body catch finally) x =
     (case finally of None \<Rightarrow> (\<lambda>r. r) | Some ss \<Rightarrow> tryFinally (inBlock J ss (execs J name False ss)))
       ((case catch of
           Some (Catch param (Some ss)) \<Rightarrow> tryCatch J param (inBlock J ss (execs J name tail ss))
         | _ \<Rightarrow> (\<lambda>r. r))
         (case body of None \<Rightarrow> (x, Normal) | Some ss \<Rightarrow> inBlock J ss (execs J name tail ss) x))"
| "exec J name tail (LabelledStatement label s) x = leaveBreak (Some label) (exec J name tail s x)"
| "exec J name tail (WithStatement e s) x =
     evalInto J e (\<lambda>v (w, c). case js_with J v w of
         (w, Some t) \<Rightarrow> ((w, c), Throws t)
       | (w, None) \<Rightarrow> leaveScope J (exec J name tail s (w, c))) x"
| "exec J name tail (BranchStatement TOKEN_BREAK label) x = (x, BreakTo label)"
| "exec J name tail s x = (case js_other J s (fst x) of (w, j) \<Rightarrow> ((w, snd x), j))"
| "execs J name tail [] x = (x, Normal)"
| "execs J name tail [s] x = exec J name tail s x"
| "execs J name tail (s # s' # ss) x = andThen (exec J name False s x) (execs J name tail (s' # ss))"
| "execConsequent J name tail ss x =
     (if ss \<noteq> [] \<and> last ss = BranchStatement TOKEN_BREAK None
      then andThen (execConsequent J name tail (butlast ss) x) (\<lambda>x. (x, BreakTo None))
      else execs J name tail ss x)"
| "execFrom J name tail i [] x = (x, Normal)"
| "execFrom J name tail (Suc i) (_ # cases) x = execFrom J name tail i cases x"
| "execFrom J name tail 0 (Case _ ss # cases) x = andThen (execConsequent J name tail ss x) (execFrom J name tail 0 cases)"
  by pat_completeness auto
termination
  by (relation "measure (\<lambda>y. case y of
        Inl (Inl (_, _, _, s, _)) \<Rightarrow> 2 * size s
      | Inl (Inr (_, _, _, ss, _)) \<Rightarrow> 2 * size_list size ss
      | Inr (Inl (_, _, _, ss, _)) \<Rightarrow> 2 * size_list size ss + 1
      | Inr (Inr (_, _, _, _, cases, _)) \<Rightarrow> 2 * size_list (size_switchCase size size) cases)")
     (auto simp: size_butlast)

subsection \<open>Plain execution of a consequent\<close>

lemma andThen_Normal [simp]: "andThen (x, Normal) k = k x"
  by (simp add: andThen_def)

lemma andThen_assoc: "andThen (andThen r k) l = andThen r (\<lambda>x. andThen (k x) l)"
  by (auto simp: andThen_def split: jump.split prod.split)

lemma andThen_end: "andThen r (\<lambda>x. (x, Normal)) = r"
  by (auto simp: andThen_def split: jump.split prod.split)

declare execConsequent.simps [simp del] rewriteSwitchConsequentForCompletion.simps [simp del]

lemma execs_Nil_fun: "execs J name tail [] = (\<lambda>x. (x, Normal))"
  by (rule ext) simp

lemma exec_break_fun: "exec J name tail (BranchStatement TOKEN_BREAK label) = (\<lambda>x. (x, BreakTo label))"
  by (rule ext) simp

lemma execs_Cons: "execs J name False (s # ss) x = andThen (exec J name False s x) (execs J name False ss)"
  by (cases ss) (simp_all add: andThen_end execs_Nil_fun)

lemma execs_snoc: "execs J name False (ss @ [s]) x = andThen (execs J name False ss x) (exec J name False s)"
proof (induction ss arbitrary: x)
  case (Cons a ss)
  then have "execs J name False (ss @ [s]) = (\<lambda>x. andThen (execs J name False ss x) (exec J name False s))" by blast
  then show ?case by (simp add: execs_Cons andThen_assoc)
qed simp

lemma execConsequent_plain: "execConsequent J name False ss x = execs J name False ss x"
proof (induction ss arbitrary: x rule: rev_induct)
  case (snoc s ss)
  then show ?case by (subst execConsequent.simps) (auto simp: execs_snoc exec_break_fun)
qed (simp add: execConsequent.simps)

subsection \<open>The rewriting\<close>

declare rewriteTailStatementForCompletion.simps [simp del]

definition rewriteCase :: "string \<Rightarrow> (expression, statement) switchCase \<Rightarrow> (expression, statement) switchCase" where
  "rewriteCase name c = (case c of Case test ss \<Rightarrow> Case test (rewriteSwitchConsequentForCompletion name ss))"

lemma rewriteTail_simps [simp]:
  "rewriteTailStatementForCompletion name (ExpressionStatement e) = completionAssignStatement name e"
  "rewriteTailStatementForCompletion name (BlockStatement ss) = BlockStatement (rewriteTailStatementsForCompletion name ss)"
  "rewriteTailStatementForCompletion name (IfStatement test yes no) =
     IfStatement test (rewriteTailStatementForCompletion name yes) (map_option (rewriteTailStatementForCompletion name) no)"
  "rewriteTailStatementForCompletion name (SwitchStatement e cases) = SwitchStatement e (map (rewriteCase name) cases)"
  "rewriteTailStatementForCompletion name (TryStatement body catch finally) =
     TryStatement (map_option (rewriteTailStatementsForCompletion name) body)
       (case catch of Some (Catch param (Some ss)) \<Rightarrow> Some (Catch param (Some (rewriteTailStatementsForCompletion name ss))) | _ \<Rightarrow> catch) finally"
  "rewriteTailStatementForCompletion name (LabelledStatement label s) = LabelledStatement label (rewriteTailStatementForCompletion name s)"
  "rewriteTailStatementForCompletion name (WithStatement e s) = WithStatement e (rewriteTailStatementForCompletion name s)"
  by (subst rewriteTailStatementForCompletion.simps;
      simp add: rewriteCase_def [abs_def] map_option_case split: option.split)+

text \<open>The other statements stay as they are.\<close>

fun leaf :: "statement \<Rightarrow> bool" where
  "leaf (ExpressionStatement _) \<longleftrightarrow> False"
| "leaf (BlockStatement _) \<longleftrightarrow> False"
| "leaf (IfStatement _ _ _) \<longleftrightarrow> False"
| "leaf (SwitchStatement _ _) \<longleftrightarrow> False"
| "leaf (TryStatement _ _ _) \<longleftrightarrow> False"
| "leaf (LabelledStatement _ _) \<longleftrightarrow> False"
| "leaf (WithStatement _ _) \<longleftrightarrow> False"
| "leaf _ \<longleftrightarrow> True"

lemma rewriteTail_leaf: "leaf s \<Longrightarrow> rewriteTailStatementForCompletion name s = s"
  by (subst rewriteTailStatementForCompletion.simps) (cases s; simp)

lemma exec_leaf: "leaf s \<Longrightarrow> exec J name False s x = exec J name True s x"
  by (cases "(J, name, False, s, x)" rule: exec.cases) simp_all

lemma rewriteTail_declaration: "isDeclaration (rewriteTailStatementForCompletion name s) \<longleftrightarrow> isDeclaration s"
  by (cases s; simp add: completionAssignStatement_def rewriteTail_leaf)

lemma rewriteTail_not_break:
  "s \<noteq> BranchStatement TOKEN_BREAK None \<Longrightarrow> rewriteTailStatementForCompletion name s \<noteq> BranchStatement TOKEN_BREAK None"
  by (cases s; simp add: completionAssignStatement_def rewriteTail_leaf)

lemma rewriteTail_unchanged: "isDeclaration s \<Longrightarrow> rewriteTailStatementForCompletion name s = s"
  by (cases s; simp add: rewriteTail_leaf)

lemma rewriteTails_snoc: "rewriteTailStatementsForCompletion name (ss @ [s]) = ss @ [rewriteTailStatementForCompletion name s]"
proof (induction ss)
  case (Cons a ss)
  then show ?case by (cases ss) simp_all
qed simp

lemma rewriteTails_declarations [simp]:
  "filter isDeclaration (rewriteTailStatementsForCompletion name ss) = filter isDeclaration ss"
  by (cases ss rule: rev_cases) (simp_all add: rewriteTails_snoc rewriteTail_declaration rewriteTail_unchanged)

lemma rewriteSwitch_declarations [simp]:
  "filter isDeclaration (rewriteSwitchConsequentForCompletion name ss) = filter isDeclaration ss"
proof (induction ss rule: rev_induct)
  case (snoc s ss)
  show ?case
  proof (cases "s = BranchStatement TOKEN_BREAK None")
    case True
    with snoc show ?thesis by (subst rewriteSwitchConsequentForCompletion.simps) simp
  next
    case False
    then show ?thesis by (subst rewriteSwitchConsequentForCompletion.simps) simp
  qed
qed (simp add: rewriteSwitchConsequentForCompletion.simps)

lemma rewriteCase_Case [simp]: "rewriteCase name (Case test ss) = Case test (rewriteSwitchConsequentForCompletion name ss)"
  by (simp add: rewriteCase_def)

lemma rewriteCases_declarations:
  "filter isDeclaration (concat (map consequent (map (rewriteCase name) cases))) = filter isDeclaration (concat (map consequent cases))"
  by (induction cases) (auto simp: rewriteCase_def split: switchCase.split)

lemma selectCase_rewrite: "selectCase J v i dflt (map (rewriteCase name) cases) w = selectCase J v i dflt cases w"
  by (induction J v i dflt cases w rule: selectCase.induct)
     (auto simp: rewriteCase_def split: prod.split sum.split)

lemma execFrom_rewrite:
  assumes "\<And>test ss x. Case test ss \<in> set cases \<Longrightarrow>
    execConsequent J name False (rewriteSwitchConsequentForCompletion name ss) x = execConsequent J name True ss x"
  shows "execFrom J name False i (map (rewriteCase name) cases) x = execFrom J name True i cases x"
  using assms
proof (induction cases arbitrary: i x)
  case (Cons c cases)
  obtain test ss where c: "c = Case test ss" by (cases c)
  have ih: "execFrom J name False i (map (rewriteCase name) cases) = execFrom J name True i cases" for i
    by (intro ext Cons.IH Cons.prems) auto
  show ?case using Cons.prems [of test ss] by (cases i) (simp_all add: c ih)
qed simp

lemma execAssign: "execExpression J name False (AssignExpression TOKEN_ASSIGN (Identifier name) e) x = execExpression J name True e x"
  by (simp add: execExpression_def)

lemma inBlock_cong: "filter isDeclaration ss = filter isDeclaration ss' \<Longrightarrow> (\<And>x. h x = h' x) \<Longrightarrow> inBlock J ss h x = inBlock J ss' h' x"
  by (simp add: inBlock_def)

lemma exec_rewrite:
  "execs J name False (rewriteTailStatementsForCompletion name ss) x = execs J name True ss x"
  "exec J name False (rewriteTailStatementForCompletion name s) x = exec J name True s x"
  "execConsequent J name False (rewriteSwitchConsequentForCompletion name ss') x = execConsequent J name True ss' x"
proof (induction name ss and name s and name ss' arbitrary: x and x and x
    rule: rewriteTailStatementsForCompletion_rewriteTailStatementForCompletion_rewriteSwitchConsequentForCompletion.induct)
  case (3 name stmt stmt' stmts)
  then have "execs J name False (rewriteTailStatementsForCompletion name (stmt' # stmts)) = execs J name True (stmt' # stmts)" by blast
  then show ?case by (simp add: execs_Cons)
next
  case (4 name stmt)
  show ?case
  proof (cases stmt)
    case (ExpressionStatement e)
    then show ?thesis by (simp add: completionAssignStatement_def execAssign)
  next
    case (BlockStatement ss)
    then show ?thesis using 4(1) [OF BlockStatement] by (simp add: inBlock_def)
  next
    case (IfStatement test yes no)
    have "exec J name False (rewriteTailStatementForCompletion name yes) = exec J name True yes" using 4(2) [OF IfStatement] by blast
    moreover have "exec J name False (rewriteTailStatementForCompletion name s) = exec J name True s" if "no = Some s" for s
      using 4(3) [OF IfStatement that] by blast
    ultimately show ?thesis by (cases no) (simp_all add: IfStatement cong: if_cong)
  next
    case (SwitchStatement e cases)
    have "execFrom J name False i (map (rewriteCase name) cases) x = execFrom J name True i cases x" for i x
      using 4(4) [OF SwitchStatement] by (intro execFrom_rewrite) blast
    then show ?thesis using SwitchStatement
      by (simp add: selectCase_rewrite rewriteCases_declarations del: map_map)
  next
    case (TryStatement body catch fin)
    have "(case map_option (rewriteTailStatementsForCompletion name) body of None \<Rightarrow> (x, Normal) | Some ss \<Rightarrow> inBlock J ss (execs J name False ss) x) =
        (case body of None \<Rightarrow> (x, Normal) | Some ss \<Rightarrow> inBlock J ss (execs J name True ss) x)"
      using 4(5) [OF TryStatement] by (cases body) (simp_all add: inBlock_def)
    moreover have "execs J name False (rewriteTailStatementsForCompletion name ss) = execs J name True ss"
      if "catch = Some (Catch param (Some ss))" for param ss
      using 4(6) [OF TryStatement that] by blast
    then have "(case (case catch of Some (Catch param (Some ss)) \<Rightarrow> Some (Catch param (Some (rewriteTailStatementsForCompletion name ss))) | _ \<Rightarrow> catch) of
           Some (Catch param (Some ss)) \<Rightarrow> tryCatch J param (inBlock J ss (execs J name False ss)) | _ \<Rightarrow> (\<lambda>r. r)) =
        (case catch of Some (Catch param (Some ss)) \<Rightarrow> tryCatch J param (inBlock J ss (execs J name True ss)) | _ \<Rightarrow> (\<lambda>r. r))"
      by (auto simp: inBlock_def [abs_def] split: option.split catchClause.split)
    ultimately show ?thesis by (simp add: TryStatement)
  next
    case (LabelledStatement label s)
    then show ?thesis using 4(7) [OF LabelledStatement] by simp
  next
    case (WithStatement e s)
    then show ?thesis using 4(8) [OF WithStatement] by simp
  qed (simp_all add: rewriteTail_leaf exec_leaf)
next
  case (5 name stmts)
  show ?case
  proof (cases "stmts \<noteq> [] \<and> last stmts = BranchStatement TOKEN_BREAK None")
    case True
    have "rewriteSwitchConsequentForCompletion name stmts = rewriteSwitchConsequentForCompletion name (butlast stmts) @ [BranchStatement TOKEN_BREAK None]"
      using True by (subst rewriteSwitchConsequentForCompletion.simps) simp
    moreover have "execConsequent J name True stmts x = andThen (execConsequent J name True (butlast stmts) x) (\<lambda>x. (x, BreakTo None))"
      using True by (subst execConsequent.simps) simp
    moreover have "execConsequent J name False (ss @ [BranchStatement TOKEN_BREAK None]) x = andThen (execConsequent J name False ss x) (\<lambda>x. (x, BreakTo None))" for ss
      by (subst execConsequent.simps) simp
    ultimately show ?thesis using 5(1) True by simp
  next
    case False
    have "rewriteSwitchConsequentForCompletion name stmts = rewriteTailStatementsForCompletion name stmts"
      using False by (subst rewriteSwitchConsequentForCompletion.simps) auto
    moreover have "execConsequent J name True stmts x = execs J name True stmts x"
      using False by (subst execConsequent.simps) auto
    moreover have "execs J name False (rewriteTailStatementsForCompletion name stmts) x = execs J name True stmts x"
      using False 5(2) by (cases "stmts = []") auto
    ultimately show ?thesis by (simp add: execConsequent_plain)
  qed
qed simp_all

text \<open>The declarations of the cell are those of its rewriting.\<close>

lemma statementDeclarations_none: "\<not> isDeclaration s \<Longrightarrow> statementDeclarations s = []"
  by (cases s) (simp_all add: statementDeclarations_def)

lemma concat_declarations: "concat (map statementDeclarations ss) = concat (map statementDeclarations (filter isDeclaration ss))"
  by (induction ss) (auto simp: statementDeclarations_none)

lemma collect_rewrite: "collectTopLevelDeclarations (rewriteTailStatementsForCompletion name ss) = collectTopLevelDeclarations ss"
  by (simp add: collectTopLevelDeclarations_def concat_declarations [of "rewriteTailStatementsForCompletion name ss"] concat_declarations [of ss])

end
