(* ===== verification/Cell_Claims.thy ===== *)
theory Cell_Claims
  imports Cell_Promotions Cell_Table Cell_Completion
begin

text \<open>
  Properties of cells: their declarations, the redeclaration table, the scope they
  leave behind, and the properties of the global object.
\<close>

subsection \<open>Two cells\<close>

text \<open>
  A runtime whose values are numbers: the first cell is \<open>var x = 7\<close>, the second
  \<open>var y = 9\<close>. The scope of the wrapper of each has one slot.
\<close>

definition exampleStash :: "(string \<rightharpoonup> 32 word) \<Rightarrow> nat \<Rightarrow> stash" where
  "exampleStash names vs = \<lparr>st_names = Some names, st_values = vs, st_obj = 0, st_funcType = 0, st_outer = Some 0\<rparr>"

definition exampleOps :: "nat jsOps" where
  "exampleOps = \<lparr>jo_nil = 0, jo_undefined = 1, jo_null = 2, jo_isObject = (\<lambda>_. False), jo_get = (\<lambda>_ _. 0),
     jo_ToBoolean = (\<lambda>_. True), jo_String = (\<lambda>_. ''7''),
     jo_promise = (\<lambda>v. if v = 3 then Some (Fulfilled 7) else None), jo_export = (\<lambda>_. ExportNumber),
     jo_EncodeGoja = (\<lambda>_. Inr []), jo_envelope = Inr\<rparr>"

definition exampleOwn :: "nat globalObject \<Rightarrow> string \<Rightarrow> string + bool" where
  "exampleOwn obj name = Inr (obj name \<noteq> None)"

definition exampleStart :: "nat gojaRuntime" where
  "exampleStart = \<lparr>vm_stashes = [0 \<mapsto> \<lparr>st_names = None, st_values = 0, st_obj = 0, st_funcType = 0, st_outer = None\<rparr>],
     vm_arrays = (\<lambda>_. []), vm_global = 0, vm_stash = None, vm_globalObject = Map.empty, vm_extensible = True,
     vm_hasOwn = (\<lambda>_. Some exampleOwn), vm_undefined = 1\<rparr>"

definition exampleEnter :: "nat \<Rightarrow> string \<Rightarrow> nat \<Rightarrow> nat gojaRuntime \<Rightarrow> nat gojaRuntime" where
  "exampleEnter a name v vm = vm\<lparr>vm_stashes := (vm_stashes vm)(a \<mapsto> exampleStash [name \<mapsto> 0] a),
     vm_arrays := (vm_arrays vm)(a := [Some v]), vm_stash := Some a\<rparr>"

definition exampleCommit :: "nat \<Rightarrow> string \<Rightarrow> nat gojaRuntime \<Rightarrow> string + nat \<times> nat gojaRuntime" where
  "exampleCommit fresh name = commitHook exampleOps fresh [name]
     (beginCommit [\<lparr>td_Name = name, td_Kind = ''var''\<rparr>] newTopLevelAwaitState) []"

definition exampleFirst :: "nat gojaRuntime" where
  "exampleFirst = (case exampleCommit 2 ''x'' (exampleEnter 1 ''x'' 7 exampleStart) of Inr (_, vm) \<Rightarrow> vm | Inl _ \<Rightarrow> exampleStart)"

definition exampleSecond :: "nat gojaRuntime" where
  "exampleSecond = (case exampleCommit 4 ''y'' (exampleEnter 3 ''y'' 9 exampleFirst) of Inr (_, vm) \<Rightarrow> vm | Inl _ \<Rightarrow> exampleStart)"

lemma slotOf_zero [simp]: "slotOf 0 = 0"
  by (simp add: slotOf_def)

lemma faithful_exampleOwn [simp]: "faithfulHasOwn exampleOwn"
  by (simp add: faithfulHasOwn_def exampleOwn_def)

lemmas example_simps = exampleCommit_def exampleEnter_def exampleStash_def exampleStart_def exampleOps_def exampleOwn_def
  commitHook_def pendingCommit_def beginCommit_def newTopLevelAwaitState_def declarationIsVarLike_def
  promoteCurrentWrapperStash_def bridgePromotedGlobals_def globalStash_def defineSlotAccessor_def Let_def restrict_map_def

lemma example_first: "exampleCommit 2 ''x'' (exampleEnter 1 ''x'' 7 exampleStart) = Inr (1, exampleFirst)"
  by (simp add: exampleFirst_def example_simps)

lemma example_second: "exampleCommit 4 ''y'' (exampleEnter 3 ''y'' 9 exampleFirst) = Inr (1, exampleSecond)"
  by (simp add: exampleSecond_def exampleFirst_def example_simps)

lemma example_stashes:
  "vm_stashes exampleFirst = [0 \<mapsto> \<lparr>st_names = Some [''x'' \<mapsto> 0], st_values = 1, st_obj = 0, st_funcType = 0, st_outer = Some 2\<rparr>,
     1 \<mapsto> \<lparr>st_names = Some [''x'' \<mapsto> 0], st_values = 1, st_obj = 0, st_funcType = 0, st_outer = Some 2\<rparr>,
     2 \<mapsto> \<lparr>st_names = None, st_values = 0, st_obj = 0, st_funcType = 0, st_outer = None\<rparr>]"
  by (auto simp: exampleFirst_def example_simps fun_eq_iff)

lemma wrapperScope_enter:
  assumes "vm_global vm = 0" and "\<And>b. (outerOf vm)\<^sup>*\<^sup>* 0 b \<Longrightarrow> b \<noteq> a"
    and "\<And>b. (outerOf (exampleEnter a name v vm))\<^sup>+\<^sup>+ 0 b \<Longrightarrow> b \<noteq> fresh \<and> b \<noteq> a" and "distinct [fresh, a, 0]"
  shows "wrapperScope vm (exampleEnter a name v vm) fresh a (exampleStash [name \<mapsto> 0] a)"
proof -
  have "vm_global (exampleEnter a name v vm) = 0" "vm_stash (exampleEnter a name v vm) = Some a"
    "vm_stashes (exampleEnter a name v vm) = (vm_stashes vm)(a \<mapsto> exampleStash [name \<mapsto> 0] a)"
    using assms(1) by (simp_all add: exampleEnter_def)
  then show ?thesis using assms unfolding wrapperScope_def apart_def by (simp only: fun_upd_apply) fastforce
qed

lemma example_enter:
  "wrapperScope exampleStart (exampleEnter 1 ''x'' 7 exampleStart) 2 1 (exampleStash [''x'' \<mapsto> 0] 1)"
  "wrapperScope exampleFirst (exampleEnter 3 ''y'' 9 exampleFirst) 4 3 (exampleStash [''y'' \<mapsto> 0] 3)"
proof -
  have o: "\<not> outerOf (exampleEnter 1 ''x'' 7 exampleStart) 0 b" "\<not> outerOf exampleStart 0 b" for b
    by (simp_all add: outerOf_def exampleEnter_def exampleStart_def)
  have "(outerOf exampleStart)\<^sup>*\<^sup>* 0 b \<Longrightarrow> b = 0" for b using o(2) by (metis converse_rtranclpE)
  moreover have "\<not> (outerOf (exampleEnter 1 ''x'' 7 exampleStart))\<^sup>+\<^sup>+ 0 b" for b using o(1) by (metis tranclpD)
  moreover have "vm_global exampleStart = 0" by (simp add: exampleStart_def)
  ultimately show "wrapperScope exampleStart (exampleEnter 1 ''x'' 7 exampleStart) 2 1 (exampleStash [''x'' \<mapsto> 0] 1)"
    by (intro wrapperScope_enter) auto
  let ?vm = "exampleEnter 3 ''y'' 9 exampleFirst"
  have g: "vm_global exampleFirst = 0" by (simp add: exampleFirst_def example_simps)
  have e: "outerOf ?vm 0 b \<longleftrightarrow> b = 2" "\<not> outerOf ?vm 2 b" "outerOf exampleFirst 0 b \<longleftrightarrow> b = 2" "\<not> outerOf exampleFirst 2 b" for b
    by (auto simp: outerOf_def exampleEnter_def example_stashes)
  have "(outerOf exampleFirst)\<^sup>*\<^sup>* 0 b \<Longrightarrow> b = 0 \<or> b = 2" for b using e(3,4) by (metis converse_rtranclpE)
  moreover have "(outerOf ?vm)\<^sup>+\<^sup>+ 0 b \<Longrightarrow> b = 2" for b using e(1,2) by (metis tranclpD converse_rtranclpE)
  ultimately show "wrapperScope exampleFirst ?vm 4 3 (exampleStash [''y'' \<mapsto> 0] 3)"
    using g by (intro wrapperScope_enter) fastforce+
qed

lemma example_promotions:
  "promotions exampleStart (Map.empty ++ cellSlots {''x''} (exampleStash [''x'' \<mapsto> 0] 1) ++ cellSlots {''y''} (exampleStash [''y'' \<mapsto> 0] 3))
     exampleSecond"
proof -
  have "promotions exampleStart (Map.empty ++ cellSlots (td_Name ` set [\<lparr>td_Name = ''x'', td_Kind = ''var''\<rparr>]) (exampleStash [''x'' \<mapsto> 0] 1)) exampleFirst"
    by (rule promotions_commit [OF promotions_none example_enter(1) example_first [unfolded exampleCommit_def]])
  from promotions_commit [OF this example_enter(2) example_second [unfolded exampleCommit_def]] show ?thesis by simp
qed

subsection \<open>The scope of a cell\<close>

text \<open>
  C26. After any sequence of committed cells an identifier that the global scope
  resolves is the one its last declaration bound: it resolves to the slot that the
  last commit of its name gave it, and to what it was at the start if no cell
  declared it. Names other than the declarations of a cell are not visible after it.
\<close>

theorem identifier_is_last_declaration:
  assumes "promotions vm0 env vm" and "vm_stashes vm0 (vm_global vm0) \<noteq> None" and "apart vm0 {vm_global vm0}"
  shows "resolves vm (vm_global vm) name q \<longleftrightarrow>
    (case env name of Some q' \<Rightarrow> q = q' | None \<Rightarrow> resolves vm0 (vm_global vm0) name q)"
  using promotions_scope [OF assms] by blast

lemma example_apart: "apart exampleStart {vm_global exampleStart}"
proof -
  have "\<not> outerOf exampleStart 0 b" for b by (simp add: outerOf_def exampleStart_def)
  then have "\<not> (outerOf exampleStart)\<^sup>+\<^sup>+ 0 b" for b by (metis tranclpD)
  then show ?thesis by (simp add: apart_def exampleStart_def)
qed

theorem identifier_is_last_declaration_witness:
  "resolves exampleSecond (vm_global exampleSecond) ''x'' (1, 0) \<and> resolves exampleSecond (vm_global exampleSecond) ''y'' (3, 0)"
proof -
  have "vm_stashes exampleStart (vm_global exampleStart) \<noteq> None" by (simp add: exampleStart_def)
  note r = identifier_is_last_declaration [OF example_promotions this example_apart]
  show ?thesis unfolding r by (simp add: cellSlots_def slotIn_def exampleStash_def map_add_def)
qed

text \<open>
  C30. A \<open>var\<close> or a function that is declared for the first time becomes a property
  of the global object, and the property and the identifier are one variable: both
  read the slot of the wrapper's scope in which the code of the cell keeps it.
\<close>

theorem new_var_is_one_variable:
  assumes "promoteCurrentWrapperStash fresh order allowed varLike vm = Inr vm'"
    and "vm_stash vm = Some current" "vm_stashes vm current = Some st"
    and "st_names st = Some names" "names name = Some idx" "name \<in> allowed - {''arguments'', ''this''}"
    and "name \<in> varLike" "name \<in> set order" "distinct order" "vm_globalObject vm name = None"
    and "\<And>obj. vm_hasOwn vm obj = Some hasOwn" "faithfulHasOwn hasOwn"
  shows "resolves vm' (vm_global vm') name (st_values st, slotOf idx) \<and>
    getGlobal vm' name = promotedStashSlotValue vm' st (slotOf idx)"
  using resolves_global [OF assms(1-6)] new_property [OF assms] global_promoted [OF assms(1-3)]
  by (simp add: getGlobal_def promotedStashSlotValue_def promotedStash_def)

theorem new_var_is_one_variable_witness:
  "resolves exampleFirst (vm_global exampleFirst) ''x'' (1, slotOf 0) \<and>
   getGlobal exampleFirst ''x'' = promotedStashSlotValue exampleFirst (exampleStash [''x'' \<mapsto> 0] 1) (slotOf 0)"
proof -
  let ?vm = "exampleEnter 1 ''x'' 7 exampleStart"
  have p: "promoteCurrentWrapperStash 2 [''x''] {''x''} {''x''} ?vm = Inr exampleFirst"
    using commitHook_Inr [OF example_first [unfolded exampleCommit_def]] by (simp add: declarationIsVarLike_def)
  have o: "vm_hasOwn ?vm obj = Some exampleOwn" for obj by (simp add: exampleEnter_def exampleStart_def)
  have "st_values (exampleStash [''x'' \<mapsto> 0] 1) = 1" by (simp add: exampleStash_def)
  with new_var_is_one_variable [where names = "[''x'' \<mapsto> 0]" and st = "exampleStash [''x'' \<mapsto> 0] 1" and current = 1 and idx = 0 and name = "''x''",
    OF p _ _ _ _ _ _ _ _ _ o faithful_exampleOwn]
  show ?thesis by (simp add: exampleEnter_def exampleStash_def exampleStart_def)
qed

text \<open>
  C31. The accessor of a property outlives the scope it was defined for: once another
  cell is committed, reading the property gives the slot of the same index in the
  new cell's array, although the identifier still resolves to the slot of the cell
  that declared it.
\<close>

theorem global_property_goes_stale:
  assumes "promoteCurrentWrapperStash fresh order allowed varLike vm = Inr vm'"
    and "vm_stash vm = Some current" "vm_stashes vm current = Some st" "vm_stashes vm (vm_global vm) = Some old"
    and "fresh \<noteq> current" "fresh \<noteq> vm_global vm" "apart vm {fresh, current, vm_global vm}"
    and "vm_globalObject vm name = Some (SlotAccessor i)" "resolves vm (vm_global vm) name q" "name \<notin> allowed"
    and "\<And>obj. vm_hasOwn vm obj = Some hasOwn" "faithfulHasOwn hasOwn"
  shows "resolves vm' (vm_global vm') name q \<and> getGlobal vm' name = promotedStashSlotValue vm' st i"
proof -
  have "cellSlots allowed st name = None" using assms(10) by (simp add: cellSlots_def)
  with promotion_scope(1) [OF assms(1-7) disjI2 [OF refl], of name q] assms(9) promote_stashes(2) [OF assms(1,2)]
    stale_property [OF assms(1-3,8,11,12)] show ?thesis by simp
qed

theorem global_property_goes_stale_witness:
  "resolves exampleSecond (vm_global exampleSecond) ''x'' (1, 0) \<and> vm_arrays exampleSecond 1 = [Some 7] \<and>
   getGlobal exampleSecond ''x'' = 9"
proof -
  let ?vm = "exampleEnter 3 ''y'' 9 exampleFirst" and ?st = "exampleStash [''y'' \<mapsto> 0] 3"
  have p: "promoteCurrentWrapperStash 4 [''y''] {''y''} {''y''} ?vm = Inr exampleSecond"
    using commitHook_Inr [OF example_second [unfolded exampleCommit_def]] by (simp add: declarationIsVarLike_def)
  have g: "vm_global exampleFirst = 0" by (simp add: exampleFirst_def example_simps)
  have e: "outerOf ?vm 0 b \<longleftrightarrow> b = 2" "\<not> outerOf ?vm 2 b" for b
    by (auto simp: outerOf_def exampleEnter_def example_stashes)
  then have "(outerOf ?vm)\<^sup>+\<^sup>+ 0 b \<Longrightarrow> b = 2" for b by (metis tranclpD converse_rtranclpE)
  moreover have gv: "vm_global ?vm = 0" by (simp add: exampleEnter_def g)
  ultimately have a: "apart ?vm {4, 3, vm_global ?vm}" unfolding apart_def by fastforce
  have o: "vm_hasOwn ?vm obj = Some exampleOwn" for obj by (simp add: exampleFirst_def example_simps)
  have x: "vm_globalObject ?vm ''x'' = Some (SlotAccessor 0)" by (simp add: exampleFirst_def example_simps)
  obtain st where st: "vm_stashes ?vm (vm_global ?vm) = Some st" "slotIn st ''x'' = Some (1, 0)"
    by (simp add: exampleEnter_def g example_stashes slotIn_def)
  have "resolves ?vm (vm_global ?vm) ''x'' (1, 0)" by (rule resolves_here [OF st])
  with global_property_goes_stale [where st = ?st and current = 3 and name = "''x''", OF p _ _ st(1) _ _ a x _ _ o faithful_exampleOwn]
  have "resolves exampleSecond (vm_global exampleSecond) ''x'' (1, 0) \<and> getGlobal exampleSecond ''x'' = promotedStashSlotValue exampleSecond ?st 0"
    by (simp add: exampleEnter_def g)
  moreover have "vm_arrays exampleSecond 1 = [Some 7]" "vm_arrays exampleSecond 3 = [Some 9]"
    by (simp_all add: exampleSecond_def exampleFirst_def example_simps)
  moreover have "st_values ?st = 3" by (simp add: exampleStash_def)
  ultimately show ?thesis by (simp add: promotedStashSlotValue_def)
qed

text \<open>
  When a cell declares a \<open>var\<close> again that an earlier cell declared, its value is
  written through the accessor of the earlier cell: it overwrites the slot of the
  cell's own array with the index the earlier cell gave the name, which another
  variable of the cell may have.
\<close>

theorem redeclared_var_overwrites_slot:
  assumes "promoteCurrentWrapperStash fresh order allowed {name} vm = Inr vm'"
    and "vm_stash vm = Some current" "vm_stashes vm current = Some st"
    and "st_names st = Some names" "names name = Some idx" "name \<in> allowed - {''arguments'', ''this''}"
    and "name \<in> set order" "distinct order" "vm_globalObject vm name = Some (SlotAccessor i)"
    and "\<And>obj. vm_hasOwn vm obj = Some hasOwn" "faithfulHasOwn hasOwn"
  shows "vm_arrays vm' (st_values st) = (vm_arrays vm (st_values st))[i := Some (promotedStashSlotValue vm st (slotOf idx))]"
  by (rule redeclared_property [OF assms])

text \<open>The cell \<open>let y = 5; var x = 6\<close> after the cell \<open>var x = 7\<close>: \<open>y\<close> becomes 6.\<close>

definition exampleAgain :: "nat gojaRuntime" where
  "exampleAgain = exampleFirst\<lparr>vm_stashes := (vm_stashes exampleFirst)(3 \<mapsto> exampleStash [''y'' \<mapsto> 0, ''x'' \<mapsto> 1] 3),
     vm_arrays := (vm_arrays exampleFirst)(3 := [Some 5, Some 6]), vm_stash := Some 3\<rparr>"

lemma slotOf_one [simp]: "slotOf 1 = 1"
  by (simp add: slotOf_def stashMaskType_def stashMaskConst_def stashMaskVar_def stashMaskStrict_def)

theorem redeclared_var_overwrites_slot_witness:
  "\<exists>vm'. promoteCurrentWrapperStash 4 [''y'', ''x''] {''x'', ''y''} {''x''} exampleAgain = Inr vm' \<and>
     resolves vm' (vm_global vm') ''y'' (3, 0) \<and> vm_arrays vm' 3 = [Some 6, Some 6]"
proof -
  let ?st = "exampleStash [''y'' \<mapsto> 0, ''x'' \<mapsto> 1] 3"
  have "promoteCurrentWrapperStash 4 [''y'', ''x''] {''x'', ''y''} {''x''} exampleAgain \<noteq> Inl e" for e
    by (simp add: exampleAgain_def exampleFirst_def example_simps setGlobal_def)
  then obtain vm' where p: "promoteCurrentWrapperStash 4 [''y'', ''x''] {''x'', ''y''} {''x''} exampleAgain = Inr vm'"
    by (cases "promoteCurrentWrapperStash 4 [''y'', ''x''] {''x'', ''y''} {''x''} exampleAgain") auto
  have c: "vm_stash exampleAgain = Some 3" "vm_stashes exampleAgain 3 = Some ?st" by (simp_all add: exampleAgain_def)
  have o: "vm_hasOwn exampleAgain obj = Some exampleOwn" for obj by (simp add: exampleAgain_def exampleFirst_def example_simps)
  have x: "vm_globalObject exampleAgain ''x'' = Some (SlotAccessor 0)" by (simp add: exampleAgain_def exampleFirst_def example_simps)
  have n: "st_names ?st = Some [''y'' \<mapsto> 0, ''x'' \<mapsto> 1]" "[''y'' \<mapsto> 0, ''x'' \<mapsto> 1 :: 32 word] ''x'' = Some 1" "st_values ?st = 3"
    by (simp_all add: exampleStash_def)
  have a: "vm_arrays exampleAgain 3 = [Some 5, Some 6]" by (simp add: exampleAgain_def)
  have "vm_arrays vm' (st_values ?st) = (vm_arrays exampleAgain (st_values ?st))[0 := Some (promotedStashSlotValue exampleAgain ?st (slotOf 1))]"
    by (rule redeclared_var_overwrites_slot [OF p c n(1,2) _ _ _ x o faithful_exampleOwn]) simp_all
  then have "vm_arrays vm' 3 = [Some 6, Some 6]" by (simp add: n(3) a promotedStashSlotValue_def)
  moreover have "resolves vm' (vm_global vm') ''y'' (3, 0)"
    using resolves_global [OF p c n(1), of "''y''" 0] by (simp add: n(3))
  ultimately show ?thesis using p by blast
qed

subsection \<open>The declarations of a cell\<close>

text \<open>A name with its kind.\<close>

definition kinds :: "topLevelDeclaration list \<Rightarrow> (string \<times> string) list" where
  "kinds ds = map (\<lambda>d. (td_Name d, td_Kind d)) ds"

lemma kinds_addDeclaration:
  "map_of (kinds (foldl addDeclaration out ds)) = ((map_of (kinds ds))([] := None)) ++ map_of (kinds out)"
proof (induction ds arbitrary: out)
  case (Cons d ds)
  have "map_of (kinds (addDeclaration out d)) = (if td_Name d = [] then Map.empty else [td_Name d \<mapsto> td_Kind d]) ++ map_of (kinds out)"
    by (auto simp: addDeclaration_def kinds_def fun_eq_iff map_add_def map_of_eq_None_iff image_iff split: option.splits)
  with Cons show ?case by (auto simp: kinds_def fun_eq_iff map_add_def split: option.splits)
qed (auto simp: kinds_def fun_eq_iff map_add_def map_of_eq_None_iff addDeclaration_def split: option.splits)

text \<open>
  C33. The declarations of a cell are found once each: a name has the kind of the
  first declaration of it at the top level of the cell, and the name invented for
  the completion value, which always exists, is none of them.
\<close>

theorem cell_declarations:
  "distinct (map td_Name (collectTopLevelDeclarations stmts)) \<and>
   map_of (kinds (collectTopLevelDeclarations stmts)) = (map_of (kinds (concat (map statementDeclarations stmts))))([] := None) \<and>
   (\<exists>name. chooseInternalName (collectTopLevelDeclarations stmts) base = Some name \<and>
      name \<notin> td_Name ` set (collectTopLevelDeclarations stmts))"
proof (intro conjI)
  show "map_of (kinds (collectTopLevelDeclarations stmts)) = (map_of (kinds (concat (map statementDeclarations stmts))))([] := None)"
    unfolding collectTopLevelDeclarations_def kinds_addDeclaration by (simp add: kinds_def)
qed (simp_all add: collect_distinct chooseInternalName_fresh)

text \<open>
  A declaration finds only names its pattern binds, and finds all of them when
  no part of the pattern has a default value. (The names of a part with a default
  are missed, so they are not visible after the cell.)
\<close>

theorem binding_names:
  "set (bindingTargetNames e) \<subseteq> set (boundNames e) \<and> (plainPattern e \<longrightarrow> bindingTargetNames e = boundNames e)"
  using bindingTargetNames_subset bindingTargetNames_plain by blast

theorem binding_names_witness:
  "bindingTargetNames (ArrayPattern [Identifier ''a'', Identifier ''b''] NilExpression) = [''a'', ''b''] \<and>
   bindingTargetNames (ArrayPattern [AssignExpression TOKEN_ASSIGN (Identifier ''a'') (NumberLiteral 1)] NilExpression) = [] \<and>
   boundNames (ArrayPattern [AssignExpression TOKEN_ASSIGN (Identifier ''a'') (NumberLiteral 1)] NilExpression) = [''a'']"
  using binding_names [of "ArrayPattern [Identifier ''a'', Identifier ''b''] NilExpression"] by simp

text \<open>
  C32. Along any cells of a runtime, accepted, refused, failed or never settled, the
  redeclaration table is well formed: a name is lexical or like \<open>var\<close> and never
  both, and between cells no commit is pending.
\<close>

theorem redeclaration_table_well_formed:
  assumes "cells parse compile run newTopLevelAwaitState s"
  shows "oneKind s \<and> ta_pending s = None"
  using cells_invariant [OF assms] by (simp add: oneKind_def newTopLevelAwaitState_def)

text \<open>
  C28. A \<open>let\<close>, \<open>const\<close> or class name is final: after any further cells it is still
  in the table as it was, and a cell that declares it again, in whatever way, is
  refused before it runs and changes nothing.
\<close>

theorem lexical_name_is_final:
  assumes "cells parse compile run s s'" and "ta_committed s name = Some e" and "ct_LexicalKind e \<noteq> []"
    and "compileWrappedCell parse compile src = Some (Inr (program, decls))" and "name \<in> td_Name ` set decls"
  shows "ta_committed s' name = Some e \<and>
    (\<exists>n kind prior. runContext parse compile run J0 J J' nid fresh order s' vm src =
      Some \<lparr>xr_result = Inl (PlanFailed (DeclarationConflict n kind prior)), xr_state = s', xr_vm = vm\<rparr>)"
  using cells_lexical [OF assms(1-3)] lexical_refused [OF assms(4,5) _ assms(3)] by blast

subsection \<open>The completion value\<close>


subsection \<open>A return statement of the cell\<close>

text \<open>
  A cell whose own \<open>return\<close> ends it never reaches the commit of its scope. It
  succeeds with the returned value all the same, and its names are entered in the
  redeclaration table: a lexical name it declared is not visible afterwards, and no
  later cell may declare it.
\<close>

theorem early_return_takes_names:
  assumes "buildTopLevelAwaitPlan parse compile s src = Some (Inr (program, decls))"
    and "run program vm = RunValue raw vm'" and "raw \<noteq> jo_nil J0" "jo_promise J0 raw = Some (Fulfilled v)"
    and "unwrapInternalCompletionEnvelope J0 v = None" "valueToEvalResult J0 nid v = Some res"
    and "d \<in> set decls" "\<not> declarationIsVarLike (td_Kind d)" "td_Kind d \<noteq> []"
    and "compileWrappedCell parse compile src2 = Some (Inr (program2, decls2))" "td_Name d \<in> td_Name ` set decls2"
  shows "runContext parse compile run J0 J J' nid fresh order s vm src =
      Some \<lparr>xr_result = Inr res, xr_state = endCommit (commitDeclarations decls s), xr_vm = vm'\<rparr> \<and>
    (\<exists>n kind prior. runContext parse compile run J1 J2 J3 nid2 fresh2 order2 (endCommit (commitDeclarations decls s)) vm2 src2 =
      Some \<lparr>xr_result = Inl (PlanFailed (DeclarationConflict n kind prior)),
        xr_state = endCommit (commitDeclarations decls s), xr_vm = vm2\<rparr>)"
proof
  have e: "endCommit (commitDeclarations decls (beginCommit decls s)) = endCommit (commitDeclarations decls s)"
    by (simp add: endCommit_def beginCommit_def commitDeclarations_def)
  show "runContext parse compile run J0 J J' nid fresh order s vm src =
      Some \<lparr>xr_result = Inr res, xr_state = endCommit (commitDeclarations decls s), xr_vm = vm'\<rparr>"
    using assms(1-6) by (simp add: runContext_def Let_def settleValueAsync_def finalizeCompletionValue_def deliverValue_def e)
  from assms(1) have c: "compileWrappedCell parse compile src = Some (Inr (program, decls))"
    by (auto simp: buildTopLevelAwaitPlan_def cbind_Inr_iff split: option.splits)
  then have "distinct (map td_Name decls)" using compile_decls [OF c] by (auto simp: collect_distinct)
  from foldl_commit_name [OF this assms(7)]
  have "\<exists>x. ta_committed (endCommit (commitDeclarations decls s)) (td_Name d) = Some x \<and> ct_LexicalKind x \<noteq> []"
    using assms(8,9) by (simp add: endCommit_def commitDeclarations_def commitDeclaration_def Let_def)
  with lexical_refused [OF assms(10,11)]
  show "\<exists>n kind prior. runContext parse compile run J1 J2 J3 nid2 fresh2 order2 (endCommit (commitDeclarations decls s)) vm2 src2 =
      Some \<lparr>xr_result = Inl (PlanFailed (DeclarationConflict n kind prior)),
        xr_state = endCommit (commitDeclarations decls s), xr_vm = vm2\<rparr>" by blast
qed

text \<open>The cell \<open>const x = 7; return x\<close>, and an engine that runs it to a promise of 7.\<close>

definition exampleBody :: "statement list" where
  "exampleBody = [LexicalDeclaration TOKEN_CONST [Binding (Identifier ''x'') (NumberLiteral 7)], ReturnStatement (Identifier ''x''),
     commitReturnStatement undefinedExpression]"

definition exampleParse :: "string \<Rightarrow> string + statement list" where
  "exampleParse src = Inr [ExpressionStatement (CallExpression
     (FunctionLiteral (Function True (Some ''__repljs_cell__'') None (Some exampleBody))) [])]"

definition exampleRun :: "unit \<Rightarrow> nat gojaRuntime \<Rightarrow> nat wrapperRun" where
  "exampleRun program vm = RunValue 3 vm"

definition exampleDecls :: "topLevelDeclaration list" where
  "exampleDecls = [\<lparr>td_Name = ''x'', td_Kind = ''const''\<rparr>]"

lemma example_compile: "compileWrappedCell exampleParse (\<lambda>_. Inr ()) src = Some (Inr ((), exampleDecls))"
  by (simp add: compileWrappedCell_def exampleParse_def exampleBody_def locateWrappedAsyncCell_def collectTopLevelDeclarations_def
      statementDeclarations_def bindingNames_def addDeclaration_def chooseInternalName_def exampleDecls_def Let_def)

lemma example_plan: "buildTopLevelAwaitPlan exampleParse (\<lambda>_. Inr ()) newTopLevelAwaitState src = Some (Inr ((), exampleDecls))"
proof -
  have "validateRedeclarations newTopLevelAwaitState exampleDecls = None"
    by (simp add: exampleDecls_def validate_None redeclarationError_def newTopLevelAwaitState_def)
  then show ?thesis by (simp add: buildTopLevelAwaitPlan_def example_compile)
qed

lemma example_result: "\<exists>res. valueToEvalResult exampleOps [] 7 = Some res"
  by (simp add: valueToEvalResult_def exampleOps_def gojaTypeHint.simps exportedSettledGojaPromise_def exportedGojaPromise_def)

lemma example_settled: "unwrapInternalCompletionEnvelope exampleOps 7 = None" "jo_promise exampleOps 3 = Some (Fulfilled 7)" "3 \<noteq> jo_nil exampleOps"
  by (simp_all add: unwrapInternalCompletionEnvelope_def exampleOps_def)

theorem early_return_takes_names_witness:
  "\<exists>res s. runContext exampleParse (\<lambda>_. Inr ()) exampleRun exampleOps exampleOps exampleOps [] 0 [] newTopLevelAwaitState exampleStart [] =
      Some \<lparr>xr_result = Inr res, xr_state = s, xr_vm = exampleStart\<rparr> \<and>
    (\<exists>n kind prior. runContext exampleParse (\<lambda>_. Inr ()) exampleRun exampleOps exampleOps exampleOps [] 0 [] s exampleStart [] =
      Some \<lparr>xr_result = Inl (PlanFailed (DeclarationConflict n kind prior)), xr_state = s, xr_vm = exampleStart\<rparr>)"
proof -
  obtain res where res: "valueToEvalResult exampleOps [] 7 = Some res" using example_result by blast
  let ?d = "\<lparr>td_Name = ''x'', td_Kind = ''const''\<rparr>"
  have d: "?d \<in> set exampleDecls" "td_Name ?d \<in> td_Name ` set exampleDecls" "\<not> declarationIsVarLike (td_Kind ?d)" "td_Kind ?d \<noteq> []"
    by (simp_all add: exampleDecls_def declarationIsVarLike_def)
  have r: "exampleRun () exampleStart = RunValue 3 exampleStart" by (simp add: exampleRun_def)
  show ?thesis
    by (intro exI, rule early_return_takes_names [where run = exampleRun and program = "()" and vm = exampleStart and ?program2.0 = "()",
        OF example_plan [of "[]"] r example_settled(3,2,1) res d(1,3,4) example_compile [of "[]"] d(2)])
qed

theorem redeclaration_table_well_formed_witness: "\<exists>s. ta_committed s \<noteq> Map.empty \<and> oneKind s \<and> ta_pending s = None"
proof -
  obtain res where res: "valueToEvalResult exampleOps [] 7 = Some res" using example_result by blast
  define r where "r = \<lparr>xr_result = Inr res, xr_state = endCommit (commitDeclarations exampleDecls newTopLevelAwaitState), xr_vm = exampleStart\<rparr>"
  have e: "endCommit (commitDeclarations decls (beginCommit decls s)) = endCommit (commitDeclarations decls s)" for decls s
    by (simp add: endCommit_def beginCommit_def commitDeclarations_def)
  have "runContext exampleParse (\<lambda>_. Inr ()) exampleRun exampleOps exampleOps exampleOps [] 0 [] newTopLevelAwaitState exampleStart [] = Some r"
    using example_settled res by (simp add: runContext_def example_plan exampleRun_def Let_def settleValueAsync_def finalizeCompletionValue_def
        deliverValue_def e r_def)
  from cells_run [OF cells_none this]
  have "cells exampleParse (\<lambda>_. Inr ()) exampleRun newTopLevelAwaitState (xr_state r)" .
  from redeclaration_table_well_formed [OF this] have "oneKind (xr_state r) \<and> ta_pending (xr_state r) = None" .
  moreover have "ta_committed (xr_state r) ''x'' \<noteq> None"
    by (simp add: r_def endCommit_def commitDeclarations_def exampleDecls_def commitDeclaration_def Let_def)
  ultimately show ?thesis by (metis)
qed

theorem lexical_name_is_final_witness:
  "\<exists>s. ta_committed s ''x'' = Some \<lparr>ct_LexicalKind = ''const'', ct_VarLikeKind = []\<rparr> \<and>
    (\<exists>n kind prior. runContext exampleParse (\<lambda>_. Inr ()) exampleRun exampleOps exampleOps exampleOps [] 0 [] s exampleStart [] =
      Some \<lparr>xr_result = Inl (PlanFailed (DeclarationConflict n kind prior)), xr_state = s, xr_vm = exampleStart\<rparr>)"
proof -
  let ?s = "commitDeclarations exampleDecls newTopLevelAwaitState"
  let ?e = "\<lparr>ct_LexicalKind = ''const'', ct_VarLikeKind = []\<rparr>"
  have e: "ta_committed ?s ''x'' = Some ?e" "ct_LexicalKind ?e \<noteq> []"
    by (simp_all add: commitDeclarations_def exampleDecls_def commitDeclaration_def newTopLevelAwaitState_def declarationIsVarLike_def emptyEntry_def)
  have "''x'' \<in> td_Name ` set exampleDecls" by (simp add: exampleDecls_def)
  from lexical_name_is_final [OF cells_none e example_compile this] e(1) show ?thesis by blast
qed

end
