(* ===== verification/Wire_Inspect.thy ===== *)
theory Wire_Inspect
  imports Wire_Patch Wire_Claims
begin

text \<open>
  The textual rendering of payloads: \<open>src/jswire/inspect.go\<close>. A text is its UTF-8
  bytes. Quoting, the classes of Unicode, the decimal forms of floating point
  numbers and the form of a date are those of the standard library, a parameter
  (\<open>textLib\<close>).
\<close>

subsection \<open>Text\<close>

record textLib =
  tx_Quote :: "string \<Rightarrow> string"
  tx_IsLetter :: "nat \<Rightarrow> bool"
  tx_IsDigit :: "nat \<Rightarrow> bool"
  tx_FormatF0 :: "float64 \<Rightarrow> string"
  tx_FormatG :: "float64 \<Rightarrow> string"
  tx_FormatMilli :: "64 word \<Rightarrow> string"

definition ellipsis :: string where "ellipsis = [CHR 0xE2, CHR 0x80, CHR 0xA6]"

text \<open>
  Decoding UTF-8: a byte that starts no well-formed sequence is the replacement
  character by itself. \<open>lead\<close> gives, for the first byte of a longer sequence, how
  many bytes follow, its own bits, and the range of the second byte.
\<close>

definition lead :: "nat \<Rightarrow> (nat \<times> nat \<times> nat \<times> nat) option" where
  "lead b =
     (if 0xC2 \<le> b \<and> b \<le> 0xDF then Some (1, b - 0xC0, 0x80, 0xBF)
      else if b = 0xE0 then Some (2, 0, 0xA0, 0xBF)
      else if b = 0xED then Some (2, 0xD, 0x80, 0x9F)
      else if 0xE1 \<le> b \<and> b \<le> 0xEF then Some (2, b - 0xE0, 0x80, 0xBF)
      else if b = 0xF0 then Some (3, 0, 0x90, 0xBF)
      else if 0xF1 \<le> b \<and> b \<le> 0xF3 then Some (3, b - 0xF0, 0x80, 0xBF)
      else if b = 0xF4 then Some (3, 4, 0x80, 0x8F)
      else None)"

definition decodeRune :: "char \<Rightarrow> string \<Rightarrow> nat \<times> nat" where
  "decodeRune c cs =
     (let b = of_char c in
      if b < 0x80 then (b, 0)
      else case lead b of
        None \<Rightarrow> (0xFFFD, 0)
      | Some (n, bits, lo, hi) \<Rightarrow>
          (let more = map of_char (take n cs) in
           if length more = n \<and> lo \<le> hd more \<and> hd more \<le> hi \<and> list_all (\<lambda>m. 0x80 \<le> m \<and> m \<le> 0xBF) (tl more)
           then (foldl (\<lambda>r m. r * 64 + (m - 0x80)) bits more, n)
           else (0xFFFD, 0)))"

function runes :: "string \<Rightarrow> nat list" where
  "runes [] = []"
| "runes (c # cs) = (case decodeRune c cs of (r, n) \<Rightarrow> r # runes (drop n cs))"
  by pat_completeness auto
termination
  by (relation "measure length") auto

definition encodeRune :: "nat \<Rightarrow> string" where
  "encodeRune r = map char_of
     (if r < 0x80 then [r]
      else if r < 0x800 then [0xC0 + r div 64, 0x80 + r mod 64]
      else if r < 0x10000 then [0xE0 + r div 4096, 0x80 + r div 64 mod 64, 0x80 + r mod 64]
      else [0xF0 + r div 262144, 0x80 + r div 4096 mod 64, 0x80 + r div 64 mod 64, 0x80 + r mod 64])"

definition stringOfRunes :: "nat list \<Rightarrow> string" where
  "stringOfRunes rs = concat (map encodeRune rs)"

definition hexDigit :: "nat \<Rightarrow> char" where
  "hexDigit n = char_of (if n < 10 then 48 + n else 87 + n)"

text \<open>\<open>%02x\<close>.\<close>

definition hexByte :: "byte \<Rightarrow> string" where
  "hexByte b = [hexDigit (unat b div 16), hexDigit (unat b mod 16)]"

definition showSint :: "'a::len word \<Rightarrow> string" where
  "showSint w = Itoa (sint w)"

subsection \<open>Options\<close>

record inspectOptions =
  maxDepth :: nat
  maxProps :: nat
  maxArrayItems :: nat
  maxMapEntries :: nat
  maxSetValues :: nat
  maxTypedElements :: nat
  maxStringRunes :: nat
  maxBytes :: nat

definition summaryInspectOptions :: inspectOptions where
  "summaryInspectOptions = \<lparr>maxDepth = 2, maxProps = 4, maxArrayItems = 4, maxMapEntries = 3, maxSetValues = 4,
     maxTypedElements = 6, maxStringRunes = 40, maxBytes = 8\<rparr>"

definition fullInspectOptions :: inspectOptions where
  "fullInspectOptions = \<lparr>maxDepth = 4, maxProps = 8, maxArrayItems = 8, maxMapEntries = 6, maxSetValues = 8,
     maxTypedElements = 12, maxStringRunes = 160, maxBytes = 24\<rparr>"

subsection \<open>Leaves\<close>

definition minInt :: "nat \<Rightarrow> nat \<Rightarrow> nat" where "minInt a b = (if a < b then a else b)"

text \<open>The marker for what is left out, if anything is.\<close>

definition omitted :: "nat \<Rightarrow> nat \<Rightarrow> string list" where
  "omitted count limit = (if count > limit then [ellipsis @ ''+'' @ showNat (count - limit)] else [])"

definition formatHexBytes :: "bytes \<Rightarrow> nat \<Rightarrow> string" where
  "formatHexBytes raw most =
     (if raw = [] then ''<>''
      else let limit = minInt (length raw) most in
        ''<'' @ joinWith '' '' (map hexByte (take limit raw) @ omitted (length raw) limit) @ ''>'')"

text \<open>\<open>math.Trunc(v) == v\<close>: all bits of the fraction below the point are zero.\<close>

definition isTrunc :: "float64 \<Rightarrow> bool" where
  "isTrunc f \<longleftrightarrow>
     (let e = unat (expBits f) in
      f AND NOT 0x8000000000000000 = 0 \<or> e \<ge> 1075 \<or> (e \<ge> 1023 \<and> fracBits f AND mask (1075 - e) = 0))"

definition formatNumber :: "textLib \<Rightarrow> float64 \<Rightarrow> string" where
  "formatNumber T v =
     (if IsNaN v then ''NaN''
      else if v = PosInf then ''Infinity''
      else if v = NegInf then ''-Infinity''
      else if (v = 0 \<or> v = NegZero) \<and> Signbit v then ''-0''
      else if isTrunc v then tx_FormatF0 T v
      else tx_FormatG T v)"

fun plainKey :: "textLib \<Rightarrow> bool \<Rightarrow> nat list \<Rightarrow> bool" where
  "plainKey T first [] \<longleftrightarrow> True"
| "plainKey T first (r # rs) \<longleftrightarrow>
     (r = 36 \<or> r = 95 \<or> tx_IsLetter T r \<or> (\<not> first \<and> tx_IsDigit T r)) \<and> plainKey T False rs"

definition formatPropKey :: "textLib \<Rightarrow> string \<Rightarrow> string" where
  "formatPropKey T key =
     (if key = [] then tx_Quote T key else if plainKey T True (runes key) then key else tx_Quote T key)"

definition renderString :: "textLib \<Rightarrow> inspectOptions \<Rightarrow> string \<Rightarrow> string" where
  "renderString T opts s =
     (let rs = runes s in
      if length rs \<le> maxStringRunes opts then tx_Quote T s
      else let limit = (if maxStringRunes opts > 1 then maxStringRunes opts - 1 else maxStringRunes opts);
               clipped = stringOfRunes (take limit rs) @ ellipsis in
        ''string('' @ showNat (length rs) @ '') '' @ tx_Quote T clipped)"

definition renderObjectBase :: "string \<Rightarrow> string" where
  "renderObjectBase name = (if name = [] then [] else name @ '' '')"

definition typedArrayElementString :: "textLib \<Rightarrow> string \<Rightarrow> bytes \<Rightarrow> string" where
  "typedArrayElementString T ctor raw =
     (if ctor = ''Uint8Array'' \<or> ctor = ''Uint8ClampedArray'' then showWord (hd raw)
      else if ctor = ''Int8Array'' then showSint (hd raw)
      else if ctor = ''Uint16Array'' then showWord (getLE raw :: 16 word)
      else if ctor = ''Int16Array'' then showSint (getLE raw :: 16 word)
      else if ctor = ''Uint32Array'' then showWord (getLE raw :: 32 word)
      else if ctor = ''Int32Array'' then showSint (getLE raw :: 32 word)
      else if ctor = ''Float32Array'' then formatNumber T (float64OfFloat32 (getLE raw))
      else if ctor = ''Float64Array'' then formatNumber T (getLE raw)
      else if ctor = ''BigInt64Array'' then showSint (getLE raw :: 64 word) @ ''n''
      else if ctor = ''BigUint64Array'' then showWord (getLE raw :: 64 word) @ ''n''
      else formatHexBytes raw (length raw))"

definition renderTypedArraySample :: "textLib \<Rightarrow> string \<Rightarrow> bytes \<Rightarrow> nat \<Rightarrow> string list \<times> nat" where
  "renderTypedArraySample T ctor raw limit =
     (let bytesPer = unat (bytesPerElement ctor) in
      if bytesPer \<le> 0 then ([formatHexBytes raw limit], 0)
      else let count = length raw div bytesPer; limit = minInt count limit in
        (map (\<lambda>i. typedArrayElementString T ctor (take bytesPer (drop (i * bytesPer) raw))) [0 ..< limit], count - limit))"

definition typedArrayLength :: "wireNode \<Rightarrow> nat" where
  "typedArrayLength node =
     (let bytesPer = bytesPerElement (wn_TextA node) in
      if bytesPer = 0 then unat (wn_ByteLength node) else unat (wn_ByteLength node div bytesPer))"

subsection \<open>The inspector\<close>

text \<open>
  The counters and tables that change while a value is rendered. A rendering that
  stops has run out of the fuel of the model, or panics.
\<close>

datatype inspectStop = InspectFuel | InspectPanic string

record wireInspector =
  wi_nodes :: "32 word \<rightharpoonup> wireNode"
  wi_refCount :: "32 word \<Rightarrow> nat"
  wi_opts :: inspectOptions

record inspectState =
  is_labels :: "32 word \<rightharpoonup> nat"
  is_next :: nat
  is_rendered :: "32 word set"
  is_active :: "32 word set"

type_synonym 'a inspect = "inspectState \<Rightarrow> inspectStop + 'a \<times> inspectState"
type_synonym renderer = "wireValue \<Rightarrow> nat \<Rightarrow> string inspect"

definition countWireValueRefs :: "wireValue \<Rightarrow> (32 word \<Rightarrow> nat) \<Rightarrow> 32 word \<Rightarrow> nat" where
  "countWireValueRefs v refs = (if wv_Kind v = valueRef then refs(wv_Ref v := refs (wv_Ref v) + 1) else refs)"

definition countWireNodeRefs :: "wireNode \<Rightarrow> (32 word \<Rightarrow> nat) \<Rightarrow> 32 word \<Rightarrow> nat" where
  "countWireNodeRefs node refs =
     (let refs = fold (\<lambda>p. countWireValueRefs (wp_Value p)) (wn_Props node) refs;
          refs = fold (\<lambda>s. if ws_Present s then countWireValueRefs (ws_Value s) else (\<lambda>refs. refs)) (wn_Slots node) refs;
          refs = fold (\<lambda>e refs. countWireValueRefs (we_Value e) (countWireValueRefs (we_Key e) refs)) (wn_Entries node) refs;
          refs = fold countWireValueRefs (wn_Values node) refs in
      countWireValueRefs (wn_Cause node) (countWireValueRefs (wn_Promise node) (countWireValueRefs (wn_Buffer node) refs)))"

definition newWireInspector :: "wireGraph \<Rightarrow> inspectOptions \<Rightarrow> wireInspector" where
  "newWireInspector graph opts =
     \<lparr>wi_nodes = nodeByID (wg_Nodes graph),
      wi_refCount = fold countWireNodeRefs (wg_Nodes graph) (countWireValueRefs (wg_Root graph) (\<lambda>_. 0)),
      wi_opts = opts\<rparr>"

definition newInspectState :: inspectState where
  "newInspectState = \<lparr>is_labels = Map.empty, is_next = 0, is_rendered = {}, is_active = {}\<rparr>"

definition ibind :: "'a inspect \<Rightarrow> ('a \<Rightarrow> 'b inspect) \<Rightarrow> 'b inspect" where
  "ibind r k st = rbind (r st) (\<lambda>(x, st). k x st)"

definition iret :: "'a \<Rightarrow> 'a inspect" where
  "iret x st = Inr (x, st)"

definition ifail :: "inspectStop \<Rightarrow> 'a inspect" where
  "ifail e st = Inl e"

definition label :: "32 word \<Rightarrow> nat inspect" where
  "label ref st =
     (case is_labels st ref of
        Some l \<Rightarrow> Inr (l, st)
      | None \<Rightarrow> Inr (is_next st + 1, st\<lparr>is_next := is_next st + 1, is_labels := (is_labels st)(ref \<mapsto> is_next st + 1)\<rparr>))"

subsection \<open>Rendering\<close>

text \<open>The renderers take the renderer of the values inside as an argument.\<close>

definition renderPropsBlock :: "textLib \<Rightarrow> inspectOptions \<Rightarrow> renderer \<Rightarrow> wireProp list \<Rightarrow> nat \<Rightarrow> string inspect" where
  "renderPropsBlock T opts rv props depth =
     (let limit = minInt (length props) (maxProps opts) in
      ibind (smap (\<lambda>p. ibind (rv (wp_Value p) depth) (\<lambda>s. iret (formatPropKey T (wp_Key p) @ '': '' @ s))) (take limit props)) (\<lambda>parts.
      iret (''{'' @ joinWith '', '' (parts @ omitted (length props) limit) @ ''}'')))"

definition appendProps :: "textLib \<Rightarrow> inspectOptions \<Rightarrow> renderer \<Rightarrow> string \<Rightarrow> wireProp list \<Rightarrow> nat \<Rightarrow> string inspect" where
  "appendProps T opts rv base props depth =
     (if props = [] then iret base
      else ibind (renderPropsBlock T opts rv props depth) (\<lambda>s. iret (base @ '' '' @ s)))"

definition renderObject :: "textLib \<Rightarrow> inspectOptions \<Rightarrow> renderer \<Rightarrow> wireNode \<Rightarrow> nat \<Rightarrow> string inspect" where
  "renderObject T opts rv node depth =
     (let base = renderObjectBase (wn_TextA node) in
      if wn_Props node = [] then iret (base @ ''{}'')
      else ibind (renderPropsBlock T opts rv (wn_Props node) depth) (\<lambda>s. iret (base @ s)))"

definition renderArray :: "textLib \<Rightarrow> inspectOptions \<Rightarrow> renderer \<Rightarrow> wireNode \<Rightarrow> nat \<Rightarrow> string inspect" where
  "renderArray T opts rv node depth =
     (let slots = wn_Slots node; limit = minInt (length slots) (maxArrayItems opts) in
      ibind (smap (\<lambda>slot. if \<not> ws_Present slot then iret ''<hole>'' else rv (ws_Value slot) depth) (take limit slots)) (\<lambda>parts.
      appendProps T opts rv (''Array('' @ showNat (length slots) @ '')['' @ joinWith '', '' (parts @ omitted (length slots) limit) @ '']'')
        (wn_Props node) depth))"

definition renderMap :: "textLib \<Rightarrow> inspectOptions \<Rightarrow> renderer \<Rightarrow> wireNode \<Rightarrow> nat \<Rightarrow> string inspect" where
  "renderMap T opts rv node depth =
     (let entries = wn_Entries node; limit = minInt (length entries) (maxMapEntries opts) in
      ibind (smap (\<lambda>e. ibind (rv (we_Key e) depth) (\<lambda>k. ibind (rv (we_Value e) depth) (\<lambda>v. iret (k @ '' => '' @ v)))) (take limit entries)) (\<lambda>parts.
      appendProps T opts rv (''Map('' @ showNat (length entries) @ ''){'' @ joinWith '', '' (parts @ omitted (length entries) limit) @ ''}'')
        (wn_Props node) depth))"

definition renderSet :: "textLib \<Rightarrow> inspectOptions \<Rightarrow> renderer \<Rightarrow> wireNode \<Rightarrow> nat \<Rightarrow> string inspect" where
  "renderSet T opts rv node depth =
     (let vs = wn_Values node; limit = minInt (length vs) (maxSetValues opts) in
      ibind (smap (\<lambda>v. rv v depth) (take limit vs)) (\<lambda>parts.
      appendProps T opts rv (''Set('' @ showNat (length vs) @ ''){'' @ joinWith '', '' (parts @ omitted (length vs) limit) @ ''}'')
        (wn_Props node) depth))"

text \<open>
  A missing buffer is the zero node, which has no bytes. Slicing beyond the bytes
  panics: a decoded slice has no spare capacity.
\<close>

definition typedArrayWindow :: "wireInspector \<Rightarrow> wireNode \<Rightarrow> bytes inspect" where
  "typedArrayWindow i node =
     (let buffer = (case wi_nodes i (wv_Ref (wn_Buffer node)) of None \<Rightarrow> zeroNode | Some b \<Rightarrow> b);
          start = unat (wn_ByteOffset node); stop = start + unat (wn_ByteLength node) in
      if stop > length (wn_Bytes buffer) then ifail (InspectPanic ''runtime error: slice bounds out of range'')
      else iret (take (stop - start) (drop start (wn_Bytes buffer))))"

definition renderTypedArray :: "textLib \<Rightarrow> wireInspector \<Rightarrow> renderer \<Rightarrow> wireNode \<Rightarrow> nat \<Rightarrow> string inspect" where
  "renderTypedArray T i rv node depth =
     (let opts = wi_opts i in
      ibind (typedArrayWindow i node) (\<lambda>window.
      if wn_TextA node = ''DataView''
      then appendProps T opts rv (''DataView('' @ showWord (wn_ByteLength node) @ '' bytes '' @ formatHexBytes window (maxBytes opts) @ '')'')
        (wn_Props node) depth
      else let (parts, left) = renderTypedArraySample T (wn_TextA node) window (maxTypedElements opts) in
        appendProps T opts rv (wn_TextA node @ ''('' @ showNat (typedArrayLength node) @ '')['' @
          joinWith '', '' (parts @ (if left > 0 then [ellipsis @ ''+'' @ showNat left] else [])) @ '']'')
          (wn_Props node) depth))"

definition renderErrorBase :: "textLib \<Rightarrow> inspectOptions \<Rightarrow> renderer \<Rightarrow> wireNode \<Rightarrow> nat \<Rightarrow> string inspect" where
  "renderErrorBase T opts rv node depth =
     (let name = (if wn_TextA node = [] then ''Error'' else wn_TextA node);
          base = name @ ''('' @ renderString T opts (wn_TextB node) @ '')'' in
      if wv_Kind (wn_Cause node) \<noteq> valueUndefined \<and> wv_Kind (wn_Cause node) \<noteq> valueNull
      then ibind (rv (wn_Cause node) depth) (\<lambda>s. iret (base @ '' cause='' @ s))
      else iret base)"

definition renderDate :: "textLib \<Rightarrow> wireNode \<Rightarrow> string" where
  "renderDate T node = (if wn_DateValid node then ''Date('' @ tx_FormatMilli T (wn_DateMS node) @ '')'' else ''Date(invalid)'')"

definition renderCollapsedNode :: "textLib \<Rightarrow> wireInspector \<Rightarrow> renderer \<Rightarrow> wireNode \<Rightarrow> string inspect" where
  "renderCollapsedNode T i rv node =
     (case wn_Kind node of
        nodeObject \<Rightarrow> iret (renderObjectBase (wn_TextA node) @ (if wn_Props node = [] then ''{}'' else ''{'' @ ellipsis @ ''}''))
      | nodeArray \<Rightarrow> iret (''Array('' @ showNat (length (wn_Slots node)) @ '')['' @ ellipsis @ '']'')
      | nodeMap \<Rightarrow> iret (''Map('' @ showNat (length (wn_Entries node)) @ ''){'' @ ellipsis @ ''}'')
      | nodeSet \<Rightarrow> iret (''Set('' @ showNat (length (wn_Values node)) @ ''){'' @ ellipsis @ ''}'')
      | nodeDate \<Rightarrow> iret (renderDate T node)
      | nodeRegexp \<Rightarrow> iret (''/'' @ wn_TextA node @ ''/'' @ wn_TextB node)
      | nodeArrayBuffer \<Rightarrow> iret (''ArrayBuffer('' @ showNat (length (wn_Bytes node)) @ '' bytes)'')
      | nodeTypedArray \<Rightarrow>
          if wn_TextA node = ''DataView'' then iret (''DataView('' @ showWord (wn_ByteLength node) @ '' bytes)'')
          else iret (wn_TextA node @ ''('' @ showNat (typedArrayLength node) @ '')'')
      | nodePromise \<Rightarrow> iret (''Promise<'' @ ellipsis @ ''>'')
      | nodeError \<Rightarrow> renderErrorBase T (wi_opts i) rv node (maxDepth (wi_opts i)))"

definition renderNode :: "textLib \<Rightarrow> wireInspector \<Rightarrow> renderer \<Rightarrow> wireNode \<Rightarrow> nat \<Rightarrow> string inspect" where
  "renderNode T i rv node depth =
     (let opts = wi_opts i in
      if depth \<ge> maxDepth opts then renderCollapsedNode T i rv node
      else case wn_Kind node of
        nodeObject \<Rightarrow> renderObject T opts rv node (depth + 1)
      | nodeArray \<Rightarrow> renderArray T opts rv node (depth + 1)
      | nodeMap \<Rightarrow> renderMap T opts rv node (depth + 1)
      | nodeSet \<Rightarrow> renderSet T opts rv node (depth + 1)
      | nodeDate \<Rightarrow> appendProps T opts rv (renderDate T node) (wn_Props node) (depth + 1)
      | nodeRegexp \<Rightarrow> appendProps T opts rv (''/'' @ wn_TextA node @ ''/'' @ wn_TextB node) (wn_Props node) (depth + 1)
      | nodeArrayBuffer \<Rightarrow>
          appendProps T opts rv (''ArrayBuffer('' @ showNat (length (wn_Bytes node)) @ '' bytes '' @ formatHexBytes (wn_Bytes node) (maxBytes opts) @ '')'')
            (wn_Props node) (depth + 1)
      | nodeTypedArray \<Rightarrow> renderTypedArray T i rv node (depth + 1)
      | nodePromise \<Rightarrow> ibind (rv (wn_Promise node) (depth + 1)) (\<lambda>s. appendProps T opts rv (''Promise<'' @ s @ ''>'') (wn_Props node) (depth + 1))
      | nodeError \<Rightarrow> ibind (renderErrorBase T opts rv node (depth + 1)) (\<lambda>base. appendProps T opts rv base (wn_Props node) (depth + 1)))"

definition setRendered :: "32 word \<Rightarrow> unit inspect" where
  "setRendered ref st = Inr ((), st\<lparr>is_rendered := insert ref (is_rendered st)\<rparr>)"

definition setActive :: "32 word \<Rightarrow> bool \<Rightarrow> unit inspect" where
  "setActive ref b st = Inr ((), st\<lparr>is_active := (if b then insert ref (is_active st) else is_active st - {ref})\<rparr>)"

definition renderRef :: "textLib \<Rightarrow> wireInspector \<Rightarrow> renderer \<Rightarrow> 32 word \<Rightarrow> nat \<Rightarrow> string inspect" where
  "renderRef T i rv ref depth st =
     (case wi_nodes i ref of
        None \<Rightarrow> iret (''<missing-ref:'' @ showWord ref @ ''>'') st
      | Some node \<Rightarrow>
          if ref \<in> is_active st then ibind (label ref) (\<lambda>l. iret (''*'' @ showNat l)) st
          else if wi_refCount i ref > 1
          then (if ref \<in> is_rendered st then ibind (label ref) (\<lambda>l. iret (''*'' @ showNat l)) st
                else ibind (setRendered ref) (\<lambda>_. ibind (setActive ref True) (\<lambda>_. ibind (renderNode T i rv node depth) (\<lambda>body.
                  ibind (setActive ref False) (\<lambda>_. ibind (label ref) (\<lambda>l. iret (''&'' @ showNat l @ '' '' @ body)))))) st)
          else ibind (setActive ref True) (\<lambda>_. ibind (renderNode T i rv node depth) (\<lambda>body.
                  ibind (setActive ref False) (\<lambda>_. iret body))) st)"

fun renderValue :: "textLib \<Rightarrow> wireInspector \<Rightarrow> nat \<Rightarrow> renderer" where
  "renderValue T i 0 v depth = ifail InspectFuel"
| "renderValue T i (Suc fuel) v depth =
     (case wv_Kind v of
        valueUndefined \<Rightarrow> iret ''undefined''
      | valueNull \<Rightarrow> iret ''null''
      | valueBool \<Rightarrow> iret (if wv_Bool v then ''true'' else ''false'')
      | valueNumber \<Rightarrow> iret (formatNumber T (wv_Number v))
      | valueString \<Rightarrow> iret (renderString T (wi_opts i) (wv_Text v))
      | valueBigInt \<Rightarrow> iret (wv_Text v @ ''n'')
      | valueRef \<Rightarrow> renderRef T i (renderValue T i fuel) (wv_Ref v) depth)"

declare renderValue.simps [simp del]

subsection \<open>Describing a payload\<close>

record Inspection =
  Summary :: string
  Full :: string

datatype describeError = DescribeWire WireError | DescribeStop inspectStop

text \<open>The fuel: a value inside another is that of a node that is not yet active.\<close>

definition renderGraph :: "textLib \<Rightarrow> wireGraph \<Rightarrow> inspectOptions \<Rightarrow> inspectStop + string" where
  "renderGraph T graph opts =
     rbind (renderValue T (newWireInspector graph opts) (length (wg_Nodes graph) + 1) (wg_Root graph) 0 newInspectState) (\<lambda>(s, _). Inr s)"

definition Describe :: "textLib \<Rightarrow> musLib \<Rightarrow> bytes \<Rightarrow> describeError + Inspection" where
  "Describe T L raw =
     (if raw = [] then Inr \<lparr>Summary = [], Full = []\<rparr>
      else case unmarshalGraph L raw of
        Inl e \<Rightarrow> Inl (DescribeWire e)
      | Inr graph \<Rightarrow>
          (case (renderGraph T graph summaryInspectOptions, renderGraph T graph fullInspectOptions) of
             (Inl e, _) \<Rightarrow> Inl (DescribeStop e)
           | (_, Inl e) \<Rightarrow> Inl (DescribeStop e)
           | (Inr summary, Inr full) \<Rightarrow> Inr \<lparr>Summary = summary, Full = full\<rparr>))"

text \<open>A panic of the decoder or of the rendering is none of the errors that are displayed.\<close>

definition displayed :: "(WireError \<Rightarrow> string) \<Rightarrow> (Inspection \<Rightarrow> string) \<Rightarrow> describeError + Inspection \<Rightarrow> describeError + string" where
  "displayed errorText pick d =
     (case d of
        Inr inspection \<Rightarrow> Inr (pick inspection)
      | Inl (DescribeWire (Panic e)) \<Rightarrow> Inl (DescribeWire (Panic e))
      | Inl (DescribeWire e) \<Rightarrow> Inr (''<jswire-describe-error:'' @ errorText e @ ''>'')
      | Inl e \<Rightarrow> Inl e)"

definition DisplaySummary :: "textLib \<Rightarrow> (WireError \<Rightarrow> string) \<Rightarrow> musLib \<Rightarrow> bytes \<Rightarrow> describeError + string" where
  "DisplaySummary T errorText L v = displayed errorText Summary (Describe T L v)"

definition DisplayFull :: "textLib \<Rightarrow> (WireError \<Rightarrow> string) \<Rightarrow> musLib \<Rightarrow> bytes \<Rightarrow> describeError + string" where
  "DisplayFull T errorText L v = displayed errorText Full (Describe T L v)"

end
