(* ===== verification/Inspect_Claims.thy ===== *)
theory Inspect_Claims
  imports Wire_Inspect Wire_Append
begin

text \<open>
  Properties of the rendering of payloads: it ends and never panics on what the
  decoder accepts, cycles and shared nodes included.
\<close>

subsection \<open>Actions of the inspector\<close>

text \<open>
  The labels are numbered from 1 without gaps, and no two nodes have the same one.
  An action \<open>runs\<close> between two sets of active nodes if it gives a result, keeps
  this, and keeps the labels given before.
\<close>

definition labelsOK :: "inspectState \<Rightarrow> bool" where
  "labelsOK st \<longleftrightarrow> inj_on (is_labels st) (dom (is_labels st)) \<and> ran (is_labels st) = {1 .. is_next st}"

definition runs :: "32 word set \<Rightarrow> 32 word set \<Rightarrow> 'a inspect \<Rightarrow> bool" where
  "runs A B m \<longleftrightarrow> (\<forall>st. is_active st = A \<longrightarrow> labelsOK st \<longrightarrow>
     (\<exists>x st'. m st = Inr (x, st') \<and> is_active st' = B \<and> labelsOK st' \<and> is_labels st \<subseteq>\<^sub>m is_labels st'))"

named_theorems runs_intro

lemma runsE:
  assumes "runs A B m" and "is_active st = A" and "labelsOK st"
  obtains x st' where "m st = Inr (x, st')" "is_active st' = B" "labelsOK st'" "is_labels st \<subseteq>\<^sub>m is_labels st'"
  using assms unfolding runs_def by blast

lemma runs_iret [runs_intro]: "runs A A (iret x)"
  by (simp add: runs_def iret_def)

lemma runs_ibind:
  assumes "runs A B m" and "\<And>x. runs B C (k x)"
  shows "runs A C (ibind m k)"
  unfolding runs_def
proof (intro allI impI)
  fix st assume st: "is_active st = A" "labelsOK st"
  from assms(1) st obtain x st1 where 1: "m st = Inr (x, st1)" "is_active st1 = B" "labelsOK st1" "is_labels st \<subseteq>\<^sub>m is_labels st1"
    by (rule runsE)
  from assms(2) 1(2,3) obtain y st2 where "k x st1 = Inr (y, st2)" "is_active st2 = C" "labelsOK st2" "is_labels st1 \<subseteq>\<^sub>m is_labels st2"
    by (rule runsE)
  with 1 show "\<exists>x st'. ibind m k st = Inr (x, st') \<and> is_active st' = C \<and> labelsOK st' \<and> is_labels st \<subseteq>\<^sub>m is_labels st'"
    by (auto simp: ibind_def intro: map_le_trans)
qed

lemma runs_seq [runs_intro]: "runs A A m \<Longrightarrow> (\<And>x. runs A A (k x)) \<Longrightarrow> runs A A (ibind m k)"
  by (rule runs_ibind)

lemma smap_ibind: "smap f (x # xs) = ibind (f x) (\<lambda>y. ibind (smap f xs) (\<lambda>ys. iret (y # ys)))"
  by (rule ext) (auto simp: ibind_def iret_def intro!: rbind_cong)

lemma runs_smap [runs_intro]: "(\<And>x. x \<in> set xs \<Longrightarrow> runs A A (f x)) \<Longrightarrow> runs A A (smap f xs)"
proof (induction xs)
  case Nil
  have "smap f [] = iret []" by (rule ext) (simp add: iret_def)
  then show ?case by (simp add: runs_iret)
next
  case (Cons x xs)
  then show ?case unfolding smap_ibind by (intro runs_intro) auto
qed

lemma runs_if [runs_intro]: "(b \<Longrightarrow> runs A B m) \<Longrightarrow> (\<not> b \<Longrightarrow> runs A B m') \<Longrightarrow> runs A B (if b then m else m')"
  by simp

lemma labelsOK_label:
  assumes "labelsOK st" and new: "is_labels st ref = None"
  shows "labelsOK (st\<lparr>is_next := is_next st + 1, is_labels := (is_labels st)(ref \<mapsto> is_next st + 1)\<rparr>)"
proof -
  from assms have "inj_on (is_labels st) (dom (is_labels st))" and r: "ran (is_labels st) = {1 .. is_next st}" by (simp_all add: labelsOK_def)
  moreover have "is_labels st a \<noteq> Some (is_next st + 1)" for a
  proof
    assume "is_labels st a = Some (is_next st + 1)"
    then have "is_next st + 1 \<in> ran (is_labels st)" by (rule ranI)
    with r show False by simp
  qed
  ultimately have "inj_on ((is_labels st)(ref \<mapsto> is_next st + 1)) (insert ref (dom (is_labels st)))"
    unfolding inj_on_def by (auto simp: domIff)
  moreover have "insert (is_next st + 1) {1 .. is_next st} = {1 .. is_next st + 1}" by auto
  ultimately show ?thesis using new r by (simp add: labelsOK_def)
qed

lemma runs_label [runs_intro]: "runs A A (label ref)"
  unfolding runs_def
proof (intro allI impI)
  fix st assume "is_active st = A" "labelsOK st"
  then show "\<exists>x st'. label ref st = Inr (x, st') \<and> is_active st' = A \<and> labelsOK st' \<and> is_labels st \<subseteq>\<^sub>m is_labels st'"
    using labelsOK_label [of st ref] by (cases "is_labels st ref") (auto simp: label_def map_le_def dom_def)
qed

lemma runs_setRendered [runs_intro]: "runs A A (setRendered ref)"
  by (simp add: runs_def setRendered_def labelsOK_def)

lemma runs_activate: "runs A (insert ref A) (setActive ref True)"
  by (simp add: runs_def setActive_def labelsOK_def)

lemma runs_deactivate: "ref \<notin> A \<Longrightarrow> runs (insert ref A) A (setActive ref False)"
  by (simp add: runs_def setActive_def labelsOK_def)

subsection \<open>Rendering a node\<close>

definition windowsOK :: "wireInspector \<Rightarrow> bool" where
  "windowsOK i \<longleftrightarrow> (\<forall>ref node. wi_nodes i ref = Some node \<longrightarrow> wn_Kind node = nodeTypedArray \<longrightarrow>
     (\<exists>b. wi_nodes i (wv_Ref (wn_Buffer node)) = Some b \<and>
       unat (wn_ByteOffset node) + unat (wn_ByteLength node) \<le> length (wn_Bytes b)))"

lemma runs_window:
  assumes "windowsOK i" and "wi_nodes i ref = Some node" and "wn_Kind node = nodeTypedArray"
  shows "runs A A (typedArrayWindow i node)"
proof -
  from assms obtain b where "wi_nodes i (wv_Ref (wn_Buffer node)) = Some b"
    "\<not> unat (wn_ByteOffset node) + unat (wn_ByteLength node) > length (wn_Bytes b)" unfolding windowsOK_def by fastforce
  then show ?thesis by (simp add: typedArrayWindow_def Let_def runs_iret)
qed

lemma runs_propsBlock: "(\<And>v depth. runs A A (rv v depth)) \<Longrightarrow> runs A A (renderPropsBlock T opts rv props depth)"
  unfolding renderPropsBlock_def Let_def by (intro runs_intro)

lemma runs_appendProps: "(\<And>v depth. runs A A (rv v depth)) \<Longrightarrow> runs A A (appendProps T opts rv base props depth)"
  unfolding appendProps_def by (intro runs_intro runs_propsBlock)

lemma runs_errorBase: "(\<And>v depth. runs A A (rv v depth)) \<Longrightarrow> runs A A (renderErrorBase T opts rv node depth)"
  unfolding renderErrorBase_def Let_def by (intro runs_intro)

lemma runs_collapsed: "(\<And>v depth. runs A A (rv v depth)) \<Longrightarrow> runs A A (renderCollapsedNode T i rv node)"
  unfolding renderCollapsedNode_def
  by (cases "wn_Kind node") (simp_all add: runs_iret runs_errorBase)

lemma runs_node:
  assumes rv: "\<And>v depth. runs A A (rv v depth)" and "windowsOK i" and "wi_nodes i ref = Some node"
  shows "runs A A (renderNode T i rv node depth)"
proof (cases "depth \<ge> maxDepth (wi_opts i)")
  case True
  then show ?thesis by (simp add: renderNode_def runs_collapsed rv)
next
  case False
  have t: "runs A A (renderTypedArray T i rv node (depth + 1))" if "wn_Kind node = nodeTypedArray"
    unfolding renderTypedArray_def Let_def case_prod_beta
    by (intro runs_intro runs_appendProps rv runs_window [OF assms(2,3) that])
  show ?thesis
    by (cases "wn_Kind node"; simp only: renderNode_def renderObject_def renderArray_def renderMap_def renderSet_def Let_def False if_False nodeKind.case;
        intro runs_intro rv runs_propsBlock runs_appendProps runs_errorBase t)
qed

text \<open>With as much fuel as there are nodes that are not active, a value is rendered.\<close>

lemma runs_value:
  assumes win: "windowsOK i" and fin: "finite (dom (wi_nodes i))"
  shows "card (dom (wi_nodes i) - A) < fuel \<Longrightarrow> runs A A (renderValue T i fuel v depth)"
proof (induction fuel arbitrary: A v depth)
  case (Suc fuel)
  show ?case
  proof (cases "wv_Kind v = valueRef")
    case False
    then show ?thesis by (cases "wv_Kind v") (simp_all add: renderValue.simps runs_iret)
  next
    case ref: True
    let ?r = "wv_Ref v" and ?rv = "renderValue T i fuel"
    have "runs A A (renderRef T i ?rv ?r depth)"
    proof (cases "wi_nodes i ?r = None \<or> ?r \<in> A")
      case True
      have "runs A A (iret (''<missing-ref:'' @ showWord ?r @ ''>''))" "runs A A (ibind (label ?r) (\<lambda>l. iret (''*'' @ showNat l)))"
        by (intro runs_intro)+
      with True show ?thesis by (cases "wi_nodes i ?r") (auto simp: runs_def renderRef_def)
    next
      case False
      then obtain node where node: "wi_nodes i ?r = Some node" and new: "?r \<notin> A" by auto
      have "dom (wi_nodes i) - insert ?r A \<subset> dom (wi_nodes i) - A" using node new by blast
      then have "card (dom (wi_nodes i) - insert ?r A) < card (dom (wi_nodes i) - A)" using fin by (simp add: psubset_card_mono)
      with Suc have rv: "runs (insert ?r A) (insert ?r A) (?rv v depth)" for v depth by simp
      note body = runs_node [OF rv win node]
      have l: "runs A A (ibind (label ?r) (\<lambda>l. iret (''*'' @ showNat l)))" by (intro runs_intro)
      have s: "runs A A (ibind (setRendered ?r) (\<lambda>_. ibind (setActive ?r True) (\<lambda>_. ibind (renderNode T i ?rv node depth) (\<lambda>body.
          ibind (setActive ?r False) (\<lambda>_. ibind (label ?r) (\<lambda>l. iret (''&'' @ showNat l @ '' '' @ body)))))))"
        by (intro runs_seq runs_setRendered runs_ibind [OF runs_activate] runs_ibind [OF body] runs_ibind [OF runs_deactivate [OF new]] runs_label runs_iret)
      have o: "runs A A (ibind (setActive ?r True) (\<lambda>_. ibind (renderNode T i ?rv node depth) (\<lambda>body. ibind (setActive ?r False) (\<lambda>_. iret body))))"
        by (intro runs_ibind [OF runs_activate] runs_ibind [OF body] runs_ibind [OF runs_deactivate [OF new]] runs_iret)
      from l s o show ?thesis using node new unfolding runs_def renderRef_def by auto
    qed
    with ref show ?thesis by (simp add: renderValue.simps)
  qed
qed simp

subsection \<open>Decoded payloads\<close>

lemma decoded_windows:
  assumes "musLib_ok L" and "unmarshalGraph L raw = Inr g"
  shows "windowsOK (newWireInspector g opts)"
  unfolding windowsOK_def
proof (intro allI impI)
  fix ref node assume n: "wi_nodes (newWireInspector g opts) ref = Some node" "wn_Kind node = nodeTypedArray"
  note fits = unmarshalGraph_fits(1) [OF assms] and valid = unmarshalGraph_fits(2) [OF assms]
  from n(1) have "node \<in> set (wg_Nodes g)" by (auto simp: newWireInspector_def dest: nodeByID_Some)
  from validateGraph_window [OF valid this n(2)] fits obtain b where b: "b \<in> set (wg_Nodes g)" "wn_ID b = wv_Ref (wn_Buffer node)"
    "unat (wn_ByteOffset node) + unat (wn_ByteLength node) \<le> length (wn_Bytes b)"
    by (auto simp: windowIn_def fitsGraph_def fitsNode_def list_all_iff)
  then have "nodeByID (wg_Nodes g) (wv_Ref (wn_Buffer node)) = Some b"
    using nodeByID_in [of "wg_Nodes g" b] validateGraph_IDs [OF valid] by simp
  with b(3) show "\<exists>b. wi_nodes (newWireInspector g opts) (wv_Ref (wn_Buffer node)) = Some b \<and>
       unat (wn_ByteOffset node) + unat (wn_ByteLength node) \<le> length (wn_Bytes b)" by (auto simp: newWireInspector_def)
qed

lemma decoded_renders:
  assumes "musLib_ok L" and "unmarshalGraph L raw = Inr g"
  shows "\<exists>s st. renderValue T (newWireInspector g opts) (length (wg_Nodes g) + 1) (wg_Root g) 0 newInspectState = Inr (s, st) \<and> labelsOK st"
proof -
  let ?i = "newWireInspector g opts"
  have d: "dom (wi_nodes ?i) = wn_ID ` set (wg_Nodes g)"
    using nodeByID_None [of "wg_Nodes g"] by (simp add: newWireInspector_def dom_def)
  have "card (wn_ID ` set (wg_Nodes g)) \<le> length (wg_Nodes g)" using card_image_le card_length le_trans by blast
  then have "card (dom (wi_nodes ?i) - {}) < length (wg_Nodes g) + 1" by (simp add: d)
  from runs_value [OF decoded_windows [OF assms] _ this] have "runs {} {} (renderValue T ?i (length (wg_Nodes g) + 1) (wg_Root g) 0)" by (simp add: d)
  moreover have "is_active newInspectState = {}" "labelsOK newInspectState" by (simp_all add: newInspectState_def labelsOK_def)
  ultimately show ?thesis by (auto elim: runsE)
qed

text \<open>
  C34. Describing a payload fails only if decoding it does. Whatever the decoder
  accepts is rendered, with cycles, shared nodes and chains of error causes
  deeper than the options allow: the rendering ends and never slices beyond a buffer.
\<close>

theorem describe_fails_as_decoding:
  assumes "musLib_ok L" and "raw \<noteq> []"
  shows "case unmarshalGraph L raw of
      Inl e \<Rightarrow> Describe T L raw = Inl (DescribeWire e)
    | Inr g \<Rightarrow> \<exists>summary full. Describe T L raw = Inr \<lparr>Summary = summary, Full = full\<rparr>"
proof (cases "unmarshalGraph L raw")
  case (Inl e)
  with assms(2) show ?thesis by (simp add: Describe_def)
next
  case (Inr g)
  have "\<exists>s. renderGraph T g opts = Inr s" for opts
    using decoded_renders [OF assms(1) Inr, of T opts] by (auto simp: renderGraph_def)
  then obtain s f where "renderGraph T g summaryInspectOptions = Inr s" "renderGraph T g fullInspectOptions = Inr f" by blast
  with Inr assms(2) show ?thesis by (simp add: Describe_def)
qed

definition demo_text :: textLib where
  "demo_text = \<lparr>tx_Quote = quote, tx_IsLetter = (\<lambda>r. 97 \<le> r \<and> r \<le> 122), tx_IsDigit = (\<lambda>r. 48 \<le> r \<and> r \<le> 57),
     tx_FormatF0 = (\<lambda>_. ''0''), tx_FormatG = (\<lambda>_. ''0''), tx_FormatMilli = showWord\<rparr>"

theorem describe_fails_as_decoding_witness:
  "\<exists>raw inspection. unmarshalGraph lebLib raw = Inr demo_graph \<and> Describe demo_text lebLib raw = Inr inspection"
proof -
  obtain bs where bs: "unmarshalGraph lebLib bs = Inr demo_graph"
    using marshalGraph_bytes [OF lebLib_ok demo_graph_ok(1)] unmarshal_graphBytes [OF lebLib_ok demo_graph_ok(1)]
    by (auto simp: demo_graph_ok)
  then have "bs \<noteq> []" by (auto simp: unmarshalGraph_def)
  from describe_fails_as_decoding [OF lebLib_ok this, of demo_text] bs show ?thesis by auto
qed

text \<open>
  The rendering is not bounded by its options: the text of a BigInt, among others,
  is not clipped.
\<close>

lemma bigint_not_clipped:
  "renderGraph T \<lparr>wg_Root = zeroValue\<lparr>wv_Kind := valueBigInt, wv_Text := digits\<rparr>, wg_Nodes = []\<rparr> opts = Inr (digits @ ''n'')"
  by (simp add: renderGraph_def renderValue.simps iret_def)

end
