(* ===== verification/Ts_Check.thy ===== *)
theory Ts_Check
  imports Session
begin

text \<open>
  The TypeScript session of \<open>src/typescript/typescript.go\<close>: the text that is
  checked, the cached check session, the conversion of diagnostics and the emitted
  JavaScript. The checker (\<open>tstoolbox\<close>) and esbuild are parameters.
\<close>

subsection \<open>Parameters\<close>

record unsupportedSyntax =
  us_File :: string
  us_Pos :: int

record toolDiagnostic =
  td_Message :: string
  td_File :: string
  td_Pos :: int

record checkInput =
  ci_EntryText :: string
  ci_ConfigText :: string
  ci_Entry :: string
  ci_CurrentDirectory :: string

record replCellCheckResult =
  rc_UnsupportedSyntax :: "unsupportedSyntax list"
  rc_Diagnostics :: "toolDiagnostic list"

text \<open>
  A check gives its result or an error, and the check session to keep, which may
  be nil. \<open>tl_Transform\<close> gives the texts of the errors of esbuild and the code.
\<close>

record 'c toolLib =
  tl_ReplCellCheck :: "checkInput \<Rightarrow> 'c option \<Rightarrow> (string + replCellCheckResult) \<times> 'c option"
  tl_Close :: "'c \<Rightarrow> string option"
  tl_Transform :: "string \<Rightarrow> string list \<times> string"

subsection \<open>The checked text\<close>

definition newline :: string where "newline = [CHR 0x0A]"

definition entryFile :: string where "entryFile = ''__repl_cell.ts''"

definition moduleMarker :: string where "moduleMarker = ''export {};'' @ newline"

definition builtinDeclarations :: string where
  "builtinDeclarations = newline @ ''declare const $last: any;'' @ newline @
     ''declare function $val(index: number): any;'' @ newline @
     ''declare function inspect(...args: any[]): string;'' @ newline @
     ''declare const console: {'' @ newline @ ''  log(...args: any[]): void;'' @ newline @ ''};'' @ newline"

definition replTSConfig :: string where
  "replTSConfig = concat (map (\<lambda>l. l @ newline) [''{'', ''  ''@quote ''compilerOptions''@'': {'',
      ''    ''@quote ''strict''@'': true,'', ''    ''@quote ''noImplicitAny''@'': false,'',
      ''    ''@quote ''module''@'': ''@quote ''esnext''@'','', ''    ''@quote ''target''@'': ''@quote ''esnext''@'','',
      ''    ''@quote ''moduleResolution''@'': ''@quote ''bundler''@'','', ''    ''@quote ''allowImportingTsExtensions''@'': true,'',
      ''    ''@quote ''noErrorTruncation''@'': true'', ''  }'']) @ ''}''"

definition HasSuffix :: "string \<Rightarrow> string \<Rightarrow> bool" where
  "HasSuffix s suffix \<longleftrightarrow> length suffix \<le> length s \<and> drop (length s - length suffix) s = suffix"

definition normalizeEnv :: "tsEnv \<Rightarrow> tsEnv" where
  "normalizeEnv env =
     env\<lparr>te_EpochTS := builtinDeclarations @ (if isBlank (te_EpochTS env) then [] else newline @ te_EpochTS env),
         te_Hash := (if te_Hash env = [] then ''builtin-v1'' else ''builtin-v1|'' @ te_Hash env)\<rparr>"

text \<open>A text with a final line break, and what a committed cell adds to the builder.\<close>

definition endLine :: "string \<Rightarrow> string" where
  "endLine s = (if HasSuffix s newline then s else s @ newline)"

definition appendCommittedCell :: "string \<Rightarrow> string \<Rightarrow> string" where
  "appendCommittedCell b src = b @ endLine src @ '';'' @ newline"

definition buildTypecheckEntry :: "string \<Rightarrow> string list \<Rightarrow> string \<Rightarrow> string \<times> nat" where
  "buildTypecheckEntry prelude committed current =
     (let b = moduleMarker @ (if prelude = [] then [] else endLine prelude);
          b = foldl appendCommittedCell b committed in
      (b @ current, length b))"

definition filesForEnv :: "tsEnv \<Rightarrow> string \<Rightarrow> checkInput" where
  "filesForEnv env entry =
     \<lparr>ci_EntryText = entry, ci_ConfigText = replTSConfig, ci_Entry = entryFile, ci_CurrentDirectory = te_CurrentDir env\<rparr>"

definition emitCell :: "'c toolLib \<Rightarrow> string \<Rightarrow> string \<Rightarrow> string + string" where
  "emitCell L epoch src =
     (case tl_Transform L ((if epoch = [] then [] else endLine epoch) @ src) of
        (e # _, _) \<Rightarrow> Inl (''typescript emit failed: '' @ e)
      | ([], code) \<Rightarrow> Inr code)"

subsection \<open>Diagnostics\<close>

fun lineColumnStep :: "char \<Rightarrow> int \<times> int \<Rightarrow> int \<times> int" where
  "lineColumnStep c (line, column) = (if c = CHR 0x0A then (line + 1, 1) else (line, column + 1))"

definition lineColumnAt :: "string \<Rightarrow> int \<Rightarrow> int \<times> int" where
  "lineColumnAt src pos =
     (if pos \<le> 0 then (1, 1)
      else let pos = (if pos > int (length src) then int (length src) else pos) in
        fold lineColumnStep (take (nat pos) src) (1, 1))"

text \<open>\<open>filepath.Base\<close>.\<close>

definition Base :: "string \<Rightarrow> string" where
  "Base path =
     (if path = [] then ''.''
      else let stripped = rev (dropWhile (\<lambda>c. c = CHR ''/'') (rev path)) in
        if stripped = [] then ''/'' else rev (takeWhile (\<lambda>c. c \<noteq> CHR ''/'') (rev stripped)))"

definition atLeastOne :: "int \<Rightarrow> int" where "atLeastOne n = (if n < 1 then 1 else n)"

definition convertDiagnostic :: "string \<Rightarrow> string \<Rightarrow> int \<times> int \<Rightarrow> toolDiagnostic \<Rightarrow> Diagnostic" where
  "convertDiagnostic entry fullSource current diagnostic = (case current of (currentLine, currentColumn) \<Rightarrow>
     (let item = \<lparr>dg_Message = td_Message diagnostic, dg_Severity = ''error'', dg_Line = 0, dg_Column = 0\<rparr> in
      if td_File diagnostic = entry \<or> Base (td_File diagnostic) = entry
      then (case lineColumnAt fullSource (td_Pos diagnostic) of (line, column) \<Rightarrow>
        item\<lparr>dg_Line := atLeastOne (line - currentLine + 1),
             dg_Column := atLeastOne (if line = currentLine then column - currentColumn + 1 else column)\<rparr>)
      else item))"

definition convertDiagnostics :: "toolDiagnostic list \<Rightarrow> string \<Rightarrow> string \<Rightarrow> int \<Rightarrow> Diagnostic list" where
  "convertDiagnostics ds entry fullSource currentOffset =
     map (convertDiagnostic entry fullSource (lineColumnAt fullSource currentOffset)) ds"

definition unsupportedMessage :: string where
  "unsupportedMessage = ''TypeScript namespace/module declarations are not supported in REPL cells because their runtime emit is not replay-safe across cells. Use plain objects, functions, or classes instead.''"

fun convertUnsupportedSyntax :: "unsupportedSyntax list \<Rightarrow> string \<Rightarrow> string \<Rightarrow> int \<Rightarrow> Diagnostic option" where
  "convertUnsupportedSyntax [] entry fullSource currentOffset = None"
| "convertUnsupportedSyntax (item # items) entry fullSource currentOffset =
     (if us_File item \<noteq> entry \<and> Base (us_File item) \<noteq> entry then convertUnsupportedSyntax items entry fullSource currentOffset
      else case (lineColumnAt fullSource (us_Pos item), lineColumnAt fullSource currentOffset) of
        ((line, column), (currentLine, currentColumn)) \<Rightarrow>
          (let line = line - currentLine + 1; column = (if line = 1 then column - currentColumn + 1 else column) in
           Some \<lparr>dg_Message = unsupportedMessage, dg_Severity = ''error'', dg_Line = atLeastOne line, dg_Column = atLeastOne column\<rparr>))"

subsection \<open>The session\<close>

record 'c tsSession =
  ts_checkSession :: "'c option"
  ts_envHash :: string
  ts_history :: "string list"

definition NewTsSession :: "'c tsSession" where
  "NewTsSession = \<lparr>ts_checkSession = None, ts_envHash = [], ts_history = []\<rparr>"

definition CloseTsSession :: "'c toolLib \<Rightarrow> 'c tsSession \<Rightarrow> string option \<times> 'c tsSession" where
  "CloseTsSession L s =
     (case ts_checkSession s of
        Some c \<Rightarrow> (tl_Close L c, s\<lparr>ts_checkSession := None\<rparr>)
      | None \<Rightarrow> (None, s))"

definition SetCommittedSources :: "string list \<Rightarrow> 'c tsSession \<Rightarrow> 'c tsSession" where
  "SetCommittedSources srcs s = s\<lparr>ts_history := srcs\<rparr>"

definition AppendCommittedSource :: "string \<Rightarrow> 'c tsSession \<Rightarrow> 'c tsSession" where
  "AppendCommittedSource src s = s\<lparr>ts_history := ts_history s @ [src]\<rparr>"

text \<open>The check, with a new check session if there is none or the environment is another.\<close>

definition runCheck :: "'c toolLib \<Rightarrow> checkInput \<Rightarrow> string \<Rightarrow> 'c tsSession \<Rightarrow> (string + replCellCheckResult) \<times> 'c tsSession" where
  "runCheck L input hash s =
     (if ts_checkSession s = None \<or> ts_envHash s \<noteq> hash
      then (case tl_ReplCellCheck L input None of
          (Inl e, c) \<Rightarrow> (Inl e, s\<lparr>ts_checkSession := c\<rparr>)
        | (Inr r, c) \<Rightarrow> (Inr r, s\<lparr>ts_checkSession := c, ts_envHash := hash\<rparr>))
      else (case tl_ReplCellCheck L input (ts_checkSession s) of (r, c) \<Rightarrow> (r, s\<lparr>ts_checkSession := c\<rparr>)))"

definition checkedResult :: "'c toolLib \<Rightarrow> tsEnv \<Rightarrow> string \<Rightarrow> string \<times> nat \<Rightarrow> replCellCheckResult \<Rightarrow> string + tsResult" where
  "checkedResult L env src entry r = (case entry of (prefix, currentOffset) \<Rightarrow>
     (case convertUnsupportedSyntax (rc_UnsupportedSyntax r) entryFile prefix (int currentOffset) of
        Some diagnostic \<Rightarrow> Inr \<lparr>tn_Diagnostics = [diagnostic], tn_EmittedJS = [], tn_HasErrors = True\<rparr>
      | None \<Rightarrow>
          (let converted = convertDiagnostics (rc_Diagnostics r) entryFile prefix (int currentOffset) in
           rbind (emitCell L (te_EpochTS env) src) (\<lambda>emitted.
           Inr \<lparr>tn_Diagnostics = converted, tn_EmittedJS = emitted, tn_HasErrors = converted \<noteq> []\<rparr>))))"

definition CheckEmitCell :: "'c toolLib \<Rightarrow> tsEnv \<Rightarrow> string \<Rightarrow> 'c tsSession \<Rightarrow> (string + tsResult) \<times> 'c tsSession" where
  "CheckEmitCell L env src s =
     (let env = normalizeEnv env;
          env = (if te_CurrentDir env = [] then env\<lparr>te_CurrentDir := ''/''\<rparr> else env);
          entry = buildTypecheckEntry (te_EpochTS env) (ts_history s) src in
      case runCheck L (filesForEnv env (fst entry)) (te_Hash env) s of
        (Inl e, s) \<Rightarrow> (Inl e, s)
      | (Inr r, s) \<Rightarrow> (checkedResult L env src entry r, s))"

end
