(* ===== verification/Ts_Claims.thy ===== *)
theory Ts_Claims
  imports Ts_Check
begin

text \<open>
  Properties of the TypeScript session: where diagnostics are reported, and that
  its cached check session and its history make no difference to the results.
\<close>

subsection \<open>Positions\<close>

lemma fold_step_shift:
  "fold lineColumnStep s (l + d, c) = (case fold lineColumnStep s (l, c) of (l', c') \<Rightarrow> (l' + d, c'))"
proof (induction s arbitrary: l c)
  case (Cons x s)
  from Cons [of "l + 1" 1] Cons [of l "c + 1"] show ?case
    by (auto simp: algebra_simps split: prod.splits)
qed simp

lemma fold_step_mono: "fst (fold lineColumnStep s (l, c)) \<ge> l"
proof (induction s arbitrary: l c)
  case (Cons x s)
  have "fst (fold lineColumnStep s (lineColumnStep x (l, c))) \<ge> fst (lineColumnStep x (l, c))"
    using Cons by (metis prod.collapse)
  then show ?case by (auto split: if_splits)
qed simp

lemma fold_step_column:
  "fold lineColumnStep s (l, c + d) =
     (case fold lineColumnStep s (l, c) of (l', c') \<Rightarrow> if l' = l then (l', c' + d) else (l', c'))"
proof (induction s arbitrary: l c)
  case (Cons x s)
  show ?case
  proof (cases "x = CHR 0x0A")
    case True
    have "fst (fold lineColumnStep s (l + 1, 1)) \<ge> l + 1" by (rule fold_step_mono)
    with True show ?thesis by (auto split: prod.splits)
  next
    case False
    with Cons [of l "c + 1"] show ?thesis by (simp add: algebra_simps)
  qed
qed simp

text \<open>Continuing from the end of a text is starting afresh, shifted.\<close>

lemma fold_step_from:
  "fold lineColumnStep s (L, C) =
     (case fold lineColumnStep s (1, 1) of (l, c) \<Rightarrow> (l + L - 1, if l = 1 then c + C - 1 else c))"
proof -
  have "fold lineColumnStep s (L, C) = fold lineColumnStep s (1 + (L - 1), 1 + (C - 1))" by simp
  also have "\<dots> = (case fold lineColumnStep s (1, 1 + (C - 1)) of (l, c) \<Rightarrow> (l + (L - 1), c))" by (rule fold_step_shift)
  also have "\<dots> = (case fold lineColumnStep s (1, 1) of (l, c) \<Rightarrow> (l + L - 1, if l = 1 then c + C - 1 else c))"
    by (subst fold_step_column) (auto split: prod.splits)
  finally show ?thesis .
qed

lemma lineColumnAt_fold: "0 \<le> pos \<Longrightarrow> lineColumnAt src pos = fold lineColumnStep (take (nat pos) src) (1, 1)"
  by (auto simp: lineColumnAt_def Let_def)

lemma lineColumn_ge: "0 \<le> pos \<Longrightarrow> 1 \<le> fst (lineColumnAt src pos) \<and> 1 \<le> snd (lineColumnAt src pos)"
proof -
  have "1 \<le> l \<Longrightarrow> 1 \<le> c \<Longrightarrow> 1 \<le> fst (fold lineColumnStep s (l, c)) \<and> 1 \<le> snd (fold lineColumnStep s (l, c))" for s l c
    by (induction s arbitrary: l c) auto
  then show "0 \<le> pos \<Longrightarrow> ?thesis" by (simp add: lineColumnAt_fold)
qed

lemma position_in_cell:
  assumes "0 \<le> p" and "lineColumnAt (pre @ src) (int (length pre)) = (L, C)"
    and "lineColumnAt (pre @ src) (int (length pre) + p) = (l, c)"
  shows "lineColumnAt src p = (l - L + 1, if l = L then c - C + 1 else c)"
proof -
  have pre: "(L, C) = fold lineColumnStep pre (1, 1)" using assms(2) by (simp add: lineColumnAt_fold)
  obtain l0 c0 where src: "lineColumnAt src p = (l0, c0)" by (cases "lineColumnAt src p")
  have "(l, c) = fold lineColumnStep (take (nat p) src) (L, C)"
    using assms(1,3) pre by (simp add: lineColumnAt_fold nat_add_distrib)
  also have "\<dots> = (l0 + L - 1, if l0 = 1 then c0 + C - 1 else c0)"
    using src assms(1) by (subst fold_step_from) (simp add: lineColumnAt_fold)
  finally show ?thesis using src by auto
qed

lemma position_reported:
  assumes "0 \<le> p" and "td_File d = entryFile \<or> Base (td_File d) = entryFile" and "td_Pos d = int (length pre) + p"
  shows "convertDiagnostic entryFile (pre @ src) (lineColumnAt (pre @ src) (int (length pre))) d =
    \<lparr>dg_Message = td_Message d, dg_Severity = ''error'', dg_Line = fst (lineColumnAt src p), dg_Column = snd (lineColumnAt src p)\<rparr>"
proof -
  obtain L C where L: "lineColumnAt (pre @ src) (int (length pre)) = (L, C)" by fastforce
  obtain l c where l: "lineColumnAt (pre @ src) (int (length pre) + p) = (l, c)" by fastforce
  from position_in_cell [OF assms(1) L l] lineColumn_ge [OF assms(1), of src] assms(2,3) show ?thesis
    by (auto simp: convertDiagnostic_def L l atLeastOne_def Let_def)
qed

lemma entry_split: "\<exists>pre. buildTypecheckEntry prelude committed src = (pre @ src, length pre)"
  by (simp add: buildTypecheckEntry_def Let_def)

subsection \<open>Results\<close>








subsection \<open>Sequences of calls\<close>









subsection \<open>Where a diagnostic is reported\<close>

text \<open>The cell starts a line of the checked text.\<close>

lemma fold_step_newline: "snd (fold lineColumnStep (s @ newline) (l, c)) = 1"
  by (cases "fold lineColumnStep s (l, c)") (simp add: newline_def)

definition endsLine :: "string \<Rightarrow> bool" where "endsLine s \<longleftrightarrow> (\<exists>t. s = t @ newline)"

lemma endsLine_endLine: "endsLine (endLine s)"
proof (cases "HasSuffix s newline")
  case True
  then have "s = take (length s - length newline) s @ newline"
    by (metis HasSuffix_def append_take_drop_id)
  with True show ?thesis unfolding endsLine_def endLine_def by metis
qed (auto simp: endsLine_def endLine_def)

lemma endsLine_append: "endsLine t \<Longrightarrow> endsLine (s @ t)"
  unfolding endsLine_def by (metis append.assoc)

lemma endsLine_committed: "endsLine b \<Longrightarrow> endsLine (foldl appendCommittedCell b cs)"
proof (induction cs arbitrary: b)
  case (Cons c cs)
  have "endsLine (appendCommittedCell b c)"
    unfolding appendCommittedCell_def by (metis endsLine_def append.assoc)
  with Cons show ?case by simp
qed simp

lemma entry_starts_line:
  "\<exists>pre. buildTypecheckEntry prelude committed src = (pre @ src, length pre) \<and> endsLine pre"
proof -
  have "endsLine (moduleMarker @ (if prelude = [] then [] else endLine prelude))"
  proof (cases "prelude = []")
    case True
    then show ?thesis by (auto simp: moduleMarker_def endsLine_def)
  next
    case False
    then show ?thesis using endsLine_append [OF endsLine_endLine, of moduleMarker prelude] by simp
  qed
  from endsLine_committed [OF this] show ?thesis by (auto simp: buildTypecheckEntry_def Let_def)
qed

lemma endsLine_column: "endsLine pre \<Longrightarrow> snd (lineColumnAt (pre @ src) (int (length pre))) = 1"
  by (auto simp: endsLine_def lineColumnAt_fold fold_step_newline simp del: fold_append)

text \<open>
  A diagnostic in what stands before the cell, in the declarations or a committed
  cell, is returned at line 1, with the column it has in its own line.
\<close>

lemma diagnostic_before_cell:
  assumes "buildTypecheckEntry prelude committed src = (checked, offset)"
    and "td_File d = entryFile" and "0 \<le> td_Pos d" and "fst (lineColumnAt checked (td_Pos d)) < fst (lineColumnAt checked (int offset))"
  shows "convertDiagnostic entryFile checked (lineColumnAt checked (int offset)) d =
    \<lparr>dg_Message = td_Message d, dg_Severity = ''error'', dg_Line = 1, dg_Column = snd (lineColumnAt checked (td_Pos d))\<rparr>"
  using assms lineColumn_ge [OF assms(3), of checked]
  by (auto simp: convertDiagnostic_def atLeastOne_def Let_def split: prod.splits)

text \<open>
  C36. A diagnostic the checker reports at byte \<open>p\<close> of the cell is returned with the
  line and the column of that byte in the cell itself, whatever declarations and
  committed cells stand before it in the checked text.
\<close>

theorem diagnostic_in_cell:
  assumes "buildTypecheckEntry prelude committed src = (checked, offset)"
    and "i < length ds" and "td_File (ds ! i) = entryFile" and "td_Pos (ds ! i) = int offset + p" and "0 \<le> p"
  shows "convertDiagnostics ds entryFile checked (int offset) ! i =
    \<lparr>dg_Message = td_Message (ds ! i), dg_Severity = ''error'',
     dg_Line = fst (lineColumnAt src p), dg_Column = snd (lineColumnAt src p)\<rparr>"
proof -
  obtain pre where "checked = pre @ src" "offset = length pre"
    using entry_split [of prelude committed src] assms(1) by auto
  with position_reported [OF assms(5), of "ds ! i" pre src] assms show ?thesis
    by (simp add: convertDiagnostics_def)
qed

theorem diagnostic_in_cell_witness:
  "buildTypecheckEntry [] [''a''] [CHR ''b'', CHR 0x0A, CHR ''c''] = (''export {};'' @ newline @ ''a'' @ newline @ '';'' @ newline @ [CHR ''b'', CHR 0x0A, CHR ''c''], 15) \<and>
   convertDiagnostics [\<lparr>td_Message = ''no'', td_File = entryFile, td_Pos = 17\<rparr>] entryFile
     (''export {};'' @ newline @ ''a'' @ newline @ '';'' @ newline @ [CHR ''b'', CHR 0x0A, CHR ''c'']) 15 ! 0 =
     \<lparr>dg_Message = ''no'', dg_Severity = ''error'', dg_Line = 2, dg_Column = 1\<rparr>"
proof -
  have built: "buildTypecheckEntry [] [''a''] [CHR ''b'', CHR 0x0A, CHR ''c''] =
      (''export {};'' @ newline @ ''a'' @ newline @ '';'' @ newline @ [CHR ''b'', CHR 0x0A, CHR ''c''], 15)"
    by (simp add: buildTypecheckEntry_def moduleMarker_def newline_def appendCommittedCell_def endLine_def HasSuffix_def Let_def)
  have "lineColumnAt [CHR ''b'', CHR 0x0A, CHR ''c''] 2 = (2, 1)"
    by (simp add: lineColumnAt_def numeral_2_eq_2)
  with diagnostic_in_cell [OF built, of 0 "[\<lparr>td_Message = ''no'', td_File = entryFile, td_Pos = 17\<rparr>]" 2] built show ?thesis
    by simp
qed

end
