(* ===== verification/Goja_Encode.thy ===== *)
theory Goja_Encode
  imports Wire_Patch
begin

text \<open>
  The encoder from values of the JavaScript engine goja to value graphs:
  \<open>EncodeGoja\<close> of \<open>src/jswire/bridge.go\<close>. The engine is a parameter
  (\<open>gojaEngine\<close>) that answers from a heap, and every call of it may change the
  heap: a property may have a getter. A pointer of goja is an object \<open>'o\<close>. What
  the code finds by reflection in the memory of goja (\<open>gojaObjectImplName\<close>,
  \<open>gojaHasAccessorProperty\<close>) is an answer of the engine too.
\<close>

subsection \<open>Values and the engine\<close>

datatype primitive = PBool bool | PString string | PInt "64 word" | PFloat float64 | PBigInt int | POther string

datatype gojaPromiseState = PromiseStatePending | PromiseStateFulfilled | PromiseStateRejected

text \<open>A \<open>goja.Value\<close>: the nil interface, or a value; a primitive is what its \<open>Export\<close> gives.\<close>

datatype 'o gojaValue = NilValue | UndefinedValue | NullValue | SymbolValue | PrimitiveValue primitive | ObjectValue 'o

text \<open>What an object exports; a pointer to a promise with its state and its result.\<close>

datatype 'o exported =
    ExportPrimitive primitive
  | ExportTime goTime
  | ExportTimePointer "goTime option"
  | ExportArrayBuffer bytes
  | ExportPromise "(gojaPromiseState \<times> 'o gojaValue) option"
  | ExportPromiseStruct
  | ExportOther string

text \<open>
  The left result of a call is the text of what was thrown, which is a panic
  except in \<open>gj_Call\<close>, \<open>gj_New\<close>, \<open>gj_Set\<close>, \<open>gj_SetKeepAlive\<close> and \<open>gj_Resolve\<close>, which
  return an error.
\<close>

record ('o, 'h) gojaEngine =
  gj_Export :: "'o \<Rightarrow> 'h \<Rightarrow> string + 'o exported \<times> 'h"
  gj_ToObject :: "primitive \<Rightarrow> 'h \<Rightarrow> string + 'o \<times> 'h"
  gj_ClassName :: "'o \<Rightarrow> 'h \<Rightarrow> string"
  gj_ImplName :: "'o \<Rightarrow> 'h \<Rightarrow> string"
  gj_HasAccessor :: "'o \<Rightarrow> string \<Rightarrow> 'h \<Rightarrow> bool"
  gj_Get :: "'o \<Rightarrow> string \<Rightarrow> 'h \<Rightarrow> string + 'o gojaValue \<times> 'h"
  gj_GetOwnPropertyNames :: "'o \<Rightarrow> 'h \<Rightarrow> string + string list \<times> 'h"
  gj_Keys :: "'o \<Rightarrow> 'h \<Rightarrow> string + string list \<times> 'h"
  gj_String :: "'o gojaValue \<Rightarrow> 'h \<Rightarrow> string + string \<times> 'h"
  gj_ToInteger :: "'o gojaValue \<Rightarrow> 'h \<Rightarrow> string + 64 word \<times> 'h"
  gj_ToBoolean :: "'o gojaValue \<Rightarrow> bool"
  gj_Callable :: "'o \<Rightarrow> 'h \<Rightarrow> bool"
  gj_Call :: "'o \<Rightarrow> 'o gojaValue \<Rightarrow> 'o gojaValue list \<Rightarrow> 'h \<Rightarrow> string + 'o gojaValue \<times> 'h"
  gj_NewObject :: "'h \<Rightarrow> 'o \<times> 'h"
  gj_NewArray :: "'h \<Rightarrow> 'o \<times> 'h"
  gj_NewPromise :: "'h \<Rightarrow> 'o \<times> 'h"
  gj_Global :: "string \<Rightarrow> 'h \<Rightarrow> string + 'o gojaValue \<times> 'h"
  gj_New :: "'o gojaValue \<Rightarrow> 'o gojaValue list \<Rightarrow> 'h \<Rightarrow> (string + 'o) \<times> 'h"
  gj_Set :: "'o \<Rightarrow> string \<Rightarrow> 'o gojaValue \<Rightarrow> 'h \<Rightarrow> string + unit \<times> 'h"
  gj_SetKeepAlive :: "'o \<Rightarrow> 'o gojaValue \<Rightarrow> 'h \<Rightarrow> string + unit \<times> 'h"
  gj_Resolve :: "'o \<Rightarrow> 'o gojaValue \<Rightarrow> 'h \<Rightarrow> string + unit \<times> 'h"
  gj_ToValue :: "primitive \<Rightarrow> 'o gojaValue"

text \<open>\<open>EngineError\<close> is an error the engine returned; \<open>BridgeFuel\<close> is a loop that did not end.\<close>

datatype bridgeFailure = BridgeError string | EngineError string | BridgePanic string | BridgeWire WireError | NilDereference | BridgeFuel

subsection \<open>Steps that thread a state\<close>

definition gbind :: "('s \<Rightarrow> bridgeFailure + 'a \<times> 's) \<Rightarrow> ('a \<Rightarrow> 's \<Rightarrow> bridgeFailure + 'b \<times> 's) \<Rightarrow> 's \<Rightarrow> bridgeFailure + 'b \<times> 's" where
  "gbind f g s = rbind (f s) (\<lambda>(x, s). g x s)"

definition gret :: "'a \<Rightarrow> 's \<Rightarrow> bridgeFailure + 'a \<times> 's" where "gret x s = Inr (x, s)"

definition gfail :: "bridgeFailure \<Rightarrow> 's \<Rightarrow> bridgeFailure + 'a \<times> 's" where "gfail e s = Inl e"

record ('o, 'h) gojaEncoder =
  ge_seen :: "'o \<rightharpoonup> 32 word"
  ge_nextID :: "32 word"
  ge_nodes :: "wireNode list"
  ge_heap :: 'h

text \<open>A call of the engine that panics, or returns an error, where it fails.\<close>

definition calling :: "(string \<Rightarrow> bridgeFailure) \<Rightarrow> ('h \<Rightarrow> string + 'a \<times> 'h) \<Rightarrow> ('o, 'h) gojaEncoder \<Rightarrow> bridgeFailure + 'a \<times> ('o, 'h) gojaEncoder" where
  "calling fail f e = (case f (ge_heap e) of Inl t \<Rightarrow> Inl (fail t) | Inr (x, h) \<Rightarrow> Inr (x, e\<lparr>ge_heap := h\<rparr>))"

definition asking :: "('h \<Rightarrow> 'a) \<Rightarrow> ('o, 'h) gojaEncoder \<Rightarrow> bridgeFailure + 'a \<times> ('o, 'h) gojaEncoder" where
  "asking f e = Inr (f (ge_heap e), e)"

type_synonym ('o, 'h, 'a) encoding = "('o, 'h) gojaEncoder \<Rightarrow> bridgeFailure + 'a \<times> ('o, 'h) gojaEncoder"

text \<open>Methods of a value: on the nil interface they panic.\<close>

definition gojaString :: "('o, 'h) gojaEngine \<Rightarrow> 'o gojaValue \<Rightarrow> ('o, 'h, string) encoding" where
  "gojaString G v = (if v = NilValue then gfail NilDereference else calling BridgePanic (gj_String G v))"

definition gojaInteger :: "('o, 'h) gojaEngine \<Rightarrow> 'o gojaValue \<Rightarrow> ('o, 'h, 64 word) encoding" where
  "gojaInteger G v = (if v = NilValue then gfail NilDereference else calling BridgePanic (gj_ToInteger G v))"

definition gojaBoolean :: "('o, 'h) gojaEngine \<Rightarrow> 'o gojaValue \<Rightarrow> ('o, 'h, bool) encoding" where
  "gojaBoolean G v = (if v = NilValue then gfail NilDereference else gret (gj_ToBoolean G v))"

definition gojaGet :: "('o, 'h) gojaEngine \<Rightarrow> 'o \<Rightarrow> string \<Rightarrow> ('o, 'h, 'o gojaValue) encoding" where
  "gojaGet G obj key = calling BridgePanic (gj_Get G obj key)"

definition GetString :: "('o, 'h) gojaEngine \<Rightarrow> 'o \<Rightarrow> string \<Rightarrow> ('o, 'h, string) encoding" where
  "GetString G obj key = gbind (gojaGet G obj key) (gojaString G)"

definition GetInteger :: "('o, 'h) gojaEngine \<Rightarrow> 'o \<Rightarrow> string \<Rightarrow> ('o, 'h, 64 word) encoding" where
  "GetInteger G obj key = gbind (gojaGet G obj key) (gojaInteger G)"

subsection \<open>Primitives\<close>

text \<open>
  The conversion \<open>float64(exp)\<close> of an \<open>int64\<close>, which rounds to the nearest number
  and to the even one of two. A carry out of the fraction goes into the exponent.
\<close>

definition roundShift :: "nat \<Rightarrow> nat \<Rightarrow> nat" where
  "roundShift m d =
     (let q = m div 2 ^ d; r = m mod 2 ^ d in
      if 2 * r > 2 ^ d \<or> 2 * r = 2 ^ d \<and> odd q then q + 1 else q)"

definition float64OfInt64 :: "64 word \<Rightarrow> float64" where
  "float64OfInt64 w =
     (let n = sint w; m = nat \<bar>n\<bar>; e = bitLen m - 1 in
      if e \<le> 52 then float64OfInt n else packFloat (n < 0) (1023 + e) (roundShift m (e - 52) - 2 ^ 52))"

fun encodePrimitive :: "primitive \<Rightarrow> wireValue option" where
  "encodePrimitive (PBool b) = Some (zeroValue\<lparr>wv_Kind := valueBool, wv_Bool := b\<rparr>)"
| "encodePrimitive (PString s) = Some (zeroValue\<lparr>wv_Kind := valueString, wv_Text := s\<rparr>)"
| "encodePrimitive (PInt n) = Some (numberValue (float64OfInt64 n))"
| "encodePrimitive (PFloat f) = Some (numberValue f)"
| "encodePrimitive (PBigInt n) = Some (zeroValue\<lparr>wv_Kind := valueBigInt, wv_Text := Itoa n\<rparr>)"
| "encodePrimitive (POther t) = None"

text \<open>The verb \<open>%T\<close>, and \<open>%v\<close> of a promise state, which is an integer.\<close>

fun primitiveType :: "primitive \<Rightarrow> string" where
  "primitiveType (PBool b) = ''bool''" | "primitiveType (PString s) = ''string''"
| "primitiveType (PInt n) = ''int64''" | "primitiveType (PFloat f) = ''float64''"
| "primitiveType (PBigInt n) = ''*big.Int''" | "primitiveType (POther t) = t"

fun exportedType :: "'o exported \<Rightarrow> string" where
  "exportedType (ExportPrimitive p) = primitiveType p"
| "exportedType (ExportTime t) = ''time.Time''"
| "exportedType (ExportTimePointer t) = ''*time.Time''"
| "exportedType (ExportArrayBuffer b) = ''goja.ArrayBuffer''"
| "exportedType (ExportPromise p) = ''*goja.Promise''"
| "exportedType ExportPromiseStruct = ''goja.Promise''"
| "exportedType (ExportOther t) = t"

primrec stateText :: "gojaPromiseState \<Rightarrow> string" where
  "stateText PromiseStatePending = ''0''" | "stateText PromiseStateFulfilled = ''1''" | "stateText PromiseStateRejected = ''2''"

subsection \<open>Names, keys and iterators\<close>

definition gojaConstructorName :: "('o, 'h) gojaEngine \<Rightarrow> 'o \<Rightarrow> ('o, 'h, string) encoding" where
  "gojaConstructorName G obj =
     gbind (gojaGet G obj ''constructor'') (\<lambda>ctor.
       case ctor of
         ObjectValue ctorObj \<Rightarrow>
           gbind (gojaGet G ctorObj ''name'') (\<lambda>name.
             if name \<in> {NilValue, UndefinedValue, NullValue} then gret [] else gojaString G name)
       | _ \<Rightarrow> gret [])"

definition customObjectName :: "string \<Rightarrow> string" where
  "customObjectName name = (if name = [] \<or> name = ''Object'' then [] else name)"

definition gojaIsPromiseObject :: "('o, 'h) gojaEngine \<Rightarrow> 'o \<Rightarrow> string \<Rightarrow> ('o, 'h, bool) encoding" where
  "gojaIsPromiseObject G obj implName =
     (if implName \<noteq> ''Promise'' then gret False
      else gbind (calling BridgePanic (gj_Export G obj)) (\<lambda>exported.
        case exported of ExportPromiseStruct \<Rightarrow> gret True | ExportPromise p \<Rightarrow> gret True | _ \<Rightarrow> gret False))"

text \<open>\<open>strconv.ParseUint(key, 10, 32)\<close>.\<close>

definition digitOf :: "char \<Rightarrow> nat" where "digitOf c = of_char c - 48"

definition ParseUint32 :: "string \<Rightarrow> nat option" where
  "ParseUint32 key =
     (if key = [] \<or> (\<exists>c \<in> set key. of_char c < (48 :: nat) \<or> of_char c > (57 :: nat)) then None
      else let n = foldl (\<lambda>n c. 10 * n + digitOf c) 0 key in if n < 2 ^ 32 then Some n else None)"

definition isArrayIndexKey :: "string \<Rightarrow> bool" where
  "isArrayIndexKey key \<longleftrightarrow> (if key = [] then False else case ParseUint32 key of None \<Rightarrow> False | Some n \<Rightarrow> showNat n = key)"

definition shouldSkipBuiltinEnumerableProp :: "nodeKind \<Rightarrow> string \<Rightarrow> bool" where
  "shouldSkipBuiltinEnumerableProp kind key =
     (case kind of
        nodeArray \<Rightarrow> isArrayIndexKey key
      | nodeTypedArray \<Rightarrow> isArrayIndexKey key
      | nodeError \<Rightarrow> key \<in> {''name'', ''message'', ''cause''}
      | _ \<Rightarrow> False)"

definition gojaEnumerableDataKeys :: "('o, 'h) gojaEngine \<Rightarrow> 'o \<Rightarrow> ('o, 'h, string list) encoding" where
  "gojaEnumerableDataKeys G obj = gbind (calling BridgePanic (gj_Keys G obj)) (\<lambda>keys. gret (sort keys))"

definition gojaValueIsFunction :: "('o, 'h) gojaEngine \<Rightarrow> 'o gojaValue \<Rightarrow> ('o, 'h, bool) encoding" where
  "gojaValueIsFunction G v =
     (case v of ObjectValue obj \<Rightarrow> asking (\<lambda>h. gj_ClassName G obj h = ''Function'') | _ \<Rightarrow> gret False)"

text \<open>\<open>goja.AssertFunction\<close>.\<close>

definition AssertFunction :: "('o, 'h) gojaEngine \<Rightarrow> 'o gojaValue \<Rightarrow> ('o, 'h, 'o option) encoding" where
  "AssertFunction G v =
     (case v of ObjectValue f \<Rightarrow> asking (\<lambda>h. if gj_Callable G f h then Some f else None) | _ \<Rightarrow> gret None)"

definition objectOr :: "string \<Rightarrow> 'o gojaValue \<Rightarrow> ('o, 'h, 'o) encoding" where
  "objectOr text v = (case v of ObjectValue obj \<Rightarrow> gret obj | _ \<Rightarrow> gfail (BridgeError text))"

definition functionOr :: "('o, 'h) gojaEngine \<Rightarrow> string \<Rightarrow> 'o gojaValue \<Rightarrow> ('o, 'h, 'o) encoding" where
  "functionOr G text v =
     gbind (AssertFunction G v) (\<lambda>f. case f of Some f \<Rightarrow> gret f | None \<Rightarrow> gfail (BridgeError text))"

text \<open>
  The two loops over an iterator (\<open>what\<close> is \<open>map\<close> or \<open>set\<close>, \<open>item\<close> what is taken from
  a step): \<open>n\<close> is their fuel, since an iterator may never be done.
\<close>

fun iteratorLoop :: "('o, 'h) gojaEngine \<Rightarrow> string \<Rightarrow> ('o \<Rightarrow> ('o, 'h, 'a) encoding) \<Rightarrow> nat \<Rightarrow> 'o \<Rightarrow> 'o \<Rightarrow> ('o, 'h, 'a list) encoding" where
  "iteratorLoop G what item 0 nextFn iterObj = gfail BridgeFuel"
| "iteratorLoop G what item (Suc n) nextFn iterObj =
     gbind (calling EngineError (gj_Call G nextFn (ObjectValue iterObj) [])) (\<lambda>stepValue.
     gbind (objectOr (''bridge: '' @ what @ '' iterator step is not object'') stepValue) (\<lambda>stepObj.
     gbind (gojaGet G stepObj ''done'') (\<lambda>finished.
     gbind (gojaBoolean G finished) (\<lambda>finished.
       if finished then gret []
       else gbind (item stepObj) (\<lambda>x. gbind (iteratorLoop G what item n nextFn iterObj) (\<lambda>xs. gret (x # xs)))))))"

definition iterated :: "('o, 'h) gojaEngine \<Rightarrow> string \<Rightarrow> string \<Rightarrow> ('o \<Rightarrow> ('o, 'h, 'a) encoding) \<Rightarrow> nat \<Rightarrow> 'o \<Rightarrow> ('o, 'h, 'a list) encoding" where
  "iterated G what iterMethod item n obj =
     gbind (gojaGet G obj iterMethod) (\<lambda>f.
     gbind (functionOr G (''bridge: '' @ what @ ''.'' @ iterMethod @ '' missing'') f) (\<lambda>f.
     gbind (calling EngineError (gj_Call G f (ObjectValue obj) [])) (\<lambda>iterValue.
     gbind (objectOr (''bridge: '' @ what @ '' iterator is not object'') iterValue) (\<lambda>iterObj.
     gbind (gojaGet G iterObj ''next'') (\<lambda>nextValue.
     gbind (functionOr G (''bridge: '' @ what @ '' iterator.next missing'') nextValue) (\<lambda>nextFn.
     iteratorLoop G what item n nextFn iterObj))))))"

definition gojaMapEntries :: "('o, 'h) gojaEngine \<Rightarrow> nat \<Rightarrow> 'o \<Rightarrow> ('o, 'h, ('o gojaValue \<times> 'o gojaValue) list) encoding" where
  "gojaMapEntries G = iterated G ''map'' ''entries'' (\<lambda>stepObj.
     gbind (gojaGet G stepObj ''value'') (\<lambda>value.
     gbind (objectOr ''bridge: map iterator value is not object'' value) (\<lambda>valueObj.
     gbind (gojaGet G valueObj ''0'') (\<lambda>k.
     gbind (gojaGet G valueObj ''1'') (\<lambda>v. gret (k, v))))))"

definition gojaSetValues :: "('o, 'h) gojaEngine \<Rightarrow> nat \<Rightarrow> 'o \<Rightarrow> ('o, 'h, 'o gojaValue list) encoding" where
  "gojaSetValues G = iterated G ''set'' ''values'' (\<lambda>stepObj. gojaGet G stepObj ''value'')"

subsection \<open>Objects\<close>

text \<open>
  The cases of the \<open>switch\<close> over the object, given the encoder of the values in
  it (\<open>enc\<close>), complete the node.
\<close>

definition encodePromise :: "('o, 'h) gojaEngine \<Rightarrow> ('o gojaValue \<Rightarrow> ('o, 'h, wireValue) encoding) \<Rightarrow> 'o \<Rightarrow> wireNode \<Rightarrow> ('o, 'h, wireNode) encoding" where
  "encodePromise G enc obj node =
     gbind (calling BridgePanic (gj_Export G obj)) (\<lambda>exported.
       case exported of
         ExportPromise (Some (state, result)) \<Rightarrow>
           (if state \<noteq> PromiseStateFulfilled
            then gfail (BridgeError (''bridge: unsupported goja Promise state '' @ stateText state))
            else gbind (enc result) (\<lambda>promise. gret (node\<lparr>wn_Kind := nodePromise, wn_Promise := promise\<rparr>)))
       | _ \<Rightarrow> gbind (calling BridgePanic (gj_Export G obj)) (\<lambda>exported.
           gfail (BridgeError (''bridge: unsupported goja Promise export '' @ exportedType exported))))"

definition arraySlot :: "('o, 'h) gojaEngine \<Rightarrow> ('o gojaValue \<Rightarrow> ('o, 'h, wireValue) encoding) \<Rightarrow> 'o \<Rightarrow> string list \<Rightarrow> nat \<Rightarrow> ('o, 'h, wireSlot) encoding" where
  "arraySlot G enc obj ownProps i =
     (if showNat i \<notin> set ownProps then gret \<lparr>ws_Present = False, ws_Value = zeroValue\<rparr>
      else gbind (gojaGet G obj (showNat i)) (\<lambda>v. gbind (enc v) (\<lambda>val. gret \<lparr>ws_Present = True, ws_Value = val\<rparr>)))"

definition gojaArray :: "('o, 'h) gojaEngine \<Rightarrow> ('o gojaValue \<Rightarrow> ('o, 'h, wireValue) encoding) \<Rightarrow> 'o \<Rightarrow> wireNode \<Rightarrow> ('o, 'h, wireNode) encoding" where
  "gojaArray G enc obj node =
     gbind (GetInteger G obj ''length'') (\<lambda>len.
       if sint len < 0 \<or> nat (sint len) * 48 > maxAlloc
       then gfail (BridgePanic ''runtime error: makeslice: len out of range'')
       else
         gbind (calling BridgePanic (gj_GetOwnPropertyNames G obj)) (\<lambda>ownProps.
         gbind (smap (arraySlot G enc obj ownProps) [0..<nat (sint len)]) (\<lambda>slots.
         gret (node\<lparr>wn_Kind := nodeArray, wn_Slots := slots\<rparr>))))"

definition mapEntry :: "('o gojaValue \<Rightarrow> ('o, 'h, wireValue) encoding) \<Rightarrow> 'o gojaValue \<times> 'o gojaValue \<Rightarrow> ('o, 'h, wireEntry) encoding" where
  "mapEntry enc entry =
     gbind (enc (fst entry)) (\<lambda>k. gbind (enc (snd entry)) (\<lambda>v. gret \<lparr>we_Key = k, we_Value = v\<rparr>))"

definition gojaMap :: "('o, 'h) gojaEngine \<Rightarrow> nat \<Rightarrow> ('o gojaValue \<Rightarrow> ('o, 'h, wireValue) encoding) \<Rightarrow> 'o \<Rightarrow> wireNode \<Rightarrow> ('o, 'h, wireNode) encoding" where
  "gojaMap G n enc obj node =
     gbind (gojaMapEntries G n obj) (\<lambda>entries.
     gbind (smap (mapEntry enc) entries) (\<lambda>entries.
     gret (node\<lparr>wn_Kind := nodeMap, wn_Entries := entries\<rparr>)))"

definition gojaSet :: "('o, 'h) gojaEngine \<Rightarrow> nat \<Rightarrow> ('o gojaValue \<Rightarrow> ('o, 'h, wireValue) encoding) \<Rightarrow> 'o \<Rightarrow> wireNode \<Rightarrow> ('o, 'h, wireNode) encoding" where
  "gojaSet G n enc obj node =
     gbind (gojaSetValues G n obj) (\<lambda>items.
     gbind (smap enc items) (\<lambda>items.
     gret (node\<lparr>wn_Kind := nodeSet, wn_Values := items\<rparr>)))"

definition gojaDate :: "('o, 'h) gojaEngine \<Rightarrow> 'o \<Rightarrow> wireNode \<Rightarrow> ('o, 'h, wireNode) encoding" where
  "gojaDate G obj node =
     gbind (calling BridgePanic (gj_Export G obj)) (\<lambda>exported.
       let node = node\<lparr>wn_Kind := nodeDate\<rparr> in
       case exported of
         ExportTime t \<Rightarrow> gret (node\<lparr>wn_DateValid := True, wn_DateMS := UnixMilli t\<rparr>)
       | ExportTimePointer (Some t) \<Rightarrow> gret (node\<lparr>wn_DateValid := True, wn_DateMS := UnixMilli t\<rparr>)
       | _ \<Rightarrow> gret node)"

definition gojaRegexp :: "('o, 'h) gojaEngine \<Rightarrow> 'o \<Rightarrow> wireNode \<Rightarrow> ('o, 'h, wireNode) encoding" where
  "gojaRegexp G obj node =
     gbind (GetString G obj ''source'') (\<lambda>src.
     gbind (GetString G obj ''flags'') (\<lambda>flags.
     gret (node\<lparr>wn_Kind := nodeRegexp, wn_TextA := src, wn_TextB := flags\<rparr>)))"

definition gojaArrayBuffer :: "('o, 'h) gojaEngine \<Rightarrow> 'o \<Rightarrow> wireNode \<Rightarrow> ('o, 'h, wireNode) encoding" where
  "gojaArrayBuffer G obj node =
     gbind (calling BridgePanic (gj_Export G obj)) (\<lambda>exported.
       case exported of
         ExportArrayBuffer bs \<Rightarrow> gret (node\<lparr>wn_Kind := nodeArrayBuffer, wn_Bytes := bs\<rparr>)
       | _ \<Rightarrow> gfail (BridgeError (''bridge: unexpected goja ArrayBuffer export '' @ exportedType exported)))"

definition gojaTypedArray :: "('o, 'h) gojaEngine \<Rightarrow> ('o gojaValue \<Rightarrow> ('o, 'h, wireValue) encoding) \<Rightarrow> 'o \<Rightarrow> string \<Rightarrow> wireNode \<Rightarrow> ('o, 'h, wireNode) encoding" where
  "gojaTypedArray G enc obj ctorName node =
     gbind (GetInteger G obj ''byteOffset'') (\<lambda>byteOffset.
     gbind (GetInteger G obj ''byteLength'') (\<lambda>byteLength.
     gbind (gojaGet G obj ''buffer'') (\<lambda>bufferValue.
     gbind (enc bufferValue) (\<lambda>buffer.
     gret (node\<lparr>wn_Kind := nodeTypedArray, wn_TextA := ctorName, wn_ByteOffset := ucast byteOffset,
                wn_ByteLength := ucast byteLength, wn_Buffer := buffer\<rparr>)))))"

definition gojaError :: "('o, 'h) gojaEngine \<Rightarrow> ('o gojaValue \<Rightarrow> ('o, 'h, wireValue) encoding) \<Rightarrow> 'o \<Rightarrow> wireNode \<Rightarrow> ('o, 'h, wireNode) encoding" where
  "gojaError G enc obj node =
     gbind (GetString G obj ''name'') (\<lambda>name.
     gbind (GetString G obj ''message'') (\<lambda>message.
     gbind (gojaGet G obj ''cause'') (\<lambda>causeValue.
     gbind (enc causeValue) (\<lambda>cause.
     gret (node\<lparr>wn_Kind := nodeError, wn_TextA := name, wn_TextB := message, wn_Cause := cause\<rparr>)))))"

definition gojaSwitch ::
    "('o, 'h) gojaEngine \<Rightarrow> nat \<Rightarrow> ('o gojaValue \<Rightarrow> ('o, 'h, wireValue) encoding) \<Rightarrow> 'o \<Rightarrow> string \<Rightarrow> string \<Rightarrow> string \<Rightarrow> wireNode \<Rightarrow> ('o, 'h, wireNode) encoding" where
  "gojaSwitch G n enc obj ctorName className implName node =
     (if className = ''Function'' then gfail (BridgeError ''bridge: unsupported goja Function'')
      else gbind (gojaIsPromiseObject G obj implName) (\<lambda>isPromise.
        if isPromise then encodePromise G enc obj node
        else if className = ''Array'' then gojaArray G enc obj node
        else if implName = ''mapObject'' then gojaMap G n enc obj node
        else if implName = ''setObject'' then gojaSet G n enc obj node
        else if implName = ''dateObject'' \<or> className = ''Date'' then gojaDate G obj node
        else if implName = ''regexpObject'' \<or> className = ''RegExp'' then gojaRegexp G obj node
        else if implName = ''arrayBufferObject'' then gojaArrayBuffer G obj node
        else if implName = ''typedArrayObject'' \<or> implName = ''dataViewObject'' then gojaTypedArray G enc obj ctorName node
        else if implName = ''errorObject'' \<or> className = ''Error'' then gojaError G enc obj node
        else gret (node\<lparr>wn_Kind := nodeObject, wn_TextA := customObjectName ctorName\<rparr>)))"

fun gojaPropsLoop :: "('o, 'h) gojaEngine \<Rightarrow> ('o gojaValue \<Rightarrow> ('o, 'h, wireValue) encoding) \<Rightarrow> 'o \<Rightarrow> string list \<Rightarrow> wireNode \<Rightarrow> ('o, 'h, wireNode) encoding" where
  "gojaPropsLoop G enc obj [] node = gret node"
| "gojaPropsLoop G enc obj (key # keys) node =
     (if shouldSkipBuiltinEnumerableProp (wn_Kind node) key then gojaPropsLoop G enc obj keys node
      else gbind (asking (gj_HasAccessor G obj key)) (\<lambda>accessor.
        if accessor then gfail (BridgeError (''bridge: unsupported goja accessor property '' @ quote key))
        else gbind (gojaGet G obj key) (\<lambda>prop.
          gbind (gojaValueIsFunction G prop) (\<lambda>isFunction.
          if isFunction then gojaPropsLoop G enc obj keys node
          else gbind (enc prop) (\<lambda>val.
            gojaPropsLoop G enc obj keys (node\<lparr>wn_Props := wn_Props node @ [\<lparr>wp_Key = key, wp_Value = val\<rparr>]\<rparr>))))))"

definition appendGojaEnumerableProps :: "('o, 'h) gojaEngine \<Rightarrow> ('o gojaValue \<Rightarrow> ('o, 'h, wireValue) encoding) \<Rightarrow> 'o \<Rightarrow> wireNode \<Rightarrow> ('o, 'h, wireNode) encoding" where
  "appendGojaEnumerableProps G enc obj node =
     gbind (gojaEnumerableDataKeys G obj) (\<lambda>keys. gojaPropsLoop G enc obj keys node)"

text \<open>The node of an object: reserved before what the object holds is encoded, and stored after it.\<close>

definition reserveNode :: "'o \<Rightarrow> ('o, 'h) gojaEncoder \<Rightarrow> ('o, 'h) gojaEncoder" where
  "reserveNode obj e = e\<lparr>ge_nextID := ge_nextID e + 1, ge_seen := (ge_seen e)(obj \<mapsto> ge_nextID e),
     ge_nodes := ge_nodes e @ [zeroNode\<lparr>wn_ID := ge_nextID e\<rparr>]\<rparr>"

definition storeNode :: "nat \<Rightarrow> wireNode \<Rightarrow> ('o, 'h) gojaEncoder \<Rightarrow> ('o, 'h) gojaEncoder" where
  "storeNode i node e = e\<lparr>ge_nodes := (ge_nodes e)[i := node]\<rparr>"

definition buildNode :: "('o, 'h) gojaEngine \<Rightarrow> nat \<Rightarrow> ('o gojaValue \<Rightarrow> ('o, 'h, wireValue) encoding) \<Rightarrow> 'o \<Rightarrow> wireNode \<Rightarrow> ('o, 'h, wireNode) encoding" where
  "buildNode G n enc obj node =
     gbind (gojaConstructorName G obj) (\<lambda>ctorName.
     gbind (asking (gj_ClassName G obj)) (\<lambda>className.
     gbind (asking (gj_ImplName G obj)) (\<lambda>implName.
     gbind (gojaSwitch G n enc obj ctorName className implName node) (\<lambda>node.
     appendGojaEnumerableProps G enc obj node))))"

definition gojaEncodeObject :: "('o, 'h) gojaEngine \<Rightarrow> nat \<Rightarrow> ('o gojaValue \<Rightarrow> ('o, 'h, wireValue) encoding) \<Rightarrow> 'o \<Rightarrow> ('o, 'h, wireValue) encoding" where
  "gojaEncodeObject G n enc obj e =
     (case ge_seen e obj of
        Some nodeID \<Rightarrow> Inr (refValue nodeID, e)
      | None \<Rightarrow>
          rbind (buildNode G n enc obj (zeroNode\<lparr>wn_ID := ge_nextID e\<rparr>) (reserveNode obj e)) (\<lambda>(node, e').
            Inr (refValue (ge_nextID e), storeNode (length (ge_nodes e)) node e')))"

text \<open>The beginning of \<open>encodeValue\<close>, given what encodes an object.\<close>

definition valueWith :: "('o, 'h) gojaEngine \<Rightarrow> ('o \<Rightarrow> ('o, 'h, wireValue) encoding) \<Rightarrow> 'o gojaValue \<Rightarrow> ('o, 'h, wireValue) encoding" where
  "valueWith G object v =
     (case v of
        NilValue \<Rightarrow> gret zeroValue
      | UndefinedValue \<Rightarrow> gret zeroValue
      | NullValue \<Rightarrow> gret (zeroValue\<lparr>wv_Kind := valueNull\<rparr>)
      | SymbolValue \<Rightarrow> gfail (BridgeError ''bridge: unsupported goja Symbol'')
      | PrimitiveValue p \<Rightarrow>
          (case encodePrimitive p of
             Some w \<Rightarrow> gret w
           | None \<Rightarrow> gbind (calling BridgePanic (gj_ToObject G p)) object)
      | ObjectValue obj \<Rightarrow>
          gbind (calling BridgePanic (gj_Export G obj)) (\<lambda>exported.
            case exported of
              ExportPrimitive p \<Rightarrow> (case encodePrimitive p of Some w \<Rightarrow> gret w | None \<Rightarrow> object obj)
            | _ \<Rightarrow> object obj))"

text \<open>The first argument is the fuel of the iterators, the second that of the recursion.\<close>

fun gojaEncodeValue :: "('o, 'h) gojaEngine \<Rightarrow> nat \<Rightarrow> nat \<Rightarrow> 'o gojaValue \<Rightarrow> ('o, 'h, wireValue) encoding" where
  "gojaEncodeValue G n 0 v = gfail BridgeFuel"
| "gojaEncodeValue G n (Suc k) v = valueWith G (gojaEncodeObject G n (gojaEncodeValue G n k)) v"

definition newGojaEncoder :: "'h \<Rightarrow> ('o, 'h) gojaEncoder" where
  "newGojaEncoder h = \<lparr>ge_seen = Map.empty, ge_nextID = 1, ge_nodes = [], ge_heap = h\<rparr>"

text \<open>The graph that is marshalled, and \<open>EncodeGoja\<close> around it.\<close>

definition gojaGraph :: "('o, 'h) gojaEngine \<Rightarrow> nat \<Rightarrow> nat \<Rightarrow> 'o gojaValue \<Rightarrow> 'h \<Rightarrow> bridgeFailure + wireGraph \<times> 'h" where
  "gojaGraph G n k v h =
     rbind (gojaEncodeValue G n k v (newGojaEncoder h)) (\<lambda>(root, e).
       Inr (\<lparr>wg_Root = root, wg_Nodes = ge_nodes e\<rparr>, ge_heap e))"

definition EncodeGoja :: "musLib \<Rightarrow> ('o, 'h) gojaEngine \<Rightarrow> nat \<Rightarrow> nat \<Rightarrow> 'o gojaValue \<Rightarrow> 'h \<Rightarrow> bridgeFailure + bytes \<times> 'h" where
  "EncodeGoja L G n k v h =
     rbind (gojaGraph G n k v h) (\<lambda>(graph, h).
       case marshalGraph L graph of Inl err \<Rightarrow> Inl (BridgeWire err) | Inr bs \<Rightarrow> Inr (bs, h))"

end
