(* ===== verification/Goja_Decode.thy ===== *)
theory Goja_Decode
  imports Goja_Encode
begin

text \<open>
  The decoder from value graphs to values of goja: \<open>DecodeGoja\<close> of
  \<open>src/jswire/bridge.go\<close>. It allocates an object for every node, typed arrays
  after all others, and fills the objects then. The engine is that of
  \<open>Goja_Encode\<close>. A resolver of a promise is known by the promise.
\<close>

record ('o, 'h) gojaDecoder =
  gd_refs :: "32 word \<rightharpoonup> 'o"
  gd_promiseResolves :: "32 word \<rightharpoonup> 'o"
  gd_heap :: 'h

type_synonym ('o, 'h, 'a) decoding = "('o, 'h) gojaDecoder \<Rightarrow> bridgeFailure + 'a \<times> ('o, 'h) gojaDecoder"

subsection \<open>Calls of the engine\<close>

definition dcalling :: "(string \<Rightarrow> bridgeFailure) \<Rightarrow> ('h \<Rightarrow> string + 'a \<times> 'h) \<Rightarrow> ('o, 'h, 'a) decoding" where
  "dcalling fail f d = (case f (gd_heap d) of Inl t \<Rightarrow> Inl (fail t) | Inr (x, h) \<Rightarrow> Inr (x, d\<lparr>gd_heap := h\<rparr>))"

definition dmaking :: "('h \<Rightarrow> 'a \<times> 'h) \<Rightarrow> ('o, 'h, 'a) decoding" where
  "dmaking f d = (case f (gd_heap d) of (x, h) \<Rightarrow> Inr (x, d\<lparr>gd_heap := h\<rparr>))"

definition vmGet :: "('o, 'h) gojaEngine \<Rightarrow> string \<Rightarrow> ('o, 'h, 'o gojaValue) decoding" where
  "vmGet G name = dcalling BridgePanic (gj_Global G name)"

text \<open>\<open>vm.New\<close> with its error as a value, and where the error is returned.\<close>

definition vmTryNew :: "('o, 'h) gojaEngine \<Rightarrow> 'o gojaValue \<Rightarrow> 'o gojaValue list \<Rightarrow> ('o, 'h, string + 'o) decoding" where
  "vmTryNew G ctor args = dmaking (gj_New G ctor args)"

definition newOr :: "string + 'o \<Rightarrow> ('o, 'h, 'o) decoding" where
  "newOr r = (case r of Inl t \<Rightarrow> gfail (EngineError t) | Inr obj \<Rightarrow> gret obj)"

definition vmNew :: "('o, 'h) gojaEngine \<Rightarrow> 'o gojaValue \<Rightarrow> 'o gojaValue list \<Rightarrow> ('o, 'h, 'o) decoding" where
  "vmNew G ctor args = gbind (vmTryNew G ctor args) newOr"

definition objSet :: "('o, 'h) gojaEngine \<Rightarrow> 'o \<Rightarrow> string \<Rightarrow> 'o gojaValue \<Rightarrow> ('o, 'h, unit) decoding" where
  "objSet G obj key v = dcalling EngineError (gj_Set G obj key v)"

definition invalidGoja :: "string \<Rightarrow> ('o, 'h, 'a) decoding" where
  "invalidGoja text = gfail (BridgeWire (ErrInvalidWire text))"

definition functionIn :: "('o, 'h) gojaEngine \<Rightarrow> string \<Rightarrow> 'o gojaValue \<Rightarrow> ('o, 'h, 'o) decoding" where
  "functionIn G text v =
     (case v of
        ObjectValue f \<Rightarrow> (\<lambda>d. if gj_Callable G f (gd_heap d) then gret f d else invalidGoja text d)
      | _ \<Rightarrow> invalidGoja text)"

text \<open>A loop whose iterations give nothing.\<close>

fun seach :: "('a \<Rightarrow> 's \<Rightarrow> bridgeFailure + unit \<times> 's) \<Rightarrow> 'a list \<Rightarrow> 's \<Rightarrow> bridgeFailure + unit \<times> 's" where
  "seach f [] = gret ()"
| "seach f (x # xs) = gbind (f x) (\<lambda>u. seach f xs)"

subsection \<open>Values\<close>

definition gojaDecodeValue :: "('o, 'h) gojaEngine \<Rightarrow> wireValue \<Rightarrow> ('o, 'h, 'o gojaValue) decoding" where
  "gojaDecodeValue G v =
     (case wv_Kind v of
        valueUndefined \<Rightarrow> gret UndefinedValue
      | valueNull \<Rightarrow> gret NullValue
      | valueBool \<Rightarrow> gret (gj_ToValue G (PBool (wv_Bool v)))
      | valueNumber \<Rightarrow>
          (case numberKindOf (wv_Number v) of
             numberNaN \<Rightarrow> gret (PrimitiveValue (PFloat NaN))
           | numberPosInf \<Rightarrow> gret (PrimitiveValue (PFloat PosInf))
           | numberNegInf \<Rightarrow> gret (PrimitiveValue (PFloat NegInf))
           | _ \<Rightarrow> gret (gj_ToValue G (PFloat (wv_Number v))))
      | valueString \<Rightarrow> gret (gj_ToValue G (PString (wv_Text v)))
      | valueBigInt \<Rightarrow>
          gbind (vmGet G ''BigInt'') (\<lambda>ctor.
          gbind (functionIn G ''BigInt unavailable'' ctor) (\<lambda>fn.
          dcalling EngineError (gj_Call G fn UndefinedValue [gj_ToValue G (PString (wv_Text v))])))
      | valueRef \<Rightarrow>
          (\<lambda>d. case gd_refs d (wv_Ref v) of
             Some obj \<Rightarrow> gret (ObjectValue obj) d
           | None \<Rightarrow> invalidGoja (''missing goja ref '' @ showWord (wv_Ref v)) d))"

subsection \<open>Allocation\<close>

definition setByte :: "('o, 'h) gojaEngine \<Rightarrow> 'o \<Rightarrow> nat \<times> byte \<Rightarrow> ('o, 'h, unit) decoding" where
  "setByte G view ib = objSet G view (showNat (fst ib)) (gj_ToValue G (PInt (ucast (snd ib))))"

definition newArrayBufferValue :: "('o, 'h) gojaEngine \<Rightarrow> bytes \<Rightarrow> ('o, 'h, 'o) decoding" where
  "newArrayBufferValue G bs =
     gbind (vmGet G ''ArrayBuffer'') (\<lambda>ctor.
     gbind (vmNew G ctor [gj_ToValue G (PInt (of_nat (length bs)))]) (\<lambda>buffer.
       if bs = [] then gret buffer
       else
         gbind (vmGet G ''Uint8Array'') (\<lambda>u8Ctor.
         gbind (vmNew G u8Ctor [ObjectValue buffer]) (\<lambda>view.
         gbind (seach (setByte G view) (enumerate 0 bs)) (\<lambda>u. gret buffer)))))"

definition newErrorValue :: "('o, 'h) gojaEngine \<Rightarrow> wireNode \<Rightarrow> ('o, 'h, 'o) decoding" where
  "newErrorValue G node =
     (let ctorName = (if wn_TextA node = [] then ''Error'' else wn_TextA node);
          message = gj_ToValue G (PString (wn_TextB node)) in
      gbind (vmGet G ctorName) (\<lambda>ctor.
      gbind (if ctor \<in> {NilValue, UndefinedValue, NullValue} then vmGet G ''Error'' else gret ctor) (\<lambda>ctor.
      gbind (vmTryNew G ctor [message]) (\<lambda>obj.
        case obj of
          Inr obj \<Rightarrow> gret obj
        | Inl t \<Rightarrow>
            (if ctorName \<noteq> ''Error'' then gbind (vmGet G ''Error'') (\<lambda>ctor. vmNew G ctor [message])
             else gfail (EngineError t))))))"

definition allocateObject :: "('o, 'h) gojaEngine \<Rightarrow> wireNode \<Rightarrow> ('o, 'h, 'o) decoding" where
  "allocateObject G node =
     (case wn_Kind node of
        nodeObject \<Rightarrow> dmaking (gj_NewObject G)
      | nodeArray \<Rightarrow> dmaking (gj_NewArray G)
      | nodeMap \<Rightarrow> gbind (vmGet G ''Map'') (\<lambda>ctor. vmNew G ctor [])
      | nodeSet \<Rightarrow> gbind (vmGet G ''Set'') (\<lambda>ctor. vmNew G ctor [])
      | nodeDate \<Rightarrow> gbind (vmGet G ''Date'') (\<lambda>ctor.
          vmNew G ctor [if wn_DateValid node then gj_ToValue G (PInt (wn_DateMS node)) else PrimitiveValue (PFloat NaN)])
      | nodeRegexp \<Rightarrow> gbind (vmGet G ''RegExp'') (\<lambda>ctor.
          vmNew G ctor [gj_ToValue G (PString (wn_TextA node)), gj_ToValue G (PString (wn_TextB node))])
      | nodeArrayBuffer \<Rightarrow> newArrayBufferValue G (wn_Bytes node)
      | nodePromise \<Rightarrow> gbind (dmaking (gj_NewPromise G)) (\<lambda>promise d.
          gret promise (d\<lparr>gd_promiseResolves := (gd_promiseResolves d)(wn_ID node \<mapsto> promise)\<rparr>))
      | nodeError \<Rightarrow> newErrorValue G node
      | nodeTypedArray \<Rightarrow> invalidGoja (''unknown node kind '' @ showWord (nodeKindByte (wn_Kind node))))"

definition putRef :: "32 word \<Rightarrow> 'o \<Rightarrow> ('o, 'h, unit) decoding" where
  "putRef i obj d = gret () (d\<lparr>gd_refs := (gd_refs d)(i \<mapsto> obj)\<rparr>)"

definition allocateNode :: "('o, 'h) gojaEngine \<Rightarrow> wireNode \<Rightarrow> ('o, 'h, unit) decoding" where
  "allocateNode G node =
     (if wn_Kind node = nodeTypedArray then gret ()
      else gbind (allocateObject G node) (putRef (wn_ID node)))"

definition allocateTypedArray :: "('o, 'h) gojaEngine \<Rightarrow> wireNode \<Rightarrow> ('o, 'h, unit) decoding" where
  "allocateTypedArray G node =
     (if wn_Kind node \<noteq> nodeTypedArray then gret ()
      else
        gbind (gojaDecodeValue G (wn_Buffer node)) (\<lambda>bufferValue.
        case bufferValue of
          ObjectValue bufferObject \<Rightarrow>
            gbind (dcalling BridgePanic (gj_Export G bufferObject)) (\<lambda>exported.
            (case exported of
               ExportArrayBuffer bs \<Rightarrow>
                 (let bytesPer = bytesPerElement (wn_TextA node) in
                  if bytesPer = 0 \<or> wn_ByteLength node mod bytesPer \<noteq> 0 then invalidGoja ''invalid goja typed array length''
                  else
                    gbind (vmGet G (wn_TextA node)) (\<lambda>ctor.
                    gbind (vmNew G ctor [bufferValue, gj_ToValue G (PInt (ucast (wn_ByteOffset node))),
                                         gj_ToValue G (PInt (ucast (wn_ByteLength node div bytesPer)))]) (\<lambda>obj.
                    gbind (dcalling EngineError (gj_SetKeepAlive G obj bufferValue)) (\<lambda>u.
                    putRef (wn_ID node) obj))))
             | _ \<Rightarrow> invalidGoja ''goja typed array buffer is not ArrayBuffer''))
        | _ \<Rightarrow> invalidGoja ''goja typed array buffer is not object''))"

definition allocate :: "('o, 'h) gojaEngine \<Rightarrow> wireNode list \<Rightarrow> ('o, 'h, unit) decoding" where
  "allocate G nodes = gbind (seach (allocateNode G) nodes) (\<lambda>u. seach (allocateTypedArray G) nodes)"

subsection \<open>Filling\<close>

definition fillSlot :: "('o, 'h) gojaEngine \<Rightarrow> 'o \<Rightarrow> nat \<times> wireSlot \<Rightarrow> ('o, 'h, unit) decoding" where
  "fillSlot G obj islot =
     (if \<not> ws_Present (snd islot) then gret ()
      else gbind (gojaDecodeValue G (ws_Value (snd islot))) (\<lambda>v. objSet G obj (showNat (fst islot)) v))"

definition fillEntry :: "('o, 'h) gojaEngine \<Rightarrow> 'o \<Rightarrow> 'o \<Rightarrow> wireEntry \<Rightarrow> ('o, 'h, unit) decoding" where
  "fillEntry G obj setFn entry =
     gbind (gojaDecodeValue G (we_Key entry)) (\<lambda>k.
     gbind (gojaDecodeValue G (we_Value entry)) (\<lambda>v.
     gbind (dcalling EngineError (gj_Call G setFn (ObjectValue obj) [k, v])) (\<lambda>u. gret ())))"

definition fillValue :: "('o, 'h) gojaEngine \<Rightarrow> 'o \<Rightarrow> 'o \<Rightarrow> wireValue \<Rightarrow> ('o, 'h, unit) decoding" where
  "fillValue G obj addFn item =
     gbind (gojaDecodeValue G item) (\<lambda>v.
     gbind (dcalling EngineError (gj_Call G addFn (ObjectValue obj) [v])) (\<lambda>u. gret ()))"

definition fillPromise :: "('o, 'h) gojaEngine \<Rightarrow> wireNode \<Rightarrow> ('o, 'h, unit) decoding" where
  "fillPromise G node d =
     (case gd_promiseResolves d (wn_ID node) of
        None \<Rightarrow> invalidGoja (''missing promise resolver for ref '' @ showWord (wn_ID node)) d
      | Some resolve \<Rightarrow> gbind (gojaDecodeValue G (wn_Promise node)) (\<lambda>v. dcalling EngineError (gj_Resolve G resolve v)) d)"

definition fillError :: "('o, 'h) gojaEngine \<Rightarrow> 'o \<Rightarrow> wireNode \<Rightarrow> ('o, 'h, unit) decoding" where
  "fillError G obj node =
     gbind (gojaDecodeValue G (wn_Cause node)) (\<lambda>cause.
     gbind (objSet G obj ''cause'' cause) (\<lambda>u.
       if wn_TextA node \<noteq> [] then objSet G obj ''name'' (gj_ToValue G (PString (wn_TextA node))) else gret ()))"

definition fillBody :: "('o, 'h) gojaEngine \<Rightarrow> 'o \<Rightarrow> wireNode \<Rightarrow> ('o, 'h, unit) decoding" where
  "fillBody G obj node =
     (case wn_Kind node of
        nodeArray \<Rightarrow> gbind (seach (fillSlot G obj) (enumerate 0 (wn_Slots node))) (\<lambda>u.
          objSet G obj ''length'' (gj_ToValue G (PInt (of_nat (length (wn_Slots node))))))
      | nodeMap \<Rightarrow> gbind (dcalling BridgePanic (gj_Get G obj ''set'')) (\<lambda>f.
          gbind (functionIn G ''goja map.set missing'' f) (\<lambda>setFn. seach (fillEntry G obj setFn) (wn_Entries node)))
      | nodeSet \<Rightarrow> gbind (dcalling BridgePanic (gj_Get G obj ''add'')) (\<lambda>f.
          gbind (functionIn G ''goja set.add missing'' f) (\<lambda>addFn. seach (fillValue G obj addFn) (wn_Values node)))
      | nodePromise \<Rightarrow> fillPromise G node
      | nodeError \<Rightarrow> fillError G obj node
      | _ \<Rightarrow> gret ())"

definition fillProp :: "('o, 'h) gojaEngine \<Rightarrow> 'o \<Rightarrow> wireProp \<Rightarrow> ('o, 'h, unit) decoding" where
  "fillProp G obj p = gbind (gojaDecodeValue G (wp_Value p)) (\<lambda>v. objSet G obj (wp_Key p) v)"

definition fillNode :: "('o, 'h) gojaEngine \<Rightarrow> wireNode \<Rightarrow> ('o, 'h, unit) decoding" where
  "fillNode G node d =
     (case gd_refs d (wn_ID node) of
        None \<Rightarrow> gfail NilDereference d
      | Some obj \<Rightarrow> gbind (fillBody G obj node) (\<lambda>u. seach (fillProp G obj) (wn_Props node)) d)"

definition fill :: "('o, 'h) gojaEngine \<Rightarrow> wireNode list \<Rightarrow> ('o, 'h, unit) decoding" where
  "fill G nodes = seach (fillNode G) nodes"

subsection \<open>Decoding\<close>

definition newGojaDecoder :: "'h \<Rightarrow> ('o, 'h) gojaDecoder" where
  "newGojaDecoder h = \<lparr>gd_refs = Map.empty, gd_promiseResolves = Map.empty, gd_heap = h\<rparr>"

definition decodeGraph :: "('o, 'h) gojaEngine \<Rightarrow> wireGraph \<Rightarrow> ('o, 'h, 'o gojaValue) decoding" where
  "decodeGraph G graph =
     gbind (allocate G (wg_Nodes graph)) (\<lambda>u.
     gbind (fill G (wg_Nodes graph)) (\<lambda>u.
     gojaDecodeValue G (wg_Root graph)))"

definition DecodeGoja :: "musLib \<Rightarrow> ('o, 'h) gojaEngine \<Rightarrow> bytes \<Rightarrow> 'h \<Rightarrow> bridgeFailure + 'o gojaValue \<times> 'h" where
  "DecodeGoja L G bs h =
     (case unmarshalGraph L bs of
        Inl err \<Rightarrow> Inl (BridgeWire err)
      | Inr graph \<Rightarrow> rbind (decodeGraph G graph (newGojaDecoder h)) (\<lambda>(v, d). Inr (v, gd_heap d)))"

end
