(* ===== verification/Goja_Props.thy ===== *)
theory Goja_Props
  imports Goja_Encode
begin

text \<open>
  What the goja encoder keeps, whatever the engine answers: \<open>threads\<close> is a triple
  for steps that thread a state, with an invariant, a growing part of the state
  and the failures that may occur. The locale \<open>threading\<close> has its rules, the
  locale \<open>encoder_steps\<close> the triples of the parts of the encoder.
\<close>

subsection \<open>Triples\<close>

definition threads ::
    "('s \<Rightarrow> bool) \<Rightarrow> ('s \<Rightarrow> 's \<Rightarrow> bool) \<Rightarrow> (bridgeFailure \<Rightarrow> bool) \<Rightarrow> ('s \<Rightarrow> bool) \<Rightarrow> ('s \<Rightarrow> bridgeFailure + 'a \<times> 's) \<Rightarrow> ('a \<Rightarrow> 's \<Rightarrow> bool) \<Rightarrow> bool" where
  "threads good grows allowed p f q \<longleftrightarrow>
     (\<forall>s. good s \<longrightarrow> p s \<longrightarrow>
       (case f s of Inl err \<Rightarrow> allowed err | Inr (x, s') \<Rightarrow> good s' \<and> grows s s' \<and> q x s'))"

definition stableFor :: "('s \<Rightarrow> 's \<Rightarrow> bool) \<Rightarrow> ('s \<Rightarrow> bool) \<Rightarrow> bool" where
  "stableFor grows p \<longleftrightarrow> (\<forall>s s'. grows s s' \<longrightarrow> p s \<longrightarrow> p s')"

locale threading =
  fixes good :: "'s \<Rightarrow> bool" and grows :: "'s \<Rightarrow> 's \<Rightarrow> bool"
  assumes grows_refl: "grows s s"
    and grows_trans: "grows s t \<Longrightarrow> grows t u \<Longrightarrow> grows s u"
begin

abbreviation spec :: "(bridgeFailure \<Rightarrow> bool) \<Rightarrow> ('s \<Rightarrow> bool) \<Rightarrow> ('s \<Rightarrow> bridgeFailure + 'a \<times> 's) \<Rightarrow> ('a \<Rightarrow> 's \<Rightarrow> bool) \<Rightarrow> bool" where
  "spec \<equiv> threads good grows"

abbreviation stable :: "('s \<Rightarrow> bool) \<Rightarrow> bool" where "stable \<equiv> stableFor grows"

lemma stable_const: "stable (\<lambda>s. c)"
  by (simp add: stableFor_def)

lemma stable_conj: "stable p \<Longrightarrow> stable q \<Longrightarrow> stable (\<lambda>s. p s \<and> q s)"
  by (simp add: stableFor_def)

lemma stable_ball: "(\<And>x. x \<in> X \<Longrightarrow> stable (p x)) \<Longrightarrow> stable (\<lambda>s. \<forall>x \<in> X. p x s)"
  unfolding stableFor_def by blast

lemma spec_bind:
  assumes "spec A p f q" and "stable p" and "\<And>x. spec A (\<lambda>s. p s \<and> q x s) (g x) r"
  shows "spec A p (gbind f g) r"
  unfolding threads_def
proof (intro allI impI)
  fix s assume s: "good s" "p s"
  show "case gbind f g s of Inl err \<Rightarrow> A err | Inr (x, s') \<Rightarrow> good s' \<and> grows s s' \<and> r x s'"
  proof (cases "f s")
    case (Inl err)
    with assms(1) s show ?thesis by (auto simp: threads_def gbind_def)
  next
    case (Inr y)
    obtain x s1 where y: "y = (x, s1)" by fastforce
    with Inr assms(1) s have s1: "good s1" "grows s s1" "q x s1" by (auto simp: threads_def)
    then have "p s1" using assms(2) s by (auto simp: stableFor_def)
    then have "case g x s1 of Inl err \<Rightarrow> A err | Inr (z, s2) \<Rightarrow> good s2 \<and> grows s1 s2 \<and> r z s2"
      using assms(3) [of x] s1 by (auto simp: threads_def)
    with Inr y s1(2) grows_trans show ?thesis by (auto simp: gbind_def split: sum.splits)
  qed
qed

lemma spec_ret: "(\<And>s. good s \<Longrightarrow> p s \<Longrightarrow> q x s) \<Longrightarrow> spec A p (gret x) q"
  by (auto simp: threads_def gret_def grows_refl)

lemma spec_fail: "A err \<Longrightarrow> spec A p (gfail err) q"
  by (auto simp: threads_def gfail_def)

lemma spec_weaken:
  "spec A p f q \<Longrightarrow> (\<And>s. good s \<Longrightarrow> p' s \<Longrightarrow> p s) \<Longrightarrow> (\<And>x s. good s \<Longrightarrow> q x s \<Longrightarrow> q' x s) \<Longrightarrow> spec A p' f q'"
  unfolding threads_def by (fastforce split: sum.splits)

lemma spec_pre: "spec A p f q \<Longrightarrow> (\<And>s. good s \<Longrightarrow> p' s \<Longrightarrow> p s) \<Longrightarrow> spec A p' f q"
  by (rule spec_weaken)

lemma spec_frame:
  "spec A p f q \<Longrightarrow> stable r \<Longrightarrow> spec A (\<lambda>s. p s \<and> r s) f (\<lambda>x s. q x s \<and> r s)"
  unfolding threads_def stableFor_def by (fastforce split: sum.splits)

lemma spec_smap:
  assumes "\<And>x. x \<in> set xs \<Longrightarrow> spec A p (f x) q" and "stable p" and "\<And>y. stable (q y)"
  shows "spec A p (smap f xs) (\<lambda>ys s. \<forall>y \<in> set ys. q y s)"
  using assms(1)
proof (induction xs)
  case Nil
  show ?case by (auto simp: threads_def grows_refl)
next
  case (Cons x xs)
  have smap: "smap f (x # xs) = gbind (f x) (\<lambda>y. gbind (smap f xs) (\<lambda>ys. gret (y # ys)))"
    by (auto simp: fun_eq_iff gbind_def gret_def)
  show ?case
    unfolding smap
  proof (rule spec_bind [OF Cons.prems assms(2)])
    fix y
    show "spec A (\<lambda>s. p s \<and> q y s) (gbind (smap f xs) (\<lambda>ys. gret (y # ys))) (\<lambda>ys s. \<forall>y \<in> set ys. q y s)"
    proof (rule spec_bind)
      show "spec A (\<lambda>s. p s \<and> q y s) (smap f xs) (\<lambda>ys s. \<forall>y \<in> set ys. q y s)"
        by (rule spec_pre [OF Cons.IH]) (auto intro: Cons.prems)
      show "stable (\<lambda>s. p s \<and> q y s)" by (intro stable_conj assms)
    qed (rule spec_ret, simp)
  qed simp
qed

text \<open>The failures of a step can be found apart from what it keeps.\<close>

lemma spec_failures:
  "spec (\<lambda>_. True) p f q \<Longrightarrow> (\<And>s err. f s = Inl err \<Longrightarrow> A err) \<Longrightarrow> spec A p f q"
  unfolding threads_def by (fastforce split: sum.splits)

end

subsection \<open>Values, nodes and engines\<close>

text \<open>The values a node holds.\<close>

definition valuesOf :: "wireNode \<Rightarrow> wireValue set" where
  "valuesOf node = wp_Value ` set (wn_Props node) \<union> ws_Value ` set (wn_Slots node) \<union> we_Key ` set (wn_Entries node) \<union>
     we_Value ` set (wn_Entries node) \<union> set (wn_Values node) \<union> {wn_Buffer node, wn_Promise node, wn_Cause node}"

lemma valuesOf_zero: "valuesOf (zeroNode\<lparr>wn_ID := i\<rparr>) = {zeroValue}"
  by (simp add: valuesOf_def zeroNode_def)

definition within :: "'o set \<Rightarrow> 'o gojaValue \<Rightarrow> bool" where
  "within Os v \<longleftrightarrow> (\<forall>obj. v = ObjectValue obj \<longrightarrow> obj \<in> Os)"

text \<open>
  The engine stays within a set of objects: what it answers about these is in
  the set. The set of all objects is such a set.
\<close>

definition closedEngine :: "('o, 'h) gojaEngine \<Rightarrow> 'o set \<Rightarrow> bool" where
  "closedEngine G Os \<longleftrightarrow>
     (\<forall>obj key h v h'. obj \<in> Os \<longrightarrow> gj_Get G obj key h = Inr (v, h') \<longrightarrow> within Os v) \<and>
     (\<forall>p h obj h'. gj_ToObject G p h = Inr (obj, h') \<longrightarrow> obj \<in> Os) \<and>
     (\<forall>f this args h v h'. f \<in> Os \<longrightarrow> gj_Call G f this args h = Inr (v, h') \<longrightarrow> within Os v) \<and>
     (\<forall>obj h state v h'. obj \<in> Os \<longrightarrow> gj_Export G obj h = Inr (ExportPromise (Some (state, v)), h') \<longrightarrow> within Os v)"

lemma closedEngine_UNIV: "closedEngine G UNIV"
  by (simp add: closedEngine_def within_def)

lemma closedEngineD:
  assumes "closedEngine G Os"
  shows "obj \<in> Os \<Longrightarrow> gj_Get G obj key h = Inr (v, h') \<Longrightarrow> within Os v"
    and "gj_ToObject G p h = Inr (obj, h') \<Longrightarrow> obj \<in> Os"
    and "obj \<in> Os \<Longrightarrow> gj_Call G obj this args h = Inr (v, h') \<Longrightarrow> within Os v"
    and "obj \<in> Os \<Longrightarrow> gj_Export G obj h = Inr (ExportPromise (Some (state, v)), h') \<Longrightarrow> within Os v"
  using assms unfolding closedEngine_def by blast+

text \<open>The fuel of the iterators is enough.\<close>

definition iteratorsEnd :: "('o, 'h) gojaEngine \<Rightarrow> nat \<Rightarrow> bool" where
  "iteratorsEnd G n \<longleftrightarrow>
     (\<forall>obj (e :: ('o, 'h) gojaEncoder). gojaMapEntries G n obj e \<noteq> Inl BridgeFuel \<and> gojaSetValues G n obj e \<noteq> Inl BridgeFuel)"

subsection \<open>The parts of the encoder\<close>

locale encoder_steps = threading good grows
    for good :: "('o, 'h) gojaEncoder \<Rightarrow> bool" and grows :: "('o, 'h) gojaEncoder \<Rightarrow> ('o, 'h) gojaEncoder \<Rightarrow> bool" +
  fixes G :: "('o, 'h) gojaEngine" and n :: nat and Os :: "'o set" and allowed :: "bridgeFailure \<Rightarrow> bool"
    and okw :: "wireValue \<Rightarrow> ('o, 'h) gojaEncoder \<Rightarrow> bool"
  assumes good_heap: "good e \<Longrightarrow> good (e\<lparr>ge_heap := h\<rparr>)" and grows_heap: "grows e (e\<lparr>ge_heap := h\<rparr>)"
    and errors: "allowed (BridgeError t)" "allowed (EngineError t)" "allowed (BridgePanic t)" "allowed (BridgeWire err)" "allowed NilDereference"
    and closed: "closedEngine G Os"
    and iterators: "allowed BridgeFuel \<or> iteratorsEnd G n"
    and okw_stable: "stableFor grows (okw w)" and okw_zero: "okw zeroValue e"
begin

definition plainFailures :: "(bridgeFailure \<Rightarrow> bool) \<Rightarrow> bool" where
  "plainFailures A \<longleftrightarrow> A NilDereference \<and> (\<forall>t. A (BridgeError t) \<and> A (EngineError t) \<and> A (BridgePanic t))"

lemma plain_allowed: "plainFailures allowed" and plain_any: "plainFailures (\<lambda>_. True)"
  by (simp_all add: plainFailures_def errors)

definition okNode :: "wireNode \<Rightarrow> ('o, 'h) gojaEncoder \<Rightarrow> bool" where
  "okNode node e \<longleftrightarrow> (\<forall>w \<in> valuesOf node. okw w e)"

lemma okNode_stable: "stable (okNode node)"
  unfolding okNode_def by (rule stable_ball) (rule okw_stable)

lemma spec_calling:
  "(\<And>t. A (fail t)) \<Longrightarrow> (\<And>h x h'. f h = Inr (x, h') \<Longrightarrow> q x) \<Longrightarrow> spec A p (calling fail f) (\<lambda>x s. q x)"
  by (auto simp: threads_def calling_def grows_heap good_heap split: sum.splits)

lemma spec_asking: "spec A p (asking f) (\<lambda>x s. True)"
  by (simp add: threads_def asking_def grows_refl)

lemma spec_then:
  assumes "spec A p f (\<lambda>x s. q x)" and "stable p" and "\<And>x. q x \<Longrightarrow> spec A p (g x) r"
  shows "spec A p (gbind f g) r"
proof (rule spec_bind [OF assms(1,2)])
  show "spec A (\<lambda>s. p s \<and> q x) (g x) r" for x
    using assms(3) [of x] by (cases "q x") (auto simp: threads_def)
qed

lemma spec_get: "plainFailures A \<Longrightarrow> obj \<in> Os \<Longrightarrow> spec A p (gojaGet G obj key) (\<lambda>v s. within Os v)"
  unfolding gojaGet_def by (rule spec_calling) (auto simp: plainFailures_def dest: closedEngineD [OF closed])

lemma spec_call:
  "plainFailures A \<Longrightarrow> f \<in> Os \<Longrightarrow> spec A p (calling EngineError (gj_Call G f this args)) (\<lambda>v s. within Os v)"
  by (rule spec_calling) (auto simp: plainFailures_def dest: closedEngineD [OF closed])

lemma spec_panics: "plainFailures A \<Longrightarrow> spec A p (calling BridgePanic f) (\<lambda>x s. True)"
  by (rule spec_calling) (simp_all add: plainFailures_def)

lemma spec_exports:
  assumes "plainFailures A" and "obj \<in> Os"
  shows "spec A p (calling BridgePanic (gj_Export G obj))
    (\<lambda>x s. \<forall>state v. x = ExportPromise (Some (state, v)) \<longrightarrow> within Os v)"
  by (rule spec_calling) (use assms in \<open>auto simp: plainFailures_def dest: closedEngineD [OF closed]\<close>)

lemma spec_toObject: "plainFailures A \<Longrightarrow> spec A p (calling BridgePanic (gj_ToObject G v)) (\<lambda>obj s. obj \<in> Os)"
  by (rule spec_calling) (auto simp: plainFailures_def dest: closedEngineD [OF closed])

lemma spec_method:
  "plainFailures A \<Longrightarrow> spec A p (gojaString G v) (\<lambda>x s. True)"
  "plainFailures A \<Longrightarrow> spec A p (gojaInteger G v) (\<lambda>x s. True)"
  "plainFailures A \<Longrightarrow> spec A p (gojaBoolean G v) (\<lambda>x s. True)"
  by (simp_all add: gojaString_def gojaInteger_def gojaBoolean_def spec_panics spec_ret spec_fail plainFailures_def)

lemma spec_getText:
  assumes "plainFailures A" and "obj \<in> Os" and "stable p"
  shows "spec A p (GetString G obj key) (\<lambda>x s. True)" and "spec A p (GetInteger G obj key) (\<lambda>x s. True)"
  unfolding GetString_def GetInteger_def
  by (rule spec_then [OF spec_get [OF assms(1,2)] assms(3)], rule spec_method, rule assms(1))+

lemma spec_objectOr: "plainFailures A \<Longrightarrow> within Os v \<Longrightarrow> spec A p (objectOr t v) (\<lambda>obj s. obj \<in> Os)"
  by (cases v) (auto simp: objectOr_def within_def plainFailures_def intro: spec_ret spec_fail)

lemma spec_functionOr:
  assumes "plainFailures A" and "within Os v" and "stable p"
  shows "spec A p (functionOr G t v) (\<lambda>obj s. obj \<in> Os)"
  unfolding functionOr_def
proof (rule spec_then [OF _ assms(3)])
  show "spec A p (AssertFunction G v) (\<lambda>f s. \<forall>obj. f = Some obj \<longrightarrow> obj \<in> Os)"
    using assms(2) by (cases v) (auto simp: AssertFunction_def within_def threads_def asking_def gret_def grows_refl)
  show "spec A p (case f of Some f \<Rightarrow> gret f | None \<Rightarrow> gfail (BridgeError t)) (\<lambda>obj s. obj \<in> Os)"
    if "\<forall>obj. f = Some obj \<longrightarrow> obj \<in> Os" for f
    using that assms(1) by (cases f) (auto simp: plainFailures_def intro: spec_ret spec_fail)
qed

text \<open>The loops over iterators, apart from their fuel.\<close>

lemma spec_iteratorLoop:
  assumes item: "\<And>obj. obj \<in> Os \<Longrightarrow> spec (\<lambda>_. True) p (item obj) (\<lambda>x s. q x)" and p: "stable p" and f: "nextFn \<in> Os"
  shows "spec (\<lambda>_. True) p (iteratorLoop G what item k nextFn it) (\<lambda>xs s. \<forall>x \<in> set xs. q x)"
proof (induction k)
  case 0
  show ?case by (simp add: spec_fail)
next
  case (Suc k)
  show ?case
    unfolding iteratorLoop.simps
  proof (rule spec_then [OF spec_call [OF plain_any f] p])
    fix v assume "within Os v"
    show "spec (\<lambda>_. True) p (gbind (objectOr (''bridge: '' @ what @ '' iterator step is not object'') v) (\<lambda>stepObj.
        gbind (gojaGet G stepObj ''done'') (\<lambda>finished. gbind (gojaBoolean G finished) (\<lambda>finished.
          if finished then gret [] else gbind (item stepObj) (\<lambda>x.
            gbind (iteratorLoop G what item k nextFn it) (\<lambda>xs. gret (x # xs))))))) (\<lambda>xs s. \<forall>x \<in> set xs. q x)"
    proof (rule spec_then [OF spec_objectOr [OF plain_any \<open>within Os v\<close>] p])
      fix stepObj assume step: "stepObj \<in> Os"
      have rest: "spec (\<lambda>_. True) p (gbind (item stepObj) (\<lambda>x.
          gbind (iteratorLoop G what item k nextFn it) (\<lambda>xs. gret (x # xs)))) (\<lambda>xs s. \<forall>x \<in> set xs. q x)"
        by (rule spec_then [OF item [OF step] p], rule spec_then [OF Suc.IH p], rule spec_ret) simp
      show "spec (\<lambda>_. True) p (gbind (gojaGet G stepObj ''done'') (\<lambda>finished. gbind (gojaBoolean G finished) (\<lambda>finished.
          if finished then gret [] else gbind (item stepObj) (\<lambda>x.
            gbind (iteratorLoop G what item k nextFn it) (\<lambda>xs. gret (x # xs)))))) (\<lambda>xs s. \<forall>x \<in> set xs. q x)"
        by (rule spec_then [OF spec_get [OF plain_any step] p], rule spec_then [OF spec_method(3) [OF plain_any] p])
           (simp add: rest spec_ret)
    qed
  qed
qed

lemma spec_iterated:
  assumes item: "\<And>obj. obj \<in> Os \<Longrightarrow> spec (\<lambda>_. True) p (item obj) (\<lambda>x s. q x)" and p: "stable p" and obj: "obj \<in> Os"
  shows "spec (\<lambda>_. True) p (iterated G what iterMethod item k obj) (\<lambda>xs s. \<forall>x \<in> set xs. q x)"
  unfolding iterated_def
  by (rule spec_then [OF spec_get [OF plain_any obj] p], rule spec_then [OF spec_functionOr [OF plain_any _ p] p], assumption,
      rule spec_then [OF spec_call [OF plain_any] p], assumption, rule spec_then [OF spec_objectOr [OF plain_any] p], assumption,
      rule spec_then [OF spec_get [OF plain_any] p], assumption, rule spec_then [OF spec_functionOr [OF plain_any _ p] p], assumption,
      rule spec_iteratorLoop [OF item p])

lemma spec_mapEntries:
  assumes p: "stable p" and obj: "obj \<in> Os"
  shows "spec allowed p (gojaMapEntries G n obj) (\<lambda>xs s. \<forall>(k, v) \<in> set xs. within Os k \<and> within Os v)"
proof (rule spec_failures)
  show "spec (\<lambda>_. True) p (gojaMapEntries G n obj) (\<lambda>xs s. \<forall>(k, v) \<in> set xs. within Os k \<and> within Os v)"
    unfolding gojaMapEntries_def
    by (rule spec_iterated [OF _ p obj], rule spec_then [OF spec_get [OF plain_any] p], assumption,
        rule spec_then [OF spec_objectOr [OF plain_any] p], assumption,
        rule spec_then [OF spec_get [OF plain_any] p], assumption, rule spec_then [OF spec_get [OF plain_any] p], assumption,
        rule spec_ret) simp
  show "allowed err" if "gojaMapEntries G n obj s = Inl err" for s err
    using that iterators errors by (cases err) (auto simp: iteratorsEnd_def)
qed

lemma spec_setValues:
  assumes p: "stable p" and obj: "obj \<in> Os"
  shows "spec allowed p (gojaSetValues G n obj) (\<lambda>xs s. \<forall>v \<in> set xs. within Os v)"
proof (rule spec_failures)
  show "spec (\<lambda>_. True) p (gojaSetValues G n obj) (\<lambda>xs s. \<forall>v \<in> set xs. within Os v)"
    unfolding gojaSetValues_def by (rule spec_iterated [OF spec_get [OF plain_any] p obj])
  show "allowed err" if "gojaSetValues G n obj s = Inl err" for s err
    using that iterators errors by (cases err) (auto simp: iteratorsEnd_def)
qed

end

subsection \<open>Nodes\<close>

context encoder_steps
begin

text \<open>The encoder of the values in an object, as it is used: under a stable condition \<open>p\<close>.\<close>

definition encodes :: "(('o, 'h) gojaEncoder \<Rightarrow> bool) \<Rightarrow> ('o gojaValue \<Rightarrow> ('o, 'h, wireValue) encoding) \<Rightarrow> bool" where
  "encodes p enc \<longleftrightarrow> stable p \<and> (\<forall>v. within Os v \<longrightarrow> spec allowed p (enc v) okw)"

lemma encodes_stable: "encodes p enc \<Longrightarrow> stable (\<lambda>e. p e \<and> okNode node e)"
  by (simp add: encodes_def stable_conj okNode_stable)

lemma encodes_value: "encodes p enc \<Longrightarrow> within Os v \<Longrightarrow> spec allowed (\<lambda>e. p e \<and> okNode node e) (enc v) okw"
  unfolding encodes_def by (auto intro: spec_pre)

text \<open>A value that is encoded and put into the node.\<close>

lemma spec_put:
  assumes "encodes p enc" and "within Os v"
    and "\<And>w. valuesOf (put w) \<subseteq> insert w (valuesOf node)"
  shows "spec allowed (\<lambda>e. p e \<and> okNode node e) (gbind (enc v) (\<lambda>w. gret (put w))) okNode"
  by (rule spec_bind [OF encodes_value [OF assms(1,2)] encodes_stable [OF assms(1)]], rule spec_ret)
     (use assms(3) in \<open>force simp: okNode_def\<close>)

lemma okNode_same: "valuesOf node' \<subseteq> valuesOf node \<Longrightarrow> okNode node e \<Longrightarrow> okNode node' e"
  by (auto simp: okNode_def)

lemma spec_keep: "valuesOf node' \<subseteq> valuesOf node \<Longrightarrow> spec A (\<lambda>e. p e \<and> okNode node e) (gret node') okNode"
  by (rule spec_ret) (auto intro: okNode_same)

lemma spec_promise:
  assumes enc: "encodes p enc" and obj: "obj \<in> Os"
  shows "spec allowed (\<lambda>e. p e \<and> okNode node e) (encodePromise G enc obj node) okNode"
  unfolding encodePromise_def
proof (rule spec_then [OF spec_exports [OF plain_allowed obj] encodes_stable [OF enc]])
  fix x assume x: "\<forall>state v. x = ExportPromise (Some (state, v)) \<longrightarrow> within Os v"
  have other: "spec allowed (\<lambda>e. p e \<and> okNode node e) (gbind (calling BridgePanic (gj_Export G obj)) (\<lambda>exported.
      gfail (BridgeError (''bridge: unsupported goja Promise export '' @ exportedType exported)))) okNode"
    by (rule spec_then [OF spec_panics [OF plain_allowed] encodes_stable [OF enc]], rule spec_fail) (rule errors)
  show "spec allowed (\<lambda>e. p e \<and> okNode node e) (case x of
       ExportPromise (Some (state, result)) \<Rightarrow>
         (if state \<noteq> PromiseStateFulfilled then gfail (BridgeError (''bridge: unsupported goja Promise state '' @ stateText state))
          else gbind (enc result) (\<lambda>promise. gret (node\<lparr>wn_Kind := nodePromise, wn_Promise := promise\<rparr>)))
     | _ \<Rightarrow> gbind (calling BridgePanic (gj_Export G obj)) (\<lambda>exported.
         gfail (BridgeError (''bridge: unsupported goja Promise export '' @ exportedType exported)))) okNode"
    using x other
    by (auto split: exported.split option.split intro!: spec_fail errors spec_put [OF enc])
       (auto simp: valuesOf_def)
qed

lemma spec_array:
  assumes enc: "encodes p enc" and obj: "obj \<in> Os"
  shows "spec allowed (\<lambda>e. p e \<and> okNode node e) (gojaArray G enc obj node) okNode"
proof -
  note st = encodes_stable [OF enc, of node]
  have slot: "spec allowed (\<lambda>e. p e \<and> okNode node e) (arraySlot G enc obj names i) (\<lambda>slot. okw (ws_Value slot))" for names i
  proof (cases "showNat i \<in> set names")
    case True
    have "spec allowed (\<lambda>e. p e \<and> okNode node e)
        (gbind (enc v) (\<lambda>val. gret \<lparr>ws_Present = True, ws_Value = val\<rparr>)) (\<lambda>slot. okw (ws_Value slot))"
      if "within Os v" for v
      by (rule spec_bind [OF encodes_value [OF enc that] st], rule spec_ret) simp
    then have "spec allowed (\<lambda>e. p e \<and> okNode node e) (gbind (gojaGet G obj (showNat i)) (\<lambda>v.
        gbind (enc v) (\<lambda>val. gret \<lparr>ws_Present = True, ws_Value = val\<rparr>))) (\<lambda>slot. okw (ws_Value slot))"
      by (rule spec_then [OF spec_get [OF plain_allowed obj] st])
    with True show ?thesis by (simp add: arraySlot_def)
  qed (auto simp: arraySlot_def okw_zero intro!: spec_ret)
  have slots: "spec allowed (\<lambda>e. p e \<and> okNode node e) (gbind (smap (arraySlot G enc obj names) [0..<len])
      (\<lambda>slots. gret (node\<lparr>wn_Kind := nodeArray, wn_Slots := slots\<rparr>))) okNode" for names len
    by (rule spec_bind [OF spec_smap [OF slot st] st], rule okw_stable, rule spec_ret)
       (auto simp: okNode_def valuesOf_def)
  show ?thesis
    unfolding gojaArray_def
    by (rule spec_then [OF spec_getText(2) [OF plain_allowed obj st] st])
       (auto intro!: spec_fail errors spec_then [OF spec_panics [OF plain_allowed] st] slots)
qed

lemma spec_map:
  assumes enc: "encodes p enc" and obj: "obj \<in> Os"
  shows "spec allowed (\<lambda>e. p e \<and> okNode node e) (gojaMap G n enc obj node) okNode"
  unfolding gojaMap_def
proof (rule spec_then [OF spec_mapEntries [OF _ obj]])
  note st = encodes_stable [OF enc, of node]
  show "stable (\<lambda>e. p e \<and> okNode node e)" "stable (\<lambda>e. p e \<and> okNode node e)" by (rule st)+
  fix entries assume all: "\<forall>(k, v) \<in> set entries. within Os k \<and> within Os v"
  have "spec allowed (\<lambda>e. p e \<and> okNode node e) (mapEntry enc x) (\<lambda>x e. okw (we_Key x) e \<and> okw (we_Value x) e)"
    if x: "x \<in> set entries" for x
  proof -
    have k: "within Os (fst x)" and v: "within Os (snd x)" using all x by auto
    show ?thesis
      unfolding mapEntry_def
    proof (rule spec_bind [OF encodes_value [OF enc k] st])
      fix key
      show "spec allowed (\<lambda>e. (p e \<and> okNode node e) \<and> okw key e)
        (gbind (enc (snd x)) (\<lambda>v. gret \<lparr>we_Key = key, we_Value = v\<rparr>)) (\<lambda>x e. okw (we_Key x) e \<and> okw (we_Value x) e)"
      proof (rule spec_bind)
        show "spec allowed (\<lambda>e. (p e \<and> okNode node e) \<and> okw key e) (enc (snd x)) okw"
          by (rule spec_pre [OF encodes_value [OF enc v, of node]]) simp
      qed (use enc in \<open>auto simp: encodes_def intro!: stable_conj okNode_stable okw_stable spec_ret\<close>)
    qed
  qed
  from spec_smap [OF this st stable_conj [OF okw_stable okw_stable]]
  show "spec allowed (\<lambda>e. p e \<and> okNode node e) (gbind (smap (mapEntry enc) entries)
      (\<lambda>entries. gret (node\<lparr>wn_Kind := nodeMap, wn_Entries := entries\<rparr>))) okNode"
    by (rule spec_bind [OF _ st]) (auto simp: okNode_def valuesOf_def intro!: spec_ret)
qed

lemma spec_set:
  assumes enc: "encodes p enc" and obj: "obj \<in> Os"
  shows "spec allowed (\<lambda>e. p e \<and> okNode node e) (gojaSet G n enc obj node) okNode"
  unfolding gojaSet_def
proof (rule spec_then [OF spec_setValues [OF _ obj]])
  note st = encodes_stable [OF enc, of node]
  show "stable (\<lambda>e. p e \<and> okNode node e)" "stable (\<lambda>e. p e \<and> okNode node e)" by (rule st)+
  fix items assume all: "\<forall>v \<in> set items. within Os v"
  show "spec allowed (\<lambda>e. p e \<and> okNode node e) (gbind (smap enc items)
      (\<lambda>items. gret (node\<lparr>wn_Kind := nodeSet, wn_Values := items\<rparr>))) okNode"
    by (rule spec_bind [OF spec_smap [OF encodes_value [OF enc] st okw_stable] st])
       (use all in \<open>auto simp: okNode_def valuesOf_def intro!: spec_ret\<close>)
qed

lemma spec_typedArray:
  assumes enc: "encodes p enc" and obj: "obj \<in> Os"
  shows "spec allowed (\<lambda>e. p e \<and> okNode node e) (gojaTypedArray G enc obj ctorName node) okNode"
proof -
  note st = encodes_stable [OF enc, of node]
  show ?thesis
    unfolding gojaTypedArray_def
    by (rule spec_then [OF spec_getText(2) [OF plain_allowed obj st] st],
        rule spec_then [OF spec_getText(2) [OF plain_allowed obj st] st],
        rule spec_then [OF spec_get [OF plain_allowed obj] st], rule spec_put [OF enc])
       (auto simp: valuesOf_def)
qed

lemma spec_error:
  assumes enc: "encodes p enc" and obj: "obj \<in> Os"
  shows "spec allowed (\<lambda>e. p e \<and> okNode node e) (gojaError G enc obj node) okNode"
proof -
  note st = encodes_stable [OF enc, of node]
  show ?thesis
    unfolding gojaError_def
    by (rule spec_then [OF spec_getText(1) [OF plain_allowed obj st] st],
        rule spec_then [OF spec_getText(1) [OF plain_allowed obj st] st],
        rule spec_then [OF spec_get [OF plain_allowed obj] st], rule spec_put [OF enc])
       (auto simp: valuesOf_def)
qed

lemma spec_leaves:
  assumes st: "stable (\<lambda>e. p e \<and> okNode node e)" and obj: "obj \<in> Os"
  shows "spec allowed (\<lambda>e. p e \<and> okNode node e) (gojaDate G obj node) okNode"
    and "spec allowed (\<lambda>e. p e \<and> okNode node e) (gojaRegexp G obj node) okNode"
    and "spec allowed (\<lambda>e. p e \<and> okNode node e) (gojaArrayBuffer G obj node) okNode"
proof -
  show "spec allowed (\<lambda>e. p e \<and> okNode node e) (gojaDate G obj node) okNode"
    unfolding gojaDate_def Let_def
    by (rule spec_then [OF spec_panics [OF plain_allowed] st])
       (auto split: exported.split option.split intro!: spec_keep simp: valuesOf_def)
  show "spec allowed (\<lambda>e. p e \<and> okNode node e) (gojaRegexp G obj node) okNode"
    unfolding gojaRegexp_def
    by (rule spec_then [OF spec_getText(1) [OF plain_allowed obj st] st],
        rule spec_then [OF spec_getText(1) [OF plain_allowed obj st] st], rule spec_keep)
       (auto simp: valuesOf_def)
  show "spec allowed (\<lambda>e. p e \<and> okNode node e) (gojaArrayBuffer G obj node) okNode"
    unfolding gojaArrayBuffer_def
    by (rule spec_then [OF spec_panics [OF plain_allowed] st])
       (auto split: exported.split intro!: spec_keep spec_fail errors simp: valuesOf_def)
qed

lemma spec_switch:
  assumes enc: "encodes p enc" and obj: "obj \<in> Os"
  shows "spec allowed (\<lambda>e. p e \<and> okNode node e) (gojaSwitch G n enc obj ctorName className implName node) okNode"
proof (cases "className = ''Function''")
  case True
  then show ?thesis by (simp add: gojaSwitch_def spec_fail errors)
next
  case False
  note st = encodes_stable [OF enc, of node]
  have promise: "spec allowed (\<lambda>e. p e \<and> okNode node e) (gojaIsPromiseObject G obj implName) (\<lambda>x s. True)"
    unfolding gojaIsPromiseObject_def
    by (auto intro!: spec_ret spec_then [OF spec_panics [OF plain_allowed] st] split: exported.split)
  have plainObject: "spec allowed (\<lambda>e. p e \<and> okNode node e)
      (gret (node\<lparr>wn_Kind := nodeObject, wn_TextA := customObjectName ctorName\<rparr>)) okNode"
    by (rule spec_keep) (auto simp: valuesOf_def)
  note parts = spec_promise [OF enc obj, of node] spec_array [OF enc obj, of node] spec_map [OF enc obj, of node]
    spec_set [OF enc obj, of node] spec_leaves [OF st obj] spec_typedArray [OF enc obj, of node]
    spec_error [OF enc obj, of node] plainObject
  show ?thesis
    unfolding gojaSwitch_def if_not_P [OF False]
    by (rule spec_then [OF promise st]) (simp only: parts split: if_split, simp)
qed

lemma spec_isFunction: "spec A p (gojaValueIsFunction G v) (\<lambda>x s. True)"
  by (cases v) (simp_all add: gojaValueIsFunction_def spec_asking spec_ret)

lemma spec_propsLoop:
  assumes enc: "encodes p enc" and obj: "obj \<in> Os"
  shows "spec allowed (\<lambda>e. p e \<and> okNode node e) (gojaPropsLoop G enc obj keys node) okNode"
proof (induction keys arbitrary: node)
  case Nil
  show ?case by (simp add: spec_keep)
next
  case (Cons key keys)
  note st = encodes_stable [OF enc, of node]
  let ?put = "\<lambda>w. node\<lparr>wn_Props := wn_Props node @ [\<lparr>wp_Key = key, wp_Value = w\<rparr>]\<rparr>"
  have val: "spec allowed (\<lambda>e. p e \<and> okNode node e) (gbind (enc v) (\<lambda>w. gojaPropsLoop G enc obj keys (?put w))) okNode"
    if "within Os v" for v
  proof (rule spec_bind [OF encodes_value [OF enc that] st])
    show "spec allowed (\<lambda>s. (p s \<and> okNode node s) \<and> okw w s) (gojaPropsLoop G enc obj keys (?put w)) okNode" for w
      by (rule spec_pre [OF Cons.IH]) (auto simp: okNode_def valuesOf_def)
  qed
  have kept: "spec allowed (\<lambda>e. p e \<and> okNode node e) (gbind (gojaValueIsFunction G v) (\<lambda>isFunction.
      if isFunction then gojaPropsLoop G enc obj keys node
      else gbind (enc v) (\<lambda>w. gojaPropsLoop G enc obj keys (?put w)))) okNode" if "within Os v" for v
    by (rule spec_then [OF spec_isFunction st]) (simp add: Cons.IH val [OF that])
  show ?case
    unfolding gojaPropsLoop.simps
    by (auto simp: Cons.IH intro!: spec_then [OF spec_asking st] spec_fail errors
        spec_then [OF spec_get [OF plain_allowed obj] st] kept)
qed

lemma spec_buildNode:
  assumes enc: "encodes p enc" and obj: "obj \<in> Os"
  shows "spec allowed (\<lambda>e. p e \<and> okNode node e) (buildNode G n enc obj node) okNode"
proof -
  note st = encodes_stable [OF enc, of node]
  have name: "spec allowed (\<lambda>e. p e \<and> okNode node e) (gojaConstructorName G obj) (\<lambda>x s. True)"
    unfolding gojaConstructorName_def
  proof (rule spec_then [OF spec_get [OF plain_allowed obj] st])
    fix ctor assume "within Os ctor"
    then show "spec allowed (\<lambda>e. p e \<and> okNode node e) (case ctor of
        ObjectValue ctorObj \<Rightarrow> gbind (gojaGet G ctorObj ''name'') (\<lambda>name.
          if name \<in> {NilValue, UndefinedValue, NullValue} then gret [] else gojaString G name)
      | _ \<Rightarrow> gret []) (\<lambda>x s. True)"
      by (auto split: gojaValue.split simp: within_def
          intro!: spec_ret spec_then [OF spec_get [OF plain_allowed] st] spec_method(1) [OF plain_allowed])
  qed
  have props: "spec allowed (\<lambda>e. p e \<and> okNode node' e) (appendGojaEnumerableProps G enc obj node') okNode" for node'
  proof -
    note st' = encodes_stable [OF enc, of node']
    have "spec allowed (\<lambda>e. p e \<and> okNode node' e) (gojaEnumerableDataKeys G obj) (\<lambda>x s. True)"
      unfolding gojaEnumerableDataKeys_def
      by (rule spec_then [OF spec_panics [OF plain_allowed] st'], rule spec_ret) simp
    from spec_then [OF this st' spec_propsLoop [OF enc obj]] show ?thesis
      by (simp add: appendGojaEnumerableProps_def)
  qed
  have switch: "spec allowed (\<lambda>e. p e \<and> okNode node e)
      (gbind (gojaSwitch G n enc obj ctorName className implName node) (appendGojaEnumerableProps G enc obj)) okNode"
    for ctorName className implName
    by (rule spec_bind [OF spec_switch [OF enc obj] st], rule spec_pre [OF props]) simp
  show ?thesis
    unfolding buildNode_def
    by (rule spec_then [OF name st], rule spec_then [OF spec_asking st], rule spec_then [OF spec_asking st], rule switch)
qed

end

end
