(* ===== verification/Goja_Graph.thy ===== *)
theory Goja_Graph
  imports Goja_Props Wire_Claims
begin

text \<open>
  The state of the goja encoder: nodes are numbered from one in the order in
  which objects are met, every object has the number of its node, and every
  reference leads to a node. The encoder ends where there are finitely many
  objects.
\<close>

subsection \<open>The numbering\<close>

definition nodeNumber :: "nat \<Rightarrow> 32 word" where "nodeNumber k = of_nat (Suc k)"

definition refWithin :: "nat \<Rightarrow> wireValue \<Rightarrow> bool" where
  "refWithin N w \<longleftrightarrow> (wv_Kind w = valueRef \<longrightarrow> (\<exists>k<N. wv_Ref w = nodeNumber k))"

definition numbered :: "'o set \<Rightarrow> ('o, 'h) gojaEncoder \<Rightarrow> bool" where
  "numbered Os e \<longleftrightarrow>
     map wn_ID (ge_nodes e) = map nodeNumber [0..<length (ge_nodes e)] \<and>
     ge_nextID e = nodeNumber (length (ge_nodes e)) \<and>
     (\<forall>node \<in> set (ge_nodes e). \<forall>w \<in> valuesOf node. refWithin (length (ge_nodes e)) w) \<and>
     (\<exists>os. distinct os \<and> set os \<subseteq> Os \<and> length os = length (ge_nodes e) \<and> dom (ge_seen e) = set os \<and>
       (\<forall>k<length os. ge_seen e (os ! k) = Some (nodeNumber k)))"

definition encoderGrows :: "('o, 'h) gojaEncoder \<Rightarrow> ('o, 'h) gojaEncoder \<Rightarrow> bool" where
  "encoderGrows e e' \<longleftrightarrow> length (ge_nodes e) \<le> length (ge_nodes e') \<and> ge_seen e \<subseteq>\<^sub>m ge_seen e'"

lemma refWithin_mono: "refWithin N w \<Longrightarrow> N \<le> M \<Longrightarrow> refWithin M w"
  by (auto simp: refWithin_def intro: less_le_trans)

lemma refWithin_leaf: "wv_Kind w \<noteq> valueRef \<Longrightarrow> refWithin N w"
  by (simp add: refWithin_def)

lemma zeroValue_leaf: "wv_Kind zeroValue \<noteq> valueRef"
  by (simp add: zeroValue_def)

lemma numbered_seen:
  assumes "numbered Os e" and "ge_seen e obj = Some i"
  shows "\<exists>k<length (ge_nodes e). i = nodeNumber k" and "obj \<in> Os"
proof -
  from assms(1) obtain os where os: "set os \<subseteq> Os" "length os = length (ge_nodes e)" "dom (ge_seen e) = set os"
      "\<forall>k<length os. ge_seen e (os ! k) = Some (nodeNumber k)" by (auto simp: numbered_def)
  from assms(2) os(3) have obj: "obj \<in> set os" by auto
  then show "obj \<in> Os" using os(1) by auto
  from obj obtain k where "k < length os" "obj = os ! k" by (auto simp: in_set_conv_nth)
  with os(2,4) assms(2) show "\<exists>k<length (ge_nodes e). i = nodeNumber k" by auto
qed

lemma numbered_new: "numbered Os (newGojaEncoder h)"
  by (simp add: numbered_def newGojaEncoder_def nodeNumber_def)

lemma numbered_reserve:
  assumes "numbered Os e" and "ge_seen e obj = None" and "obj \<in> Os"
  shows "numbered Os (reserveNode obj e)"
proof -
  let ?N = "length (ge_nodes e)"
  from assms(1) obtain os where os: "distinct os" "set os \<subseteq> Os" "length os = ?N" "dom (ge_seen e) = set os"
      "\<forall>k<length os. ge_seen e (os ! k) = Some (nodeNumber k)" by (auto simp: numbered_def)
  have new: "obj \<notin> set os" using assms(2) os(4) by auto
  have ids: "map wn_ID (ge_nodes e) = map nodeNumber [0..<?N]" "ge_nextID e = nodeNumber ?N"
    and refs: "\<forall>node \<in> set (ge_nodes e). \<forall>w \<in> valuesOf node. refWithin ?N w"
    using assms(1) by (simp_all add: numbered_def)
  have "\<forall>k<length (os @ [obj]). ge_seen (reserveNode obj e) ((os @ [obj]) ! k) = Some (nodeNumber k)"
    using os(3,5) ids(2) new by (auto simp: reserveNode_def nth_append less_Suc_eq)
  moreover have "ge_nextID (reserveNode obj e) = nodeNumber (Suc ?N)"
    using ids(2) by (simp add: reserveNode_def nodeNumber_def)
  moreover have "refWithin (Suc ?N) w" if "node \<in> set (ge_nodes (reserveNode obj e))" "w \<in> valuesOf node" for node w
    using that refs
    by (auto simp: reserveNode_def valuesOf_zero refWithin_leaf zeroValue_leaf intro: refWithin_mono [of ?N _ "Suc ?N"])
  ultimately show ?thesis
    using os new ids assms(3) unfolding numbered_def
    by (auto simp: reserveNode_def intro!: exI [of _ "os @ [obj]"])
qed

lemma numbered_store:
  assumes "numbered Os e" and "i < length (ge_nodes e)" and "wn_ID node = nodeNumber i"
    and "\<And>w. w \<in> valuesOf node \<Longrightarrow> refWithin (length (ge_nodes e)) w"
  shows "numbered Os (storeNode i node e)"
proof -
  have ids: "map wn_ID (ge_nodes e) = map nodeNumber [0..<length (ge_nodes e)]" using assms(1) by (simp add: numbered_def)
  then have "map wn_ID ((ge_nodes e)[i := node]) = map nodeNumber [0..<length (ge_nodes e)]"
    using assms(2,3) by (simp add: map_update list_update_same_conv)
  then show ?thesis
    using assms(1,4) unfolding numbered_def by (auto simp: storeNode_def dest!: set_update_subset_insert [THEN subsetD])
qed

lemma grows_store: "encoderGrows e (storeNode i node e)"
  by (simp add: encoderGrows_def storeNode_def)

lemma grows_reserve: "ge_seen e obj = None \<Longrightarrow> encoderGrows e (reserveNode obj e)"
  by (auto simp: encoderGrows_def reserveNode_def map_le_def)

subsection \<open>Identifiers of nodes stay\<close>

lemma gbind_Inr_iff: "gbind f g s = Inr (y, s'') \<longleftrightarrow> (\<exists>x s'. f s = Inr (x, s') \<and> g x s' = Inr (y, s''))"
  by (auto simp: gbind_def rbind_Inr_iff)

lemma gret_Inr_iff: "gret x s = Inr (y, s') \<longleftrightarrow> y = x \<and> s' = s"
  by (auto simp: gret_def)

lemma gfail_Inr_iff: "gfail err s = Inr r \<longleftrightarrow> False"
  by (simp add: gfail_def)

lemmas g_iffs = gbind_Inr_iff gret_Inr_iff gfail_Inr_iff

lemma promise_ID:
  assumes "encodePromise G enc obj node e = Inr (node', e')"
  shows "wn_ID node' = wn_ID node"
proof -
  from assms obtain x s where "(case x of
       ExportPromise (Some (state, result)) \<Rightarrow>
         (if state \<noteq> PromiseStateFulfilled
          then gfail (BridgeError (''bridge: unsupported goja Promise state '' @ stateText state))
          else gbind (enc result) (\<lambda>promise. gret (node\<lparr>wn_Kind := nodePromise, wn_Promise := promise\<rparr>)))
     | _ \<Rightarrow> gbind (calling BridgePanic (gj_Export G obj)) (\<lambda>exported.
         gfail (BridgeError (''bridge: unsupported goja Promise export '' @ exportedType exported)))) s = Inr (node', e')"
    unfolding encodePromise_def gbind_Inr_iff by blast
  then show ?thesis by (cases x) (auto simp: g_iffs split: option.splits if_splits)
qed

lemma parts_ID:
  "gojaArray G enc obj node e = Inr (node', e') \<Longrightarrow> wn_ID node' = wn_ID node"
  "gojaMap G n enc obj node e = Inr (node', e') \<Longrightarrow> wn_ID node' = wn_ID node"
  "gojaSet G n enc obj node e = Inr (node', e') \<Longrightarrow> wn_ID node' = wn_ID node"
  "gojaRegexp G obj node e = Inr (node', e') \<Longrightarrow> wn_ID node' = wn_ID node"
  "gojaTypedArray G enc obj ctorName node e = Inr (node', e') \<Longrightarrow> wn_ID node' = wn_ID node"
  "gojaError G enc obj node e = Inr (node', e') \<Longrightarrow> wn_ID node' = wn_ID node"
  by (auto simp: gojaArray_def gojaMap_def gojaSet_def gojaRegexp_def gojaTypedArray_def gojaError_def g_iffs split: if_splits)

lemma exports_ID:
  "gojaArrayBuffer G obj node e = Inr (node', e') \<Longrightarrow> wn_ID node' = wn_ID node"
  "gojaDate G obj node e = Inr (node', e') \<Longrightarrow> wn_ID node' = wn_ID node"
proof -
  have "wn_ID node' = wn_ID node" if "(case x of ExportArrayBuffer bs \<Rightarrow> gret (node\<lparr>wn_Kind := nodeArrayBuffer, wn_Bytes := bs\<rparr>)
      | _ \<Rightarrow> gfail (BridgeError (''bridge: unexpected goja ArrayBuffer export '' @ exportedType x))) s = Inr (node', e')" for x s
    using that by (cases x) (auto simp: g_iffs)
  then show "gojaArrayBuffer G obj node e = Inr (node', e') \<Longrightarrow> wn_ID node' = wn_ID node"
    unfolding gojaArrayBuffer_def gbind_Inr_iff by blast
  have "wn_ID node' = wn_ID node" if "(case x of ExportTime t \<Rightarrow> gret (node\<lparr>wn_Kind := nodeDate, wn_DateValid := True, wn_DateMS := UnixMilli t\<rparr>)
      | ExportTimePointer (Some t) \<Rightarrow> gret (node\<lparr>wn_Kind := nodeDate, wn_DateValid := True, wn_DateMS := UnixMilli t\<rparr>)
      | _ \<Rightarrow> gret (node\<lparr>wn_Kind := nodeDate\<rparr>)) s = Inr (node', e')" for x s
    using that by (cases x) (auto simp: g_iffs split: option.splits)
  then show "gojaDate G obj node e = Inr (node', e') \<Longrightarrow> wn_ID node' = wn_ID node"
    unfolding gojaDate_def gbind_Inr_iff Let_def by blast
qed

lemma either: "(if b then f else g) s = r \<Longrightarrow> (f s = r \<Longrightarrow> P) \<Longrightarrow> (g s = r \<Longrightarrow> P) \<Longrightarrow> P"
  by (cases b) auto

lemma switch_ID:
  assumes "gojaSwitch G n enc obj ctorName className implName node e = Inr (node', e')"
  shows "wn_ID node' = wn_ID node"
proof (cases "className = ''Function''")
  case False
  with assms obtain isPromise s where "(if isPromise then encodePromise G enc obj node
        else if className = ''Array'' then gojaArray G enc obj node
        else if implName = ''mapObject'' then gojaMap G n enc obj node
        else if implName = ''setObject'' then gojaSet G n enc obj node
        else if implName = ''dateObject'' \<or> className = ''Date'' then gojaDate G obj node
        else if implName = ''regexpObject'' \<or> className = ''RegExp'' then gojaRegexp G obj node
        else if implName = ''arrayBufferObject'' then gojaArrayBuffer G obj node
        else if implName = ''typedArrayObject'' \<or> implName = ''dataViewObject'' then gojaTypedArray G enc obj ctorName node
        else if implName = ''errorObject'' \<or> className = ''Error'' then gojaError G enc obj node
        else gret (node\<lparr>wn_Kind := nodeObject, wn_TextA := customObjectName ctorName\<rparr>)) s = Inr (node', e')"
    unfolding gojaSwitch_def if_not_P [OF False] gbind_Inr_iff by blast
  then show ?thesis
    by (elim either promise_ID parts_ID exports_ID) (simp add: gret_Inr_iff)
qed (use assms in \<open>simp add: gojaSwitch_def gfail_Inr_iff\<close>)

lemma propsLoop_ID: "gojaPropsLoop G enc obj keys node e = Inr (node', e') \<Longrightarrow> wn_ID node' = wn_ID node"
  by (induction keys arbitrary: node e) (auto simp: g_iffs split: if_splits)

lemma buildNode_ID: "buildNode G n enc obj node e = Inr (node', e') \<Longrightarrow> wn_ID node' = wn_ID node"
  by (auto simp: buildNode_def appendGojaEnumerableProps_def g_iffs dest!: propsLoop_ID switch_ID)

subsection \<open>The encoder over an engine\<close>

text \<open>
  An engine that stays within the objects \<open>Os\<close>. If \<open>strict\<close>, the objects are
  finitely many and iterators end, and the fuel does not run out.
\<close>

definition encoderFails :: "bool \<Rightarrow> bridgeFailure \<Rightarrow> bool" where
  "encoderFails strict err \<longleftrightarrow> (strict \<longrightarrow> err \<noteq> BridgeFuel)"

definition fuelFor :: "bool \<Rightarrow> 'o set \<Rightarrow> nat \<Rightarrow> ('o, 'h) gojaEncoder \<Rightarrow> bool" where
  "fuelFor strict Os k e \<longleftrightarrow> (strict \<longrightarrow> card (Os - dom (ge_seen e)) < k)"

definition refIntact :: "wireValue \<Rightarrow> ('o, 'h) gojaEncoder \<Rightarrow> bool" where
  "refIntact w e \<longleftrightarrow> refWithin (length (ge_nodes e)) w"

locale object_engine =
  fixes G :: "('o, 'h) gojaEngine" and n :: nat and Os :: "'o set" and strict :: bool
  assumes closed_engine: "closedEngine G Os" and finite_engine: "strict \<Longrightarrow> finite Os \<and> iteratorsEnd G n"

sublocale object_engine \<subseteq> encoder_steps "numbered Os" encoderGrows G n Os "encoderFails strict" refIntact
proof
  show "encoderGrows e e" for e by (simp add: encoderGrows_def)
  show "encoderGrows e e'' " if "encoderGrows e e'" "encoderGrows e' e''" for e e' e''
    using that by (auto simp: encoderGrows_def intro: map_le_trans)
  show "numbered Os (e\<lparr>ge_heap := h\<rparr>)" if "numbered Os e" for e h using that by (simp add: numbered_def)
  show "encoderFails strict BridgeFuel \<or> iteratorsEnd G n" using finite_engine by (auto simp: encoderFails_def)
  show "stableFor encoderGrows (refIntact w)" for w
    by (auto simp: stableFor_def encoderGrows_def refIntact_def intro: refWithin_mono)
qed (auto simp: encoderGrows_def encoderFails_def closed_engine refIntact_def refWithin_def zeroValue_def)

context object_engine
begin

lemma fuelFor_stable: "stable (fuelFor strict Os k)"
proof -
  have "card (Os - dom (ge_seen e')) \<le> card (Os - dom (ge_seen e))" if "strict" "encoderGrows e e'" for e e' :: "('o, 'h) gojaEncoder"
    using that finite_engine by (intro card_mono) (auto simp: encoderGrows_def map_le_def dom_def)
  then show ?thesis by (force simp: stableFor_def fuelFor_def)
qed

lemma fuelFor_reserve:
  assumes "fuelFor strict Os (Suc k) e" and "ge_seen e obj = None" and "obj \<in> Os"
  shows "fuelFor strict Os k (reserveNode obj e)"
  unfolding fuelFor_def
proof
  assume strict
  then have "finite Os" using finite_engine by simp
  have "Os - dom (ge_seen (reserveNode obj e)) = (Os - dom (ge_seen e)) - {obj}" by (auto simp: reserveNode_def)
  moreover have "obj \<in> Os - dom (ge_seen e)" using assms(2,3) by auto
  ultimately have "card (Os - dom (ge_seen (reserveNode obj e))) < card (Os - dom (ge_seen e))"
    using \<open>finite Os\<close> by (metis card_Diff1_less finite_Diff)
  with assms(1) \<open>strict\<close> show "card (Os - dom (ge_seen (reserveNode obj e))) < k" by (simp add: fuelFor_def)
qed

lemma spec_object:
  assumes enc: "encodes (fuelFor strict Os k) enc" and obj: "obj \<in> Os"
  shows "spec (encoderFails strict) (fuelFor strict Os (Suc k)) (gojaEncodeObject G n enc obj) refIntact"
  unfolding threads_def
proof (intro allI impI)
  fix e :: "('o, 'h) gojaEncoder"
  assume e: "numbered Os e" "fuelFor strict Os (Suc k) e"
  show "case gojaEncodeObject G n enc obj e of Inl err \<Rightarrow> encoderFails strict err
      | Inr (w, e') \<Rightarrow> numbered Os e' \<and> encoderGrows e e' \<and> refIntact w e'"
  proof (cases "ge_seen e obj")
    case (Some i)
    with e(1) numbered_seen [OF e(1)] show ?thesis
      by (auto simp: gojaEncodeObject_def encoderGrows_def refIntact_def refWithin_def refValue_def)
  next
    case None
    let ?node = "zeroNode\<lparr>wn_ID := ge_nextID e\<rparr>" and ?e = "reserveNode obj e"
    have nextID: "ge_nextID e = nodeNumber (length (ge_nodes e))" using e(1) by (simp add: numbered_def)
    have "okNode ?node ?e" by (simp add: okNode_def valuesOf_zero refIntact_def refWithin_leaf zeroValue_leaf)
    with spec_buildNode [OF enc obj, of ?node] numbered_reserve [OF e(1) None obj] fuelFor_reserve [OF e(2) None obj]
    have built: "case buildNode G n enc obj ?node ?e of Inl err \<Rightarrow> encoderFails strict err
        | Inr (node, e') \<Rightarrow> numbered Os e' \<and> encoderGrows ?e e' \<and> okNode node e'"
      by (simp add: threads_def)
    show ?thesis
    proof (cases "buildNode G n enc obj ?node ?e")
      case (Inl err)
      with built None show ?thesis by (simp add: gojaEncodeObject_def)
    next
      case (Inr r)
      obtain node e' where r: "r = (node, e')" by fastforce
      with built Inr have e': "numbered Os e'" "encoderGrows ?e e'" "okNode node e'" by auto
      let ?s = "storeNode (length (ge_nodes e)) node e'"
      have len: "length (ge_nodes e) < length (ge_nodes e')" using e'(2) by (simp add: encoderGrows_def reserveNode_def)
      have "wn_ID node = nodeNumber (length (ge_nodes e))" using buildNode_ID [OF Inr [unfolded r]] nextID by simp
      then have "numbered Os ?s"
        using e'(3) by (intro numbered_store [OF e'(1) len]) (auto simp: okNode_def refIntact_def)
      moreover have "encoderGrows e ?s"
        by (rule grows_trans [OF grows_trans [OF grows_reserve [OF None] e'(2)] grows_store])
      moreover have "refIntact (refValue (ge_nextID e)) ?s"
        using len nextID by (auto simp: refIntact_def refWithin_def refValue_def storeNode_def)
      ultimately show ?thesis using None Inr r by (simp add: gojaEncodeObject_def)
    qed
  qed
qed

lemma encodePrimitive_leaf: "encodePrimitive p = Some w \<Longrightarrow> wv_Kind w \<noteq> valueRef"
  by (cases p) (auto simp: numberValue_def)

lemma spec_leaf: "wv_Kind w \<noteq> valueRef \<Longrightarrow> spec A p (gret w) refIntact"
  by (rule spec_ret) (simp add: refIntact_def refWithin_leaf)

lemma spec_valueWith:
  assumes object: "\<And>obj. obj \<in> Os \<Longrightarrow> spec (encoderFails strict) p (object obj) refIntact" and p: "stable p" and v: "within Os v"
  shows "spec (encoderFails strict) p (valueWith G object v) refIntact"
proof (cases v)
  case (PrimitiveValue x)
  from spec_then [OF spec_toObject [OF plain_allowed] p object] PrimitiveValue show ?thesis
    by (auto simp: valueWith_def split: option.split intro: spec_leaf dest: encodePrimitive_leaf)
next
  case (ObjectValue obj)
  with v have obj: "obj \<in> Os" by (simp add: within_def)
  have "spec (encoderFails strict) p (case x of
      ExportPrimitive p \<Rightarrow> (case encodePrimitive p of Some w \<Rightarrow> gret w | None \<Rightarrow> object obj)
    | _ \<Rightarrow> object obj) refIntact" for x
    using object [OF obj] by (auto split: exported.split option.split intro: spec_leaf dest: encodePrimitive_leaf)
  from spec_then [OF spec_panics [OF plain_allowed] p this] ObjectValue show ?thesis by (simp add: valueWith_def)
qed (auto simp: valueWith_def encoderFails_def zeroValue_def intro!: spec_leaf spec_fail)

lemma encodeValue_spec:
  "within Os v \<Longrightarrow> spec (encoderFails strict) (fuelFor strict Os k) (gojaEncodeValue G n k v) refIntact"
proof (induction k arbitrary: v)
  case 0
  then show ?case by (auto simp: threads_def fuelFor_def gfail_def encoderFails_def)
next
  case (Suc k)
  have enc: "encodes (fuelFor strict Os k) (gojaEncodeValue G n k)"
    unfolding encodes_def using fuelFor_stable Suc.IH by blast
  show ?case
    unfolding gojaEncodeValue.simps by (rule spec_valueWith [OF spec_object [OF enc] fuelFor_stable Suc.prems])
qed

end

text \<open>Any engine stays within the set of all objects.\<close>

interpretation any_engine: object_engine G n UNIV False for G n
  by unfold_locales (simp_all add: closedEngine_UNIV)

end
