(* ===== verification/Goja_Faithful.thy ===== *)
theory Goja_Faithful
  imports Goja_Graph
begin

text \<open>
  The graph of an engine that is only read. If reading answers the same whenever
  it happens (\<open>steadyEngine\<close>), the encoder, which numbers objects while it walks
  them, computes what a second pass would: every node is what \<open>buildNode\<close> makes
  of its object when values are described by the final numbers (\<open>describeNumbered\<close>),
  without recursion. \<open>follows\<close> relates the parts of the encoder to the second pass.
\<close>

subsection \<open>The second pass\<close>

definition describeNumbered :: "('o, 'h) gojaEngine \<Rightarrow> ('o \<rightharpoonup> 32 word) \<Rightarrow> 'o gojaValue \<Rightarrow> ('o, 'h, wireValue) encoding" where
  "describeNumbered G ids = valueWith G (\<lambda>obj. gret (refValue (the (ids obj))))"

text \<open>A call that succeeds in a heap of \<open>H\<close> succeeds in every one, with the same answer, and stays in \<open>H\<close>.\<close>

definition steadyAnswers :: "'h set \<Rightarrow> ('h \<Rightarrow> 'e + 'a \<times> 'h) \<Rightarrow> bool" where
  "steadyAnswers H f \<longleftrightarrow> (\<forall>h \<in> H. \<forall>x h1. f h = Inr (x, h1) \<longrightarrow> h1 \<in> H \<and> (\<forall>h' \<in> H. \<exists>h2 \<in> H. f h' = Inr (x, h2)))"

definition sameOn :: "'h set \<Rightarrow> ('h \<Rightarrow> 'a) \<Rightarrow> bool" where
  "sameOn H f \<longleftrightarrow> (\<forall>h \<in> H. \<forall>h' \<in> H. f h = f h')"

text \<open>The entries of a map and the values of a set, as functions of the heap.\<close>

definition onHeap :: "('o, 'h, 'a) encoding \<Rightarrow> 'h \<Rightarrow> bridgeFailure + 'a \<times> 'h" where
  "onHeap f h = rbind (f (newGojaEncoder h)) (\<lambda>(x, e). Inr (x, ge_heap e))"

definition steadyEngine :: "('o, 'h) gojaEngine \<Rightarrow> nat \<Rightarrow> 'o set \<Rightarrow> 'h set \<Rightarrow> bool" where
  "steadyEngine G n Os H \<longleftrightarrow> closedEngine G Os \<and>
     (\<forall>obj \<in> Os. (\<forall>key. steadyAnswers H (gj_Get G obj key) \<and> sameOn H (gj_HasAccessor G obj key)) \<and>
       steadyAnswers H (gj_Export G obj) \<and> steadyAnswers H (gj_GetOwnPropertyNames G obj) \<and> steadyAnswers H (gj_Keys G obj) \<and>
       sameOn H (gj_ClassName G obj) \<and> sameOn H (gj_ImplName G obj) \<and>
       steadyAnswers H (onHeap (gojaMapEntries G n obj)) \<and> steadyAnswers H (onHeap (gojaSetValues G n obj))) \<and>
     (\<forall>v. steadyAnswers H (gj_String G v) \<and> steadyAnswers H (gj_ToInteger G v)) \<and> (\<forall>p. steadyAnswers H (gj_ToObject G p))"

subsection \<open>Steps that only read the heap\<close>

text \<open>A step that uses nothing of the state but the heap.\<close>

definition heapOnly :: "('o, 'h, 'a) encoding \<Rightarrow> bool" where
  "heapOnly f \<longleftrightarrow> (\<forall>e. f e = rbind (onHeap f (ge_heap e)) (\<lambda>(x, h). Inr (x, e\<lparr>ge_heap := h\<rparr>)))"

lemma heapOnlyI:
  assumes "\<And>e. f e = rbind (g (ge_heap e)) (\<lambda>(x, h). Inr (x, e\<lparr>ge_heap := h\<rparr>))"
  shows "heapOnly f"
proof -
  have "onHeap f h = g h" for h
    by (cases "g h") (auto simp: onHeap_def assms newGojaEncoder_def split: prod.splits)
  with assms show ?thesis by (simp add: heapOnly_def)
qed

lemma heapOnly_calling: "heapOnly (calling fail f)"
  by (rule heapOnlyI [where g = "\<lambda>h. case f h of Inl t \<Rightarrow> Inl (fail t) | Inr r \<Rightarrow> Inr r"])
     (auto simp: calling_def split: sum.splits)

lemma heapOnly_asking: "heapOnly (asking f)"
  by (rule heapOnlyI [where g = "\<lambda>h. Inr (f h, h)"]) (simp add: asking_def)

lemma heapOnly_ret: "heapOnly (gret x)" and heapOnly_fail: "heapOnly (gfail err)"
  by (rule heapOnlyI [where g = "\<lambda>h. Inr (x, h)"], simp add: gret_def)
     (rule heapOnlyI [where g = "\<lambda>h. Inl err"], simp add: gfail_def)

lemma heapOnly_bind:
  assumes f: "heapOnly f" and g: "\<And>x. heapOnly (g x)"
  shows "heapOnly (gbind f g)"
proof (rule heapOnlyI [where g = "\<lambda>h. rbind (onHeap f h) (\<lambda>(x, h). onHeap (g x) h)"])
  fix e :: "('a, 'b) gojaEncoder"
  have fe: "f e = rbind (onHeap f (ge_heap e)) (\<lambda>(x, h). Inr (x, e\<lparr>ge_heap := h\<rparr>))" using f by (simp add: heapOnly_def)
  show "gbind f g e = rbind (rbind (onHeap f (ge_heap e)) (\<lambda>(x, h). onHeap (g x) h)) (\<lambda>(x, h). Inr (x, e\<lparr>ge_heap := h\<rparr>))"
  proof (cases "onHeap f (ge_heap e)")
    case (Inr r)
    obtain x h where r: "r = (x, h)" by fastforce
    have "g x (e\<lparr>ge_heap := h\<rparr>) = rbind (onHeap (g x) h) (\<lambda>(y, h'). Inr (y, e\<lparr>ge_heap := h\<rparr>\<lparr>ge_heap := h'\<rparr>))"
      using g [of x] unfolding heapOnly_def by simp
    then show ?thesis by (simp add: gbind_def fe Inr r)
  qed (simp add: gbind_def fe)
qed

lemmas heapOnly_steps = heapOnly_calling heapOnly_asking heapOnly_ret heapOnly_fail heapOnly_bind

lemma heapOnly_objectOr: "heapOnly (objectOr t v)" and heapOnly_functionOr: "heapOnly (functionOr G t v)"
  and heapOnly_get: "heapOnly (gojaGet G obj key)" and heapOnly_boolean: "heapOnly (gojaBoolean G v)"
  by (auto simp: objectOr_def functionOr_def AssertFunction_def gojaGet_def gojaBoolean_def
      split: gojaValue.split option.split intro!: heapOnly_steps)

lemma heapOnly_iteratorLoop: "(\<And>obj. heapOnly (item obj)) \<Longrightarrow> heapOnly (iteratorLoop G what item k nextFn it)"
  by (induction k) (auto intro!: heapOnly_steps heapOnly_objectOr heapOnly_get heapOnly_boolean)

lemma heapOnly_iterated: "(\<And>obj. heapOnly (item obj)) \<Longrightarrow> heapOnly (iterated G what m item k obj)"
  unfolding iterated_def
  by (intro heapOnly_steps heapOnly_objectOr heapOnly_functionOr heapOnly_get heapOnly_iteratorLoop)

lemma heapOnly_entries: "heapOnly (gojaMapEntries G k obj)" "heapOnly (gojaSetValues G k obj)"
  unfolding gojaMapEntries_def gojaSetValues_def
  by (intro heapOnly_iterated heapOnly_steps heapOnly_objectOr heapOnly_get)+

subsection \<open>The encoder follows the second pass\<close>

definition described :: "('o, 'h) gojaEngine \<Rightarrow> nat \<Rightarrow> 'h set \<Rightarrow> ('o \<rightharpoonup> 32 word) \<Rightarrow> 'o \<Rightarrow> 32 word \<Rightarrow> wireNode \<Rightarrow> bool" where
  "described G n H m obj i node \<longleftrightarrow>
     (\<forall>ids e. m \<subseteq>\<^sub>m ids \<longrightarrow> ge_heap e \<in> H \<longrightarrow>
       (\<exists>h \<in> H. buildNode G n (describeNumbered G ids) obj (zeroNode\<lparr>wn_ID := i\<rparr>) e = Inr (node, e\<lparr>ge_heap := h\<rparr>)))"

text \<open>
  The objects seen so far, in the order of their numbers. The nodes of the
  objects in \<open>Op\<close> are being built; the others are what the second pass makes.
\<close>

definition tracks :: "('o, 'h) gojaEngine \<Rightarrow> nat \<Rightarrow> 'o set \<Rightarrow> 'h set \<Rightarrow> 'o list \<Rightarrow> 'o set \<Rightarrow> ('o, 'h) gojaEncoder \<Rightarrow> bool" where
  "tracks G n Os H os Op e \<longleftrightarrow>
     distinct os \<and> length os = length (ge_nodes e) \<and> ge_nextID e = nodeNumber (length os) \<and> dom (ge_seen e) = set os \<and>
     set os \<subseteq> Os \<and> ge_heap e \<in> H \<and>
     (\<forall>k<length os. ge_seen e (os ! k) = Some (nodeNumber k) \<and>
       (os ! k \<notin> Op \<longrightarrow> described G n H (ge_seen e) (os ! k) (nodeNumber k) (ge_nodes e ! k)))"

definition follows ::
    "('o, 'h) gojaEngine \<Rightarrow> nat \<Rightarrow> 'o set \<Rightarrow> 'h set \<Rightarrow> ('a \<Rightarrow> bool) \<Rightarrow> ('o, 'h, 'a) encoding \<Rightarrow>
     (('o \<rightharpoonup> 32 word) \<Rightarrow> ('o, 'h, 'a) encoding) \<Rightarrow> bool" where
  "follows G n Os H Q f g \<longleftrightarrow>
     (\<forall>os Op e x e'. tracks G n Os H os Op e \<longrightarrow> f e = Inr (x, e') \<longrightarrow>
       (\<exists>os'. tracks G n Os H (os @ os') Op e') \<and> Q x \<and>
       (\<forall>ids d. ge_seen e' \<subseteq>\<^sub>m ids \<longrightarrow> ge_heap d \<in> H \<longrightarrow> (\<exists>h \<in> H. g ids d = Inr (x, d\<lparr>ge_heap := h\<rparr>))))"

lemma tracks_seen:
  assumes "tracks G n Os H os Op e" and "tracks G n Os H (os @ os') Op' e'"
  shows "ge_seen e \<subseteq>\<^sub>m ge_seen e'"
  unfolding map_le_def
proof
  fix obj assume "obj \<in> dom (ge_seen e)"
  then obtain k where k: "k < length os" "obj = os ! k" using assms(1) by (auto simp: tracks_def in_set_conv_nth)
  then have "ge_seen e' ((os @ os') ! k) = Some (nodeNumber k)" using assms(2) by (simp add: tracks_def)
  with k assms(1) show "ge_seen e obj = ge_seen e' obj" by (simp add: tracks_def nth_append)
qed

lemma follows_bind:
  assumes f: "follows G n Os H Q f f'" and g: "\<And>x. Q x \<Longrightarrow> follows G n Os H R (g x) (\<lambda>ids. g' ids x)"
  shows "follows G n Os H R (gbind f g) (\<lambda>ids. gbind (f' ids) (g' ids))"
  unfolding follows_def
proof (intro allI impI)
  fix os Op e y e2 assume e: "tracks G n Os H os Op e" and run: "gbind f g e = Inr (y, e2)"
  from run obtain x e1 where x: "f e = Inr (x, e1)" and y: "g x e1 = Inr (y, e2)" by (auto simp: gbind_Inr_iff)
  from f e x obtain os1 where os1: "tracks G n Os H (os @ os1) Op e1" and Q: "Q x"
    and f1: "\<And>ids d. ge_seen e1 \<subseteq>\<^sub>m ids \<Longrightarrow> ge_heap d \<in> H \<Longrightarrow> \<exists>h \<in> H. f' ids d = Inr (x, d\<lparr>ge_heap := h\<rparr>)"
    unfolding follows_def by meson
  from g [OF Q] os1 y obtain os2 where os2: "tracks G n Os H ((os @ os1) @ os2) Op e2" and R: "R y"
    and g1: "\<And>ids d. ge_seen e2 \<subseteq>\<^sub>m ids \<Longrightarrow> ge_heap d \<in> H \<Longrightarrow> \<exists>h \<in> H. g' ids x d = Inr (y, d\<lparr>ge_heap := h\<rparr>)"
    unfolding follows_def by meson
  have "\<exists>h \<in> H. gbind (f' ids) (g' ids) d = Inr (y, d\<lparr>ge_heap := h\<rparr>)" if "ge_seen e2 \<subseteq>\<^sub>m ids" "ge_heap d \<in> H" for ids d
  proof -
    note ids = that
    have "ge_seen e1 \<subseteq>\<^sub>m ids" using tracks_seen [OF os1 os2] ids(1) by (rule map_le_trans)
    with f1 ids(2) obtain h where h: "h \<in> H" "f' ids d = Inr (x, d\<lparr>ge_heap := h\<rparr>)" by blast
    from g1 [OF ids(1), of "d\<lparr>ge_heap := h\<rparr>"] h(1)
    obtain h' where "h' \<in> H" "g' ids x (d\<lparr>ge_heap := h\<rparr>) = Inr (y, d\<lparr>ge_heap := h\<rparr>\<lparr>ge_heap := h'\<rparr>)" by auto
    with h show ?thesis by (auto simp: gbind_def)
  qed
  with os2 R show "(\<exists>os'. tracks G n Os H (os @ os') Op e2) \<and> R y \<and>
      (\<forall>ids d. ge_seen e2 \<subseteq>\<^sub>m ids \<longrightarrow> ge_heap d \<in> H \<longrightarrow> (\<exists>h \<in> H. gbind (f' ids) (g' ids) d = Inr (y, d\<lparr>ge_heap := h\<rparr>)))"
    by (metis append.assoc)
qed

lemma follows_ret: "Q x \<Longrightarrow> follows G n Os H Q (gret x) (\<lambda>ids. gret x)"
  unfolding follows_def gret_def
  by (auto intro: exI [of _ "[]"]) (metis gojaEncoder.surjective gojaEncoder.update_convs(4))

lemma follows_done: "follows G n Os H (\<lambda>x. True) (gret x) (\<lambda>ids. gret x)"
  by (rule follows_ret) (rule TrueI)

lemma follows_fail: "follows G n Os H Q (gfail err) g"
  by (simp add: follows_def gfail_def)

lemma follows_weaken: "follows G n Os H Q f g \<Longrightarrow> (\<And>x. Q x \<Longrightarrow> R x) \<Longrightarrow> follows G n Os H R f g"
  unfolding follows_def by blast

lemma follows_if:
  "(b \<Longrightarrow> follows G n Os H Q f f') \<Longrightarrow> (\<not> b \<Longrightarrow> follows G n Os H Q g g') \<Longrightarrow>
     follows G n Os H Q (if b then f else g) (\<lambda>ids. if b then f' ids else g' ids)"
  by (cases b) simp_all

lemma tracks_heap: "tracks G n Os H os Op e \<Longrightarrow> h \<in> H \<Longrightarrow> tracks G n Os H os Op (e\<lparr>ge_heap := h\<rparr>)"
  by (simp add: tracks_def)

lemma follows_heapOnly:
  assumes only: "heapOnly f" and steady: "steadyAnswers H (onHeap f)" and Q: "\<And>e x e'. f e = Inr (x, e') \<Longrightarrow> Q x"
  shows "follows G n Os H Q f (\<lambda>ids. f)"
  unfolding follows_def
proof (intro allI impI)
  fix os Op e x e' assume e: "tracks G n Os H os Op e" and run: "f e = Inr (x, e')"
  from only run obtain h1 where h1: "onHeap f (ge_heap e) = Inr (x, h1)" and e': "e' = e\<lparr>ge_heap := h1\<rparr>"
    by (auto simp: heapOnly_def rbind_Inr_iff)
  have "ge_heap e \<in> H" using e by (simp add: tracks_def)
  with steady h1 have "h1 \<in> H" and all: "\<forall>h' \<in> H. \<exists>h2 \<in> H. onHeap f h' = Inr (x, h2)" by (auto simp: steadyAnswers_def)
  have "\<exists>h \<in> H. f d = Inr (x, d\<lparr>ge_heap := h\<rparr>)" if "ge_heap d \<in> H" for d
  proof -
    from all that obtain h2 where "h2 \<in> H" "onHeap f (ge_heap d) = Inr (x, h2)" by blast
    with only show ?thesis by (auto simp: heapOnly_def)
  qed
  with tracks_heap [OF e \<open>h1 \<in> H\<close>] Q [OF run] show "(\<exists>os'. tracks G n Os H (os @ os') Op e') \<and> Q x \<and>
      (\<forall>ids d. ge_seen e' \<subseteq>\<^sub>m ids \<longrightarrow> ge_heap d \<in> H \<longrightarrow> (\<exists>h \<in> H. f d = Inr (x, d\<lparr>ge_heap := h\<rparr>)))"
    by (auto simp: e' intro: exI [of _ "[]"])
qed

lemma onHeap_calling: "onHeap (calling fail f) h = (case f h of Inl t \<Rightarrow> Inl (fail t) | Inr r \<Rightarrow> Inr r)"
  by (auto simp: onHeap_def calling_def newGojaEncoder_def split: sum.splits)

lemma steadyAnswers_calling: "steadyAnswers H f \<Longrightarrow> steadyAnswers H (onHeap (calling fail f))"
  unfolding steadyAnswers_def onHeap_calling
proof (intro ballI allI impI)
  fix h x h1
  assume f: "\<forall>h \<in> H. \<forall>x h1. f h = Inr (x, h1) \<longrightarrow> h1 \<in> H \<and> (\<forall>h' \<in> H. \<exists>h2 \<in> H. f h' = Inr (x, h2))"
    and h: "h \<in> H" and r: "(case f h of Inl t \<Rightarrow> Inl (fail t) | Inr r \<Rightarrow> Inr r) = Inr (x, h1)"
  from r have "f h = Inr (x, h1)" by (cases "f h") simp_all
  with f h have "h1 \<in> H" "\<forall>h' \<in> H. \<exists>h2 \<in> H. f h' = Inr (x, h2)" by blast+
  then show "h1 \<in> H \<and> (\<forall>h' \<in> H. \<exists>h2 \<in> H. (case f h' of Inl t \<Rightarrow> Inl (fail t) | Inr r \<Rightarrow> Inr r) = Inr (x, h2))"
    by (metis sum.simps(6))
qed

lemma onHeap_asking: "onHeap (asking f) h = Inr (f h, h)"
  by (simp add: onHeap_def asking_def newGojaEncoder_def)

lemma steadyAnswers_asking: "sameOn H f \<Longrightarrow> steadyAnswers H (onHeap (asking f))"
  unfolding steadyAnswers_def onHeap_asking
proof (intro ballI allI impI)
  fix h x h1 assume same: "sameOn H f" and h: "h \<in> H" and r: "Inr (f h, h) = Inr (x, h1)"
  have "Inr (f h', h') = Inr (x, h')" if "h' \<in> H" for h'
    using same [unfolded sameOn_def, rule_format, OF that h] r by auto
  then have "\<forall>h' \<in> H. \<exists>h2 \<in> H. Inr (f h', h') = Inr (x, h2)" by (intro ballI bexI)
  moreover have "h1 = h" using r by simp
  ultimately show "h1 \<in> H \<and> (\<forall>h' \<in> H. \<exists>h2 \<in> H. Inr (f h', h') = Inr (x, h2))" using h by simp
qed

lemma follows_calling:
  assumes "steadyAnswers H f" and "\<And>h x h'. f h = Inr (x, h') \<Longrightarrow> Q x"
  shows "follows G n Os H Q (calling fail f) (\<lambda>ids. calling fail f)"
  by (rule follows_heapOnly [OF heapOnly_calling steadyAnswers_calling [OF assms(1)]])
     (use assms(2) in \<open>auto simp: calling_def split: sum.splits\<close>)

lemma follows_asking: "sameOn H f \<Longrightarrow> follows G n Os H (\<lambda>x. True) (asking f) (\<lambda>ids. asking f)"
  by (rule follows_heapOnly [OF heapOnly_asking steadyAnswers_asking]) simp_all

lemma smap_nil: "smap f [] = gret []"
  by (simp add: fun_eq_iff gret_def)

lemma smap_bind: "smap f (x # xs) = gbind (f x) (\<lambda>y. gbind (smap f xs) (\<lambda>ys. gret (y # ys)))"
  by (auto simp: fun_eq_iff gbind_def gret_def)

lemma follows_smap:
  assumes "\<And>x. x \<in> set xs \<Longrightarrow> follows G n Os H (\<lambda>y. True) (f x) (\<lambda>ids. g ids x)"
  shows "follows G n Os H (\<lambda>ys. True) (smap f xs) (\<lambda>ids. smap (g ids) xs)"
  using assms
proof (induction xs)
  case Nil
  show ?case unfolding smap_nil by (rule follows_ret) simp
next
  case (Cons x xs)
  show ?case
    unfolding smap_bind
    by (rule follows_bind [OF Cons.prems], simp, rule follows_bind [OF Cons.IH], simp add: Cons.prems, rule follows_ret) simp
qed

subsection \<open>The parts of the encoder\<close>

lemma steadyD:
  assumes "steadyEngine G n Os H"
  shows "closedEngine G Os" and "obj \<in> Os \<Longrightarrow> steadyAnswers H (gj_Get G obj key)" and "obj \<in> Os \<Longrightarrow> sameOn H (gj_HasAccessor G obj key)"
    and "obj \<in> Os \<Longrightarrow> steadyAnswers H (gj_Export G obj)" and "obj \<in> Os \<Longrightarrow> steadyAnswers H (gj_GetOwnPropertyNames G obj)"
    and "obj \<in> Os \<Longrightarrow> steadyAnswers H (gj_Keys G obj)" and "obj \<in> Os \<Longrightarrow> sameOn H (gj_ClassName G obj)"
    and "obj \<in> Os \<Longrightarrow> sameOn H (gj_ImplName G obj)" and "obj \<in> Os \<Longrightarrow> steadyAnswers H (onHeap (gojaMapEntries G n obj))"
    and "obj \<in> Os \<Longrightarrow> steadyAnswers H (onHeap (gojaSetValues G n obj))"
    and "steadyAnswers H (gj_String G v)" and "steadyAnswers H (gj_ToInteger G v)" and "steadyAnswers H (gj_ToObject G p)"
  using assms unfolding steadyEngine_def by blast+

text \<open>An encoder of values and what the second pass does instead.\<close>

definition valuesFollow ::
    "('o, 'h) gojaEngine \<Rightarrow> nat \<Rightarrow> 'o set \<Rightarrow> 'h set \<Rightarrow> ('o gojaValue \<Rightarrow> ('o, 'h, wireValue) encoding) \<Rightarrow>
     (('o \<rightharpoonup> 32 word) \<Rightarrow> 'o gojaValue \<Rightarrow> ('o, 'h, wireValue) encoding) \<Rightarrow> bool" where
  "valuesFollow G n Os H enc desc \<longleftrightarrow> steadyEngine G n Os H \<and>
     (\<forall>v. within Os v \<longrightarrow> follows G n Os H (\<lambda>w. True) (enc v) (\<lambda>ids. desc ids v))"

lemma follows_value: "valuesFollow G n Os H enc desc \<Longrightarrow> within Os v \<Longrightarrow> follows G n Os H (\<lambda>w. True) (enc v) (\<lambda>ids. desc ids v)"
  by (simp add: valuesFollow_def)

lemma follows_get:
  assumes "steadyEngine G n Os H" and "obj \<in> Os"
  shows "follows G n Os H (within Os) (gojaGet G obj key) (\<lambda>ids. gojaGet G obj key)"
  unfolding gojaGet_def
  by (rule follows_calling [OF steadyD(2) [OF assms]]) (rule closedEngineD(1) [OF steadyD(1) [OF assms(1)] assms(2)])

lemma follows_export:
  assumes "steadyEngine G n Os H" and "obj \<in> Os"
  shows "follows G n Os H (\<lambda>x. \<forall>state v. x = ExportPromise (Some (state, v)) \<longrightarrow> within Os v)
    (calling BridgePanic (gj_Export G obj)) (\<lambda>ids. calling BridgePanic (gj_Export G obj))"
  by (rule follows_calling [OF steadyD(4) [OF assms]]) (use closedEngineD(4) [OF steadyD(1) [OF assms(1)] assms(2)] in blast)

lemma follows_string: "steadyEngine G n Os H \<Longrightarrow> follows G n Os H (\<lambda>x. True) (gojaString G v) (\<lambda>ids. gojaString G v)"
  and follows_integer: "steadyEngine G n Os H \<Longrightarrow> follows G n Os H (\<lambda>x. True) (gojaInteger G v) (\<lambda>ids. gojaInteger G v)"
  by (auto simp: gojaString_def gojaInteger_def intro!: follows_fail follows_calling dest: steadyD)

lemma follows_getText:
  assumes "steadyEngine G n Os H" and "obj \<in> Os"
  shows "follows G n Os H (\<lambda>x. True) (GetString G obj key) (\<lambda>ids. GetString G obj key)"
    and "follows G n Os H (\<lambda>x. True) (GetInteger G obj key) (\<lambda>ids. GetInteger G obj key)"
  unfolding GetString_def GetInteger_def
  by (rule follows_bind [OF follows_get [OF assms]], rule follows_string [OF assms(1)],
      rule follows_bind [OF follows_get [OF assms]], rule follows_integer [OF assms(1)])

lemma entries_within:
  assumes "steadyEngine G n Os H" and "obj \<in> Os"
  shows "gojaMapEntries G n obj e = Inr (xs, e') \<Longrightarrow> \<forall>(k, v) \<in> set xs. within Os k \<and> within Os v"
    and "gojaSetValues G n obj e = Inr (vs, e') \<Longrightarrow> \<forall>v \<in> set vs. within Os v"
proof -
  have engine: "encoder_steps (\<lambda>e. True) (\<lambda>e e'. True) G n Os (\<lambda>_. True) (\<lambda>w e. True)"
    using steadyD(1) [OF assms(1)] by unfold_locales (simp_all add: stableFor_def)
  have st: "stableFor (\<lambda>e e'. True) (\<lambda>e. True)" by (simp add: stableFor_def)
  show "gojaMapEntries G n obj e = Inr (xs, e') \<Longrightarrow> \<forall>(k, v) \<in> set xs. within Os k \<and> within Os v"
    using encoder_steps.spec_mapEntries [OF engine st assms(2), unfolded threads_def, rule_format, of e] by simp
  show "gojaSetValues G n obj e = Inr (vs, e') \<Longrightarrow> \<forall>v \<in> set vs. within Os v"
    using encoder_steps.spec_setValues [OF engine st assms(2), unfolded threads_def, rule_format, of e] by simp
qed

lemma follows_entries:
  assumes "steadyEngine G n Os H" and "obj \<in> Os"
  shows "follows G n Os H (\<lambda>xs. \<forall>(k, v) \<in> set xs. within Os k \<and> within Os v) (gojaMapEntries G n obj) (\<lambda>ids. gojaMapEntries G n obj)"
    and "follows G n Os H (\<lambda>vs. \<forall>v \<in> set vs. within Os v) (gojaSetValues G n obj) (\<lambda>ids. gojaSetValues G n obj)"
  by (rule follows_heapOnly [OF heapOnly_entries(1) steadyD(9) [OF assms] entries_within(1) [OF assms]], assumption)
     (rule follows_heapOnly [OF heapOnly_entries(2) steadyD(10) [OF assms] entries_within(2) [OF assms]])

lemma follows_promise:
  assumes enc: "valuesFollow G n Os H enc desc" and obj: "obj \<in> Os"
  shows "follows G n Os H (\<lambda>x. True) (encodePromise G enc obj node) (\<lambda>ids. encodePromise G (desc ids) obj node)"
  unfolding encodePromise_def
proof (rule follows_bind [OF follows_export [OF _ obj]])
  show st: "steadyEngine G n Os H" using enc by (simp add: valuesFollow_def)
  fix x assume x: "\<forall>state v. x = ExportPromise (Some (state, v)) \<longrightarrow> within Os v"
  let ?other = "gbind (calling BridgePanic (gj_Export G obj)) (\<lambda>exported.
      gfail (BridgeError (''bridge: unsupported goja Promise export '' @ exportedType exported)))"
  have other: "follows G n Os H (\<lambda>x. True) ?other (\<lambda>ids. ?other)"
    by (rule follows_bind [OF follows_export [OF st obj]]) (rule follows_fail)
  have fulfilled: "follows G n Os H (\<lambda>x. True)
      (gbind (enc v) (\<lambda>promise. gret (node\<lparr>wn_Kind := nodePromise, wn_Promise := promise\<rparr>)))
      (\<lambda>ids. gbind (desc ids v) (\<lambda>promise. gret (node\<lparr>wn_Kind := nodePromise, wn_Promise := promise\<rparr>)))" if "within Os v" for v
    by (rule follows_bind [OF follows_value [OF enc that]]) (simp add: follows_ret)
  show "follows G n Os H (\<lambda>x. True)
     (case x of ExportPromise (Some (state, result)) \<Rightarrow>
         (if state \<noteq> PromiseStateFulfilled then gfail (BridgeError (''bridge: unsupported goja Promise state '' @ stateText state))
          else gbind (enc result) (\<lambda>promise. gret (node\<lparr>wn_Kind := nodePromise, wn_Promise := promise\<rparr>)))
      | _ \<Rightarrow> ?other)
     (\<lambda>ids. case x of ExportPromise (Some (state, result)) \<Rightarrow>
         (if state \<noteq> PromiseStateFulfilled then gfail (BridgeError (''bridge: unsupported goja Promise state '' @ stateText state))
          else gbind (desc ids result) (\<lambda>promise. gret (node\<lparr>wn_Kind := nodePromise, wn_Promise := promise\<rparr>)))
      | _ \<Rightarrow> ?other)"
  proof (cases x)
    case (ExportPromise p)
    with x other fulfilled show ?thesis by (cases p) (auto intro: follows_fail)
  qed (use other in simp_all)
qed

lemma follows_array:
  assumes enc: "valuesFollow G n Os H enc desc" and obj: "obj \<in> Os"
  shows "follows G n Os H (\<lambda>x. True) (gojaArray G enc obj node) (\<lambda>ids. gojaArray G (desc ids) obj node)"
proof -
  have st: "steadyEngine G n Os H" using enc by (simp add: valuesFollow_def)
  have slot: "follows G n Os H (\<lambda>x. True) (arraySlot G enc obj names i) (\<lambda>ids. arraySlot G (desc ids) obj names i)" for names i
    unfolding arraySlot_def
    by (rule follows_if, simp add: follows_ret, rule follows_bind [OF follows_get [OF st obj]],
        rule follows_bind [OF follows_value [OF enc]], assumption) (simp add: follows_ret)
  show ?thesis
    unfolding gojaArray_def
    by (rule follows_bind [OF follows_getText(2) [OF st obj]], rule follows_if, rule follows_fail,
        rule follows_bind [OF follows_calling [OF steadyD(5) [OF st obj]]], rule TrueI,
        rule follows_bind [OF follows_smap [OF slot]]) (simp add: follows_ret)
qed

lemma follows_map:
  assumes enc: "valuesFollow G n Os H enc desc" and obj: "obj \<in> Os"
  shows "follows G n Os H (\<lambda>x. True) (gojaMap G n enc obj node) (\<lambda>ids. gojaMap G n (desc ids) obj node)"
  unfolding gojaMap_def
proof (rule follows_bind [OF follows_entries(1) [OF _ obj]])
  show st: "steadyEngine G n Os H" using enc by (simp add: valuesFollow_def)
  fix entries :: "('a gojaValue \<times> 'a gojaValue) list" assume all: "\<forall>(k, v) \<in> set entries. within Os k \<and> within Os v"
  have "follows G n Os H (\<lambda>x. True) (mapEntry enc x) (\<lambda>ids. mapEntry (desc ids) x)" if x: "x \<in> set entries" for x
  proof -
    have "within Os (fst x)" "within Os (snd x)" using all x by auto
    then show ?thesis
      unfolding mapEntry_def
      by (intro follows_bind [OF follows_value [OF enc]] follows_ret TrueI)
  qed
  from follows_bind [OF follows_smap [OF this] follows_done]
  show "follows G n Os H (\<lambda>x. True) (gbind (smap (mapEntry enc) entries) (\<lambda>entries. gret (node\<lparr>wn_Kind := nodeMap, wn_Entries := entries\<rparr>)))
      (\<lambda>ids. gbind (smap (mapEntry (desc ids)) entries) (\<lambda>entries. gret (node\<lparr>wn_Kind := nodeMap, wn_Entries := entries\<rparr>)))" .
qed

lemma follows_set:
  assumes enc: "valuesFollow G n Os H enc desc" and obj: "obj \<in> Os"
  shows "follows G n Os H (\<lambda>x. True) (gojaSet G n enc obj node) (\<lambda>ids. gojaSet G n (desc ids) obj node)"
  unfolding gojaSet_def
proof (rule follows_bind [OF follows_entries(2) [OF _ obj]])
  show st: "steadyEngine G n Os H" using enc by (simp add: valuesFollow_def)
  fix vs :: "'a gojaValue list" assume all: "\<forall>v \<in> set vs. within Os v"
  then have "follows G n Os H (\<lambda>x. True) (enc v) (\<lambda>ids. desc ids v)" if "v \<in> set vs" for v
    using follows_value [OF enc] that by blast
  from follows_bind [OF follows_smap [OF this] follows_done]
  show "follows G n Os H (\<lambda>x. True) (gbind (smap enc vs) (\<lambda>vs. gret (node\<lparr>wn_Kind := nodeSet, wn_Values := vs\<rparr>)))
      (\<lambda>ids. gbind (smap (desc ids) vs) (\<lambda>vs. gret (node\<lparr>wn_Kind := nodeSet, wn_Values := vs\<rparr>)))" .
qed

lemma follows_holders:
  assumes enc: "valuesFollow G n Os H enc desc" and obj: "obj \<in> Os"
  shows "follows G n Os H (\<lambda>x. True) (gojaTypedArray G enc obj ctorName node) (\<lambda>ids. gojaTypedArray G (desc ids) obj ctorName node)"
    and "follows G n Os H (\<lambda>x. True) (gojaError G enc obj node) (\<lambda>ids. gojaError G (desc ids) obj node)"
proof -
  have st: "steadyEngine G n Os H" using enc by (simp add: valuesFollow_def)
  show "follows G n Os H (\<lambda>x. True) (gojaTypedArray G enc obj ctorName node) (\<lambda>ids. gojaTypedArray G (desc ids) obj ctorName node)"
    unfolding gojaTypedArray_def
    by (intro follows_bind [OF follows_getText(2) [OF st obj]] follows_bind [OF follows_get [OF st obj]]
        follows_bind [OF follows_value [OF enc]] follows_done)
  show "follows G n Os H (\<lambda>x. True) (gojaError G enc obj node) (\<lambda>ids. gojaError G (desc ids) obj node)"
    unfolding gojaError_def
    by (intro follows_bind [OF follows_getText(1) [OF st obj]] follows_bind [OF follows_get [OF st obj]]
        follows_bind [OF follows_value [OF enc]] follows_done)
qed

lemma follows_leaves:
  assumes st: "steadyEngine G n Os H" and obj: "obj \<in> Os"
  shows "follows G n Os H (\<lambda>x. True) (gojaDate G obj node) (\<lambda>ids. gojaDate G obj node)"
    and "follows G n Os H (\<lambda>x. True) (gojaRegexp G obj node) (\<lambda>ids. gojaRegexp G obj node)"
    and "follows G n Os H (\<lambda>x. True) (gojaArrayBuffer G obj node) (\<lambda>ids. gojaArrayBuffer G obj node)"
proof -
  show "follows G n Os H (\<lambda>x. True) (gojaDate G obj node) (\<lambda>ids. gojaDate G obj node)"
    unfolding gojaDate_def Let_def
    by (rule follows_bind [OF follows_export [OF assms]]) (auto split: exported.split option.split intro: follows_done)
  show "follows G n Os H (\<lambda>x. True) (gojaRegexp G obj node) (\<lambda>ids. gojaRegexp G obj node)"
    unfolding gojaRegexp_def by (intro follows_bind [OF follows_getText(1) [OF assms]] follows_done)
  show "follows G n Os H (\<lambda>x. True) (gojaArrayBuffer G obj node) (\<lambda>ids. gojaArrayBuffer G obj node)"
    unfolding gojaArrayBuffer_def
    by (rule follows_bind [OF follows_export [OF assms]]) (auto split: exported.split intro: follows_done follows_fail)
qed

lemma follows_switch:
  assumes enc: "valuesFollow G n Os H enc desc" and obj: "obj \<in> Os"
  shows "follows G n Os H (\<lambda>x. True) (gojaSwitch G n enc obj ctorName className implName node)
    (\<lambda>ids. gojaSwitch G n (desc ids) obj ctorName className implName node)"
proof -
  have st: "steadyEngine G n Os H" using enc by (simp add: valuesFollow_def)
  have promise: "follows G n Os H (\<lambda>x. True) (gojaIsPromiseObject G obj implName) (\<lambda>ids. gojaIsPromiseObject G obj implName)"
    unfolding gojaIsPromiseObject_def
    by (rule follows_if, rule follows_done, rule follows_bind [OF follows_export [OF st obj]])
       (auto split: exported.split intro: follows_done)
  show ?thesis
    unfolding gojaSwitch_def
    by (intro follows_if follows_fail follows_bind [OF promise] follows_promise [OF enc obj] follows_array [OF enc obj]
        follows_map [OF enc obj] follows_set [OF enc obj] follows_leaves [OF st obj] follows_holders [OF enc obj] follows_done)
qed

lemma follows_propsLoop:
  assumes enc: "valuesFollow G n Os H enc desc" and obj: "obj \<in> Os"
  shows "follows G n Os H (\<lambda>x. True) (gojaPropsLoop G enc obj keys node) (\<lambda>ids. gojaPropsLoop G (desc ids) obj keys node)"
proof (induction keys arbitrary: node)
  case Nil
  show ?case unfolding gojaPropsLoop.simps by (rule follows_done)
next
  case (Cons key keys)
  have st: "steadyEngine G n Os H" using enc by (simp add: valuesFollow_def)
  have isFunction: "follows G n Os H (\<lambda>x. True) (gojaValueIsFunction G v) (\<lambda>ids. gojaValueIsFunction G v)" if "within Os v" for v
  proof (cases v)
    case (ObjectValue f)
    with that have "sameOn H (gj_ClassName G f)" by (intro steadyD(7) [OF st]) (simp add: within_def)
    then have "sameOn H (\<lambda>h. gj_ClassName G f h = ''Function'')" unfolding sameOn_def by metis
    from follows_asking [OF this] show ?thesis by (simp add: gojaValueIsFunction_def ObjectValue)
  qed (simp_all add: gojaValueIsFunction_def follows_done)
  show ?case
    unfolding gojaPropsLoop.simps
    by (intro follows_if Cons.IH follows_bind [OF follows_asking [OF steadyD(3) [OF st obj]]] follows_fail
        follows_bind [OF follows_get [OF st obj]] follows_bind [OF isFunction] follows_bind [OF follows_value [OF enc]])
qed

lemma follows_buildNode:
  assumes enc: "valuesFollow G n Os H enc desc" and obj: "obj \<in> Os"
  shows "follows G n Os H (\<lambda>x. True) (buildNode G n enc obj node) (\<lambda>ids. buildNode G n (desc ids) obj node)"
proof -
  have st: "steadyEngine G n Os H" using enc by (simp add: valuesFollow_def)
  have name: "follows G n Os H (\<lambda>x. True) (gojaConstructorName G obj) (\<lambda>ids. gojaConstructorName G obj)"
    unfolding gojaConstructorName_def
  proof (rule follows_bind [OF follows_get [OF st obj]])
    fix ctor assume ctor: "within Os ctor"
    show "follows G n Os H (\<lambda>x. True) (case ctor of
        ObjectValue c \<Rightarrow> gbind (gojaGet G c ''name'') (\<lambda>name. if name \<in> {NilValue, UndefinedValue, NullValue} then gret [] else gojaString G name)
      | _ \<Rightarrow> gret []) (\<lambda>ids. case ctor of
        ObjectValue c \<Rightarrow> gbind (gojaGet G c ''name'') (\<lambda>name. if name \<in> {NilValue, UndefinedValue, NullValue} then gret [] else gojaString G name)
      | _ \<Rightarrow> gret [])"
    proof (cases ctor)
      case (ObjectValue c)
      with ctor have "c \<in> Os" by (simp add: within_def)
      then show ?thesis
        unfolding ObjectValue gojaValue.case
        by (intro follows_bind [OF follows_get [OF st]] follows_if follows_done follows_string [OF st])
    qed (simp_all add: follows_done)
  qed
  have keys: "follows G n Os H (\<lambda>x. True) (gojaEnumerableDataKeys G obj) (\<lambda>ids. gojaEnumerableDataKeys G obj)"
    unfolding gojaEnumerableDataKeys_def
    by (rule follows_bind [OF follows_calling [OF steadyD(6) [OF st obj]]], rule TrueI, rule follows_done)
  show ?thesis
    unfolding buildNode_def appendGojaEnumerableProps_def
    by (intro follows_bind [OF name] follows_bind [OF follows_asking [OF steadyD(7) [OF st obj]]]
        follows_bind [OF follows_asking [OF steadyD(8) [OF st obj]]] follows_bind [OF follows_switch [OF enc obj]]
        follows_bind [OF keys] follows_propsLoop [OF enc obj])
qed

subsection \<open>Objects\<close>

lemma described_mono: "described G n H m obj i node \<Longrightarrow> m \<subseteq>\<^sub>m m' \<Longrightarrow> described G n H m' obj i node"
  unfolding described_def by (meson map_le_trans)

lemma tracks_reserve:
  assumes e: "tracks G n Os H os Op e" and new: "ge_seen e obj = None" and obj: "obj \<in> Os"
  shows "tracks G n Os H (os @ [obj]) (insert obj Op) (reserveNode obj e)"
proof -
  let ?e = "reserveNode obj e"
  have notin: "obj \<notin> set os" using e new by (auto simp: tracks_def)
  have le: "ge_seen e \<subseteq>\<^sub>m ge_seen ?e" using grows_reserve [OF new] by (simp add: encoderGrows_def)
  have "ge_seen ?e ((os @ [obj]) ! k) = Some (nodeNumber k) \<and> ((os @ [obj]) ! k \<notin> insert obj Op \<longrightarrow>
      described G n H (ge_seen ?e) ((os @ [obj]) ! k) (nodeNumber k) (ge_nodes ?e ! k))" if k: "k < Suc (length os)" for k
  proof (cases "k < length os")
    case True
    then have "os ! k \<in> set os" by simp
    with notin have "os ! k \<noteq> obj" by auto
    have "ge_seen e (os ! k) = Some (nodeNumber k)" and "os ! k \<notin> Op \<longrightarrow> described G n H (ge_seen e) (os ! k) (nodeNumber k) (ge_nodes e ! k)"
      using e True by (simp_all add: tracks_def)
    moreover have "(os @ [obj]) ! k = os ! k" "ge_nodes ?e ! k = ge_nodes e ! k" "ge_seen ?e (os ! k) = ge_seen e (os ! k)"
      using True e \<open>os ! k \<noteq> obj\<close> by (simp_all add: nth_append reserveNode_def tracks_def)
    moreover have "os ! k \<notin> Op \<Longrightarrow> described G n H (ge_seen ?e) (os ! k) (nodeNumber k) (ge_nodes e ! k)"
      using e True by (intro described_mono [OF _ le]) (simp add: tracks_def)
    ultimately show ?thesis by simp
  next
    case False
    with k e show ?thesis by (auto simp: reserveNode_def nth_append tracks_def less_Suc_eq)
  qed
  note all = this
  show ?thesis
    unfolding tracks_def
  proof (intro conjI)
    show "\<forall>k<length (os @ [obj]). ge_seen ?e ((os @ [obj]) ! k) = Some (nodeNumber k) \<and> ((os @ [obj]) ! k \<notin> insert obj Op \<longrightarrow>
        described G n H (ge_seen ?e) ((os @ [obj]) ! k) (nodeNumber k) (ge_nodes ?e ! k))" using all by simp
  qed (use e obj notin in \<open>simp_all add: reserveNode_def tracks_def nodeNumber_def\<close>)
qed

lemma follows_object:
  fixes G :: "('o, 'h) gojaEngine"
  assumes enc: "valuesFollow G n Os H enc (describeNumbered G)" and obj: "obj \<in> Os"
  shows "follows G n Os H (\<lambda>w. True) (gojaEncodeObject G n enc obj) (\<lambda>ids. gret (refValue (the (ids obj))))"
  unfolding follows_def
proof (intro allI impI)
  fix os Op e w e'
  assume e: "tracks G n Os H os Op e" and run: "gojaEncodeObject G n enc obj e = Inr (w, e')"
  have described: "(\<exists>h \<in> H. gret (refValue (the (ids obj))) d = Inr (w, d\<lparr>ge_heap := h\<rparr>))"
    if "ge_seen e' obj = Some i" "w = refValue i" "ge_seen e' \<subseteq>\<^sub>m ids" "ge_heap d \<in> H" for i ids and d :: "('o, 'h) gojaEncoder"
  proof -
    have "ids obj = Some i" using that(1,3) by (auto simp: map_le_def dom_def)
    moreover have "d = d\<lparr>ge_heap := ge_heap d\<rparr>" by simp
    ultimately show ?thesis using that(2,4) unfolding gret_def by (metis option.sel)
  qed
  show "(\<exists>os'. tracks G n Os H (os @ os') Op e') \<and> True \<and> (\<forall>ids (d :: ('o, 'h) gojaEncoder). ge_seen e' \<subseteq>\<^sub>m ids \<longrightarrow> ge_heap d \<in> H \<longrightarrow>
      (\<exists>h \<in> H. gret (refValue (the (ids obj))) d = Inr (w, d\<lparr>ge_heap := h\<rparr>)))"
  proof (cases "ge_seen e obj")
    case (Some i)
    with run have w: "w = refValue i" "e' = e" by (simp_all add: gojaEncodeObject_def)
    then have "\<exists>os'. tracks G n Os H (os @ os') Op e'" using e by (auto intro: exI [of _ "[]"])
    moreover have "ge_seen e' obj = Some i" using Some w by simp
    ultimately show ?thesis using described [OF _ w(1)] by (intro conjI allI impI) simp_all
  next
    case None
    let ?i = "ge_nextID e"
    from run None obtain node e1 where built: "buildNode G n enc obj (zeroNode\<lparr>wn_ID := ?i\<rparr>) (reserveNode obj e) = Inr (node, e1)"
        and w: "w = refValue ?i" and e': "e' = storeNode (length (ge_nodes e)) node e1"
      by (auto simp: gojaEncodeObject_def rbind_Inr_iff)
    from follows_buildNode [OF enc obj, unfolded follows_def, rule_format, OF tracks_reserve [OF e None obj] built]
    obtain os' where e1: "tracks G n Os H ((os @ [obj]) @ os') (insert obj Op) e1"
      and node: "described G n H (ge_seen e1) obj ?i node"
      unfolding described_def by blast
    have i: "?i = nodeNumber (length os)" and len: "length (ge_nodes e) = length os" using e by (simp_all add: tracks_def)
    have "\<forall>k<length ((os @ [obj]) @ os'). ge_seen e1 (((os @ [obj]) @ os') ! k) = Some (nodeNumber k)"
      using e1 unfolding tracks_def by blast
    from this [rule_format, of "length os"] have seen: "ge_seen e1 obj = Some ?i" by (simp add: i nth_append)
    have "tracks G n Os H (os @ [obj] @ os') Op e'"
      unfolding tracks_def
    proof (intro conjI allI impI)
      fix k assume k: "k < length (os @ [obj] @ os')"
      then show "ge_seen e' ((os @ [obj] @ os') ! k) = Some (nodeNumber k)"
        using e1 by (simp add: tracks_def e' storeNode_def)
      assume notOp: "(os @ [obj] @ os') ! k \<notin> Op"
      show "described G n H (ge_seen e') ((os @ [obj] @ os') ! k) (nodeNumber k) (ge_nodes e' ! k)"
      proof (cases "k = length os")
        case True
        then show ?thesis using node e1 by (simp add: e' storeNode_def len i tracks_def)
      next
        case False
        have "(os @ [obj] @ os') ! k \<noteq> obj"
          using e1 k False nth_eq_iff_index_eq [of "os @ [obj] @ os'" k "length os"] by (simp add: tracks_def)
        with notOp e1 k have "described G n H (ge_seen e1) ((os @ [obj] @ os') ! k) (nodeNumber k) (ge_nodes e1 ! k)"
          by (simp add: tracks_def)
        with False show ?thesis by (simp add: e' storeNode_def len)
      qed
    qed (use e1 in \<open>simp_all add: tracks_def e' storeNode_def\<close>)
    moreover have "ge_seen e' obj = Some ?i" using seen by (simp add: e' storeNode_def)
    ultimately show ?thesis using described [OF _ w] by (intro conjI allI impI) (blast, simp_all)
  qed
qed

lemma follows_valueWith:
  assumes st: "steadyEngine G n Os H" and v: "within Os v"
    and object: "\<And>obj. obj \<in> Os \<Longrightarrow> follows G n Os H (\<lambda>w. True) (object obj) (\<lambda>ids. object' ids obj)"
  shows "follows G n Os H (\<lambda>w. True) (valueWith G object v) (\<lambda>ids. valueWith G (object' ids) v)"
proof (cases v)
  case (PrimitiveValue p)
  have "follows G n Os H (\<lambda>w. True) (gbind (calling BridgePanic (gj_ToObject G p)) object)
      (\<lambda>ids. gbind (calling BridgePanic (gj_ToObject G p)) (object' ids))"
    by (rule follows_bind [OF follows_calling [OF steadyD(13) [OF st]]], erule closedEngineD(2) [OF steadyD(1) [OF st]], rule object)
  then show ?thesis by (cases "encodePrimitive p") (simp_all add: valueWith_def PrimitiveValue follows_done)
next
  case (ObjectValue obj)
  with v have obj: "obj \<in> Os" by (simp add: within_def)
  have "follows G n Os H (\<lambda>w. True)
      (case x of ExportPrimitive p \<Rightarrow> (case encodePrimitive p of Some w \<Rightarrow> gret w | None \<Rightarrow> object obj) | _ \<Rightarrow> object obj)
      (\<lambda>ids. case x of ExportPrimitive p \<Rightarrow> (case encodePrimitive p of Some w \<Rightarrow> gret w | None \<Rightarrow> object' ids obj) | _ \<Rightarrow> object' ids obj)"
    for x :: "'a exported"
    using object [OF obj] by (auto split: exported.split option.split intro: follows_done)
  from follows_bind [OF follows_export [OF st obj] this] show ?thesis by (simp add: valueWith_def ObjectValue)
qed (simp_all add: valueWith_def follows_done follows_fail)

lemma follows_encodeValue:
  assumes st: "steadyEngine G n Os H"
  shows "within Os v \<Longrightarrow> follows G n Os H (\<lambda>w. True) (gojaEncodeValue G n k v) (\<lambda>ids. describeNumbered G ids v)"
proof (induction k arbitrary: v)
  case 0
  show ?case unfolding gojaEncodeValue.simps by (rule follows_fail)
next
  case (Suc k)
  have "valuesFollow G n Os H (gojaEncodeValue G n k) (describeNumbered G)"
    using st Suc.IH by (simp add: valuesFollow_def)
  from follows_valueWith [OF st Suc.prems follows_object [OF this]]
  show ?case unfolding gojaEncodeValue.simps describeNumbered_def .
qed

end
