(* ===== verification/Goja_Claims.thy ===== *)
theory Goja_Claims
  imports Goja_Faithful
begin

text \<open>The properties of the encoder of engine values.\<close>

subsection \<open>Validation of an encoded graph\<close>

lemma unat_number: "m < 2 ^ 32 \<Longrightarrow> unat (of_nat m :: 32 word) = m"
  by (simp add: unsigned_of_nat take_bit_nat_eq_self)

lemma nodeNumber_nonzero: "k < N \<Longrightarrow> N < 2 ^ 32 \<Longrightarrow> nodeNumber k \<noteq> 0"
proof
  assume k: "k < N" "N < 2 ^ 32" and "nodeNumber k = 0"
  then have "unat (of_nat (Suc k) :: 32 word) = 0" unfolding nodeNumber_def by (metis unsigned_0)
  moreover have "unat (of_nat (Suc k) :: 32 word) = Suc k" using k by (intro unat_number) simp
  ultimately show False by simp
qed

lemma nodeNumber_inj: "i < N \<Longrightarrow> j < N \<Longrightarrow> N < 2 ^ 32 \<Longrightarrow> nodeNumber i = nodeNumber j \<longleftrightarrow> i = j"
proof -
  assume "i < N" "j < N" "N < 2 ^ 32"
  then have "unat (of_nat (Suc i) :: 32 word) = Suc i" "unat (of_nat (Suc j) :: 32 word) = Suc j"
    by (auto intro!: unat_number simp del: of_nat_Suc)
  then show ?thesis unfolding nodeNumber_def by (metis Suc_inject)
qed

definition numberedGraph :: "wireGraph \<Rightarrow> bool" where
  "numberedGraph g \<longleftrightarrow>
     map wn_ID (wg_Nodes g) = map nodeNumber [0..<length (wg_Nodes g)] \<and> refWithin (length (wg_Nodes g)) (wg_Root g) \<and>
     (\<forall>node \<in> set (wg_Nodes g). \<forall>w \<in> valuesOf node. refWithin (length (wg_Nodes g)) w)"

lemma numberedGraph_IDs:
  assumes "numberedGraph g" and "length (wg_Nodes g) < 2 ^ 32"
  shows "distinct (map wn_ID (wg_Nodes g))" and "0 \<notin> wn_ID ` set (wg_Nodes g)"
    and "wn_ID ` set (wg_Nodes g) = nodeNumber ` {..<length (wg_Nodes g)}"
proof -
  let ?N = "length (wg_Nodes g)"
  have ids: "map wn_ID (wg_Nodes g) = map nodeNumber [0..<?N]" using assms(1) by (simp add: numberedGraph_def)
  have "inj_on nodeNumber (set [0..<?N])"
    using nodeNumber_inj [OF _ _ assms(2)] by (auto simp: inj_on_def)
  then show "distinct (map wn_ID (wg_Nodes g))" by (simp add: ids distinct_map)
  have set: "wn_ID ` set (wg_Nodes g) = set (map nodeNumber [0..<?N])" by (metis ids image_set)
  then show img: "wn_ID ` set (wg_Nodes g) = nodeNumber ` {..<?N}" by (simp add: atLeast0LessThan)
  show "0 \<notin> wn_ID ` set (wg_Nodes g)"
    unfolding img using nodeNumber_nonzero [OF _ assms(2)] by (auto simp: image_iff)
qed

lemma nodeByID_distinct:
  assumes d: "distinct (map wn_ID ns)" and node: "node \<in> set ns"
  shows "nodeByID ns (wn_ID node) = Some node"
proof (cases "nodeByID ns (wn_ID node)")
  case None
  then have "wn_ID node \<notin> wn_ID ` set ns" unfolding nodeByID_None .
  with imageI [OF node, of wn_ID] show ?thesis by contradiction
next
  case (Some b)
  with nodeByID_Some [OF Some] d node show ?thesis by (auto simp: distinct_map dest: inj_onD)
qed

lemma refWithin_valid:
  assumes "numberedGraph g" and "length (wg_Nodes g) < 2 ^ 32" and "refWithin (length (wg_Nodes g)) w"
  shows "validateWireValue (nodeByID (wg_Nodes g)) w = None"
  using assms(3) unfolding validateWireValue_ref numberedGraph_IDs(3) [OF assms(1,2)] refWithin_def by auto

lemma windowIn_valid:
  assumes d: "distinct (map wn_ID (wg_Nodes g))" and w: "windowIn g node"
    and fits: "\<forall>b \<in> set (wg_Nodes g). fitsText (wn_Bytes b)"
  shows "\<exists>b. wv_Kind (wn_Buffer node) = valueRef \<and> nodeByID (wg_Nodes g) (wv_Ref (wn_Buffer node)) = Some b \<and>
    wn_Kind b = nodeArrayBuffer \<and> bytesPerElement (wn_TextA node) \<noteq> 0 \<and>
    wn_ByteLength node mod bytesPerElement (wn_TextA node) = 0 \<and>
    \<not> ucast (wn_ByteOffset node) + (ucast (wn_ByteLength node) :: 64 word) > of_nat (length (wn_Bytes b))"
proof -
  let ?bp = "bytesPerElement (wn_TextA node)"
  from w obtain b where b: "b \<in> set (wg_Nodes g)" "wn_ID b = wv_Ref (wn_Buffer node)" "wn_Kind b = nodeArrayBuffer"
      and kind: "wv_Kind (wn_Buffer node) = valueRef"
      and len: "unat (wn_ByteOffset node) + unat (wn_ByteLength node) \<le> length (wn_Bytes b)"
      and bp: "0 < ?bp" "unat ?bp dvd unat (wn_ByteLength node)"
    by (auto simp: windowIn_def)
  have "unat (of_nat (length (wn_Bytes b)) :: 64 word) = length (wn_Bytes b)"
    using fits [rule_format, OF b(1)] by (simp add: fitsText_def MaxLen_def unsigned_of_nat take_bit_nat_eq_self)
  then have "\<not> ucast (wn_ByteOffset node) + (ucast (wn_ByteLength node) :: 64 word) > of_nat (length (wn_Bytes b))"
    using len by (simp add: word_less_nat_alt word_sum_no_wrap)
  moreover have "wn_ByteLength node mod ?bp = 0"
    using bp(2) by (metis dvd_eq_mod_eq_0 unat_mod unsigned_eq_0_iff)
  ultimately show ?thesis using nodeByID_distinct [OF d b(1)] b kind bp(1) by (auto simp: word_gt_0)
qed

lemma numberedGraph_validates:
  assumes g: "numberedGraph g" and N: "length (wg_Nodes g) < 2 ^ 32" and fits: "fitsGraph g"
  shows "validateGraph g = None \<longleftrightarrow> (\<forall>node \<in> set (wg_Nodes g). wn_Kind node = nodeTypedArray \<longrightarrow> windowIn g node)"
proof
  have fitsB: "\<forall>b \<in> set (wg_Nodes g). fitsText (wn_Bytes b)"
    using fits by (simp add: fitsGraph_def fitsNode_def list_all_iff)
  show "\<forall>node \<in> set (wg_Nodes g). wn_Kind node = nodeTypedArray \<longrightarrow> windowIn g node" if "validateGraph g = None"
    using validateGraph_window [OF that _ _ fitsB [rule_format]] by blast
  assume windows: "\<forall>node \<in> set (wg_Nodes g). wn_Kind node = nodeTypedArray \<longrightarrow> windowIn g node"
  have val: "validateWireValue (nodeByID (wg_Nodes g)) w = None" if "node \<in> set (wg_Nodes g)" "w \<in> valuesOf node" for node w
    using g that by (intro refWithin_valid [OF g N]) (auto simp: numberedGraph_def)
  have "validateWireNode (nodeByID (wg_Nodes g)) node = None" if node: "node \<in> set (wg_Nodes g)" for node
  proof -
    note vals = val [OF node, unfolded valuesOf_def]
    have props: "firstErr (\<lambda>p. validateWireValue (nodeByID (wg_Nodes g)) (wp_Value p)) (wn_Props node) = None"
      using vals by (simp add: firstErr_None)
    show ?thesis
    proof (cases "wn_Kind node")
      case nodeTypedArray
      with windows node have "windowIn g node" by blast
      from windowIn_valid [OF numberedGraph_IDs(1) [OF g N] this fitsB] show ?thesis
        by (elim exE conjE) (simp add: validateWireNode_def props nodeTypedArray Let_def)
    qed (use vals in \<open>simp_all add: validateWireNode_def props firstErr_None\<close>)
  qed
  then have "firstErr (validateWireNode (nodeByID (wg_Nodes g))) (wg_Nodes g) = None" by (simp add: firstErr_None)
  moreover have "validateGraphNodeIDs [] (wg_Nodes g) = None"
    using numberedGraph_IDs(1,2) [OF g N] by (simp add: validateIDs_distinct)
  moreover have "validateWireValue (nodeByID (wg_Nodes g)) (wg_Root g) = None"
    using g by (intro refWithin_valid [OF g N]) (simp add: numberedGraph_def)
  ultimately show "validateGraph g = None" by (simp add: validateGraph_def)
qed

lemma gojaGraph_numbered:
  assumes "gojaGraph G n k v h = Inr (g, h')"
  shows "numberedGraph g"
proof -
  from assms obtain root e where e: "gojaEncodeValue G n k v (newGojaEncoder h) = Inr (root, e)"
      and g: "g = \<lparr>wg_Root = root, wg_Nodes = ge_nodes e\<rparr>" by (auto simp: gojaGraph_def rbind_Inr_iff)
  have "within UNIV v" by (simp add: within_def)
  from any_engine.encodeValue_spec [OF this, where G = G and n = n and k = k] numbered_new [of UNIV h] e
  have "numbered UNIV e \<and> refIntact root e" by (auto simp: threads_def fuelFor_def split: sum.splits)
  then show ?thesis by (auto simp: numberedGraph_def numbered_def refIntact_def g)
qed

subsection \<open>A small engine\<close>

text \<open>
  An engine with one heap: a page that holds itself and, twice, a point, and an array of a subclass of \<open>Uint8Array\<close> with its buffer.
\<close>

datatype demoObject = Page | Point | Pixels | Buffer | ObjectCtor | PixelsCtor | BufferCtor

lemma finite_demoObject: "finite (UNIV :: demoObject set)"
proof -
  have "UNIV = {Page, Point, Pixels, Buffer, ObjectCtor, PixelsCtor, BufferCtor}" (is "_ = ?s")
  proof (intro set_eqI iffI)
    fix x :: demoObject show "x \<in> ?s" by (cases x) simp_all
  qed simp
  then show ?thesis by (metis finite.emptyI finite.insertI)
qed

fun demoCtor :: "demoObject \<Rightarrow> demoObject gojaValue" where
  "demoCtor Page = ObjectValue ObjectCtor" | "demoCtor Point = ObjectValue ObjectCtor"
| "demoCtor Pixels = ObjectValue PixelsCtor" | "demoCtor Buffer = ObjectValue BufferCtor" | "demoCtor obj = NilValue"

definition demoText :: "string \<Rightarrow> demoObject gojaValue" where "demoText s = PrimitiveValue (PString s)"

definition demoInt :: "64 word \<Rightarrow> demoObject gojaValue" where "demoInt n = PrimitiveValue (PInt n)"

definition demoGet :: "demoObject \<Rightarrow> string \<Rightarrow> demoObject gojaValue" where
  "demoGet obj key =
     (if key = ''constructor'' then demoCtor obj
      else case obj of
        Page \<Rightarrow> if key = ''self'' then ObjectValue Page else if key \<in> {''a'', ''b''} then ObjectValue Point else NilValue
      | Point \<Rightarrow> if key = ''x'' then PrimitiveValue (PFloat 0x3FF0000000000000) else NilValue
      | Pixels \<Rightarrow> if key = ''byteOffset'' then demoInt 0 else if key = ''byteLength'' then demoInt 2
                 else if key = ''buffer'' then ObjectValue Buffer else NilValue
      | Buffer \<Rightarrow> NilValue
      | ObjectCtor \<Rightarrow> if key = ''name'' then demoText ''Object'' else NilValue
      | PixelsCtor \<Rightarrow> if key = ''name'' then demoText ''Pixels'' else NilValue
      | BufferCtor \<Rightarrow> if key = ''name'' then demoText ''ArrayBuffer'' else NilValue)"

definition demoEngine :: "(demoObject, unit) gojaEngine" where
  "demoEngine = \<lparr>
     gj_Export = (\<lambda>obj h. Inr (if obj = Buffer then ExportArrayBuffer [7, 9] else ExportOther ''map[string]interface {}'', h)),
     gj_ToObject = (\<lambda>p h. Inl ''TypeError''),
     gj_ClassName = (\<lambda>obj h. if obj \<in> {Page, Point, Pixels, Buffer} then ''Object'' else ''Function''),
     gj_ImplName = (\<lambda>obj h. if obj = Pixels then ''typedArrayObject'' else if obj = Buffer then ''arrayBufferObject'' else ''baseObject''),
     gj_HasAccessor = (\<lambda>obj key h. False),
     gj_Get = (\<lambda>obj key h. Inr (demoGet obj key, h)),
     gj_GetOwnPropertyNames = (\<lambda>obj h. Inr ([], h)),
     gj_Keys = (\<lambda>obj h. Inr (if obj = Page then [''self'', ''b'', ''a''] else if obj = Point then [''x''] else [], h)),
     gj_String = (\<lambda>v h. Inr (case v of PrimitiveValue (PString s) \<Rightarrow> s | _ \<Rightarrow> [], h)),
     gj_ToInteger = (\<lambda>v h. Inr (case v of PrimitiveValue (PInt n) \<Rightarrow> n | _ \<Rightarrow> 0, h)),
     gj_ToBoolean = (\<lambda>v. False),
     gj_Callable = (\<lambda>obj h. False),
     gj_Call = (\<lambda>f this args h. Inl ''TypeError''),
     gj_NewObject = (\<lambda>h. (Page, h)), gj_NewArray = (\<lambda>h. (Point, h)), gj_NewPromise = (\<lambda>h. (Page, h)),
     gj_Global = (\<lambda>name h. Inr (NilValue, h)), gj_New = (\<lambda>f args h. (Inl ''TypeError'', h)),
     gj_Set = (\<lambda>obj key v h. Inl ''TypeError''), gj_SetKeepAlive = (\<lambda>obj v h. Inl ''TypeError''),
     gj_Resolve = (\<lambda>obj v h. Inl ''TypeError''), gj_ToValue = PrimitiveValue\<rparr>"

definition pageGraph :: wireGraph where
  "pageGraph = \<lparr>wg_Root = refValue 1, wg_Nodes =
     [zeroNode\<lparr>wn_ID := 1, wn_Kind := nodeObject, wn_Props :=
        [\<lparr>wp_Key = ''a'', wp_Value = refValue 2\<rparr>, \<lparr>wp_Key = ''b'', wp_Value = refValue 2\<rparr>, \<lparr>wp_Key = ''self'', wp_Value = refValue 1\<rparr>]\<rparr>,
      zeroNode\<lparr>wn_ID := 2, wn_Kind := nodeObject, wn_Props := [\<lparr>wp_Key = ''x'', wp_Value = numberValue 0x3FF0000000000000\<rparr>]\<rparr>]\<rparr>"

definition pixelsGraph :: wireGraph where
  "pixelsGraph = \<lparr>wg_Root = refValue 1, wg_Nodes =
     [zeroNode\<lparr>wn_ID := 1, wn_Kind := nodeTypedArray, wn_TextA := ''Pixels'', wn_ByteLength := 2, wn_Buffer := refValue 2\<rparr>,
      zeroNode\<lparr>wn_ID := 2, wn_Kind := nodeArrayBuffer, wn_Bytes := [7, 9]\<rparr>]\<rparr>"

lemma demo_page: "gojaGraph demoEngine 1 3 (ObjectValue Page) () = Inr (pageGraph, ())"
  by code_simp

lemma demo_pixels: "gojaGraph demoEngine 1 3 (ObjectValue Pixels) () = Inr (pixelsGraph, ())"
  by code_simp

subsection \<open>What is encoded can be decoded\<close>

text \<open>
  C22. Whatever the engine answers, a graph that \<open>EncodeGoja\<close> makes of a value has
  the nodes 1, 2, 3 and so on, with references to these only, and is marshalled.
  Its payload decodes if, and only if, every typed array lies in an encoded
  buffer, has whole elements and a constructor with a known size of elements:
  a payload with an array of a subclass of a typed array is never decoded.
\<close>

theorem goja_payload_decodes:
  assumes "musLib_ok L" and "gojaGraph G n k v h = Inr (g, h')"
    and "length (wg_Nodes g) < 2 ^ 32" and "fitsGraph g"
  shows "\<exists>bs. EncodeGoja L G n k v h = Inr (bs, h') \<and>
    map wn_ID (wg_Nodes g) = map nodeNumber [0..<length (wg_Nodes g)] \<and>
    unmarshalGraph L bs = (case validateGraph g of None \<Rightarrow> Inr (normGraph g) | Some err \<Rightarrow> Inl err) \<and>
    (validateGraph g = None \<longleftrightarrow> (\<forall>node \<in> set (wg_Nodes g). wn_Kind node = nodeTypedArray \<longrightarrow> windowIn g node))"
  using marshalGraph_bytes [OF assms(1,4)] unmarshal_graphBytes [OF assms(1,4)] gojaGraph_numbered [OF assms(2)]
    numberedGraph_validates [OF gojaGraph_numbered [OF assms(2)] assms(3,4)] assms(2)
  by (simp add: EncodeGoja_def validateGraph_norm numberedGraph_def split: option.splits)

theorem goja_payload_decodes_witness:
  "\<exists>bs. EncodeGoja lebLib demoEngine 1 3 (ObjectValue Pixels) () = Inr (bs, ()) \<and> \<not> isl (Inr bs :: string + bytes) \<and>
    unmarshalGraph lebLib bs = Inl (ErrInvalidWire (''unknown typed array constructor '' @ quote ''Pixels''))"
proof -
  have fits: "fitsGraph pixelsGraph"
    by (simp add: pixelsGraph_def fitsGraph_def fitsNode_def fitsValue_def fitsText_def fitsSlice_def maxAlloc_def MaxLen_def
        zeroNode_def zeroValue_def refValue_def)
  have "validateGraph pixelsGraph = Some (ErrInvalidWire (''unknown typed array constructor '' @ quote ''Pixels''))"
    by code_simp
  moreover have "length (wg_Nodes pixelsGraph) < 2 ^ 32" by (simp add: pixelsGraph_def)
  ultimately show ?thesis using goja_payload_decodes [OF lebLib_ok demo_pixels _ fits] by auto
qed

subsection \<open>Encoding ends\<close>

text \<open>
  C25. Encoding ends on every value, cyclic or shared, where the engine stays
  within finitely many objects and its iterators end: the recursion is no deeper
  than the number of these objects, whatever getters do meanwhile.
\<close>

theorem goja_encoding_ends:
  assumes "finite Os" and "closedEngine G Os" and "iteratorsEnd G n" and "within Os v"
  shows "EncodeGoja L G n (Suc (card Os)) v h \<noteq> Inl BridgeFuel"
proof -
  have engine: "object_engine G n Os True" using assms by (simp add: object_engine_def)
  have "gojaEncodeValue G n (Suc (card Os)) v (newGojaEncoder h) \<noteq> Inl BridgeFuel"
    using object_engine.encodeValue_spec [OF engine assms(4), of "Suc (card Os)"] numbered_new [of Os h]
    by (auto simp: threads_def fuelFor_def encoderFails_def newGojaEncoder_def simp del: gojaEncodeValue.simps)
  then show ?thesis
    by (auto simp: EncodeGoja_def gojaGraph_def rbind_Inl_iff simp del: gojaEncodeValue.simps split: sum.splits)
qed

theorem goja_encoding_ends_witness:
  "EncodeGoja lebLib demoEngine 0 (Suc (card (UNIV :: demoObject set))) (ObjectValue Page) () \<noteq> Inl BridgeFuel"
proof (rule goja_encoding_ends [OF finite_demoObject closedEngine_UNIV])
  show "iteratorsEnd demoEngine 0"
    by (simp add: iteratorsEnd_def gojaMapEntries_def gojaSetValues_def iterated_def gbind_def gojaGet_def calling_def
        functionOr_def AssertFunction_def asking_def demoEngine_def gret_def gfail_def split: gojaValue.split)
qed (simp add: within_def)

subsection \<open>The graph of the objects\<close>

text \<open>
  C23. Where reading answers the same whenever it happens, the encoded graph is
  the graph of the objects: there is a list of distinct objects, one for each
  node, and the node of each is what the encoder makes of the object alone when
  the values in it are described by the numbers of their objects. So sharing and
  cycles are kept, no object has two nodes, and the order of the walk does not
  matter.
\<close>

theorem goja_graph_is_object_graph:
  assumes "steadyEngine G n Os H" and "h \<in> H" and "within Os v" and "gojaGraph G n k v h = Inr (g, h')"
  shows "\<exists>os ids. distinct os \<and> length os = length (wg_Nodes g) \<and> dom ids = set os \<and>
    (\<exists>h1. describeNumbered G ids v (newGojaEncoder h) = Inr (wg_Root g, newGojaEncoder h1)) \<and>
    (\<forall>i<length os. ids (os ! i) = Some (nodeNumber i) \<and>
      (\<exists>h1. buildNode G n (describeNumbered G ids) (os ! i) (zeroNode\<lparr>wn_ID := nodeNumber i\<rparr>) (newGojaEncoder h) =
        Inr (wg_Nodes g ! i, newGojaEncoder h1)))"
proof -
  from assms(4) obtain root e where run: "gojaEncodeValue G n k v (newGojaEncoder h) = Inr (root, e)"
      and g: "g = \<lparr>wg_Root = root, wg_Nodes = ge_nodes e\<rparr>" by (auto simp: gojaGraph_def rbind_Inr_iff)
  have heap: "(newGojaEncoder h)\<lparr>ge_heap := h1\<rparr> = (newGojaEncoder h1 :: ('a, 'b) gojaEncoder)" for h1
    by (simp add: newGojaEncoder_def)
  have new: "tracks G n Os H [] {} (newGojaEncoder h)"
    using assms(2) by (simp add: tracks_def newGojaEncoder_def nodeNumber_def)
  have inH: "ge_heap (newGojaEncoder h :: ('a, 'b) gojaEncoder) \<in> H" using assms(2) by (simp add: newGojaEncoder_def)
  note result = follows_encodeValue [OF assms(1,3), of k, unfolded follows_def, rule_format, OF new run]
  from result obtain os where os: "tracks G n Os H os {} e" by auto
  from result inH obtain h1 where root: "describeNumbered G (ge_seen e) v (newGojaEncoder h) = Inr (root, (newGojaEncoder h)\<lparr>ge_heap := h1\<rparr>)"
    by (meson map_le_refl)
  have "\<exists>h1. buildNode G n (describeNumbered G (ge_seen e)) (os ! i) (zeroNode\<lparr>wn_ID := nodeNumber i\<rparr>) (newGojaEncoder h) =
      Inr (ge_nodes e ! i, newGojaEncoder h1)" if "i < length os" for i
  proof -
    have "described G n H (ge_seen e) (os ! i) (nodeNumber i) (ge_nodes e ! i)" using os that by (simp add: tracks_def)
    with inH show ?thesis unfolding described_def by (metis heap map_le_refl)
  qed
  with os root show ?thesis
    by (intro exI [of _ os] exI [of _ "ge_seen e"]) (auto simp: tracks_def g heap)
qed

theorem goja_graph_is_object_graph_witness:
  "\<exists>os ids. distinct os \<and> length os = 2 \<and> ids (os ! 0) = Some (nodeNumber 0) \<and>
    (\<exists>h1. describeNumbered demoEngine ids (ObjectValue Page) (newGojaEncoder ()) = Inr (refValue 1, newGojaEncoder h1))"
proof -
  have "steadyEngine demoEngine 1 UNIV UNIV"
    by (simp add: steadyEngine_def closedEngine_UNIV steadyAnswers_def sameOn_def)
  from goja_graph_is_object_graph [OF this UNIV_I _ demo_page] obtain os ids where
    "distinct os" "length os = length (wg_Nodes pageGraph)"
    "\<exists>h1. describeNumbered demoEngine ids (ObjectValue Page) (newGojaEncoder ()) = Inr (wg_Root pageGraph, newGojaEncoder h1)"
    "\<forall>i<length os. ids (os ! i) = Some (nodeNumber i)"
    by (auto simp: within_def)
  then show ?thesis by (intro exI [of _ os] exI [of _ ids]) (simp add: pageGraph_def)
qed

end
