(* ===== verification/Goja_Objects.thy ===== *)
theory Goja_Objects
  imports Goja_Decode Goja_Claims
begin

text \<open>
  Decoding a valid graph into engine values: every reference and every resolver
  the decoder looks up is there, so that it fails only where the engine does.
\<close>

subsection \<open>The state of the decoder\<close>

definition decoderGrows :: "('o, 'h) gojaDecoder \<Rightarrow> ('o, 'h) gojaDecoder \<Rightarrow> bool" where
  "decoderGrows d d' \<longleftrightarrow> dom (gd_refs d) \<subseteq> dom (gd_refs d') \<and> dom (gd_promiseResolves d) \<subseteq> dom (gd_promiseResolves d')"

text \<open>
  The failures that come from the engine: an error or a panic of a call, and a
  constructor or method of the engine that is not there or not what it should be.
\<close>

definition engineTexts :: "string set" where
  "engineTexts = {''BigInt unavailable'', ''goja map.set missing'', ''goja set.add missing'', ''goja typed array buffer is not ArrayBuffer''}"

definition engineFailure :: "bridgeFailure \<Rightarrow> bool" where
  "engineFailure err \<longleftrightarrow>
     (\<exists>t. err = EngineError t) \<or> (\<exists>t. err = BridgePanic t) \<or> (\<exists>t \<in> engineTexts. err = BridgeWire (ErrInvalidWire t))"

interpretation dec: threading "\<lambda>d. True" decoderGrows
  by unfold_locales (unfold decoderGrows_def, blast+)

text \<open>A step that may fail as the engine does, in a state with \<open>p\<close>, and gives \<open>q\<close>.\<close>

abbreviation decodes :: "(('o, 'h) gojaDecoder \<Rightarrow> bool) \<Rightarrow> ('o, 'h, 'a) decoding \<Rightarrow> ('a \<Rightarrow> ('o, 'h) gojaDecoder \<Rightarrow> bool) \<Rightarrow> bool" where
  "decodes \<equiv> threads (\<lambda>d. True) decoderGrows engineFailure"

definition knows :: "32 word set \<Rightarrow> 32 word set \<Rightarrow> ('o, 'h) gojaDecoder \<Rightarrow> bool" where
  "knows refs resolves d \<longleftrightarrow> refs \<subseteq> dom (gd_refs d) \<and> resolves \<subseteq> dom (gd_promiseResolves d)"

lemma knows_stable: "stableFor decoderGrows (knows refs resolves)"
  unfolding stableFor_def knows_def decoderGrows_def by blast

lemmas decodes_bind = dec.spec_bind [OF _ knows_stable]

lemma decodes_then:
  assumes f: "decodes (knows R P) f (\<lambda>x d. True)" and g: "\<And>x. decodes (knows R P) (g x) q"
  shows "decodes (knows R P) (gbind f g) q"
  by (rule decodes_bind [OF f]) (simp add: g)

lemma decodes_calling: "(\<And>t. engineFailure (fail t)) \<Longrightarrow> decodes p (dcalling fail f) (\<lambda>x d. True)"
  by (auto simp: threads_def dcalling_def decoderGrows_def split: sum.splits)

lemma engineFailure_call: "engineFailure (EngineError t)" "engineFailure (BridgePanic t)"
  by (simp_all add: engineFailure_def)

lemma decodes_making: "decodes p (dmaking f) (\<lambda>x d. True)"
  by (auto simp: threads_def dmaking_def decoderGrows_def split: prod.splits)

lemma decodes_vmGet: "decodes p (vmGet G name) (\<lambda>x d. True)"
  unfolding vmGet_def by (rule decodes_calling) (rule engineFailure_call)

lemma decodes_vmTryNew: "decodes p (vmTryNew G ctor args) (\<lambda>x d. True)"
  unfolding vmTryNew_def by (rule decodes_making)

lemma decodes_ret: "decodes p (gret x) (\<lambda>x d. True)"
  by (rule dec.spec_ret) simp

lemma decodes_vmNew: "decodes (knows R P) (vmNew G ctor args) (\<lambda>x d. True)"
  unfolding vmNew_def
  by (rule decodes_then [OF decodes_vmTryNew])
     (auto simp: newOr_def engineFailure_call split: sum.split intro: decodes_ret dec.spec_fail)

lemma decodes_set: "decodes p (objSet G obj key v) (\<lambda>x d. True)"
  unfolding objSet_def by (rule decodes_calling) (rule engineFailure_call)

lemma decodes_functionIn: "t \<in> engineTexts \<Longrightarrow> decodes p (functionIn G t v) (\<lambda>x d. True)"
  by (cases v)
     (auto simp: functionIn_def threads_def invalidGoja_def gfail_def gret_def engineFailure_def decoderGrows_def)

lemma decodes_seach:
  assumes "\<And>x. x \<in> set xs \<Longrightarrow> decodes (knows R P) (f x) (\<lambda>u d. True)"
  shows "decodes (knows R P) (seach f xs) (\<lambda>u d. True)"
  using assms
proof (induction xs)
  case Nil
  show ?case unfolding seach.simps by (rule decodes_ret)
next
  case (Cons x xs)
  show ?case unfolding seach.simps by (rule decodes_then [OF Cons.prems]) (simp_all add: Cons)
qed

text \<open>The parts of the loops may establish something for their element.\<close>

lemma decodes_seach_all:
  assumes f: "\<And>x. x \<in> set xs \<Longrightarrow> decodes (knows R P) (f x) (\<lambda>u. q x)" and q: "\<And>x. stableFor decoderGrows (q x)"
  shows "decodes (knows R P) (seach f xs) (\<lambda>u d. \<forall>x \<in> set xs. q x d)"
  using f
proof (induction xs)
  case Nil
  show ?case unfolding seach.simps by (rule dec.spec_ret) simp
next
  case (Cons x xs)
  have "decodes (\<lambda>d. knows R P d \<and> q x d) (seach f xs) (\<lambda>u d. (\<forall>x \<in> set xs. q x d) \<and> q x d)"
    by (rule dec.spec_frame [OF Cons.IH q]) (rule Cons.prems, simp)
  then have rest: "decodes (\<lambda>d. knows R P d \<and> q x d) (seach f xs) (\<lambda>u d. \<forall>x \<in> set (x # xs). q x d)"
    by (rule dec.spec_weaken) auto
  show ?case unfolding seach.simps by (rule decodes_bind [OF Cons.prems rest]) simp
qed

subsection \<open>Values and nodes\<close>

definition refOf :: "wireValue \<Rightarrow> 32 word set" where
  "refOf w = (if wv_Kind w = valueRef then {wv_Ref w} else {})"

lemma decodes_value:
  assumes "refOf w \<subseteq> R"
  shows "decodes (knows R P) (gojaDecodeValue G w) (\<lambda>v d. wv_Kind w = valueRef \<longrightarrow> (\<exists>obj. v = ObjectValue obj))"
proof (cases "wv_Kind w")
  case valueBigInt
  have known: "''BigInt unavailable'' \<in> engineTexts" by (simp add: engineTexts_def)
  have "decodes (knows R P) (gojaDecodeValue G w) (\<lambda>v d. True)"
    unfolding gojaDecodeValue_def valueBigInt valueKind.case
    by (intro decodes_then decodes_vmGet decodes_functionIn [OF known] decodes_calling engineFailure_call)
  then show ?thesis using valueBigInt by simp
next
  case valueRef
  with assms show ?thesis
    by (auto simp: gojaDecodeValue_def threads_def knows_def refOf_def gret_def decoderGrows_def split: option.split)
qed (auto simp: gojaDecodeValue_def intro!: dec.spec_ret split: numberKind.split)

lemma decodes_value': "refOf w \<subseteq> R \<Longrightarrow> decodes (knows R P) (gojaDecodeValue G w) (\<lambda>v d. True)"
  using decodes_value by (rule dec.spec_weaken) simp_all

lemma decodes_putRef: "decodes p (putRef i obj) (\<lambda>u d. i \<in> dom (gd_refs d))"
  by (auto simp: threads_def putRef_def gret_def decoderGrows_def)

lemma decodes_arrayBuffer: "decodes (knows R P) (newArrayBufferValue G bs) (\<lambda>x d. True)"
  unfolding newArrayBufferValue_def setByte_def
  by (auto intro!: decodes_then decodes_vmGet decodes_vmNew decodes_ret decodes_seach decodes_set)

lemma decodes_newError: "decodes (knows R P) (newErrorValue G node) (\<lambda>x d. True)"
  unfolding newErrorValue_def Let_def
  by (auto intro!: decodes_then decodes_vmGet decodes_vmNew decodes_vmTryNew decodes_ret dec.spec_fail
      simp: engineFailure_call split: sum.split)

lemma decodes_allocateNode:
  "decodes (knows R P) (allocateNode G node) (\<lambda>u d. wn_Kind node \<noteq> nodeTypedArray \<longrightarrow>
     wn_ID node \<in> dom (gd_refs d) \<and> (wn_Kind node = nodePromise \<longrightarrow> wn_ID node \<in> dom (gd_promiseResolves d)))"
proof (cases "wn_Kind node = nodeTypedArray")
  case True
  then show ?thesis by (auto simp: allocateNode_def intro: dec.spec_ret)
next
  case False
  have "decodes (knows R P) (allocateObject G node)
      (\<lambda>obj d. wn_Kind node = nodePromise \<longrightarrow> wn_ID node \<in> dom (gd_promiseResolves d))"
  proof (cases "wn_Kind node = nodePromise")
    case True
    then show ?thesis
      by (auto simp: allocateObject_def threads_def gbind_def dmaking_def gret_def decoderGrows_def split: prod.split)
  next
    case notPromise: False
    with False have "decodes (knows R P) (allocateObject G node) (\<lambda>obj d. True)"
      by (cases "wn_Kind node")
         (auto simp: allocateObject_def intro!: decodes_then decodes_vmGet decodes_vmNew decodes_making decodes_arrayBuffer decodes_newError)
    with notPromise show ?thesis by simp
  qed
  note object = this
  have put: "decodes (\<lambda>d. knows R P d \<and> (wn_Kind node = nodePromise \<longrightarrow> wn_ID node \<in> dom (gd_promiseResolves d)))
      (putRef (wn_ID node) obj) (\<lambda>u d. wn_Kind node \<noteq> nodeTypedArray \<longrightarrow>
        wn_ID node \<in> dom (gd_refs d) \<and> (wn_Kind node = nodePromise \<longrightarrow> wn_ID node \<in> dom (gd_promiseResolves d)))" for obj
    by (auto simp: threads_def putRef_def gret_def decoderGrows_def)
  show ?thesis unfolding allocateNode_def if_not_P [OF False] by (rule decodes_bind [OF object put])
qed

lemma decodes_typedArray:
  assumes kind: "wv_Kind (wn_Buffer node) = valueRef" and ref: "wv_Ref (wn_Buffer node) \<in> R"
    and size: "bytesPerElement (wn_TextA node) \<noteq> 0" "wn_ByteLength node mod bytesPerElement (wn_TextA node) = 0"
  shows "decodes (knows R P) (allocateTypedArray G node) (\<lambda>u d. wn_Kind node = nodeTypedArray \<longrightarrow> wn_ID node \<in> dom (gd_refs d))"
proof (cases "wn_Kind node = nodeTypedArray")
  case False
  then show ?thesis by (auto simp: allocateTypedArray_def intro: dec.spec_ret)
next
  case True
  have "refOf (wn_Buffer node) \<subseteq> R" using ref by (simp add: refOf_def)
  from decodes_value [OF this] kind
  have buffer: "decodes (knows R P) (gojaDecodeValue G (wn_Buffer node)) (\<lambda>v d. \<exists>obj. v = ObjectValue obj)" by simp
  have known: "engineFailure (BridgeWire (ErrInvalidWire ''goja typed array buffer is not ArrayBuffer''))"
    by (simp add: engineFailure_def engineTexts_def)
  have whole: "\<not> (bytesPerElement (wn_TextA node) = 0 \<or> wn_ByteLength node mod bytesPerElement (wn_TextA node) \<noteq> 0)"
    using size by blast
  have put: "decodes p (putRef (wn_ID node) obj) (\<lambda>u d. wn_Kind node = nodeTypedArray \<longrightarrow> wn_ID node \<in> dom (gd_refs d))" for p obj
    using decodes_putRef by (rule dec.spec_weaken) simp_all
  show ?thesis
    unfolding allocateTypedArray_def
  proof (simp only: True simp_thms if_False, rule decodes_bind [OF buffer])
    fix v
    show "decodes (\<lambda>d. knows R P d \<and> (\<exists>obj. v = ObjectValue obj))
        (case v of ObjectValue bufferObject \<Rightarrow>
          gbind (dcalling BridgePanic (gj_Export G bufferObject)) (\<lambda>exported.
            case exported of ExportArrayBuffer bs \<Rightarrow>
              (let bytesPer = bytesPerElement (wn_TextA node) in
               if bytesPer = 0 \<or> wn_ByteLength node mod bytesPer \<noteq> 0 then invalidGoja ''invalid goja typed array length''
               else gbind (vmGet G (wn_TextA node)) (\<lambda>ctor.
                 gbind (vmNew G ctor [v, gj_ToValue G (PInt (ucast (wn_ByteOffset node))),
                   gj_ToValue G (PInt (ucast (wn_ByteLength node div bytesPer)))]) (\<lambda>obj.
                 gbind (dcalling EngineError (gj_SetKeepAlive G obj v)) (\<lambda>u. putRef (wn_ID node) obj))))
            | _ \<Rightarrow> invalidGoja ''goja typed array buffer is not ArrayBuffer'')
        | _ \<Rightarrow> invalidGoja ''goja typed array buffer is not object'')
        (\<lambda>u d. wn_ID node \<in> dom (gd_refs d))"
    proof (cases v)
      case (ObjectValue obj)
      have "decodes (knows R P) (gbind (dcalling BridgePanic (gj_Export G obj)) (\<lambda>exported.
            case exported of ExportArrayBuffer bs \<Rightarrow>
              (let bytesPer = bytesPerElement (wn_TextA node) in
               if bytesPer = 0 \<or> wn_ByteLength node mod bytesPer \<noteq> 0 then invalidGoja ''invalid goja typed array length''
               else gbind (vmGet G (wn_TextA node)) (\<lambda>ctor.
                 gbind (vmNew G ctor [v, gj_ToValue G (PInt (ucast (wn_ByteOffset node))),
                   gj_ToValue G (PInt (ucast (wn_ByteLength node div bytesPer)))]) (\<lambda>obj.
                 gbind (dcalling EngineError (gj_SetKeepAlive G obj v)) (\<lambda>u. putRef (wn_ID node) obj))))
            | _ \<Rightarrow> invalidGoja ''goja typed array buffer is not ArrayBuffer''))
          (\<lambda>u d. wn_Kind node = nodeTypedArray \<longrightarrow> wn_ID node \<in> dom (gd_refs d))"
        using known put unfolding Let_def if_not_P [OF whole]
        by (auto intro!: decodes_then decodes_calling engineFailure_call decodes_vmGet decodes_vmNew dec.spec_fail
            simp: invalidGoja_def split: exported.split)
      with True ObjectValue show ?thesis by (auto elim: dec.spec_pre)
    qed (simp_all add: threads_def)
  qed
qed

subsection \<open>Filling\<close>

lemma decodes_fillSlot: "refOf (ws_Value (snd s)) \<subseteq> R \<or> \<not> ws_Present (snd s) \<Longrightarrow> decodes (knows R P) (fillSlot G obj s) (\<lambda>u d. True)"
  by (auto simp: fillSlot_def intro!: decodes_then decodes_value' decodes_set decodes_ret)

lemma decodes_fillEntry:
  "refOf (we_Key x) \<subseteq> R \<Longrightarrow> refOf (we_Value x) \<subseteq> R \<Longrightarrow> decodes (knows R P) (fillEntry G obj f x) (\<lambda>u d. True)"
  unfolding fillEntry_def
  by (intro decodes_then decodes_value' decodes_calling engineFailure_call decodes_ret)

lemma decodes_fillValue: "refOf x \<subseteq> R \<Longrightarrow> decodes (knows R P) (fillValue G obj f x) (\<lambda>u d. True)"
  unfolding fillValue_def
  by (intro decodes_then decodes_value' decodes_calling engineFailure_call decodes_ret)

lemma decodes_fillError: "refOf (wn_Cause node) \<subseteq> R \<Longrightarrow> decodes (knows R P) (fillError G obj node) (\<lambda>u d. True)"
  unfolding fillError_def
  by (rule decodes_then [OF decodes_value'], assumption, rule decodes_then [OF decodes_set])
     (auto intro: decodes_set decodes_ret)

lemma decodes_fillPromise:
  assumes "refOf (wn_Promise node) \<subseteq> R" and "wn_ID node \<in> P"
  shows "decodes (knows R P) (fillPromise G node) (\<lambda>u d. True)"
proof -
  have "decodes (knows R P) (gbind (gojaDecodeValue G (wn_Promise node)) (\<lambda>v. dcalling EngineError (gj_Resolve G resolve v))) (\<lambda>u d. True)"
    for resolve by (intro decodes_then decodes_value' [OF assms(1)] decodes_calling engineFailure_call)
  then show ?thesis
    using assms(2) by (auto simp: threads_def fillPromise_def knows_def split: option.split)
qed

text \<open>The values of a node that filling decodes.\<close>

definition filledValues :: "wireNode \<Rightarrow> wireValue set" where
  "filledValues node = wp_Value ` set (wn_Props node) \<union>
     (case wn_Kind node of
        nodeArray \<Rightarrow> {ws_Value s | s. s \<in> set (wn_Slots node) \<and> ws_Present s}
      | nodeMap \<Rightarrow> we_Key ` set (wn_Entries node) \<union> we_Value ` set (wn_Entries node)
      | nodeSet \<Rightarrow> set (wn_Values node)
      | nodePromise \<Rightarrow> {wn_Promise node}
      | nodeError \<Rightarrow> {wn_Cause node}
      | _ \<Rightarrow> {})"

lemma decodes_fillBody:
  assumes refs: "\<And>w. w \<in> filledValues node \<Longrightarrow> refOf w \<subseteq> R" and promise: "wn_Kind node = nodePromise \<Longrightarrow> wn_ID node \<in> P"
  shows "decodes (knows R P) (fillBody G obj node) (\<lambda>u d. True)"
proof (cases "wn_Kind node")
  case nodeArray
  have slots: "refOf (ws_Value s) \<subseteq> R \<or> \<not> ws_Present s" if "s \<in> set (wn_Slots node)" for s
    using refs [of "ws_Value s"] nodeArray that by (auto simp: filledValues_def)
  have "decodes (knows R P) (fillSlot G obj x) (\<lambda>u d. True)" if "x \<in> set (enumerate 0 (wn_Slots node))" for x
  proof -
    have "fst x < length (wn_Slots node)" "wn_Slots node ! fst x = snd x" using that by (simp_all add: in_set_enumerate_eq)
    then have "snd x \<in> set (wn_Slots node)" by (metis nth_mem)
    then show ?thesis by (intro decodes_fillSlot slots)
  qed
  then show ?thesis
    unfolding fillBody_def nodeArray nodeKind.case by (intro decodes_then decodes_seach decodes_set)
next
  case nodeMap
  have known: "''goja map.set missing'' \<in> engineTexts" by (simp add: engineTexts_def)
  have "refOf (we_Key x) \<subseteq> R" "refOf (we_Value x) \<subseteq> R" if "x \<in> set (wn_Entries node)" for x
    using nodeMap that by (intro refs, simp add: filledValues_def)+
  then show ?thesis
    unfolding fillBody_def nodeMap nodeKind.case
    by (intro decodes_then decodes_calling engineFailure_call decodes_functionIn [OF known] decodes_seach decodes_fillEntry)
next
  case nodeSet
  have known: "''goja set.add missing'' \<in> engineTexts" by (simp add: engineTexts_def)
  have "refOf x \<subseteq> R" if "x \<in> set (wn_Values node)" for x
    using nodeSet that by (intro refs) (simp add: filledValues_def)
  then show ?thesis
    unfolding fillBody_def nodeSet nodeKind.case
    by (intro decodes_then decodes_calling engineFailure_call decodes_functionIn [OF known] decodes_seach decodes_fillValue)
next
  case nodePromise
  with promise show ?thesis by (auto simp: fillBody_def filledValues_def intro!: decodes_fillPromise refs)
next
  case nodeError
  then show ?thesis by (auto simp: fillBody_def filledValues_def intro!: decodes_fillError refs)
qed (simp_all add: fillBody_def decodes_ret)

lemma decodes_fillNode:
  assumes refs: "\<And>w. w \<in> filledValues node \<Longrightarrow> refOf w \<subseteq> R" and self: "wn_ID node \<in> R" and promise: "wn_Kind node = nodePromise \<Longrightarrow> wn_ID node \<in> P"
  shows "decodes (knows R P) (fillNode G node) (\<lambda>u d. True)"
proof -
  have "decodes (knows R P) (fillProp G obj p) (\<lambda>u d. True)" if "p \<in> set (wn_Props node)" for obj p
  proof -
    have "refOf (wp_Value p) \<subseteq> R" using that by (intro refs) (simp add: filledValues_def)
    then show ?thesis unfolding fillProp_def by (intro decodes_then decodes_value' decodes_set)
  qed
  then have "decodes (knows R P) (gbind (fillBody G obj node) (\<lambda>u. seach (fillProp G obj) (wn_Props node))) (\<lambda>u d. True)" for obj
    by (intro decodes_then decodes_fillBody [OF refs promise] decodes_seach)
  then show ?thesis
    using self by (auto simp: threads_def fillNode_def knows_def split: option.split)
qed

subsection \<open>Graphs\<close>

lemma validateGraph_filled:
  assumes valid: "validateGraph g = None" and node: "node \<in> set (wg_Nodes g)" and w: "w \<in> filledValues node"
  shows "refOf w \<subseteq> wn_ID ` set (wg_Nodes g)"
proof -
  have "refIn g w"
    using node w by (cases "wn_Kind node") (force simp: refIn_def filledValues_def)+
  with validateGraph_ref [OF valid] show ?thesis by (simp add: refOf_def)
qed

lemma decodes_graph:
  assumes valid: "validateGraph g = None" and fits: "fitsGraph g"
  shows "decodes (knows {} {}) (decodeGraph G g) (\<lambda>v d. True)"
proof -
  let ?ns = "wg_Nodes g"
  let ?R = "wn_ID ` {node \<in> set ?ns. wn_Kind node \<noteq> nodeTypedArray}" and ?S = "wn_ID ` set ?ns"
    and ?P = "wn_ID ` {node \<in> set ?ns. wn_Kind node = nodePromise}"
  have stable: "stableFor decoderGrows (\<lambda>d. c \<longrightarrow> i \<in> dom (gd_refs d) \<and> (c' \<longrightarrow> i \<in> dom (gd_promiseResolves d)))" for c c' and i
    unfolding stableFor_def decoderGrows_def by blast
  have first: "decodes (knows {} {}) (seach (allocateNode G) ?ns) (\<lambda>u. knows ?R ?P)"
  proof (rule dec.spec_weaken [OF decodes_seach_all [OF decodes_allocateNode stable]])
    show "knows ?R ?P d" if "\<forall>node \<in> set ?ns. wn_Kind node \<noteq> nodeTypedArray \<longrightarrow>
        wn_ID node \<in> dom (gd_refs d) \<and> (wn_Kind node = nodePromise \<longrightarrow> wn_ID node \<in> dom (gd_promiseResolves d))"
      for d :: "('a, 'b) gojaDecoder" using that by (auto simp: knows_def)
  qed simp
  have typed: "decodes (knows ?R ?P) (allocateTypedArray G node) (\<lambda>u d. wn_Kind node = nodeTypedArray \<longrightarrow> wn_ID node \<in> dom (gd_refs d))"
    if node: "node \<in> set ?ns" for node
  proof (cases "wn_Kind node = nodeTypedArray")
    case False
    then show ?thesis by (auto simp: allocateTypedArray_def intro: dec.spec_ret)
  next
    case True
    have fitsB: "\<forall>b \<in> set ?ns. fitsText (wn_Bytes b)" using fits by (simp add: fitsGraph_def fitsNode_def list_all_iff)
    then have "windowIn g node" by (intro validateGraph_window [OF valid node True]) simp
    from windowIn_valid [OF conjunct1 [OF validateGraph_IDs [OF valid]] this fitsB]
    obtain b where b: "wv_Kind (wn_Buffer node) = valueRef" "nodeByID ?ns (wv_Ref (wn_Buffer node)) = Some b" "wn_Kind b = nodeArrayBuffer"
      and size: "bytesPerElement (wn_TextA node) \<noteq> 0" "wn_ByteLength node mod bytesPerElement (wn_TextA node) = 0" by (elim exE conjE)
    from nodeByID_Some [OF b(2)] b(3) have "wv_Ref (wn_Buffer node) \<in> ?R" by (auto simp: image_iff)
    from decodes_typedArray [OF b(1) this size] show ?thesis .
  qed
  have stable2: "stableFor decoderGrows (\<lambda>d. c \<longrightarrow> i \<in> dom (gd_refs d))" for c and i
    unfolding stableFor_def decoderGrows_def by blast
  have second: "decodes (knows ?R ?P) (seach (allocateTypedArray G) ?ns) (\<lambda>u. knows ?S ?P)"
  proof (rule dec.spec_weaken [OF dec.spec_frame [OF decodes_seach_all [OF typed stable2] knows_stable]])
    show "knows ?S ?P d" if "(\<forall>node \<in> set ?ns. wn_Kind node = nodeTypedArray \<longrightarrow> wn_ID node \<in> dom (gd_refs d)) \<and> knows ?R ?P d"
      for d :: "('a, 'b) gojaDecoder" using that by (auto simp: knows_def)
  qed simp_all
  have filling: "decodes (knows ?S ?P) (fill G ?ns) (\<lambda>u d. True)"
    unfolding fill_def
    by (rule decodes_seach, rule decodes_fillNode, erule (1) validateGraph_filled [OF valid]) auto
  have "refOf (wg_Root g) \<subseteq> ?S"
    using validateGraph_ref [OF valid, of "wg_Root g"] by (auto simp: refOf_def refIn_def)
  note root = decodes_value' [OF this]
  have rest: "decodes (knows ?S ?P) (gbind (fill G ?ns) (\<lambda>u. gojaDecodeValue G (wg_Root g))) (\<lambda>v d. True)"
    by (rule decodes_then [OF filling root])
  have alloc: "decodes (knows {} {}) (allocate G ?ns) (\<lambda>u. knows ?S ?P)"
    unfolding allocate_def
    by (rule decodes_bind [OF first], rule dec.spec_pre [OF second]) simp
  show ?thesis
    unfolding decodeGraph_def by (rule decodes_bind [OF alloc], rule dec.spec_pre [OF rest]) simp
qed

text \<open>
  C24. Decoding a payload into engine values fails with the error of the payload,
  or as the engine does: where the payload is valid, no reference or resolver is
  missing, no nil pointer is followed and no typed array has a wrong size,
  whatever the engine answers.
\<close>

theorem goja_decoding_fails_as_engine:
  assumes "musLib_ok L" and "DecodeGoja L G bs h = Inl err"
  shows "case unmarshalGraph L bs of Inl wireErr \<Rightarrow> err = BridgeWire wireErr | Inr g \<Rightarrow> engineFailure err"
proof (cases "unmarshalGraph L bs")
  case (Inl wireErr)
  with assms(2) show ?thesis by (simp add: DecodeGoja_def)
next
  case (Inr g)
  from decodes_graph [OF unmarshalGraph_fits(2) [OF assms(1) Inr] unmarshalGraph_fits(1) [OF assms(1) Inr], of G]
  have "case decodeGraph G g (newGojaDecoder h) of Inl err \<Rightarrow> engineFailure err | Inr r \<Rightarrow> True"
    by (auto simp: threads_def knows_def split: sum.splits)
  with assms(2) Inr show ?thesis by (auto simp: DecodeGoja_def rbind_Inl_iff split: sum.splits)
qed

text \<open>The page is encoded, and the small engine refuses to set the properties of its copy.\<close>

theorem goja_decoding_fails_as_engine_witness:
  "\<exists>bs err. unmarshalGraph lebLib bs = Inr demo_graph \<and> DecodeGoja lebLib demoEngine bs () = Inl err \<and> engineFailure err"
proof -
  obtain bs where bs: "unmarshalGraph lebLib bs = Inr demo_graph"
    using marshalGraph_bytes [OF lebLib_ok demo_graph_ok(1)] unmarshal_graphBytes [OF lebLib_ok demo_graph_ok(1)]
    by (auto simp: demo_graph_ok)
  have "DecodeGoja lebLib demoEngine bs () = Inl (EngineError ''TypeError'')"
    unfolding DecodeGoja_def bs by code_simp
  with goja_decoding_fails_as_engine [OF lebLib_ok this] bs show ?thesis by auto
qed

end
