(* ===== verification/Spec2Isabelle.thy ===== *)
theory Spec2Isabelle
  imports Mem_Claims Sqlite_Claims Session_Claims Resume_Claims Runtime_Claims Wire_Claims Typed_Claims Cell_Claims Inspect_Claims Ts_Claims Goja_Objects
begin

text \<open>
  \<^bold>\<open>A verification library for the durable JavaScript REPL.\<close>

  The program evaluates cells of JavaScript or TypeScript in a branchable,
  durable session. Everything durable is an append-only log of facts
  (\<open>src/model\<close>) kept by a store (\<open>src/store\<close>, with the implementations
  \<open>src/store/mem\<close> and \<open>src/store/sqlite\<close>); the session engine
  (\<open>src/session\<close>) appends facts while it evaluates cells, and rebuilds a runtime
  by replaying the history that the store reconstructs from the log.

  \<^bold>\<open>The model.\<close> A theory per part, with one definition per function of the code.

  \<^item> \<open>Repl_Prelude\<close>: results of fallible and of possibly non-terminating calls
    (\<open>rbind\<close>, \<open>cbind\<close>), the log scans the code uses (first, last, all matches) and
    their lemmas.
  \<^item> \<open>Repl_Model\<close>: the facts, identifiers and enumerations of \<open>src/model\<close>, the
    result structs of \<open>src/store/store.go\<close>, and the errors of the store.
  \<^item> \<open>Mem_Store\<close>: \<open>src/store/mem/mem.go\<close>, entries with their index columns,
    the descriptor table, every query and helper. \<open>ancestorStack\<close> and
    \<open>cutoffWalk\<close> follow parent links and are partial functions: \<open>None\<close> is a walk
    that does not end.
  \<^item> \<open>Store_Ops\<close>: the \<open>Store\<close> interface as a record of operations; its contract
    as the locales \<open>fact_store\<close> (writes and queries may fail), \<open>working_store\<close>
    (appends and the queries of a running session succeed) and \<open>total_store\<close>
    (reading the session cursor does too). The in-memory store interprets the
    last, the SQLite store (\<open>Sqlite_State\<close>) the first two.
  \<^item> \<open>Sqlite_Store\<close>: \<open>src/store/sqlite/sqlite.go\<close>, its two tables, a query as the
    selection its SQL describes, and the error of every call of the driver.
  \<^item> \<open>Effects\<close>: the effect accumulator, live and replayed host calls and the
    replay step of \<open>src/session/runtime.go\<close>. A run of the JavaScript engine is a
    tree of its interactions with the host (\<open>js\<close>).
  \<^item> \<open>Runtime\<close>: descriptors and their resolution, runtime creation, indexed
    results, transitions and plan replay of \<open>src/session/runtime.go\<close>.
  \<^item> \<open>Session\<close>: all of \<open>src/session/session.go\<close>.
  \<^item> \<open>Ts_Check\<close>: the TypeScript session of \<open>src/typescript/typescript.go\<close>;
    \<open>Ts_Claims\<close>: it behaves as the checker \<open>Session\<close> is given, and where its
    diagnostics are reported.
  \<^item> \<open>Wire_Format\<close>: the wire format of \<open>src/jswire/bridge.go\<close>.
  \<^item> \<open>Wire_Model\<close>: the typed Go model of JavaScript values, its encoder and
    decoder (\<open>src/jswire/types.go\<close>, \<open>encode.go\<close>, \<open>decode.go\<close>,
    \<open>graph_builder.go\<close>, \<open>typed_array_codec.go\<close>).
  \<^item> \<open>Wire_Patch\<close>: patches of payloads, \<open>src/jswire/patch.go\<close>.
  \<^item> \<open>Wire_Inspect\<close>: the rendering of payloads for display,
    \<open>src/jswire/inspect.go\<close>; \<open>Inspect_Claims\<close>: it ends and does not panic.
  \<^item> \<open>Goja_Encode\<close>, \<open>Goja_Decode\<close>: \<open>EncodeGoja\<close> and \<open>DecodeGoja\<close> of
    \<open>src/jswire/bridge.go\<close>, between values of the JavaScript engine and the graphs
    of \<open>Wire_Format\<close>. The methods of the engine are the record \<open>gojaEngine\<close>; any
    of them may run code and change its heap, which is threaded through every step
    together with the numbers and nodes given so far (\<open>gojaEncoder\<close>,
    \<open>gojaDecoder\<close>). An object is its pointer.
  \<^item> \<open>Js_Ast\<close>, \<open>Cell_Rewrite\<close>, \<open>Cell_State\<close>: \<open>src/session/top_level_await.go\<close>,
    the syntax trees it takes apart, the rewriting of a cell, and the state of
    top-level declarations with the stashes of the engine that the promotion of a
    scope changes. \<open>Cell_Run\<close>: \<open>runContext\<close> of \<open>src/session/runtime.go\<close>, the
    commit hook and the settling of the value of a cell. \<open>Runtime\<close> and
    \<open>Session\<close> have the evaluation of a cell as a tree of host calls; these
    theories say how a cell becomes the program that is evaluated.

  \<^bold>\<open>The specification.\<close> \<open>Log_Spec\<close> folds a log into its lineage: commits, what
  each branch inherited, and where each ancestor was left; a well-formed log
  (\<open>log_wf\<close>) is one whose facts refer to known cells and branches. \<open>Log_Query\<close>
  states the queries of a store as functions of the log: cursor, active
  descriptor, replay plan, heads, effects and static environment.

  \<^bold>\<open>The theorems.\<close>

  \<^item> \<open>Mem_Refine\<close>, \<open>Mem_Props\<close>, \<open>Mem_Claims\<close>: on a well-formed log the in-memory
    store computes these queries, and its walks end.
  \<^item> \<open>Sqlite_Refine\<close>, \<open>Sqlite_Query\<close>, \<open>Sqlite_State\<close>, \<open>Sqlite_Claims\<close>: the SQLite
    store gives the answers of the in-memory store with the same log, query by
    query, except that its session cursor blocks after a plain restore.
  \<^item> \<open>Effects_Props\<close>: live evaluation of any program on any store appends effect
    facts only. \<open>Replay\<close>: the journal of a run answers its replay.
  \<^item> \<open>Session_Log\<close>, \<open>Session_Props\<close>, \<open>Session_Inv\<close>: what each session operation
    appends, for every outcome and every store that keeps the contract; the step
    relation \<open>session_step\<close> of a session and its invariant.
  \<^item> \<open>Rebuild\<close>, \<open>Resume\<close>, \<open>Availability\<close>, \<open>Resume_Runs\<close>: the live runtime is the
    replayed one along the runs of \<open>resume_step\<close>, and reopening and restoring
    succeed there.
  \<^item> \<open>Session_Example\<close>: one run of a small engine on the in-memory store; the
    witnesses are about it.
  \<^item> \<open>Wire_Codec\<close>, \<open>Wire_Claims\<close>: each reader of the wire format takes exactly what
    its writer wrote, and what decodes is safe to walk.
  \<^item> \<open>Wire_Typed\<close>: \<open>denotes\<close>, the tree a reference of a graph stands for, and the
    decoder computes it. \<open>Wire_Encode\<close>, \<open>Wire_Emit\<close>, \<open>Wire_Append\<close>,
    \<open>Wire_Roundtrip\<close>: what the encoder adds to a graph is valid and denotes the
    value, embedded payloads under new identifiers included.
  \<^item> \<open>Wire_Patch_Trees\<close>, \<open>Wire_Patch_Props\<close>, \<open>Wire_Patch_Edit\<close>,
    \<open>Wire_Patch_Refine\<close>: a patch refines the edit of a tree (\<open>editAt\<close>).
  \<^item> \<open>Goja_Props\<close>: triples of the steps of the encoder (\<open>threads\<close>, with the locale
    \<open>threading\<close> for the rules every such triple has). \<open>Goja_Graph\<close>: objects are
    numbered in the order they are met and every reference leads to a node.
    \<open>Goja_Faithful\<close>: the graph is what a second pass with the final numbers
    (\<open>describeNumbered\<close>) makes of the objects. \<open>Goja_Claims\<close>, \<open>Goja_Objects\<close>: the
    properties of the encoder, and decoding fails only as the engine does.
  \<^item> \<open>Cell_Names\<close>, \<open>Cell_Table\<close>: the declarations of a cell and the redeclaration
    table along cells. \<open>Cell_Scope\<close>, \<open>Cell_Promotions\<close>: the slot an identifier
    resolves to and the property of the global object beside it, along promotions.
    \<open>Cell_Completion\<close>: a semantics of statements, and that the rewriting stores
    the completion value. \<open>Cell_Claims\<close>: the properties of cells.
  \<^item> \<open>Session_Claims\<close>, \<open>Resume_Claims\<close>, \<open>Runtime_Claims\<close>, \<open>Typed_Claims\<close>: the
    properties.

  \<^bold>\<open>Parameters and hypotheses.\<close> Code outside the repository is an argument: the
  JavaScript engine goja, JSON, SHA-256, the clock (\<open>Goja\<close>), the delegate of the
  embedding program (\<open>Delegate\<close>), host functions, \<open>uuid\<close> and the order in which
  asynchronous calls finish (\<open>hostEnv\<close>), the TypeScript checker
  (\<open>dp_tsFactory\<close>; for its session, the compiler and esbuild, \<open>toolLib\<close>). Delegates and host functions are functions of their
  arguments. Theorems that need more say so: identifiers are new
  (\<open>fresh_from\<close>, \<open>unused\<close>), a configured descriptor configures to itself
  (\<open>stable_config\<close>), encoding JSON twice changes nothing (\<open>json_normal\<close>), the
  calls of a cell are replayable one at a time (\<open>replayable\<close>), a marshalled fact
  is unmarshalled as it was (\<open>codec_ok\<close>), the database driver does not fail
  (\<open>faultless\<close>), the primitives of mus-go read back what they wrote
  (\<open>musLib_ok\<close>), the engine keeps the global stash while a cell runs
  (\<open>wrapperScope\<close>), \<open>hasOwnProperty\<close> tells whether a property is there
  (\<open>faithfulHasOwn\<close>), a kept check session does not change what a check answers
  (\<open>incremental\<close>), an
  engine hands out objects of a given set only (\<open>closedEngine\<close>), its iterators
  end (\<open>iteratorsEnd\<close>), reading it answers the same whenever it happens
  (\<open>steadyEngine\<close>).

  \<^bold>\<open>Bounds and fuel.\<close> Log positions are compared with \<open>math.MaxInt\<close> in the
  visibility of transitions; theorems that use it assume a log of at most
  \<open>MaxInt\<close> facts. \<open>rewriteLocs\<close> has the length of its text as fuel and consumes a
  character at each step. \<open>resolveLoop\<close> has the 8 passes of the code. The decoder
  of typed values and the rendering have as fuel one more than the number of
  nodes: they enter a node that they are in at most once. Identifiers of nodes have 32 bits: the round trip of typed values is for
  values of fewer than \<open>2 ^ 32\<close> nodes, texts and bytes together (\<open>goSize\<close>), and a
  patch needs free identifiers (\<open>roomFor\<close>). The encoder of engine values has as
  fuel one more than the number of objects, since it enters an object once, and
  another fuel for its loops over iterators, which the engine may make endless.
  A Go map or slice that contains
  itself has no counterpart; the encoder does not return on it.

  \<^bold>\<open>Not modelled.\<close> Mutexes, goroutines and contexts: an operation is one step, and
  the interleaving of asynchronous calls is the choice of \<open>hv_pick\<close>. The
  scanners of \<open>src/session/top_level_await.go\<close> that nothing calls, the
  bridge between values of QuickJS and wire graphs in \<open>src/jswire/bridge.go\<close>,
  which walks them as the bridge of goja does, the
  command line programs and the process-wide registries of \<open>src/engine\<close> are not
  modelled.
\<close>

end
